(* ===== verification/Prelude.thy ===== *)
theory Prelude
  imports
    Complex_Main
    "HOL-Library.AList"
    "HOL-Library.Char_ord"
    "HOL-Library.List_Lexorder"
    "HOL-Library.Multiset"
    "HOL-Library.Signed_Division"
begin

text \<open>
  Shared vocabulary of the development: Go's 64-bit integers, maps, slices sorted with
  \<open>sort.Slice\<close>, byte strings, and the shape every fallible, state-changing call has in
  the model (\<open>op\<close>: the state goes in, the error or the value comes out with the new
  state). Go's \<open>if err != nil { return err }\<close> is \<open>bindE\<close>; a call whose error is
  inspected is \<open>tryE\<close>.
\<close>

named_theorems op_simps \<open>unfolding rules of the error-state operations\<close>
named_theorems gomap_simps \<open>lookup laws of the Go map model\<close>
named_theorems frame_simps \<open>what an operation leaves unchanged\<close>

section \<open>Fallible operations on a state\<close>

type_synonym ('e, 's, 'a) op = "'s \<Rightarrow> ('e + 'a) \<times> 's"

definition okE :: "'a \<Rightarrow> ('e, 's, 'a) op" where
  "okE x s = (Inr x, s)"

definition failE :: "'e \<Rightarrow> ('e, 's, 'a) op" where
  "failE e s = (Inl e, s)"

definition tryE :: "('e, 's, 'a) op \<Rightarrow> ('e \<Rightarrow> ('f, 's, 'b) op) \<Rightarrow> ('a \<Rightarrow> ('f, 's, 'b) op) \<Rightarrow> ('f, 's, 'b) op" where
  "tryE m h k s = (case m s of (Inl e, t) \<Rightarrow> h e t | (Inr x, t) \<Rightarrow> k x t)"

definition bindE :: "('e, 's, 'a) op \<Rightarrow> ('a \<Rightarrow> ('e, 's, 'b) op) \<Rightarrow> ('e, 's, 'b) op" where
  "bindE m k s = (case m s of (Inl e, t) \<Rightarrow> (Inl e, t) | (Inr x, t) \<Rightarrow> k x t)"

definition readE :: "('s \<Rightarrow> 'e + 'a) \<Rightarrow> ('e, 's, 'a) op" where
  "readE r s = (r s, s)"

lemmas [op_simps] = okE_def failE_def readE_def

lemma tryE_simps [op_simps]:
  "m s = (Inl e, t) \<Longrightarrow> tryE m h k s = h e t"
  "m s = (Inr x, t) \<Longrightarrow> tryE m h k s = k x t"
  by (simp_all add: tryE_def)

lemma bindE_simps [op_simps]:
  "m s = (Inl e, t) \<Longrightarrow> bindE m k s = (Inl e, t)"
  "m s = (Inr x, t) \<Longrightarrow> bindE m k s = k x t"
  by (simp_all add: bindE_def)

lemma bindE_ok [simp]: "bindE (okE x) k = k x"
  by (rule ext) (simp add: bindE_def okE_def)

lemma bindE_fail [simp]: "bindE (failE e) k = failE e"
  by (rule ext) (simp add: bindE_def failE_def)

lemma bindE_assoc: "bindE (bindE m k) l = bindE m (\<lambda>x. bindE (k x) l)"
  by (rule ext) (simp add: bindE_def split: prod.splits sum.splits)

text \<open>Taking a composed run apart.\<close>

lemma bindE_InrE:
  "bindE m k s = (Inr x, t) \<Longrightarrow> (\<And>y u. m s = (Inr y, u) \<Longrightarrow> k y u = (Inr x, t) \<Longrightarrow> P) \<Longrightarrow> P"
  by (auto simp: bindE_def split: prod.splits sum.splits)

lemma bindE_E:
  assumes "bindE m k s = (r, t)"
  obtains e where "m s = (Inl e, t)" "r = Inl e" | y u where "m s = (Inr y, u)" "k y u = (r, t)"
  using assms by (auto simp: bindE_def split: prod.splits sum.splits)

lemma tryE_E:
  assumes "tryE m h k s = (r, t)"
  obtains e u where "m s = (Inl e, u)" "h e u = (r, t)" | y u where "m s = (Inr y, u)" "k y u = (r, t)"
  using assms by (auto simp: tryE_def split: prod.splits sum.splits)

text \<open>
  A state predicate is kept by an operation whatever it returns. Go's store methods
  change nothing when they fail, and the composed handlers inherit that call by call.
\<close>

definition keeps :: "('s \<Rightarrow> bool) \<Rightarrow> ('e, 's, 'a) op \<Rightarrow> bool" where
  "keeps I m \<longleftrightarrow> (\<forall>s. I s \<longrightarrow> I (snd (m s)))"

lemma keeps_ok [simp]: "keeps I (okE x)"
  by (simp add: keeps_def okE_def)

lemma keeps_fail [simp]: "keeps I (failE e)"
  by (simp add: keeps_def failE_def)

lemma keeps_read [simp]: "keeps I (readE r)"
  by (simp add: keeps_def readE_def)

lemma keeps_bind: "keeps I m \<Longrightarrow> (\<And>x. keeps I (k x)) \<Longrightarrow> keeps I (bindE m k)"
  unfolding keeps_def bindE_def by (auto split: prod.splits sum.splits)

lemma keeps_try:
  "keeps I m \<Longrightarrow> (\<And>e. keeps I (h e)) \<Longrightarrow> (\<And>x. keeps I (k x)) \<Longrightarrow> keeps I (tryE m h k)"
  unfolding keeps_def tryE_def by (auto split: prod.splits sum.splits)

lemma keepsD: "keeps I m \<Longrightarrow> I s \<Longrightarrow> I (snd (m s))"
  by (simp add: keeps_def)

section \<open>Go integers\<close>

text \<open>\<open>int\<close> and \<open>int64\<close> are two's complement 64-bit; arithmetic wraps.\<close>

definition max_i64 :: int where "max_i64 = 9223372036854775807"
definition min_i64 :: int where "min_i64 = - 9223372036854775808"

definition wrap64 :: "int \<Rightarrow> int" where
  "wrap64 x = (x + 9223372036854775808) mod 18446744073709551616 - 9223372036854775808"

definition is_i64 :: "int \<Rightarrow> bool" where
  "is_i64 x \<longleftrightarrow> min_i64 \<le> x \<and> x \<le> max_i64"

lemma wrap64_id: "is_i64 x \<Longrightarrow> wrap64 x = x"
  by (simp add: wrap64_def is_i64_def min_i64_def max_i64_def)

lemma wrap64_range: "is_i64 (wrap64 x)"
proof -
  have "0 \<le> (x + 9223372036854775808) mod 18446744073709551616"
    and "(x + 9223372036854775808) mod 18446744073709551616 < 18446744073709551616"
    by simp_all
  then show ?thesis by (simp add: wrap64_def is_i64_def min_i64_def max_i64_def)
qed

lemma wrap64_mod: "wrap64 x mod 18446744073709551616 = x mod 18446744073709551616"
  unfolding wrap64_def by (simp add: mod_diff_left_eq)

lemma wrap64_add_left: "wrap64 (wrap64 a + b) = wrap64 (a + b)"
proof -
  have "(wrap64 a + b + 9223372036854775808) mod 18446744073709551616
      = (wrap64 a mod 18446744073709551616 + (b + 9223372036854775808)) mod 18446744073709551616"
    by (simp add: mod_add_left_eq add.assoc)
  also have "\<dots> = (a + b + 9223372036854775808) mod 18446744073709551616"
    by (simp add: wrap64_mod mod_add_left_eq add.assoc)
  finally show ?thesis by (simp add: wrap64_def)
qed

text \<open>\<open>math.Round\<close> rounds half away from zero.\<close>

definition math_round :: "real \<Rightarrow> int" where
  "math_round x = (if x < 0 then - \<lfloor>- x + 1 / 2\<rfloor> else \<lfloor>x + 1 / 2\<rfloor>)"

lemma math_round_mono_nonneg: "0 \<le> x \<Longrightarrow> x \<le> y \<Longrightarrow> math_round x \<le> math_round y"
  by (simp add: math_round_def floor_mono)

lemma math_round_error: "\<bar>real_of_int (math_round x) - x\<bar> \<le> 1 / 2"
proof (cases "x < 0")
  case True
  have "real_of_int \<lfloor>- x + 1 / 2\<rfloor> \<le> - x + 1 / 2" "- x + 1 / 2 < real_of_int \<lfloor>- x + 1 / 2\<rfloor> + 1"
    by (rule of_int_floor_le, rule floor_correct [THEN conjunct2, simplified])
  moreover have "real_of_int (math_round x) = - real_of_int \<lfloor>- x + 1 / 2\<rfloor>"
    using True by (simp add: math_round_def)
  ultimately show ?thesis by linarith
next
  case False
  have "real_of_int \<lfloor>x + 1 / 2\<rfloor> \<le> x + 1 / 2" "x + 1 / 2 < real_of_int \<lfloor>x + 1 / 2\<rfloor> + 1"
    by (rule of_int_floor_le, rule floor_correct [THEN conjunct2, simplified])
  moreover have "real_of_int (math_round x) = real_of_int \<lfloor>x + 1 / 2\<rfloor>"
    using False by (simp add: math_round_def)
  ultimately show ?thesis by linarith
qed

lemma math_round_zero [simp]: "math_round 0 = 0"
  by (simp add: math_round_def)

lemma math_round_nonneg: "0 \<le> x \<Longrightarrow> 0 \<le> math_round x"
  by (simp add: math_round_def)

lemma sdiv_1000_nonneg: "0 \<le> (x::int) \<Longrightarrow> x sdiv 1000 = x div 1000"
  by (simp add: signed_divide_int_def sgn_if)

end
