(* ===== verification/Go_Map.thy ===== *)
theory Go_Map
  imports Prelude
begin

text \<open>
  Go's \<open>map[K]V\<close> as an association list with distinct keys. \<open>range\<close> over a Go map
  visits the entries in an unspecified order; the model visits them in list order, and
  the results that must not depend on the order are stated with \<open>mset\<close>, \<open>set\<close> or
  over an arbitrary permutation. Keyed tables (every row stored under its own id) and the
  create/get/update/delete pattern the stores repeat for every table are here too.
\<close>

section \<open>Maps\<close>

type_synonym ('k, 'v) gomap = "('k \<times> 'v) list"

definition gget :: "('k, 'v) gomap \<Rightarrow> 'k \<Rightarrow> 'v option" where
  "gget m k = map_of m k"

definition gput :: "'k \<Rightarrow> 'v \<Rightarrow> ('k, 'v) gomap \<Rightarrow> ('k, 'v) gomap" where
  "gput k v m = AList.update k v m"

definition gdel :: "'k \<Rightarrow> ('k, 'v) gomap \<Rightarrow> ('k, 'v) gomap" where
  "gdel k m = AList.delete k m"

definition gvals :: "('k, 'v) gomap \<Rightarrow> 'v list" where
  "gvals m = map snd m"

definition gwf :: "('k, 'v) gomap \<Rightarrow> bool" where
  "gwf m \<longleftrightarrow> distinct (map fst m)"

text \<open>A loop \<open>for k, v := range m { m[k] = f(v) }\<close> updates in place.\<close>

definition gmap :: "('v \<Rightarrow> 'w) \<Rightarrow> ('k, 'v) gomap \<Rightarrow> ('k, 'w) gomap" where
  "gmap f m = map (\<lambda>(k, v). (k, f v)) m"

text \<open>A loop \<open>for k, v := range m { if P(v) { delete(m, k) } }\<close> keeps the others.\<close>

definition gkeep :: "('v \<Rightarrow> bool) \<Rightarrow> ('k, 'v) gomap \<Rightarrow> ('k, 'v) gomap" where
  "gkeep P m = filter (\<lambda>(k, v). P v) m"

text \<open>The interface every client of a map relies on.\<close>

locale go_map =
  fixes empty :: "'m"
    and get :: "'m \<Rightarrow> 'k \<Rightarrow> 'v option"
    and put :: "'k \<Rightarrow> 'v \<Rightarrow> 'm \<Rightarrow> 'm"
    and del :: "'k \<Rightarrow> 'm \<Rightarrow> 'm"
    and vals :: "'m \<Rightarrow> 'v list"
    and wf :: "'m \<Rightarrow> bool"
  assumes get_empty: "get empty k = None"
    and get_put: "get (put k v m) k' = (if k' = k then Some v else get m k')"
    and get_del: "get (del k m) k' = (if k' = k then None else get m k')"
    and wf_empty: "wf empty"
    and wf_put: "wf m \<Longrightarrow> wf (put k v m)"
    and wf_del: "wf m \<Longrightarrow> wf (del k m)"
    and vals_get: "wf m \<Longrightarrow> v \<in> set (vals m) \<longleftrightarrow> (\<exists>k. get m k = Some v)"
begin

lemma get_put_same: "get (put k v m) k = Some v"
  by (simp add: get_put)

lemma get_put_other: "k' \<noteq> k \<Longrightarrow> get (put k v m) k' = get m k'"
  by (simp add: get_put)

lemma vals_put: "wf m \<Longrightarrow> set (vals (put k v m)) = insert v {w. \<exists>k'. k' \<noteq> k \<and> get m k' = Some w}"
  using vals_get [OF wf_put, of m] by (auto simp: get_put split: if_splits)

lemma vals_del: "wf m \<Longrightarrow> set (vals (del k m)) = {w. \<exists>k'. k' \<noteq> k \<and> get m k' = Some w}"
  using vals_get [OF wf_del, of m] by (auto simp: get_del split: if_splits)

lemma put_overwrites: "get (put k v (put k w m)) = get (put k v m)"
  by (rule ext) (simp add: get_put)

end

lemma map_of_unique_vals:
  "distinct (map fst m) \<Longrightarrow> v \<in> snd ` set m \<longleftrightarrow> (\<exists>k. map_of m k = Some v)"
  by (auto simp: map_of_eq_Some_iff) force

interpretation gm: go_map "[]" gget gput gdel gvals gwf
  by unfold_locales
    (auto simp: gget_def gput_def gdel_def gvals_def gwf_def update_conv' delete_conv'
      distinct_update distinct_delete map_of_unique_vals)

lemmas [gomap_simps, simp] = gm.get_empty gm.get_put gm.get_del gm.wf_empty gm.wf_put gm.wf_del

lemma gget_gmap [simp]: "gget (gmap f m) k = map_option f (gget m k)"
  by (simp add: gget_def gmap_def map_of_map)

lemma gwf_gmap [simp]: "gwf (gmap f m) = gwf m"
  by (simp add: gwf_def gmap_def comp_def case_prod_beta)

lemma gwf_gkeep: "gwf m \<Longrightarrow> gwf (gkeep P m)"
  by (simp add: gwf_def gkeep_def distinct_map_filter)

lemma gget_gkeep:
  "gwf m \<Longrightarrow> gget (gkeep P m) k = (case gget m k of None \<Rightarrow> None | Some v \<Rightarrow> if P v then Some v else None)"
  by (induction m) (auto simp: gwf_def gget_def gkeep_def split: option.splits dest!: map_of_SomeD intro: rev_image_eqI)

lemma gvals_map_values: "gvals (gmap f m) = map f (gvals m)"
  by (simp add: gvals_def gmap_def case_prod_beta)

lemma length_gvals [simp]: "length (gvals m) = length m"
  by (simp add: gvals_def)

lemma gvals_Nil [simp]: "gvals [] = []"
  by (simp add: gvals_def)

lemma gput_new: "gget m k = None \<Longrightarrow> gput k v m = m @ [(k, v)]"
  by (induction m) (auto simp: gget_def gput_def split: if_splits)

lemma gvals_gput_new: "gget m k = None \<Longrightarrow> gvals (gput k v m) = gvals m @ [v]"
  by (simp add: gput_new gvals_def)

section \<open>Keyed tables\<close>

definition keyed :: "('v \<Rightarrow> 'k) \<Rightarrow> ('k, 'v) gomap \<Rightarrow> bool" where
  "keyed key m \<longleftrightarrow> gwf m \<and> (\<forall>k v. gget m k = Some v \<longrightarrow> key v = k)"

lemma keyed_empty [simp]: "keyed key []"
  by (simp add: keyed_def)

lemma keyed_put: "keyed key m \<Longrightarrow> key v = k \<Longrightarrow> keyed key (gput k v m)"
  by (simp add: keyed_def)

lemma keyed_del: "keyed key m \<Longrightarrow> keyed key (gdel k m)"
  by (simp add: keyed_def)

lemma keyed_gmap: "keyed key m \<Longrightarrow> (\<And>v. key (f v) = key v) \<Longrightarrow> keyed key (gmap f m)"
  by (auto simp: keyed_def)

lemma keyed_gkeep: "keyed key m \<Longrightarrow> keyed key (gkeep P m)"
  by (auto simp: keyed_def gwf_gkeep gget_gkeep split: option.splits if_splits)

lemma keyed_vals: "keyed key m \<Longrightarrow> v \<in> set (gvals m) \<longleftrightarrow> gget m (key v) = Some v"
  by (auto simp: keyed_def gm.vals_get)

lemma keyed_vals_distinct: "keyed key m \<Longrightarrow> distinct (map key (gvals m))"
proof -
  assume k: "keyed key m"
  have "map key (gvals m) = map fst m"
    using k by (auto simp: keyed_def gvals_def gwf_def gget_def map_of_eq_Some_iff)
  with k show ?thesis by (simp add: keyed_def gwf_def)
qed

section \<open>Create, get, update, delete\<close>

text \<open>Store errors: the sentinels of \<open>store.go\<close> and any other failure of a driver.\<close>

datatype serr = ErrNotFound | ErrConflict | ErrInvalid | ErrStore string

definition tbl_create :: "('v \<Rightarrow> 'k) \<Rightarrow> 'v \<Rightarrow> ('k, 'v) gomap \<Rightarrow> serr + ('k, 'v) gomap" where
  "tbl_create key v m =
     (case gget m (key v) of Some _ \<Rightarrow> Inl ErrConflict | None \<Rightarrow> Inr (gput (key v) v m))"

definition tbl_get :: "('k, 'v) gomap \<Rightarrow> 'k \<Rightarrow> serr + 'v" where
  "tbl_get m k = (case gget m k of None \<Rightarrow> Inl ErrNotFound | Some v \<Rightarrow> Inr v)"

definition tbl_update :: "('v \<Rightarrow> 'k) \<Rightarrow> 'v \<Rightarrow> ('k, 'v) gomap \<Rightarrow> serr + ('k, 'v) gomap" where
  "tbl_update key v m =
     (case gget m (key v) of None \<Rightarrow> Inl ErrNotFound | Some _ \<Rightarrow> Inr (gput (key v) v m))"

definition tbl_delete :: "'k \<Rightarrow> ('k, 'v) gomap \<Rightarrow> serr + ('k, 'v) gomap" where
  "tbl_delete k m = (case gget m k of None \<Rightarrow> Inl ErrNotFound | Some _ \<Rightarrow> Inr (gdel k m))"

text \<open>The contract of a table, whatever row type it holds.\<close>

locale crud_table =
  fixes key :: "'v \<Rightarrow> 'k"
    and create :: "'v \<Rightarrow> 't \<Rightarrow> serr + 't"
    and get :: "'t \<Rightarrow> 'k \<Rightarrow> serr + 'v"
    and update :: "'v \<Rightarrow> 't \<Rightarrow> serr + 't"
    and delete :: "'k \<Rightarrow> 't \<Rightarrow> serr + 't"
    and inv :: "'t \<Rightarrow> bool"
  assumes get_error: "get t k = Inl e \<Longrightarrow> e = ErrNotFound"
    and create_fresh: "get t (key v) = Inl ErrNotFound \<Longrightarrow> \<exists>u. create v t = Inr u"
    and create_dup: "get t (key v) = Inr w \<Longrightarrow> create v t = Inl ErrConflict"
    and create_get: "create v t = Inr u \<Longrightarrow> get u k = (if k = key v then Inr v else get t k)"
    and update_get: "update v t = Inr u \<Longrightarrow> get u k = (if k = key v then Inr v else get t k)"
    and update_missing: "get t (key v) = Inl ErrNotFound \<Longrightarrow> update v t = Inl ErrNotFound"
    and delete_get: "delete k t = Inr u \<Longrightarrow> get u k' = (if k' = k then Inl ErrNotFound else get t k')"
    and delete_missing: "get t k = Inl ErrNotFound \<Longrightarrow> delete k t = Inl ErrNotFound"
    and delete_present: "get t k = Inr v \<Longrightarrow> \<exists>u. delete k t = Inr u"
    and create_inv: "inv t \<Longrightarrow> create v t = Inr u \<Longrightarrow> inv u"
    and update_inv: "inv t \<Longrightarrow> update v t = Inr u \<Longrightarrow> inv u"
    and delete_inv: "inv t \<Longrightarrow> delete k t = Inr u \<Longrightarrow> inv u"
begin

lemma create_once: "create v t = Inr u \<Longrightarrow> create w u = Inl ErrConflict" if "key w = key v"
  using create_get [of v t u "key w"] create_dup that by simp

lemma create_then_delete:
  assumes "create v t = Inr u"
  shows "\<exists>r. delete (key v) u = Inr r \<and> (\<forall>k. k \<noteq> key v \<longrightarrow> get r k = get t k) \<and> get r (key v) = Inl ErrNotFound"
proof -
  from create_get [OF assms, of "key v"] obtain r where r: "delete (key v) u = Inr r"
    using delete_present by fastforce
  then show ?thesis using delete_get [OF r] create_get [OF assms] by auto
qed

lemma update_last_wins: "update v t = Inr u \<Longrightarrow> update w u = Inr r \<Longrightarrow> key w = key v \<Longrightarrow>
    get r k = (if k = key v then Inr w else get t k)"
  by (simp add: update_get)

end

interpretation tbl: crud_table key "tbl_create key" tbl_get "tbl_update key" tbl_delete "keyed key"
  for key :: "'v \<Rightarrow> 'k"
  by unfold_locales
    (auto simp: tbl_create_def tbl_get_def tbl_update_def tbl_delete_def keyed_put keyed_del
      split: option.splits if_splits)

lemma tbl_get_Inr [simp]: "tbl_get m k = Inr v \<longleftrightarrow> gget m k = Some v"
  by (simp add: tbl_get_def split: option.splits)

lemma tbl_get_Inl [simp]: "tbl_get m k = Inl e \<longleftrightarrow> gget m k = None \<and> e = ErrNotFound"
  by (auto simp: tbl_get_def split: option.splits)

end
