(* ===== verification/Go_Std.thy ===== *)
theory Go_Std
  imports Go_Map
begin

text \<open>
  What the code uses of Go's standard library for slices and strings: \<open>sort.Slice\<close>,
  \<open>strings.ToLower\<close>, \<open>strings.TrimSpace\<close>, \<open>strings.Trim\<close>, prefix and suffix tests.
  A string is a list of bytes; letter case is mapped on ASCII letters and white space is
  ASCII white space (the other Unicode cases of the library functions are not modelled).
  \<open>sort.Slice\<close> is not stable; the model inserts stably, which is one of the orders Go may
  produce, and the order-independence lemmas say when there is only one.
\<close>

section \<open>Sorting with a less function\<close>

fun insert_by :: "('a \<Rightarrow> 'a \<Rightarrow> bool) \<Rightarrow> 'a \<Rightarrow> 'a list \<Rightarrow> 'a list" where
  "insert_by lt x [] = [x]"
| "insert_by lt x (y # ys) = (if lt y x then y # insert_by lt x ys else x # y # ys)"

fun sort_by :: "('a \<Rightarrow> 'a \<Rightarrow> bool) \<Rightarrow> 'a list \<Rightarrow> 'a list" where
  "sort_by lt [] = []"
| "sort_by lt (x # xs) = insert_by lt x (sort_by lt xs)"

lemma mset_insert_by [simp]: "mset (insert_by lt x xs) = add_mset x (mset xs)"
  by (induction xs) auto

lemma mset_sort_by [simp]: "mset (sort_by lt xs) = mset xs"
  by (induction xs) auto

lemma set_insert_by [simp]: "set (insert_by lt x xs) = insert x (set xs)"
  by (induction xs) auto

lemma set_sort_by [simp]: "set (sort_by lt xs) = set xs"
  by (induction xs) auto

lemma length_sort_by [simp]: "length (sort_by lt xs) = length xs"
  by (metis mset_sort_by size_mset)

text \<open>The contract \<open>sort.Slice\<close> asks of its argument: a strict weak ordering.\<close>

locale slice_order =
  fixes lt :: "'a \<Rightarrow> 'a \<Rightarrow> bool"
  assumes asym: "lt x y \<Longrightarrow> \<not> lt y x"
    and neg_trans: "lt x z \<Longrightarrow> lt x y \<or> lt y z"
begin

lemma trans: "lt x y \<Longrightarrow> lt y z \<Longrightarrow> lt x z"
  using asym neg_trans by blast

lemma insert_by_sorted:
  "sorted_wrt (\<lambda>a b. \<not> lt b a) xs \<Longrightarrow> sorted_wrt (\<lambda>a b. \<not> lt b a) (insert_by lt x xs)"
proof (induction xs)
  case (Cons a xs)
  have "\<not> lt z x" if "\<not> lt z a" "\<not> lt a x" for z
    using that neg_trans [of z x a] by blast
  moreover have "\<not> lt x a" if "lt a x"
    using asym that .
  ultimately show ?case using Cons by auto
qed simp

lemma sort_by_sorted: "sorted_wrt (\<lambda>a b. \<not> lt b a) (sort_by lt xs)"
  by (induction xs) (auto intro: insert_by_sorted)

lemma sorted_unique:
  assumes "mset xs = mset ys"
    and "sorted_wrt (\<lambda>a b. \<not> lt b a) xs" and "sorted_wrt (\<lambda>a b. \<not> lt b a) ys"
    and tot: "\<And>a b. a \<in> set xs \<Longrightarrow> b \<in> set xs \<Longrightarrow> \<not> lt a b \<Longrightarrow> \<not> lt b a \<Longrightarrow> a = b"
  shows "xs = ys"
  using assms
proof (induction xs arbitrary: ys)
  case Nil
  then show ?case by simp
next
  case (Cons x xs)
  then obtain y ys' where ys: "ys = y # ys'"
    by (metis list.exhaust mset.simps(1) mset_eq_setD set_empty list.simps(3))
  have sets: "insert x (set xs) = insert y (set ys')"
    using Cons.prems(1) ys by (metis list.simps(15) mset_eq_setD)
  have "x = y"
  proof (rule ccontr)
    assume "x \<noteq> y"
    with sets have "y \<in> set xs" "x \<in> set ys'" by auto
    with Cons.prems(2,3) ys have "\<not> lt y x" "\<not> lt x y" by auto
    with Cons.prems(4) \<open>y \<in> set xs\<close> \<open>x \<noteq> y\<close> show False by auto
  qed
  moreover have "xs = ys'"
    using Cons.IH [of ys'] Cons.prems ys \<open>x = y\<close> by simp
  ultimately show ?case using ys by simp
qed

text \<open>With distinct keys the result does not depend on the order the rows came in.\<close>

lemma sort_by_order_independent:
  assumes "mset xs = mset ys"
    and "\<And>a b. a \<in> set xs \<Longrightarrow> b \<in> set xs \<Longrightarrow> \<not> lt a b \<Longrightarrow> \<not> lt b a \<Longrightarrow> a = b"
  shows "sort_by lt xs = sort_by lt ys"
  by (rule sorted_unique) (use assms in \<open>auto intro: sort_by_sorted\<close>)

end

text \<open>The shape of every \<open>less\<close> the code passes: a comparison of keys.\<close>

lemma slice_order_key: "slice_order (\<lambda>a b. (f a :: 'k::linorder) < f b)"
  by unfold_locales auto

lemma slice_order_key_desc: "slice_order (\<lambda>a b. (f a :: 'k::linorder) > f b)"
  by unfold_locales auto

lemma slice_order_desc2:
  "slice_order (\<lambda>a b. if (f a :: 'k::linorder) = f b then (g a :: 'l::linorder) > g b else f a > f b)"
  by unfold_locales (auto split: if_splits)

section \<open>Strings\<close>

definition lower_char :: "char \<Rightarrow> char" where
  "lower_char c = (let n = (of_char c :: nat) in if 65 \<le> n \<and> n \<le> 90 then char_of (n + 32) else c)"

definition to_lower :: "string \<Rightarrow> string" where
  "to_lower s = map lower_char s"

definition is_space :: "char \<Rightarrow> bool" where
  "is_space c \<longleftrightarrow> (let n = (of_char c :: nat) in n = 32 \<or> (9 \<le> n \<and> n \<le> 13))"

definition trim_by :: "(char \<Rightarrow> bool) \<Rightarrow> string \<Rightarrow> string" where
  "trim_by p s = rev (dropWhile p (rev (dropWhile p s)))"

definition trim_space :: "string \<Rightarrow> string" where
  "trim_space s = trim_by is_space s"

definition has_prefix :: "string \<Rightarrow> string \<Rightarrow> bool" where
  "has_prefix s p \<longleftrightarrow> take (length p) s = p"

definition has_suffix :: "string \<Rightarrow> string \<Rightarrow> bool" where
  "has_suffix s p \<longleftrightarrow> has_prefix (rev s) (rev p)"

definition equal_fold :: "string \<Rightarrow> string \<Rightarrow> bool" where
  "equal_fold s t \<longleftrightarrow> to_lower s = to_lower t"

text \<open>\<open>strings.Split\<close> on a one-character separator.\<close>

fun split_char :: "char \<Rightarrow> string \<Rightarrow> string list" where
  "split_char c [] = [[]]"
| "split_char c (x # s) =
     (if x = c then [] # split_char c s
      else case split_char c s of [] \<Rightarrow> [[x]] | w # ws \<Rightarrow> (x # w) # ws)"

lemma lower_char_idem [simp]: "lower_char (lower_char c) = lower_char c"
  by (simp add: lower_char_def Let_def)

lemma to_lower_idem [simp]: "to_lower (to_lower s) = to_lower s"
  by (simp add: to_lower_def)

lemma length_to_lower [simp]: "length (to_lower s) = length s"
  by (simp add: to_lower_def)

lemma is_space_lower [simp]: "is_space (lower_char c) = is_space c"
  by (auto simp: is_space_def lower_char_def Let_def)

lemma dropWhile_idem [simp]: "dropWhile p (dropWhile p xs) = dropWhile p xs"
  by (induction xs) auto

lemma dropWhile_hd: "dropWhile p xs = [] \<or> \<not> p (hd (dropWhile p xs))"
  by (induction xs) auto

lemma dropWhile_id_hd: "xs = [] \<or> \<not> p (hd xs) \<Longrightarrow> dropWhile p xs = xs"
  by (cases xs) auto

lemma last_trim: "trim_by p s = [] \<or> \<not> p (last (trim_by p s))"
  using dropWhile_hd [of p "rev (dropWhile p s)"] by (auto simp: trim_by_def last_rev)

lemma hd_trim: "trim_by p s = [] \<or> \<not> p (hd (trim_by p s))"
proof -
  let ?t = "dropWhile p s"
  obtain zs where z: "?t = trim_by p s @ zs"
    unfolding trim_by_def by (metis rev_rev_ident rev_append takeWhile_dropWhile_id)
  then show ?thesis using dropWhile_hd [of p s] by (cases "trim_by p s") auto
qed

lemma trim_by_idem [simp]: "trim_by p (trim_by p s) = trim_by p s"
proof -
  have "dropWhile p (trim_by p s) = trim_by p s"
    by (rule dropWhile_id_hd, rule hd_trim)
  moreover have "dropWhile p (rev (trim_by p s)) = rev (trim_by p s)"
    by (rule dropWhile_id_hd) (use last_trim [of p s] in \<open>auto simp: hd_rev\<close>)
  ultimately show ?thesis by (simp add: trim_by_def [of p "trim_by p s"])
qed

lemma trim_space_idem [simp]: "trim_space (trim_space s) = trim_space s"
  by (simp add: trim_space_def)

lemma dropWhile_to_lower: "dropWhile is_space (to_lower s) = to_lower (dropWhile is_space s)"
  by (simp add: to_lower_def dropWhile_map comp_def)

lemma trim_space_to_lower: "trim_space (to_lower s) = to_lower (trim_space s)"
proof -
  have "rev (to_lower t) = to_lower (rev t)" for t by (simp add: to_lower_def rev_map)
  then show ?thesis
    unfolding trim_space_def trim_by_def by (metis dropWhile_to_lower rev_rev_ident)
qed

lemma equal_fold_equivp: "equivp equal_fold"
  by (rule equivpI) (auto simp: equal_fold_def reflp_def symp_def transp_def)

lemma split_char_no: "c \<notin> set s \<Longrightarrow> split_char c s = [s]"
  by (induction s) auto

lemma split_char_append: "c \<notin> set s \<Longrightarrow> split_char c (s @ c # t) = s # split_char c t"
  by (induction s) auto

end
