(* ===== verification/Go_Time.thy ===== *)
theory Go_Time
  imports Go_Std
begin

text \<open>
  Numbers as text (\<open>strconv.Itoa\<close>, \<open>strconv.Atoi\<close>) and Go's \<open>time\<close> package as far as the
  code uses it: instants in nanoseconds since the Unix epoch, the zero \<open>time.Time\<close>,
  saturating \<open>Sub\<close>, \<open>Truncate(time.Hour)\<close>, the proleptic Gregorian calendar,
  \<open>AddDate(0, n, 0)\<close> with its overflow normalisation, and \<open>Format("20060102T15")\<close>.
  Local times are read in UTC.
\<close>

section \<open>Decimal numbers\<close>

definition digit_char :: "nat \<Rightarrow> char" where
  "digit_char n = char_of (48 + n)"

definition char_digit :: "char \<Rightarrow> nat option" where
  "char_digit c = (let n = (of_char c :: nat) in if 48 \<le> n \<and> n \<le> 57 then Some (n - 48) else None)"

fun nat_digits :: "nat \<Rightarrow> string" where
  "nat_digits n = (if n < 10 then [digit_char n] else nat_digits (n div 10) @ [digit_char (n mod 10)])"

declare nat_digits.simps [simp del]

definition itoa :: "int \<Rightarrow> string" where
  "itoa x = (if x < 0 then CHR ''-'' # nat_digits (nat (- x)) else nat_digits (nat x))"

fun parse_digits :: "nat \<Rightarrow> string \<Rightarrow> nat option" where
  "parse_digits acc [] = Some acc"
| "parse_digits acc (c # cs) =
     (case char_digit c of None \<Rightarrow> None | Some d \<Rightarrow> parse_digits (10 * acc + d) cs)"

text \<open>\<open>strconv.Atoi\<close>: an optional sign, at least one digit, the value in 64 bits.\<close>

definition atoi :: "string \<Rightarrow> int option" where
  "atoi s =
     (let neg = (s \<noteq> [] \<and> hd s = CHR ''-'');
          body = (if s \<noteq> [] \<and> (hd s = CHR ''-'' \<or> hd s = CHR ''+'') then tl s else s)
      in if body = [] then None
         else case parse_digits 0 body of
           None \<Rightarrow> None
         | Some n \<Rightarrow> (let v = (if neg then - int n else int n) in if is_i64 v then Some v else None))"

lemma char_digit_digit [simp]: "d < 10 \<Longrightarrow> char_digit (digit_char d) = Some d"
  by (simp add: char_digit_def digit_char_def Let_def)

lemma parse_digits_append:
  "parse_digits a (xs @ ys) = (case parse_digits a xs of None \<Rightarrow> None | Some b \<Rightarrow> parse_digits b ys)"
  by (induction xs arbitrary: a) (auto split: option.splits)

lemma parse_nat_digits: "parse_digits 0 (nat_digits n) = Some n"
proof (induction n rule: nat_digits.induct)
  case (1 n)
  show ?case
  proof (cases "n < 10")
    case True
    then show ?thesis by (simp add: nat_digits.simps [of n])
  next
    case False
    with 1 show ?thesis by (simp add: nat_digits.simps [of n] parse_digits_append)
  qed
qed

lemma nat_digits_nonempty [simp]: "nat_digits n \<noteq> []"
  by (subst nat_digits.simps) simp

lemma hd_nat_digits: "\<exists>d < 10. hd (nat_digits n) = digit_char d"
proof (induction n rule: nat_digits.induct)
  case (1 n)
  show ?case
    by (cases "n < 10") (use 1 in \<open>auto simp: nat_digits.simps [of n]\<close>)
qed

lemma digit_not_sign: "d < 10 \<Longrightarrow> digit_char d \<noteq> CHR ''-'' \<and> digit_char d \<noteq> CHR ''+''"
proof -
  assume d: "d < 10"
  have "char_digit (CHR ''-'') = None" "char_digit (CHR ''+'') = None"
    by (simp_all add: char_digit_def Let_def)
  with char_digit_digit [OF d] show ?thesis by force
qed

theorem atoi_itoa: "is_i64 x \<Longrightarrow> atoi (itoa x) = Some x"
proof -
  assume x: "is_i64 x"
  from hd_nat_digits obtain d where d: "d < 10" "hd (nat_digits (nat x)) = digit_char d" by blast
  show ?thesis
    using x digit_not_sign [OF d(1)] d(2)
    by (auto simp: atoi_def itoa_def Let_def parse_nat_digits)
qed

lemma nat_digits_inject [simp]: "nat_digits m = nat_digits n \<longleftrightarrow> m = n"
  by (metis option.inject parse_nat_digits)

section \<open>Instants\<close>

type_synonym time = int
type_synonym duration = int

definition second_ns :: int where "second_ns = 1000000000"
definition hour_ns :: int where "hour_ns = 3600000000000"
definition day_ns :: int where "day_ns = 86400000000000"

definition zero_time :: time where "zero_time = - 62135596800000000000"

definition is_zero :: "time \<Rightarrow> bool" where "is_zero t \<longleftrightarrow> t = zero_time"

definition time_unix :: "int \<Rightarrow> time" where "time_unix s = s * second_ns"

text \<open>\<open>t.Sub(u)\<close> saturates at the extreme durations.\<close>

definition time_sub :: "time \<Rightarrow> time \<Rightarrow> duration" where
  "time_sub t u = max min_i64 (min max_i64 (t - u))"

text \<open>\<open>t.Truncate(d)\<close> rounds down to a multiple of \<open>d\<close> since the zero time.\<close>

definition truncate_hour :: "time \<Rightarrow> time" where
  "truncate_hour t = t - (t - zero_time) mod hour_ns"

definition whole_hour :: "time \<Rightarrow> bool" where
  "whole_hour t \<longleftrightarrow> t mod hour_ns = 0"

lemma zero_time_whole: "whole_hour zero_time"
  by (simp add: whole_hour_def zero_time_def hour_ns_def)

lemma truncate_hour_eq: "truncate_hour t = t - t mod hour_ns"
proof -
  have e: "t - zero_time = t + 17259888 * hour_ns" by (simp add: zero_time_def hour_ns_def)
  show ?thesis unfolding truncate_hour_def e by simp
qed

lemma truncate_hour_whole: "whole_hour (truncate_hour t)"
  by (simp add: whole_hour_def truncate_hour_eq hour_ns_def mod_diff_right_eq)

lemma truncate_hour_bounds: "truncate_hour t \<le> t" "t < truncate_hour t + hour_ns"
  by (simp_all add: truncate_hour_eq hour_ns_def)

lemma truncate_hour_id: "whole_hour t \<Longrightarrow> truncate_hour t = t"
  by (simp add: whole_hour_def truncate_hour_eq)

section \<open>The calendar\<close>

text \<open>
  Years start in March here, so the leap day is the last one: \<open>march_days y\<close> days lie before
  the first of March of year \<open>y\<close>, and month \<open>k\<close> (0 is March) starts \<open>(153 k + 2) div 5\<close>
  days later.
\<close>

definition march_days :: "int \<Rightarrow> int" where
  "march_days y = 365 * y + y div 4 - y div 100 + y div 400 - 719468"

definition month_start :: "int \<Rightarrow> int" where
  "month_start k = (153 * k + 2) div 5"

definition days_of_civil :: "int \<Rightarrow> int \<Rightarrow> int \<Rightarrow> int" where
  "days_of_civil y m d =
     (if m \<le> 2 then march_days (y - 1) + month_start (m + 9) + (d - 1)
      else march_days y + month_start (m - 3) + (d - 1))"

definition year_day :: "int \<Rightarrow> int \<times> int" where
  "year_day z =
     (let n = z + 719468; era = n div 146097; doe = n mod 146097;
          c = min 3 (doe div 36524); r = doe - 36524 * c;
          q = r div 1461; r2 = r mod 1461;
          k = min 3 (r2 div 365)
      in (400 * era + 100 * c + 4 * q + k, r2 - 365 * k))"

definition civil_of_days :: "int \<Rightarrow> int \<times> int \<times> int" where
  "civil_of_days z =
     (case year_day z of (y, doy) \<Rightarrow>
        let mp = (5 * doy + 2) div 153; d = doy - month_start mp + 1
        in if mp < 10 then (y, mp + 3, d) else (y + 1, mp - 9, d))"

lemma march_days_parts:
  assumes "0 \<le> c" "c \<le> 3" "0 \<le> q" "q \<le> 24" "0 \<le> k" "k \<le> 3"
  shows "march_days (400 * e + 100 * c + 4 * q + k)
      = 146097 * e + 36524 * c + 1461 * q + 365 * k - 719468"
proof -
  let ?y = "400 * e + 100 * c + 4 * q + k"
  have "?y div 4 = 100 * e + 25 * c + q"
    by (rule int_div_pos_eq [where r = k]) (use assms in simp_all)
  moreover have "?y div 100 = 4 * e + c"
    by (rule int_div_pos_eq [where r = "4 * q + k"]) (use assms in simp_all)
  moreover have "?y div 400 = e"
    by (rule int_div_pos_eq [where r = "100 * c + 4 * q + k"]) (use assms in simp_all)
  ultimately show ?thesis by (simp add: march_days_def)
qed

lemma year_day_correct:
  assumes "year_day z = (y, doy)"
  shows "march_days y + doy = z" "0 \<le> doy" "doy \<le> 365"
proof -
  define n where "n = z + 719468"
  define era doe where "era = n div 146097" and "doe = n mod 146097"
  define c where "c = min 3 (doe div 36524)"
  define r where "r = doe - 36524 * c"
  define q r2 where "q = r div 1461" and "r2 = r mod 1461"
  define k where "k = min 3 (r2 div 365)"
  have "year_day z = (400 * era + 100 * c + 4 * q + k, r2 - 365 * k)"
    unfolding year_day_def Let_def k_def q_def r2_def r_def c_def era_def doe_def n_def ..
  with assms have yd: "y = 400 * era + 100 * c + 4 * q + k" "doy = r2 - 365 * k" by simp_all
  have doe: "0 \<le> doe" "doe < 146097" by (simp_all add: doe_def)
  have c: "0 \<le> c" "c \<le> 3" using doe by (auto simp: c_def)
  have r: "0 \<le> r" "r \<le> 36524" using doe unfolding r_def c_def by linarith+
  have q: "0 \<le> q" "q \<le> 24" using r by (auto simp: q_def)
  have r2: "0 \<le> r2" "r2 \<le> 1460" by (auto simp: r2_def)
  have k: "0 \<le> k" "k \<le> 3" using r2 by (auto simp: k_def)
  show "0 \<le> doy" "doy \<le> 365" using r2 unfolding yd k_def by linarith+
  have "n = 146097 * era + doe" "r = 1461 * q + r2" by (simp_all add: era_def doe_def q_def r2_def)
  then have "z = 146097 * era + 36524 * c + 1461 * q + r2 - 719468"
    unfolding n_def r_def by linarith
  with march_days_parts [OF c q k, of era] show "march_days y + doy = z"
    unfolding yd by linarith
qed

text \<open>A day number is recovered from its date, so dates identify days.\<close>

theorem days_of_civil_of_days:
  "(case civil_of_days z of (y, m, d) \<Rightarrow> days_of_civil y m d) = z"
proof -
  obtain y doy where yd: "year_day z = (y, doy)" by fastforce
  note c = year_day_correct [OF yd]
  have "0 \<le> (5 * doy + 2) div 153" "(5 * doy + 2) div 153 \<le> 11" using c(2,3) by simp_all
  with c(1) show ?thesis
    by (simp add: civil_of_days_def yd Let_def days_of_civil_def)
qed

text \<open>Every day has a month from 1 to 12 and a day of month from 1 to 31.\<close>

lemma civil_of_days_range:
  assumes "civil_of_days z = (y, m, d)"
  shows "1 \<le> m" "m \<le> 12" "1 \<le> d" "d \<le> 31"
proof -
  obtain y' doy where yd: "year_day z = (y', doy)" by fastforce
  define mp where "mp = (5 * doy + 2) div 153"
  define s where "s = (153 * mp + 2) div 5"
  have mp: "0 \<le> mp" "mp \<le> 11" using year_day_correct(2,3) [OF yd] by (simp_all add: mp_def)
  have md: "m = (if mp < 10 then mp + 3 else mp - 9)" "d = doy - s + 1"
    using assms
    by (simp_all add: civil_of_days_def yd Let_def month_start_def mp_def s_def split: if_splits)
  show "1 \<le> m" "m \<le> 12" using mp md by auto
  have a: "153 * mp \<le> 5 * doy + 2" "5 * doy + 2 < 153 * mp + 153" unfolding mp_def by simp_all
  have b: "5 * s \<le> 153 * mp + 2" "153 * mp + 2 < 5 * s + 5" unfolding s_def by simp_all
  have "s \<le> doy" using a b by linarith
  then show "1 \<le> d" using md by simp
  have "doy \<le> s + 30" using a b by linarith
  then show "d \<le> 31" using md by simp
qed

section \<open>AddDate\<close>

text \<open>
  \<open>t.AddDate(0, n, 0)\<close> moves the month and normalises an overflowing day of month into the
  next month (31 March less one month is 2 or 3 March).
\<close>

definition add_months :: "time \<Rightarrow> int \<Rightarrow> time" where
  "add_months t n =
     (case civil_of_days (t div day_ns) of (y, m, d) \<Rightarrow>
        (days_of_civil (y + (m - 1 + n) div 12) ((m - 1 + n) mod 12 + 1) d) * day_ns + t mod day_ns)"

lemma days_of_civil_day: "days_of_civil y m d = days_of_civil y m 1 + (d - 1)"
  by (simp add: days_of_civil_def)

lemma march_year_length:
  "365 \<le> march_days y - march_days (y - 1)" "march_days y - march_days (y - 1) \<le> 366"
proof -
  have m: "march_days x = 365 * x + x div 4 - x div 4 div 25 + x div 4 div 25 div 4 - 719468" for x
    using zdiv_zmult2_eq [of 25 x 4] zdiv_zmult2_eq [of 100 x 4] zdiv_zmult2_eq [of 4 "x div 4" 25]
    by (simp add: march_days_def)
  have step: "(x - 1) div n = x div n \<or> (x - 1) div n = x div n - 1" if "n = 4 \<or> n = 25" for x n :: int
    using that by auto
  define a b c where "a = y div 4" and "b = a div 25" and "c = b div 4"
  have y: "march_days y = 365 * y + a - b + c - 719468" by (simp only: m a_def b_def c_def)
  consider "(y - 1) div 4 = a"
    | "(y - 1) div 4 = a - 1" "(a - 1) div 25 = b"
    | "(y - 1) div 4 = a - 1" "(a - 1) div 25 = b - 1" "(b - 1) div 4 = c \<or> (b - 1) div 4 = c - 1"
    using step [of 4 y] step [of 25 a] step [of 4 b] unfolding a_def b_def c_def by auto
  then have "365 \<le> march_days y - march_days (y - 1) \<and> march_days y - march_days (y - 1) \<le> 366"
    unfolding y m [of "y - 1"] by cases (auto simp: b_def [symmetric] c_def [symmetric])
  then show "365 \<le> march_days y - march_days (y - 1)" "march_days y - march_days (y - 1) \<le> 366"
    by simp_all
qed

lemma month_length:
  assumes "1 \<le> m" "m \<le> 12"
  shows "28 \<le> days_of_civil (y + m div 12) (m mod 12 + 1) 1 - days_of_civil y m 1"
    and "days_of_civil (y + m div 12) (m mod 12 + 1) 1 - days_of_civil y m 1 \<le> 31"
proof -
  have "m = 1 \<or> m = 2 \<or> m = 3 \<or> m = 4 \<or> m = 5 \<or> m = 6 \<or> m = 7 \<or> m = 8 \<or> m = 9 \<or> m = 10 \<or> m = 11 \<or> m = 12"
    using assms by presburger
  then have "28 \<le> days_of_civil (y + m div 12) (m mod 12 + 1) 1 - days_of_civil y m 1 \<and>
    days_of_civil (y + m div 12) (m mod 12 + 1) 1 - days_of_civil y m 1 \<le> 31"
    using march_year_length [of y] by (auto simp: days_of_civil_def month_start_def)
  then show "28 \<le> days_of_civil (y + m div 12) (m mod 12 + 1) 1 - days_of_civil y m 1"
    and "days_of_civil (y + m div 12) (m mod 12 + 1) 1 - days_of_civil y m 1 \<le> 31" by simp_all
qed

lemma prev_month_length:
  assumes "1 \<le> m" "m \<le> 12"
  shows "28 \<le> days_of_civil y m 1 - days_of_civil (y + (m - 2) div 12) ((m - 2) mod 12 + 1) 1"
    and "days_of_civil y m 1 - days_of_civil (y + (m - 2) div 12) ((m - 2) mod 12 + 1) 1 \<le> 31"
proof -
  have "m = 1 \<or> 1 \<le> m - 1" using assms by linarith
  then have "28 \<le> days_of_civil y m 1 - days_of_civil (y + (m - 2) div 12) ((m - 2) mod 12 + 1) 1 \<and>
    days_of_civil y m 1 - days_of_civil (y + (m - 2) div 12) ((m - 2) mod 12 + 1) 1 \<le> 31"
  proof
    assume "m = 1"
    then show ?thesis using month_length [of 12 "y - 1"] by simp
  next
    assume m: "1 \<le> m - 1"
    have *: "(m - 1) div 12 = 0" "(m - 1) mod 12 = m - 1" "(m - 2) div 12 = 0" "(m - 2) mod 12 = m - 2"
      using assms m by auto
    then show ?thesis using month_length [of "m - 1" y] assms m by simp
  qed
  then show "28 \<le> days_of_civil y m 1 - days_of_civil (y + (m - 2) div 12) ((m - 2) mod 12 + 1) 1"
    and "days_of_civil y m 1 - days_of_civil (y + (m - 2) div 12) ((m - 2) mod 12 + 1) 1 \<le> 31"
    by simp_all
qed

text \<open>One month back is 28 to 31 days back, one month forward 28 to 31 days forward.\<close>

lemma month_back:
  "28 * day_ns \<le> t - add_months t (-1)" "t - add_months t (-1) \<le> 31 * day_ns"
proof -
  obtain y m d where c: "civil_of_days (t div day_ns) = (y, m, d)" by (metis prod.exhaust)
  note r = civil_of_days_range [OF c]
  have z: "days_of_civil y m 1 + (d - 1) = t div day_ns"
    using days_of_civil_of_days [of "t div day_ns"] c days_of_civil_day [of y m d] by simp
  define p where "p = days_of_civil (y + (m - 2) div 12) ((m - 2) mod 12 + 1) 1"
  have "add_months t (-1) = (p + (d - 1)) * day_ns + t mod day_ns"
    using days_of_civil_day [of _ _ d] by (simp add: add_months_def c p_def)
  moreover have "t = (days_of_civil y m 1 + (d - 1)) * day_ns + t mod day_ns" unfolding z by simp
  ultimately have e: "t - add_months t (-1) = (days_of_civil y m 1 - p) * day_ns"
    unfolding left_diff_distrib distrib_right by linarith
  have "28 \<le> days_of_civil y m 1 - p" "days_of_civil y m 1 - p \<le> 31"
    using prev_month_length [OF r(1,2), of y] unfolding p_def by simp_all
  then show "28 * day_ns \<le> t - add_months t (-1)" "t - add_months t (-1) \<le> 31 * day_ns"
    unfolding e by (auto simp: day_ns_def)
qed

lemma month_forward:
  "28 * day_ns \<le> add_months t 1 - t" "add_months t 1 - t \<le> 31 * day_ns"
proof -
  obtain y m d where c: "civil_of_days (t div day_ns) = (y, m, d)" by (metis prod.exhaust)
  note r = civil_of_days_range [OF c]
  have z: "days_of_civil y m 1 + (d - 1) = t div day_ns"
    using days_of_civil_of_days [of "t div day_ns"] c days_of_civil_day [of y m d] by simp
  define p where "p = days_of_civil (y + m div 12) (m mod 12 + 1) 1"
  have "add_months t 1 = (p + (d - 1)) * day_ns + t mod day_ns"
    using days_of_civil_day [of _ _ d] by (simp add: add_months_def c p_def)
  moreover have "t = (days_of_civil y m 1 + (d - 1)) * day_ns + t mod day_ns" unfolding z by simp
  ultimately have e: "add_months t 1 - t = (p - days_of_civil y m 1) * day_ns"
    unfolding left_diff_distrib distrib_right by linarith
  have "28 \<le> p - days_of_civil y m 1" "p - days_of_civil y m 1 \<le> 31"
    using month_length [OF r(1,2), of y] unfolding p_def by simp_all
  then show "28 * day_ns \<le> add_months t 1 - t" "add_months t 1 - t \<le> 31 * day_ns"
    unfolding e by (auto simp: day_ns_def)
qed

lemma month_back_less: "add_months t (-1) < t"
  using month_back(1) [of t] by (simp add: day_ns_def)

section \<open>The hour stamp\<close>

definition pad :: "nat \<Rightarrow> nat \<Rightarrow> string" where
  "pad w n = replicate (w - length (nat_digits n)) (digit_char 0) @ nat_digits n"

definition year_text :: "int \<Rightarrow> string" where
  "year_text y = (if y < 0 then CHR ''-'' # pad 4 (nat (- y)) else pad 4 (nat y))"

text \<open>\<open>t.UTC().Format("20060102T15")\<close>.\<close>

definition hour_stamp :: "time \<Rightarrow> string" where
  "hour_stamp t =
     (case civil_of_days (t div day_ns) of (y, m, d) \<Rightarrow>
        year_text y @ pad 2 (nat m) @ pad 2 (nat d) @ ''T'' @ pad 2 (nat ((t mod day_ns) div hour_ns)))"

lemma parse_zeros: "parse_digits 0 (replicate k (digit_char 0) @ s) = parse_digits 0 s"
  by (induction k) simp_all

lemma pad_inject [simp]: "pad w m = pad w n \<longleftrightarrow> m = n"
  by (metis option.inject pad_def parse_nat_digits parse_zeros)

lemma length_pad2: "n < 100 \<Longrightarrow> length (pad 2 n) = 2"
proof -
  assume "n < 100"
  then have "n div 10 < 10" by arith
  then have "length (nat_digits n) \<le> 2"
    by (simp add: nat_digits.simps [of n] nat_digits.simps [of "n div 10"])
  then show ?thesis by (simp add: pad_def)
qed

lemma year_text_inject: "year_text x = year_text y \<Longrightarrow> x = y"
proof -
  assume e: "year_text x = year_text y"
  have "pad w n = c # cs \<Longrightarrow> c \<noteq> CHR ''-''" for w n c cs
    using hd_nat_digits [of n] digit_not_sign [of 0] digit_not_sign
    by (cases "w - length (nat_digits n)") (auto simp: pad_def dest!: arg_cong [where f = hd])
  with e show ?thesis by (auto simp: year_text_def split: if_splits) metis+
qed

theorem hour_stamp_inject:
  assumes "hour_stamp t = hour_stamp u" "whole_hour t" "whole_hour u"
  shows "t = u"
proof -
  obtain y m d where c: "civil_of_days (t div day_ns) = (y, m, d)" by (metis prod.exhaust)
  obtain y' m' d' where c': "civil_of_days (u div day_ns) = (y', m', d')" by (metis prod.exhaust)
  define h h' where "h = (t mod day_ns) div hour_ns" and "h' = (u mod day_ns) div hour_ns"
  have h: "0 \<le> h" "h < 24" "0 \<le> h'" "h' < 24"
    by (auto simp: h_def h'_def day_ns_def hour_ns_def)
  note r = civil_of_days_range [OF c] civil_of_days_range [OF c']
  have "year_text y @ (pad 2 (nat m) @ pad 2 (nat d) @ ''T'' @ pad 2 (nat h))
      = year_text y' @ (pad 2 (nat m') @ pad 2 (nat d') @ ''T'' @ pad 2 (nat h'))"
    using assms(1) by (simp add: hour_stamp_def c c' h_def h'_def)
  then have "year_text y = year_text y' \<and>
      pad 2 (nat m) @ pad 2 (nat d) @ ''T'' @ pad 2 (nat h)
      = pad 2 (nat m') @ pad 2 (nat d') @ ''T'' @ pad 2 (nat h')"
    by (rule append_eq_append_conv [THEN iffD1, rotated]) (use r h in \<open>simp add: length_pad2\<close>)
  then have "y = y'" "m = m'" "d = d'" "h = h'"
    using r h by (auto simp: length_pad2 year_text_inject append_eq_append_conv)
  then have "t div day_ns = u div day_ns"
    using days_of_civil_of_days [of "t div day_ns"] days_of_civil_of_days [of "u div day_ns"] c c' by simp
  moreover have "x mod day_ns = (x mod day_ns) div hour_ns * hour_ns" if "whole_hour x" for x
  proof -
    have "hour_ns dvd day_ns" by (simp add: hour_ns_def day_ns_def)
    then have "(x mod day_ns) mod hour_ns = 0"
      using that by (simp add: whole_hour_def mod_mod_cancel)
    then show ?thesis by (metis add.right_neutral div_mult_mod_eq)
  qed
  then have "t mod day_ns = h * hour_ns" "u mod day_ns = h' * hour_ns"
    using assms(2,3) by (simp_all only: h_def h'_def)
  ultimately show ?thesis using \<open>h = h'\<close> by (metis div_mult_mod_eq)
qed

lemma nat_digits_chars: "c \<in> set (nat_digits n) \<Longrightarrow> char_digit c \<noteq> None"
proof (induction n rule: nat_digits.induct)
  case (1 n)
  then show ?case by (cases "n < 10") (auto simp: nat_digits.simps [of n])
qed

text \<open>The years \<open>Format\<close> prints with four digits.\<close>

definition four_digit_year :: "time \<Rightarrow> bool" where
  "four_digit_year t \<longleftrightarrow> (case civil_of_days (t div day_ns) of (y, m, d) \<Rightarrow> 0 \<le> y \<and> y \<le> 9999)"

end
