(* ===== verification/Domain.thy ===== *)
theory Domain
  imports Go_Time
begin

text \<open>
  The control-plane entities of \<open>internal/domain/domain.go\<close>, one record per struct with a
  field per field (prefixed by the entity, since record fields share one name space) and one
  datatype per typed string. A typed string of Go may hold any text, so each datatype ends
  with a constructor for the values that are none of the declared constants. Prices and
  vCPU counts (\<open>float64\<close>) are real numbers: rounding of the floating-point format is not
  modelled.
\<close>

section \<open>Roles\<close>

datatype role = RoleMember | RoleAdmin | RoleOwner | RoleOther string

fun role_rank :: "role \<Rightarrow> int" where
  "role_rank RoleMember = 1"
| "role_rank RoleAdmin = 2"
| "role_rank RoleOwner = 3"
| "role_rank (RoleOther _) = 0"

definition role_valid :: "role \<Rightarrow> bool" where
  "role_valid r \<longleftrightarrow> role_rank r > 0"

definition role_at_least :: "role \<Rightarrow> role \<Rightarrow> bool" where
  "role_at_least r other \<longleftrightarrow> role_rank r \<ge> role_rank other"

lemma role_at_least_refl [simp]: "role_at_least r r"
  by (simp add: role_at_least_def)

lemma role_at_least_trans: "role_at_least a b \<Longrightarrow> role_at_least b c \<Longrightarrow> role_at_least a c"
  by (simp add: role_at_least_def)

lemma role_at_least_owner: "role_at_least r RoleOwner \<longleftrightarrow> r = RoleOwner"
  by (cases r) (simp_all add: role_at_least_def)

lemma owner_at_least [simp]: "role_at_least RoleOwner r"
  by (cases r) (simp_all add: role_at_least_def)

lemma role_valid_iff: "role_valid r \<longleftrightarrow> r \<in> {RoleMember, RoleAdmin, RoleOwner}"
  by (cases r) (simp_all add: role_valid_def)

lemma role_valid_at_least_member: "role_valid r \<longleftrightarrow> role_at_least r RoleMember"
  by (cases r) (simp_all add: role_valid_def role_at_least_def)

section \<open>Identity and tenancy\<close>

record user =
  user_id :: string
  user_email :: string
  user_name :: string
  user_password_hash :: string
  user_is_admin :: bool
  user_created_at :: time

record organization =
  org_id :: string
  org_name :: string
  org_slug :: string
  org_billing_email :: string
  org_spend_cap_cents :: int
  org_created_at :: time

record membership =
  mem_org_id :: string
  mem_user_id :: string
  mem_role :: role

record project =
  proj_id :: string
  proj_org_id :: string
  proj_name :: string
  proj_slug :: string
  proj_is_default :: bool
  proj_created_at :: time

record project_membership =
  pm_project_id :: string
  pm_user_id :: string
  pm_role :: role

datatype invitation_status = InvitePending | InviteAccepted | InviteRevoked | InviteOther string

record invitation =
  inv_id :: string
  inv_org_id :: string
  inv_project_id :: string
  inv_email :: string
  inv_role :: role
  inv_token :: string
  inv_status :: invitation_status
  inv_invited_by :: string
  inv_created_at :: time
  inv_expires_at :: time

section \<open>Workloads\<close>

record app =
  app_id :: string
  app_org_id :: string
  app_project_id :: string
  app_name :: string
  app_image :: string
  app_git_repository :: string
  app_git_branch :: string
  app_build_pack :: string
  app_cpu :: real
  app_memory_mb :: int
  app_status :: string
  app_min_replicas :: int
  app_max_replicas :: int
  app_region :: string
  app_namespace :: string
  app_release :: string
  app_host :: string
  app_created_at :: time

datatype release_status =
  ReleaseDeploying | ReleaseActive | ReleaseFailed | ReleaseSuperseded | ReleaseRolledBack
  | ReleaseOther string

record release =
  rel_id :: string
  rel_app_id :: string
  rel_org_id :: string
  rel_revision :: int
  rel_image :: string
  rel_git_ref :: string
  rel_config_hash :: string
  rel_cpu :: real
  rel_memory_mb :: int
  rel_status :: release_status
  rel_note :: string
  rel_created_at :: time

record service =
  svc_id :: string
  svc_org_id :: string
  svc_project_id :: string
  svc_template :: string
  svc_name :: string
  svc_cpu :: real
  svc_memory_mb :: int
  svc_status :: string
  svc_region :: string
  svc_namespace :: string
  svc_release :: string
  svc_host :: string
  svc_created_at :: time

datatype build_status = BuildPending | BuildBuilding | BuildSucceeded | BuildFailed | BuildOther string

record build =
  bld_id :: string
  bld_app_id :: string
  bld_org_id :: string
  bld_status :: build_status
  bld_commit_ref :: string
  bld_image :: string
  bld_logs :: string
  bld_created_at :: time
  bld_finished_at :: time

datatype domain_status = DomainPending | DomainVerified | DomainFailed | DomainOther string

record domain =
  dom_id :: string
  dom_org_id :: string
  dom_app_id :: string
  dom_domain :: string
  dom_verified :: bool
  dom_status :: domain_status
  dom_verification_token :: string
  dom_verified_at :: time
  dom_created_at :: time

text \<open>The empty status of rows written before the status existed is \<open>DomainOther []\<close>.\<close>

definition domain_is_verified :: "domain \<Rightarrow> bool" where
  "domain_is_verified d \<longleftrightarrow>
     dom_status d = DomainVerified \<or> (dom_status d = DomainOther [] \<and> dom_verified d)"

record database =
  db_id :: string
  db_org_id :: string
  db_project_id :: string
  db_name :: string
  db_engine :: string
  db_cpu :: real
  db_memory_mb :: int
  db_storage_gb :: int
  db_status :: string
  db_username :: string
  db_password :: string
  db_database_name :: string
  db_region :: string
  db_namespace :: string
  db_release :: string
  db_host :: string
  db_created_at :: time

record app_env_entry =
  env_key :: string
  env_value :: string
  env_secret :: bool

section \<open>Catalog, settings and billing\<close>

record plan =
  plan_id :: string
  plan_name :: string
  plan_description :: string
  plan_price_cents :: int
  plan_currency :: string
  plan_included_hours :: int
  plan_overage_per_hour_cents :: int
  plan_stripe_price_id :: string
  plan_max_cpu :: real
  plan_max_memory_mb :: int
  plan_max_apps :: int
  plan_is_default :: bool
  plan_sort_order :: int
  plan_active :: bool

record service_template =
  tpl_key :: string
  tpl_name :: string
  tpl_description :: string
  tpl_category :: string
  tpl_kind :: string
  tpl_image :: string
  tpl_default_port :: int
  tpl_active :: bool
  tpl_sort_order :: int

record pricing_component =
  pc_key :: string
  pc_name :: string
  pc_unit :: string
  pc_price_per_hour :: real
  pc_currency :: string
  pc_active :: bool
  pc_sort_order :: int

record platform_settings =
  set_default_cpu :: real
  set_default_memory_mb :: int
  set_default_plan_id :: string
  set_cpu_overcommit_factor :: real
  set_memory_overcommit_factor :: real
  set_default_region :: string
  set_regions :: "string list"
  set_grace_past_due :: bool
  set_default_spend_cap_cents :: int
  set_keda_default_min_replicas :: int
  set_keda_default_max_replicas :: int
  set_keda_max_replicas_ceiling :: int
  set_keda_polling_interval :: int
  set_keda_cooldown_period :: int
  set_keda_cpu_utilization :: int
  set_keda_http_trigger :: bool

datatype subscription_status =
  SubActive | SubTrialing | SubIncomplete | SubPastDue | SubUnpaid | SubCanceled | SubOther string

definition subscription_status_from_stripe :: "string \<Rightarrow> subscription_status" where
  "subscription_status_from_stripe s =
     (if s = ''active'' then SubActive
      else if s = ''trialing'' then SubTrialing
      else if s = ''past_due'' then SubPastDue
      else if s = ''unpaid'' then SubUnpaid
      else if s = ''canceled'' then SubCanceled
      else if s = ''incomplete'' \<or> s = ''incomplete_expired'' then SubIncomplete
      else SubIncomplete)"

text \<open>The conversion \<open>SubscriptionStatus(s)\<close> of a raw string, and the text of a status.\<close>

definition subscription_status_of_string :: "string \<Rightarrow> subscription_status" where
  "subscription_status_of_string s =
     (if s = ''active'' then SubActive
      else if s = ''trialing'' then SubTrialing
      else if s = ''incomplete'' then SubIncomplete
      else if s = ''past_due'' then SubPastDue
      else if s = ''unpaid'' then SubUnpaid
      else if s = ''canceled'' then SubCanceled
      else SubOther s)"

fun subscription_status_text :: "subscription_status \<Rightarrow> string" where
  "subscription_status_text SubActive = ''active''"
| "subscription_status_text SubTrialing = ''trialing''"
| "subscription_status_text SubIncomplete = ''incomplete''"
| "subscription_status_text SubPastDue = ''past_due''"
| "subscription_status_text SubUnpaid = ''unpaid''"
| "subscription_status_text SubCanceled = ''canceled''"
| "subscription_status_text (SubOther s) = s"

record subscription =
  sub_org_id :: string
  sub_plan_id :: string
  sub_status :: subscription_status
  sub_stripe_customer_id :: string
  sub_stripe_subscription_id :: string
  sub_stripe_subscription_item_id :: string
  sub_created_at :: time
  sub_current_period_end :: time

record usage_record =
  ur_id :: string
  ur_org_id :: string
  ur_metric :: string
  ur_quantity :: int
  ur_at :: time

record meter_state =
  ms_last_metered_hour :: time

record usage_report_state =
  rs_org_id :: string
  rs_period_start :: time
  rs_reported_cents :: int

section \<open>Audit and credentials\<close>

record audit_event =
  ae_id :: string
  ae_org_id :: string
  ae_actor_user_id :: string
  ae_actor_email :: string
  ae_action :: string
  ae_target_type :: string
  ae_target_id :: string
  ae_metadata :: string
  ae_at :: time

record audit_filter =
  af_org_id :: string
  af_limit :: int
  af_offset :: int

record refresh_token =
  rt_id :: string
  rt_user_id :: string
  rt_revoked :: bool
  rt_created_at :: time
  rt_expires_at :: time

record api_token =
  at_id :: string
  at_user_id :: string
  at_name :: string
  at_token_hash :: string
  at_prefix :: string
  at_scopes :: "string list"
  at_expires_at :: time
  at_last_used_at :: time
  at_created_at :: time

record password_reset_token =
  prt_id :: string
  prt_user_id :: string
  prt_token_hash :: string
  prt_expires_at :: time
  prt_used_at :: time
  prt_created_at :: time

section \<open>Facts about the statuses\<close>

lemma status_text_round_trip: "subscription_status_text (subscription_status_of_string s) = s"
  by (simp add: subscription_status_of_string_def)

text \<open>Only Stripe's own words read as a status that lets an organization run.\<close>

lemma from_stripe_active: "subscription_status_from_stripe s = SubActive \<longleftrightarrow> s = ''active''"
  by (simp add: subscription_status_from_stripe_def)

lemma from_stripe_never_other: "subscription_status_from_stripe s \<noteq> SubOther t"
  by (simp add: subscription_status_from_stripe_def)

lemma from_stripe_agrees:
  "subscription_status_of_string s \<noteq> SubOther s \<Longrightarrow>
     subscription_status_from_stripe s = subscription_status_of_string s"
  by (auto simp: subscription_status_from_stripe_def subscription_status_of_string_def split: if_splits)

instantiation role :: linorder
begin

definition less_eq_role :: "role \<Rightarrow> role \<Rightarrow> bool" where
  "less_eq_role r s \<longleftrightarrow> role_rank r < role_rank s \<or>
     (role_rank r = role_rank s \<and>
        (case (r, s) of (RoleOther a, RoleOther b) \<Rightarrow> a \<le> b | _ \<Rightarrow> True))"

definition less_role :: "role \<Rightarrow> role \<Rightarrow> bool" where
  "less_role r s \<longleftrightarrow> r \<le> s \<and> \<not> s \<le> r"

instance
proof
  fix x y z :: role
  show "x < y \<longleftrightarrow> x \<le> y \<and> \<not> y \<le> x" by (simp add: less_role_def)
  show "x \<le> x" by (cases x) (simp_all add: less_eq_role_def)
  show "x \<le> z" if "x \<le> y" "y \<le> z"
    using that by (cases x; cases y; cases z) (auto simp: less_eq_role_def)
  show "x = y" if "x \<le> y" "y \<le> x"
    using that by (cases x; cases y) (auto simp: less_eq_role_def)
  show "x \<le> y \<or> y \<le> x"
    by (cases x; cases y) (auto simp: less_eq_role_def)
qed

end

text \<open>On the declared roles the order of the type is the order \<open>AtLeast\<close> compares by.\<close>

lemma role_order_at_least: "role_valid r \<or> role_valid s \<Longrightarrow> s \<le> r \<longleftrightarrow> role_at_least r s"
  by (cases r; cases s) (simp_all add: role_valid_def role_at_least_def less_eq_role_def)

end
