(* ===== verification/Page.thy ===== *)
theory Page
  imports Domain
begin

text \<open>
  Pagination: \<open>store.Page\<close> with its \<open>Normalize\<close> and \<open>Bounded\<close>, the in-memory
  \<open>applyPage\<close>, and the HTTP layer's \<open>parsePage\<close> and \<open>pageMeta\<close>. The lemmas show that a
  page a client can ask for is bounded, that a page is a window of the list, and that
  following \<open>nextOffset\<close> walks the whole list exactly once.
\<close>

section \<open>Pages of the store\<close>

definition default_page_limit :: int where "default_page_limit = 50"
definition max_page_limit :: int where "max_page_limit = 200"

record page =
  page_limit :: int
  page_offset :: int

definition page_normalize :: "page \<Rightarrow> page" where
  "page_normalize p =
     (let l1 = (if page_limit p \<le> 0 then default_page_limit else page_limit p);
          l2 = (if l1 > max_page_limit then max_page_limit else l1);
          o2 = (if page_offset p < 0 then 0 else page_offset p)
      in \<lparr>page_limit = l2, page_offset = o2\<rparr>)"

definition page_bounded :: "page \<Rightarrow> bool" where
  "page_bounded p \<longleftrightarrow> page_limit p > 0"

definition whole_page :: page where
  "whole_page = \<lparr>page_limit = 0, page_offset = 0\<rparr>"

definition apply_page :: "'a list \<Rightarrow> page \<Rightarrow> 'a list" where
  "apply_page xs p =
     (if \<not> page_bounded p then xs
      else let off = (if page_offset p < 0 then 0 else page_offset p)
           in if off \<ge> int (length xs) then []
              else let e = off + page_limit p;
                       e2 = (if e > int (length xs) then int (length xs) else e)
                   in take (nat (e2 - off)) (drop (nat off) xs))"

section \<open>The HTTP layer\<close>

text \<open>The two query parameters; an absent one reads as the empty string.\<close>

definition parse_page :: "string \<Rightarrow> string \<Rightarrow> page" where
  "parse_page limit_q offset_q =
     (let l = (if limit_q \<noteq> [] then (case atoi limit_q of Some n \<Rightarrow> n | None \<Rightarrow> 0) else 0);
          f = (if offset_q \<noteq> [] then (case atoi offset_q of Some n \<Rightarrow> if n > 0 then n else 0 | None \<Rightarrow> 0) else 0)
      in page_normalize \<lparr>page_limit = l, page_offset = f\<rparr>)"

record page_block =
  pb_limit :: int
  pb_offset :: int
  pb_has_more :: bool
  pb_next_offset :: "int option"
  pb_total :: "int option"

definition page_meta :: "page \<Rightarrow> int \<Rightarrow> int \<Rightarrow> page_block" where
  "page_meta p cnt tot =
     (let more = (if tot \<ge> 0 then page_offset p + cnt < tot else cnt \<ge> page_limit p)
      in \<lparr>pb_limit = page_limit p, pb_offset = page_offset p, pb_has_more = more,
          pb_next_offset = (if more then Some (page_offset p + cnt) else None),
          pb_total = (if tot \<ge> 0 then Some tot else None)\<rparr>)"

section \<open>Facts\<close>

lemma page_normalize_bounds:
  "0 < page_limit (page_normalize p)" "page_limit (page_normalize p) \<le> max_page_limit"
  "0 \<le> page_offset (page_normalize p)"
  by (auto simp: page_normalize_def Let_def default_page_limit_def max_page_limit_def)

lemma page_normalize_id:
  "0 < page_limit p \<Longrightarrow> page_limit p \<le> max_page_limit \<Longrightarrow> 0 \<le> page_offset p \<Longrightarrow> page_normalize p = p"
  by (simp add: page_normalize_def Let_def)

lemma page_normalize_idem: "page_normalize (page_normalize p) = page_normalize p"
  by (simp add: page_normalize_id page_normalize_bounds)

lemma apply_whole_page [simp]: "apply_page xs whole_page = xs"
  by (simp add: apply_page_def page_bounded_def whole_page_def)

lemma apply_page_window:
  "page_limit p > 0 \<Longrightarrow>
     apply_page xs p = take (nat (page_limit p)) (drop (nat (page_offset p)) xs)"
  by (auto simp: apply_page_def page_bounded_def Let_def min_def nat_diff_distrib nat_add_distrib intro!: take_all)

lemma set_apply_page: "set (apply_page xs p) \<subseteq> set xs"
proof (cases "page_limit p > 0")
  case True
  then show ?thesis
    by (simp add: apply_page_window) (meson order.trans set_drop_subset set_take_subset)
next
  case False
  then show ?thesis by (simp add: apply_page_def page_bounded_def)
qed

text \<open>
  A client that starts at offset 0 and follows \<open>nextOffset\<close> while \<open>hasMore\<close> holds; the
  server answers each request with \<open>applyPage\<close> and a \<open>pageMeta\<close> that knows the total.
\<close>

fun walk_pages :: "nat \<Rightarrow> int \<Rightarrow> 'a list \<Rightarrow> int \<Rightarrow> 'a list option" where
  "walk_pages 0 limit xs off = None"
| "walk_pages (Suc fuel) limit xs off =
     (let p = \<lparr>page_limit = limit, page_offset = off\<rparr>; ys = apply_page xs p
      in case pb_next_offset (page_meta p (int (length ys)) (int (length xs))) of
           None \<Rightarrow> Some ys
         | Some off' \<Rightarrow> map_option (\<lambda>rest. ys @ rest) (walk_pages fuel limit xs off'))"

lemma walk_pages_rest:
  assumes "limit > 0" "0 \<le> off" "off \<le> int (length xs)" "length xs - nat off < fuel"
  shows "walk_pages fuel limit xs off = Some (drop (nat off) xs)"
  using assms
proof (induction fuel arbitrary: off)
  case 0
  then show ?case by simp
next
  case (Suc fuel)
  let ?l = "nat limit" and ?o = "nat off"
  let ?ys = "take ?l (drop ?o xs)"
  have ys: "apply_page xs \<lparr>page_limit = limit, page_offset = off\<rparr> = ?ys"
    using Suc.prems(1) by (simp add: apply_page_window)
  show ?case
  proof (cases "off + int (length ?ys) < int (length xs)")
    case True
    let ?off' = "off + int (length ?ys)"
    have len: "length ?ys = ?l" using True Suc.prems(2) by auto
    have "walk_pages fuel limit xs ?off' = Some (drop (nat ?off') xs)"
      by (rule Suc.IH) (use Suc.prems True len in auto)
    moreover have "nat ?off' = ?o + ?l" using len Suc.prems by (simp add: nat_add_distrib)
    then have "?ys @ drop (nat ?off') xs = drop ?o xs"
      by (metis add.commute append_take_drop_id drop_drop)
    ultimately show ?thesis using True by (simp add: Let_def ys page_meta_def)
  next
    case False
    then have "length (drop ?o xs) \<le> ?l" using Suc.prems by (auto simp: min_def split: if_splits)
    with False show ?thesis by (simp add: Let_def ys page_meta_def)
  qed
qed

end
