(* ===== verification/Mem_State.thy ===== *)
theory Mem_State
  imports Page
begin

text \<open>
  The state of the in-memory store (\<open>MemoryStore\<close> in \<open>internal/store/memory.go\<close>), its seeded
  default business configuration, and the empty store \<open>NewMemoryStore\<close> returns. The lock is
  not part of the state: every method runs under it, so each is one atomic step. The two
  halves of a transaction are \<open>with_tx\<close> at the end.
\<close>

section \<open>The state\<close>

record env_entry =
  ee_value :: string
  ee_secret :: bool

record mem =
  st_users :: "(string, user) gomap"
  st_users_by_email :: "(string, string) gomap"
  st_organizations :: "(string, organization) gomap"
  st_memberships :: "(string, membership) gomap"
  st_apps :: "(string, app) gomap"
  st_builds :: "(string, build) gomap"
  st_releases :: "(string, release) gomap"
  st_databases :: "(string, database) gomap"
  st_subscriptions :: "(string, subscription) gomap"
  st_usage :: "(string, usage_record list) gomap"
  st_projects :: "(string, project) gomap"
  st_project_members :: "(string, project_membership) gomap"
  st_invitations :: "(string, invitation) gomap"
  st_services :: "(string, service) gomap"
  st_app_env :: "(string, (string, env_entry) gomap) gomap"
  st_audit_events :: "audit_event list"
  st_domains :: "(string, domain) gomap"
  st_plans :: "(string, plan) gomap"
  st_templates :: "(string, service_template) gomap"
  st_pricing :: "(string, pricing_component) gomap"
  st_refresh_tokens :: "(string, refresh_token) gomap"
  st_reset_tokens :: "(string, password_reset_token) gomap"
  st_api_tokens :: "(string, api_token) gomap"
  st_settings :: platform_settings
  st_processed_evts :: "(string, unit) gomap"
  st_meter_state :: "meter_state option"
  st_report_state :: "(string, usage_report_state) gomap"

type_synonym 'a mem_op = "(serr, mem, 'a) op"

section \<open>Seed data\<close>

definition default_pricing :: "pricing_component list" where
  "default_pricing =
     [\<lparr>pc_key = ''cpu'', pc_name = ''vCPU'', pc_unit = ''vCPU-hour'', pc_price_per_hour = 25 / 1000,
       pc_currency = ''usd'', pc_active = True, pc_sort_order = 1\<rparr>,
      \<lparr>pc_key = ''memory'', pc_name = ''Memory'', pc_unit = ''GB-hour'', pc_price_per_hour = 5 / 1000,
       pc_currency = ''usd'', pc_active = True, pc_sort_order = 2\<rparr>,
      \<lparr>pc_key = ''storage'', pc_name = ''Storage'', pc_unit = ''GB-hour'', pc_price_per_hour = 2 / 10000,
       pc_currency = ''usd'', pc_active = True, pc_sort_order = 3\<rparr>]"

definition default_plans :: "plan list" where
  "default_plans =
     [\<lparr>plan_id = ''hobby'', plan_name = ''Hobby'',
       plan_description = ''For side projects. Shared CPU, 1 app, community support.'',
       plan_price_cents = 0, plan_currency = ''usd'', plan_included_hours = 160,
       plan_overage_per_hour_cents = 0, plan_stripe_price_id = [], plan_max_cpu = 1 / 2,
       plan_max_memory_mb = 512, plan_max_apps = 3, plan_is_default = True,
       plan_sort_order = 1, plan_active = True\<rparr>,
      \<lparr>plan_id = ''launch'', plan_name = ''Launch'',
       plan_description = ''For production apps. Dedicated CPU, autoscaling, custom domains.'',
       plan_price_cents = 2900, plan_currency = ''usd'', plan_included_hours = 720,
       plan_overage_per_hour_cents = 2, plan_stripe_price_id = [], plan_max_cpu = 1,
       plan_max_memory_mb = 1024, plan_max_apps = 20, plan_is_default = False,
       plan_sort_order = 2, plan_active = True\<rparr>,
      \<lparr>plan_id = ''scale'', plan_name = ''Scale'',
       plan_description = ''For scaling teams. Multi-region, higher limits, priority support.'',
       plan_price_cents = 9900, plan_currency = ''usd'', plan_included_hours = 2400,
       plan_overage_per_hour_cents = 1, plan_stripe_price_id = [], plan_max_cpu = 2,
       plan_max_memory_mb = 4096, plan_max_apps = 100, plan_is_default = False,
       plan_sort_order = 3, plan_active = True\<rparr>]"

definition default_template :: "string \<Rightarrow> string \<Rightarrow> string \<Rightarrow> string \<Rightarrow> string \<Rightarrow> string \<Rightarrow> int \<Rightarrow> int \<Rightarrow> service_template" where
  "default_template key name descr category kind img port sort_order =
     \<lparr>tpl_key = key, tpl_name = name, tpl_description = descr, tpl_category = category,
      tpl_kind = kind, tpl_image = img, tpl_default_port = port, tpl_active = True,
      tpl_sort_order = sort_order\<rparr>"

definition default_templates :: "service_template list" where
  "default_templates =
     [default_template ''wordpress'' ''WordPress'' (''The world'' @ [CHR 0x27] @ ''s most popular CMS.'') ''CMS''
        ''service'' ''wordpress:6.8-php8.3-apache'' 80 1,
      default_template ''ghost'' ''Ghost'' ''Modern publishing platform.'' ''CMS''
        ''service'' ''ghost:5-alpine'' 2368 2,
      default_template ''plausible'' ''Plausible'' ''Privacy-friendly web analytics.'' ''Analytics''
        ''service'' ''plausible/analytics:v2.1.0'' 8000 3,
      default_template ''n8n'' ''n8n'' ''Workflow automation.'' ''Automation''
        ''service'' ''n8nio/n8n:1.64.0'' 5678 4,
      default_template ''postgresql'' ''PostgreSQL'' ''Relational database.'' ''Database''
        ''database'' ''postgres:16-alpine'' 5432 5,
      default_template ''mysql'' ''MySQL'' ''Relational database.'' ''Database''
        ''database'' ''mysql:8.4'' 3306 6,
      default_template ''mariadb'' ''MariaDB'' ''MySQL-compatible relational database.'' ''Database''
        ''database'' ''mariadb:11'' 3306 7,
      default_template ''mongodb'' ''MongoDB'' ''Document database.'' ''Database''
        ''database'' ''mongo:7'' 27017 8,
      default_template ''redis'' ''Redis'' ''In-memory key-value store.'' ''Database''
        ''database'' ''redis:7-alpine'' 6379 9,
      default_template ''docker-image'' ''Docker Image'' ''Deploy any public Docker image.'' ''App''
        ''app'' [] 80 10]"

definition default_settings :: platform_settings where
  "default_settings =
     \<lparr>set_default_cpu = 1 / 10, set_default_memory_mb = 128, set_default_plan_id = ''hobby'',
      set_cpu_overcommit_factor = 2 / 10, set_memory_overcommit_factor = 35 / 100,
      set_default_region = ''fra1'', set_regions = [''fra1'', ''nyc1'', ''sfo3'', ''sgp1''],
      set_grace_past_due = False, set_default_spend_cap_cents = 0,
      set_keda_default_min_replicas = 1, set_keda_default_max_replicas = 5,
      set_keda_max_replicas_ceiling = 20, set_keda_polling_interval = 30,
      set_keda_cooldown_period = 300, set_keda_cpu_utilization = 70,
      set_keda_http_trigger = False\<rparr>"

text \<open>The zero value of the settings struct, before \<open>seed\<close> runs.\<close>

definition zero_settings :: platform_settings where
  "zero_settings =
     \<lparr>set_default_cpu = 0, set_default_memory_mb = 0, set_default_plan_id = [],
      set_cpu_overcommit_factor = 0, set_memory_overcommit_factor = 0,
      set_default_region = [], set_regions = [],
      set_grace_past_due = False, set_default_spend_cap_cents = 0,
      set_keda_default_min_replicas = 0, set_keda_default_max_replicas = 0,
      set_keda_max_replicas_ceiling = 0, set_keda_polling_interval = 0,
      set_keda_cooldown_period = 0, set_keda_cpu_utilization = 0,
      set_keda_http_trigger = False\<rparr>"

definition put_all :: "('v \<Rightarrow> 'k) \<Rightarrow> 'v list \<Rightarrow> ('k, 'v) gomap \<Rightarrow> ('k, 'v) gomap" where
  "put_all key vs m = fold (\<lambda>v. gput (key v) v) vs m"

definition seed :: "mem \<Rightarrow> mem" where
  "seed s =
     (let s1 = (if st_plans s = [] then s\<lparr>st_plans := put_all plan_id default_plans (st_plans s)\<rparr> else s);
          s2 = (if st_templates s1 = [] then s1\<lparr>st_templates := put_all tpl_key default_templates (st_templates s1)\<rparr> else s1);
          s3 = (if st_pricing s2 = [] then s2\<lparr>st_pricing := put_all pc_key default_pricing (st_pricing s2)\<rparr> else s2)
      in if set_default_plan_id (st_settings s3) = [] then s3\<lparr>st_settings := default_settings\<rparr> else s3)"

definition new_memory_store :: mem where
  "new_memory_store =
     seed \<lparr>st_users = [], st_users_by_email = [], st_organizations = [], st_memberships = [],
           st_apps = [], st_builds = [], st_releases = [], st_databases = [],
           st_subscriptions = [], st_usage = [], st_projects = [], st_project_members = [],
           st_invitations = [], st_services = [], st_app_env = [], st_audit_events = [],
           st_domains = [], st_plans = [], st_templates = [], st_pricing = [],
           st_refresh_tokens = [], st_reset_tokens = [], st_api_tokens = [],
           st_settings = zero_settings, st_processed_evts = [], st_meter_state = None,
           st_report_state = []\<rparr>"

section \<open>Transactions\<close>

text \<open>
  \<open>WithTx\<close> of the interface: the memory store runs the closure on the live state and keeps
  what it wrote even when it fails; a transactional store (Postgres) puts the state back.
\<close>

datatype tx_mode = TxMemory | TxRollback

definition with_tx :: "tx_mode \<Rightarrow> 'e option \<Rightarrow> ('e, 's, 'a) op \<Rightarrow> ('e, 's, 'a) op" where
  "with_tx mode ctx_err f s =
     (case ctx_err of
        Some e \<Rightarrow> (Inl e, s)
      | None \<Rightarrow>
          (case f s of
             (Inl e, t) \<Rightarrow> (Inl e, case mode of TxMemory \<Rightarrow> t | TxRollback \<Rightarrow> s)
           | (Inr x, t) \<Rightarrow> (Inr x, t)))"

lemma with_tx_rollback:
  "fst (with_tx TxRollback c f s) = Inl e \<Longrightarrow> snd (with_tx TxRollback c f s) = s"
  by (auto simp: with_tx_def split: prod.splits sum.splits option.splits)

lemma with_tx_success: "fst (with_tx m None f s) = Inr x \<longleftrightarrow> fst (f s) = Inr x"
  by (auto simp: with_tx_def split: prod.splits sum.splits)

lemma with_tx_commit: "f s = (Inr x, t) \<Longrightarrow> with_tx m None f s = (Inr x, t)"
  by (simp add: with_tx_def)

lemma keeps_with_tx: "keeps I f \<Longrightarrow> keeps I (with_tx m c f)"
  unfolding keeps_def with_tx_def by (auto split: prod.splits sum.splits tx_mode.splits option.splits)

section \<open>Facts about the seed\<close>

lemma seed_frame [simp]:
  "st_users (seed s) = st_users s" "st_users_by_email (seed s) = st_users_by_email s"
  "st_organizations (seed s) = st_organizations s" "st_memberships (seed s) = st_memberships s"
  "st_apps (seed s) = st_apps s" "st_builds (seed s) = st_builds s"
  "st_releases (seed s) = st_releases s" "st_databases (seed s) = st_databases s"
  "st_subscriptions (seed s) = st_subscriptions s" "st_usage (seed s) = st_usage s"
  "st_projects (seed s) = st_projects s" "st_project_members (seed s) = st_project_members s"
  "st_invitations (seed s) = st_invitations s" "st_services (seed s) = st_services s"
  "st_app_env (seed s) = st_app_env s" "st_audit_events (seed s) = st_audit_events s"
  "st_domains (seed s) = st_domains s" "st_refresh_tokens (seed s) = st_refresh_tokens s"
  "st_reset_tokens (seed s) = st_reset_tokens s" "st_api_tokens (seed s) = st_api_tokens s"
  "st_processed_evts (seed s) = st_processed_evts s" "st_meter_state (seed s) = st_meter_state s"
  "st_report_state (seed s) = st_report_state s"
  by (simp_all add: seed_def Let_def)

lemma gwf_put_all: "gwf m \<Longrightarrow> gwf (put_all key vs m)"
  unfolding put_all_def by (induction vs arbitrary: m) simp_all

lemma seed_idem: "seed (seed s) = seed s"
proof -
  have ne: "fold (\<lambda>v. gput (key v) v) vs m \<noteq> []" if "vs \<noteq> [] \<or> m \<noteq> []"
    for key :: "'v \<Rightarrow> string" and vs :: "'v list" and m
    using that
  proof (induction vs arbitrary: m)
    case (Cons v vs)
    have "gput (key v) v m \<noteq> []" by (cases m) (auto simp: gput_def)
    then show ?case using Cons.IH by simp
  qed simp
  have "put_all plan_id default_plans [] \<noteq> []" "put_all tpl_key default_templates [] \<noteq> []"
    "put_all pc_key default_pricing [] \<noteq> []"
    unfolding put_all_def
    by (rule ne; simp add: default_plans_def default_templates_def default_pricing_def)+
  moreover have "set_default_plan_id default_settings \<noteq> []" by (simp add: default_settings_def)
  ultimately show ?thesis
    by (cases "st_plans s = []"; cases "st_templates s = []"; cases "st_pricing s = []";
        cases "set_default_plan_id (st_settings s) = []")
      (simp_all add: seed_def Let_def split del: if_split)
qed

end
