(* ===== verification/Mem_Tenancy.thy ===== *)
theory Mem_Tenancy
  imports Mem_State
begin

text \<open>
  The memory store's users, organizations, memberships, projects, project memberships and
  invitations. Reads are functions of the state; writes are operations on it. A method that
  changes the struct its caller passed in (\<open>UpdateUser\<close>, \<open>UpdateOrg\<close>) returns that struct.
\<close>

definition on_tbl :: "('t \<Rightarrow> mem \<Rightarrow> mem) \<Rightarrow> serr + 't \<Rightarrow> unit mem_op" where
  "on_tbl set_table r s = (case r of Inl e \<Rightarrow> (Inl e, s) | Inr t \<Rightarrow> (Inr (), set_table t s))"

section \<open>Users\<close>

definition create_user :: "user \<Rightarrow> unit mem_op" where
  "create_user u s =
     (let email = to_lower (user_email u)
      in if gget (st_users_by_email s) email \<noteq> None then (Inl ErrConflict, s)
         else if gget (st_users s) (user_id u) \<noteq> None then (Inl ErrConflict, s)
         else (Inr (), s\<lparr>st_users := gput (user_id u) u (st_users s),
                         st_users_by_email := gput email (user_id u) (st_users_by_email s)\<rparr>))"

definition get_user_by_id :: "string \<Rightarrow> mem \<Rightarrow> serr + user" where
  "get_user_by_id i s = tbl_get (st_users s) i"

definition update_user :: "user \<Rightarrow> user mem_op" where
  "update_user u s =
     (case gget (st_users s) (user_id u) of
        None \<Rightarrow> (Inl ErrNotFound, s)
      | Some existing \<Rightarrow>
          (let v = u\<lparr>user_email := user_email existing\<rparr>
           in (Inr v, s\<lparr>st_users := gput (user_id v) v (st_users s)\<rparr>)))"

definition zero_user :: user where
  "zero_user = \<lparr>user_id = [], user_email = [], user_name = [], user_password_hash = [],
                user_is_admin = False, user_created_at = zero_time\<rparr>"

definition get_user_by_email :: "string \<Rightarrow> mem \<Rightarrow> serr + user" where
  "get_user_by_email email s =
     (case gget (st_users_by_email s) (to_lower email) of
        None \<Rightarrow> Inl ErrNotFound
      | Some i \<Rightarrow> Inr (case gget (st_users s) i of None \<Rightarrow> zero_user | Some u \<Rightarrow> u))"

section \<open>Organizations\<close>

definition create_organization :: "organization \<Rightarrow> unit mem_op" where
  "create_organization o1 s =
     on_tbl (\<lambda>t s. s\<lparr>st_organizations := t\<rparr>) (tbl_create org_id o1 (st_organizations s)) s"

definition get_organization :: "string \<Rightarrow> mem \<Rightarrow> serr + organization" where
  "get_organization i s = tbl_get (st_organizations s) i"

definition update_org :: "organization \<Rightarrow> organization mem_op" where
  "update_org o1 s =
     (case gget (st_organizations s) (org_id o1) of
        None \<Rightarrow> (Inl ErrNotFound, s)
      | Some existing \<Rightarrow>
          (let e = existing\<lparr>org_name := org_name o1, org_billing_email := org_billing_email o1,
                            org_spend_cap_cents := org_spend_cap_cents o1\<rparr>
           in (Inr e, s\<lparr>st_organizations := gput (org_id o1) e (st_organizations s)\<rparr>)))"

definition list_organizations_for_user :: "string \<Rightarrow> mem \<Rightarrow> serr + organization list" where
  "list_organizations_for_user uid s =
     Inr (List.map_filter
            (\<lambda>m. if mem_user_id m = uid then gget (st_organizations s) (mem_org_id m) else None)
            (gvals (st_memberships s)))"

section \<open>Memberships\<close>

definition membership_key :: "string \<Rightarrow> string \<Rightarrow> string" where
  "membership_key org_i user_i = org_i @ [CHR 0x00] @ user_i"

definition mkey :: "membership \<Rightarrow> string" where
  "mkey m = membership_key (mem_org_id m) (mem_user_id m)"

definition add_membership :: "membership \<Rightarrow> unit mem_op" where
  "add_membership m s =
     on_tbl (\<lambda>t s. s\<lparr>st_memberships := t\<rparr>) (tbl_create mkey m (st_memberships s)) s"

definition get_membership :: "string \<Rightarrow> string \<Rightarrow> mem \<Rightarrow> serr + membership" where
  "get_membership org_i user_i s = tbl_get (st_memberships s) (membership_key org_i user_i)"

definition list_memberships :: "string \<Rightarrow> mem \<Rightarrow> serr + membership list" where
  "list_memberships org_i s = Inr (filter (\<lambda>m. mem_org_id m = org_i) (gvals (st_memberships s)))"

definition update_membership_role :: "string \<Rightarrow> string \<Rightarrow> role \<Rightarrow> unit mem_op" where
  "update_membership_role org_i user_i r s =
     (let key = membership_key org_i user_i
      in case gget (st_memberships s) key of
           None \<Rightarrow> (Inl ErrNotFound, s)
         | Some m \<Rightarrow> (Inr (), s\<lparr>st_memberships := gput key (m\<lparr>mem_role := r\<rparr>) (st_memberships s)\<rparr>))"

definition remove_membership :: "string \<Rightarrow> string \<Rightarrow> unit mem_op" where
  "remove_membership org_i user_i s =
     on_tbl (\<lambda>t s. s\<lparr>st_memberships := t\<rparr>)
       (tbl_delete (membership_key org_i user_i) (st_memberships s)) s"

section \<open>Projects\<close>

definition create_project :: "project \<Rightarrow> unit mem_op" where
  "create_project p s = on_tbl (\<lambda>t s. s\<lparr>st_projects := t\<rparr>) (tbl_create proj_id p (st_projects s)) s"

definition get_project :: "string \<Rightarrow> mem \<Rightarrow> serr + project" where
  "get_project i s = tbl_get (st_projects s) i"

definition list_projects_by_org :: "string \<Rightarrow> mem \<Rightarrow> serr + project list" where
  "list_projects_by_org org_i s = Inr (filter (\<lambda>p. proj_org_id p = org_i) (gvals (st_projects s)))"

definition delete_project :: "string \<Rightarrow> string \<Rightarrow> unit mem_op" where
  "delete_project org_i proj_i s =
     (case gget (st_projects s) proj_i of
        None \<Rightarrow> (Inl ErrNotFound, s)
      | Some p \<Rightarrow>
          if proj_org_id p \<noteq> org_i then (Inl ErrNotFound, s)
          else if list_ex (\<lambda>a. app_project_id a = proj_i) (gvals (st_apps s)) then (Inl ErrConflict, s)
          else if list_ex (\<lambda>v. svc_project_id v = proj_i) (gvals (st_services s)) then (Inl ErrConflict, s)
          else (Inr (), s\<lparr>st_projects := gdel proj_i (st_projects s)\<rparr>))"

definition project_member_key :: "string \<Rightarrow> string \<Rightarrow> string" where
  "project_member_key proj_i user_i = proj_i @ [CHR 0x00] @ user_i"

definition pmkey :: "project_membership \<Rightarrow> string" where
  "pmkey m = project_member_key (pm_project_id m) (pm_user_id m)"

definition add_project_membership :: "project_membership \<Rightarrow> unit mem_op" where
  "add_project_membership m s =
     on_tbl (\<lambda>t s. s\<lparr>st_project_members := t\<rparr>) (tbl_create pmkey m (st_project_members s)) s"

definition get_project_membership :: "string \<Rightarrow> string \<Rightarrow> mem \<Rightarrow> serr + project_membership" where
  "get_project_membership proj_i user_i s =
     tbl_get (st_project_members s) (project_member_key proj_i user_i)"

section \<open>Invitations\<close>

definition create_invitation :: "invitation \<Rightarrow> unit mem_op" where
  "create_invitation i s =
     on_tbl (\<lambda>t s. s\<lparr>st_invitations := t\<rparr>) (tbl_create inv_id i (st_invitations s)) s"

definition get_invitation_by_token :: "string \<Rightarrow> mem \<Rightarrow> serr + invitation" where
  "get_invitation_by_token token s =
     (case find (\<lambda>i. inv_token i = token) (gvals (st_invitations s)) of
        None \<Rightarrow> Inl ErrNotFound
      | Some i \<Rightarrow> Inr i)"

definition list_invitations_by_org :: "string \<Rightarrow> mem \<Rightarrow> serr + invitation list" where
  "list_invitations_by_org org_i s = Inr (filter (\<lambda>i. inv_org_id i = org_i) (gvals (st_invitations s)))"

definition update_invitation :: "invitation \<Rightarrow> unit mem_op" where
  "update_invitation i s =
     on_tbl (\<lambda>t s. s\<lparr>st_invitations := t\<rparr>) (tbl_update inv_id i (st_invitations s)) s"

definition revoke_invitation :: "string \<Rightarrow> string \<Rightarrow> unit mem_op" where
  "revoke_invitation org_i inv_i s =
     (case gget (st_invitations s) inv_i of
        None \<Rightarrow> (Inl ErrNotFound, s)
      | Some i \<Rightarrow>
          if inv_org_id i \<noteq> org_i then (Inl ErrNotFound, s)
          else (Inr (), s\<lparr>st_invitations := gput inv_i (i\<lparr>inv_status := InviteRevoked\<rparr>) (st_invitations s)\<rparr>))"

section \<open>The invariant of these tables\<close>

definition index_ok :: "(string, user) gomap \<Rightarrow> (string, string) gomap \<Rightarrow> bool" where
  "index_ok us ix \<longleftrightarrow>
     keyed user_id us \<and> gwf ix \<and>
     (\<forall>e i. gget ix e = Some i \<longleftrightarrow> (\<exists>u. gget us i = Some u \<and> to_lower (user_email u) = e))"

definition user_index_ok :: "mem \<Rightarrow> bool" where
  "user_index_ok s \<longleftrightarrow> index_ok (st_users s) (st_users_by_email s)"

definition tenancy_wf :: "mem \<Rightarrow> bool" where
  "tenancy_wf s \<longleftrightarrow>
     user_index_ok s \<and> keyed org_id (st_organizations s) \<and> keyed mkey (st_memberships s) \<and>
     keyed proj_id (st_projects s) \<and> keyed pmkey (st_project_members s) \<and>
     keyed inv_id (st_invitations s)"

lemma keyed_create: "keyed key t \<Longrightarrow> tbl_create key v t = Inr u \<Longrightarrow> keyed key u"
  by (rule tbl.create_inv)

lemma keyed_update: "keyed key t \<Longrightarrow> tbl_update key v t = Inr u \<Longrightarrow> keyed key u"
  by (rule tbl.update_inv)

lemma keyed_delete: "keyed key t \<Longrightarrow> tbl_delete k t = Inr u \<Longrightarrow> keyed key u"
  by (rule tbl.delete_inv)

lemma keyed_key: "keyed key t \<Longrightarrow> gget t k = Some v \<Longrightarrow> key v = k"
  by (simp add: keyed_def)

lemmas keyed_intros = keyed_create keyed_update keyed_delete keyed_put keyed_del

text \<open>Writes that touch one table keep the invariant through that table's law.\<close>

lemma keeps_on_tbl:
  assumes "\<And>s t. I s \<Longrightarrow> r s = Inr t \<Longrightarrow> I (f t s)"
  shows "keeps I (\<lambda>s. on_tbl f (r s) s)"
  using assms by (auto simp: keeps_def on_tbl_def split: sum.splits)

lemma index_ok_insert:
  assumes "index_ok us ix" "gget ix (to_lower (user_email u)) = None" "gget us (user_id u) = None"
  shows "index_ok (gput (user_id u) u us) (gput (to_lower (user_email u)) (user_id u) ix)"
proof -
  have "gget ix e = Some i \<longleftrightarrow> (\<exists>v. gget us i = Some v \<and> to_lower (user_email v) = e)" for e i
    using assms(1) by (simp add: index_ok_def)
  moreover from this have "gget ix e \<noteq> Some (user_id u)" for e using assms(3) by simp
  moreover have "gget us i = Some v \<Longrightarrow> to_lower (user_email v) \<noteq> to_lower (user_email u)" for i v
    using calculation(1) [of "to_lower (user_email u)" i] assms(2) by auto
  ultimately show ?thesis using assms(1) by (auto simp: index_ok_def keyed_put)
qed

lemma index_ok_replace:
  assumes "index_ok us ix" "gget us (user_id v) = Some w" "user_email v = user_email w"
  shows "index_ok (gput (user_id v) v us) ix"
proof -
  have "gget ix e = Some i \<longleftrightarrow> (\<exists>x. gget us i = Some x \<and> to_lower (user_email x) = e)" for e i
    using assms(1) by (simp add: index_ok_def)
  with assms show ?thesis by (auto simp: index_ok_def keyed_put)
qed

lemma user_index_create: "keeps user_index_ok (create_user u)"
  unfolding keeps_def create_user_def user_index_ok_def Let_def
  by (simp add: index_ok_insert)

lemma user_index_update: "keeps user_index_ok (update_user u)"
proof -
  have "index_ok (gput (user_id u) (u\<lparr>user_email := user_email w\<rparr>) us) ix"
    if "index_ok us ix" "gget us (user_id u) = Some w" for us ix w
    using index_ok_replace [of us ix "u\<lparr>user_email := user_email w\<rparr>" w] that by simp
  then show ?thesis
    unfolding keeps_def update_user_def user_index_ok_def Let_def by (simp split: option.splits)
qed

lemma index_ok_iff:
  "index_ok us ix \<Longrightarrow> gget ix e = Some i \<longleftrightarrow> (\<exists>u. gget us i = Some u \<and> to_lower (user_email u) = e)"
  by (simp add: index_ok_def)

lemma email_lookup:
  assumes "user_index_ok s"
  shows "get_user_by_email e s = Inr u \<longleftrightarrow>
     (\<exists>i. gget (st_users s) i = Some u \<and> to_lower (user_email u) = to_lower e)"
proof -
  note ix = index_ok_iff [OF assms [unfolded user_index_ok_def], of "to_lower e"]
  show ?thesis
  proof (cases "gget (st_users_by_email s) (to_lower e)")
    case None
    with ix have "\<not> (\<exists>i. gget (st_users s) i = Some u \<and> to_lower (user_email u) = to_lower e)"
      by (metis option.distinct(1))
    with None show ?thesis by (simp add: get_user_by_email_def)
  next
    case (Some i)
    with ix obtain w where w: "gget (st_users s) i = Some w" "to_lower (user_email w) = to_lower e"
      by auto
    have "i' = i" if "gget (st_users s) i' = Some u" "to_lower (user_email u) = to_lower e" for i'
      using that ix [of i'] Some by auto
    with Some w show ?thesis by (auto simp: get_user_by_email_def)
  qed
qed

lemma user_index_frame:
  "st_users t = st_users s \<Longrightarrow> st_users_by_email t = st_users_by_email s \<Longrightarrow>
     user_index_ok t = user_index_ok s"
  by (simp add: user_index_ok_def)

named_theorems tenancy_keeps \<open>operations that keep the tenancy invariant\<close>

lemma tenancy_keeps_org [tenancy_keeps]: "keeps tenancy_wf (create_organization x)"
  unfolding create_organization_def
  by (rule keeps_on_tbl) (auto simp: tenancy_wf_def user_index_ok_def intro: keyed_intros)

lemma tenancy_keeps_member [tenancy_keeps]: "keeps tenancy_wf (add_membership m)"
  unfolding add_membership_def
  by (rule keeps_on_tbl) (auto simp: tenancy_wf_def user_index_ok_def intro: keyed_intros)

lemma tenancy_keeps_remove [tenancy_keeps]: "keeps tenancy_wf (remove_membership a b)"
  unfolding remove_membership_def
  by (rule keeps_on_tbl) (auto simp: tenancy_wf_def user_index_ok_def intro: keyed_intros)

lemma tenancy_keeps_project [tenancy_keeps]: "keeps tenancy_wf (create_project p)"
  unfolding create_project_def
  by (rule keeps_on_tbl) (auto simp: tenancy_wf_def user_index_ok_def intro: keyed_intros)

lemma tenancy_keeps_pmember [tenancy_keeps]: "keeps tenancy_wf (add_project_membership p)"
  unfolding add_project_membership_def
  by (rule keeps_on_tbl) (auto simp: tenancy_wf_def user_index_ok_def intro: keyed_intros)

lemma tenancy_keeps_invite [tenancy_keeps]: "keeps tenancy_wf (create_invitation i)"
  unfolding create_invitation_def
  by (rule keeps_on_tbl) (auto simp: tenancy_wf_def user_index_ok_def intro: keyed_intros)

lemma tenancy_keeps_uinvite [tenancy_keeps]: "keeps tenancy_wf (update_invitation i)"
  unfolding update_invitation_def
  by (rule keeps_on_tbl) (auto simp: tenancy_wf_def user_index_ok_def intro: keyed_intros)

lemma tenancy_keeps_user [tenancy_keeps]: "keeps tenancy_wf (create_user u)"
  using user_index_create [of u]
  by (auto simp: keeps_def tenancy_wf_def create_user_def Let_def split: if_splits)

lemma tenancy_keeps_uuser [tenancy_keeps]: "keeps tenancy_wf (update_user u)"
  using user_index_update [of u]
  by (auto simp: keeps_def tenancy_wf_def update_user_def Let_def split: option.splits)

lemma tenancy_keeps_uorg [tenancy_keeps]: "keeps tenancy_wf (update_org x)"
proof -
  have "keyed org_id (gput (org_id x) (w\<lparr>org_name := n, org_billing_email := b, org_spend_cap_cents := c\<rparr>) t)"
    if "keyed org_id t" "gget t (org_id x) = Some w" for t w n b c
    using that keyed_key [OF that] by (intro keyed_put) simp_all
  then show ?thesis
    by (auto simp: keeps_def tenancy_wf_def update_org_def Let_def user_index_ok_def split: option.splits)
qed

lemma tenancy_keeps_role [tenancy_keeps]: "keeps tenancy_wf (update_membership_role a b r)"
  by (auto simp: keeps_def tenancy_wf_def update_membership_role_def Let_def user_index_ok_def
      mkey_def keyed_def split: option.splits)

lemma tenancy_keeps_dproject [tenancy_keeps]: "keeps tenancy_wf (delete_project a b)"
  by (auto simp: keeps_def tenancy_wf_def delete_project_def user_index_ok_def
      intro!: keyed_del split: option.splits)

lemma tenancy_keeps_rinvite [tenancy_keeps]: "keeps tenancy_wf (revoke_invitation a b)"
proof -
  have "keyed inv_id (gput b (w\<lparr>inv_status := InviteRevoked\<rparr>) t)"
    if "keyed inv_id t" "gget t b = Some w" for t w
    using that keyed_key [OF that] by (intro keyed_put) simp_all
  then show ?thesis
    by (auto simp: keeps_def tenancy_wf_def revoke_invitation_def user_index_ok_def split: option.splits)
qed

lemma tenancy_wf_new: "tenancy_wf new_memory_store"
  by (simp add: new_memory_store_def tenancy_wf_def user_index_ok_def index_ok_def)

end
