(* ===== verification/Mem_Workloads.thy ===== *)
theory Mem_Workloads
  imports Mem_Tenancy
begin

text \<open>
  The memory store's workloads: apps, builds, releases, databases, services, per-app
  environment and custom domains. The lists a client pages through are sorted the way the
  store sorts them; the lemmas show that the orders are strict weak ones (so the result does
  not depend on the order in which Go walks a map) and what each operation keeps of the
  tables' invariant.
\<close>

section \<open>Apps\<close>

definition create_app :: "app \<Rightarrow> unit mem_op" where
  "create_app a s = on_tbl (\<lambda>t s. s\<lparr>st_apps := t\<rparr>) (tbl_create app_id a (st_apps s)) s"

definition get_app :: "string \<Rightarrow> mem \<Rightarrow> serr + app" where
  "get_app i s = tbl_get (st_apps s) i"

definition list_apps_by_org :: "string \<Rightarrow> mem \<Rightarrow> serr + app list" where
  "list_apps_by_org org_i s = Inr (filter (\<lambda>a. app_org_id a = org_i) (gvals (st_apps s)))"

definition update_app :: "app \<Rightarrow> unit mem_op" where
  "update_app a s = on_tbl (\<lambda>t s. s\<lparr>st_apps := t\<rparr>) (tbl_update app_id a (st_apps s)) s"

definition delete_app :: "string \<Rightarrow> unit mem_op" where
  "delete_app i s = on_tbl (\<lambda>t s. s\<lparr>st_apps := t\<rparr>) (tbl_delete i (st_apps s)) s"

section \<open>Builds\<close>

definition create_build :: "build \<Rightarrow> unit mem_op" where
  "create_build b s = on_tbl (\<lambda>t s. s\<lparr>st_builds := t\<rparr>) (tbl_create bld_id b (st_builds s)) s"

definition get_build :: "string \<Rightarrow> mem \<Rightarrow> serr + build" where
  "get_build i s = tbl_get (st_builds s) i"

definition list_builds_by_app :: "string \<Rightarrow> page \<Rightarrow> mem \<Rightarrow> serr + build list" where
  "list_builds_by_app app_i p s =
     (let out = filter (\<lambda>b. bld_app_id b = app_i) (gvals (st_builds s))
      in Inr (apply_page (sort_by (\<lambda>a b. bld_created_at a > bld_created_at b) out) p))"

definition update_build :: "build \<Rightarrow> unit mem_op" where
  "update_build b s = on_tbl (\<lambda>t s. s\<lparr>st_builds := t\<rparr>) (tbl_update bld_id b (st_builds s)) s"

section \<open>Releases\<close>

definition create_release :: "release \<Rightarrow> unit mem_op" where
  "create_release r s =
     (if gget (st_releases s) (rel_id r) \<noteq> None then (Inl ErrConflict, s)
      else if list_ex (\<lambda>x. rel_app_id x = rel_app_id r \<and> rel_revision x = rel_revision r)
                (gvals (st_releases s)) then (Inl ErrConflict, s)
      else (Inr (), s\<lparr>st_releases := gput (rel_id r) r (st_releases s)\<rparr>))"

definition get_release :: "string \<Rightarrow> mem \<Rightarrow> serr + release" where
  "get_release i s = tbl_get (st_releases s) i"

definition list_releases_by_app :: "string \<Rightarrow> page \<Rightarrow> mem \<Rightarrow> serr + release list" where
  "list_releases_by_app app_i p s =
     (let out = filter (\<lambda>r. rel_app_id r = app_i) (gvals (st_releases s))
      in Inr (apply_page (sort_by (\<lambda>a b. rel_revision a > rel_revision b) out) p))"

definition update_release :: "release \<Rightarrow> unit mem_op" where
  "update_release r s = on_tbl (\<lambda>t s. s\<lparr>st_releases := t\<rparr>) (tbl_update rel_id r (st_releases s)) s"

section \<open>Databases and services\<close>

definition create_database :: "database \<Rightarrow> unit mem_op" where
  "create_database d s = on_tbl (\<lambda>t s. s\<lparr>st_databases := t\<rparr>) (tbl_create db_id d (st_databases s)) s"

definition get_database :: "string \<Rightarrow> mem \<Rightarrow> serr + database" where
  "get_database i s = tbl_get (st_databases s) i"

definition list_databases_by_org :: "string \<Rightarrow> mem \<Rightarrow> serr + database list" where
  "list_databases_by_org org_i s = Inr (filter (\<lambda>d. db_org_id d = org_i) (gvals (st_databases s)))"

definition update_database :: "database \<Rightarrow> unit mem_op" where
  "update_database d s = on_tbl (\<lambda>t s. s\<lparr>st_databases := t\<rparr>) (tbl_update db_id d (st_databases s)) s"

definition delete_database :: "string \<Rightarrow> unit mem_op" where
  "delete_database i s = on_tbl (\<lambda>t s. s\<lparr>st_databases := t\<rparr>) (tbl_delete i (st_databases s)) s"

definition create_service :: "service \<Rightarrow> unit mem_op" where
  "create_service v s = on_tbl (\<lambda>t s. s\<lparr>st_services := t\<rparr>) (tbl_create svc_id v (st_services s)) s"

definition get_service :: "string \<Rightarrow> mem \<Rightarrow> serr + service" where
  "get_service i s = tbl_get (st_services s) i"

definition list_services_by_org :: "string \<Rightarrow> mem \<Rightarrow> serr + service list" where
  "list_services_by_org org_i s = Inr (filter (\<lambda>v. svc_org_id v = org_i) (gvals (st_services s)))"

definition update_service :: "service \<Rightarrow> unit mem_op" where
  "update_service v s = on_tbl (\<lambda>t s. s\<lparr>st_services := t\<rparr>) (tbl_update svc_id v (st_services s)) s"

definition delete_service :: "string \<Rightarrow> unit mem_op" where
  "delete_service i s = on_tbl (\<lambda>t s. s\<lparr>st_services := t\<rparr>) (tbl_delete i (st_services s)) s"

section \<open>Environment\<close>

text \<open>A missing inner map and a nil one read as the empty map.\<close>

definition app_env_of :: "string \<Rightarrow> mem \<Rightarrow> (string, env_entry) gomap" where
  "app_env_of app_i s = (case gget (st_app_env s) app_i of None \<Rightarrow> [] | Some m \<Rightarrow> m)"

definition get_app_env :: "string \<Rightarrow> mem \<Rightarrow> serr + (string, string) gomap" where
  "get_app_env app_i s = Inr (gmap ee_value (app_env_of app_i s))"

definition list_app_env :: "string \<Rightarrow> mem \<Rightarrow> serr + app_env_entry list" where
  "list_app_env app_i s =
     Inr (sort_by (\<lambda>a b. env_key a < env_key b)
            (map (\<lambda>(k, v). \<lparr>env_key = k, env_value = ee_value v, env_secret = ee_secret v\<rparr>)
               (app_env_of app_i s)))"

definition set_app_env :: "string \<Rightarrow> string \<Rightarrow> string \<Rightarrow> bool \<Rightarrow> unit mem_op" where
  "set_app_env app_i key val secret s =
     (Inr (), s\<lparr>st_app_env :=
        gput app_i (gput key \<lparr>ee_value = val, ee_secret = secret\<rparr> (app_env_of app_i s)) (st_app_env s)\<rparr>)"

definition delete_app_env :: "string \<Rightarrow> string \<Rightarrow> unit mem_op" where
  "delete_app_env app_i key s =
     (case gget (st_app_env s) app_i of
        None \<Rightarrow> (Inr (), s)
      | Some m \<Rightarrow> (Inr (), s\<lparr>st_app_env := gput app_i (gdel key m) (st_app_env s)\<rparr>))"

section \<open>Custom domains\<close>

definition create_domain :: "domain \<Rightarrow> unit mem_op" where
  "create_domain d s = on_tbl (\<lambda>t s. s\<lparr>st_domains := t\<rparr>) (tbl_create dom_id d (st_domains s)) s"

definition get_domain :: "string \<Rightarrow> mem \<Rightarrow> serr + domain" where
  "get_domain i s = tbl_get (st_domains s) i"

definition list_domains_by_app :: "string \<Rightarrow> mem \<Rightarrow> serr + domain list" where
  "list_domains_by_app app_i s = Inr (filter (\<lambda>d. dom_app_id d = app_i) (gvals (st_domains s)))"

definition get_verified_domain_by_host :: "string \<Rightarrow> mem \<Rightarrow> serr + domain" where
  "get_verified_domain_by_host host s =
     (let want = to_lower (trim_space host)
      in case find (\<lambda>d. domain_is_verified d \<and> equal_fold (dom_domain d) want) (gvals (st_domains s)) of
           None \<Rightarrow> Inl ErrNotFound
         | Some d \<Rightarrow> Inr d)"

definition update_domain :: "domain \<Rightarrow> unit mem_op" where
  "update_domain d s = on_tbl (\<lambda>t s. s\<lparr>st_domains := t\<rparr>) (tbl_update dom_id d (st_domains s)) s"

definition delete_domain :: "string \<Rightarrow> unit mem_op" where
  "delete_domain i s = on_tbl (\<lambda>t s. s\<lparr>st_domains := t\<rparr>) (tbl_delete i (st_domains s)) s"

section \<open>Invariant\<close>

text \<open>
  Every row sits under its own id. Release revisions are not part of this invariant:
  \<open>UpdateRelease\<close> writes the row it is given, so uniqueness of revisions is a property of
  how the callers use it.
\<close>

definition workloads_wf :: "mem \<Rightarrow> bool" where
  "workloads_wf s \<longleftrightarrow>
     keyed app_id (st_apps s) \<and> keyed bld_id (st_builds s) \<and> keyed rel_id (st_releases s) \<and>
     keyed db_id (st_databases s) \<and> keyed svc_id (st_services s) \<and> keyed dom_id (st_domains s) \<and>
     gwf (st_app_env s) \<and> (\<forall>i m. gget (st_app_env s) i = Some m \<longrightarrow> gwf m)"

definition revisions_unique :: "mem \<Rightarrow> bool" where
  "revisions_unique s \<longleftrightarrow>
     (\<forall>i j r q. gget (st_releases s) i = Some r \<longrightarrow> gget (st_releases s) j = Some q \<longrightarrow>
        rel_app_id r = rel_app_id q \<longrightarrow> rel_revision r = rel_revision q \<longrightarrow> i = j)"

lemma gwf_app_env_of: "workloads_wf s \<Longrightarrow> gwf (app_env_of i s)"
  by (auto simp: workloads_wf_def app_env_of_def split: option.splits)

named_theorems workloads_keeps \<open>operations that keep the workloads invariant\<close>

lemma workloads_keeps_app [workloads_keeps]:
  "keeps workloads_wf (create_app a)" "keeps workloads_wf (update_app a)" "keeps workloads_wf (delete_app i)"
  unfolding create_app_def update_app_def delete_app_def
  by (rule keeps_on_tbl; auto simp: workloads_wf_def intro: keyed_intros)+

lemma workloads_keeps_build [workloads_keeps]:
  "keeps workloads_wf (create_build b)" "keeps workloads_wf (update_build b)"
  unfolding create_build_def update_build_def
  by (rule keeps_on_tbl; auto simp: workloads_wf_def intro: keyed_intros)+

lemma workloads_keeps_database [workloads_keeps]:
  "keeps workloads_wf (create_database d)" "keeps workloads_wf (update_database d)"
  "keeps workloads_wf (delete_database i)"
  unfolding create_database_def update_database_def delete_database_def
  by (rule keeps_on_tbl; auto simp: workloads_wf_def intro: keyed_intros)+

lemma workloads_keeps_service [workloads_keeps]:
  "keeps workloads_wf (create_service v)" "keeps workloads_wf (update_service v)"
  "keeps workloads_wf (delete_service i)"
  unfolding create_service_def update_service_def delete_service_def
  by (rule keeps_on_tbl; auto simp: workloads_wf_def intro: keyed_intros)+

lemma workloads_keeps_domain [workloads_keeps]:
  "keeps workloads_wf (create_domain dd)" "keeps workloads_wf (update_domain dd)"
  "keeps workloads_wf (delete_domain i)"
  unfolding create_domain_def update_domain_def delete_domain_def
  by (rule keeps_on_tbl; auto simp: workloads_wf_def intro: keyed_intros)+

lemma workloads_keeps_release [workloads_keeps]:
  "keeps workloads_wf (create_release r)" "keeps workloads_wf (update_release r)"
proof -
  show "keeps workloads_wf (create_release r)"
    by (auto simp: keeps_def create_release_def workloads_wf_def intro: keyed_put)
  show "keeps workloads_wf (update_release r)"
    unfolding update_release_def
    by (rule keeps_on_tbl) (auto simp: workloads_wf_def intro: keyed_intros)
qed

lemma workloads_keeps_env [workloads_keeps]:
  "keeps workloads_wf (set_app_env a k v sec)" "keeps workloads_wf (delete_app_env a k)"
proof -
  show "keeps workloads_wf (set_app_env a k v sec)"
    using gwf_app_env_of by (auto simp: keeps_def set_app_env_def workloads_wf_def)
  show "keeps workloads_wf (delete_app_env a k)"
    by (auto simp: keeps_def delete_app_env_def workloads_wf_def split: option.splits)
qed

text \<open>
  The duplicate check of \<open>CreateRelease\<close> keeps revisions unique per app, and an update keeps
  them unique when it leaves the app and the revision of the row alone.
\<close>

lemma create_release_revisions:
  assumes "workloads_wf s" "revisions_unique s"
  shows "revisions_unique (snd (create_release r s))"
proof -
  have vals: "x \<in> set (gvals (st_releases s))" if "gget (st_releases s) i = Some x" for i x
    using assms(1) that by (auto simp: workloads_wf_def keyed_def gm.vals_get)
  show ?thesis
  proof (cases "fst (create_release r s)")
    case (Inl e)
    then have "snd (create_release r s) = s" by (auto simp: create_release_def split: if_splits)
    then show ?thesis using assms(2) by simp
  next
    case (Inr u)
    then have fresh: "\<not> (rel_app_id x = rel_app_id r \<and> rel_revision x = rel_revision r)"
      if "gget (st_releases s) i = Some x" for i x
      using vals [OF that] by (auto simp: create_release_def list_ex_iff split: if_splits)
    from Inr have st: "st_releases (snd (create_release r s)) = gput (rel_id r) r (st_releases s)"
      by (auto simp: create_release_def split: if_splits)
    show ?thesis
      using assms(2) fresh unfolding revisions_unique_def st by (simp split: if_splits) metis
  qed
qed

lemma update_release_revisions:
  assumes "revisions_unique s" "gget (st_releases s) (rel_id r) = Some q"
    "rel_app_id r = rel_app_id q" "rel_revision r = rel_revision q"
  shows "revisions_unique (snd (update_release r s))"
proof -
  have "st_releases (snd (update_release r s)) = gput (rel_id r) r (st_releases s)"
    using assms(2) by (simp add: update_release_def on_tbl_def tbl_update_def)
  with assms show ?thesis unfolding revisions_unique_def by (auto split: if_splits)
qed

section \<open>Listings\<close>

interpretation build_order: slice_order "\<lambda>a b. bld_created_at a > bld_created_at b"
  by (rule slice_order_key_desc)

interpretation release_order: slice_order "\<lambda>a b. rel_revision a > rel_revision b"
  by (rule slice_order_key_desc)

interpretation env_order: slice_order "\<lambda>a b. env_key a < env_key b"
  by (rule slice_order_key)

lemma list_app_env_keys:
  assumes "list_app_env i s = Inr es"
  shows "sorted (map env_key es)" and "set (map env_key es) = fst ` set (app_env_of i s)"
proof -
  have es: "es = sort_by (\<lambda>a b. env_key a < env_key b)
      (map (\<lambda>(k, v). \<lparr>env_key = k, env_value = ee_value v, env_secret = ee_secret v\<rparr>) (app_env_of i s))"
    using assms by (simp add: list_app_env_def)
  show "sorted (map env_key es)"
    using env_order.sort_by_sorted unfolding es by (simp add: sorted_map not_less)
  show "set (map env_key es) = fst ` set (app_env_of i s)"
    unfolding es by (simp add: image_image case_prod_beta)
qed

lemma list_releases_whole:
  assumes "list_releases_by_app i p s = Inr rs" "page_limit p \<le> 0"
  shows "sorted_wrt (\<lambda>a b. rel_revision a \<ge> rel_revision b) rs"
    and "mset rs = mset (filter (\<lambda>r. rel_app_id r = i) (gvals (st_releases s)))"
proof -
  have rs: "rs = sort_by (\<lambda>a b. rel_revision a > rel_revision b)
      (filter (\<lambda>r. rel_app_id r = i) (gvals (st_releases s)))"
    using assms by (simp add: list_releases_by_app_def apply_page_def page_bounded_def)
  show "sorted_wrt (\<lambda>a b. rel_revision a \<ge> rel_revision b) rs"
    using release_order.sort_by_sorted unfolding rs by (simp add: not_less)
  show "mset rs = mset (filter (\<lambda>r. rel_app_id r = i) (gvals (st_releases s)))"
    unfolding rs by simp
qed

lemma verified_host_sound:
  "get_verified_domain_by_host h s = Inr d \<Longrightarrow>
     d \<in> set (gvals (st_domains s)) \<and> domain_is_verified d \<and> equal_fold (dom_domain d) (to_lower (trim_space h))"
  by (auto simp: get_verified_domain_by_host_def find_Some_iff Let_def split: option.splits)

lemma verified_host_complete:
  "get_verified_domain_by_host h s = Inl e \<Longrightarrow> d \<in> set (gvals (st_domains s)) \<Longrightarrow>
     domain_is_verified d \<Longrightarrow> \<not> equal_fold (dom_domain d) (to_lower (trim_space h))"
  by (auto simp: get_verified_domain_by_host_def find_None_iff Let_def split: option.splits)

end
