(* ===== verification/Mem_Tokens.thy ===== *)
theory Mem_Tokens
  imports Mem_Workloads
begin

text \<open>
  The memory store's credentials: refresh tokens (rotation with compare-and-set, revocation
  of a whole family, clean-up that keeps the tombstones), single-use password reset tokens,
  and personal API tokens.
\<close>

section \<open>Refresh tokens\<close>

definition create_refresh_token :: "refresh_token \<Rightarrow> unit mem_op" where
  "create_refresh_token r s =
     on_tbl (\<lambda>t s. s\<lparr>st_refresh_tokens := t\<rparr>) (tbl_create rt_id r (st_refresh_tokens s)) s"

definition get_refresh_token :: "string \<Rightarrow> mem \<Rightarrow> serr + refresh_token" where
  "get_refresh_token i s = tbl_get (st_refresh_tokens s) i"

definition revoke_refresh_token :: "string \<Rightarrow> unit mem_op" where
  "revoke_refresh_token i s =
     (case gget (st_refresh_tokens s) i of
        None \<Rightarrow> (Inl ErrNotFound, s)
      | Some r \<Rightarrow> (Inr (), s\<lparr>st_refresh_tokens := gput i (r\<lparr>rt_revoked := True\<rparr>) (st_refresh_tokens s)\<rparr>))"

definition revoke_refresh_token_if_active :: "string \<Rightarrow> bool mem_op" where
  "revoke_refresh_token_if_active i s =
     (case gget (st_refresh_tokens s) i of
        None \<Rightarrow> (Inl ErrNotFound, s)
      | Some r \<Rightarrow>
          if rt_revoked r then (Inr False, s)
          else (Inr True, s\<lparr>st_refresh_tokens := gput i (r\<lparr>rt_revoked := True\<rparr>) (st_refresh_tokens s)\<rparr>))"

definition revoke_all_user_refresh_tokens :: "string \<Rightarrow> unit mem_op" where
  "revoke_all_user_refresh_tokens uid s =
     (Inr (), s\<lparr>st_refresh_tokens :=
        gmap (\<lambda>r. if rt_user_id r = uid \<and> \<not> rt_revoked r then r\<lparr>rt_revoked := True\<rparr> else r)
          (st_refresh_tokens s)\<rparr>)"

definition token_expired :: "time \<Rightarrow> refresh_token \<Rightarrow> bool" where
  "token_expired before r \<longleftrightarrow> \<not> is_zero (rt_expires_at r) \<and> rt_expires_at r < before"

definition delete_expired_refresh_tokens :: "time \<Rightarrow> int mem_op" where
  "delete_expired_refresh_tokens before s =
     (let n = length (filter (token_expired before) (gvals (st_refresh_tokens s)))
      in (Inr (int n), s\<lparr>st_refresh_tokens := gkeep (\<lambda>r. \<not> token_expired before r) (st_refresh_tokens s)\<rparr>))"

section \<open>Password reset tokens\<close>

definition create_password_reset_token :: "password_reset_token \<Rightarrow> unit mem_op" where
  "create_password_reset_token t s =
     (if gget (st_reset_tokens s) (prt_id t) \<noteq> None then (Inl ErrConflict, s)
      else if list_ex (\<lambda>x. prt_token_hash x = prt_token_hash t) (gvals (st_reset_tokens s))
      then (Inl ErrConflict, s)
      else (Inr (), s\<lparr>st_reset_tokens := gput (prt_id t) t (st_reset_tokens s)\<rparr>))"

definition invalidate_user_password_reset_tokens :: "string \<Rightarrow> time \<Rightarrow> unit mem_op" where
  "invalidate_user_password_reset_tokens uid used s =
     (Inr (), s\<lparr>st_reset_tokens :=
        gmap (\<lambda>t. if prt_user_id t = uid \<and> is_zero (prt_used_at t) then t\<lparr>prt_used_at := used\<rparr> else t)
          (st_reset_tokens s)\<rparr>)"

definition get_password_reset_token_by_hash :: "string \<Rightarrow> mem \<Rightarrow> serr + password_reset_token" where
  "get_password_reset_token_by_hash h s =
     (case find (\<lambda>t. prt_token_hash t = h) (gvals (st_reset_tokens s)) of
        None \<Rightarrow> Inl ErrNotFound
      | Some t \<Rightarrow> Inr t)"

definition consume_password_reset_token :: "string \<Rightarrow> time \<Rightarrow> bool mem_op" where
  "consume_password_reset_token i used s =
     (case gget (st_reset_tokens s) i of
        None \<Rightarrow> (Inl ErrNotFound, s)
      | Some t \<Rightarrow>
          if \<not> is_zero (prt_used_at t) then (Inr False, s)
          else (Inr True, s\<lparr>st_reset_tokens := gput i (t\<lparr>prt_used_at := used\<rparr>) (st_reset_tokens s)\<rparr>))"

section \<open>API tokens\<close>

definition create_api_token :: "api_token \<Rightarrow> unit mem_op" where
  "create_api_token t s =
     (if gget (st_api_tokens s) (at_id t) \<noteq> None then (Inl ErrConflict, s)
      else if list_ex (\<lambda>x. at_token_hash x = at_token_hash t) (gvals (st_api_tokens s))
      then (Inl ErrConflict, s)
      else (Inr (), s\<lparr>st_api_tokens := gput (at_id t) t (st_api_tokens s)\<rparr>))"

definition get_api_token_by_hash :: "string \<Rightarrow> mem \<Rightarrow> serr + api_token" where
  "get_api_token_by_hash h s =
     (case find (\<lambda>t. at_token_hash t = h) (gvals (st_api_tokens s)) of
        None \<Rightarrow> Inl ErrNotFound
      | Some t \<Rightarrow> Inr t)"

definition list_api_tokens_by_user :: "string \<Rightarrow> mem \<Rightarrow> serr + api_token list" where
  "list_api_tokens_by_user uid s =
     Inr (sort_by (\<lambda>a b. at_created_at a > at_created_at b)
            (filter (\<lambda>t. at_user_id t = uid) (gvals (st_api_tokens s))))"

definition delete_api_token :: "string \<Rightarrow> string \<Rightarrow> unit mem_op" where
  "delete_api_token uid i s =
     (case gget (st_api_tokens s) i of
        None \<Rightarrow> (Inl ErrNotFound, s)
      | Some t \<Rightarrow>
          if at_user_id t \<noteq> uid then (Inl ErrNotFound, s)
          else (Inr (), s\<lparr>st_api_tokens := gdel i (st_api_tokens s)\<rparr>))"

definition touch_api_token :: "string \<Rightarrow> time \<Rightarrow> unit mem_op" where
  "touch_api_token i used s =
     (case gget (st_api_tokens s) i of
        None \<Rightarrow> (Inl ErrNotFound, s)
      | Some t \<Rightarrow> (Inr (), s\<lparr>st_api_tokens := gput i (t\<lparr>at_last_used_at := used\<rparr>) (st_api_tokens s)\<rparr>))"

section \<open>Invariant\<close>

text \<open>Rows under their own ids, and a hash names at most one token.\<close>

definition hashes_unique :: "('v \<Rightarrow> string) \<Rightarrow> (string, 'v) gomap \<Rightarrow> bool" where
  "hashes_unique h t \<longleftrightarrow>
     (\<forall>i j v w. gget t i = Some v \<longrightarrow> gget t j = Some w \<longrightarrow> h v = h w \<longrightarrow> i = j)"

definition tokens_wf :: "mem \<Rightarrow> bool" where
  "tokens_wf s \<longleftrightarrow>
     keyed rt_id (st_refresh_tokens s) \<and> keyed prt_id (st_reset_tokens s) \<and>
     keyed at_id (st_api_tokens s) \<and> hashes_unique prt_token_hash (st_reset_tokens s) \<and>
     hashes_unique at_token_hash (st_api_tokens s)"

lemma hashes_unique_empty [simp]: "hashes_unique h []"
  by (simp add: hashes_unique_def)

lemma hashes_unique_put_fresh:
  assumes "keyed key t" "hashes_unique h t" "\<not> list_ex (\<lambda>x. h x = h v) (gvals t)"
  shows "hashes_unique h (gput k v t)"
proof -
  have "h w \<noteq> h v" if "gget t i = Some w" for i w
    using assms(1,3) that by (auto simp: list_ex_iff keyed_def gm.vals_get)
  with assms(2) show ?thesis unfolding hashes_unique_def by (simp split: if_splits) metis
qed

lemma hashes_unique_put_same:
  "hashes_unique h t \<Longrightarrow> gget t i = Some w \<Longrightarrow> h v = h w \<Longrightarrow> hashes_unique h (gput i v t)"
  unfolding hashes_unique_def by (auto split: if_splits)

lemma hashes_unique_gmap: "hashes_unique h t \<Longrightarrow> (\<And>v. h (f v) = h v) \<Longrightarrow> hashes_unique h (gmap f t)"
  unfolding hashes_unique_def by auto

lemma hashes_unique_del: "hashes_unique h t \<Longrightarrow> hashes_unique h (gdel i t)"
  unfolding hashes_unique_def by (auto split: if_splits)

lemma keyed_replace: "keyed key t \<Longrightarrow> gget t i = Some w \<Longrightarrow> key v = key w \<Longrightarrow> keyed key (gput i v t)"
  using keyed_key [of key t i w] by (simp add: keyed_put)

named_theorems tokens_keeps \<open>operations that keep the token invariant\<close>

lemma tokens_keeps_refresh [tokens_keeps]:
  "keeps tokens_wf (create_refresh_token r)" "keeps tokens_wf (revoke_refresh_token i)"
  "keeps tokens_wf (revoke_refresh_token_if_active i)"
  "keeps tokens_wf (revoke_all_user_refresh_tokens u)"
  "keeps tokens_wf (delete_expired_refresh_tokens b)"
proof -
  show "keeps tokens_wf (create_refresh_token r)" unfolding create_refresh_token_def
    by (rule keeps_on_tbl) (auto simp: tokens_wf_def intro: keyed_intros)
qed (auto simp: keeps_def tokens_wf_def revoke_refresh_token_def revoke_refresh_token_if_active_def
    revoke_all_user_refresh_tokens_def delete_expired_refresh_tokens_def Let_def
    intro: keyed_replace keyed_gmap keyed_gkeep split: option.splits)

lemma tokens_keeps_reset [tokens_keeps]:
  "keeps tokens_wf (create_password_reset_token t)"
  "keeps tokens_wf (invalidate_user_password_reset_tokens u now)"
  "keeps tokens_wf (consume_password_reset_token i now)"
proof -
  show "keeps tokens_wf (create_password_reset_token t)"
    unfolding keeps_def create_password_reset_token_def tokens_wf_def
    by (simp add: keyed_put hashes_unique_put_fresh [of prt_id])
qed (auto simp: keeps_def tokens_wf_def invalidate_user_password_reset_tokens_def
    consume_password_reset_token_def intro: keyed_replace keyed_gmap hashes_unique_gmap
    hashes_unique_put_same split: option.splits)

lemma tokens_keeps_api [tokens_keeps]:
  "keeps tokens_wf (create_api_token a)" "keeps tokens_wf (delete_api_token u i)"
  "keeps tokens_wf (touch_api_token i now)"
proof -
  show "keeps tokens_wf (create_api_token a)"
    unfolding keeps_def create_api_token_def tokens_wf_def
    by (simp add: keyed_put hashes_unique_put_fresh [of at_id])
qed (auto simp: keeps_def tokens_wf_def delete_api_token_def touch_api_token_def
    intro: keyed_replace keyed_del hashes_unique_del hashes_unique_put_same split: option.splits)

section \<open>Behaviour\<close>

lemma revoke_if_active_wins:
  "fst (revoke_refresh_token_if_active i s) = Inr True \<longleftrightarrow>
     (\<exists>r. gget (st_refresh_tokens s) i = Some r \<and> \<not> rt_revoked r)"
  by (auto simp: revoke_refresh_token_if_active_def split: option.splits)

definition token_revoked :: "string \<Rightarrow> mem \<Rightarrow> bool" where
  "token_revoked i s \<longleftrightarrow> (\<exists>r. gget (st_refresh_tokens s) i = Some r \<and> rt_revoked r)"

lemma revoke_if_active_revokes:
  "fst (revoke_refresh_token_if_active i s) = Inr b \<Longrightarrow> token_revoked i (snd (revoke_refresh_token_if_active i s))"
  by (auto simp: revoke_refresh_token_if_active_def token_revoked_def split: option.splits if_splits)

lemma revoked_stays:
  assumes "token_revoked i s"
  shows "token_revoked i (snd (create_refresh_token r s))"
    "token_revoked i (snd (revoke_refresh_token j s))"
    "token_revoked i (snd (revoke_refresh_token_if_active j s))"
    "token_revoked i (snd (revoke_all_user_refresh_tokens u s))"
  using assms
  by (auto simp: token_revoked_def create_refresh_token_def on_tbl_def tbl_create_def
      revoke_refresh_token_def revoke_refresh_token_if_active_def revoke_all_user_refresh_tokens_def
      split: option.splits sum.splits)

lemma tombstone_kept:
  assumes "tokens_wf s" "gget (st_refresh_tokens s) i = Some r" "\<not> token_expired before r"
  shows "gget (st_refresh_tokens (snd (delete_expired_refresh_tokens before s))) i = Some r"
  using assms by (simp add: delete_expired_refresh_tokens_def Let_def tokens_wf_def keyed_def gget_gkeep)

lemma revoke_all_family:
  assumes "gget (st_refresh_tokens (snd (revoke_all_user_refresh_tokens u s))) i = Some r" "rt_user_id r = u"
  shows "rt_revoked r"
proof -
  from assms(1) obtain q where "r = (if rt_user_id q = u \<and> \<not> rt_revoked q then q\<lparr>rt_revoked := True\<rparr> else q)"
    by (auto simp: revoke_all_user_refresh_tokens_def)
  with assms(2) show ?thesis by (cases "rt_user_id q = u \<and> \<not> rt_revoked q") auto
qed

lemma length_gkeep: "length (gkeep P t) = length (filter P (gvals t))"
  by (simp add: gkeep_def gvals_def filter_map comp_def case_prod_unfold)

lemma delete_expired_counts:
  "delete_expired_refresh_tokens before s = (Inr n, t) \<Longrightarrow>
     int (length (st_refresh_tokens s)) = n + int (length (st_refresh_tokens t))"
  using sum_length_filter_compl [of "token_expired before" "gvals (st_refresh_tokens s)"]
  by (auto simp: delete_expired_refresh_tokens_def Let_def length_gkeep)

lemma reset_hash_lookup:
  assumes "tokens_wf s" "gget (st_reset_tokens s) i = Some t"
  shows "get_password_reset_token_by_hash (prt_token_hash t) s = Inr t"
proof -
  have mem: "t \<in> set (gvals (st_reset_tokens s))"
    using assms by (auto simp: tokens_wf_def keyed_def gm.vals_get)
  obtain w where w: "find (\<lambda>x. prt_token_hash x = prt_token_hash t) (gvals (st_reset_tokens s)) = Some w"
    using mem by (metis (mono_tags, lifting) find_None_iff not_None_eq)
  then have "w \<in> set (gvals (st_reset_tokens s))" "prt_token_hash w = prt_token_hash t"
    by (auto simp: find_Some_iff)
  then obtain j where "gget (st_reset_tokens s) j = Some w"
    using assms(1) by (auto simp: tokens_wf_def keyed_def gm.vals_get)
  with assms \<open>prt_token_hash w = prt_token_hash t\<close> have "w = t"
    unfolding tokens_wf_def hashes_unique_def by (metis option.inject)
  with w show ?thesis by (simp add: get_password_reset_token_by_hash_def)
qed

lemma consume_once:
  assumes "consume_password_reset_token i used s = (Inr True, t)" "\<not> is_zero used"
  shows "fst (consume_password_reset_token i used' t) = Inr False"
  using assms by (auto simp: consume_password_reset_token_def split: option.splits if_splits)

lemma invalidate_leaves_none:
  assumes "\<not> is_zero now"
    and "gget (st_reset_tokens (snd (invalidate_user_password_reset_tokens u now s))) i = Some t"
    and "prt_user_id t = u"
  shows "\<not> is_zero (prt_used_at t)"
proof -
  from assms(2) obtain q where
    "t = (if prt_user_id q = u \<and> is_zero (prt_used_at q) then q\<lparr>prt_used_at := now\<rparr> else q)"
    by (auto simp: invalidate_user_password_reset_tokens_def)
  with assms(1,3) show ?thesis by (cases "prt_user_id q = u \<and> is_zero (prt_used_at q)") auto
qed

end
