(* ===== verification/Mem_Billing.thy ===== *)
theory Mem_Billing
  imports Mem_Tokens
begin

text \<open>
  The memory store's billing tables (subscriptions, usage, processed webhook events, meter and
  report watermarks), the audit log, the admin catalog (plans, pricing, templates, settings)
  and the admin aggregates.
\<close>

section \<open>Subscriptions\<close>

definition upsert_subscription :: "subscription \<Rightarrow> unit mem_op" where
  "upsert_subscription b s =
     (Inr (), s\<lparr>st_subscriptions := gput (sub_org_id b) b (st_subscriptions s)\<rparr>)"

definition get_subscription :: "string \<Rightarrow> mem \<Rightarrow> serr + subscription" where
  "get_subscription org_i s = tbl_get (st_subscriptions s) org_i"

definition get_subscription_by_stripe_id :: "string \<Rightarrow> mem \<Rightarrow> serr + subscription" where
  "get_subscription_by_stripe_id sid s =
     (if sid = [] then Inl ErrNotFound
      else case find (\<lambda>b. sub_stripe_subscription_id b = sid) (gvals (st_subscriptions s)) of
             None \<Rightarrow> Inl ErrNotFound
           | Some b \<Rightarrow> Inr b)"

definition get_subscription_by_customer_id :: "string \<Rightarrow> mem \<Rightarrow> serr + subscription" where
  "get_subscription_by_customer_id cid s =
     (if cid = [] then Inl ErrNotFound
      else case find (\<lambda>b. sub_stripe_customer_id b = cid) (gvals (st_subscriptions s)) of
             None \<Rightarrow> Inl ErrNotFound
           | Some b \<Rightarrow> Inr b)"

section \<open>Usage\<close>

definition usage_of :: "string \<Rightarrow> mem \<Rightarrow> usage_record list" where
  "usage_of org_i s = (case gget (st_usage s) org_i of None \<Rightarrow> [] | Some us \<Rightarrow> us)"

definition add_usage :: "usage_record \<Rightarrow> unit mem_op" where
  "add_usage u s =
     (Inr (), s\<lparr>st_usage := gput (ur_org_id u) (usage_of (ur_org_id u) s @ [u]) (st_usage s)\<rparr>)"

definition add_usage_if_absent :: "usage_record \<Rightarrow> bool mem_op" where
  "add_usage_if_absent u s =
     (if list_ex (\<lambda>r. ur_id r = ur_id u) (usage_of (ur_org_id u) s) then (Inr False, s)
      else (Inr True, s\<lparr>st_usage := gput (ur_org_id u) (usage_of (ur_org_id u) s @ [u]) (st_usage s)\<rparr>))"

definition usage_newer :: "usage_record \<Rightarrow> usage_record \<Rightarrow> bool" where
  "usage_newer a b = (if ur_at a = ur_at b then ur_id a > ur_id b else ur_at a > ur_at b)"

definition sort_usage_newest_first :: "usage_record list \<Rightarrow> usage_record list" where
  "sort_usage_newest_first us = sort_by usage_newer us"

definition list_usage_by_org :: "string \<Rightarrow> page \<Rightarrow> mem \<Rightarrow> serr + usage_record list" where
  "list_usage_by_org org_i p s = Inr (apply_page (sort_usage_newest_first (usage_of org_i s)) p)"

definition list_usage_by_org_since :: "string \<Rightarrow> time \<Rightarrow> page \<Rightarrow> mem \<Rightarrow> serr + usage_record list" where
  "list_usage_by_org_since org_i since p s =
     Inr (apply_page (sort_usage_newest_first
            (filter (\<lambda>r. \<not> ur_at r < since) (usage_of org_i s))) p)"

section \<open>Webhook events and watermarks\<close>

definition event_processed :: "string \<Rightarrow> mem \<Rightarrow> serr + bool" where
  "event_processed i s = Inr (gget (st_processed_evts s) i \<noteq> None)"

definition mark_event_processed :: "string \<Rightarrow> bool mem_op" where
  "mark_event_processed i s =
     (if gget (st_processed_evts s) i \<noteq> None then (Inr False, s)
      else (Inr True, s\<lparr>st_processed_evts := gput i () (st_processed_evts s)\<rparr>))"

definition get_meter_state :: "mem \<Rightarrow> serr + meter_state" where
  "get_meter_state s = (case st_meter_state s of None \<Rightarrow> Inl ErrNotFound | Some m \<Rightarrow> Inr m)"

definition set_meter_state :: "meter_state \<Rightarrow> unit mem_op" where
  "set_meter_state m s = (Inr (), s\<lparr>st_meter_state := Some m\<rparr>)"

definition get_usage_report_state :: "string \<Rightarrow> mem \<Rightarrow> serr + usage_report_state" where
  "get_usage_report_state org_i s = tbl_get (st_report_state s) org_i"

definition set_usage_report_state :: "usage_report_state \<Rightarrow> unit mem_op" where
  "set_usage_report_state r s =
     (Inr (), s\<lparr>st_report_state := gput (rs_org_id r) r (st_report_state s)\<rparr>)"

section \<open>Audit log\<close>

definition create_audit_event :: "audit_event \<Rightarrow> unit mem_op" where
  "create_audit_event e s = (Inr (), s\<lparr>st_audit_events := st_audit_events s @ [e]\<rparr>)"

text \<open>
  The reverse scan of \<open>ListAuditEvents\<close>: \<open>events\<close> is what is left of the slice, newest first,
  \<open>skipped\<close> and \<open>out\<close> are the loop's variables.
\<close>

fun audit_scan :: "string \<Rightarrow> int \<Rightarrow> int \<Rightarrow> int \<Rightarrow> audit_event list \<Rightarrow> audit_event list \<Rightarrow> audit_event list" where
  "audit_scan org_i limit offset skipped out [] = out"
| "audit_scan org_i limit offset skipped out (e # es) =
     (if ae_org_id e \<noteq> org_i then audit_scan org_i limit offset skipped out es
      else if skipped < offset then audit_scan org_i limit offset (skipped + 1) out es
      else if int (length (out @ [e])) \<ge> limit then out @ [e]
      else audit_scan org_i limit offset skipped (out @ [e]) es)"

definition list_audit_events :: "audit_filter \<Rightarrow> mem \<Rightarrow> serr + audit_event list" where
  "list_audit_events f s =
     (let l1 = (if af_limit f \<le> 0 then default_page_limit else af_limit f);
          limit = (if l1 > max_page_limit then max_page_limit else l1);
          offset = (if af_offset f < 0 then 0 else af_offset f)
      in Inr (audit_scan (af_org_id f) limit offset 0 [] (rev (st_audit_events s))))"

definition count_audit_events :: "audit_filter \<Rightarrow> mem \<Rightarrow> serr + int" where
  "count_audit_events f s =
     Inr (int (length (filter (\<lambda>e. ae_org_id e = af_org_id f) (st_audit_events s))))"

section \<open>Catalog\<close>

definition list_plans :: "mem \<Rightarrow> serr + plan list" where
  "list_plans s = Inr (gvals (st_plans s))"

definition get_plan :: "string \<Rightarrow> mem \<Rightarrow> serr + plan" where
  "get_plan i s = tbl_get (st_plans s) i"

definition upsert_plan :: "plan \<Rightarrow> unit mem_op" where
  "upsert_plan p s = (Inr (), s\<lparr>st_plans := gput (plan_id p) p (st_plans s)\<rparr>)"

definition delete_plan :: "string \<Rightarrow> unit mem_op" where
  "delete_plan i s = on_tbl (\<lambda>t s. s\<lparr>st_plans := t\<rparr>) (tbl_delete i (st_plans s)) s"

definition list_pricing_components :: "mem \<Rightarrow> serr + pricing_component list" where
  "list_pricing_components s = Inr (gvals (st_pricing s))"

definition get_pricing_component :: "string \<Rightarrow> mem \<Rightarrow> serr + pricing_component" where
  "get_pricing_component k s = tbl_get (st_pricing s) k"

definition upsert_pricing_component :: "pricing_component \<Rightarrow> unit mem_op" where
  "upsert_pricing_component p s = (Inr (), s\<lparr>st_pricing := gput (pc_key p) p (st_pricing s)\<rparr>)"

definition delete_pricing_component :: "string \<Rightarrow> unit mem_op" where
  "delete_pricing_component k s = on_tbl (\<lambda>t s. s\<lparr>st_pricing := t\<rparr>) (tbl_delete k (st_pricing s)) s"

definition list_service_templates :: "mem \<Rightarrow> serr + service_template list" where
  "list_service_templates s = Inr (gvals (st_templates s))"

definition get_service_template :: "string \<Rightarrow> mem \<Rightarrow> serr + service_template" where
  "get_service_template k s = tbl_get (st_templates s) k"

definition upsert_service_template :: "service_template \<Rightarrow> unit mem_op" where
  "upsert_service_template t s = (Inr (), s\<lparr>st_templates := gput (tpl_key t) t (st_templates s)\<rparr>)"

definition delete_service_template :: "string \<Rightarrow> unit mem_op" where
  "delete_service_template k s = on_tbl (\<lambda>t s. s\<lparr>st_templates := t\<rparr>) (tbl_delete k (st_templates s)) s"

definition get_settings :: "mem \<Rightarrow> serr + platform_settings" where
  "get_settings s = Inr (st_settings s)"

definition update_settings :: "platform_settings \<Rightarrow> unit mem_op" where
  "update_settings x s = (Inr (), s\<lparr>st_settings := x\<rparr>)"

section \<open>Admin aggregates\<close>

definition list_all_orgs :: "mem \<Rightarrow> serr + organization list" where
  "list_all_orgs s = Inr (gvals (st_organizations s))"

definition count_users :: "mem \<Rightarrow> serr + int" where
  "count_users s = Inr (int (length (st_users s)))"

definition list_all_subscriptions :: "mem \<Rightarrow> serr + subscription list" where
  "list_all_subscriptions s = Inr (gvals (st_subscriptions s))"

definition list_all_usage :: "mem \<Rightarrow> serr + usage_record list" where
  "list_all_usage s = Inr (concat (gvals (st_usage s)))"

definition add_metric :: "usage_record \<Rightarrow> (string, int) gomap \<Rightarrow> (string, int) gomap" where
  "add_metric u out =
     (let old = (case gget out (ur_metric u) of None \<Rightarrow> 0 | Some q \<Rightarrow> q)
      in gput (ur_metric u) (wrap64 (old + ur_quantity u)) out)"

definition sum_usage_by_metric :: "mem \<Rightarrow> serr + (string, int) gomap" where
  "sum_usage_by_metric s = Inr (fold (\<lambda>us out. fold add_metric us out) (gvals (st_usage s)) [])"

section \<open>Invariant\<close>

definition billing_wf :: "mem \<Rightarrow> bool" where
  "billing_wf s \<longleftrightarrow>
     keyed sub_org_id (st_subscriptions s) \<and> gwf (st_usage s) \<and>
     (\<forall>i us. gget (st_usage s) i = Some us \<longrightarrow> list_all (\<lambda>u. ur_org_id u = i) us) \<and>
     gwf (st_processed_evts s) \<and> keyed rs_org_id (st_report_state s) \<and>
     keyed plan_id (st_plans s) \<and> keyed pc_key (st_pricing s) \<and> keyed tpl_key (st_templates s)"

text \<open>No usage record id occurs twice in an organization's records.\<close>

definition usage_ids_unique :: "mem \<Rightarrow> bool" where
  "usage_ids_unique s \<longleftrightarrow> (\<forall>i. distinct (map ur_id (usage_of i s)))"

lemma keyed_put_all: "keyed key m \<Longrightarrow> keyed key (put_all key vs m)"
  unfolding put_all_def by (induction vs arbitrary: m) (simp_all add: keyed_put)

lemma usage_of_org: "billing_wf s \<Longrightarrow> list_all (\<lambda>u. ur_org_id u = i) (usage_of i s)"
  by (auto simp: billing_wf_def usage_of_def split: option.splits)

named_theorems billing_keeps \<open>operations that keep the billing invariant\<close>

lemma billing_keeps_usage [billing_keeps]:
  "keeps billing_wf (add_usage u)" "keeps billing_wf (add_usage_if_absent u)"
  using usage_of_org by (auto simp: keeps_def billing_wf_def add_usage_def add_usage_if_absent_def)

lemma billing_keeps_upserts [billing_keeps]:
  "keeps billing_wf (upsert_subscription b)" "keeps billing_wf (set_usage_report_state r)"
  "keeps billing_wf (set_meter_state m)" "keeps billing_wf (mark_event_processed e)"
  "keeps billing_wf (upsert_plan p)" "keeps billing_wf (upsert_pricing_component c)"
  "keeps billing_wf (upsert_service_template t)" "keeps billing_wf (update_settings x)"
  "keeps billing_wf (create_audit_event a)"
  by (simp_all add: keeps_def billing_wf_def upsert_subscription_def set_usage_report_state_def
      set_meter_state_def mark_event_processed_def upsert_plan_def upsert_pricing_component_def
      upsert_service_template_def update_settings_def create_audit_event_def keyed_put)

lemma billing_keeps_deletes [billing_keeps]:
  "keeps billing_wf (delete_plan i)" "keeps billing_wf (delete_pricing_component k)"
  "keeps billing_wf (delete_service_template k)"
  unfolding delete_plan_def delete_pricing_component_def delete_service_template_def
  by (rule keeps_on_tbl; auto simp: billing_wf_def intro: keyed_intros)+

section \<open>Usage records\<close>

interpretation usage_order: slice_order usage_newer
  unfolding usage_newer_def by (rule slice_order_desc2)

lemma usage_of_add_if_absent:
  "usage_of i (snd (add_usage_if_absent u s)) =
     (if i = ur_org_id u \<and> \<not> list_ex (\<lambda>r. ur_id r = ur_id u) (usage_of i s)
      then usage_of i s @ [u] else usage_of i s)"
  by (auto simp: add_usage_if_absent_def usage_of_def)

lemma add_if_absent_unique: "keeps usage_ids_unique (add_usage_if_absent u)"
  unfolding keeps_def usage_ids_unique_def
  by (auto simp: usage_of_add_if_absent list_ex_iff)

text \<open>Recording the same id again changes nothing, whatever the second record holds.\<close>

lemma add_if_absent_idem:
  assumes "ur_id v = ur_id u" "ur_org_id v = ur_org_id u"
  shows "add_usage_if_absent v (snd (add_usage_if_absent u s)) = (Inr False, snd (add_usage_if_absent u s))"
  using assms by (auto simp: add_usage_if_absent_def usage_of_def)

lemma list_usage_since_mset:
  "list_usage_by_org_since i t whole_page s = Inr us \<Longrightarrow>
     mset us = mset (filter (\<lambda>r. t \<le> ur_at r) (usage_of i s))"
  by (auto simp: list_usage_by_org_since_def sort_usage_newest_first_def not_less)

lemma list_usage_pages:
  "list_usage_by_org i \<lparr>page_limit = l, page_offset = off\<rparr> s =
     Inr (apply_page (sort_usage_newest_first (usage_of i s)) \<lparr>page_limit = l, page_offset = off\<rparr>)"
  by (simp add: list_usage_by_org_def)

section \<open>The audit scan\<close>

text \<open>The loop with its two counters is a window of the organization's events, newest first.\<close>

lemma audit_scan_window:
  assumes "skipped \<le> offset" "int (length out) < limit" "out \<noteq> [] \<longrightarrow> skipped = offset"
  shows "audit_scan i limit offset skipped out es =
     out @ take (nat limit - length out) (drop (nat (offset - skipped)) (filter (\<lambda>e. ae_org_id e = i) es))"
  using assms
proof (induction es arbitrary: skipped out)
  case Nil
  then show ?case by simp
next
  case (Cons e es)
  show ?case
  proof (cases "ae_org_id e = i")
    case False
    then show ?thesis using Cons by simp
  next
    case mine: True
    show ?thesis
    proof (cases "skipped < offset")
      case True
      then have "nat (offset - skipped) = Suc (nat (offset - (skipped + 1)))" by simp
      then show ?thesis using Cons.IH [of "skipped + 1" out] Cons.prems True mine by auto
    next
      case False
      then have eq: "skipped = offset" using Cons.prems(1) by simp
      show ?thesis
      proof (cases "int (length (out @ [e])) \<ge> limit")
        case True
        then have "nat limit - length out = 1" using Cons.prems(2) by simp
        then show ?thesis using True eq mine by simp
      next
        case less: False
        then have "nat limit - length out = Suc (nat limit - length (out @ [e]))"
          using Cons.prems(2) by simp
        then show ?thesis using Cons.IH [of skipped "out @ [e]"] less eq mine by simp
      qed
    qed
  qed
qed

definition org_audit_log :: "string \<Rightarrow> mem \<Rightarrow> audit_event list" where
  "org_audit_log i s = filter (\<lambda>e. ae_org_id e = i) (rev (st_audit_events s))"

lemma list_audit_events_page:
  "list_audit_events f s =
     Inr (apply_page (org_audit_log (af_org_id f) s)
            (page_normalize \<lparr>page_limit = af_limit f, page_offset = af_offset f\<rparr>))"
proof -
  let ?p = "page_normalize \<lparr>page_limit = af_limit f, page_offset = af_offset f\<rparr>"
  have "list_audit_events f s =
      Inr (audit_scan (af_org_id f) (page_limit ?p) (page_offset ?p) 0 [] (rev (st_audit_events s)))"
    by (simp add: list_audit_events_def page_normalize_def Let_def)
  then show ?thesis
    by (simp add: audit_scan_window page_normalize_bounds apply_page_window org_audit_log_def)
qed

lemma count_audit_events_log: "count_audit_events f s = Inr (int (length (org_audit_log (af_org_id f) s)))"
  by (simp add: count_audit_events_def org_audit_log_def rev_filter [symmetric])

lemma audit_append:
  "org_audit_log i (snd (create_audit_event e s)) =
     (if ae_org_id e = i then [e] else []) @ org_audit_log i s"
  by (simp add: org_audit_log_def create_audit_event_def)

section \<open>Sums per metric\<close>

lemma add_metric_get:
  "gget (add_metric u out) m =
     (if m = ur_metric u then Some (wrap64 (case_option 0 id (gget out m) + ur_quantity u)) else gget out m)"
  by (simp add: add_metric_def Let_def split: option.splits)

lemma fold_add_metric:
  "case_option 0 id (gget (fold add_metric us out) m) =
     wrap64 (case_option 0 id (gget out m) + (\<Sum>u\<leftarrow>filter (\<lambda>u. ur_metric u = m) us. ur_quantity u))"
  if "is_i64 (case_option 0 id (gget out m))"
  using that
proof (induction us arbitrary: out)
  case Nil
  then show ?case by (simp add: wrap64_id)
next
  case (Cons u us)
  have ok: "is_i64 (case_option 0 id (gget (add_metric u out) m))"
    using Cons.prems by (simp add: add_metric_get wrap64_range)
  show ?case
    using Cons.IH [OF ok] by (auto simp: add_metric_get wrap64_add_left add.assoc)
qed

lemma sum_usage_by_metric_total:
  assumes "sum_usage_by_metric s = Inr out" "list_all_usage s = Inr us"
  shows "case_option 0 id (gget out m) = wrap64 (\<Sum>u\<leftarrow>filter (\<lambda>u. ur_metric u = m) us. ur_quantity u)"
proof -
  have "fold (\<lambda>us out. fold add_metric us out) uss [] = fold add_metric (concat uss) []" for uss
  proof -
    have "fold (\<lambda>us out. fold add_metric us out) uss a = fold add_metric (concat uss) a" for a
      by (induction uss arbitrary: a) simp_all
    then show ?thesis .
  qed
  then have "out = fold add_metric us []"
    using assms by (simp add: sum_usage_by_metric_def list_all_usage_def)
  moreover have "is_i64 0" by (simp add: is_i64_def min_i64_def max_i64_def)
  ultimately show ?thesis using fold_add_metric [of "[]" m us] by simp
qed

end
