(* ===== verification/Mem_Steps.thy ===== *)
theory Mem_Steps
  imports Mem_Billing
begin

text \<open>
  The write methods of the memory store as one step relation. Every method of the store runs
  under its lock, so any concurrent use of the store is a sequence of these calls: a state is
  reachable when some sequence leads to it from the seeded empty store. What holds of every
  reachable state holds under every interleaving of the store's clients.
\<close>

section \<open>The calls\<close>

datatype tenancy_call =
    CreateUser user
  | UpdateUser user
  | CreateOrganization organization
  | UpdateOrg organization
  | AddMembership membership
  | UpdateMembershipRole string string role
  | RemoveMembership string string
  | CreateProject project
  | DeleteProject string string
  | AddProjectMembership project_membership
  | CreateInvitation invitation
  | UpdateInvitation invitation
  | RevokeInvitation string string

primrec run_tenancy :: "tenancy_call \<Rightarrow> mem \<Rightarrow> mem" where
  "run_tenancy (CreateUser x1) s = snd (create_user x1 s)"
| "run_tenancy (UpdateUser x1) s = snd (update_user x1 s)"
| "run_tenancy (CreateOrganization x1) s = snd (create_organization x1 s)"
| "run_tenancy (UpdateOrg x1) s = snd (update_org x1 s)"
| "run_tenancy (AddMembership x1) s = snd (add_membership x1 s)"
| "run_tenancy (UpdateMembershipRole x1 x2 x3) s = snd (update_membership_role x1 x2 x3 s)"
| "run_tenancy (RemoveMembership x1 x2) s = snd (remove_membership x1 x2 s)"
| "run_tenancy (CreateProject x1) s = snd (create_project x1 s)"
| "run_tenancy (DeleteProject x1 x2) s = snd (delete_project x1 x2 s)"
| "run_tenancy (AddProjectMembership x1) s = snd (add_project_membership x1 s)"
| "run_tenancy (CreateInvitation x1) s = snd (create_invitation x1 s)"
| "run_tenancy (UpdateInvitation x1) s = snd (update_invitation x1 s)"
| "run_tenancy (RevokeInvitation x1 x2) s = snd (revoke_invitation x1 x2 s)"

datatype workload_call =
    CreateApp app
  | UpdateApp app
  | DeleteApp string
  | CreateBuild build
  | UpdateBuild build
  | CreateRelease release
  | UpdateRelease release
  | CreateDatabase database
  | UpdateDatabase database
  | DeleteDatabase string
  | CreateService service
  | UpdateService service
  | DeleteService string
  | SetAppEnv string string string bool
  | DeleteAppEnv string string
  | CreateDomain domain
  | UpdateDomain domain
  | DeleteDomain string

primrec run_workload :: "workload_call \<Rightarrow> mem \<Rightarrow> mem" where
  "run_workload (CreateApp x1) s = snd (create_app x1 s)"
| "run_workload (UpdateApp x1) s = snd (update_app x1 s)"
| "run_workload (DeleteApp x1) s = snd (delete_app x1 s)"
| "run_workload (CreateBuild x1) s = snd (create_build x1 s)"
| "run_workload (UpdateBuild x1) s = snd (update_build x1 s)"
| "run_workload (CreateRelease x1) s = snd (create_release x1 s)"
| "run_workload (UpdateRelease x1) s = snd (update_release x1 s)"
| "run_workload (CreateDatabase x1) s = snd (create_database x1 s)"
| "run_workload (UpdateDatabase x1) s = snd (update_database x1 s)"
| "run_workload (DeleteDatabase x1) s = snd (delete_database x1 s)"
| "run_workload (CreateService x1) s = snd (create_service x1 s)"
| "run_workload (UpdateService x1) s = snd (update_service x1 s)"
| "run_workload (DeleteService x1) s = snd (delete_service x1 s)"
| "run_workload (SetAppEnv x1 x2 x3 x4) s = snd (set_app_env x1 x2 x3 x4 s)"
| "run_workload (DeleteAppEnv x1 x2) s = snd (delete_app_env x1 x2 s)"
| "run_workload (CreateDomain x1) s = snd (create_domain x1 s)"
| "run_workload (UpdateDomain x1) s = snd (update_domain x1 s)"
| "run_workload (DeleteDomain x1) s = snd (delete_domain x1 s)"

datatype token_call =
    CreateRefreshToken refresh_token
  | RevokeRefreshToken string
  | RevokeRefreshTokenIfActive string
  | RevokeAllUserRefreshTokens string
  | DeleteExpiredRefreshTokens time
  | CreatePasswordResetToken password_reset_token
  | InvalidateUserPasswordResetTokens string time
  | ConsumePasswordResetToken string time
  | CreateApiToken api_token
  | DeleteApiToken string string
  | TouchApiToken string time

primrec run_token :: "token_call \<Rightarrow> mem \<Rightarrow> mem" where
  "run_token (CreateRefreshToken x1) s = snd (create_refresh_token x1 s)"
| "run_token (RevokeRefreshToken x1) s = snd (revoke_refresh_token x1 s)"
| "run_token (RevokeRefreshTokenIfActive x1) s = snd (revoke_refresh_token_if_active x1 s)"
| "run_token (RevokeAllUserRefreshTokens x1) s = snd (revoke_all_user_refresh_tokens x1 s)"
| "run_token (DeleteExpiredRefreshTokens x1) s = snd (delete_expired_refresh_tokens x1 s)"
| "run_token (CreatePasswordResetToken x1) s = snd (create_password_reset_token x1 s)"
| "run_token (InvalidateUserPasswordResetTokens x1 x2) s = snd (invalidate_user_password_reset_tokens x1 x2 s)"
| "run_token (ConsumePasswordResetToken x1 x2) s = snd (consume_password_reset_token x1 x2 s)"
| "run_token (CreateApiToken x1) s = snd (create_api_token x1 s)"
| "run_token (DeleteApiToken x1 x2) s = snd (delete_api_token x1 x2 s)"
| "run_token (TouchApiToken x1 x2) s = snd (touch_api_token x1 x2 s)"

datatype billing_call =
    UpsertSubscription subscription
  | AddUsage usage_record
  | AddUsageIfAbsent usage_record
  | MarkEventProcessed string
  | SetMeterState meter_state
  | SetUsageReportState usage_report_state
  | CreateAuditEvent audit_event
  | UpsertPlan plan
  | DeletePlan string
  | UpsertPricingComponent pricing_component
  | DeletePricingComponent string
  | UpsertServiceTemplate service_template
  | DeleteServiceTemplate string
  | UpdateSettings platform_settings

primrec run_billing :: "billing_call \<Rightarrow> mem \<Rightarrow> mem" where
  "run_billing (UpsertSubscription x1) s = snd (upsert_subscription x1 s)"
| "run_billing (AddUsage x1) s = snd (add_usage x1 s)"
| "run_billing (AddUsageIfAbsent x1) s = snd (add_usage_if_absent x1 s)"
| "run_billing (MarkEventProcessed x1) s = snd (mark_event_processed x1 s)"
| "run_billing (SetMeterState x1) s = snd (set_meter_state x1 s)"
| "run_billing (SetUsageReportState x1) s = snd (set_usage_report_state x1 s)"
| "run_billing (CreateAuditEvent x1) s = snd (create_audit_event x1 s)"
| "run_billing (UpsertPlan x1) s = snd (upsert_plan x1 s)"
| "run_billing (DeletePlan x1) s = snd (delete_plan x1 s)"
| "run_billing (UpsertPricingComponent x1) s = snd (upsert_pricing_component x1 s)"
| "run_billing (DeletePricingComponent x1) s = snd (delete_pricing_component x1 s)"
| "run_billing (UpsertServiceTemplate x1) s = snd (upsert_service_template x1 s)"
| "run_billing (DeleteServiceTemplate x1) s = snd (delete_service_template x1 s)"
| "run_billing (UpdateSettings x1) s = snd (update_settings x1 s)"

datatype store_call =
    TenancyCall tenancy_call
  | WorkloadCall workload_call
  | TokenCall token_call
  | BillingCall billing_call

primrec run_call :: "store_call \<Rightarrow> mem \<Rightarrow> mem" where
  "run_call (TenancyCall c) s = run_tenancy c s"
| "run_call (WorkloadCall c) s = run_workload c s"
| "run_call (TokenCall c) s = run_token c s"
| "run_call (BillingCall c) s = run_billing c s"

definition run_calls :: "store_call list \<Rightarrow> mem \<Rightarrow> mem" where
  "run_calls cs s = fold run_call cs s"

inductive store_reachable :: "mem \<Rightarrow> bool" where
  reach_new: "store_reachable new_memory_store"
| reach_call: "store_reachable s \<Longrightarrow> store_reachable (run_call c s)"

inductive_cases store_reachableE: "store_reachable s"

section \<open>Frames\<close>

text \<open>A call of one group leaves the tables of the others alone.\<close>

lemmas tenancy_defs =
  create_user_def update_user_def create_organization_def update_org_def add_membership_def
  update_membership_role_def remove_membership_def create_project_def delete_project_def
  add_project_membership_def create_invitation_def update_invitation_def revoke_invitation_def

lemmas workload_defs =
  create_app_def update_app_def delete_app_def create_build_def update_build_def
  create_release_def update_release_def create_database_def update_database_def
  delete_database_def create_service_def update_service_def delete_service_def set_app_env_def
  delete_app_env_def create_domain_def update_domain_def delete_domain_def

lemmas token_defs =
  create_refresh_token_def revoke_refresh_token_def revoke_refresh_token_if_active_def
  revoke_all_user_refresh_tokens_def delete_expired_refresh_tokens_def
  create_password_reset_token_def invalidate_user_password_reset_tokens_def
  consume_password_reset_token_def create_api_token_def delete_api_token_def
  touch_api_token_def

lemmas billing_defs =
  upsert_subscription_def add_usage_def add_usage_if_absent_def mark_event_processed_def
  set_meter_state_def set_usage_report_state_def create_audit_event_def upsert_plan_def
  delete_plan_def upsert_pricing_component_def delete_pricing_component_def
  upsert_service_template_def delete_service_template_def update_settings_def

lemma tenancy_frame [frame_simps]:
  "st_apps (run_tenancy c s) = st_apps s"
  "st_builds (run_tenancy c s) = st_builds s"
  "st_releases (run_tenancy c s) = st_releases s"
  "st_databases (run_tenancy c s) = st_databases s"
  "st_services (run_tenancy c s) = st_services s"
  "st_app_env (run_tenancy c s) = st_app_env s"
  "st_domains (run_tenancy c s) = st_domains s"
  "st_refresh_tokens (run_tenancy c s) = st_refresh_tokens s"
  "st_reset_tokens (run_tenancy c s) = st_reset_tokens s"
  "st_api_tokens (run_tenancy c s) = st_api_tokens s"
  "st_subscriptions (run_tenancy c s) = st_subscriptions s"
  "st_usage (run_tenancy c s) = st_usage s"
  "st_processed_evts (run_tenancy c s) = st_processed_evts s"
  "st_report_state (run_tenancy c s) = st_report_state s"
  "st_meter_state (run_tenancy c s) = st_meter_state s"
  "st_audit_events (run_tenancy c s) = st_audit_events s"
  "st_plans (run_tenancy c s) = st_plans s"
  "st_pricing (run_tenancy c s) = st_pricing s"
  "st_templates (run_tenancy c s) = st_templates s"
  "st_settings (run_tenancy c s) = st_settings s"
  by (cases c; simp add: on_tbl_def Let_def tenancy_defs split: sum.splits option.splits)+

lemma workload_frame [frame_simps]:
  "st_users (run_workload c s) = st_users s"
  "st_users_by_email (run_workload c s) = st_users_by_email s"
  "st_organizations (run_workload c s) = st_organizations s"
  "st_memberships (run_workload c s) = st_memberships s"
  "st_projects (run_workload c s) = st_projects s"
  "st_project_members (run_workload c s) = st_project_members s"
  "st_invitations (run_workload c s) = st_invitations s"
  "st_refresh_tokens (run_workload c s) = st_refresh_tokens s"
  "st_reset_tokens (run_workload c s) = st_reset_tokens s"
  "st_api_tokens (run_workload c s) = st_api_tokens s"
  "st_subscriptions (run_workload c s) = st_subscriptions s"
  "st_usage (run_workload c s) = st_usage s"
  "st_processed_evts (run_workload c s) = st_processed_evts s"
  "st_report_state (run_workload c s) = st_report_state s"
  "st_meter_state (run_workload c s) = st_meter_state s"
  "st_audit_events (run_workload c s) = st_audit_events s"
  "st_plans (run_workload c s) = st_plans s"
  "st_pricing (run_workload c s) = st_pricing s"
  "st_templates (run_workload c s) = st_templates s"
  "st_settings (run_workload c s) = st_settings s"
  by (cases c; simp add: on_tbl_def Let_def workload_defs split: sum.splits option.splits)+

lemma token_frame [frame_simps]:
  "st_users (run_token c s) = st_users s"
  "st_users_by_email (run_token c s) = st_users_by_email s"
  "st_organizations (run_token c s) = st_organizations s"
  "st_memberships (run_token c s) = st_memberships s"
  "st_projects (run_token c s) = st_projects s"
  "st_project_members (run_token c s) = st_project_members s"
  "st_invitations (run_token c s) = st_invitations s"
  "st_apps (run_token c s) = st_apps s"
  "st_builds (run_token c s) = st_builds s"
  "st_releases (run_token c s) = st_releases s"
  "st_databases (run_token c s) = st_databases s"
  "st_services (run_token c s) = st_services s"
  "st_app_env (run_token c s) = st_app_env s"
  "st_domains (run_token c s) = st_domains s"
  "st_subscriptions (run_token c s) = st_subscriptions s"
  "st_usage (run_token c s) = st_usage s"
  "st_processed_evts (run_token c s) = st_processed_evts s"
  "st_report_state (run_token c s) = st_report_state s"
  "st_meter_state (run_token c s) = st_meter_state s"
  "st_audit_events (run_token c s) = st_audit_events s"
  "st_plans (run_token c s) = st_plans s"
  "st_pricing (run_token c s) = st_pricing s"
  "st_templates (run_token c s) = st_templates s"
  "st_settings (run_token c s) = st_settings s"
  by (cases c; simp add: on_tbl_def Let_def token_defs split: sum.splits option.splits)+

lemma billing_frame [frame_simps]:
  "st_users (run_billing c s) = st_users s"
  "st_users_by_email (run_billing c s) = st_users_by_email s"
  "st_organizations (run_billing c s) = st_organizations s"
  "st_memberships (run_billing c s) = st_memberships s"
  "st_projects (run_billing c s) = st_projects s"
  "st_project_members (run_billing c s) = st_project_members s"
  "st_invitations (run_billing c s) = st_invitations s"
  "st_apps (run_billing c s) = st_apps s"
  "st_builds (run_billing c s) = st_builds s"
  "st_releases (run_billing c s) = st_releases s"
  "st_databases (run_billing c s) = st_databases s"
  "st_services (run_billing c s) = st_services s"
  "st_app_env (run_billing c s) = st_app_env s"
  "st_domains (run_billing c s) = st_domains s"
  "st_refresh_tokens (run_billing c s) = st_refresh_tokens s"
  "st_reset_tokens (run_billing c s) = st_reset_tokens s"
  "st_api_tokens (run_billing c s) = st_api_tokens s"
  by (cases c; simp add: on_tbl_def Let_def billing_defs split: sum.splits option.splits)+


section \<open>The invariant of every reachable state\<close>

definition mem_wf :: "mem \<Rightarrow> bool" where
  "mem_wf s \<longleftrightarrow> tenancy_wf s \<and> workloads_wf s \<and> tokens_wf s \<and> billing_wf s"

lemma run_tenancy_keeps: "tenancy_wf s \<Longrightarrow> tenancy_wf (run_tenancy c s)"
  by (cases c; simp; rule keepsD; (rule tenancy_keeps | assumption))

lemma run_workload_keeps: "workloads_wf s \<Longrightarrow> workloads_wf (run_workload c s)"
  by (cases c; simp; rule keepsD; (rule workloads_keeps | assumption))

lemma run_token_keeps: "tokens_wf s \<Longrightarrow> tokens_wf (run_token c s)"
  by (cases c; simp; rule keepsD; (rule tokens_keeps | assumption))

lemma run_billing_keeps: "billing_wf s \<Longrightarrow> billing_wf (run_billing c s)"
  by (cases c; simp; rule keepsD; (rule billing_keeps | assumption))

lemma tenancy_wf_frame:
  "tenancy_wf (run_workload c s) = tenancy_wf s" "tenancy_wf (run_token d s) = tenancy_wf s"
  "tenancy_wf (run_billing e s) = tenancy_wf s"
  by (simp_all add: tenancy_wf_def user_index_ok_def frame_simps)

lemma workloads_wf_frame:
  "workloads_wf (run_tenancy c s) = workloads_wf s" "workloads_wf (run_token d s) = workloads_wf s"
  "workloads_wf (run_billing e s) = workloads_wf s"
  by (simp_all add: workloads_wf_def frame_simps)

lemma tokens_wf_frame:
  "tokens_wf (run_tenancy c s) = tokens_wf s" "tokens_wf (run_workload d s) = tokens_wf s"
  "tokens_wf (run_billing e s) = tokens_wf s"
  by (simp_all add: tokens_wf_def frame_simps)

lemma billing_wf_frame:
  "billing_wf (run_tenancy c s) = billing_wf s" "billing_wf (run_workload d s) = billing_wf s"
  "billing_wf (run_token e s) = billing_wf s"
  by (simp_all add: billing_wf_def frame_simps)

lemma mem_wf_run_call: "mem_wf s \<Longrightarrow> mem_wf (run_call c s)"
  by (cases c) (simp_all add: mem_wf_def run_tenancy_keeps run_workload_keeps run_token_keeps
      run_billing_keeps tenancy_wf_frame workloads_wf_frame tokens_wf_frame billing_wf_frame)

lemma seed_catalog_keyed:
  "keyed plan_id (st_plans s) \<Longrightarrow> keyed plan_id (st_plans (seed s))"
  "keyed tpl_key (st_templates s) \<Longrightarrow> keyed tpl_key (st_templates (seed s))"
  "keyed pc_key (st_pricing s) \<Longrightarrow> keyed pc_key (st_pricing (seed s))"
  by (simp_all add: seed_def Let_def keyed_put_all)

lemma mem_wf_new: "mem_wf new_memory_store"
  using tenancy_wf_new
  by (simp add: mem_wf_def new_memory_store_def workloads_wf_def tokens_wf_def billing_wf_def
      seed_catalog_keyed)

lemma mem_wf_reachable: "store_reachable s \<Longrightarrow> mem_wf s"
  by (induction rule: store_reachable.induct) (simp_all add: mem_wf_new mem_wf_run_call)

lemma run_calls_Nil [simp]: "run_calls [] s = s"
  by (simp add: run_calls_def)

lemma run_calls_Cons [simp]: "run_calls (c # cs) s = run_calls cs (run_call c s)"
  by (simp add: run_calls_def)

lemma reachable_run_calls: "store_reachable s \<Longrightarrow> store_reachable (run_calls cs s)"
  by (induction cs arbitrary: s) (auto intro: reach_call)

section \<open>Rotation under interleaving\<close>

text \<open>A refresh token that is gone or revoked; only creating the id anew undoes it.\<close>

definition token_spent :: "string \<Rightarrow> mem \<Rightarrow> bool" where
  "token_spent i s \<longleftrightarrow> (\<forall>r. gget (st_refresh_tokens s) i = Some r \<longrightarrow> rt_revoked r)"

definition recreates :: "string \<Rightarrow> store_call \<Rightarrow> bool" where
  "recreates i c \<longleftrightarrow> (\<exists>r. c = TokenCall (CreateRefreshToken r) \<and> rt_id r = i)"

lemma token_spent_run_token:
  "tokens_wf s \<Longrightarrow> token_spent i s \<Longrightarrow> \<not> recreates i (TokenCall c) \<Longrightarrow> token_spent i (run_token c s)"
  by (cases c) (auto simp: token_spent_def recreates_def token_defs on_tbl_def tbl_create_def Let_def
      tokens_wf_def keyed_def gget_gkeep split: option.splits sum.splits if_splits)

lemma token_spent_run_call:
  assumes "mem_wf s" "token_spent i s" "\<not> recreates i c"
  shows "token_spent i (run_call c s)"
  using assms token_spent_run_token [of s i]
  by (cases c) (auto simp: mem_wf_def token_spent_def frame_simps)

lemma token_spent_run_calls:
  "mem_wf s \<Longrightarrow> token_spent i s \<Longrightarrow> list_all (\<lambda>c. \<not> recreates i c) cs \<Longrightarrow> token_spent i (run_calls cs s)"
  by (induction cs arbitrary: s) (auto simp: mem_wf_run_call token_spent_run_call)

lemma spent_never_rotates: "token_spent i s \<Longrightarrow> fst (revoke_refresh_token_if_active i s) \<noteq> Inr True"
  by (auto simp: token_spent_def revoke_refresh_token_if_active_def split: option.splits)

lemma rotation_spends: "token_spent i (snd (revoke_refresh_token_if_active i s))"
  by (auto simp: token_spent_def revoke_refresh_token_if_active_def split: option.splits)

section \<open>Emails\<close>

lemma one_user_per_email:
  assumes "tenancy_wf s" "gget (st_users s) i = Some u" "gget (st_users s) j = Some v"
    "to_lower (user_email u) = to_lower (user_email v)"
  shows "i = j"
proof -
  have ix: "index_ok (st_users s) (st_users_by_email s)"
    using assms(1) by (simp add: tenancy_wf_def user_index_ok_def)
  have "gget (st_users_by_email s) (to_lower (user_email u)) = Some i"
    "gget (st_users_by_email s) (to_lower (user_email u)) = Some j"
    using assms(2-4) by (auto simp: index_ok_iff [OF ix])
  then show ?thesis by simp
qed

end
