(* ===== verification/Samples.thy ===== *)
theory Samples
  imports Mem_Steps
begin

text \<open>
  Concrete states the applied examples (witnesses) of the other theories run on: one
  organization on the launch plan with an app and a database, built by calls of the store from
  the seeded empty store, so it is reachable and satisfies the store's invariant.
\<close>

definition sample_user :: user where
  "sample_user = \<lparr>user_id = ''u1'', user_email = ''Ada@example.com'', user_name = ''Ada'',
     user_password_hash = ''h'', user_is_admin = False, user_created_at = 0\<rparr>"

definition sample_org :: organization where
  "sample_org = \<lparr>org_id = ''o1'', org_name = ''Acme'', org_slug = ''acme'', org_billing_email = [],
     org_spend_cap_cents = 0, org_created_at = 0\<rparr>"

definition sample_app :: app where
  "sample_app = \<lparr>app_id = ''a1'', app_org_id = ''o1'', app_project_id = ''p1'', app_name = ''web'',
     app_image = ''nginx'', app_git_repository = [], app_git_branch = [], app_build_pack = [],
     app_cpu = 1, app_memory_mb = 1024, app_status = ''running'', app_min_replicas = 1,
     app_max_replicas = 1, app_region = ''fra1'', app_namespace = ''ns'', app_release = ''rel'',
     app_host = [], app_created_at = 0\<rparr>"

definition sample_subscription :: subscription where
  "sample_subscription = \<lparr>sub_org_id = ''o1'', sub_plan_id = ''launch'', sub_status = SubActive,
     sub_stripe_customer_id = ''cus_1'', sub_stripe_subscription_id = ''sub_1'',
     sub_stripe_subscription_item_id = ''si_1'', sub_created_at = 0,
     sub_current_period_end = 2592000000000000\<rparr>"

definition sample_usage :: "string \<Rightarrow> string \<Rightarrow> int \<Rightarrow> time \<Rightarrow> usage_record" where
  "sample_usage i m q t = \<lparr>ur_id = i, ur_org_id = ''o1'', ur_metric = m, ur_quantity = q, ur_at = t\<rparr>"

definition sample_calls :: "store_call list" where
  "sample_calls =
     [TenancyCall (CreateUser sample_user), TenancyCall (CreateOrganization sample_org),
      TenancyCall (AddMembership \<lparr>mem_org_id = ''o1'', mem_user_id = ''u1'', mem_role = RoleOwner\<rparr>),
      WorkloadCall (CreateApp sample_app),
      BillingCall (UpsertSubscription sample_subscription),
      BillingCall (SetMeterState \<lparr>ms_last_metered_hour = 3600000000000\<rparr>)]"

definition sample_store :: mem where
  "sample_store = run_calls sample_calls new_memory_store"

lemma sample_reachable: "store_reachable sample_store"
  unfolding sample_store_def by (intro reachable_run_calls reach_new)

lemma sample_wf: "mem_wf sample_store"
  by (rule mem_wf_reachable [OF sample_reachable])

lemma sample_billing_wf: "billing_wf sample_store"
  using sample_wf by (simp add: mem_wf_def)

lemma gput_Nil [simp]: "gput k v [] = [(k, v)]"
  by (simp add: gput_def)

lemmas sample_defs = sample_store_def sample_calls_def sample_user_def sample_org_def sample_app_def
  sample_subscription_def

lemmas new_store_defs = new_memory_store_def on_tbl_def tbl_create_def

lemma sample_tables:
  "st_organizations sample_store = [(''o1'', sample_org)]"
  "st_apps sample_store = [(''a1'', sample_app)]"
  "st_subscriptions sample_store = [(''o1'', sample_subscription)]"
  "st_meter_state sample_store = Some \<lparr>ms_last_metered_hour = 3600000000000\<rparr>"
  "st_usage sample_store = []" "st_services sample_store = []" "st_databases sample_store = []"
  "st_processed_evts sample_store = []" "st_report_state sample_store = []"
  "st_refresh_tokens sample_store = []" "st_releases sample_store = []"
  by (simp_all add: sample_store_def sample_calls_def new_store_defs create_user_def Let_def
      create_organization_def add_membership_def create_app_def upsert_subscription_def
      set_meter_state_def sample_app_def sample_org_def sample_subscription_def)

lemma sample_catalog:
  "st_plans sample_store = st_plans new_memory_store"
  "st_pricing sample_store = st_pricing new_memory_store"
  "st_settings sample_store = st_settings new_memory_store"
  by (simp_all add: sample_store_def sample_calls_def frame_simps
      upsert_subscription_def set_meter_state_def del: run_tenancy.simps run_workload.simps)

lemma new_catalog:
  "st_plans new_memory_store = map (\<lambda>p. (plan_id p, p)) default_plans"
  "st_pricing new_memory_store = map (\<lambda>p. (pc_key p, p)) default_pricing"
  "st_settings new_memory_store = default_settings"
  by (simp_all add: new_memory_store_def seed_def Let_def zero_settings_def put_all_def
      default_plans_def default_pricing_def gput_def)

end
