(* ===== verification/Store_Api.thy ===== *)
theory Store_Api
  imports Samples
begin

text \<open>
  The store as the billing service sees it: the methods of the \<open>store.Store\<close> interface that
  \<open>internal/billing\<close> calls, each an operation on some state. Two implementations are given:
  the memory store itself, and the memory store behind a connection that may fail before a
  call takes effect or after it did (a lost answer), following any schedule. The contract
  both satisfy (\<open>faithful_store\<close>) is what the lemmas of the billing service are proved from,
  so they hold under every schedule of store failures.
\<close>

section \<open>The interface\<close>

record 's bstore =
  bs_list_all_orgs :: "(serr, 's, organization list) op"
  bs_get_organization :: "string \<Rightarrow> (serr, 's, organization) op"
  bs_get_settings :: "(serr, 's, platform_settings) op"
  bs_get_subscription :: "string \<Rightarrow> (serr, 's, subscription) op"
  bs_get_subscription_by_stripe_id :: "string \<Rightarrow> (serr, 's, subscription) op"
  bs_get_subscription_by_customer_id :: "string \<Rightarrow> (serr, 's, subscription) op"
  bs_upsert_subscription :: "subscription \<Rightarrow> (serr, 's, unit) op"
  bs_list_plans :: "(serr, 's, plan list) op"
  bs_get_plan :: "string \<Rightarrow> (serr, 's, plan) op"
  bs_list_pricing_components :: "(serr, 's, pricing_component list) op"
  bs_list_apps_by_org :: "string \<Rightarrow> (serr, 's, app list) op"
  bs_list_services_by_org :: "string \<Rightarrow> (serr, 's, service list) op"
  bs_list_databases_by_org :: "string \<Rightarrow> (serr, 's, database list) op"
  bs_add_usage :: "usage_record \<Rightarrow> (serr, 's, unit) op"
  bs_add_usage_if_absent :: "usage_record \<Rightarrow> (serr, 's, bool) op"
  bs_list_usage_by_org_since :: "string \<Rightarrow> time \<Rightarrow> page \<Rightarrow> (serr, 's, usage_record list) op"
  bs_event_processed :: "string \<Rightarrow> (serr, 's, bool) op"
  bs_mark_event_processed :: "string \<Rightarrow> (serr, 's, bool) op"
  bs_get_meter_state :: "(serr, 's, meter_state) op"
  bs_set_meter_state :: "meter_state \<Rightarrow> (serr, 's, unit) op"
  bs_get_usage_report_state :: "string \<Rightarrow> (serr, 's, usage_report_state) op"
  bs_set_usage_report_state :: "usage_report_state \<Rightarrow> (serr, 's, unit) op"

text \<open>An implementation by way of an embedding of the memory store's operations.\<close>

definition memory_bstore :: "mem bstore" where
  "memory_bstore =
     \<lparr>bs_list_all_orgs = readE list_all_orgs,
      bs_get_organization = (\<lambda>i. readE (get_organization i)),
      bs_get_settings = readE get_settings,
      bs_get_subscription = (\<lambda>i. readE (get_subscription i)),
      bs_get_subscription_by_stripe_id = (\<lambda>i. readE (get_subscription_by_stripe_id i)),
      bs_get_subscription_by_customer_id = (\<lambda>i. readE (get_subscription_by_customer_id i)),
      bs_upsert_subscription = upsert_subscription,
      bs_list_plans = readE list_plans,
      bs_get_plan = (\<lambda>i. readE (get_plan i)),
      bs_list_pricing_components = readE list_pricing_components,
      bs_list_apps_by_org = (\<lambda>i. readE (list_apps_by_org i)),
      bs_list_services_by_org = (\<lambda>i. readE (list_services_by_org i)),
      bs_list_databases_by_org = (\<lambda>i. readE (list_databases_by_org i)),
      bs_add_usage = add_usage,
      bs_add_usage_if_absent = add_usage_if_absent,
      bs_list_usage_by_org_since = (\<lambda>i t p. readE (list_usage_by_org_since i t p)),
      bs_event_processed = (\<lambda>i. readE (event_processed i)),
      bs_mark_event_processed = mark_event_processed,
      bs_get_meter_state = readE get_meter_state,
      bs_set_meter_state = set_meter_state,
      bs_get_usage_report_state = (\<lambda>i. readE (get_usage_report_state i)),
      bs_set_usage_report_state = set_usage_report_state\<rparr>"

section \<open>A store that fails\<close>

text \<open>
  \<open>FailBefore\<close> loses the request, \<open>FailAfter\<close> the answer; an exhausted schedule means no more
  failures. The error is never one of the sentinels, as a driver error is not.
\<close>

datatype fault = NoFault | FailBefore | FailAfter

type_synonym flaky = "mem \<times> fault list"

definition unavailable :: serr where
  "unavailable = ErrStore ''connection failed''"

definition faulty :: "'a mem_op \<Rightarrow> (serr, flaky, 'a) op" where
  "faulty m c =
     (let (s, fs) = c; (r, t) = m s
      in case fs of
           [] \<Rightarrow> (r, (t, []))
         | NoFault # gs \<Rightarrow> (r, (t, gs))
         | FailBefore # gs \<Rightarrow> (Inl unavailable, (s, gs))
         | FailAfter # gs \<Rightarrow> (Inl unavailable, (t, gs)))"

definition flaky_bstore :: "flaky bstore" where
  "flaky_bstore =
     \<lparr>bs_list_all_orgs = faulty (readE list_all_orgs),
      bs_get_organization = (\<lambda>i. faulty (readE (get_organization i))),
      bs_get_settings = faulty (readE get_settings),
      bs_get_subscription = (\<lambda>i. faulty (readE (get_subscription i))),
      bs_get_subscription_by_stripe_id = (\<lambda>i. faulty (readE (get_subscription_by_stripe_id i))),
      bs_get_subscription_by_customer_id = (\<lambda>i. faulty (readE (get_subscription_by_customer_id i))),
      bs_upsert_subscription = (\<lambda>b. faulty (upsert_subscription b)),
      bs_list_plans = faulty (readE list_plans),
      bs_get_plan = (\<lambda>i. faulty (readE (get_plan i))),
      bs_list_pricing_components = faulty (readE list_pricing_components),
      bs_list_apps_by_org = (\<lambda>i. faulty (readE (list_apps_by_org i))),
      bs_list_services_by_org = (\<lambda>i. faulty (readE (list_services_by_org i))),
      bs_list_databases_by_org = (\<lambda>i. faulty (readE (list_databases_by_org i))),
      bs_add_usage = (\<lambda>u. faulty (add_usage u)),
      bs_add_usage_if_absent = (\<lambda>u. faulty (add_usage_if_absent u)),
      bs_list_usage_by_org_since = (\<lambda>i t p. faulty (readE (list_usage_by_org_since i t p))),
      bs_event_processed = (\<lambda>i. faulty (readE (event_processed i))),
      bs_mark_event_processed = (\<lambda>i. faulty (mark_event_processed i)),
      bs_get_meter_state = faulty (readE get_meter_state),
      bs_set_meter_state = (\<lambda>m. faulty (set_meter_state m)),
      bs_get_usage_report_state = (\<lambda>i. faulty (readE (get_usage_report_state i))),
      bs_set_usage_report_state = (\<lambda>r. faulty (set_usage_report_state r))\<rparr>"

section \<open>What a call may do\<close>

text \<open>
  \<open>follows view m w\<close>: the call \<open>m\<close> on the real state shows, through \<open>view\<close>, what \<open>w\<close> does on
  the memory store: an answer is \<open>w\<close>'s answer and \<open>w\<close>'s effect has happened; a failure is
  either \<open>w\<close>'s own (with \<open>w\<close>'s effect) or a driver's, with \<open>w\<close>'s effect or none.
\<close>

definition driver_error :: "serr \<Rightarrow> bool" where
  "driver_error e \<longleftrightarrow> (case e of ErrStore _ \<Rightarrow> True | _ \<Rightarrow> False)"

definition follows :: "('s \<Rightarrow> mem) \<Rightarrow> (serr, 's, 'a) op \<Rightarrow> 'a mem_op \<Rightarrow> bool" where
  "follows view m w \<longleftrightarrow>
     (\<forall>s. (fst (m s), view (snd (m s))) = w (view s) \<or>
          (\<exists>e. fst (m s) = Inl e \<and> driver_error e \<and> view (snd (m s)) \<in> {view s, snd (w (view s))}))"

lemma follows_memory: "follows id m m"
  by (simp add: follows_def)

lemma follows_faulty: "follows fst (faulty m) m"
  unfolding follows_def faulty_def
  by (auto simp: unavailable_def driver_error_def split: prod.splits list.splits fault.splits)

lemma follows_Inr: "follows view m w \<Longrightarrow> m s = (Inr x, t) \<Longrightarrow> w (view s) = (Inr x, view t)"
  unfolding follows_def by (metis Inl_Inr_False fst_conv snd_conv)

lemma follows_effect: "follows view m w \<Longrightarrow> view (snd (m s)) \<in> {view s, snd (w (view s))}"
  unfolding follows_def by (metis insertCI snd_conv)

lemma follows_Inl:
  assumes "follows view m w" "m s = (Inl e, t)"
  shows "w (view s) = (Inl e, view t) \<or> (driver_error e \<and> view t \<in> {view s, snd (w (view s))})"
  using assms(1) unfolding follows_def by (metis assms(2) fst_conv snd_conv sum.inject(1))

lemma follows_read_view: "follows view m (readE r) \<Longrightarrow> view (snd (m s)) = view s"
  using follows_effect [of view m "readE r" s] by (simp add: readE_def)

lemma follows_read_Inr: "follows view m (readE r) \<Longrightarrow> m s = (Inr x, t) \<Longrightarrow> r (view s) = Inr x \<and> view t = view s"
  using follows_Inr [of view m "readE r" s x t] by (auto simp: readE_def)

lemma follows_read_Inl:
  "follows view m (readE r) \<Longrightarrow> m s = (Inl e, t) \<Longrightarrow>
     view t = view s \<and> (r (view s) = Inl e \<or> driver_error e)"
  using follows_Inl [of view m "readE r" s e t] by (auto simp: readE_def)

locale faithful_store =
  fixes st :: "'s bstore" and view :: "'s \<Rightarrow> mem"
  assumes orgs: "follows view (bs_list_all_orgs st) (readE list_all_orgs)"
    and organization: "follows view (bs_get_organization st i) (readE (get_organization i))"
    and settings: "follows view (bs_get_settings st) (readE get_settings)"
    and subscription: "follows view (bs_get_subscription st i) (readE (get_subscription i))"
    and by_stripe: "follows view (bs_get_subscription_by_stripe_id st i) (readE (get_subscription_by_stripe_id i))"
    and by_customer: "follows view (bs_get_subscription_by_customer_id st i) (readE (get_subscription_by_customer_id i))"
    and upsert: "follows view (bs_upsert_subscription st b) (upsert_subscription b)"
    and plans: "follows view (bs_list_plans st) (readE list_plans)"
    and plan: "follows view (bs_get_plan st i) (readE (get_plan i))"
    and pricing: "follows view (bs_list_pricing_components st) (readE list_pricing_components)"
    and apps: "follows view (bs_list_apps_by_org st i) (readE (list_apps_by_org i))"
    and services: "follows view (bs_list_services_by_org st i) (readE (list_services_by_org i))"
    and databases: "follows view (bs_list_databases_by_org st i) (readE (list_databases_by_org i))"
    and usage_add: "follows view (bs_add_usage st u) (add_usage u)"
    and usage_if_absent: "follows view (bs_add_usage_if_absent st u) (add_usage_if_absent u)"
    and usage_since: "follows view (bs_list_usage_by_org_since st i t p) (readE (list_usage_by_org_since i t p))"
    and event_seen: "follows view (bs_event_processed st i) (readE (event_processed i))"
    and event_mark: "follows view (bs_mark_event_processed st i) (mark_event_processed i)"
    and meter_get: "follows view (bs_get_meter_state st) (readE get_meter_state)"
    and meter_set: "follows view (bs_set_meter_state st m) (set_meter_state m)"
    and report_get: "follows view (bs_get_usage_report_state st i) (readE (get_usage_report_state i))"
    and report_set: "follows view (bs_set_usage_report_state st r) (set_usage_report_state r)"
begin

lemmas reads = orgs organization settings subscription by_stripe by_customer plans plan pricing
  apps services databases usage_since event_seen meter_get report_get

lemmas view_reads [simp] = reads [THEN follows_read_view]

end

interpretation memory: faithful_store memory_bstore id
  by unfold_locales (simp_all add: memory_bstore_def follows_memory)

interpretation flaky: faithful_store flaky_bstore fst
  by unfold_locales (simp_all add: flaky_bstore_def follows_faulty)

text \<open>Without failures left the flaky store is the memory store.\<close>

lemma faulty_healthy: "faulty m (s, []) = (fst (m s), (snd (m s), []))"
  by (simp add: faulty_def split: prod.splits)

lemma faulty_next:
  "faulty m (s, NoFault # fs) = (fst (m s), (snd (m s), fs))"
  "faulty m (s, FailBefore # fs) = (Inl unavailable, (s, fs))"
  "faulty m (s, FailAfter # fs) = (Inl unavailable, (snd (m s), fs))"
  by (simp_all add: faulty_def split: prod.splits)

end
