(* ===== verification/Billing_Pricing.thy ===== *)
theory Billing_Pricing
  imports Store_Api
begin

text \<open>
  The plan catalog (\<open>billing/catalog.go\<close>, \<open>quota.go\<close>) and the live price list with the hourly
  and monthly cost of workloads (\<open>billing/pricing.go\<close>). Every function reads the store it is
  given; the lemmas show that an answer is computed from the store's contents alone and that
  a failing store surfaces as an error, never as a zero price.
\<close>

section \<open>Errors of the billing service\<close>

datatype pay_reason =
    SubscriptionStanding subscription_status
  | SpendCapReached int int

datatype berr =
    BStore serr
  | BUnknownPlan
  | BPaymentRequired pay_reason
  | BProvider string
  | BCanceled string

definition lift_store :: "(serr, 's, 'a) op \<Rightarrow> (berr, 's, 'a) op" where
  "lift_store m = tryE m (\<lambda>e. failE (BStore e)) okE"

section \<open>Plans\<close>

record limits =
  lim_max_cpu :: real
  lim_max_memory_mb :: int
  lim_max_apps :: int

definition limits_of :: "plan \<Rightarrow> limits" where
  "limits_of p = \<lparr>lim_max_cpu = plan_max_cpu p, lim_max_memory_mb = plan_max_memory_mb p,
                  lim_max_apps = plan_max_apps p\<rparr>"

definition catalog :: "'s bstore \<Rightarrow> (berr, 's, plan list) op" where
  "catalog st =
     bindE (lift_store (bs_list_plans st))
       (\<lambda>ps. okE (sort_by (\<lambda>a b. plan_sort_order a < plan_sort_order b) (filter plan_active ps)))"

text \<open>\<open>found=false\<close> with a nil error is \<open>None\<close>.\<close>

definition plan_by_id :: "'s bstore \<Rightarrow> string \<Rightarrow> (berr, 's, plan option) op" where
  "plan_by_id st i =
     tryE (bs_get_plan st i)
       (\<lambda>e. if e = ErrNotFound then okE None else failE (BStore e))
       (\<lambda>p. okE (Some p))"

definition default_plan :: "'s bstore \<Rightarrow> (berr, 's, plan option) op" where
  "default_plan st =
     tryE (bs_list_plans st)
       (\<lambda>e. okE None)
       (\<lambda>ps. if ps = [] then okE None
             else case find plan_is_default ps of Some p \<Rightarrow> okE (Some p) | None \<Rightarrow> okE (Some (hd ps)))"

definition plan_limits :: "'s bstore \<Rightarrow> string \<Rightarrow> (berr, 's, limits) op" where
  "plan_limits st i =
     tryE (bs_get_plan st i)
       (\<lambda>e. bindE (default_plan st)
              (\<lambda>d. case d of
                     Some p \<Rightarrow> okE (limits_of p)
                   | None \<Rightarrow> okE \<lparr>lim_max_cpu = 0, lim_max_memory_mb = 0, lim_max_apps = 0\<rparr>))
       (\<lambda>p. okE (limits_of p))"

section \<open>The price list\<close>

definition meter_metric :: string where "meter_metric = ''compute_cost_microcents''"
definition meter_metric_storage :: string where "meter_metric_storage = ''storage_cost_microcents''"
definition meter_metric_egress :: string where "meter_metric_egress = ''egress_cost_microcents''"

definition cost_metrics :: "string list" where
  "cost_metrics = [meter_metric, meter_metric_storage, meter_metric_egress]"

definition is_cost_metric :: "string \<Rightarrow> bool" where
  "is_cost_metric m \<longleftrightarrow> m \<in> set cost_metrics"

definition price_key_cpu :: string where "price_key_cpu = ''cpu''"
definition price_key_memory :: string where "price_key_memory = ''memory''"
definition price_key_storage :: string where "price_key_storage = ''storage''"
definition price_key_egress :: string where "price_key_egress = ''egress''"

definition hours_per_month :: real where "hours_per_month = 730"

definition pricing_components :: "'s bstore \<Rightarrow> (berr, 's, pricing_component list) op" where
  "pricing_components st =
     bindE (lift_store (bs_list_pricing_components st))
       (\<lambda>cs. okE (sort_by (\<lambda>a b. pc_sort_order a < pc_sort_order b) (filter pc_active cs)))"

definition price_map :: "'s bstore \<Rightarrow> (berr, 's, (string, real) gomap) op" where
  "price_map st =
     bindE (pricing_components st)
       (\<lambda>cs. okE (fold (\<lambda>c. gput (pc_key c) (pc_price_per_hour c)) cs []))"

text \<open>Reading a missing key of a \<open>map[string]float64\<close> gives zero.\<close>

definition price :: "(string, real) gomap \<Rightarrow> string \<Rightarrow> real" where
  "price m k = (case gget m k of None \<Rightarrow> 0 | Some p \<Rightarrow> p)"

definition pricing_currency :: "'s bstore \<Rightarrow> (berr, 's, string) op" where
  "pricing_currency st =
     bindE (pricing_components st)
       (\<lambda>cs. case find (\<lambda>c. pc_currency c \<noteq> []) cs of
               Some c \<Rightarrow> okE (pc_currency c)
             | None \<Rightarrow> okE ''usd'')"

section \<open>The cost of workloads\<close>

definition hourly :: "(string, real) gomap \<Rightarrow> real \<Rightarrow> int \<Rightarrow> real" where
  "hourly ps cpu mem_mb = cpu * price ps price_key_cpu + (of_int mem_mb / 1024) * price ps price_key_memory"

definition hourly_cost :: "'s bstore \<Rightarrow> real \<Rightarrow> int \<Rightarrow> (berr, 's, real) op" where
  "hourly_cost st cpu mem_mb = bindE (price_map st) (\<lambda>ps. okE (hourly ps cpu mem_mb))"

definition to_month_cents :: "real \<Rightarrow> int" where
  "to_month_cents h = math_round (h * hours_per_month * 100)"

definition monthly_cost_cents :: "'s bstore \<Rightarrow> real \<Rightarrow> int \<Rightarrow> (berr, 's, int) op" where
  "monthly_cost_cents st cpu mem_mb = bindE (hourly_cost st cpu mem_mb) (\<lambda>h. okE (to_month_cents h))"

definition billable :: "string \<Rightarrow> string \<Rightarrow> bool" where
  "billable rel status \<longleftrightarrow> rel \<noteq> [] \<and> status \<noteq> ''stopped''"

text \<open>One loop of \<open>orgHourlyCost\<close>: add the cost of the billable workloads to the total.\<close>

definition add_costs :: "('w \<Rightarrow> bool) \<Rightarrow> ('w \<Rightarrow> real) \<Rightarrow> 'w list \<Rightarrow> real \<Rightarrow> real" where
  "add_costs ok cost ws tot = fold (\<lambda>w tot. if ok w then tot + cost w else tot) ws tot"

definition org_hourly_cost :: "'s bstore \<Rightarrow> string \<Rightarrow> (berr, 's, real) op" where
  "org_hourly_cost st org_i =
     bindE (price_map st) (\<lambda>ps.
     bindE (lift_store (bs_list_apps_by_org st org_i)) (\<lambda>apps.
     bindE (lift_store (bs_list_services_by_org st org_i)) (\<lambda>svcs.
     bindE (lift_store (bs_list_databases_by_org st org_i)) (\<lambda>dbs.
       let t1 = add_costs (\<lambda>a. billable (app_release a) (app_status a)) (\<lambda>a. hourly ps (app_cpu a) (app_memory_mb a)) apps 0;
           t2 = add_costs (\<lambda>v. billable (svc_release v) (svc_status v)) (\<lambda>v. hourly ps (svc_cpu v) (svc_memory_mb v)) svcs t1;
           t3 = add_costs (\<lambda>d. billable (db_release d) (db_status d)) (\<lambda>d. hourly ps (db_cpu d) (db_memory_mb d)) dbs t2
       in okE t3))))"

definition org_storage_hourly_cost :: "'s bstore \<Rightarrow> string \<Rightarrow> (berr, 's, real) op" where
  "org_storage_hourly_cost st org_i =
     bindE (price_map st) (\<lambda>ps.
       let rate = price ps price_key_storage
       in if rate \<le> 0 then okE 0
          else bindE (lift_store (bs_list_databases_by_org st org_i)) (\<lambda>dbs.
                 okE (add_costs (\<lambda>d. db_storage_gb d > 0 \<and> billable (db_release d) (db_status d))
                        (\<lambda>d. of_int (db_storage_gb d) * rate) dbs 0)))"

definition org_monthly_estimate_cents :: "'s bstore \<Rightarrow> string \<Rightarrow> (berr, 's, int) op" where
  "org_monthly_estimate_cents st org_i = bindE (org_hourly_cost st org_i) (\<lambda>h. okE (to_month_cents h))"

section \<open>What the store's contents say\<close>

text \<open>The price of a component: its row when it is active, else nothing is charged.\<close>

definition live_price :: "mem \<Rightarrow> string \<Rightarrow> real" where
  "live_price v k =
     (case gget (st_pricing v) k of Some c \<Rightarrow> if pc_active c then pc_price_per_hour c else 0 | None \<Rightarrow> 0)"

definition size_cost :: "mem \<Rightarrow> real \<Rightarrow> int \<Rightarrow> real" where
  "size_cost v cpu mem_mb =
     cpu * live_price v price_key_cpu + (of_int mem_mb / 1024) * live_price v price_key_memory"

definition compute_cost :: "mem \<Rightarrow> string \<Rightarrow> real" where
  "compute_cost v i =
     (\<Sum>a\<leftarrow>filter (\<lambda>a. app_org_id a = i \<and> billable (app_release a) (app_status a)) (gvals (st_apps v)).
         size_cost v (app_cpu a) (app_memory_mb a))
     + (\<Sum>a\<leftarrow>filter (\<lambda>a. svc_org_id a = i \<and> billable (svc_release a) (svc_status a)) (gvals (st_services v)).
         size_cost v (svc_cpu a) (svc_memory_mb a))
     + (\<Sum>a\<leftarrow>filter (\<lambda>a. db_org_id a = i \<and> billable (db_release a) (db_status a)) (gvals (st_databases v)).
         size_cost v (db_cpu a) (db_memory_mb a))"

definition storage_cost :: "mem \<Rightarrow> string \<Rightarrow> real" where
  "storage_cost v i =
     (if live_price v price_key_storage \<le> 0 then 0
      else \<Sum>a\<leftarrow>filter (\<lambda>a. db_org_id a = i \<and> db_storage_gb a > 0 \<and> billable (db_release a) (db_status a))
              (gvals (st_databases v)). of_int (db_storage_gb a) * live_price v price_key_storage)"

lemma add_costs_sum: "add_costs ok cost ws tot = tot + (\<Sum>w\<leftarrow>filter ok ws. cost w)"
  unfolding add_costs_def by (induction ws arbitrary: tot) auto

interpretation plan_order: slice_order "\<lambda>a b. plan_sort_order a < plan_sort_order b"
  by (rule slice_order_key)

interpretation price_order: slice_order "\<lambda>a b. pc_sort_order a < pc_sort_order b"
  by (rule slice_order_key)

lemma fold_put_get:
  assumes "distinct (map pc_key cs)"
  shows "gget (fold (\<lambda>c. gput (pc_key c) (pc_price_per_hour c)) cs m) k =
     (case find (\<lambda>c. pc_key c = k) cs of Some c \<Rightarrow> Some (pc_price_per_hour c) | None \<Rightarrow> gget m k)"
  using assms
proof (induction cs arbitrary: m)
  case (Cons c cs)
  have "find (\<lambda>d. pc_key d = k) cs = None" if "pc_key c = k"
    using Cons.prems that by (auto simp: find_None_iff image_iff)
  then show ?case using Cons by (auto split: option.splits)
qed simp

lemma find_unique:
  assumes "distinct (map key cs)" "c \<in> set cs" "key c = k"
  shows "find (\<lambda>c. key c = k) cs = Some c"
  using assms by (induction cs) auto

lemma price_of_components:
  assumes "keyed pc_key t"
  shows "price (fold (\<lambda>c. gput (pc_key c) (pc_price_per_hour c))
            (sort_by (\<lambda>a b. pc_sort_order a < pc_sort_order b) (filter pc_active (gvals t))) []) k =
     (case gget t k of Some c \<Rightarrow> if pc_active c then pc_price_per_hour c else 0 | None \<Rightarrow> 0)"
proof -
  let ?cs = "sort_by (\<lambda>a b. pc_sort_order a < pc_sort_order b) (filter pc_active (gvals t))"
  have "distinct (map pc_key (filter pc_active (gvals t)))"
    using keyed_vals_distinct [OF assms] by (rule distinct_map_filter)
  then have d: "distinct (map pc_key ?cs)"
    by (metis mset_eq_imp_distinct_iff mset_map mset_sort_by)
  have mem: "c \<in> set ?cs \<longleftrightarrow> pc_active c \<and> gget t (pc_key c) = Some c" for c
    using keyed_vals [OF assms] by auto
  show ?thesis
  proof (cases "\<exists>c. gget t k = Some c \<and> pc_active c")
    case True
    then obtain c where c: "gget t k = Some c" "pc_active c" by auto
    then have "pc_key c = k" using assms by (simp add: keyed_def)
    with c mem [of c] d have "find (\<lambda>c. pc_key c = k) ?cs = Some c" by (intro find_unique) simp_all
    with c show ?thesis by (simp add: price_def fold_put_get [OF d])
  next
    case False
    then have "find (\<lambda>c. pc_key c = k) ?cs = None"
      using mem by (auto simp: find_None_iff)
    with False show ?thesis by (auto simp: price_def fold_put_get [OF d] split: option.splits)
  qed
qed

section \<open>The answers\<close>

text \<open>\<open>answers\<close>: a call that only reads, and whose answer is a function of what is stored.\<close>

definition answers :: "('s \<Rightarrow> mem) \<Rightarrow> (mem \<Rightarrow> bool) \<Rightarrow> (berr, 's, 'a) op \<Rightarrow> (mem \<Rightarrow> 'a) \<Rightarrow> bool" where
  "answers view I m f \<longleftrightarrow>
     (\<forall>s. view (snd (m s)) = view s \<and>
       (case fst (m s) of
          Inr x \<Rightarrow> I (view s) \<longrightarrow> x = f (view s)
        | Inl e \<Rightarrow> \<exists>d. e = BStore d \<and> driver_error d))"

lemma answers_ok: "(\<And>v. I v \<Longrightarrow> x = f v) \<Longrightarrow> answers view I (okE x) f"
  by (simp add: answers_def okE_def)

lemma answers_bind:
  assumes "answers view I m f" "\<And>x. answers view (\<lambda>v. I v \<and> x = f v) (k x) g"
  shows "answers view I (bindE m k) g"
  unfolding answers_def
proof
  fix s
  obtain r t where m: "m s = (r, t)" by fastforce
  show "view (snd (bindE m k s)) = view s \<and>
      (case fst (bindE m k s) of Inr x \<Rightarrow> I (view s) \<longrightarrow> x = g (view s)
       | Inl e \<Rightarrow> \<exists>d. e = BStore d \<and> driver_error d)"
  proof (cases r)
    case (Inl e)
    then show ?thesis using assms(1) m unfolding answers_def
      by (auto simp: bindE_def dest!: spec [of _ s])
  next
    case (Inr x)
    have v: "view t = view s" and x: "I (view s) \<longrightarrow> x = f (view s)"
      using assms(1) m Inr unfolding answers_def by (auto dest!: spec [of _ s])
    have "view (snd (k x t)) = view t \<and>
        (case fst (k x t) of Inr y \<Rightarrow> I (view t) \<and> x = f (view t) \<longrightarrow> y = g (view t)
         | Inl e \<Rightarrow> \<exists>d. e = BStore d \<and> driver_error d)"
      using assms(2) [of x] unfolding answers_def by blast
    then show ?thesis using v x m Inr by (auto simp: bindE_def split: sum.splits)
  qed
qed

lemma answers_store:
  assumes "follows view m (readE r)" "\<And>v. r v = Inr (f v)"
  shows "answers view I (lift_store m) f"
  unfolding answers_def
proof
  fix s
  obtain q t where m: "m s = (q, t)" by fastforce
  show "view (snd (lift_store m s)) = view s \<and>
      (case fst (lift_store m s) of Inr x \<Rightarrow> I (view s) \<longrightarrow> x = f (view s)
       | Inl e \<Rightarrow> \<exists>d. e = BStore d \<and> driver_error d)"
  proof (cases q)
    case (Inl e)
    then show ?thesis using follows_read_Inl [OF assms(1), of s e t] m assms(2)
      by (simp add: lift_store_def tryE_def failE_def)
  next
    case (Inr x)
    then show ?thesis using follows_read_Inr [OF assms(1), of s x t] m assms(2)
      by (auto simp: lift_store_def tryE_def okE_def)
  qed
qed

lemma hourly_size_cost:
  assumes "billing_wf v"
    and "ps = fold (\<lambda>c. gput (pc_key c) (pc_price_per_hour c))
            (sort_by (\<lambda>a b. pc_sort_order a < pc_sort_order b) (filter pc_active (gvals (st_pricing v)))) []"
  shows "price ps k = live_price v k" and "hourly ps = size_cost v"
proof -
  have k: "keyed pc_key (st_pricing v)" using assms(1) by (simp add: billing_wf_def)
  show p: "price ps k = live_price v k" for k
    unfolding assms(2) live_price_def by (rule price_of_components [OF k])
  show "hourly ps = size_cost v"
    by (intro ext) (simp add: hourly_def size_cost_def p)
qed

context faithful_store
begin

lemma pricing_components_answers:
  "answers view I (pricing_components st)
     (\<lambda>v. sort_by (\<lambda>a b. pc_sort_order a < pc_sort_order b) (filter pc_active (gvals (st_pricing v))))"
  unfolding pricing_components_def
  by (rule answers_bind answers_store [OF pricing] answers_ok | simp add: list_pricing_components_def)+

lemma price_map_answers:
  "answers view I (price_map st)
     (\<lambda>v. fold (\<lambda>c. gput (pc_key c) (pc_price_per_hour c))
            (sort_by (\<lambda>a b. pc_sort_order a < pc_sort_order b) (filter pc_active (gvals (st_pricing v)))) [])"
  unfolding price_map_def
  by (rule answers_bind pricing_components_answers answers_ok | simp)+

lemma apps_answer:
  "answers view I (lift_store (bs_list_apps_by_org st i)) (\<lambda>v. filter (\<lambda>a. app_org_id a = i) (gvals (st_apps v)))"
  by (rule answers_store [OF apps]) (simp add: list_apps_by_org_def)

lemma services_answer:
  "answers view I (lift_store (bs_list_services_by_org st i)) (\<lambda>v. filter (\<lambda>a. svc_org_id a = i) (gvals (st_services v)))"
  by (rule answers_store [OF services]) (simp add: list_services_by_org_def)

lemma databases_answer:
  "answers view I (lift_store (bs_list_databases_by_org st i)) (\<lambda>v. filter (\<lambda>a. db_org_id a = i) (gvals (st_databases v)))"
  by (rule answers_store [OF databases]) (simp add: list_databases_by_org_def)

lemma org_hourly_cost_answers:
  "answers view billing_wf (org_hourly_cost st i) (\<lambda>v. compute_cost v i)"
  unfolding org_hourly_cost_def
  apply (rule answers_bind [OF price_map_answers])
  apply (rule answers_bind [OF apps_answer])
  apply (rule answers_bind [OF services_answer])
  apply (rule answers_bind [OF databases_answer])
  apply (simp only: Let_def)
  apply (rule answers_ok)
  apply (simp add: add_costs_sum compute_cost_def filter_filter hourly_size_cost(2) conj_commute)
  done

lemma org_storage_hourly_cost_answers:
  "answers view billing_wf (org_storage_hourly_cost st i) (\<lambda>v. storage_cost v i)"
  unfolding org_storage_hourly_cost_def
proof (rule answers_bind [OF price_map_answers], goal_cases)
  case (1 ps)
  let ?I = "\<lambda>v. billing_wf v \<and> ps = fold (\<lambda>c. gput (pc_key c) (pc_price_per_hour c))
            (sort_by (\<lambda>a b. pc_sort_order a < pc_sort_order b) (filter pc_active (gvals (st_pricing v)))) []"
  have rate: "price ps price_key_storage = live_price v price_key_storage" if "?I v" for v
    using that by (intro hourly_size_cost(1)) simp_all
  show ?case
  proof (cases "price ps price_key_storage \<le> 0")
    case True
    then have "answers view ?I (okE 0) (\<lambda>v. storage_cost v i)"
      using rate by (intro answers_ok) (simp add: storage_cost_def)
    with True show ?thesis by (simp only: Let_def if_True)
  next
    case False
    then have "answers view ?I (bindE (lift_store (bs_list_databases_by_org st i)) (\<lambda>dbs.
                 okE (add_costs (\<lambda>d. db_storage_gb d > 0 \<and> billable (db_release d) (db_status d))
                        (\<lambda>d. of_int (db_storage_gb d) * price ps price_key_storage) dbs 0))) (\<lambda>v. storage_cost v i)"
      using rate
      by (intro answers_bind [OF databases_answer] answers_ok)
        (simp add: storage_cost_def add_costs_sum conj_ac)
    with False show ?thesis by (simp only: Let_def if_False)
  qed
qed

end

end
