(* ===== verification/Metering.thy ===== *)
theory Metering
  imports Billing_Pricing
begin

text \<open>
  The hourly meter (\<open>MeterUsage\<close> and its helpers in \<open>billing/pricing.go\<close>): which hours a tick
  meters, what it writes for an organization and an hour, how a failure keeps the watermark
  back, and the recording of egress. The clock is an argument, and so is the answer of
  \<open>ctx.Err()\<close> before each organization of each hour.
\<close>

section \<open>Bucket ids\<close>

definition meter_bucket_id :: "string \<Rightarrow> time \<Rightarrow> string" where
  "meter_bucket_id org_i hour = ''meter-'' @ org_i @ ''-'' @ hour_stamp hour"

definition dim_bucket_id :: "string \<Rightarrow> string \<Rightarrow> time \<Rightarrow> string" where
  "dim_bucket_id org_i metric hour = ''meter-'' @ metric @ ''-'' @ org_i @ ''-'' @ hour_stamp hour"

section \<open>One organization, one hour\<close>

definition to_micro_cents :: "real \<Rightarrow> int" where
  "to_micro_cents h = math_round (h * 100 * 1000)"

definition write_cost_bucket ::
    "'s bstore \<Rightarrow> string \<Rightarrow> string \<Rightarrow> string \<Rightarrow> real \<Rightarrow> time \<Rightarrow> (berr, 's, int) op" where
  "write_cost_bucket st i org_i metric h hour =
     (let micro = to_micro_cents h
      in if micro \<le> 0 then okE 0
         else bindE (lift_store (bs_add_usage_if_absent st
                \<lparr>ur_id = i, ur_org_id = org_i, ur_metric = metric, ur_quantity = micro, ur_at = hour\<rparr>))
              (\<lambda>inserted. okE (if inserted then 1 else 0)))"

definition meter_org_hour :: "'s bstore \<Rightarrow> string \<Rightarrow> time \<Rightarrow> (berr, 's, int) op" where
  "meter_org_hour st org_i hour =
     bindE (org_hourly_cost st org_i) (\<lambda>compute.
     bindE (write_cost_bucket st (meter_bucket_id org_i hour) org_i meter_metric compute hour) (\<lambda>n1.
     bindE (org_storage_hourly_cost st org_i) (\<lambda>storage.
     bindE (write_cost_bucket st (dim_bucket_id org_i meter_metric_storage hour) org_i
              meter_metric_storage storage hour) (\<lambda>n2.
     okE (n1 + n2)))))"

section \<open>The hours of a tick\<close>

definition max_catchup_hours :: nat where "max_catchup_hours = 48"

text \<open>The loop \<open>for h := last+1h; !h.After(current); h += 1h\<close>, which breaks after 48 hours.\<close>

fun hours_from :: "nat \<Rightarrow> time \<Rightarrow> time \<Rightarrow> time list" where
  "hours_from 0 h cur = []"
| "hours_from (Suc n) h cur = (if h > cur then [] else h # hours_from n (h + hour_ns) cur)"

definition hours_after :: "time \<Rightarrow> time \<Rightarrow> time list" where
  "hours_after last_hour cur =
     (if is_zero last_hour \<or> \<not> last_hour < cur then (if last_hour = cur then [] else [cur])
      else hours_from max_catchup_hours (last_hour + hour_ns) cur)"

definition hours_to_meter :: "'s bstore \<Rightarrow> time \<Rightarrow> (berr, 's, time list) op" where
  "hours_to_meter st cur =
     tryE (bs_get_meter_state st)
       (\<lambda>e. okE (hours_after zero_time cur))
       (\<lambda>m. okE (hours_after (truncate_hour (ms_last_metered_hour m)) cur))"

section \<open>The tick\<close>

definition or_first :: "berr option \<Rightarrow> berr \<Rightarrow> berr option" where
  "or_first fe e = (case fe of None \<Rightarrow> Some e | Some _ \<Rightarrow> fe)"

text \<open>
  The inner loop over the organizations: the records written, the first error, whether the
  hour is complete, and whether the context ended the whole tick.
\<close>

record hour_acc =
  ha_written :: int
  ha_first_err :: "berr option"
  ha_hour_ok :: bool
  ha_canceled :: bool

fun meter_orgs ::
    "'s bstore \<Rightarrow> (time \<Rightarrow> string \<Rightarrow> string option) \<Rightarrow> time \<Rightarrow> organization list \<Rightarrow> hour_acc \<Rightarrow> 's \<Rightarrow> hour_acc \<times> 's" where
  "meter_orgs st ctx hour [] a s = (a, s)"
| "meter_orgs st ctx hour (g # gs) a s =
     (case ctx hour (org_id g) of
        Some c \<Rightarrow> (a\<lparr>ha_first_err := or_first (ha_first_err a) (BCanceled c), ha_canceled := True\<rparr>, s)
      | None \<Rightarrow>
          (case meter_org_hour st (org_id g) hour s of
             (Inl e, t) \<Rightarrow>
               meter_orgs st ctx hour gs
                 (a\<lparr>ha_first_err := or_first (ha_first_err a) e, ha_hour_ok := False\<rparr>) t
           | (Inr n, t) \<Rightarrow>
               meter_orgs st ctx hour gs (a\<lparr>ha_written := ha_written a + n\<rparr>) t))"

text \<open>The outer loop: \<open>lastDone\<close> moves while every hour so far was complete.\<close>

record tick_acc =
  ta_written :: int
  ta_first_err :: "berr option"
  ta_last_done :: time
  ta_fully_ok :: bool

fun meter_hours ::
    "'s bstore \<Rightarrow> (time \<Rightarrow> string \<Rightarrow> string option) \<Rightarrow> organization list \<Rightarrow> time list \<Rightarrow> tick_acc \<Rightarrow> 's \<Rightarrow> tick_acc \<times> 's" where
  "meter_hours st ctx gs [] a s = (a, s)"
| "meter_hours st ctx gs (h # hs) a s =
     (let (b, t) = meter_orgs st ctx h gs
                     \<lparr>ha_written = ta_written a, ha_first_err = ta_first_err a, ha_hour_ok = True,
                      ha_canceled = False\<rparr> s;
          c = a\<lparr>ta_written := ha_written b, ta_first_err := ha_first_err b\<rparr>
      in if ha_canceled b then (c, t)
         else meter_hours st ctx gs hs
                (if ta_fully_ok a \<and> ha_hour_ok b then c\<lparr>ta_last_done := h\<rparr>
                 else c\<lparr>ta_fully_ok := False\<rparr>) t)"

definition persist_and_return :: "'s bstore \<Rightarrow> time \<Rightarrow> berr option \<Rightarrow> 's \<Rightarrow> berr option \<times> 's" where
  "persist_and_return st last_done fe s =
     (if is_zero last_done then (fe, s)
      else case bs_set_meter_state st \<lparr>ms_last_metered_hour = last_done\<rparr> s of
             (Inl e, t) \<Rightarrow> (or_first fe (BStore e), t)
           | (Inr _, t) \<Rightarrow> (fe, t))"

text \<open>The Go method returns the count and the error together.\<close>

definition meter_usage ::
    "'s bstore \<Rightarrow> (time \<Rightarrow> string \<Rightarrow> string option) \<Rightarrow> time \<Rightarrow> 's \<Rightarrow> (int \<times> berr option) \<times> 's" where
  "meter_usage st ctx now s =
     (case bs_list_all_orgs st s of
        (Inl e, s1) \<Rightarrow> ((0, Some (BStore e)), s1)
      | (Inr gs, s1) \<Rightarrow>
          (let cur = truncate_hour now;
               (hr, s2) = hours_to_meter st cur s1;
               hs = (case hr of Inr hs \<Rightarrow> hs | Inl _ \<Rightarrow> []);
               (a, s3) = meter_hours st ctx gs hs
                           \<lparr>ta_written = 0, ta_first_err = None, ta_last_done = zero_time, ta_fully_ok = True\<rparr> s2;
               (err, s4) = persist_and_return st (ta_last_done a) (ta_first_err a) s3
           in ((ta_written a, err), s4)))"

text \<open>Egress: \<open>fresh\<close> is the id \<open>idgen\<close> returns.\<close>

definition record_egress_gb :: "'s bstore \<Rightarrow> string \<Rightarrow> time \<Rightarrow> string \<Rightarrow> real \<Rightarrow> (berr, 's, unit) op" where
  "record_egress_gb st fresh now org_i gb =
     (if gb \<le> 0 then okE ()
      else bindE (price_map st) (\<lambda>ps.
             let rate = price ps price_key_egress
             in if rate \<le> 0 then okE ()
                else let micro = math_round (gb * rate * 100 * 1000)
                     in if micro \<le> 0 then okE ()
                        else lift_store (bs_add_usage st
                               \<lparr>ur_id = fresh, ur_org_id = org_i, ur_metric = meter_metric_egress,
                                ur_quantity = micro, ur_at = now\<rparr>)))"

section \<open>What a tick may write\<close>

definition compute_record :: "mem \<Rightarrow> string \<Rightarrow> time \<Rightarrow> usage_record" where
  "compute_record v i h =
     \<lparr>ur_id = meter_bucket_id i h, ur_org_id = i, ur_metric = meter_metric,
      ur_quantity = to_micro_cents (compute_cost v i), ur_at = h\<rparr>"

definition storage_record :: "mem \<Rightarrow> string \<Rightarrow> time \<Rightarrow> usage_record" where
  "storage_record v i h =
     \<lparr>ur_id = dim_bucket_id i meter_metric_storage h, ur_org_id = i, ur_metric = meter_metric_storage,
      ur_quantity = to_micro_cents (storage_cost v i), ur_at = h\<rparr>"

text \<open>
  \<open>meters H v w\<close>: \<open>w\<close> comes from \<open>v\<close> by inserting, if absent, buckets that are due for hours
  of \<open>H\<close> at the costs \<open>v\<close> says. The only writes of a tick besides the watermark are of this
  kind, whatever fails.
\<close>

inductive meters :: "time set \<Rightarrow> mem \<Rightarrow> mem \<Rightarrow> bool" for H v where
  meters_none: "meters H v v"
| meters_put: "meters H v w \<Longrightarrow> r = compute_record v i h \<or> r = storage_record v i h \<Longrightarrow>
    h \<in> H \<Longrightarrow> 0 < ur_quantity r \<Longrightarrow> meters H v (snd (add_usage_if_absent r w))"

inductive_cases metersE: "meters H v w"

lemma add_if_absent_frame [simp]:
  "st_apps (snd (add_usage_if_absent r v)) = st_apps v"
  "st_services (snd (add_usage_if_absent r v)) = st_services v"
  "st_databases (snd (add_usage_if_absent r v)) = st_databases v"
  "st_pricing (snd (add_usage_if_absent r v)) = st_pricing v"
  "st_organizations (snd (add_usage_if_absent r v)) = st_organizations v"
  "st_meter_state (snd (add_usage_if_absent r v)) = st_meter_state v"
  "st_subscriptions (snd (add_usage_if_absent r v)) = st_subscriptions v"
  by (simp_all add: add_usage_if_absent_def)

lemma costs_frame:
  assumes "st_apps w = st_apps v" "st_services w = st_services v" "st_databases w = st_databases v"
    "st_pricing w = st_pricing v"
  shows "compute_cost w i = compute_cost v i" "storage_cost w i = storage_cost v i"
proof -
  have "live_price w = live_price v" "size_cost w = size_cost v"
    using assms by (auto simp: live_price_def size_cost_def intro!: ext)
  then show "compute_cost w i = compute_cost v i" "storage_cost w i = storage_cost v i"
    using assms by (simp_all add: compute_cost_def storage_cost_def)
qed

lemma records_frame:
  assumes "st_apps w = st_apps v" "st_services w = st_services v" "st_databases w = st_databases v"
    "st_pricing w = st_pricing v"
  shows "compute_record w = compute_record v" "storage_record w = storage_record v"
  using costs_frame [OF assms] by (auto simp: compute_record_def storage_record_def intro!: ext)

lemma meters_frame:
  assumes "meters H v w"
  shows "st_apps w = st_apps v \<and> st_services w = st_services v \<and> st_databases w = st_databases v \<and>
    st_pricing w = st_pricing v \<and> st_organizations w = st_organizations v \<and>
    st_meter_state w = st_meter_state v \<and> st_subscriptions w = st_subscriptions v"
  using assms by induction auto

lemma meters_billing_wf: "meters H v w \<Longrightarrow> billing_wf v \<Longrightarrow> billing_wf w"
  by (induction rule: meters.induct) (auto intro: keepsD [OF billing_keeps_usage(2)])

lemma meters_ids_unique: "meters H v w \<Longrightarrow> usage_ids_unique v \<Longrightarrow> usage_ids_unique w"
  by (induction rule: meters.induct) (auto intro: keepsD [OF add_if_absent_unique])

lemma meters_trans: "meters H w x \<Longrightarrow> meters H v w \<Longrightarrow> meters H v x"
proof (induction rule: meters.induct)
  case (meters_put x r i h)
  have "compute_record w = compute_record v" "storage_record w = storage_record v"
    using meters_frame [OF meters_put.prems] by (auto intro!: records_frame)
  then show ?case using meters_put by (metis meters.meters_put)
qed

lemma meters_mono: "meters H v w \<Longrightarrow> H \<subseteq> K \<Longrightarrow> meters K v w"
  by (induction rule: meters.induct) (auto intro: meters.intros)

text \<open>Old records stay where they are; new ones are due buckets, with the amount due.\<close>

definition due :: "time set \<Rightarrow> mem \<Rightarrow> usage_record \<Rightarrow> bool" where
  "due H v r \<longleftrightarrow> 0 < ur_quantity r \<and>
     (\<exists>i. \<exists>h\<in>H. r = compute_record v i h \<or> r = storage_record v i h)"

lemma meters_usage:
  assumes "meters H v w"
  shows "\<exists>new. usage_of i w = usage_of i v @ new \<and> list_all (due H v) new"
  using assms
proof induction
  case (meters_put w r j h)
  then obtain new where "usage_of i w = usage_of i v @ new" "list_all (due H v) new" by auto
  moreover have "due H v r" using meters_put by (auto simp: due_def)
  ultimately show ?case by (auto simp: usage_of_add_if_absent)
qed simp

section \<open>Coverage\<close>

definition has_bucket :: "mem \<Rightarrow> string \<Rightarrow> string \<Rightarrow> bool" where
  "has_bucket v i b \<longleftrightarrow> list_ex (\<lambda>r. ur_id r = b) (usage_of i v)"

text \<open>Every dimension of the organization that costs something is recorded for the hour.\<close>

definition covered :: "mem \<Rightarrow> string \<Rightarrow> time \<Rightarrow> bool" where
  "covered v i h \<longleftrightarrow>
     (0 < to_micro_cents (compute_cost v i) \<longrightarrow> has_bucket v i (meter_bucket_id i h)) \<and>
     (0 < to_micro_cents (storage_cost v i) \<longrightarrow> has_bucket v i (dim_bucket_id i meter_metric_storage h))"

lemma has_bucket_meters: "meters H v w \<Longrightarrow> has_bucket v i b \<Longrightarrow> has_bucket w i b"
  using meters_usage [of H v w i] by (auto simp: has_bucket_def)

lemma covered_meters:
  assumes "meters H v w" "covered v i h"
  shows "covered w i h"
proof -
  have "compute_cost w i = compute_cost v i" "storage_cost w i = storage_cost v i"
    using meters_frame [OF assms(1)] by (auto intro!: costs_frame)
  then show ?thesis using assms(2) has_bucket_meters [OF assms(1)] by (auto simp: covered_def)
qed

lemma has_bucket_put: "has_bucket (snd (add_usage_if_absent r v)) (ur_org_id r) (ur_id r)"
  by (auto simp: has_bucket_def usage_of_add_if_absent list_ex_iff)

text \<open>
  The last hour done is the end of a completely covered prefix of the hours; nothing moves it
  once an hour had a failure.
\<close>

definition done_prefix :: "organization list \<Rightarrow> time list \<Rightarrow> time \<Rightarrow> time \<Rightarrow> mem \<Rightarrow> bool" where
  "done_prefix gs hs before last_done v \<longleftrightarrow>
     (\<exists>k \<le> length hs. last_done = (if k = 0 then before else hs ! (k - 1)) \<and>
        (\<forall>h\<in>set (take k hs). \<forall>g\<in>set gs. covered v (org_id g) h))"

section \<open>A tick on any faithful store\<close>

context faithful_store
begin

lemma write_bucket:
  assumes "write_cost_bucket st b i m c h s = (r, t)"
    and "u = \<lparr>ur_id = b, ur_org_id = i, ur_metric = m, ur_quantity = to_micro_cents c, ur_at = h\<rparr>"
  shows "view t = view s \<or> (0 < ur_quantity u \<and> view t = snd (add_usage_if_absent u (view s)))"
    and "r = Inr n \<Longrightarrow> 0 < ur_quantity u \<Longrightarrow> view t = snd (add_usage_if_absent u (view s))"
proof -
  obtain q s' where q: "bs_add_usage_if_absent st u s = (q, s')" by fastforce
  have run: "(r, t) = (if to_micro_cents c \<le> 0 then (Inr 0, s)
      else case q of Inl e \<Rightarrow> (Inl (BStore e), s') | Inr x \<Rightarrow> (Inr (if x then 1 else 0), s'))"
    unfolding assms(1) [symmetric] write_cost_bucket_def
    by (simp add: q [unfolded assms(2)] lift_store_def bindE_def tryE_def okE_def failE_def Let_def split: sum.splits)
  have "view s' \<in> {view s, snd (add_usage_if_absent u (view s))}"
    using follows_effect [OF usage_if_absent, of u s] q by simp
  then show "view t = view s \<or> (0 < ur_quantity u \<and> view t = snd (add_usage_if_absent u (view s)))"
    using run by (auto simp: assms(2) split: if_splits sum.splits)
  assume r: "r = Inr n" and pos: "0 < ur_quantity u"
  then have "0 < to_micro_cents c" by (simp add: assms(2))
  with r run obtain x where x: "q = Inr x" "t = s'" by (auto split: sum.splits)
  then have "add_usage_if_absent u (view s) = (Inr x, view s')"
    using follows_Inr [OF usage_if_absent] q by blast
  then show "view t = snd (add_usage_if_absent u (view s))" using x by simp
qed

lemma org_hourly_cost_view:
  assumes "org_hourly_cost st i s = (r, t)"
  shows "view t = view s" and "r = Inr c \<Longrightarrow> billing_wf (view s) \<Longrightarrow> c = compute_cost (view s) i"
  using org_hourly_cost_answers [of i] assms unfolding answers_def by (auto dest!: spec [of _ s])

lemma org_storage_hourly_cost_view:
  assumes "org_storage_hourly_cost st i s = (r, t)"
  shows "view t = view s" and "r = Inr c \<Longrightarrow> billing_wf (view s) \<Longrightarrow> c = storage_cost (view s) i"
  using org_storage_hourly_cost_answers [of i] assms unfolding answers_def by (auto dest!: spec [of _ s])

lemma write_compute:
  assumes "write_cost_bucket st (meter_bucket_id i h) i meter_metric (compute_cost (view s) i) h s = (r, t)"
  shows "meters {h} (view s) (view t)"
    and "r = Inr n \<Longrightarrow> 0 < to_micro_cents (compute_cost (view s) i) \<Longrightarrow>
           has_bucket (view t) i (meter_bucket_id i h)"
proof -
  note wb = write_bucket [OF assms refl]
  have due: "meters {h} (view s) (snd (add_usage_if_absent (compute_record (view s) i h) (view s)))"
    if "0 < ur_quantity (compute_record (view s) i h)"
    using that by (intro meters_put [OF meters_none]) auto
  show "meters {h} (view s) (view t)"
    using wb(1) due by (auto simp: compute_record_def intro: meters_none)
  assume "r = Inr n" "0 < to_micro_cents (compute_cost (view s) i)"
  then show "has_bucket (view t) i (meter_bucket_id i h)"
    using wb(2) has_bucket_put [of "compute_record (view s) i h" "view s"]
    by (simp add: compute_record_def)
qed

lemma write_storage:
  assumes "write_cost_bucket st (dim_bucket_id i meter_metric_storage h) i meter_metric_storage
      (storage_cost (view s) i) h s = (r, t)"
  shows "meters {h} (view s) (view t)"
    and "r = Inr n \<Longrightarrow> 0 < to_micro_cents (storage_cost (view s) i) \<Longrightarrow>
           has_bucket (view t) i (dim_bucket_id i meter_metric_storage h)"
proof -
  note wb = write_bucket [OF assms refl]
  have due: "meters {h} (view s) (snd (add_usage_if_absent (storage_record (view s) i h) (view s)))"
    if "0 < ur_quantity (storage_record (view s) i h)"
    using that by (intro meters_put [OF meters_none]) auto
  show "meters {h} (view s) (view t)"
    using wb(1) due by (auto simp: storage_record_def intro: meters_none)
  assume "r = Inr n" "0 < to_micro_cents (storage_cost (view s) i)"
  then show "has_bucket (view t) i (dim_bucket_id i meter_metric_storage h)"
    using wb(2) has_bucket_put [of "storage_record (view s) i h" "view s"]
    by (simp add: storage_record_def)
qed

text \<open>Whatever fails, one organization's hour only inserts due buckets; success covers it.\<close>

lemma meter_org_hour_view:
  assumes "meter_org_hour st i h s = (r, t)" "billing_wf (view s)"
  shows "meters {h} (view s) (view t) \<and> (\<forall>n. r = Inr n \<longrightarrow> covered (view t) i h)"
proof -
  obtain r1 s1 where c1: "org_hourly_cost st i s = (r1, s1)" by fastforce
  note v1 = org_hourly_cost_view [OF c1]
  show ?thesis
  proof (cases r1)
    case (Inl e)
    then show ?thesis using assms(1) c1 v1(1) by (auto simp: meter_org_hour_def bindE_def intro: meters_none)
  next
    case c: (Inr c)
    then have c_eq: "c = compute_cost (view s1) i" using v1 assms(2) by simp
    obtain r2 s2 where c2: "write_cost_bucket st (meter_bucket_id i h) i meter_metric c h s1 = (r2, s2)" by fastforce
    note w2 = write_compute [OF c2 [unfolded c_eq]]
    show ?thesis
    proof (cases r2)
      case (Inl e)
      then show ?thesis using assms(1) c1 c c2 v1(1) w2(1) by (auto simp: meter_org_hour_def bindE_def)
    next
      case n: (Inr n1)
      obtain r3 s3 where c3: "org_storage_hourly_cost st i s2 = (r3, s3)" by fastforce
      note v3 = org_storage_hourly_cost_view [OF c3]
      have wf2: "billing_wf (view s2)" using w2(1) assms(2) v1(1) by (auto dest: meters_billing_wf)
      show ?thesis
      proof (cases r3)
        case (Inl e)
        then show ?thesis using assms(1) c1 c c2 n c3 v1(1) v3(1) w2(1)
          by (auto simp: meter_org_hour_def bindE_def)
      next
        case d: (Inr d)
        then have d_eq: "d = storage_cost (view s3) i" using v3 wf2 by simp
        obtain r4 s4 where c4: "write_cost_bucket st (dim_bucket_id i meter_metric_storage h) i
            meter_metric_storage d h s3 = (r4, s4)" by fastforce
        note w4 = write_storage [OF c4 [unfolded d_eq]]
        have t: "t = s4" using assms(1) c1 c c2 n c3 d c4
          by (auto simp: meter_org_hour_def bindE_def okE_def split: sum.splits)
        have m: "meters {h} (view s) (view s4)"
          using meters_trans [OF w4(1)] w2(1) v1(1) v3(1) by simp
        have "covered (view s4) i h" if r: "r = Inr k" for k
        proof -
          obtain n2 where n2: "r4 = Inr n2" using r assms(1) c1 c c2 n c3 d c4
            by (auto simp: meter_org_hour_def bindE_def okE_def split: sum.splits)
          have costs: "compute_cost (view s4) i = compute_cost (view s1) i"
            "storage_cost (view s4) i = storage_cost (view s3) i"
            using meters_frame [OF m] meters_frame [OF w4(1)] v1(1) by (auto intro!: costs_frame)
          show ?thesis unfolding covered_def costs
            using w2(2) [OF n] w4(2) [OF n2] has_bucket_meters [OF w4(1)] v3(1) by simp
        qed
        with m t show ?thesis by simp
      qed
    qed
  qed
qed

lemma meter_orgs_view:
  assumes "meter_orgs st ctx h gs a s = (b, t)" "billing_wf (view s)"
  shows "meters {h} (view s) (view t) \<and> (ha_hour_ok b \<longrightarrow> ha_hour_ok a) \<and>
    (\<not> ha_canceled b \<longrightarrow> ha_hour_ok b \<longrightarrow> (\<forall>g\<in>set gs. covered (view t) (org_id g) h))"
  using assms
proof (induction gs arbitrary: a s)
  case Nil
  then show ?case by (auto intro: meters_none)
next
  case (Cons g gs)
  show ?case
  proof (cases "ctx h (org_id g)")
    case (Some c)
    then have "view t = view s" "ha_canceled b" "ha_hour_ok b = ha_hour_ok a" using Cons.prems(1) by auto
    then show ?thesis by (simp add: meters_none)
  next
    case None
    obtain r s1 where m: "meter_org_hour st (org_id g) h s = (r, s1)" by fastforce
    note v = meter_org_hour_view [OF m Cons.prems(2)]
    have wf: "billing_wf (view s1)" using v Cons.prems(2) by (auto dest: meters_billing_wf)
    show ?thesis
    proof (cases r)
      case (Inl e)
      then have "meter_orgs st ctx h gs
          (a\<lparr>ha_first_err := or_first (ha_first_err a) e, ha_hour_ok := False\<rparr>) s1 = (b, t)"
        using Cons.prems(1) None m by simp
      from Cons.IH [OF this wf] show ?thesis using v by (auto intro: meters_trans)
    next
      case (Inr n)
      then have "meter_orgs st ctx h gs (a\<lparr>ha_written := ha_written a + n\<rparr>) s1 = (b, t)"
        using Cons.prems(1) None m by simp
      from Cons.IH [OF this wf] show ?thesis using v Inr by (auto intro: meters_trans covered_meters)
    qed
  qed
qed

lemma meter_hours_view:
  assumes "meter_hours st ctx gs hs a s = (b, t)" "billing_wf (view s)"
  shows "meters (set hs) (view s) (view t) \<and>
    (if ta_fully_ok a then done_prefix gs hs (ta_last_done a) (ta_last_done b) (view t)
     else ta_last_done b = ta_last_done a)"
  using assms
proof (induction hs arbitrary: a s)
  case Nil
  then show ?case by (auto intro: meters_none simp: done_prefix_def)
next
  case (Cons h hs)
  let ?a0 = "\<lparr>ha_written = ta_written a, ha_first_err = ta_first_err a, ha_hour_ok = True, ha_canceled = False\<rparr>"
  obtain c s1 where m: "meter_orgs st ctx h gs ?a0 s = (c, s1)" by fastforce
  note v = meter_orgs_view [OF m Cons.prems(2)]
  let ?a1 = "a\<lparr>ta_written := ha_written c, ta_first_err := ha_first_err c\<rparr>"
  let ?a2 = "if ta_fully_ok a \<and> ha_hour_ok c then ?a1\<lparr>ta_last_done := h\<rparr> else ?a1\<lparr>ta_fully_ok := False\<rparr>"
  have wf: "billing_wf (view s1)" using v Cons.prems(2) by (auto dest: meters_billing_wf)
  have none: "done_prefix gs (h # hs) x x w" for x w
    unfolding done_prefix_def by (intro exI [of _ 0]) simp
  show ?case
  proof (cases "ha_canceled c")
    case True
    then have "(b, t) = (?a1, s1)" using Cons.prems(1) m by (simp add: Let_def)
    then show ?thesis using v none by (auto intro: meters_mono)
  next
    case False
    then have run: "meter_hours st ctx gs hs ?a2 s1 = (b, t)" using Cons.prems(1) m by (simp add: Let_def)
    note IH = Cons.IH [OF run wf]
    have steps: "meters (set (h # hs)) (view s) (view t)"
      using meters_trans [OF meters_mono [OF conjunct1 [OF IH]] meters_mono [OF conjunct1 [OF v]],
          of "set (h # hs)"] by auto
    show ?thesis
    proof (cases "ta_fully_ok a \<and> ha_hour_ok c")
      case True
      then have "done_prefix gs hs h (ta_last_done b) (view t)" using IH by simp
      then obtain k where k: "k \<le> length hs" "ta_last_done b = (if k = 0 then h else hs ! (k - 1))"
        "\<forall>h\<in>set (take k hs). \<forall>g\<in>set gs. covered (view t) (org_id g) h"
        by (auto simp: done_prefix_def)
      have "covered (view t) (org_id g) h" if "g \<in> set gs" for g
        using v False True that IH by (auto intro: covered_meters)
      then have "done_prefix gs (h # hs) (ta_last_done a) (ta_last_done b) (view t)"
        unfolding done_prefix_def using k by (intro exI [of _ "Suc k"]) (auto simp: nth_Cons')
      with True steps show ?thesis by simp
    next
      case False
      then have "ta_last_done b = ta_last_done a" using IH by (auto split: if_splits)
      with steps none show ?thesis by simp
    qed
  qed
qed

end

section \<open>The hours a tick covers\<close>

lemma hours_from_nth:
  "k < length (hours_from n h cur) \<Longrightarrow> hours_from n h cur ! k = h + int k * hour_ns"
proof (induction n arbitrary: h k)
  case (Suc n)
  then show ?case by (cases k) (auto simp: algebra_simps split: if_splits)
qed simp

lemma hour_ns_pos: "0 < hour_ns"
  by (simp add: hour_ns_def)

lemma whole_gap:
  assumes "whole_hour a" "whole_hour b" "a < b"
  shows "a + hour_ns \<le> b"
proof -
  obtain p q where pq: "a = hour_ns * p" "b = hour_ns * q"
    using assms(1,2) unfolding whole_hour_def by (metis dvd_def mod_0_imp_dvd)
  then have "p < q" using assms(3) hour_ns_pos by simp
  then have "hour_ns * (p + 1) \<le> hour_ns * q" using hour_ns_pos by (intro mult_left_mono) auto
  then show ?thesis by (simp add: pq algebra_simps)
qed

lemma whole_hour_add: "whole_hour h \<Longrightarrow> whole_hour (h + int k * hour_ns)"
  by (simp add: whole_hour_def)

lemma whole_hour_next: "whole_hour h \<Longrightarrow> whole_hour (h + hour_ns)"
  using whole_hour_add [of h 1] by simp

lemma hours_from_bound: "x \<in> set (hours_from n h cur) \<Longrightarrow> h \<le> x \<and> x \<le> cur"
  by (induction n arbitrary: h) (use hour_ns_pos in \<open>auto split: if_splits, fastforce+\<close>)

lemma length_hours_from: "length (hours_from n h cur) \<le> n"
  by (induction n arbitrary: h) auto

text \<open>Every whole hour from \<open>h\<close> on is in the list up to its last element.\<close>

lemma hours_from_complete:
  assumes "whole_hour h" "whole_hour x" "h \<le> x" "x \<le> cur" "x < h + int n * hour_ns"
  shows "x \<in> set (hours_from n h cur)"
  using assms
proof (induction n arbitrary: h)
  case 0
  then show ?case by simp
next
  case (Suc n)
  show ?case
  proof (cases "x = h")
    case True
    then show ?thesis using Suc.prems by simp
  next
    case False
    have "h + hour_ns \<le> x" using whole_gap Suc.prems(1-3) False by simp
    moreover have "whole_hour (h + hour_ns)" using Suc.prems(1) by (rule whole_hour_next)
    moreover have "x < h + hour_ns + int n * hour_ns" using Suc.prems(5) by (simp add: algebra_simps)
    ultimately have "x \<in> set (hours_from n (h + hour_ns) cur)"
      using Suc.IH Suc.prems by blast
    then show ?thesis using Suc.prems by auto
  qed
qed

section \<open>The whole tick\<close>

text \<open>The hour the stored watermark stands for; the zero time when there is none.\<close>

definition watermark :: "mem \<Rightarrow> time" where
  "watermark v = (case st_meter_state v of None \<Rightarrow> zero_time | Some m \<Rightarrow> truncate_hour (ms_last_metered_hour m))"

definition org_rows :: "mem \<Rightarrow> organization list" where
  "org_rows v = gvals (st_organizations v)"

text \<open>What a tick leaves behind: due buckets for its hours, and a watermark over covered hours.\<close>

definition tick_result :: "organization list \<Rightarrow> time list \<Rightarrow> mem \<Rightarrow> mem \<Rightarrow> bool" where
  "tick_result gs hs v w \<longleftrightarrow>
     (\<exists>u. meters (set hs) v u \<and>
        (w = u \<or> (\<exists>last_done. \<not> is_zero last_done \<and> done_prefix gs hs zero_time last_done u \<and>
                    w = u\<lparr>st_meter_state := Some \<lparr>ms_last_metered_hour = last_done\<rparr>\<rparr>)))"

context faithful_store
begin

lemma hours_to_meter_view:
  assumes "hours_to_meter st cur s = (r, t)"
  shows "view t = view s"
    and "(\<exists>e. fst (bs_get_meter_state st s) = Inl e \<and> driver_error e \<and> r = Inr (hours_after zero_time cur)) \<or>
         r = Inr (hours_after (watermark (view s)) cur)"
proof -
  obtain q u where q: "bs_get_meter_state st s = (q, u)" by fastforce
  have "view u = view s" using view_reads(15) [of s] q by simp
  with assms q show "view t = view s"
    by (auto simp: hours_to_meter_def tryE_def okE_def split: sum.splits)
  show "(\<exists>e. fst (bs_get_meter_state st s) = Inl e \<and> driver_error e \<and> r = Inr (hours_after zero_time cur)) \<or>
         r = Inr (hours_after (watermark (view s)) cur)"
  proof (cases q)
    case (Inl e)
    then have r: "r = Inr (hours_after zero_time cur)"
      using assms q by (simp add: hours_to_meter_def tryE_def okE_def)
    from follows_read_Inl [OF meter_get q [unfolded Inl]]
    have "driver_error e \<or> watermark (view s) = zero_time"
      by (auto simp: get_meter_state_def watermark_def split: option.splits)
    with r q Inl show ?thesis by auto
  next
    case (Inr m)
    then have "r = Inr (hours_after (truncate_hour (ms_last_metered_hour m)) cur)"
      using assms q by (simp add: hours_to_meter_def tryE_def okE_def)
    moreover from follows_read_Inr [OF meter_get q [unfolded Inr]]
    have "st_meter_state (view s) = Some m" by (auto simp: get_meter_state_def split: option.splits)
    ultimately show ?thesis by (simp add: watermark_def)
  qed
qed

lemma meter_usage_view:
  assumes "meter_usage st ctx now s = (r, t)" "billing_wf (view s)"
    and "hours_to_meter st (truncate_hour now) (snd (bs_list_all_orgs st s)) = (Inr hs, s2)"
  shows "tick_result (org_rows (view s)) hs (view s) (view t)"
proof -
  obtain q s1 where q: "bs_list_all_orgs st s = (q, s1)" by fastforce
  have v1: "view s1 = view s" using view_reads(1) [of s] q by simp
  show ?thesis
  proof (cases q)
    case (Inl e)
    then have "t = s1" using assms(1) q by (simp add: meter_usage_def)
    then show ?thesis using v1 by (auto simp: tick_result_def intro: meters_none)
  next
    case (Inr gs)
    have gs: "gs = org_rows (view s)"
      using follows_read_Inr [OF orgs q [unfolded Inr]] by (simp add: list_all_orgs_def org_rows_def)
    have v2: "view s2 = view s" using hours_to_meter_view(1) [OF assms(3)] q v1 by simp
    obtain a s3 where a: "meter_hours st ctx gs hs
        \<lparr>ta_written = 0, ta_first_err = None, ta_last_done = zero_time, ta_fully_ok = True\<rparr> s2 = (a, s3)"
      by fastforce
    have mh: "meters (set hs) (view s) (view s3)" "done_prefix gs hs zero_time (ta_last_done a) (view s3)"
      using meter_hours_view [OF a] v2 assms(2) by simp_all
    obtain err s4 where p: "persist_and_return st (ta_last_done a) (ta_first_err a) s3 = (err, s4)" by fastforce
    have t: "t = s4" using assms(1) assms(3) q Inr a p by (simp add: meter_usage_def)
    obtain e s5 where set5: "bs_set_meter_state st \<lparr>ms_last_metered_hour = ta_last_done a\<rparr> s3 = (e, s5)" by fastforce
    have "view s5 \<in> {view s3, (view s3)\<lparr>st_meter_state := Some \<lparr>ms_last_metered_hour = ta_last_done a\<rparr>\<rparr>}"
      using follows_effect [OF meter_set, of "\<lparr>ms_last_metered_hour = ta_last_done a\<rparr>" s3] set5
      by (simp add: set_meter_state_def)
    moreover have "s4 = (if is_zero (ta_last_done a) then s3 else s5)"
      using p set5 by (auto simp: persist_and_return_def split: sum.splits if_splits)
    ultimately show ?thesis using mh t gs by (auto simp: tick_result_def split: if_splits)
  qed
qed

end

lemma hours_from_whole: "whole_hour h \<Longrightarrow> x \<in> set (hours_from n h cur) \<Longrightarrow> whole_hour x"
  by (induction n arbitrary: h) (auto intro: whole_hour_next split: if_splits)

lemma hours_after_whole: "whole_hour lst \<Longrightarrow> whole_hour cur \<Longrightarrow> x \<in> set (hours_after lst cur) \<Longrightarrow> whole_hour x"
  by (auto simp: hours_after_def intro: hours_from_whole whole_hour_next split: if_splits)

lemma watermark_whole: "whole_hour (watermark v)"
  using zero_time_whole by (simp add: watermark_def truncate_hour_whole split: option.splits)

text \<open>A prefix of consecutive hours that ends at \<open>x\<close>'s hour or later contains \<open>x\<close>.\<close>

lemma consecutive_prefix:
  assumes "whole_hour lst" "whole_hour x" "lst < x" "x \<le> hs ! (k - 1)" "0 < k" "k \<le> length hs"
    "hs = hours_from n (lst + hour_ns) cur"
  shows "x \<in> set (take k hs)"
proof -
  have nth: "hs ! j = lst + hour_ns + int j * hour_ns" if "j < k" for j
    using hours_from_nth [of j n "lst + hour_ns" cur] that assms(6,7) by simp
  obtain p q where pq: "lst = hour_ns * p" "x = hour_ns * q"
    using assms(1,2) unfolding whole_hour_def by (metis dvd_def mod_0_imp_dvd)
  have "p < q" using assms(3) pq hour_ns_pos by simp
  moreover have "hour_ns * q \<le> hour_ns * (p + int k)"
    using assms(4,5) nth [of "k - 1"] pq by (simp add: algebra_simps of_nat_diff)
  then have "q \<le> p + int k" using hour_ns_pos by simp
  ultimately have j: "nat (q - p - 1) < k" by linarith
  have "hs ! nat (q - p - 1) = x" using nth [OF j] \<open>p < q\<close> pq by (simp add: algebra_simps)
  with j assms(6) show ?thesis by (metis length_take min.absorb2 nth_mem nth_take)
qed

lemma tick_covers:
  assumes "tick_result gs (hours_after lst cur) v w" "lst = watermark v" "\<not> is_zero lst"
    "whole_hour cur" "whole_hour x" "lst < x" "x \<le> watermark w" "g \<in> set gs"
  shows "covered w (org_id g) x"
proof -
  let ?hs = "hours_after lst cur"
  obtain u where u: "meters (set ?hs) v u" and w: "w = u \<or> (\<exists>l. \<not> is_zero l \<and> done_prefix gs ?hs zero_time l u \<and>
      w = u\<lparr>st_meter_state := Some \<lparr>ms_last_metered_hour = l\<rparr>\<rparr>)"
    using assms(1) by (auto simp: tick_result_def)
  have "watermark u = watermark v" using meters_frame [OF u] by (simp add: watermark_def)
  with w assms(2,6,7) obtain l where l: "\<not> is_zero l" "done_prefix gs ?hs zero_time l u"
    "w = u\<lparr>st_meter_state := Some \<lparr>ms_last_metered_hour = l\<rparr>\<rparr>" by auto
  obtain k where k: "k \<le> length ?hs" "l = (if k = 0 then zero_time else ?hs ! (k - 1))"
    "\<forall>h\<in>set (take k ?hs). \<forall>g\<in>set gs. covered u (org_id g) h"
    using l(2) by (auto simp: done_prefix_def)
  have k0: "0 < k" using k(2) l(1) by (cases k) (auto simp: is_zero_def)
  have lw: "whole_hour l"
  proof (rule hours_after_whole)
    show "l \<in> set ?hs" using k k0 by simp
    show "whole_hour lst" using assms(2) watermark_whole by simp
  qed (rule assms(4))
  have xl: "x \<le> ?hs ! (k - 1)"
    using assms(7) l(3) k(2) k0 truncate_hour_id [OF lw] by (simp add: watermark_def)
  have "lst < cur"
  proof (rule ccontr)
    assume "\<not> lst < cur"
    then have "?hs ! (k - 1) \<le> lst" using k(1) k0 by (auto simp: hours_after_def split: if_splits)
    with xl assms(6) show False by simp
  qed
  then have "?hs = hours_from max_catchup_hours (lst + hour_ns) cur"
    using assms(3) by (simp add: hours_after_def)
  then have "x \<in> set (take k ?hs)"
    using consecutive_prefix [of lst x ?hs k max_catchup_hours cur] watermark_whole assms(2,5,6) xl k k0 by simp
  then have "covered u (org_id g) x" using k(3) assms(8) by blast
  moreover have "covered w i h = covered u i h" for i h
  proof -
    have "compute_cost w i = compute_cost u i" "storage_cost w i = storage_cost u i"
      using l(3) by (auto intro!: costs_frame)
    then show ?thesis using l(3) by (simp add: covered_def has_bucket_def usage_of_def)
  qed
  ultimately show ?thesis by simp
qed

section \<open>A healthy tick\<close>

text \<open>On the store without failures left every step of a tick succeeds.\<close>

definition succeeds :: "(berr, flaky, 'a) op \<Rightarrow> bool" where
  "succeeds m \<longleftrightarrow> (\<forall>v. \<exists>x w. m (v, []) = (Inr x, (w, [])))"

lemma succeeds_ok [simp]: "succeeds (okE x)"
  by (simp add: succeeds_def okE_def)

lemma succeeds_bind: "succeeds m \<Longrightarrow> (\<And>x. succeeds (k x)) \<Longrightarrow> succeeds (bindE m k)"
  unfolding succeeds_def bindE_def by (metis (no_types, lifting) case_prod_conv old.sum.simps(6))

lemma succeeds_lift: "(\<And>v. \<exists>x. fst (m v) = Inr x) \<Longrightarrow> succeeds (lift_store (faulty m))"
  unfolding succeeds_def lift_store_def tryE_def
  by (auto simp: faulty_healthy okE_def split: sum.splits) (metis sum.distinct(1))

lemma succeeds_reads:
  "succeeds (lift_store (bs_list_pricing_components flaky_bstore))"
  "succeeds (lift_store (bs_list_apps_by_org flaky_bstore i))"
  "succeeds (lift_store (bs_list_services_by_org flaky_bstore i))"
  "succeeds (lift_store (bs_list_databases_by_org flaky_bstore i))"
  "succeeds (lift_store (bs_add_usage_if_absent flaky_bstore u))"
  by (simp_all add: flaky_bstore_def, (rule succeeds_lift, auto simp: readE_def
      list_pricing_components_def list_apps_by_org_def list_services_by_org_def
      list_databases_by_org_def add_usage_if_absent_def)+)

lemma succeeds_price_map: "succeeds (price_map flaky_bstore)"
  unfolding price_map_def pricing_components_def
  by (intro succeeds_bind succeeds_reads succeeds_ok)

lemma succeeds_meter_org_hour: "succeeds (meter_org_hour flaky_bstore i h)"
proof -
  have c: "succeeds (org_hourly_cost flaky_bstore i)"
    unfolding org_hourly_cost_def Let_def
    by (intro succeeds_bind succeeds_price_map succeeds_reads succeeds_ok)
  have t: "succeeds (org_storage_hourly_cost flaky_bstore i)"
    unfolding org_storage_hourly_cost_def Let_def
    by (rule succeeds_bind [OF succeeds_price_map])
      (auto intro!: succeeds_bind succeeds_reads succeeds_ok)
  have w: "succeeds (write_cost_bucket flaky_bstore b i m x h)" for b m x
    unfolding write_cost_bucket_def Let_def
    by (auto intro!: succeeds_bind succeeds_reads succeeds_ok)
  show ?thesis unfolding meter_org_hour_def by (intro succeeds_bind c t w succeeds_ok)
qed

lemma healthy_orgs:
  assumes "\<not> ha_canceled a" "ha_hour_ok a" "ha_first_err a = None"
  shows "\<exists>b w. meter_orgs flaky_bstore (\<lambda>_ _. None) h gs a (v, []) = (b, (w, [])) \<and>
    \<not> ha_canceled b \<and> ha_hour_ok b \<and> ha_first_err b = None"
  using assms
proof (induction gs arbitrary: a v)
  case (Cons g gs)
  obtain n w where "meter_org_hour flaky_bstore (org_id g) h (v, []) = (Inr n, (w, []))"
    using succeeds_meter_org_hour unfolding succeeds_def by blast
  then show ?case using Cons.IH [of "a\<lparr>ha_written := ha_written a + n\<rparr>" w] Cons.prems by simp
qed simp

lemma healthy_hours:
  assumes "ta_fully_ok a" "ta_first_err a = None"
  shows "\<exists>b w. meter_hours flaky_bstore (\<lambda>_ _. None) gs hs a (v, []) = (b, (w, [])) \<and>
    ta_first_err b = None \<and> ta_last_done b = (if hs = [] then ta_last_done a else last hs)"
  using assms
proof (induction hs arbitrary: a v)
  case (Cons h hs)
  let ?a0 = "\<lparr>ha_written = ta_written a, ha_first_err = ta_first_err a, ha_hour_ok = True, ha_canceled = False\<rparr>"
  obtain c w where c: "meter_orgs flaky_bstore (\<lambda>_ _. None) h gs ?a0 (v, []) = (c, (w, []))"
    "\<not> ha_canceled c" "ha_hour_ok c" "ha_first_err c = None"
    using healthy_orgs [of ?a0 h gs v] Cons.prems(2) by auto
  let ?a1 = "a\<lparr>ta_written := ha_written c, ta_first_err := ha_first_err c, ta_last_done := h\<rparr>"
  have "meter_hours flaky_bstore (\<lambda>_ _. None) gs (h # hs) a (v, [])
      = meter_hours flaky_bstore (\<lambda>_ _. None) gs hs ?a1 (w, [])"
    using c Cons.prems(1) by (simp add: Let_def)
  moreover have "ta_fully_ok ?a1" "ta_first_err ?a1 = None" using Cons.prems c by simp_all
  ultimately show ?case using Cons.IH [of ?a1 w] by auto
qed simp

text \<open>The read of the watermark fails with \<open>f\<close>, or answers; everything else is healthy.\<close>

lemma healthy_tick:
  assumes "f = NoFault \<and> L = watermark v \<or> f = FailBefore \<and> L = zero_time"
    and "hs = hours_after L (truncate_hour now)" and "billing_wf v"
  shows "\<exists>n w. meter_usage flaky_bstore (\<lambda>_ _. None) now (v, [NoFault, f]) = ((n, None), (w, [])) \<and>
    (if hs = [] \<or> is_zero (last hs) then st_meter_state w = st_meter_state v
     else st_meter_state w = Some \<lparr>ms_last_metered_hour = last hs\<rparr>)"
proof -
  have o1: "bs_list_all_orgs flaky_bstore (v, [NoFault, f]) = (Inr (org_rows v), (v, [f]))"
    by (simp add: flaky_bstore_def faulty_next readE_def list_all_orgs_def org_rows_def)
  have h1: "hours_to_meter flaky_bstore (truncate_hour now) (v, [f]) = (Inr hs, (v, []))"
    using assms
    by (auto simp: hours_to_meter_def tryE_def flaky_bstore_def faulty_next readE_def okE_def
        get_meter_state_def watermark_def split: option.splits)
  let ?a = "\<lparr>ta_written = 0, ta_first_err = None, ta_last_done = zero_time, ta_fully_ok = True\<rparr>"
  obtain b w where b: "meter_hours flaky_bstore (\<lambda>_ _. None) (org_rows v) hs ?a (v, []) = (b, (w, []))"
    "ta_first_err b = None" "ta_last_done b = (if hs = [] then zero_time else last hs)"
    using healthy_hours [of ?a "org_rows v" hs v] by auto
  have m: "st_meter_state w = st_meter_state v"
    using flaky.meter_hours_view [OF b(1)] assms(3) meters_frame [of "set hs" v w] by simp
  show ?thesis using o1 h1 b m
    by (auto simp: meter_usage_def persist_and_return_def flaky_bstore_def faulty_healthy set_meter_state_def
        is_zero_def)
qed

section \<open>Properties\<close>

lemma length_nat_digits4: "n \<le> 9999 \<Longrightarrow> length (nat_digits n) \<le> 4"
  by (simp add: nat_digits.simps [of n] nat_digits.simps [of "n div 10"]
      nat_digits.simps [of "n div 100"] nat_digits.simps [of "n div 1000"] div_mult2_eq [symmetric])

lemma length_pad4: "n \<le> 9999 \<Longrightarrow> length (pad 4 n) = 4"
  using length_nat_digits4 [of n] by (simp add: pad_def)

lemma length_hour_stamp: "four_digit_year t \<Longrightarrow> length (hour_stamp t) = 11"
proof -
  assume y: "four_digit_year t"
  obtain y m d where c: "civil_of_days (t div day_ns) = (y, m, d)" by (metis prod.exhaust)
  have "0 \<le> (t mod day_ns) div hour_ns" "(t mod day_ns) div hour_ns < 24"
    by (auto simp: day_ns_def hour_ns_def)
  then have "nat ((t mod day_ns) div hour_ns) < 100" by simp
  moreover have "nat y \<le> 9999" "0 \<le> y" using y c by (auto simp: four_digit_year_def nat_le_iff)
  ultimately show ?thesis using civil_of_days_range [OF c] c
    by (simp add: hour_stamp_def length_pad2 length_pad4 year_text_def)
qed

lemma append_same_length_suffix: "length b = length d \<Longrightarrow> a @ b = c @ d \<longleftrightarrow> a = c \<and> b = d"
  by (metis append_eq_append_conv)

lemma bucket_ids_differ:
  assumes "four_digit_year h" "four_digit_year k" "whole_hour h" "whole_hour k"
  shows "meter_bucket_id i h = meter_bucket_id j k \<longleftrightarrow> i = j \<and> h = k"
    and "dim_bucket_id i m h = dim_bucket_id j m k \<longleftrightarrow> i = j \<and> h = k"
    and "meter_bucket_id i h \<noteq> dim_bucket_id i m k"
proof -
  have l: "length (hour_stamp h) = length (hour_stamp k)" using assms by (simp add: length_hour_stamp)
  have s: "hour_stamp h = hour_stamp k \<longleftrightarrow> h = k" using hour_stamp_inject assms by blast
  have app: "i @ ''-'' @ hour_stamp h = j @ ''-'' @ hour_stamp k \<longleftrightarrow> i = j \<and> h = k" for i j
    using append_same_length_suffix [of "''-'' @ hour_stamp h" "''-'' @ hour_stamp k" i j] l s by simp
  show "meter_bucket_id i h = meter_bucket_id j k \<longleftrightarrow> i = j \<and> h = k"
    using app by (simp add: meter_bucket_id_def)
  show "dim_bucket_id i m h = dim_bucket_id j m k \<longleftrightarrow> i = j \<and> h = k"
    using app by (simp add: dim_bucket_id_def)
  have "length (meter_bucket_id i h) \<noteq> length (dim_bucket_id i m k)"
    using l by (simp add: meter_bucket_id_def dim_bucket_id_def)
  then show "meter_bucket_id i h \<noteq> dim_bucket_id i m k" by metis
qed

text \<open>in the four-digit years a compute bucket's id determines its organization and its hour,
  so does a storage bucket's, and within an organization the two dimensions never share an id;
  this is what makes insert-if-absent record each dimension of each hour at most once.\<close>

theorem bucket_ids_identify:
  assumes "four_digit_year h" "four_digit_year k" "whole_hour h" "whole_hour k"
  shows "(meter_bucket_id i h = meter_bucket_id j k \<longleftrightarrow> i = j \<and> h = k) \<and>
    (dim_bucket_id i m h = dim_bucket_id j m k \<longleftrightarrow> i = j \<and> h = k) \<and>
    meter_bucket_id i h \<noteq> dim_bucket_id i m k"
  using bucket_ids_differ [OF assms] by blast

lemma bucket_ids_identify_witness:
  "meter_bucket_id ''o1'' 3600000000000 \<noteq> meter_bucket_id ''o1'' 7200000000000"
proof -
  have "four_digit_year 3600000000000" "four_digit_year 7200000000000"
    "whole_hour 3600000000000" "whole_hour 7200000000000"
    by code_simp+
  from bucket_ids_identify [OF this, of "''o1''" "''o1''"] show ?thesis by simp
qed

text \<open>C13: whatever calls to the store fail during a tick, and wherever it is canceled, every old
  usage record stays, every new one is a due bucket of one of the tick's hours with exactly the
  amount the stored workloads and prices give, and no id is ever recorded twice.\<close>

theorem meter_writes_only_due:
  assumes "billing_wf v" "meter_usage flaky_bstore ctx now (v, fs) = (r, (w, gs))"
  shows "\<exists>hs new. (hs = hours_after (watermark v) (truncate_hour now) \<or>
              hs = hours_after zero_time (truncate_hour now)) \<and>
    usage_of i w = usage_of i v @ new \<and> list_all (due (set hs) v) new \<and>
    (usage_ids_unique v \<longrightarrow> usage_ids_unique w)"
proof -
  obtain q t where h: "hours_to_meter flaky_bstore (truncate_hour now) (snd (bs_list_all_orgs flaky_bstore (v, fs))) = (q, t)"
    by (metis surj_pair)
  have v: "fst (snd (bs_list_all_orgs flaky_bstore (v, fs))) = v" by (simp add: flaky.view_reads)
  obtain hs where hs: "q = Inr hs" "hs = hours_after (watermark v) (truncate_hour now) \<or>
      hs = hours_after zero_time (truncate_hour now)"
    using flaky.hours_to_meter_view(2) [OF h] v by auto
  have "tick_result (org_rows v) hs v w"
    using flaky.meter_usage_view [OF assms(2)] assms(1) h hs(1) by simp
  then obtain u where u: "meters (set hs) v u" "st_usage w = st_usage u"
    by (auto simp: tick_result_def)
  then have "usage_of i w = usage_of i u" for i by (simp add: usage_of_def)
  moreover from this have "usage_ids_unique u = usage_ids_unique w" by (simp add: usage_ids_unique_def)
  ultimately show ?thesis using meters_usage [OF u(1), of i] meters_ids_unique [OF u(1)] hs(2) by metis
qed

lemma meter_writes_only_due_witness:
  "\<exists>hs new. usage_of ''o1'' (fst (snd (meter_usage flaky_bstore (\<lambda>_ _. None) 7200000000000 (sample_store, [NoFault, NoFault, FailAfter])))) =
     usage_of ''o1'' sample_store @ new \<and> list_all (due (set hs) sample_store) new"
  using meter_writes_only_due [OF sample_billing_wf, of "\<lambda>_ _. None" 7200000000000 "[NoFault, NoFault, FailAfter]"
      "fst (meter_usage flaky_bstore (\<lambda>_ _. None) 7200000000000 (sample_store, [NoFault, NoFault, FailAfter]))"
      "fst (snd (meter_usage flaky_bstore (\<lambda>_ _. None) 7200000000000 (sample_store, [NoFault, NoFault, FailAfter])))"
      "snd (snd (meter_usage flaky_bstore (\<lambda>_ _. None) 7200000000000 (sample_store, [NoFault, NoFault, FailAfter])))"
      "''o1''"]
  by fastforce

definition healthy_at :: "nat \<Rightarrow> fault list \<Rightarrow> bool" where
  "healthy_at k fs \<longleftrightarrow> k < length fs \<longrightarrow> fs ! k = NoFault"

lemma watermark_read_healthy:
  assumes "healthy_at 1 fs"
  shows "\<exists>t. hours_to_meter flaky_bstore cur (snd (bs_list_all_orgs flaky_bstore (v, fs))) =
      (Inr (hours_after (watermark v) cur), t)"
proof -
  define gs where "gs = tl fs"
  have "snd (bs_list_all_orgs flaky_bstore (v, fs)) = (v, gs)"
    by (auto simp: gs_def flaky_bstore_def faulty_def readE_def split: list.splits fault.splits)
  moreover have "gs = [] \<or> hd gs = NoFault"
    using assms by (cases fs; cases "tl fs") (auto simp: gs_def healthy_at_def)
  ultimately have s1: "snd (bs_list_all_orgs flaky_bstore (v, fs)) = (v, gs)" "gs = [] \<or> hd gs = NoFault"
    by simp_all
  have "\<exists>hs. bs_get_meter_state flaky_bstore (v, gs) = (get_meter_state v, (v, hs))"
    using s1(2) by (cases gs) (auto simp: flaky_bstore_def faulty_def readE_def)
  then obtain hs where "bs_get_meter_state flaky_bstore (v, gs) = (get_meter_state v, (v, hs))" by blast
  then show ?thesis unfolding s1(1)
    by (auto simp: hours_to_meter_def tryE_def okE_def get_meter_state_def watermark_def split: option.splits)
qed

text \<open>C12: no hour is skipped. If the read of the watermark answered, then whatever else failed in
  the tick, every whole hour between the old and the new watermark is covered for every
  organization: each dimension that costs something has its bucket.\<close>

theorem meter_no_hour_skipped:
  assumes "billing_wf v" "\<not> is_zero (watermark v)" "healthy_at 1 fs"
    and "w = fst (snd (meter_usage flaky_bstore ctx now (v, fs)))"
    and "whole_hour x" "watermark v < x" "x \<le> watermark w" "g \<in> set (org_rows v)"
  shows "covered w (org_id g) x"
proof -
  obtain r t where m: "meter_usage flaky_bstore ctx now (v, fs) = (r, t)" by (metis surj_pair)
  obtain s2 where h: "hours_to_meter flaky_bstore (truncate_hour now) (snd (bs_list_all_orgs flaky_bstore (v, fs))) =
      (Inr (hours_after (watermark v) (truncate_hour now)), s2)"
    using watermark_read_healthy [OF assms(3)] by blast
  have "tick_result (org_rows v) (hours_after (watermark v) (truncate_hour now)) v w"
    using flaky.meter_usage_view [OF m _ h] assms(1,4) m by simp
  then show ?thesis
    using tick_covers truncate_hour_whole assms(2,5,6,7,8) by blast
qed

lemma hours_from_empty: "cur < h \<Longrightarrow> hours_from n h cur = []"
  by (cases n) simp_all

lemma catchup_first:
  "h \<le> cur \<Longrightarrow> hours_from max_catchup_hours h cur = h # hours_from 47 (h + hour_ns) cur"
  using hours_from.simps(2) [of 47 h cur] by (simp add: max_catchup_hours_def)

lemma sample_tick:
  "watermark sample_store = 3600000000000"
  "hours_after 3600000000000 7200000000000 = [7200000000000]"
  "truncate_hour 7200000000000 = 7200000000000"
  by (simp_all add: watermark_def sample_tables truncate_hour_def zero_time_def hour_ns_def
      hours_after_def is_zero_def catchup_first hours_from_empty)

lemma meter_no_hour_skipped_witness:
  "covered (fst (snd (meter_usage flaky_bstore (\<lambda>_ _. None) 7200000000000 (sample_store, [NoFault, NoFault]))))
     ''o1'' 7200000000000"
proof -
  let ?w = "fst (snd (meter_usage flaky_bstore (\<lambda>_ _. None) 7200000000000 (sample_store, [NoFault, NoFault])))"
  obtain n w where "meter_usage flaky_bstore (\<lambda>_ _. None) 7200000000000 (sample_store, [NoFault, NoFault]) = ((n, None), (w, []))"
    "st_meter_state w = Some \<lparr>ms_last_metered_hour = 7200000000000\<rparr>"
    using healthy_tick [of NoFault "watermark sample_store" sample_store "[7200000000000]" 7200000000000]
    by (auto simp: sample_tick sample_billing_wf is_zero_def zero_time_def)
  then have "watermark ?w = 7200000000000" by (simp add: watermark_def sample_tick)
  then show ?thesis
    using meter_no_hour_skipped [OF sample_billing_wf, of "[NoFault, NoFault]" ?w "\<lambda>_ _. None" 7200000000000
        7200000000000 sample_org]
    by (simp add: sample_tick is_zero_def zero_time_def healthy_at_def whole_hour_def hour_ns_def
        org_rows_def sample_tables gvals_def sample_org_def)
qed

lemma hours_from_last:
  assumes "whole_hour h" "whole_hour cur" "h \<le> cur" "0 < n"
  shows "hours_from n h cur \<noteq> [] \<and>
    last (hours_from n h cur) = (if cur < h + int n * hour_ns then cur else h + int (n - 1) * hour_ns)"
  using assms
proof (induction n arbitrary: h)
  case (Suc n)
  show ?case
  proof (cases "n = 0 \<or> h + hour_ns > cur")
    case True
    then have "hours_from (Suc n) h cur = [h]" using Suc.prems by (cases n) auto
    moreover have "h = cur" if "cur < h + hour_ns"
      using whole_gap [OF Suc.prems(1,2)] that Suc.prems(3) by linarith
    moreover have "0 < hour_ns + hour_ns * int n" using hour_ns_pos by (intro add_pos_nonneg) simp_all
    ultimately show ?thesis using True Suc.prems hour_ns_pos by (auto simp: algebra_simps)
  next
    case False
    then have "hours_from n (h + hour_ns) cur \<noteq> [] \<and> last (hours_from n (h + hour_ns) cur) =
        (if cur < h + hour_ns + int n * hour_ns then cur else h + hour_ns + int (n - 1) * hour_ns)"
      using Suc.IH [of "h + hour_ns"] Suc.prems whole_hour_next by auto
    with False Suc.prems show ?thesis by (auto simp: algebra_simps of_nat_diff)
  qed
qed simp

text \<open>C14: a tick without failures makes progress. It returns no error and moves the watermark to
  the current hour, or by the 48 hours of the catch-up bound after a longer outage.\<close>

theorem meter_healthy_progress:
  assumes "billing_wf v" "zero_time < watermark v" "watermark v < truncate_hour now"
  shows "\<exists>n w. meter_usage flaky_bstore (\<lambda>_ _. None) now (v, [NoFault, NoFault]) = ((n, None), (w, [])) \<and>
    watermark w = min (truncate_hour now) (watermark v + 48 * hour_ns)"
proof -
  let ?L = "watermark v" and ?cur = "truncate_hour now"
  let ?hs = "hours_after ?L ?cur"
  have hs: "?hs = hours_from max_catchup_hours (?L + hour_ns) ?cur"
    using assms(2,3) by (simp add: hours_after_def is_zero_def)
  have "?L + hour_ns \<le> ?cur" by (rule whole_gap [OF watermark_whole truncate_hour_whole assms(3)])
  moreover have "?cur \<le> ?L + 48 * hour_ns" if "?cur < ?L + 49 * hour_ns"
    using whole_gap [OF whole_hour_add [OF watermark_whole [of v], of 48] truncate_hour_whole, of now] that by linarith
  ultimately have lst: "?hs \<noteq> []" "last ?hs = min ?cur (?L + 48 * hour_ns)"
    using hours_from_last [of "?L + hour_ns" ?cur max_catchup_hours] watermark_whole [of v] truncate_hour_whole
    by (auto simp: hs whole_hour_next max_catchup_hours_def min_def)
  have z: "\<not> is_zero (last ?hs)" using assms(2,3) hour_ns_pos by (auto simp: lst is_zero_def min_def)
  have "whole_hour (last ?hs)"
    by (rule hours_after_whole [OF watermark_whole [of v] truncate_hour_whole [of now]
        last_in_set [OF lst(1)]])
  moreover obtain n w where "meter_usage flaky_bstore (\<lambda>_ _. None) now (v, [NoFault, NoFault]) = ((n, None), (w, []))"
    "st_meter_state w = Some \<lparr>ms_last_metered_hour = last ?hs\<rparr>"
    using healthy_tick [of NoFault ?L v ?hs now] assms(1) lst(1) z by auto
  ultimately show ?thesis using lst(2) by (auto simp: watermark_def truncate_hour_id)
qed

lemma meter_healthy_progress_witness:
  "\<exists>n w. meter_usage flaky_bstore (\<lambda>_ _. None) 7200000000000 (sample_store, [NoFault, NoFault]) = ((n, None), (w, [])) \<and>
    watermark w = 7200000000000"
  using meter_healthy_progress [OF sample_billing_wf, of 7200000000000]
  by (simp add: sample_tick zero_time_def hour_ns_def)

text \<open>the read of the watermark is the exception to the rule that a failure holds the watermark
  back. When that one read fails and nothing else does, the tick meters the current hour only
  and moves the watermark to it, so the hours since the old watermark are never metered.\<close>

theorem meter_state_failure_skips:
  assumes "billing_wf v" "zero_time < truncate_hour now"
  shows "\<exists>n w. meter_usage flaky_bstore (\<lambda>_ _. None) now (v, [NoFault, FailBefore]) = ((n, None), (w, [])) \<and>
    watermark w = truncate_hour now \<and>
    (\<forall>i. \<exists>new. usage_of i w = usage_of i v @ new \<and> list_all (\<lambda>r. ur_at r = truncate_hour now) new)"
proof -
  let ?cur = "truncate_hour now"
  have hs: "hours_after zero_time ?cur = [?cur]" using assms(2) by (simp add: hours_after_def is_zero_def)
  obtain n w where m: "meter_usage flaky_bstore (\<lambda>_ _. None) now (v, [NoFault, FailBefore]) = ((n, None), (w, []))"
    "st_meter_state w = Some \<lparr>ms_last_metered_hour = ?cur\<rparr>"
    using healthy_tick [of FailBefore zero_time v "[?cur]" now] assms hs by (auto simp: is_zero_def)
  have "hours_to_meter flaky_bstore ?cur (snd (bs_list_all_orgs flaky_bstore (v, [NoFault, FailBefore]))) = (Inr [?cur], (v, []))"
    by (simp add: flaky_bstore_def faulty_next readE_def list_all_orgs_def hours_to_meter_def tryE_def okE_def hs)
  then have "tick_result (org_rows v) [?cur] v w"
    using flaky.meter_usage_view [OF m(1)] assms(1) by simp
  then obtain u where u: "meters {?cur} v u" "st_usage w = st_usage u" by (auto simp: tick_result_def)
  have "\<exists>new. usage_of i w = usage_of i v @ new \<and> list_all (\<lambda>r. ur_at r = ?cur) new" for i
  proof -
    obtain new where "usage_of i u = usage_of i v @ new" "list_all (due {?cur} v) new"
      using meters_usage [OF u(1)] by blast
    moreover have "due {?cur} v r \<Longrightarrow> ur_at r = ?cur" for r
      by (auto simp: due_def compute_record_def storage_record_def)
    ultimately show ?thesis using u(2) by (auto simp: usage_of_def list_all_iff)
  qed
  with m show ?thesis by (auto simp: watermark_def truncate_hour_id truncate_hour_whole)
qed

lemma meter_state_failure_skips_witness:
  "\<exists>n w. meter_usage flaky_bstore (\<lambda>_ _. None) 18000000000000 (sample_store, [NoFault, FailBefore]) = ((n, None), (w, [])) \<and>
    watermark w = 18000000000000"
  using meter_state_failure_skips [OF sample_billing_wf, of 18000000000000]
  by (auto simp: truncate_hour_def zero_time_def hour_ns_def)

end
