(* ===== verification/Invoicing.thy ===== *)
theory Invoicing
  imports Metering
begin

text \<open>
  Invoices (\<open>billing/invoice.go\<close>, \<open>billing/invoices.go\<close>): the period's usage in cents, the
  charge from the plan, the provisioning gate with its spend cap, the invoice history and its
  line items, and the collections standing. Money is \<open>int64\<close>: sums and products wrap.
\<close>

section \<open>Usage and charge\<close>

record invoice =
  iv_base_cents :: int
  iv_overage_cents :: int
  iv_usage_so_far_cents :: int
  iv_charge_cents :: int

definition micro_sum :: "(usage_record \<Rightarrow> bool) \<Rightarrow> usage_record list \<Rightarrow> int \<Rightarrow> int" where
  "micro_sum ok rs acc = fold (\<lambda>r acc. if ok r then wrap64 (acc + ur_quantity r) else acc) rs acc"

definition usage_so_far_cents :: "usage_record list \<Rightarrow> int" where
  "usage_so_far_cents rs = micro_sum (\<lambda>r. is_cost_metric (ur_metric r)) rs 0 sdiv 1000"

text \<open>The first map of \<open>usageByDimensionCents\<close> by key, then the positive cents of each key.\<close>

definition dimension_micro :: "usage_record list \<Rightarrow> (string, int) gomap" where
  "dimension_micro rs = fold (\<lambda>r m. if is_cost_metric (ur_metric r) then add_metric r m else m) rs []"

definition usage_by_dimension_cents :: "usage_record list \<Rightarrow> (string, int) gomap" where
  "usage_by_dimension_cents rs = gkeep (\<lambda>c. c > 0) (gmap (\<lambda>mc. mc sdiv 1000) (dimension_micro rs))"

definition allowance_cents :: "plan \<Rightarrow> int" where
  "allowance_cents p = wrap64 (plan_included_hours p * plan_overage_per_hour_cents p)"

definition invoice_from_records :: "plan option \<Rightarrow> usage_record list \<Rightarrow> invoice" where
  "invoice_from_records p rs =
     (let usage = usage_so_far_cents rs
      in case p of
           None \<Rightarrow> \<lparr>iv_base_cents = 0, iv_overage_cents = 0, iv_usage_so_far_cents = usage, iv_charge_cents = 0\<rparr>
         | Some pl \<Rightarrow>
             (let over = wrap64 (usage - allowance_cents pl);
                  overage = (if over > 0 then over else 0)
              in \<lparr>iv_base_cents = plan_price_cents pl, iv_overage_cents = overage,
                  iv_usage_so_far_cents = usage, iv_charge_cents = wrap64 (plan_price_cents pl + overage)\<rparr>))"

section \<open>The current period\<close>

text \<open>A nil subscription is \<open>None\<close>; \<open>now\<close> is what \<open>s.now()\<close> returns.\<close>

definition period_start :: "time \<Rightarrow> subscription option \<Rightarrow> time" where
  "period_start now sb =
     (case sb of
        Some b \<Rightarrow> if \<not> is_zero (sub_current_period_end b) then add_months (sub_current_period_end b) (- 1)
                  else add_months now (- 1)
      | None \<Rightarrow> add_months now (- 1))"

definition period_end :: "time \<Rightarrow> subscription option \<Rightarrow> time" where
  "period_end now sb =
     (case sb of
        Some b \<Rightarrow> if \<not> is_zero (sub_current_period_end b) then sub_current_period_end b else now
      | None \<Rightarrow> now)"

text \<open>The lookup both \<open>CurrentInvoice\<close> and \<open>InvoiceHistory\<close> start with.\<close>

definition subscription_and_plan :: "'s bstore \<Rightarrow> string \<Rightarrow> (berr, 's, subscription option \<times> plan option) op" where
  "subscription_and_plan st org_i =
     tryE (bs_get_subscription st org_i)
       (\<lambda>e. if e = ErrNotFound then okE (None, None) else failE (BStore e))
       (\<lambda>b. bindE (plan_by_id st (sub_plan_id b)) (\<lambda>p. okE (Some b, p)))"

definition current_invoice :: "'s bstore \<Rightarrow> time \<Rightarrow> string \<Rightarrow> (berr, 's, invoice) op" where
  "current_invoice st now org_i =
     bindE (subscription_and_plan st org_i) (\<lambda>(sb, p).
     bindE (lift_store (bs_list_usage_by_org_since st org_i (period_start now sb) whole_page)) (\<lambda>rs.
     okE (invoice_from_records p rs)))"

section \<open>The provisioning gate\<close>

definition effective_spend_cap :: "'s bstore \<Rightarrow> string \<Rightarrow> (berr, 's, int) op" where
  "effective_spend_cap st org_i =
     (let default_cap = tryE (bs_get_settings st) (\<lambda>e. okE 0) (\<lambda>x. okE (set_default_spend_cap_cents x))
      in tryE (bs_get_organization st org_i)
           (\<lambda>e. default_cap)
           (\<lambda>g. if org_spend_cap_cents g > 0 then okE (org_spend_cap_cents g) else default_cap))"

definition grace_past_due :: "'s bstore \<Rightarrow> (berr, 's, bool) op" where
  "grace_past_due st = tryE (bs_get_settings st) (\<lambda>e. okE False) (\<lambda>x. okE (set_grace_past_due x))"

definition ensure_under_cap :: "'s bstore \<Rightarrow> time \<Rightarrow> string \<Rightarrow> (berr, 's, unit) op" where
  "ensure_under_cap st now org_i =
     bindE (effective_spend_cap st org_i) (\<lambda>cap.
     if cap \<le> 0 then okE ()
     else bindE (current_invoice st now org_i) (\<lambda>inv.
            if iv_charge_cents inv \<ge> cap
            then failE (BPaymentRequired (SpendCapReached (iv_charge_cents inv) cap))
            else okE ()))"

definition ensure_active :: "'s bstore \<Rightarrow> time \<Rightarrow> string \<Rightarrow> (berr, 's, unit) op" where
  "ensure_active st now org_i =
     tryE (bs_get_subscription st org_i)
       (\<lambda>e. if e = ErrNotFound then ensure_under_cap st now org_i else failE (BStore e))
       (\<lambda>b. case sub_status b of
              SubCanceled \<Rightarrow> failE (BPaymentRequired (SubscriptionStanding SubCanceled))
            | SubUnpaid \<Rightarrow> failE (BPaymentRequired (SubscriptionStanding SubUnpaid))
            | SubPastDue \<Rightarrow>
                bindE (grace_past_due st) (\<lambda>g.
                  if \<not> g then failE (BPaymentRequired (SubscriptionStanding SubPastDue))
                  else ensure_under_cap st now org_i)
            | _ \<Rightarrow> ensure_under_cap st now org_i)"

section \<open>Invoice history\<close>

datatype invoice_status = InvoiceOpen | InvoicePaid | InvoicePastDue

record invoice_line_item =
  li_key :: string
  li_label :: string
  li_amount_cents :: int

record period_invoice =
  pi_period_start :: time
  pi_period_end :: time
  pi_status :: invoice_status
  pi_currency :: string
  pi_base_cents :: int
  pi_overage_cents :: int
  pi_usage_so_far_cents :: int
  pi_charge_cents :: int
  pi_line_items :: "invoice_line_item list"

definition max_invoice_periods :: int where "max_invoice_periods = 24"

definition invoice_status_of :: "subscription option \<Rightarrow> bool \<Rightarrow> invoice_status" where
  "invoice_status_of sb current =
     (if current then InvoiceOpen
      else case sb of
             Some b \<Rightarrow> if sub_status b \<in> {SubPastDue, SubUnpaid, SubCanceled} then InvoicePastDue else InvoicePaid
           | None \<Rightarrow> InvoicePaid)"

definition plan_label :: "plan option \<Rightarrow> string" where
  "plan_label p =
     (case p of
        Some pl \<Rightarrow> if plan_name pl \<noteq> [] then plan_name pl @ '' plan'' else ''Plan base''
      | None \<Rightarrow> ''Plan base'')"

definition dimension_label :: "string \<Rightarrow> string" where
  "dimension_label metric =
     (if metric = meter_metric then ''Compute (vCPU + memory)''
      else if metric = meter_metric_storage then ''Storage''
      else if metric = meter_metric_egress then ''Network egress''
      else metric)"

definition min_int64 :: "int \<Rightarrow> int \<Rightarrow> int" where
  "min_int64 a b = (if a < b then a else b)"

definition line_items :: "plan option \<Rightarrow> usage_record list \<Rightarrow> invoice \<Rightarrow> invoice_line_item list" where
  "line_items p rs iv =
     (let base = (if iv_base_cents iv \<noteq> 0
                  then [\<lparr>li_key = ''base'', li_label = plan_label p, li_amount_cents = iv_base_cents iv\<rparr>] else []);
          by_dim = usage_by_dimension_cents rs;
          dims = concat (map (\<lambda>m. let c = (case gget by_dim m of None \<Rightarrow> 0 | Some c \<Rightarrow> c)
                                   in if c > 0 then [\<lparr>li_key = m, li_label = dimension_label m, li_amount_cents = c\<rparr>] else [])
                         [meter_metric, meter_metric_storage, meter_metric_egress]);
          credit = (case p of
                      None \<Rightarrow> []
                    | Some pl \<Rightarrow>
                        (let c = min_int64 (allowance_cents pl) (iv_usage_so_far_cents iv)
                         in if c > 0 then [\<lparr>li_key = ''included_allowance'', li_label = ''Included usage allowance'',
                                            li_amount_cents = - c\<rparr>] else []))
      in base @ dims @ credit)"

definition in_period :: "time \<Rightarrow> time \<Rightarrow> usage_record \<Rightarrow> bool" where
  "in_period start fin r \<longleftrightarrow> \<not> ur_at r < start \<and> ur_at r < fin"

definition period_invoice_of ::
    "subscription option \<Rightarrow> plan option \<Rightarrow> string \<Rightarrow> bool \<Rightarrow> time \<Rightarrow> time \<Rightarrow> usage_record list \<Rightarrow> period_invoice" where
  "period_invoice_of sb p currency current start fin rs =
     (let inp = filter (in_period start fin) rs; inv = invoice_from_records p inp
      in \<lparr>pi_period_start = start, pi_period_end = fin, pi_status = invoice_status_of sb current,
          pi_currency = currency, pi_base_cents = iv_base_cents inv,
          pi_overage_cents = iv_overage_cents inv, pi_usage_so_far_cents = iv_usage_so_far_cents inv,
          pi_charge_cents = iv_charge_cents inv, pi_line_items = line_items p inp inv\<rparr>)"

text \<open>The loop \<open>for i := 0; i < limit; i++\<close>; \<open>k\<close> is how many iterations are left.\<close>

fun history_loop ::
    "'s bstore \<Rightarrow> string \<Rightarrow> subscription option \<Rightarrow> plan option \<Rightarrow> string \<Rightarrow> nat \<Rightarrow> bool \<Rightarrow> time \<Rightarrow>
     (berr, 's, period_invoice list) op" where
  "history_loop st org_i sb p currency 0 current fin s = okE [] s"
| "history_loop st org_i sb p currency (Suc k) current fin s =
     (let start = add_months fin (- 1)
      in bindE (lift_store (bs_list_usage_by_org_since st org_i start whole_page)) (\<lambda>rs.
           let inv = period_invoice_of sb p currency current start fin rs
           in if \<not> current \<and> pi_charge_cents inv = 0 \<and> pi_usage_so_far_cents inv = 0 then okE [inv]
              else bindE (history_loop st org_i sb p currency k False start) (\<lambda>rest. okE (inv # rest))) s)"

definition clamp_history :: "int \<Rightarrow> int" where
  "clamp_history limit =
     (let l = (if limit \<le> 0 then 12 else limit)
      in if l > max_invoice_periods then max_invoice_periods else l)"

definition invoice_history :: "'s bstore \<Rightarrow> time \<Rightarrow> string \<Rightarrow> int \<Rightarrow> (berr, 's, period_invoice list) op" where
  "invoice_history st now org_i limit =
     bindE (subscription_and_plan st org_i) (\<lambda>(sb, p).
     bindE (pricing_currency st) (\<lambda>currency.
     history_loop st org_i sb p currency (nat (clamp_history limit)) True (period_end now sb)))"

section \<open>Collections\<close>

record dunning =
  dn_state :: subscription_status
  dn_past_due :: bool
  dn_blocked :: bool
  dn_grace_active :: bool

definition dunning_status :: "'s bstore \<Rightarrow> string \<Rightarrow> (berr, 's, dunning) op" where
  "dunning_status st org_i =
     tryE (bs_get_subscription st org_i)
       (\<lambda>e. if e = ErrNotFound
            then okE \<lparr>dn_state = SubActive, dn_past_due = False, dn_blocked = False, dn_grace_active = False\<rparr>
            else failE (BStore e))
       (\<lambda>b. case sub_status b of
              SubPastDue \<Rightarrow>
                bindE (grace_past_due st) (\<lambda>g.
                  okE \<lparr>dn_state = SubPastDue, dn_past_due = True, dn_blocked = (\<not> g), dn_grace_active = g\<rparr>)
            | SubUnpaid \<Rightarrow> okE \<lparr>dn_state = SubUnpaid, dn_past_due = True, dn_blocked = True, dn_grace_active = False\<rparr>
            | SubCanceled \<Rightarrow> okE \<lparr>dn_state = SubCanceled, dn_past_due = True, dn_blocked = True, dn_grace_active = False\<rparr>
            | x \<Rightarrow> okE \<lparr>dn_state = x, dn_past_due = False, dn_blocked = False, dn_grace_active = False\<rparr>)"

definition advance_dunning :: "'s bstore \<Rightarrow> string \<Rightarrow> bool \<Rightarrow> (berr, 's, unit) op" where
  "advance_dunning st org_i escalate =
     tryE (bs_get_subscription st org_i)
       (\<lambda>e. if e = ErrNotFound then okE () else failE (BStore e))
       (\<lambda>b. case sub_status b of
              SubCanceled \<Rightarrow> okE ()
            | SubUnpaid \<Rightarrow> okE ()
            | SubPastDue \<Rightarrow>
                if \<not> escalate then okE ()
                else lift_store (bs_upsert_subscription st (b\<lparr>sub_status := SubUnpaid\<rparr>))
            | _ \<Rightarrow> lift_store (bs_upsert_subscription st (b\<lparr>sub_status := SubPastDue\<rparr>)))"

definition clear_dunning :: "'s bstore \<Rightarrow> string \<Rightarrow> (berr, 's, bool) op" where
  "clear_dunning st org_i =
     tryE (bs_get_subscription st org_i)
       (\<lambda>e. if e = ErrNotFound then okE False else failE (BStore e))
       (\<lambda>b. if sub_status b \<in> {SubPastDue, SubUnpaid}
            then bindE (lift_store (bs_upsert_subscription st (b\<lparr>sub_status := SubActive\<rparr>))) (\<lambda>_. okE True)
            else okE False)"

section \<open>Sums without overflow\<close>

definition cost_sum :: "usage_record list \<Rightarrow> int" where
  "cost_sum rs = (\<Sum>r\<leftarrow>filter (\<lambda>r. is_cost_metric (ur_metric r)) rs. ur_quantity r)"

definition metric_sum :: "string \<Rightarrow> usage_record list \<Rightarrow> int" where
  "metric_sum m rs = (\<Sum>r\<leftarrow>filter (\<lambda>r. ur_metric r = m) rs. ur_quantity r)"

lemma micro_sum_wrap: "is_i64 acc \<Longrightarrow>
    micro_sum ok rs acc = wrap64 (acc + (\<Sum>r\<leftarrow>filter ok rs. ur_quantity r))"
proof (induction rs arbitrary: acc)
  case (Cons r rs)
  show ?case
  proof (cases "ok r")
    case True
    have "micro_sum ok (r # rs) acc = micro_sum ok rs (wrap64 (acc + ur_quantity r))"
      using True by (simp add: micro_sum_def)
    then show ?thesis using Cons.IH [OF wrap64_range, of "acc + ur_quantity r"] True
      by (simp add: wrap64_add_left add.assoc)
  next
    case False
    have "micro_sum ok (r # rs) acc = micro_sum ok rs acc" using False by (simp add: micro_sum_def)
    then show ?thesis using Cons False by simp
  qed
qed (simp add: micro_sum_def wrap64_id)

lemma is_i64_zero [simp]: "is_i64 0"
  by (simp add: is_i64_def min_i64_def max_i64_def)

lemma is_i64_between: "is_i64 a \<Longrightarrow> is_i64 c \<Longrightarrow> a \<le> b \<Longrightarrow> b \<le> c \<Longrightarrow> is_i64 b"
  by (simp add: is_i64_def)

lemma usage_so_far_exact:
  "0 \<le> cost_sum rs \<Longrightarrow> is_i64 (cost_sum rs) \<Longrightarrow> usage_so_far_cents rs = cost_sum rs div 1000"
  by (simp add: usage_so_far_cents_def micro_sum_wrap cost_sum_def wrap64_id sdiv_1000_nonneg)

lemma quantity_sum_mset:
  "mset rs = mset qs \<Longrightarrow> (\<Sum>r\<leftarrow>filter ok rs. ur_quantity r) = (\<Sum>r\<leftarrow>filter ok qs. ur_quantity r)"
  by (metis mset_filter mset_map sum_mset_sum_list)

lemma usage_so_far_mset: "mset rs = mset qs \<Longrightarrow> usage_so_far_cents rs = usage_so_far_cents qs"
  using quantity_sum_mset [of rs qs] by (simp add: usage_so_far_cents_def micro_sum_wrap)

lemma sum_nonneg_metric:
  "list_all (\<lambda>r. 0 \<le> ur_quantity r) rs \<Longrightarrow> 0 \<le> (\<Sum>r\<leftarrow>filter ok rs. ur_quantity r)"
  by (induction rs) auto

lemma cost_metric_cases:
  "is_cost_metric m \<longleftrightarrow> m = meter_metric \<or> m = meter_metric_storage \<or> m = meter_metric_egress"
  by (auto simp: is_cost_metric_def cost_metrics_def)

lemma metrics_distinct:
  "meter_metric \<noteq> meter_metric_storage" "meter_metric \<noteq> meter_metric_egress"
  "meter_metric_storage \<noteq> meter_metric_egress"
  by (simp_all add: meter_metric_def meter_metric_storage_def meter_metric_egress_def)

lemma cost_sum_split:
  "cost_sum rs = metric_sum meter_metric rs + metric_sum meter_metric_storage rs + metric_sum meter_metric_egress rs"
  by (induction rs) (auto simp: cost_sum_def metric_sum_def cost_metric_cases metrics_distinct
      metrics_distinct [symmetric])

lemma dimension_micro_filter:
  "dimension_micro rs = fold add_metric (filter (\<lambda>r. is_cost_metric (ur_metric r)) rs) []"
proof -
  have "fold (\<lambda>r m. if is_cost_metric (ur_metric r) then add_metric r m else m) rs a
      = fold add_metric (filter (\<lambda>r. is_cost_metric (ur_metric r)) rs) a" for a
    by (induction rs arbitrary: a) auto
  then show ?thesis by (simp add: dimension_micro_def)
qed

lemma gwf_fold_add_metric: "gwf m \<Longrightarrow> gwf (fold add_metric rs m)"
  by (induction rs arbitrary: m) (auto simp: add_metric_def Let_def)

lemma dimension_cents:
  assumes "is_cost_metric m" "0 \<le> metric_sum m rs" "is_i64 (metric_sum m rs)"
  shows "(case gget (usage_by_dimension_cents rs) m of None \<Rightarrow> 0 | Some c \<Rightarrow> c) = metric_sum m rs div 1000"
proof -
  have f: "(\<lambda>r. is_cost_metric (ur_metric r) \<and> ur_metric r = m) = (\<lambda>r. ur_metric r = m)"
    using assms(1) by auto
  have "case_option 0 id (gget (dimension_micro rs) m) = wrap64 (metric_sum m rs)"
    using fold_add_metric [of "[]" m "filter (\<lambda>r. is_cost_metric (ur_metric r)) rs"]
    by (simp add: dimension_micro_filter f metric_sum_def)
  then have mc: "case_option 0 id (gget (dimension_micro rs) m) = metric_sum m rs"
    using assms(3) by (simp add: wrap64_id)
  have "gwf (gmap (\<lambda>mc. mc sdiv 1000) (dimension_micro rs))"
    by (simp add: dimension_micro_filter gwf_fold_add_metric)
  then show ?thesis using mc assms(2)
    by (cases "gget (dimension_micro rs) m")
      (auto simp: usage_by_dimension_cents_def gget_gkeep sdiv_1000_nonneg not_less
        intro!: antisym [of _ 0] split: if_splits)
qed

section \<open>Charges and line items\<close>

text \<open>Amounts far from the ends of \<open>int64\<close>, as every real invoice has.\<close>

definition sane_plan :: "plan \<Rightarrow> bool" where
  "sane_plan p \<longleftrightarrow> 0 \<le> plan_price_cents p \<and> plan_price_cents p \<le> 10 ^ 15 \<and>
     0 \<le> plan_included_hours p * plan_overage_per_hour_cents p \<and>
     plan_included_hours p * plan_overage_per_hour_cents p \<le> 10 ^ 15"

definition sane_usage :: "usage_record list \<Rightarrow> bool" where
  "sane_usage rs \<longleftrightarrow> list_all (\<lambda>r. 0 \<le> ur_quantity r) rs \<and> cost_sum rs \<le> 10 ^ 18"

lemma sane_usage_cents:
  assumes "sane_usage rs"
  shows "usage_so_far_cents rs = cost_sum rs div 1000" "0 \<le> cost_sum rs" "is_i64 (cost_sum rs)"
proof -
  show nn: "0 \<le> cost_sum rs"
    using assms sum_nonneg_metric [of rs] by (simp add: sane_usage_def cost_sum_def)
  then show "is_i64 (cost_sum rs)"
    using assms by (simp add: sane_usage_def is_i64_def min_i64_def max_i64_def)
  with nn show "usage_so_far_cents rs = cost_sum rs div 1000" by (rule usage_so_far_exact)
qed

lemma allowance_sane: "sane_plan p \<Longrightarrow> allowance_cents p = plan_included_hours p * plan_overage_per_hour_cents p"
  by (simp add: allowance_cents_def wrap64_id sane_plan_def is_i64_def min_i64_def max_i64_def)

lemma invoice_charge:
  assumes "sane_plan p" "sane_usage rs"
  shows "invoice_from_records (Some p) rs =
    (let usage = cost_sum rs div 1000;
         overage = max 0 (usage - plan_included_hours p * plan_overage_per_hour_cents p)
     in \<lparr>iv_base_cents = plan_price_cents p, iv_overage_cents = overage,
         iv_usage_so_far_cents = usage, iv_charge_cents = plan_price_cents p + overage\<rparr>)"
proof -
  let ?u = "cost_sum rs div 1000" and ?a = "plan_included_hours p * plan_overage_per_hour_cents p"
  have u: "0 \<le> ?u" "?u \<le> 10 ^ 15"
    using sane_usage_cents(2) [OF assms(2)] assms(2) by (auto simp: sane_usage_def)
  have p: "0 \<le> ?a" "?a \<le> 10 ^ 15" "0 \<le> plan_price_cents p" "plan_price_cents p \<le> 10 ^ 15"
    using assms(1) by (simp_all add: sane_plan_def)
  have w: "wrap64 (?u - ?a) = ?u - ?a"
    using u p by (intro wrap64_id) (simp add: is_i64_def min_i64_def max_i64_def)
  have c: "wrap64 (plan_price_cents p + max 0 (?u - ?a)) = plan_price_cents p + max 0 (?u - ?a)"
    using u p by (intro wrap64_id) (auto simp: is_i64_def min_i64_def max_i64_def)
  have ov: "(if 0 < ?u - ?a then ?u - ?a else 0) = max 0 (?u - ?a)" by simp
  show ?thesis
    unfolding invoice_from_records_def Let_def option.case allowance_sane [OF assms(1)]
      sane_usage_cents(1) [OF assms(2)] w ov c by (rule refl)
qed

lemma div_sum3:
  "(a::int) div 1000 + b div 1000 + c div 1000 \<le> (a + b + c) div 1000"
  "(a + b + c) div 1000 \<le> a div 1000 + b div 1000 + c div 1000 + 2"
  by linarith+

lemma near_sum: "x \<le> u \<Longrightarrow> u \<le> x + 2 \<Longrightarrow> b + x - m \<le> b + (u - m) \<and> b + (u - m) \<le> b + x - m + (2::int)"
  by simp

lemma metric_sum_sane:
  assumes "sane_usage rs" "is_cost_metric m"
  shows "0 \<le> metric_sum m rs" "is_i64 (metric_sum m rs)"
proof -
  have nn: "0 \<le> metric_sum k rs" for k
    using assms(1) sum_nonneg_metric [of rs] by (simp add: sane_usage_def metric_sum_def)
  then show "0 \<le> metric_sum m rs" .
  have "metric_sum m rs \<le> cost_sum rs"
    using assms(2) nn by (auto simp: cost_sum_split cost_metric_cases)
  then show "is_i64 (metric_sum m rs)"
    using nn sane_usage_cents [OF assms(1)] is_i64_between [of 0 "cost_sum rs"] by simp
qed

definition items_total :: "invoice_line_item list \<Rightarrow> int" where
  "items_total xs = (\<Sum>x\<leftarrow>xs. li_amount_cents x)"

lemma items_total_parts:
  assumes "0 \<le> c1" "0 \<le> c2" "0 \<le> c3" "0 \<le> cr"
  shows "items_total ((if b \<noteq> 0 then [\<lparr>li_key = k0, li_label = l0, li_amount_cents = b\<rparr>] else []) @
      ((if 0 < c1 then [\<lparr>li_key = k1, li_label = l1, li_amount_cents = c1\<rparr>] else []) @
       (if 0 < c2 then [\<lparr>li_key = k2, li_label = l2, li_amount_cents = c2\<rparr>] else []) @
       (if 0 < c3 then [\<lparr>li_key = k3, li_label = l3, li_amount_cents = c3\<rparr>] else []) @ []) @
      (if 0 < cr then [\<lparr>li_key = k4, li_label = l4, li_amount_cents = - cr\<rparr>] else [])) =
    b + (c1 + c2 + c3) - cr"
  using assms by (auto simp: items_total_def)

lemma items_total_line_items:
  assumes "sane_plan p" "sane_usage rs" "iv = invoice_from_records (Some p) rs"
  shows "items_total (line_items (Some p) rs iv) =
    plan_price_cents p + (metric_sum meter_metric rs div 1000 + metric_sum meter_metric_storage rs div 1000
      + metric_sum meter_metric_egress rs div 1000)
    - min (plan_included_hours p * plan_overage_per_hour_cents p) (cost_sum rs div 1000)"
proof -
  let ?u = "cost_sum rs div 1000" and ?a = "plan_included_hours p * plan_overage_per_hour_cents p"
  have iv: "iv_base_cents iv = plan_price_cents p" "iv_usage_so_far_cents iv = ?u"
    unfolding assms(3) invoice_charge [OF assms(1,2)] by (simp_all add: Let_def)
  have d: "(case gget (usage_by_dimension_cents rs) m of None \<Rightarrow> 0 | Some c \<Rightarrow> c) = metric_sum m rs div 1000"
    "0 \<le> metric_sum m rs div 1000"
    if "is_cost_metric m" for m
    using dimension_cents [OF that metric_sum_sane [OF assms(2) that]] metric_sum_sane(1) [OF assms(2) that]
    by simp_all
  have m: "is_cost_metric meter_metric" "is_cost_metric meter_metric_storage" "is_cost_metric meter_metric_egress"
    by (simp_all add: cost_metric_cases)
  have nn: "0 \<le> ?u" "0 \<le> ?a" using sane_usage_cents(2) [OF assms(2)] assms(1) by (simp_all add: sane_plan_def)
  have credit: "min_int64 ?a ?u = min ?a ?u" by (simp add: min_int64_def min_def)
  show ?thesis
    unfolding line_items_def Let_def iv list.map concat.simps option.case allowance_sane [OF assms(1)]
      d(1) [OF m(1)] d(1) [OF m(2)] d(1) [OF m(3)] credit
    by (rule items_total_parts) (use d(2) [OF m(1)] d(2) [OF m(2)] d(2) [OF m(3)] nn in auto)
qed

section \<open>The history's periods\<close>

fun periods_linked :: "time \<Rightarrow> period_invoice list \<Rightarrow> bool" where
  "periods_linked fin [] \<longleftrightarrow> True"
| "periods_linked fin (p # ps) \<longleftrightarrow>
     pi_period_end p = fin \<and> pi_period_start p = add_months fin (- 1) \<and>
     periods_linked (pi_period_start p) ps"

text \<open>The period's usage as the stored records give it.\<close>

definition period_usage :: "mem \<Rightarrow> string \<Rightarrow> period_invoice \<Rightarrow> int" where
  "period_usage v i p =
     usage_so_far_cents (filter (in_period (pi_period_start p) (pi_period_end p)) (usage_of i v))"

lemma period_invoice_of_simps [simp]:
  "pi_period_start (period_invoice_of sb p cu c start fin rs) = start"
  "pi_period_end (period_invoice_of sb p cu c start fin rs) = fin"
  "pi_status (period_invoice_of sb p cu c start fin rs) = invoice_status_of sb c"
  by (simp_all add: period_invoice_of_def Let_def)

lemma invoice_usage [simp]: "iv_usage_so_far_cents (invoice_from_records p rs) = usage_so_far_cents rs"
  by (simp add: invoice_from_records_def Let_def split: option.splits)

lemma invoice_no_plan: "iv_charge_cents (invoice_from_records None rs) = 0"
  by (simp add: invoice_from_records_def Let_def)

lemma history_split:
  assumes "history_loop st i sb p cu (Suc k) c fin s = (Inr ps, t)"
  obtains rs u rest where
    "lift_store (bs_list_usage_by_org_since st i (add_months fin (- 1)) whole_page) s = (Inr rs, u)"
    "ps = period_invoice_of sb p cu c (add_months fin (- 1)) fin rs # rest"
    "rest = [] \<and> u = t \<and> \<not> c \<and> pi_charge_cents (hd ps) = 0 \<and> pi_usage_so_far_cents (hd ps) = 0 \<or>
     history_loop st i sb p cu k False (add_months fin (- 1)) u = (Inr rest, t)"
  using assms by (auto simp: bindE_def Let_def okE_def split: prod.splits sum.splits if_splits)

lemma history_linked:
  "history_loop st i sb p cu k c fin s = (Inr ps, t) \<Longrightarrow>
     periods_linked fin ps \<and> length ps \<le> k \<and> (0 < k \<longrightarrow> ps \<noteq> []) \<and>
     (\<forall>j < length ps. pi_status (ps ! j) = invoice_status_of sb (c \<and> j = 0))"
proof (induction k arbitrary: c fin s ps)
  case 0
  then show ?case by (auto simp: okE_def)
next
  case (Suc k)
  obtain rs u rest where r:
    "ps = period_invoice_of sb p cu c (add_months fin (- 1)) fin rs # rest"
    "rest = [] \<or> history_loop st i sb p cu k False (add_months fin (- 1)) u = (Inr rest, t)"
    using Suc.prems by (rule history_split) blast
  have IH: "periods_linked (add_months fin (- 1)) rest \<and> length rest \<le> k \<and>
      (\<forall>j < length rest. pi_status (rest ! j) = invoice_status_of sb False)"
    using r(2)
  proof
    assume "rest = []"
    then show ?thesis by simp
  next
    assume "history_loop st i sb p cu k False (add_months fin (- 1)) u = (Inr rest, t)"
    from Suc.IH [OF this] show ?thesis by simp
  qed
  then show ?case unfolding r(1) by (auto simp: nth_Cons split: nat.splits)
qed

lemma linked_nth:
  "periods_linked fin ps \<Longrightarrow> j < length ps \<Longrightarrow>
     pi_period_end (ps ! j) = (if j = 0 then fin else pi_period_start (ps ! (j - 1))) \<and>
     pi_period_start (ps ! j) = add_months (pi_period_end (ps ! j)) (- 1)"
proof (induction ps arbitrary: fin j)
  case (Cons p ps)
  then show ?case using Cons.IH [of "pi_period_start p" "j - 1"] by (cases j) (auto simp: nth_Cons')
qed simp

context faithful_store
begin

lemma usage_page_view:
  assumes "lift_store (bs_list_usage_by_org_since st i t whole_page) s = (Inr rs, u)"
  shows "view u = view s \<and> mset rs = mset (filter (\<lambda>r. t \<le> ur_at r) (usage_of i (view s)))"
proof -
  obtain q w where q: "bs_list_usage_by_org_since st i t whole_page s = (q, w)" by fastforce
  then have "q = Inr rs" "w = u"
    using assms by (auto simp: lift_store_def tryE_def okE_def failE_def split: sum.splits)
  then have "bs_list_usage_by_org_since st i t whole_page s = (Inr rs, u)" using q by simp
  from follows_read_Inr [OF usage_since this] show ?thesis
    using list_usage_since_mset by blast
qed

lemma in_period_of_page:
  assumes "mset rs = mset (filter (\<lambda>r. t \<le> ur_at r) us)"
  shows "usage_so_far_cents (filter (in_period t fin) rs) = usage_so_far_cents (filter (in_period t fin) us)"
proof (rule usage_so_far_mset)
  have "filter (in_period t fin) (filter (\<lambda>r. t \<le> ur_at r) us) = filter (in_period t fin) us"
    by (induction us) (auto simp: in_period_def)
  then show "mset (filter (in_period t fin) rs) = mset (filter (in_period t fin) us)"
    by (metis assms mset_filter)
qed

lemma history_usage:
  "history_loop st i sb p cu k c fin s = (Inr ps, t) \<Longrightarrow>
     view t = view s \<and> (\<forall>q \<in> set ps. pi_usage_so_far_cents q = period_usage (view s) i q)"
proof (induction k arbitrary: c fin s ps)
  case 0
  then show ?case by (auto simp: okE_def)
next
  case (Suc k)
  obtain rs u rest where r:
    "lift_store (bs_list_usage_by_org_since st i (add_months fin (- 1)) whole_page) s = (Inr rs, u)"
    "ps = period_invoice_of sb p cu c (add_months fin (- 1)) fin rs # rest"
    "rest = [] \<and> u = t \<or> history_loop st i sb p cu k False (add_months fin (- 1)) u = (Inr rest, t)"
    using Suc.prems by (rule history_split) blast
  note v = usage_page_view [OF r(1)]
  have head: "pi_usage_so_far_cents (hd ps) = period_usage (view s) i (hd ps)"
    unfolding r(2) using in_period_of_page [OF conjunct2 [OF v]]
    by (simp add: period_invoice_of_def Let_def period_usage_def)
  have "view t = view s \<and> (\<forall>q \<in> set rest. pi_usage_so_far_cents q = period_usage (view s) i q)"
    using r(3) Suc.IH [of False "add_months fin (- 1)" u rest] v by auto
  with head show ?case unfolding r(2) by simp
qed

end

section \<open>What the stored rows say\<close>

definition stored_subscription :: "mem \<Rightarrow> string \<Rightarrow> subscription option" where
  "stored_subscription v i = gget (st_subscriptions v) i"

definition stored_plan :: "mem \<Rightarrow> string \<Rightarrow> plan option" where
  "stored_plan v i =
     (case stored_subscription v i of None \<Rightarrow> None | Some b \<Rightarrow> gget (st_plans v) (sub_plan_id b))"

definition stored_invoice :: "mem \<Rightarrow> time \<Rightarrow> string \<Rightarrow> invoice" where
  "stored_invoice v now i =
     invoice_from_records (stored_plan v i)
       (filter (\<lambda>r. period_start now (stored_subscription v i) \<le> ur_at r) (usage_of i v))"

lemma invoice_mset: "mset rs = mset qs \<Longrightarrow> invoice_from_records p rs = invoice_from_records p qs"
  by (simp add: invoice_from_records_def usage_so_far_mset [of rs qs])

context faithful_store
begin

lemma subscription_cases:
  assumes "bs_get_subscription st i s = (q, u)"
  shows "view u = view s \<and>
    (case q of Inr b \<Rightarrow> stored_subscription (view s) i = Some b
     | Inl e \<Rightarrow> (e = ErrNotFound \<and> stored_subscription (view s) i = None) \<or> driver_error e)"
proof (cases q)
  case (Inl e)
  then show ?thesis using follows_read_Inl [OF subscription, of i s e u] assms
    by (auto simp: get_subscription_def stored_subscription_def)
next
  case (Inr b)
  then show ?thesis using follows_read_Inr [OF subscription, of i s b u] assms
    by (simp add: get_subscription_def stored_subscription_def)
qed

lemma driver_not_sentinel [simp]: "\<not> driver_error ErrNotFound" "\<not> driver_error ErrConflict"
  by (simp_all add: driver_error_def)

lemma plan_by_id_view:
  assumes "plan_by_id st i s = (q, u)"
  shows "view u = view s \<and> (case q of Inr p \<Rightarrow> p = gget (st_plans (view s)) i | Inl e \<Rightarrow> \<exists>d. e = BStore d \<and> driver_error d)"
proof -
  obtain r w where r: "bs_get_plan st i s = (r, w)" by fastforce
  show ?thesis
  proof (cases r)
    case (Inl e)
    then show ?thesis using follows_read_Inl [OF plan, of i s e w] r assms
      by (auto simp: plan_by_id_def tryE_def okE_def failE_def get_plan_def split: if_splits)
  next
    case (Inr p)
    then show ?thesis using follows_read_Inr [OF plan, of i s p w] r assms
      by (auto simp: plan_by_id_def tryE_def okE_def get_plan_def)
  qed
qed

lemma subscription_and_plan_view:
  assumes "subscription_and_plan st i s = (q, u)"
  shows "view u = view s \<and>
    (case q of Inr (sb, p) \<Rightarrow> sb = stored_subscription (view s) i \<and> p = stored_plan (view s) i
     | Inl e \<Rightarrow> \<exists>d. e = BStore d \<and> driver_error d)"
proof -
  obtain r w where r: "bs_get_subscription st i s = (r, w)" by fastforce
  note v = subscription_cases [OF r]
  show ?thesis
  proof (cases r)
    case (Inl e)
    then show ?thesis using v r assms
      by (auto simp: subscription_and_plan_def tryE_def okE_def failE_def stored_plan_def split: if_splits)
  next
    case (Inr b)
    obtain q2 w2 where p: "plan_by_id st (sub_plan_id b) w = (q2, w2)" by fastforce
    show ?thesis using Inr v r p plan_by_id_view [OF p] assms
      by (cases q2) (auto simp: subscription_and_plan_def tryE_def bindE_def okE_def stored_plan_def)
  qed
qed

lemma current_invoice_view:
  assumes "current_invoice st now i s = (q, u)"
  shows "view u = view s \<and> (case q of Inr x \<Rightarrow> x = stored_invoice (view s) now i
     | Inl e \<Rightarrow> \<exists>d. e = BStore d \<and> driver_error d)"
proof -
  obtain r w where r: "subscription_and_plan st i s = (r, w)" by fastforce
  note v = subscription_and_plan_view [OF r]
  show ?thesis
  proof (cases r)
    case (Inl e)
    then show ?thesis using v r assms by (auto simp: current_invoice_def bindE_def)
  next
    case (Inr bp)
    obtain sb p where bp: "bp = (sb, p)" by fastforce
    obtain q2 w2 where l: "lift_store (bs_list_usage_by_org_since st i (period_start now sb) whole_page) w = (q2, w2)"
      by fastforce
    show ?thesis
    proof (cases q2)
      case (Inl e)
      have "answers view (\<lambda>_. True) (lift_store (bs_list_usage_by_org_since st i (period_start now sb) whole_page))
          (\<lambda>v. apply_page (sort_usage_newest_first (filter (\<lambda>r. \<not> ur_at r < period_start now sb) (usage_of i v))) whole_page)"
        by (rule answers_store [OF usage_since]) (simp add: list_usage_by_org_since_def)
      then have "view w2 = view w \<and> (\<exists>d. e = BStore d \<and> driver_error d)"
        unfolding answers_def using l Inl by (auto dest!: spec [of _ w])
      with Inl Inr bp v r l assms show ?thesis by (auto simp: current_invoice_def bindE_def)
    next
      case rs: (Inr rs)
      from usage_page_view [OF l [unfolded rs]] have "view w2 = view w"
        "invoice_from_records p rs = invoice_from_records p (filter (\<lambda>r. period_start now sb \<le> ur_at r) (usage_of i (view w)))"
        by (auto intro: invoice_mset)
      with rs Inr bp v r l assms show ?thesis
        by (auto simp: current_invoice_def bindE_def okE_def stored_invoice_def)
    qed
  qed
qed

lemma invoice_history_loop:
  assumes "invoice_history st now i limit s = (Inr ps, t)"
  shows "\<exists>cu u. view u = view s \<and>
    history_loop st i (stored_subscription (view s) i) (stored_plan (view s) i) cu
       (nat (clamp_history limit)) True (period_end now (stored_subscription (view s) i)) u = (Inr ps, t)"
proof -
  obtain r w where r: "subscription_and_plan st i s = (r, w)" by fastforce
  note v = subscription_and_plan_view [OF r]
  obtain sb p where sp: "r = Inr (sb, p)"
    using assms r by (cases r) (auto simp: invoice_history_def bindE_def)
  obtain q2 w2 where c: "pricing_currency st w = (q2, w2)" by fastforce
  obtain cu where cu: "q2 = Inr cu"
    using assms r sp c by (cases q2) (auto simp: invoice_history_def bindE_def)
  have "answers view (\<lambda>_. True) (pricing_currency st)
      (\<lambda>v. case find (\<lambda>c. pc_currency c \<noteq> []) (sort_by (\<lambda>a b. pc_sort_order a < pc_sort_order b)
             (filter pc_active (gvals (st_pricing v)))) of Some c \<Rightarrow> pc_currency c | None \<Rightarrow> ''usd'')"
    unfolding pricing_currency_def
    by (rule answers_bind [OF pricing_components_answers])
      (auto intro: answers_ok split: option.splits)
  then have "view w2 = view w" using c unfolding answers_def by (auto dest!: spec [of _ w])
  then show ?thesis using v sp r c cu assms
    by (intro exI [of _ cu] exI [of _ w2]) (simp add: invoice_history_def bindE_def)
qed

end

section \<open>The gate's answers\<close>

definition spend_cap :: "mem \<Rightarrow> string \<Rightarrow> int" where
  "spend_cap v i =
     (case gget (st_organizations v) i of
        Some g \<Rightarrow> if org_spend_cap_cents g > 0 then org_spend_cap_cents g
                  else set_default_spend_cap_cents (st_settings v)
      | None \<Rightarrow> set_default_spend_cap_cents (st_settings v))"

definition standing_blocks :: "mem \<Rightarrow> string \<Rightarrow> bool" where
  "standing_blocks v i \<longleftrightarrow>
     (case stored_subscription v i of
        None \<Rightarrow> False
      | Some b \<Rightarrow> sub_status b \<in> {SubCanceled, SubUnpaid} \<or>
                  (sub_status b = SubPastDue \<and> \<not> set_grace_past_due (st_settings v)))"

definition gate :: "mem \<Rightarrow> time \<Rightarrow> string \<Rightarrow> berr + unit" where
  "gate v now i =
     (if standing_blocks v i
      then Inl (BPaymentRequired (SubscriptionStanding (sub_status (the (stored_subscription v i)))))
      else if 0 < spend_cap v i \<and> spend_cap v i \<le> iv_charge_cents (stored_invoice v now i)
      then Inl (BPaymentRequired (SpendCapReached (iv_charge_cents (stored_invoice v now i)) (spend_cap v i)))
      else Inr ())"

lemma memory_current_invoice: "current_invoice memory_bstore now i v = (Inr (stored_invoice v now i), v)"
proof -
  obtain q u where q: "current_invoice memory_bstore now i v = (q, u)" by fastforce
  have "subscription_and_plan memory_bstore i v = (Inr (stored_subscription v i, stored_plan v i), v)"
    by (auto simp: subscription_and_plan_def tryE_def bindE_def okE_def failE_def memory_bstore_def readE_def
        get_subscription_def stored_plan_def stored_subscription_def plan_by_id_def get_plan_def tbl_get_def
        split: option.splits)
  then have "\<exists>x. q = Inr x"
    using q by (auto simp: current_invoice_def bindE_def lift_store_def tryE_def okE_def memory_bstore_def
        readE_def list_usage_by_org_since_def)
  with memory.current_invoice_view [OF q] q show ?thesis by auto
qed

lemma memory_cap: "effective_spend_cap memory_bstore i v = (Inr (spend_cap v i), v)"
  by (auto simp: effective_spend_cap_def spend_cap_def tryE_def okE_def memory_bstore_def readE_def
      get_organization_def get_settings_def tbl_get_def Let_def split: option.splits)

lemma memory_under_cap:
  "ensure_under_cap memory_bstore now i v =
     (if 0 < spend_cap v i \<and> spend_cap v i \<le> iv_charge_cents (stored_invoice v now i)
      then Inl (BPaymentRequired (SpendCapReached (iv_charge_cents (stored_invoice v now i)) (spend_cap v i)))
      else Inr (), v)"
  by (simp add: ensure_under_cap_def bindE_def memory_cap memory_current_invoice okE_def failE_def not_le)

lemma memory_grace: "grace_past_due memory_bstore v = (Inr (set_grace_past_due (st_settings v)), v)"
  by (simp add: grace_past_due_def tryE_def okE_def memory_bstore_def readE_def get_settings_def)

lemma memory_ensure_active: "ensure_active memory_bstore now i v = (gate v now i, v)"
proof (cases "stored_subscription v i")
  case None
  then show ?thesis
    by (simp add: ensure_active_def tryE_def memory_bstore_def readE_def get_subscription_def
        stored_subscription_def tbl_get_def memory_under_cap [unfolded memory_bstore_def] gate_def standing_blocks_def)
next
  case (Some b)
  then have r: "bs_get_subscription memory_bstore i v = (Inr b, v)"
    by (simp add: memory_bstore_def readE_def get_subscription_def stored_subscription_def tbl_get_def)
  show ?thesis
    by (cases "sub_status b")
      (simp_all add: ensure_active_def tryE_def r bindE_def memory_grace memory_under_cap failE_def
        gate_def standing_blocks_def Some)
qed

lemma memory_dunning_status:
  "\<exists>d. dunning_status memory_bstore i v = (Inr d, v) \<and> dn_blocked d = standing_blocks v i"
proof (cases "stored_subscription v i")
  case None
  then show ?thesis
    by (simp add: dunning_status_def tryE_def memory_bstore_def readE_def get_subscription_def okE_def
        stored_subscription_def tbl_get_def standing_blocks_def)
next
  case (Some b)
  then have r: "bs_get_subscription memory_bstore i v = (Inr b, v)"
    by (simp add: memory_bstore_def readE_def get_subscription_def stored_subscription_def tbl_get_def)
  show ?thesis
    by (cases "sub_status b")
      (simp_all add: dunning_status_def tryE_def r bindE_def memory_grace okE_def standing_blocks_def Some)
qed

context faithful_store
begin

lemma grace_sound:
  assumes "grace_past_due st s = (Inr True, u)"
  shows "set_grace_past_due (st_settings (view s))"
proof -
  obtain q w where q: "bs_get_settings st s = (q, w)" by fastforce
  with assms obtain x where "q = Inr x" "set_grace_past_due x"
    by (cases q) (auto simp: grace_past_due_def tryE_def okE_def)
  with follows_read_Inr [OF settings, of s x w] q show ?thesis by (simp add: get_settings_def)
qed

text \<open>A standing that blocks is never let through, whatever fails.\<close>

lemma ensure_active_sound:
  assumes "ensure_active st now i s = (Inr x, t)"
  shows "\<not> standing_blocks (view s) i"
proof -
  obtain q w where q: "bs_get_subscription st i s = (q, w)" by fastforce
  note v = subscription_cases [OF q]
  show ?thesis
  proof (cases q)
    case (Inl e)
    then have "e = ErrNotFound" using assms q by (auto simp: ensure_active_def tryE_def failE_def split: if_splits)
    then show ?thesis using v Inl by (simp add: standing_blocks_def)
  next
    case (Inr b)
    then have b: "stored_subscription (view s) i = Some b" "view w = view s" using v by simp_all
    have "sub_status b \<noteq> SubCanceled" "sub_status b \<noteq> SubUnpaid"
      using assms q Inr by (auto simp: ensure_active_def tryE_def failE_def)
    moreover have "set_grace_past_due (st_settings (view s))" if p: "sub_status b = SubPastDue"
    proof -
      obtain g z where g: "grace_past_due st w = (g, z)" by fastforce
      then have "g = Inr True"
        using assms q Inr p
        by (cases g) (auto simp: ensure_active_def tryE_def bindE_def failE_def split: if_splits)
      with grace_sound [of w z] g b show ?thesis by simp
    qed
    ultimately show ?thesis using b by (auto simp: standing_blocks_def)
  qed
qed

end

section \<open>Collections as a state machine\<close>

definition advance_status :: "bool \<Rightarrow> subscription_status \<Rightarrow> subscription_status" where
  "advance_status escalate x =
     (case x of
        SubCanceled \<Rightarrow> SubCanceled
      | SubUnpaid \<Rightarrow> SubUnpaid
      | SubPastDue \<Rightarrow> if escalate then SubUnpaid else SubPastDue
      | _ \<Rightarrow> SubPastDue)"

definition clear_status :: "subscription_status \<Rightarrow> subscription_status" where
  "clear_status x = (if x \<in> {SubPastDue, SubUnpaid} then SubActive else x)"

inductive dunning_step :: "subscription_status \<Rightarrow> subscription_status \<Rightarrow> bool" where
  "dunning_step x x"
| "dunning_step x (advance_status e x)"
| "dunning_step x (clear_status x)"

inductive_simps dunning_step_from_canceled: "dunning_step SubCanceled x"

lemma canceled_terminal: "dunning_step SubCanceled x \<longleftrightarrow> x = SubCanceled"
  by (auto simp: dunning_step_from_canceled advance_status_def clear_status_def)

lemma status_update_same [simp]: "b\<lparr>sub_status := sub_status b\<rparr> = b"
  by simp

context faithful_store
begin

text \<open>What the two transitions may do to the stored subscription of \<open>i\<close>, and to nothing else.\<close>

lemma upsert_status_view:
  assumes "lift_store (bs_upsert_subscription st (b\<lparr>sub_status := x\<rparr>)) s = (q, t)"
  shows "view t = view s \<or> view t = snd (upsert_subscription (b\<lparr>sub_status := x\<rparr>) (view s))"
    and "q = Inr y \<Longrightarrow> view t = snd (upsert_subscription (b\<lparr>sub_status := x\<rparr>) (view s))"
proof -
  obtain r w where r: "bs_upsert_subscription st (b\<lparr>sub_status := x\<rparr>) s = (r, w)" by fastforce
  then have t: "t = w" "q = Inr y \<Longrightarrow> r = Inr y"
    using assms by (auto simp: lift_store_def tryE_def okE_def failE_def split: sum.splits)
  show "view t = view s \<or> view t = snd (upsert_subscription (b\<lparr>sub_status := x\<rparr>) (view s))"
    using follows_effect [OF upsert, of "b\<lparr>sub_status := x\<rparr>" s] r t by simp
  assume "q = Inr y"
  then have "r = Inr y" by (rule t)
  with r have "bs_upsert_subscription st (b\<lparr>sub_status := x\<rparr>) s = (Inr y, w)" by simp
  from follows_Inr [OF upsert this] t show "view t = snd (upsert_subscription (b\<lparr>sub_status := x\<rparr>) (view s))"
    by (metis snd_conv)
qed

lemma stored_after_upsert:
  assumes "billing_wf v" "stored_subscription v i = Some b"
  shows "stored_subscription (snd (upsert_subscription (b\<lparr>sub_status := x\<rparr>) v)) j =
    (if j = i then Some (b\<lparr>sub_status := x\<rparr>) else stored_subscription v j)"
proof -
  have "sub_org_id b = i" using assms by (simp add: billing_wf_def keyed_def stored_subscription_def)
  then show ?thesis by (simp add: upsert_subscription_def stored_subscription_def)
qed

lemma advance_dunning_view:
  assumes "advance_dunning st i e s = (q, t)" "billing_wf (view s)"
  shows "billing_wf (view t) \<and>
    (stored_subscription (view t) = stored_subscription (view s) \<or>
     (\<exists>b. stored_subscription (view s) i = Some b \<and>
        stored_subscription (view t) = (stored_subscription (view s))(i \<mapsto> b\<lparr>sub_status := advance_status e (sub_status b)\<rparr>))) \<and>
    (\<forall>y. q = Inr y \<longrightarrow> stored_subscription (view t) i =
        map_option (\<lambda>b. b\<lparr>sub_status := advance_status e (sub_status b)\<rparr>) (stored_subscription (view s) i))"
proof -
  obtain r w where r: "bs_get_subscription st i s = (r, w)" by fastforce
  note v = subscription_cases [OF r]
  show ?thesis
  proof (cases r)
    case (Inl f)
    then show ?thesis using v r assms
      by (auto simp: advance_dunning_def tryE_def okE_def failE_def split: if_splits)
  next
    case (Inr b)
    then have b: "stored_subscription (view s) i = Some b" "view w = view s" using v by simp_all
    let ?x = "advance_status e (sub_status b)"
    show ?thesis
    proof (cases "?x = sub_status b")
      case True
      then have "q = Inr () \<and> t = w"
        using assms(1) r Inr
        by (auto simp: advance_dunning_def tryE_def okE_def advance_status_def
            split: subscription_status.splits if_splits)
      then show ?thesis using b True assms(2) by simp
    next
      case False
      then have u: "lift_store (bs_upsert_subscription st (b\<lparr>sub_status := ?x\<rparr>)) w = (q, t)"
        using assms(1) r Inr
        by (auto simp: advance_dunning_def tryE_def okE_def advance_status_def
            split: subscription_status.splits if_splits)
      note st' = stored_after_upsert [OF assms(2) b(1), of ?x]
      have wf: "billing_wf (view t)"
        using upsert_status_view(1) [OF u] assms(2) b(2)
        by (auto intro: keepsD [OF billing_keeps_upserts(1)])
      have upd: "stored_subscription (snd (upsert_subscription (b\<lparr>sub_status := ?x\<rparr>) (view s))) =
          (stored_subscription (view s))(i \<mapsto> b\<lparr>sub_status := ?x\<rparr>)"
        by (rule ext) (simp add: st')
      then have "stored_subscription (view t) = stored_subscription (view s) \<or>
          stored_subscription (view t) = (stored_subscription (view s))(i \<mapsto> b\<lparr>sub_status := ?x\<rparr>)"
        using upsert_status_view(1) [OF u] b(2) by auto
      moreover have "stored_subscription (view t) i = Some (b\<lparr>sub_status := ?x\<rparr>)" if "q = Inr y" for y
        using upsert_status_view(2) [OF u that] b(2) upd by simp
      ultimately show ?thesis using wf b by auto
    qed
  qed
qed

lemma clear_dunning_view:
  assumes "clear_dunning st i s = (q, t)" "billing_wf (view s)"
  shows "billing_wf (view t) \<and>
    (stored_subscription (view t) = stored_subscription (view s) \<or>
     (\<exists>b. stored_subscription (view s) i = Some b \<and>
        stored_subscription (view t) = (stored_subscription (view s))(i \<mapsto> b\<lparr>sub_status := clear_status (sub_status b)\<rparr>))) \<and>
    (\<forall>y. q = Inr y \<longrightarrow> stored_subscription (view t) i =
        map_option (\<lambda>b. b\<lparr>sub_status := clear_status (sub_status b)\<rparr>) (stored_subscription (view s) i))"
proof -
  obtain r w where r: "bs_get_subscription st i s = (r, w)" by fastforce
  note v = subscription_cases [OF r]
  show ?thesis
  proof (cases r)
    case (Inl f)
    then show ?thesis using v r assms
      by (auto simp: clear_dunning_def tryE_def okE_def failE_def split: if_splits)
  next
    case (Inr b)
    then have b: "stored_subscription (view s) i = Some b" "view w = view s" using v by simp_all
    show ?thesis
    proof (cases "sub_status b \<in> {SubPastDue, SubUnpaid}")
      case False
      then have "q = Inr False \<and> t = w" "clear_status (sub_status b) = sub_status b"
        using assms(1) r Inr by (auto simp: clear_dunning_def tryE_def okE_def clear_status_def)
      then show ?thesis using b assms(2) by simp
    next
      case True
      then have x: "clear_status (sub_status b) = SubActive" by (simp add: clear_status_def)
      obtain q2 w2 where u: "lift_store (bs_upsert_subscription st (b\<lparr>sub_status := SubActive\<rparr>)) w = (q2, w2)"
        by fastforce
      then have t: "t = w2" "\<And>y. q = Inr y \<Longrightarrow> \<exists>z. q2 = Inr z"
        using assms(1) r Inr True
        by (auto simp: clear_dunning_def tryE_def bindE_def okE_def split: sum.splits)
      note st' = stored_after_upsert [OF assms(2) b(1), of SubActive]
      have wf: "billing_wf (view w2)"
        using upsert_status_view(1) [OF u] assms(2) b(2)
        by (auto intro: keepsD [OF billing_keeps_upserts(1)])
      have upd: "stored_subscription (snd (upsert_subscription (b\<lparr>sub_status := SubActive\<rparr>) (view s))) =
          (stored_subscription (view s))(i \<mapsto> b\<lparr>sub_status := SubActive\<rparr>)"
        by (rule ext) (simp add: st')
      then have "stored_subscription (view t) = stored_subscription (view s) \<or>
          stored_subscription (view t) = (stored_subscription (view s))(i \<mapsto> b\<lparr>sub_status := SubActive\<rparr>)"
        using upsert_status_view(1) [OF u] b(2) t(1) by auto
      moreover have "stored_subscription (view t) i = Some (b\<lparr>sub_status := SubActive\<rparr>)" if "q = Inr y" for y
        using upsert_status_view(2) [OF u] t(2) [OF that] t(1) b(2) upd by auto
      ultimately show ?thesis using wf t(1) b x by auto
    qed
  qed
qed

end

section \<open>Properties\<close>

text \<open>C18: for amounts far from the ends of \<open>int64\<close> the charge is the plan's price plus what the
  metered usage exceeds the included allowance by, and more usage never lowers it.\<close>

theorem charge_is_base_plus_overage:
  assumes "sane_plan p" "sane_usage (rs @ qs)"
  shows "iv_charge_cents (invoice_from_records (Some p) rs) =
      plan_price_cents p + max 0 (cost_sum rs div 1000 - plan_included_hours p * plan_overage_per_hour_cents p) \<and>
    iv_charge_cents (invoice_from_records (Some p) rs) \<le> iv_charge_cents (invoice_from_records (Some p) (rs @ qs))"
proof -
  have split: "cost_sum (rs @ qs) = cost_sum rs + cost_sum qs" by (simp add: cost_sum_def)
  have nn: "0 \<le> cost_sum qs" using assms(2) sum_nonneg_metric [of qs] by (simp add: sane_usage_def cost_sum_def)
  then have rs: "sane_usage rs" using assms(2) split by (auto simp: sane_usage_def)
  have "cost_sum rs div 1000 \<le> cost_sum (rs @ qs) div 1000" using nn split by (intro zdiv_mono1) auto
  then show ?thesis
    unfolding invoice_charge [OF assms(1) rs] invoice_charge [OF assms] by (simp add: Let_def)
qed

lemma charge_is_base_plus_overage_witness:
  "iv_charge_cents (invoice_from_records (Some (default_plans ! 1)) [sample_usage ''r'' meter_metric 2000000 0]) = 3460"
proof -
  have "sane_plan (default_plans ! 1)" by (simp add: sane_plan_def default_plans_def)
  moreover have "sane_usage ([sample_usage ''r'' meter_metric 2000000 0] @ [])"
    by (simp add: sane_usage_def sample_usage_def cost_sum_def)
  ultimately show ?thesis
    using charge_is_base_plus_overage [of "default_plans ! 1" "[sample_usage ''r'' meter_metric 2000000 0]" "[]"]
    by (simp add: cost_sum_def sample_usage_def default_plans_def cost_metric_cases)
qed

text \<open>the line items never exceed the charge and fall short of it by at most two cents, one
  per further cost dimension: each dimension is floored to whole cents on its own.\<close>

theorem line_items_within_two_cents:
  assumes "sane_plan p" "sane_usage rs" "iv = invoice_from_records (Some p) rs"
  shows "items_total (line_items (Some p) rs iv) \<le> iv_charge_cents iv \<and>
    iv_charge_cents iv \<le> items_total (line_items (Some p) rs iv) + 2"
proof -
  let ?a = "plan_included_hours p * plan_overage_per_hour_cents p" and ?u = "cost_sum rs div 1000"
  have c: "iv_charge_cents iv = plan_price_cents p + max 0 (?u - ?a)"
    unfolding assms(3) invoice_charge [OF assms(1,2)] by (simp add: Let_def)
  have m: "max 0 (?u - ?a) = ?u - min ?a ?u" by (simp add: max_def min_def)
  show ?thesis
    unfolding c m items_total_line_items [OF assms]
    unfolding cost_sum_split by (rule near_sum [OF div_sum3])
qed

lemma line_items_within_two_cents_witness:
  "(let rs = [sample_usage ''a'' meter_metric 999 0, sample_usage ''b'' meter_metric_storage 999 0,
              sample_usage ''c'' meter_metric_egress 999 0];
        p = (default_plans ! 1)\<lparr>plan_included_hours := 0\<rparr>; iv = invoice_from_records (Some p) rs
    in items_total (line_items (Some p) rs iv) \<le> iv_charge_cents iv \<and>
       iv_charge_cents iv = items_total (line_items (Some p) rs iv) + 2)"
proof -
  let ?rs = "[sample_usage ''a'' meter_metric 999 0, sample_usage ''b'' meter_metric_storage 999 0,
              sample_usage ''c'' meter_metric_egress 999 0]"
  let ?p = "(default_plans ! 1)\<lparr>plan_included_hours := 0\<rparr>"
  have ok: "sane_plan ?p" "sane_usage ?rs"
    by (simp_all add: sane_plan_def default_plans_def sane_usage_def sample_usage_def cost_sum_def cost_metric_cases)
  have "iv_charge_cents (invoice_from_records (Some ?p) ?rs) = items_total (line_items (Some ?p) ?rs (invoice_from_records (Some ?p) ?rs)) + 2"
    unfolding invoice_charge [OF ok] items_total_line_items [OF ok refl, unfolded invoice_charge [OF ok]]
    by (simp add: Let_def cost_sum_def metric_sum_def sample_usage_def cost_metric_cases metrics_distinct
        metrics_distinct [symmetric] default_plans_def)
  then show ?thesis
    using line_items_within_two_cents [OF ok refl] by (simp add: Let_def)
qed

text \<open>an invoice history, computed over a store that may fail, lists between one and 24 periods,
  newest first, each starting where the next older one ends and 28 to 31 days long; only the
  first is open, and each period's usage is exactly that of the stored records inside it.\<close>

theorem history_periods:
  assumes "invoice_history flaky_bstore now i limit (v, fs) = (Inr ps, t)"
  shows "0 < length ps \<and> length ps \<le> 24 \<and>
    (\<forall>j < length ps.
       pi_period_end (ps ! j) =
         (if j = 0 then period_end now (stored_subscription v i) else pi_period_start (ps ! (j - 1))) \<and>
       28 * day_ns \<le> pi_period_end (ps ! j) - pi_period_start (ps ! j) \<and>
       pi_period_end (ps ! j) - pi_period_start (ps ! j) \<le> 31 * day_ns \<and>
       (pi_status (ps ! j) = InvoiceOpen \<longleftrightarrow> j = 0) \<and>
       pi_usage_so_far_cents (ps ! j) = period_usage v i (ps ! j))"
proof -
  obtain cu u where u: "fst u = v"
    "history_loop flaky_bstore i (stored_subscription v i) (stored_plan v i) cu
       (nat (clamp_history limit)) True (period_end now (stored_subscription v i)) u = (Inr ps, t)"
    using flaky.invoice_history_loop [OF assms] by auto
  have n: "0 < nat (clamp_history limit)" "nat (clamp_history limit) \<le> 24"
    by (auto simp: clamp_history_def max_invoice_periods_def Let_def)
  note l = history_linked [OF u(2)]
  have "length ps \<le> 24 \<and> 0 < length ps" using l n by auto
  moreover have "pi_status (ps ! j) = InvoiceOpen \<longleftrightarrow> j = 0" if "j < length ps" for j
    using l that by (auto simp: invoice_status_of_def split: option.splits)
  moreover have "pi_usage_so_far_cents (ps ! j) = period_usage v i (ps ! j)" if "j < length ps" for j
    using flaky.history_usage [OF u(2)] u(1) that by auto
  moreover have "28 * day_ns \<le> pi_period_end (ps ! j) - pi_period_start (ps ! j) \<and>
       pi_period_end (ps ! j) - pi_period_start (ps ! j) \<le> 31 * day_ns" if "j < length ps" for j
    using linked_nth [of _ ps j] l that month_back [of "pi_period_end (ps ! j)"] by fastforce
  ultimately show ?thesis using linked_nth [of _ ps] l by blast
qed

lemma healthy_history:
  "\<exists>ps w. history_loop flaky_bstore i sb p cu k c fin (v, []) = (Inr ps, (w, []))"
proof (induction k arbitrary: c fin v)
  case 0
  then show ?case by (simp add: okE_def)
next
  case (Suc k)
  have "succeeds (lift_store (bs_list_usage_by_org_since flaky_bstore i (add_months fin (- 1)) whole_page))"
    by (simp add: flaky_bstore_def, rule succeeds_lift, simp add: readE_def list_usage_by_org_since_def)
  then obtain rs w where "lift_store (bs_list_usage_by_org_since flaky_bstore i (add_months fin (- 1)) whole_page) (v, []) = (Inr rs, (w, []))"
    unfolding succeeds_def by blast
  then show ?case using Suc.IH [of False "add_months fin (- 1)" w]
    by (auto simp: Let_def bindE_def okE_def)
qed

lemma healthy_invoice_history:
  "\<exists>ps w. invoice_history flaky_bstore now i limit (v, []) = (Inr ps, (w, []))"
proof -
  have sp: "subscription_and_plan flaky_bstore i (v, []) = (Inr (stored_subscription v i, stored_plan v i), (v, []))"
    by (auto simp: subscription_and_plan_def tryE_def bindE_def okE_def failE_def flaky_bstore_def readE_def
        faulty_healthy get_subscription_def stored_plan_def stored_subscription_def plan_by_id_def get_plan_def
        tbl_get_def split: option.splits)
  have "succeeds (pricing_currency flaky_bstore)"
    unfolding pricing_currency_def pricing_components_def
    by (intro succeeds_bind succeeds_reads succeeds_ok) (auto split: option.splits)
  then obtain cu w where "pricing_currency flaky_bstore (v, []) = (Inr cu, (w, []))"
    unfolding succeeds_def by blast
  then show ?thesis using sp healthy_history by (simp add: invoice_history_def bindE_def)
qed

lemma history_periods_witness:
  "\<exists>ps t. invoice_history flaky_bstore 0 ''o1'' 12 (sample_store, []) = (Inr ps, t) \<and>
     pi_period_end (ps ! 0) = 2592000000000000 \<and> length ps \<le> 24"
proof -
  obtain ps w where h: "invoice_history flaky_bstore 0 ''o1'' 12 (sample_store, []) = (Inr ps, (w, []))"
    using healthy_invoice_history by blast
  have "period_end 0 (stored_subscription sample_store ''o1'') = 2592000000000000"
    by (simp add: period_end_def stored_subscription_def sample_tables gget_def sample_subscription_def
        is_zero_def zero_time_def)
  with history_periods [OF h] h show ?thesis by fastforce
qed

text \<open>the history stops at the first closed period without usage or base fee. For an organization
  on no plan whose last closed period has no cost, everything older is left out of the history
  whatever was metered then.\<close>

theorem history_stops_at_gap:
  assumes "stored_plan v i = None"
    and "fin = period_end now (stored_subscription v i)"
    and "usage_so_far_cents (filter (in_period (add_months (add_months fin (- 1)) (- 1)) (add_months fin (- 1)))
           (usage_of i v)) = 0"
    and "invoice_history flaky_bstore now i limit (v, fs) = (Inr ps, t)"
  shows "length ps \<le> 2"
proof -
  obtain cu u where u: "fst u = v"
    "history_loop flaky_bstore i (stored_subscription v i) None cu (nat (clamp_history limit)) True fin u = (Inr ps, t)"
    using flaky.invoice_history_loop [OF assms(4)] assms(1,2) by auto
  obtain k where k: "nat (clamp_history limit) = Suc k"
    by (cases "nat (clamp_history limit)") (auto simp: clamp_history_def max_invoice_periods_def Let_def split: if_splits)
  obtain rs u1 rest where r: "lift_store (bs_list_usage_by_org_since flaky_bstore i (add_months fin (- 1)) whole_page) u = (Inr rs, u1)"
    "ps = period_invoice_of (stored_subscription v i) None cu True (add_months fin (- 1)) fin rs # rest"
    "history_loop flaky_bstore i (stored_subscription v i) None cu k False (add_months fin (- 1)) u1 = (Inr rest, t)"
    by (rule history_split [OF u(2) [unfolded k]]) auto
  show ?thesis
  proof (cases k)
    case 0
    then show ?thesis using r by (simp add: okE_def)
  next
    case (Suc m)
    obtain qs u2 rest2 where q: "lift_store (bs_list_usage_by_org_since flaky_bstore i
        (add_months (add_months fin (- 1)) (- 1)) whole_page) u1 = (Inr qs, u2)"
      "rest = period_invoice_of (stored_subscription v i) None cu False (add_months (add_months fin (- 1)) (- 1))
         (add_months fin (- 1)) qs # rest2"
      using r(3) [unfolded Suc] by (rule history_split)
    have "fst u1 = v" using flaky.usage_page_view [OF r(1)] u(1) by simp
    then have "usage_so_far_cents (filter (in_period (add_months (add_months fin (- 1)) (- 1)) (add_months fin (- 1))) qs) = 0"
      using flaky.in_period_of_page [OF conjunct2 [OF flaky.usage_page_view [OF q(1)]]] assms(3) by simp
    then have "pi_usage_so_far_cents (hd rest) = 0" "pi_charge_cents (hd rest) = 0"
      unfolding q(2) by (simp_all add: period_invoice_of_def Let_def invoice_no_plan)
    then have "rest2 = []"
      using r(3) q unfolding Suc by (auto simp: Let_def bindE_def okE_def)
    then show ?thesis using r(2) q(2) by simp
  qed
qed

definition gap_store :: mem where
  "gap_store = new_memory_store\<lparr>st_usage := [(''o1'', [sample_usage ''r'' meter_metric 5000 0])]\<rparr>"

lemma history_stops_at_gap_witness:
  "\<exists>ps t. invoice_history flaky_bstore 31536000000000000 ''o1'' 24 (gap_store, []) = (Inr ps, t) \<and>
     length ps \<le> 2 \<and> usage_so_far_cents (usage_of ''o1'' gap_store) = 5"
proof -
  obtain ps w where h: "invoice_history flaky_bstore 31536000000000000 ''o1'' 24 (gap_store, []) = (Inr ps, (w, []))"
    using healthy_invoice_history by blast
  have none: "stored_subscription gap_store ''o1'' = None"
    by (simp add: gap_store_def stored_subscription_def new_memory_store_def)
  have "2 * 31 * day_ns < (31536000000000000::int)" by (simp add: day_ns_def)
  then have "(0::int) < add_months (add_months 31536000000000000 (- 1)) (- 1)"
    using month_back(2) [of 31536000000000000] month_back(2) [of "add_months 31536000000000000 (- 1)"] by linarith
  then have "usage_so_far_cents (filter (in_period (add_months (add_months 31536000000000000 (- 1)) (- 1))
      (add_months 31536000000000000 (- 1))) (usage_of ''o1'' gap_store)) = 0"
    by (simp add: gap_store_def usage_of_def gget_def sample_usage_def in_period_def usage_so_far_cents_def micro_sum_def)
  then have "length ps \<le> 2"
    using history_stops_at_gap [OF _ refl _ h] none by (simp add: stored_plan_def period_end_def)
  moreover have "usage_so_far_cents (usage_of ''o1'' gap_store) = 5"
    by (simp add: gap_store_def usage_of_def gget_def sample_usage_def usage_so_far_cents_def micro_sum_def
        cost_metric_cases wrap64_def signed_divide_int_def)
  ultimately show ?thesis using h by blast
qed

text \<open>on the memory store the gate answers exactly as specified: a canceled, unpaid or ungraced
  past-due subscription is refused for its standing, otherwise a charge at or over a positive
  cap is refused for the cap, otherwise the organization may provision; and the dunning status
  reports \<open>blocked\<close> exactly when the gate refuses for the standing.\<close>

theorem gate_decision:
  "ensure_active memory_bstore now i v = (gate v now i, v) \<and>
   (\<exists>d. dunning_status memory_bstore i v = (Inr d, v) \<and>
      (dn_blocked d \<longleftrightarrow> (\<exists>x. gate v now i = Inl (BPaymentRequired (SubscriptionStanding x)))))"
proof -
  have "standing_blocks v i \<longleftrightarrow> (\<exists>x. gate v now i = Inl (BPaymentRequired (SubscriptionStanding x)))"
    by (simp add: gate_def)
  then show ?thesis using memory_ensure_active [of now i v] memory_dunning_status [of i v] by auto
qed

text \<open>whatever calls to the store fail, the gate never lets an organization through whose
  subscription is canceled, unpaid, or past due without the grace window.\<close>

theorem gate_never_passes_blocked_standing:
  assumes "standing_blocks v i"
  shows "fst (ensure_active flaky_bstore now i (v, fs)) \<noteq> Inr ()"
proof
  assume "fst (ensure_active flaky_bstore now i (v, fs)) = Inr ()"
  then have "ensure_active flaky_bstore now i (v, fs) = (Inr (), snd (ensure_active flaky_bstore now i (v, fs)))"
    by (metis prod.collapse)
  from flaky.ensure_active_sound [OF this] assms show False by simp
qed

definition canceled_store :: mem where
  "canceled_store = sample_store\<lparr>st_subscriptions := [(''o1'', sample_subscription\<lparr>sub_status := SubCanceled\<rparr>)]\<rparr>"

lemma canceled_store_standing: "stored_subscription canceled_store ''o1'' = Some (sample_subscription\<lparr>sub_status := SubCanceled\<rparr>)"
  by (simp add: canceled_store_def stored_subscription_def gget_def)

lemma gate_never_passes_blocked_standing_witness:
  "fst (ensure_active flaky_bstore 0 ''o1'' (canceled_store, [NoFault, FailBefore])) \<noteq> Inr ()"
  by (rule gate_never_passes_blocked_standing) (simp add: standing_blocks_def canceled_store_standing)

text \<open>the spend cap, unlike the standing, is not enforced when it cannot be read. If the reads of
  the organization and of the settings both fail, an active organization passes the gate
  whatever it has been charged and whatever its cap is.\<close>

theorem spend_cap_fails_open:
  assumes "stored_subscription v i = Some b" "sub_status b = SubActive"
  shows "ensure_active flaky_bstore now i (v, [NoFault, FailBefore, FailBefore]) = (Inr (), (v, []))"
proof -
  have "gget (st_subscriptions v) i = Some b" using assms(1) by (simp add: stored_subscription_def)
  then show ?thesis using assms(2)
    by (simp add: ensure_active_def tryE_def flaky_bstore_def faulty_next readE_def get_subscription_def
        tbl_get_def ensure_under_cap_def effective_spend_cap_def bindE_def okE_def Let_def)
qed

lemma spend_cap_fails_open_witness:
  "ensure_active flaky_bstore 0 ''o1'' (sample_store, [NoFault, FailBefore, FailBefore]) = (Inr (), (sample_store, []))"
  by (rule spend_cap_fails_open [where b = sample_subscription])
    (simp_all add: stored_subscription_def sample_tables gget_def sample_subscription_def)

text \<open>Any sequence of collections transitions, on any organizations.\<close>

datatype dunning_call = AdvanceCall string bool | ClearCall string

fun run_dunning :: "'s bstore \<Rightarrow> dunning_call list \<Rightarrow> 's \<Rightarrow> 's" where
  "run_dunning st [] s = s"
| "run_dunning st (AdvanceCall i e # cs) s = run_dunning st cs (snd (advance_dunning st i e s))"
| "run_dunning st (ClearCall i # cs) s = run_dunning st cs (snd (clear_dunning st i s))"

definition status_at :: "mem \<Rightarrow> string \<Rightarrow> subscription_status option" where
  "status_at v i = map_option sub_status (stored_subscription v i)"

context faithful_store
begin

lemma dunning_call_step:
  assumes "billing_wf (view s)" "t = run_dunning st [c] s"
  shows "billing_wf (view t) \<and>
    rel_option dunning_step (status_at (view s) i) (status_at (view t) i)"
proof -
  have "(stored_subscription (view t) = stored_subscription (view s) \<or>
     (\<exists>j b f. stored_subscription (view s) j = Some b \<and> dunning_step (sub_status b) f \<and>
        stored_subscription (view t) = (stored_subscription (view s))(j \<mapsto> b\<lparr>sub_status := f\<rparr>))) \<and>
     billing_wf (view t)"
  proof (cases c)
    case (AdvanceCall j e)
    then show ?thesis
      using advance_dunning_view [of j e s "fst (advance_dunning st j e s)" t] assms
      by (auto intro: dunning_step.intros)
  next
    case (ClearCall j)
    then show ?thesis
      using clear_dunning_view [of j s "fst (clear_dunning st j s)" t] assms
      by (auto intro: dunning_step.intros)
  qed
  moreover have "rel_option dunning_step x x" for x
    by (cases x) (auto intro: dunning_step.intros)
  ultimately show ?thesis by (auto simp: status_at_def)
qed

lemma run_dunning_canceled:
  "billing_wf (view s) \<Longrightarrow> status_at (view s) i = Some SubCanceled \<Longrightarrow>
     status_at (view (run_dunning st cs s)) i = Some SubCanceled"
proof (induction cs arbitrary: s)
  case (Cons c cs)
  let ?t = "run_dunning st [c] s"
  have t: "billing_wf (view ?t)" "status_at (view ?t) i = Some SubCanceled"
    using dunning_call_step [OF Cons.prems(1) refl, of c i] Cons.prems(2)
    by (auto simp: option_rel_Some1 canceled_terminal)
  have "run_dunning st (c # cs) s = run_dunning st cs ?t" by (cases c) simp_all
  with Cons.IH [OF t] show ?case by simp
qed simp

end

text \<open>a canceled subscription is terminal for collections: no sequence of failed-payment and
  successful-payment transitions, over a store that may fail anywhere, changes it.\<close>

theorem dunning_never_resurrects:
  assumes "billing_wf v" "status_at v i = Some SubCanceled"
  shows "status_at (fst (run_dunning flaky_bstore cs (v, fs))) i = Some SubCanceled"
  using flaky.run_dunning_canceled [of "(v, fs)" i cs] assms by simp

lemma dunning_never_resurrects_witness:
  "status_at (fst (run_dunning flaky_bstore [ClearCall ''o1'', AdvanceCall ''o1'' True] (canceled_store, [NoFault, FailAfter]))) ''o1''
     = Some SubCanceled"
proof (rule dunning_never_resurrects)
  show "billing_wf canceled_store"
    using sample_billing_wf
    by (simp add: canceled_store_def billing_wf_def keyed_def gwf_def gget_def sample_subscription_def)
  show "status_at canceled_store ''o1'' = Some SubCanceled"
    by (simp add: status_at_def canceled_store_standing)
qed

text \<open>C17: on the memory store the two transitions are the status machine: a failed payment moves a
  subscription in good standing to past due and a past-due one to unpaid only when escalating,
  a payment returns past due and unpaid to active, both leave every other organization alone,
  and repeating a failed payment changes nothing.\<close>

theorem dunning_transitions:
  assumes "billing_wf v"
  shows "status_at (snd (advance_dunning memory_bstore i e v)) j =
      (if j = i then map_option (advance_status e) (status_at v j) else status_at v j) \<and>
    status_at (snd (clear_dunning memory_bstore i v)) j =
      (if j = i then map_option clear_status (status_at v j) else status_at v j) \<and>
    advance_status False (advance_status False x) = advance_status False x"
proof -
  have adv: "fst (advance_dunning memory_bstore i e v) = Inr ()"
    by (auto simp: advance_dunning_def tryE_def memory_bstore_def readE_def get_subscription_def tbl_get_def
        okE_def failE_def lift_store_def upsert_subscription_def split: option.splits subscription_status.splits)
  have clr: "\<exists>b. fst (clear_dunning memory_bstore i v) = Inr b"
    by (auto simp: clear_dunning_def tryE_def memory_bstore_def readE_def get_subscription_def tbl_get_def
        okE_def failE_def lift_store_def bindE_def upsert_subscription_def split: option.splits)
  have "stored_subscription (snd (advance_dunning memory_bstore i e v)) j =
      (if j = i then map_option (\<lambda>b. b\<lparr>sub_status := advance_status e (sub_status b)\<rparr>) (stored_subscription v j)
       else stored_subscription v j)"
    using memory.advance_dunning_view [of i e v "Inr ()" "snd (advance_dunning memory_bstore i e v)"] adv assms
    by (auto simp: prod_eq_iff)
  moreover have "stored_subscription (snd (clear_dunning memory_bstore i v)) j =
      (if j = i then map_option (\<lambda>b. b\<lparr>sub_status := clear_status (sub_status b)\<rparr>) (stored_subscription v j)
       else stored_subscription v j)"
    using clr memory.clear_dunning_view [of i v _ "snd (clear_dunning memory_bstore i v)"] assms
    by (auto simp: prod_eq_iff)
  moreover have "advance_status False (advance_status False x) = advance_status False x"
    by (cases x) (simp_all add: advance_status_def)
  ultimately show ?thesis by (auto simp: status_at_def option.map_comp comp_def)
qed

lemma dunning_transitions_witness:
  "status_at (snd (advance_dunning memory_bstore ''o1'' False sample_store)) ''o1'' = Some SubPastDue"
  using dunning_transitions [OF sample_billing_wf, of "''o1''" False "''o1''"]
  by (simp add: status_at_def stored_subscription_def sample_tables gget_def sample_subscription_def advance_status_def)

end
