(* ===== verification/Reporting.thy ===== *)
theory Reporting
  imports Invoicing
begin

text \<open>
  Reporting of metered usage to the payment provider (\<open>ReportUsage\<close>, \<open>ReportAllUsage\<close> in
  \<open>billing/invoice.go\<close>). The provider is an argument: a \<open>UsageReporter\<close> is an operation that
  may fail. The example provider keeps a ledger of the increments it accepted, so that what
  was billed can be compared with the per-organization watermark.
\<close>

section \<open>The code\<close>

type_synonym 's reporter = "string \<Rightarrow> int \<Rightarrow> time \<Rightarrow> (string, 's, unit) op"

definition persist_report_state :: "'s bstore \<Rightarrow> string \<Rightarrow> time \<Rightarrow> int \<Rightarrow> (berr, 's, unit) op" where
  "persist_report_state st org_i start cents =
     lift_store (bs_set_usage_report_state st
       \<lparr>rs_org_id = org_i, rs_period_start = start, rs_reported_cents = cents\<rparr>)"

definition already_reported :: "'s bstore \<Rightarrow> string \<Rightarrow> time \<Rightarrow> (berr, 's, int) op" where
  "already_reported st org_i start =
     tryE (bs_get_usage_report_state st org_i)
       (\<lambda>e. if e = ErrNotFound then okE 0 else failE (BStore e))
       (\<lambda>r. okE (if \<not> rs_period_start r < start then rs_reported_cents r else 0))"

text \<open>\<open>now1\<close> and \<open>now2\<close> are the two readings of the clock, for the period and for the report.\<close>

definition report_usage ::
    "'s bstore \<Rightarrow> 's reporter option \<Rightarrow> time \<Rightarrow> time \<Rightarrow> string \<Rightarrow> (berr, 's, bool) op" where
  "report_usage st rep now1 now2 org_i =
     (case rep of
        None \<Rightarrow> okE False
      | Some report \<Rightarrow>
          tryE (bs_get_subscription st org_i)
            (\<lambda>e. if e = ErrNotFound then okE False else failE (BStore e))
            (\<lambda>b. if sub_stripe_subscription_item_id b = [] then okE False
                 else let start = period_start now1 (Some b)
                      in bindE (lift_store (bs_list_usage_by_org_since st org_i start whole_page)) (\<lambda>rs.
                         let cents = usage_so_far_cents rs
                         in bindE (already_reported st org_i start) (\<lambda>already.
                            let delta = wrap64 (cents - already)
                            in if delta \<le> 0
                               then bindE (persist_report_state st org_i start already) (\<lambda>_. okE False)
                               else bindE (tryE (report (sub_stripe_subscription_item_id b) delta now2)
                                             (\<lambda>e. failE (BProvider e)) okE) (\<lambda>_.
                                    bindE (persist_report_state st org_i start cents) (\<lambda>_. okE True))))))"

text \<open>The loop over all organizations: the count and the first error come back together.\<close>

fun report_orgs ::
    "'s bstore \<Rightarrow> 's reporter option \<Rightarrow> (string \<Rightarrow> string option) \<Rightarrow> time \<Rightarrow> time \<Rightarrow> organization list \<Rightarrow>
     int \<Rightarrow> berr option \<Rightarrow> 's \<Rightarrow> (int \<times> berr option) \<times> 's" where
  "report_orgs st rep ctx now1 now2 [] n fe s = ((n, fe), s)"
| "report_orgs st rep ctx now1 now2 (g # gs) n fe s =
     (case ctx (org_id g) of
        Some c \<Rightarrow> ((n, or_first fe (BCanceled c)), s)
      | None \<Rightarrow>
          (case report_usage st rep now1 now2 (org_id g) s of
             (Inl e, t) \<Rightarrow> report_orgs st rep ctx now1 now2 gs n (or_first fe e) t
           | (Inr pushed, t) \<Rightarrow> report_orgs st rep ctx now1 now2 gs (if pushed then n + 1 else n) fe t))"

definition report_all_usage ::
    "'s bstore \<Rightarrow> 's reporter option \<Rightarrow> (string \<Rightarrow> string option) \<Rightarrow> time \<Rightarrow> time \<Rightarrow> 's \<Rightarrow> (int \<times> berr option) \<times> 's" where
  "report_all_usage st rep ctx now1 now2 s =
     (if rep = None then ((0, None), s)
      else case bs_list_all_orgs st s of
             (Inl e, t) \<Rightarrow> ((0, Some (BStore e)), t)
           | (Inr gs, t) \<Rightarrow> report_orgs st rep ctx now1 now2 gs 0 None t)"

section \<open>A store together with a provider\<close>

record billing_world =
  bw_store :: flaky
  bw_ledger :: "(string \<times> int) list"
  bw_provider_faults :: "fault list"

definition in_world :: "(serr, flaky, 'a) op \<Rightarrow> (serr, billing_world, 'a) op" where
  "in_world m w = (let (r, t) = m (bw_store w) in (r, w\<lparr>bw_store := t\<rparr>))"

definition world_bstore :: "billing_world bstore" where
  "world_bstore =
     \<lparr>bs_list_all_orgs = in_world (bs_list_all_orgs flaky_bstore),
      bs_get_organization = (\<lambda>i. in_world (bs_get_organization flaky_bstore i)),
      bs_get_settings = in_world (bs_get_settings flaky_bstore),
      bs_get_subscription = (\<lambda>i. in_world (bs_get_subscription flaky_bstore i)),
      bs_get_subscription_by_stripe_id = (\<lambda>i. in_world (bs_get_subscription_by_stripe_id flaky_bstore i)),
      bs_get_subscription_by_customer_id = (\<lambda>i. in_world (bs_get_subscription_by_customer_id flaky_bstore i)),
      bs_upsert_subscription = (\<lambda>b. in_world (bs_upsert_subscription flaky_bstore b)),
      bs_list_plans = in_world (bs_list_plans flaky_bstore),
      bs_get_plan = (\<lambda>i. in_world (bs_get_plan flaky_bstore i)),
      bs_list_pricing_components = in_world (bs_list_pricing_components flaky_bstore),
      bs_list_apps_by_org = (\<lambda>i. in_world (bs_list_apps_by_org flaky_bstore i)),
      bs_list_services_by_org = (\<lambda>i. in_world (bs_list_services_by_org flaky_bstore i)),
      bs_list_databases_by_org = (\<lambda>i. in_world (bs_list_databases_by_org flaky_bstore i)),
      bs_add_usage = (\<lambda>u. in_world (bs_add_usage flaky_bstore u)),
      bs_add_usage_if_absent = (\<lambda>u. in_world (bs_add_usage_if_absent flaky_bstore u)),
      bs_list_usage_by_org_since = (\<lambda>i t p. in_world (bs_list_usage_by_org_since flaky_bstore i t p)),
      bs_event_processed = (\<lambda>i. in_world (bs_event_processed flaky_bstore i)),
      bs_mark_event_processed = (\<lambda>i. in_world (bs_mark_event_processed flaky_bstore i)),
      bs_get_meter_state = in_world (bs_get_meter_state flaky_bstore),
      bs_set_meter_state = (\<lambda>m. in_world (bs_set_meter_state flaky_bstore m)),
      bs_get_usage_report_state = (\<lambda>i. in_world (bs_get_usage_report_state flaky_bstore i)),
      bs_set_usage_report_state = (\<lambda>r. in_world (bs_set_usage_report_state flaky_bstore r))\<rparr>"

definition world_view :: "billing_world \<Rightarrow> mem" where
  "world_view w = fst (bw_store w)"

text \<open>The provider accepts an increment, refuses it, or accepts it and loses the answer.\<close>

definition ledger_reporter :: "billing_world reporter" where
  "ledger_reporter item q t w =
     (let w' = w\<lparr>bw_ledger := bw_ledger w @ [(item, q)]\<rparr>
      in case bw_provider_faults w of
           [] \<Rightarrow> (Inr (), w')
         | NoFault # fs \<Rightarrow> (Inr (), w'\<lparr>bw_provider_faults := fs\<rparr>)
         | FailBefore # fs \<Rightarrow> (Inl ''stripe: status 503'', w\<lparr>bw_provider_faults := fs\<rparr>)
         | FailAfter # fs \<Rightarrow> (Inl ''timeout'', w'\<lparr>bw_provider_faults := fs\<rparr>))"

definition billed :: "billing_world \<Rightarrow> string \<Rightarrow> int" where
  "billed w item = (\<Sum>(k, q)\<leftarrow>filter (\<lambda>(k, q). k = item) (bw_ledger w). q)"

lemma in_world_parts [simp]:
  "fst (in_world m w) = fst (m (bw_store w))" "bw_store (snd (in_world m w)) = snd (m (bw_store w))"
  by (simp_all add: in_world_def Let_def split: prod.splits)

lemma follows_world: "follows fst m w \<Longrightarrow> follows world_view (in_world m) w"
  unfolding follows_def world_view_def in_world_parts by blast

interpretation world: faithful_store world_bstore world_view
  by unfold_locales (simp_all add: world_bstore_def follows_world flaky.orgs flaky.organization
      flaky.settings flaky.subscription flaky.by_stripe flaky.by_customer flaky.upsert flaky.plans
      flaky.plan flaky.pricing flaky.apps flaky.services flaky.databases flaky.usage_add
      flaky.usage_if_absent flaky.usage_since flaky.event_seen flaky.event_mark flaky.meter_get
      flaky.meter_set flaky.report_get flaky.report_set)

text \<open>A store call never touches the ledger.\<close>

lemma in_world_ledger [simp]:
  "bw_ledger (snd (in_world m w)) = bw_ledger w"
  "bw_provider_faults (snd (in_world m w)) = bw_provider_faults w"
  by (simp_all add: in_world_def Let_def split: prod.splits)

section \<open>The watermark\<close>

text \<open>What counts as reported for the period that starts at \<open>start\<close>.\<close>

definition reported :: "mem \<Rightarrow> string \<Rightarrow> time \<Rightarrow> int" where
  "reported v i start =
     (case gget (st_report_state v) i of
        Some r \<Rightarrow> if \<not> rs_period_start r < start then rs_reported_cents r else 0
      | None \<Rightarrow> 0)"

definition period_cents :: "mem \<Rightarrow> string \<Rightarrow> time \<Rightarrow> int" where
  "period_cents v i start = usage_so_far_cents (filter (\<lambda>r. start \<le> ur_at r) (usage_of i v))"

lemma reported_set [simp]:
  "reported (snd (set_usage_report_state \<lparr>rs_org_id = i, rs_period_start = start, rs_reported_cents = c\<rparr> v)) i start = c"
  by (simp add: reported_def set_usage_report_state_def)

lemma usage_after_report [simp]:
  "usage_of j (snd (set_usage_report_state r v)) = usage_of j v"
  "st_subscriptions (snd (set_usage_report_state r v)) = st_subscriptions v"
  by (simp_all add: usage_of_def set_usage_report_state_def)

context faithful_store
begin

lemma already_reported_view:
  assumes "already_reported st i start s = (q, t)"
  shows "view t = view s \<and> (\<forall>c. q = Inr c \<longrightarrow> c = reported (view s) i start)"
proof -
  obtain r w where r: "bs_get_usage_report_state st i s = (r, w)" by fastforce
  show ?thesis
  proof (cases r)
    case (Inl e)
    then show ?thesis using follows_read_Inl [OF report_get, of i s e w] r assms
      by (auto simp: already_reported_def tryE_def okE_def failE_def get_usage_report_state_def
          reported_def split: if_splits)
  next
    case (Inr x)
    then show ?thesis using follows_read_Inr [OF report_get, of i s x w] r assms
      by (auto simp: already_reported_def tryE_def okE_def get_usage_report_state_def reported_def)
  qed
qed

lemma persist_report_view:
  assumes "persist_report_state st i start c s = (q, t)"
  shows "view t \<in> {view s, snd (set_usage_report_state \<lparr>rs_org_id = i, rs_period_start = start, rs_reported_cents = c\<rparr> (view s))}"
    and "q = Inr x \<Longrightarrow> view t = snd (set_usage_report_state \<lparr>rs_org_id = i, rs_period_start = start, rs_reported_cents = c\<rparr> (view s))"
proof -
  let ?r = "\<lparr>rs_org_id = i, rs_period_start = start, rs_reported_cents = c\<rparr>"
  obtain r w where r: "bs_set_usage_report_state st ?r s = (r, w)" by fastforce
  then have t: "t = w" "q = Inr x \<Longrightarrow> r = Inr x"
    using assms by (auto simp: persist_report_state_def lift_store_def tryE_def okE_def failE_def split: sum.splits)
  show "view t \<in> {view s, snd (set_usage_report_state ?r (view s))}"
    using follows_effect [OF report_set, of ?r s] r t by simp
  assume "q = Inr x"
  then have "bs_set_usage_report_state st ?r s = (Inr x, w)" using r t by simp
  from follows_Inr [OF report_set this] t show "view t = snd (set_usage_report_state ?r (view s))"
    by (metis snd_conv)
qed

end

section \<open>One report against the ledger\<close>

lemma lift_store_run:
  "lift_store m s = (case m s of (Inl e, t) \<Rightarrow> (Inl (BStore e), t) | (Inr x, t) \<Rightarrow> (Inr x, t))"
  by (simp add: lift_store_def tryE_def okE_def failE_def split: prod.splits sum.splits)

lemma snd_lift_store [simp]: "snd (lift_store m s) = snd (m s)"
  by (simp add: lift_store_run split: prod.splits sum.splits)

lemma world_ledger [simp]:
  "bw_ledger (snd (bs_get_subscription world_bstore i w)) = bw_ledger w"
  "bw_ledger (snd (bs_list_usage_by_org_since world_bstore i t p w)) = bw_ledger w"
  "bw_ledger (snd (bs_get_usage_report_state world_bstore i w)) = bw_ledger w"
  "bw_ledger (snd (bs_set_usage_report_state world_bstore r w)) = bw_ledger w"
  by (simp_all add: world_bstore_def)

lemma already_reported_ledger: "bw_ledger (snd (already_reported world_bstore i start w)) = bw_ledger w"
proof -
  have "snd (already_reported world_bstore i start w) = snd (bs_get_usage_report_state world_bstore i w)"
    by (simp add: already_reported_def tryE_def okE_def failE_def split: prod.splits sum.splits)
  then show ?thesis by simp
qed

lemma persist_report_ledger: "bw_ledger (snd (persist_report_state world_bstore i start c w)) = bw_ledger w"
  by (simp add: persist_report_state_def)

lemma ledger_reporter_view:
  assumes "ledger_reporter item d now w = (q, t)"
  shows "world_view t = world_view w \<and>
    (bw_ledger t = bw_ledger w @ [(item, d)] \<or> (bw_ledger t = bw_ledger w \<and> (\<exists>e. q = Inl e)))"
  using assms by (auto simp: ledger_reporter_def Let_def world_view_def split: list.splits fault.splits)

definition report_outcome ::
    "billing_world \<Rightarrow> billing_world \<Rightarrow> string \<Rightarrow> string \<Rightarrow> time \<Rightarrow> int \<Rightarrow> berr + bool \<Rightarrow> bool" where
  "report_outcome w t i item start delta q \<longleftrightarrow>
     (let quiet = (bw_ledger t = bw_ledger w \<and>
                   reported (world_view t) i start = reported (world_view w) i start);
          sent = (delta > 0 \<and> bw_ledger t = bw_ledger w @ [(item, delta)]);
          moved = (reported (world_view t) i start = reported (world_view w) i start + delta)
      in case q of
           Inr True \<Rightarrow> sent \<and> moved
         | Inr False \<Rightarrow> delta \<le> 0 \<and> quiet
         | Inl e \<Rightarrow> quiet \<or> (sent \<and> (moved \<or> reported (world_view t) i start = reported (world_view w) i start)))"

lemma report_usage_outcome:
  assumes run: "report_usage world_bstore (Some ledger_reporter) now1 now2 i w = (q, t)"
    and sub: "stored_subscription (world_view w) i = Some b" "sub_stripe_subscription_item_id b \<noteq> []"
    and start: "start = period_start now1 (Some b)"
    and delta: "delta = period_cents (world_view w) i start - reported (world_view w) i start" "is_i64 delta"
  shows "report_outcome w t i (sub_stripe_subscription_item_id b) start delta q"
proof -
  let ?item = "sub_stripe_subscription_item_id b" and ?v = "world_view w"
  obtain r1 w1 where c1: "bs_get_subscription world_bstore i w = (r1, w1)" by fastforce
  have l1: "bw_ledger w1 = bw_ledger w" using world_ledger(1) [of i w] c1 by simp
  note v1 = world.subscription_cases [OF c1]
  show ?thesis
  proof (cases r1)
    case (Inl e)
    then have "e \<noteq> ErrNotFound" using v1 sub(1) by auto
    then have "q = Inl (BStore e) \<and> t = w1"
      using run c1 Inl by (auto simp: report_usage_def tryE_def failE_def)
    then show ?thesis using l1 v1 by (simp add: report_outcome_def Let_def)
  next
    case (Inr b')
    then have b': "b' = b" "world_view w1 = ?v" using v1 sub(1) by simp_all
    obtain r2 w2 where c2: "lift_store (bs_list_usage_by_org_since world_bstore i start whole_page) w1 = (r2, w2)"
      by fastforce
    have w2: "w2 = snd (bs_list_usage_by_org_since world_bstore i start whole_page w1)"
      using c2 snd_lift_store by (metis snd_conv)
    have l2: "bw_ledger w2 = bw_ledger w" "world_view w2 = ?v"
      unfolding w2 using l1 b'(2) world.view_reads by simp_all
    show ?thesis
    proof (cases r2)
      case (Inl e)
      then have "q = Inl e \<and> t = w2"
        using run c1 Inr b' sub(2) c2 by (auto simp: report_usage_def tryE_def bindE_def Let_def start)
      then show ?thesis using l2 by (simp add: report_outcome_def Let_def)
    next
      case rs: (Inr rs)
      have cents: "usage_so_far_cents rs = period_cents ?v i start"
        using world.usage_page_view [OF c2 [unfolded rs]] b'(2) usage_so_far_mset
        by (simp add: period_cents_def)
      obtain r3 w3 where c3: "already_reported world_bstore i start w2 = (r3, w3)" by fastforce
      have l3: "bw_ledger w3 = bw_ledger w" "world_view w3 = ?v"
        using already_reported_ledger [of i start w2] world.already_reported_view [OF c3] l2 c3 by simp_all
      show ?thesis
      proof (cases r3)
        case (Inl e)
        then have "q = Inl e \<and> t = w3"
          using run c1 Inr b' sub(2) c2 rs c3 by (auto simp: report_usage_def tryE_def bindE_def Let_def start)
        then show ?thesis using l3 by (simp add: report_outcome_def Let_def)
      next
        case al: (Inr al)
        have al_eq: "al = reported ?v i start"
          using world.already_reported_view [OF c3] al l2(2) by simp
        have d: "wrap64 (usage_so_far_cents rs - al) = delta"
          by (simp add: cents al_eq delta(1) wrap64_id [OF delta(2) [unfolded delta(1)]])
        show ?thesis
        proof (cases "delta \<le> 0")
          case True
          obtain r4 w4 where c4: "persist_report_state world_bstore i start al w3 = (r4, w4)" by fastforce
          have "q = (case r4 of Inl e \<Rightarrow> Inl e | Inr _ \<Rightarrow> Inr False) \<and> t = w4"
            using run c1 Inr b' sub(2) c2 rs c3 al d True c4
            by (auto simp: report_usage_def tryE_def bindE_def Let_def okE_def start split: sum.splits)
          moreover have "bw_ledger w4 = bw_ledger w" using persist_report_ledger [of i start al w3] c4 l3 by simp
          moreover have "reported (world_view w4) i start = reported ?v i start"
            using world.persist_report_view(1) [OF c4] l3(2) al_eq by auto
          ultimately show ?thesis using True by (auto simp: report_outcome_def Let_def split: sum.splits)
        next
          case pos: False
          obtain r4 w4 where c4: "ledger_reporter ?item delta now2 w3 = (r4, w4)" by fastforce
          note v4 = ledger_reporter_view [OF c4]
          show ?thesis
          proof (cases r4)
            case (Inl e)
            then have "q = Inl (BProvider e) \<and> t = w4"
              using run c1 Inr b' sub(2) c2 rs c3 al d pos c4
              by (auto simp: report_usage_def tryE_def bindE_def Let_def failE_def start)
            then show ?thesis using v4 l3 pos by (auto simp: report_outcome_def Let_def)
          next
            case ok: (Inr u)
            obtain r5 w5 where c5: "persist_report_state world_bstore i start (usage_so_far_cents rs) w4 = (r5, w5)" by fastforce
            have qt: "q = (case r5 of Inl e \<Rightarrow> Inl e | Inr _ \<Rightarrow> Inr True) \<and> t = w5"
              using run c1 Inr b' sub(2) c2 rs c3 al d pos c4 ok c5
              by (auto simp: report_usage_def tryE_def bindE_def Let_def okE_def start split: sum.splits)
            have led: "bw_ledger w5 = bw_ledger w @ [(?item, delta)]"
              using persist_report_ledger [of i start "usage_so_far_cents rs" w4] c5 v4 ok l3 by auto
            have "reported (world_view w5) i start \<in> {reported ?v i start, reported ?v i start + delta}"
              using world.persist_report_view(1) [OF c5] v4 l3(2) cents delta(1) by auto
            moreover have "reported (world_view w5) i start = reported ?v i start + delta" if "r5 = Inr z" for z
              using world.persist_report_view(2) [OF c5 that] cents delta(1) by simp
            ultimately show ?thesis using qt led pos
              by (cases r5) (auto simp: report_outcome_def Let_def)
          qed
        qed
      qed
    qed
  qed
qed

section \<open>Properties\<close>

lemma billed_append: "bw_ledger t = bw_ledger w @ [(item, d)] \<Longrightarrow> billed t item = billed w item + d"
  by (simp add: billed_def)

lemma billed_same: "bw_ledger t = bw_ledger w \<Longrightarrow> billed t item = billed w item"
  by (simp add: billed_def)

text \<open>C16: a report that returns without an error has billed exactly what the watermark moved by,
  and has moved it to the period's metered cents (never back). A report that returns an error
  and billed nothing has left the watermark where it was, so the retry bills the same amount.\<close>

theorem report_bills_what_it_records:
  assumes "report_usage world_bstore (Some ledger_reporter) now1 now2 i w = (q, t)"
    and "stored_subscription (world_view w) i = Some b" "sub_stripe_subscription_item_id b \<noteq> []"
    and "start = period_start now1 (Some b)"
    and "is_i64 (period_cents (world_view w) i start - reported (world_view w) i start)"
  shows "(\<forall>x. q = Inr x \<longrightarrow>
      reported (world_view t) i start = max (reported (world_view w) i start) (period_cents (world_view w) i start) \<and>
      billed t (sub_stripe_subscription_item_id b) - billed w (sub_stripe_subscription_item_id b)
        = reported (world_view t) i start - reported (world_view w) i start) \<and>
    (\<forall>e. q = Inl e \<longrightarrow> bw_ledger t = bw_ledger w \<longrightarrow>
      reported (world_view t) i start = reported (world_view w) i start)"
proof -
  note out = report_usage_outcome [OF assms(1-4) refl assms(5)]
  show ?thesis
  proof (cases q)
    case (Inl e)
    then show ?thesis using out by (auto simp: report_outcome_def Let_def)
  next
    case (Inr x)
    then show ?thesis
      using out billed_append [of t w] billed_same [of t w "sub_stripe_subscription_item_id b"]
      by (cases x) (simp_all add: report_outcome_def Let_def)
  qed
qed

definition sample_world :: "fault list \<Rightarrow> fault list \<Rightarrow> billing_world" where
  "sample_world fs gs =
     \<lparr>bw_store = (sample_store\<lparr>st_usage := [(''o1'', [sample_usage ''r'' meter_metric 5000 2000000000000000])]\<rparr>, fs),
      bw_ledger = [], bw_provider_faults = gs\<rparr>"

lemma sample_world_view:
  "stored_subscription (world_view (sample_world fs gs)) ''o1'' = Some sample_subscription"
  "st_report_state (world_view (sample_world fs gs)) = []"
  "usage_of ''o1'' (world_view (sample_world fs gs)) = [sample_usage ''r'' meter_metric 5000 2000000000000000]"
  by (simp_all add: sample_world_def world_view_def stored_subscription_def sample_tables gget_def usage_of_def)

definition sample_start :: time where
  "sample_start = period_start 0 (Some sample_subscription)"

lemma sample_start_before: "sample_start \<le> 2000000000000000"
  using month_back(1) [of 2592000000000000]
  by (simp add: sample_start_def period_start_def sample_subscription_def is_zero_def zero_time_def day_ns_def)

lemma sample_cents:
  "period_cents (world_view (sample_world fs gs)) ''o1'' sample_start = 5"
  "reported (world_view (sample_world fs gs)) ''o1'' sample_start = 0"
  using sample_start_before
  by (simp_all add: period_cents_def reported_def sample_world_view sample_usage_def usage_so_far_cents_def
      micro_sum_def cost_metric_cases wrap64_def signed_divide_int_def)

lemma sample_item: "sub_stripe_subscription_item_id sample_subscription = ''si_1''"
  by (simp add: sample_subscription_def)

lemma five_i64: "is_i64 5"
  by (simp add: is_i64_def min_i64_def max_i64_def)

lemma report_bills_what_it_records_witness:
  "let (q, t) = report_usage world_bstore (Some ledger_reporter) 0 0 ''o1'' (sample_world [] [])
   in q = Inr True \<longrightarrow> reported (world_view t) ''o1'' sample_start = 5 \<and> billed t ''si_1'' = 5"
proof -
  obtain q t where r: "report_usage world_bstore (Some ledger_reporter) 0 0 ''o1'' (sample_world [] []) = (q, t)"
    by (metis surj_pair)
  have "billed (sample_world [] []) ''si_1'' = 0" by (simp add: billed_def sample_world_def)
  with report_bills_what_it_records [OF r sample_world_view(1) _ sample_start_def] five_i64
  show ?thesis by (auto simp: sample_cents sample_item r)
qed

lemma world_report_run:
  assumes sub: "stored_subscription v i = Some b" "sub_stripe_subscription_item_id b \<noteq> []"
    and start: "start = period_start now1 (Some b)"
    and delta: "delta = period_cents v i start - reported v i start" "is_i64 delta" "0 < delta"
    and f: "f = NoFault \<or> f = FailBefore"
  shows "report_usage world_bstore (Some ledger_reporter) now1 now2 i
      \<lparr>bw_store = (v, NoFault # NoFault # NoFault # f # fs), bw_ledger = l, bw_provider_faults = []\<rparr> =
    (if f = NoFault then Inr True else Inl (BStore unavailable),
     \<lparr>bw_store = (if f = NoFault then snd (set_usage_report_state
          \<lparr>rs_org_id = i, rs_period_start = start, rs_reported_cents = period_cents v i start\<rparr> v) else v, fs),
      bw_ledger = l @ [(sub_stripe_subscription_item_id b, delta)], bw_provider_faults = []\<rparr>)"
proof -
  let ?us = "sort_usage_newest_first (filter (\<lambda>r. \<not> ur_at r < start) (usage_of i v))"
  have g: "gget (st_subscriptions v) i = Some b" using sub(1) by (simp add: stored_subscription_def)
  have c: "usage_so_far_cents ?us = period_cents v i start"
    unfolding period_cents_def by (rule usage_so_far_mset) (simp add: sort_usage_newest_first_def not_less)
  have r: "already_reported world_bstore i start
      \<lparr>bw_store = (v, NoFault # f # fs), bw_ledger = l, bw_provider_faults = []\<rparr> =
      (Inr (reported v i start), \<lparr>bw_store = (v, f # fs), bw_ledger = l, bw_provider_faults = []\<rparr>)"
    by (auto simp: already_reported_def tryE_def world_bstore_def in_world_def flaky_bstore_def faulty_next
        readE_def get_usage_report_state_def tbl_get_def okE_def reported_def split: option.splits)
  have w: "wrap64 (period_cents v i start - reported v i start) = delta" "\<not> delta \<le> 0"
    using delta wrap64_id by simp_all
  have s1: "bs_get_subscription world_bstore i
      \<lparr>bw_store = (v, NoFault # NoFault # NoFault # f # fs), bw_ledger = l, bw_provider_faults = []\<rparr> =
      (Inr b, \<lparr>bw_store = (v, NoFault # NoFault # f # fs), bw_ledger = l, bw_provider_faults = []\<rparr>)"
    using g by (simp add: world_bstore_def in_world_def flaky_bstore_def faulty_next readE_def
        get_subscription_def tbl_get_def)
  have s2: "lift_store (bs_list_usage_by_org_since world_bstore i start whole_page)
      \<lparr>bw_store = (v, NoFault # NoFault # f # fs), bw_ledger = l, bw_provider_faults = []\<rparr> =
      (Inr ?us, \<lparr>bw_store = (v, NoFault # f # fs), bw_ledger = l, bw_provider_faults = []\<rparr>)"
    by (simp add: lift_store_run world_bstore_def in_world_def flaky_bstore_def faulty_next readE_def
        list_usage_by_org_since_def)
  have s3: "persist_report_state world_bstore i start c
      \<lparr>bw_store = (v, f # fs), bw_ledger = m, bw_provider_faults = []\<rparr> =
      (if f = NoFault then Inr () else Inl (BStore unavailable),
       \<lparr>bw_store = (if f = NoFault then snd (set_usage_report_state
          \<lparr>rs_org_id = i, rs_period_start = start, rs_reported_cents = c\<rparr> v) else v, fs),
        bw_ledger = m, bw_provider_faults = []\<rparr>)" for c m
    using f by (auto simp: persist_report_state_def lift_store_run world_bstore_def in_world_def flaky_bstore_def
        faulty_next set_usage_report_state_def)
  show ?thesis
    using f sub(2)
    by (auto simp: report_usage_def tryE_def s1 s2 s3 bindE_def Let_def start [symmetric] c r w okE_def
        ledger_reporter_def)
qed

text \<open>\<open>never twice\<close> does not hold across a failure to store the watermark. If the provider accepts
  the increment and the write of the watermark then fails, the report returns an error and the
  next report, with nothing failing, bills the same cents again.\<close>

theorem report_rebills_after_lost_watermark:
  assumes "stored_subscription v i = Some b" "sub_stripe_subscription_item_id b \<noteq> []"
    and "start = period_start now1 (Some b)"
    and "delta = period_cents v i start - reported v i start" "is_i64 delta" "0 < delta"
    and "w = \<lparr>bw_store = (v, [NoFault, NoFault, NoFault, FailBefore, NoFault, NoFault, NoFault, NoFault]),
              bw_ledger = [], bw_provider_faults = []\<rparr>"
  shows "\<exists>e w1 w2.
    report_usage world_bstore (Some ledger_reporter) now1 now2 i w = (Inl e, w1) \<and>
    report_usage world_bstore (Some ledger_reporter) now1 now2 i w1 = (Inr True, w2) \<and>
    billed w2 (sub_stripe_subscription_item_id b) = 2 * delta \<and>
    reported (world_view w2) i start = reported v i start + delta"
proof -
  note run = world_report_run [OF assms(1-6), where fs = "[NoFault, NoFault, NoFault, NoFault]" and f = FailBefore and l = "[]"]
  note rerun = world_report_run [OF assms(1-6), where fs = "[]" and f = NoFault
      and l = "[(sub_stripe_subscription_item_id b, delta)]"]
  show ?thesis
    unfolding assms(7) using run rerun by (auto simp: billed_def world_view_def assms(4))
qed

lemma report_rebills_after_lost_watermark_witness:
  "\<exists>w1 w2 e. report_usage world_bstore (Some ledger_reporter) 0 0 ''o1''
      (sample_world [NoFault, NoFault, NoFault, FailBefore, NoFault, NoFault, NoFault, NoFault] []) = (Inl e, w1) \<and>
    report_usage world_bstore (Some ledger_reporter) 0 0 ''o1'' w1 = (Inr True, w2) \<and> billed w2 ''si_1'' = 10"
proof -
  let ?v = "world_view (sample_world [] [])"
  let ?fs = "[NoFault, NoFault, NoFault, FailBefore, NoFault, NoFault, NoFault, NoFault]"
  have w: "sample_world ?fs [] = \<lparr>bw_store = (?v, ?fs), bw_ledger = [], bw_provider_faults = []\<rparr>"
    by (simp add: sample_world_def world_view_def)
  obtain e w1 w2 where
    "report_usage world_bstore (Some ledger_reporter) 0 0 ''o1'' (sample_world ?fs []) = (Inl e, w1)"
    "report_usage world_bstore (Some ledger_reporter) 0 0 ''o1'' w1 = (Inr True, w2)"
    "billed w2 ''si_1'' = 2 * 5"
    using report_rebills_after_lost_watermark [OF sample_world_view(1) [of "[]" "[]"] _ sample_start_def refl _ _ w, of 0]
      five_i64 by (auto simp: sample_cents sample_item)
  then show ?thesis by auto
qed

end
