(* ===== verification/Webhook.thy ===== *)
theory Webhook
  imports Reporting
begin

text \<open>
  The Stripe webhook (\<open>billing/webhook.go\<close>): how an event finds the organization's
  subscription, what each event type does to it, and the order of applying an event and
  marking its id processed.
\<close>

section \<open>Events\<close>

record stripe_event =
  se_id :: string
  se_type :: string
  se_id2 :: string
  se_subscription :: string
  se_customer :: string
  se_client_reference :: string
  se_status :: string
  se_current_period_end :: int
  se_metadata_org_id :: string
  se_subscription_item_id :: string
  se_item_current_period_end :: int

definition event_period_end :: "stripe_event \<Rightarrow> int" where
  "event_period_end e =
     (if se_current_period_end e > 0 then se_current_period_end e else se_item_current_period_end e)"

section \<open>Finding the subscription\<close>

text \<open>\<open>if x, err := m; err == nil { return x }\<close> and on to the rest.\<close>

definition or_try :: "(serr, 's, 'a) op \<Rightarrow> (serr, 's, 'a) op \<Rightarrow> (serr, 's, 'a) op" where
  "or_try m k = tryE m (\<lambda>e. k) okE"

definition resolve_org :: "'s bstore \<Rightarrow> string \<Rightarrow> string \<Rightarrow> string \<Rightarrow> string \<Rightarrow> (serr, 's, subscription) op" where
  "resolve_org st org1 org2 customer sub_i =
     (let none = failE ErrNotFound;
          by_customer = (if customer \<noteq> [] then or_try (bs_get_subscription_by_customer_id st customer) none else none);
          by_sub = (if sub_i \<noteq> [] then or_try (bs_get_subscription_by_stripe_id st sub_i) by_customer else by_customer);
          second = (if org2 \<noteq> [] then or_try (bs_get_subscription st org2) by_sub else by_sub)
      in if org1 \<noteq> [] then or_try (bs_get_subscription st org1) second else second)"

section \<open>Applying an event\<close>

text \<open>The two changes of the subscription that the events carry.\<close>

definition checkout_update :: "stripe_event \<Rightarrow> subscription \<Rightarrow> subscription" where
  "checkout_update evt b =
     (let b1 = (if se_subscription evt \<noteq> [] then b\<lparr>sub_stripe_subscription_id := se_subscription evt\<rparr> else b);
          b2 = (if se_customer evt \<noteq> [] then b1\<lparr>sub_stripe_customer_id := se_customer evt\<rparr> else b1)
      in b2\<lparr>sub_status := SubActive\<rparr>)"

definition subscription_update :: "stripe_event \<Rightarrow> subscription \<Rightarrow> subscription" where
  "subscription_update evt b =
     (let status = (if se_type evt = ''customer.subscription.deleted'' then SubCanceled
                    else subscription_status_from_stripe (se_status evt));
          b0 = b\<lparr>sub_status := status\<rparr>;
          b1 = (if se_id2 evt \<noteq> [] then b0\<lparr>sub_stripe_subscription_id := se_id2 evt\<rparr> else b0);
          b2 = (if se_customer evt \<noteq> [] then b1\<lparr>sub_stripe_customer_id := se_customer evt\<rparr> else b1);
          b3 = (if se_subscription_item_id evt \<noteq> []
                then b2\<lparr>sub_stripe_subscription_item_id := se_subscription_item_id evt\<rparr> else b2)
      in if event_period_end evt > 0 then b3\<lparr>sub_current_period_end := time_unix (event_period_end evt)\<rparr> else b3)"

text \<open>An organization that cannot be found is a successful no-op.\<close>

definition with_org :: "(serr, 's, subscription) op \<Rightarrow> (subscription \<Rightarrow> (berr, 's, unit) op) \<Rightarrow> (berr, 's, unit) op" where
  "with_org m k = tryE m (\<lambda>e. if e = ErrNotFound then okE () else failE (BStore e)) k"

definition apply_checkout_completed :: "'s bstore \<Rightarrow> stripe_event \<Rightarrow> (berr, 's, unit) op" where
  "apply_checkout_completed st evt =
     with_org (resolve_org st (se_client_reference evt) (se_metadata_org_id evt) (se_customer evt) [])
       (\<lambda>b. lift_store (bs_upsert_subscription st (checkout_update evt b)))"

definition apply_subscription_event :: "'s bstore \<Rightarrow> stripe_event \<Rightarrow> (berr, 's, unit) op" where
  "apply_subscription_event st evt =
     with_org (resolve_org st (se_metadata_org_id evt) [] (se_customer evt) (se_id2 evt))
       (\<lambda>b. lift_store (bs_upsert_subscription st (subscription_update evt b)))"

definition apply_invoice_payment_failed :: "'s bstore \<Rightarrow> stripe_event \<Rightarrow> (berr, 's, unit) op" where
  "apply_invoice_payment_failed st evt =
     with_org (resolve_org st (se_metadata_org_id evt) (se_client_reference evt) (se_customer evt) (se_subscription evt))
       (\<lambda>b. advance_dunning st (sub_org_id b) False)"

definition apply_invoice_payment_succeeded :: "'s bstore \<Rightarrow> stripe_event \<Rightarrow> (berr, 's, unit) op" where
  "apply_invoice_payment_succeeded st evt =
     with_org (resolve_org st (se_metadata_org_id evt) (se_client_reference evt) (se_customer evt) (se_subscription evt))
       (\<lambda>b. bindE (clear_dunning st (sub_org_id b)) (\<lambda>_. okE ()))"

definition apply_event :: "'s bstore \<Rightarrow> stripe_event \<Rightarrow> (berr, 's, unit) op" where
  "apply_event st evt =
     (if se_type evt = ''checkout.session.completed'' then apply_checkout_completed st evt
      else if se_type evt \<in> {''customer.subscription.created'', ''customer.subscription.updated'',
                              ''customer.subscription.deleted''} then apply_subscription_event st evt
      else if se_type evt = ''invoice.payment_failed'' then apply_invoice_payment_failed st evt
      else if se_type evt = ''invoice.payment_succeeded'' then apply_invoice_payment_succeeded st evt
      else okE ())"

definition process_event :: "'s bstore \<Rightarrow> stripe_event \<Rightarrow> (berr, 's, bool) op" where
  "process_event st evt =
     (let finish = bindE (apply_event st evt) (\<lambda>_.
            if se_id evt \<noteq> [] then bindE (lift_store (bs_mark_event_processed st (se_id evt))) (\<lambda>_. okE True)
            else okE True)
      in if se_id evt \<noteq> []
         then bindE (lift_store (bs_event_processed st (se_id evt))) (\<lambda>seen.
                if seen then okE False else finish)
         else finish)"

section \<open>Views\<close>

definition marked :: "mem \<Rightarrow> string \<Rightarrow> bool" where
  "marked v i \<longleftrightarrow> gget (st_processed_evts v) i \<noteq> None"

text \<open>Applying an event leaves the processed ids alone.\<close>

definition keeps_marks :: "('s \<Rightarrow> mem) \<Rightarrow> ('e, 's, 'a) op \<Rightarrow> bool" where
  "keeps_marks view m \<longleftrightarrow> (\<forall>s. st_processed_evts (view (snd (m s))) = st_processed_evts (view s))"

lemma keeps_marks_ok [simp]: "keeps_marks view (okE x)" "keeps_marks view (failE e)"
  by (simp_all add: keeps_marks_def okE_def failE_def)

lemma keeps_marks_bind: "keeps_marks view m \<Longrightarrow> (\<And>x. keeps_marks view (k x)) \<Longrightarrow> keeps_marks view (bindE m k)"
  unfolding keeps_marks_def bindE_def by (auto split: prod.splits sum.splits) (metis snd_conv)+

lemma keeps_marks_try:
  "keeps_marks view m \<Longrightarrow> (\<And>e. keeps_marks view (h e)) \<Longrightarrow> (\<And>x. keeps_marks view (k x)) \<Longrightarrow>
     keeps_marks view (tryE m h k)"
  unfolding keeps_marks_def tryE_def by (auto split: prod.splits sum.splits) (metis snd_conv)+

lemma keeps_marks_lift: "keeps_marks view m \<Longrightarrow> keeps_marks view (lift_store m)"
  by (simp add: keeps_marks_def)

context faithful_store
begin

lemma marks_reads:
  "keeps_marks view (bs_get_subscription st i)" "keeps_marks view (bs_get_subscription_by_stripe_id st i)"
  "keeps_marks view (bs_get_subscription_by_customer_id st i)"
  by (simp_all add: keeps_marks_def)

lemma marks_upsert: "keeps_marks view (bs_upsert_subscription st b)"
  unfolding keeps_marks_def
proof
  fix s
  show "st_processed_evts (view (snd (bs_upsert_subscription st b s))) = st_processed_evts (view s)"
    using follows_effect [OF upsert, of b s] by (auto simp: upsert_subscription_def)
qed

lemma marks_resolve: "keeps_marks view (resolve_org st a b c d)"
  unfolding resolve_org_def or_try_def Let_def
  by (auto intro!: keeps_marks_try marks_reads)

lemma marks_advance: "keeps_marks view (advance_dunning st i e)"
  unfolding advance_dunning_def
  by (rule keeps_marks_try [OF marks_reads(1)])
    (auto intro!: keeps_marks_lift marks_upsert split: subscription_status.splits)

lemma marks_clear: "keeps_marks view (clear_dunning st i)"
  unfolding clear_dunning_def
  by (rule keeps_marks_try [OF marks_reads(1)])
    (auto intro!: keeps_marks_bind keeps_marks_lift marks_upsert)

lemma marks_apply: "keeps_marks view (apply_event st evt)"
proof -
  have w: "keeps_marks view (with_org (resolve_org st a b c d) k)" if "\<And>x. keeps_marks view (k x)" for a b c d k
    unfolding with_org_def using that by (auto intro!: keeps_marks_try marks_resolve)
  show ?thesis
    unfolding apply_event_def apply_checkout_completed_def apply_subscription_event_def
      apply_invoice_payment_failed_def apply_invoice_payment_succeeded_def
    by (auto intro!: w keeps_marks_lift marks_upsert marks_advance marks_clear keeps_marks_bind)
qed

end

section \<open>Deliveries\<close>

lemma event_processed_flaky:
  "lift_store (bs_event_processed flaky_bstore i) (v, fs) = (Inr (marked v i), (v, tl fs)) \<or>
     lift_store (bs_event_processed flaky_bstore i) (v, fs) = (Inl (BStore unavailable), (v, tl fs))"
  by (auto simp: lift_store_run flaky_bstore_def faulty_def readE_def event_processed_def marked_def
      split: list.splits fault.splits)

lemma mark_flaky:
  assumes "lift_store (bs_mark_event_processed flaky_bstore i) (v, fs) = (q, (w, gs))"
  shows "w = v \<or> w = snd (mark_event_processed i v)" and "q = Inr x \<Longrightarrow> w = snd (mark_event_processed i v)"
  using assms by (auto simp: lift_store_run flaky_bstore_def faulty_def Let_def
      split: list.splits fault.splits prod.splits sum.splits)

lemma marked_after_mark [simp]: "marked (snd (mark_event_processed i v)) i"
  by (simp add: marked_def mark_event_processed_def)

lemma subscriptions_after_mark [simp]:
  "stored_subscription (snd (mark_event_processed i v)) = stored_subscription v"
  by (simp add: stored_subscription_def mark_event_processed_def fun_eq_iff)

text \<open>The run of a delivery with an id: the peek, the apply, the mark.\<close>

lemma process_event_run:
  assumes "se_id evt \<noteq> []" "process_event flaky_bstore evt (v, fs) = (q, (w, gs))"
  shows "(w = v \<and> q \<noteq> Inr True) \<or>
    (\<not> marked v (se_id evt) \<and>
     (\<exists>u fs2.
        (\<exists>e. apply_event flaky_bstore evt (v, tl fs) = (Inl e, (u, fs2)) \<and> q = Inl e \<and> w = u) \<or>
        (apply_event flaky_bstore evt (v, tl fs) = (Inr (), (u, fs2)) \<and>
         (\<exists>m. lift_store (bs_mark_event_processed flaky_bstore (se_id evt)) (u, fs2) = (m, (w, gs)) \<and>
              q = (case m of Inl e \<Rightarrow> Inl e | Inr _ \<Rightarrow> Inr True)))))"
proof -
  have p: "lift_store (bs_event_processed flaky_bstore (se_id evt)) (v, fs) = (Inr (marked v (se_id evt)), (v, tl fs)) \<or>
      lift_store (bs_event_processed flaky_bstore (se_id evt)) (v, fs) = (Inl (BStore unavailable), (v, tl fs))"
    by (rule event_processed_flaky)
  show ?thesis
  proof (cases "lift_store (bs_event_processed flaky_bstore (se_id evt)) (v, fs) = (Inr (marked v (se_id evt)), (v, tl fs))")
    case False
    with p have "q = Inl (BStore unavailable) \<and> w = v"
      using assms by (auto simp: process_event_def bindE_def Let_def)
    then show ?thesis by simp
  next
    case peek: True
    show ?thesis
    proof (cases "marked v (se_id evt)")
      case True
      then show ?thesis using assms peek by (auto simp: process_event_def bindE_def Let_def okE_def)
    next
      case False
      obtain r u fs2 where a: "apply_event flaky_bstore evt (v, tl fs) = (r, (u, fs2))" by (metis surj_pair)
      obtain m w2 gs2 where k: "lift_store (bs_mark_event_processed flaky_bstore (se_id evt)) (u, fs2) = (m, (w2, gs2))"
        by (metis surj_pair)
      have run: "(q, (w, gs)) = (case r of Inl e \<Rightarrow> (Inl e, (u, fs2))
          | Inr _ \<Rightarrow> (case m of Inl e \<Rightarrow> (Inl e, (w2, gs2)) | Inr _ \<Rightarrow> (Inr True, (w2, gs2))))"
        unfolding assms(2) [symmetric] using assms(1) peek False a k
        by (auto simp: process_event_def bindE_def Let_def okE_def split: sum.splits)
      show ?thesis
      proof (cases r)
        case (Inl e)
        with False a run show ?thesis by auto
      next
        case (Inr x)
        with run have "w = w2 \<and> gs = gs2 \<and> q = (case m of Inl e \<Rightarrow> Inl e | Inr _ \<Rightarrow> Inr True)"
          by (auto split: sum.splits)
        with False a k Inr show ?thesis by auto
      qed
    qed
  qed
qed

lemma marked_keeps_view:
  assumes "se_id evt \<noteq> []" "marked v (se_id evt)"
  shows "fst (snd (process_event flaky_bstore evt (v, fs))) = v"
  using process_event_run [OF assms(1), of v fs] assms(2) by (metis surj_pair fst_conv snd_conv)

section \<open>Subscription events\<close>

definition subscription_events :: "string set" where
  "subscription_events = {''customer.subscription.created'', ''customer.subscription.updated'',
     ''customer.subscription.deleted''}"

lemma subscription_update_idem: "subscription_update evt (subscription_update evt b) = subscription_update evt b"
  by (simp add: subscription_update_def Let_def)

lemma subscription_update_org [simp]: "sub_org_id (subscription_update evt b) = sub_org_id b"
  by (simp add: subscription_update_def Let_def)

lemma apply_subscription_type:
  assumes "se_type evt \<in> subscription_events"
  shows "apply_event st evt = apply_subscription_event st evt"
  using assms by (auto simp: apply_event_def subscription_events_def)

text \<open>With a readable subscription of the organization in the metadata, applying the event either
  leaves the table or sets that one row, and an answer means it set it.\<close>

lemma apply_subscription_flaky:
  assumes "se_type evt \<in> subscription_events" "se_metadata_org_id evt = i" "i \<noteq> []"
    and "stored_subscription v i = Some b" "sub_org_id b = i" "healthy_at 0 fs"
    and "apply_event flaky_bstore evt (v, fs) = (q, (w, gs))"
  shows "w = v \<and> (\<exists>e. q = Inl e) \<or> w = snd (upsert_subscription (subscription_update evt b) v)"
proof -
  have g: "get_subscription i v = Inr b" using assms(4) by (simp add: get_subscription_def stored_subscription_def)
  obtain fs1 where r: "resolve_org flaky_bstore i [] (se_customer evt) (se_id2 evt) (v, fs) = (Inr b, (v, fs1))"
    using assms(3,6) g
    by (cases fs) (auto simp: resolve_org_def or_try_def tryE_def okE_def Let_def flaky_bstore_def faulty_def
        readE_def healthy_at_def)
  then have run: "(q, (w, gs)) = lift_store (bs_upsert_subscription flaky_bstore (subscription_update evt b)) (v, fs1)"
    using assms(2,7) apply_subscription_type [OF assms(1), of flaky_bstore]
    by (simp add: apply_subscription_event_def with_org_def tryE_def)
  obtain r2 w2 gs2 where u: "bs_upsert_subscription flaky_bstore (subscription_update evt b) (v, fs1) = (r2, (w2, gs2))"
    by (metis surj_pair)
  show ?thesis
  proof (cases r2)
    case (Inl e)
    then show ?thesis
      using run u follows_effect [OF flaky.upsert, of "subscription_update evt b" "(v, fs1)"]
      by (auto simp: lift_store_run)
  next
    case (Inr x)
    then have "upsert_subscription (subscription_update evt b) v = (Inr x, w2)"
      using follows_Inr [OF flaky.upsert, of "subscription_update evt b" "(v, fs1)"] u by fastforce
    then show ?thesis using run u Inr by (auto simp: lift_store_run)
  qed
qed

lemma healthy_subscription_delivery:
  assumes "se_type evt \<in> subscription_events" "se_metadata_org_id evt = i" "i \<noteq> []" "se_id evt \<noteq> []"
    and "stored_subscription v i = Some b" "\<not> marked v (se_id evt)"
  shows "process_event flaky_bstore evt (v, []) =
    (Inr True, (snd (mark_event_processed (se_id evt) (snd (upsert_subscription (subscription_update evt b) v))), []))"
proof -
  have g: "get_subscription i v = Inr b" using assms(5) by (simp add: get_subscription_def stored_subscription_def)
  have r: "resolve_org flaky_bstore i [] (se_customer evt) (se_id2 evt) (v, []) = (Inr b, (v, []))"
    using assms(3) g
    by (simp add: resolve_org_def or_try_def tryE_def okE_def Let_def flaky_bstore_def faulty_healthy readE_def)
  have a: "apply_event flaky_bstore evt (v, []) = (Inr (), (snd (upsert_subscription (subscription_update evt b) v), []))"
    using r assms(2) apply_subscription_type [OF assms(1), of flaky_bstore]
    by (simp add: apply_subscription_event_def with_org_def tryE_def lift_store_run flaky_bstore_def faulty_healthy
        upsert_subscription_def)
  have p: "lift_store (bs_event_processed flaky_bstore (se_id evt)) (v, []) = (Inr False, (v, []))"
    using assms(6) by (simp add: lift_store_run flaky_bstore_def faulty_healthy readE_def event_processed_def marked_def)
  have m: "lift_store (bs_mark_event_processed flaky_bstore (se_id evt)) (u, []) =
      (fst (lift_store (bs_mark_event_processed flaky_bstore (se_id evt)) (u, [])), (snd (mark_event_processed (se_id evt) u), []))"
    "\<exists>x. fst (lift_store (bs_mark_event_processed flaky_bstore (se_id evt)) (u, [])) = Inr x" for u
    by (auto simp: lift_store_run flaky_bstore_def faulty_healthy mark_event_processed_def)
  obtain x where x: "lift_store (bs_mark_event_processed flaky_bstore (se_id evt))
      (snd (upsert_subscription (subscription_update evt b) v), []) =
      (Inr x, (snd (mark_event_processed (se_id evt) (snd (upsert_subscription (subscription_update evt b) v))), []))"
    using m by metis
  show ?thesis using assms(4) p a x by (simp add: process_event_def bindE_def Let_def okE_def)
qed

section \<open>Properties\<close>

text \<open>an event id becomes marked only after its event was applied without an error, whatever
  fails; a delivery that reports success has marked it; and a delivery of a marked id changes
  nothing at all.\<close>

theorem webhook_marks_after_apply:
  assumes "se_id evt \<noteq> []" "process_event flaky_bstore evt (v, fs) = (q, (w, gs))"
  shows "(\<not> marked v (se_id evt) \<longrightarrow> marked w (se_id evt) \<longrightarrow>
      (\<exists>s2. apply_event flaky_bstore evt (v, tl fs) = (Inr (), s2))) \<and>
    (q = Inr True \<longrightarrow> marked w (se_id evt)) \<and>
    (marked v (se_id evt) \<longrightarrow> w = v \<and> q \<noteq> Inr True)"
proof (cases "marked v (se_id evt)")
  case True
  then show ?thesis using process_event_run [OF assms] by blast
next
  case False
  have unmarked: "\<not> marked u (se_id evt)" if "apply_event flaky_bstore evt (v, fs1) = (r, (u, fs2))" for fs1 r u fs2
  proof -
    have "st_processed_evts (fst (snd (apply_event flaky_bstore evt (v, fs1)))) = st_processed_evts (fst (v, fs1))"
      using flaky.marks_apply [of evt] unfolding keeps_marks_def by blast
    then show ?thesis using that False by (simp add: marked_def)
  qed
  consider "w = v" "q \<noteq> Inr True"
    | u fs2 e where "apply_event flaky_bstore evt (v, tl fs) = (Inl e, (u, fs2))" "q = Inl e" "w = u"
    | u fs2 m where "apply_event flaky_bstore evt (v, tl fs) = (Inr (), (u, fs2))"
        "lift_store (bs_mark_event_processed flaky_bstore (se_id evt)) (u, fs2) = (m, (w, gs))"
        "q = (case m of Inl e \<Rightarrow> Inl e | Inr _ \<Rightarrow> Inr True)"
    using process_event_run [OF assms] by blast
  then show ?thesis
  proof cases
    case 1
    then show ?thesis using False by simp
  next
    case 2
    then show ?thesis using False unmarked by auto
  next
    case 3
    have "marked w (se_id evt)" if "m = Inr x" for x
      using mark_flaky(2) [OF 3(2) that] by simp
    then show ?thesis using 3 False by (auto split: sum.splits)
  qed
qed

definition sample_event :: stripe_event where
  "sample_event = \<lparr>se_id = ''evt_1'', se_type = ''customer.subscription.updated'', se_id2 = ''sub_9'',
     se_subscription = [], se_customer = ''cus_9'', se_client_reference = [], se_status = ''past_due'',
     se_current_period_end = 3000000, se_metadata_org_id = ''o1'', se_subscription_item_id = [],
     se_item_current_period_end = 0\<rparr>"

lemma sample_event_simps [simp]:
  "se_id sample_event = ''evt_1''" "se_metadata_org_id sample_event = ''o1''"
  "se_type sample_event \<in> subscription_events"
  by (simp_all add: sample_event_def subscription_events_def)

lemma sample_stored: "stored_subscription sample_store ''o1'' = Some sample_subscription"
  by (simp add: stored_subscription_def sample_tables gget_def)

lemma sample_unmarked: "\<not> marked sample_store i"
  by (simp add: marked_def sample_tables)

lemma webhook_marks_after_apply_witness:
  "marked (fst (snd (process_event flaky_bstore sample_event (sample_store, [])))) ''evt_1''"
proof -
  obtain w gs where p: "process_event flaky_bstore sample_event (sample_store, []) = (Inr True, (w, gs))"
    using healthy_subscription_delivery [of sample_event "''o1''" sample_store sample_subscription]
    by (simp add: sample_stored sample_unmarked)
  show ?thesis using webhook_marks_after_apply [OF _ p] p by simp
qed

text \<open>C15: retries converge for the events of a subscription. A \<open>customer.subscription\<close> event that names a
  known organization in its metadata is delivered while the store fails anywhere but in the
  lookup of the subscription (the call of index 1); the clean redelivery then leaves the id
  marked and exactly the subscriptions a single clean delivery leaves: the event's real status,
  ids and period end on that organization's row and no other row touched. When the lookup fails,
  the event is lost for good: webhook_lookup_failure_drops_event.\<close>

theorem webhook_retry_converges:
  assumes "billing_wf v" "se_type evt \<in> subscription_events" "se_id evt \<noteq> []"
    and "se_metadata_org_id evt = i" "i \<noteq> []" "stored_subscription v i = Some b" "\<not> marked v (se_id evt)"
    and "healthy_at 1 fs"
    and "w = fst (snd (process_event flaky_bstore evt (v, fs)))"
    and "u = fst (snd (process_event flaky_bstore evt (w, [])))"
  shows "marked u (se_id evt) \<and>
    stored_subscription u = (stored_subscription v)(i \<mapsto> subscription_update evt b)"
proof -
  let ?f = "subscription_update evt"
  have org: "sub_org_id b = i" using assms(1,6) by (simp add: billing_wf_def keyed_def stored_subscription_def)
  have ups: "stored_subscription (snd (upsert_subscription (?f b) x)) = (stored_subscription x)(i \<mapsto> ?f b)" for x
    using org by (simp add: upsert_subscription_def stored_subscription_def fun_eq_iff)
  obtain q gs where p: "process_event flaky_bstore evt (v, fs) = (q, (w, gs))"
    using assms(9) by (metis fst_conv snd_conv surj_pair)
  have clean: "marked (fst (snd (process_event flaky_bstore evt (x, [])))) (se_id evt) \<and>
      stored_subscription (fst (snd (process_event flaky_bstore evt (x, [])))) = (stored_subscription v)(i \<mapsto> ?f b)"
    if "\<not> marked x (se_id evt)"
      "stored_subscription x = stored_subscription v \<or> stored_subscription x = (stored_subscription v)(i \<mapsto> ?f b)" for x
  proof -
    note same = that(2)
    obtain c where c: "stored_subscription x i = Some c" "?f c = ?f b" "sub_org_id c = i"
      using same assms(6) org by (auto simp: subscription_update_idem)
    have "stored_subscription (snd (upsert_subscription (?f c) x)) = (stored_subscription v)(i \<mapsto> ?f b)"
      using same ups [of x] c(2) by auto
    then show ?thesis
      using healthy_subscription_delivery [OF assms(2,4,5,3) c(1) that(1)] by simp
  qed
  have "healthy_at 0 (tl fs)"
    using assms(8) by (cases fs; cases "tl fs") (auto simp: healthy_at_def)
  then have first: "stored_subscription x = (stored_subscription v)(i \<mapsto> ?f b) \<or> (x = v \<and> (\<exists>e. r = Inl e))"
    if "apply_event flaky_bstore evt (v, tl fs) = (r, (x, fs2))" for r x fs2
    using apply_subscription_flaky [OF assms(2,4,5,6) org _ that] ups by auto
  have "stored_subscription w = stored_subscription v \<and> \<not> marked w (se_id evt) \<or>
      stored_subscription w = (stored_subscription v)(i \<mapsto> ?f b)"
    using process_event_run [OF assms(3) p]
  proof (elim disjE conjE exE)
    fix u fs2 m
    assume "apply_event flaky_bstore evt (v, tl fs) = (Inr (), (u, fs2))"
      and "lift_store (bs_mark_event_processed flaky_bstore (se_id evt)) (u, fs2) = (m, (w, gs))"
    with first mark_flaky(1) show ?thesis by fastforce
  qed (use assms(7) first in auto)
  then show ?thesis
    using clean [of w] marked_keeps_view [OF assms(3), of w "[]"] assms(10)
    by (cases "marked w (se_id evt)") auto
qed

lemma webhook_retry_converges_witness:
  "let w = fst (snd (process_event flaky_bstore sample_event (sample_store, [NoFault, NoFault, FailAfter])));
       u = fst (snd (process_event flaky_bstore sample_event (w, [])))
   in marked u ''evt_1'' \<and>
      stored_subscription u ''o1'' = Some (subscription_update sample_event sample_subscription)"
  using webhook_retry_converges [OF sample_billing_wf, of sample_event "''o1''" sample_subscription
      "[NoFault, NoFault, FailAfter]", OF _ _ _ _ sample_stored sample_unmarked _ refl refl]
  by (simp add: Let_def healthy_at_def)

text \<open>the lookup is where a retry does not help. If the read of the organization's subscription
  fails and the event's Stripe ids are not stored yet, the failure is taken for an unknown
  organization: the delivery reports success, the id is marked, the subscription keeps its old
  state, and every redelivery is ignored.\<close>

theorem webhook_lookup_failure_drops_event:
  assumes "se_type evt \<in> subscription_events" "se_id evt \<noteq> []" "se_metadata_org_id evt \<noteq> []"
    and "\<not> marked v (se_id evt)"
    and "get_subscription_by_stripe_id (se_id2 evt) v = Inl ErrNotFound"
    and "get_subscription_by_customer_id (se_customer evt) v = Inl ErrNotFound"
  shows "\<exists>w. process_event flaky_bstore evt (v, [NoFault, FailBefore]) = (Inr True, (w, [])) \<and>
    marked w (se_id evt) \<and> stored_subscription w = stored_subscription v \<and>
    (\<forall>fs. fst (snd (process_event flaky_bstore evt (w, fs))) = w)"
proof -
  let ?w = "snd (mark_event_processed (se_id evt) v)"
  have r: "resolve_org flaky_bstore (se_metadata_org_id evt) [] (se_customer evt) (se_id2 evt) (v, [FailBefore])
      = (Inl ErrNotFound, (v, []))"
    using assms(3,5,6)
    by (simp add: resolve_org_def or_try_def tryE_def okE_def failE_def Let_def flaky_bstore_def faulty_healthy
        faulty_next readE_def)
  have a: "apply_event flaky_bstore evt (v, [FailBefore]) = (Inr (), (v, []))"
    using r apply_subscription_type [OF assms(1), of flaky_bstore]
    by (simp add: apply_subscription_event_def with_org_def tryE_def okE_def)
  have p: "lift_store (bs_event_processed flaky_bstore (se_id evt)) (v, [NoFault, FailBefore]) = (Inr False, (v, [FailBefore]))"
    using assms(4) by (simp add: lift_store_run flaky_bstore_def faulty_next readE_def event_processed_def marked_def)
  have m: "lift_store (bs_mark_event_processed flaky_bstore (se_id evt)) (v, []) = (Inr True, (?w, []))"
    using assms(4) by (simp add: lift_store_run flaky_bstore_def faulty_healthy mark_event_processed_def marked_def)
  have "process_event flaky_bstore evt (v, [NoFault, FailBefore]) = (Inr True, (?w, []))"
    using assms(2) p a m by (simp add: process_event_def bindE_def Let_def okE_def)
  moreover have "\<forall>fs. fst (snd (process_event flaky_bstore evt (?w, fs))) = ?w"
    using marked_keeps_view [OF assms(2)] by simp
  ultimately show ?thesis by (intro exI [of _ ?w]) simp
qed

lemma webhook_lookup_failure_drops_event_witness:
  "\<exists>w. process_event flaky_bstore sample_event (sample_store, [NoFault, FailBefore]) = (Inr True, (w, [])) \<and>
     stored_subscription w ''o1'' = Some sample_subscription"
proof -
  have "get_subscription_by_stripe_id (se_id2 sample_event) sample_store = Inl ErrNotFound"
    "get_subscription_by_customer_id (se_customer sample_event) sample_store = Inl ErrNotFound"
    by (simp_all add: get_subscription_by_stripe_id_def get_subscription_by_customer_id_def sample_tables
        gvals_def sample_subscription_def sample_event_def)
  then show ?thesis
    using webhook_lookup_failure_drops_event [of sample_event sample_store] sample_unmarked sample_stored by auto
qed

end
