(* ===== verification/Retry.thy ===== *)
theory Retry
  imports Go_Time
begin

text \<open>
  Bounded retry with backoff (\<open>internal/retryx/retryx.go\<close>). The function under retry is an
  operation on some state; the random jitter and the moment the context fires are arguments.
\<close>

record policy =
  pol_max_attempts :: int
  pol_base_delay :: duration
  pol_max_delay :: duration
  pol_jitter :: bool

definition default_policy :: policy where
  "default_policy = \<lparr>pol_max_attempts = 3, pol_base_delay = 200000000, pol_max_delay = 2000000000, pol_jitter = True\<rparr>"

text \<open>What one attempt returns: nil, an error wrapped by \<open>Terminal\<close>, any other error.\<close>

datatype 'e attempt = AttemptOk | AttemptTerminal 'e | AttemptError 'e

datatype 'e retry_result = RetryOk | RetryError 'e | RetryCanceled string

section \<open>Backoff\<close>

text \<open>The doubling loop; \<open>d *= 2\<close> wraps.\<close>

fun double_delay :: "duration \<Rightarrow> nat \<Rightarrow> duration \<Rightarrow> duration" where
  "double_delay cap 0 d = d"
| "double_delay cap (Suc n) d =
     (let d2 = wrap64 (d * 2) in if cap > 0 \<and> d2 \<ge> cap then cap else double_delay cap n d2)"

text \<open>\<open>rnd n\<close> stands for \<open>rand.Int63n(n)\<close>.\<close>

definition backoff :: "(int \<Rightarrow> int) \<Rightarrow> policy \<Rightarrow> nat \<Rightarrow> duration" where
  "backoff rnd p attempt =
     (let base = (if pol_base_delay p \<le> 0 then 100000000 else pol_base_delay p);
          d1 = double_delay (pol_max_delay p) attempt base;
          d2 = (if pol_max_delay p > 0 \<and> d1 > pol_max_delay p then pol_max_delay p else d1)
      in if pol_jitter p \<and> d2 > 0
         then (let half = d2 sdiv 2 in wrap64 (half + rnd (wrap64 (d2 - half + 1))))
         else d2)"

section \<open>The loop\<close>

text \<open>
  \<open>left\<close> is the number of attempts still allowed after this one, \<open>k\<close> the index of this one;
  \<open>wait k d\<close> is what waiting returns: the context's error, or none when the timer fires.
\<close>

fun retry_loop ::
    "(nat \<Rightarrow> int \<Rightarrow> int) \<Rightarrow> (nat \<Rightarrow> duration \<Rightarrow> string option) \<Rightarrow> policy \<Rightarrow> ('s \<Rightarrow> 'e attempt \<times> 's) \<Rightarrow>
     nat \<Rightarrow> nat \<Rightarrow> 's \<Rightarrow> 'e retry_result \<times> 's" where
  "retry_loop rnd wait p f k 0 s =
     (case f s of
        (AttemptOk, t) \<Rightarrow> (RetryOk, t)
      | (AttemptTerminal e, t) \<Rightarrow> (RetryError e, t)
      | (AttemptError e, t) \<Rightarrow> (RetryError e, t))"
| "retry_loop rnd wait p f k (Suc left) s =
     (case f s of
        (AttemptOk, t) \<Rightarrow> (RetryOk, t)
      | (AttemptTerminal e, t) \<Rightarrow> (RetryError e, t)
      | (AttemptError e, t) \<Rightarrow>
          (case wait k (backoff (rnd k) p k) of
             Some c \<Rightarrow> (RetryCanceled c, t)
           | None \<Rightarrow> retry_loop rnd wait p f (Suc k) left t))"

definition retry_do ::
    "(nat \<Rightarrow> int \<Rightarrow> int) \<Rightarrow> (nat \<Rightarrow> duration \<Rightarrow> string option) \<Rightarrow> policy \<Rightarrow> ('s \<Rightarrow> 'e attempt \<times> 's) \<Rightarrow>
     's \<Rightarrow> 'e retry_result \<times> 's" where
  "retry_do rnd wait p f s =
     (let attempts = (if pol_max_attempts p < 1 then 1 else pol_max_attempts p)
      in retry_loop rnd wait p f 0 (nat (attempts - 1)) s)"

section \<open>Backoff bounds\<close>

lemma double_delay_bounds:
  assumes "0 < d" "d \<le> cap" "2 * cap \<le> max_i64"
  shows "d \<le> double_delay cap n d \<and> double_delay cap n d \<le> cap \<and>
    double_delay cap n d = min cap (d * 2 ^ n)"
  using assms
proof (induction n arbitrary: d)
  case 0
  then show ?case by simp
next
  case (Suc n)
  have w: "wrap64 (d * 2) = d * 2"
    using Suc.prems by (intro wrap64_id) (simp add: is_i64_def min_i64_def max_i64_def)
  have p: "d * 2 \<le> d * 2 * 2 ^ n" using Suc.prems(1) by (simp add: mult_le_cancel_left1)
  show ?case
  proof (cases "cap \<le> d * 2")
    case True
    then have "cap \<le> d * 2 ^ Suc n" using p by (simp add: mult.assoc)
    then show ?thesis using True w Suc.prems by (simp add: Let_def)
  next
    case False
    then show ?thesis using Suc.IH [of "d * 2"] w Suc.prems one_le_power [of "2::int" "Suc n"] by (simp add: Let_def mult.assoc)
  qed
qed

text \<open>The step before jitter: the base delay doubled per attempt, capped.\<close>

definition backoff_step :: "policy \<Rightarrow> nat \<Rightarrow> duration" where
  "backoff_step p attempt = min (pol_max_delay p) (pol_base_delay p * 2 ^ attempt)"

lemma sdiv_2: "0 \<le> (d::int) \<Longrightarrow> d sdiv 2 = d div 2"
  by (simp add: signed_divide_int_def sgn_if)

lemma backoff_bounds:
  assumes "0 < pol_base_delay p" "pol_base_delay p \<le> pol_max_delay p" "2 * pol_max_delay p \<le> max_i64"
    and "\<And>n. 0 < n \<Longrightarrow> 0 \<le> rnd n \<and> rnd n < n"
  shows "backoff_step p attempt div 2 \<le> backoff rnd p attempt \<and> backoff rnd p attempt \<le> backoff_step p attempt \<and>
    0 < backoff_step p attempt \<and> (\<not> pol_jitter p \<longrightarrow> backoff rnd p attempt = backoff_step p attempt)"
proof -
  let ?d = "double_delay (pol_max_delay p) attempt (pol_base_delay p)"
  note b = double_delay_bounds [OF assms(1-3), of attempt]
  have d: "?d = backoff_step p attempt" "0 < ?d" "?d \<le> pol_max_delay p"
    using b assms(1) by (auto simp: backoff_step_def)
  have i: "is_i64 x" if "0 \<le> x" "x \<le> ?d + 1" for x
    using that d(3) assms(3) d(2) by (auto simp: is_i64_def min_i64_def max_i64_def)
  have w1: "wrap64 (?d - ?d div 2 + 1) = ?d - ?d div 2 + 1" using d(2) by (intro wrap64_id i) auto
  have r: "0 \<le> rnd (?d - ?d div 2 + 1)" "rnd (?d - ?d div 2 + 1) < ?d - ?d div 2 + 1"
    using assms(4) [of "?d - ?d div 2 + 1"] d(2) by auto
  then have w2: "wrap64 (?d div 2 + rnd (?d - ?d div 2 + 1)) = ?d div 2 + rnd (?d - ?d div 2 + 1)"
    using d(2) by (intro wrap64_id i) auto
  have "backoff rnd p attempt = (if pol_jitter p then ?d div 2 + rnd (?d - ?d div 2 + 1) else ?d)"
    using assms(1) d(2,3) by (simp add: backoff_def Let_def sdiv_2 w1 w2 not_less)
  then show ?thesis using r d(2) unfolding d(1) [symmetric] by auto
qed

section \<open>What the loop does\<close>

text \<open>Counting the calls of the function.\<close>

definition counted :: "('s \<Rightarrow> 'e attempt \<times> 's) \<Rightarrow> 's \<times> nat \<Rightarrow> 'e attempt \<times> ('s \<times> nat)" where
  "counted f c = (let (s, n) = c; (r, t) = f s in (r, (t, Suc n)))"

lemma retry_calls:
  "retry_loop rnd wait p (counted f) k left (s, n) = (r, (t, m)) \<Longrightarrow> n < m \<and> m \<le> n + Suc left"
proof (induction left arbitrary: k s n)
  case 0
  then show ?case by (auto simp: counted_def Let_def split: prod.splits attempt.splits)
next
  case (Suc left)
  obtain a u where f: "f s = (a, u)" by fastforce
  show ?case
  proof (cases a)
    case (AttemptError e)
    show ?thesis
    proof (cases "wait k (backoff (rnd k) p k)")
      case None
      then show ?thesis using Suc.IH [of "Suc k" u "Suc n"] Suc.prems f AttemptError by (auto simp: counted_def)
    next
      case (Some c)
      then show ?thesis using Suc.prems f AttemptError by (simp add: counted_def)
    qed
  qed (use Suc.prems f in \<open>auto simp: counted_def\<close>)
qed

text \<open>A scripted function: each call takes the next outcome.\<close>

fun scripted :: "'e attempt list \<Rightarrow> 'e attempt \<times> 'e attempt list" where
  "scripted [] = (AttemptOk, [])"
| "scripted (a # as) = (a, as)"

text \<open>The first outcome that is not a plain error, among the attempts allowed, decides.\<close>

fun first_decision :: "nat \<Rightarrow> 'e attempt list \<Rightarrow> 'e retry_result" where
  "first_decision left [] = RetryOk"
| "first_decision left (AttemptOk # as) = RetryOk"
| "first_decision left (AttemptTerminal e # as) = RetryError e"
| "first_decision 0 (AttemptError e # as) = RetryError e"
| "first_decision (Suc left) (AttemptError e # as) = first_decision left as"

lemma retry_scripted:
  "fst (retry_loop rnd (\<lambda>_ _. None) p scripted k left as) = first_decision left as"
proof (induction left as arbitrary: k rule: first_decision.induct)
  case (1 left)
  then show ?case by (cases left) simp_all
next
  case (2 left as)
  then show ?case by (cases left) simp_all
next
  case (3 left e as)
  then show ?case by (cases left) simp_all
qed simp_all

section \<open>Properties\<close>

text \<open>C27: the retried function is called at least once and at most \<open>MaxAttempts\<close> times (once when
  that is below one), whatever it returns and whenever the context fires.\<close>

theorem retry_attempts_bounded:
  assumes "retry_do rnd wait p (counted f) (s, 0) = (r, (t, m))"
  shows "1 \<le> m \<and> int m \<le> max 1 (pol_max_attempts p)"
  using retry_calls [OF assms [unfolded retry_do_def Let_def]] by (auto split: if_splits)

lemma retry_attempts_bounded_witness:
  "let (r, (t, m)) = retry_do (\<lambda>_ _. 0) (\<lambda>_ _. None) default_policy (counted scripted)
       ([AttemptError ''a'', AttemptError ''b'', AttemptError ''c'', AttemptOk], 0)
   in 1 \<le> m \<and> m \<le> 3"
proof -
  obtain r t m where x: "retry_do (\<lambda>_ _. 0) (\<lambda>_ _. None) default_policy (counted scripted)
      ([AttemptError ''a'', AttemptError ''b'', AttemptError ''c'', AttemptOk], 0) = (r, (t, m))"
    by (metis surj_pair)
  show ?thesis using retry_attempts_bounded [OF x] unfolding x Let_def by (simp add: default_policy_def)
qed

text \<open>with a base delay within the cap and a cap far from the end of \<open>int64\<close>, the wait after an
  attempt lies between half and all of the base delay doubled per attempt and capped, is never
  negative, and is that step exactly without jitter.\<close>

theorem retry_backoff_bounds:
  assumes "0 < pol_base_delay p" "pol_base_delay p \<le> pol_max_delay p" "2 * pol_max_delay p \<le> max_i64"
    and "\<And>n. 0 < n \<Longrightarrow> 0 \<le> rnd n \<and> rnd n < n"
  shows "min (pol_max_delay p) (pol_base_delay p * 2 ^ attempt) div 2 \<le> backoff rnd p attempt \<and>
    backoff rnd p attempt \<le> min (pol_max_delay p) (pol_base_delay p * 2 ^ attempt) \<and>
    (\<not> pol_jitter p \<longrightarrow> backoff rnd p attempt = min (pol_max_delay p) (pol_base_delay p * 2 ^ attempt))"
  using backoff_bounds [OF assms] by (simp add: backoff_step_def)

lemma retry_backoff_bounds_witness:
  "1000000000 \<le> backoff (\<lambda>n. n - 1) default_policy 5 \<and> backoff (\<lambda>n. n - 1) default_policy 5 \<le> 2000000000"
  using retry_backoff_bounds [of default_policy "\<lambda>n. n - 1" 5]
  by (simp add: default_policy_def max_i64_def)

text \<open>when the context never fires, the result is that of the first attempt that succeeds or
  fails terminally, and the last error when the attempts run out before one does.\<close>

theorem retry_first_decision:
  "fst (retry_do rnd (\<lambda>_ _. None) p scripted as) = first_decision (nat (max 1 (pol_max_attempts p) - 1)) as"
  by (simp add: retry_do_def Let_def retry_scripted max_def)

end
