(* ===== verification/Provider.thy ===== *)
theory Provider
  imports Reporting Retry
begin

text \<open>
  The payment provider: its interface and the mock (\<open>billing/provider.go\<close>), the verification of
  webhook signatures, and the Stripe client with its retries (\<open>billing/stripe.go\<close>). The HMAC
  and the HTTP round trip are arguments.
\<close>

section \<open>The interface and the mock\<close>

record provider_subscription =
  ps_id :: string
  ps_status :: string
  ps_checkout_url :: string

record 's provider =
  pp_name :: string
  pp_ensure_customer :: "string \<Rightarrow> string \<Rightarrow> (string, 's, string) op"
  pp_create_subscription :: "string \<Rightarrow> string \<Rightarrow> plan \<Rightarrow> (string, 's, provider_subscription) op"
  pp_reporter :: "'s reporter option"

definition mock_ensure_customer :: "string \<Rightarrow> string \<Rightarrow> (string, 's, string) op" where
  "mock_ensure_customer org_i email = okE (''cus_mock_'' @ org_i)"

definition mock_create_subscription :: "string \<Rightarrow> string \<Rightarrow> plan \<Rightarrow> (string, 's, provider_subscription) op" where
  "mock_create_subscription org_i customer p =
     okE \<lparr>ps_id = ''sub_mock_'' @ org_i @ ''_'' @ plan_id p,
          ps_status = subscription_status_text SubActive, ps_checkout_url = []\<rparr>"

definition mock_provider :: "'s provider" where
  "mock_provider =
     \<lparr>pp_name = ''mock'', pp_ensure_customer = mock_ensure_customer,
      pp_create_subscription = mock_create_subscription, pp_reporter = None\<rparr>"

section \<open>Webhook signatures\<close>

text \<open>\<open>strings.SplitN(s, "=", 2)\<close>.\<close>

definition split_two :: "char \<Rightarrow> string \<Rightarrow> (string \<times> string) option" where
  "split_two c s =
     (case dropWhile (\<lambda>x. x \<noteq> c) s of [] \<Rightarrow> None | _ # v \<Rightarrow> Some (takeWhile (\<lambda>x. x \<noteq> c) s, v))"

fun scan_signature :: "string list \<Rightarrow> string \<times> string list \<Rightarrow> string \<times> string list" where
  "scan_signature [] acc = acc"
| "scan_signature (p # ps) (ts, sigs) =
     (case split_two (CHR ''='') (trim_space p) of
        None \<Rightarrow> scan_signature ps (ts, sigs)
      | Some (k, v) \<Rightarrow>
          if k = ''t'' then scan_signature ps (v, sigs)
          else if k = ''v1'' then scan_signature ps (ts, sigs @ [v])
          else scan_signature ps (ts, sigs))"

text \<open>True is a nil error; \<open>hmac_hex key msg\<close> is the hex text of HMAC-SHA256.\<close>

definition verify_webhook_signature ::
    "(string \<Rightarrow> string \<Rightarrow> string) \<Rightarrow> string \<Rightarrow> string \<Rightarrow> string \<Rightarrow> duration \<Rightarrow> time \<Rightarrow> bool" where
  "verify_webhook_signature hmac_hex payload sig_header secret tolerance now =
     (if secret = [] then False
      else let (ts, sigs) = scan_signature (split_char (CHR '','') sig_header) ([], [])
           in if ts = [] \<or> sigs = [] then False
              else case atoi ts of
                     None \<Rightarrow> False
                   | Some n \<Rightarrow>
                       (let diff0 = time_sub now (time_unix n);
                            diff = (if diff0 < 0 then wrap64 (- diff0) else diff0)
                        in if tolerance > 0 \<and> diff > tolerance then False
                           else hmac_hex secret (ts @ ''.'' @ payload) \<in> set sigs))"

section \<open>The Stripe client\<close>

text \<open>
  One HTTP round trip: a transport error (with the context's state), or a status and a body.
  The form is the list of fields set; encoding it and decoding the answer are the standard
  library's.
\<close>

type_synonym form = "(string \<times> string) list"

datatype http_answer = HttpFailed string bool | HttpAnswer int string

definition post_once :: "(string \<Rightarrow> form \<Rightarrow> 's \<Rightarrow> http_answer \<times> 's) \<Rightarrow> string \<Rightarrow> form \<Rightarrow> (string \<Rightarrow> bool) \<Rightarrow>
    's \<times> string \<Rightarrow> string attempt \<times> ('s \<times> string)" where
  "post_once http path frm decodes c =
     (case http path frm (fst c) of
        (HttpFailed e ctx_done, t) \<Rightarrow> (if ctx_done then AttemptTerminal e else AttemptError e, (t, snd c))
      | (HttpAnswer status body, t) \<Rightarrow>
          if status < 200 \<or> status \<ge> 300
          then (let e = ''stripe: status '' @ itoa status @ '': '' @ trim_space body
                in (if status \<ge> 500 \<or> status = 429 then AttemptError e else AttemptTerminal e, (t, snd c)))
          else if decodes body then (AttemptOk, (t, body))
          else (AttemptTerminal ''invalid character'', (t, snd c)))"

text \<open>The body of the last successful answer is what the caller decodes.\<close>

definition stripe_post ::
    "(nat \<Rightarrow> int \<Rightarrow> int) \<Rightarrow> (nat \<Rightarrow> duration \<Rightarrow> string option) \<Rightarrow> (string \<Rightarrow> form \<Rightarrow> 's \<Rightarrow> http_answer \<times> 's) \<Rightarrow>
     string \<Rightarrow> form \<Rightarrow> (string \<Rightarrow> bool) \<Rightarrow> (string, 's, string) op" where
  "stripe_post rnd wait http path frm decodes s =
     (case retry_do rnd wait default_policy (post_once http path frm decodes) (s, []) of
        (RetryOk, (t, body)) \<Rightarrow> (Inr body, t)
      | (RetryError e, (t, body)) \<Rightarrow> (Inl e, t)
      | (RetryCanceled e, (t, body)) \<Rightarrow> (Inl e, t))"

record stripe_client =
  sc_success_url :: string
  sc_cancel_url :: string

text \<open>\<open>field name body\<close> reads a string field of a JSON answer; absent is the empty string.\<close>

definition stripe_ensure_customer ::
    "(string \<Rightarrow> form \<Rightarrow> (string \<Rightarrow> bool) \<Rightarrow> (string, 's, string) op) \<Rightarrow> (string \<Rightarrow> bool) \<Rightarrow> (string \<Rightarrow> string \<Rightarrow> string) \<Rightarrow>
     string \<Rightarrow> string \<Rightarrow> (string, 's, string) op" where
  "stripe_ensure_customer post decodes field org_i email =
     bindE (post ''/customers'' [(''email'', email), (''metadata[org_id]'', org_i)] decodes)
       (\<lambda>body. okE (field ''id'' body))"

definition stripe_create_subscription ::
    "stripe_client \<Rightarrow> (string \<Rightarrow> form \<Rightarrow> (string \<Rightarrow> bool) \<Rightarrow> (string, 's, string) op) \<Rightarrow> (string \<Rightarrow> bool) \<Rightarrow>
     (string \<Rightarrow> string \<Rightarrow> string) \<Rightarrow> string \<Rightarrow> string \<Rightarrow> plan \<Rightarrow> (string, 's, provider_subscription) op" where
  "stripe_create_subscription sc post decodes field org_i customer p =
     (if plan_stripe_price_id p = [] then failE ''stripe: plan has no StripePriceID configured''
      else bindE (post ''/checkout/sessions''
             [(''mode'', ''subscription''), (''customer'', customer), (''client_reference_id'', org_i),
              (''line_items[0][price]'', plan_stripe_price_id p), (''line_items[0][quantity]'', ''1''),
              (''subscription_data[metadata][org_id]'', org_i),
              (''success_url'', sc_success_url sc), (''cancel_url'', sc_cancel_url sc)] decodes)
             (\<lambda>body. okE \<lparr>ps_id = [], ps_status = subscription_status_text SubIncomplete,
                            ps_checkout_url = field ''url'' body\<rparr>))"

text \<open>\<open>escape\<close> is \<open>url.PathEscape\<close>; nothing is decoded from the answer.\<close>

definition stripe_report_usage ::
    "(string \<Rightarrow> form \<Rightarrow> (string \<Rightarrow> bool) \<Rightarrow> (string, 's, string) op) \<Rightarrow> (string \<Rightarrow> string) \<Rightarrow> 's reporter" where
  "stripe_report_usage post escape item quantity tm =
     (if item = [] \<or> quantity \<le> 0 then okE ()
      else bindE (post (''/subscription_items/'' @ escape item @ ''/usage_records'')
             [(''quantity'', itoa quantity), (''timestamp'', itoa (tm div second_ns)), (''action'', ''increment'')]
             (\<lambda>_. True)) (\<lambda>_. okE ()))"

section \<open>Splitting\<close>

lemma split_two_first: "c \<notin> set k \<Longrightarrow> split_two c (k @ c # v) = Some (k, v)"
  by (simp add: split_two_def dropWhile_append takeWhile_append)

lemma trim_no_space: "s = [] \<or> (\<not> is_space (hd s) \<and> \<not> is_space (last s)) \<Longrightarrow> trim_space s = s"
  by (auto simp: trim_space_def trim_by_def dropWhile_id_hd hd_rev)

lemma scan_signature_sigs:
  "v \<in> set (snd (scan_signature ps acc)) \<Longrightarrow>
     v \<in> set (snd acc) \<or> (\<exists>p \<in> set ps. split_two (CHR ''='') (trim_space p) = Some (''v1'', v))"
proof (induction ps arbitrary: acc)
  case (Cons p ps)
  obtain ts sigs where a: "acc = (ts, sigs)" by (cases acc)
  show ?case
  proof (cases "split_two (CHR ''='') (trim_space p)")
    case None
    then show ?thesis using Cons a by auto
  next
    case (Some kv)
    obtain k w where kv: "kv = (k, w)" by (cases kv)
    consider "k = ''t''" | "k = ''v1''" | "k \<noteq> ''t''" "k \<noteq> ''v1''" by blast
    then show ?thesis using Cons.IH [of "(w, sigs)"] Cons.IH [of "(ts, sigs @ [w])"]
        Cons.IH [of "(ts, sigs)"] Cons.prems a Some kv by cases auto
  qed
qed simp

lemma scan_signature_ts:
  "fst (scan_signature ps acc) = fst acc \<or>
     (\<exists>p \<in> set ps. split_two (CHR ''='') (trim_space p) = Some (''t'', fst (scan_signature ps acc)))"
proof (induction ps arbitrary: acc)
  case (Cons p ps)
  obtain ts sigs where a: "acc = (ts, sigs)" by (cases acc)
  show ?case
  proof (cases "split_two (CHR ''='') (trim_space p)")
    case None
    then show ?thesis using Cons.IH [of acc] a by auto
  next
    case (Some kv)
    obtain k w where kv: "kv = (k, w)" by (cases kv)
    consider "k = ''t''" | "k = ''v1''" | "k \<noteq> ''t''" "k \<noteq> ''v1''" by blast
    then show ?thesis using Cons.IH [of "(w, sigs)"] Cons.IH [of "(ts, sigs @ [w])"]
        Cons.IH [of "(ts, sigs)"] a Some kv by cases auto
  qed
qed simp

section \<open>Headers the sender writes\<close>

lemma no_digit: "is_space c \<Longrightarrow> char_digit c = None" "char_digit (CHR '','') = None"
  "char_digit (CHR ''='') = None"
  by (auto simp: is_space_def char_digit_def Let_def)

definition plain :: "string \<Rightarrow> bool" where
  "plain s \<longleftrightarrow> (\<forall>c \<in> set s. c \<noteq> CHR '','' \<and> \<not> is_space c)"

lemma plain_itoa: "plain (itoa n)"
proof -
  have "plain (nat_digits k)" for k
    using nat_digits_chars no_digit unfolding plain_def by fastforce
  moreover have "\<not> is_space (CHR ''-'')" by (simp add: is_space_def Let_def)
  ultimately show ?thesis by (auto simp: itoa_def plain_def)
qed

lemma itoa_nonempty [simp]: "itoa n \<noteq> []"
  by (simp add: itoa_def)

lemma trim_plain: "plain s \<Longrightarrow> trim_space s = s"
  by (rule trim_no_space) (use hd_in_set last_in_set in \<open>fastforce simp: plain_def\<close>)

lemma plain_comma: "plain s \<Longrightarrow> CHR '','' \<notin> set s"
  by (auto simp: plain_def)

text \<open>The header Stripe sends for a timestamp and one signature.\<close>

definition signature_header :: "string \<Rightarrow> string \<Rightarrow> string" where
  "signature_header ts sig = ''t='' @ ts @ '','' @ ''v1='' @ sig"

lemma scan_header:
  assumes "plain ts" "plain sig"
  shows "scan_signature (split_char (CHR '','') (signature_header ts sig)) ([], []) = (ts, [sig])"
proof -
  have sp: "\<not> is_space (CHR ''t'')" "\<not> is_space (CHR ''='')" "\<not> is_space (CHR ''v'')" "\<not> is_space (CHR ''1'')"
    by (simp_all add: is_space_def Let_def)
  have pl: "plain (''t='' @ ts)" "plain (''v1='' @ sig)" using assms sp by (auto simp: plain_def)
  have "split_char (CHR '','') (signature_header ts sig) = [''t='' @ ts, ''v1='' @ sig]"
    using split_char_append [OF plain_comma [OF pl(1)], of "''v1='' @ sig"]
      split_char_no [OF plain_comma [OF pl(2)]] by (simp add: signature_header_def)
  moreover have "split_two (CHR ''='') (''t='' @ ts) = Some (''t'', ts)"
    "split_two (CHR ''='') (''v1='' @ sig) = Some (''v1'', sig)"
    by (simp_all add: split_two_def)
  ultimately show ?thesis by (simp add: trim_plain [OF pl(1), simplified] trim_plain [OF pl(2), simplified])
qed

text \<open>The clock test on the parsed timestamp.\<close>

definition fresh :: "duration \<Rightarrow> time \<Rightarrow> int \<Rightarrow> bool" where
  "fresh tol now n \<longleftrightarrow>
     \<not> (tol > 0 \<and> (if time_sub now (time_unix n) < 0 then wrap64 (- time_sub now (time_unix n))
                    else time_sub now (time_unix n)) > tol)"

lemma verify_unfold:
  "verify_webhook_signature hmac_hex payload hdr secret tol now =
     (case scan_signature (split_char (CHR '','') hdr) ([], []) of (ts, sigs) \<Rightarrow>
        secret \<noteq> [] \<and> ts \<noteq> [] \<and> sigs \<noteq> [] \<and>
        (case atoi ts of None \<Rightarrow> False
         | Some n \<Rightarrow> fresh tol now n \<and> hmac_hex secret (ts @ ''.'' @ payload) \<in> set sigs))"
  by (auto simp: verify_webhook_signature_def fresh_def Let_def split: prod.splits option.splits)

lemma fresh_sound:
  "fresh tol now n \<Longrightarrow> tol < max_i64 \<Longrightarrow> 0 < tol \<longrightarrow> \<bar>now - time_unix n\<bar> \<le> tol \<or> now - time_unix n \<le> min_i64"
  using wrap64_id [of "- (now - time_unix n)"]
  by (auto simp: fresh_def time_sub_def is_i64_def min_i64_def max_i64_def max_def min_def split: if_splits)

lemma fresh_near: "tol \<le> 0 \<or> \<bar>now - time_unix n\<bar> \<le> tol \<Longrightarrow> tol \<le> max_i64 \<Longrightarrow> fresh tol now n"
  using wrap64_id [of "- (now - time_unix n)"]
  by (auto simp: fresh_def time_sub_def is_i64_def min_i64_def max_i64_def max_def min_def split: if_splits)

lemma verify_header:
  assumes "secret \<noteq> []" "is_i64 n" "plain sig" "fresh tol now n"
  shows "verify_webhook_signature hmac_hex payload (signature_header (itoa n) sig) secret tol now
    \<longleftrightarrow> hmac_hex secret (itoa n @ ''.'' @ payload) = sig"
  unfolding verify_unfold scan_header [OF plain_itoa assms(3)] using assms by (simp add: atoi_itoa)

section \<open>A network that loses answers\<close>

text \<open>
  An example transport for the retried call: a request may be lost, delivered but unanswered,
  or answered with success; the provider's ledger records every delivered form.
\<close>

datatype delivery = Lost | Unanswered | Answered

fun lossy_http :: "string \<Rightarrow> form \<Rightarrow> delivery list \<times> form list \<Rightarrow> http_answer \<times> (delivery list \<times> form list)" where
  "lossy_http path frm ([], led) = (HttpFailed ''connection refused'' False, ([], led))"
| "lossy_http path frm (Lost # ds, led) = (HttpFailed ''connection refused'' False, (ds, led))"
| "lossy_http path frm (Unanswered # ds, led) = (HttpFailed ''unexpected EOF'' False, (ds, led @ [frm]))"
| "lossy_http path frm (Answered # ds, led) = (HttpAnswer 200 ''{}'', (ds, led @ [frm]))"

lemma retry_lossy:
  assumes "retry_loop rnd wait p (post_once lossy_http path frm d) k left ((ds, led), b) = (r, ((es, led'), b'))"
    and "\<And>x. d x"
  shows "\<exists>j \<le> Suc left. led' = led @ replicate j frm \<and> (r = RetryOk \<longrightarrow> 1 \<le> j)"
  using assms(1)
proof (induction left arbitrary: k ds led b)
  case 0
  show ?case
  proof (cases "(path, frm, ds, led)" rule: lossy_http.cases)
    case (3 path frm ds' led)
    then show ?thesis using 0 assms(2) by (intro exI [of _ 1]) (auto simp: post_once_def)
  next
    case (4 path frm ds' led)
    then show ?thesis using 0 assms(2) by (intro exI [of _ 1]) (auto simp: post_once_def)
  qed (use 0 in \<open>auto simp: post_once_def\<close>)
next
  case (Suc left)
  have step: "\<exists>j \<le> Suc (Suc left). led' = led @ replicate j frm \<and> (r = RetryOk \<longrightarrow> 1 \<le> j)"
    if "post_once lossy_http path frm d ((ds, led), b) = (AttemptError e, ((ds', led @ replicate i frm), b))" "i \<le> 1"
    for e ds' i
  proof (cases "wait k (backoff (rnd k) p k)")
    case None
    note a = that
    obtain j where "j \<le> Suc left" "led' = (led @ replicate i frm) @ replicate j frm" "r = RetryOk \<longrightarrow> 1 \<le> j"
      using Suc.IH [of "Suc k" ds' "led @ replicate i frm" b] Suc.prems a None by auto
    then show ?thesis using a(2) by (intro exI [of _ "i + j"]) (auto simp: replicate_add)
  next
    case (Some c)
    then show ?thesis using Suc.prems that by (intro exI [of _ i]) auto
  qed
  show ?case
  proof (cases "(path, frm, ds, led)" rule: lossy_http.cases)
    case (1 path frm led)
    then show ?thesis using step [where i = 0] by (auto simp: post_once_def)
  next
    case (2 path frm ds' led)
    then show ?thesis using step [where i = 0] by (auto simp: post_once_def)
  next
    case (3 path frm ds' led)
    then show ?thesis using step [where i = 1] by (auto simp: post_once_def)
  next
    case (4 path frm ds' led)
    then show ?thesis using Suc.prems assms(2) by (intro exI [of _ 1]) (auto simp: post_once_def)
  qed
qed

section \<open>Properties\<close>

text \<open>an accepted webhook was signed: the secret is set, the header carries a timestamp and a
  \<open>v1\<close> signature equal to the HMAC of that timestamp, a dot and the payload, and with a
  positive tolerance the timestamp is within it of the clock (or so far ahead that Go's
  \<open>Sub\<close> saturates).\<close>

theorem webhook_signature_sound:
  assumes "verify_webhook_signature hmac_hex payload hdr secret tol now" and "tol < max_i64"
  shows "secret \<noteq> [] \<and> (\<exists>ts n.
    (\<exists>p \<in> set (split_char (CHR '','') hdr). split_two (CHR ''='') (trim_space p) = Some (''t'', ts)) \<and>
    (\<exists>p \<in> set (split_char (CHR '','') hdr).
       split_two (CHR ''='') (trim_space p) = Some (''v1'', hmac_hex secret (ts @ ''.'' @ payload))) \<and>
    atoi ts = Some n \<and>
    (0 < tol \<longrightarrow> \<bar>now - time_unix n\<bar> \<le> tol \<or> now - time_unix n \<le> min_i64))"
proof -
  obtain ts sigs where sc: "scan_signature (split_char (CHR '','') hdr) ([], []) = (ts, sigs)"
    by (metis surj_pair)
  obtain n where n: "atoi ts = Some n" "secret \<noteq> []" "ts \<noteq> []" "fresh tol now n"
    and mac: "hmac_hex secret (ts @ ''.'' @ payload) \<in> set sigs"
    using assms(1) unfolding verify_unfold sc by (auto split: if_splits option.splits)
  show ?thesis
    using n fresh_sound [OF n(4) assms(2)] scan_signature_sigs [of _ "split_char (CHR '','') hdr" "([], [])", unfolded sc fst_conv snd_conv, OF mac]
      scan_signature_ts [of "split_char (CHR '','') hdr" "([], [])", unfolded sc fst_conv]
    by auto
qed

text \<open>A toy keyed digest, for the witnesses.\<close>

definition toy_mac :: "string \<Rightarrow> string \<Rightarrow> string" where
  "toy_mac key msg = itoa (int (length key) + 7 * int (length msg))"

lemma webhook_signature_sound_witness:
  "\<exists>ts n. atoi ts = Some n \<and>
    (\<bar>time_unix 1700000100 - time_unix n\<bar> \<le> 300 * second_ns \<or> time_unix 1700000100 - time_unix n \<le> min_i64)"
proof -
  have "verify_webhook_signature toy_mac ''{}'' (signature_header (itoa 1700000000) (toy_mac ''k'' (itoa 1700000000 @ ''.'' @ ''{}''))) ''k'' (300 * second_ns) (time_unix 1700000100)"
    by (subst verify_header) (simp_all add: toy_mac_def plain_itoa fresh_near time_unix_def second_ns_def is_i64_def min_i64_def max_i64_def)
  from webhook_signature_sound [OF this] show ?thesis by (auto simp: second_ns_def max_i64_def)
qed

text \<open>a header written by a sender holding \<open>key\<close> for \<open>sent\<close> at a time within the tolerance is
  accepted for the payload that arrives exactly when the two messages have the same HMAC under
  the two keys: the untouched payload is accepted, and one whose HMAC differs is refused.\<close>

theorem webhook_signature_roundtrip:
  assumes "secret \<noteq> []" and "is_i64 n" and "\<And>k m. plain (hmac_hex k m)"
    and "tol \<le> 0 \<or> \<bar>now - time_unix n\<bar> \<le> tol" and "tol \<le> max_i64"
  shows "verify_webhook_signature hmac_hex arrived
      (signature_header (itoa n) (hmac_hex key (itoa n @ ''.'' @ sent))) secret tol now
    \<longleftrightarrow> hmac_hex secret (itoa n @ ''.'' @ arrived) = hmac_hex key (itoa n @ ''.'' @ sent)"
  using fresh_near [OF assms(4,5)] by (simp add: verify_header assms(1,2,3))

lemma webhook_signature_roundtrip_witness:
  "verify_webhook_signature toy_mac ''{}'' (signature_header (itoa 7) (toy_mac ''k'' (itoa 7 @ ''.'' @ ''{}''))) ''k'' 0 0 \<and>
   \<not> verify_webhook_signature toy_mac ''{1}'' (signature_header (itoa 7) (toy_mac ''k'' (itoa 7 @ ''.'' @ ''{}''))) ''k'' 0 0"
proof -
  have p: "plain (toy_mac k m)" for k m by (simp add: toy_mac_def plain_itoa)
  show ?thesis
    using webhook_signature_roundtrip [of "''k''" 7 toy_mac 0 0 "''{}''" "''k''" "''{}''", OF _ _ p]
      webhook_signature_roundtrip [of "''k''" 7 toy_mac 0 0 "''{1}''" "''k''" "''{}''", OF _ _ p]
    by (simp add: is_i64_def min_i64_def max_i64_def toy_mac_def itoa_def)
qed

text \<open>over a network that may drop requests or lose answers, a usage report that returns
  success has been recorded at least once and at most three times by the provider, and one that
  returns an error may still have been recorded: the increment carries no idempotency key, so a
  retry after a lost answer bills the same quantity again.\<close>

theorem stripe_reports_at_least_once:
  assumes "stripe_report_usage (stripe_post rnd wait lossy_http) escape item quantity tm (ds, led) = (r, (es, led'))"
    and "item \<noteq> []" and "0 < quantity"
  shows "\<exists>j \<le> 3. (r = Inr () \<longrightarrow> 1 \<le> j) \<and>
    led' = led @ replicate j [(''quantity'', itoa quantity), (''timestamp'', itoa (tm div second_ns)), (''action'', ''increment'')]"
proof -
  let ?frm = "[(''quantity'', itoa quantity), (''timestamp'', itoa (tm div second_ns)), (''action'', ''increment'')]"
  obtain x es1 led1 b1 where l: "retry_do rnd wait default_policy
      (post_once lossy_http (''/subscription_items/'' @ escape item @ ''/usage_records'') ?frm (\<lambda>_. True))
      ((ds, led), []) = (x, ((es1, led1), b1))" by (metis surj_pair)
  have "led1 = led'" "r = Inr () \<longrightarrow> x = RetryOk"
    using assms l by (auto simp: stripe_report_usage_def stripe_post_def bindE_def okE_def split: retry_result.splits)
  then show ?thesis
    using retry_lossy [OF l [unfolded retry_do_def Let_def]] by (auto simp: default_policy_def)
qed

lemma stripe_reports_at_least_once_witness:
  "\<exists>j \<le> (3::nat). 1 \<le> j \<and> snd (snd (stripe_report_usage (stripe_post (\<lambda>_ _. 0) (\<lambda>_ _. None) lossy_http) (\<lambda>i. i)
      ''si_1'' 5 (time_unix 9) ([Unanswered, Answered], [])))
    = replicate j [(''quantity'', ''5''), (''timestamp'', ''9''), (''action'', ''increment'')] \<and> j = 2"
proof -
  have d: "itoa 5 = ''5''" "itoa 9 = ''9''" by code_simp+
  have run: "stripe_report_usage (stripe_post (\<lambda>_ _. 0) (\<lambda>_ _. None) lossy_http) (\<lambda>i. i) ''si_1'' 5 (time_unix 9)
      ([Unanswered, Answered], []) =
      (Inr (), ([], [[(''quantity'', ''5''), (''timestamp'', ''9''), (''action'', ''increment'')],
                     [(''quantity'', ''5''), (''timestamp'', ''9''), (''action'', ''increment'')]]))"
    by (simp add: stripe_report_usage_def stripe_post_def retry_do_def default_policy_def numeral_2_eq_2
        post_once_def bindE_def okE_def time_unix_def second_ns_def d)
  from stripe_reports_at_least_once [OF run] obtain j where "j \<le> 3" "1 \<le> j"
    "replicate 2 [(''quantity'', ''5''), (''timestamp'', ''9''), (''action'', ''increment'')]
       = replicate j [(''quantity'', ''5''), (''timestamp'', ''9''), (''action'', ''increment'')]"
    by (auto simp: d time_unix_def second_ns_def numeral_2_eq_2)
  moreover from this(3) have "j = 2" by (metis length_replicate)
  ultimately show ?thesis unfolding run by (auto simp: numeral_2_eq_2)
qed

end
