(* ===== verification/Billing_Service.thy ===== *)
theory Billing_Service
  imports Webhook Provider
begin

text \<open>
  The billing service's own operations (\<open>billing/service.go\<close>): subscribing through the payment
  provider, the billing summary, recording usage and setting a status. The clock's readings
  and the generated id are arguments.
\<close>

section \<open>The code\<close>

record summary =
  sm_subscription :: "subscription option"
  sm_plan :: "plan option"
  sm_usage :: "(string, int) gomap"
  sm_estimated_monthly_cents :: int
  sm_base_cents :: int
  sm_overage_cents :: int
  sm_usage_so_far_cents :: int
  sm_charge_cents :: int
  sm_period_start :: time
  sm_currency :: string
  sm_dunning :: dunning

definition get_billing :: "'s bstore \<Rightarrow> time \<Rightarrow> string \<Rightarrow> (berr, 's, summary) op" where
  "get_billing st now org_i =
     bindE (subscription_and_plan st org_i) (\<lambda>(sb, p).
     bindE (lift_store (bs_list_usage_by_org_since st org_i (period_start now sb) whole_page)) (\<lambda>rs.
     bindE (org_monthly_estimate_cents st org_i) (\<lambda>est.
     let inv = invoice_from_records p rs
     in bindE (pricing_currency st) (\<lambda>cur.
        bindE (dunning_status st org_i) (\<lambda>dun.
        okE \<lparr>sm_subscription = sb, sm_plan = p, sm_usage = fold add_metric rs [],
             sm_estimated_monthly_cents = est,
             sm_base_cents = iv_base_cents inv, sm_overage_cents = iv_overage_cents inv,
             sm_usage_so_far_cents = iv_usage_so_far_cents inv, sm_charge_cents = iv_charge_cents inv,
             sm_period_start = period_start now sb, sm_currency = cur, sm_dunning = dun\<rparr>)))))"

record subscribe_result =
  sr_subscription :: subscription
  sr_checkout_url :: string

definition lift_provider :: "(string, 's, 'a) op \<Rightarrow> (berr, 's, 'a) op" where
  "lift_provider m = tryE m (\<lambda>e. failE (BProvider e)) okE"

text \<open>\<open>now1\<close> and \<open>now2\<close> are the two readings of the clock.\<close>

definition subscribe ::
    "'s bstore \<Rightarrow> 's provider \<Rightarrow> time \<Rightarrow> time \<Rightarrow> string \<Rightarrow> string \<Rightarrow> string \<Rightarrow> (berr, 's, subscribe_result) op" where
  "subscribe st prov now1 now2 org_i plan_i email =
     bindE (plan_by_id st plan_i) (\<lambda>found.
     case found of
       None \<Rightarrow> failE BUnknownPlan
     | Some p \<Rightarrow>
         bindE (lift_provider (pp_ensure_customer prov org_i email)) (\<lambda>cus.
         bindE (lift_provider (pp_create_subscription prov org_i cus p)) (\<lambda>ps.
         let b = \<lparr>sub_org_id = org_i, sub_plan_id = plan_id p,
                  sub_status = subscription_status_of_string (ps_status ps),
                  sub_stripe_customer_id = cus, sub_stripe_subscription_id = ps_id ps,
                  sub_stripe_subscription_item_id = [], sub_created_at = now1,
                  sub_current_period_end = add_months now2 1\<rparr>
         in bindE (lift_store (bs_upsert_subscription st b)) (\<lambda>_.
            okE \<lparr>sr_subscription = b, sr_checkout_url = ps_checkout_url ps\<rparr>))))"

definition record_usage :: "'s bstore \<Rightarrow> string \<Rightarrow> time \<Rightarrow> string \<Rightarrow> string \<Rightarrow> int \<Rightarrow> (berr, 's, unit) op" where
  "record_usage st new_id now org_i metric q =
     lift_store (bs_add_usage st
       \<lparr>ur_id = new_id, ur_org_id = org_i, ur_metric = metric, ur_quantity = q, ur_at = now\<rparr>)"

definition set_subscription_status :: "'s bstore \<Rightarrow> string \<Rightarrow> subscription_status \<Rightarrow> (berr, 's, unit) op" where
  "set_subscription_status st org_i status =
     bindE (lift_store (bs_get_subscription st org_i)) (\<lambda>b.
       lift_store (bs_upsert_subscription st (b\<lparr>sub_status := status\<rparr>)))"

section \<open>Composed calls\<close>

lemma lift_provider_parts:
  "lift_provider m s = (r, t) \<Longrightarrow> snd (m s) = t \<and> (\<forall>x. r = Inr x \<longrightarrow> fst (m s) = Inr x)"
  by (cases "fst (m s)"; cases "m s") (auto simp: lift_provider_def tryE_def failE_def okE_def)

lemma lift_store_upsert: 
  "lift_store m s = (r, t) \<Longrightarrow> \<exists>q. m s = (q, t) \<and> (case q of Inl e \<Rightarrow> r = Inl (BStore e) | Inr x \<Rightarrow> r = Inr x)"
  by (cases "fst (m s)"; cases "m s") (auto simp: lift_store_def tryE_def failE_def okE_def)

lemma stored_upsert:
  "stored_subscription (snd (upsert_subscription b v)) i =
     (if i = sub_org_id b then Some b else stored_subscription v i)"
  by (simp add: stored_subscription_def upsert_subscription_def)

context faithful_store
begin

lemma upsert_view:
  assumes "lift_store (bs_upsert_subscription st b) s = (r, t)"
  shows "(r = Inr () \<and> view t = snd (upsert_subscription b (view s))) \<or>
    (\<exists>d. r = Inl (BStore d) \<and> driver_error d \<and> view t \<in> {view s, snd (upsert_subscription b (view s))})"
proof -
  obtain q where q: "bs_upsert_subscription st b s = (q, t)"
    and r: "case q of Inl e \<Rightarrow> r = Inl (BStore e) | Inr x \<Rightarrow> r = Inr x"
    using lift_store_upsert [OF assms] by blast
  show ?thesis
  proof (cases q)
    case (Inl e)
    then show ?thesis using follows_Inl [OF upsert, of b s e t] q r by (auto simp: upsert_subscription_def)
  next
    case (Inr x)
    then show ?thesis using follows_Inr [OF upsert, of b s x t] q r by (auto simp: upsert_subscription_def)
  qed
qed

text \<open>The provider's calls leave the store alone; they may change the rest of the state.\<close>

lemma subscribe_view:
  assumes "subscribe st prov now1 now2 i pid email s = (r, t)"
    and pc: "\<And>e u. view (snd (pp_ensure_customer prov i e u)) = view u"
    and ps: "\<And>c p u. view (snd (pp_create_subscription prov i c p u)) = view u"
  shows "case r of
      Inr x \<Rightarrow> (\<exists>p. gget (st_plans (view s)) pid = Some p \<and> sub_plan_id (sr_subscription x) = plan_id p) \<and>
          sub_org_id (sr_subscription x) = i \<and> sub_stripe_subscription_item_id (sr_subscription x) = [] \<and>
          view t = snd (upsert_subscription (sr_subscription x) (view s))
    | Inl e \<Rightarrow> view t = view s \<or>
          (\<exists>d b. e = BStore d \<and> driver_error d \<and> sub_org_id b = i \<and> view t = snd (upsert_subscription b (view s)))"
proof -
  obtain q u where q: "plan_by_id st pid s = (q, u)" by (metis surj_pair)
  note v = plan_by_id_view [OF q]
  show ?thesis
  proof (cases q)
    case (Inl e)
    then show ?thesis using v q assms(1) by (auto simp: subscribe_def bindE_def)
  next
    case f: (Inr f)
    show ?thesis
    proof (cases f)
      case None
      then show ?thesis using v q f assms(1) by (auto simp: subscribe_def bindE_def failE_def)
    next
      case (Some p)
      have pl: "gget (st_plans (view s)) pid = Some p" using v f Some by simp
      have q': "plan_by_id st pid s = (Inr (Some p), u)" using q f Some by simp
      obtain c u2 where c: "lift_provider (pp_ensure_customer prov i email) u = (c, u2)" by (metis surj_pair)
      have v2: "view u2 = view s" using lift_provider_parts [OF c] pc [of email u] v f by auto
      show ?thesis
      proof (cases c)
        case (Inl e)
        then show ?thesis using v2 q' c assms(1) by (auto simp: subscribe_def bindE_def)
      next
        case cu: (Inr cus)
        obtain w u3 where w: "lift_provider (pp_create_subscription prov i cus p) u2 = (w, u3)" by (metis surj_pair)
        have v3: "view u3 = view s" using lift_provider_parts [OF w] ps [of cus p u2] v2 by auto
        show ?thesis
        proof (cases w)
          case (Inl e)
          then show ?thesis using v3 q' c cu w assms(1) by (auto simp: subscribe_def bindE_def)
        next
          case (Inr x)
          let ?b = "\<lparr>sub_org_id = i, sub_plan_id = plan_id p,
                  sub_status = subscription_status_of_string (ps_status x),
                  sub_stripe_customer_id = cus, sub_stripe_subscription_id = ps_id x,
                  sub_stripe_subscription_item_id = [], sub_created_at = now1,
                  sub_current_period_end = add_months now2 1\<rparr>"
          obtain z u4 where z: "lift_store (bs_upsert_subscription st ?b) u3 = (z, u4)" by (metis surj_pair)
          show ?thesis using upsert_view [OF z] v3 pl q' c cu w Inr z assms(1)
            by (cases z) (auto simp: subscribe_def bindE_def okE_def Let_def intro!: exI [of _ ?b])
        qed
      qed
    qed
  qed
qed

lemma dunning_view:
  assumes "dunning_status st i s = (Inr d, t)"
  shows "view t = view s \<and> (standing_blocks (view s) i \<longrightarrow> dn_blocked d) \<and>
    (dn_blocked d \<longrightarrow> (\<exists>b. stored_subscription (view s) i = Some b \<and> sub_status b \<in> {SubCanceled, SubUnpaid, SubPastDue}))"
proof -
  obtain q w where q: "bs_get_subscription st i s = (q, w)" by (metis surj_pair)
  note v = subscription_cases [OF q]
  show ?thesis
  proof (cases q)
    case (Inl e)
    then show ?thesis using v assms q
      by (auto simp: dunning_status_def tryE_def failE_def okE_def standing_blocks_def split: if_splits)
  next
    case (Inr b)
    then have b: "stored_subscription (view s) i = Some b" "view w = view s" using v by simp_all
    show ?thesis
    proof (cases "sub_status b = SubPastDue")
      case True
      obtain g z where g: "grace_past_due st w = (g, z)" by (metis surj_pair)
      have "view z = view w"
      proof (cases "bs_get_settings st w")
        case (Pair y u)
        then show ?thesis using g follows_read_view [OF settings, of w]
          by (cases y) (auto simp: grace_past_due_def tryE_def okE_def)
      qed
      moreover have "g = Inr True \<longrightarrow> set_grace_past_due (st_settings (view w))"
        using grace_sound [of w z] g by blast
      ultimately show ?thesis using assms q Inr b True g
        by (cases g) (auto simp: dunning_status_def tryE_def bindE_def okE_def standing_blocks_def)
    next
      case False
      then show ?thesis using assms q Inr b
        by (cases "sub_status b") (auto simp: dunning_status_def tryE_def okE_def standing_blocks_def)
    qed
  qed
qed

lemma fold_metric_page:
  assumes "mset rs = mset us"
  shows "case_option 0 id (gget (fold add_metric rs []) m) = wrap64 (\<Sum>u\<leftarrow>filter (\<lambda>u. ur_metric u = m) us. ur_quantity u)"
proof -
  have "is_i64 0" by (simp add: is_i64_def min_i64_def max_i64_def)
  then show ?thesis using fold_add_metric [of "[]" m rs] quantity_sum_mset [OF assms] by simp
qed

lemma get_billing_view:
  assumes "get_billing st now i s = (Inr x, t)"
  shows "view t = view s \<and> sm_subscription x = stored_subscription (view s) i \<and> sm_plan x = stored_plan (view s) i"
    and "sm_charge_cents x = iv_charge_cents (stored_invoice (view s) now i)"
    and "sm_usage_so_far_cents x = iv_usage_so_far_cents (stored_invoice (view s) now i)"
    and "sm_charge_cents x = (if sm_plan x = None then 0 else wrap64 (sm_base_cents x + sm_overage_cents x))"
    and "case_option 0 id (gget (sm_usage x) m) =
      wrap64 (\<Sum>u\<leftarrow>filter (\<lambda>u. ur_metric u = m) (filter (\<lambda>r. sm_period_start x \<le> ur_at r) (usage_of i (view s))). ur_quantity u)"
    and "billing_wf (view s) \<longrightarrow> sm_estimated_monthly_cents x = to_month_cents (compute_cost (view s) i)"
    and "standing_blocks (view s) i \<longrightarrow> dn_blocked (sm_dunning x)"
proof -
  obtain sb p u1 rs u2 est u3 cur u4 dun where 1: "subscription_and_plan st i s = (Inr (sb, p), u1)"
    and 2: "lift_store (bs_list_usage_by_org_since st i (period_start now sb) whole_page) u1 = (Inr rs, u2)"
    and 3: "org_monthly_estimate_cents st i u2 = (Inr est, u3)"
    and 4: "pricing_currency st u3 = (Inr cur, u4)" and 5: "dunning_status st i u4 = (Inr dun, t)"
    and x: "x = \<lparr>sm_subscription = sb, sm_plan = p, sm_usage = fold add_metric rs [],
             sm_estimated_monthly_cents = est,
             sm_base_cents = iv_base_cents (invoice_from_records p rs),
             sm_overage_cents = iv_overage_cents (invoice_from_records p rs),
             sm_usage_so_far_cents = iv_usage_so_far_cents (invoice_from_records p rs),
             sm_charge_cents = iv_charge_cents (invoice_from_records p rs),
             sm_period_start = period_start now sb, sm_currency = cur, sm_dunning = dun\<rparr>"
    using assms unfolding get_billing_def Let_def
    apply (rule bindE_InrE)
    apply (simp only: split_paired_all prod.case)
    apply (elim bindE_InrE)
    apply (simp only: okE_def prod.inject sum.inject)
    done
  have v1: "view u1 = view s" "sb = stored_subscription (view s) i" "p = stored_plan (view s) i"
    using subscription_and_plan_view [OF 1] by auto
  note v2 = usage_page_view [OF 2]
  have "answers view billing_wf (org_monthly_estimate_cents st i) (\<lambda>v. to_month_cents (compute_cost v i))"
    unfolding org_monthly_estimate_cents_def
    by (rule answers_bind [OF org_hourly_cost_answers]) (auto intro: answers_ok)
  then have v3: "view u3 = view u2" "billing_wf (view u2) \<longrightarrow> est = to_month_cents (compute_cost (view u2) i)"
    using 3 unfolding answers_def by (auto dest!: spec [of _ u2])
  have "answers view (\<lambda>_. True) (pricing_currency st)
      (\<lambda>v. case find (\<lambda>c. pc_currency c \<noteq> []) (sort_by (\<lambda>a b. pc_sort_order a < pc_sort_order b)
             (filter pc_active (gvals (st_pricing v)))) of Some c \<Rightarrow> pc_currency c | None \<Rightarrow> ''usd'')"
    unfolding pricing_currency_def
    by (rule answers_bind [OF pricing_components_answers]) (auto intro: answers_ok split: option.splits)
  then have v4: "view u4 = view u3" using 4 unfolding answers_def by (auto dest!: spec [of _ u3])
  note v5 = dunning_view [OF 5]
  have inv: "invoice_from_records p rs = stored_invoice (view s) now i"
    using v1 v2 by (auto simp: stored_invoice_def intro: invoice_mset)
  show "view t = view s \<and> sm_subscription x = stored_subscription (view s) i \<and> sm_plan x = stored_plan (view s) i"
    "sm_charge_cents x = iv_charge_cents (stored_invoice (view s) now i)"
    "sm_usage_so_far_cents x = iv_usage_so_far_cents (stored_invoice (view s) now i)"
    using v1 v2 v3 v4 v5 inv by (simp_all add: x Let_def)
  show "sm_charge_cents x = (if sm_plan x = None then 0 else wrap64 (sm_base_cents x + sm_overage_cents x))"
    by (auto simp: x Let_def invoice_from_records_def)
  show "case_option 0 id (gget (sm_usage x) m) =
      wrap64 (\<Sum>u\<leftarrow>filter (\<lambda>u. ur_metric u = m) (filter (\<lambda>r. sm_period_start x \<le> ur_at r) (usage_of i (view s))). ur_quantity u)"
    using fold_metric_page [OF conjunct2 [OF v2], of m] v1 by (simp add: x Let_def)
  show "billing_wf (view s) \<longrightarrow> sm_estimated_monthly_cents x = to_month_cents (compute_cost (view s) i)"
    "standing_blocks (view s) i \<longrightarrow> dn_blocked (sm_dunning x)"
    using v1 v2 v3 v4 v5 by (simp_all add: x Let_def)
qed

end

lemma mock_leaves_state:
  "snd (pp_ensure_customer mock_provider i e u) = u"
  "snd (pp_create_subscription mock_provider i c p u) = u"
  by (simp_all add: mock_provider_def mock_ensure_customer_def mock_create_subscription_def okE_def)

text \<open>A concrete provider whose calls fail.\<close>

definition down_provider :: "'s provider" where
  "down_provider = \<lparr>pp_name = ''stripe'', pp_ensure_customer = (\<lambda>i e. failE ''stripe: status 503''),
     pp_create_subscription = (\<lambda>i c p. failE ''stripe: status 503''), pp_reporter = None\<rparr>"

text \<open>Without failures left the summary is always returned.\<close>

lemma healthy_get_billing: "succeeds (get_billing flaky_bstore now i)"
proof -
  have sp: "succeeds (subscription_and_plan flaky_bstore i)"
    unfolding succeeds_def
    by (auto simp: subscription_and_plan_def tryE_def bindE_def okE_def failE_def flaky_bstore_def readE_def
        faulty_healthy get_subscription_def plan_by_id_def get_plan_def tbl_get_def split: option.splits)
  have us: "succeeds (lift_store (bs_list_usage_by_org_since flaky_bstore i t whole_page))" for t
    by (simp add: flaky_bstore_def, rule succeeds_lift, simp add: readE_def list_usage_by_org_since_def)
  have est: "succeeds (org_monthly_estimate_cents flaky_bstore i)"
    unfolding org_monthly_estimate_cents_def org_hourly_cost_def Let_def
    by (intro succeeds_bind succeeds_price_map succeeds_reads succeeds_ok)
  have cur: "succeeds (pricing_currency flaky_bstore)"
    unfolding pricing_currency_def pricing_components_def
    by (intro succeeds_bind succeeds_reads succeeds_ok) (auto split: option.splits)
  have dun: "succeeds (dunning_status flaky_bstore i)"
    unfolding succeeds_def
    by (auto simp: dunning_status_def grace_past_due_def tryE_def bindE_def okE_def failE_def flaky_bstore_def
        readE_def faulty_healthy get_subscription_def get_settings_def tbl_get_def
        split: option.splits subscription_status.splits)
  show ?thesis
    unfolding get_billing_def Let_def
    by (rule succeeds_bind [OF sp]) (auto intro!: succeeds_bind [OF us] succeeds_bind [OF est] succeeds_bind [OF cur] succeeds_bind [OF dun])
qed

section \<open>Properties\<close>

text \<open>subscribing is all or nothing: over a store that may fail on any call, with a provider
  that leaves the store alone, a success has stored exactly the returned subscription (of this
  organization, on a plan of the catalog) and nothing else; a failure has stored nothing, unless
  the answer to the final write was lost, and then at most this organization's row.\<close>

theorem subscribe_all_or_nothing:
  assumes "subscribe flaky_bstore prov now1 now2 i pid email (v, fs) = (r, (w, gs))"
    and "\<And>e u. fst (snd (pp_ensure_customer prov i e u)) = fst u"
    and "\<And>c p u. fst (snd (pp_create_subscription prov i c p u)) = fst u"
  shows "case r of
      Inr x \<Rightarrow> (\<exists>p. gget (st_plans v) pid = Some p \<and> sub_plan_id (sr_subscription x) = plan_id p) \<and>
          sub_org_id (sr_subscription x) = i \<and>
          w = v\<lparr>st_subscriptions := gput i (sr_subscription x) (st_subscriptions v)\<rparr>
    | Inl e \<Rightarrow> w = v \<or> (\<exists>msg b. e = BStore (ErrStore msg) \<and>
          w = v\<lparr>st_subscriptions := gput i b (st_subscriptions v)\<rparr>)"
proof -
  have "\<exists>msg. d = ErrStore msg" if "driver_error d" for d
    using that by (cases d) (simp_all add: driver_error_def)
  then show ?thesis using flaky.subscribe_view [OF assms]
    by (cases r) (fastforce simp: upsert_subscription_def)+
qed

lemma subscribe_all_or_nothing_witness:
  "\<exists>w gs. subscribe flaky_bstore mock_provider 5 5 ''o1'' ''launch'' ''e'' (sample_store, [NoFault, FailAfter])
       = (Inl (BStore unavailable), (w, gs)) \<and>
     (w = sample_store \<or> (\<exists>b. w = sample_store\<lparr>st_subscriptions := gput ''o1'' b (st_subscriptions sample_store)\<rparr>))"
proof -
  obtain r w gs where x: "subscribe flaky_bstore mock_provider 5 5 ''o1'' ''launch'' ''e'' (sample_store, [NoFault, FailAfter]) = (r, (w, gs))"
    by (metis surj_pair)
  then have "r = Inl (BStore unavailable)"
    by (simp add: subscribe_def plan_by_id_def flaky_bstore_def faulty_next readE_def get_plan_def tbl_get_def
        tryE_def bindE_def okE_def failE_def lift_provider_def lift_store_def mock_provider_def
        mock_ensure_customer_def mock_create_subscription_def upsert_subscription_def Let_def sample_catalog
        new_catalog default_plans_def gget_def)
  with subscribe_all_or_nothing [OF x] x show ?thesis by (auto simp: mock_leaves_state)
qed

text \<open>with the mock provider a subscription to a plan of the catalog is active at once, runs for
  a calendar month from the second reading of the clock, and lifts whatever standing blocked the
  organization before; nothing else in the store changes.\<close>

theorem subscribe_mock_activates:
  assumes "gget (st_plans v) pid = Some p"
  shows "\<exists>b. subscribe memory_bstore mock_provider now1 now2 i pid email v =
      (Inr \<lparr>sr_subscription = b, sr_checkout_url = []\<rparr>, v\<lparr>st_subscriptions := gput i b (st_subscriptions v)\<rparr>) \<and>
    sub_status b = SubActive \<and> sub_current_period_end b = add_months now2 1 \<and>
    \<not> standing_blocks (v\<lparr>st_subscriptions := gput i b (st_subscriptions v)\<rparr>) i"
  using assms
  by (simp add: subscribe_def plan_by_id_def memory_bstore_def readE_def get_plan_def tbl_get_def tryE_def bindE_def
      okE_def lift_provider_def lift_store_def mock_provider_def mock_ensure_customer_def
      mock_create_subscription_def upsert_subscription_def Let_def subscription_status_of_string_def
      standing_blocks_def stored_subscription_def)

lemma subscribe_mock_activates_witness:
  "\<exists>b w. subscribe memory_bstore mock_provider 5 5 ''o2'' ''launch'' ''e'' sample_store =
      (Inr \<lparr>sr_subscription = b, sr_checkout_url = []\<rparr>, w) \<and> \<not> standing_blocks w ''o2''"
proof -
  have "\<exists>p. gget (st_plans sample_store) ''launch'' = Some p"
    by (simp add: sample_catalog new_catalog default_plans_def gget_def)
  then obtain p where "gget (st_plans sample_store) ''launch'' = Some p" by blast
  from subscribe_mock_activates [OF this] show ?thesis by blast
qed

text \<open>the billing summary a possibly failing store lets through is the stored one: the row and
  plan, the charge (base plus overage, nothing without a plan) and the usage of the stored
  invoice, per-metric totals of the period's records, the monthly estimate of the billable
  workloads at the live prices, and a standing that blocks provisioning is shown as blocked.\<close>

theorem billing_summary_agrees:
  assumes "get_billing flaky_bstore now i (v, fs) = (Inr x, (w, gs))" and "billing_wf v"
  shows "w = v \<and> sm_subscription x = stored_subscription v i \<and> sm_plan x = stored_plan v i \<and>
    sm_charge_cents x = iv_charge_cents (stored_invoice v now i) \<and>
    sm_charge_cents x = (if sm_plan x = None then 0 else wrap64 (sm_base_cents x + sm_overage_cents x)) \<and>
    sm_usage_so_far_cents x = iv_usage_so_far_cents (stored_invoice v now i) \<and>
    case_option 0 id (gget (sm_usage x) m) = wrap64 (\<Sum>u\<leftarrow>filter (\<lambda>u. ur_metric u = m)
        (filter (\<lambda>r. sm_period_start x \<le> ur_at r) (usage_of i v)). ur_quantity u) \<and>
    sm_estimated_monthly_cents x = to_month_cents (compute_cost v i) \<and>
    (standing_blocks v i \<longrightarrow> dn_blocked (sm_dunning x))"
  using flaky.get_billing_view [OF assms(1)] assms(2) by simp

lemma billing_summary_agrees_witness:
  "\<exists>x. fst (get_billing flaky_bstore 5 ''o1'' (sample_store, [])) = Inr x \<and>
     sm_charge_cents x = iv_charge_cents (stored_invoice sample_store 5 ''o1'')"
proof -
  obtain x w where x: "get_billing flaky_bstore 5 ''o1'' (sample_store, []) = (Inr x, (w, []))"
    using healthy_get_billing unfolding succeeds_def by blast
  show ?thesis using billing_summary_agrees [OF x sample_billing_wf] x by simp
qed

text \<open>subscribing again forgets the provider's metered item, so until a webhook stores one
  the organization's usage is not reported: a report call returns "nothing pushed" whatever has
  accrued, without calling the provider.\<close>

theorem resubscribe_stops_reporting:
  assumes "subscribe memory_bstore prov now1 now2 i pid email v = (Inr x, w)"
    and "\<And>e u. snd (pp_ensure_customer prov i e u) = u"
    and "\<And>c p u. snd (pp_create_subscription prov i c p u) = u"
  shows "report_usage memory_bstore rep now3 now4 i w = (Inr False, w)"
proof -
  have "sub_org_id (sr_subscription x) = i" "sub_stripe_subscription_item_id (sr_subscription x) = []"
    "w = snd (upsert_subscription (sr_subscription x) v)"
    using memory.subscribe_view [OF assms(1)] assms(2,3) by auto
  then show ?thesis
    by (simp add: report_usage_def tryE_def memory_bstore_def readE_def get_subscription_def tbl_get_def
        upsert_subscription_def okE_def split: option.splits)
qed

lemma resubscribe_stops_reporting_witness:
  "\<exists>x w. subscribe memory_bstore mock_provider 5 5 ''o1'' ''launch'' ''e'' sample_store = (Inr x, w) \<and>
     sub_stripe_subscription_item_id sample_subscription \<noteq> [] \<and>
     report_usage memory_bstore (Some (\<lambda>_ _ _. okE ())) 7 7 ''o1'' w = (Inr False, w)"
proof -
  obtain q w where q: "subscribe memory_bstore mock_provider 5 5 ''o1'' ''launch'' ''e'' sample_store = (q, w)"
    by (metis surj_pair)
  have "\<exists>x. q = Inr x"
    using q by (auto simp: subscribe_def plan_by_id_def memory_bstore_def readE_def get_plan_def tbl_get_def
        tryE_def bindE_def okE_def lift_provider_def lift_store_def mock_provider_def mock_ensure_customer_def
        mock_create_subscription_def upsert_subscription_def Let_def sample_catalog new_catalog default_plans_def gget_def)
  then obtain x where "q = Inr x" by blast
  then show ?thesis using resubscribe_stops_reporting [OF q [unfolded \<open>q = Inr x\<close>]] q
    by (auto simp: mock_leaves_state sample_subscription_def)
qed

end
