(* ===== verification/Rate_Limit.thy ===== *)
theory Rate_Limit
  imports Go_Map Go_Time
begin

text \<open>
  The fixed-window rate limiter of the HTTP layer (\<open>httpx/ratelimit.go\<close>). A one-client
  reference limiter specifies the decisions; the shared limiter with its pruning of other
  clients' buckets implements it, client by client.
\<close>

definition auth_rate_limit :: int where "auth_rate_limit = 10"
definition auth_rate_window :: duration where "auth_rate_window = 60 * second_ns"

record window_bucket =
  wb_count :: int
  wb_window_start :: time

record fixed_window_limiter =
  fw_limit :: int
  fw_window :: duration
  fw_buckets :: "(string, window_bucket) gomap"

definition new_fixed_window_limiter :: "int \<Rightarrow> duration \<Rightarrow> fixed_window_limiter" where
  "new_fixed_window_limiter limit window = \<lparr>fw_limit = limit, fw_window = window, fw_buckets = []\<rparr>"

definition prune_locked :: "time \<Rightarrow> fixed_window_limiter \<Rightarrow> fixed_window_limiter" where
  "prune_locked now l =
     l\<lparr>fw_buckets := gkeep (\<lambda>b. \<not> time_sub now (wb_window_start b) \<ge> fw_window l) (fw_buckets l)\<rparr>"

definition limiter_reset :: "string \<Rightarrow> time \<Rightarrow> fixed_window_limiter \<Rightarrow> bool \<times> fixed_window_limiter" where
  "limiter_reset key now l =
     (True, prune_locked now (l\<lparr>fw_buckets := gput key \<lparr>wb_count = 1, wb_window_start = now\<rparr> (fw_buckets l)\<rparr>))"

definition limiter_allow :: "string \<Rightarrow> time \<Rightarrow> fixed_window_limiter \<Rightarrow> bool \<times> fixed_window_limiter" where
  "limiter_allow key now l =
     (case gget (fw_buckets l) key of
        None \<Rightarrow> limiter_reset key now l
      | Some b \<Rightarrow>
          if time_sub now (wb_window_start b) \<ge> fw_window l then limiter_reset key now l
          else if wb_count b \<ge> fw_limit l then (False, l)
          else (True, l\<lparr>fw_buckets := gput key (b\<lparr>wb_count := wb_count b + 1\<rparr>) (fw_buckets l)\<rparr>))"

text \<open>The decisions on a sequence of requests.\<close>

fun run_limiter :: "(string \<times> time) list \<Rightarrow> fixed_window_limiter \<Rightarrow> (string \<times> time \<times> bool) list" where
  "run_limiter [] l = []"
| "run_limiter ((k, now) # rs) l =
     (let (ok, l') = limiter_allow k now l in (k, now, ok) # run_limiter rs l')"

section \<open>The reference: one client\<close>

definition one_client :: "int \<Rightarrow> duration \<Rightarrow> window_bucket option \<Rightarrow> time \<Rightarrow> bool \<times> window_bucket option" where
  "one_client limit window st now =
     (case st of
        None \<Rightarrow> (True, Some \<lparr>wb_count = 1, wb_window_start = now\<rparr>)
      | Some b \<Rightarrow>
          if now - wb_window_start b \<ge> window then (True, Some \<lparr>wb_count = 1, wb_window_start = now\<rparr>)
          else if wb_count b \<ge> limit then (False, st)
          else (True, Some (b\<lparr>wb_count := wb_count b + 1\<rparr>)))"

fun run_client :: "int \<Rightarrow> duration \<Rightarrow> window_bucket option \<Rightarrow> time list \<Rightarrow> bool list" where
  "run_client limit window st [] = []"
| "run_client limit window st (t # ts) =
     (let (ok, st') = one_client limit window st t in ok # run_client limit window st' ts)"

section \<open>Refinement\<close>

lemma time_sub_ge: "0 < w \<Longrightarrow> w \<le> max_i64 \<Longrightarrow> w \<le> time_sub t u \<longleftrightarrow> w \<le> t - u"
  by (auto simp: time_sub_def min_i64_def max_i64_def)

text \<open>A pruned bucket and an elapsed one decide alike from then on.\<close>

definition same_client :: "duration \<Rightarrow> time \<Rightarrow> window_bucket option \<Rightarrow> window_bucket option \<Rightarrow> bool" where
  "same_client window now st b \<longleftrightarrow>
     b = st \<or> (b = None \<and> (\<exists>c. st = Some c \<and> now - wb_window_start c \<ge> window))"

lemma same_client_later: "same_client w now st b \<Longrightarrow> now \<le> t \<Longrightarrow> same_client w t st b"
  by (auto simp: same_client_def)

lemma prune_get:
  "gwf (fw_buckets l) \<Longrightarrow> gget (fw_buckets (prune_locked now l)) k =
     (case gget (fw_buckets l) k of
        Some b \<Rightarrow> if time_sub now (wb_window_start b) \<ge> fw_window l then None else Some b
      | None \<Rightarrow> None)"
  by (auto simp: prune_locked_def gget_gkeep split: option.splits)

lemma prune_simps [simp]:
  "fw_limit (prune_locked now l) = fw_limit l" "fw_window (prune_locked now l) = fw_window l"
  by (simp_all add: prune_locked_def)

lemma allow_keeps:
  "fw_limit (snd (limiter_allow k t l)) = fw_limit l"
  "fw_window (snd (limiter_allow k t l)) = fw_window l"
  "gwf (fw_buckets l) \<Longrightarrow> gwf (fw_buckets (snd (limiter_allow k t l)))"
  by (auto simp: limiter_allow_def limiter_reset_def prune_locked_def gwf_gkeep split: option.splits)

lemma allow_own:
  assumes "0 < w" "w \<le> max_i64" "fw_window l = w" "gwf (fw_buckets l)"
    and "same_client w t st (gget (fw_buckets l) k)"
  shows "fst (limiter_allow k t l) = fst (one_client (fw_limit l) w st t) \<and>
    gget (fw_buckets (snd (limiter_allow k t l))) k = snd (one_client (fw_limit l) w st t)"
proof -
  note ge = time_sub_ge [OF assms(1,2)]
  have reset: "gget (fw_buckets (snd (limiter_reset k t l))) k = Some \<lparr>wb_count = 1, wb_window_start = t\<rparr>"
    using assms(1,3,4) by (simp add: limiter_reset_def prune_get ge)
  have r1: "fst (limiter_reset k t l)" by (simp add: limiter_reset_def)
  show ?thesis
  proof (cases "gget (fw_buckets l) k")
    case None
    then show ?thesis using assms(5) reset r1
      by (auto simp: limiter_allow_def one_client_def same_client_def)
  next
    case (Some b)
    then have "st = Some b" using assms(5) by (simp add: same_client_def)
    then show ?thesis using Some reset r1 assms(3) ge
      by (auto simp: limiter_allow_def one_client_def)
  qed
qed

lemma allow_other:
  assumes "0 < w" "w \<le> max_i64" "fw_window l = w" "gwf (fw_buckets l)" "j \<noteq> k"
    and "same_client w t st (gget (fw_buckets l) j)"
  shows "same_client w t st (gget (fw_buckets (snd (limiter_allow k t l))) j)"
proof -
  note ge = time_sub_ge [OF assms(1,2)]
  have "same_client w t st (gget (fw_buckets (snd (limiter_reset k t l))) j)"
    using assms(3-6) by (auto simp: limiter_reset_def prune_get ge same_client_def split: option.splits)
  then show ?thesis using assms(5,6) by (auto simp: limiter_allow_def split: option.splits)
qed

definition client_times :: "string \<Rightarrow> (string \<times> time) list \<Rightarrow> time list" where
  "client_times k rs = map snd (filter (\<lambda>(j, t). j = k) rs)"

definition client_decisions :: "string \<Rightarrow> (string \<times> time \<times> bool) list \<Rightarrow> bool list" where
  "client_decisions k ds = map (\<lambda>(j, t, ok). ok) (filter (\<lambda>(j, t, ok). j = k) ds)"

lemma limiter_refines:
  assumes "0 < w" "w \<le> max_i64" "fw_window l = w" "gwf (fw_buckets l)"
    and "sorted (map snd rs)" "\<forall>t \<in> set (map snd rs). now \<le> t"
    and "same_client w now st (gget (fw_buckets l) k)"
  shows "client_decisions k (run_limiter rs l) = run_client (fw_limit l) w st (client_times k rs)"
  using assms(3-)
proof (induction rs arbitrary: l now st)
  case Nil
  then show ?case by (simp add: client_decisions_def client_times_def)
next
  case (Cons r rs)
  obtain j t where r: "r = (j, t)" by fastforce
  obtain ok l' where a: "limiter_allow j t l = (ok, l')" by fastforce
  have l': "fw_limit l' = fw_limit l" "fw_window l' = w" "gwf (fw_buckets l')"
    using allow_keeps [where k = j and t = t and l = l] a Cons.prems by auto
  have sorted: "sorted (map snd rs)" "\<forall>u \<in> set (map snd rs). t \<le> u" using Cons.prems(3) r by auto
  have st: "same_client w t st (gget (fw_buckets l) k)"
    using same_client_later [OF Cons.prems(5)] Cons.prems(4) r by simp
  show ?case
  proof (cases "j = k")
    case True
    note own = allow_own [OF assms(1,2) Cons.prems(1,2) st]
    have "same_client w t (snd (one_client (fw_limit l) w st t)) (gget (fw_buckets l') k)"
      using own a True by (simp add: same_client_def)
    from Cons.IH [OF l'(2,3) sorted this] show ?thesis
      using r a True own l'(1) by (auto simp: client_decisions_def client_times_def Let_def split: prod.splits)
  next
    case False
    have "same_client w t st (gget (fw_buckets l') k)"
      using allow_other [OF assms(1,2) Cons.prems(1,2), where j = k and k = j and t = t and st = st] st a False by auto
    from Cons.IH [OF l'(2,3) sorted this] show ?thesis
      using r a False l'(1) by (auto simp: client_decisions_def client_times_def)
  qed
qed

lemma isolated_run:
  assumes "0 < w" "w \<le> max_i64" "sorted (map snd rs)"
  shows "client_decisions k (run_limiter rs (new_fixed_window_limiter limit w))
    = run_client limit w None (client_times k rs)"
proof -
  obtain now where "\<forall>t \<in> set (map snd rs). now \<le> t"
    using assms(3) by (cases rs) auto
  then show ?thesis
    using limiter_refines [OF assms(1,2), of "new_fixed_window_limiter limit w" rs now None k] assms(3)
    by (simp add: new_fixed_window_limiter_def same_client_def gwf_def)
qed

section \<open>The bound\<close>

definition allowed :: "bool list \<Rightarrow> int" where
  "allowed ds = int (length (filter id ds))"

lemma allowed_simps [simp]: "allowed [] = 0" "allowed (d # ds) = (if d then 1 else 0) + allowed ds"
  by (simp_all add: allowed_def)

text \<open>Requests inside the current window: at most what is left of it.\<close>

lemma within_window:
  assumes "\<forall>t \<in> set ts. t < wb_window_start b + w" "wb_count b \<le> limit"
  shows "allowed (run_client limit w (Some b) ts) \<le> limit - wb_count b"
  using assms
proof (induction ts arbitrary: b)
  case (Cons t ts)
  show ?case
  proof (cases "wb_count b \<ge> limit")
    case True
    then show ?thesis using Cons.IH [of b] Cons.prems by (auto simp: one_client_def)
  next
    case False
    then show ?thesis using Cons.IH [of "b\<lparr>wb_count := wb_count b + 1\<rparr>"] Cons.prems
      by (auto simp: one_client_def)
  qed
qed simp

lemma any_interval:
  assumes "\<forall>t \<in> set ts. a \<le> t \<and> t < a + w" "1 \<le> limit"
    and "\<And>b. st = Some b \<Longrightarrow> 0 \<le> wb_count b \<and> wb_count b \<le> limit"
  shows "allowed (run_client limit w st ts) \<le> (case st of None \<Rightarrow> limit | Some b \<Rightarrow> (limit - wb_count b) + limit)"
  using assms(1,3)
proof (induction ts arbitrary: st)
  case Nil
  then show ?case using assms(2) by (auto split: option.splits)
next
  case (Cons t ts)
  have fresh: "allowed (run_client limit w (Some \<lparr>wb_count = 1, wb_window_start = t\<rparr>) ts) \<le> limit - 1"
    using within_window [of ts "\<lparr>wb_count = 1, wb_window_start = t\<rparr>" w limit] Cons.prems(1) assms(2)
    by fastforce
  show ?case
  proof (cases st)
    case None
    then show ?thesis using fresh by (simp add: one_client_def)
  next
    case (Some b)
    then have b: "0 \<le> wb_count b" "wb_count b \<le> limit" using Cons.prems(2) by auto
    consider "t - wb_window_start b \<ge> w" | "t - wb_window_start b < w" "wb_count b \<ge> limit"
      | "t - wb_window_start b < w" "wb_count b < limit" by linarith
    then show ?thesis
    proof cases
      case 1
      then show ?thesis using Some fresh b by (simp add: one_client_def)
    next
      case 2
      then show ?thesis using Cons.IH [of "Some b"] Cons.prems Some b by (auto simp: one_client_def)
    next
      case 3
      then show ?thesis using Cons.IH [of "Some (b\<lparr>wb_count := wb_count b + 1\<rparr>)"] Cons.prems Some b
        by (auto simp: one_client_def)
    qed
  qed
qed

lemma one_client_count:
  assumes "\<And>b. st = Some b \<Longrightarrow> 0 \<le> wb_count b \<and> wb_count b \<le> limit" "1 \<le> limit"
    and "snd (one_client limit w st t) = Some b"
  shows "0 \<le> wb_count b \<and> wb_count b \<le> limit"
  using assms by (auto simp: one_client_def split: option.splits if_splits)

text \<open>The state a client is in after a sequence of requests.\<close>

fun client_state :: "int \<Rightarrow> duration \<Rightarrow> window_bucket option \<Rightarrow> time list \<Rightarrow> window_bucket option" where
  "client_state limit w st [] = st"
| "client_state limit w st (t # ts) = client_state limit w (snd (one_client limit w st t)) ts"

lemma run_client_append:
  "run_client limit w st (ts @ us) = run_client limit w st ts @ run_client limit w (client_state limit w st ts) us"
  by (induction ts arbitrary: st) (auto simp: Let_def split: prod.splits)

lemma client_state_count:
  assumes "\<And>b. st = Some b \<Longrightarrow> 0 \<le> wb_count b \<and> wb_count b \<le> limit" "1 \<le> limit"
    and "client_state limit w st ts = Some b"
  shows "0 \<le> wb_count b \<and> wb_count b \<le> limit"
  using assms
proof (induction ts arbitrary: st)
  case (Cons t ts)
  show ?case
    by (rule Cons.IH [of "snd (one_client limit w st t)"])
      (use Cons.prems one_client_count [OF Cons.prems(1,2)] in auto)
qed simp

section \<open>Properties\<close>

text \<open>C26: however the requests of many clients interleave, a client is answered exactly as if it
  were alone: pruning and the other clients' buckets never change a decision.\<close>

theorem limiter_isolates_clients:
  assumes "0 < w" "w \<le> max_i64" "sorted (map snd rs)"
  shows "client_decisions k (run_limiter rs (new_fixed_window_limiter limit w))
    = run_client limit w None (client_times k rs)"
  using assms by (rule isolated_run)

lemma limiter_isolates_clients_witness:
  "client_decisions ''a'' (run_limiter [(''a'', 0), (''b'', 5), (''a'', 7), (''b'', 12)] (new_fixed_window_limiter 1 10))
     = [True, False]"
  using limiter_isolates_clients [of 10 "[(''a'', 0), (''b'', 5), (''a'', 7), (''b'', 12)]" "''a''" 1]
  by (simp add: max_i64_def client_times_def one_client_def)

text \<open>in any interval as long as the window, wherever it starts, a client gets at most twice the
  limit through; whatever it sent before.\<close>

theorem limiter_interval_bound:
  assumes "0 < w" "w \<le> max_i64" "1 \<le> limit" "sorted (map snd rs)"
    and "client_times k rs = before @ inside @ after" "\<forall>t \<in> set inside. a \<le> t \<and> t < a + w"
  shows "allowed (take (length inside) (drop (length before)
      (client_decisions k (run_limiter rs (new_fixed_window_limiter limit w))))) \<le> 2 * limit"
proof -
  let ?st = "client_state limit w None before"
  have len: "length (run_client limit w st ts) = length ts" for st ts
    by (induction ts arbitrary: st) (auto simp: Let_def split: prod.splits)
  have cnt: "0 \<le> wb_count b \<and> wb_count b \<le> limit" if "?st = Some b" for b
    by (rule client_state_count [OF _ assms(3) that]) simp
  have "take (length inside) (drop (length before)
      (client_decisions k (run_limiter rs (new_fixed_window_limiter limit w)))) = run_client limit w ?st inside"
    unfolding isolated_run [OF assms(1,2,4)] assms(5) run_client_append by (simp add: len)
  moreover have "allowed (run_client limit w ?st inside) \<le> (case ?st of None \<Rightarrow> limit | Some b \<Rightarrow> (limit - wb_count b) + limit)"
    using any_interval [OF assms(6,3)] cnt by blast
  moreover have "\<dots> \<le> 2 * limit" using cnt assms(3) by (auto split: option.splits)
  ultimately show ?thesis by simp
qed

lemma limiter_interval_bound_witness:
  "allowed (client_decisions ''a'' (run_limiter [(''a'', 0), (''a'', 8), (''a'', 11), (''a'', 12)] (new_fixed_window_limiter 2 10))) \<le> 4"
  using limiter_interval_bound [of 10 2 "[(''a'', 0), (''a'', 8), (''a'', 11), (''a'', 12)]" "''a''" "[0]" "[8, 11, 12]" "[]" 8]
  by (simp add: max_i64_def client_times_def client_decisions_def limiter_allow_def limiter_reset_def
      new_fixed_window_limiter_def prune_locked_def gkeep_def gget_def gput_def time_sub_def min_i64_def)

end
