(* ===== verification/Tx_Mutex.thy ===== *)
theory Tx_Mutex
  imports Main
begin

text \<open>
  The lock of the memory store (\<open>txMutex\<close> and \<open>WithTx\<close> in \<open>store/memory.go\<close>) under several
  goroutines. Each step is one action of one goroutine: entering or leaving a store method, and
  the four actions of \<open>WithTx\<close>. Reads and writes of \<open>held\<close> are taken as atomic (the code reads
  it without synchronization). A goroutine that would block simply has no step.
\<close>

section \<open>The lock\<close>

record lock =
  lk_readers :: nat
  lk_writer :: bool
  lk_held :: bool

datatype lock_result = Taken lock | Blocks | Fatal

text \<open>\<open>sync.RWMutex\<close>: unlocking what is not locked is a fatal error of the runtime.\<close>

definition rw_lock :: "lock \<Rightarrow> lock_result" where
  "rw_lock l = (if lk_writer l \<or> lk_readers l > 0 then Blocks else Taken (l\<lparr>lk_writer := True\<rparr>))"

definition rw_unlock :: "lock \<Rightarrow> lock_result" where
  "rw_unlock l = (if lk_writer l then Taken (l\<lparr>lk_writer := False\<rparr>) else Fatal)"

definition rw_rlock :: "lock \<Rightarrow> lock_result" where
  "rw_rlock l = (if lk_writer l then Blocks else Taken (l\<lparr>lk_readers := Suc (lk_readers l)\<rparr>))"

definition rw_runlock :: "lock \<Rightarrow> lock_result" where
  "rw_runlock l = (case lk_readers l of 0 \<Rightarrow> Fatal | Suc n \<Rightarrow> Taken (l\<lparr>lk_readers := n\<rparr>))"

definition mu_lock :: "lock \<Rightarrow> lock_result" where
  "mu_lock l = (if lk_held l then Taken l else rw_lock l)"

definition mu_unlock :: "lock \<Rightarrow> lock_result" where
  "mu_unlock l = (if lk_held l then Taken l else rw_unlock l)"

definition mu_rlock :: "lock \<Rightarrow> lock_result" where
  "mu_rlock l = (if lk_held l then Taken l else rw_rlock l)"

definition mu_runlock :: "lock \<Rightarrow> lock_result" where
  "mu_runlock l = (if lk_held l then Taken l else rw_runlock l)"

text \<open>A method starts with \<open>Lock\<close> or \<open>RLock\<close> and defers the matching release.\<close>

definition mu_enter :: "bool \<Rightarrow> lock \<Rightarrow> lock_result" where
  "mu_enter wr l = (if wr then mu_lock l else mu_rlock l)"

definition mu_leave :: "bool \<Rightarrow> lock \<Rightarrow> lock_result" where
  "mu_leave wr l = (if wr then mu_unlock l else mu_runlock l)"

section \<open>Goroutines\<close>

text \<open>\<open>InMethod\<close> holds whether the method writes; the last four are inside \<open>WithTx\<close>.\<close>

datatype phase = Outside | InMethod bool | TxLocked | TxBody | TxMethod bool | TxEnding

record sys =
  sy_lock :: lock
  sy_phase :: "nat \<Rightarrow> phase"
  sy_crashed :: bool

definition sys_init :: sys where
  "sys_init = \<lparr>sy_lock = \<lparr>lk_readers = 0, lk_writer = False, lk_held = False\<rparr>,
               sy_phase = (\<lambda>_. Outside), sy_crashed = False\<rparr>"

definition go :: "nat \<Rightarrow> phase \<Rightarrow> lock \<Rightarrow> sys \<Rightarrow> sys" where
  "go t p l y = y\<lparr>sy_lock := l, sy_phase := (sy_phase y)(t := p)\<rparr>"

text \<open>The flag says whether a plain method call may start while a transaction is marked held.\<close>

inductive mx_step :: "bool \<Rightarrow> sys \<Rightarrow> sys \<Rightarrow> bool" for overlap where
  enter: "\<not> sy_crashed y \<Longrightarrow> sy_phase y t = Outside \<Longrightarrow> overlap \<or> \<not> lk_held (sy_lock y) \<Longrightarrow>
     mu_enter wr (sy_lock y) = Taken l \<Longrightarrow> mx_step overlap y (go t (InMethod wr) l y)"
| leave: "\<not> sy_crashed y \<Longrightarrow> sy_phase y t = InMethod wr \<Longrightarrow>
     mu_leave wr (sy_lock y) = Taken l \<Longrightarrow> mx_step overlap y (go t Outside l y)"
| leave_fatal: "\<not> sy_crashed y \<Longrightarrow> sy_phase y t = InMethod wr \<Longrightarrow>
     mu_leave wr (sy_lock y) = Fatal \<Longrightarrow> mx_step overlap y (y\<lparr>sy_crashed := True\<rparr>)"
| tx_lock: "\<not> sy_crashed y \<Longrightarrow> sy_phase y t = Outside \<Longrightarrow>
     rw_lock (sy_lock y) = Taken l \<Longrightarrow> mx_step overlap y (go t TxLocked l y)"
| tx_mark: "\<not> sy_crashed y \<Longrightarrow> sy_phase y t = TxLocked \<Longrightarrow>
     mx_step overlap y (go t TxBody ((sy_lock y)\<lparr>lk_held := True\<rparr>) y)"
| tx_enter: "\<not> sy_crashed y \<Longrightarrow> sy_phase y t = TxBody \<Longrightarrow>
     mu_enter wr (sy_lock y) = Taken l \<Longrightarrow> mx_step overlap y (go t (TxMethod wr) l y)"
| tx_leave: "\<not> sy_crashed y \<Longrightarrow> sy_phase y t = TxMethod wr \<Longrightarrow>
     mu_leave wr (sy_lock y) = Taken l \<Longrightarrow> mx_step overlap y (go t TxBody l y)"
| tx_unmark: "\<not> sy_crashed y \<Longrightarrow> sy_phase y t = TxBody \<Longrightarrow>
     mx_step overlap y (go t TxEnding ((sy_lock y)\<lparr>lk_held := False\<rparr>) y)"
| tx_unlock: "\<not> sy_crashed y \<Longrightarrow> sy_phase y t = TxEnding \<Longrightarrow>
     rw_unlock (sy_lock y) = Taken l \<Longrightarrow> mx_step overlap y (go t Outside l y)"
| tx_fatal: "\<not> sy_crashed y \<Longrightarrow> sy_phase y t = TxEnding \<Longrightarrow>
     rw_unlock (sy_lock y) = Fatal \<Longrightarrow> mx_step overlap y (y\<lparr>sy_crashed := True\<rparr>)"

inductive mx_reach :: "bool \<Rightarrow> sys \<Rightarrow> bool" for overlap where
  reach_init: "mx_reach overlap sys_init"
| reach_step: "mx_reach overlap y \<Longrightarrow> mx_step overlap y z \<Longrightarrow> mx_reach overlap z"

inductive_cases mx_stepE: "mx_step overlap y z"

section \<open>The invariant without overlap\<close>

definition writing :: "phase \<Rightarrow> bool" where
  "writing p \<longleftrightarrow> p \<noteq> Outside \<and> p \<noteq> InMethod False"

definition marked_held :: "phase \<Rightarrow> bool" where
  "marked_held p \<longleftrightarrow> p = TxBody \<or> p = TxMethod True \<or> p = TxMethod False"

definition writers :: "sys \<Rightarrow> nat set" where
  "writers y = {t. writing (sy_phase y t)}"

definition readers :: "sys \<Rightarrow> nat set" where
  "readers y = {t. sy_phase y t = InMethod False}"

definition mx_inv :: "sys \<Rightarrow> bool" where
  "mx_inv y \<longleftrightarrow> \<not> sy_crashed y \<and> finite (readers y) \<and> lk_readers (sy_lock y) = card (readers y) \<and>
     (lk_writer (sy_lock y) \<longleftrightarrow> writers y \<noteq> {}) \<and>
     (\<forall>t u. t \<in> writers y \<longrightarrow> u \<in> writers y \<longrightarrow> t = u) \<and>
     (writers y \<noteq> {} \<longrightarrow> readers y = {}) \<and>
     (lk_held (sy_lock y) \<longleftrightarrow> (\<exists>t. marked_held (sy_phase y t)))"

lemma marked_writes: "marked_held p \<Longrightarrow> writing p"
  by (auto simp: marked_held_def writing_def)

lemma go_parts [simp]:
  "sy_lock (go t p l y) = l" "sy_crashed (go t p l y) = sy_crashed y"
  "sy_phase (go t p l y) = (sy_phase y)(t := p)"
  by (simp_all add: go_def)

lemma go_readers: "readers (go t p l y) = (if p = InMethod False then insert t (readers y) else readers y - {t})"
  by (auto simp: readers_def)

lemma go_writers: "writers (go t p l y) = (if writing p then insert t (writers y) else writers y - {t})"
  by (auto simp: writers_def)

lemma go_marked:
  "(\<exists>u. marked_held (sy_phase (go t p l y) u)) \<longleftrightarrow> marked_held p \<or> (\<exists>u. u \<noteq> t \<and> marked_held (sy_phase y u))"
  by auto

lemmas mu_defs = mu_enter_def mu_leave_def mu_lock_def mu_unlock_def mu_rlock_def mu_runlock_def
  rw_lock_def rw_unlock_def rw_rlock_def rw_runlock_def

lemma mx_invD:
  assumes "mx_inv y"
  shows "\<not> sy_crashed y" "finite (readers y)" "lk_readers (sy_lock y) = card (readers y)"
    "lk_writer (sy_lock y) \<longleftrightarrow> writers y \<noteq> {}"
    "t \<in> writers y \<Longrightarrow> u \<in> writers y \<Longrightarrow> t = u" "writers y \<noteq> {} \<Longrightarrow> readers y = {}"
    "lk_held (sy_lock y) \<longleftrightarrow> (\<exists>t. marked_held (sy_phase y t))"
  using assms unfolding mx_inv_def by blast+

lemma alone:
  assumes "mx_inv y" "writing (sy_phase y t)"
  shows "writers y = {t}" "readers y = {}" "lk_writer (sy_lock y)" "lk_readers (sy_lock y) = 0"
    "lk_held (sy_lock y) \<longleftrightarrow> marked_held (sy_phase y t)"
proof -
  have t: "t \<in> writers y" using assms(2) by (simp add: writers_def)
  show w: "writers y = {t}" using t mx_invD(5) [OF assms(1)] by blast
  show "readers y = {}" "lk_writer (sy_lock y)" "lk_readers (sy_lock y) = 0"
    using w mx_invD(3,4,6) [OF assms(1)] by auto
  have "marked_held (sy_phase y u) \<Longrightarrow> u = t" for u
    using w marked_writes by (auto simp: writers_def)
  then show "lk_held (sy_lock y) \<longleftrightarrow> marked_held (sy_phase y t)"
    unfolding mx_invD(7) [OF assms(1)] by metis
qed

lemma no_writer_no_mark: "mx_inv y \<Longrightarrow> writers y = {} \<Longrightarrow> \<not> marked_held (sy_phase y u)"
  using marked_writes by (auto simp: writers_def)

text \<open>A goroutine takes or gives back the write lock, or moves on while holding it.\<close>

lemma inv_become_writer:
  assumes "mx_inv y" "rw_lock (sy_lock y) = Taken l" "writing p" "\<not> marked_held p"
  shows "mx_inv (go t p l y)"
proof -
  have "\<not> lk_writer (sy_lock y)" "lk_readers (sy_lock y) = 0" and l: "l = (sy_lock y)\<lparr>lk_writer := True\<rparr>"
    using assms(2) by (auto simp: rw_lock_def split: if_splits)
  then have e: "writers y = {}" "readers y = {}"
    using mx_invD(2-4) [OF assms(1)] by auto
  have p: "p \<noteq> InMethod False" using assms(3) by (auto simp: writing_def)
  show ?thesis
    unfolding mx_inv_def go_readers go_writers go_marked
    using mx_invD [OF assms(1)] no_writer_no_mark [OF assms(1) e(1)] e p assms(3,4) l by auto
qed

lemma inv_move_writer:
  assumes "mx_inv y" "writing (sy_phase y t)" "writing p" "lk_readers l = 0" "lk_writer l" "lk_held l \<longleftrightarrow> marked_held p"
  shows "mx_inv (go t p l y)"
proof -
  note a = alone [OF assms(1,2)]
  have p: "p \<noteq> InMethod False" using assms(3) by (auto simp: writing_def)
  have "u \<noteq> t \<Longrightarrow> \<not> marked_held (sy_phase y u)" for u
    using a(1) marked_writes by (auto simp: writers_def)
  then show ?thesis
    unfolding mx_inv_def go_readers go_writers go_marked
    using mx_invD(1,2) [OF assms(1)] a p assms(3-6) by auto
qed

lemma inv_end_writer:
  assumes "mx_inv y" "writing (sy_phase y t)" "\<not> marked_held (sy_phase y t)" "rw_unlock (sy_lock y) = Taken l"
  shows "mx_inv (go t Outside l y)"
proof -
  note a = alone [OF assms(1,2)]
  have "u \<noteq> t \<Longrightarrow> \<not> marked_held (sy_phase y u)" for u
    using a(1) marked_writes by (auto simp: writers_def)
  moreover have "l = (sy_lock y)\<lparr>lk_writer := False\<rparr>" using assms(4) by (auto simp: rw_unlock_def split: if_splits)
  ultimately show ?thesis
    unfolding mx_inv_def go_readers go_writers go_marked
    using mx_invD(1,2) [OF assms(1)] a assms(3) by (auto simp: writing_def marked_held_def)
qed

lemma inv_reader_in:
  assumes "mx_inv y" "sy_phase y t = Outside" "rw_rlock (sy_lock y) = Taken l"
  shows "mx_inv (go t (InMethod False) l y)"
proof -
  have "\<not> lk_writer (sy_lock y)" and l: "l = (sy_lock y)\<lparr>lk_readers := Suc (lk_readers (sy_lock y))\<rparr>"
    using assms(3) by (auto simp: rw_rlock_def split: if_splits)
  then have e: "writers y = {}" using mx_invD(4) [OF assms(1)] by simp
  have "t \<notin> readers y" using assms(2) by (simp add: readers_def)
  then show ?thesis
    unfolding mx_inv_def go_readers go_writers go_marked
    using mx_invD [OF assms(1)] no_writer_no_mark [OF assms(1) e] e l by (auto simp: writing_def marked_held_def)
qed

lemma inv_reader_out:
  assumes "mx_inv y" "sy_phase y t = InMethod False" "rw_runlock (sy_lock y) = Taken l"
  shows "mx_inv (go t Outside l y)"
proof -
  have t: "t \<in> readers y" using assms(2) by (simp add: readers_def)
  then have e: "writers y = {}" using mx_invD(6) [OF assms(1)] by blast
  have "l = (sy_lock y)\<lparr>lk_readers := lk_readers (sy_lock y) - 1\<rparr>"
    using assms(3) by (auto simp: rw_runlock_def split: nat.splits)
  then show ?thesis
    unfolding mx_inv_def go_readers go_writers go_marked
    using mx_invD [OF assms(1)] no_writer_no_mark [OF assms(1) e] e t
    by (auto simp: writing_def marked_held_def)
qed

lemma reader_unlocks:
  assumes "mx_inv y" "sy_phase y t = InMethod False"
  shows "\<not> lk_held (sy_lock y)" "lk_readers (sy_lock y) \<noteq> 0"
proof -
  have t: "t \<in> readers y" using assms(2) by (simp add: readers_def)
  then have e: "writers y = {}" using mx_invD(6) [OF assms(1)] by blast
  show "\<not> lk_held (sy_lock y)" using mx_invD(7) [OF assms(1)] no_writer_no_mark [OF assms(1) e] by simp
  show "lk_readers (sy_lock y) \<noteq> 0" using t mx_invD(2,3) [OF assms(1)] by auto
qed

lemma mx_inv_step: "mx_step False y z \<Longrightarrow> mx_inv y \<Longrightarrow> mx_inv z"
proof (induction rule: mx_step.induct)
  case (enter y t wr l)
  then show ?case
    by (cases wr) (auto simp: mu_enter_def mu_lock_def mu_rlock_def intro: inv_become_writer inv_reader_in
        simp: writing_def marked_held_def)
next
  case (leave y t wr l)
  show ?case
  proof (cases wr)
    case True
    with leave have "writing (sy_phase y t)" "\<not> marked_held (sy_phase y t)" by (auto simp: writing_def marked_held_def)
    with leave True alone [of y t] show ?thesis
      by (intro inv_end_writer) (auto simp: mu_leave_def mu_unlock_def)
  next
    case False
    with leave reader_unlocks [of y t] show ?thesis
      by (intro inv_reader_out) (auto simp: mu_leave_def mu_runlock_def)
  qed
next
  case (leave_fatal y t wr)
  show ?case
  proof (cases wr)
    case True
    with leave_fatal have "writing (sy_phase y t)" by (auto simp: writing_def)
    with leave_fatal True alone [of y t] show ?thesis
      by (auto simp: mu_leave_def mu_unlock_def rw_unlock_def split: if_splits)
  next
    case False
    with leave_fatal reader_unlocks [of y t] show ?thesis
      by (auto simp: mu_leave_def mu_runlock_def rw_runlock_def split: if_splits nat.splits)
  qed
next
  case (tx_lock y t l)
  then show ?case by (auto intro: inv_become_writer simp: writing_def marked_held_def)
next
  case (tx_mark y t)
  then show ?case using alone [of y t]
    by (intro inv_move_writer) (auto simp: writing_def marked_held_def)
next
  case (tx_enter y t wr l)
  then show ?case using alone [of y t]
    by (intro inv_move_writer) (auto simp: writing_def marked_held_def mu_enter_def mu_lock_def mu_rlock_def split: if_splits)
next
  case (tx_leave y t wr l)
  then show ?case using alone [of y t]
    by (intro inv_move_writer; cases wr) (auto simp: writing_def marked_held_def mu_leave_def mu_unlock_def mu_runlock_def split: if_splits)
next
  case (tx_unmark y t)
  then show ?case using alone [of y t]
    by (intro inv_move_writer) (auto simp: writing_def marked_held_def)
next
  case (tx_unlock y t l)
  then show ?case by (intro inv_end_writer) (auto simp: writing_def marked_held_def)
next
  case (tx_fatal y t)
  then show ?case using alone [of y t] by (auto simp: writing_def rw_unlock_def split: if_splits)
qed

lemma mx_inv_reach: "mx_reach False y \<Longrightarrow> mx_inv y"
proof (induction rule: mx_reach.induct)
  case reach_init
  then show ?case by (simp add: mx_inv_def sys_init_def readers_def writers_def writing_def marked_held_def)
qed (rule mx_inv_step)

section \<open>Properties\<close>

text \<open>C25: as long as no plain store call starts while a transaction is marked held, a store method
  that writes, and a transaction from its lock to its unlock, run alone: no other goroutine is
  in a method or a transaction, and the runtime never sees a bad unlock.\<close>

theorem lock_excludes:
  assumes "mx_reach False y" and "writing (sy_phase y t)"
  shows "\<not> sy_crashed y \<and> (\<forall>u. u \<noteq> t \<longrightarrow> sy_phase y u = Outside)"
proof -
  note i = mx_inv_reach [OF assms(1)]
  have "sy_phase y u = Outside" if "u \<noteq> t" for u
    using alone(1,2) [OF i assms(2)] that by (auto simp: writers_def readers_def writing_def)
  then show ?thesis using mx_invD(1) [OF i] by blast
qed

text \<open>One goroutine alone in a transaction.\<close>

definition one_tx :: sys where
  "one_tx = go 0 TxBody \<lparr>lk_readers = 0, lk_writer = True, lk_held = True\<rparr>
     (go 0 TxLocked \<lparr>lk_readers = 0, lk_writer = True, lk_held = False\<rparr> sys_init)"

lemma one_tx_reach: "mx_reach b one_tx"
proof -
  have "mx_step b sys_init (go 0 TxLocked \<lparr>lk_readers = 0, lk_writer = True, lk_held = False\<rparr> sys_init)"
    by (rule mx_step.tx_lock) (simp_all add: sys_init_def rw_lock_def)
  moreover have "mx_step b (go 0 TxLocked \<lparr>lk_readers = 0, lk_writer = True, lk_held = False\<rparr> sys_init) one_tx"
    unfolding one_tx_def
    using mx_step.tx_mark [of "go 0 TxLocked \<lparr>lk_readers = 0, lk_writer = True, lk_held = False\<rparr> sys_init" 0 b]
    by (simp add: sys_init_def)
  ultimately show ?thesis by (meson mx_reach.intros)
qed

lemma lock_excludes_witness: "\<not> sy_crashed one_tx \<and> sy_phase one_tx 1 = Outside"
  using lock_excludes [OF one_tx_reach, of 0] by (simp add: one_tx_def writing_def)

text \<open>a store call made by another goroutine during a transaction is not excluded: it sees the
  lock marked held and skips locking, so two writers run at once, and when the transaction ends
  before the call does, the call's deferred \<open>Unlock\<close> unlocks a lock nobody holds, which is
  fatal.\<close>

theorem transaction_breaks_exclusion:
  "\<exists>y z. mx_reach True y \<and> sy_phase y 0 = TxMethod True \<and> sy_phase y 1 = InMethod True \<and>
     mx_reach True z \<and> sy_crashed z"
proof -
  let ?h = "\<lparr>lk_readers = 0, lk_writer = True, lk_held = True\<rparr>"
  let ?w = "\<lparr>lk_readers = 0, lk_writer = True, lk_held = False\<rparr>"
  let ?n = "\<lparr>lk_readers = 0, lk_writer = False, lk_held = False\<rparr>"
  define a where "a = go 1 (InMethod True) ?h one_tx"
  have a: "mx_reach True a"
    unfolding a_def
    by (rule reach_step [OF one_tx_reach], rule enter) (simp_all add: one_tx_def sys_init_def mu_defs)
  have y: "mx_reach True (go 0 (TxMethod True) ?h a)"
    by (rule reach_step [OF a], rule tx_enter) (simp_all add: a_def one_tx_def sys_init_def mu_defs)
  have b: "mx_reach True (go 0 TxEnding ?w a)"
    using reach_step [OF a tx_unmark [of a 0 True]] by (simp add: a_def one_tx_def sys_init_def)
  have c: "mx_reach True (go 0 Outside ?n (go 0 TxEnding ?w a))"
    by (rule reach_step [OF b], rule tx_unlock) (simp_all add: a_def one_tx_def sys_init_def mu_defs)
  have "mx_reach True (go 0 Outside ?n (go 0 TxEnding ?w a)\<lparr>sy_crashed := True\<rparr>)"
    by (rule reach_step [OF c], rule leave_fatal [where t = 1 and wr = True])
      (simp_all add: a_def one_tx_def sys_init_def mu_defs)
  with y show ?thesis by (intro exI conjI) (assumption | simp add: a_def)+
qed

end
