(* ===== verification/Store_Properties.thy ===== *)
theory Store_Properties
  imports Samples
begin

text \<open>
  What the memory store promises its callers, over every state its calls can reach and over
  every interleaving of calls: accounts by email, one-time tokens, release numbering, listings
  and pages, the audit log, usage totals, verified hosts.
\<close>

section \<open>One-time reset tokens\<close>

definition reset_used :: "string \<Rightarrow> mem \<Rightarrow> bool" where
  "reset_used i s \<longleftrightarrow> (\<exists>t. gget (st_reset_tokens s) i = Some t \<and> \<not> is_zero (prt_used_at t))"

lemma reset_used_run_call:
  assumes "reset_used i s"
  shows "reset_used i (run_call c s)"
proof (cases c)
  case (TokenCall d)
  then show ?thesis using assms
    by (cases d) (auto simp: reset_used_def token_defs on_tbl_def Let_def split: option.splits sum.splits if_splits)
qed (use assms in \<open>auto simp: reset_used_def frame_simps\<close>)

lemma reset_used_run_calls: "reset_used i s \<Longrightarrow> reset_used i (run_calls cs s)"
  by (induction cs arbitrary: s) (auto intro: reset_used_run_call)

lemma consume_uses:
  "fst (consume_password_reset_token i used s) = Inr b \<Longrightarrow> \<not> is_zero used \<Longrightarrow>
     reset_used i (snd (consume_password_reset_token i used s))"
  by (auto simp: reset_used_def consume_password_reset_token_def split: option.splits if_splits)

lemma used_not_consumed: "reset_used i s \<Longrightarrow> fst (consume_password_reset_token i used s) = Inr False"
  by (auto simp: reset_used_def consume_password_reset_token_def)

section \<open>Sign-out everywhere\<close>

lemma revoke_all_spends:
  assumes "gget (st_refresh_tokens s) i = Some r" "rt_user_id r = u"
  shows "token_spent i (snd (revoke_all_user_refresh_tokens u s))"
  using assms by (auto simp: token_spent_def revoke_all_user_refresh_tokens_def)

lemma mem_wf_revoke_all: "mem_wf s \<Longrightarrow> mem_wf (snd (revoke_all_user_refresh_tokens u s))"
  using mem_wf_run_call [of s "TokenCall (RevokeAllUserRefreshTokens u)"] by simp

lemma mem_wf_rotate: "mem_wf s \<Longrightarrow> mem_wf (snd (revoke_refresh_token_if_active i s))"
  using mem_wf_run_call [of s "TokenCall (RevokeRefreshTokenIfActive i)"] by simp

section \<open>Release numbering\<close>

lemma sorted_desc_strict:
  "sorted_wrt (\<lambda>a b. (f a :: int) \<ge> f b) xs \<Longrightarrow> distinct (map f xs) \<Longrightarrow> sorted_wrt (\<lambda>a b. f a > f b) xs"
  by (induction xs) (auto simp: order_less_le dest: image_eqI)

lemma revisions_distinct:
  assumes "workloads_wf s" "revisions_unique s"
  shows "distinct (map rel_revision (filter (\<lambda>r. rel_app_id r = i) (gvals (st_releases s))))"
proof -
  have k: "keyed rel_id (st_releases s)" using assms(1) by (simp add: workloads_wf_def)
  have "distinct (gvals (st_releases s))" using keyed_vals_distinct [OF k] by (simp add: distinct_map)
  moreover have "inj_on rel_revision (set (filter (\<lambda>r. rel_app_id r = i) (gvals (st_releases s))))"
    using assms(2) unfolding inj_on_def revisions_unique_def
    by (auto simp: keyed_vals [OF k]) (metis option.inject)
  ultimately show ?thesis by (simp add: distinct_map)
qed

lemma releases_strictly_descend:
  assumes "workloads_wf s" "revisions_unique s" "list_releases_by_app i whole_page s = Inr rs"
  shows "sorted_wrt (\<lambda>a b. rel_revision a > rel_revision b) rs"
proof -
  note l = list_releases_whole [OF assms(3)]
  have "mset (map rel_revision rs) = mset (map rel_revision (filter (\<lambda>r. rel_app_id r = i) (gvals (st_releases s))))"
    using l(2) by (simp add: whole_page_def)
  then have "distinct (map rel_revision rs)"
    using revisions_distinct [OF assms(1,2)] by (metis mset_eq_imp_distinct_iff)
  then show ?thesis using l(1) sorted_desc_strict [of rel_revision rs] by (simp add: whole_page_def)
qed

lemma create_release_keeps_wf: "workloads_wf s \<Longrightarrow> workloads_wf (snd (create_release r s))"
  using workloads_keeps_release(1) by (rule keepsD)

section \<open>Sample rows\<close>

lemma gget_Cons: "gget ((k, v) # m) x = (if k = x then Some v else gget m x)"
  by (simp add: gget_def)

definition sample_refresh :: refresh_token where
  "sample_refresh = \<lparr>rt_id = ''r1'', rt_user_id = ''u1'', rt_revoked = False, rt_created_at = 0, rt_expires_at = 0\<rparr>"

definition sample_reset :: password_reset_token where
  "sample_reset = \<lparr>prt_id = ''p1'', prt_user_id = ''u1'', prt_token_hash = ''h1'', prt_expires_at = 5,
     prt_used_at = zero_time, prt_created_at = 0\<rparr>"

definition token_calls :: "store_call list" where
  "token_calls = [TokenCall (CreateRefreshToken sample_refresh), TokenCall (CreatePasswordResetToken sample_reset)]"

definition token_store :: mem where
  "token_store = run_calls token_calls sample_store"

definition pending_domain :: domain where
  "pending_domain = \<lparr>dom_id = ''d1'', dom_org_id = ''o1'', dom_app_id = ''a1'', dom_domain = ''shop.example.com'',
     dom_verified = False, dom_status = DomainPending, dom_verification_token = ''t'',
     dom_verified_at = zero_time, dom_created_at = 0\<rparr>"

lemma token_store_reachable: "store_reachable token_store"
  unfolding token_store_def by (intro reachable_run_calls sample_reachable)

lemma token_store_refresh: "gget (st_refresh_tokens token_store) ''r1'' = Some sample_refresh"
  by (simp add: token_store_def token_calls_def token_defs on_tbl_def tbl_create_def sample_tables
      sample_refresh_def gget_Cons split: option.splits)

section \<open>Properties\<close>

text \<open>in every reachable store an email, in any letter case, names at most one account, and
  looking it up finds exactly the account whose stored email differs from it only in case.\<close>

theorem one_account_per_email:
  assumes "store_reachable s"
  shows "(get_user_by_email e s = Inr u \<longleftrightarrow>
      (\<exists>i. gget (st_users s) i = Some u \<and> to_lower (user_email u) = to_lower e)) \<and>
    (\<forall>i j v w. gget (st_users s) i = Some v \<longrightarrow> gget (st_users s) j = Some w \<longrightarrow>
      to_lower (user_email v) = to_lower (user_email w) \<longrightarrow> i = j)"
proof -
  have t: "tenancy_wf s" using mem_wf_reachable [OF assms] by (simp add: mem_wf_def)
  then show ?thesis
    using email_lookup [of s e u] one_user_per_email [OF t] unfolding tenancy_wf_def by blast
qed

lemma one_account_per_email_witness: "get_user_by_email ''ADA@EXAMPLE.COM'' sample_store = Inr sample_user"
proof -
  have "gget (st_users sample_store) ''u1'' = Some sample_user"
    by (simp add: sample_store_def sample_calls_def new_store_defs create_user_def Let_def frame_simps
        sample_user_def create_organization_def add_membership_def create_app_def upsert_subscription_def set_meter_state_def gget_Cons)
  moreover have "to_lower (user_email sample_user) = to_lower ''ADA@EXAMPLE.COM''" by code_simp
  ultimately show ?thesis using one_account_per_email [OF sample_reachable, of "''ADA@EXAMPLE.COM''" sample_user] by blast
qed

text \<open>a refresh token rotates at most once: after a rotation attempt on it, whatever calls other
  requests make in between (short of creating a token with the same id), another attempt never
  wins.\<close>

theorem refresh_rotates_once:
  assumes "store_reachable s" and "list_all (\<lambda>c. \<not> recreates i c) cs"
  shows "fst (revoke_refresh_token_if_active i (run_calls cs (snd (revoke_refresh_token_if_active i s)))) \<noteq> Inr True"
  by (rule spent_never_rotates, rule token_spent_run_calls)
    (use assms mem_wf_reachable mem_wf_rotate rotation_spends in auto)

lemma refresh_rotates_once_witness:
  "fst (revoke_refresh_token_if_active ''r1'' token_store) = Inr True \<and>
   fst (revoke_refresh_token_if_active ''r1'' (run_calls [TokenCall (DeleteExpiredRefreshTokens 9)]
     (snd (revoke_refresh_token_if_active ''r1'' token_store)))) \<noteq> Inr True"
  by (intro conjI refresh_rotates_once)
    (simp_all add: token_store_reachable recreates_def revoke_if_active_wins token_store_refresh sample_refresh_def)

text \<open>signing a user out everywhere ends all of the user's sessions: no refresh token the user had
  then ever rotates again, whatever calls follow.\<close>

theorem revoke_all_ends_sessions:
  assumes "store_reachable s" and "gget (st_refresh_tokens s) i = Some r" and "rt_user_id r = u"
    and "list_all (\<lambda>c. \<not> recreates i c) cs"
  shows "fst (revoke_refresh_token_if_active i (run_calls cs (snd (revoke_all_user_refresh_tokens u s)))) \<noteq> Inr True"
  by (rule spent_never_rotates, rule token_spent_run_calls)
    (use assms mem_wf_reachable mem_wf_revoke_all revoke_all_spends in auto)

lemma revoke_all_ends_sessions_witness:
  "fst (revoke_refresh_token_if_active ''r1'' (run_calls []
     (snd (revoke_all_user_refresh_tokens ''u1'' token_store)))) \<noteq> Inr True"
  by (rule revoke_all_ends_sessions [OF token_store_reachable token_store_refresh])
    (simp_all add: sample_refresh_def)

text \<open>a password reset token is consumed at most once: after a call that found it, at a real
  time, every later attempt is refused, whatever calls come in between.\<close>

theorem reset_token_single_use:
  assumes "fst (consume_password_reset_token i used s) = Inr b" and "\<not> is_zero used"
  shows "fst (consume_password_reset_token i used' (run_calls cs (snd (consume_password_reset_token i used s)))) = Inr False"
  by (intro used_not_consumed reset_used_run_calls consume_uses [OF assms])

lemma reset_token_single_use_witness:
  "fst (consume_password_reset_token ''p1'' 3 token_store) = Inr True \<and>
   fst (consume_password_reset_token ''p1'' 4 (run_calls [TokenCall (CreatePasswordResetToken sample_reset)]
     (snd (consume_password_reset_token ''p1'' 3 token_store)))) = Inr False"
proof -
  have "st_reset_tokens sample_store = []"
    by (simp add: sample_store_def sample_calls_def new_memory_store_def frame_simps
        upsert_subscription_def set_meter_state_def del: run_tenancy.simps run_workload.simps)
  then have "fst (consume_password_reset_token ''p1'' 3 token_store) = Inr True"
    by (simp add: token_store_def token_calls_def token_defs on_tbl_def tbl_create_def sample_tables
        sample_reset_def sample_refresh_def consume_password_reset_token_def is_zero_def Let_def
        sample_catalog frame_simps gget_Cons split: option.splits)
  moreover have "\<not> is_zero 3" by (simp add: is_zero_def zero_time_def)
  ultimately show ?thesis using reset_token_single_use [of "''p1''" 3 token_store True] by blast
qed

text \<open>creating releases keeps an app's history strictly ordered: with revisions unique before,
  the listing after the call is strictly descending by revision, and a successful call adds
  exactly the new row.\<close>

theorem release_history_strict:
  assumes "store_reachable s" and "revisions_unique s"
    and "list_releases_by_app i whole_page (snd (create_release r s)) = Inr rs"
  shows "sorted_wrt (\<lambda>a b. rel_revision a > rel_revision b) rs \<and>
    (fst (create_release r s) = Inr () \<longrightarrow>
       set rs = set (filter (\<lambda>q. rel_app_id q = i) (gvals (st_releases s))) \<union> (if rel_app_id r = i then {r} else {}))"
proof -
  have w: "workloads_wf s" using mem_wf_reachable [OF assms(1)] by (simp add: mem_wf_def)
  have "set rs = set (filter (\<lambda>q. rel_app_id q = i) (gvals (st_releases (snd (create_release r s)))))"
    using list_releases_whole(2) [OF assms(3)] by (metis mset_eq_setD whole_page_def order_refl page.select_convs(1))
  then show ?thesis
    using releases_strictly_descend [OF create_release_keeps_wf [OF w] create_release_revisions [OF w assms(2)] assms(3)]
    by (auto simp: create_release_def gvals_gput_new split: if_splits)
qed

definition sample_release :: release where
  "sample_release = \<lparr>rel_id = ''v1'', rel_app_id = ''a1'', rel_org_id = ''o1'', rel_revision = 1, rel_image = ''nginx'',
     rel_git_ref = [], rel_config_hash = [], rel_cpu = 1, rel_memory_mb = 1024,
     rel_status = ReleaseActive, rel_note = [], rel_created_at = 0\<rparr>"

lemma release_history_strict_witness: "\<exists>rs. list_releases_by_app ''a1'' whole_page (snd (create_release sample_release sample_store)) = Inr rs \<and> set rs = {sample_release}"
proof -
  obtain rs where r: "list_releases_by_app ''a1'' whole_page (snd (create_release sample_release sample_store)) = Inr rs"
    by (simp add: list_releases_by_app_def Let_def)
  have "revisions_unique sample_store" "fst (create_release sample_release sample_store) = Inr ()"
    by (simp_all add: revisions_unique_def sample_tables create_release_def)
  then show ?thesis using release_history_strict [OF sample_reachable _ r] r
    by (simp add: sample_tables sample_release_def)
qed

text \<open>a client that follows \<open>nextOffset\<close> from the first page reads every element exactly once and
  in order, with any positive limit, and stops.\<close>

theorem page_walk_complete:
  assumes "0 < limit"
  shows "walk_pages (Suc (length xs)) limit xs 0 = Some xs"
  using walk_pages_rest [OF assms, of 0 xs "Suc (length xs)"] by simp

lemma page_walk_complete_witness: "walk_pages (Suc (length ''abcdefg'')) 3 ''abcdefg'' 0 = Some ''abcdefg''"
  by (rule page_walk_complete) simp

text \<open>whatever the query string says, the page a handler uses has a limit between 1 and 200 and
  an offset of at least 0, and the slice it returns has at most that many elements, all from the
  list.\<close>

theorem query_page_bounded:
  "0 < page_limit (parse_page l f) \<and> page_limit (parse_page l f) \<le> 200 \<and> 0 \<le> page_offset (parse_page l f) \<and>
   int (length (apply_page xs (parse_page l f))) \<le> page_limit (parse_page l f) \<and>
   set (apply_page xs (parse_page l f)) \<subseteq> set xs"
proof -
  have "0 < page_limit (parse_page l f)" "page_limit (parse_page l f) \<le> max_page_limit" "0 \<le> page_offset (parse_page l f)"
    unfolding parse_page_def Let_def by (rule page_normalize_bounds)+
  then show ?thesis
    using set_apply_page [of xs "parse_page l f"] by (auto simp: apply_page_window max_page_limit_def)
qed

text \<open>the audit log is append-only per organization and listed newest first: recording an event
  puts it in front of its organization's log and leaves the others, a listing is the normalized
  page of that log, and the count is its length.\<close>

theorem audit_log_append_only:
  "org_audit_log i (snd (create_audit_event e s)) = (if ae_org_id e = i then [e] else []) @ org_audit_log i s \<and>
   list_audit_events f s = Inr (apply_page (org_audit_log (af_org_id f) s)
     (page_normalize \<lparr>page_limit = af_limit f, page_offset = af_offset f\<rparr>)) \<and>
   count_audit_events f s = Inr (int (length (org_audit_log (af_org_id f) s)))"
  by (simp only: audit_append list_audit_events_page count_audit_events_log simp_thms)

text \<open>the platform-wide totals per metric are the (64-bit) sums of all usage records of that
  metric, whatever the order of the maps.\<close>

theorem usage_totals_are_sums:
  assumes "sum_usage_by_metric s = Inr out" and "list_all_usage s = Inr us"
  shows "case_option 0 id (gget out m) = wrap64 (\<Sum>u\<leftarrow>filter (\<lambda>u. ur_metric u = m) us. ur_quantity u)"
  by (rule sum_usage_by_metric_total [OF assms])

lemma usage_totals_are_sums_witness:
  "\<exists>out. sum_usage_by_metric (snd (add_usage (sample_usage ''a'' ''m'' 3 0) (snd (add_usage (sample_usage ''b'' ''m'' 4 0) sample_store)))) = Inr out \<and>
     case_option 0 id (gget out ''m'') = 7"
proof -
  let ?s = "snd (add_usage (sample_usage ''a'' ''m'' 3 0) (snd (add_usage (sample_usage ''b'' ''m'' 4 0) sample_store)))"
  obtain out us where o: "sum_usage_by_metric ?s = Inr out" "list_all_usage ?s = Inr us"
    by (simp add: sum_usage_by_metric_def list_all_usage_def)
  from o(2) have "us = [sample_usage ''b'' ''m'' 4 0, sample_usage ''a'' ''m'' 3 0]"
    by (simp add: list_all_usage_def add_usage_def sample_tables usage_of_def sample_usage_def gvals_def gput_def gget_Cons)
  with usage_totals_are_sums [OF o, of "''m''"] o show ?thesis
    by (auto simp: sample_usage_def wrap64_def)
qed

text \<open>a custom domain routes only when verified: looking a host up returns a stored, verified
  domain equal to it up to case and surrounding blanks, and fails only when there is none.\<close>

theorem only_verified_hosts_resolve:
  "(\<forall>d. get_verified_domain_by_host h s = Inr d \<longrightarrow>
      d \<in> set (gvals (st_domains s)) \<and> domain_is_verified d \<and> equal_fold (dom_domain d) (to_lower (trim_space h))) \<and>
   (\<forall>e. get_verified_domain_by_host h s = Inl e \<longrightarrow> (\<forall>d \<in> set (gvals (st_domains s)).
      domain_is_verified d \<longrightarrow> \<not> equal_fold (dom_domain d) (to_lower (trim_space h))))"
  using verified_host_sound verified_host_complete by blast

lemma only_verified_hosts_resolve_witness:
  "get_verified_domain_by_host ''Shop.Example.com'' (sample_store\<lparr>st_domains := [(''d1'', pending_domain)]\<rparr>) = Inl ErrNotFound"
proof (cases "get_verified_domain_by_host ''Shop.Example.com'' (sample_store\<lparr>st_domains := [(''d1'', pending_domain)]\<rparr>)")
  case (Inl e)
  then show ?thesis by (simp add: get_verified_domain_by_host_def Let_def gvals_def domain_is_verified_def pending_domain_def)
next
  case (Inr d)
  with only_verified_hosts_resolve [of "''Shop.Example.com''" "sample_store\<lparr>st_domains := [(''d1'', pending_domain)]\<rparr>"]
  have "d = pending_domain" "domain_is_verified d" by (auto simp: gvals_def)
  then show ?thesis by (simp add: domain_is_verified_def pending_domain_def)
qed

end
