(* ===== verification/Auth_Tokens.thy ===== *)
theory Auth_Tokens
  imports Go_Time
begin

text \<open>
  The signed tokens of \<open>auth/jwt.go\<close>. Signing and parsing (signature, encoding and the expiry
  check) are the JWT library's and come as arguments: \<open>sign\<close> gives the text of a claim set
  under the manager's secret, \<open>parse\<close> the claim set of a text it accepts now.
\<close>

datatype token_type = AccessToken | RefreshToken | OtherToken string

record claims =
  cl_type :: token_type
  cl_id :: string
  cl_subject :: string
  cl_issued_at :: time
  cl_expires_at :: time

record token_manager =
  tm_access_ttl :: duration
  tm_refresh_ttl :: duration

definition token_ttl :: "token_manager \<Rightarrow> token_type \<Rightarrow> duration" where
  "token_ttl m t = (if t = RefreshToken then tm_refresh_ttl m else tm_access_ttl m)"

text \<open>\<open>jwt.NewNumericDate\<close> truncates to whole seconds.\<close>

definition numeric_date :: "time \<Rightarrow> time" where
  "numeric_date t = t - (t - zero_time) mod second_ns"

definition token_claims :: "token_manager \<Rightarrow> time \<Rightarrow> string \<Rightarrow> string \<Rightarrow> token_type \<Rightarrow> claims" where
  "token_claims m now jti user_i t =
     \<lparr>cl_type = t, cl_id = jti, cl_subject = user_i, cl_issued_at = numeric_date now,
      cl_expires_at = numeric_date (now + token_ttl m t)\<rparr>"

definition issue_with_id ::
    "(claims \<Rightarrow> string option) \<Rightarrow> token_manager \<Rightarrow> time \<Rightarrow> string \<Rightarrow> string \<Rightarrow> token_type \<Rightarrow> (string \<times> string) option" where
  "issue_with_id sign m now jti user_i t =
     map_option (\<lambda>tok. (tok, jti)) (sign (token_claims m now jti user_i t))"

definition issue_token ::
    "(claims \<Rightarrow> string option) \<Rightarrow> token_manager \<Rightarrow> time \<Rightarrow> string \<Rightarrow> string \<Rightarrow> token_type \<Rightarrow> string option" where
  "issue_token sign m now jti user_i t = map_option fst (issue_with_id sign m now jti user_i t)"

definition verify_token :: "(string \<Rightarrow> claims option) \<Rightarrow> string \<Rightarrow> token_type \<Rightarrow> claims option" where
  "verify_token parse tok expected =
     (case parse tok of
        None \<Rightarrow> None
      | Some c \<Rightarrow> if cl_type c \<noteq> expected \<or> cl_subject c = [] then None else Some c)"

lemma verify_tokenD: "verify_token parse tok t = Some c \<Longrightarrow> parse tok = Some c \<and> cl_type c = t \<and> cl_subject c \<noteq> []"
  by (auto simp: verify_token_def split: option.splits if_splits)

text \<open>A token verifies as the type it was issued for, and as no other.\<close>

lemma issued_verifies:
  assumes "issue_with_id sign m now jti u t = Some (tok, j)"
    and "\<And>c x. sign c = Some x \<Longrightarrow> parse x = Some c" and "u \<noteq> []"
  shows "j = jti" and "verify_token parse tok expected =
    (if expected = t then Some (token_claims m now jti u t) else None)"
  using assms by (auto simp: issue_with_id_def verify_token_def token_claims_def)

end
