(* ===== verification/Identity_Text.thy ===== *)
theory Identity_Text
  imports Go_Std
begin

text \<open>
  The string helpers of \<open>identity/service.go\<close>: email normalization and syntax, slugs, short
  ids, names. The regular expressions are written as the scans they denote, and the email scan
  is shown to accept exactly the strings of the expression.
\<close>

definition normalize_email :: "string \<Rightarrow> string" where
  "normalize_email e = to_lower (trim_space e)"

text \<open>\<open>\s\<close> of the expression: tab, line feed, form feed, carriage return, blank.\<close>

definition re_space :: "char \<Rightarrow> bool" where
  "re_space c \<longleftrightarrow> (of_char c :: nat) \<in> {9, 10, 12, 13, 32}"

definition email_char :: "char \<Rightarrow> bool" where
  "email_char c \<longleftrightarrow> c \<noteq> CHR ''@'' \<and> \<not> re_space c"

text \<open>One at sign, a non-empty part on each side, and a dot inside the second part.\<close>

definition email_ok :: "string \<Rightarrow> bool" where
  "email_ok e =
     (let local = takeWhile email_char e; rest = dropWhile email_char e
      in local \<noteq> [] \<and> rest \<noteq> [] \<and> hd rest = CHR ''@'' \<and> list_all email_char (tl rest) \<and>
         CHR ''.'' \<in> set (butlast (tl (tl rest))))"

definition slug_char :: "char \<Rightarrow> bool" where
  "slug_char c \<longleftrightarrow> (let n = (of_char c :: nat) in (97 \<le> n \<and> n \<le> 122) \<or> (48 \<le> n \<and> n \<le> 57))"

text \<open>\<open>nonSlug.ReplaceAllString(s, "-")\<close>: every maximal run of other characters.\<close>

fun dash_runs :: "bool \<Rightarrow> string \<Rightarrow> string" where
  "dash_runs in_run [] = []"
| "dash_runs in_run (c # cs) =
     (if slug_char c then c # dash_runs False cs
      else if in_run then dash_runs True cs
      else CHR ''-'' # dash_runs True cs)"

definition slugify :: "string \<Rightarrow> string" where
  "slugify s =
     (let t = trim_by (\<lambda>c. c = CHR ''-'') (dash_runs False (to_lower (trim_space s)))
      in if t = [] then ''org'' else t)"

definition short_id :: "string \<Rightarrow> string" where
  "short_id i = take 6 (filter (\<lambda>c. c \<noteq> CHR ''-'') i)"

definition personal_org_name :: "string \<Rightarrow> string" where
  "personal_org_name name = (if name = [] then ''Personal'' else name @ [CHR 0x27] @ ''s Org'')"

section \<open>Emails\<close>

lemma normalize_email_idem [simp]: "normalize_email (normalize_email e) = normalize_email e"
  by (simp add: normalize_email_def trim_space_to_lower)

lemma normalize_email_folded [simp]: "to_lower (normalize_email e) = normalize_email e"
  by (simp add: normalize_email_def)

lemma at_not_email [simp]: "\<not> email_char (CHR ''@'')"
  by (simp add: email_char_def)

lemma dot_email [simp]: "email_char (CHR ''.'')"
  by (simp add: email_char_def re_space_def)

lemma dot_inside: "CHR ''.'' \<in> set (butlast (tl d)) \<longleftrightarrow> (\<exists>a b. d = a @ CHR ''.'' # b \<and> a \<noteq> [] \<and> b \<noteq> [])"
proof
  assume "CHR ''.'' \<in> set (butlast (tl d))"
  then obtain x y where xy: "butlast (tl d) = x @ CHR ''.'' # y" by (meson split_list)
  then have ne: "tl d \<noteq> []" by auto
  then have "tl d = x @ CHR ''.'' # (y @ [last (tl d)])"
    using append_butlast_last_id [OF ne] xy by simp
  then have "d = (hd d # x) @ CHR ''.'' # (y @ [last (tl d)])" by (metis append_Cons list.collapse ne tl_Nil)
  then show "\<exists>a b. d = a @ CHR ''.'' # b \<and> a \<noteq> [] \<and> b \<noteq> []" by blast
next
  assume "\<exists>a b. d = a @ CHR ''.'' # b \<and> a \<noteq> [] \<and> b \<noteq> []"
  then obtain a b where "d = a @ CHR ''.'' # b" "a \<noteq> []" "b \<noteq> []" by blast
  then show "CHR ''.'' \<in> set (butlast (tl d))" by (cases a) (auto simp: butlast_append)
qed

text \<open>The language of \<open>^[^@\s]+@[^@\s]+\.[^@\s]+$\<close>.\<close>

lemma email_ok_regex:
  "email_ok e \<longleftrightarrow> (\<exists>u d t. e = u @ CHR ''@'' # d @ CHR ''.'' # t \<and> u \<noteq> [] \<and> d \<noteq> [] \<and> t \<noteq> [] \<and>
     list_all email_char u \<and> list_all email_char d \<and> list_all email_char t)"
proof
  assume ok: "email_ok e"
  define u r where ur: "u = takeWhile email_char e" "r = dropWhile email_char e"
  from ok have p: "u \<noteq> []" "r \<noteq> []" "hd r = CHR ''@''" "list_all email_char (tl r)" "CHR ''.'' \<in> set (butlast (tl (tl r)))"
    by (auto simp: email_ok_def Let_def ur)
  obtain a b where ab: "tl r = a @ CHR ''.'' # b" "a \<noteq> []" "b \<noteq> []" using p(5) dot_inside by blast
  have "e = u @ CHR ''@'' # a @ CHR ''.'' # b"
    using p(2,3) ab(1) ur by (metis list.collapse takeWhile_dropWhile_id)
  moreover have "list_all email_char u" by (auto simp: ur list_all_iff dest: set_takeWhileD)
  ultimately show "\<exists>u d t. e = u @ CHR ''@'' # d @ CHR ''.'' # t \<and> u \<noteq> [] \<and> d \<noteq> [] \<and> t \<noteq> [] \<and>
     list_all email_char u \<and> list_all email_char d \<and> list_all email_char t"
    using p(1,4) ab by auto
next
  assume "\<exists>u d t. e = u @ CHR ''@'' # d @ CHR ''.'' # t \<and> u \<noteq> [] \<and> d \<noteq> [] \<and> t \<noteq> [] \<and>
     list_all email_char u \<and> list_all email_char d \<and> list_all email_char t"
  then obtain u d t where e: "e = u @ CHR ''@'' # d @ CHR ''.'' # t" "u \<noteq> []" "d \<noteq> []" "t \<noteq> []"
    "list_all email_char u" "list_all email_char d" "list_all email_char t" by blast
  have "takeWhile email_char e = u" "dropWhile email_char e = CHR ''@'' # d @ CHR ''.'' # t"
    using e(1,5) by (auto simp: takeWhile_append list_all_iff dropWhile_append)
  moreover have "CHR ''.'' \<in> set (butlast (tl (d @ CHR ''.'' # t)))" using e(3,4) dot_inside by blast
  ultimately show "email_ok e" using e by (simp add: email_ok_def Let_def)
qed

section \<open>Slugs\<close>

lemma dash_not_slug [simp]: "\<not> slug_char (CHR ''-'')"
  by (simp add: slug_char_def Let_def)

lemma dash_runs_chars: "c \<in> set (dash_runs b s) \<Longrightarrow> slug_char c \<or> c = CHR ''-''"
  by (induction b s rule: dash_runs.induct) (auto split: if_splits)

lemma trim_by_subset: "set (trim_by p s) \<subseteq> set s"
  unfolding trim_by_def by (metis set_dropWhileD set_rev subsetI)

text \<open>A slug is never empty and is made of slug characters and inner dashes.\<close>

lemma slugify_shape:
  "slugify s \<noteq> [] \<and> (\<forall>c \<in> set (slugify s). slug_char c \<or> c = CHR ''-'') \<and>
   hd (slugify s) \<noteq> CHR ''-'' \<and> last (slugify s) \<noteq> CHR ''-''"
proof (cases "trim_by (\<lambda>c. c = CHR ''-'') (dash_runs False (to_lower (trim_space s))) = []")
  case True
  then show ?thesis by (simp add: slugify_def slug_char_def Let_def)
next
  case False
  then show ?thesis
    using hd_trim [of "\<lambda>c. c = CHR ''-''"] last_trim [of "\<lambda>c. c = CHR ''-''"] dash_runs_chars trim_by_subset
    by (simp add: slugify_def Let_def) (blast dest: subsetD)
qed

end
