(* ===== verification/Identity.thy ===== *)
theory Identity
  imports Store_Api Auth_Tokens Identity_Text
begin

text \<open>
  The identity service (\<open>identity/service.go\<close>): accounts and sessions, organizations, members,
  projects and invitations. It runs on the memory store behind a connection that may fail
  (\<open>Store_Api\<close>'s schedules of faults) and in one of two transaction modes: the memory store's,
  which does not roll back, and a database's, which does. The clock, generated ids, random
  tokens, the password hash and the JWT library are arguments (\<open>env\<close>); mail and certificate
  requests are recorded in the state.
\<close>

section \<open>Errors, arguments and state\<close>

datatype ierr =
    IEmailTaken | IInvalidCredentials | IValidation string | IForbidden | IInvitationInvalid
  | INotFound | IConflict string | IStore serr | IHashFailed | ISignFailed

text \<open>\<open>now k\<close> and \<open>id k\<close> are the k-th reading of the clock and the k-th id of one call.\<close>

record env =
  env_now :: "nat \<Rightarrow> time"
  env_id :: "nat \<Rightarrow> string"
  env_token :: string
  env_hash_password :: "string \<Rightarrow> string option"
  env_check_password :: "string \<Rightarrow> string \<Rightarrow> bool"
  env_hash_token :: "string \<Rightarrow> string"
  env_sign :: "claims \<Rightarrow> string option"
  env_parse :: "string \<Rightarrow> claims option"
  env_jti :: "nat \<Rightarrow> string"
  env_token_now :: "nat \<Rightarrow> time"
  env_query_escape :: "string \<Rightarrow> string"

record conf =
  cf_tx :: tx_mode
  cf_admin_emails :: "string list"
  cf_tokens :: token_manager
  cf_base_domain :: string
  cf_refresh_ttl :: duration
  cf_invitation_ttl :: duration
  cf_password_reset_ttl :: duration

datatype mail =
    MailWelcome string string
  | MailInvitation string string string string string
  | MailPasswordReset string string string

record world =
  w_mem :: mem
  w_faults :: "fault list"
  w_tx :: "bool option"
  w_mail :: "mail list"
  w_tls :: "(string \<times> string list) list"

type_synonym 'a iop = "(ierr, world, 'a) op"

text \<open>
  One store call. Inside a database transaction (\<open>w_tx\<close> is set) a statement that fails with
  anything but "no rows" aborts it: every later statement fails.
\<close>

definition tx_aborted :: serr where
  "tx_aborted = ErrStore ''current transaction is aborted''"

definition aborts :: "serr + 'a \<Rightarrow> bool" where
  "aborts r = (case r of Inl e \<Rightarrow> e \<noteq> ErrNotFound | Inr _ \<Rightarrow> False)"

definition on_store :: "'a mem_op \<Rightarrow> (serr, world, 'a) op" where
  "on_store m w =
     (if w_tx w = Some True then (Inl tx_aborted, w)
      else let (r, (s, fs)) = faulty m (w_mem w, w_faults w)
           in (r, w\<lparr>w_mem := s, w_faults := fs,
                    w_tx := (if aborts r then map_option (\<lambda>_. True) (w_tx w) else w_tx w)\<rparr>))"

definition on_read :: "(mem \<Rightarrow> serr + 'a) \<Rightarrow> (serr, world, 'a) op" where
  "on_read r = on_store (readE r)"

definition lift_s :: "(serr, world, 'a) op \<Rightarrow> 'a iop" where
  "lift_s m = tryE m (\<lambda>e. failE (IStore e)) okE"

text \<open>A database transaction: begin, the body, and a commit that fails on an aborted one.\<close>

definition commit_tx :: "mem \<Rightarrow> 'a \<Rightarrow> 'a iop" where
  "commit_tx before x w =
     (let back = w\<lparr>w_mem := before, w_tx := None\<rparr>; done = w\<lparr>w_tx := None\<rparr>
      in if w_tx w = Some True then (Inl (IStore tx_aborted), back)
         else case w_faults w of
                [] \<Rightarrow> (Inr x, done)
              | NoFault # fs \<Rightarrow> (Inr x, done\<lparr>w_faults := fs\<rparr>)
              | FailBefore # fs \<Rightarrow> (Inl (IStore unavailable), back\<lparr>w_faults := fs\<rparr>)
              | FailAfter # fs \<Rightarrow> (Inl (IStore unavailable), done\<lparr>w_faults := fs\<rparr>))"

definition database_tx :: "'a iop \<Rightarrow> 'a iop" where
  "database_tx f w =
     (case on_read (\<lambda>_. Inr ()) w of
        (Inl e, t) \<Rightarrow> (Inl (IStore e), t)
      | (Inr _, t) \<Rightarrow>
          (case f (t\<lparr>w_tx := Some False\<rparr>) of
             (Inl e, u) \<Rightarrow> (Inl e, u\<lparr>w_mem := w_mem w, w_tx := None\<rparr>)
           | (Inr x, u) \<Rightarrow> commit_tx (w_mem w) x u))"

definition in_tx :: "tx_mode \<Rightarrow> 'a iop \<Rightarrow> 'a iop" where
  "in_tx mode f = (case mode of TxMemory \<Rightarrow> with_tx TxMemory None f | TxRollback \<Rightarrow> database_tx f)"

section \<open>Mail and certificates\<close>

text \<open>Both are best effort: an attempt is recorded, its outcome changes nothing.\<close>

definition send_best_effort :: "mail \<Rightarrow> unit iop" where
  "send_best_effort m w = (Inr (), w\<lparr>w_mail := w_mail w @ [m]\<rparr>)"

definition provision_org_wildcard :: "string \<Rightarrow> string list \<Rightarrow> unit iop" where
  "provision_org_wildcard slug ps w =
     (Inr (), w\<lparr>w_tls := w_tls w @ [(slug, filter (\<lambda>p. p \<noteq> []) (map trim_space ps))]\<rparr>)"

definition base_domain :: "conf \<Rightarrow> string" where
  "base_domain cf = (if cf_base_domain cf = [] then ''vortex.v60ai.com'' else cf_base_domain cf)"

definition accept_url :: "conf \<Rightarrow> env \<Rightarrow> string \<Rightarrow> string" where
  "accept_url cf en tok = ''https://'' @ base_domain cf @ ''/invite?token='' @ env_query_escape en tok"

definition reset_url :: "conf \<Rightarrow> env \<Rightarrow> string \<Rightarrow> string" where
  "reset_url cf en tok = ''https://'' @ base_domain cf @ ''/reset-password?token='' @ env_query_escape en tok"

section \<open>Accounts and sessions\<close>

record auth_result =
  ar_user :: user
  ar_access :: string
  ar_refresh :: string

definition is_admin_email :: "conf \<Rightarrow> string \<Rightarrow> bool" where
  "is_admin_email cf email \<longleftrightarrow> normalize_email email \<in> set (map normalize_email (cf_admin_emails cf))"

text \<open>\<open>k\<close> is the index of the clock reading \<open>issue\<close> makes within the calling operation.\<close>

definition issue_session :: "conf \<Rightarrow> env \<Rightarrow> nat \<Rightarrow> user \<Rightarrow> auth_result iop" where
  "issue_session cf en k u =
     (case issue_token (env_sign en) (cf_tokens cf) (env_token_now en 0) (env_jti en 0) (user_id u) AccessToken of
        None \<Rightarrow> failE ISignFailed
      | Some access \<Rightarrow>
          (case issue_with_id (env_sign en) (cf_tokens cf) (env_token_now en 1) (env_jti en 1) (user_id u) RefreshToken of
             None \<Rightarrow> failE ISignFailed
           | Some (refresh, jti) \<Rightarrow>
               (let now = env_now en k;
                    rec = \<lparr>rt_id = jti, rt_user_id = user_id u, rt_revoked = False, rt_created_at = now,
                           rt_expires_at = (if cf_refresh_ttl cf > 0 then now + cf_refresh_ttl cf else zero_time)\<rparr>
                in bindE (lift_s (on_store (create_refresh_token rec)))
                     (\<lambda>_. okE \<lparr>ar_user = u, ar_access = access, ar_refresh = refresh\<rparr>))))"

definition create_default_project_tx :: "env \<Rightarrow> nat \<Rightarrow> nat \<Rightarrow> string \<Rightarrow> project iop" where
  "create_default_project_tx en i k org_i =
     (let p = \<lparr>proj_id = env_id en i, proj_org_id = org_i, proj_name = ''Default'', proj_slug = ''default'',
               proj_is_default = True, proj_created_at = env_now en k\<rparr>
      in bindE (lift_s (on_store (create_project p))) (\<lambda>_. okE p))"

definition signup_user :: "conf \<Rightarrow> env \<Rightarrow> string \<Rightarrow> string \<Rightarrow> string \<Rightarrow> user" where
  "signup_user cf en email name h =
     \<lparr>user_id = env_id en 0, user_email = email, user_name = name, user_password_hash = h,
      user_is_admin = is_admin_email cf email, user_created_at = env_now en 0\<rparr>"

definition signup_org :: "env \<Rightarrow> string \<Rightarrow> organization" where
  "signup_org en name =
     \<lparr>org_id = env_id en 1, org_name = personal_org_name name,
      org_slug = slugify name @ ''-'' @ short_id (env_id en 0), org_billing_email = [],
      org_spend_cap_cents = 0, org_created_at = env_now en 1\<rparr>"

definition signup_tx :: "env \<Rightarrow> user \<Rightarrow> organization \<Rightarrow> project iop" where
  "signup_tx en u g =
     bindE (tryE (on_store (create_user u)) (\<lambda>e. failE (if e = ErrConflict then IEmailTaken else IStore e)) okE) (\<lambda>_.
     bindE (lift_s (on_store (create_organization g))) (\<lambda>_.
     bindE (lift_s (on_store (add_membership
       \<lparr>mem_org_id = org_id g, mem_user_id = user_id u, mem_role = RoleOwner\<rparr>))) (\<lambda>_.
     create_default_project_tx en 2 2 (org_id g))))"

text \<open>What follows the validation of the input.\<close>

definition signup_checked :: "conf \<Rightarrow> env \<Rightarrow> string \<Rightarrow> string \<Rightarrow> string \<Rightarrow> auth_result iop" where
  "signup_checked cf en email name password =
     tryE (on_read (get_user_by_email email))
       (\<lambda>e. if e \<noteq> ErrNotFound then failE (IStore e)
            else case env_hash_password en password of
                   None \<Rightarrow> failE IHashFailed
                 | Some h \<Rightarrow>
                     (let u = signup_user cf en email name h; g = signup_org en name
                      in bindE (in_tx (cf_tx cf) (signup_tx en u g)) (\<lambda>p.
                         bindE (provision_org_wildcard (org_slug g) [proj_slug p]) (\<lambda>_.
                         bindE (send_best_effort (MailWelcome (user_email u) (user_name u))) (\<lambda>_.
                         issue_session cf en 3 u)))))
       (\<lambda>_. failE IEmailTaken)"

definition signup :: "conf \<Rightarrow> env \<Rightarrow> string \<Rightarrow> string \<Rightarrow> string \<Rightarrow> auth_result iop" where
  "signup cf en email0 name0 password =
     (let email = normalize_email email0; name1 = trim_space name0
      in if \<not> email_ok email then failE (IValidation ''invalid email'')
         else if length password < 8 then failE (IValidation ''password must be at least 8 characters'')
         else if length password > 72 then failE (IValidation ''password must be at most 72 bytes'')
         else signup_checked cf en email
                (if name1 = [] then takeWhile (\<lambda>c. c \<noteq> CHR ''@'') email else name1) password)"

definition login :: "conf \<Rightarrow> env \<Rightarrow> string \<Rightarrow> string \<Rightarrow> auth_result iop" where
  "login cf en email password =
     tryE (on_read (get_user_by_email (normalize_email email)))
       (\<lambda>e. if e = ErrNotFound then failE IInvalidCredentials else failE (IStore e))
       (\<lambda>u. if \<not> env_check_password en (user_password_hash u) password then failE IInvalidCredentials
            else if is_admin_email cf (user_email u) \<noteq> user_is_admin u
            then bindE (lift_s (on_store (update_user (u\<lparr>user_is_admin := is_admin_email cf (user_email u)\<rparr>))))
                   (\<lambda>v. issue_session cf en 0 v)
            else issue_session cf en 0 u)"

text \<open>A call whose error is dropped.\<close>

definition best_effort :: "(serr, world, 'a) op \<Rightarrow> unit iop" where
  "best_effort m = tryE m (\<lambda>_. okE ()) (\<lambda>_. okE ())"

definition refresh :: "conf \<Rightarrow> env \<Rightarrow> string \<Rightarrow> auth_result iop" where
  "refresh cf en tok =
     (case verify_token (env_parse en) tok RefreshToken of
        None \<Rightarrow> failE IInvalidCredentials
      | Some c \<Rightarrow>
          if cl_id c = [] then failE IInvalidCredentials
          else tryE (on_read (get_refresh_token (cl_id c))) (\<lambda>_. failE IInvalidCredentials) (\<lambda>r.
               if rt_revoked r
               then bindE (best_effort (on_store (revoke_all_user_refresh_tokens (rt_user_id r))))
                      (\<lambda>_. failE IInvalidCredentials)
               else if \<not> is_zero (rt_expires_at r) \<and> \<not> env_now en 0 < rt_expires_at r
               then failE IInvalidCredentials
               else tryE (on_read (get_user_by_id (cl_subject c))) (\<lambda>_. failE IInvalidCredentials) (\<lambda>u.
                    tryE (on_store (revoke_refresh_token_if_active (cl_id c)))
                      (\<lambda>e. if e = ErrNotFound then failE IInvalidCredentials else failE (IStore e))
                      (\<lambda>revoked.
                        if \<not> revoked
                        then bindE (best_effort (on_store (revoke_all_user_refresh_tokens (rt_user_id r))))
                               (\<lambda>_. failE IInvalidCredentials)
                        else issue_session cf en (if is_zero (rt_expires_at r) then 0 else 1) u))))"

definition logout :: "env \<Rightarrow> string \<Rightarrow> unit iop" where
  "logout en tok =
     (if tok = [] then okE ()
      else case verify_token (env_parse en) tok RefreshToken of
             None \<Rightarrow> okE ()
           | Some c \<Rightarrow>
               if cl_id c = [] then okE ()
               else tryE (on_store (revoke_refresh_token (cl_id c)))
                      (\<lambda>e. if e \<noteq> ErrNotFound then failE (IStore e) else okE ()) okE)"

definition get_user :: "string \<Rightarrow> user iop" where
  "get_user i = lift_s (on_read (get_user_by_id i))"

section \<open>Password reset\<close>

definition forgot_password_tx :: "string \<Rightarrow> time \<Rightarrow> password_reset_token \<Rightarrow> unit iop" where
  "forgot_password_tx uid now rec =
     bindE (lift_s (on_store (invalidate_user_password_reset_tokens uid now))) (\<lambda>_.
       lift_s (on_store (create_password_reset_token rec)))"

definition forgot_password :: "conf \<Rightarrow> env \<Rightarrow> string \<Rightarrow> unit iop" where
  "forgot_password cf en email0 =
     (let email = normalize_email email0
      in if \<not> email_ok email then okE ()
         else tryE (on_read (get_user_by_email email))
                (\<lambda>e. if e = ErrNotFound then okE () else failE (IStore e))
                (\<lambda>u. let now = env_now en 0;
                         rec = \<lparr>prt_id = env_id en 0, prt_user_id = user_id u,
                                prt_token_hash = env_hash_token en (env_token en),
                                prt_expires_at = now + cf_password_reset_ttl cf,
                                prt_used_at = zero_time, prt_created_at = now\<rparr>
                     in tryE (in_tx (cf_tx cf) (forgot_password_tx (user_id u) now rec))
                          (\<lambda>_. okE ())
                          (\<lambda>_. send_best_effort
                             (MailPasswordReset (user_email u) (user_name u) (reset_url cf en (env_token en))))))"

definition reset_password_tx :: "string \<Rightarrow> time \<Rightarrow> user \<Rightarrow> bool iop" where
  "reset_password_tx i now u =
     bindE (lift_s (on_store (consume_password_reset_token i now))) (\<lambda>ok.
       if \<not> ok then okE False
       else bindE (lift_s (on_store (update_user u))) (\<lambda>v.
            bindE (lift_s (on_store (revoke_all_user_refresh_tokens (user_id v)))) (\<lambda>_. okE True)))"

definition reset_password :: "conf \<Rightarrow> env \<Rightarrow> string \<Rightarrow> string \<Rightarrow> unit iop" where
  "reset_password cf en tok password =
     (if length password < 8 then failE (IValidation ''password must be at least 8 characters'')
      else if length password > 72 then failE (IValidation ''password must be at most 72 bytes'')
      else tryE (on_read (get_password_reset_token_by_hash (env_hash_token en tok)))
             (\<lambda>e. if e = ErrNotFound then failE IInvalidCredentials else failE (IStore e))
             (\<lambda>rec.
               if \<not> is_zero (prt_used_at rec) then failE IInvalidCredentials
               else if \<not> env_now en 0 < prt_expires_at rec then failE IInvalidCredentials
               else tryE (on_read (get_user_by_id (prt_user_id rec))) (\<lambda>_. failE IInvalidCredentials) (\<lambda>u.
                    case env_hash_password en password of
                      None \<Rightarrow> failE IHashFailed
                    | Some h \<Rightarrow>
                        bindE (in_tx (cf_tx cf)
                                 (reset_password_tx (prt_id rec) (env_now en 1) (u\<lparr>user_password_hash := h\<rparr>)))
                          (\<lambda>consumed. if \<not> consumed then failE IInvalidCredentials else okE ()))))"

definition cleanup_expired_refresh_tokens :: "env \<Rightarrow> int iop" where
  "cleanup_expired_refresh_tokens en = lift_s (on_store (delete_expired_refresh_tokens (env_now en 0)))"

end
