(* ===== verification/Identity_Orgs.thy ===== *)
theory Identity_Orgs
  imports Identity
begin

text \<open>
  Organizations, members, projects and invitations (the second half of
  \<open>identity/service.go\<close>). Errors the code wraps with a message keep their cause; the message
  is not modelled.
\<close>

section \<open>Authorization\<close>

definition authorize :: "string \<Rightarrow> string \<Rightarrow> role \<Rightarrow> membership iop" where
  "authorize user_i org_i least =
     tryE (on_read (get_membership org_i user_i))
       (\<lambda>e. if e = ErrNotFound then failE IForbidden else failE (IStore e))
       (\<lambda>m. if \<not> role_at_least (mem_role m) least then failE IForbidden else okE m)"

text \<open>\<open>errors.Is(err, store.ErrNotFound)\<close> becomes \<open>ErrNotFound\<close> of the service.\<close>

definition or_not_found :: "(serr, world, 'a) op \<Rightarrow> 'a iop" where
  "or_not_found m = tryE m (\<lambda>e. if e = ErrNotFound then failE INotFound else failE (IStore e)) okE"

section \<open>Organizations\<close>

definition list_organizations :: "string \<Rightarrow> organization list iop" where
  "list_organizations user_i = lift_s (on_read (list_organizations_for_user user_i))"

definition create_organization_tx :: "env \<Rightarrow> string \<Rightarrow> organization \<Rightarrow> project iop" where
  "create_organization_tx en user_i g =
     bindE (lift_s (on_store (create_organization g))) (\<lambda>_.
     bindE (lift_s (on_store (add_membership
       \<lparr>mem_org_id = org_id g, mem_user_id = user_i, mem_role = RoleOwner\<rparr>))) (\<lambda>_.
     create_default_project_tx en 2 1 (org_id g)))"

definition new_organization :: "env \<Rightarrow> string \<Rightarrow> organization" where
  "new_organization en name =
     \<lparr>org_id = env_id en 0, org_name = name, org_slug = slugify name @ ''-'' @ short_id (env_id en 1),
      org_billing_email = [], org_spend_cap_cents = 0, org_created_at = env_now en 0\<rparr>"

definition create_org :: "conf \<Rightarrow> env \<Rightarrow> string \<Rightarrow> string \<Rightarrow> organization iop" where
  "create_org cf en user_i name0 =
     (let name = trim_space name0
      in if name = [] then failE (IValidation ''organization name is required'')
         else let g = new_organization en name
              in bindE (in_tx (cf_tx cf) (create_organization_tx en user_i g)) (\<lambda>p.
                 bindE (provision_org_wildcard (org_slug g) [proj_slug p]) (\<lambda>_. okE g)))"

record update_org_input =
  uo_name :: "string option"
  uo_billing_email :: "string option"

definition update_organization :: "string \<Rightarrow> string \<Rightarrow> update_org_input \<Rightarrow> organization iop" where
  "update_organization user_i org_i inp =
     bindE (authorize user_i org_i RoleAdmin) (\<lambda>_.
     bindE (or_not_found (on_read (get_organization org_i))) (\<lambda>g.
     bindE (case uo_name inp of
              None \<Rightarrow> okE g
            | Some n \<Rightarrow> if trim_space n = [] then failE (IValidation ''organization name is required'')
                        else okE (g\<lparr>org_name := trim_space n\<rparr>)) (\<lambda>g.
     bindE (case uo_billing_email inp of
              None \<Rightarrow> okE g
            | Some b \<Rightarrow> (let email = normalize_email b
                         in if email \<noteq> [] \<and> \<not> email_ok email then failE (IValidation ''invalid billing email'')
                            else okE (g\<lparr>org_billing_email := email\<rparr>))) (\<lambda>g.
     or_not_found (on_store (update_org g))))))"

section \<open>Members\<close>

definition count_owners :: "string \<Rightarrow> int iop" where
  "count_owners org_i =
     bindE (lift_s (on_read (list_memberships org_i)))
       (\<lambda>ms. okE (int (length (filter (\<lambda>m. mem_role m = RoleOwner) ms))))"

text \<open>The check both role changes and removals make before they write.\<close>

definition keeps_an_owner :: "string \<Rightarrow> string \<Rightarrow> (membership \<Rightarrow> bool) \<Rightarrow> unit iop" where
  "keeps_an_owner org_i target_i loses_owner =
     bindE (or_not_found (on_read (get_membership org_i target_i))) (\<lambda>m.
       if loses_owner m
       then bindE (count_owners org_i) (\<lambda>n.
              if n \<le> 1 then failE (IConflict ''an organization must have at least one owner'') else okE ())
       else okE ())"

definition check_role_change :: "string \<Rightarrow> string \<Rightarrow> string \<Rightarrow> role \<Rightarrow> unit iop" where
  "check_role_change actor_i org_i target_i r =
     bindE (authorize actor_i org_i RoleOwner) (\<lambda>_.
       if \<not> role_valid r then failE (IValidation ''invalid role'')
       else keeps_an_owner org_i target_i (\<lambda>m. mem_role m = RoleOwner \<and> r \<noteq> RoleOwner))"

definition update_member_role :: "string \<Rightarrow> string \<Rightarrow> string \<Rightarrow> role \<Rightarrow> unit iop" where
  "update_member_role actor_i org_i target_i r =
     bindE (check_role_change actor_i org_i target_i r) (\<lambda>_.
       or_not_found (on_store (update_membership_role org_i target_i r)))"

definition check_removal :: "string \<Rightarrow> string \<Rightarrow> string \<Rightarrow> unit iop" where
  "check_removal actor_i org_i target_i =
     bindE (authorize actor_i org_i RoleOwner) (\<lambda>_.
       keeps_an_owner org_i target_i (\<lambda>m. mem_role m = RoleOwner))"

definition remove_member :: "string \<Rightarrow> string \<Rightarrow> string \<Rightarrow> unit iop" where
  "remove_member actor_i org_i target_i =
     bindE (check_removal actor_i org_i target_i) (\<lambda>_.
       or_not_found (on_store (remove_membership org_i target_i)))"

definition list_members :: "string \<Rightarrow> string \<Rightarrow> membership list iop" where
  "list_members user_i org_i =
     bindE (authorize user_i org_i RoleMember) (\<lambda>_. lift_s (on_read (list_memberships org_i)))"

section \<open>Projects\<close>

definition default_project :: "string \<Rightarrow> project iop" where
  "default_project org_i =
     bindE (lift_s (on_read (list_projects_by_org org_i))) (\<lambda>ps.
       case find proj_is_default ps of
         Some p \<Rightarrow> okE p
       | None \<Rightarrow> (case ps of p # _ \<Rightarrow> okE p | [] \<Rightarrow> failE (IStore ErrNotFound)))"

definition create_project_in :: "env \<Rightarrow> string \<Rightarrow> string \<Rightarrow> string \<Rightarrow> project iop" where
  "create_project_in en user_i org_i name0 =
     bindE (authorize user_i org_i RoleAdmin) (\<lambda>_.
       let name = trim_space name0
       in if name = [] then failE (IValidation ''project name is required'')
          else let p = \<lparr>proj_id = env_id en 0, proj_org_id = org_i, proj_name = name,
                        proj_slug = slugify name @ ''-'' @ short_id (env_id en 1),
                        proj_is_default = False, proj_created_at = env_now en 0\<rparr>
               in bindE (lift_s (on_store (create_project p))) (\<lambda>_. okE p))"

definition list_projects :: "string \<Rightarrow> string \<Rightarrow> project list iop" where
  "list_projects user_i org_i =
     bindE (authorize user_i org_i RoleMember) (\<lambda>_. lift_s (on_read (list_projects_by_org org_i)))"

text \<open>A project of another organization is as good as none.\<close>

definition project_of :: "ierr \<Rightarrow> string \<Rightarrow> string \<Rightarrow> project iop" where
  "project_of missing org_i proj_i =
     tryE (on_read (get_project proj_i))
       (\<lambda>e. if e = ErrNotFound then failE missing else failE (IStore e))
       (\<lambda>p. if proj_org_id p \<noteq> org_i then failE missing else okE p)"

definition delete_project_in :: "string \<Rightarrow> string \<Rightarrow> string \<Rightarrow> unit iop" where
  "delete_project_in user_i org_i proj_i =
     bindE (authorize user_i org_i RoleAdmin) (\<lambda>_.
     bindE (project_of INotFound org_i proj_i) (\<lambda>p.
       if proj_is_default p then failE (IConflict ''the default project cannot be deleted'')
       else tryE (on_store (delete_project org_i proj_i))
              (\<lambda>e. if e = ErrNotFound then failE INotFound
                   else if e = ErrConflict then failE (IConflict ''project still contains apps or services'')
                   else failE (IStore e)) okE))"

definition authorize_project :: "string \<Rightarrow> string \<Rightarrow> string \<Rightarrow> role \<Rightarrow> unit iop" where
  "authorize_project user_i org_i proj_i least =
     bindE (project_of IForbidden org_i proj_i) (\<lambda>_.
       let direct = tryE (on_read (get_project_membership proj_i user_i))
             (\<lambda>e. if e = ErrNotFound then failE IForbidden else failE (IStore e))
             (\<lambda>m. if \<not> role_at_least (pm_role m) least then failE IForbidden else okE ())
       in tryE (on_read (get_membership org_i user_i)) (\<lambda>_. direct)
            (\<lambda>m. if role_at_least (mem_role m) RoleAdmin then okE () else direct))"

fun direct_projects :: "string \<Rightarrow> project list \<Rightarrow> string list iop" where
  "direct_projects user_i [] = okE []"
| "direct_projects user_i (p # ps) =
     tryE (on_read (get_project_membership (proj_id p) user_i))
       (\<lambda>e. if e \<noteq> ErrNotFound then failE (IStore e) else direct_projects user_i ps)
       (\<lambda>_. bindE (direct_projects user_i ps) (\<lambda>ids. okE (proj_id p # ids)))"

text \<open>The set of ids as a list; the flag is the organization-admin shortcut.\<close>

definition accessible_project_ids :: "string \<Rightarrow> string \<Rightarrow> (string list \<times> bool) iop" where
  "accessible_project_ids user_i org_i =
     (let listed = bindE (lift_s (on_read (list_projects_by_org org_i)))
            (\<lambda>ps. bindE (direct_projects user_i ps) (\<lambda>ids. okE (ids, False)))
      in tryE (on_read (get_membership org_i user_i))
           (\<lambda>e. if e \<noteq> ErrNotFound then failE (IStore e) else listed)
           (\<lambda>m. if role_at_least (mem_role m) RoleAdmin then okE ([], True) else listed))"

section \<open>Invitations\<close>

definition or_default :: "(serr, world, 'a) op \<Rightarrow> ('a \<Rightarrow> 'b) \<Rightarrow> 'b \<Rightarrow> 'b iop" where
  "or_default m f d = tryE m (\<lambda>_. okE d) (\<lambda>x. okE (f x))"

definition inviter_name :: "user \<Rightarrow> string" where
  "inviter_name u =
     (if trim_space (user_name u) \<noteq> [] then trim_space (user_name u)
      else if user_email u \<noteq> [] then user_email u else ''A teammate'')"

definition send_invitation_email :: "conf \<Rightarrow> env \<Rightarrow> string \<Rightarrow> invitation \<Rightarrow> unit iop" where
  "send_invitation_email cf en inviter_i ivt =
     bindE (or_default (on_read (get_user_by_id inviter_i)) inviter_name ''A teammate'') (\<lambda>who.
     bindE (or_default (on_read (get_organization (inv_org_id ivt))) org_name []) (\<lambda>oname.
     bindE (if inv_project_id ivt = [] then okE []
            else or_default (on_read (get_project (inv_project_id ivt))) proj_name []) (\<lambda>pname.
     send_best_effort (MailInvitation (inv_email ivt) who oname pname (accept_url cf en (inv_token ivt))))))"

definition new_invitation :: "conf \<Rightarrow> env \<Rightarrow> string \<Rightarrow> string \<Rightarrow> string \<Rightarrow> string \<Rightarrow> role \<Rightarrow> invitation" where
  "new_invitation cf en inviter_i org_i proj_i email r =
     \<lparr>inv_id = env_id en 0, inv_org_id = org_i, inv_project_id = proj_i, inv_email = email, inv_role = r,
      inv_token = env_token en, inv_status = InvitePending, inv_invited_by = inviter_i,
      inv_created_at = env_now en 0,
      inv_expires_at = (if cf_invitation_ttl cf > 0 then env_now en 0 + cf_invitation_ttl cf else zero_time)\<rparr>"

definition invite :: "conf \<Rightarrow> env \<Rightarrow> string \<Rightarrow> string \<Rightarrow> string \<Rightarrow> string \<Rightarrow> role \<Rightarrow> invitation iop" where
  "invite cf en inviter_i org_i proj_i email0 r =
     bindE (authorize inviter_i org_i RoleAdmin) (\<lambda>_.
       let email = normalize_email email0; ivt = new_invitation cf en inviter_i org_i proj_i email r;
           not_in_org = IValidation ''project not in organization''
       in if \<not> email_ok email then failE (IValidation ''invalid email'')
          else if \<not> role_valid r then failE (IValidation ''invalid role'')
          else bindE (if proj_i = [] then okE ()
                      else tryE (on_read (get_project proj_i)) (\<lambda>_. failE not_in_org)
                             (\<lambda>p. if proj_org_id p \<noteq> org_i then failE not_in_org else okE ())) (\<lambda>_.
               bindE (lift_s (on_store (create_invitation ivt))) (\<lambda>_.
               bindE (send_invitation_email cf en inviter_i ivt) (\<lambda>_. okE ivt))))"

definition list_invitations :: "string \<Rightarrow> string \<Rightarrow> invitation list iop" where
  "list_invitations user_i org_i =
     bindE (authorize user_i org_i RoleAdmin) (\<lambda>_. lift_s (on_read (list_invitations_by_org org_i)))"

definition revoke_invitation_in :: "string \<Rightarrow> string \<Rightarrow> string \<Rightarrow> unit iop" where
  "revoke_invitation_in user_i org_i inv_i =
     bindE (authorize user_i org_i RoleAdmin) (\<lambda>_. or_not_found (on_store (revoke_invitation org_i inv_i)))"

definition accept_tx :: "string \<Rightarrow> invitation \<Rightarrow> invitation iop" where
  "accept_tx user_i ivt =
     bindE (tryE (on_read (get_membership (inv_org_id ivt) user_i))
              (\<lambda>e. if e = ErrNotFound
                   then lift_s (on_store (add_membership
                          \<lparr>mem_org_id = inv_org_id ivt, mem_user_id = user_i,
                           mem_role = (if inv_project_id ivt = [] then inv_role ivt else RoleMember)\<rparr>))
                   else failE (IStore e))
              (\<lambda>_. okE ())) (\<lambda>_.
     bindE (if inv_project_id ivt = [] then okE ()
            else tryE (on_store (add_project_membership
                         \<lparr>pm_project_id = inv_project_id ivt, pm_user_id = user_i, pm_role = inv_role ivt\<rparr>))
                   (\<lambda>e. if e \<noteq> ErrConflict then failE (IStore e) else okE ()) okE) (\<lambda>_.
     bindE (lift_s (on_store (update_invitation (ivt\<lparr>inv_status := InviteAccepted\<rparr>)))) (\<lambda>_.
     okE (ivt\<lparr>inv_status := InviteAccepted\<rparr>))))"

definition accept_invitation :: "conf \<Rightarrow> env \<Rightarrow> string \<Rightarrow> string \<Rightarrow> string \<Rightarrow> invitation iop" where
  "accept_invitation cf en user_i email tok =
     tryE (on_read (get_invitation_by_token tok))
       (\<lambda>e. if e = ErrNotFound then failE IInvitationInvalid else failE (IStore e))
       (\<lambda>ivt.
         if inv_status ivt \<noteq> InvitePending then failE IInvitationInvalid
         else if \<not> is_zero (inv_expires_at ivt) \<and> \<not> env_now en 0 < inv_expires_at ivt then failE IInvitationInvalid
         else if normalize_email email \<noteq> inv_email ivt then failE IForbidden
         else in_tx (cf_tx cf) (accept_tx user_i ivt))"

end
