(* ===== verification/Identity_Sessions.thy ===== *)
theory Identity_Sessions
  imports Identity Store_Properties
begin

text \<open>
  What the session and account operations of the identity service guarantee, under every
  schedule of store failures: transactions are all or nothing, a refresh token is honoured once,
  a password reset changes everything or nothing and ends all sessions.
\<close>

section \<open>Store calls and transactions\<close>

text \<open>Every call of the service follows the memory store, whatever fails.\<close>

lemma follows_on_store: "follows w_mem (on_store m) m"
  unfolding follows_def on_store_def faulty_def
  by (auto simp: tx_aborted_def unavailable_def driver_error_def split: prod.splits list.splits fault.splits)

lemma follows_on_read: "follows w_mem (on_read r) (readE r)"
  unfolding on_read_def by (rule follows_on_store)

lemmas store_ok = follows_Inr [OF follows_on_store]
lemmas store_error = follows_Inl [OF follows_on_store]
lemmas read_ok = follows_read_Inr [OF follows_on_read]
lemmas read_error = follows_read_Inl [OF follows_on_read]

lemma lift_s_E:
  assumes "lift_s m w = (r, t)"
  obtains e where "m w = (Inl e, t)" "r = Inl (IStore e)" | x where "m w = (Inr x, t)" "r = Inr x"
  using assms unfolding lift_s_def by (elim tryE_E) (auto simp: failE_def okE_def)

lemma lift_s_ok: "lift_s m w = (Inr x, t) \<Longrightarrow> m w = (Inr x, t)"
  by (erule lift_s_E) auto

text \<open>With no failures left, outside a transaction, a call is the memory store's.\<close>

definition healthy :: "world \<Rightarrow> bool" where
  "healthy w \<longleftrightarrow> w_faults w = [] \<and> w_tx w = None"

lemma healthy_call: "healthy w \<Longrightarrow> on_store m w = (fst (m (w_mem w)), w\<lparr>w_mem := snd (m (w_mem w))\<rparr>)"
  by (cases w) (auto simp: healthy_def on_store_def faulty_healthy Let_def split: prod.splits)

lemma healthy_read: "healthy w \<Longrightarrow> on_read r w = (r (w_mem w), w)"
  by (simp add: on_read_def healthy_call readE_def)

lemma healthy_frame [simp]: "healthy (w\<lparr>w_mem := s\<rparr>) = healthy w" "healthy (w\<lparr>w_mail := ms\<rparr>) = healthy w"
  "healthy (w\<lparr>w_tls := ts\<rparr>) = healthy w"
  by (simp_all add: healthy_def)

lemma in_tx_memory [simp]: "in_tx TxMemory f = f"
  by (rule ext) (simp add: in_tx_def with_tx_def split: prod.splits sum.splits)

text \<open>
  A database transaction either leaves the store as it was, with an error, or its body has
  succeeded and all of it is stored (the answer of the commit may still be lost).
\<close>

lemma database_tx_cases:
  assumes "database_tx f w = (r, t)"
  obtains e where "r = Inl e" "w_mem t = w_mem w"
  | x u v where "f u = (Inr x, v)" "w_mem u = w_mem w" "w_mem t = w_mem v" "r = Inr x \<or> r = Inl (IStore unavailable)"
proof -
  obtain q s where q: "on_read (\<lambda>_. Inr ()) w = (q, s)" by (metis surj_pair)
  have s: "w_mem s = w_mem w" using q read_ok [of "\<lambda>_. Inr ()" w _ s] read_error [of "\<lambda>_. Inr ()" w _ s] by (cases q) auto
  show ?thesis
  proof (cases q)
    case (Inl e)
    then show ?thesis using assms q s that(1) by (auto simp: database_tx_def)
  next
    case (Inr x)
    obtain p u where p: "f (s\<lparr>w_tx := Some False\<rparr>) = (p, u)" by (metis surj_pair)
    show ?thesis
    proof (cases p)
      case (Inl e)
      then show ?thesis using assms q Inr p that(1) by (auto simp: database_tx_def)
    next
      case y: (Inr y)
      have c: "commit_tx (w_mem w) y u = (r, t)" using assms q Inr p y by (simp add: database_tx_def)
      show ?thesis
      proof (cases "w_tx u = Some True \<or> (\<exists>fs. w_faults u = FailBefore # fs)")
        case True
        then show ?thesis using c that(1) by (auto simp: commit_tx_def Let_def split: list.splits fault.splits if_splits)
      next
        case False
        then have "w_mem t = w_mem u" "r = Inr y \<or> r = Inl (IStore unavailable)"
          using c by (auto simp: commit_tx_def Let_def split: list.splits fault.splits)
        then show ?thesis using that(2) [of "s\<lparr>w_tx := Some False\<rparr>" y u] p y s by simp
      qed
    qed
  qed
qed

text \<open>
  All or nothing, for a database's transactions under any failures, and for the memory store's
  without failures when the body cannot fail half way.
\<close>

lemma in_tx_atomic:
  assumes "in_tx mode f w = (r, t)" and "\<And>x u v. f u = (Inr x, v) \<Longrightarrow> w_mem v = g (w_mem u)"
    and "mode = TxRollback \<or> (\<exists>x v. f w = (Inr x, v))"
  shows "(w_mem t = g (w_mem w) \<and> ((\<exists>x. r = Inr x) \<or> r = Inl (IStore unavailable))) \<or>
    (w_mem t = w_mem w \<and> (\<exists>e. r = Inl e))"
proof (cases mode)
  case TxMemory
  then show ?thesis using assms by auto
next
  case TxRollback
  then have d: "database_tx f w = (r, t)" using assms(1) by (simp add: in_tx_def)
  then show ?thesis
  proof (cases rule: database_tx_cases)
    case (1 e)
    then show ?thesis by simp
  next
    case (2 x u v)
    then show ?thesis using assms(2) [OF 2(1)] by auto
  qed
qed

lemma in_tx_ok:
  assumes "in_tx mode f w = (Inr x, t)" and "\<And>x u v. f u = (Inr x, v) \<Longrightarrow> w_mem v = g (w_mem u)"
  shows "w_mem t = g (w_mem w)"
proof (cases mode)
  case TxMemory
  then show ?thesis using assms by auto
next
  case TxRollback
  then have d: "database_tx f w = (Inr x, t)" using assms(1) by (simp add: in_tx_def)
  then show ?thesis by (cases rule: database_tx_cases) (auto dest: assms(2))
qed

section \<open>Sessions\<close>

lemma tryE_Inr:
  assumes "tryE m h k s = (Inr x, t)" "\<And>e u. h e u \<noteq> (Inr x, t)"
  shows "\<exists>y u. m s = (Inr y, u) \<and> k y u = (Inr x, t)"
  using assms by (auto elim!: tryE_E)

lemma bindE_failE: "bindE m (\<lambda>_. failE e) s \<noteq> (Inr x, t)"
  by (auto simp: failE_def elim!: bindE_InrE)

definition session_row :: "conf \<Rightarrow> env \<Rightarrow> nat \<Rightarrow> string \<Rightarrow> refresh_token" where
  "session_row cf en k uid =
     \<lparr>rt_id = env_jti en 1, rt_user_id = uid, rt_revoked = False, rt_created_at = env_now en k,
      rt_expires_at = (if cf_refresh_ttl cf > 0 then env_now en k + cf_refresh_ttl cf else zero_time)\<rparr>"

lemma issue_ok:
  assumes "issue_session cf en k u w = (Inr a, t)"
  shows "ar_user a = u" and "gget (st_refresh_tokens (w_mem w)) (env_jti en 1) = None"
    and "w_mem t = (w_mem w)\<lparr>st_refresh_tokens :=
      gput (env_jti en 1) (session_row cf en k (user_id u)) (st_refresh_tokens (w_mem w))\<rparr>"
    and "env_sign en (token_claims (cf_tokens cf) (env_token_now en 1) (env_jti en 1) (user_id u) RefreshToken) = Some (ar_refresh a)"
    and "env_sign en (token_claims (cf_tokens cf) (env_token_now en 0) (env_jti en 0) (user_id u) AccessToken) = Some (ar_access a)"
proof -
  let ?row = "session_row cf en k (user_id u)"
  obtain acc rf where sign:
    "env_sign en (token_claims (cf_tokens cf) (env_token_now en 0) (env_jti en 0) (user_id u) AccessToken) = Some acc"
    "env_sign en (token_claims (cf_tokens cf) (env_token_now en 1) (env_jti en 1) (user_id u) RefreshToken) = Some rf"
    using assms by (auto simp: issue_session_def issue_token_def issue_with_id_def failE_def split: option.splits)
  have b: "bindE (lift_s (on_store (create_refresh_token ?row))) (\<lambda>_. okE \<lparr>ar_user = u, ar_access = acc, ar_refresh = rf\<rparr>) w = (Inr a, t)"
    using assms sign by (simp add: issue_session_def issue_token_def issue_with_id_def session_row_def Let_def)
  then obtain x where st: "on_store (create_refresh_token ?row) w = (Inr x, t)"
    and a: "a = \<lparr>ar_user = u, ar_access = acc, ar_refresh = rf\<rparr>"
    by (elim bindE_InrE) (auto simp: okE_def dest!: lift_s_ok)
  have "create_refresh_token ?row (w_mem w) = (Inr x, w_mem t)" using store_ok [OF st] .
  then show "gget (st_refresh_tokens (w_mem w)) (env_jti en 1) = None"
    "w_mem t = (w_mem w)\<lparr>st_refresh_tokens := gput (env_jti en 1) ?row (st_refresh_tokens (w_mem w))\<rparr>"
    by (auto simp: create_refresh_token_def on_tbl_def tbl_create_def session_row_def split: option.splits)
  show "ar_user a = u"
    "env_sign en (token_claims (cf_tokens cf) (env_token_now en 1) (env_jti en 1) (user_id u) RefreshToken) = Some (ar_refresh a)"
    "env_sign en (token_claims (cf_tokens cf) (env_token_now en 0) (env_jti en 0) (user_id u) AccessToken) = Some (ar_access a)"
    using a sign by simp_all
qed

lemma refresh_path:
  assumes "refresh cf en tok w = (Inr a, t)"
  obtains c r u w1 w2 w3 k where "verify_token (env_parse en) tok RefreshToken = Some c" "cl_id c \<noteq> []"
    "on_read (get_refresh_token (cl_id c)) w = (Inr r, w1)" "\<not> rt_revoked r"
    "is_zero (rt_expires_at r) \<or> env_now en 0 < rt_expires_at r"
    "on_read (get_user_by_id (cl_subject c)) w1 = (Inr u, w2)"
    "on_store (revoke_refresh_token_if_active (cl_id c)) w2 = (Inr True, w3)"
    "issue_session cf en k u w3 = (Inr a, t)"
proof -
  obtain c where c: "verify_token (env_parse en) tok RefreshToken = Some c" "cl_id c \<noteq> []"
    using assms by (auto simp: refresh_def failE_def split: option.splits if_splits)
  let ?next = "\<lambda>r u. tryE (on_store (revoke_refresh_token_if_active (cl_id c)))
      (\<lambda>e. if e = ErrNotFound then failE IInvalidCredentials else failE (IStore e))
      (\<lambda>revoked. if \<not> revoked
         then bindE (best_effort (on_store (revoke_all_user_refresh_tokens (rt_user_id r)))) (\<lambda>_. failE IInvalidCredentials)
         else issue_session cf en (if is_zero (rt_expires_at r) then 0 else 1) u)"
  have "\<exists>r w1. on_read (get_refresh_token (cl_id c)) w = (Inr r, w1) \<and>
      (if rt_revoked r
       then bindE (best_effort (on_store (revoke_all_user_refresh_tokens (rt_user_id r)))) (\<lambda>_. failE IInvalidCredentials)
       else if \<not> is_zero (rt_expires_at r) \<and> \<not> env_now en 0 < rt_expires_at r then failE IInvalidCredentials
       else tryE (on_read (get_user_by_id (cl_subject c))) (\<lambda>_. failE IInvalidCredentials) (?next r)) w1 = (Inr a, t)"
  proof (rule tryE_Inr [where h = "\<lambda>_. failE IInvalidCredentials"])
    show "tryE (on_read (get_refresh_token (cl_id c))) (\<lambda>_. failE IInvalidCredentials) (\<lambda>r.
       if rt_revoked r
       then bindE (best_effort (on_store (revoke_all_user_refresh_tokens (rt_user_id r)))) (\<lambda>_. failE IInvalidCredentials)
       else if \<not> is_zero (rt_expires_at r) \<and> \<not> env_now en 0 < rt_expires_at r then failE IInvalidCredentials
       else tryE (on_read (get_user_by_id (cl_subject c))) (\<lambda>_. failE IInvalidCredentials) (?next r)) w = (Inr a, t)"
      using assms c by (simp add: refresh_def)
  qed (simp add: failE_def)
  then obtain r w1 where r: "on_read (get_refresh_token (cl_id c)) w = (Inr r, w1)" "\<not> rt_revoked r"
      "is_zero (rt_expires_at r) \<or> env_now en 0 < rt_expires_at r"
    and n: "tryE (on_read (get_user_by_id (cl_subject c))) (\<lambda>_. failE IInvalidCredentials) (?next r) w1 = (Inr a, t)"
    by (auto simp: bindE_failE split: if_split_asm) (simp_all add: failE_def)
  have "\<exists>u w2. on_read (get_user_by_id (cl_subject c)) w1 = (Inr u, w2) \<and> ?next r u w2 = (Inr a, t)"
    by (rule tryE_Inr [OF n]) (simp add: failE_def)
  then obtain u w2 where u: "on_read (get_user_by_id (cl_subject c)) w1 = (Inr u, w2)" and n: "?next r u w2 = (Inr a, t)"
    by blast
  have "\<exists>b w3. on_store (revoke_refresh_token_if_active (cl_id c)) w2 = (Inr b, w3) \<and>
      (if \<not> b then bindE (best_effort (on_store (revoke_all_user_refresh_tokens (rt_user_id r)))) (\<lambda>_. failE IInvalidCredentials)
       else issue_session cf en (if is_zero (rt_expires_at r) then 0 else 1) u) w3 = (Inr a, t)"
    by (rule tryE_Inr [OF n]) (simp add: failE_def)
  then obtain w3 where "on_store (revoke_refresh_token_if_active (cl_id c)) w2 = (Inr True, w3)"
    "issue_session cf en (if is_zero (rt_expires_at r) then 0 else 1) u w3 = (Inr a, t)"
    by (auto simp: bindE_failE split: if_split_asm)
  with that c r u show ?thesis by blast
qed

text \<open>What a successful refresh has done to the store.\<close>

lemma refresh_effect:
  assumes "refresh cf en tok w = (Inr a, t)"
  obtains c r u k where "verify_token (env_parse en) tok RefreshToken = Some c"
    "gget (st_refresh_tokens (w_mem w)) (cl_id c) = Some r" "\<not> rt_revoked r"
    "is_zero (rt_expires_at r) \<or> env_now en 0 < rt_expires_at r"
    "gget (st_users (w_mem w)) (cl_subject c) = Some u" "ar_user a = u" "env_jti en 1 \<noteq> cl_id c"
    "w_mem t = (w_mem w)\<lparr>st_refresh_tokens :=
       gput (env_jti en 1) (session_row cf en k (user_id u))
         (gput (cl_id c) (r\<lparr>rt_revoked := True\<rparr>) (st_refresh_tokens (w_mem w)))\<rparr>"
proof (rule refresh_path [OF assms])
  fix c r u w1 w2 w3 k
  assume c: "verify_token (env_parse en) tok RefreshToken = Some c" "cl_id c \<noteq> []"
    and r: "on_read (get_refresh_token (cl_id c)) w = (Inr r, w1)" "\<not> rt_revoked r"
    "is_zero (rt_expires_at r) \<or> env_now en 0 < rt_expires_at r"
    and u: "on_read (get_user_by_id (cl_subject c)) w1 = (Inr u, w2)"
    and v: "on_store (revoke_refresh_token_if_active (cl_id c)) w2 = (Inr True, w3)"
    and i: "issue_session cf en k u w3 = (Inr a, t)"
  have g: "gget (st_refresh_tokens (w_mem w)) (cl_id c) = Some r" "w_mem w1 = w_mem w"
    using read_ok [OF r(1)] by (simp_all add: get_refresh_token_def)
  have gu: "gget (st_users (w_mem w)) (cl_subject c) = Some u" "w_mem w2 = w_mem w"
    using read_ok [OF u] g by (simp_all add: get_user_by_id_def)
  have m3: "w_mem w3 = (w_mem w)\<lparr>st_refresh_tokens := gput (cl_id c) (r\<lparr>rt_revoked := True\<rparr>) (st_refresh_tokens (w_mem w))\<rparr>"
    using store_ok [OF v] gu g r(2) by (simp add: revoke_refresh_token_if_active_def)
  have "env_jti en 1 \<noteq> cl_id c" using issue_ok(2) [OF i] m3 by (auto split: if_splits)
  then show thesis
    using that [OF c(1) g(1) r(2,3) gu(1) issue_ok(1) [OF i], of k] issue_ok(3) [OF i] m3 by simp
qed

lemma refresh_spends:
  assumes "refresh cf en tok w = (Inr a, t)" "verify_token (env_parse en) tok RefreshToken = Some c"
  shows "token_spent (cl_id c) (w_mem t)"
  by (rule refresh_effect [OF assms(1)]) (use assms(2) in \<open>auto simp: token_spent_def\<close>)

lemma refresh_as_calls:
  assumes "refresh cf en tok w = (Inr a, t)" "verify_token (env_parse en) tok RefreshToken = Some c"
  shows "\<exists>row. rt_id row = env_jti en 1 \<and> rt_id row \<noteq> cl_id c \<and>
    w_mem t = run_calls [TokenCall (RevokeRefreshTokenIfActive (cl_id c)), TokenCall (CreateRefreshToken row)] (w_mem w)"
proof (rule refresh_path [OF assms(1)])
  fix c' r u w1 w2 w3 k
  assume c: "verify_token (env_parse en) tok RefreshToken = Some c'"
    and r: "on_read (get_refresh_token (cl_id c')) w = (Inr r, w1)"
    and u: "on_read (get_user_by_id (cl_subject c')) w1 = (Inr u, w2)"
    and v: "on_store (revoke_refresh_token_if_active (cl_id c')) w2 = (Inr True, w3)"
    and i: "issue_session cf en k u w3 = (Inr a, t)"
  have m: "w_mem w2 = w_mem w" using read_ok [OF r] read_ok [OF u] by simp
  have w3: "w_mem w3 = run_token (RevokeRefreshTokenIfActive (cl_id c)) (w_mem w)"
    using store_ok [OF v] m c assms(2) by simp
  have "gget (st_refresh_tokens (w_mem w3)) (cl_id c') \<noteq> None"
    using arg_cong [OF store_ok [OF v], of "\<lambda>x. st_refresh_tokens (snd x)"]
      arg_cong [OF store_ok [OF v], of fst]
    by (auto simp: revoke_refresh_token_if_active_def split: option.splits if_splits) (metis gm.get_put_same)
  then have "env_jti en 1 \<noteq> cl_id c" using issue_ok(2) [OF i] c assms(2) by auto
  moreover have "w_mem t = run_token (CreateRefreshToken (session_row cf en k (user_id u))) (w_mem w3)"
    using issue_ok(2,3) [OF i]
    by (simp add: create_refresh_token_def on_tbl_def tbl_create_def session_row_def)
  ultimately show ?thesis using w3
    by (intro exI [of _ "session_row cf en k (user_id u)"]) (simp add: session_row_def)
qed

lemma refresh_wf: "refresh cf en tok w = (Inr a, t) \<Longrightarrow> mem_wf (w_mem w) \<Longrightarrow> mem_wf (w_mem t)"
  by (rule refresh_path, assumption) (use refresh_as_calls in \<open>fastforce intro: mem_wf_run_call simp del: run_call.simps\<close>)

lemma spent_refuses:
  assumes "verify_token (env_parse en) tok RefreshToken = Some c" "token_spent (cl_id c) (w_mem u)"
  shows "refresh cf en tok u \<noteq> (Inr b, v)"
proof
  assume "refresh cf en tok u = (Inr b, v)"
  then show False by (rule refresh_effect) (use assms in \<open>auto simp: token_spent_def\<close>)
qed

section \<open>Registration\<close>

text \<open>The four tables a registration writes.\<close>

definition registered :: "env \<Rightarrow> user \<Rightarrow> organization \<Rightarrow> mem \<Rightarrow> mem" where
  "registered en u g s =
     s\<lparr>st_users := gput (user_id u) u (st_users s),
       st_users_by_email := gput (to_lower (user_email u)) (user_id u) (st_users_by_email s),
       st_organizations := gput (org_id g) g (st_organizations s),
       st_memberships := gput (membership_key (org_id g) (user_id u))
         \<lparr>mem_org_id = org_id g, mem_user_id = user_id u, mem_role = RoleOwner\<rparr> (st_memberships s),
       st_projects := gput (env_id en 2)
         \<lparr>proj_id = env_id en 2, proj_org_id = org_id g, proj_name = ''Default'', proj_slug = ''default'',
          proj_is_default = True, proj_created_at = env_now en 2\<rparr> (st_projects s)\<rparr>"

lemma on_tbl_create_ok:
  "on_tbl f (tbl_create key x tb) s = (Inr (), t) \<Longrightarrow> t = f (gput (key x) x tb) s"
  by (auto simp: on_tbl_def tbl_create_def split: option.splits)

lemma create_user_ok:
  "create_user u s = (Inr (), t) \<Longrightarrow>
     t = s\<lparr>st_users := gput (user_id u) u (st_users s),
           st_users_by_email := gput (to_lower (user_email u)) (user_id u) (st_users_by_email s)\<rparr>"
  by (auto simp: create_user_def Let_def split: if_splits)

lemma default_project_ok:
  assumes "create_default_project_tx en i k org_i w = (Inr p, t)"
  shows "p = \<lparr>proj_id = env_id en i, proj_org_id = org_i, proj_name = ''Default'', proj_slug = ''default'',
               proj_is_default = True, proj_created_at = env_now en k\<rparr>"
    and "w_mem t = (w_mem w)\<lparr>st_projects := gput (env_id en i) p (st_projects (w_mem w))\<rparr>"
proof -
  let ?p = "\<lparr>proj_id = env_id en i, proj_org_id = org_i, proj_name = ''Default'', proj_slug = ''default'',
               proj_is_default = True, proj_created_at = env_now en k\<rparr>"
  have "on_store (create_project ?p) w = (Inr (), t)" "p = ?p"
    using assms by (auto simp: create_default_project_tx_def okE_def Let_def elim!: bindE_InrE dest!: lift_s_ok)
  then show "p = ?p" "w_mem t = (w_mem w)\<lparr>st_projects := gput (env_id en i) p (st_projects (w_mem w))\<rparr>"
    using store_ok [of "create_project ?p" w "()" t] by (auto simp: create_project_def dest: on_tbl_create_ok)
qed

lemma signup_tx_ok:
  assumes "signup_tx en u g w = (Inr p, t)"
  shows "w_mem t = registered en u g (w_mem w)"
proof -
  let ?m = "\<lparr>mem_org_id = org_id g, mem_user_id = user_id u, mem_role = RoleOwner\<rparr>"
  obtain w1 w2 w3 where 1: "on_store (create_user u) w = (Inr (), w1)"
    and 2: "on_store (create_organization g) w1 = (Inr (), w2)"
    and 3: "on_store (add_membership ?m) w2 = (Inr (), w3)"
    and 4: "create_default_project_tx en 2 2 (org_id g) w3 = (Inr p, t)"
    using assms unfolding signup_tx_def
    by (auto simp: failE_def okE_def elim!: bindE_InrE tryE_E dest!: lift_s_ok)
  have m1: "w_mem w1 = (w_mem w)\<lparr>st_users := gput (user_id u) u (st_users (w_mem w)),
      st_users_by_email := gput (to_lower (user_email u)) (user_id u) (st_users_by_email (w_mem w))\<rparr>"
    by (rule create_user_ok [OF store_ok [OF 1]])
  have m2: "w_mem w2 = (w_mem w1)\<lparr>st_organizations := gput (org_id g) g (st_organizations (w_mem w1))\<rparr>"
    using store_ok [OF 2] by (auto simp: create_organization_def dest: on_tbl_create_ok)
  have m3: "w_mem w3 = (w_mem w2)\<lparr>st_memberships := gput (membership_key (org_id g) (user_id u)) ?m (st_memberships (w_mem w2))\<rparr>"
    using store_ok [OF 3] by (auto simp: add_membership_def mkey_def dest: on_tbl_create_ok)
  show ?thesis using default_project_ok [OF 4] m1 m2 m3 by (simp add: registered_def)
qed

text \<open>On the healthy store, with fresh ids, the body cannot fail.\<close>

lemma signup_tx_runs:
  assumes "healthy w" "gget (st_users_by_email (w_mem w)) (to_lower (user_email u)) = None"
    "gget (st_users (w_mem w)) (user_id u) = None" "gget (st_organizations (w_mem w)) (org_id g) = None"
    "gget (st_memberships (w_mem w)) (membership_key (org_id g) (user_id u)) = None"
    "gget (st_projects (w_mem w)) (env_id en 2) = None"
  shows "\<exists>p v. signup_tx en u g w = (Inr p, v)"
  using assms
  by (simp add: signup_tx_def bindE_def tryE_def lift_s_def okE_def healthy_call create_user_def Let_def
      create_organization_def add_membership_def create_default_project_tx_def create_project_def
      on_tbl_def tbl_create_def mkey_def)

text \<open>What follows the transaction writes no account table.\<close>

definition same_accounts :: "mem \<Rightarrow> mem \<Rightarrow> bool" where
  "same_accounts s t \<longleftrightarrow> st_users t = st_users s \<and> st_users_by_email t = st_users_by_email s \<and>
     st_organizations t = st_organizations s \<and> st_memberships t = st_memberships s \<and> st_projects t = st_projects s"

lemma issue_same_accounts:
  assumes "issue_session cf en k u w = (r, t)"
  shows "same_accounts (w_mem w) (w_mem t)"
proof -
  have "same_accounts (w_mem w) (w_mem (snd (on_store (create_refresh_token row) w)))" for row
    using follows_effect [OF follows_on_store, of "create_refresh_token row" w]
    by (auto simp: same_accounts_def create_refresh_token_def on_tbl_def split: sum.splits)
  then show ?thesis using assms
    by (auto simp: issue_session_def issue_token_def issue_with_id_def failE_def okE_def Let_def same_accounts_def
        lift_s_def split: option.splits elim!: bindE_E tryE_E) (metis snd_conv)+
qed

lemma signup_cases:
  assumes "signup cf en email0 name0 password w = (r, t)"
  obtains (refused) e where "r = Inl e" "t = w"
  | (checked) name where "email_ok (normalize_email email0)" "8 \<le> length password" "length password \<le> 72"
      "signup_checked cf en (normalize_email email0) name password w = (r, t)"
  using assms by (auto simp: signup_def Let_def failE_def not_less split: if_split_asm)

lemma signup_checked_path:
  assumes "signup_checked cf en email name password w = (r, t)"
  obtains (refused) e where "r = Inl e" "w_mem t = w_mem w"
  | (tx) h w1 q w2 where "get_user_by_email email (w_mem w) = Inl ErrNotFound"
      "env_hash_password en password = Some h" "w_mem w1 = w_mem w" "healthy w \<Longrightarrow> w1 = w"
      "in_tx (cf_tx cf) (signup_tx en (signup_user cf en email name h) (signup_org en name)) w1 = (q, w2)"
      "case q of Inl e \<Rightarrow> r = Inl e \<and> t = w2
       | Inr p \<Rightarrow> \<exists>w3. w_mem w3 = w_mem w2 \<and> issue_session cf en 3 (signup_user cf en email name h) w3 = (r, t)"
proof -
  obtain x w1 where x: "on_read (get_user_by_email email) w = (x, w1)" by (metis surj_pair)
  show ?thesis
  proof (cases x)
    case (Inr u)
    then show ?thesis using assms x read_ok [OF x [unfolded Inr]]
      by (intro refused [of IEmailTaken]) (auto simp: signup_checked_def tryE_def failE_def)
  next
    case (Inl d)
    note rd = read_error [OF x [unfolded Inl]]
    show ?thesis
    proof (cases "d = ErrNotFound \<and> env_hash_password en password \<noteq> None")
      case False
      then have "\<exists>e. r = Inl e \<and> t = w1" using assms x Inl
        by (auto simp: signup_checked_def tryE_def failE_def split: if_splits option.splits)
      then show ?thesis using rd refused by blast
    next
      case True
      then obtain h where h: "env_hash_password en password = Some h" by auto
      let ?u = "signup_user cf en email name h" and ?g = "signup_org en name"
      obtain q w2 where q: "in_tx (cf_tx cf) (signup_tx en ?u ?g) w1 = (q, w2)" by (metis surj_pair)
      have nf: "get_user_by_email email (w_mem w) = Inl ErrNotFound" using rd True by (auto simp: driver_error_def)
      have rest: "case q of Inl e \<Rightarrow> r = Inl e \<and> t = w2
        | Inr p \<Rightarrow> \<exists>w3. w_mem w3 = w_mem w2 \<and> issue_session cf en 3 ?u w3 = (r, t)"
      proof (cases q)
        case (Inl e)
        then show ?thesis using assms x \<open>x = Inl d\<close> True h q
          by (simp add: signup_checked_def tryE_def bindE_def Let_def)
      next
        case (Inr p)
        have "issue_session cf en 3 ?u (snd (send_best_effort (MailWelcome (user_email ?u) (user_name ?u))
            (snd (provision_org_wildcard (org_slug ?g) [proj_slug p] w2)))) = (r, t)"
          using assms x \<open>x = Inl d\<close> True h q Inr
          by (simp add: signup_checked_def tryE_def bindE_def Let_def provision_org_wildcard_def send_best_effort_def)
        moreover have "w_mem (snd (send_best_effort m (snd (provision_org_wildcard sl ps w2)))) = w_mem w2" for m sl ps
          by (simp add: provision_org_wildcard_def send_best_effort_def)
        ultimately show ?thesis using Inr by auto
      qed
      have "healthy w \<Longrightarrow> w1 = w" using x by (simp add: healthy_read)
      with tx [OF nf h _ _ q rest] rd show ?thesis by blast
    qed
  qed
qed

lemma signup_effect:
  assumes "signup cf en email0 name0 password w = (r, t)"
    and "cf_tx cf = TxRollback \<or> (healthy w \<and> gget (st_users (w_mem w)) (env_id en 0) = None \<and>
      gget (st_organizations (w_mem w)) (env_id en 1) = None \<and> gget (st_projects (w_mem w)) (env_id en 2) = None \<and>
      gget (st_memberships (w_mem w)) (membership_key (env_id en 1) (env_id en 0)) = None)"
  shows "(same_accounts (w_mem w) (w_mem t) \<and> (\<exists>e. r = Inl e)) \<or>
    (\<exists>name h. env_hash_password en password = Some h \<and>
       get_user_by_email (normalize_email email0) (w_mem w) = Inl ErrNotFound \<and>
       same_accounts (registered en (signup_user cf en (normalize_email email0) name h) (signup_org en name) (w_mem w)) (w_mem t) \<and>
       (\<forall>a. r = Inr a \<longrightarrow> ar_user a = signup_user cf en (normalize_email email0) name h \<and>
          gget (st_refresh_tokens (w_mem t)) (env_jti en 1) = Some (session_row cf en 3 (env_id en 0))))"
proof (rule signup_cases [OF assms(1)])
  fix e assume "r = Inl e" "t = w"
  then show ?thesis by (simp add: same_accounts_def)
next
  fix name
  assume "signup_checked cf en (normalize_email email0) name password w = (r, t)"
  then show ?thesis
  proof (cases rule: signup_checked_path)
    case (refused e)
    then show ?thesis by (simp add: same_accounts_def)
  next
    case (tx h w1 q w2)
    let ?u = "signup_user cf en (normalize_email email0) name h" and ?g = "signup_org en name"
    have ids: "user_id ?u = env_id en 0" "org_id ?g = env_id en 1" "to_lower (user_email ?u) = normalize_email email0"
      by (simp_all add: signup_user_def signup_org_def)
    have run: "cf_tx cf = TxRollback \<or> (\<exists>p v. signup_tx en ?u ?g w1 = (Inr p, v))"
    proof (cases "cf_tx cf = TxRollback")
      case False
      have "gget (st_users_by_email (w_mem w)) (normalize_email email0) = None"
        using tx(1) by (simp add: get_user_by_email_def split: option.splits)
      with False assms(2) tx(4) signup_tx_runs [of w1 ?u ?g en] show ?thesis unfolding ids by auto
    qed simp
    have "(w_mem w2 = registered en ?u ?g (w_mem w1) \<and> ((\<exists>x. q = Inr x) \<or> q = Inl (IStore unavailable))) \<or>
        (w_mem w2 = w_mem w1 \<and> (\<exists>e. q = Inl e))"
      by (rule in_tx_atomic [OF tx(5)]) (erule signup_tx_ok, rule run)
    then consider (stored) "w_mem w2 = registered en ?u ?g (w_mem w)"
      | (undone) e where "w_mem w2 = w_mem w" "q = Inl e"
      using tx(3) by auto
    then show ?thesis
    proof cases
      case undone
      then show ?thesis using tx(6) by (simp add: same_accounts_def)
    next
      case stored
      have same: "same_accounts (registered en ?u ?g (w_mem w)) (w_mem t)"
      proof (cases q)
        case (Inl e)
        then show ?thesis using tx(6) stored by (simp add: same_accounts_def)
      next
        case (Inr p)
        then show ?thesis using tx(6) stored issue_same_accounts by fastforce
      qed
      have "ar_user a = ?u \<and> gget (st_refresh_tokens (w_mem t)) (env_jti en 1) = Some (session_row cf en 3 (env_id en 0))"
        if r: "r = Inr a" for a
      proof -
        obtain w3 where "issue_session cf en 3 ?u w3 = (Inr a, t)" using tx(6) r by (auto split: sum.splits)
        from issue_ok(1,3) [OF this] show ?thesis by (simp add: ids)
      qed
      with same tx(1,2) show ?thesis by blast
    qed
  qed
qed

end
