(* ===== verification/Identity_Passwords.thy ===== *)
theory Identity_Passwords
  imports Identity_Sessions
begin

text \<open>
  What the account operations of the identity service guarantee: a registration and a password
  reset change everything they should or nothing, a refresh token is honoured once and its reuse
  ends the user's sessions, a request for a reset link says nothing about who has an account.
\<close>

section \<open>Resetting a password\<close>

definition reset_effect :: "string \<Rightarrow> time \<Rightarrow> user \<Rightarrow> mem \<Rightarrow> mem" where
  "reset_effect i now u s =
     (if fst (consume_password_reset_token i now s) = Inr True
      then snd (revoke_all_user_refresh_tokens (user_id u)
             (snd (update_user u (snd (consume_password_reset_token i now s)))))
      else s)"

lemma consume_refused: "fst (consume_password_reset_token i now s) \<noteq> Inr True \<Longrightarrow> snd (consume_password_reset_token i now s) = s"
proof (cases "gget (st_reset_tokens s) i")
  case (Some t)
  then show "fst (consume_password_reset_token i now s) \<noteq> Inr True \<Longrightarrow> ?thesis"
    by (cases "is_zero (prt_used_at t)") (simp_all add: consume_password_reset_token_def)
qed (simp add: consume_password_reset_token_def)

lemma update_user_id: "update_user u s = (Inr v, t) \<Longrightarrow> user_id v = user_id u"
  by (cases "gget (st_users s) (user_id u)") (simp_all add: update_user_def Let_def, metis user.select_convs(1) user.surjective user.update_convs(2))

lemma reset_tx_ok:
  assumes "reset_password_tx i now u w = (Inr b, t)"
  shows "w_mem t = reset_effect i now u (w_mem w)"
    and "b = (fst (consume_password_reset_token i now (w_mem w)) = Inr True)"
proof -
  obtain c w1 where c: "on_store (consume_password_reset_token i now) w = (Inr c, w1)"
    and k: "(if \<not> c then okE False
       else bindE (lift_s (on_store (update_user u))) (\<lambda>v.
            bindE (lift_s (on_store (revoke_all_user_refresh_tokens (user_id v)))) (\<lambda>_. okE True))) w1 = (Inr b, t)"
    using assms unfolding reset_password_tx_def by (elim bindE_InrE) (auto dest!: lift_s_ok)
  have c1: "consume_password_reset_token i now (w_mem w) = (Inr c, w_mem w1)" by (rule store_ok [OF c])
  have "w_mem t = reset_effect i now u (w_mem w) \<and> b = c"
  proof (cases c)
    case False
    then show ?thesis using k c1 consume_refused [of i now "w_mem w"] by (auto simp: okE_def reset_effect_def)
  next
    case True
    then have "bindE (lift_s (on_store (update_user u))) (\<lambda>v.
        bindE (lift_s (on_store (revoke_all_user_refresh_tokens (user_id v)))) (\<lambda>_. okE True)) w1 = (Inr b, t)"
      using k by simp
    then obtain v w2 where v: "on_store (update_user u) w1 = (Inr v, w2)"
      and r: "bindE (lift_s (on_store (revoke_all_user_refresh_tokens (user_id v)))) (\<lambda>_. okE True) w2 = (Inr b, t)"
      by (rule bindE_InrE) (blast dest: lift_s_ok)
    from r obtain x where x: "on_store (revoke_all_user_refresh_tokens (user_id v)) w2 = (Inr x, t)" and b: "b = True"
      by (elim bindE_InrE) (auto simp: okE_def dest!: lift_s_ok)
    show ?thesis using c1 store_ok [OF v] store_ok [OF x] update_user_id [OF store_ok [OF v]] True b
      by (simp add: reset_effect_def)
  qed
  then show "w_mem t = reset_effect i now u (w_mem w)"
    and "b = (fst (consume_password_reset_token i now (w_mem w)) = Inr True)"
    using c1 by auto
qed

lemma reset_tx_runs:
  assumes "healthy w" "gget (st_reset_tokens (w_mem w)) i \<noteq> None" "gget (st_users (w_mem w)) (user_id u) \<noteq> None"
  shows "\<exists>b v. reset_password_tx i now u w = (Inr b, v)"
  using assms
  by (auto simp: reset_password_tx_def bindE_def tryE_def lift_s_def okE_def healthy_call
      consume_password_reset_token_def update_user_def revoke_all_user_refresh_tokens_def Let_def)

lemma in_tx_value:
  assumes "in_tx mode f w = (Inr x, t)" and "\<And>x u v. f u = (Inr x, v) \<Longrightarrow> x = h (w_mem u)"
  shows "x = h (w_mem w)"
proof (cases mode)
  case TxMemory
  then show ?thesis using assms by auto
next
  case TxRollback
  then have d: "database_tx f w = (Inr x, t)" using assms(1) by (simp add: in_tx_def)
  then show ?thesis by (cases rule: database_tx_cases) (auto dest: assms(2))
qed

text \<open>The effect on a stored, unused token of a stored user, written out.\<close>

definition password_reset :: "password_reset_token \<Rightarrow> time \<Rightarrow> user \<Rightarrow> string \<Rightarrow> mem \<Rightarrow> mem" where
  "password_reset rec now u h s =
     s\<lparr>st_reset_tokens := gput (prt_id rec) (rec\<lparr>prt_used_at := now\<rparr>) (st_reset_tokens s),
       st_users := gput (user_id u) (u\<lparr>user_password_hash := h\<rparr>) (st_users s),
       st_refresh_tokens := gmap (\<lambda>r. if rt_user_id r = user_id u \<and> \<not> rt_revoked r then r\<lparr>rt_revoked := True\<rparr> else r)
         (st_refresh_tokens s)\<rparr>"

lemma reset_effect_stored:
  assumes "gget (st_reset_tokens s) (prt_id rec) = Some rec" "is_zero (prt_used_at rec)"
    "gget (st_users s) (user_id u) = Some u"
  shows "reset_effect (prt_id rec) now (u\<lparr>user_password_hash := h\<rparr>) s = password_reset rec now u h s"
  using assms by (simp add: reset_effect_def password_reset_def consume_password_reset_token_def update_user_def
      revoke_all_user_refresh_tokens_def Let_def)

lemma reset_lookup_row:
  assumes "tokens_wf s" "get_password_reset_token_by_hash h s = Inr rec"
  shows "gget (st_reset_tokens s) (prt_id rec) = Some rec" and "prt_token_hash rec = h"
proof -
  have "rec \<in> set (gvals (st_reset_tokens s))" "prt_token_hash rec = h"
    using assms(2) by (auto simp: get_password_reset_token_by_hash_def find_Some_iff split: option.splits)
  then show "gget (st_reset_tokens s) (prt_id rec) = Some rec" "prt_token_hash rec = h"
    using assms(1) by (auto simp: tokens_wf_def keyed_vals)
qed

text \<open>The token, the account and the hash a reset works with, when it gets as far as writing.\<close>

definition reset_ready :: "env \<Rightarrow> string \<Rightarrow> string \<Rightarrow> password_reset_token \<Rightarrow> user \<Rightarrow> string \<Rightarrow> mem \<Rightarrow> bool" where
  "reset_ready en tok pw rec u h s \<longleftrightarrow>
     8 \<le> length pw \<and> length pw \<le> 72 \<and> env_hash_password en pw = Some h \<and>
     get_password_reset_token_by_hash (env_hash_token en tok) s = Inr rec \<and>
     is_zero (prt_used_at rec) \<and> env_now en 0 < prt_expires_at rec \<and>
     gget (st_users s) (prt_user_id rec) = Some u"

lemma reset_path:
  assumes "reset_password cf en tok pw w = (r, t)"
  obtains (refused) e where "r = Inl e" "w_mem t = w_mem w"
  | (tx) rec u h w1 q w2 where "reset_ready en tok pw rec u h (w_mem w)" "w_mem w1 = w_mem w" "healthy w \<Longrightarrow> w1 = w"
      "in_tx (cf_tx cf) (reset_password_tx (prt_id rec) (env_now en 1) (u\<lparr>user_password_hash := h\<rparr>)) w1 = (q, w2)"
      "t = w2" "r = (case q of Inl e \<Rightarrow> Inl e | Inr b \<Rightarrow> if b then Inr () else Inl IInvalidCredentials)"
proof -
  obtain x w1 where x: "on_read (get_password_reset_token_by_hash (env_hash_token en tok)) w = (x, w1)" by (metis surj_pair)
  consider (short) "\<exists>e. r = Inl e \<and> t = w"
    | (long) "8 \<le> length pw" "length pw \<le> 72"
    using assms by (auto simp: reset_password_def failE_def not_less split: if_split_asm)
  then show ?thesis
  proof cases
    case short
    then show ?thesis using refused by blast
  next
    case long
    show ?thesis
    proof (cases x)
      case (Inl e)
      then show ?thesis using assms long x read_error [OF x [unfolded Inl]] refused
        by (auto simp: reset_password_def tryE_def failE_def split: if_split_asm)
    next
      case (Inr rec)
      note g = read_ok [OF x [unfolded Inr]]
      obtain y w2 where y: "on_read (get_user_by_id (prt_user_id rec)) w1 = (y, w2)" by (metis surj_pair)
      show ?thesis
      proof (cases "is_zero (prt_used_at rec) \<and> env_now en 0 < prt_expires_at rec")
        case False
        then show ?thesis using assms long x Inr g refused
          by (auto simp: reset_password_def tryE_def failE_def split: if_split_asm)
      next
        case live: True
        show ?thesis
        proof (cases y)
          case (Inl e)
          then show ?thesis using assms long x \<open>x = Inr rec\<close> live y g read_error [OF y [unfolded Inl]] refused
            by (auto simp: reset_password_def tryE_def failE_def)
        next
          case u: (Inr u)
          note gu = read_ok [OF y [unfolded u]]
          show ?thesis
          proof (cases "env_hash_password en pw")
            case None
            then show ?thesis using assms long x Inr live y u g gu refused
              by (auto simp: reset_password_def tryE_def failE_def)
          next
            case (Some h)
            obtain q w3 where q: "in_tx (cf_tx cf) (reset_password_tx (prt_id rec) (env_now en 1) (u\<lparr>user_password_hash := h\<rparr>)) w2 = (q, w3)"
              by (metis surj_pair)
            show ?thesis
            proof (rule tx [OF _ _ _ q])
              show "reset_ready en tok pw rec u h (w_mem w)"
                using long live Some g gu by (simp add: reset_ready_def get_user_by_id_def)
              show "healthy w \<Longrightarrow> w2 = w" using x y Inr by (simp add: healthy_read)
              show "w_mem w2 = w_mem w" using g gu by simp
              show "t = w3" "r = (case q of Inl e \<Rightarrow> Inl e | Inr b \<Rightarrow> if b then Inr () else Inl IInvalidCredentials)"
                using assms long x Inr live y u Some q
                by (auto simp: reset_password_def tryE_def bindE_def failE_def okE_def split: sum.splits if_split_asm)
            qed
          qed
        qed
      qed
    qed
  qed
qed

lemma reset_password_effect:
  assumes "mem_wf (w_mem w)" "cf_tx cf = TxRollback \<or> healthy w" "reset_password cf en tok pw w = (r, t)"
  shows "(w_mem t = w_mem w \<and> (\<exists>e. r = Inl e)) \<or>
    (\<exists>rec u h. reset_ready en tok pw rec u h (w_mem w) \<and> gget (st_reset_tokens (w_mem w)) (prt_id rec) = Some rec \<and>
       w_mem t = password_reset rec (env_now en 1) u h (w_mem w) \<and> (r = Inr () \<or> r = Inl (IStore unavailable)))"
  using assms(3)
proof (cases rule: reset_path)
  case (tx rec u h w1 q w2)
  let ?f = "reset_password_tx (prt_id rec) (env_now en 1) (u\<lparr>user_password_hash := h\<rparr>)"
  let ?g = "reset_effect (prt_id rec) (env_now en 1) (u\<lparr>user_password_hash := h\<rparr>)"
  have row: "gget (st_reset_tokens (w_mem w)) (prt_id rec) = Some rec"
    by (rule reset_lookup_row(1)) (use assms(1) tx(1) in \<open>auto simp: mem_wf_def reset_ready_def\<close>)
  have u: "gget (st_users (w_mem w)) (user_id u) = Some u"
    using assms(1) tx(1) keyed_key [of user_id "st_users (w_mem w)" "prt_user_id rec" u]
    by (simp add: mem_wf_def tenancy_wf_def user_index_ok_def index_ok_def reset_ready_def)
  have eff: "?g (w_mem w) = password_reset rec (env_now en 1) u h (w_mem w)"
    by (rule reset_effect_stored [OF row _ u]) (use tx(1) in \<open>simp add: reset_ready_def\<close>)
  have win: "fst (consume_password_reset_token (prt_id rec) (env_now en 1) (w_mem w)) = Inr True"
    using row tx(1) by (simp add: consume_password_reset_token_def reset_ready_def)
  have run: "cf_tx cf = TxRollback \<or> (\<exists>b v. ?f w1 = (Inr b, v))"
    using assms(2) tx(3) row u by (auto intro!: reset_tx_runs)
  have "(w_mem w2 = ?g (w_mem w1) \<and> ((\<exists>x. q = Inr x) \<or> q = Inl (IStore unavailable))) \<or>
      (w_mem w2 = w_mem w1 \<and> (\<exists>e. q = Inl e))"
    by (rule in_tx_atomic [OF tx(4)]) (erule reset_tx_ok(1), rule run)
  moreover have "b" if "q = Inr b" for b
    proof -
    have "b = (fst (consume_password_reset_token (prt_id rec) (env_now en 1) (w_mem w1)) = Inr True)"
      by (rule in_tx_value [OF tx(4) [unfolded that]]) (rule reset_tx_ok(2))
    then show ?thesis using win tx(2) by simp
  qed
  ultimately consider (kept) e where "w_mem w2 = w_mem w" "q = Inl e"
    | (stored) "w_mem w2 = password_reset rec (env_now en 1) u h (w_mem w)" "q = Inr True \<or> q = Inl (IStore unavailable)"
    using tx(2) eff by auto
  then show ?thesis
  proof cases
    case kept
    then show ?thesis using tx(5,6) by simp
  next
    case stored
    then have "r = Inr () \<or> r = Inl (IStore unavailable)" using tx(6) by auto
    with stored(1) tx(1,5) row show ?thesis by blast
  qed
qed simp

section \<open>Asking for a reset link\<close>

lemma forgot_tx_ok:
  assumes "forgot_password_tx uid now rec w = (Inr x, t)"
  shows "w_mem t = (w_mem w)\<lparr>st_reset_tokens := gput (prt_id rec) rec
     (gmap (\<lambda>t. if prt_user_id t = uid \<and> is_zero (prt_used_at t) then t\<lparr>prt_used_at := now\<rparr> else t) (st_reset_tokens (w_mem w)))\<rparr>"
proof -
  obtain y w1 where i: "on_store (invalidate_user_password_reset_tokens uid now) w = (Inr y, w1)"
    and k: "lift_s (on_store (create_password_reset_token rec)) w1 = (Inr x, t)"
    using assms unfolding forgot_password_tx_def by (elim bindE_InrE) (blast dest: lift_s_ok)
  have "create_password_reset_token rec (w_mem w1) = (Inr x, w_mem t)" by (rule store_ok [OF lift_s_ok [OF k]])
  then have "w_mem t = (w_mem w1)\<lparr>st_reset_tokens := gput (prt_id rec) rec (st_reset_tokens (w_mem w1))\<rparr>"
    by (simp add: create_password_reset_token_def split: if_split_asm)
  moreover have "w_mem w1 = (w_mem w)\<lparr>st_reset_tokens :=
      gmap (\<lambda>t. if prt_user_id t = uid \<and> is_zero (prt_used_at t) then t\<lparr>prt_used_at := now\<rparr> else t) (st_reset_tokens (w_mem w))\<rparr>"
    using store_ok [OF i] by (simp add: invalidate_user_password_reset_tokens_def)
  ultimately show ?thesis by simp
qed

definition reset_row :: "conf \<Rightarrow> env \<Rightarrow> user \<Rightarrow> password_reset_token" where
  "reset_row cf en u =
     \<lparr>prt_id = env_id en 0, prt_user_id = user_id u, prt_token_hash = env_hash_token en (env_token en),
      prt_expires_at = env_now en 0 + cf_password_reset_ttl cf, prt_used_at = zero_time, prt_created_at = env_now en 0\<rparr>"

text \<open>Store calls and transactions of them send no mail.\<close>

lemma quiet_store: "keeps (\<lambda>w. w_mail w = ms) (on_store m)"
  by (auto simp: keeps_def on_store_def Let_def split: prod.splits)

lemma quiet_lift: "keeps P m \<Longrightarrow> keeps P (lift_s m)"
  unfolding lift_s_def by (rule keeps_try) simp_all

lemma quiet_commit: "w_mail (snd (commit_tx s x w)) = w_mail w"
  by (simp add: commit_tx_def Let_def split: list.splits fault.splits)

lemma quiet_tx:
  assumes "keeps (\<lambda>w. w_mail w = ms) f"
  shows "keeps (\<lambda>w. w_mail w = ms) (in_tx mode f)"
proof (cases mode)
  case TxRollback
  have "w_mail (snd (database_tx f w)) = ms" if "w_mail w = ms" for w
  proof -
    obtain q s where q: "on_read (\<lambda>_. Inr ()) w = (q, s)" by (metis surj_pair)
    then have s: "w_mail s = ms" using keepsD [OF quiet_store that] unfolding on_read_def by (metis snd_conv)
    obtain p u where p: "f (s\<lparr>w_tx := Some False\<rparr>) = (p, u)" by (metis surj_pair)
    then have "w_mail u = ms" using keepsD [OF assms, of "s\<lparr>w_tx := Some False\<rparr>"] s by simp
    then show ?thesis using q s p by (auto simp: database_tx_def quiet_commit split: sum.splits)
  qed
  then show ?thesis by (simp add: TxRollback in_tx_def keeps_def)
qed (simp add: assms)

lemma forgot_path:
  assumes "forgot_password cf en email w = (r, t)"
  obtains (quiet) "w_mail t = w_mail w" "healthy w \<Longrightarrow> r = Inr ()"
  | (sent) u where "r = Inr ()" "get_user_by_email (normalize_email email) (w_mem w) = Inr u"
      "w_mail t = w_mail w @ [MailPasswordReset (user_email u) (user_name u) (reset_url cf en (env_token en))]"
      "w_mem t = (w_mem w)\<lparr>st_reset_tokens := gput (env_id en 0) (reset_row cf en u)
        (gmap (\<lambda>t. if prt_user_id t = user_id u \<and> is_zero (prt_used_at t) then t\<lparr>prt_used_at := env_now en 0\<rparr> else t)
          (st_reset_tokens (w_mem w)))\<rparr>"
proof (cases "email_ok (normalize_email email)")
  case False
  then show ?thesis using assms quiet by (auto simp: forgot_password_def okE_def)
next
  case ok: True
  obtain x w1 where x: "on_read (get_user_by_email (normalize_email email)) w = (x, w1)" by (metis surj_pair)
  have m1: "w_mail w1 = w_mail w" using keepsD [OF quiet_store] x unfolding on_read_def by (metis (full_types) snd_conv)
  show ?thesis
  proof (cases x)
    case (Inl e)
    have "healthy w \<Longrightarrow> e = ErrNotFound"
      using x Inl by (simp add: healthy_read get_user_by_email_def split: option.splits)
    then show ?thesis using assms ok x Inl m1
      by (intro quiet) (auto simp: forgot_password_def tryE_def okE_def failE_def split: if_split_asm)
  next
    case (Inr u)
    let ?f = "forgot_password_tx (user_id u) (env_now en 0) (reset_row cf en u)"
    obtain q w2 where q: "in_tx (cf_tx cf) ?f w1 = (q, w2)" by (metis surj_pair)
    have "keeps (\<lambda>w. w_mail w = ms) ?f" for ms
      unfolding forgot_password_tx_def by (intro keeps_bind quiet_lift quiet_store)
    then have m2: "w_mail w2 = w_mail w" using keepsD [OF quiet_tx] q m1 by (metis (full_types) snd_conv)
    show ?thesis
    proof (cases q)
      case (Inl e)
      then show ?thesis using assms ok x Inr q m2
        by (intro quiet) (auto simp: forgot_password_def tryE_def okE_def Let_def reset_row_def)
    next
      case y: (Inr y)
      have "w_mem w2 = (\<lambda>s. s\<lparr>st_reset_tokens := gput (prt_id (reset_row cf en u)) (reset_row cf en u)
          (gmap (\<lambda>t. if prt_user_id t = user_id u \<and> is_zero (prt_used_at t) then t\<lparr>prt_used_at := env_now en 0\<rparr> else t)
            (st_reset_tokens s))\<rparr>) (w_mem w1)"
        by (rule in_tx_ok [OF q [unfolded y]]) (erule forgot_tx_ok)
      then show ?thesis using assms ok x Inr q y m2 read_ok [OF x [unfolded Inr]]
        by (intro sent [of u]) (auto simp: forgot_password_def tryE_def okE_def Let_def reset_row_def send_best_effort_def)
    qed
  qed
qed

section \<open>A sample service\<close>

definition sample_env :: env where
  "sample_env =
     \<lparr>env_now = (\<lambda>k. 3), env_id = (\<lambda>k. ''n'' @ replicate k CHR ''x''), env_token = ''secret'',
      env_hash_password = (\<lambda>p. Some (CHR ''h'' # p)), env_check_password = (\<lambda>h p. h = CHR ''h'' # p),
      env_hash_token = (\<lambda>t. CHR ''t'' # t), env_sign = (\<lambda>c. Some (cl_id c)),
      env_parse = (\<lambda>s. if s = [] then None else
         Some \<lparr>cl_type = RefreshToken, cl_id = s, cl_subject = ''u1'', cl_issued_at = 0, cl_expires_at = 9\<rparr>),
      env_jti = (\<lambda>k. ''j'' @ replicate k CHR ''x''), env_token_now = (\<lambda>k. 3), env_query_escape = (\<lambda>s. s)\<rparr>"

definition sample_conf :: "tx_mode \<Rightarrow> conf" where
  "sample_conf mode =
     \<lparr>cf_tx = mode, cf_admin_emails = [], cf_tokens = \<lparr>tm_access_ttl = 1, tm_refresh_ttl = 2\<rparr>, cf_base_domain = [],
      cf_refresh_ttl = 50, cf_invitation_ttl = 50, cf_password_reset_ttl = 50\<rparr>"

definition calm :: "mem \<Rightarrow> world" where
  "calm s = \<lparr>w_mem = s, w_faults = [], w_tx = None, w_mail = [], w_tls = []\<rparr>"

definition live_refresh :: refresh_token where
  "live_refresh = sample_refresh\<lparr>rt_expires_at := 9\<rparr>"

definition live_reset :: password_reset_token where
  "live_reset = sample_reset\<lparr>prt_token_hash := ''tsecret''\<rparr>"

definition account_store :: mem where
  "account_store = run_calls [TokenCall (CreateRefreshToken live_refresh), TokenCall (CreatePasswordResetToken live_reset)] sample_store"

lemma calm_simps [simp]: "w_mem (calm s) = s" "healthy (calm s)" "w_mail (calm s) = []"
  by (simp_all add: calm_def healthy_def)

lemma account_reachable: "store_reachable account_store"
  unfolding account_store_def by (intro reachable_run_calls sample_reachable)

lemma sample_users: "st_users sample_store = [(''u1'', sample_user)]"
  "st_users_by_email sample_store = [(to_lower ''Ada@example.com'', ''u1'')]"
  "st_memberships sample_store = [(membership_key ''o1'' ''u1'', \<lparr>mem_org_id = ''o1'', mem_user_id = ''u1'', mem_role = RoleOwner\<rparr>)]"
  "st_projects sample_store = []" "st_reset_tokens sample_store = []" "st_project_members sample_store = []"
  "st_invitations sample_store = []"
  by (simp_all add: sample_store_def sample_calls_def new_store_defs create_user_def Let_def
      create_organization_def add_membership_def create_app_def upsert_subscription_def mkey_def
      set_meter_state_def sample_app_def sample_user_def sample_subscription_def sample_org_def)

lemma account_tables:
  "st_users account_store = [(''u1'', sample_user)]"
  "st_users_by_email account_store = [(to_lower ''Ada@example.com'', ''u1'')]"
  "st_refresh_tokens account_store = [(''r1'', live_refresh)]" "st_reset_tokens account_store = [(''p1'', live_reset)]"
  by (simp_all add: account_store_def frame_simps sample_users token_defs on_tbl_def tbl_create_def sample_tables
      live_refresh_def live_reset_def sample_refresh_def sample_reset_def split: option.splits)

lemma sample_email: "to_lower ''Ada@example.com'' = ''ada@example.com''" "normalize_email ''ada@example.com'' = ''ada@example.com''"
  "email_ok ''ada@example.com''"
  by code_simp+

section \<open>Properties\<close>

text \<open>C22: a refresh token is honoured once: after a successful refresh, whatever calls other requests
  make in between (short of creating a token with the same id), presenting it again never
  succeeds, under any store failures.\<close>

theorem refresh_honoured_once:
  assumes "store_reachable (w_mem w)" and "env_parse en tok = Some c"
    and "refresh cf en tok w = (Inr a, t)" and "list_all (\<lambda>d. \<not> recreates (cl_id c) d) cs"
    and "w_mem u = run_calls cs (w_mem t)" and "env_parse en' tok = Some c \<or> env_parse en' tok = None"
  shows "refresh cf' en' tok u \<noteq> (Inr b, v)"
proof (cases "verify_token (env_parse en') tok RefreshToken")
  case None
  then show ?thesis by (simp add: refresh_def failE_def)
next
  case (Some d)
  then have d: "verify_token (env_parse en') tok RefreshToken = Some c" "verify_token (env_parse en) tok RefreshToken = Some c"
    using assms(2,6) by (auto simp: verify_token_def split: if_split_asm)
  have "token_spent (cl_id c) (w_mem u)" unfolding assms(5)
    by (intro token_spent_run_calls refresh_spends [OF assms(3) d(2)] refresh_wf [OF assms(3)] mem_wf_reachable assms(1,4))
  then show ?thesis by (rule spent_refuses [OF d(1)])
qed

lemma sample_refresh_works:
  "\<exists>a t. refresh (sample_conf TxMemory) sample_env ''r1'' (calm account_store) = (Inr a, t)"
  by (simp add: refresh_def sample_env_def sample_conf_def verify_token_def tryE_def healthy_read healthy_call account_tables
      get_refresh_token_def get_user_by_id_def tbl_get_def gget_def live_refresh_def sample_refresh_def is_zero_def zero_time_def
      revoke_refresh_token_if_active_def issue_session_def issue_token_def issue_with_id_def token_claims_def numeric_date_def
      token_ttl_def bindE_def lift_s_def okE_def create_refresh_token_def on_tbl_def tbl_create_def Let_def gput_def sample_user_def)

lemma refresh_honoured_once_witness:
  "\<exists>a t. refresh (sample_conf TxMemory) sample_env ''r1'' (calm account_store) = (Inr a, t) \<and>
     fst (refresh (sample_conf TxMemory) sample_env ''r1'' t) \<noteq> Inr a"
proof -
  obtain a t where r: "refresh (sample_conf TxMemory) sample_env ''r1'' (calm account_store) = (Inr a, t)"
    using sample_refresh_works by blast
  have "refresh (sample_conf TxMemory) sample_env ''r1'' t \<noteq> (Inr a, v)" for v
    by (rule refresh_honoured_once [OF _ _ r, of _ "[]"]) (simp_all add: account_reachable sample_env_def)
  then have "fst (refresh (sample_conf TxMemory) sample_env ''r1'' t) \<noteq> Inr a" by (metis prod.collapse)
  with r show ?thesis by blast
qed

text \<open>presenting a refresh token that was already spent is answered like a wrong one and signs its
  owner out everywhere.\<close>

theorem refresh_reuse_ends_sessions:
  assumes "healthy w" and "verify_token (env_parse en) tok RefreshToken = Some c" and "cl_id c \<noteq> []"
    and "gget (st_refresh_tokens (w_mem w)) (cl_id c) = Some r" and "rt_revoked r"
    and "refresh cf en tok w = (a, t)"
    and "gget (st_refresh_tokens (w_mem t)) i = Some q" and "rt_user_id q = rt_user_id r"
  shows "a = Inl IInvalidCredentials \<and> rt_revoked q"
proof -
  have g: "on_read (get_refresh_token (cl_id c)) w = (Inr r, w)"
    using assms(1,4) by (simp add: healthy_read get_refresh_token_def)
  have "a = Inl IInvalidCredentials \<and> w_mem t = snd (revoke_all_user_refresh_tokens (rt_user_id r) (w_mem w))"
    using assms(1-3,5,6) g
    by (auto simp: refresh_def tryE_def bindE_def best_effort_def failE_def okE_def healthy_call
        revoke_all_user_refresh_tokens_def)
  then show ?thesis using revoke_all_family [OF _ assms(8)] assms(7) by simp
qed

lemma refresh_reuse_ends_sessions_witness:
  "fst (refresh (sample_conf TxMemory) sample_env ''r1''
      (calm (account_store\<lparr>st_refresh_tokens := [(''r1'', live_refresh\<lparr>rt_revoked := True\<rparr>)]\<rparr>))) = Inl IInvalidCredentials"
proof -
  let ?w = "calm (account_store\<lparr>st_refresh_tokens := [(''r1'', live_refresh\<lparr>rt_revoked := True\<rparr>)]\<rparr>)"
  let ?c = "\<lparr>cl_type = RefreshToken, cl_id = ''r1'', cl_subject = ''u1'', cl_issued_at = 0, cl_expires_at = 9\<rparr>"
  obtain a t where r: "refresh (sample_conf TxMemory) sample_env ''r1'' ?w = (a, t)" by (metis surj_pair)
  have "st_refresh_tokens (w_mem t) = [(''r1'', live_refresh\<lparr>rt_revoked := True\<rparr>)]"
    using r by (auto simp: refresh_def sample_env_def verify_token_def tryE_def healthy_read healthy_call bindE_def
        get_refresh_token_def tbl_get_def gget_def best_effort_def okE_def failE_def revoke_all_user_refresh_tokens_def gmap_def)
  then have row: "gget (st_refresh_tokens (w_mem t)) ''r1'' = Some (live_refresh\<lparr>rt_revoked := True\<rparr>)"
    by (simp add: gget_def)
  show ?thesis
    using refresh_reuse_ends_sessions [OF _ _ _ _ _ r row, of ?c "live_refresh\<lparr>rt_revoked := True\<rparr>"] r
    by (simp add: sample_env_def verify_token_def gget_def)
qed

text \<open>C21: a registration is all or nothing: with a database's transactions under any failures, and on
  the healthy memory store with fresh ids, it leaves the account tables as they were and fails,
  or it has stored exactly the account, its organization, the owner membership and the default
  project, for an email nobody had; and success also means the first session is stored.\<close>

theorem signup_all_or_nothing:
  assumes "signup cf en email0 name0 password w = (r, t)"
    and "cf_tx cf = TxRollback \<or> (healthy w \<and> gget (st_users (w_mem w)) (env_id en 0) = None \<and>
      gget (st_organizations (w_mem w)) (env_id en 1) = None \<and> gget (st_projects (w_mem w)) (env_id en 2) = None \<and>
      gget (st_memberships (w_mem w)) (membership_key (env_id en 1) (env_id en 0)) = None)"
  shows "(same_accounts (w_mem w) (w_mem t) \<and> (\<exists>e. r = Inl e)) \<or>
    (\<exists>name h. env_hash_password en password = Some h \<and>
       get_user_by_email (normalize_email email0) (w_mem w) = Inl ErrNotFound \<and>
       same_accounts (registered en (signup_user cf en (normalize_email email0) name h) (signup_org en name) (w_mem w)) (w_mem t) \<and>
       (\<forall>a. r = Inr a \<longrightarrow> ar_user a = signup_user cf en (normalize_email email0) name h \<and>
          gget (st_refresh_tokens (w_mem t)) (env_jti en 1) = Some (session_row cf en 3 (env_id en 0))))"
  using assms by (rule signup_effect)

lemma signup_all_or_nothing_witness:
  "fst (signup (sample_conf TxRollback) sample_env ''ada@example.com'' ''Ada'' ''correct horse''
     (calm account_store)) = Inl IEmailTaken \<and>
   same_accounts account_store (w_mem (snd (signup (sample_conf TxRollback) sample_env ''ada@example.com'' ''Ada''
     ''correct horse'' (calm account_store))))"
proof -
  obtain r t where r: "signup (sample_conf TxRollback) sample_env ''ada@example.com'' ''Ada'' ''correct horse''
      (calm account_store) = (r, t)" by (metis surj_pair)
  have taken: "get_user_by_email ''ada@example.com'' account_store = Inr sample_user"
  proof -
    have "to_lower ''ada@example.com'' = ''ada@example.com''" by code_simp
    then show ?thesis by (simp add: get_user_by_email_def account_tables sample_email gget_def)
  qed
  have "r = Inl IEmailTaken"
    using r taken by (simp add: signup_def sample_email signup_checked_def Let_def healthy_read tryE_def failE_def)
  with signup_all_or_nothing [OF r] taken r show ?thesis
    by (auto simp: sample_email sample_conf_def)
qed

text \<open>resetting a password is all or nothing: with a database's transactions under any failures,
  and on the healthy memory store, either nothing is stored and the caller gets an error, or the
  link was an unused, unexpired one of a stored account and the new password is stored, the link
  is used up and every session of the account is revoked, all together.\<close>

theorem reset_password_atomic:
  assumes "store_reachable (w_mem w)" and "cf_tx cf = TxRollback \<or> healthy w"
    and "reset_password cf en tok pw w = (r, t)"
  shows "(w_mem t = w_mem w \<and> (\<exists>e. r = Inl e)) \<or>
    (\<exists>rec u h. reset_ready en tok pw rec u h (w_mem w) \<and> gget (st_reset_tokens (w_mem w)) (prt_id rec) = Some rec \<and>
       w_mem t = password_reset rec (env_now en 1) u h (w_mem w) \<and> (r = Inr () \<or> r = Inl (IStore unavailable)))"
  by (rule reset_password_effect [OF mem_wf_reachable [OF assms(1)] assms(2,3)])

lemma sample_reset_works:
  "fst (reset_password (sample_conf TxMemory) sample_env ''secret'' ''new password'' (calm account_store)) = Inr ()"
  by (simp add: reset_password_def sample_env_def sample_conf_def tryE_def healthy_read healthy_call account_tables
      get_password_reset_token_by_hash_def gvals_def live_reset_def sample_reset_def is_zero_def get_user_by_id_def tbl_get_def
      gget_def bindE_def lift_s_def okE_def reset_password_tx_def consume_password_reset_token_def update_user_def Let_def
      revoke_all_user_refresh_tokens_def sample_user_def)

lemma reset_password_atomic_witness:
  "fst (reset_password (sample_conf TxMemory) sample_env ''secret'' ''new password'' (calm account_store)) = Inr () \<and>
   gget (st_users (w_mem (snd (reset_password (sample_conf TxMemory) sample_env ''secret'' ''new password''
     (calm account_store))))) ''u1'' = Some (sample_user\<lparr>user_password_hash := ''hnew password''\<rparr>)"
proof -
  obtain t where t: "reset_password (sample_conf TxMemory) sample_env ''secret'' ''new password'' (calm account_store) = (Inr (), t)"
    using sample_reset_works by (metis prod.collapse)
  from reset_password_atomic [OF _ _ t] obtain rec u h where
    "reset_ready sample_env ''secret'' ''new password'' rec u h account_store"
    "w_mem t = password_reset rec (env_now sample_env 1) u h account_store"
    by (auto simp: account_reachable)
  moreover from this have "u = sample_user" "h = ''hnew password''"
    by (auto simp: reset_ready_def sample_env_def get_password_reset_token_by_hash_def account_tables gvals_def
        live_reset_def sample_reset_def gget_def split: if_split_asm)
  ultimately show ?thesis using t
    by (simp add: password_reset_def account_tables gget_def gput_def sample_user_def)
qed

text \<open>asking for a reset link says nothing about who has an account, and only the latest link
  works: while the store answers, the request succeeds whatever the email; and when a link is
  mailed, under any failures, it goes to the stored address of the account, its token is stored,
  and every other token of that account is used up.\<close>

theorem forgot_password_latest_link:
  assumes "forgot_password cf en email w = (r, t)" and "\<not> is_zero (env_now en 0)"
  shows "(healthy w \<longrightarrow> r = Inr ()) \<and>
    (w_mail t \<noteq> w_mail w \<longrightarrow>
      (\<exists>u. get_user_by_email (normalize_email email) (w_mem w) = Inr u \<and>
         w_mail t = w_mail w @ [MailPasswordReset (user_email u) (user_name u) (reset_url cf en (env_token en))] \<and>
         gget (st_reset_tokens (w_mem t)) (env_id en 0) = Some (reset_row cf en u) \<and>
         (\<forall>i q. gget (st_reset_tokens (w_mem t)) i = Some q \<longrightarrow> prt_user_id q = user_id u \<longrightarrow> is_zero (prt_used_at q) \<longrightarrow>
            i = env_id en 0)))"
  using assms(1)
proof (cases rule: forgot_path)
  case quiet
  then show ?thesis by simp
next
  case (sent u)
  have "i = env_id en 0" if "gget (st_reset_tokens (w_mem t)) i = Some q" "prt_user_id q = user_id u" "is_zero (prt_used_at q)" for i q
  proof (rule ccontr)
    assume "i \<noteq> env_id en 0"
    then have "gget (st_reset_tokens (snd (invalidate_user_password_reset_tokens (user_id u) (env_now en 0) (w_mem w)))) i = Some q"
      using that(1) sent(4) by (simp add: invalidate_user_password_reset_tokens_def)
    then show False using invalidate_leaves_none [OF assms(2)] that(2,3) by blast
  qed
  note only = this
  have "gget (st_reset_tokens (w_mem t)) (env_id en 0) = Some (reset_row cf en u)" unfolding sent(4) by simp
  then show ?thesis using sent(1-3) only by (intro conjI impI exI [of _ u] allI) assumption+
qed

lemma forgot_password_latest_link_witness:
  "fst (forgot_password (sample_conf TxMemory) sample_env ''nobody@example.com'' (calm account_store)) = Inr ()"
proof -
  obtain r t where r: "forgot_password (sample_conf TxMemory) sample_env ''nobody@example.com'' (calm account_store) = (r, t)"
    by (metis surj_pair)
  have "\<not> is_zero (env_now sample_env 0)" by (simp add: sample_env_def is_zero_def zero_time_def)
  with forgot_password_latest_link [OF r] r show ?thesis by simp
qed

end
