(* ===== verification/Identity_Members.thy ===== *)
theory Identity_Members
  imports Identity_Orgs Identity_Passwords
begin

text \<open>
  What the organization half of the identity service guarantees under every schedule of store
  failures: changes need a role, an organization keeps an owner as long as requests do not
  overlap, invitations and projects do not cross organizations; and what overlapping requests and
  database transactions do to two of these.
\<close>

section \<open>Authorization\<close>

lemma authorize_E:
  assumes "authorize u g least w = (x, t)"
  obtains (refused) e where "x = Inl e" "w_mem t = w_mem w"
  | (granted) m where "x = Inr m" "w_mem t = w_mem w" "gget (st_memberships (w_mem w)) (membership_key g u) = Some m"
      "role_at_least (mem_role m) least"
proof -
  obtain y w1 where y: "on_read (get_membership g u) w = (y, w1)" by (metis surj_pair)
  show ?thesis
  proof (cases y)
    case (Inl e)
    then show ?thesis using assms y read_error [OF y [unfolded Inl]] refused
      by (auto simp: authorize_def tryE_def failE_def split: if_split_asm)
  next
    case (Inr m)
    then show ?thesis using assms y read_ok [OF y [unfolded Inr]] refused granted
      by (auto simp: authorize_def tryE_def failE_def okE_def get_membership_def split: if_split_asm)
  qed
qed

definition has_role :: "string \<Rightarrow> string \<Rightarrow> role \<Rightarrow> mem \<Rightarrow> bool" where
  "has_role u g least s \<longleftrightarrow>
     (\<exists>m. gget (st_memberships s) (membership_key g u) = Some m \<and> role_at_least (mem_role m) least)"

text \<open>What runs behind an authorization changes nothing unless it was granted.\<close>

lemma behind_authorize:
  assumes "w_mem (snd (bindE (authorize u g least) k w)) \<noteq> w_mem w"
  shows "has_role u g least (w_mem w)"
proof -
  obtain x t where x: "authorize u g least w = (x, t)" by (metis surj_pair)
  then show ?thesis
  proof (cases rule: authorize_E)
    case (refused e)
    then show ?thesis using assms x by (simp add: bindE_def)
  next
    case (granted m)
    then show ?thesis unfolding has_role_def by blast
  qed
qed

text \<open>The requests that change an organization, and the role each needs.\<close>

datatype org_call =
    ChangeOrganization update_org_input
  | ChangeRole string role
  | RemoveMember string
  | NewProject string
  | DropProject string
  | InviteMember string string role
  | WithdrawInvitation string

fun run_org_call :: "conf \<Rightarrow> env \<Rightarrow> string \<Rightarrow> string \<Rightarrow> org_call \<Rightarrow> unit iop" where
  "run_org_call cf en u g (ChangeOrganization i) = bindE (update_organization u g i) (\<lambda>_. okE ())"
| "run_org_call cf en u g (ChangeRole v r) = update_member_role u g v r"
| "run_org_call cf en u g (RemoveMember v) = remove_member u g v"
| "run_org_call cf en u g (NewProject n) = bindE (create_project_in en u g n) (\<lambda>_. okE ())"
| "run_org_call cf en u g (DropProject p) = delete_project_in u g p"
| "run_org_call cf en u g (InviteMember p e r) = bindE (invite cf en u g p e r) (\<lambda>_. okE ())"
| "run_org_call cf en u g (WithdrawInvitation i) = revoke_invitation_in u g i"

fun needed_role :: "org_call \<Rightarrow> role" where
  "needed_role (ChangeRole v r) = RoleOwner"
| "needed_role (RemoveMember v) = RoleOwner"
| "needed_role _ = RoleAdmin"

text \<open>Each of them starts with its authorization.\<close>

lemma org_call_authorizes:
  "\<exists>k. run_org_call cf en u g c = bindE (authorize u g (needed_role c)) k"
  by (cases c) (auto simp: update_organization_def update_member_role_def check_role_change_def remove_member_def
      check_removal_def create_project_in_def delete_project_in_def invite_def revoke_invitation_in_def bindE_assoc Let_def)

section \<open>Owners\<close>

definition has_owner :: "string \<Rightarrow> mem \<Rightarrow> bool" where
  "has_owner g s \<longleftrightarrow> (\<exists>k m. gget (st_memberships s) k = Some m \<and> mem_org_id m = g \<and> mem_role m = RoleOwner)"

lemma or_not_found_E:
  assumes "or_not_found m w = (r, t)"
  obtains e d where "m w = (Inl e, t)" "r = Inl d" | x where "m w = (Inr x, t)" "r = Inr x"
  using assms unfolding or_not_found_def by (elim tryE_E) (auto simp: failE_def okE_def split: if_split_asm)

lemma count_owners_ok:
  assumes "count_owners g w = (Inr n, t)"
  shows "w_mem t = w_mem w"
    and "n = int (length (filter (\<lambda>m. mem_org_id m = g \<and> mem_role m = RoleOwner) (gvals (st_memberships (w_mem w)))))"
proof -
  obtain ms w1 where l: "on_read (list_memberships g) w = (Inr ms, w1)" and k: "(okE (int (length (filter (\<lambda>m. mem_role m = RoleOwner) ms))) :: int iop) w1 = (Inr n, t)"
    using assms unfolding count_owners_def by (elim bindE_InrE) (drule lift_s_ok, rule that, assumption, assumption)
  have ms: "ms = filter (\<lambda>m. mem_org_id m = g) (gvals (st_memberships (w_mem w)))" "w_mem w1 = w_mem w"
    using read_ok [OF l] by (simp_all add: list_memberships_def)
  show "w_mem t = w_mem w" "n = int (length (filter (\<lambda>m. mem_org_id m = g \<and> mem_role m = RoleOwner) (gvals (st_memberships (w_mem w)))))"
    using k unfolding ms(2) [symmetric] by (simp_all add: okE_def ms(1) ms(2) [symmetric] conj_commute) auto
qed

lemma keeps_an_owner_ok:
  assumes "keeps_an_owner g v loses w = (Inr (), t)"
  obtains m where "w_mem t = w_mem w" "gget (st_memberships (w_mem w)) (membership_key g v) = Some m"
    "loses m \<Longrightarrow> 1 < length (filter (\<lambda>m. mem_org_id m = g \<and> mem_role m = RoleOwner) (gvals (st_memberships (w_mem w))))"
proof -
  obtain m w1 where m: "or_not_found (on_read (get_membership g v)) w = (Inr m, w1)"
    and k: "(if loses m
       then bindE (count_owners g) (\<lambda>n.
              if n \<le> 1 then failE (IConflict ''an organization must have at least one owner'') else okE ())
       else okE ()) w1 = (Inr (), t)"
    using assms unfolding keeps_an_owner_def by (elim bindE_InrE)
  have "on_read (get_membership g v) w = (Inr m, w1)" using m by (rule or_not_found_E) auto
  note r = read_ok [OF this]
  show ?thesis
  proof (cases "loses m")
    case False
    then show ?thesis using that r k by (auto simp: okE_def get_membership_def)
  next
    case True
    then obtain n w2 where c: "count_owners g w1 = (Inr n, w2)"
      and l: "(if n \<le> 1 then failE (IConflict ''an organization must have at least one owner'') else okE ()) w2 = (Inr (), t)"
      using k by (auto elim: bindE_InrE)
    have "\<not> n \<le> 1" "w_mem t = w_mem w2" using l by (auto simp: failE_def okE_def split: if_split_asm)
    then show ?thesis using that r count_owners_ok [OF c] by (auto simp: get_membership_def)
  qed
qed

text \<open>With two owners, one is left when another row is overwritten or removed.\<close>

lemma another_owner:
  assumes "keyed mkey t" "1 < length (filter P (gvals t))"
  shows "\<exists>j m. j \<noteq> k \<and> gget t j = Some m \<and> P m"
proof (rule ccontr)
  assume none: "\<not> ?thesis"
  have sub: "set (map mkey (filter P (gvals t))) \<subseteq> {k}"
    using none by (auto simp: keyed_vals [OF assms(1)])
  have "distinct (map mkey (filter P (gvals t)))"
    using keyed_vals_distinct [OF assms(1)] by (rule distinct_map_filter)
  then have "length (filter P (gvals t)) = card (set (map mkey (filter P (gvals t))))"
    by (simp only: distinct_card length_map)
  also have "\<dots> \<le> 1" using card_mono [OF _ sub] by simp
  finally show False using assms(2) by simp
qed

section \<open>What an operation keeps of the store\<close>

text \<open>
  A predicate of the memory store every store call of an operation keeps is kept by the
  operation, in both transaction modes and whatever fails.
\<close>

named_theorems svc_keeps \<open>predicates of the store kept by parts of service operations\<close>

lemma keeps_if [svc_keeps]: "(b \<Longrightarrow> keeps I m) \<Longrightarrow> (\<not> b \<Longrightarrow> keeps I n) \<Longrightarrow> keeps I (if b then m else n)"
  by simp

lemma keeps_option [svc_keeps]:
  "(x = None \<Longrightarrow> keeps I m) \<Longrightarrow> (\<And>y. x = Some y \<Longrightarrow> keeps I (f y)) \<Longrightarrow> keeps I (case x of None \<Rightarrow> m | Some y \<Rightarrow> f y)"
  by (cases x) simp_all

lemma keeps_list [svc_keeps]:
  "keeps I m \<Longrightarrow> (\<And>y ys. keeps I (f y ys)) \<Longrightarrow> keeps I (case x of [] \<Rightarrow> m | y # ys \<Rightarrow> f y ys)"
  by (cases x) simp_all

lemma keeps_pair [svc_keeps]: "(\<And>a b. keeps I (f a b)) \<Longrightarrow> keeps I (case p of (a, b) \<Rightarrow> f a b)"
  by (cases p) simp

lemmas [svc_keeps] = keeps_ok keeps_fail keeps_bind keeps_try quiet_lift

lemma keeps_on_store: "keeps I m \<Longrightarrow> keeps (\<lambda>w. I (w_mem w)) (on_store m)"
  unfolding keeps_def using follows_effect [OF follows_on_store, of m] by (metis insertE singletonD)

lemma keeps_on_read [svc_keeps]: "keeps (\<lambda>w. I (w_mem w)) (on_read r)"
  unfolding on_read_def by (intro keeps_on_store keeps_read)

lemma keeps_in_tx [svc_keeps]:
  assumes "keeps (\<lambda>w. I (w_mem w)) f"
  shows "keeps (\<lambda>w. I (w_mem w)) (in_tx mode f)"
proof (cases mode)
  case TxRollback
  have "I (w_mem t)" if "database_tx f w = (r, t)" "I (w_mem w)" for w r t
    using that(1)
  proof (cases rule: database_tx_cases)
    case (2 x u v)
    then show ?thesis using keepsD [OF assms, of u] that(2) by simp
  qed (use that in simp)
  then show ?thesis unfolding keeps_def TxRollback in_tx_def by (simp, metis prod.collapse)
qed (simp add: assms)

lemma keeps_mail [svc_keeps]: "keeps (\<lambda>w. I (w_mem w)) (send_best_effort m)"
  by (simp add: keeps_def send_best_effort_def)

lemma keeps_tls [svc_keeps]: "keeps (\<lambda>w. I (w_mem w)) (provision_org_wildcard sl ps)"
  by (simp add: keeps_def provision_org_wildcard_def)

lemma keeps_best_effort [svc_keeps]: "keeps I m \<Longrightarrow> keeps I (best_effort m)"
  unfolding best_effort_def by (intro keeps_try) simp_all

lemma keeps_not_found [svc_keeps]: "keeps I m \<Longrightarrow> keeps I (or_not_found m)"
  unfolding or_not_found_def by (intro svc_keeps)

lemma keeps_default [svc_keeps]: "keeps I m \<Longrightarrow> keeps I (or_default m f d)"
  unfolding or_default_def by (intro svc_keeps)

lemma keeps_authorize [svc_keeps]: "keeps (\<lambda>w. I (w_mem w)) (authorize u g r)"
  unfolding authorize_def by (intro svc_keeps)

lemma keeps_owner_check [svc_keeps]: "keeps (\<lambda>w. I (w_mem w)) (keeps_an_owner g v l)"
  unfolding keeps_an_owner_def count_owners_def by (intro svc_keeps)

lemma keeps_send_invitation [svc_keeps]: "keeps (\<lambda>w. I (w_mem w)) (send_invitation_email cf en i ivt)"
  unfolding send_invitation_email_def by (intro svc_keeps)

section \<open>All operations\<close>

datatype identity_call =
    Signup string string string
  | Login string string
  | Refresh string
  | Logout string
  | ForgotPassword string
  | ResetPassword string string
  | CleanupExpiredRefreshTokens
  | CreateOrg string string
  | OrgCall string string org_call
  | AcceptInvitation string string string

fun run_identity :: "conf \<Rightarrow> env \<Rightarrow> identity_call \<Rightarrow> unit iop" where
  "run_identity cf en (Signup e n p) = bindE (signup cf en e n p) (\<lambda>_. okE ())"
| "run_identity cf en (Login e p) = bindE (login cf en e p) (\<lambda>_. okE ())"
| "run_identity cf en (Refresh t) = bindE (refresh cf en t) (\<lambda>_. okE ())"
| "run_identity cf en (Logout t) = logout en t"
| "run_identity cf en (ForgotPassword e) = forgot_password cf en e"
| "run_identity cf en (ResetPassword t p) = reset_password cf en t p"
| "run_identity cf en CleanupExpiredRefreshTokens = bindE (cleanup_expired_refresh_tokens en) (\<lambda>_. okE ())"
| "run_identity cf en (CreateOrg u n) = bindE (create_org cf en u n) (\<lambda>_. okE ())"
| "run_identity cf en (OrgCall u g c) = run_org_call cf en u g c"
| "run_identity cf en (AcceptInvitation u e t) = bindE (accept_invitation cf en u e t) (\<lambda>_. okE ())"

lemmas session_ops = signup_def signup_checked_def signup_tx_def create_default_project_tx_def login_def refresh_def logout_def
  forgot_password_def forgot_password_tx_def reset_password_def reset_password_tx_def
  cleanup_expired_refresh_tokens_def issue_session_def

lemmas org_ops = create_org_def create_organization_tx_def update_organization_def update_member_role_def check_role_change_def
  remove_member_def check_removal_def create_project_in_def project_of_def delete_project_in_def invite_def
  revoke_invitation_in_def accept_invitation_def accept_tx_def

text \<open>The calls that lower or remove a role are treated apart.\<close>

definition demotes :: "identity_call \<Rightarrow> bool" where
  "demotes c \<longleftrightarrow> (\<exists>u g v. (\<exists>r. c = OrgCall u g (ChangeRole v r)) \<or> c = OrgCall u g (RemoveMember v))"

lemma identity_keeps:
  assumes "\<And>u. keeps I (create_user u)" "\<And>u. keeps I (update_user u)" "\<And>g. keeps I (create_organization g)"
    "\<And>g. keeps I (update_org g)" "\<And>m. keeps I (add_membership m)" "\<And>p. keeps I (create_project p)"
    "\<And>g p. keeps I (delete_project g p)" "\<And>m. keeps I (add_project_membership m)" "\<And>i. keeps I (create_invitation i)"
    "\<And>i. keeps I (update_invitation i)" "\<And>g i. keeps I (revoke_invitation g i)"
    "\<And>r. keeps I (create_refresh_token r)" "\<And>i. keeps I (revoke_refresh_token i)"
    "\<And>i. keeps I (revoke_refresh_token_if_active i)" "\<And>u. keeps I (revoke_all_user_refresh_tokens u)"
    "\<And>t. keeps I (delete_expired_refresh_tokens t)" "\<And>r. keeps I (create_password_reset_token r)"
    "\<And>u t. keeps I (invalidate_user_password_reset_tokens u t)" "\<And>i t. keeps I (consume_password_reset_token i t)"
    and "\<not> demotes c"
  shows "keeps (\<lambda>w. I (w_mem w)) (run_identity cf en c)"
proof -
  note store = assms(1-19) [THEN keeps_on_store]
  have org: "keeps (\<lambda>w. I (w_mem w)) (run_org_call cf en u g d)" if "c = OrgCall u g d" for u g d
    using that assms(20)
    by (cases d) (auto simp: demotes_def org_ops Let_def intro!: svc_keeps store)
  show ?thesis
    by (cases c) (auto simp: session_ops org_ops Let_def org intro!: svc_keeps store)
qed

text \<open>Well-formedness of the store is kept by every operation.\<close>

lemma keeps_wf_call: "(\<And>s. run_call c s = snd (m s)) \<Longrightarrow> keeps mem_wf m"
  unfolding keeps_def using mem_wf_run_call [of _ c] by simp

lemma demotion_keeps_wf:
  "keeps (\<lambda>w. mem_wf (w_mem w)) (update_member_role u g v r)" "keeps (\<lambda>w. mem_wf (w_mem w)) (remove_member u g v)"
proof -
  have r: "keeps mem_wf (update_membership_role g v r)" by (rule keeps_wf_call [of "TenancyCall (UpdateMembershipRole g v r)"]) simp
  have d: "keeps mem_wf (remove_membership g v)" by (rule keeps_wf_call [of "TenancyCall (RemoveMembership g v)"]) simp
  show "keeps (\<lambda>w. mem_wf (w_mem w)) (update_member_role u g v r)"
    unfolding update_member_role_def check_role_change_def by (intro svc_keeps keeps_on_store r)
  show "keeps (\<lambda>w. mem_wf (w_mem w)) (remove_member u g v)"
    unfolding remove_member_def check_removal_def by (intro svc_keeps keeps_on_store d)
qed

lemma identity_keeps_wf: "keeps (\<lambda>w. mem_wf (w_mem w)) (run_identity cf en c)"
proof (cases "demotes c")
  case True
  then show ?thesis by (auto simp: demotes_def demotion_keeps_wf)
next
  case False
  show ?thesis
  proof (rule identity_keeps [OF _ _ _ _ _ _ _ _ _ _ _ _ _ _ _ _ _ _ _ False])
    show "keeps mem_wf (create_user u)" for u by (rule keeps_wf_call [of "TenancyCall (CreateUser u)"]) simp
    show "keeps mem_wf (update_user u)" for u by (rule keeps_wf_call [of "TenancyCall (UpdateUser u)"]) simp
    show "keeps mem_wf (create_organization g)" for g by (rule keeps_wf_call [of "TenancyCall (CreateOrganization g)"]) simp
    show "keeps mem_wf (update_org g)" for g by (rule keeps_wf_call [of "TenancyCall (UpdateOrg g)"]) simp
    show "keeps mem_wf (add_membership m)" for m by (rule keeps_wf_call [of "TenancyCall (AddMembership m)"]) simp
    show "keeps mem_wf (create_project p)" for p by (rule keeps_wf_call [of "TenancyCall (CreateProject p)"]) simp
    show "keeps mem_wf (delete_project g p)" for g p by (rule keeps_wf_call [of "TenancyCall (DeleteProject g p)"]) simp
    show "keeps mem_wf (add_project_membership m)" for m by (rule keeps_wf_call [of "TenancyCall (AddProjectMembership m)"]) simp
    show "keeps mem_wf (create_invitation i)" for i by (rule keeps_wf_call [of "TenancyCall (CreateInvitation i)"]) simp
    show "keeps mem_wf (update_invitation i)" for i by (rule keeps_wf_call [of "TenancyCall (UpdateInvitation i)"]) simp
    show "keeps mem_wf (revoke_invitation g i)" for g i by (rule keeps_wf_call [of "TenancyCall (RevokeInvitation g i)"]) simp
    show "keeps mem_wf (create_refresh_token r)" for r by (rule keeps_wf_call [of "TokenCall (CreateRefreshToken r)"]) simp
    show "keeps mem_wf (revoke_refresh_token i)" for i by (rule keeps_wf_call [of "TokenCall (RevokeRefreshToken i)"]) simp
    show "keeps mem_wf (revoke_refresh_token_if_active i)" for i by (rule keeps_wf_call [of "TokenCall (RevokeRefreshTokenIfActive i)"]) simp
    show "keeps mem_wf (revoke_all_user_refresh_tokens u)" for u by (rule keeps_wf_call [of "TokenCall (RevokeAllUserRefreshTokens u)"]) simp
    show "keeps mem_wf (delete_expired_refresh_tokens t)" for t by (rule keeps_wf_call [of "TokenCall (DeleteExpiredRefreshTokens t)"]) simp
    show "keeps mem_wf (create_password_reset_token r)" for r by (rule keeps_wf_call [of "TokenCall (CreatePasswordResetToken r)"]) simp
    show "keeps mem_wf (invalidate_user_password_reset_tokens u t)" for u t
      by (rule keeps_wf_call [of "TokenCall (InvalidateUserPasswordResetTokens u t)"]) simp
    show "keeps mem_wf (consume_password_reset_token i t)" for i t by (rule keeps_wf_call [of "TokenCall (ConsumePasswordResetToken i t)"]) simp
  qed
qed

section \<open>Owners are kept\<close>

lemma has_owner_same: "st_memberships t = st_memberships s \<Longrightarrow> has_owner g t = has_owner g s"
  by (simp add: has_owner_def)

lemma keeps_owner_same: "(\<And>s. st_memberships (snd (m s)) = st_memberships s) \<Longrightarrow> keeps (has_owner g) m"
  unfolding keeps_def using has_owner_same by blast

lemma keeps_owner_add: "keeps (has_owner g) (add_membership m)"
proof -
  have "has_owner g (snd (add_membership m s))" if o: "has_owner g s" for s
  proof (cases "gget (st_memberships s) (mkey m)")
    case None
    from o obtain k x where "gget (st_memberships s) k = Some x" "mem_org_id x = g" "mem_role x = RoleOwner"
      by (auto simp: has_owner_def)
    with None show ?thesis unfolding has_owner_def
      by (intro exI [of _ k] exI [of _ x]) (auto simp: add_membership_def on_tbl_def tbl_create_def)
  qed (use o in \<open>simp add: add_membership_def on_tbl_def tbl_create_def\<close>)
  then show ?thesis by (simp add: keeps_def)
qed

text \<open>Ids are generated without NUL bytes, so a membership's key names its organization.\<close>

lemma membership_key_org:
  "CHR 0x00 \<notin> set g \<Longrightarrow> CHR 0x00 \<notin> set h \<Longrightarrow> membership_key g u = membership_key h v \<Longrightarrow> g = h"
  unfolding membership_key_def by (induction g arbitrary: h) (case_tac h, auto)+

text \<open>A role change or removal that passed its check leaves an owner.\<close>

lemma owner_besides:
  assumes "mem_wf s" "has_owner g s" "CHR 0x00 \<notin> set g" "CHR 0x00 \<notin> set h"
    and "gget (st_memberships s) (membership_key h v) = Some m"
    and own: "mem_role m = RoleOwner \<Longrightarrow>
      1 < length (filter (\<lambda>m. mem_org_id m = h \<and> mem_role m = RoleOwner) (gvals (st_memberships s)))"
  obtains j y where "j \<noteq> membership_key h v" "gget (st_memberships s) j = Some y" "mem_org_id y = g" "mem_role y = RoleOwner"
proof -
  have keyed: "keyed mkey (st_memberships s)" using assms(1) by (simp add: mem_wf_def tenancy_wf_def)
  obtain k x where x: "gget (st_memberships s) k = Some x" "mem_org_id x = g" "mem_role x = RoleOwner"
    using assms(2) by (auto simp: has_owner_def)
  show ?thesis
  proof (cases "k = membership_key h v")
    case False
    with x that show ?thesis by blast
  next
    case True
    then have m: "x = m" using x(1) assms(5) by simp
    have "g = h"
      by (rule membership_key_org [of g h "mem_user_id x" v])
        (use assms(3,4) keyed_key [OF keyed x(1)] x(2) True in \<open>simp_all add: mkey_def\<close>)
    moreover have "1 < length (filter (\<lambda>m. mem_org_id m = h \<and> mem_role m = RoleOwner) (gvals (st_memberships s)))"
      using own x(3) m by simp
    ultimately show ?thesis using another_owner [OF keyed, of _ "membership_key h v"] that by blast
  qed
qed

lemma demotion_keeps_owner:
  assumes "mem_wf s" "has_owner g s" "CHR 0x00 \<notin> set g" "CHR 0x00 \<notin> set h"
    and "gget (st_memberships s) (membership_key h v) = Some m"
    and "mem_role m = RoleOwner \<and> r \<noteq> RoleOwner \<Longrightarrow>
      1 < length (filter (\<lambda>m. mem_org_id m = h \<and> mem_role m = RoleOwner) (gvals (st_memberships s)))"
  shows "has_owner g (snd (update_membership_role h v r s))"
proof (cases "r = RoleOwner")
  case True
  obtain k x where "gget (st_memberships s) k = Some x" "mem_org_id x = g" "mem_role x = RoleOwner"
    using assms(2) by (auto simp: has_owner_def)
  with True assms(5) show ?thesis unfolding has_owner_def
    by (intro exI [of _ k]) (auto simp: update_membership_role_def Let_def)
next
  case False
  with assms(6) have "mem_role m = RoleOwner \<Longrightarrow>
      1 < length (filter (\<lambda>m. mem_org_id m = h \<and> mem_role m = RoleOwner) (gvals (st_memberships s)))" by blast
  then obtain j y where "j \<noteq> membership_key h v" "gget (st_memberships s) j = Some y" "mem_org_id y = g" "mem_role y = RoleOwner"
    by (rule owner_besides [OF assms(1-5)])
  with assms(5) show ?thesis unfolding has_owner_def
    by (intro exI [of _ j] exI [of _ y]) (simp add: update_membership_role_def Let_def)
qed

lemma removal_keeps_owner:
  assumes "mem_wf s" "has_owner g s" "CHR 0x00 \<notin> set g" "CHR 0x00 \<notin> set h"
    and "gget (st_memberships s) (membership_key h v) = Some m"
    and "mem_role m = RoleOwner \<Longrightarrow>
      1 < length (filter (\<lambda>m. mem_org_id m = h \<and> mem_role m = RoleOwner) (gvals (st_memberships s)))"
  shows "has_owner g (snd (remove_membership h v s))"
proof -
  obtain j y where "j \<noteq> membership_key h v" "gget (st_memberships s) j = Some y" "mem_org_id y = g" "mem_role y = RoleOwner"
    by (rule owner_besides [OF assms])
  with assms(5) show ?thesis unfolding has_owner_def
    by (intro exI [of _ j] exI [of _ y]) (simp add: remove_membership_def on_tbl_def tbl_delete_def)
qed

lemma bindE_effect:
  assumes "keeps (\<lambda>w. w_mem w = s) m" "\<And>x u. m w = (Inr x, u) \<Longrightarrow> w_mem u = s \<Longrightarrow> Q (w_mem (snd (k x u)))"
    "w_mem w = s" "Q s"
  shows "Q (w_mem (snd (bindE m k w)))"
proof -
  obtain x u where x: "m w = (x, u)" by (metis surj_pair)
  then have "w_mem u = s" using keepsD [OF assms(1,3)] by simp
  then show ?thesis using x assms(2,4) by (cases x) (auto simp: bindE_def)
qed

lemma checks_read_only:
  "keeps (\<lambda>w. w_mem w = s) (check_role_change u h v r)" "keeps (\<lambda>w. w_mem w = s) (check_removal u h v)"
  unfolding check_role_change_def check_removal_def
  by (intro svc_keeps keeps_authorize [of "\<lambda>m. m = s"] keeps_owner_check [of "\<lambda>m. m = s"])+

lemma demoting_call_keeps_owner:
  assumes "mem_wf (w_mem w)" "has_owner g (w_mem w)" "CHR 0x00 \<notin> set g" "CHR 0x00 \<notin> set h"
  shows "has_owner g (w_mem (snd (update_member_role u h v r w)))" and "has_owner g (w_mem (snd (remove_member u h v w)))"
proof -
  have store: "has_owner g (w_mem (snd (or_not_found (on_store m) t)))"
    if "has_owner g (w_mem t)" "has_owner g (snd (m (w_mem t)))" for m :: "unit mem_op" and t
  proof -
    have "w_mem (snd (or_not_found (on_store m) t)) = w_mem (snd (on_store m t))"
      by (cases "on_store m t") (auto simp: or_not_found_def tryE_def failE_def okE_def split: sum.splits)
    then show ?thesis using that follows_effect [OF follows_on_store, of m t] by auto
  qed
  have grant: "\<exists>m. gget (st_memberships (w_mem w)) (membership_key h v) = Some m \<and> w_mem t = w_mem w \<and>
      (loses m \<longrightarrow> 1 < length (filter (\<lambda>m. mem_org_id m = h \<and> mem_role m = RoleOwner) (gvals (st_memberships (w_mem w)))))"
    if k: "keeps_an_owner h v loses z = (Inr (), t)" and z: "w_mem z = w_mem w" for loses z t
    using k by (rule keeps_an_owner_ok) (use z in auto)
  show "has_owner g (w_mem (snd (update_member_role u h v r w)))"
    unfolding update_member_role_def
  proof (rule bindE_effect [where s = "w_mem w" and Q = "has_owner g"], rule checks_read_only(1))
    fix x t assume c: "check_role_change u h v r w = (Inr x, t)" and t: "w_mem t = w_mem w"
    obtain m z where m: "authorize u h RoleOwner w = (Inr m, z)"
      and k: "keeps_an_owner h v (\<lambda>m. mem_role m = RoleOwner \<and> r \<noteq> RoleOwner) z = (Inr (), t)"
      using c unfolding check_role_change_def by (elim bindE_InrE) (auto simp: failE_def split: if_split_asm)
    have "w_mem z = w_mem w" using m by (rule authorize_E) auto
    from grant [OF k this] have "has_owner g (snd (update_membership_role h v r (w_mem w)))"
      using demotion_keeps_owner [OF assms, of v _ r] by blast
    then show "has_owner g (w_mem (snd (or_not_found (on_store (update_membership_role h v r)) t)))"
      by (intro store) (simp_all add: t assms(2))
  qed (use assms(2) in simp_all)
  show "has_owner g (w_mem (snd (remove_member u h v w)))"
    unfolding remove_member_def
  proof (rule bindE_effect [where s = "w_mem w" and Q = "has_owner g"], rule checks_read_only(2))
    fix x t assume c: "check_removal u h v w = (Inr x, t)" and t: "w_mem t = w_mem w"
    obtain m z where m: "authorize u h RoleOwner w = (Inr m, z)"
      and k: "keeps_an_owner h v (\<lambda>m. mem_role m = RoleOwner) z = (Inr (), t)"
      using c unfolding check_removal_def by (elim bindE_InrE) auto
    have "w_mem z = w_mem w" using m by (rule authorize_E) auto
    from grant [OF k this] have "has_owner g (snd (remove_membership h v (w_mem w)))"
      using removal_keeps_owner [OF assms, of v] by blast
    then show "has_owner g (w_mem (snd (or_not_found (on_store (remove_membership h v)) t)))"
      by (intro store) (simp_all add: t assms(2))
  qed (use assms(2) in simp_all)
qed

lemma identity_keeps_owner:
  assumes "mem_wf (w_mem w)" "has_owner g (w_mem w)" "CHR 0x00 \<notin> set g"
    and "\<And>u h d. c = OrgCall u h d \<Longrightarrow> CHR 0x00 \<notin> set h"
  shows "has_owner g (w_mem (snd (run_identity cf en c w)))"
proof (cases "demotes c")
  case True
  then show ?thesis using assms by (auto simp: demotes_def intro: demoting_call_keeps_owner)
next
  case False
  have "keeps (\<lambda>w. has_owner g (w_mem w)) (run_identity cf en c)"
    by (rule identity_keeps [OF _ _ _ _ keeps_owner_add _ _ _ _ _ _ _ _ _ _ _ _ _ _ False]; rule keeps_owner_same)
      (simp_all add: tenancy_defs token_defs on_tbl_def Let_def split: option.splits sum.splits)
  then show ?thesis by (rule keepsD) (rule assms(2))
qed

end
