(* ===== verification/Identity_Properties.thy ===== *)
theory Identity_Properties
  imports Identity_Members
begin

text \<open>
  The properties of the organization half of the identity service, each applied to a concrete
  service in its witness.
\<close>

section \<open>Accepting an invitation\<close>

definition accepted :: "string \<Rightarrow> invitation \<Rightarrow> mem \<Rightarrow> mem" where
  "accepted u ivt s =
     s\<lparr>st_memberships :=
         (let k = membership_key (inv_org_id ivt) u
          in if gget (st_memberships s) k = None
             then gput k \<lparr>mem_org_id = inv_org_id ivt, mem_user_id = u,
                          mem_role = (if inv_project_id ivt = [] then inv_role ivt else RoleMember)\<rparr> (st_memberships s)
             else st_memberships s),
       st_project_members :=
         (let k = project_member_key (inv_project_id ivt) u
          in if inv_project_id ivt \<noteq> [] \<and> gget (st_project_members s) k = None
             then gput k \<lparr>pm_project_id = inv_project_id ivt, pm_user_id = u, pm_role = inv_role ivt\<rparr> (st_project_members s)
             else st_project_members s),
       st_invitations := gput (inv_id ivt) (ivt\<lparr>inv_status := InviteAccepted\<rparr>) (st_invitations s)\<rparr>"

lemma last_write:
  assumes "bindE (lift_s m) (\<lambda>_. okE x) w = (Inr y, t)"
  shows "\<exists>z. m w = (Inr z, t) \<and> y = x"
  using assms by (rule bindE_InrE) (auto simp: okE_def dest!: lift_s_ok)

lemma accept_tx_parts:
  assumes "accept_tx u ivt w = (Inr i, t)"
  obtains x1 w1 x2 w2 x3 where
    "tryE (on_read (get_membership (inv_org_id ivt) u))
       (\<lambda>e. if e = ErrNotFound
            then lift_s (on_store (add_membership
                   \<lparr>mem_org_id = inv_org_id ivt, mem_user_id = u,
                    mem_role = (if inv_project_id ivt = [] then inv_role ivt else RoleMember)\<rparr>))
            else failE (IStore e))
       (\<lambda>_. okE ()) w = (Inr x1, w1)"
    "(if inv_project_id ivt = [] then okE ()
      else tryE (on_store (add_project_membership
                   \<lparr>pm_project_id = inv_project_id ivt, pm_user_id = u, pm_role = inv_role ivt\<rparr>))
             (\<lambda>e. if e \<noteq> ErrConflict then failE (IStore e) else okE ()) okE :: unit iop) w1 = (Inr x2, w2)"
    "on_store (update_invitation (ivt\<lparr>inv_status := InviteAccepted\<rparr>)) w2 = (Inr x3, t)"
    "i = ivt\<lparr>inv_status := InviteAccepted\<rparr>"
  using assms unfolding accept_tx_def
  by (erule_tac bindE_InrE, erule_tac bindE_InrE, drule_tac last_write, elim exE conjE) (rule that)

lemma accept_tx_ok:
  assumes "accept_tx u ivt w = (Inr i, t)"
  shows "w_mem t = accepted u ivt (w_mem w)" and "i = ivt\<lparr>inv_status := InviteAccepted\<rparr>"
proof -
  let ?m = "\<lparr>mem_org_id = inv_org_id ivt, mem_user_id = u,
      mem_role = (if inv_project_id ivt = [] then inv_role ivt else RoleMember)\<rparr>"
  let ?p = "\<lparr>pm_project_id = inv_project_id ivt, pm_user_id = u, pm_role = inv_role ivt\<rparr>"
  obtain x1 w1 x2 w2 x3 where 1: "tryE (on_read (get_membership (inv_org_id ivt) u))
       (\<lambda>e. if e = ErrNotFound then lift_s (on_store (add_membership ?m)) else failE (IStore e)) (\<lambda>_. okE ()) w = (Inr x1, w1)"
    and 2: "(if inv_project_id ivt = [] then okE ()
      else tryE (on_store (add_project_membership ?p))
             (\<lambda>e. if e \<noteq> ErrConflict then failE (IStore e) else okE ()) okE :: unit iop) w1 = (Inr x2, w2)"
    and 3: "on_store (update_invitation (ivt\<lparr>inv_status := InviteAccepted\<rparr>)) w2 = (Inr x3, t)"
    and i: "i = ivt\<lparr>inv_status := InviteAccepted\<rparr>"
    using assms by (rule accept_tx_parts)
  let ?k = "membership_key (inv_org_id ivt) u" and ?l = "project_member_key (inv_project_id ivt) u"
  have m1: "w_mem w1 = (w_mem w)\<lparr>st_memberships :=
      if gget (st_memberships (w_mem w)) ?k = None then gput ?k ?m (st_memberships (w_mem w)) else st_memberships (w_mem w)\<rparr>"
    using 1
  proof (rule tryE_E)
    fix e v assume r: "on_read (get_membership (inv_org_id ivt) u) w = (Inl e, v)"
      and k: "(if e = ErrNotFound then lift_s (on_store (add_membership ?m)) else failE (IStore e)) v = (Inr x1, w1)"
    have e: "e = ErrNotFound" using k by (auto simp: failE_def split: if_split_asm)
    then have a: "add_membership ?m (w_mem v) = (Inr (), w_mem w1)" using k by (auto dest!: lift_s_ok intro: store_ok)
    have "gget (st_memberships (w_mem w)) ?k = None" "w_mem v = w_mem w"
      using read_error [OF r] e by (auto simp: get_membership_def driver_error_def)
    with a show ?thesis by (auto simp: add_membership_def mkey_def dest!: on_tbl_create_ok)
  next
    fix y v assume r: "on_read (get_membership (inv_org_id ivt) u) w = (Inr y, v)" and k: "(okE () :: unit iop) v = (Inr x1, w1)"
    then show ?thesis using read_ok [OF r] by (auto simp: okE_def get_membership_def)
  qed
  have m2: "w_mem w2 = (w_mem w1)\<lparr>st_project_members :=
      if inv_project_id ivt \<noteq> [] \<and> gget (st_project_members (w_mem w1)) ?l = None
      then gput ?l ?p (st_project_members (w_mem w1)) else st_project_members (w_mem w1)\<rparr>"
  proof (cases "inv_project_id ivt = []")
    case True
    then show ?thesis using 2 by (simp add: okE_def)
  next
    case False
    then have "tryE (on_store (add_project_membership ?p))
        (\<lambda>e. if e \<noteq> ErrConflict then failE (IStore e) else (okE () :: unit iop)) okE w1 = (Inr x2, w2)" using 2 by simp
    then show ?thesis
    proof (rule tryE_E)
      fix e v assume r: "on_store (add_project_membership ?p) w1 = (Inl e, v)"
        and k: "(if e \<noteq> ErrConflict then failE (IStore e) else (okE () :: unit iop)) v = (Inr x2, w2)"
      then have "e = ErrConflict" "v = w2" by (auto simp: failE_def okE_def split: if_split_asm)
      then have "add_project_membership ?p (w_mem w1) = (Inl ErrConflict, w_mem w2)"
        using store_error [OF r] by (auto simp: driver_error_def)
      then show ?thesis by (auto simp: add_project_membership_def on_tbl_def tbl_create_def pmkey_def split: option.splits)
    next
      fix y v assume r: "on_store (add_project_membership ?p) w1 = (Inr y, v)" and "(okE y :: unit iop) v = (Inr x2, w2)"
      then have "add_project_membership ?p (w_mem w1) = (Inr (), w_mem w2)" using store_ok [OF r] by (auto simp: okE_def)
      then show ?thesis using False
        by (auto simp: add_project_membership_def on_tbl_def tbl_create_def pmkey_def split: option.splits)
    qed
  qed
  have m3: "w_mem t = (w_mem w2)\<lparr>st_invitations := gput (inv_id ivt) (ivt\<lparr>inv_status := InviteAccepted\<rparr>) (st_invitations (w_mem w2))\<rparr>"
    using store_ok [OF 3] by (auto simp: update_invitation_def on_tbl_def tbl_update_def split: option.splits)
  show "w_mem t = accepted u ivt (w_mem w)" using m1 m2 m3 by (simp add: accepted_def Let_def)
  show "i = ivt\<lparr>inv_status := InviteAccepted\<rparr>" by (rule i)
qed

lemma invitation_row: "get_invitation_by_token tok s = Inr ivt \<Longrightarrow> ivt \<in> set (gvals (st_invitations s)) \<and> inv_token ivt = tok"
  by (auto simp: get_invitation_by_token_def find_Some_iff split: option.splits)

lemma in_tx_both:
  assumes "in_tx mode f w = (Inr x, t)" and "\<And>y u v. f u = (Inr y, v) \<Longrightarrow> w_mem v = g (w_mem u) \<and> y = z"
  shows "w_mem t = g (w_mem w) \<and> x = z"
  using in_tx_ok [OF assms(1), of g] in_tx_value [OF assms(1), of "\<lambda>_. z"] assms(2) by blast

text \<open>Statements inside a database transaction.\<close>

lemma tx_call:
  "w_faults w = [] \<Longrightarrow> w_tx w = Some False \<Longrightarrow>
     on_store m w = (fst (m (w_mem w)), w\<lparr>w_mem := snd (m (w_mem w)), w_tx := Some (aborts (fst (m (w_mem w))))\<rparr>)"
  by (cases w) (auto simp: on_store_def faulty_healthy Let_def split: prod.splits)

lemma aborted_call: "w_tx w = Some True \<Longrightarrow> on_store m w = (Inl tx_aborted, w)"
  by (simp add: on_store_def)

section \<open>Sample rows\<close>

definition ada_owner :: membership where
  "ada_owner = \<lparr>mem_org_id = ''o1'', mem_user_id = ''u1'', mem_role = RoleOwner\<rparr>"

definition bob_owner :: membership where
  "bob_owner = \<lparr>mem_org_id = ''o1'', mem_user_id = ''u2'', mem_role = RoleOwner\<rparr>"

definition bob_invited :: invitation where
  "bob_invited = \<lparr>inv_id = ''i1'', inv_org_id = ''o1'', inv_project_id = ''p1'', inv_email = ''bob@example.com'',
     inv_role = RoleMember, inv_token = ''tok'', inv_status = InvitePending, inv_invited_by = ''u1'',
     inv_created_at = 0, inv_expires_at = 9\<rparr>"

definition bob_project :: project_membership where
  "bob_project = \<lparr>pm_project_id = ''p1'', pm_user_id = ''u2'', pm_role = RoleMember\<rparr>"

definition team_store :: mem where
  "team_store = run_calls
     [TenancyCall (AddMembership bob_owner), TenancyCall (AddProjectMembership bob_project),
      TenancyCall (CreateInvitation bob_invited)] sample_store"

lemma team_reachable: "store_reachable team_store"
  unfolding team_store_def by (intro reachable_run_calls sample_reachable)

lemma team_wf: "mem_wf team_store"
  by (rule mem_wf_reachable [OF team_reachable])

lemma team_tables:
  "st_memberships team_store = [(membership_key ''o1'' ''u1'', ada_owner), (membership_key ''o1'' ''u2'', bob_owner)]"
  "st_project_members team_store = [(project_member_key ''p1'' ''u2'', bob_project)]"
  "st_invitations team_store = [(''i1'', bob_invited)]" "st_projects team_store = []"
  "st_organizations team_store = [(''o1'', sample_org)]"
  by (simp_all add: team_store_def ada_owner_def bob_owner_def bob_project_def bob_invited_def sample_users sample_tables
      add_membership_def add_project_membership_def create_invitation_def on_tbl_def tbl_create_def mkey_def pmkey_def
      membership_key_def project_member_key_def gget_def gput_def)

section \<open>Properties\<close>

text \<open>whatever operation of the identity service runs, in whichever transaction mode and with
  whatever store failures, the store stays well formed: every row under its own key, the email
  index exact, token hashes unique.\<close>

theorem identity_keeps_store_wf:
  assumes "store_reachable (w_mem w)"
  shows "mem_wf (w_mem (snd (run_identity cf en c w)))"
  by (rule keepsD [OF identity_keeps_wf]) (rule mem_wf_reachable [OF assms])

lemma identity_keeps_store_wf_witness:
  "mem_wf (w_mem (snd (run_identity (sample_conf TxRollback) sample_env (Signup ''eve@example.com'' ''Eve'' ''correct horse'')
     ((calm team_store)\<lparr>w_faults := [NoFault, NoFault, FailAfter]\<rparr>))))"
  by (rule identity_keeps_store_wf) (simp add: calm_def team_reachable)

text \<open>C20: an organization keeps an owner: no operation of the identity service, whatever the store
  failures, leaves an organization that had an owner without one, as long as the operations run one
  after the other (ids contain no NUL byte).\<close>

theorem organization_keeps_owner:
  assumes "store_reachable (w_mem w)" and "has_owner g (w_mem w)" and "CHR 0x00 \<notin> set g"
    and "\<And>u h d. c = OrgCall u h d \<Longrightarrow> CHR 0x00 \<notin> set h"
  shows "has_owner g (w_mem (snd (run_identity cf en c w)))"
  by (rule identity_keeps_owner [OF mem_wf_reachable [OF assms(1)]]) (use assms in auto)

lemma team_owner: "has_owner ''o1'' team_store"
  unfolding has_owner_def by (intro exI [of _ "membership_key ''o1'' ''u1''"] exI [of _ ada_owner])
    (simp add: team_tables gget_def ada_owner_def)

lemma organization_keeps_owner_witness:
  "has_owner ''o1'' (w_mem (snd (run_identity (sample_conf TxMemory) sample_env (OrgCall ''u1'' ''o1'' (RemoveMember ''u1'')) (calm team_store))))"
  by (rule organization_keeps_owner) (auto simp: team_reachable team_owner)

text \<open>two owners who remove each other at the same time leave the organization without one: both
  requests pass their check before either has removed its row, and then both remove.\<close>

theorem concurrent_removals_lose_last_owner:
  assumes "healthy w" and "store_reachable (w_mem w)"
    and "gget (st_memberships (w_mem w)) (membership_key g a) = Some ma" "mem_org_id ma = g" "mem_role ma = RoleOwner"
    and "gget (st_memberships (w_mem w)) (membership_key g b) = Some mb" "mem_org_id mb = g" "mem_role mb = RoleOwner"
    and "membership_key g a \<noteq> membership_key g b"
    and "\<And>k m. gget (st_memberships (w_mem w)) k = Some m \<Longrightarrow> mem_org_id m = g \<Longrightarrow> mem_role m = RoleOwner \<Longrightarrow>
      k \<in> {membership_key g a, membership_key g b}"
  shows "check_removal a g b w = (Inr (), w) \<and> check_removal b g a w = (Inr (), w) \<and>
    \<not> has_owner g (w_mem (snd (on_store (remove_membership g a) (snd (on_store (remove_membership g b) w)))))"
proof -
  have keyed: "keyed mkey (st_memberships (w_mem w))"
    using mem_wf_reachable [OF assms(2)] by (simp add: mem_wf_def tenancy_wf_def)
  let ?P = "\<lambda>m. mem_org_id m = g \<and> mem_role m = RoleOwner"
  let ?own = "filter ?P (gvals (st_memberships (w_mem w)))"
  have "ma \<in> set ?own" "mb \<in> set ?own" "ma \<noteq> mb"
    using assms(3-9) keyed_key [OF keyed assms(3)] keyed_key [OF keyed assms(6)] by (auto simp: keyed_vals [OF keyed])
  then have two: "\<not> int (length ?own) \<le> 1"
    by (cases ?own rule: remdups_adj.cases) (auto simp: in_set_conv_nth)
  have check: "check_removal u g v w = (Inr (), w)"
    if "gget (st_memberships (w_mem w)) (membership_key g u) = Some mu" "mem_role mu = RoleOwner"
      "gget (st_memberships (w_mem w)) (membership_key g v) = Some mv" "mem_role mv = RoleOwner" for u v mu mv
    using that two assms(1)
    by (simp add: check_removal_def authorize_def keeps_an_owner_def or_not_found_def tryE_def bindE_def healthy_read
        get_membership_def tbl_get_def okE_def role_at_least_def count_owners_def lift_s_def list_memberships_def conj_commute)
  have "\<not> has_owner g (w_mem (snd (on_store (remove_membership g a) (snd (on_store (remove_membership g b) w)))))"
    using assms(1,3,6,9) assms(10)
    by (auto simp: has_owner_def healthy_call remove_membership_def on_tbl_def tbl_delete_def split: if_split_asm)
  then show ?thesis using check assms(3,5,6,8) by blast
qed

lemma concurrent_removals_lose_last_owner_witness:
  "has_owner ''o1'' team_store \<and>
   \<not> has_owner ''o1'' (w_mem (snd (on_store (remove_membership ''o1'' ''u1'') (snd (on_store (remove_membership ''o1'' ''u2'') (calm team_store))))))"
proof -
  have "check_removal ''u1'' ''o1'' ''u2'' (calm team_store) = (Inr (), calm team_store) \<and>
    check_removal ''u2'' ''o1'' ''u1'' (calm team_store) = (Inr (), calm team_store) \<and>
    \<not> has_owner ''o1'' (w_mem (snd (on_store (remove_membership ''o1'' ''u1'') (snd (on_store (remove_membership ''o1'' ''u2'') (calm team_store))))))"
    by (rule concurrent_removals_lose_last_owner [of "calm team_store" "''o1''" "''u1''" ada_owner "''u2''" bob_owner])
      (auto simp: team_reachable team_tables gget_Cons ada_owner_def bob_owner_def membership_key_def split: if_split_asm)
  then show ?thesis by (simp add: team_owner)
qed

text \<open>changing an organization needs a role in it: whatever the store failures, a request that changed
  anything stored came from an owner (member roles and removals) or at least an admin (everything
  else) of that very organization.\<close>

theorem org_changes_need_role:
  assumes "w_mem (snd (run_identity cf en (OrgCall u g c) w)) \<noteq> w_mem w"
  shows "has_role u g (needed_role c) (w_mem w)"
  using assms org_call_authorizes [of cf en u g c] behind_authorize by force

lemma org_changes_need_role_witness:
  "w_mem (snd (run_identity (sample_conf TxMemory) sample_env (OrgCall ''u1'' ''o1'' (RemoveMember ''u2'')) (calm team_store))) \<noteq> team_store \<and>
   has_role ''u1'' ''o1'' RoleOwner team_store"
proof -
  have "w_mem (snd (run_identity (sample_conf TxMemory) sample_env (OrgCall ''u1'' ''o1'' (RemoveMember ''u2'')) (calm team_store))) \<noteq> team_store"
  proof
    assume "w_mem (snd (run_identity (sample_conf TxMemory) sample_env (OrgCall ''u1'' ''o1'' (RemoveMember ''u2'')) (calm team_store))) = team_store"
    moreover have "gget (st_memberships (w_mem (snd (run_identity (sample_conf TxMemory) sample_env (OrgCall ''u1'' ''o1'' (RemoveMember ''u2'')) (calm team_store)))))
        (membership_key ''o1'' ''u2'') = None"
      by (simp add: remove_member_def check_removal_def authorize_def keeps_an_owner_def or_not_found_def tryE_def bindE_def
          healthy_read healthy_call get_membership_def tbl_get_def okE_def role_at_least_def count_owners_def lift_s_def
          list_memberships_def team_tables gget_Cons membership_key_def ada_owner_def bob_owner_def gvals_def
          remove_membership_def on_tbl_def tbl_delete_def gdel_def)
    ultimately show False by (simp add: team_tables gget_Cons membership_key_def)
  qed
  with org_changes_need_role [of "sample_conf TxMemory" sample_env "''u1''" "''o1''" "RemoveMember ''u2''" "calm team_store"]
  show ?thesis by simp
qed

text \<open>C23: accepting an invitation does what the invitation says and nothing more: it was pending and
  unexpired and addressed to the caller's email, the caller becomes a member of exactly its
  organization and project with exactly its role, roles the caller already had stay as they were,
  and the invitation is used up; under any store failures and in both transaction modes.\<close>

theorem accept_invitation_sound:
  assumes "accept_invitation cf en u email tok w = (Inr i, t)"
  shows "\<exists>ivt. ivt \<in> set (gvals (st_invitations (w_mem w))) \<and> inv_token ivt = tok \<and> inv_status ivt = InvitePending \<and>
    (is_zero (inv_expires_at ivt) \<or> env_now en 0 < inv_expires_at ivt) \<and> normalize_email email = inv_email ivt \<and>
    i = ivt\<lparr>inv_status := InviteAccepted\<rparr> \<and> w_mem t = accepted u ivt (w_mem w)"
proof -
  obtain x w1 where x: "on_read (get_invitation_by_token tok) w = (x, w1)" by (metis surj_pair)
  show ?thesis
  proof (cases x)
    case (Inl e)
    then show ?thesis using assms x by (auto simp: accept_invitation_def tryE_def failE_def split: if_split_asm)
  next
    case (Inr ivt)
    note r = read_ok [OF x [unfolded Inr]]
    have c: "inv_status ivt = InvitePending" "is_zero (inv_expires_at ivt) \<or> env_now en 0 < inv_expires_at ivt"
      "normalize_email email = inv_email ivt" and tx: "in_tx (cf_tx cf) (accept_tx u ivt) w1 = (Inr i, t)"
      using assms x Inr by (auto simp: accept_invitation_def tryE_def failE_def split: if_split_asm)
    have "w_mem t = accepted u ivt (w_mem w1) \<and> i = ivt\<lparr>inv_status := InviteAccepted\<rparr>"
      by (rule in_tx_both [OF tx]) (use accept_tx_ok in blast)
    with r c invitation_row [of tok "w_mem w" ivt] show ?thesis by metis
  qed
qed

text \<open>on a database, somebody who already belongs to the invitation's project can never accept it: the
  ignored conflict has aborted the transaction, so the call fails and nothing is stored, while the
  memory store accepts the same call.\<close>

theorem accept_existing_member_fails_on_database:
  assumes "healthy w" and "get_invitation_by_token tok (w_mem w) = Inr ivt" and "inv_status ivt = InvitePending"
    and "is_zero (inv_expires_at ivt) \<or> env_now en 0 < inv_expires_at ivt" and "normalize_email email = inv_email ivt"
    and "inv_project_id ivt \<noteq> []" and "gget (st_memberships (w_mem w)) (membership_key (inv_org_id ivt) u) = Some m"
    and "gget (st_project_members (w_mem w)) (project_member_key (inv_project_id ivt) u) = Some p"
    and "gget (st_invitations (w_mem w)) (inv_id ivt) = Some ivt"
  shows "fst (accept_invitation (cf\<lparr>cf_tx := TxRollback\<rparr>) en u email tok w) = Inl (IStore tx_aborted) \<and>
    w_mem (snd (accept_invitation (cf\<lparr>cf_tx := TxRollback\<rparr>) en u email tok w)) = w_mem w \<and>
    fst (accept_invitation (cf\<lparr>cf_tx := TxMemory\<rparr>) en u email tok w) = Inr (ivt\<lparr>inv_status := InviteAccepted\<rparr>)"
proof -
  have h: "w_faults w = []" "w_tx w = None" using assms(1) by (simp_all add: healthy_def)
  let ?v = "w\<lparr>w_tx := Some False\<rparr>"
  have mem: "on_read (get_membership (inv_org_id ivt) u) ?v = (Inr m, ?v)"
    using h assms(7) by (simp add: on_read_def tx_call readE_def get_membership_def tbl_get_def aborts_def)
  have conflict: "on_store (add_project_membership \<lparr>pm_project_id = inv_project_id ivt, pm_user_id = u, pm_role = inv_role ivt\<rparr>) ?v
      = (Inl ErrConflict, w\<lparr>w_tx := Some True\<rparr>)"
    using h assms(8) by (simp add: tx_call add_project_membership_def on_tbl_def tbl_create_def pmkey_def aborts_def)
  have "accept_tx u ivt ?v = (Inl (IStore tx_aborted), w\<lparr>w_tx := Some True\<rparr>)"
    using mem conflict assms(6)
    by (simp add: accept_tx_def tryE_def bindE_def okE_def lift_s_def failE_def aborted_call)
  then have "database_tx (accept_tx u ivt) w = (Inl (IStore tx_aborted), w)"
    using assms(1) h by (simp add: database_tx_def healthy_read)
  moreover have "fst (accept_tx u ivt w) = Inr (ivt\<lparr>inv_status := InviteAccepted\<rparr>)"
    using assms(1,6-9)
    by (simp add: accept_tx_def tryE_def bindE_def okE_def lift_s_def healthy_read healthy_call get_membership_def
        tbl_get_def add_project_membership_def update_invitation_def on_tbl_def tbl_create_def tbl_update_def pmkey_def)
  ultimately show ?thesis using assms(1-5)
    by (auto simp: accept_invitation_def tryE_def healthy_read in_tx_def [of TxRollback])
qed

lemma bob_email: "normalize_email ''Bob@example.com'' = ''bob@example.com''"
  by code_simp

lemma accept_existing_member_fails_on_database_witness:
  "fst (accept_invitation (sample_conf TxMemory\<lparr>cf_tx := TxRollback\<rparr>) sample_env ''u2'' ''Bob@example.com'' ''tok'' (calm team_store)) =
     Inl (IStore tx_aborted)"
proof -
  have "fst (accept_invitation (sample_conf TxMemory\<lparr>cf_tx := TxRollback\<rparr>) sample_env ''u2'' ''Bob@example.com'' ''tok'' (calm team_store)) =
       Inl (IStore tx_aborted) \<and>
    w_mem (snd (accept_invitation (sample_conf TxMemory\<lparr>cf_tx := TxRollback\<rparr>) sample_env ''u2'' ''Bob@example.com'' ''tok'' (calm team_store))) =
       w_mem (calm team_store) \<and>
    fst (accept_invitation (sample_conf TxMemory\<lparr>cf_tx := TxMemory\<rparr>) sample_env ''u2'' ''Bob@example.com'' ''tok'' (calm team_store)) =
       Inr (bob_invited\<lparr>inv_status := InviteAccepted\<rparr>)"
    by (rule accept_existing_member_fails_on_database [where m = bob_owner and p = bob_project])
      (simp_all add: team_tables get_invitation_by_token_def gvals_def bob_invited_def sample_env_def bob_email gget_Cons
        membership_key_def project_member_key_def)
  then show ?thesis by (rule conjunct1)
qed

lemma accept_invitation_sound_witness:
  "\<exists>t. accept_invitation (sample_conf TxMemory) sample_env ''u2'' ''Bob@example.com'' ''tok'' (calm team_store) =
      (Inr (bob_invited\<lparr>inv_status := InviteAccepted\<rparr>), t) \<and> w_mem t = accepted ''u2'' bob_invited team_store"
proof -
  have "fst (accept_invitation (sample_conf TxMemory) sample_env ''u2'' ''Bob@example.com'' ''tok'' (calm team_store)) =
      Inr (bob_invited\<lparr>inv_status := InviteAccepted\<rparr>)"
    by (simp add: accept_invitation_def accept_tx_def sample_conf_def tryE_def bindE_def okE_def lift_s_def healthy_read
        healthy_call get_invitation_by_token_def get_membership_def tbl_get_def add_project_membership_def update_invitation_def
        on_tbl_def tbl_create_def tbl_update_def pmkey_def team_tables gvals_def bob_invited_def bob_email sample_env_def
        gget_Cons membership_key_def project_member_key_def)
  then obtain t where t: "accept_invitation (sample_conf TxMemory) sample_env ''u2'' ''Bob@example.com'' ''tok'' (calm team_store) =
      (Inr (bob_invited\<lparr>inv_status := InviteAccepted\<rparr>), t)" by (metis prod.collapse)
  from accept_invitation_sound [OF t] have "w_mem t = accepted ''u2'' bob_invited team_store"
    by (auto simp: team_tables gvals_def)
  with t show ?thesis by blast
qed

lemma authorize_project_ok:
  assumes "authorize_project u g p least w = (Inr x, t)"
  shows "w_mem t = w_mem w \<and> (\<exists>row. gget (st_projects (w_mem w)) p = Some row \<and> proj_org_id row = g) \<and>
    (has_role u g RoleAdmin (w_mem w) \<or>
     (\<exists>pm. gget (st_project_members (w_mem w)) (project_member_key p u) = Some pm \<and> role_at_least (pm_role pm) least))"
proof -
  let ?direct = "tryE (on_read (get_project_membership p u))
      (\<lambda>e. if e = ErrNotFound then failE IForbidden else failE (IStore e))
      (\<lambda>m. if \<not> role_at_least (pm_role m) least then failE IForbidden else okE ())"
  obtain row w1 where pr: "project_of IForbidden g p w = (Inr row, w1)"
    and rest: "tryE (on_read (get_membership g u)) (\<lambda>_. ?direct)
        (\<lambda>m. if role_at_least (mem_role m) RoleAdmin then okE () else ?direct) w1 = (Inr x, t)"
    using assms unfolding authorize_project_def Let_def by (rule bindE_InrE)
  have row: "gget (st_projects (w_mem w)) p = Some row" "proj_org_id row = g" "w_mem w1 = w_mem w"
    using pr unfolding project_of_def
    by (auto simp: failE_def okE_def get_project_def elim!: tryE_E dest!: read_ok split: if_split_asm)
  have direct: "w_mem t = w_mem v \<and>
      (\<exists>pm. gget (st_project_members (w_mem v)) (project_member_key p u) = Some pm \<and> role_at_least (pm_role pm) least)"
    if "?direct v = (Inr x, t)" for v
    using that
    by (auto simp: failE_def okE_def get_project_membership_def elim!: tryE_E dest!: read_ok split: if_split_asm)
  from rest show ?thesis
  proof (rule tryE_E)
    fix e v assume r: "on_read (get_membership g u) w1 = (Inl e, v)" and d: "?direct v = (Inr x, t)"
    show ?thesis using direct [OF d] read_error [OF r] row by auto
  next
    fix m v assume r: "on_read (get_membership g u) w1 = (Inr m, v)"
      and k: "(if role_at_least (mem_role m) RoleAdmin then okE () else ?direct) v = (Inr x, t)"
    note g = read_ok [OF r]
    show ?thesis
    proof (cases "role_at_least (mem_role m) RoleAdmin")
      case True
      then show ?thesis using k g row by (auto simp: okE_def has_role_def get_membership_def)
    next
      case False
      then have d: "?direct v = (Inr x, t)" using k by simp
      show ?thesis using direct [OF d] g row by auto
    qed
  qed
qed

text \<open>access to a project is never granted across organizations: whatever the store failures, a
  caller who passes the check for a project under an organization is an admin of that very
  organization, or holds the needed role on the project, and the project belongs to it.\<close>

theorem project_access_sound:
  assumes "authorize_project u g p least w = (Inr x, t)"
  shows "w_mem t = w_mem w \<and> (\<exists>row. gget (st_projects (w_mem w)) p = Some row \<and> proj_org_id row = g) \<and>
    (has_role u g RoleAdmin (w_mem w) \<or>
     (\<exists>pm. gget (st_project_members (w_mem w)) (project_member_key p u) = Some pm \<and> role_at_least (pm_role pm) least))"
  by (rule authorize_project_ok [OF assms])

definition acme_project :: project where
  "acme_project = \<lparr>proj_id = ''p1'', proj_org_id = ''o1'', proj_name = ''Default'', proj_slug = ''default'',
     proj_is_default = True, proj_created_at = 0\<rparr>"

lemma project_access_sound_witness:
  "fst (authorize_project ''u2'' ''o1'' ''p1'' RoleMember (calm (team_store\<lparr>st_projects := [(''p1'', acme_project)]\<rparr>))) = Inr () \<and>
   has_role ''u2'' ''o1'' RoleAdmin (team_store\<lparr>st_projects := [(''p1'', acme_project)]\<rparr>)"
proof -
  let ?s = "team_store\<lparr>st_projects := [(''p1'', acme_project)]\<rparr>"
  have "fst (authorize_project ''u2'' ''o1'' ''p1'' RoleAdmin (calm ?s)) = Inr ()"
    "fst (authorize_project ''u2'' ''o1'' ''p1'' RoleMember (calm ?s)) = Inr ()"
    by (simp_all add: authorize_project_def project_of_def tryE_def bindE_def okE_def healthy_read get_project_def get_membership_def
        tbl_get_def team_tables gget_Cons membership_key_def acme_project_def bob_owner_def ada_owner_def role_at_least_def Let_def)
  moreover from this obtain t where "authorize_project ''u2'' ''o1'' ''p1'' RoleAdmin (calm ?s) = (Inr (), t)" by (metis prod.collapse)
  from project_access_sound [OF this] have "has_role ''u2'' ''o1'' RoleAdmin ?s"
    by (auto simp: team_tables gget_Cons project_member_key_def bob_project_def role_at_least_def)
  ultimately show ?thesis by simp
qed

lemma healthy_on_store [svc_keeps]: "keeps healthy (on_store m)" "keeps healthy (on_read r)"
  by (simp_all add: keeps_def healthy_call healthy_read)

lemma remove_member_ok:
  assumes "remove_member a g v w = (Inr (), t)"
  shows "st_memberships (w_mem t) = gdel (membership_key g v) (st_memberships (w_mem w))"
    and "st_projects (w_mem t) = st_projects (w_mem w)" and "st_project_members (w_mem t) = st_project_members (w_mem w)"
    and "healthy w \<Longrightarrow> healthy t"
proof -
  obtain x w1 where c: "check_removal a g v w = (Inr x, w1)" and k: "or_not_found (on_store (remove_membership g v)) w1 = (Inr (), t)"
    using assms unfolding remove_member_def by (rule bindE_InrE)
  have w1: "w_mem w1 = w_mem w" using keepsD [OF checks_read_only(2) refl, of a g v w] c by simp
  have "on_store (remove_membership g v) w1 = (Inr (), t)" using k by (rule or_not_found_E) auto
  then have m: "w_mem t = (w_mem w)\<lparr>st_memberships := gdel (membership_key g v) (st_memberships (w_mem w))\<rparr>"
    using store_ok w1 by (fastforce simp: remove_membership_def on_tbl_def tbl_delete_def split: option.splits)
  show "st_memberships (w_mem t) = gdel (membership_key g v) (st_memberships (w_mem w))"
    "st_projects (w_mem t) = st_projects (w_mem w)" "st_project_members (w_mem t) = st_project_members (w_mem w)"
    by (simp_all add: m)
  have "keeps healthy (remove_member a g v)"
    unfolding remove_member_def check_removal_def authorize_def keeps_an_owner_def count_owners_def by (intro svc_keeps)
  then show "healthy w \<Longrightarrow> healthy t" using assms keepsD by fastforce
qed

text \<open>C24: removing a member from an organization does not end the member's access to its projects: the
  project memberships stay, and the access check does not ask for membership of the organization.\<close>

theorem removed_member_keeps_project_access:
  assumes "healthy w" and "remove_member a g v w = (Inr (), t)"
    and "gget (st_projects (w_mem w)) p = Some row" and "proj_org_id row = g"
    and "gget (st_project_members (w_mem w)) (project_member_key p v) = Some pm" and "role_at_least (pm_role pm) least"
  shows "fst (authorize_project v g p least t) = Inr () \<and> \<not> has_role v g RoleMember (w_mem t)"
  using assms remove_member_ok [OF assms(2)]
  by (simp add: authorize_project_def project_of_def tryE_def bindE_def okE_def healthy_read get_project_def get_membership_def
      get_project_membership_def tbl_get_def has_role_def Let_def)

lemma removed_member_keeps_project_access_witness:
  "fst (authorize_project ''u2'' ''o1'' ''p1'' RoleMember
     (snd (remove_member ''u1'' ''o1'' ''u2'' (calm (team_store\<lparr>st_projects := [(''p1'', acme_project)]\<rparr>))))) = Inr ()"
proof -
  let ?w = "calm (team_store\<lparr>st_projects := [(''p1'', acme_project)]\<rparr>)"
  have "fst (remove_member ''u1'' ''o1'' ''u2'' ?w) = Inr ()"
    by (simp add: remove_member_def check_removal_def authorize_def keeps_an_owner_def or_not_found_def tryE_def bindE_def
        healthy_read healthy_call get_membership_def tbl_get_def okE_def role_at_least_def count_owners_def lift_s_def
        list_memberships_def team_tables gget_Cons membership_key_def ada_owner_def bob_owner_def gvals_def
        remove_membership_def on_tbl_def tbl_delete_def)
  then obtain t where t: "remove_member ''u1'' ''o1'' ''u2'' ?w = (Inr (), t)" by (metis prod.collapse)
  have "fst (authorize_project ''u2'' ''o1'' ''p1'' RoleMember t) = Inr () \<and> \<not> has_role ''u2'' ''o1'' RoleMember (w_mem t)"
    by (rule removed_member_keeps_project_access [OF _ t, where row = acme_project and pm = bob_project])
      (simp_all add: gget_Cons acme_project_def team_tables bob_project_def role_at_least_def)
  with t show ?thesis by simp
qed

end
