(* ===== verification/Kube_Names.thy ===== *)
theory Kube_Names
  imports Go_Time Identity_Text
begin

text \<open>
  The names of the deploy backend (\<open>kube/values.go\<close>, \<open>kube/dbengine.go\<close>): the normalisation
  every name goes through, namespaces, releases, hosts, certificates and listeners, and what an
  engine's key decides (data directory, initial environment, arguments). The hash in the name of
  a custom domain's objects is an argument (the hexadecimal SHA-256 of a string).

  The normalisation is several passes in the code (replace, trim, collapse); \<open>squeezed_words\<close>
  shows that they amount to one thing: the maximal runs of letters and digits, joined by single
  separators.
\<close>

section \<open>Normalisation\<close>

text \<open>\<open>re.ReplaceAllString(s, sep)\<close> for an expression of runs of characters outside a class.\<close>

fun replace_runs :: "(char \<Rightarrow> bool) \<Rightarrow> char \<Rightarrow> bool \<Rightarrow> string \<Rightarrow> string" where
  "replace_runs ok sep in_run [] = []"
| "replace_runs ok sep in_run (c # cs) =
     (if ok c then c # replace_runs ok sep False cs
      else if in_run then replace_runs ok sep True cs
      else sep # replace_runs ok sep True cs)"

text \<open>\<open>strings.Contains\<close> and \<open>strings.ReplaceAll\<close> of a doubled separator.\<close>

fun has_double :: "char \<Rightarrow> string \<Rightarrow> bool" where
  "has_double sep (x # y # s) \<longleftrightarrow> (x = sep \<and> y = sep) \<or> has_double sep (y # s)"
| "has_double sep s \<longleftrightarrow> False"

fun halve_runs :: "char \<Rightarrow> string \<Rightarrow> string" where
  "halve_runs sep (x # y # s) =
     (if x = sep \<and> y = sep then sep # halve_runs sep s else x # halve_runs sep (y # s))"
| "halve_runs sep s = s"

lemma length_halve: "length (halve_runs sep s) \<le> length s"
  by (induction sep s rule: halve_runs.induct) auto

lemma length_halve_less: "has_double sep s \<Longrightarrow> length (halve_runs sep s) < length s"
proof (induction sep s rule: halve_runs.induct)
  case (1 sep x y s)
  then show ?case using length_halve [of sep s] by auto
qed auto

function squeeze :: "char \<Rightarrow> string \<Rightarrow> string" where
  "squeeze sep s = (if has_double sep s then squeeze sep (halve_runs sep s) else s)"
  by pat_completeness auto
termination by (relation "measure (\<lambda>(_, s). length s)") (auto simp: length_halve_less)

declare squeeze.simps [simp del]

definition dns_char :: "char \<Rightarrow> bool" where
  "dns_char c \<longleftrightarrow> slug_char c \<or> c = CHR ''-''"

definition sanitize :: "string \<Rightarrow> string" where
  "sanitize s =
     squeeze (CHR ''-'') (trim_by (\<lambda>c. c = CHR ''-'')
       (replace_runs dns_char (CHR ''-'') False (to_lower (trim_space s))))"

text \<open>The reference: the maximal runs of characters of a class.\<close>

fun char_words :: "(char \<Rightarrow> bool) \<Rightarrow> string \<Rightarrow> string list" where
  "char_words p [] = []"
| "char_words p (c # s) =
     (if \<not> p c then char_words p s
      else if s = [] \<or> \<not> p (hd s) then [c] # char_words p s
      else case char_words p s of [] \<Rightarrow> [[c]] | w # ws \<Rightarrow> (c # w) # ws)"

text \<open>\<open>strings.Join\<close>.\<close>

fun join :: "string \<Rightarrow> string list \<Rightarrow> string" where
  "join sep [] = []"
| "join sep [w] = w"
| "join sep (w # ws) = w @ sep @ join sep ws"

lemma char_words_ne: "s \<noteq> [] \<Longrightarrow> p (hd s) \<Longrightarrow> \<exists>w ws. char_words p s = w # ws \<and> w \<noteq> [] \<and> hd w = hd s"
  by (cases s) (auto split: list.splits)

lemma char_words_skip: "\<not> p c \<Longrightarrow> char_words p (c # s) = char_words p s"
  by simp

definition starts :: "(char \<Rightarrow> bool) \<Rightarrow> string \<Rightarrow> bool" where
  "starts p s \<longleftrightarrow> s \<noteq> [] \<and> p (hd s)"

lemma char_words_cons_cong:
  "char_words p s = char_words p t \<Longrightarrow> starts p s = starts p t \<Longrightarrow> char_words p (c # s) = char_words p (c # t)"
  by (auto simp: starts_def)

lemma char_words_replace_runs:
  assumes ok: "\<And>c. p c \<Longrightarrow> ok c" and sep: "\<not> p sep"
  shows "char_words p (replace_runs ok sep b s) = char_words p s \<and>
    (\<not> b \<longrightarrow> starts p (replace_runs ok sep b s) = starts p s)"
proof (induction s arbitrary: b)
  case (Cons c s)
  have f: "char_words p (replace_runs ok sep False s) = char_words p s"
    "starts p (replace_runs ok sep False s) = starts p s" and t: "char_words p (replace_runs ok sep True s) = char_words p s"
    using Cons.IH by auto
  show ?case
  proof (cases "ok c")
    case True
    then show ?thesis using char_words_cons_cong [OF f, of c] by (simp add: starts_def)
  next
    case False
    then have "\<not> p c" using ok by blast
    then show ?thesis using False sep t by (simp add: starts_def)
  qed
qed simp

lemma char_words_halve: "\<not> p sep \<Longrightarrow> char_words p (halve_runs sep s) = char_words p s \<and> starts p (halve_runs sep s) = starts p s"
proof (induction sep s rule: halve_runs.induct)
  case (1 sep x y s)
  show ?case
  proof (cases "x = sep \<and> y = sep")
    case True
    then show ?thesis using 1 by (simp add: starts_def)
  next
    case False
    then have e: "halve_runs sep (x # y # s) = x # halve_runs sep (y # s)" by auto
    show ?thesis
      using 1 False char_words_cons_cong [of p "halve_runs sep (y # s)" "y # s" x] unfolding e
      by (simp add: starts_def del: char_words.simps)
  qed
qed auto

lemma char_words_squeeze: "\<not> p sep \<Longrightarrow> char_words p (squeeze sep s) = char_words p s"
  by (induction sep s rule: squeeze.induct) (subst squeeze.simps, simp add: char_words_halve)

lemma squeeze_single [simp]: "\<not> has_double sep (squeeze sep s)"
  by (induction sep s rule: squeeze.induct) (subst squeeze.simps, simp)

lemma hd_halve: "s \<noteq> [] \<Longrightarrow> halve_runs sep s \<noteq> [] \<and> hd (halve_runs sep s) = hd s"
  by (induction sep s rule: halve_runs.induct) auto

lemma last_halve: "s \<noteq> [] \<Longrightarrow> last (halve_runs sep s) = last s"
proof (induction sep s rule: halve_runs.induct)
  case (1 sep x y s)
  then show ?case using hd_halve [of s sep] hd_halve [of "y # s" sep] by (cases "s = []") auto
qed auto

lemma set_halve: "set (halve_runs sep s) \<subseteq> set s"
  by (induction sep s rule: halve_runs.induct) auto

lemma squeeze_ends: "s \<noteq> [] \<Longrightarrow> squeeze sep s \<noteq> [] \<and> hd (squeeze sep s) = hd s \<and> last (squeeze sep s) = last s"
  by (induction sep s rule: squeeze.induct) (subst (1 2 3) squeeze.simps, simp add: hd_halve last_halve)

lemma set_squeeze: "set (squeeze sep s) \<subseteq> set s"
proof (induction sep s rule: squeeze.induct)
  case (1 sep s)
  then show ?case using set_halve [of sep s] by (subst squeeze.simps) auto
qed

lemma replace_runs_chars: "c \<in> set (replace_runs ok sep b s) \<Longrightarrow> ok c \<or> c = sep"
  by (induction s arbitrary: b) (auto split: if_splits)

text \<open>A string that is its words joined by single separators.\<close>

lemma join_char_words:
  assumes "\<not> p sep" "\<forall>c \<in> set s. p c \<or> c = sep" "\<not> has_double sep s" "s = [] \<or> hd s \<noteq> sep \<and> last s \<noteq> sep"
  shows "join [sep] (char_words p s) = s"
  using assms(2-)
proof (induction "length s" arbitrary: s rule: less_induct)
  case less
  show ?case
  proof (cases s)
    case Nil
    then show ?thesis by simp
  next
    case (Cons x t)
    then have x: "p x" using less.prems by auto
    show ?thesis
    proof (cases t)
      case Nil
      then show ?thesis using Cons x by simp
    next
      case t: (Cons y u)
      show ?thesis
      proof (cases "p y")
        case True
        then have "y \<noteq> sep" using assms(1) by auto
        then have "join [sep] (char_words p t) = t"
          using less.hyps [of t] less.prems Cons t by (auto simp del: char_words.simps)
        moreover obtain w ws where "char_words p t = w # ws" using char_words_ne [of t p] True t by auto
        ultimately show ?thesis using Cons x t True by (cases ws) auto
      next
        case False
        then have y: "y = sep" using less.prems Cons t by auto
        then have u: "u \<noteq> []" using less.prems Cons t by auto
        then have hu: "hd u \<noteq> sep" using less.prems Cons t y by (cases u) auto
        moreover have nd: "\<not> has_double sep u" using less.prems(2) Cons t u by (cases u) auto
        ultimately have j: "join [sep] (char_words p u) = u"
          using less.hyps [of u] less.prems Cons t u by auto
        have "p (hd u)" using hu less.prems(1) Cons t u by (cases u) auto
        then obtain w ws where "char_words p u = w # ws" using char_words_ne [of u p] u by auto
        then show ?thesis using j Cons x t False y assms(1) by simp
      qed
    qed
  qed
qed

lemma char_words_skip_front: "char_words p (dropWhile q s) = char_words p s" if "\<And>c. q c \<Longrightarrow> \<not> p c"
  using that by (induction s) auto

lemma char_words_skip_back: "(\<And>c. c \<in> set t \<Longrightarrow> \<not> p c) \<Longrightarrow> char_words p (s @ t) = char_words p s"
proof (induction s)
  case Nil
  then show ?case by (induction t) auto
next
  case (Cons c s)
  then have "starts p (s @ t) = starts p s" by (cases s; cases t) (auto simp: starts_def)
  then show ?case using Cons char_words_cons_cong [of p "s @ t" s c] by (simp del: char_words.simps)
qed

lemma char_words_trim: "(\<And>c. q c \<Longrightarrow> \<not> p c) \<Longrightarrow> char_words p (trim_by q s) = char_words p s"
proof -
  assume q: "\<And>c. q c \<Longrightarrow> \<not> p c"
  let ?d = "dropWhile q s"
  have "?d = trim_by q s @ rev (takeWhile q (rev ?d))"
    unfolding trim_by_def by (metis rev_append rev_rev_ident takeWhile_dropWhile_id)
  then have "char_words p ?d = char_words p (trim_by q s)"
    using char_words_skip_back [of "rev (takeWhile q (rev ?d))" p "trim_by q s"] q
    by (metis set_rev set_takeWhileD)
  then show ?thesis using char_words_skip_front [of q p s] q by simp
qed

lemma squeezed_words:
  assumes "\<not> p sep" "\<And>c. p c \<Longrightarrow> ok c" "\<And>c. ok c \<Longrightarrow> p c \<or> c = sep"
  shows "squeeze sep (trim_by (\<lambda>c. c = sep) (replace_runs ok sep False s)) = join [sep] (char_words p s)"
proof -
  let ?r = "trim_by (\<lambda>c. c = sep) (replace_runs ok sep False s)" and ?q = "squeeze sep (trim_by (\<lambda>c. c = sep) (replace_runs ok sep False s))"
  have "char_words p ?r = char_words p (replace_runs ok sep False s)"
    by (rule char_words_trim) (use assms(1) in auto)
  then have "char_words p ?q = char_words p s"
    using char_words_squeeze [of p sep] char_words_replace_runs [of p ok sep False s] assms(1,2) by metis
  moreover have "\<forall>c \<in> set ?q. p c \<or> c = sep"
    using set_squeeze trim_by_subset replace_runs_chars assms(3) by blast
  moreover have "?q = [] \<or> hd ?q \<noteq> sep \<and> last ?q \<noteq> sep"
  proof (cases "?r = []")
    case True
    then show ?thesis by (simp add: squeeze.simps)
  next
    case False
    then show ?thesis
      using squeeze_ends [OF False] hd_trim [of "\<lambda>c. c = sep"] last_trim [of "\<lambda>c. c = sep"] by metis
  qed
  ultimately show ?thesis using join_char_words [of p sep ?q] assms(1) squeeze_single by metis
qed

text \<open>\<open>sanitize\<close> is one pass: lower-cased runs of letters and digits joined by dashes.\<close>

lemma slug_char_not_space: "is_space c \<Longrightarrow> \<not> slug_char c"
  by (auto simp: is_space_def slug_char_def Let_def)

lemma sanitize_words: "sanitize s = join ''-'' (char_words slug_char (to_lower s))"
proof -
  have "sanitize s = join ''-'' (char_words slug_char (to_lower (trim_space s)))"
    unfolding sanitize_def by (rule squeezed_words) (auto simp: dns_char_def)
  also have "char_words slug_char (to_lower (trim_space s)) = char_words slug_char (to_lower s)"
    by (metis trim_space_to_lower trim_space_def char_words_trim slug_char_not_space)
  finally show ?thesis .
qed

lemma char_words_chars: "w \<in> set (char_words p s) \<Longrightarrow> w \<noteq> [] \<and> (\<forall>c \<in> set w. p c)"
proof (induction s arbitrary: w)
  case (Cons c s)
  show ?case
  proof (cases "char_words p s")
    case Nil
    then show ?thesis using Cons.prems by (auto split: if_splits)
  next
    case (Cons v vs)
    then have "v \<noteq> [] \<and> (\<forall>c \<in> set v. p c)" "\<forall>u \<in> set vs. u \<noteq> [] \<and> (\<forall>c \<in> set u. p c)"
      using Cons.IH by auto
    then show ?thesis using Cons.prems Cons by (auto split: if_splits)
  qed
qed simp

lemma join_chars: "c \<in> set (join sep ws) \<Longrightarrow> c \<in> set sep \<or> (\<exists>w \<in> set ws. c \<in> set w)"
  by (induction sep ws rule: join.induct) auto

lemma sanitize_chars: "c \<in> set (sanitize s) \<Longrightarrow> slug_char c \<or> c = CHR ''-''"
  using join_chars [of c "''-''"] char_words_chars [of _ slug_char] unfolding sanitize_words
  by (metis empty_iff empty_set set_ConsD)

lemma lower_slug [simp]: "slug_char c \<Longrightarrow> lower_char c = c"
  by (auto simp: slug_char_def lower_char_def Let_def)

lemma lower_dash [simp]: "lower_char (CHR ''-'') = CHR ''-''"
  by (simp add: lower_char_def Let_def)

lemma to_lower_sanitize [simp]: "to_lower (sanitize s) = sanitize s"
  unfolding to_lower_def by (rule map_idI) (auto dest: sanitize_chars)

lemma char_words_join:
  "\<not> p sep \<Longrightarrow> (\<And>w. w \<in> set ws \<Longrightarrow> w \<noteq> [] \<and> (\<forall>c \<in> set w. p c)) \<Longrightarrow> char_words p (join [sep] ws) = ws"
proof (induction "[sep]" ws rule: join.induct)
  case (2 w)
  have "char_words p w = [w]" if "w \<noteq> []" "\<forall>c \<in> set w. p c" for w
    using that
  proof (induction w)
    case (Cons c w)
    then show ?case by (cases w) auto
  qed simp
  then show ?case using 2 by auto
next
  case (3 w v va)
  have a: "char_words p (w @ sep # r) = w # char_words p r" if "w \<noteq> []" "\<forall>c \<in> set w. p c" for w r
    using that
  proof (induction w)
    case (Cons c w)
    then show ?case using 3(2) by (cases w) auto
  qed simp
  have ws: "u \<noteq> [] \<and> (\<forall>c \<in> set u. p c)" if "u \<in> set (w # v # va)" for u using 3(3) that by blast
  then have "char_words p (join [sep] (v # va)) = v # va" using 3(1,2) by auto
  then show ?case using a [of w] ws [of w] by simp
qed simp

lemma sanitize_idem [simp]: "sanitize (sanitize s) = sanitize s"
proof -
  have "char_words slug_char (sanitize s) = char_words slug_char (to_lower s)"
    unfolding sanitize_words by (rule char_words_join) (auto dest: char_words_chars)
  then show ?thesis by (metis sanitize_words to_lower_sanitize)
qed

lemma dot_not_sanitized: "CHR ''.'' \<notin> set (sanitize s)"
  using sanitize_chars [of "CHR ''.''" s] by (auto simp: slug_char_def Let_def)

text \<open>The organization slugs of the identity service are such names already.\<close>

lemma has_double_iff: "has_double x s \<longleftrightarrow> (\<exists>a b. s = a @ x # x # b)"
proof (induction x s rule: has_double.induct)
  case (1 sep x y s)
  have "(\<exists>a b. x # y # s = a @ sep # sep # b) \<longleftrightarrow> (x = sep \<and> y = sep) \<or> (\<exists>a b. y # s = a @ sep # sep # b)"
    by (auto simp: Cons_eq_append_conv)
  then show ?case using 1 by simp
qed (auto simp: Cons_eq_append_conv)

lemma trim_infix: "\<exists>a b. s = a @ trim_by q s @ b"
proof -
  have "dropWhile q s = trim_by q s @ rev (takeWhile q (rev (dropWhile q s)))"
    unfolding trim_by_def by (metis rev_append rev_rev_ident takeWhile_dropWhile_id)
  then show ?thesis by (metis takeWhile_dropWhile_id)
qed

lemma trim_no_double: "\<not> has_double x s \<Longrightarrow> \<not> has_double x (trim_by q s)"
proof
  assume n: "\<not> has_double x s" and "has_double x (trim_by q s)"
  then obtain a b where "trim_by q s = a @ x # x # b" by (auto simp: has_double_iff)
  moreover obtain c d where "s = c @ trim_by q s @ d" using trim_infix by blast
  ultimately have "s = (c @ a) @ x # x # (b @ d)" by simp
  with n show False unfolding has_double_iff by blast
qed

lemma replace_runs_no_double:
  "\<not> ok sep \<Longrightarrow> \<not> has_double sep (replace_runs ok sep b s) \<and>
     (b \<longrightarrow> replace_runs ok sep b s = [] \<or> hd (replace_runs ok sep b s) \<noteq> sep)"
proof (induction s arbitrary: b)
  case (Cons c s)
  have nd: "\<not> has_double sep (x # t)" if "\<not> has_double sep t" "x \<noteq> sep \<or> t = [] \<or> hd t \<noteq> sep" for x t
    using that by (cases t) auto
  show ?case
  proof (cases "ok c")
    case True
    then have "c \<noteq> sep" using Cons.prems by blast
    then show ?thesis using True Cons.IH [of False] Cons.prems nd by simp
  next
    case False
    then show ?thesis using Cons.IH [of True] Cons.prems nd by simp
  qed
qed simp

lemma slugify_sanitize: "slugify s = (if sanitize s = [] then ''org'' else sanitize s)"
proof -
  let ?t = "to_lower (trim_space s)"
  have r: "dash_runs b t = replace_runs slug_char (CHR ''-'') b t" for b t
    by (induction t arbitrary: b) auto
  have "\<not> has_double (CHR ''-'') (trim_by (\<lambda>c. c = CHR ''-'') (dash_runs False ?t))"
    unfolding r by (rule trim_no_double) (simp add: replace_runs_no_double)
  then have "trim_by (\<lambda>c. c = CHR ''-'') (dash_runs False ?t)
      = squeeze (CHR ''-'') (trim_by (\<lambda>c. c = CHR ''-'') (replace_runs slug_char (CHR ''-'') False ?t))"
    unfolding r by (simp add: squeeze.simps)
  also have "\<dots> = join ''-'' (char_words slug_char ?t)" by (rule squeezed_words) auto
  also have "\<dots> = sanitize s"
    unfolding sanitize_def by (rule squeezed_words [symmetric]) (auto simp: dns_char_def)
  finally show ?thesis by (simp add: slugify_def Let_def)
qed

section \<open>Namespaces, releases, hosts\<close>

definition namespace_name :: "string \<Rightarrow> string \<Rightarrow> string" where
  "namespace_name org_slug proj_slug = ''vortex-'' @ sanitize org_slug @ ''-'' @ sanitize proj_slug"

definition release_name :: "string \<Rightarrow> string" where
  "release_name name = sanitize name"

definition host :: "string \<Rightarrow> string \<Rightarrow> string \<Rightarrow> string \<Rightarrow> string" where
  "host name proj_slug org_slug base =
     sanitize name @ ''.'' @ sanitize proj_slug @ ''.'' @ sanitize org_slug @ ''.'' @ base"

definition org_wildcard_host :: "string \<Rightarrow> string \<Rightarrow> string" where
  "org_wildcard_host org_slug base = ''*.'' @ sanitize org_slug @ ''.'' @ base"

definition project_wildcard_host :: "string \<Rightarrow> string \<Rightarrow> string \<Rightarrow> string" where
  "project_wildcard_host proj_slug org_slug base =
     ''*.'' @ sanitize proj_slug @ ''.'' @ sanitize org_slug @ ''.'' @ base"

definition org_cert_name :: "string \<Rightarrow> string" where
  "org_cert_name org_slug = ''vortex-org-'' @ sanitize org_slug"

definition org_cert_secret :: "string \<Rightarrow> string" where
  "org_cert_secret org_slug = ''vortex-org-tls-'' @ sanitize org_slug"

definition org_listener_name :: "string \<Rightarrow> string" where
  "org_listener_name org_slug = ''o-'' @ sanitize org_slug"

definition project_listener_name :: "string \<Rightarrow> string \<Rightarrow> string" where
  "project_listener_name org_slug proj_slug = ''o-'' @ sanitize org_slug @ ''-p-'' @ sanitize proj_slug"

definition domain_slug :: "(string \<Rightarrow> string) \<Rightarrow> string \<Rightarrow> string" where
  "domain_slug sha256_hex h0 =
     (let h = to_lower (trim_space h0);
          short = take 10 (sha256_hex h);
          p = sanitize h;
          prefix = (if length p > 40 then trim_by (\<lambda>c. c = CHR ''-'') (take 40 p) else p)
      in if prefix = [] then short else prefix @ ''-'' @ short)"

definition domain_cert_name :: "(string \<Rightarrow> string) \<Rightarrow> string \<Rightarrow> string" where
  "domain_cert_name sha h = ''vortex-dom-'' @ domain_slug sha h"

definition domain_cert_secret :: "(string \<Rightarrow> string) \<Rightarrow> string \<Rightarrow> string" where
  "domain_cert_secret sha h = ''vortex-dom-tls-'' @ domain_slug sha h"

definition domain_listener_prefix :: string where
  "domain_listener_prefix = ''d-''"

definition domain_listener_name :: "(string \<Rightarrow> string) \<Rightarrow> string \<Rightarrow> string" where
  "domain_listener_name sha h = domain_listener_prefix @ domain_slug sha h"

text \<open>A platform host determines the sanitized names it is made of.\<close>

lemma dotted_inject:
  "CHR ''.'' \<notin> set a \<Longrightarrow> CHR ''.'' \<notin> set b \<Longrightarrow> a @ CHR ''.'' # x = b @ CHR ''.'' # y \<longleftrightarrow> a = b \<and> x = y"
  by (auto simp: append_eq_append_conv2 Cons_eq_append_conv append_eq_Cons_conv)

lemma host_inject:
  "host n p g d = host n' p' g' d' \<longleftrightarrow>
     sanitize n = sanitize n' \<and> sanitize p = sanitize p' \<and> sanitize g = sanitize g' \<and> d = d'"
  by (simp add: host_def dotted_inject dot_not_sanitized)

text \<open>A namespace does not determine its organization and project.\<close>

lemma namespaces_meet: "namespace_name ''acme'' ''prod-web'' = namespace_name ''acme-prod'' ''web''"
  by code_simp

section \<open>Quantities\<close>

definition milli_cpu :: "real \<Rightarrow> string" where
  "milli_cpu cores = itoa (math_round (cores * 1000)) @ ''m''"

definition mib :: "int \<Rightarrow> string" where
  "mib mb = itoa mb @ ''Mi''"

definition gib :: "int \<Rightarrow> string" where
  "gib gb = itoa gb @ ''Gi''"

section \<open>Database engines\<close>

definition db_engine_key :: "string \<Rightarrow> string" where
  "db_engine_key key =
     (let k = to_lower (trim_space key)
      in if k = ''postgresql'' \<or> k = ''postgres'' then ''postgresql''
         else if k = ''mysql'' then ''mysql''
         else if k = ''mariadb'' then ''mariadb''
         else if k = ''mongodb'' \<or> k = ''mongo'' then ''mongodb''
         else if k = ''redis'' then ''redis''
         else [])"

definition data_dir :: "string \<Rightarrow> string" where
  "data_dir key =
     (let e = db_engine_key key
      in if e = ''postgresql'' then ''/var/lib/postgresql/data''
         else if e = ''mysql'' \<or> e = ''mariadb'' then ''/var/lib/mysql''
         else if e = ''mongodb'' then ''/data/db''
         else if e = ''redis'' then ''/data''
         else [])"

definition database_env :: "string \<Rightarrow> string \<Rightarrow> string \<Rightarrow> string \<Rightarrow> (string, string) gomap" where
  "database_env key db_name user password =
     (let e = db_engine_key key
      in if e = ''postgresql'' then
           [(''POSTGRES_DB'', db_name), (''POSTGRES_USER'', user), (''POSTGRES_PASSWORD'', password),
            (''PGDATA'', ''/var/lib/postgresql/data/pgdata'')]
         else if e = ''mysql'' \<or> e = ''mariadb'' then
           [(''MYSQL_ROOT_PASSWORD'', password), (''MYSQL_DATABASE'', db_name),
            (''MYSQL_USER'', user), (''MYSQL_PASSWORD'', password)]
         else if e = ''mongodb'' then
           [(''MONGO_INITDB_ROOT_USERNAME'', user), (''MONGO_INITDB_ROOT_PASSWORD'', password),
            (''MONGO_INITDB_DATABASE'', db_name)]
         else if e = ''redis'' then [(''REDIS_PASSWORD'', password)]
         else [])"

definition redis_args :: "string \<Rightarrow> string \<Rightarrow> string list" where
  "redis_args key password =
     (if db_engine_key key \<noteq> ''redis'' \<or> password = [] then []
      else [''redis-server'', ''--requirepass'', password])"

text \<open>Every engine the package knows gets a data directory and a password.\<close>

lemma known_engine:
  "db_engine_key key \<noteq> [] \<Longrightarrow> data_dir key \<noteq> [] \<and> p \<in> set (gvals (database_env key d u p))"
proof -
  assume "db_engine_key key \<noteq> []"
  then have "db_engine_key key \<in> {''postgresql'', ''mysql'', ''mariadb'', ''mongodb'', ''redis''}"
    by (auto simp: db_engine_key_def Let_def split: if_splits)
  then show ?thesis
    unfolding data_dir_def database_env_def Let_def
    by (elim insertE emptyE) (simp_all add: gvals_def)
qed

lemma database_env_wf: "gwf (database_env key d u p)"
  by (simp add: database_env_def gwf_def Let_def)

end
