(* ===== verification/Kube_Values.thy ===== *)
theory Kube_Values
  imports Kube_Names
begin

text \<open>
  Workloads and what the deploy backend renders them to: the records of \<open>kube/backend.go\<close>, the
  helpers of \<open>kube/workload.go\<close>, scheduling and overcommitted resources (\<open>kube/values.go\<close>), the
  chart values of \<open>buildValues\<close> and the autoscaler of \<open>buildKeda\<close> (\<open>kube/kube.go\<close>), and the
  rollout view of \<open>kube/rollout.go\<close>. The values are a tree: the marshalling to YAML and the run of
  the helm binary are not modelled. CPU and overcommit factors are real numbers.
\<close>

section \<open>Records\<close>

record quota =
  q_max_cpu :: real
  q_max_memory_mb :: int
  q_max_apps :: int
  q_default_cpu :: real
  q_default_memory_mb :: int
  q_cpu_factor :: real
  q_memory_factor :: real

record scaling =
  sc_min_replicas :: int
  sc_max_replicas :: int
  sc_polling_interval :: int
  sc_cooldown_period :: int
  sc_cpu_utilization :: int
  sc_http_trigger :: bool

definition no_scaling :: scaling where
  "no_scaling = \<lparr>sc_min_replicas = 0, sc_max_replicas = 0, sc_polling_interval = 0, sc_cooldown_period = 0,
     sc_cpu_utilization = 0, sc_http_trigger = False\<rparr>"

record workload =
  wl_org_slug :: string
  wl_project_slug :: string
  wl_name :: string
  wl_kind :: string
  wl_image :: string
  wl_port :: int
  wl_cpu :: real
  wl_memory_mb :: int
  wl_env :: "(string, string) gomap"
  wl_cpu_factor :: real
  wl_memory_factor :: real
  wl_template_key :: string
  wl_domains :: "string list"
  wl_region :: string
  wl_storage_gb :: int
  wl_storage_class :: string
  wl_image_pull_secret :: string
  wl_env_secret_name :: string
  wl_scaling :: scaling

record kube_conf =
  kc_base_domain :: string
  kc_gateway_name :: string
  kc_gateway_namespace :: string
  kc_shard_max_listeners :: int
  kc_cluster_issuer :: string
  kc_cpu_factor :: real
  kc_memory_factor :: real

text \<open>The values: what \<open>map[string]any\<close> holds here.\<close>

datatype val = VBool bool | VInt int | VStr string | VList "val list" | VMap "(string \<times> val) list"

definition entry :: "val \<Rightarrow> string \<Rightarrow> val option" where
  "entry v k = (case v of VMap m \<Rightarrow> map_of m k | _ \<Rightarrow> None)"

definition strings :: "string list \<Rightarrow> val" where
  "strings xs = VList (map VStr xs)"

text \<open>A path of keys into nested maps.\<close>

fun at_path :: "val \<Rightarrow> string list \<Rightarrow> val option" where
  "at_path v [] = Some v"
| "at_path v (k # ks) = (case entry v k of None \<Rightarrow> None | Some w \<Rightarrow> at_path w ks)"

definition opt_entry :: "bool \<Rightarrow> string \<Rightarrow> val \<Rightarrow> (string \<times> val) list" where
  "opt_entry c k v = (if c then [(k, v)] else [])"

section \<open>Helpers of a workload\<close>

definition is_word_press :: "workload \<Rightarrow> bool" where
  "is_word_press w \<longleftrightarrow> equal_fold (wl_template_key w) ''wordpress''"

definition default_port :: "workload \<Rightarrow> int" where
  "default_port w =
     (let k = to_lower (wl_template_key w)
      in if k = ''wordpress'' then 80
         else if k = ''redis'' then 6379
         else if k = ''postgresql'' \<or> k = ''postgres'' then 5432
         else if k = ''mysql'' \<or> k = ''mariadb'' then 3306
         else if k = ''mongodb'' \<or> k = ''mongo'' then 27017
         else 80)"

definition last_index :: "string \<Rightarrow> char \<Rightarrow> int" where
  "last_index s c =
     (if c \<in> set s then int (length s) - 1 - int (length (takeWhile (\<lambda>x. x \<noteq> c) (rev s))) else - 1)"

definition split_image :: "string \<Rightarrow> string \<times> string" where
  "split_image image0 =
     (let image = trim_space image0;
          last_slash = last_index image (CHR ''/'');
          last_colon = last_index image (CHR '':'')
      in if image = [] then (''nginx'', ''latest'')
         else if last_colon > last_slash then (take (nat last_colon) image, drop (nat last_colon + 1) image)
         else (image, ''latest''))"

definition backslash :: char where "backslash = CHR 0x5C"
definition quote :: char where "quote = CHR 0x27"

definition escape_char :: "char \<Rightarrow> string \<Rightarrow> string" where
  "escape_char c s = concat (map (\<lambda>x. if x = c then [backslash, c] else [x]) s)"

definition php_escape :: "string \<Rightarrow> string" where
  "php_escape s = escape_char quote (escape_char backslash s)"

definition php_define :: "string \<Rightarrow> string \<Rightarrow> string" where
  "php_define name value =
     ''define('' @ [quote] @ name @ [quote] @ '', '' @ [quote] @ value @ [quote] @ '');'' @ [CHR 0x0A]"

definition getenv :: "(string, string) gomap \<Rightarrow> string \<Rightarrow> string" where
  "getenv env k = (case gget env k of None \<Rightarrow> [] | Some v \<Rightarrow> v)"

definition wordpress_config_extra :: "(string, string) gomap \<Rightarrow> string" where
  "wordpress_config_extra env =
     (let get = (\<lambda>k. php_escape (getenv env k)); home = getenv env ''WP_HOME''
      in ''if (!defined('' @ [quote] @ ''DB_HOST'' @ [quote] @ '')) '' @ php_define ''DB_HOST'' (get ''WORDPRESS_DB_HOST'')
         @ php_define ''DB_NAME'' (get ''WORDPRESS_DB_NAME'')
         @ php_define ''DB_USER'' (get ''WORDPRESS_DB_USER'')
         @ php_define ''DB_PASSWORD'' (get ''WORDPRESS_DB_PASSWORD'')
         @ (if home \<noteq> [] then php_define ''WP_HOME'' (php_escape home) @ php_define ''WP_SITEURL'' (php_escape home)
            else [])
         @ ''if (isset($_SERVER['' @ [quote] @ ''HTTP_X_FORWARDED_PROTO'' @ [quote] @ '']) && $_SERVER[''
         @ [quote] @ ''HTTP_X_FORWARDED_PROTO'' @ [quote] @ ''] === '' @ [quote] @ ''https'' @ [quote]
         @ '') { $_SERVER['' @ [quote] @ ''HTTPS'' @ [quote] @ ''] = '' @ [quote] @ ''on'' @ [quote] @ ''; }'' @ [CHR 0x0A])"

definition merge_env :: "workload \<Rightarrow> (string, string) gomap" where
  "merge_env w =
     (if is_word_press w then gput ''WORDPRESS_CONFIG_EXTRA'' (wordpress_config_extra (wl_env w)) (wl_env w)
      else wl_env w)"

definition sanitize_domains :: "string list \<Rightarrow> string list" where
  "sanitize_domains ds = filter (\<lambda>d. d \<noteq> []) (map (\<lambda>d. to_lower (trim_space d)) ds)"

section \<open>Resources and scheduling\<close>

definition overcommit_resources :: "real \<Rightarrow> int \<Rightarrow> real \<Rightarrow> real \<Rightarrow> val" where
  "overcommit_resources cpu mem_mb cpu_factor mem_factor =
     VMap [(''requests'', VMap [(''cpu'', VStr (milli_cpu (cpu * cpu_factor))),
                               (''memory'', VStr (mib (math_round (real_of_int mem_mb * mem_factor))))]),
           (''limits'', VMap [(''cpu'', VStr (milli_cpu cpu)), (''memory'', VStr (mib mem_mb))])]"

definition topology_region_label :: string where
  "topology_region_label = ''topology.kubernetes.io/region''"

definition platform_region_label :: string where
  "platform_region_label = ''vortex.v60ai.com/region''"

definition platform_region_taint :: string where
  "platform_region_taint = ''vortex.v60ai.com/region''"

definition region_affinity_term :: "string \<Rightarrow> string \<Rightarrow> int \<Rightarrow> val" where
  "region_affinity_term label_key region weight =
     VMap [(''weight'', VInt weight),
           (''preference'', VMap [(''matchExpressions'', VList [VMap
              [(''key'', VStr label_key), (''operator'', VStr ''In''), (''values'', strings [region])]])])]"

text \<open>The affinity and the toleration; none for an empty region.\<close>

definition region_scheduling :: "string \<Rightarrow> (val \<times> val) option" where
  "region_scheduling region0 =
     (let region = sanitize region0
      in if region = [] then None
         else Some
           (VMap [(''nodeAffinity'', VMap [(''preferredDuringSchedulingIgnoredDuringExecution'',
              VList [region_affinity_term topology_region_label region 80,
                     region_affinity_term platform_region_label region 20])])],
            VMap [(''key'', VStr platform_region_taint), (''operator'', VStr ''Equal''),
                  (''value'', VStr region), (''effect'', VStr ''NoSchedule'')]))"

section \<open>The autoscaler\<close>

definition scale_target_kind :: "bool \<Rightarrow> string" where
  "scale_target_kind stateful = (if stateful then ''StatefulSet'' else ''Deployment'')"

definition keda_max :: "scaling \<Rightarrow> int" where
  "keda_max sc = (if sc_max_replicas sc \<le> 0 then 5 else sc_max_replicas sc)"

definition keda_min :: "scaling \<Rightarrow> bool \<Rightarrow> int" where
  "keda_min sc stateful =
     (let m0 = (if sc_min_replicas sc < 0 then 0 else sc_min_replicas sc);
          m1 = (if m0 > keda_max sc then keda_max sc else m0)
      in if stateful \<and> m1 < 1 then 1 else m1)"

definition build_keda :: "scaling \<Rightarrow> bool \<Rightarrow> val" where
  "build_keda sc stateful =
     (let polling = (if sc_polling_interval sc \<le> 0 then 30 else sc_polling_interval sc);
          cooldown = (if sc_cooldown_period sc \<le> 0 then 300 else sc_cooldown_period sc);
          cpu_util = (if sc_cpu_utilization sc \<le> 0 then 70 else sc_cpu_utilization sc);
          triggers = [VMap [(''type'', VStr ''cpu''), (''metricType'', VStr ''Utilization''),
                            (''metadata'', VMap [(''value'', VStr (itoa cpu_util))])]]
            @ (if sc_http_trigger sc \<and> \<not> stateful
               then [VMap [(''type'', VStr ''http''), (''metadata'', VMap [(''scaledObjectName'', VStr [])])]] else [])
      in VMap ([(''enabled'', VBool True),
                (''scaleTargetKind'', VStr (scale_target_kind stateful)),
                (''minReplicaCount'', VInt (keda_min sc stateful)),
                (''maxReplicaCount'', VInt (keda_max sc)),
                (''pollingInterval'', VInt polling),
                (''cooldownPeriod'', VInt cooldown),
                (''triggers'', VList triggers)]
               @ opt_entry (keda_min sc stateful = 0) ''idleReplicaCount'' (VInt 0)))"

section \<open>Persistence\<close>

definition min_db_storage_gb :: int where
  "min_db_storage_gb = 1"

text \<open>What a stateful workload adds to the deployment block and to the values.\<close>

definition build_persistence :: "workload \<Rightarrow> bool \<Rightarrow> (string \<times> val) list \<times> (string \<times> val) list" where
  "build_persistence w stateful =
     (if \<not> stateful then ([], [])
      else let storage_gb = (if wl_storage_gb w \<le> 0 then min_db_storage_gb else wl_storage_gb w);
               dir = data_dir (wl_template_key w);
               mount_path = (if dir = [] then ''/data'' else dir);
               class = trim_space (wl_storage_class w);
               vct = VMap ([(''name'', VStr ''data''), (''accessModes'', strings [''ReadWriteOnce'']),
                            (''resources'', VMap [(''requests'', VMap [(''storage'', VStr (gib storage_gb))])]),
                            (''volumeMode'', VStr ''Filesystem'')]
                           @ opt_entry (class \<noteq> []) ''storageClassName'' (VStr class))
           in ([(''extraVolumeMounts'', VList [VMap [(''name'', VStr ''data''), (''mountPath'', VStr mount_path)]])],
               [(''volumeClaimTemplates'', VList [vct]),
                (''persistentVolumeClaimRetentionPolicy'',
                   VMap [(''whenScaled'', VStr ''Retain''), (''whenDeleted'', VStr ''Retain'')])]))"

section \<open>Chart values\<close>

definition tenant_service_account :: string where
  "tenant_service_account = ''vortex-workload''"

definition tcp_probe :: "int \<Rightarrow> int \<Rightarrow> int \<Rightarrow> int \<Rightarrow> int \<Rightarrow> val" where
  "tcp_probe port delay period timeout failures =
     VMap [(''tcpSocket'', VMap [(''port'', VInt port)]), (''initialDelaySeconds'', VInt delay),
           (''periodSeconds'', VInt period), (''timeoutSeconds'', VInt timeout), (''failureThreshold'', VInt failures)]"

definition container_probes :: "workload \<Rightarrow> int \<Rightarrow> (string \<times> val) list" where
  "container_probes w port =
     (if is_word_press w
      then [(''livenessProbe'', tcp_probe port 60 30 5 5),
            (''readinessProbe'', VMap [
               (''httpGet'', VMap [(''path'', VStr ''/wp-includes/images/blank.gif''), (''port'', VInt port)]),
               (''initialDelaySeconds'', VInt 30), (''periodSeconds'', VInt 15),
               (''timeoutSeconds'', VInt 5), (''failureThreshold'', VInt 6)])]
      else [(''readinessProbe'', tcp_probe port 5 10 3 3), (''livenessProbe'', tcp_probe port 30 30 5 5)])"

definition is_stateful :: "workload \<Rightarrow> bool" where
  "is_stateful w \<longleftrightarrow> equal_fold (wl_kind w) ''database''"

definition workload_port :: "workload \<Rightarrow> int" where
  "workload_port w = (if wl_port w \<le> 0 then default_port w else wl_port w)"

definition region_entries :: "workload \<Rightarrow> (string \<times> val) list" where
  "region_entries w =
     (case region_scheduling (wl_region w) of
        None \<Rightarrow> []
      | Some (affinity, toleration) \<Rightarrow>
          [(''podLabels'', VMap [(''vortex.v60ai.com/region'', VStr (sanitize (wl_region w)))]),
           (''additionalPodAnnotations'', VMap [(''vortex.v60ai.com/region'', VStr (wl_region w))]),
           (''affinity'', affinity), (''tolerations'', VList [toleration])])"

definition deployment_values :: "kube_conf \<Rightarrow> workload \<Rightarrow> (string \<times> val) list" where
  "deployment_values kc w =
     (let stateful = is_stateful w; port = workload_port w;
          (repo, tag) = split_image (wl_image w); env = merge_env w;
          cpu_factor = (if wl_cpu_factor w \<le> 0 then kc_cpu_factor kc else wl_cpu_factor w);
          mem_factor = (if wl_memory_factor w \<le> 0 then kc_memory_factor kc else wl_memory_factor w);
          args = redis_args (wl_template_key w) (getenv env ''REDIS_PASSWORD'')
      in [(''enabled'', VBool True), (''stateful'', VBool stateful), (''replicaCount'', VInt 1),
          (''image'', VMap [(''repository'', VStr repo), (''tag'', VStr tag), (''pullPolicy'', VStr ''IfNotPresent'')]),
          (''resources'', overcommit_resources (wl_cpu w) (wl_memory_mb w) cpu_factor mem_factor),
          (''env'', VMap (map (\<lambda>(k, v). (k, VStr v)) env))]
         @ opt_entry (wl_image_pull_secret w \<noteq> []) ''imagePullSecrets''
             (VList [VMap [(''name'', VStr (wl_image_pull_secret w))]])
         @ opt_entry (wl_env_secret_name w \<noteq> []) ''envFrom''
             (VList [VMap [(''secretRef'', VMap [(''name'', VStr (wl_env_secret_name w))])]])
         @ [(''ports'', VList [VMap [(''name'', VStr ''http''), (''containerPort'', VInt port), (''protocol'', VStr ''TCP'')]])]
         @ fst (build_persistence w stateful)
         @ opt_entry (stateful \<and> args \<noteq> []) ''command'' (strings args)
         @ container_probes w port
         @ region_entries w)"

definition build_values :: "kube_conf \<Rightarrow> workload \<Rightarrow> string \<Rightarrow> val" where
  "build_values kc w h =
     (let stateful = is_stateful w; port = workload_port w;
          service = VMap [(''enabled'', VBool True), (''type'', VStr ''ClusterIP''),
            (''ports'', VList [VMap [(''name'', VStr ''http''), (''port'', VInt port), (''targetPort'', VInt port),
                                    (''protocol'', VStr ''TCP'')]])];
          gateway = VMap [(''enabled'', VBool (\<not> stateful)),
            (''parentRefs'', VList [VMap [(''name'', VStr (kc_gateway_name kc)), (''namespace'', VStr (kc_gateway_namespace kc))]]),
            (''hostnames'', strings (h # sanitize_domains (wl_domains w))), (''backendPort'', VInt port)];
          account = VMap [(''enabled'', VBool True), (''create'', VBool False), (''name'', VStr tenant_service_account),
            (''automountServiceAccountToken'', VBool False)]
      in VMap ([(''fullnameOverride'', VStr (release_name (wl_name w))),
                (''deployment'', VMap (deployment_values kc w)),
                (''service'', service), (''keda'', build_keda (wl_scaling w) stateful),
                (''gateway'', gateway), (''serviceAccount'', account)]
               @ snd (build_persistence w stateful)
               @ opt_entry (sanitize (wl_region w) \<noteq> []) ''extraLabels''
                   (VMap [(''vortex.v60ai.com/region'', VStr (sanitize (wl_region w)))])))"

section \<open>Rollouts\<close>

record rollout_status =
  ro_desired :: int
  ro_ready :: int
  ro_updated :: int
  ro_available :: int
  ro_observed_generation :: int
  ro_generation :: int
  ro_health :: string
  ro_phase :: string
  ro_reason :: string
  ro_message :: string

text \<open>What the code reads of a Deployment or StatefulSet object.\<close>

record condition =
  cn_type :: string
  cn_status :: string
  cn_reason :: string
  cn_message :: string

record controller =
  ct_replicas :: "int option"
  ct_ready :: int
  ct_updated :: int
  ct_available :: int
  ct_observed_generation :: int
  ct_generation :: int
  ct_conditions :: "condition list"

definition rollout_phase :: "rollout_status \<Rightarrow> string" where
  "rollout_phase rs =
     (if ro_desired rs = 0 then ''Scaled to zero''
      else if ro_ready rs < ro_desired rs then ''Pending''
      else ''Running'')"

definition derive_health :: "rollout_status \<Rightarrow> string" where
  "derive_health rs =
     (let stale = (ro_generation rs > 0 \<and> ro_observed_generation rs < ro_generation rs)
      in if ro_desired rs = 0 then ''scaled-zero''
         else if \<not> stale \<and> ro_ready rs \<ge> ro_desired rs \<and> ro_updated rs \<ge> ro_desired rs then ''complete''
         else ''progressing'')"

definition rollout_counts :: "controller \<Rightarrow> int \<Rightarrow> rollout_status" where
  "rollout_counts c available =
     \<lparr>ro_desired = (case ct_replicas c of None \<Rightarrow> 1 | Some n \<Rightarrow> n), ro_ready = ct_ready c,
      ro_updated = ct_updated c, ro_available = available,
      ro_observed_generation = ct_observed_generation c, ro_generation = ct_generation c,
      ro_health = [], ro_phase = [], ro_reason = [], ro_message = []\<rparr>"

definition failing :: "condition \<Rightarrow> bool" where
  "failing c \<longleftrightarrow> (cn_type c = ''ReplicaFailure'' \<and> cn_status c = ''True'') \<or>
                (cn_type c = ''Progressing'' \<and> cn_status c = ''False'')"

fun scan_conditions :: "condition list \<Rightarrow> rollout_status \<Rightarrow> rollout_status" where
  "scan_conditions [] rs = rs"
| "scan_conditions (c # cs) rs =
     scan_conditions cs
       (if failing c then rs\<lparr>ro_health := ''degraded'', ro_reason := cn_reason c, ro_message := cn_message c\<rparr> else rs)"

definition deployment_rollout :: "controller \<Rightarrow> rollout_status" where
  "deployment_rollout c =
     (let rs = scan_conditions (ct_conditions c) (rollout_counts c (ct_available c));
          rs2 = rs\<lparr>ro_phase := rollout_phase rs\<rparr>
      in if ro_health rs2 = [] then rs2\<lparr>ro_health := derive_health rs2\<rparr> else rs2)"

definition stateful_set_rollout :: "controller \<Rightarrow> rollout_status" where
  "stateful_set_rollout c =
     (let rs = rollout_counts c (ct_ready c); rs2 = rs\<lparr>ro_phase := rollout_phase rs\<rparr>
      in rs2\<lparr>ro_health := derive_health rs2\<rparr>)"

record status =
  s_phase :: string
  s_replicas :: int
  s_ready_replicas :: int

definition status_from :: "int \<Rightarrow> int \<Rightarrow> status" where
  "status_from replicas ready =
     \<lparr>s_phase = (if replicas = 0 then ''Scaled to zero'' else if ready < replicas then ''Pending'' else ''Running''),
      s_replicas = replicas, s_ready_replicas = ready\<rparr>"

text \<open>A rollout is reported complete only when every wanted replica runs the newest template.\<close>

lemma scan_conditions_frame:
  "ro_desired (scan_conditions cs rs) = ro_desired rs \<and> ro_ready (scan_conditions cs rs) = ro_ready rs \<and>
   ro_updated (scan_conditions cs rs) = ro_updated rs \<and> ro_generation (scan_conditions cs rs) = ro_generation rs \<and>
   ro_observed_generation (scan_conditions cs rs) = ro_observed_generation rs"
  by (induction cs arbitrary: rs) auto

lemma scan_conditions_health:
  "ro_health (scan_conditions cs rs) = (if \<exists>c \<in> set cs. failing c then ''degraded'' else ro_health rs)"
  by (induction cs arbitrary: rs) auto

lemma deployment_rollout_health:
  "ro_health (deployment_rollout c) =
     (if \<exists>x \<in> set (ct_conditions c). failing x then ''degraded''
      else let d = (case ct_replicas c of None \<Rightarrow> 1 | Some n \<Rightarrow> n)
           in if d = 0 then ''scaled-zero''
              else if (ct_generation c > 0 \<longrightarrow> ct_observed_generation c \<ge> ct_generation c) \<and> ct_ready c \<ge> d \<and> ct_updated c \<ge> d
              then ''complete'' else ''progressing'')"
  by (auto simp: deployment_rollout_def Let_def scan_conditions_health scan_conditions_frame derive_health_def
      rollout_counts_def)

section \<open>Values of PHP\<close>

text \<open>
  PHP reads the body of a single-quoted literal up to the first quote; a backslash before a quote
  or a backslash stands for that character, any other backslash for itself.
\<close>

fun php_read :: "string \<Rightarrow> (string \<times> string) option" where
  "php_read [] = None"
| "php_read [c] = (if c = quote then Some ([], []) else None)"
| "php_read (c # d # s) =
     (if c = quote then Some ([], d # s)
      else if c = backslash \<and> (d = quote \<or> d = backslash) then map_option (apfst (Cons d)) (php_read s)
      else map_option (apfst (Cons c)) (php_read (d # s)))"

lemma backslash_not_quote [simp]: "backslash \<noteq> quote" "quote \<noteq> backslash"
  by (simp_all add: backslash_def quote_def)

lemma escape_char_simps [simp]:
  "escape_char c [] = []"
  "escape_char c (x # s) = (if x = c then backslash # c # escape_char c s else x # escape_char c s)"
  by (simp_all add: escape_char_def)

lemma php_escape_simps [simp]:
  "php_escape [] = []"
  "php_escape (x # s) =
     (if x = backslash \<or> x = quote then backslash # x # php_escape s else x # php_escape s)"
  by (simp_all add: php_escape_def)

text \<open>An escaped value is read back as itself, and the literal ends where it should.\<close>

lemma php_read_escape: "php_read (php_escape v @ quote # rest) = Some (v, rest)"
proof (induction v)
  case Nil
  then show ?case by (cases rest) auto
next
  case (Cons x v)
  show ?case
  proof (cases "x = backslash \<or> x = quote")
    case True
    then show ?thesis using Cons.IH by auto
  next
    case False
    then obtain d s where "php_escape v @ quote # rest = d # s"
      by (cases "php_escape v @ quote # rest") auto
    then show ?thesis using False Cons.IH by simp
  qed
qed

section \<open>Autoscaling bounds\<close>

lemma keda_bounds:
  "0 \<le> keda_min sc d" "keda_min sc d \<le> keda_max sc" "1 \<le> keda_max sc" "d \<Longrightarrow> 1 \<le> keda_min sc d"
  by (auto simp: keda_min_def keda_max_def Let_def)

lemma build_keda_entries:
  "entry (build_keda sc d) ''minReplicaCount'' = Some (VInt (keda_min sc d))"
  "entry (build_keda sc d) ''maxReplicaCount'' = Some (VInt (keda_max sc))"
  "entry (build_keda sc d) ''idleReplicaCount'' = (if keda_min sc d = 0 then Some (VInt 0) else None)"
  "entry (build_keda sc d) ''scaleTargetKind'' = Some (VStr (scale_target_kind d))"
  by (simp_all add: build_keda_def entry_def opt_entry_def Let_def)

section \<open>What a database is rendered to\<close>

lemma build_values_entries:
  "entry (build_values kc w h) ''keda'' = Some (build_keda (wl_scaling w) (is_stateful w))"
  "at_path (build_values kc w h) [''gateway'', ''enabled''] = Some (VBool (\<not> is_stateful w))"
  "at_path (build_values kc w h) [''gateway'', ''hostnames''] = Some (strings (h # sanitize_domains (wl_domains w)))"
  "at_path (build_values kc w h) [''serviceAccount'', ''automountServiceAccountToken''] = Some (VBool False)"
  "entry (build_values kc w h) ''deployment'' = Some (VMap (deployment_values kc w))"
  by (simp_all add: build_values_def entry_def Let_def)

lemma build_values_retention:
  "is_stateful w \<Longrightarrow> entry (build_values kc w h) ''persistentVolumeClaimRetentionPolicy'' =
     Some (VMap [(''whenScaled'', VStr ''Retain''), (''whenDeleted'', VStr ''Retain'')])"
  "is_stateful w \<Longrightarrow> \<exists>vct. entry (build_values kc w h) ''volumeClaimTemplates'' = Some (VList [vct]) \<and>
     at_path vct [''resources'', ''requests'', ''storage''] =
       Some (VStr (gib (if wl_storage_gb w \<le> 0 then min_db_storage_gb else wl_storage_gb w)))"
  by (simp_all add: build_values_def build_persistence_def entry_def Let_def)

lemma build_values_stateless:
  "\<not> is_stateful w \<Longrightarrow> entry (build_values kc w h) ''volumeClaimTemplates'' = None"
  by (simp add: build_values_def build_persistence_def entry_def opt_entry_def Let_def)

lemma deployment_env:
  "map_of (deployment_values kc w) ''env'' = Some (VMap (map (\<lambda>(k, v). (k, VStr v)) (merge_env w)))"
  by (simp add: deployment_values_def Let_def case_prod_beta)

lemma deployment_env_from:
  "map_of (deployment_values kc w) ''envFrom'' =
     (if wl_env_secret_name w = [] then None
      else Some (VList [VMap [(''secretRef'', VMap [(''name'', VStr (wl_env_secret_name w))])]]))"
  by (simp add: deployment_values_def Let_def case_prod_beta opt_entry_def build_persistence_def container_probes_def
      region_entries_def split: option.split)

end
