(* ===== verification/Kube_Gateway.thy ===== *)
theory Kube_Gateway
  imports Kube_Values Store_Api
begin

text \<open>
  The listeners of custom domains and organizations on the shared Gateways
  (\<open>kube/gateway_shard.go\<close> and the TLS half of \<open>kube/kube.go\<close>). The state is the cluster's
  Gateways in list order and its Certificates. Before every single call of the cluster API the
  other control planes may change the Gateways, by a schedule, and the call may fail, by another
  schedule, before or after it took effect. An update carries the version that was read, and is
  refused when the Gateway has changed since (here the version is the Gateway itself);
  \<open>RetryOnConflict\<close> then runs the closure again from a fresh read, five times at most.
\<close>

section \<open>The cluster\<close>

record listener =
  ls_name :: string
  ls_hostname :: string
  ls_secret :: string

record gateway =
  gw_class :: string
  gw_infrastructure :: "string option"
  gw_listeners :: "listener list"

record certificate =
  crt_secret :: string
  crt_dns_names :: "string list"
  crt_issuer :: string

type_synonym pool = "(string, gateway) gomap"

record cluster =
  cl_gateways :: pool
  cl_certificates :: "(string, certificate) gomap"
  cl_faults :: "fault list"
  cl_others :: "(pool \<Rightarrow> pool) list"

text \<open>What the cluster API answers with, and the errors of this package.\<close>

datatype kerr =
    KNotFound | KAlreadyExists | KConflict | KUnavailable
  | KEmptyHost | KShardFull | KExhausted | KListenerLimit | KEmptySlug | KEmptyBase

type_synonym 'a kop = "(kerr, cluster, 'a) op"

text \<open>What the others do before a call.\<close>

definition others_act :: "cluster \<Rightarrow> cluster" where
  "others_act c =
     (case cl_others c of [] \<Rightarrow> c | f # fs \<Rightarrow> c\<lparr>cl_gateways := f (cl_gateways c), cl_others := fs\<rparr>)"

definition api :: "'a kop \<Rightarrow> 'a kop" where
  "api m c0 =
     (let c = others_act c0
      in case cl_faults c of
           [] \<Rightarrow> m c
         | NoFault # fs \<Rightarrow> m (c\<lparr>cl_faults := fs\<rparr>)
         | FailBefore # fs \<Rightarrow> (Inl KUnavailable, c\<lparr>cl_faults := fs\<rparr>)
         | FailAfter # fs \<Rightarrow> (Inl KUnavailable, snd (m (c\<lparr>cl_faults := fs\<rparr>))))"

definition list_gateways :: "(string \<times> gateway) list kop" where
  "list_gateways = api (readE (\<lambda>c. Inr (cl_gateways c)))"

definition get_gateway :: "string \<Rightarrow> gateway kop" where
  "get_gateway n = api (readE (\<lambda>c. case gget (cl_gateways c) n of None \<Rightarrow> Inl KNotFound | Some g \<Rightarrow> Inr g))"

definition put_gateway :: "string \<Rightarrow> gateway \<Rightarrow> gateway \<Rightarrow> unit kop" where
  "put_gateway n old g = api (\<lambda>c. case gget (cl_gateways c) n of
      None \<Rightarrow> (Inl KNotFound, c)
    | Some cur \<Rightarrow> if cur = old then (Inr (), c\<lparr>cl_gateways := gput n g (cl_gateways c)\<rparr>) else (Inl KConflict, c))"

definition create_gateway :: "string \<Rightarrow> gateway \<Rightarrow> unit kop" where
  "create_gateway n g = api (\<lambda>c. case gget (cl_gateways c) n of
      Some _ \<Rightarrow> (Inl KAlreadyExists, c)
    | None \<Rightarrow> (Inr (), c\<lparr>cl_gateways := gput n g (cl_gateways c)\<rparr>))"

definition delete_gateway :: "string \<Rightarrow> unit kop" where
  "delete_gateway n = api (\<lambda>c. case gget (cl_gateways c) n of
      None \<Rightarrow> (Inl KNotFound, c)
    | Some _ \<Rightarrow> (Inr (), c\<lparr>cl_gateways := gdel n (cl_gateways c)\<rparr>))"

text \<open>\<open>retry.RetryOnConflict\<close> with the attempts of \<open>retry.DefaultRetry\<close>.\<close>

fun retry_on_conflict :: "nat \<Rightarrow> 'a kop \<Rightarrow> 'a kop" where
  "retry_on_conflict 0 m = failE KConflict"
| "retry_on_conflict (Suc k) m =
     tryE m (\<lambda>e. if e = KConflict \<and> k > 0 then retry_on_conflict k m else failE e) okE"

definition conflict_attempts :: nat where "conflict_attempts = 5"

section \<open>Shards\<close>

definition max_gateway_listeners :: int where "max_gateway_listeners = 64"
definition base_listener_reserve :: int where "base_listener_reserve = 2"

definition gateway_shard_name :: "string \<Rightarrow> int \<Rightarrow> string" where
  "gateway_shard_name base idx = (if idx \<le> 0 then base else base @ ''-shard-'' @ itoa idx)"

definition gateway_shard_index :: "string \<Rightarrow> string \<Rightarrow> int option" where
  "gateway_shard_index base name =
     (let p = base @ ''-shard-''
      in if name = base then Some 0
         else if \<not> has_prefix name p then None
         else case atoi (drop (length p) name) of
                None \<Rightarrow> None
              | Some idx \<Rightarrow> if idx \<le> 0 then None else Some idx)"

definition per_shard_listener_budget :: "kube_conf \<Rightarrow> int" where
  "per_shard_listener_budget kc =
     (let budget = kc_shard_max_listeners kc
      in if budget \<le> 0 \<or> budget > max_gateway_listeners then max_gateway_listeners else budget)"

definition shard_custom_domain_capacity :: "kube_conf \<Rightarrow> int \<Rightarrow> int \<Rightarrow> int \<Rightarrow> int" where
  "shard_custom_domain_capacity kc idx custom listeners =
     (let budget = (if idx = 0 then per_shard_listener_budget kc - base_listener_reserve
                    else per_shard_listener_budget kc);
          free0 = budget - custom;
          ceiling_free = max_gateway_listeners - listeners;
          free1 = (if ceiling_free < free0 then ceiling_free else free0)
      in if free1 < 0 then 0 else free1)"

definition custom_listener_count :: "listener list \<Rightarrow> int" where
  "custom_listener_count ls = int (length (filter (\<lambda>l. has_prefix (ls_name l) domain_listener_prefix) ls))"

record gateway_shard =
  gs_index :: int
  gs_name :: string
  gs_custom :: int
  gs_total :: int

definition shard_view :: "string \<Rightarrow> string \<times> gateway \<Rightarrow> gateway_shard option" where
  "shard_view base e =
     (case gateway_shard_index base (fst e) of
        None \<Rightarrow> None
      | Some idx \<Rightarrow> Some \<lparr>gs_index = idx, gs_name = fst e,
                        gs_custom = custom_listener_count (gw_listeners (snd e)),
                        gs_total = int (length (gw_listeners (snd e)))\<rparr>)"

definition shards_of :: "string \<Rightarrow> pool \<Rightarrow> gateway_shard list" where
  "shards_of base p = sort_by (\<lambda>a b. gs_index a < gs_index b) (List.map_filter (shard_view base) p)"

definition list_gateway_shards :: "kube_conf \<Rightarrow> gateway_shard list kop" where
  "list_gateway_shards kc = bindE list_gateways (\<lambda>p. okE (shards_of (kc_gateway_name kc) p))"

definition holds_listener :: "string \<Rightarrow> gateway \<Rightarrow> bool" where
  "holds_listener lname g \<longleftrightarrow> lname \<in> ls_name ` set (gw_listeners g)"

definition normal_host :: "string \<Rightarrow> string" where
  "normal_host h = to_lower (trim_space h)"

definition shard_holding :: "string \<Rightarrow> string \<Rightarrow> pool \<Rightarrow> string option" where
  "shard_holding base lname p =
     map_option fst (find (\<lambda>e. gateway_shard_index base (fst e) \<noteq> None \<and> holds_listener lname (snd e)) p)"

definition shard_for_host :: "kube_conf \<Rightarrow> (string \<Rightarrow> string) \<Rightarrow> string \<Rightarrow> string option kop" where
  "shard_for_host kc sha h0 =
     (let h = normal_host h0
      in if h = [] then okE None
         else bindE list_gateways (\<lambda>p. okE (shard_holding (kc_gateway_name kc) (domain_listener_name sha h) p)))"

text \<open>A new shard is a clone of the primary Gateway without listeners.\<close>

definition ensure_shard_gateway :: "kube_conf \<Rightarrow> bool \<Rightarrow> string \<Rightarrow> unit kop" where
  "ensure_shard_gateway kc lb_sharing name =
     bindE (get_gateway (kc_gateway_name kc)) (\<lambda>primary.
       tryE (create_gateway name
               \<lparr>gw_class = gw_class primary,
                gw_infrastructure = (if lb_sharing then gw_infrastructure primary else None),
                gw_listeners = []\<rparr>)
         (\<lambda>e. if e = KAlreadyExists then okE () else failE e) okE)"

definition allocate_listener_shard :: "kube_conf \<Rightarrow> bool \<Rightarrow> (string \<Rightarrow> string) \<Rightarrow> string \<Rightarrow> string kop" where
  "allocate_listener_shard kc lb_sharing sha h =
     bindE (shard_for_host kc sha h) (\<lambda>found.
       case found of
         Some n \<Rightarrow> okE n
       | None \<Rightarrow>
           bindE (list_gateway_shards kc) (\<lambda>shards.
             if shards = [] then okE (kc_gateway_name kc)
             else case find (\<lambda>s. shard_custom_domain_capacity kc (gs_index s) (gs_custom s) (gs_total s) > 0) shards of
                    Some s \<Rightarrow> okE (gs_name s)
                  | None \<Rightarrow>
                      (let name = gateway_shard_name (kc_gateway_name kc) (gs_index (last shards) + 1)
                       in bindE (ensure_shard_gateway kc lb_sharing name) (\<lambda>_. okE name))))"

text \<open>\<open>domainListener\<close>: HTTPS on port 443, TLS terminated with the secret, routes of all namespaces.\<close>

definition domain_listener :: "string \<Rightarrow> string \<Rightarrow> string \<Rightarrow> listener" where
  "domain_listener name h secret = \<lparr>ls_name = name, ls_hostname = h, ls_secret = secret\<rparr>"

definition add_listener :: "listener \<Rightarrow> gateway \<Rightarrow> gateway" where
  "add_listener l g = g\<lparr>gw_listeners := gw_listeners g @ [l]\<rparr>"

definition shard_index_or_zero :: "kube_conf \<Rightarrow> string \<Rightarrow> int" where
  "shard_index_or_zero kc n = (case gateway_shard_index (kc_gateway_name kc) n of None \<Rightarrow> 0 | Some i \<Rightarrow> i)"

definition has_room :: "kube_conf \<Rightarrow> string \<Rightarrow> gateway \<Rightarrow> bool" where
  "has_room kc n g \<longleftrightarrow>
     shard_custom_domain_capacity kc (shard_index_or_zero kc n) (custom_listener_count (gw_listeners g))
       (int (length (gw_listeners g))) > 0"

definition merge_listener_into_gateway ::
  "kube_conf \<Rightarrow> (string \<Rightarrow> string) \<Rightarrow> string \<Rightarrow> string \<Rightarrow> string \<Rightarrow> unit kop" where
  "merge_listener_into_gateway kc sha n h secret =
     (let lname = domain_listener_name sha h
      in retry_on_conflict conflict_attempts (bindE (get_gateway n) (\<lambda>g.
           if holds_listener lname g then okE ()
           else if \<not> has_room kc n g then failE KShardFull
           else put_gateway n g (add_listener (domain_listener lname h secret) g))))"

fun ensure_listener_attempts ::
  "nat \<Rightarrow> kube_conf \<Rightarrow> bool \<Rightarrow> (string \<Rightarrow> string) \<Rightarrow> string \<Rightarrow> string \<Rightarrow> unit kop" where
  "ensure_listener_attempts 0 kc lb_sharing sha h secret = failE KExhausted"
| "ensure_listener_attempts (Suc k) kc lb_sharing sha h secret =
     bindE (allocate_listener_shard kc lb_sharing sha h) (\<lambda>n.
       tryE (merge_listener_into_gateway kc sha n h secret)
         (\<lambda>e. if e = KShardFull then ensure_listener_attempts k kc lb_sharing sha h secret else failE e)
         okE)"

definition ensure_gateway_listener ::
  "kube_conf \<Rightarrow> bool \<Rightarrow> (string \<Rightarrow> string) \<Rightarrow> string \<Rightarrow> string \<Rightarrow> unit kop" where
  "ensure_gateway_listener kc lb_sharing sha h0 secret =
     (let h = normal_host h0
      in if h = [] then failE KEmptyHost
         else ensure_listener_attempts 8 kc lb_sharing sha h
                (if secret = [] then domain_cert_secret sha h else secret))"

text \<open>Removal: the read-modify-write, then the collection of a shard it left empty.\<close>

definition drop_listener :: "string \<Rightarrow> gateway \<Rightarrow> gateway" where
  "drop_listener lname g = g\<lparr>gw_listeners := filter (\<lambda>l. ls_name l \<noteq> lname) (gw_listeners g)\<rparr>"

text \<open>The closure that is retried sets \<open>emptied\<close>, a variable outside of it, which keeps its value when a later
  attempt finds the listener gone.\<close>

fun take_off_attempts :: "nat \<Rightarrow> bool \<Rightarrow> kube_conf \<Rightarrow> string \<Rightarrow> string \<Rightarrow> bool kop" where
  "take_off_attempts 0 emptied kc n lname = failE KConflict"
| "take_off_attempts (Suc k) emptied kc n lname =
     tryE (get_gateway n)
       (\<lambda>e. if e = KNotFound then okE emptied else failE e)
       (\<lambda>g. if \<not> holds_listener lname g then okE emptied
            else let now_empty = (shard_index_or_zero kc n > 0 \<and> gw_listeners (drop_listener lname g) = [])
                 in tryE (put_gateway n g (drop_listener lname g))
                      (\<lambda>e. if e = KConflict \<and> k > 0 then take_off_attempts k now_empty kc n lname else failE e)
                      (\<lambda>_. okE now_empty))"

definition take_listener_off :: "kube_conf \<Rightarrow> (string \<Rightarrow> string) \<Rightarrow> string \<Rightarrow> string \<Rightarrow> bool kop" where
  "take_listener_off kc sha n h = take_off_attempts conflict_attempts False kc n (domain_listener_name sha h)"

definition collect_shard :: "string \<Rightarrow> unit kop" where
  "collect_shard n = tryE (delete_gateway n) (\<lambda>e. if e = KNotFound then okE () else failE e) okE"

definition remove_listener_from_gateway :: "kube_conf \<Rightarrow> (string \<Rightarrow> string) \<Rightarrow> string \<Rightarrow> string \<Rightarrow> unit kop" where
  "remove_listener_from_gateway kc sha n h =
     bindE (take_listener_off kc sha n h) (\<lambda>emptied. if emptied then collect_shard n else okE ())"

definition remove_gateway_listener :: "kube_conf \<Rightarrow> (string \<Rightarrow> string) \<Rightarrow> string \<Rightarrow> unit kop" where
  "remove_gateway_listener kc sha h0 =
     (let h = normal_host h0
      in if h = [] then okE ()
         else bindE (shard_for_host kc sha h) (\<lambda>found.
                case found of None \<Rightarrow> okE () | Some n \<Rightarrow> remove_listener_from_gateway kc sha n h))"

section \<open>Certificates and organization wildcards\<close>

definition upsert :: "unit kop \<Rightarrow> unit kop \<Rightarrow> unit kop" where
  "upsert create update = tryE create (\<lambda>e. if e = KAlreadyExists then update else failE e) okE"

definition upsert_certificate :: "string \<Rightarrow> certificate \<Rightarrow> unit kop" where
  "upsert_certificate n crt =
     (let put = (\<lambda>c. (Inr (), c\<lparr>cl_certificates := gput n crt (cl_certificates c)\<rparr>))
      in upsert
           (api (\<lambda>c. if gget (cl_certificates c) n \<noteq> None then (Inl KAlreadyExists, c) else put c))
           (bindE (api (readE (\<lambda>c. if gget (cl_certificates c) n = None then Inl KNotFound else Inr ()))) (\<lambda>_.
              api put)))"

definition ensure_domain_certificate :: "kube_conf \<Rightarrow> (string \<Rightarrow> string) \<Rightarrow> string \<Rightarrow> unit kop" where
  "ensure_domain_certificate kc sha h0 =
     (let h = normal_host h0
      in if h = [] then failE KEmptyHost
         else if kc_cluster_issuer kc = [] then okE ()
         else upsert_certificate (domain_cert_name sha h)
                \<lparr>crt_secret = domain_cert_secret sha h, crt_dns_names = [h], crt_issuer = kc_cluster_issuer kc\<rparr>)"

definition remove_domain_certificate :: "kube_conf \<Rightarrow> (string \<Rightarrow> string) \<Rightarrow> string \<Rightarrow> unit kop" where
  "remove_domain_certificate kc sha h0 =
     (let h = normal_host h0
      in if h = [] \<or> kc_cluster_issuer kc = [] then okE ()
         else tryE (api (\<lambda>c. if gget (cl_certificates c) (domain_cert_name sha h) = None then (Inl KNotFound, c)
                          else (Inr (), c\<lparr>cl_certificates := gdel (domain_cert_name sha h) (cl_certificates c)\<rparr>)))
                (\<lambda>e. if e = KNotFound then okE () else failE e) okE)"

definition ensure_wildcard_certificate :: "kube_conf \<Rightarrow> string \<Rightarrow> string \<Rightarrow> string list \<Rightarrow> unit kop" where
  "ensure_wildcard_certificate kc name secret dns_names =
     upsert_certificate name
       \<lparr>crt_secret = secret, crt_dns_names = dns_names, crt_issuer = kc_cluster_issuer kc\<rparr>"

text \<open>The listeners of one call, added to the primary Gateway together or not at all.\<close>

fun merge_specs :: "(string \<times> string) list \<Rightarrow> string \<Rightarrow> listener list \<Rightarrow> kerr + listener list" where
  "merge_specs [] secret ls = Inr ls"
| "merge_specs ((n, h) # specs) secret ls =
     (if n \<in> ls_name ` set ls then merge_specs specs secret ls
      else if int (length ls) \<ge> max_gateway_listeners then Inl KListenerLimit
      else merge_specs specs secret (ls @ [domain_listener n h secret]))"

definition ensure_gateway_listeners :: "kube_conf \<Rightarrow> (string \<times> string) list \<Rightarrow> string \<Rightarrow> unit kop" where
  "ensure_gateway_listeners kc specs secret =
     (if specs = [] then okE ()
      else retry_on_conflict conflict_attempts (bindE (get_gateway (kc_gateway_name kc)) (\<lambda>g.
             case merge_specs specs secret (gw_listeners g) of
               Inl e \<Rightarrow> failE e
             | Inr ls \<Rightarrow> if ls = gw_listeners g then okE ()
                        else put_gateway (kc_gateway_name kc) g (g\<lparr>gw_listeners := ls\<rparr>))))"

fun unseen_projects :: "string list \<Rightarrow> string list \<Rightarrow> string list" where
  "unseen_projects seen [] = []"
| "unseen_projects seen (p # ps) =
     (if p \<in> set seen then unseen_projects seen ps else p # unseen_projects (p # seen) ps)"

definition org_specs :: "string \<Rightarrow> string \<Rightarrow> string list \<Rightarrow> (string \<times> string) list" where
  "org_specs base slug projects =
     (org_listener_name slug, org_wildcard_host slug base) #
     map (\<lambda>p. (project_listener_name slug p, project_wildcard_host p slug base))
       (unseen_projects [] (sort_by (<) (filter (\<lambda>p. p \<noteq> []) (map sanitize projects))))"

definition ensure_org_wildcard :: "kube_conf \<Rightarrow> string \<Rightarrow> string list \<Rightarrow> unit kop" where
  "ensure_org_wildcard kc slug0 projects =
     (let slug = sanitize slug0; base = kc_base_domain kc
      in if slug = [] then failE KEmptySlug
         else if kc_cluster_issuer kc = [] then okE ()
         else if base = [] then failE KEmptyBase
         else let specs = org_specs base slug projects; secret = org_cert_secret slug
              in bindE (ensure_wildcard_certificate kc (org_cert_name slug) secret (map snd specs)) (\<lambda>_.
                   ensure_gateway_listeners kc specs secret))"

end
