(* ===== verification/Kube_Sharding.thy ===== *)
theory Kube_Sharding
  imports Kube_Gateway
begin

text \<open>
  What the gateway operations guarantee. \<open>pool_step\<close> is one atomic change of the Gateways by any
  control plane; every operation, whatever calls of the API fail, is a sequence of such changes,
  so what the steps keep holds under every interleaving of control planes. The operations that
  attach listeners only ever extend what is there. Both facts are instances of one argument over
  a preorder of pools (the locales). The last section is about the one step that is not safe: the
  deletion of a shard that was found empty a moment before.
\<close>

section \<open>Names of shards\<close>

lemma gateway_shard_index_name:
  assumes "0 \<le> idx" "is_i64 idx"
  shows "gateway_shard_index base (gateway_shard_name base idx) = Some idx"
proof (cases "idx = 0")
  case True
  then show ?thesis by (simp add: gateway_shard_index_def gateway_shard_name_def)
next
  case False
  then show ?thesis
    using assms atoi_itoa [OF assms(2)]
    by (simp add: gateway_shard_index_def gateway_shard_name_def has_prefix_def Let_def)
qed

section \<open>Operations and preorders of pools\<close>

text \<open>
  \<open>R\<close> relates the pools before and after an operation, and whatever the others do before any call
  of it stays within \<open>R\<close>, too.
\<close>

definition others_within :: "(pool \<Rightarrow> pool \<Rightarrow> bool) \<Rightarrow> cluster \<Rightarrow> bool" where
  "others_within R c \<longleftrightarrow> (\<forall>f \<in> set (cl_others c). \<forall>p. R p (f p))"

definition performs :: "(pool \<Rightarrow> pool \<Rightarrow> bool) \<Rightarrow> 'a kop \<Rightarrow> bool" where
  "performs R m \<longleftrightarrow> (\<forall>c r d. others_within R c \<longrightarrow> m c = (r, d) \<longrightarrow> R (cl_gateways c) (cl_gateways d) \<and> others_within R d)"

lemma performsD: "performs R m \<Longrightarrow> others_within R c \<Longrightarrow> m c = (r, d) \<Longrightarrow> R (cl_gateways c) (cl_gateways d) \<and> others_within R d"
  by (simp add: performs_def)

lemma others_within_faults [simp]: "others_within R (c\<lparr>cl_faults := fs\<rparr>) = others_within R c"
  by (simp add: others_within_def)

text \<open>A call made with success was made on the pool the others left.\<close>

lemma api_Inr:
  assumes "api m c = (Inr x, d)"
  shows "\<exists>fs. m ((others_act c)\<lparr>cl_faults := fs\<rparr>) = (Inr x, d)"
proof (cases "cl_faults (others_act c)")
  case Nil
  then have "(others_act c)\<lparr>cl_faults := []\<rparr> = others_act c" by (cases "others_act c") simp
  moreover have "m (others_act c) = (Inr x, d)" using assms Nil by (simp add: api_def Let_def)
  ultimately show ?thesis by metis
next
  case (Cons f fs)
  then show ?thesis using assms Cons by (auto simp: api_def Let_def split: fault.splits)
qed

lemma get_gateway_Inr: "get_gateway n c = (Inr g, d) \<Longrightarrow> gget (cl_gateways d) n = Some g"
proof -
  assume "get_gateway n c = (Inr g, d)"
  then obtain fs where "readE (\<lambda>c. case gget (cl_gateways c) n of None \<Rightarrow> Inl KNotFound | Some g \<Rightarrow> Inr g)
      ((others_act c)\<lparr>cl_faults := fs\<rparr>) = (Inr g, d)"
    unfolding get_gateway_def by (blast dest: api_Inr)
  then show ?thesis by (auto simp: readE_def split: option.splits)
qed

lemma put_gateway_Inr: "put_gateway n old g c = (Inr u, d) \<Longrightarrow> gget (cl_gateways d) n = Some g"
proof -
  assume "put_gateway n old g c = (Inr u, d)"
  then obtain fs where "(case gget (cl_gateways ((others_act c)\<lparr>cl_faults := fs\<rparr>)) n of
      None \<Rightarrow> (Inl KNotFound, (others_act c)\<lparr>cl_faults := fs\<rparr>)
    | Some cur \<Rightarrow> if cur = old
        then (Inr (), (others_act c)\<lparr>cl_faults := fs, cl_gateways := gput n g (cl_gateways ((others_act c)\<lparr>cl_faults := fs\<rparr>))\<rparr>)
        else (Inl KConflict, (others_act c)\<lparr>cl_faults := fs\<rparr>)) = (Inr u, d)"
    unfolding put_gateway_def by (blast dest: api_Inr)
  then show ?thesis by (auto split: option.splits if_splits)
qed

locale pool_growth =
  fixes kc :: kube_conf and R :: "pool \<Rightarrow> pool \<Rightarrow> bool"
  assumes refl: "R p p"
    and trans: "R p q \<Longrightarrow> R q r \<Longrightarrow> R p r"
    and add: "gget p n = Some g \<Longrightarrow> \<not> holds_listener (ls_name l) g \<Longrightarrow> has_room kc n g \<Longrightarrow> R p (gput n (add_listener l g) p)"
    and create: "gget p n = None \<Longrightarrow> gw_listeners g = [] \<Longrightarrow> R p (gput n g p)"
    and specs: "gget p n = Some g \<Longrightarrow> merge_specs sp secret (gw_listeners g) = Inr ls \<Longrightarrow>
      R p (gput n (g\<lparr>gw_listeners := ls\<rparr>) p)"
begin

lemma others_act_within: "others_within R c \<Longrightarrow> R (cl_gateways c) (cl_gateways (others_act c)) \<and> others_within R (others_act c)"
  using refl by (auto simp: others_act_def others_within_def split: list.splits)

lemma performs_ok: "performs R (okE x)"
  by (simp add: performs_def okE_def refl)

lemma performs_fail: "performs R (failE e)"
  by (simp add: performs_def failE_def refl)

lemma performs_bind:
  assumes m: "performs R m" and k: "\<And>x. performs R (k x)"
  shows "performs R (bindE m k)"
  unfolding performs_def
proof (intro allI impI)
  fix c r d assume w: "others_within R c" and "bindE m k c = (r, d)"
  then show "R (cl_gateways c) (cl_gateways d) \<and> others_within R d"
  proof (elim bindE_E)
    fix e assume "m c = (Inl e, d)"
    then show ?thesis by (rule performsD [OF m w])
  next
    fix y u assume a: "m c = (Inr y, u)" and b: "k y u = (r, d)"
    then show ?thesis using performsD [OF m w a] performsD [OF k _ b] trans by blast
  qed
qed

lemma performs_try:
  assumes m: "performs R m" and h: "\<And>e. performs R (h e)" and k: "\<And>x. performs R (k x)"
  shows "performs R (tryE m h k)"
  unfolding performs_def
proof (intro allI impI)
  fix c r d assume w: "others_within R c" and "tryE m h k c = (r, d)"
  then show "R (cl_gateways c) (cl_gateways d) \<and> others_within R d"
  proof (elim tryE_E)
    fix e u assume a: "m c = (Inl e, u)" and b: "h e u = (r, d)"
    then show ?thesis using performsD [OF m w a] performsD [OF h _ b] trans by blast
  next
    fix y u assume a: "m c = (Inr y, u)" and b: "k y u = (r, d)"
    then show ?thesis using performsD [OF m w a] performsD [OF k _ b] trans by blast
  qed
qed

lemma performs_if: "(b \<Longrightarrow> performs R m) \<Longrightarrow> (\<not> b \<Longrightarrow> performs R n) \<Longrightarrow> performs R (if b then m else n)"
  by simp

lemma performs_option:
  "performs R m \<Longrightarrow> (\<And>x. performs R (k x)) \<Longrightarrow> performs R (case v of None \<Rightarrow> m | Some x \<Rightarrow> k x)"
  by (cases v) simp_all

lemma performs_sum:
  "(\<And>e. v = Inl e \<Longrightarrow> performs R (h e)) \<Longrightarrow> (\<And>x. v = Inr x \<Longrightarrow> performs R (k x)) \<Longrightarrow>
     performs R (case v of Inl e \<Rightarrow> h e | Inr x \<Rightarrow> k x)"
  by (cases v) simp_all

text \<open>One call: the others, then the call itself if it is not lost.\<close>

lemma performs_api:
  assumes "\<And>c. R (cl_gateways c) (cl_gateways (snd (m c))) \<and> cl_others (snd (m c)) = cl_others c"
  shows "performs R (api m)"
  unfolding performs_def
proof (intro allI impI)
  fix c r d assume w: "others_within R c" and a: "api m c = (r, d)"
  let ?c = "others_act c"
  have m: "R (cl_gateways ?c) (cl_gateways (snd (m x))) \<and> others_within R (snd (m x))"
    if "cl_gateways x = cl_gateways ?c" "cl_others x = cl_others ?c" for x
    using assms [of x] that others_act_within [OF w] by (simp add: others_within_def)
  have "R (cl_gateways ?c) (cl_gateways d) \<and> others_within R d"
  proof (cases "cl_faults ?c")
    case Nil
    then show ?thesis using a m [of ?c] by (simp add: api_def Let_def)
  next
    case (Cons f fs)
    then show ?thesis
      using a m [of "?c\<lparr>cl_faults := fs\<rparr>"] others_act_within [OF w] refl by (cases f) (auto simp: api_def Let_def)
  qed
  then show "R (cl_gateways c) (cl_gateways d) \<and> others_within R d" using others_act_within [OF w] trans by blast
qed

lemma performs_read: "performs R (api (readE f))"
  by (rule performs_api) (simp add: readE_def refl)

lemma performs_list: "performs R list_gateways"
  by (simp add: list_gateways_def performs_read)

lemma performs_get: "performs R (get_gateway n)"
  by (simp add: get_gateway_def performs_read)

lemma performs_create: "gw_listeners g = [] \<Longrightarrow> performs R (create_gateway n g)"
  unfolding create_gateway_def by (rule performs_api) (auto split: option.splits intro: create refl)

text \<open>An update goes through on the very Gateway that was read.\<close>

lemma performs_put: "(\<And>p. gget p n = Some g \<Longrightarrow> R p (gput n g' p)) \<Longrightarrow> performs R (put_gateway n g g')"
  unfolding put_gateway_def by (rule performs_api) (auto split: option.splits intro: refl)

lemma performs_retry: "performs R m \<Longrightarrow> performs R (retry_on_conflict k m)"
  by (induction k) (auto intro!: performs_fail performs_try performs_ok performs_if)

lemma performs_merge: "performs R (merge_listener_into_gateway kc sha n h secret)"
  unfolding merge_listener_into_gateway_def Let_def
  by (intro performs_retry performs_bind performs_get performs_if performs_ok performs_fail performs_put add)
     (simp_all add: domain_listener_def)

lemma performs_listeners: "performs R (ensure_gateway_listeners kc sp secret)"
  unfolding ensure_gateway_listeners_def
  by (intro performs_retry performs_bind performs_get performs_if performs_sum performs_ok performs_fail performs_put specs)

lemmas performing = performs_ok performs_fail performs_bind performs_try performs_if performs_option
  performs_read performs_list performs_get performs_create performs_merge performs_listeners

lemma performs_certificate: "performs R (upsert_certificate n crt)"
  unfolding upsert_certificate_def upsert_def Let_def
  by (intro performs_try performs_bind performs_if performs_ok performs_fail performs_read performs_api) (auto simp: refl)

lemma performs_allocate: "performs R (allocate_listener_shard kc lb sha h)"
  unfolding allocate_listener_shard_def shard_for_host_def list_gateway_shards_def ensure_shard_gateway_def Let_def
  by (intro performing) auto

lemma performs_attempts: "performs R (ensure_listener_attempts k kc lb sha h secret)"
  by (induction k) (auto intro!: performing performs_allocate)

lemma performs_ensure: "performs R (ensure_gateway_listener kc lb sha h secret)"
  unfolding ensure_gateway_listener_def Let_def by (intro performing performs_attempts)

lemma performs_org: "performs R (ensure_org_wildcard kc slug ps)"
  unfolding ensure_org_wildcard_def ensure_wildcard_certificate_def Let_def
  by (intro performing performs_certificate)

end

locale pool_change = pool_growth +
  assumes drop: "gget p n = Some g \<Longrightarrow> R p (gput n (drop_listener lname g) p)"
    and delete: "gget p n = Some g \<Longrightarrow> R p (gdel n p)"
begin

lemma performs_collect: "performs R (collect_shard n)"
  unfolding collect_shard_def delete_gateway_def
  by (intro performs_try performs_if performs_ok performs_fail performs_api) (auto split: option.splits intro: delete refl)

lemma performs_take_off: "performs R (take_off_attempts k emptied kc n lname)"
proof (induction k arbitrary: emptied)
  case (Suc k)
  show ?case
    unfolding take_off_attempts.simps Let_def
    by (intro performs_try performs_get performs_if performs_ok performs_fail performs_put drop Suc.IH)
qed (simp add: performs_fail)

lemma performs_remove: "performs R (remove_gateway_listener kc sha h)"
  unfolding remove_gateway_listener_def remove_listener_from_gateway_def take_listener_off_def shard_for_host_def Let_def
  by (intro performing performs_take_off performs_collect)

end

section \<open>Steps of many control planes\<close>

inductive pool_step :: "kube_conf \<Rightarrow> pool \<Rightarrow> pool \<Rightarrow> bool" for kc where
  add: "gget p n = Some g \<Longrightarrow> \<not> holds_listener (ls_name l) g \<Longrightarrow> has_room kc n g \<Longrightarrow>
    pool_step kc p (gput n (add_listener l g) p)"
| create: "gget p n = None \<Longrightarrow> gw_listeners g = [] \<Longrightarrow> pool_step kc p (gput n g p)"
| specs: "gget p n = Some g \<Longrightarrow> merge_specs sp secret (gw_listeners g) = Inr ls \<Longrightarrow>
    pool_step kc p (gput n (g\<lparr>gw_listeners := ls\<rparr>) p)"
| drop: "gget p n = Some g \<Longrightarrow> pool_step kc p (gput n (drop_listener lname g) p)"
| delete: "gget p n = Some g \<Longrightarrow> pool_step kc p (gdel n p)"

interpretation steps: pool_change kc "(pool_step kc)\<^sup>*\<^sup>*" for kc
  by unfold_locales (auto intro: pool_step.intros)

text \<open>At most 64 listeners on a Gateway, with distinct names: what the Gateway API accepts.\<close>

definition valid_gateway :: "gateway \<Rightarrow> bool" where
  "valid_gateway g \<longleftrightarrow> length (gw_listeners g) \<le> 64 \<and> distinct (map ls_name (gw_listeners g))"

definition valid_pool :: "pool \<Rightarrow> bool" where
  "valid_pool p \<longleftrightarrow> (\<forall>n g. gget p n = Some g \<longrightarrow> valid_gateway g)"

lemma has_room_limit: "has_room kc n g \<Longrightarrow> length (gw_listeners g) < 64"
  by (auto simp: has_room_def shard_custom_domain_capacity_def max_gateway_listeners_def Let_def split: if_splits)

lemma merge_specs_prefix: "merge_specs sp secret ls = Inr ls' \<Longrightarrow> \<exists>new. ls' = ls @ new \<and> ls_name ` set new \<subseteq> fst ` set sp"
proof (induction sp arbitrary: ls)
  case (Cons a sp)
  obtain n h where a: "a = (n, h)" by (cases a)
  show ?case
  proof (cases "n \<in> ls_name ` set ls")
    case True
    then have "merge_specs sp secret ls = Inr ls'" using Cons.prems a by simp
    from Cons.IH [OF this] show ?thesis by (auto intro: subset_insertI2 simp: image_subset_iff)
  next
    case False
    then have "merge_specs sp secret (ls @ [domain_listener n h secret]) = Inr ls'"
      using Cons.prems a by (auto split: if_splits)
    then obtain new where "ls' = (ls @ [domain_listener n h secret]) @ new" "ls_name ` set new \<subseteq> fst ` set sp"
      using Cons.IH by blast
    then show ?thesis using a by (intro exI [of _ "domain_listener n h secret # new"]) (auto simp: domain_listener_def)
  qed
qed simp

lemma merge_specs_valid:
  "merge_specs sp secret ls = Inr ls' \<Longrightarrow> length ls \<le> 64 \<Longrightarrow> distinct (map ls_name ls) \<Longrightarrow>
     length ls' \<le> 64 \<and> distinct (map ls_name ls')"
proof (induction sp secret ls rule: merge_specs.induct)
  case (2 n h specs secret ls)
  then show ?case
    by (auto simp: max_gateway_listeners_def domain_listener_def split: if_splits)
qed simp

lemma merge_specs_holds: "merge_specs sp secret ls = Inr ls' \<Longrightarrow> n \<in> fst ` set sp \<Longrightarrow> n \<in> ls_name ` set ls'"
proof (induction sp arbitrary: ls)
  case (Cons a sp)
  obtain m h where a: "a = (m, h)" by (cases a)
  show ?case
  proof (cases "n \<in> fst ` set sp")
    case True
    then show ?thesis using Cons a by (auto split: if_splits)
  next
    case False
    then have n: "n = m" using Cons.prems a by auto
    have keep: "x \<in> ls_name ` set us'" if "merge_specs sp secret us = Inr us'" "x \<in> ls_name ` set us" for us us' x
      using merge_specs_prefix [OF that(1)] that(2) by auto
    show ?thesis using Cons.prems(1) a n by (auto split: if_splits simp: domain_listener_def intro: keep)
  qed
qed simp

lemma pool_step_valid: "pool_step kc p q \<Longrightarrow> valid_pool p \<Longrightarrow> valid_pool q"
proof (induction rule: pool_step.induct)
  case (add p n g l)
  then show ?case
    using has_room_limit [OF add(3)]
    by (auto simp: valid_pool_def valid_gateway_def add_listener_def holds_listener_def split: if_splits)
next
  case (specs p n g sp secret ls)
  then show ?case
    using merge_specs_valid [OF specs(2)] by (auto simp: valid_pool_def valid_gateway_def split: if_splits)
next
  case (drop p n g lname)
  then have "valid_gateway (drop_listener lname g)"
    by (auto simp: valid_pool_def valid_gateway_def drop_listener_def distinct_map_filter
        intro: order_trans [OF length_filter_le])
  then show ?case using drop by (auto simp: valid_pool_def split: if_splits)
qed (auto simp: valid_pool_def valid_gateway_def split: if_splits)

lemma pool_steps_valid: "(pool_step kc)\<^sup>*\<^sup>* p q \<Longrightarrow> valid_pool p \<Longrightarrow> valid_pool q"
  by (induction rule: rtranclp_induct) (auto intro: pool_step_valid)

text \<open>The operations of the package, run by one control plane.\<close>

datatype gateway_call =
    AttachDomain string string
  | DetachDomain string
  | ProvisionOrg string "string list"

definition run_gateway :: "kube_conf \<Rightarrow> bool \<Rightarrow> (string \<Rightarrow> string) \<Rightarrow> gateway_call \<Rightarrow> unit kop" where
  "run_gateway kc lb sha call =
     (case call of
        AttachDomain h secret \<Rightarrow> ensure_gateway_listener kc lb sha h secret
      | DetachDomain h \<Rightarrow> remove_gateway_listener kc sha h
      | ProvisionOrg slug ps \<Rightarrow> ensure_org_wildcard kc slug ps)"

lemma run_gateway_steps: "performs (pool_step kc)\<^sup>*\<^sup>* (run_gateway kc lb sha call)"
  by (cases call) (simp_all add: run_gateway_def steps.performs_ensure steps.performs_remove steps.performs_org)

section \<open>Attaching only extends\<close>

definition extends :: "pool \<Rightarrow> pool \<Rightarrow> bool" where
  "extends p q \<longleftrightarrow> (\<forall>n g. gget p n = Some g \<longrightarrow>
     (\<exists>g' new. gget q n = Some g' \<and> gw_listeners g' = gw_listeners g @ new))"

interpretation growth: pool_growth kc extends for kc
proof unfold_locales
  fix p q r :: pool
  assume "extends p q" "extends q r"
  then show "extends p r" unfolding extends_def by (metis append.assoc)
qed (auto simp: extends_def add_listener_def split: if_splits dest!: merge_specs_prefix)

lemma extends_holds:
  "extends p q \<Longrightarrow> gget p n = Some g \<Longrightarrow> holds_listener l g \<Longrightarrow> \<exists>g'. gget q n = Some g' \<and> holds_listener l g'"
  unfolding extends_def holds_listener_def by fastforce

text \<open>A listener that was attached is there.\<close>

lemma retry_Inr:
  assumes "retry_on_conflict k m c = (Inr x, d)" and "\<And>c. m c = (Inr x, d) \<Longrightarrow> Q"
  shows Q
  using assms(1)
proof (induction k arbitrary: c)
  case (Suc k)
  from Suc.prems show ?case unfolding retry_on_conflict.simps
  proof (rule tryE_E)
    fix e u assume "(if e = KConflict \<and> k > 0 then retry_on_conflict k m else failE e) u = (Inr x, d)"
    then show Q using Suc.IH by (auto simp: failE_def split: if_splits)
  next
    fix y u assume "m c = (Inr y, u)" "okE y u = (Inr x, d)"
    then show Q using assms(2) by (simp add: okE_def)
  qed
qed (simp add: failE_def)

lemma merge_Inr:
  assumes "merge_listener_into_gateway kc sha n h secret c = (Inr u, d)"
  shows "\<exists>g. gget (cl_gateways d) n = Some g \<and> holds_listener (domain_listener_name sha h) g"
  using assms unfolding merge_listener_into_gateway_def Let_def
proof (elim retry_Inr bindE_InrE)
  fix c1 g e
  assume g: "get_gateway n c1 = (Inr g, e)"
    and k: "(if holds_listener (domain_listener_name sha h) g then okE ()
             else if \<not> has_room kc n g then failE KShardFull
             else put_gateway n g (add_listener (domain_listener (domain_listener_name sha h) h secret) g)) e = (Inr u, d)"
  show ?thesis
  proof (cases "holds_listener (domain_listener_name sha h) g")
    case True
    then show ?thesis using k get_gateway_Inr [OF g] by (auto simp: okE_def)
  next
    case False
    then have "put_gateway n g (add_listener (domain_listener (domain_listener_name sha h) h secret) g) e = (Inr u, d)"
      using k by (simp split: if_splits add: failE_def)
    from put_gateway_Inr [OF this] show ?thesis
      by (simp add: holds_listener_def add_listener_def domain_listener_def)
  qed
qed

lemma attempts_Inr:
  "ensure_listener_attempts k kc lb sha h secret c = (Inr u, d) \<Longrightarrow>
     \<exists>n g. gget (cl_gateways d) n = Some g \<and> holds_listener (domain_listener_name sha h) g"
proof (induction k arbitrary: c)
  case (Suc k)
  show ?case
    using Suc.prems unfolding ensure_listener_attempts.simps
  proof (rule bindE_InrE)
    fix n e
    assume "tryE (merge_listener_into_gateway kc sha n h secret)
        (\<lambda>e. if e = KShardFull then ensure_listener_attempts k kc lb sha h secret else failE e) okE e = (Inr u, d)"
    then show ?thesis
    proof (rule tryE_E)
      fix x v
      assume "(if x = KShardFull then ensure_listener_attempts k kc lb sha h secret else failE x) v = (Inr u, d)"
      then show ?thesis using Suc.IH by (auto simp: failE_def split: if_splits)
    next
      fix x v
      assume "merge_listener_into_gateway kc sha n h secret e = (Inr x, v)" "okE x v = (Inr u, d)"
      then show ?thesis using merge_Inr by (fastforce simp: okE_def)
    qed
  qed
qed (simp add: failE_def)

section \<open>A healthy cluster always finds room\<close>

lemma normal_host_idem [simp]: "normal_host (normal_host h) = normal_host h"
  by (simp add: normal_host_def trim_space_to_lower)

definition quiet :: "cluster \<Rightarrow> bool" where
  "quiet c \<longleftrightarrow> cl_faults c = [] \<and> cl_others c = []"

lemma quiet_put [simp]: "quiet (c\<lparr>cl_gateways := p\<rparr>) = quiet c"
  by (simp add: quiet_def)

lemma api_healthy: "quiet c \<Longrightarrow> api m c = m c"
  by (simp add: quiet_def api_def others_act_def)

lemma healthy_simps:
  assumes "quiet c"
  shows "list_gateways c = (Inr (cl_gateways c), c)"
    "gget (cl_gateways c) n = Some g \<Longrightarrow> get_gateway n c = (Inr g, c)"
    "gget (cl_gateways c) n = Some old \<Longrightarrow> put_gateway n old g c = (Inr (), c\<lparr>cl_gateways := gput n g (cl_gateways c)\<rparr>)"
    "gget (cl_gateways c) n = None \<Longrightarrow> create_gateway n g c = (Inr (), c\<lparr>cl_gateways := gput n g (cl_gateways c)\<rparr>)"
  using assms by (simp_all add: list_gateways_def get_gateway_def put_gateway_def create_gateway_def api_healthy readE_def)

lemma retry_healthy: "m c = (Inr x, d) \<Longrightarrow> retry_on_conflict (Suc k) m c = (Inr x, d)"
  by (simp add: tryE_def okE_def)

lemma shards_of_elem:
  "s \<in> set (shards_of base p) \<longleftrightarrow> (\<exists>n g. (n, g) \<in> set p \<and> gateway_shard_index base n = Some (gs_index s) \<and>
     gs_name s = n \<and> gs_custom s = custom_listener_count (gw_listeners g) \<and> gs_total s = int (length (gw_listeners g)))"
  by (auto simp: shards_of_def List.map_filter_def shard_view_def image_iff Bex_def split: option.splits) force

lemma sorted_last:
  "sorted_wrt (\<lambda>a b. \<not> (f b :: 'k::linorder) < f a) xs \<Longrightarrow> x \<in> set xs \<Longrightarrow> f x \<le> f (last xs)"
  by (induction xs) (auto simp: not_less)

lemma shards_of_last: "s \<in> set (shards_of base p) \<Longrightarrow> gs_index s \<le> gs_index (last (shards_of base p))"
  by (rule sorted_last) (auto simp: shards_of_def intro: slice_order.sort_by_sorted slice_order_key)

definition bounded_shards :: "kube_conf \<Rightarrow> pool \<Rightarrow> bool" where
  "bounded_shards kc p \<longleftrightarrow> gwf p \<and> list_all (\<lambda>e. shard_index_or_zero kc (fst e) < max_i64) p"

lemma capacity_fresh: "idx > 0 \<Longrightarrow> shard_custom_domain_capacity kc idx 0 0 > 0"
  by (auto simp: shard_custom_domain_capacity_def per_shard_listener_budget_def max_gateway_listeners_def Let_def)

lemma shard_in_pool: "gwf p \<Longrightarrow> (n, g) \<in> set p \<Longrightarrow> gget p n = Some g"
  by (simp add: gwf_def gget_def)

lemma pool_in_shard: "gget p n = Some g \<Longrightarrow> (n, g) \<in> set p"
  by (simp add: gget_def map_of_SomeD)

lemma shard_holding_Some:
  assumes "gwf p" "shard_holding base lname p = Some n"
  shows "\<exists>g. gget p n = Some g \<and> holds_listener lname g"
proof -
  obtain e where e: "find (\<lambda>e. gateway_shard_index base (fst e) \<noteq> None \<and> holds_listener lname (snd e)) p = Some e"
    "n = fst e"
    using assms(2) by (auto simp: shard_holding_def)
  then have "e \<in> set p" "holds_listener lname (snd e)" by (auto simp: find_Some_iff)
  then show ?thesis using shard_in_pool [OF assms(1), of "fst e" "snd e"] e(2) by auto
qed

lemma next_shard_free:
  assumes "bounded_shards kc p" "shards_of (kc_gateway_name kc) p \<noteq> []"
  defines "idx \<equiv> gs_index (last (shards_of (kc_gateway_name kc) p)) + 1"
  shows "gateway_shard_index (kc_gateway_name kc) (gateway_shard_name (kc_gateway_name kc) idx) = Some idx"
    "idx > 0" "gget p (gateway_shard_name (kc_gateway_name kc) idx) = None"
proof -
  let ?b = "kc_gateway_name kc"
  obtain n g where l: "(n, g) \<in> set p" "gateway_shard_index ?b n = Some (idx - 1)"
    using shards_of_elem [of "last (shards_of ?b p)" ?b p] assms(2) idx_def by auto
  have "0 \<le> idx - 1"
    using l(2) by (auto simp: gateway_shard_index_def Let_def split: if_splits option.splits)
  moreover have "idx - 1 < max_i64"
    using assms(1) l by (force simp: bounded_shards_def list_all_iff shard_index_or_zero_def)
  ultimately have r: "0 \<le> idx" "is_i64 idx" by (auto simp: is_i64_def min_i64_def)
  show i: "gateway_shard_index ?b (gateway_shard_name ?b idx) = Some idx"
    using gateway_shard_index_name r by blast
  show "idx > 0" using \<open>0 \<le> idx - 1\<close> by simp
  show "gget p (gateway_shard_name ?b idx) = None"
  proof (cases "gget p (gateway_shard_name ?b idx)")
    case (Some g')
    let ?s = "\<lparr>gs_index = idx, gs_name = gateway_shard_name ?b idx, gs_custom = custom_listener_count (gw_listeners g'),
        gs_total = int (length (gw_listeners g'))\<rparr>"
    have "?s \<in> set (shards_of ?b p)"
      unfolding shards_of_elem using pool_in_shard [OF Some] i by auto
    from shards_of_last [OF this] show ?thesis by (simp add: idx_def)
  qed
qed

lemma allocate_healthy:
  assumes h: "quiet c" and p: "gget (cl_gateways c) (kc_gateway_name kc) = Some primary"
    and b: "bounded_shards kc (cl_gateways c)"
  shows "\<exists>n d g. allocate_listener_shard kc lb sha x c = (Inr n, d) \<and> quiet d \<and>
    gget (cl_gateways d) n = Some g \<and> (normal_host x = x \<longrightarrow> holds_listener (domain_listener_name sha x) g \<or> has_room kc n g)"
proof -
  let ?p = "cl_gateways c" and ?b = "kc_gateway_name kc"
  let ?ok = "\<lambda>s. shard_custom_domain_capacity kc (gs_index s) (gs_custom s) (gs_total s) > 0"
  have w: "gwf ?p" using b by (simp add: bounded_shards_def)
  have f: "\<exists>found. shard_for_host kc sha x c = (Inr found, c) \<and>
      (\<forall>n. found = Some n \<longrightarrow> (\<exists>g. gget ?p n = Some g \<and> holds_listener (domain_listener_name sha (normal_host x)) g))"
    using shard_holding_Some [OF w] healthy_simps(1) [OF h]
    by (auto simp: shard_for_host_def Let_def bindE_def okE_def)
  then obtain found where f: "shard_for_host kc sha x c = (Inr found, c)"
    "\<And>n. found = Some n \<Longrightarrow> \<exists>g. gget ?p n = Some g \<and> holds_listener (domain_listener_name sha (normal_host x)) g"
    by blast
  have ls: "list_gateway_shards kc c = (Inr (shards_of ?b ?p), c)"
    by (simp add: list_gateway_shards_def bindE_def okE_def healthy_simps(1) [OF h])
  have "(?b, primary) \<in> set ?p" by (rule pool_in_shard [OF p])
  then have "\<exists>s. s \<in> set (shards_of ?b ?p)"
    unfolding shards_of_elem
    by (intro exI [of _ "\<lparr>gs_index = 0, gs_name = ?b, gs_custom = custom_listener_count (gw_listeners primary),
        gs_total = int (length (gw_listeners primary))\<rparr>"]) (auto simp: gateway_shard_index_def)
  then have ne: "shards_of ?b ?p \<noteq> []" by auto
  show ?thesis
  proof (cases found)
    case (Some n)
    then show ?thesis using f h by (auto simp: allocate_listener_shard_def bindE_def okE_def)
  next
    case None
    show ?thesis
    proof (cases "find ?ok (shards_of ?b ?p)")
      case (Some s)
      then have s: "s \<in> set (shards_of ?b ?p)" "?ok s" by (auto simp: find_Some_iff)
      then obtain g where g: "(gs_name s, g) \<in> set ?p" "gateway_shard_index ?b (gs_name s) = Some (gs_index s)"
        "gs_custom s = custom_listener_count (gw_listeners g)" "gs_total s = int (length (gw_listeners g))"
        unfolding shards_of_elem by auto
      then have "has_room kc (gs_name s) g" using s(2) by (simp add: has_room_def shard_index_or_zero_def)
      moreover have "allocate_listener_shard kc lb sha x c = (Inr (gs_name s), c)"
        using f(1) None ls ne Some by (simp add: allocate_listener_shard_def bindE_def okE_def)
      ultimately show ?thesis using shard_in_pool [OF w g(1)] h by blast
    next
      case none: None
      let ?n = "gateway_shard_name ?b (gs_index (last (shards_of ?b ?p)) + 1)"
      let ?g = "\<lparr>gw_class = gw_class primary, gw_infrastructure = (if lb then gw_infrastructure primary else None), gw_listeners = []\<rparr>"
      have fresh: "gget ?p ?n = None" "shard_index_or_zero kc ?n > 0"
        using next_shard_free [OF b ne] by (simp_all add: shard_index_or_zero_def)
      have "ensure_shard_gateway kc lb ?n c = (Inr (), c\<lparr>cl_gateways := gput ?n ?g ?p\<rparr>)"
        by (simp add: ensure_shard_gateway_def bindE_def tryE_def okE_def healthy_simps(2) [OF h p] healthy_simps(4) [OF h fresh(1)])
      then have "allocate_listener_shard kc lb sha x c = (Inr ?n, c\<lparr>cl_gateways := gput ?n ?g ?p\<rparr>)"
        using f(1) None ls ne none by (simp add: allocate_listener_shard_def bindE_def okE_def Let_def)
      moreover have "has_room kc ?n ?g"
        using capacity_fresh [OF fresh(2)] by (simp add: has_room_def custom_listener_count_def)
      ultimately show ?thesis using h by fastforce
    qed
  qed
qed

lemma merge_healthy:
  assumes "quiet c" "gget (cl_gateways c) n = Some g"
    "holds_listener (domain_listener_name sha h) g \<or> has_room kc n g"
  shows "\<exists>d. merge_listener_into_gateway kc sha n h secret c = (Inr (), d)"
proof -
  let ?k = "\<lambda>g. if holds_listener (domain_listener_name sha h) g then okE ()
      else if \<not> has_room kc n g then failE KShardFull
      else put_gateway n g (add_listener (domain_listener (domain_listener_name sha h) h secret) g)"
  have "\<exists>d. ?k g c = (Inr (), d)"
    using assms(3) healthy_simps(3) [OF assms(1,2)]
    by (cases "holds_listener (domain_listener_name sha h) g") (simp_all add: okE_def)
  then obtain d where d: "bindE (get_gateway n) ?k c = (Inr (), d)"
    using healthy_simps(2) [OF assms(1,2)] by (auto simp: bindE_def)
  show ?thesis
    using retry_healthy [where m = "bindE (get_gateway n) ?k" and k = 4, OF d] by (auto simp: merge_listener_into_gateway_def Let_def conflict_attempts_def)
qed

lemma ensure_healthy:
  assumes "quiet c" "gget (cl_gateways c) (kc_gateway_name kc) = Some primary"
    "bounded_shards kc (cl_gateways c)" "normal_host h \<noteq> []"
  shows "\<exists>d. ensure_gateway_listener kc lb sha h secret c = (Inr (), d)"
proof -
  let ?s = "if secret = [] then domain_cert_secret sha (normal_host h) else secret"
  obtain n d g where a: "allocate_listener_shard kc lb sha (normal_host h) c = (Inr n, d)" "quiet d"
    "gget (cl_gateways d) n = Some g" "holds_listener (domain_listener_name sha (normal_host h)) g \<or> has_room kc n g"
    using allocate_healthy [OF assms(1-3), of lb sha "normal_host h"] by auto
  from merge_healthy [OF a(2-4), of ?s] obtain e where
    m: "merge_listener_into_gateway kc sha n (normal_host h) ?s d = (Inr (), e)" by blast
  have "ensure_listener_attempts (Suc 7) kc lb sha (normal_host h) ?s c = (Inr (), e)"
    unfolding ensure_listener_attempts.simps by (simp add: bindE_def tryE_def okE_def a(1) m)
  then show ?thesis using assms(4) by (auto simp: ensure_gateway_listener_def Let_def numeral_eq_Suc)
qed

section \<open>Properties\<close>

definition sample_kube :: kube_conf where
  "sample_kube = \<lparr>kc_base_domain = ''vortex.v60ai.com'', kc_gateway_name = ''vortex'', kc_gateway_namespace = ''vortex'',
     kc_shard_max_listeners = 3, kc_cluster_issuer = ''letsencrypt'', kc_cpu_factor = 1, kc_memory_factor = 1\<rparr>"

definition sample_sha :: "string \<Rightarrow> string" where
  "sample_sha h = ''0123456789abcdef''"

definition sample_primary :: gateway where
  "sample_primary = \<lparr>gw_class = ''envoy'', gw_infrastructure = None,
     gw_listeners = [\<lparr>ls_name = ''http'', ls_hostname = [], ls_secret = []\<rparr>,
       \<lparr>ls_name = ''https'', ls_hostname = ''*.vortex.v60ai.com'', ls_secret = ''vortex-tls''\<rparr>,
       domain_listener (domain_listener_name sample_sha ''a.example'') ''a.example'' ''tls-a'']\<rparr>"

definition sample_shard :: gateway where
  "sample_shard = \<lparr>gw_class = ''envoy'', gw_infrastructure = None,
     gw_listeners = [domain_listener (domain_listener_name sample_sha ''old.example'') ''old.example'' ''tls-old'']\<rparr>"

definition sample_cluster :: cluster where
  "sample_cluster = \<lparr>cl_gateways = [(''vortex'', sample_primary), (''vortex-shard-1'', sample_shard)],
     cl_certificates = [], cl_faults = [], cl_others = []\<rparr>"

lemma sample_pool_valid: "valid_pool (cl_gateways sample_cluster)"
  by (auto simp: valid_pool_def valid_gateway_def sample_cluster_def sample_primary_def sample_shard_def gget_def
      domain_listener_def domain_listener_name_def domain_listener_prefix_def split: if_splits)

text \<open>C6: Other control planes may change the shared Gateways before every single call of the cluster API that an
  operation of the backend makes (attach or detach a custom domain, provision an organization), by
  any sequence of the changes that attaching, detaching and making shards consist of, and any call
  may fail. Whatever they do in between, the operation leaves every Gateway valid, with at most 64
  listeners of distinct names. What happens in the whole run is again a sequence of such changes,
  so the operations of several control planes compose.\<close>

theorem gateways_stay_valid:
  assumes "valid_pool (cl_gateways c)" and "\<forall>f \<in> set (cl_others c). \<forall>p. (pool_step kc)\<^sup>*\<^sup>* p (f p)"
    and "run_gateway kc lb sha call c = (r, d)"
  shows "valid_pool (cl_gateways d) \<and> (pool_step kc)\<^sup>*\<^sup>* (cl_gateways c) (cl_gateways d)"
  using performsD [OF run_gateway_steps _ assms(3)] assms(1,2) pool_steps_valid by (auto simp: others_within_def)

text \<open>A rival attaches a domain of its own to the Gateway it finds a place on.\<close>

definition rival :: "string \<Rightarrow> pool \<Rightarrow> pool" where
  "rival h p = cl_gateways (snd (ensure_gateway_listener sample_kube False sample_sha h []
     \<lparr>cl_gateways = p, cl_certificates = [], cl_faults = [], cl_others = []\<rparr>))"

lemma rival_steps: "(pool_step sample_kube)\<^sup>*\<^sup>* p (rival h p)"
  using performsD [OF steps.performs_ensure [of sample_kube False sample_sha h "[]"] _ surjective_pairing,
      of "\<lparr>cl_gateways = p, cl_certificates = [], cl_faults = [], cl_others = []\<rparr>"]
  by (simp add: rival_def others_within_def)

definition contended_cluster :: cluster where
  "contended_cluster = sample_cluster\<lparr>cl_others := [id, id, rival ''first.example'', rival ''second.example'']\<rparr>"

theorem gateways_stay_valid_witness:
  "valid_pool (cl_gateways (snd (run_gateway sample_kube False sample_sha (AttachDomain ''new.example'' []) contended_cluster)))"
proof -
  have "valid_pool (cl_gateways contended_cluster)"
    using sample_pool_valid by (simp add: contended_cluster_def)
  moreover have "\<forall>f \<in> set (cl_others contended_cluster). \<forall>p. (pool_step sample_kube)\<^sup>*\<^sup>* p (f p)"
    using rival_steps by (simp add: contended_cluster_def)
  ultimately show ?thesis
    using gateways_stay_valid [OF _ _ surjective_pairing] by blast
qed

text \<open>C7: Attaching a custom domain never removes or changes a listener of any Gateway and keeps every Gateway
  valid, also while other control planes attach theirs before any of its calls; when it reports
  success the domain's listener is on a Gateway of the pool, whatever the others do. On a cluster
  that answers and that nobody else changes meanwhile, with the primary Gateway in place, it always
  succeeds, also when every existing Gateway is full.\<close>

theorem custom_domain_attached:
  assumes "ensure_gateway_listener kc lb sha h secret c = (r, d)" and "valid_pool (cl_gateways c)"
  shows "((\<forall>f \<in> set (cl_others c). \<forall>p. extends p (f p) \<and> (pool_step kc)\<^sup>*\<^sup>* p (f p)) \<longrightarrow>
      extends (cl_gateways c) (cl_gateways d) \<and> valid_pool (cl_gateways d)) \<and>
    (r = Inr () \<longrightarrow>
      (\<exists>n g. gget (cl_gateways d) n = Some g \<and> holds_listener (domain_listener_name sha (normal_host h)) g)) \<and>
    (cl_faults c = [] \<and> cl_others c = [] \<and> gget (cl_gateways c) (kc_gateway_name kc) \<noteq> None \<and>
       bounded_shards kc (cl_gateways c) \<and> normal_host h \<noteq> [] \<longrightarrow> r = Inr ())"
proof (intro conjI impI)
  assume o: "\<forall>f \<in> set (cl_others c). \<forall>p. extends p (f p) \<and> (pool_step kc)\<^sup>*\<^sup>* p (f p)"
  then have w: "others_within extends c" "others_within (pool_step kc)\<^sup>*\<^sup>* c" by (auto simp: others_within_def)
  show "extends (cl_gateways c) (cl_gateways d)"
    using performsD [OF growth.performs_ensure w(1) assms(1)] by blast
  show "valid_pool (cl_gateways d)"
    using performsD [OF steps.performs_ensure w(2) assms(1)] pool_steps_valid assms(2) by blast
next
  assume "r = Inr ()"
  then show "\<exists>n g. gget (cl_gateways d) n = Some g \<and> holds_listener (domain_listener_name sha (normal_host h)) g"
    using assms(1) attempts_Inr by (auto simp: ensure_gateway_listener_def Let_def failE_def split: if_splits)
next
  assume "cl_faults c = [] \<and> cl_others c = [] \<and> gget (cl_gateways c) (kc_gateway_name kc) \<noteq> None \<and>
    bounded_shards kc (cl_gateways c) \<and> normal_host h \<noteq> []"
  then show "r = Inr ()" using ensure_healthy [of c kc _ h lb sha secret] assms(1) by (force simp: quiet_def)
qed

theorem custom_domain_attached_witness:
  "\<exists>n g. gget (cl_gateways (snd (ensure_gateway_listener sample_kube False sample_sha ''new.example'' [] sample_cluster))) n = Some g
     \<and> holds_listener (domain_listener_name sample_sha ''new.example'') g"
proof -
  have n: "normal_host ''new.example'' = ''new.example''" by code_simp
  have "cl_faults sample_cluster = [] \<and> cl_others sample_cluster = [] \<and>
      gget (cl_gateways sample_cluster) (kc_gateway_name sample_kube) \<noteq> None \<and> bounded_shards sample_kube (cl_gateways sample_cluster)"
    by (simp add: sample_cluster_def gget_def sample_kube_def bounded_shards_def gwf_def shard_index_or_zero_def) code_simp
  then show ?thesis
    using custom_domain_attached [where kc = sample_kube and lb = False and sha = sample_sha
        and h = "''new.example''" and secret = "[]" and c = sample_cluster, OF surjective_pairing sample_pool_valid] n
    by simp
qed

text \<open>Detaching the last domain of an overflow shard deletes the shard in a second call. A domain that
  another control plane attaches in between, with success, is lost with it.\<close>

theorem shard_collection_drops_listener:
  "let (r1, c1) = take_listener_off sample_kube sample_sha ''vortex-shard-1'' ''old.example'' sample_cluster;
       (r2, c2) = ensure_gateway_listener sample_kube False sample_sha ''new.example'' [] c1;
       (r3, c3) = collect_shard ''vortex-shard-1'' c2;
       lname = domain_listener_name sample_sha ''new.example''
   in r1 = Inr True \<and> r2 = Inr () \<and> shard_holding ''vortex'' lname (cl_gateways c2) = Some ''vortex-shard-1'' \<and>
      r3 = Inr () \<and> shard_holding ''vortex'' lname (cl_gateways c3) = None"
  by code_simp

text \<open>The variable that remembers an emptied shard survives the retries. A detach reads the shard with its own
  listener only; before it writes, another control plane has detached the same domain and a third has
  attached one; the write is refused, the second attempt finds nothing to remove, and the shard is
  deleted all the same, with the listener of the third on it.\<close>

theorem stale_emptiness_drops_listener:
  "let l = domain_listener (domain_listener_name sample_sha ''new.example'') ''new.example'' ''tls-new'';
       taken_over = gput ''vortex-shard-1'' (sample_shard\<lparr>gw_listeners := [l]\<rparr>);
       (r, d) = remove_gateway_listener sample_kube sample_sha ''old.example'' (sample_cluster\<lparr>cl_others := [id, id, taken_over]\<rparr>)
   in r = Inr () \<and> shard_holding ''vortex'' (ls_name l) (taken_over (cl_gateways sample_cluster)) = Some ''vortex-shard-1'' \<and>
      gget (cl_gateways d) ''vortex-shard-1'' = None"
  by code_simp

end
