(* ===== verification/Kube_Fake.thy ===== *)
theory Kube_Fake
  imports Kube_Gateway
begin

text \<open>
  The deploy surface the platform talks to (\<open>kube.Backend\<close> in \<open>kube/backend.go\<close>) as a record of
  operations on the cluster, and the in-memory backend of \<open>kube/fake.go\<close>, which local
  installations run on. What the platform relies on is the locale \<open>deploy_backend\<close>: a release
  that was applied is deployed as it was rendered, deleting it takes it away, nothing else
  touches it. Streaming of logs and the clock of the backup records are not modelled.
\<close>

section \<open>The interface\<close>

record pod_metric =
  pm_pod :: string
  pm_cpu_millicores :: int
  pm_memory_bytes :: int

record workload_metrics =
  wm_available :: bool
  wm_unavailable :: string
  wm_pods :: "pod_metric list"
  wm_cpu_millicores :: int
  wm_memory_bytes :: int

type_synonym ('c, 'a) bop = "(string, 'c, 'a) op"

record 'c backend =
  be_ensure_tenant :: "string \<Rightarrow> string \<Rightarrow> quota \<Rightarrow> ('c, string) bop"
  be_ensure_image_pull_secret :: "string \<Rightarrow> string \<Rightarrow> ('c, unit) bop"
  be_ensure_app_secret :: "string \<Rightarrow> string \<Rightarrow> (string, string) gomap \<Rightarrow> ('c, unit) bop"
  be_apply :: "workload \<Rightarrow> ('c, string \<times> string) bop"
  be_start :: "string \<Rightarrow> string \<Rightarrow> ('c, unit) bop"
  be_stop :: "string \<Rightarrow> string \<Rightarrow> ('c, unit) bop"
  be_restart :: "string \<Rightarrow> string \<Rightarrow> ('c, unit) bop"
  be_delete :: "string \<Rightarrow> string \<Rightarrow> ('c, unit) bop"
  be_logs :: "string \<Rightarrow> string \<Rightarrow> int \<Rightarrow> ('c, string) bop"
  be_metrics :: "string \<Rightarrow> string \<Rightarrow> ('c, workload_metrics) bop"
  be_ensure_domain_certificate :: "string \<Rightarrow> ('c, unit) bop"
  be_remove_domain_certificate :: "string \<Rightarrow> ('c, unit) bop"
  be_ensure_gateway_listener :: "string \<Rightarrow> string \<Rightarrow> ('c, unit) bop"
  be_remove_gateway_listener :: "string \<Rightarrow> ('c, unit) bop"

text \<open>What a call leaves of the deployed workloads, seen by namespace and release.\<close>

type_synonym deployed = "string \<Rightarrow> string \<Rightarrow> workload option"

definition workload_namespace :: "workload \<Rightarrow> string" where
  "workload_namespace w = namespace_name (wl_org_slug w) (wl_project_slug w)"

definition same_deployed :: "('c \<Rightarrow> deployed) \<Rightarrow> ('c, 'a) bop \<Rightarrow> bool" where
  "same_deployed dep m \<longleftrightarrow> (\<forall>c. dep (snd (m c)) = dep c)"

locale deploy_backend =
  fixes be :: "'c backend" and dep :: "'c \<Rightarrow> deployed"
  assumes tenant_name: "be_ensure_tenant be g p q c = (Inr ns, d) \<Longrightarrow> ns = namespace_name g p"
    and apply_deploys: "be_apply be w c = (Inr (rel, h), d) \<Longrightarrow>
      rel = release_name (wl_name w) \<and>
      dep d = (\<lambda>n r. if n = workload_namespace w \<and> r = rel then Some w else dep c n r)"
    and apply_fails: "be_apply be w c = (Inl e, d) \<Longrightarrow> dep d = dep c"
    and delete_removes: "be_delete be ns rel c = (Inr u, d) \<Longrightarrow>
      dep d = (\<lambda>n r. if n = ns \<and> r = rel then None else dep c n r)"
    and delete_fails: "be_delete be ns rel c = (Inl e, d) \<Longrightarrow> dep d = dep c"
    and others: "same_deployed dep (be_ensure_tenant be g p q)"
      "same_deployed dep (be_ensure_image_pull_secret be ns name)"
      "same_deployed dep (be_ensure_app_secret be ns name data)"
      "same_deployed dep (be_start be ns rel)" "same_deployed dep (be_stop be ns rel)"
      "same_deployed dep (be_restart be ns rel)" "same_deployed dep (be_logs be ns rel k)"
      "same_deployed dep (be_metrics be ns rel)"
      "same_deployed dep (be_ensure_domain_certificate be hst)"
      "same_deployed dep (be_remove_domain_certificate be hst)"
      "same_deployed dep (be_ensure_gateway_listener be hst secret)"
      "same_deployed dep (be_remove_gateway_listener be hst)"
begin

lemma apply_elsewhere:
  "be_apply be w c = (r, d) \<Longrightarrow> n \<noteq> workload_namespace w \<or> rel \<noteq> release_name (wl_name w) \<Longrightarrow> dep d n rel = dep c n rel"
  by (cases r) (auto dest!: apply_fails apply_deploys)

lemma delete_elsewhere:
  "be_delete be ns rel c = (r, d) \<Longrightarrow> n \<noteq> ns \<or> x \<noteq> rel \<Longrightarrow> dep d n x = dep c n x"
  by (cases r) (auto dest!: delete_fails delete_removes)

text \<open>Applying again replaces; applying twice the same is applying once.\<close>

lemma apply_again:
  "be_apply be w c = (Inr x, d) \<Longrightarrow> be_apply be w' d = (Inr y, e) \<Longrightarrow>
     workload_namespace w' = workload_namespace w \<Longrightarrow> release_name (wl_name w') = release_name (wl_name w) \<Longrightarrow>
     dep e = (\<lambda>n r. if n = workload_namespace w \<and> r = release_name (wl_name w) then Some w' else dep c n r)"
  by (cases x; cases y) (auto dest!: apply_deploys simp: fun_eq_iff)

end

section \<open>The in-memory backend\<close>

record database_backup =
  bk_name :: string
  bk_phase :: string
  bk_created_at :: string
  bk_completed_at :: string
  bk_engine :: string

record fake =
  fk_base_domain :: string
  fk_tenants :: "(string, quota) gomap"
  fk_applied :: "(string, workload) gomap"
  fk_hosts :: "(string, string) gomap"
  fk_replicas :: "(string, int) gomap"
  fk_pull_secrets :: "string list"
  fk_app_secrets :: "(string, (string, string) gomap) gomap"
  fk_log_lines :: string
  fk_domain_certs :: "string list"
  fk_gateway_listeners :: "(string, string) gomap"
  fk_org_wildcards :: "(string, string list) gomap"
  fk_gateway_shard_of :: "(string, string) gomap"
  fk_gateway_name :: string
  fk_shard_budget :: int
  fk_phase_override :: "(string, string) gomap"
  fk_rollout_override :: "(string, rollout_status) gomap"
  fk_backups :: "(string, database_backup list) gomap"
  fk_backup_schedules :: "(string, string) gomap"
  fk_restores :: "(string, string list) gomap"
  fk_metrics_available :: bool
  fk_cpu_millicores :: int
  fk_memory_bytes :: int

definition new_fake_backend :: fake where
  "new_fake_backend =
     \<lparr>fk_base_domain = ''vortex.v60ai.com'', fk_tenants = [], fk_applied = [], fk_hosts = [], fk_replicas = [],
      fk_pull_secrets = [], fk_app_secrets = [], fk_log_lines = ''fake log line'' @ [CHR 0x0A], fk_domain_certs = [],
      fk_gateway_listeners = [], fk_org_wildcards = [], fk_gateway_shard_of = [], fk_gateway_name = ''vortex'',
      fk_shard_budget = 0, fk_phase_override = [], fk_rollout_override = [], fk_backups = [], fk_backup_schedules = [],
      fk_restores = [], fk_metrics_available = True, fk_cpu_millicores = 125, fk_memory_bytes = 67108864\<rparr>"

definition fake_base_domain :: "fake \<Rightarrow> string" where
  "fake_base_domain f = (if fk_base_domain f = [] then ''vortex.v60ai.com'' else fk_base_domain f)"

definition fake_key :: "string \<Rightarrow> string \<Rightarrow> string" where
  "fake_key ns rel = ns @ ''/'' @ rel"

definition no_release :: string where
  "no_release = ''kube(fake): no release''"

definition list_add :: "'a \<Rightarrow> 'a list \<Rightarrow> 'a list" where
  "list_add x xs = (if x \<in> set xs then xs else xs @ [x])"

definition or_empty :: "'a list option \<Rightarrow> 'a list" where
  "or_empty v = (case v of None \<Rightarrow> [] | Some xs \<Rightarrow> xs)"

definition fake_ensure_tenant :: "string \<Rightarrow> string \<Rightarrow> quota \<Rightarrow> (fake, string) bop" where
  "fake_ensure_tenant g p q f =
     (let ns = namespace_name g p in (Inr ns, f\<lparr>fk_tenants := gput ns q (fk_tenants f)\<rparr>))"

definition fake_ensure_image_pull_secret :: "string \<Rightarrow> string \<Rightarrow> (fake, unit) bop" where
  "fake_ensure_image_pull_secret ns name f =
     (Inr (), f\<lparr>fk_pull_secrets := list_add (ns @ ''/'' @ name) (fk_pull_secrets f)\<rparr>)"

definition fake_ensure_app_secret :: "string \<Rightarrow> string \<Rightarrow> (string, string) gomap \<Rightarrow> (fake, unit) bop" where
  "fake_ensure_app_secret ns name data f =
     (let k = ns @ ''/'' @ name
      in (Inr (), f\<lparr>fk_app_secrets := (if data = [] then gdel k (fk_app_secrets f) else gput k data (fk_app_secrets f))\<rparr>))"

definition fake_apply :: "workload \<Rightarrow> (fake, string \<times> string) bop" where
  "fake_apply w f =
     (let ns = namespace_name (wl_org_slug w) (wl_project_slug w); rel = release_name (wl_name w);
          h = host (wl_name w) (wl_project_slug w) (wl_org_slug w) (fake_base_domain f); k = fake_key ns rel
      in (Inr (rel, h), f\<lparr>fk_applied := gput k w (fk_applied f), fk_hosts := gput k h (fk_hosts f),
                          fk_replicas := gput k 1 (fk_replicas f)\<rparr>))"

definition fake_set_replicas :: "string \<Rightarrow> string \<Rightarrow> int \<Rightarrow> (fake, unit) bop" where
  "fake_set_replicas ns rel n f =
     (let k = fake_key ns rel
      in if gget (fk_applied f) k = None then (Inl no_release, f)
         else (Inr (), f\<lparr>fk_replicas := gput k n (fk_replicas f)\<rparr>))"

definition fake_start :: "string \<Rightarrow> string \<Rightarrow> (fake, unit) bop" where
  "fake_start ns rel = fake_set_replicas ns rel 1"

definition fake_stop :: "string \<Rightarrow> string \<Rightarrow> (fake, unit) bop" where
  "fake_stop ns rel = fake_set_replicas ns rel 0"

definition fake_restart :: "string \<Rightarrow> string \<Rightarrow> (fake, unit) bop" where
  "fake_restart ns rel f =
     (if gget (fk_applied f) (fake_key ns rel) = None then (Inl no_release, f) else (Inr (), f))"

definition fake_delete :: "string \<Rightarrow> string \<Rightarrow> (fake, unit) bop" where
  "fake_delete ns rel f =
     (let k = fake_key ns rel
      in (Inr (), f\<lparr>fk_applied := gdel k (fk_applied f), fk_hosts := gdel k (fk_hosts f),
                    fk_replicas := gdel k (fk_replicas f)\<rparr>))"

definition fake_logs :: "string \<Rightarrow> string \<Rightarrow> int \<Rightarrow> (fake, string) bop" where
  "fake_logs ns rel n f =
     (if gget (fk_applied f) (fake_key ns rel) = None then (Inl no_release, f) else (Inr (fk_log_lines f), f))"

definition fake_metrics :: "string \<Rightarrow> string \<Rightarrow> (fake, workload_metrics) bop" where
  "fake_metrics ns rel f =
     (if gget (fk_applied f) (fake_key ns rel) = None then (Inl no_release, f)
      else if \<not> fk_metrics_available f
      then (Inr \<lparr>wm_available = False, wm_unavailable = ''metrics-server unavailable'', wm_pods = [],
                 wm_cpu_millicores = 0, wm_memory_bytes = 0\<rparr>, f)
      else (Inr \<lparr>wm_available = True, wm_unavailable = [],
                 wm_pods = [\<lparr>pm_pod = rel @ ''-0'', pm_cpu_millicores = fk_cpu_millicores f,
                            pm_memory_bytes = fk_memory_bytes f\<rparr>],
                 wm_cpu_millicores = fk_cpu_millicores f, wm_memory_bytes = fk_memory_bytes f\<rparr>, f))"

definition fake_ensure_domain_certificate :: "string \<Rightarrow> (fake, unit) bop" where
  "fake_ensure_domain_certificate h f =
     (Inr (), f\<lparr>fk_domain_certs := list_add (normal_host h) (fk_domain_certs f)\<rparr>)"

definition fake_remove_domain_certificate :: "string \<Rightarrow> (fake, unit) bop" where
  "fake_remove_domain_certificate h f =
     (Inr (), f\<lparr>fk_domain_certs := filter (\<lambda>x. x \<noteq> normal_host h) (fk_domain_certs f)\<rparr>)"

text \<open>Placement of a new listener: the first shard with room, or the next one.\<close>

definition fake_primary_gateway :: "fake \<Rightarrow> string" where
  "fake_primary_gateway f = (if fk_gateway_name f = [] then ''vortex'' else fk_gateway_name f)"

definition fake_shard_budget :: "fake \<Rightarrow> int" where
  "fake_shard_budget f = (if fk_shard_budget f > 0 then fk_shard_budget f else max_gateway_listeners)"

definition fake_count :: "fake \<Rightarrow> string \<Rightarrow> int" where
  "fake_count f gw = int (length (filter (\<lambda>g. g = gw) (gvals (fk_gateway_shard_of f))))"

definition fake_max_index :: "fake \<Rightarrow> int" where
  "fake_max_index f =
     fold (\<lambda>gw m. case gateway_shard_index (fake_primary_gateway f) gw of None \<Rightarrow> m | Some i \<Rightarrow> if i > m then i else m)
       (gvals (fk_gateway_shard_of f)) 0"

definition fake_shard_cap :: "fake \<Rightarrow> int \<Rightarrow> int" where
  "fake_shard_cap f idx = (if idx = 0 then fake_shard_budget f - base_listener_reserve else fake_shard_budget f)"

definition allocate_fake_shard :: "fake \<Rightarrow> string" where
  "allocate_fake_shard f =
     (let primary = fake_primary_gateway f; top = fake_max_index f
      in case find (\<lambda>idx. fake_count f (gateway_shard_name primary idx) < fake_shard_cap f idx) [0..top] of
           Some idx \<Rightarrow> gateway_shard_name primary idx
         | None \<Rightarrow> if fk_gateway_shard_of f = [] then primary else gateway_shard_name primary (top + 1))"

definition fake_ensure_gateway_listener :: "(string \<Rightarrow> string) \<Rightarrow> string \<Rightarrow> string \<Rightarrow> (fake, unit) bop" where
  "fake_ensure_gateway_listener sha h0 secret0 f =
     (let h = normal_host h0; secret = (if secret0 = [] then domain_cert_secret sha h else secret0);
          f2 = (if gget (fk_gateway_listeners f) h = None
                then f\<lparr>fk_gateway_shard_of := gput h (allocate_fake_shard f) (fk_gateway_shard_of f)\<rparr> else f)
      in (Inr (), f2\<lparr>fk_gateway_listeners := gput h secret (fk_gateway_listeners f2)\<rparr>))"

definition fake_remove_gateway_listener :: "string \<Rightarrow> (fake, unit) bop" where
  "fake_remove_gateway_listener h0 f =
     (let h = normal_host h0
      in (Inr (), f\<lparr>fk_gateway_listeners := gdel h (fk_gateway_listeners f),
                    fk_gateway_shard_of := gdel h (fk_gateway_shard_of f)\<rparr>))"

fun merge_projects :: "string list \<Rightarrow> string list \<Rightarrow> string list" where
  "merge_projects seen [] = []"
| "merge_projects seen (p0 # ps) =
     (let p = normal_host p0
      in if p = [] \<or> p \<in> set seen then merge_projects seen ps else p # merge_projects (p # seen) ps)"

definition fake_ensure_org_wildcard :: "string \<Rightarrow> string list \<Rightarrow> (fake, unit) bop" where
  "fake_ensure_org_wildcard slug0 ps f =
     (let slug = normal_host slug0; old = or_empty (gget (fk_org_wildcards f) slug)
      in if slug = [] then (Inr (), f)
         else (Inr (), f\<lparr>fk_org_wildcards := gput slug (merge_projects [] (old @ ps)) (fk_org_wildcards f)\<rparr>))"

definition fake_status :: "string \<Rightarrow> string \<Rightarrow> (fake, status) bop" where
  "fake_status ns rel f =
     (let k = fake_key ns rel; n = (case gget (fk_replicas f) k of None \<Rightarrow> 0 | Some n \<Rightarrow> n)
      in if gget (fk_applied f) k = None then (Inl no_release, f)
         else (Inr \<lparr>s_phase = (case gget (fk_phase_override f) k of
                       Some ph \<Rightarrow> ph | None \<Rightarrow> if n = 0 then ''Scaled to zero'' else ''Running''),
                    s_replicas = n, s_ready_replicas = n\<rparr>, f))"

definition fake_rollout_status :: "string \<Rightarrow> string \<Rightarrow> (fake, rollout_status) bop" where
  "fake_rollout_status ns rel f =
     (let k = fake_key ns rel; n = (case gget (fk_replicas f) k of None \<Rightarrow> 0 | Some n \<Rightarrow> n);
          rs = \<lparr>ro_desired = n, ro_ready = n, ro_updated = n, ro_available = n, ro_observed_generation = 1,
                ro_generation = 1, ro_health = [], ro_phase = [], ro_reason = [], ro_message = []\<rparr>;
          rs2 = rs\<lparr>ro_phase := rollout_phase rs\<rparr>
      in if gget (fk_applied f) k = None then (Inl no_release, f)
         else case gget (fk_rollout_override f) k of
                Some r \<Rightarrow> (Inr r, f)
              | None \<Rightarrow> (Inr (rs2\<lparr>ro_health := derive_health rs2\<rparr>), f))"

text \<open>Backups; \<open>now\<close> is the formatted clock.\<close>

definition fake_backup_database :: "string \<Rightarrow> string \<Rightarrow> string \<Rightarrow> string \<Rightarrow> (fake, database_backup) bop" where
  "fake_backup_database now engine ns rel f =
     (let k = fake_key ns rel; old = or_empty (gget (fk_backups f) k);
          b = \<lparr>bk_name = ''bkp-'' @ sanitize rel @ ''-'' @ itoa (int (length old) + 1), bk_phase = ''Succeeded'',
               bk_created_at = now, bk_completed_at = now, bk_engine = db_engine_key engine\<rparr>
      in if db_engine_key engine = [] then (Inl ''kube(fake): unsupported backup engine'', f)
         else if gget (fk_applied f) k = None then (Inl no_release, f)
         else (Inr b, f\<lparr>fk_backups := gput k (old @ [b]) (fk_backups f)\<rparr>))"

definition fake_ensure_backup_schedule :: "string \<Rightarrow> string \<Rightarrow> string \<Rightarrow> string \<Rightarrow> (fake, unit) bop" where
  "fake_ensure_backup_schedule engine schedule ns rel f =
     (let k = fake_key ns rel
      in if db_engine_key engine = [] then (Inl ''kube(fake): unsupported backup engine'', f)
         else if trim_space schedule = [] then (Inr (), f\<lparr>fk_backup_schedules := gdel k (fk_backup_schedules f)\<rparr>)
         else (Inr (), f\<lparr>fk_backup_schedules := gput k schedule (fk_backup_schedules f)\<rparr>))"

definition fake_list_database_backups :: "string \<Rightarrow> string \<Rightarrow> (fake, database_backup list) bop" where
  "fake_list_database_backups ns rel f = (Inr (rev (or_empty (gget (fk_backups f) (fake_key ns rel)))), f)"

definition fake_restore_database :: "string \<Rightarrow> string \<Rightarrow> string \<Rightarrow> string \<Rightarrow> (fake, unit) bop" where
  "fake_restore_database engine name ns rel f =
     (let k = fake_key ns rel
      in if db_engine_key engine = [] then (Inl ''kube(fake): unsupported restore engine'', f)
         else if trim_space name = [] then (Inl ''kube(fake): restore requires a backup name'', f)
         else if name \<notin> bk_name ` set (or_empty (gget (fk_backups f) k)) then (Inl ''kube(fake): no backup'', f)
         else (Inr (), f\<lparr>fk_restores := gput k (or_empty (gget (fk_restores f) k) @ [name]) (fk_restores f)\<rparr>))"

section \<open>The in-memory backend is a backend\<close>

definition fake_backend :: "(string \<Rightarrow> string) \<Rightarrow> fake backend" where
  "fake_backend sha =
     \<lparr>be_ensure_tenant = fake_ensure_tenant, be_ensure_image_pull_secret = fake_ensure_image_pull_secret,
      be_ensure_app_secret = fake_ensure_app_secret, be_apply = fake_apply,
      be_start = fake_start, be_stop = fake_stop, be_restart = fake_restart, be_delete = fake_delete,
      be_logs = fake_logs, be_metrics = fake_metrics,
      be_ensure_domain_certificate = fake_ensure_domain_certificate,
      be_remove_domain_certificate = fake_remove_domain_certificate,
      be_ensure_gateway_listener = fake_ensure_gateway_listener sha,
      be_remove_gateway_listener = fake_remove_gateway_listener\<rparr>"

text \<open>Keys are read back: neither a namespace nor a release holds a slash.\<close>

definition fake_deployed :: "fake \<Rightarrow> deployed" where
  "fake_deployed f = (\<lambda>ns rel.
     if CHR ''/'' \<in> set ns \<or> CHR ''/'' \<in> set rel then None else gget (fk_applied f) (fake_key ns rel))"

lemma slash_split:
  "CHR ''/'' \<notin> set n \<Longrightarrow> CHR ''/'' \<notin> set r \<Longrightarrow> n @ CHR ''/'' # r = m @ CHR ''/'' # s \<longleftrightarrow> n = m \<and> r = s"
  by (auto simp: append_eq_append_conv2 Cons_eq_append_conv append_eq_Cons_conv)

lemma fake_key_inject:
  "CHR ''/'' \<notin> set n \<Longrightarrow> CHR ''/'' \<notin> set r \<Longrightarrow> fake_key n r = fake_key m s \<longleftrightarrow> n = m \<and> r = s"
  by (simp add: fake_key_def slash_split)

lemma slash_not_sanitized [simp]: "CHR ''/'' \<notin> set (sanitize n)"
  using sanitize_chars [of "CHR ''/''" n] by (auto simp: slug_char_def Let_def)

lemma slash_not_namespace [simp]: "CHR ''/'' \<notin> set (namespace_name g p)"
  by (simp add: namespace_name_def)

lemma fake_deployed_cong: "fk_applied f = fk_applied g \<Longrightarrow> fake_deployed f = fake_deployed g"
  unfolding fake_deployed_def by metis

lemma fake_apply_deployed:
  "fake_deployed (snd (fake_apply w f)) =
     (\<lambda>n r. if n = workload_namespace w \<and> r = release_name (wl_name w) then Some w else fake_deployed f n r)"
  by (auto simp: fake_apply_def Let_def fake_deployed_def workload_namespace_def fun_eq_iff release_name_def fake_key_inject)

lemma fake_delete_deployed:
  "fake_deployed (snd (fake_delete ns rel f)) =
     (\<lambda>n r. if n = ns \<and> r = rel then None else fake_deployed f n r)"
  by (auto simp: fake_delete_def Let_def fake_deployed_def fun_eq_iff fake_key_inject)

lemma fake_keeps:
  "(\<And>f. fk_applied (snd (m f)) = fk_applied f) \<Longrightarrow> same_deployed fake_deployed m"
  unfolding same_deployed_def using fake_deployed_cong by blast

lemma fake_others:
  "same_deployed fake_deployed (fake_ensure_tenant g p q)"
  "same_deployed fake_deployed (fake_ensure_image_pull_secret ns name)"
  "same_deployed fake_deployed (fake_ensure_app_secret ns name data)"
  "same_deployed fake_deployed (fake_start ns rel)" "same_deployed fake_deployed (fake_stop ns rel)"
  "same_deployed fake_deployed (fake_restart ns rel)" "same_deployed fake_deployed (fake_logs ns rel k)"
  "same_deployed fake_deployed (fake_metrics ns rel)"
  "same_deployed fake_deployed (fake_ensure_domain_certificate hst)"
  "same_deployed fake_deployed (fake_remove_domain_certificate hst)"
  "same_deployed fake_deployed (fake_ensure_gateway_listener sha hst secret)"
  "same_deployed fake_deployed (fake_remove_gateway_listener hst)"
  by (rule fake_keeps; simp add: fake_ensure_tenant_def fake_ensure_image_pull_secret_def fake_ensure_app_secret_def
      fake_start_def fake_stop_def fake_set_replicas_def fake_restart_def fake_logs_def fake_metrics_def
      fake_ensure_domain_certificate_def fake_remove_domain_certificate_def fake_ensure_gateway_listener_def
      fake_remove_gateway_listener_def Let_def)+

interpretation fake: deploy_backend "fake_backend sha" fake_deployed for sha
proof unfold_locales
  fix w and c d :: fake and rel h
  assume a: "be_apply (fake_backend sha) w c = (Inr (rel, h), d)"
  then have "rel = release_name (wl_name w)" "d = snd (fake_apply w c)"
    by (auto simp: fake_backend_def fake_apply_def Let_def)
  then show "rel = release_name (wl_name w) \<and> fake_deployed d =
      (\<lambda>n r. if n = workload_namespace w \<and> r = rel then Some w else fake_deployed c n r)"
    using fake_apply_deployed by metis
next
  fix ns rel and c d :: fake and u
  assume "be_delete (fake_backend sha) ns rel c = (Inr u, d)"
  then have "d = snd (fake_delete ns rel c)" by (simp add: fake_backend_def)
  then show "fake_deployed d = (\<lambda>n r. if n = ns \<and> r = rel then None else fake_deployed c n r)"
    using fake_delete_deployed by metis
qed (simp_all add: fake_backend_def fake_others, simp_all add: fake_apply_def fake_delete_def fake_ensure_tenant_def Let_def)

end
