(* ===== verification/Platform_Text.thy ===== *)
theory Platform_Text
  imports Kube_Names
begin

text \<open>
  The text functions of the platform service: image references and build tags
  (\<open>platform/service.go\<close>), identifiers of managed databases (\<open>platform/dbcreds.go\<close>), connection
  strings, and the validation of custom domains (\<open>platform/appconfig.go\<close>), whose regular
  expression is written as the check of each label.
\<close>

section \<open>Image references\<close>

definition kube_sanitize :: "string \<Rightarrow> string" where
  "kube_sanitize s =
     squeeze (CHR ''-'') (trim_by (\<lambda>c. c = CHR ''-'')
       (replace_runs dns_char (CHR ''-'') False (to_lower (trim_space s))))"

definition trim_right :: "char \<Rightarrow> string \<Rightarrow> string" where
  "trim_right c s = rev (dropWhile (\<lambda>x. x = c) (rev s))"

definition image_ref :: "string \<Rightarrow> string \<Rightarrow> string \<Rightarrow> string \<Rightarrow> string \<Rightarrow> string" where
  "image_ref registry g p a tag =
     (let proj = (if kube_sanitize p = [] then ''default'' else kube_sanitize p);
          repo = join ''/'' [kube_sanitize g, proj, kube_sanitize a];
          full = (if registry \<noteq> [] then trim_right (CHR ''/'') registry @ ''/'' @ repo else repo)
      in full @ '':'' @ (if tag = [] then ''latest'' else tag))"

definition tag_char :: "char \<Rightarrow> bool" where
  "tag_char c \<longleftrightarrow> (let n = (of_char c :: nat) in
     (65 \<le> n \<and> n \<le> 90) \<or> (97 \<le> n \<and> n \<le> 122) \<or> (48 \<le> n \<and> n \<le> 57) \<or> c \<in> set ''._-'')"

definition image_tag_sanitize :: "string \<Rightarrow> string" where
  "image_tag_sanitize s =
     take 64 (trim_by (\<lambda>c. c \<in> set ''-._'') (replace_runs tag_char (CHR ''-'') False (trim_space s)))"

definition build_ref :: "string \<Rightarrow> string \<Rightarrow> string" where
  "build_ref git_ref build_id =
     (let r0 = image_tag_sanitize git_ref; r = (if r0 = [] then ''build'' else r0);
          short = take 8 (image_tag_sanitize build_id)
      in if short = [] then r else r @ ''-'' @ short)"

text \<open>Equal sanitized ids are the only way for two references to meet.\<close>

lemma kube_sanitize_eq: "kube_sanitize = sanitize"
  by (rule ext) (simp add: kube_sanitize_def sanitize_def)

definition project_part :: "string \<Rightarrow> string" where
  "project_part p = (if sanitize p = [] then ''default'' else sanitize p)"

lemma separators_not_sanitized [simp]: "CHR ''/'' \<notin> set (sanitize n)" "CHR '':'' \<notin> set (sanitize n)"
  using sanitize_chars [of "CHR ''/''" n] sanitize_chars [of "CHR '':''" n] by (auto simp: slug_char_def Let_def)

lemma slash_not_part [simp]: "CHR ''/'' \<notin> set (project_part p)" "CHR '':'' \<notin> set (project_part p)"
  by (auto simp: project_part_def)

lemma split_at_char:
  "c \<notin> set a \<Longrightarrow> c \<notin> set b \<Longrightarrow> a @ c # x = b @ c # y \<longleftrightarrow> a = b \<and> x = y"
  by (auto simp: append_eq_append_conv2 Cons_eq_append_conv append_eq_Cons_conv)

lemma image_ref_eq:
  "image_ref registry g p a tag =
     (if registry \<noteq> [] then trim_right (CHR ''/'') registry @ ''/'' else []) @
     sanitize g @ ''/'' @ project_part p @ ''/'' @ sanitize a @ '':'' @ (if tag = [] then ''latest'' else tag)"
  by (simp add: image_ref_def kube_sanitize_eq project_part_def)

lemma image_ref_inject:
  "image_ref registry g p a t = image_ref registry g' p' a' t' \<longleftrightarrow>
     sanitize g = sanitize g' \<and> project_part p = project_part p' \<and> sanitize a = sanitize a' \<and>
     (if t = [] then ''latest'' else t) = (if t' = [] then ''latest'' else t')"
  unfolding image_ref_eq by (simp add: split_at_char)

section \<open>Identifiers of databases\<close>

definition ident_char :: "char \<Rightarrow> bool" where
  "ident_char c \<longleftrightarrow> slug_char c \<or> c = CHR ''_''"

definition digit :: "char \<Rightarrow> bool" where
  "digit c \<longleftrightarrow> (let n = (of_char c :: nat) in 48 \<le> n \<and> n \<le> 57)"

definition db_ident :: "string \<Rightarrow> string \<Rightarrow> string" where
  "db_ident name fallback =
     (let s = squeeze (CHR ''_'') (trim_by (\<lambda>c. c = CHR ''_'')
                (replace_runs ident_char (CHR ''_'') False (to_lower (trim_space name))))
      in if s = [] then fallback
         else take 48 (if digit (hd s) then ''db_'' @ s else s))"

definition db_credentials :: "string \<Rightarrow> string option \<Rightarrow> (string \<times> string \<times> string) option" where
  "db_credentials name password =
     map_option (\<lambda>p. (db_ident name ''app'', db_ident (name @ ''_user'') ''app_user'', p)) password"

lemma join_nonempty: "w \<in> set ws \<Longrightarrow> w \<noteq> [] \<Longrightarrow> join sep ws \<noteq> []"
  by (induction sep ws rule: join.induct) auto

lemma underscore_not_slug [simp]: "\<not> slug_char (CHR ''_'')"
  by (simp add: slug_char_def Let_def)

lemma db_ident_words:
  "squeeze (CHR ''_'') (trim_by (\<lambda>c. c = CHR ''_'')
     (replace_runs ident_char (CHR ''_'') False s)) = join ''_'' (char_words slug_char s)"
  by (rule squeezed_words) (auto simp: ident_char_def)

text \<open>An SQL identifier: it starts with a letter, goes on with letters, digits and underscores, and is short.\<close>

definition sql_ident :: "string \<Rightarrow> bool" where
  "sql_ident s \<longleftrightarrow> s \<noteq> [] \<and> length s \<le> 48 \<and> slug_char (hd s) \<and> \<not> digit (hd s) \<and> list_all ident_char s"

lemma hd_join: "ws \<noteq> [] \<Longrightarrow> hd ws \<noteq> [] \<Longrightarrow> hd (join sep ws) = hd (hd ws)"
  by (cases ws rule: remdups_adj.cases) auto

lemma db_ident_sql:
  assumes "sql_ident fallback"
  shows "sql_ident (db_ident name fallback)"
proof -
  let ?ws = "char_words slug_char (to_lower (trim_space name))"
  let ?s = "join ''_'' ?ws"
  show ?thesis
  proof (cases "?s = []")
    case True
    then show ?thesis using assms by (simp add: db_ident_def db_ident_words)
  next
    case False
    then have ne: "?ws \<noteq> []" by auto
    then have w: "hd ?ws \<noteq> [] \<and> (\<forall>c \<in> set (hd ?ws). slug_char c)"
      using char_words_chars [OF hd_in_set [OF ne]] by blast
    then have h: "slug_char (hd ?s)" using hd_join [OF ne, of "''_''"] by simp
    have c: "\<forall>x \<in> set ?s. ident_char x"
      using join_chars [of _ "''_''" ?ws] char_words_chars [of _ slug_char] unfolding ident_char_def by fastforce
    let ?t = "if digit (hd ?s) then ''db_'' @ ?s else ?s"
    have "?t \<noteq> []" "slug_char (hd ?t)" "\<not> digit (hd ?t)" "\<forall>x \<in> set ?t. ident_char x"
      using False h c by (auto simp: slug_char_def digit_def ident_char_def Let_def)
    then have "sql_ident (take 48 ?t)"
      by (auto simp: sql_ident_def list_all_iff dest: in_set_takeD)
    then show ?thesis using False by (simp add: db_ident_def db_ident_words Let_def)
  qed
qed

lemma db_credentials_sql:
  "db_credentials name password = Some (d, u, p) \<Longrightarrow> sql_ident d \<and> sql_ident u \<and> password = Some p"
  by (auto simp: db_credentials_def intro!: db_ident_sql)
    (simp_all add: sql_ident_def slug_char_def digit_def ident_char_def Let_def)

section \<open>Connection strings\<close>

definition engine_port :: "string \<Rightarrow> int" where
  "engine_port engine =
     (let k = to_lower (trim_space engine)
      in if k = ''redis'' then 6379
         else if k = ''postgresql'' \<or> k = ''postgres'' then 5432
         else if k = ''mysql'' \<or> k = ''mariadb'' then 3306
         else if k = ''mongodb'' \<or> k = ''mongo'' then 27017
         else 5432)"

definition hex_digit :: "nat \<Rightarrow> char" where
  "hex_digit n = ''0123456789ABCDEF'' ! n"

text \<open>\<open>url.QueryEscape\<close>.\<close>

definition query_escape_char :: "char \<Rightarrow> string" where
  "query_escape_char c =
     (let n = (of_char c :: nat)
      in if (65 \<le> n \<and> n \<le> 90) \<or> (97 \<le> n \<and> n \<le> 122) \<or> (48 \<le> n \<and> n \<le> 57) \<or> c \<in> set ''-_.~'' then [c]
         else if c = CHR '' '' then ''+''
         else [CHR ''%'', hex_digit (n div 16), hex_digit (n mod 16)])"

definition query_escape :: "string \<Rightarrow> string" where
  "query_escape s = concat (map query_escape_char s)"

record database_conn_info =
  ci_host :: string
  ci_port :: int
  ci_database :: string
  ci_username :: string
  ci_password :: string
  ci_connection_string :: string

definition connection_string :: "string \<Rightarrow> database_conn_info \<Rightarrow> string" where
  "connection_string engine ci =
     (let u = query_escape (ci_username ci); p = query_escape (ci_password ci);
          host_port = ci_host ci @ '':'' @ itoa (ci_port ci);
          k = to_lower (trim_space engine)
      in if k = ''redis'' then ''redis://:'' @ p @ ''@'' @ host_port
         else if k = ''mysql'' \<or> k = ''mariadb'' then
           ''mysql://'' @ u @ '':'' @ p @ ''@'' @ host_port @ ''/'' @ ci_database ci
         else if k = ''mongodb'' \<or> k = ''mongo'' then
           ''mongodb://'' @ u @ '':'' @ p @ ''@'' @ host_port @ ''/'' @ ci_database ci @ ''?authSource=admin''
         else ''postgres://'' @ u @ '':'' @ p @ ''@'' @ host_port @ ''/'' @ ci_database ci)"

text \<open>No credential can end its part of the URI: an escaped one holds none of the delimiters.\<close>

lemma hex_digit_alnum: "n < 16 \<Longrightarrow> hex_digit n \<in> set ''0123456789ABCDEF''"
  unfolding hex_digit_def by (rule nth_mem) simp

lemma hex_digit_plain: "n < 16 \<Longrightarrow> hex_digit n \<notin> set '':@/?#''"
  using hex_digit_alnum [of n] by auto

lemma query_escape_delimiters:
  "c \<in> set (query_escape s) \<Longrightarrow> c \<notin> set '':@/?#''"
proof -
  assume "c \<in> set (query_escape s)"
  then obtain x where "c \<in> set (query_escape_char x)" by (auto simp: query_escape_def)
  moreover have "(of_char x :: nat) div 16 < 16" "(of_char x :: nat) mod 16 < 16"
    using nat_of_char_less_256 [of x] by (simp_all add: less_mult_imp_div_less)
  then have h: "hex_digit (of_char x div 16) \<notin> set '':@/?#''" "hex_digit (of_char x mod 16) \<notin> set '':@/?#''"
    using hex_digit_plain by blast+
  moreover have "x \<notin> set '':@/?#''" if "query_escape_char x = [x]"
    using that by (auto simp: query_escape_char_def Let_def)
  moreover have "query_escape_char x \<in> {[x], ''+'', [CHR ''%'', hex_digit (of_char x div 16), hex_digit (of_char x mod 16)]}"
    by (simp add: query_escape_char_def Let_def)
  ultimately show ?thesis by (elim insertE emptyE; simp) (auto split: if_splits)
qed

section \<open>Custom domains\<close>

definition label_ok :: "string \<Rightarrow> bool" where
  "label_ok l \<longleftrightarrow> l \<noteq> [] \<and> length l \<le> 63 \<and> list_all dns_char l \<and> hd l \<noteq> CHR ''-'' \<and> last l \<noteq> CHR ''-''"

definition fqdn_ok :: "string \<Rightarrow> bool" where
  "fqdn_ok s \<longleftrightarrow> (let ls = split_char (CHR ''.'') s in 2 \<le> length ls \<and> list_all label_ok ls)"

definition trim_suffix :: "string \<Rightarrow> string \<Rightarrow> string" where
  "trim_suffix s p = (if has_suffix s p then take (length s - length p) s else s)"

definition validate_custom_domain :: "string \<Rightarrow> string \<Rightarrow> string option" where
  "validate_custom_domain base fqdn =
     (let h = trim_suffix (to_lower (trim_space fqdn)) ''.''
      in if h = [] \<or> length h > 253 \<or> \<not> fqdn_ok h then None
         else if base \<noteq> [] \<and> (h = base \<or> has_suffix h (''.'' @ base)) then None
         else Some h)"

text \<open>
  The check accepts the language of the expression: at least two labels of at most 63 characters,
  joined by dots.
\<close>

lemma split_char_ne [simp]: "split_char c s \<noteq> []"
  by (cases s) (auto split: list.splits)

lemma join_split: "join [c] (split_char c s) = s"
proof (induction s)
  case (Cons x s)
  then show ?case by (cases "split_char c s" rule: remdups_adj.cases) auto
qed simp

lemma split_join:
  "ws \<noteq> [] \<Longrightarrow> list_all (\<lambda>w. c \<notin> set w) ws \<Longrightarrow> split_char c (join [c] ws) = ws"
proof (induction "[c]" ws rule: join.induct)
  case (2 w)
  have "c \<notin> set w \<Longrightarrow> split_char c w = [w]" by (induction w) auto
  then show ?case using 2 by simp
next
  case (3 w v va)
  have "split_char c (w @ c # r) = w # split_char c r" if "c \<notin> set w" for r
    using that by (induction w) auto
  then show ?case using 3 by simp
qed simp

lemma label_no_dot: "label_ok l \<Longrightarrow> CHR ''.'' \<notin> set l"
  by (auto simp: label_ok_def list_all_iff dns_char_def slug_char_def Let_def)

lemma fqdn_ok_regex:
  "fqdn_ok s \<longleftrightarrow> (\<exists>ls. s = join ''.'' ls \<and> 2 \<le> length ls \<and> list_all label_ok ls)"
proof
  assume "fqdn_ok s"
  then show "\<exists>ls. s = join ''.'' ls \<and> 2 \<le> length ls \<and> list_all label_ok ls"
    using join_split [of "CHR ''.''" s] by (metis fqdn_ok_def)
next
  assume "\<exists>ls. s = join ''.'' ls \<and> 2 \<le> length ls \<and> list_all label_ok ls"
  then obtain ls where ls: "s = join ''.'' ls" "2 \<le> length ls" "list_all label_ok ls" by blast
  then have "split_char (CHR ''.'') s = ls"
    using split_join [of ls "CHR ''.''"] label_no_dot by (fastforce simp: list_all_iff)
  then show "fqdn_ok s" using ls by (simp add: fqdn_ok_def)
qed

lemma fqdn_lower: "fqdn_ok s \<Longrightarrow> to_lower s = s"
proof -
  assume "fqdn_ok s"
  then have l: "list_all label_ok (split_char (CHR ''.'') s)" by (simp add: fqdn_ok_def Let_def)
  have "lower_char c = c" if "c \<in> set s" for c
  proof -
    from that have "c \<in> set (join ''.'' (split_char (CHR ''.'') s))" by (simp add: join_split)
    then have "c = CHR ''.'' \<or> (\<exists>w \<in> set (split_char (CHR ''.'') s). c \<in> set w)" by (auto dest: join_chars)
    then show ?thesis
    proof
      assume "\<exists>w \<in> set (split_char (CHR ''.'') s). c \<in> set w"
      then have "dns_char c" using l by (auto simp: list_all_iff label_ok_def)
      then show ?thesis by (auto simp: dns_char_def)
    qed (simp add: lower_char_def Let_def)
  qed
  then show ?thesis by (simp add: to_lower_def map_idI)
qed

text \<open>An accepted domain is a lower-case host name outside the platform's own.\<close>

lemma validate_custom_domain_Some:
  "validate_custom_domain base fqdn = Some h \<Longrightarrow>
     fqdn_ok h \<and> to_lower h = h \<and> length h \<le> 253 \<and>
     (base \<noteq> [] \<longrightarrow> h \<noteq> base \<and> \<not> has_suffix h (''.'' @ base))"
  using fqdn_lower by (auto simp: validate_custom_domain_def Let_def split: if_splits)

lemma has_suffix_append: "has_suffix (a @ b) b"
  by (simp add: has_suffix_def has_prefix_def)

text \<open>No generated host of the platform can be claimed.\<close>

lemma platform_host_reserved: "base \<noteq> [] \<Longrightarrow> validate_custom_domain base x \<noteq> Some (host n p g base)"
proof
  assume b: "base \<noteq> []" and v: "validate_custom_domain base x = Some (host n p g base)"
  have "host n p g base = (sanitize n @ ''.'' @ sanitize p @ ''.'' @ sanitize g) @ (''.'' @ base)"
    by (simp add: host_def)
  then have "has_suffix (host n p g base) (''.'' @ base)" by (metis has_suffix_append)
  then show False using validate_custom_domain_Some [OF v] b by blast
qed

end
