(* ===== verification/Secrets.thy ===== *)
theory Secrets
  imports Go_Time
begin

text \<open>
  Encryption of tenant secrets at rest (\<open>secrets/cipher.go\<close>), with base64 and hexadecimal as the
  standard library has them (strings are byte strings). AES-256-GCM itself is an argument: sealing
  and opening under a nonce, of which the code relies on opening what was sealed and on refusing
  everything else.
\<close>

section \<open>Base64 and hexadecimal\<close>

definition std_alphabet :: string where
  "std_alphabet = ''ABCDEFGHIJKLMNOPQRSTUVWXYZabcdefghijklmnopqrstuvwxyz0123456789+/''"

definition url_alphabet :: string where
  "url_alphabet = ''ABCDEFGHIJKLMNOPQRSTUVWXYZabcdefghijklmnopqrstuvwxyz0123456789-_''"

fun index_of :: "char \<Rightarrow> string \<Rightarrow> nat option" where
  "index_of c [] = None"
| "index_of c (d # s) = (if c = d then Some 0 else map_option Suc (index_of c s))"

text \<open>Six-bit digits of up to three bytes.\<close>

definition byte :: "char \<Rightarrow> nat" where
  "byte c = of_char c"

fun b64_encode :: "string \<Rightarrow> string \<Rightarrow> string" where
  "b64_encode al [] = []"
| "b64_encode al [a] =
     [al ! (byte a div 4), al ! (byte a mod 4 * 16), CHR ''='', CHR ''='']"
| "b64_encode al [a, b] =
     [al ! (byte a div 4), al ! (byte a mod 4 * 16 + byte b div 16), al ! (byte b mod 16 * 4), CHR ''='']"
| "b64_encode al (a # b # c # s) =
     al ! (byte a div 4) # al ! (byte a mod 4 * 16 + byte b div 16) #
     al ! (byte b mod 16 * 4 + byte c div 64) # al ! (byte c mod 64) # b64_encode al s"

definition b64_two :: "string \<Rightarrow> char \<Rightarrow> char \<Rightarrow> string option" where
  "b64_two al w x =
     (case (index_of w al, index_of x al) of
        (Some i, Some j) \<Rightarrow> Some [char_of (i * 4 + j div 16)]
      | _ \<Rightarrow> None)"

definition b64_three :: "string \<Rightarrow> char \<Rightarrow> char \<Rightarrow> char \<Rightarrow> string option" where
  "b64_three al w x y =
     (case (index_of w al, index_of x al, index_of y al) of
        (Some i, Some j, Some k) \<Rightarrow> Some [char_of (i * 4 + j div 16), char_of (j mod 16 * 16 + k div 4)]
      | _ \<Rightarrow> None)"

definition b64_four :: "string \<Rightarrow> char \<Rightarrow> char \<Rightarrow> char \<Rightarrow> char \<Rightarrow> string option" where
  "b64_four al w x y z =
     (case (index_of w al, index_of x al, index_of y al, index_of z al) of
        (Some i, Some j, Some k, Some l) \<Rightarrow>
          Some [char_of (i * 4 + j div 16), char_of (j mod 16 * 16 + k div 4), char_of (k mod 4 * 64 + l)]
      | _ \<Rightarrow> None)"

fun b64_quanta :: "string \<Rightarrow> bool \<Rightarrow> string \<Rightarrow> string option" where
  "b64_quanta al padded [] = Some []"
| "b64_quanta al padded (w # x # y # z # s) =
     (if padded \<and> z = CHR ''='' \<and> s = []
      then (if y = CHR ''='' then b64_two al w x else b64_three al w x y)
      else case b64_four al w x y z of
             None \<Rightarrow> None
           | Some bs \<Rightarrow> map_option (\<lambda>r. bs @ r) (b64_quanta al padded s))"
| "b64_quanta al padded [w, x, y] = (if padded then None else b64_three al w x y)"
| "b64_quanta al padded [w, x] = (if padded then None else b64_two al w x)"
| "b64_quanta al padded [w] = None"

text \<open>The decoder skips line ends.\<close>

definition b64_decode :: "string \<Rightarrow> bool \<Rightarrow> string \<Rightarrow> string option" where
  "b64_decode al padded s = b64_quanta al padded (filter (\<lambda>c. c \<noteq> CHR 0x0A \<and> c \<noteq> CHR 0x0D) s)"

definition hex_value :: "char \<Rightarrow> nat option" where
  "hex_value c =
     (let n = byte c
      in if 48 \<le> n \<and> n \<le> 57 then Some (n - 48)
         else if 97 \<le> n \<and> n \<le> 102 then Some (n - 87)
         else if 65 \<le> n \<and> n \<le> 70 then Some (n - 55)
         else None)"

fun hex_decode :: "string \<Rightarrow> string option" where
  "hex_decode [] = Some []"
| "hex_decode [c] = None"
| "hex_decode (c # d # s) =
     (case (hex_value c, hex_value d) of
        (Some i, Some j) \<Rightarrow> map_option (Cons (char_of (16 * i + j))) (hex_decode s)
      | _ \<Rightarrow> None)"

section \<open>Ciphers\<close>

definition enc_prefix :: string where
  "enc_prefix = ''v1:''"

text \<open>The AEAD of a key: its nonce size, \<open>Seal\<close> and \<open>Open\<close>.\<close>

record aead =
  ae_nonce_size :: nat
  ae_seal :: "string \<Rightarrow> string \<Rightarrow> string"
  ae_open :: "string \<Rightarrow> string \<Rightarrow> string option"

datatype cipher = NoopCipher | GcmCipher aead

definition enabled :: "cipher \<Rightarrow> bool" where
  "enabled ci = (case ci of NoopCipher \<Rightarrow> False | GcmCipher _ \<Rightarrow> True)"

text \<open>The nonce is what \<open>rand.Read\<close> delivered, if it did.\<close>

definition encrypt :: "cipher \<Rightarrow> string option \<Rightarrow> string \<Rightarrow> string option" where
  "encrypt ci nonce plaintext =
     (case ci of
        NoopCipher \<Rightarrow> Some plaintext
      | GcmCipher a \<Rightarrow>
          (case nonce of
             None \<Rightarrow> None
           | Some n \<Rightarrow> Some (enc_prefix @ b64_encode std_alphabet (n @ ae_seal a n plaintext))))"

definition decrypt :: "cipher \<Rightarrow> string \<Rightarrow> string option" where
  "decrypt ci stored =
     (case ci of
        NoopCipher \<Rightarrow> Some stored
      | GcmCipher a \<Rightarrow>
          if \<not> has_prefix stored enc_prefix then Some stored
          else case b64_decode std_alphabet True (drop (length enc_prefix) stored) of
                 None \<Rightarrow> None
               | Some raw \<Rightarrow>
                   if length raw < ae_nonce_size a then None
                   else ae_open a (take (ae_nonce_size a) raw) (drop (ae_nonce_size a) raw))"

definition is_encrypted :: "string \<Rightarrow> bool" where
  "is_encrypted stored \<longleftrightarrow> has_prefix stored enc_prefix"

fun first_key :: "(string \<times> bool) list \<Rightarrow> string \<Rightarrow> string option" where
  "first_key [] s = None"
| "first_key ((al, padded) # encs) s =
     (case b64_decode al padded s of
        Some b \<Rightarrow> if length b = 32 then Some b else first_key encs s
      | None \<Rightarrow> first_key encs s)"

definition decode_key :: "string \<Rightarrow> string option" where
  "decode_key s0 =
     (let s = trim_space s0;
          b64 = (case first_key [(std_alphabet, True), (std_alphabet, False), (url_alphabet, True), (url_alphabet, False)] s of
                   Some b \<Rightarrow> Some b
                 | None \<Rightarrow> if length s = 32 then Some s else None)
      in if s = [] then None
         else if length s = 64
         then (case hex_decode s of Some b \<Rightarrow> if length b \<noteq> 32 then None else Some b | None \<Rightarrow> b64)
         else b64)"

text \<open>\<open>mk\<close> is AES-GCM under a key.\<close>

definition new_cipher :: "(string \<Rightarrow> aead) \<Rightarrow> string \<Rightarrow> cipher option" where
  "new_cipher mk key = (if length key \<noteq> 32 then None else Some (GcmCipher (mk key)))"

definition from_config :: "(string \<Rightarrow> aead) \<Rightarrow> string \<Rightarrow> cipher option" where
  "from_config mk key =
     (if trim_space key = [] then Some NoopCipher
      else case decode_key key of None \<Rightarrow> None | Some raw \<Rightarrow> new_cipher mk raw)"

section \<open>Round trips\<close>

lemma index_of_nth: "distinct al \<Longrightarrow> i < length al \<Longrightarrow> index_of (al ! i) al = Some i"
proof (induction al arbitrary: i)
  case (Cons d s)
  show ?case
  proof (cases i)
    case (Suc j)
    then have "s ! j \<noteq> d" using Cons.prems by (metis distinct.simps(2) length_Cons nth_mem Suc_less_eq)
    then show ?thesis using Cons Suc by simp
  qed simp
qed simp

lemma byte_less [simp]: "byte c < 256"
  unfolding byte_def by (rule nat_of_char_less_256)

lemma char_of_byte [simp]: "char_of (byte c) = c"
  by (simp add: byte_def)

lemma alphabets: "length std_alphabet = 64" "distinct std_alphabet" "CHR ''='' \<notin> set std_alphabet"
  "\<forall>c \<in> set std_alphabet. c \<noteq> CHR 0x0A \<and> c \<noteq> CHR 0x0D"
  by (simp_all add: std_alphabet_def)

lemma digits_of_bytes:
  fixes a b c :: nat
  assumes "a < 256" "b < 256" "c < 256"
  shows "a div 4 < 64" "a mod 4 * 16 + b div 16 < 64" "b mod 16 * 4 + c div 64 < 64" "c mod 64 < 64"
    "a mod 4 * 16 < 64" "b mod 16 * 4 < 64"
    "a div 4 * 4 + (a mod 4 * 16 + b div 16) div 16 = a"
    "(a mod 4 * 16 + b div 16) mod 16 * 16 + (b mod 16 * 4 + c div 64) div 4 = b"
    "(b mod 16 * 4 + c div 64) mod 4 * 64 + c mod 64 = c"
proof -
  have q: "a div 4 < 64" "b div 16 < 16" "c div 64 < 4"
    using assms by (simp_all add: less_mult_imp_div_less)
  have m: "a mod 4 < 4" "b mod 16 < 16" "c mod 64 < 64" by simp_all
  have d: "(a mod 4 * 16 + b div 16) div 16 = a mod 4" "(a mod 4 * 16 + b div 16) mod 16 = b div 16"
    "(b mod 16 * 4 + c div 64) div 4 = b mod 16" "(b mod 16 * 4 + c div 64) mod 4 = c div 64"
    using q by simp_all
  show "a div 4 < 64" "a mod 4 * 16 + b div 16 < 64" "b mod 16 * 4 + c div 64 < 64" "c mod 64 < 64"
    "a mod 4 * 16 < 64" "b mod 16 * 4 < 64"
    using q m by linarith+
  show "a div 4 * 4 + (a mod 4 * 16 + b div 16) div 16 = a"
    "(a mod 4 * 16 + b div 16) mod 16 * 16 + (b mod 16 * 4 + c div 64) div 4 = b"
    "(b mod 16 * 4 + c div 64) mod 4 * 64 + c mod 64 = c"
    unfolding d by simp_all
qed

lemma index_std: "i < 64 \<Longrightarrow> index_of (std_alphabet ! i) std_alphabet = Some i"
  using alphabets by (simp add: index_of_nth)

lemma std_not_pad: "i < 64 \<Longrightarrow> std_alphabet ! i \<noteq> CHR ''=''"
  using alphabets by (metis nth_mem)

lemma std_not_eol: "i < 64 \<Longrightarrow> std_alphabet ! i \<noteq> CHR 0x0A \<and> std_alphabet ! i \<noteq> CHR 0x0D"
  using alphabets by (metis nth_mem)

text \<open>Decoding an encoding.\<close>

lemma b64_quanta_encode: "b64_quanta std_alphabet True (b64_encode std_alphabet s) = Some s"
proof (induction std_alphabet s rule: b64_encode.induct)
  case (2 a)
  note d = digits_of_bytes [of "byte a" 0 0, simplified]
  show ?case using d by (simp add: b64_two_def index_std)
next
  case (3 a b)
  note d = digits_of_bytes [of "byte a" "byte b" 0, simplified]
  have "(byte b mod 16 * 4) div 4 = byte b mod 16" by simp
  then show ?case using d std_not_pad [of "byte b mod 16 * 4"] by (simp add: b64_three_def index_std)
next
  case (4 a b c s)
  note d = digits_of_bytes [of "byte a" "byte b" "byte c", simplified]
  show ?case
    using 4 d std_not_pad [of "byte c mod 64"] by (simp add: b64_four_def index_std)
qed simp

lemma b64_encode_chars: "c \<in> set (b64_encode std_alphabet s) \<Longrightarrow> c \<noteq> CHR 0x0A \<and> c \<noteq> CHR 0x0D"
proof (induction std_alphabet s rule: b64_encode.induct)
  case (2 a)
  note d = digits_of_bytes [of "byte a" 0 0, simplified]
  show ?case using 2 d std_not_eol by auto
next
  case (3 a b)
  note d = digits_of_bytes [of "byte a" "byte b" 0, simplified]
  show ?case using 3 d std_not_eol by auto
next
  case (4 a b c s)
  note d = digits_of_bytes [of "byte a" "byte b" "byte c", simplified]
  show ?case using 4 d std_not_eol by auto
qed simp

lemma b64_roundtrip: "b64_decode std_alphabet True (b64_encode std_alphabet s) = Some s"
proof -
  have "filter (\<lambda>c. c \<noteq> CHR 0x0A \<and> c \<noteq> CHR 0x0D) (b64_encode std_alphabet s) = b64_encode std_alphabet s"
    using b64_encode_chars by (auto simp: filter_id_conv)
  then show ?thesis by (simp add: b64_decode_def b64_quanta_encode)
qed

text \<open>What the code relies on of an AEAD.\<close>

definition lawful_aead :: "aead \<Rightarrow> bool" where
  "lawful_aead a \<longleftrightarrow> (\<forall>n m c. length n = ae_nonce_size a \<longrightarrow> ae_open a n c = Some m \<longleftrightarrow> c = ae_seal a n m)"

lemma encrypted_prefix: "encrypt (GcmCipher a) nonce v = Some e \<Longrightarrow> is_encrypted e"
  by (auto simp: encrypt_def is_encrypted_def has_prefix_def split: option.splits)

lemma decrypt_encrypt:
  assumes "lawful_aead a" "length n = ae_nonce_size a"
  shows "\<exists>e. encrypt (GcmCipher a) (Some n) v = Some e \<and> decrypt (GcmCipher a) e = Some v"
  using assms by (simp add: encrypt_def decrypt_def has_prefix_def enc_prefix_def b64_roundtrip lawful_aead_def)

lemma decrypt_plain: "\<not> is_encrypted v \<Longrightarrow> decrypt ci v = Some v"
  by (cases ci) (simp_all add: decrypt_def is_encrypted_def)

lemma decrypt_sealed:
  "lawful_aead a \<Longrightarrow> is_encrypted e \<Longrightarrow> decrypt (GcmCipher a) e = Some v \<Longrightarrow>
     \<exists>n raw. b64_decode std_alphabet True (drop 3 e) = Some raw \<and> length n = ae_nonce_size a \<and> raw = n @ ae_seal a n v"
proof -
  assume l: "lawful_aead a" and e: "is_encrypted e" "decrypt (GcmCipher a) e = Some v"
  then obtain raw where raw: "b64_decode std_alphabet True (drop 3 e) = Some raw" "\<not> length raw < ae_nonce_size a"
    "ae_open a (take (ae_nonce_size a) raw) (drop (ae_nonce_size a) raw) = Some v"
    by (auto simp: decrypt_def is_encrypted_def enc_prefix_def numeral_3_eq_3 split: option.splits if_splits)
  then have "length (take (ae_nonce_size a) raw) = ae_nonce_size a" by simp
  moreover from this have "drop (ae_nonce_size a) raw = ae_seal a (take (ae_nonce_size a) raw) v"
    using l raw(3) by (auto simp: lawful_aead_def)
  ultimately show ?thesis using raw(1) by (metis append_take_drop_id)
qed

text \<open>A key that is accepted makes a real cipher; only a blank one disables encryption.\<close>

lemma first_key_length: "first_key encs s = Some b \<Longrightarrow> length b = 32"
  by (induction encs s rule: first_key.induct) (auto split: option.splits if_splits)

lemma decode_key_length: "decode_key s = Some b \<Longrightarrow> length b = 32"
  by (auto simp: decode_key_def Let_def dest: first_key_length split: option.splits if_splits)

lemma from_config_enabled:
  "from_config mk key = Some ci \<Longrightarrow> (enabled ci \<longleftrightarrow> trim_space key \<noteq> [])"
  by (auto simp: from_config_def new_cipher_def enabled_def split: if_splits option.splits)

lemma from_config_total: "decode_key key = Some b \<Longrightarrow> trim_space key \<noteq> [] \<Longrightarrow> from_config mk key = Some (GcmCipher (mk b))"
  by (simp add: from_config_def new_cipher_def decode_key_length)

end
