(* ===== verification/Platform.thy ===== *)
theory Platform
  imports Identity_Sessions Invoicing Kube_Fake Platform_Text Secrets
begin

text \<open>
  The platform service (\<open>platform/service.go\<close>): the state it works on, the billing gate and the
  plan limits, the rendering of an app as a workload, and deploying it. The service runs on the
  store behind a connection that may fail (as in \<open>Identity\<close>), on any deploy backend, and on the
  queue of builds it has started. The clock, ids, nonces, DNS and random values are arguments;
  \<open>now k\<close> and \<open>id k\<close> are the k-th reading within one operation.
\<close>

section \<open>Errors, arguments and state\<close>

datatype perr =
    PNotFound | PQuotaExceeded | PInvalidTemplate | PInvalidRegion | PNoImage | PNoRelease
  | PInvalidScale | PInvalidDomain | PDomainTaken | PCipher | PCredentials | PToken
  | PBilling berr | PStore serr | PBackend string

record penv =
  pe_now :: "nat \<Rightarrow> time"
  pe_id :: "nat \<Rightarrow> string"
  pe_nonce :: "string option"
  pe_token :: "string option"
  pe_password :: "string option"
  pe_lookup_txt :: "string \<Rightarrow> string list option"
  pe_sha256_hex :: "string \<Rightarrow> string"
  pe_float_text :: "real \<Rightarrow> string"

record pconf =
  pf_tx :: tx_mode
  pf_build_registry :: string
  pf_pull_secret_name :: string
  pf_db_storage_gb :: int
  pf_db_storage_class :: string
  pf_cipher :: cipher
  pf_base_domain :: string
  pf_gateway_lb_host :: string

record build_request =
  br_app_id :: string
  br_build_id :: string
  br_org_slug :: string
  br_project_slug :: string
  br_app_name :: string
  br_git_repo :: string
  br_git_ref :: string
  br_context_dir :: string
  br_dockerfile :: string
  br_image_ref :: string

record 'c pworld =
  pw_w :: world
  pw_cluster :: 'c
  pw_builds :: "build_request list"

type_synonym ('c, 'a) pop = "(perr, 'c pworld, 'a) op"

text \<open>A call of the store, and one of the deploy backend.\<close>

definition on_world :: "('e, world, 'a) op \<Rightarrow> ('e, 'c pworld, 'a) op" where
  "on_world m p = (let (r, w) = m (pw_w p) in (r, p\<lparr>pw_w := w\<rparr>))"

definition p_read :: "(mem \<Rightarrow> serr + 'a) \<Rightarrow> (serr, 'c pworld, 'a) op" where
  "p_read r = on_world (on_read r)"

definition p_write :: "'a mem_op \<Rightarrow> (serr, 'c pworld, 'a) op" where
  "p_write m = on_world (on_store m)"

definition lift_p :: "(serr, 'c pworld, 'a) op \<Rightarrow> ('c, 'a) pop" where
  "lift_p m = tryE m (\<lambda>e. failE (PStore e)) okE"

definition on_cluster :: "('c, 'a) bop \<Rightarrow> ('c, 'a) pop" where
  "on_cluster m p =
     (let (r, c) = m (pw_cluster p)
      in (case r of Inl e \<Rightarrow> Inl (PBackend e) | Inr x \<Rightarrow> Inr x, p\<lparr>pw_cluster := c\<rparr>))"

text \<open>The store the billing service works on is the same one.\<close>

definition platform_bstore :: "'c pworld bstore" where
  "platform_bstore =
     \<lparr>bs_list_all_orgs = p_read list_all_orgs,
      bs_get_organization = (\<lambda>i. p_read (get_organization i)),
      bs_get_settings = p_read get_settings,
      bs_get_subscription = (\<lambda>i. p_read (get_subscription i)),
      bs_get_subscription_by_stripe_id = (\<lambda>i. p_read (get_subscription_by_stripe_id i)),
      bs_get_subscription_by_customer_id = (\<lambda>i. p_read (get_subscription_by_customer_id i)),
      bs_upsert_subscription = (\<lambda>b. p_write (upsert_subscription b)),
      bs_list_plans = p_read list_plans,
      bs_get_plan = (\<lambda>i. p_read (get_plan i)),
      bs_list_pricing_components = p_read list_pricing_components,
      bs_list_apps_by_org = (\<lambda>i. p_read (list_apps_by_org i)),
      bs_list_services_by_org = (\<lambda>i. p_read (list_services_by_org i)),
      bs_list_databases_by_org = (\<lambda>i. p_read (list_databases_by_org i)),
      bs_add_usage = (\<lambda>u. p_write (add_usage u)),
      bs_add_usage_if_absent = (\<lambda>u. p_write (add_usage_if_absent u)),
      bs_list_usage_by_org_since = (\<lambda>i t p. p_read (list_usage_by_org_since i t p)),
      bs_event_processed = (\<lambda>i. p_read (event_processed i)),
      bs_mark_event_processed = (\<lambda>i. p_write (mark_event_processed i)),
      bs_get_meter_state = p_read get_meter_state,
      bs_set_meter_state = (\<lambda>m. p_write (set_meter_state m)),
      bs_get_usage_report_state = (\<lambda>i. p_read (get_usage_report_state i)),
      bs_set_usage_report_state = (\<lambda>r. p_write (set_usage_report_state r))\<rparr>"

definition lift_b :: "(berr, 'c pworld, 'a) op \<Rightarrow> ('c, 'a) pop" where
  "lift_b m = tryE m (\<lambda>e. failE (PBilling e)) okE"

section \<open>Gates\<close>

definition ensure_active_p :: "penv \<Rightarrow> string \<Rightarrow> ('c, unit) pop" where
  "ensure_active_p en g = lift_b (ensure_active platform_bstore (pe_now en 0) g)"

definition plan_limits_p :: "string \<Rightarrow> ('c, limits) pop" where
  "plan_limits_p g =
     tryE (p_read (get_subscription g))
       (\<lambda>_. lift_b (plan_limits platform_bstore []))
       (\<lambda>b. lift_b (plan_limits platform_bstore (sub_plan_id b)))"

text \<open>Settings whose lookup failed count as missing.\<close>

definition with_settings :: "(platform_settings option \<Rightarrow> ('c, 'a) pop) \<Rightarrow> ('c, 'a) pop" where
  "with_settings k = tryE (p_read get_settings) (\<lambda>_. k None) (\<lambda>x. k (Some x))"

definition normalize_resources :: "real \<Rightarrow> int \<Rightarrow> ('c, real \<times> int) pop" where
  "normalize_resources cpu mem_mb =
     with_settings (\<lambda>x.
       let (def_cpu, def_mem) =
             (case x of None \<Rightarrow> (1 / 4, 256) | Some y \<Rightarrow> (set_default_cpu y, set_default_memory_mb y))
       in okE (if cpu \<le> 0 then def_cpu else cpu, if mem_mb \<le> 0 then def_mem else mem_mb))"

definition check_quota :: "string \<Rightarrow> real \<Rightarrow> int \<Rightarrow> int \<Rightarrow> ('c, unit) pop" where
  "check_quota g cpu mem_mb current_count =
     bindE (plan_limits_p g) (\<lambda>lim.
       if cpu > lim_max_cpu lim then failE PQuotaExceeded
       else if mem_mb > lim_max_memory_mb lim then failE PQuotaExceeded
       else if current_count \<ge> lim_max_apps lim then failE PQuotaExceeded
       else okE ())"

definition check_workload_size :: "string \<Rightarrow> real \<Rightarrow> int \<Rightarrow> ('c, unit) pop" where
  "check_workload_size g cpu mem_mb =
     bindE (plan_limits_p g) (\<lambda>lim.
       if cpu > lim_max_cpu lim then failE PQuotaExceeded
       else if mem_mb > lim_max_memory_mb lim then failE PQuotaExceeded
       else okE ())"

definition workload_count :: "string \<Rightarrow> ('c, int) pop" where
  "workload_count g =
     bindE (lift_p (p_read (list_apps_by_org g))) (\<lambda>apps.
     bindE (lift_p (p_read (list_services_by_org g))) (\<lambda>svcs.
     bindE (lift_p (p_read (list_databases_by_org g))) (\<lambda>dbs.
       okE (int (length apps) + int (length svcs) + int (length dbs)))))"

definition slug_of_org :: "string \<Rightarrow> ('c, string) pop" where
  "slug_of_org g =
     tryE (p_read (get_organization g)) (\<lambda>_. okE g) (\<lambda>o1. okE (if org_slug o1 \<noteq> [] then org_slug o1 else g))"

definition slug_of_project :: "string \<Rightarrow> ('c, string) pop" where
  "slug_of_project i =
     (if i = [] then okE ''default''
      else tryE (p_read (get_project i)) (\<lambda>_. okE i) (\<lambda>p. okE (if proj_slug p \<noteq> [] then proj_slug p else i)))"

definition quota_for_org :: "string \<Rightarrow> ('c, quota) pop" where
  "quota_for_org g =
     bindE (plan_limits_p g) (\<lambda>lim.
       let q = \<lparr>q_max_cpu = lim_max_cpu lim, q_max_memory_mb = lim_max_memory_mb lim, q_max_apps = lim_max_apps lim,
                q_default_cpu = 0, q_default_memory_mb = 0, q_cpu_factor = 0, q_memory_factor = 0\<rparr>
       in with_settings (\<lambda>x. okE (case x of None \<Rightarrow> q | Some y \<Rightarrow>
            q\<lparr>q_default_cpu := set_default_cpu y, q_default_memory_mb := set_default_memory_mb y,
              q_cpu_factor := set_cpu_overcommit_factor y, q_memory_factor := set_memory_overcommit_factor y\<rparr>)))"

definition resolve_region :: "string \<Rightarrow> ('c, string) pop" where
  "resolve_region requested0 =
     bindE (lift_p (p_read get_settings)) (\<lambda>x.
       let requested1 = trim_space requested0;
           requested = (if requested1 = [] then trim_space (set_default_region x) else requested1)
       in if set_regions x = [] then okE requested
          else if requested = [] then okE []
          else if list_ex (\<lambda>r. equal_fold (trim_space r) requested) (set_regions x) then okE requested
          else failE PInvalidRegion)"

definition overcommit_factors :: "('c, real \<times> real) pop" where
  "overcommit_factors =
     with_settings (\<lambda>x. okE (case x of None \<Rightarrow> (0, 0)
       | Some y \<Rightarrow> (set_cpu_overcommit_factor y, set_memory_overcommit_factor y)))"

section \<open>An app as a workload\<close>

definition app_secret_name :: "string \<Rightarrow> string" where
  "app_secret_name i = ''vortex-env-'' @ kube_sanitize i"

text \<open>The plain and the decrypted entries; none when a real secret does not open.\<close>

fun resolve_entries ::
  "cipher \<Rightarrow> app_env_entry list \<Rightarrow> (string, string) gomap \<Rightarrow> (string, string) gomap \<Rightarrow>
   ((string, string) gomap \<times> (string, string) gomap) option" where
  "resolve_entries ci [] plain secret = Some (plain, secret)"
| "resolve_entries ci (e # es) plain secret =
     (if \<not> env_secret e then resolve_entries ci es (gput (env_key e) (env_value e) plain) secret
      else case decrypt ci (env_value e) of
             Some v \<Rightarrow> resolve_entries ci es plain (gput (env_key e) v secret)
           | None \<Rightarrow> if enabled ci \<and> has_prefix (env_value e) enc_prefix then None
                    else resolve_entries ci es plain secret)"

definition resolved_env :: "pconf \<Rightarrow> string \<Rightarrow> ('c, (string, string) gomap \<times> (string, string) gomap) pop" where
  "resolved_env pf i =
     bindE (lift_p (p_read (list_app_env i))) (\<lambda>es.
       case resolve_entries (pf_cipher pf) es [] [] of None \<Rightarrow> failE PCipher | Some r \<Rightarrow> okE r)"

definition verified_hosts :: "domain list \<Rightarrow> string list" where
  "verified_hosts ds = map dom_domain (filter (\<lambda>d. dom_domain d \<noteq> [] \<and> domain_is_verified d) ds)"

definition app_domains :: "string \<Rightarrow> ('c, string list) pop" where
  "app_domains i = tryE (p_read (list_domains_by_app i)) (\<lambda>_. okE []) (\<lambda>ds. okE (verified_hosts ds))"

definition scaling_for_app :: "app \<Rightarrow> ('c, scaling) pop" where
  "scaling_for_app a =
     with_settings (\<lambda>x.
       let sc = (case x of
             None \<Rightarrow> \<lparr>sc_min_replicas = 1, sc_max_replicas = 5, sc_polling_interval = 30,
                      sc_cooldown_period = 300, sc_cpu_utilization = 70, sc_http_trigger = False\<rparr>
           | Some y \<Rightarrow> \<lparr>sc_min_replicas = set_keda_default_min_replicas y,
                        sc_max_replicas = set_keda_default_max_replicas y,
                        sc_polling_interval = set_keda_polling_interval y,
                        sc_cooldown_period = set_keda_cooldown_period y,
                        sc_cpu_utilization = set_keda_cpu_utilization y,
                        sc_http_trigger = set_keda_http_trigger y\<rparr>)
       in okE (if app_max_replicas a > 0
               then sc\<lparr>sc_max_replicas := app_max_replicas a, sc_min_replicas := app_min_replicas a\<rparr>
               else if app_min_replicas a > 0 then sc\<lparr>sc_min_replicas := app_min_replicas a\<rparr>
               else sc))"

definition app_workload :: "pconf \<Rightarrow> app \<Rightarrow> string \<Rightarrow> string \<Rightarrow> ('c, workload) pop" where
  "app_workload pf a org_s proj_s =
     bindE overcommit_factors (\<lambda>(cpu_f, mem_f).
     bindE (resolved_env pf (app_id a)) (\<lambda>(plain, secret).
     bindE (app_domains (app_id a)) (\<lambda>ds.
     bindE (scaling_for_app a) (\<lambda>sc.
       okE \<lparr>wl_org_slug = org_s, wl_project_slug = proj_s, wl_name = app_name a, wl_kind = ''app'',
            wl_image = app_image a, wl_port = 0, wl_cpu = app_cpu a, wl_memory_mb = app_memory_mb a,
            wl_env = plain, wl_cpu_factor = cpu_f, wl_memory_factor = mem_f, wl_template_key = [],
            wl_domains = ds, wl_region = app_region a, wl_storage_gb = 0, wl_storage_class = [],
            wl_image_pull_secret = (if app_git_repository a \<noteq> [] then pf_pull_secret_name pf else []),
            wl_env_secret_name = (if secret \<noteq> [] then app_secret_name (app_id a) else []),
            wl_scaling = sc\<rparr>))))"

definition apply_app :: "'c backend \<Rightarrow> pconf \<Rightarrow> app \<Rightarrow> string \<Rightarrow> string \<Rightarrow> ('c, string \<times> string) pop" where
  "apply_app be pf a org_s proj_s =
     bindE (resolved_env pf (app_id a)) (\<lambda>(plain, secret).
     bindE (on_cluster (be_ensure_app_secret be (app_namespace a) (app_secret_name (app_id a)) secret)) (\<lambda>_.
     bindE (app_workload pf a org_s proj_s) (\<lambda>w.
       on_cluster (be_apply be w))))"

definition deploy_built_app :: "'c backend \<Rightarrow> pconf \<Rightarrow> app \<Rightarrow> string \<Rightarrow> string \<Rightarrow> ('c, string \<times> string) pop" where
  "deploy_built_app be pf a org_s proj_s =
     bindE (if pf_pull_secret_name pf \<noteq> []
            then on_cluster (be_ensure_image_pull_secret be (app_namespace a) (pf_pull_secret_name pf)) else okE ()) (\<lambda>_.
       apply_app be pf a org_s proj_s)"

section \<open>Release history\<close>

definition config_text :: "penv \<Rightarrow> workload \<Rightarrow> string" where
  "config_text en w =
     (let nl = [CHR 0x0A]; keys = sort_by (<) (map fst (wl_env w))
      in ''image='' @ wl_image w @ nl @ ''cpu='' @ pe_float_text en (wl_cpu w) @ nl
         @ ''mem='' @ itoa (wl_memory_mb w) @ nl
         @ concat (map (\<lambda>k. ''env:'' @ k @ ''='' @ getenv (wl_env w) k @ nl) keys)
         @ concat (map (\<lambda>d. ''dom:'' @ d @ nl) (sort_by (<) (wl_domains w)))
         @ ''secret='' @ wl_env_secret_name w @ nl)"

definition config_hash :: "penv \<Rightarrow> workload \<Rightarrow> string" where
  "config_hash en w = pe_sha256_hex en (config_text en w)"

definition is_current :: "release \<Rightarrow> bool" where
  "is_current r \<longleftrightarrow> rel_status r \<in> {ReleaseActive, ReleaseDeploying}"

fun supersede_all :: "release list \<Rightarrow> release_status \<Rightarrow> int \<Rightarrow> int iop" where
  "supersede_all [] st next = okE next"
| "supersede_all (r # rs) st next =
     (let next2 = (if rel_revision r \<ge> next then rel_revision r + 1 else next)
      in bindE (if is_current r then lift_s (on_store (update_release (r\<lparr>rel_status := st\<rparr>))) else okE ())
           (\<lambda>_. supersede_all rs st next2))"

definition new_release :: "penv \<Rightarrow> nat \<Rightarrow> app \<Rightarrow> workload \<Rightarrow> string \<Rightarrow> int \<Rightarrow> release" where
  "new_release en k a w note rev1 =
     \<lparr>rel_id = pe_id en k, rel_app_id = app_id a, rel_org_id = app_org_id a, rel_revision = rev1,
      rel_image = wl_image w, rel_git_ref = app_git_branch a, rel_config_hash = config_hash en w,
      rel_cpu = wl_cpu w, rel_memory_mb = wl_memory_mb w, rel_status = ReleaseActive, rel_note = note,
      rel_created_at = pe_now en k\<rparr>"

definition allocate_and_insert_release ::
  "penv \<Rightarrow> nat \<Rightarrow> app \<Rightarrow> workload \<Rightarrow> string \<Rightarrow> release_status \<Rightarrow> release iop" where
  "allocate_and_insert_release en k a w note st =
     bindE (lift_s (on_read (list_releases_by_app (app_id a) \<lparr>page_limit = 0, page_offset = 0\<rparr>))) (\<lambda>existing.
     bindE (supersede_all existing st 1) (\<lambda>next_rev.
       let r = new_release en k a w note next_rev
       in bindE (lift_s (on_store (create_release r))) (\<lambda>_. okE r)))"

fun record_attempts ::
  "nat \<Rightarrow> tx_mode \<Rightarrow> penv \<Rightarrow> nat \<Rightarrow> app \<Rightarrow> workload \<Rightarrow> string \<Rightarrow> release_status \<Rightarrow> release iop" where
  "record_attempts 0 mode en k a w note st = failE (IStore ErrConflict)"
| "record_attempts (Suc n) mode en k a w note st =
     tryE (in_tx mode (allocate_and_insert_release en k a w note st))
       (\<lambda>e. if e = IStore ErrConflict then record_attempts n mode en (Suc k) a w note st else failE e) okE"

text \<open>Ids and clock readings of the attempts start at \<open>k\<close>.\<close>

definition record_release ::
  "pconf \<Rightarrow> penv \<Rightarrow> nat \<Rightarrow> app \<Rightarrow> workload \<Rightarrow> string \<Rightarrow> release_status \<Rightarrow> (ierr, 'c pworld, release) op" where
  "record_release pf en k a w note st = on_world (record_attempts 5 (pf_tx pf) en k a w note st)"

text \<open>After a deploy the snapshot is best effort: its failure is logged and dropped.\<close>

definition log_release ::
  "pconf \<Rightarrow> penv \<Rightarrow> nat \<Rightarrow> app \<Rightarrow> string \<Rightarrow> string \<Rightarrow> string \<Rightarrow> release_status \<Rightarrow> ('c, unit) pop" where
  "log_release pf en k a org_s proj_s note st =
     tryE (app_workload pf a org_s proj_s) (\<lambda>_. okE ())
       (\<lambda>w. tryE (record_release pf en k a w note st) (\<lambda>_. okE ()) (\<lambda>_. okE ()))"

section \<open>Builds\<close>

definition start_build :: "pconf \<Rightarrow> penv \<Rightarrow> nat \<Rightarrow> app \<Rightarrow> string \<Rightarrow> string \<Rightarrow> ('c, unit) pop" where
  "start_build pf en k a org_s proj_s =
     (let bld = \<lparr>bld_id = pe_id en k, bld_app_id = app_id a, bld_org_id = app_org_id a, bld_status = BuildBuilding,
                 bld_commit_ref = app_git_branch a, bld_image = [], bld_logs = [], bld_created_at = pe_now en k,
                 bld_finished_at = zero_time\<rparr>;
          req = \<lparr>br_app_id = app_id a, br_build_id = bld_id bld, br_org_slug = org_s, br_project_slug = proj_s,
                 br_app_name = app_name a, br_git_repo = app_git_repository a, br_git_ref = app_git_branch a,
                 br_context_dir = [], br_dockerfile = ''Dockerfile'',
                 br_image_ref = image_ref (pf_build_registry pf) (app_org_id a) (app_project_id a) (app_id a)
                   (build_ref (app_git_branch a) (bld_id bld))\<rparr>
      in bindE (lift_p (p_write (create_build bld))) (\<lambda>_ p. (Inr (), p\<lparr>pw_builds := pw_builds p @ [req]\<rparr>)))"

definition gate_built_deploy :: "penv \<Rightarrow> app \<Rightarrow> ('c, unit) pop" where
  "gate_built_deploy en a =
     bindE (ensure_active_p en (app_org_id a)) (\<lambda>_.
       check_workload_size (app_org_id a) (app_cpu a) (app_memory_mb a))"

text \<open>A store call whose error is dropped.\<close>

definition dropped :: "(serr, 'c pworld, 'a) op \<Rightarrow> ('c, unit) pop" where
  "dropped m = tryE m (\<lambda>_. okE ()) (\<lambda>_. okE ())"

definition set_status_unless_stopped :: "string \<Rightarrow> string \<Rightarrow> ('c, unit) pop" where
  "set_status_unless_stopped i st =
     tryE (p_read (get_app i)) (\<lambda>_. okE ())
       (\<lambda>a. if app_status a \<noteq> ''stopped'' then dropped (p_write (update_app (a\<lparr>app_status := st\<rparr>))) else okE ())"

definition finish_build :: "string \<Rightarrow> (build \<Rightarrow> build) \<Rightarrow> ('c, unit) pop" where
  "finish_build build_i f =
     tryE (p_read (get_build build_i)) (\<lambda>_. okE ()) (\<lambda>b. dropped (p_write (update_build (f b))))"

definition finish_build_success ::
  "'c backend \<Rightarrow> pconf \<Rightarrow> penv \<Rightarrow> string \<Rightarrow> string \<Rightarrow> string \<Rightarrow> string \<Rightarrow> string \<Rightarrow> ('c, unit) pop" where
  "finish_build_success be pf en i build_i org_s proj_s img =
     bindE (finish_build build_i
       (\<lambda>b. b\<lparr>bld_status := BuildSucceeded, bld_image := img, bld_finished_at := pe_now en 0\<rparr>)) (\<lambda>_.
     tryE (p_read (get_app i)) (\<lambda>_. okE ()) (\<lambda>a.
       if app_status a = ''stopped'' then dropped (p_write (update_app (a\<lparr>app_image := img\<rparr>)))
       else let b = a\<lparr>app_image := img\<rparr>
            in tryE (p_write (update_app b)) (\<lambda>_. okE ()) (\<lambda>_.
               tryE (gate_built_deploy en b) (\<lambda>_. set_status_unless_stopped i ''blocked'') (\<lambda>_.
               let finish = (\<lambda>derr.
                     tryE (p_read (get_app i)) (\<lambda>_. okE ()) (\<lambda>c.
                       if app_status c = ''stopped'' then okE ()
                       else case derr of
                              None \<Rightarrow> dropped (p_write (update_app (c\<lparr>app_status := ''build_failed''\<rparr>)))
                            | Some (release, hst) \<Rightarrow>
                                (let d = c\<lparr>app_release := release, app_host := hst, app_status := ''deploying''\<rparr>
                                 in bindE (dropped (p_write (update_app d))) (\<lambda>_.
                                      log_release pf en 1 d org_s proj_s [] ReleaseSuperseded))))
               in tryE (deploy_built_app be pf b org_s proj_s) (\<lambda>_. finish None) (\<lambda>r. finish (Some r))))))"

definition finish_build_failure :: "penv \<Rightarrow> string \<Rightarrow> string \<Rightarrow> string \<Rightarrow> ('c, unit) pop" where
  "finish_build_failure en i build_i logs =
     bindE (set_status_unless_stopped i ''build_failed'') (\<lambda>_.
       finish_build build_i (\<lambda>b. b\<lparr>bld_status := BuildFailed, bld_logs := logs, bld_finished_at := pe_now en 0\<rparr>))"

text \<open>The goroutine of the n-th build started, once the builder answers with an image or its logs.\<close>

definition run_build :: "'c backend \<Rightarrow> pconf \<Rightarrow> penv \<Rightarrow> nat \<Rightarrow> string + string \<Rightarrow> ('c, unit) pop" where
  "run_build be pf en n result p =
     (if n < length (pw_builds p)
      then let req = pw_builds p ! n; q = p\<lparr>pw_builds := take n (pw_builds p) @ drop (Suc n) (pw_builds p)\<rparr>
           in (case result of
                 Inl logs \<Rightarrow> finish_build_failure en (br_app_id req) (br_build_id req) logs q
               | Inr img \<Rightarrow>
                   finish_build_success be pf en (br_app_id req) (br_build_id req) (br_org_slug req)
                     (br_project_slug req) img q)
      else (Inr (), p))"

end
