(* ===== verification/Platform_Apps.thy ===== *)
theory Platform_Apps
  imports Platform
begin

text \<open>
  Apps: creating, deploying, stopping, restarting and deleting them, their builds and logs
  (\<open>platform/service.go\<close>), their release history, rollback, update and scaling
  (\<open>platform/releases.go\<close>).
\<close>

section \<open>Apps of an organization\<close>

definition owned_app :: "string \<Rightarrow> string \<Rightarrow> ('c, app) pop" where
  "owned_app g i =
     tryE (p_read (get_app i))
       (\<lambda>e. if e = ErrNotFound then failE PNotFound else failE (PStore e))
       (\<lambda>a. if app_org_id a \<noteq> g then failE PNotFound else okE a)"

definition list_apps :: "string \<Rightarrow> ('c, app list) pop" where
  "list_apps g = lift_p (p_read (list_apps_by_org g))"

definition list_apps_in_project :: "string \<Rightarrow> string \<Rightarrow> ('c, app list) pop" where
  "list_apps_in_project g p = bindE (list_apps g) (\<lambda>xs. okE (filter (\<lambda>a. app_project_id a = p) xs))"

record create_app_input =
  ca_name :: string
  ca_project_id :: string
  ca_image :: string
  ca_git_repository :: string
  ca_git_branch :: string
  ca_build_pack :: string
  ca_cpu :: real
  ca_memory_mb :: int
  ca_region :: string

text \<open>What a deploy that succeeded writes of its placement, and the snapshot that follows.\<close>

definition placed :: "string \<times> string \<Rightarrow> app \<Rightarrow> app" where
  "placed r a = a\<lparr>app_release := fst r, app_host := snd r\<rparr>"

definition new_app :: "penv \<Rightarrow> string \<Rightarrow> create_app_input \<Rightarrow> real \<Rightarrow> int \<Rightarrow> string \<Rightarrow> string \<Rightarrow> app" where
  "new_app en g input cpu mem_mb region ns =
     \<lparr>app_id = pe_id en 0, app_org_id = g, app_project_id = ca_project_id input,
      app_name = trim_space (ca_name input), app_image = trim_space (ca_image input),
      app_git_repository = trim_space (ca_git_repository input),
      app_git_branch = (if ca_git_branch input = [] then ''main'' else ca_git_branch input),
      app_build_pack = ca_build_pack input, app_cpu = cpu, app_memory_mb = mem_mb, app_status = ''queued'',
      app_min_replicas = 0, app_max_replicas = 0, app_region = region, app_namespace = ns, app_release = [],
      app_host = [], app_created_at = pe_now en 0\<rparr>"

definition create_app_p ::
  "'c backend \<Rightarrow> pconf \<Rightarrow> penv \<Rightarrow> string \<Rightarrow> create_app_input \<Rightarrow> ('c, app) pop" where
  "create_app_p be pf en g input =
     bindE (ensure_active_p en g) (\<lambda>_.
     bindE (normalize_resources (ca_cpu input) (ca_memory_mb input)) (\<lambda>(cpu, mem_mb).
     bindE (resolve_region (ca_region input)) (\<lambda>region.
     bindE (workload_count g) (\<lambda>n.
     bindE (check_quota g cpu mem_mb n) (\<lambda>_.
     bindE (slug_of_org g) (\<lambda>org_s.
     bindE (slug_of_project (ca_project_id input)) (\<lambda>proj_s.
     bindE (quota_for_org g) (\<lambda>q.
     bindE (on_cluster (be_ensure_tenant be org_s proj_s q)) (\<lambda>ns.
       let a = new_app en g input cpu mem_mb region ns
       in if app_image a \<noteq> [] then
            bindE (apply_app be pf a org_s proj_s) (\<lambda>r.
              let b = (placed r a)\<lparr>app_status := ''deploying''\<rparr>
              in bindE (lift_p (p_write (create_app b))) (\<lambda>_.
                 bindE (log_release pf en 1 b org_s proj_s [] ReleaseSuperseded) (\<lambda>_. okE b)))
          else if app_git_repository a \<noteq> [] then
            let b = a\<lparr>app_status := ''building''\<rparr>
            in bindE (lift_p (p_write (create_app b))) (\<lambda>_.
               bindE (start_build pf en 1 b org_s proj_s) (\<lambda>_. okE b))
          else bindE (lift_p (p_write (create_app a))) (\<lambda>_. okE a))))))))))"

text \<open>The gate of everything that makes an existing workload run again.\<close>

definition regate :: "penv \<Rightarrow> string \<Rightarrow> real \<Rightarrow> int \<Rightarrow> ('c, unit) pop" where
  "regate en g cpu mem_mb = bindE (ensure_active_p en g) (\<lambda>_. check_workload_size g cpu mem_mb)"

definition deploy :: "'c backend \<Rightarrow> pconf \<Rightarrow> penv \<Rightarrow> string \<Rightarrow> string \<Rightarrow> ('c, app) pop" where
  "deploy be pf en g i =
     bindE (owned_app g i) (\<lambda>a.
     bindE (regate en g (app_cpu a) (app_memory_mb a)) (\<lambda>_.
     bindE (slug_of_org g) (\<lambda>org_s.
     bindE (slug_of_project (app_project_id a)) (\<lambda>proj_s.
       if trim_space (app_image a) = [] then
         (if trim_space (app_git_repository a) = [] then failE PNoImage
          else let b = a\<lparr>app_status := ''building''\<rparr>
               in bindE (lift_p (p_write (update_app b))) (\<lambda>_.
                  bindE (start_build pf en 1 b org_s proj_s) (\<lambda>_. okE b)))
       else bindE (apply_app be pf a org_s proj_s) (\<lambda>r.
              let b = (placed r a)\<lparr>app_status := ''deploying''\<rparr>
              in bindE (lift_p (p_write (update_app b))) (\<lambda>_.
                 bindE (log_release pf en 1 b org_s proj_s [] ReleaseSuperseded) (\<lambda>_. okE b)))))))"

definition app_action ::
  "string \<Rightarrow> string \<Rightarrow> string \<Rightarrow> (string \<Rightarrow> string \<Rightarrow> ('c, unit) bop) \<Rightarrow> ('c, app) pop" where
  "app_action g i st f =
     bindE (owned_app g i) (\<lambda>a.
     bindE (if app_release a \<noteq> [] then on_cluster (f (app_namespace a) (app_release a)) else okE ()) (\<lambda>_.
     let b = a\<lparr>app_status := st\<rparr> in bindE (lift_p (p_write (update_app b))) (\<lambda>_. okE b)))"

definition stop_app :: "'c backend \<Rightarrow> string \<Rightarrow> string \<Rightarrow> ('c, app) pop" where
  "stop_app be g i = app_action g i ''stopped'' (be_stop be)"

definition restart_app :: "'c backend \<Rightarrow> penv \<Rightarrow> string \<Rightarrow> string \<Rightarrow> ('c, app) pop" where
  "restart_app be en g i =
     bindE (owned_app g i) (\<lambda>a.
     bindE (regate en g (app_cpu a) (app_memory_mb a)) (\<lambda>_.
       app_action g i ''restarting'' (be_restart be)))"

definition delete_app_p :: "'c backend \<Rightarrow> string \<Rightarrow> string \<Rightarrow> ('c, unit) pop" where
  "delete_app_p be g i =
     bindE (owned_app g i) (\<lambda>a.
     bindE (if app_release a \<noteq> [] then on_cluster (be_delete be (app_namespace a) (app_release a)) else okE ()) (\<lambda>_.
       lift_p (p_write (delete_app (app_id a)))))"

section \<open>Builds and logs\<close>

definition list_builds :: "string \<Rightarrow> string \<Rightarrow> page \<Rightarrow> ('c, build list) pop" where
  "list_builds g i pg = bindE (owned_app g i) (\<lambda>_. lift_p (p_read (list_builds_by_app i pg)))"

definition get_build_p :: "string \<Rightarrow> string \<Rightarrow> string \<Rightarrow> ('c, build) pop" where
  "get_build_p g i build_i =
     bindE (owned_app g i) (\<lambda>_.
     tryE (p_read (get_build build_i))
       (\<lambda>e. if e = ErrNotFound then failE PNotFound else failE (PStore e))
       (\<lambda>b. if bld_app_id b \<noteq> i \<or> bld_org_id b \<noteq> g then failE PNotFound else okE b))"

definition app_logs :: "'c backend \<Rightarrow> string \<Rightarrow> string \<Rightarrow> ('c, string) pop" where
  "app_logs be g i =
     bindE (owned_app g i) (\<lambda>a.
       if app_release a = [] then okE [] else on_cluster (be_logs be (app_namespace a) (app_release a) 200))"

definition app_metrics :: "'c backend \<Rightarrow> string \<Rightarrow> string \<Rightarrow> ('c, workload_metrics) pop" where
  "app_metrics be g i =
     bindE (owned_app g i) (\<lambda>a.
       if app_release a = []
       then okE \<lparr>wm_available = False, wm_unavailable = ''app not deployed'', wm_pods = [], wm_cpu_millicores = 0,
                wm_memory_bytes = 0\<rparr>
       else on_cluster (be_metrics be (app_namespace a) (app_release a)))"

section \<open>Releases\<close>

definition all_releases :: "string \<Rightarrow> ('c, release list) pop" where
  "all_releases i = lift_p (p_read (list_releases_by_app i \<lparr>page_limit = 0, page_offset = 0\<rparr>))"

definition list_releases :: "string \<Rightarrow> string \<Rightarrow> page \<Rightarrow> ('c, release list) pop" where
  "list_releases g i pg = bindE (owned_app g i) (\<lambda>_. lift_p (p_read (list_releases_by_app i pg)))"

definition current_release :: "string \<Rightarrow> ('c, release option) pop" where
  "current_release i = bindE (all_releases i) (\<lambda>rs. okE (find is_current rs))"

definition reconcile_release_status :: "string \<Rightarrow> string \<Rightarrow> ('c, unit) pop" where
  "reconcile_release_status i machine =
     (let move = (\<lambda>target. bindE (current_release i) (\<lambda>cur.
            case cur of
              None \<Rightarrow> okE ()
            | Some r \<Rightarrow> if rel_status r = target then okE ()
                      else lift_p (p_write (update_release (r\<lparr>rel_status := target\<rparr>)))))
      in if machine = ''running'' then move ReleaseActive
         else if machine = ''failed'' then move ReleaseFailed
         else okE ())"

definition pick_rollback_target :: "release list \<Rightarrow> int \<Rightarrow> release option" where
  "pick_rollback_target rs rev1 =
     (if rev1 > 0 then find (\<lambda>r. rel_revision r = rev1) rs else find (\<lambda>r. \<not> is_current r) rs)"

text \<open>The fields an operation owns, written onto a fresh read of the row.\<close>

definition spec_onto :: "app \<Rightarrow> app \<Rightarrow> app" where
  "spec_onto a fresh = fresh\<lparr>app_image := app_image a, app_cpu := app_cpu a, app_memory_mb := app_memory_mb a,
     app_min_replicas := app_min_replicas a, app_max_replicas := app_max_replicas a,
     app_release := app_release a, app_host := app_host a, app_status := app_status a\<rparr>"

definition persist_app_spec :: "app \<Rightarrow> ('c, app) pop" where
  "persist_app_spec a =
     bindE (lift_p (p_read (get_app (app_id a)))) (\<lambda>fresh.
       let b = spec_onto a fresh in bindE (lift_p (p_write (update_app b))) (\<lambda>_. okE b))"

text \<open>The deploy at the end of a rollback, an update and a scaling.\<close>

definition reapply ::
  "'c backend \<Rightarrow> pconf \<Rightarrow> penv \<Rightarrow> string \<Rightarrow> app \<Rightarrow> (app \<Rightarrow> app) \<Rightarrow> string \<Rightarrow> release_status \<Rightarrow> ('c, app) pop" where
  "reapply be pf en g a mark note superseded =
     bindE (slug_of_org g) (\<lambda>org_s.
     bindE (slug_of_project (app_project_id a)) (\<lambda>proj_s.
     bindE (apply_app be pf a org_s proj_s) (\<lambda>r.
     bindE (persist_app_spec (mark (placed r a))) (\<lambda>b.
     bindE (log_release pf en 1 b org_s proj_s note superseded) (\<lambda>_. okE b)))))"

definition deploying :: "app \<Rightarrow> app" where
  "deploying a = a\<lparr>app_status := ''deploying''\<rparr>"

definition rollback_app :: "'c backend \<Rightarrow> pconf \<Rightarrow> penv \<Rightarrow> string \<Rightarrow> string \<Rightarrow> int \<Rightarrow> ('c, app) pop" where
  "rollback_app be pf en g i rev1 =
     bindE (owned_app g i) (\<lambda>a.
     bindE (ensure_active_p en g) (\<lambda>_.
     bindE (all_releases i) (\<lambda>rs.
       case pick_rollback_target rs rev1 of
         None \<Rightarrow> failE PNoRelease
       | Some t \<Rightarrow>
           if trim_space (rel_image t) = [] then failE PNoImage
           else bindE (check_workload_size g (rel_cpu t) (rel_memory_mb t)) (\<lambda>_.
             let b = a\<lparr>app_image := rel_image t, app_cpu := rel_cpu t, app_memory_mb := rel_memory_mb t\<rparr>
             in if app_status b = ''stopped'' then persist_app_spec b
                else reapply be pf en g b deploying (''rollback to r'' @ itoa (rel_revision t)) ReleaseRolledBack))))"

record update_app_input =
  ua_image :: "string option"
  ua_cpu :: "real option"
  ua_memory_mb :: "int option"
  ua_git_repository :: "string option"
  ua_git_branch :: "string option"

definition or_keep :: "'a option \<Rightarrow> 'a \<Rightarrow> 'a" where
  "or_keep x old = (case x of None \<Rightarrow> old | Some y \<Rightarrow> y)"

definition edited :: "update_app_input \<Rightarrow> app \<Rightarrow> app" where
  "edited input a =
     a\<lparr>app_image := or_keep (map_option trim_space (ua_image input)) (app_image a),
       app_git_repository := or_keep (map_option trim_space (ua_git_repository input)) (app_git_repository a),
       app_git_branch := or_keep (map_option (\<lambda>x. let b = trim_space x in if b = [] then ''main'' else b)
                           (ua_git_branch input)) (app_git_branch a)\<rparr>"

definition update_app_p ::
  "'c backend \<Rightarrow> pconf \<Rightarrow> penv \<Rightarrow> string \<Rightarrow> string \<Rightarrow> update_app_input \<Rightarrow> ('c, app) pop" where
  "update_app_p be pf en g i input =
     bindE (owned_app g i) (\<lambda>a0.
     bindE (ensure_active_p en g) (\<lambda>_.
     let a = edited input a0 in
     bindE (normalize_resources (or_keep (ua_cpu input) (app_cpu a)) (or_keep (ua_memory_mb input) (app_memory_mb a)))
       (\<lambda>(cpu, mem_mb).
     bindE (check_workload_size g cpu mem_mb) (\<lambda>_.
     bindE (persist_app_spec (a\<lparr>app_cpu := cpu, app_memory_mb := mem_mb\<rparr>)) (\<lambda>b.
       if app_status b = ''stopped'' then okE b
       else if app_release b = [] \<or> trim_space (app_image b) = [] then okE b
       else reapply be pf en g b deploying [] ReleaseSuperseded)))))"

definition keda_max_replicas_ceiling :: "('c, int) pop" where
  "keda_max_replicas_ceiling =
     with_settings (\<lambda>x. okE (case x of None \<Rightarrow> 0 | Some y \<Rightarrow> set_keda_max_replicas_ceiling y))"

record scale_app_input =
  sa_min_replicas :: "int option"
  sa_max_replicas :: "int option"

definition scale_app ::
  "'c backend \<Rightarrow> pconf \<Rightarrow> penv \<Rightarrow> string \<Rightarrow> string \<Rightarrow> scale_app_input \<Rightarrow> ('c, app) pop" where
  "scale_app be pf en g i input =
     bindE (owned_app g i) (\<lambda>a.
       let lo = max 0 (or_keep (sa_min_replicas input) (app_min_replicas a));
           hi = max 0 (or_keep (sa_max_replicas input) (app_max_replicas a))
       in if hi > 0 \<and> lo > hi then failE PInvalidScale
          else bindE keda_max_replicas_ceiling (\<lambda>top.
            if top > 0 \<and> hi > top then failE PInvalidScale
            else bindE (persist_app_spec (a\<lparr>app_min_replicas := lo, app_max_replicas := hi\<rparr>)) (\<lambda>b.
              if app_status b = ''stopped'' then okE b
              else if app_release b = [] \<or> trim_space (app_image b) = [] then okE b
              else bindE (ensure_active_p en g) (\<lambda>_.
                   reapply be pf en g b (\<lambda>x. x) ''scale'' ReleaseSuperseded))))"

end
