(* ===== verification/Platform_Data.thy ===== *)
theory Platform_Data
  imports Platform_Apps
begin

text \<open>
  Managed databases (\<open>platform/service.go\<close>) and one-click services from the catalog
  (\<open>platform/services.go\<close>).
\<close>

section \<open>Templates\<close>

definition list_catalog :: "('c, service_template list) pop" where
  "list_catalog =
     bindE (lift_p (p_read list_service_templates)) (\<lambda>ts.
       okE (sort_by (\<lambda>a b. tpl_sort_order a < tpl_sort_order b) (filter tpl_active ts)))"

definition template_by_key :: "string \<Rightarrow> ('c, service_template option) pop" where
  "template_by_key k =
     tryE (p_read (get_service_template k))
       (\<lambda>e. if e = ErrNotFound then okE None else failE (PStore e)) (\<lambda>t. okE (Some t))"

section \<open>Databases\<close>

definition db_storage :: "pconf \<Rightarrow> int \<Rightarrow> int" where
  "db_storage pf req = (if req > 0 then req else if pf_db_storage_gb pf > 0 then pf_db_storage_gb pf else 1)"

definition decrypt_db_password :: "pconf \<Rightarrow> database \<Rightarrow> database option" where
  "decrypt_db_password pf d =
     (if db_password d = [] then Some d
      else case decrypt (pf_cipher pf) (db_password d) of
             Some v \<Rightarrow> Some (d\<lparr>db_password := v\<rparr>)
           | None \<Rightarrow> if enabled (pf_cipher pf) \<and> is_encrypted (db_password d) then None else Some d)"

definition encrypted_for_store :: "pconf \<Rightarrow> penv \<Rightarrow> database \<Rightarrow> database option" where
  "encrypted_for_store pf en d =
     (if db_password d = [] then Some d
      else map_option (\<lambda>v. d\<lparr>db_password := v\<rparr>) (encrypt (pf_cipher pf) (pe_nonce en) (db_password d)))"

definition store_encrypted ::
  "pconf \<Rightarrow> penv \<Rightarrow> (database \<Rightarrow> unit mem_op) \<Rightarrow> database \<Rightarrow> ('c, unit) pop" where
  "store_encrypted pf en put d =
     (case encrypted_for_store pf en d of None \<Rightarrow> failE PCipher | Some e \<Rightarrow> lift_p (p_write (put e)))"

definition owned_database :: "pconf \<Rightarrow> string \<Rightarrow> string \<Rightarrow> ('c, database) pop" where
  "owned_database pf g i =
     tryE (p_read (get_database i))
       (\<lambda>e. if e = ErrNotFound then failE PNotFound else failE (PStore e))
       (\<lambda>d. if db_org_id d \<noteq> g then failE PNotFound
            else case decrypt_db_password pf d of None \<Rightarrow> failE PCipher | Some x \<Rightarrow> okE x)"

definition db_workload :: "pconf \<Rightarrow> database \<Rightarrow> string \<Rightarrow> string \<Rightarrow> ('c, workload) pop" where
  "db_workload pf d org_s proj_s =
     bindE (template_by_key (db_engine d)) (\<lambda>found.
       case found of
         None \<Rightarrow> failE PInvalidTemplate
       | Some t \<Rightarrow>
           if tpl_kind t \<noteq> ''database'' then failE PInvalidTemplate
           else bindE overcommit_factors (\<lambda>(cpu_f, mem_f).
             okE \<lparr>wl_org_slug = org_s, wl_project_slug = proj_s, wl_name = db_name d, wl_kind = ''database'',
                  wl_image = tpl_image t, wl_port = tpl_default_port t, wl_cpu = db_cpu d,
                  wl_memory_mb = db_memory_mb d,
                  wl_env = database_env (tpl_key t) (db_database_name d) (db_username d) (db_password d),
                  wl_cpu_factor = cpu_f, wl_memory_factor = mem_f, wl_template_key = tpl_key t, wl_domains = [],
                  wl_region = db_region d, wl_storage_gb = db_storage pf (db_storage_gb d),
                  wl_storage_class = pf_db_storage_class pf, wl_image_pull_secret = [], wl_env_secret_name = [],
                  wl_scaling = no_scaling\<rparr>))"

record create_database_input =
  cd_name :: string
  cd_engine :: string
  cd_project_id :: string
  cd_cpu :: real
  cd_memory_mb :: int
  cd_storage_gb :: int
  cd_region :: string

definition create_database_p ::
  "'c backend \<Rightarrow> pconf \<Rightarrow> penv \<Rightarrow> string \<Rightarrow> create_database_input \<Rightarrow> ('c, database) pop" where
  "create_database_p be pf en g input =
     bindE (ensure_active_p en g) (\<lambda>_.
     let engine0 = to_lower (trim_space (cd_engine input));
         engine = (if engine0 = [] then ''postgresql'' else engine0); name = trim_space (cd_name input)
     in bindE (template_by_key engine) (\<lambda>found.
     if found = None \<or> map_option tpl_kind found \<noteq> Some ''database'' then failE PInvalidTemplate else
     bindE (normalize_resources (cd_cpu input) (cd_memory_mb input)) (\<lambda>(cpu, mem_mb).
     bindE (resolve_region (cd_region input)) (\<lambda>region.
     bindE (workload_count g) (\<lambda>n.
     bindE (check_quota g cpu mem_mb n) (\<lambda>_.
     bindE (slug_of_org g) (\<lambda>org_s.
     bindE (slug_of_project (cd_project_id input)) (\<lambda>proj_s.
     bindE (quota_for_org g) (\<lambda>q.
     bindE (on_cluster (be_ensure_tenant be org_s proj_s q)) (\<lambda>ns.
     case db_credentials name (pe_password en) of
       None \<Rightarrow> failE PCredentials
     | Some (db_n, usr, pw) \<Rightarrow>
         let d = \<lparr>db_id = pe_id en 0, db_org_id = g, db_project_id = cd_project_id input, db_name = name,
                  db_engine = engine, db_cpu = cpu, db_memory_mb = mem_mb,
                  db_storage_gb = db_storage pf (cd_storage_gb input), db_status = ''deploying'', db_username = usr,
                  db_password = pw, db_database_name = db_n, db_region = region, db_namespace = ns, db_release = [],
                  db_host = [], db_created_at = pe_now en 0\<rparr>
         in bindE (db_workload pf d org_s proj_s) (\<lambda>w.
            bindE (on_cluster (be_apply be w)) (\<lambda>r.
            let e = d\<lparr>db_release := fst r, db_host := snd r\<rparr>
            in bindE (store_encrypted pf en create_database e) (\<lambda>_. okE e)))))))))))))"

definition list_databases :: "string \<Rightarrow> ('c, database list) pop" where
  "list_databases g = lift_p (p_read (list_databases_by_org g))"

definition database_conn_info_of :: "database \<Rightarrow> database_conn_info" where
  "database_conn_info_of d =
     (let h = (if db_release d \<noteq> [] \<and> db_namespace d \<noteq> []
               then db_release d @ ''.'' @ db_namespace d @ ''.svc.cluster.local'' else db_host d);
          ci = \<lparr>ci_host = h, ci_port = engine_port (db_engine d), ci_database = db_database_name d,
                ci_username = db_username d, ci_password = db_password d, ci_connection_string = []\<rparr>
      in ci\<lparr>ci_connection_string := connection_string (db_engine d) ci\<rparr>)"

definition get_database_detail :: "pconf \<Rightarrow> string \<Rightarrow> string \<Rightarrow> ('c, database \<times> database_conn_info) pop" where
  "get_database_detail pf g i = bindE (owned_database pf g i) (\<lambda>d. okE (d, database_conn_info_of d))"

definition deploy_database :: "'c backend \<Rightarrow> pconf \<Rightarrow> penv \<Rightarrow> string \<Rightarrow> string \<Rightarrow> ('c, database) pop" where
  "deploy_database be pf en g i =
     bindE (owned_database pf g i) (\<lambda>d.
     bindE (regate en g (db_cpu d) (db_memory_mb d)) (\<lambda>_.
     bindE (slug_of_org g) (\<lambda>org_s.
     bindE (slug_of_project (db_project_id d)) (\<lambda>proj_s.
     bindE (db_workload pf d org_s proj_s) (\<lambda>w.
     bindE (on_cluster (be_apply be w)) (\<lambda>r.
     let e = d\<lparr>db_release := fst r, db_host := snd r, db_status := ''deploying''\<rparr>
     in bindE (store_encrypted pf en update_database e) (\<lambda>_. okE e)))))))"

definition database_action ::
  "pconf \<Rightarrow> penv \<Rightarrow> string \<Rightarrow> string \<Rightarrow> string \<Rightarrow> (string \<Rightarrow> string \<Rightarrow> ('c, unit) bop) \<Rightarrow> ('c, database) pop" where
  "database_action pf en g i st f =
     bindE (owned_database pf g i) (\<lambda>d.
     bindE (if db_release d \<noteq> [] then on_cluster (f (db_namespace d) (db_release d)) else okE ()) (\<lambda>_.
     let e = d\<lparr>db_status := st\<rparr> in bindE (store_encrypted pf en update_database e) (\<lambda>_. okE e)))"

definition ensure_database_runnable :: "pconf \<Rightarrow> penv \<Rightarrow> string \<Rightarrow> string \<Rightarrow> ('c, unit) pop" where
  "ensure_database_runnable pf en g i =
     bindE (owned_database pf g i) (\<lambda>d. regate en g (db_cpu d) (db_memory_mb d))"

definition stop_database :: "'c backend \<Rightarrow> pconf \<Rightarrow> penv \<Rightarrow> string \<Rightarrow> string \<Rightarrow> ('c, database) pop" where
  "stop_database be pf en g i = database_action pf en g i ''stopped'' (be_stop be)"

definition start_database :: "'c backend \<Rightarrow> pconf \<Rightarrow> penv \<Rightarrow> string \<Rightarrow> string \<Rightarrow> ('c, database) pop" where
  "start_database be pf en g i =
     bindE (ensure_database_runnable pf en g i) (\<lambda>_. database_action pf en g i ''running'' (be_start be))"

definition restart_database :: "'c backend \<Rightarrow> pconf \<Rightarrow> penv \<Rightarrow> string \<Rightarrow> string \<Rightarrow> ('c, database) pop" where
  "restart_database be pf en g i =
     bindE (ensure_database_runnable pf en g i) (\<lambda>_. database_action pf en g i ''restarting'' (be_restart be))"

definition delete_database_p :: "'c backend \<Rightarrow> pconf \<Rightarrow> string \<Rightarrow> string \<Rightarrow> ('c, unit) pop" where
  "delete_database_p be pf g i =
     bindE (owned_database pf g i) (\<lambda>d.
     bindE (if db_release d \<noteq> [] then on_cluster (be_delete be (db_namespace d) (db_release d)) else okE ()) (\<lambda>_.
       lift_p (p_write (delete_database (db_id d)))))"

section \<open>Services\<close>

definition owned_service :: "string \<Rightarrow> string \<Rightarrow> ('c, service) pop" where
  "owned_service g i =
     tryE (p_read (get_service i))
       (\<lambda>e. if e = ErrNotFound then failE PNotFound else failE (PStore e))
       (\<lambda>v. if svc_org_id v \<noteq> g then failE PNotFound else okE v)"

definition list_services :: "string \<Rightarrow> ('c, service list) pop" where
  "list_services g = lift_p (p_read (list_services_by_org g))"

definition service_kind :: "service_template \<Rightarrow> string" where
  "service_kind t = (if tpl_kind t = ''database'' then ''database'' else ''service'')"

definition plain_workload ::
  "service_template \<Rightarrow> string \<Rightarrow> string \<Rightarrow> string \<Rightarrow> string \<Rightarrow> real \<Rightarrow> int \<Rightarrow> string \<Rightarrow> real \<times> real \<Rightarrow> workload" where
  "plain_workload t org_s proj_s name img cpu mem_mb region factors =
     \<lparr>wl_org_slug = org_s, wl_project_slug = proj_s, wl_name = name, wl_kind = service_kind t, wl_image = img,
      wl_port = tpl_default_port t, wl_cpu = cpu, wl_memory_mb = mem_mb, wl_env = [], wl_cpu_factor = fst factors,
      wl_memory_factor = snd factors, wl_template_key = tpl_key t, wl_domains = [], wl_region = region,
      wl_storage_gb = 0, wl_storage_class = [], wl_image_pull_secret = [], wl_env_secret_name = [],
      wl_scaling = no_scaling\<rparr>"

record create_service_input =
  cs_template_key :: string
  cs_name :: string
  cs_image :: string
  cs_cpu :: real
  cs_memory_mb :: int
  cs_region :: string

definition create_service_p ::
  "'c backend \<Rightarrow> penv \<Rightarrow> string \<Rightarrow> string \<Rightarrow> create_service_input \<Rightarrow> ('c, service) pop" where
  "create_service_p be en g p input =
     bindE (ensure_active_p en g) (\<lambda>_.
     bindE (template_by_key (cs_template_key input)) (\<lambda>found.
     case found of None \<Rightarrow> failE PInvalidTemplate | Some t \<Rightarrow>
     bindE (normalize_resources (cs_cpu input) (cs_memory_mb input)) (\<lambda>(cpu, mem_mb).
     bindE (resolve_region (cs_region input)) (\<lambda>region.
     bindE (workload_count g) (\<lambda>n.
     bindE (check_quota g cpu mem_mb n) (\<lambda>_.
     bindE (slug_of_org g) (\<lambda>org_s.
     bindE (slug_of_project p) (\<lambda>proj_s.
     bindE (quota_for_org g) (\<lambda>q.
     bindE (on_cluster (be_ensure_tenant be org_s proj_s q)) (\<lambda>ns.
     bindE overcommit_factors (\<lambda>factors.
     let name0 = trim_space (cs_name input); name = (if name0 = [] then tpl_name t else name0);
         img0 = trim_space (cs_image input); img = (if img0 = [] then tpl_image t else img0)
     in bindE (on_cluster (be_apply be (plain_workload t org_s proj_s name img cpu mem_mb region factors))) (\<lambda>r.
        let v = \<lparr>svc_id = pe_id en 0, svc_org_id = g, svc_project_id = p, svc_template = tpl_key t, svc_name = name,
                 svc_cpu = cpu, svc_memory_mb = mem_mb, svc_status = ''deploying'', svc_region = region,
                 svc_namespace = ns, svc_release = fst r, svc_host = snd r, svc_created_at = pe_now en 0\<rparr>
        in bindE (lift_p (p_write (create_service v))) (\<lambda>_. okE v)))))))))))))"

definition service_action ::
  "string \<Rightarrow> string \<Rightarrow> string \<Rightarrow> (string \<Rightarrow> string \<Rightarrow> ('c, unit) bop) \<Rightarrow> ('c, service) pop" where
  "service_action g i st f =
     bindE (owned_service g i) (\<lambda>v.
     bindE (if svc_release v \<noteq> [] then on_cluster (f (svc_namespace v) (svc_release v)) else okE ()) (\<lambda>_.
     let u = v\<lparr>svc_status := st\<rparr> in bindE (lift_p (p_write (update_service u))) (\<lambda>_. okE u)))"

definition service_workload :: "service \<Rightarrow> string \<Rightarrow> string \<Rightarrow> ('c, workload) pop" where
  "service_workload v org_s proj_s =
     bindE (template_by_key (svc_template v)) (\<lambda>found.
       case found of
         None \<Rightarrow> failE PInvalidTemplate
       | Some t \<Rightarrow> bindE overcommit_factors (\<lambda>factors.
           okE (plain_workload t org_s proj_s (svc_name v) (tpl_image t) (svc_cpu v) (svc_memory_mb v) [] factors)))"

definition deploy_service :: "'c backend \<Rightarrow> penv \<Rightarrow> string \<Rightarrow> string \<Rightarrow> ('c, service) pop" where
  "deploy_service be en g i =
     bindE (owned_service g i) (\<lambda>v.
     bindE (regate en g (svc_cpu v) (svc_memory_mb v)) (\<lambda>_.
     bindE (slug_of_org g) (\<lambda>org_s.
     bindE (slug_of_project (svc_project_id v)) (\<lambda>proj_s.
     bindE (service_workload v org_s proj_s) (\<lambda>w.
     bindE (on_cluster (be_apply be w)) (\<lambda>r.
     let u = v\<lparr>svc_release := fst r, svc_host := snd r, svc_status := ''deploying''\<rparr>
     in bindE (lift_p (p_write (update_service u))) (\<lambda>_. okE u)))))))"

definition stop_service :: "'c backend \<Rightarrow> string \<Rightarrow> string \<Rightarrow> ('c, service) pop" where
  "stop_service be g i = service_action g i ''stopped'' (be_stop be)"

definition restart_service :: "'c backend \<Rightarrow> penv \<Rightarrow> string \<Rightarrow> string \<Rightarrow> ('c, service) pop" where
  "restart_service be en g i =
     bindE (owned_service g i) (\<lambda>v.
     bindE (regate en g (svc_cpu v) (svc_memory_mb v)) (\<lambda>_.
       service_action g i ''restarting'' (be_restart be)))"

definition delete_service_p :: "'c backend \<Rightarrow> string \<Rightarrow> string \<Rightarrow> ('c, unit) pop" where
  "delete_service_p be g i =
     bindE (owned_service g i) (\<lambda>v.
     bindE (if svc_release v \<noteq> [] then on_cluster (be_delete be (svc_namespace v) (svc_release v)) else okE ()) (\<lambda>_.
       lift_p (p_write (delete_service (svc_id v)))))"

end
