(* ===== verification/Platform_Config.thy ===== *)
theory Platform_Config
  imports Platform_Data
begin

text \<open>
  The configuration of an app (\<open>platform/appconfig.go\<close>): environment variables with secrets
  encrypted at rest, and custom domains with proof of ownership by a DNS record.
\<close>

section \<open>Environment\<close>

definition env_mask :: string where
  "env_mask = ''***''"

definition masked :: "app_env_entry \<Rightarrow> app_env_entry" where
  "masked e = (if env_secret e then e\<lparr>env_value := env_mask\<rparr> else e)"

definition list_env :: "string \<Rightarrow> string \<Rightarrow> ('c, app_env_entry list) pop" where
  "list_env g i =
     bindE (owned_app g i) (\<lambda>a.
     bindE (lift_p (p_read (list_app_env (app_id a)))) (\<lambda>es.
       okE (sort_by (\<lambda>x y. env_key x < env_key y) (map masked es))))"

definition set_env ::
  "pconf \<Rightarrow> penv \<Rightarrow> string \<Rightarrow> string \<Rightarrow> string \<Rightarrow> string \<Rightarrow> bool \<Rightarrow> ('c, app_env_entry) pop" where
  "set_env pf en g i key0 v secret =
     bindE (owned_app g i) (\<lambda>a.
       let key = trim_space key0
       in case (if secret then encrypt (pf_cipher pf) (pe_nonce en) v else Some v) of
            None \<Rightarrow> failE PCipher
          | Some stored \<Rightarrow>
              bindE (lift_p (p_write (set_app_env (app_id a) key stored secret))) (\<lambda>_.
                okE (masked \<lparr>env_key = key, env_value = v, env_secret = secret\<rparr>)))"

definition delete_env :: "string \<Rightarrow> string \<Rightarrow> string \<Rightarrow> ('c, unit) pop" where
  "delete_env g i key = bindE (owned_app g i) (\<lambda>a. lift_p (p_write (delete_app_env (app_id a) key)))"

section \<open>Custom domains\<close>

definition challenge_prefix :: string where
  "challenge_prefix = ''_vortex-challenge.''"

record domain_instructions =
  di_verification_token :: string
  di_txt_name :: string
  di_txt_value :: string
  di_target_type :: string
  di_target_value :: string

definition generated_host :: "pconf \<Rightarrow> app \<Rightarrow> ('c, string) pop" where
  "generated_host pf a =
     (if app_host a \<noteq> [] then okE (app_host a)
      else if pf_base_domain pf = [] then okE []
      else bindE (slug_of_org (app_org_id a)) (\<lambda>org_s.
           bindE (slug_of_project (app_project_id a)) (\<lambda>proj_s.
             okE (kube_sanitize (app_name a) @ ''.'' @ kube_sanitize proj_s @ ''.'' @ kube_sanitize org_s @ ''.''
                  @ pf_base_domain pf))))"

definition domain_instructions_for :: "pconf \<Rightarrow> app \<Rightarrow> domain \<Rightarrow> ('c, domain_instructions) pop" where
  "domain_instructions_for pf a d =
     (let ins = \<lparr>di_verification_token = dom_verification_token d,
                 di_txt_name = challenge_prefix @ dom_domain d, di_txt_value = dom_verification_token d,
                 di_target_type = ''A'', di_target_value = pf_gateway_lb_host pf\<rparr>
      in if pf_gateway_lb_host pf \<noteq> [] then okE ins
         else bindE (generated_host pf a) (\<lambda>h. okE (ins\<lparr>di_target_type := ''CNAME'', di_target_value := h\<rparr>)))"

definition list_domains :: "string \<Rightarrow> string \<Rightarrow> ('c, domain list) pop" where
  "list_domains g i = bindE (owned_app g i) (\<lambda>a. lift_p (p_read (list_domains_by_app (app_id a))))"

definition with_instructions :: "pconf \<Rightarrow> app \<Rightarrow> domain \<Rightarrow> ('c, domain \<times> domain_instructions) pop" where
  "with_instructions pf a d = bindE (domain_instructions_for pf a d) (\<lambda>ins. okE (d, ins))"

definition new_domain :: "penv \<Rightarrow> string \<Rightarrow> app \<Rightarrow> string \<Rightarrow> string \<Rightarrow> domain" where
  "new_domain en g a h token =
     \<lparr>dom_id = pe_id en 0, dom_org_id = g, dom_app_id = app_id a, dom_domain = h, dom_verified = False,
      dom_status = DomainPending, dom_verification_token = token, dom_verified_at = zero_time,
      dom_created_at = pe_now en 0\<rparr>"

definition add_domain :: "pconf \<Rightarrow> penv \<Rightarrow> string \<Rightarrow> string \<Rightarrow> string \<Rightarrow> ('c, domain \<times> domain_instructions) pop" where
  "add_domain pf en g i fqdn =
     bindE (owned_app g i) (\<lambda>a.
       case validate_custom_domain (pf_base_domain pf) fqdn of
         None \<Rightarrow> failE PInvalidDomain
       | Some h \<Rightarrow>
           (case pe_token en of
              None \<Rightarrow> failE PToken
            | Some token \<Rightarrow>
                let d = new_domain en g a h token
                in bindE (lift_p (p_write (create_domain d))) (\<lambda>_. with_instructions pf a d)))"

text \<open>Any failure of the lookup counts as not found.\<close>

definition owned_domain :: "string \<Rightarrow> string \<Rightarrow> string \<Rightarrow> ('c, domain) pop" where
  "owned_domain g i dom_i =
     tryE (p_read (get_domain dom_i)) (\<lambda>_. failE PNotFound)
       (\<lambda>d. if dom_app_id d \<noteq> i \<or> dom_org_id d \<noteq> g then failE PNotFound else okE d)"

definition challenge_met :: "penv \<Rightarrow> domain \<Rightarrow> bool" where
  "challenge_met en d =
     (case pe_lookup_txt en (challenge_prefix @ dom_domain d) of
        None \<Rightarrow> False
      | Some txts \<Rightarrow> list_ex (\<lambda>t. trim_space t = dom_verification_token d) txts)"

definition attach_verified_domain :: "'c backend \<Rightarrow> pconf \<Rightarrow> app \<Rightarrow> string \<Rightarrow> ('c, unit) pop" where
  "attach_verified_domain be pf a h =
     bindE (on_cluster (be_ensure_domain_certificate be h)) (\<lambda>_.
     bindE (on_cluster (be_ensure_gateway_listener be h [])) (\<lambda>_.
       if app_release a = [] \<or> trim_space (app_image a) = [] then okE ()
       else bindE (slug_of_org (app_org_id a)) (\<lambda>org_s.
            bindE (slug_of_project (app_project_id a)) (\<lambda>proj_s.
            bindE (apply_app be pf a org_s proj_s) (\<lambda>_. okE ())))))"

definition verify_domain ::
  "'c backend \<Rightarrow> pconf \<Rightarrow> penv \<Rightarrow> string \<Rightarrow> string \<Rightarrow> string \<Rightarrow> ('c, domain \<times> domain_instructions) pop" where
  "verify_domain be pf en g i dom_i =
     bindE (owned_app g i) (\<lambda>a.
     bindE (owned_domain g i dom_i) (\<lambda>d.
       if \<not> challenge_met en d then
         let f = d\<lparr>dom_status := DomainFailed, dom_verified := False\<rparr>
         in bindE (lift_p (p_write (update_domain f))) (\<lambda>_. with_instructions pf a f)
       else
         bindE (tryE (p_read (get_verified_domain_by_host (dom_domain d)))
                  (\<lambda>e. if e = ErrNotFound then okE None else failE (PStore e)) (\<lambda>x. okE (Some x))) (\<lambda>found.
           if found \<noteq> None \<and> map_option dom_id found \<noteq> Some (dom_id d) then failE PDomainTaken
           else let v = d\<lparr>dom_status := DomainVerified, dom_verified := True, dom_verified_at := pe_now en 0\<rparr>
                in bindE (lift_p (p_write (update_domain v))) (\<lambda>_.
                   bindE (attach_verified_domain be pf a (dom_domain v)) (\<lambda>_. with_instructions pf a v)))))"

definition delete_domain_p :: "'c backend \<Rightarrow> pconf \<Rightarrow> string \<Rightarrow> string \<Rightarrow> string \<Rightarrow> ('c, unit) pop" where
  "delete_domain_p be pf g i dom_i =
     bindE (owned_app g i) (\<lambda>a.
     bindE (owned_domain g i dom_i) (\<lambda>d.
     bindE (lift_p (p_write (delete_domain dom_i))) (\<lambda>_.
       if \<not> domain_is_verified d then okE ()
       else bindE (if app_release a \<noteq> [] \<and> trim_space (app_image a) \<noteq> []
                   then bindE (slug_of_org g) (\<lambda>org_s.
                        bindE (slug_of_project (app_project_id a)) (\<lambda>proj_s.
                        bindE (apply_app be pf a org_s proj_s) (\<lambda>_. okE ())))
                   else okE ()) (\<lambda>_.
            bindE (on_cluster (be_remove_gateway_listener be (dom_domain d))) (\<lambda>_.
              on_cluster (be_remove_domain_certificate be (dom_domain d)))))))"

end
