(* ===== verification/Http.thy ===== *)
theory Http
  imports Platform_Config Webhook Provider Billing_Service Rate_Limit Identity_Orgs
begin

text \<open>
  Requests and replies of the HTTP layer (\<open>httpx\<close>): origins (\<open>middleware.go\<close>), cookies and
  credentials (\<open>auth.go\<close>), the status codes of errors, the audit trail (\<open>audit.go\<close>) and
  personal access tokens (\<open>tokens.go\<close>). A handler is an operation that either goes on with a
  value or stops with the reply it has written. Matching a path to a handler is the router's;
  decoding JSON is the standard library's, a body that did not decode is \<open>None\<close>.
\<close>

section \<open>Requests and replies\<close>

text \<open>Headers that are absent read as the empty string.\<close>

record http_request =
  rq_origin :: string
  rq_referer :: string
  rq_authorization :: string
  rq_cookies :: "(string \<times> string) list"
  rq_remote_addr :: string

record cookie =
  ck_name :: string
  ck_value :: string
  ck_path :: string
  ck_http_only :: bool
  ck_same_site_lax :: bool
  ck_max_age :: int
  ck_secure :: bool
  ck_domain :: string

record user_view =
  uv_id :: string
  uv_email :: string
  uv_name :: string
  uv_is_admin :: bool

record auth_response =
  as_user :: user_view
  as_access_token :: string
  as_refresh_token :: string

record token_view =
  tv_id :: string
  tv_name :: string
  tv_prefix :: string
  tv_scopes :: "string list"
  tv_expires_at :: "time option"
  tv_last_used_at :: "time option"
  tv_created_at :: time

record admin_overview =
  ov_org_count :: int
  ov_user_count :: int
  ov_subscriptions_by_plan :: "(string, int) gomap"
  ov_usage_totals :: "(string, int) gomap"

text \<open>What a reply carries. Messages made from an error's own text are that error.\<close>

datatype body =
    NoBody | Message string | PlatformDetail perr | IdentityDetail ierr
  | JAuth auth_response | JUser user_view | JTokens "token_view list" | JCreatedToken token_view string
  | JOrg organization | JOrgs "organization list" | JMembers "membership list"
  | JProject project | JProjects "project list" | JInvitation invitation | JInvitations "invitation list"
  | JApp app | JApps "app list" | JAppDetail app "release option" | JAppStatus bool string "rollout_status option"
  | JReleases "release list" page_block | JBuilds "build list" page_block | JBuild build | JLogs string
  | JMetrics workload_metrics | JEnv app_env_entry | JEnvs "app_env_entry list"
  | JDomain "domain \<times> domain_instructions" | JDomains "domain list"
  | JService service | JServices "service list" | JCatalog "service_template list"
  | JDatabase database | JDatabases "database list" | JDatabaseDetail "database \<times> database_conn_info"
  | JBackup database_backup | JBackups "database_backup list"
  | JPlan plan | JPlans "plan list" | JPublicPlans "plan list" string | JPricing pricing_component | JPrices "pricing_component list"
  | JTemplate service_template | JTemplates "service_template list" | JSettings platform_settings
  | JOverview admin_overview | JAudit "audit_event list" page_block
  | JBilling summary | JInvoices "period_invoice list" | JSubscribed subscribe_result | JSpendCap int

record reply =
  rp_status :: int
  rp_body :: body
  rp_cookies :: "cookie list"

definition write_json :: "int \<Rightarrow> body \<Rightarrow> reply" where
  "write_json st b = \<lparr>rp_status = st, rp_body = b, rp_cookies = []\<rparr>"

definition write_error :: "int \<Rightarrow> string \<Rightarrow> reply" where
  "write_error st msg = write_json st (Message msg)"

definition no_content :: reply where
  "no_content = write_json 204 NoBody"

type_synonym ('c, 'a) hop = "(reply, 'c pworld, 'a) op"

text \<open>A call of a service whose error is answered.\<close>

definition answering :: "('e \<Rightarrow> reply) \<Rightarrow> ('e, 'c pworld, 'a) op \<Rightarrow> ('c, 'a) hop" where
  "answering f m = tryE m (\<lambda>e. failE (f e)) okE"

definition decoded :: "'r option \<Rightarrow> ('c, 'r) hop" where
  "decoded b = (case b of None \<Rightarrow> failE (write_error 400 ''invalid request body'') | Some r \<Rightarrow> okE r)"

section \<open>Origins\<close>

definition drop_slashes :: "string \<Rightarrow> string" where
  "drop_slashes s = rev (dropWhile (\<lambda>c. c = CHR ''/'') (rev s))"

definition normalize_origin :: "string \<Rightarrow> string" where
  "normalize_origin s = to_lower (drop_slashes (trim_space s))"

definition normalize_origins :: "string list \<Rightarrow> string list" where
  "normalize_origins origins = map (\<lambda>a. if a = ''*'' then ''*'' else normalize_origin a) origins"

definition is_state_changing :: "string \<Rightarrow> bool" where
  "is_state_changing m \<longleftrightarrow> m \<in> {''POST'', ''PUT'', ''PATCH'', ''DELETE''}"

text \<open>\<open>parse\<close> reads scheme and host of a URL, if it is one.\<close>

definition request_origin :: "(string \<Rightarrow> (string \<times> string) option) \<Rightarrow> http_request \<Rightarrow> string" where
  "request_origin parse r =
     (if rq_origin r \<noteq> [] then rq_origin r
      else if rq_referer r = [] then []
      else case parse (rq_referer r) of
             None \<Rightarrow> []
           | Some (scheme, h) \<Rightarrow> if scheme = [] \<or> h = [] then [] else scheme @ ''://'' @ h)"

definition csrf_origin_guard ::
  "string list \<Rightarrow> (string \<Rightarrow> (string \<times> string) option) \<Rightarrow> string \<Rightarrow> http_request \<Rightarrow> ('c, unit) hop" where
  "csrf_origin_guard origins parse meth r =
     (if ''*'' \<in> set origins \<or> \<not> is_state_changing meth then okE ()
      else let origin = request_origin parse r
           in if origin \<noteq> [] \<and> normalize_origin origin \<notin> set (normalize_origins origins)
              then failE (write_error 403 ''cross-origin request blocked'') else okE ())"

record cors_headers =
  co_vary_origin :: bool
  co_allow_origin :: "string option"
  co_allow_credentials :: bool
  co_allow_methods :: "string option"
  co_max_age :: "string option"
  co_allow_headers :: "string option"

definition cors_allow_methods :: string where
  "cors_allow_methods = ''GET, POST, PATCH, PUT, DELETE, OPTIONS''"

definition cors_base_allow_headers :: string where
  "cors_base_allow_headers = ''Content-Type, Authorization, X-Request-Id''"

definition cors_max_age :: string where
  "cors_max_age = ''600''"

text \<open>The headers, and whether the request goes on to the router.\<close>

definition cors_middleware :: "string list \<Rightarrow> string \<Rightarrow> string \<Rightarrow> string \<Rightarrow> cors_headers \<times> bool" where
  "cors_middleware origins meth origin wanted =
     (let wildcard = ''*'' \<in> set origins;
          allow = origin \<noteq> [] \<and> (wildcard \<or> normalize_origin origin \<in> set (normalize_origins origins));
          h = \<lparr>co_vary_origin = True, co_allow_origin = (if allow then Some origin else None),
               co_allow_credentials = allow \<and> \<not> wildcard, co_allow_methods = None, co_max_age = None,
               co_allow_headers = None\<rparr>
      in if meth = ''OPTIONS''
         then (if allow
               then h\<lparr>co_allow_methods := Some cors_allow_methods, co_max_age := Some cors_max_age,
                      co_allow_headers := Some (if wanted \<noteq> [] then cors_base_allow_headers @ '', '' @ wanted
                                                else cors_base_allow_headers)\<rparr>
               else h, False)
         else (h, True))"

section \<open>Credentials and cookies\<close>

record http_conf =
  hc_identity :: conf
  hc_platform :: pconf
  hc_cors_allowed_origins :: "string list"
  hc_production :: bool
  hc_base_domain :: string
  hc_jwt_access_ttl :: int
  hc_jwt_refresh_ttl :: int
  hc_stripe_webhook_secret :: string

definition access_cookie_name :: string where
  "access_cookie_name = ''vortex_access''"

definition refresh_cookie_name :: string where
  "refresh_cookie_name = ''vortex_refresh''"

definition auth_cookie :: "string \<Rightarrow> string \<Rightarrow> int \<Rightarrow> http_conf \<Rightarrow> cookie" where
  "auth_cookie name v max_age hc =
     \<lparr>ck_name = name, ck_value = v, ck_path = ''/'', ck_http_only = True, ck_same_site_lax = True, ck_max_age = max_age,
      ck_secure = hc_production hc, ck_domain = (if hc_production hc then hc_base_domain hc else [])\<rparr>"

definition set_auth_cookies :: "string \<Rightarrow> string \<Rightarrow> http_conf \<Rightarrow> cookie list" where
  "set_auth_cookies access refr hc =
     [auth_cookie access_cookie_name access (hc_jwt_access_ttl hc * 60) hc,
      auth_cookie refresh_cookie_name refr (hc_jwt_refresh_ttl hc * 3600) hc]"

definition clear_auth_cookies :: "http_conf \<Rightarrow> cookie list" where
  "clear_auth_cookies hc =
     [auth_cookie access_cookie_name [] (- 1) hc, auth_cookie refresh_cookie_name [] (- 1) hc]"

definition cookie_of :: "string \<Rightarrow> http_request \<Rightarrow> string" where
  "cookie_of name r = (case map_of (rq_cookies r) name of None \<Rightarrow> [] | Some v \<Rightarrow> v)"

definition access_token_from_request :: "http_request \<Rightarrow> string" where
  "access_token_from_request r =
     (if cookie_of access_cookie_name r \<noteq> [] then cookie_of access_cookie_name r
      else case split_two (CHR '' '') (rq_authorization r) of
             None \<Rightarrow> []
           | Some (scheme, tok) \<Rightarrow> if equal_fold scheme ''Bearer'' then tok else [])"

definition refresh_token_from_request :: "http_request \<Rightarrow> string \<Rightarrow> string" where
  "refresh_token_from_request r body_token =
     (if cookie_of refresh_cookie_name r \<noteq> [] then cookie_of refresh_cookie_name r else body_token)"

definition is_browser_request :: "http_request \<Rightarrow> bool" where
  "is_browser_request r \<longleftrightarrow> trim_space (rq_origin r) \<noteq> []"

definition to_user_view :: "user \<Rightarrow> user_view" where
  "to_user_view u = \<lparr>uv_id = user_id u, uv_email = user_email u, uv_name = user_name u, uv_is_admin = user_is_admin u\<rparr>"

definition to_auth_response :: "http_request \<Rightarrow> auth_result \<Rightarrow> auth_response" where
  "to_auth_response r res =
     \<lparr>as_user = to_user_view (ar_user res), as_access_token = (if is_browser_request r then [] else ar_access res),
      as_refresh_token = (if is_browser_request r then [] else ar_refresh res)\<rparr>"

section \<open>Errors\<close>

definition write_auth_error :: "ierr \<Rightarrow> reply" where
  "write_auth_error e =
     (case e of
        IEmailTaken \<Rightarrow> write_error 409 ''email already registered''
      | IInvalidCredentials \<Rightarrow> write_error 401 ''invalid email or password''
      | IValidation m \<Rightarrow> write_json 400 (IdentityDetail e)
      | IForbidden \<Rightarrow> write_error 403 ''forbidden''
      | _ \<Rightarrow> write_error 500 ''internal error'')"

definition write_identity_error :: "ierr \<Rightarrow> reply" where
  "write_identity_error e =
     (case e of
        IForbidden \<Rightarrow> write_error 403 ''forbidden''
      | IValidation m \<Rightarrow> write_json 400 (IdentityDetail e)
      | IInvitationInvalid \<Rightarrow> write_error 400 ''invitation is invalid or already used''
      | INotFound \<Rightarrow> write_error 404 ''not found''
      | IConflict m \<Rightarrow> write_json 409 (IdentityDetail e)
      | _ \<Rightarrow> write_error 500 ''internal error'')"

definition write_platform_error :: "perr \<Rightarrow> reply" where
  "write_platform_error e =
     (case e of
        PNotFound \<Rightarrow> write_error 404 ''not found''
      | PStore ErrInvalid \<Rightarrow> write_error 422 ''invalid reference or value''
      | PStore ErrConflict \<Rightarrow> write_error 409 ''conflict''
      | PBilling (BStore ErrInvalid) \<Rightarrow> write_error 422 ''invalid reference or value''
      | PBilling (BStore ErrConflict) \<Rightarrow> write_error 409 ''conflict''
      | PBilling (BPaymentRequired _) \<Rightarrow> write_json 402 (PlatformDetail e)
      | PQuotaExceeded \<Rightarrow> write_json 402 (PlatformDetail e)
      | PInvalidTemplate \<Rightarrow> write_error 400 ''unknown catalog template''
      | PInvalidRegion \<Rightarrow> write_json 400 (PlatformDetail e)
      | PInvalidDomain \<Rightarrow> write_json 400 (PlatformDetail e)
      | PDomainTaken \<Rightarrow> write_json 409 (PlatformDetail e)
      | PNoImage \<Rightarrow> write_json 409 (PlatformDetail e)
      | PNoRelease \<Rightarrow> write_json 409 (PlatformDetail e)
      | PInvalidScale \<Rightarrow> write_json 400 (PlatformDetail e)
      | _ \<Rightarrow> write_error 502 ''upstream error from deploy backend'')"

section \<open>The audit trail\<close>

text \<open>
  The clock and the ids of the handlers, and those of the billing, identity and platform services; 32 random
  bytes in base32 for an access token; SHA-256; the URL parser; HMAC of the webhook; the host of an address with a port.
\<close>

record http_env =
  he_now :: time
  he_id :: "nat \<Rightarrow> string"
  he_billing_now :: "nat \<Rightarrow> time"
  he_identity :: env
  he_platform :: penv
  he_token_body :: "string option"
  he_sha256_hex :: "string \<Rightarrow> string"
  he_parse_url :: "string \<Rightarrow> (string \<times> string) option"
  he_hmac_hex :: "string \<Rightarrow> string \<Rightarrow> string"
  he_split_host_port :: "string \<Rightarrow> string option"

definition audit_record ::
  "http_env \<Rightarrow> string \<Rightarrow> string \<Rightarrow> string \<Rightarrow> string \<Rightarrow> string \<Rightarrow> string \<Rightarrow> string \<Rightarrow> audit_event" where
  "audit_record en actor_i actor_email org_i act ttype tid meta =
     \<lparr>ae_id = he_id en 0, ae_org_id = org_i, ae_actor_user_id = actor_i, ae_actor_email = actor_email, ae_action = act,
      ae_target_type = ttype, ae_target_id = tid, ae_metadata = meta, ae_at = he_now en\<rparr>"

definition audit_as ::
  "http_env \<Rightarrow> string \<Rightarrow> string \<Rightarrow> string \<Rightarrow> string \<Rightarrow> string \<Rightarrow> string \<Rightarrow> string \<Rightarrow> ('c, unit) hop" where
  "audit_as en actor_i actor_email org_i act ttype tid meta =
     tryE (p_write (create_audit_event (audit_record en actor_i actor_email org_i act ttype tid meta)))
       (\<lambda>_. okE ()) (\<lambda>_. okE ())"

definition audit ::
  "http_env \<Rightarrow> user \<Rightarrow> string \<Rightarrow> string \<Rightarrow> string \<Rightarrow> string \<Rightarrow> string \<Rightarrow> ('c, unit) hop" where
  "audit en u org_i act ttype tid meta = audit_as en (user_id u) (user_email u) org_i act ttype tid meta"

definition list_audit :: "string \<Rightarrow> page \<Rightarrow> ('c, reply) hop" where
  "list_audit org_i pg =
     (let f = \<lparr>af_org_id = org_i, af_limit = page_limit pg, af_offset = page_offset pg\<rparr>;
          failed = (\<lambda>_. write_error 500 ''failed to list audit events'')
      in bindE (answering failed (p_read (list_audit_events f))) (\<lambda>events.
         bindE (answering failed (p_read (count_audit_events f))) (\<lambda>n.
           okE (write_json 200 (JAudit events (page_meta pg (int (length events)) n))))))"

section \<open>Personal access tokens\<close>

definition api_token_prefix :: string where
  "api_token_prefix = ''vrt_''"

definition api_token_display_prefix_len :: nat where
  "api_token_display_prefix_len = 8"

definition api_token_max_expiry_days :: int where
  "api_token_max_expiry_days = 3650"

definition hash_api_token :: "http_env \<Rightarrow> string \<Rightarrow> string" where
  "hash_api_token en plaintext = he_sha256_hex en plaintext"

definition is_api_token :: "string \<Rightarrow> bool" where
  "is_api_token bearer = has_prefix bearer api_token_prefix"

text \<open>The token, its hash and what is shown of it.\<close>

definition generate_api_token :: "http_env \<Rightarrow> (string \<times> string \<times> string) option" where
  "generate_api_token en =
     (case he_token_body en of
        None \<Rightarrow> None
      | Some raw \<Rightarrow>
          (let plaintext = api_token_prefix @ to_lower raw
           in Some (plaintext, hash_api_token en plaintext, take api_token_display_prefix_len plaintext)))"

fun normalize_scopes_from :: "string list \<Rightarrow> string list \<Rightarrow> string list" where
  "normalize_scopes_from out [] = out"
| "normalize_scopes_from out (s # ss) =
     (let t = trim_space s
      in if t = [] \<or> t \<in> set out then normalize_scopes_from out ss else normalize_scopes_from (out @ [t]) ss)"

definition normalize_scopes :: "string list \<Rightarrow> string list" where
  "normalize_scopes ss = normalize_scopes_from [] ss"

definition to_token_view :: "api_token \<Rightarrow> token_view" where
  "to_token_view t =
     \<lparr>tv_id = at_id t, tv_name = at_name t, tv_prefix = at_prefix t, tv_scopes = at_scopes t,
      tv_expires_at = (if is_zero (at_expires_at t) then None else Some (at_expires_at t)),
      tv_last_used_at = (if is_zero (at_last_used_at t) then None else Some (at_last_used_at t)),
      tv_created_at = at_created_at t\<rparr>"

text \<open>The use of the token is noted in the background: modelled right after the lookup.\<close>

definition auth_via_api_token :: "http_env \<Rightarrow> string \<Rightarrow> ('c, user option) hop" where
  "auth_via_api_token en bearer =
     tryE (p_read (get_api_token_by_hash (hash_api_token en bearer))) (\<lambda>_. okE None) (\<lambda>t.
       if \<not> is_zero (at_expires_at t) \<and> \<not> he_now en < at_expires_at t then okE None
       else tryE (on_world (get_user (at_user_id t))) (\<lambda>_. okE None) (\<lambda>u.
              tryE (p_write (touch_api_token (at_id t) (he_now en))) (\<lambda>_. okE (Some u)) (\<lambda>_. okE (Some u))))"

end
