(* ===== verification/Http_Handlers.thy ===== *)
theory Http_Handlers
  imports Http
begin

text \<open>
  The handlers of accounts, organizations and workloads (\<open>httpx/auth.go\<close>, \<open>orgs.go\<close>,
  \<open>projects.go\<close>, \<open>tokens.go\<close>, \<open>apps.go\<close>, \<open>services.go\<close>, \<open>databases.go\<close>, \<open>appconfig.go\<close>).
  URL parameters are arguments; a handler behind the authentication has the user as an argument.
\<close>

section \<open>The deploy backend of the server\<close>

record 'c server =
  sv_backend :: "'c backend"
  sv_status :: "string \<Rightarrow> string \<Rightarrow> ('c, status) bop"
  sv_rollout_status :: "string \<Rightarrow> string \<Rightarrow> ('c, rollout_status) bop"
  sv_backup_database :: "database \<Rightarrow> ('c, database_backup) bop"
  sv_list_database_backups :: "string \<Rightarrow> string \<Rightarrow> ('c, database_backup list) bop"
  sv_restore_database :: "database \<Rightarrow> string \<Rightarrow> ('c, unit) bop"

definition on_platform :: "('c, 'a) pop \<Rightarrow> ('c, 'a) hop" where
  "on_platform m = answering write_platform_error m"

definition on_identity :: "'a iop \<Rightarrow> ('c, 'a) hop" where
  "on_identity m = answering write_identity_error (on_world m)"

text \<open>A call of the service whose result is the reply.\<close>

definition replying :: "int \<Rightarrow> ('a \<Rightarrow> body) \<Rightarrow> ('c, 'a) hop \<Rightarrow> ('c, reply) hop" where
  "replying st f m = bindE m (\<lambda>x. okE (write_json st (f x)))"

definition fixed_reply :: "int \<Rightarrow> string \<Rightarrow> 'e \<Rightarrow> reply" where
  "fixed_reply st msg e = write_error st msg"

section \<open>Accounts (auth.go)\<close>

record signup_request =
  sq_email :: string
  sq_name :: string
  sq_password :: string

definition handle_signup :: "http_conf \<Rightarrow> http_env \<Rightarrow> http_request \<Rightarrow> signup_request option \<Rightarrow> ('c, reply) hop" where
  "handle_signup hc en r b =
     bindE (decoded b) (\<lambda>q.
     bindE (answering write_auth_error (on_world (signup (hc_identity hc) (he_identity en) (sq_email q) (sq_name q) (sq_password q)))) (\<lambda>res.
       okE ((write_json 201 (JAuth (to_auth_response r res)))
              \<lparr>rp_cookies := set_auth_cookies (ar_access res) (ar_refresh res) hc\<rparr>)))"

record login_request =
  lq_email :: string
  lq_password :: string

definition normalize_audit_email :: "string \<Rightarrow> string" where
  "normalize_audit_email e = to_lower (trim_space e)"

definition handle_login :: "http_conf \<Rightarrow> http_env \<Rightarrow> http_request \<Rightarrow> login_request option \<Rightarrow> ('c, reply) hop" where
  "handle_login hc en r b =
     bindE (decoded b) (\<lambda>q.
     tryE (on_world (login (hc_identity hc) (he_identity en) (lq_email q) (lq_password q)))
       (\<lambda>e. bindE (if e = IInvalidCredentials
                    then audit_as en [] (normalize_audit_email (lq_email q)) [] ''auth.login_failed'' ''user'' [] []
                    else okE ()) (\<lambda>_. failE (write_auth_error e)))
       (\<lambda>res. bindE (audit_as en (user_id (ar_user res)) (user_email (ar_user res)) [] ''auth.login'' ''user''
                        (user_id (ar_user res)) []) (\<lambda>_.
          okE ((write_json 200 (JAuth (to_auth_response r res)))
                 \<lparr>rp_cookies := set_auth_cookies (ar_access res) (ar_refresh res) hc\<rparr>))))"

text \<open>The body of a refresh may be missing altogether: then nothing is decoded.\<close>

definition handle_refresh :: "http_conf \<Rightarrow> http_env \<Rightarrow> http_request \<Rightarrow> string option option \<Rightarrow> ('c, reply) hop" where
  "handle_refresh hc en r b =
     bindE (case b of None \<Rightarrow> okE [] | Some d \<Rightarrow> decoded d) (\<lambda>body_token.
     bindE (answering write_auth_error (on_world (refresh (hc_identity hc) (he_identity en)
              (refresh_token_from_request r body_token)))) (\<lambda>res.
       okE ((write_json 200 (JAuth (to_auth_response r res)))
              \<lparr>rp_cookies := set_auth_cookies (ar_access res) (ar_refresh res) hc\<rparr>)))"

definition handle_forgot_password :: "http_conf \<Rightarrow> http_env \<Rightarrow> string option \<Rightarrow> ('c, reply) hop" where
  "handle_forgot_password hc en b =
     bindE (decoded b) (\<lambda>email.
     bindE (answering (fixed_reply 500 ''internal error'') (on_world (forgot_password (hc_identity hc) (he_identity en) email)))
       (\<lambda>_. okE no_content))"

record reset_password_request =
  rr_token :: string
  rr_password :: string

definition handle_reset_password :: "http_conf \<Rightarrow> http_env \<Rightarrow> reset_password_request option \<Rightarrow> ('c, reply) hop" where
  "handle_reset_password hc en b =
     bindE (decoded b) (\<lambda>q.
     bindE (answering write_auth_error (on_world (reset_password (hc_identity hc) (he_identity en) (rr_token q) (rr_password q))))
       (\<lambda>_. okE no_content))"

definition handle_logout :: "http_conf \<Rightarrow> http_env \<Rightarrow> http_request \<Rightarrow> user \<Rightarrow> ('c, reply) hop" where
  "handle_logout hc en r u =
     bindE (answering (fixed_reply 500 ''internal error'') (on_world (logout (he_identity en) (refresh_token_from_request r [])))) (\<lambda>_.
     bindE (audit en u [] ''auth.logout'' ''user'' (user_id u) []) (\<lambda>_.
       okE (no_content\<lparr>rp_cookies := clear_auth_cookies hc\<rparr>)))"

definition handle_me :: "user \<Rightarrow> ('c, reply) hop" where
  "handle_me u = okE (write_json 200 (JUser (to_user_view u)))"

section \<open>Access tokens (tokens.go)\<close>

record create_token_request =
  tq_name :: string
  tq_scopes :: "string list"
  tq_expires_in_days :: int

definition new_api_token :: "http_env \<Rightarrow> user \<Rightarrow> create_token_request \<Rightarrow> string \<Rightarrow> string \<Rightarrow> string \<Rightarrow> api_token" where
  "new_api_token en u q name h prefix =
     \<lparr>at_id = he_id en 1, at_user_id = user_id u, at_name = name, at_token_hash = h, at_prefix = prefix,
      at_scopes = normalize_scopes (tq_scopes q),
      at_expires_at = (if tq_expires_in_days q > 0 then he_now en + tq_expires_in_days q * day_ns else zero_time),
      at_last_used_at = zero_time, at_created_at = he_now en\<rparr>"

definition handle_create_token :: "http_env \<Rightarrow> user \<Rightarrow> create_token_request option \<Rightarrow> ('c, reply) hop" where
  "handle_create_token en u b =
     bindE (decoded b) (\<lambda>q.
       let name = trim_space (tq_name q)
       in if name = [] then failE (write_error 400 ''name is required'')
          else if tq_expires_in_days q < 0 \<or> tq_expires_in_days q > api_token_max_expiry_days
          then failE (write_error 400 ''expiresInDays out of range'')
          else case generate_api_token en of
                 None \<Rightarrow> failE (write_error 500 ''internal error'')
               | Some (plaintext, h, prefix) \<Rightarrow>
                   let t = new_api_token en u q name h prefix
                   in bindE (answering (fixed_reply 500 ''failed to create token'') (p_write (create_api_token t))) (\<lambda>_.
                      bindE (audit en u [] ''token.create'' ''api_token'' (at_id t) (at_name t)) (\<lambda>_.
                        okE (write_json 201 (JCreatedToken (to_token_view t) plaintext)))))"

definition handle_list_tokens :: "user \<Rightarrow> ('c, reply) hop" where
  "handle_list_tokens u =
     replying 200 (\<lambda>ts. JTokens (map to_token_view ts))
       (answering (fixed_reply 500 ''failed to list tokens'') (p_read (list_api_tokens_by_user (user_id u))))"

definition handle_delete_token :: "http_env \<Rightarrow> user \<Rightarrow> string \<Rightarrow> ('c, reply) hop" where
  "handle_delete_token en u i =
     bindE (answering (\<lambda>e. if e = ErrNotFound then write_error 404 ''token not found''
                            else write_error 500 ''failed to delete token'') (p_write (delete_api_token (user_id u) i))) (\<lambda>_.
     bindE (audit en u [] ''token.delete'' ''api_token'' i []) (\<lambda>_. okE no_content))"

section \<open>Organizations, projects, members (orgs.go, projects.go)\<close>

definition handle_list_orgs :: "user \<Rightarrow> ('c, reply) hop" where
  "handle_list_orgs u =
     replying 200 JOrgs (answering (fixed_reply 500 ''failed to list organizations'') (on_world (list_organizations (user_id u))))"

definition handle_create_org :: "http_conf \<Rightarrow> http_env \<Rightarrow> user \<Rightarrow> string option \<Rightarrow> ('c, reply) hop" where
  "handle_create_org hc en u b =
     bindE (decoded b) (\<lambda>name.
       replying 201 JOrg (answering write_auth_error (on_world (create_org (hc_identity hc) (he_identity en) (user_id u) name))))"

definition handle_update_org :: "user \<Rightarrow> string \<Rightarrow> update_org_input option \<Rightarrow> ('c, reply) hop" where
  "handle_update_org u g b =
     bindE (decoded b) (\<lambda>q.
       if uo_name q = None \<and> uo_billing_email q = None then failE (write_error 400 ''no fields to update'')
       else replying 200 JOrg (on_identity (update_organization (user_id u) g q)))"

definition handle_list_projects :: "user \<Rightarrow> string \<Rightarrow> ('c, reply) hop" where
  "handle_list_projects u g = replying 200 JProjects (on_identity (list_projects (user_id u) g))"

definition handle_create_project :: "http_env \<Rightarrow> user \<Rightarrow> string \<Rightarrow> string option \<Rightarrow> ('c, reply) hop" where
  "handle_create_project en u g b =
     bindE (decoded b) (\<lambda>name. replying 201 JProject (on_identity (create_project_in (he_identity en) (user_id u) g name)))"

definition handle_delete_project :: "user \<Rightarrow> string \<Rightarrow> string \<Rightarrow> ('c, reply) hop" where
  "handle_delete_project u g p = bindE (on_identity (delete_project_in (user_id u) g p)) (\<lambda>_. okE no_content)"

text \<open>A role as text.\<close>

definition role_of_text :: "string \<Rightarrow> role" where
  "role_of_text r =
     (if r = ''member'' then RoleMember else if r = ''admin'' then RoleAdmin else if r = ''owner'' then RoleOwner
      else RoleOther r)"

fun role_text :: "role \<Rightarrow> string" where
  "role_text RoleMember = ''member''"
| "role_text RoleAdmin = ''admin''"
| "role_text RoleOwner = ''owner''"
| "role_text (RoleOther r) = r"

definition handle_list_members :: "user \<Rightarrow> string \<Rightarrow> ('c, reply) hop" where
  "handle_list_members u g = replying 200 JMembers (on_identity (list_members (user_id u) g))"

definition handle_update_member ::
  "http_env \<Rightarrow> user \<Rightarrow> string \<Rightarrow> string \<Rightarrow> string option \<Rightarrow> ('c, reply) hop" where
  "handle_update_member en u g target b =
     bindE (decoded b) (\<lambda>r.
     bindE (on_identity (update_member_role (user_id u) g target (role_of_text r))) (\<lambda>_.
     bindE (audit en u g ''member.role_update'' ''member'' target (''role='' @ r)) (\<lambda>_. okE no_content)))"

definition handle_remove_member :: "http_env \<Rightarrow> user \<Rightarrow> string \<Rightarrow> string \<Rightarrow> ('c, reply) hop" where
  "handle_remove_member en u g target =
     bindE (on_identity (remove_member (user_id u) g target)) (\<lambda>_.
     bindE (audit en u g ''member.remove'' ''member'' target []) (\<lambda>_. okE no_content))"

record invite_request =
  iq_email :: string
  iq_role :: string
  iq_project_id :: string

definition handle_create_invitation ::
  "http_conf \<Rightarrow> http_env \<Rightarrow> user \<Rightarrow> string \<Rightarrow> invite_request option \<Rightarrow> ('c, reply) hop" where
  "handle_create_invitation hc en u g b =
     bindE (decoded b) (\<lambda>q.
       let r = (if iq_role q = [] then RoleMember else role_of_text (iq_role q))
       in bindE (on_identity (invite (hc_identity hc) (he_identity en) (user_id u) g (iq_project_id q) (iq_email q) r)) (\<lambda>v.
          bindE (audit en u g ''invitation.create'' ''invitation'' (inv_id v) (''email='' @ inv_email v)) (\<lambda>_.
            okE (write_json 201 (JInvitation v)))))"

definition handle_list_invitations :: "user \<Rightarrow> string \<Rightarrow> ('c, reply) hop" where
  "handle_list_invitations u g = replying 200 JInvitations (on_identity (list_invitations (user_id u) g))"

definition handle_revoke_invitation :: "http_env \<Rightarrow> user \<Rightarrow> string \<Rightarrow> string \<Rightarrow> ('c, reply) hop" where
  "handle_revoke_invitation en u g i =
     bindE (on_identity (revoke_invitation_in (user_id u) g i)) (\<lambda>_.
     bindE (audit en u g ''invitation.revoke'' ''invitation'' i []) (\<lambda>_. okE no_content))"

definition handle_accept_invitation ::
  "http_conf \<Rightarrow> http_env \<Rightarrow> user \<Rightarrow> string option \<Rightarrow> ('c, reply) hop" where
  "handle_accept_invitation hc en u b =
     bindE (decoded b) (\<lambda>tok.
     bindE (on_identity (accept_invitation (hc_identity hc) (he_identity en) (user_id u) (user_email u) tok)) (\<lambda>v.
     bindE (audit en u (inv_org_id v) ''member.invite_accept'' ''member'' (user_id u) (''role='' @ role_text (inv_role v))) (\<lambda>_.
       okE (write_json 200 (JInvitation v)))))"

section \<open>Apps (apps.go)\<close>

record create_app_request =
  aq_name :: string
  aq_project_id :: string
  aq_image :: string
  aq_git_repository :: string
  aq_git_branch :: string
  aq_build_pack :: string
  aq_cpu :: real
  aq_memory_mb :: int
  aq_region :: string

text \<open>A member sees what is in the projects it can reach, an admin everything.\<close>

definition accessible :: "user \<Rightarrow> string \<Rightarrow> ('a \<Rightarrow> string) \<Rightarrow> 'a list \<Rightarrow> ('c, 'a list) hop" where
  "accessible u g project xs =
     bindE (answering (fixed_reply 500 ''authorization error'') (on_world (accessible_project_ids (user_id u) g))) (\<lambda>(ids, is_admin).
       okE (if is_admin then xs else filter (\<lambda>x. project x \<in> set ids) xs))"

definition handle_list_apps :: "user \<Rightarrow> string \<Rightarrow> ('c, reply) hop" where
  "handle_list_apps u g =
     bindE (on_platform (list_apps g)) (\<lambda>xs. replying 200 JApps (accessible u g app_project_id xs))"

definition app_input :: "create_app_request \<Rightarrow> string \<Rightarrow> create_app_input" where
  "app_input q p =
     \<lparr>ca_name = aq_name q, ca_project_id = p, ca_image = aq_image q, ca_git_repository = aq_git_repository q,
      ca_git_branch = aq_git_branch q, ca_build_pack = aq_build_pack q, ca_cpu = aq_cpu q,
      ca_memory_mb = aq_memory_mb q, ca_region = aq_region q\<rparr>"

text \<open>Without a project the default one, if it can be read.\<close>

definition project_or_default :: "string \<Rightarrow> string \<Rightarrow> ('c, string) hop" where
  "project_or_default g p =
     (if p \<noteq> [] then okE p else tryE (on_world (default_project g)) (\<lambda>_. okE []) (\<lambda>x. okE (proj_id x)))"

definition handle_create_app :: "'c server \<Rightarrow> http_conf \<Rightarrow> http_env \<Rightarrow> string \<Rightarrow> create_app_request option \<Rightarrow> ('c, reply) hop" where
  "handle_create_app sv hc en g b =
     bindE (decoded b) (\<lambda>q.
       if aq_name q = [] then failE (write_error 400 ''name is required'')
       else bindE (project_or_default g (aq_project_id q)) (\<lambda>p.
            replying 201 JApp (on_platform
              (create_app_p (sv_backend sv) (hc_platform hc) (he_platform en) g (app_input q p)))))"

definition handle_create_app_in_project ::
  "'c server \<Rightarrow> http_conf \<Rightarrow> http_env \<Rightarrow> string \<Rightarrow> string \<Rightarrow> create_app_request option \<Rightarrow> ('c, reply) hop" where
  "handle_create_app_in_project sv hc en g p b =
     bindE (decoded b) (\<lambda>q.
       if aq_name q = [] then failE (write_error 400 ''name is required'')
       else replying 201 JApp (on_platform
              (create_app_p (sv_backend sv) (hc_platform hc) (he_platform en) g (app_input q p))))"

definition handle_list_project_apps :: "string \<Rightarrow> string \<Rightarrow> ('c, reply) hop" where
  "handle_list_project_apps g p = replying 200 JApps (on_platform (list_apps_in_project g p))"

definition handle_get_app :: "string \<Rightarrow> string \<Rightarrow> ('c, reply) hop" where
  "handle_get_app g i =
     bindE (on_platform (owned_app g i)) (\<lambda>a.
     tryE (current_release i) (\<lambda>_. okE (write_json 200 (JAppDetail a None))) (\<lambda>cur.
       okE (write_json 200 (JAppDetail a cur))))"

definition handle_update_app ::
  "'c server \<Rightarrow> http_conf \<Rightarrow> http_env \<Rightarrow> string \<Rightarrow> string \<Rightarrow> update_app_input option \<Rightarrow> ('c, reply) hop" where
  "handle_update_app sv hc en g i b =
     bindE (decoded b) (\<lambda>q.
       replying 200 JApp (on_platform (update_app_p (sv_backend sv) (hc_platform hc) (he_platform en) g i q)))"

definition handle_scale_app ::
  "'c server \<Rightarrow> http_conf \<Rightarrow> http_env \<Rightarrow> string \<Rightarrow> string \<Rightarrow> scale_app_input option \<Rightarrow> ('c, reply) hop" where
  "handle_scale_app sv hc en g i b =
     bindE (decoded b) (\<lambda>q.
       replying 202 JApp (on_platform (scale_app (sv_backend sv) (hc_platform hc) (he_platform en) g i q)))"

definition handle_list_releases :: "string \<Rightarrow> string \<Rightarrow> page \<Rightarrow> ('c, reply) hop" where
  "handle_list_releases g i pg =
     replying 200 (\<lambda>rs. JReleases rs (page_meta pg (int (length rs)) (- 1))) (on_platform (list_releases g i pg))"

text \<open>The body is optional: a missing one asks for the previous release.\<close>

definition handle_rollback_app ::
  "'c server \<Rightarrow> http_conf \<Rightarrow> http_env \<Rightarrow> string \<Rightarrow> string \<Rightarrow> int option option \<Rightarrow> ('c, reply) hop" where
  "handle_rollback_app sv hc en g i b =
     bindE (case b of None \<Rightarrow> okE 0 | Some d \<Rightarrow> decoded d) (\<lambda>n.
       replying 202 JApp (on_platform (rollback_app (sv_backend sv) (hc_platform hc) (he_platform en) g i n)))"

definition handle_delete_app :: "'c server \<Rightarrow> string \<Rightarrow> string \<Rightarrow> ('c, reply) hop" where
  "handle_delete_app sv g i = bindE (on_platform (delete_app_p (sv_backend sv) g i)) (\<lambda>_. okE no_content)"

definition handle_deploy_app :: "'c server \<Rightarrow> http_conf \<Rightarrow> http_env \<Rightarrow> string \<Rightarrow> string \<Rightarrow> ('c, reply) hop" where
  "handle_deploy_app sv hc en g i =
     replying 202 JApp (on_platform (deploy (sv_backend sv) (hc_platform hc) (he_platform en) g i))"

definition handle_stop_app :: "'c server \<Rightarrow> string \<Rightarrow> string \<Rightarrow> ('c, reply) hop" where
  "handle_stop_app sv g i = replying 202 JApp (on_platform (stop_app (sv_backend sv) g i))"

definition handle_restart_app :: "'c server \<Rightarrow> http_env \<Rightarrow> string \<Rightarrow> string \<Rightarrow> ('c, reply) hop" where
  "handle_restart_app sv en g i = replying 202 JApp (on_platform (restart_app (sv_backend sv) (he_platform en) g i))"

definition handle_app_status :: "'c server \<Rightarrow> string \<Rightarrow> string \<Rightarrow> ('c, reply) hop" where
  "handle_app_status sv g i =
     bindE (on_platform (owned_app g i)) (\<lambda>a.
       if app_release a = [] then okE (write_json 200 (JAppStatus False (app_status a) None))
       else bindE (answering (fixed_reply 502 ''could not read rollout status from deploy backend'')
                     (on_cluster (sv_rollout_status sv (app_namespace a) (app_release a)))) (\<lambda>st.
              okE (write_json 200 (JAppStatus True (app_status a) (Some st)))))"

text \<open>The snapshot; following the log is a stream of the backend's.\<close>

definition handle_app_logs :: "'c server \<Rightarrow> string \<Rightarrow> string \<Rightarrow> ('c, reply) hop" where
  "handle_app_logs sv g i = replying 200 JLogs (on_platform (app_logs (sv_backend sv) g i))"

definition is_true :: "string \<Rightarrow> bool" where
  "is_true v \<longleftrightarrow> to_lower (trim_space v) \<in> {''1'', ''true'', ''yes'', ''on''}"

text \<open>What the stream writer sends of a piece of log: its complete lines, and keeps the rest.\<close>

definition sse_escape :: "string \<Rightarrow> string" where
  "sse_escape s = map (\<lambda>c. if c = CHR 0x0A then CHR '' '' else c) (filter (\<lambda>c. c \<noteq> CHR 0x0D) s)"

function sse_write :: "string \<Rightarrow> string list \<times> string" where
  "sse_write buf =
     (case dropWhile (\<lambda>c. c \<noteq> CHR 0x0A) buf of
        [] \<Rightarrow> ([], buf)
      | _ # rest \<Rightarrow>
          (let (out, left) = sse_write rest
           in ((''data: '' @ sse_escape (takeWhile (\<lambda>c. c \<noteq> CHR 0x0A) buf) @ [CHR 0x0A, CHR 0x0A]) # out, left)))"
  by pat_completeness auto
termination
proof (relation "measure length")
  fix buf c and rest :: string
  assume "dropWhile (\<lambda>c. c \<noteq> CHR 0x0A) buf = c # rest"
  then have "length (c # rest) \<le> length buf" by (metis length_dropWhile_le)
  then show "(rest, buf) \<in> measure length" by simp
qed simp

definition handle_list_builds :: "string \<Rightarrow> string \<Rightarrow> page \<Rightarrow> ('c, reply) hop" where
  "handle_list_builds g i pg =
     replying 200 (\<lambda>bs. JBuilds bs (page_meta pg (int (length bs)) (- 1))) (on_platform (list_builds g i pg))"

definition handle_get_build :: "string \<Rightarrow> string \<Rightarrow> string \<Rightarrow> ('c, reply) hop" where
  "handle_get_build g i bld = replying 200 JBuild (on_platform (get_build_p g i bld))"

section \<open>Environment, domains and metrics of an app (appconfig.go)\<close>

definition handle_list_app_env :: "string \<Rightarrow> string \<Rightarrow> ('c, reply) hop" where
  "handle_list_app_env g i = replying 200 JEnvs (on_platform (list_env g i))"

record set_env_request =
  eq_key :: string
  eq_value :: string
  eq_secret :: bool

definition handle_set_app_env ::
  "http_conf \<Rightarrow> http_env \<Rightarrow> user \<Rightarrow> string \<Rightarrow> string \<Rightarrow> set_env_request option \<Rightarrow> ('c, reply) hop" where
  "handle_set_app_env hc en u g i b =
     bindE (decoded b) (\<lambda>q.
       if eq_key q = [] then failE (write_error 400 ''key is required'')
       else bindE (on_platform (set_env (hc_platform hc) (he_platform en) g i (eq_key q) (eq_value q) (eq_secret q))) (\<lambda>e.
            bindE (audit en u g (if eq_secret q then ''secret.set'' else ''env.set'') ''app_env'' (i @ ''/'' @ eq_key q) []) (\<lambda>_.
              okE (write_json 200 (JEnv e)))))"

definition handle_delete_app_env :: "http_env \<Rightarrow> user \<Rightarrow> string \<Rightarrow> string \<Rightarrow> string \<Rightarrow> ('c, reply) hop" where
  "handle_delete_app_env en u g i key =
     bindE (on_platform (delete_env g i key)) (\<lambda>_.
     bindE (audit en u g ''secret.delete'' ''app_env'' (i @ ''/'' @ key) []) (\<lambda>_. okE no_content))"

definition handle_list_app_domains :: "string \<Rightarrow> string \<Rightarrow> ('c, reply) hop" where
  "handle_list_app_domains g i = replying 200 JDomains (on_platform (list_domains g i))"

definition handle_add_app_domain ::
  "http_conf \<Rightarrow> http_env \<Rightarrow> user \<Rightarrow> string \<Rightarrow> string \<Rightarrow> string option \<Rightarrow> ('c, reply) hop" where
  "handle_add_app_domain hc en u g i b =
     bindE (decoded b) (\<lambda>fqdn.
       if fqdn = [] then failE (write_error 400 ''domain is required'')
       else bindE (on_platform (add_domain (hc_platform hc) (he_platform en) g i fqdn)) (\<lambda>d.
            bindE (audit en u g ''domain.add'' ''domain'' (i @ ''/'' @ dom_domain (fst d)) []) (\<lambda>_.
              okE (write_json 201 (JDomain d)))))"

fun domain_status_text :: "domain_status \<Rightarrow> string" where
  "domain_status_text DomainPending = ''pending''"
| "domain_status_text DomainVerified = ''verified''"
| "domain_status_text DomainFailed = ''failed''"
| "domain_status_text (DomainOther x) = x"

definition handle_verify_app_domain ::
  "'c server \<Rightarrow> http_conf \<Rightarrow> http_env \<Rightarrow> user \<Rightarrow> string \<Rightarrow> string \<Rightarrow> string \<Rightarrow> ('c, reply) hop" where
  "handle_verify_app_domain sv hc en u g i dd =
     bindE (on_platform (verify_domain (sv_backend sv) (hc_platform hc) (he_platform en) g i dd)) (\<lambda>d.
     bindE (audit en u g ''domain.verify'' ''domain'' (i @ ''/'' @ dom_domain (fst d)) (domain_status_text (dom_status (fst d)))) (\<lambda>_.
       okE (write_json 200 (JDomain d))))"

definition handle_delete_app_domain ::
  "'c server \<Rightarrow> http_conf \<Rightarrow> http_env \<Rightarrow> user \<Rightarrow> string \<Rightarrow> string \<Rightarrow> string \<Rightarrow> ('c, reply) hop" where
  "handle_delete_app_domain sv hc en u g i dd =
     bindE (on_platform (delete_domain_p (sv_backend sv) (hc_platform hc) g i dd)) (\<lambda>_.
     bindE (audit en u g ''domain.delete'' ''domain'' (i @ ''/'' @ dd) []) (\<lambda>_. okE no_content))"

definition handle_app_metrics :: "'c server \<Rightarrow> string \<Rightarrow> string \<Rightarrow> ('c, reply) hop" where
  "handle_app_metrics sv g i = replying 200 JMetrics (on_platform (app_metrics (sv_backend sv) g i))"

end
