(* ===== verification/Http_Admin.thy ===== *)
theory Http_Admin
  imports Http_Handlers
begin

text \<open>
  The handlers of services, databases and backups (\<open>services.go\<close>, \<open>apps.go\<close>,
  \<open>databases.go\<close>), of billing and its webhook (\<open>billing.go\<close>), and of the super-admin's
  catalog and settings (\<open>admin.go\<close>, \<open>audit.go\<close>). The body of a patch is the function that
  decodes it onto the stored record.
\<close>

section \<open>Services (services.go)\<close>

definition handle_service_catalog :: "('c, reply) hop" where
  "handle_service_catalog =
     replying 200 JCatalog (answering (fixed_reply 500 ''failed to load catalog'') list_catalog)"

definition handle_list_services :: "user \<Rightarrow> string \<Rightarrow> ('c, reply) hop" where
  "handle_list_services u g =
     bindE (on_platform (list_services g)) (\<lambda>xs. replying 200 JServices (accessible u g svc_project_id xs))"

definition handle_create_service ::
  "'c server \<Rightarrow> http_env \<Rightarrow> string \<Rightarrow> string \<Rightarrow> create_service_input option \<Rightarrow> ('c, reply) hop" where
  "handle_create_service sv en g p b =
     bindE (decoded b) (\<lambda>q.
       if cs_template_key q = [] then failE (write_error 400 ''templateKey is required'')
       else replying 201 JService (on_platform (create_service_p (sv_backend sv) (he_platform en) g p q)))"

definition handle_deploy_service :: "'c server \<Rightarrow> http_env \<Rightarrow> string \<Rightarrow> string \<Rightarrow> ('c, reply) hop" where
  "handle_deploy_service sv en g i =
     replying 202 JService (on_platform (deploy_service (sv_backend sv) (he_platform en) g i))"

definition handle_stop_service :: "'c server \<Rightarrow> string \<Rightarrow> string \<Rightarrow> ('c, reply) hop" where
  "handle_stop_service sv g i = replying 202 JService (on_platform (stop_service (sv_backend sv) g i))"

definition handle_restart_service :: "'c server \<Rightarrow> http_env \<Rightarrow> string \<Rightarrow> string \<Rightarrow> ('c, reply) hop" where
  "handle_restart_service sv en g i =
     replying 202 JService (on_platform (restart_service (sv_backend sv) (he_platform en) g i))"

definition handle_delete_service :: "'c server \<Rightarrow> string \<Rightarrow> string \<Rightarrow> ('c, reply) hop" where
  "handle_delete_service sv g i = bindE (on_platform (delete_service_p (sv_backend sv) g i)) (\<lambda>_. okE no_content)"

section \<open>Databases (apps.go)\<close>

definition handle_list_databases :: "user \<Rightarrow> string \<Rightarrow> ('c, reply) hop" where
  "handle_list_databases u g =
     bindE (on_platform (list_databases g)) (\<lambda>xs. replying 200 JDatabases (accessible u g db_project_id xs))"

definition handle_create_database ::
  "'c server \<Rightarrow> http_conf \<Rightarrow> http_env \<Rightarrow> string \<Rightarrow> create_database_input option \<Rightarrow> ('c, reply) hop" where
  "handle_create_database sv hc en g b =
     bindE (decoded b) (\<lambda>q.
       if cd_name q = [] then failE (write_error 400 ''name is required'')
       else bindE (project_or_default g (cd_project_id q)) (\<lambda>p.
            replying 201 JDatabase (on_platform
              (create_database_p (sv_backend sv) (hc_platform hc) (he_platform en) g (q\<lparr>cd_project_id := p\<rparr>)))))"

definition handle_get_database :: "http_conf \<Rightarrow> string \<Rightarrow> string \<Rightarrow> ('c, reply) hop" where
  "handle_get_database hc g i = replying 200 JDatabaseDetail (on_platform (get_database_detail (hc_platform hc) g i))"

definition handle_deploy_database ::
  "'c server \<Rightarrow> http_conf \<Rightarrow> http_env \<Rightarrow> string \<Rightarrow> string \<Rightarrow> ('c, reply) hop" where
  "handle_deploy_database sv hc en g i =
     replying 200 JDatabase (on_platform (deploy_database (sv_backend sv) (hc_platform hc) (he_platform en) g i))"

definition handle_stop_database ::
  "'c server \<Rightarrow> http_conf \<Rightarrow> http_env \<Rightarrow> string \<Rightarrow> string \<Rightarrow> ('c, reply) hop" where
  "handle_stop_database sv hc en g i =
     replying 200 JDatabase (on_platform (stop_database (sv_backend sv) (hc_platform hc) (he_platform en) g i))"

definition handle_restart_database ::
  "'c server \<Rightarrow> http_conf \<Rightarrow> http_env \<Rightarrow> string \<Rightarrow> string \<Rightarrow> ('c, reply) hop" where
  "handle_restart_database sv hc en g i =
     replying 200 JDatabase (on_platform (restart_database (sv_backend sv) (hc_platform hc) (he_platform en) g i))"

definition handle_delete_database :: "'c server \<Rightarrow> http_conf \<Rightarrow> string \<Rightarrow> string \<Rightarrow> ('c, reply) hop" where
  "handle_delete_database sv hc g i =
     bindE (on_platform (delete_database_p (sv_backend sv) (hc_platform hc) g i)) (\<lambda>_. okE no_content)"

section \<open>Backups (databases.go)\<close>

definition handle_backup_database ::
  "'c server \<Rightarrow> http_conf \<Rightarrow> http_env \<Rightarrow> user \<Rightarrow> string \<Rightarrow> string \<Rightarrow> ('c, reply) hop" where
  "handle_backup_database sv hc en u g i =
     bindE (on_platform (owned_database (hc_platform hc) g i)) (\<lambda>d.
       if db_release d = [] then failE (write_error 409 ''database is not deployed; nothing to back up'')
       else bindE (answering (fixed_reply 502 ''could not trigger database backup'') (on_cluster (sv_backup_database sv d))) (\<lambda>bk.
            bindE (audit en u g ''database.backup'' ''database'' i (''engine='' @ db_engine d)) (\<lambda>_.
              okE (write_json 202 (JBackup bk)))))"

definition handle_list_database_backups ::
  "'c server \<Rightarrow> http_conf \<Rightarrow> string \<Rightarrow> string \<Rightarrow> ('c, reply) hop" where
  "handle_list_database_backups sv hc g i =
     bindE (on_platform (owned_database (hc_platform hc) g i)) (\<lambda>d.
       if db_release d = [] then okE (write_json 200 (JBackups []))
       else replying 200 JBackups (answering (fixed_reply 502 ''could not list database backups'')
              (on_cluster (sv_list_database_backups sv (db_namespace d) (db_release d)))))"

definition handle_restore_database ::
  "'c server \<Rightarrow> http_conf \<Rightarrow> http_env \<Rightarrow> user \<Rightarrow> string \<Rightarrow> string \<Rightarrow> string option \<Rightarrow> ('c, reply) hop" where
  "handle_restore_database sv hc en u g i b =
     bindE (decoded b) (\<lambda>name.
       if name = [] then failE (write_error 400 ''backupName is required'')
       else bindE (on_platform (owned_database (hc_platform hc) g i)) (\<lambda>d.
            if db_release d = [] then failE (write_error 409 ''database is not deployed; nothing to restore into'')
            else bindE (answering (fixed_reply 502 ''could not restore database backup'')
                          (on_cluster (sv_restore_database sv d name))) (\<lambda>_.
                 bindE (audit en u g ''database.restore'' ''database'' i (''backupName='' @ name)) (\<lambda>_.
                   okE (write_json 202 NoBody)))))"

section \<open>Billing (billing.go)\<close>

definition handle_plans :: "'c pworld provider \<Rightarrow> ('c, reply) hop" where
  "handle_plans prov =
     replying 200 (\<lambda>ps. JPublicPlans ps (pp_name prov))
       (answering (fixed_reply 500 ''failed to load plans'') (catalog platform_bstore))"

definition handle_pricing :: "('c, reply) hop" where
  "handle_pricing = replying 200 JPrices (answering (fixed_reply 500 ''failed to load pricing'') (pricing_components platform_bstore))"

definition handle_get_billing :: "http_env \<Rightarrow> string \<Rightarrow> ('c, reply) hop" where
  "handle_get_billing en g =
     replying 200 JBilling (answering (fixed_reply 500 ''failed to load billing'') (get_billing platform_bstore (he_billing_now en 0) g))"

definition handle_list_invoices :: "http_env \<Rightarrow> string \<Rightarrow> string \<Rightarrow> ('c, reply) hop" where
  "handle_list_invoices en g limit_q =
     (let limit = (if limit_q \<noteq> [] then (case atoi limit_q of Some n \<Rightarrow> n | None \<Rightarrow> 0) else 0)
      in replying 200 JInvoices
           (answering (fixed_reply 500 ''failed to load invoices'') (invoice_history platform_bstore (he_billing_now en 0) g limit)))"

definition handle_subscribe ::
  "'c pworld provider \<Rightarrow> http_env \<Rightarrow> user \<Rightarrow> string \<Rightarrow> string option \<Rightarrow> ('c, reply) hop" where
  "handle_subscribe prov en u g b =
     bindE (decoded b) (\<lambda>plan_i.
       replying 200 JSubscribed
         (answering (\<lambda>e. if e = BUnknownPlan then write_error 400 ''unknown plan''
                        else write_error 502 ''billing provider error'')
            (subscribe platform_bstore prov (he_billing_now en 0) (he_billing_now en 1) g plan_i (user_email u))))"

text \<open>The cap is a pointer: a body without one is refused.\<close>

definition handle_set_spend_cap ::
  "http_env \<Rightarrow> user \<Rightarrow> string \<Rightarrow> int option option \<Rightarrow> ('c, reply) hop" where
  "handle_set_spend_cap en u g b =
     bindE (decoded b) (\<lambda>cap.
       case cap of
         None \<Rightarrow> failE (write_error 400 ''spendCapCents is required'')
       | Some n \<Rightarrow>
           if n < 0 then failE (write_error 400 ''spendCapCents must not be negative'')
           else bindE (answering (\<lambda>e. if e = ErrNotFound then write_error 404 ''not found''
                                     else write_error 500 ''failed to load organization'') (p_read (get_organization g))) (\<lambda>o1.
                let o2 = o1\<lparr>org_spend_cap_cents := n\<rparr>
                in bindE (answering (\<lambda>e. if e = ErrNotFound then write_error 404 ''not found''
                                     else write_error 500 ''failed to update spend cap'') (p_write (update_org o2))) (\<lambda>o3.
                   bindE (audit en u g ''billing.spend_cap.set'' ''organization'' g (''spendCapCents='' @ itoa n)) (\<lambda>_.
                     okE (write_json 200 (JSpendCap n))))))"

definition is_subscription_event :: "string \<Rightarrow> bool" where
  "is_subscription_event t \<longleftrightarrow>
     t \<in> {''checkout.session.completed'', ''customer.subscription.created'', ''customer.subscription.updated'',
          ''customer.subscription.deleted'', ''invoice.payment_failed'', ''invoice.payment_succeeded''}"

text \<open>The payload, if it could be read, and what it decodes to.\<close>

definition handle_stripe_webhook ::
  "http_conf \<Rightarrow> http_env \<Rightarrow> string \<Rightarrow> string option \<Rightarrow> (string \<Rightarrow> stripe_event option) \<Rightarrow> ('c, reply) hop" where
  "handle_stripe_webhook hc en signature payload unmarshal =
     (if hc_stripe_webhook_secret hc = [] then okE (write_json 200 NoBody)
      else case payload of
             None \<Rightarrow> failE (write_error 400 ''could not read body'')
           | Some text \<Rightarrow>
               if \<not> verify_webhook_signature (he_hmac_hex en) text signature (hc_stripe_webhook_secret hc)
                      (5 * 60 * second_ns) (he_now en)
               then failE (write_error 400 ''invalid signature'')
               else case unmarshal text of
                      None \<Rightarrow> failE (write_error 400 ''invalid event'')
                    | Some evt \<Rightarrow>
                        bindE (answering (fixed_reply 500 ''failed to process event'') (process_event platform_bstore evt)) (\<lambda>processed.
                        bindE (if processed \<and> is_subscription_event (se_type evt)
                               then audit_as en [] ''stripe-webhook'' [] ''subscription.update'' ''subscription''
                                      (se_subscription evt) (''type='' @ se_type evt @ '',status='' @ se_status evt)
                               else okE ()) (\<lambda>_. okE (write_json 200 NoBody))))"

section \<open>The catalog of the super-admin (admin.go)\<close>

text \<open>Creating, patching and deleting a row of one of the three catalog tables.\<close>

definition admin_create ::
  "http_env \<Rightarrow> user \<Rightarrow> string \<Rightarrow> string \<Rightarrow> (string \<Rightarrow> mem \<Rightarrow> serr + 'r) \<Rightarrow> ('r \<Rightarrow> unit mem_op) \<Rightarrow> ('r \<Rightarrow> body) \<Rightarrow>
   string \<Rightarrow> 'r \<Rightarrow> ('c, reply) hop" where
  "admin_create en u kind act get put view k x =
     tryE (p_read (get k))
       (\<lambda>e. if e \<noteq> ErrNotFound then failE (write_error 500 (''failed to create '' @ kind))
            else bindE (answering (fixed_reply 500 (''failed to create '' @ kind)) (p_write (put x))) (\<lambda>_.
                 bindE (audit en u [] (act @ ''.create'') act k []) (\<lambda>_. okE (write_json 201 (view x)))))
       (\<lambda>_. failE (write_error 409 (kind @ '' already exists'')))"

definition admin_update ::
  "http_env \<Rightarrow> user \<Rightarrow> string \<Rightarrow> string \<Rightarrow> (string \<Rightarrow> mem \<Rightarrow> serr + 'r) \<Rightarrow> ('r \<Rightarrow> unit mem_op) \<Rightarrow> ('r \<Rightarrow> body) \<Rightarrow>
   ('r \<Rightarrow> ('c, 'r) hop) \<Rightarrow> string \<Rightarrow> ('r \<Rightarrow> 'r option) \<Rightarrow> ('c, reply) hop" where
  "admin_update en u kind act get put view check k patch =
     bindE (answering (\<lambda>e. if e = ErrNotFound then write_error 404 (kind @ '' not found'')
                          else write_error 500 (''failed to load '' @ act)) (p_read (get k))) (\<lambda>existing.
     bindE (decoded (patch existing)) (\<lambda>x0.
     bindE (check x0) (\<lambda>x.
     bindE (answering (fixed_reply 500 (''failed to update '' @ act)) (p_write (put x))) (\<lambda>_.
     bindE (audit en u [] (act @ ''.update'') act k []) (\<lambda>_. okE (write_json 200 (view x)))))))"

definition admin_delete ::
  "http_env \<Rightarrow> user \<Rightarrow> string \<Rightarrow> string \<Rightarrow> (string \<Rightarrow> unit mem_op) \<Rightarrow> string \<Rightarrow> ('c, reply) hop" where
  "admin_delete en u kind act del k =
     bindE (answering (\<lambda>e. if e = ErrNotFound then write_error 404 (kind @ '' not found'')
                          else write_error 500 (''failed to delete '' @ act)) (p_write (del k))) (\<lambda>_.
     bindE (audit en u [] (act @ ''.delete'') act k []) (\<lambda>_. okE no_content))"

definition handle_admin_list_plans :: "('c, reply) hop" where
  "handle_admin_list_plans = replying 200 JPlans (answering (fixed_reply 500 ''failed to list plans'') (p_read list_plans))"

definition handle_admin_create_plan :: "http_env \<Rightarrow> user \<Rightarrow> plan option \<Rightarrow> ('c, reply) hop" where
  "handle_admin_create_plan en u b =
     bindE (decoded b) (\<lambda>p0.
       let p = p0\<lparr>plan_id := trim_space (plan_id p0)\<rparr>
       in if plan_id p = [] then failE (write_error 400 ''id is required'')
          else admin_create en u ''plan'' ''plan'' get_plan upsert_plan JPlan (plan_id p) p)"

definition handle_admin_update_plan :: "http_env \<Rightarrow> user \<Rightarrow> string \<Rightarrow> (plan \<Rightarrow> plan option) \<Rightarrow> ('c, reply) hop" where
  "handle_admin_update_plan en u i patch =
     admin_update en u ''plan'' ''plan'' get_plan upsert_plan JPlan (\<lambda>p. okE (p\<lparr>plan_id := i\<rparr>)) i patch"

definition handle_admin_delete_plan :: "http_env \<Rightarrow> user \<Rightarrow> string \<Rightarrow> ('c, reply) hop" where
  "handle_admin_delete_plan en u i = admin_delete en u ''plan'' ''plan'' delete_plan i"

definition handle_admin_list_pricing :: "('c, reply) hop" where
  "handle_admin_list_pricing =
     replying 200 JPrices (answering (fixed_reply 500 ''failed to list pricing'') (p_read list_pricing_components))"

definition handle_admin_create_pricing :: "http_env \<Rightarrow> user \<Rightarrow> pricing_component option \<Rightarrow> ('c, reply) hop" where
  "handle_admin_create_pricing en u b =
     bindE (decoded b) (\<lambda>p0.
       let p = p0\<lparr>pc_key := trim_space (pc_key p0)\<rparr>
       in if pc_key p = [] then failE (write_error 400 ''key is required'')
          else if pc_price_per_hour p < 0 then failE (write_error 400 ''pricePerHour must not be negative'')
          else tryE (p_read (get_pricing_component (pc_key p)))
                 (\<lambda>e. if e \<noteq> ErrNotFound then failE (write_error 500 ''failed to create pricing'')
                      else bindE (answering (fixed_reply 500 ''failed to create pricing'') (p_write (upsert_pricing_component p))) (\<lambda>_.
                           bindE (audit en u [] ''pricing.create'' ''pricing'' (pc_key p) []) (\<lambda>_. okE (write_json 201 (JPricing p)))))
                 (\<lambda>_. failE (write_error 409 ''pricing component already exists'')))"

definition handle_admin_update_pricing ::
  "http_env \<Rightarrow> user \<Rightarrow> string \<Rightarrow> (pricing_component \<Rightarrow> pricing_component option) \<Rightarrow> ('c, reply) hop" where
  "handle_admin_update_pricing en u k patch =
     admin_update en u ''pricing component'' ''pricing'' get_pricing_component upsert_pricing_component JPricing
       (\<lambda>p. if pc_price_per_hour p < 0 then failE (write_error 400 ''pricePerHour must not be negative'')
            else okE (p\<lparr>pc_key := k\<rparr>)) k patch"

definition handle_admin_delete_pricing :: "http_env \<Rightarrow> user \<Rightarrow> string \<Rightarrow> ('c, reply) hop" where
  "handle_admin_delete_pricing en u k = admin_delete en u ''pricing component'' ''pricing'' delete_pricing_component k"

definition handle_admin_list_templates :: "('c, reply) hop" where
  "handle_admin_list_templates =
     replying 200 JTemplates (answering (fixed_reply 500 ''failed to list templates'') (p_read list_service_templates))"

definition handle_admin_create_template :: "http_env \<Rightarrow> user \<Rightarrow> service_template option \<Rightarrow> ('c, reply) hop" where
  "handle_admin_create_template en u b =
     bindE (decoded b) (\<lambda>t0.
       let t = t0\<lparr>tpl_key := trim_space (tpl_key t0)\<rparr>
       in if tpl_key t = [] then failE (write_error 400 ''key is required'')
          else admin_create en u ''template'' ''template'' get_service_template upsert_service_template JTemplate (tpl_key t) t)"

definition handle_admin_update_template ::
  "http_env \<Rightarrow> user \<Rightarrow> string \<Rightarrow> (service_template \<Rightarrow> service_template option) \<Rightarrow> ('c, reply) hop" where
  "handle_admin_update_template en u k patch =
     admin_update en u ''template'' ''template'' get_service_template upsert_service_template JTemplate
       (\<lambda>t. okE (t\<lparr>tpl_key := k\<rparr>)) k patch"

definition handle_admin_delete_template :: "http_env \<Rightarrow> user \<Rightarrow> string \<Rightarrow> ('c, reply) hop" where
  "handle_admin_delete_template en u k = admin_delete en u ''template'' ''template'' delete_service_template k"

definition handle_admin_get_settings :: "('c, reply) hop" where
  "handle_admin_get_settings =
     replying 200 JSettings (answering (fixed_reply 500 ''failed to load settings'') (p_read get_settings))"

definition handle_admin_update_settings ::
  "http_env \<Rightarrow> user \<Rightarrow> (platform_settings \<Rightarrow> platform_settings option) \<Rightarrow> ('c, reply) hop" where
  "handle_admin_update_settings en u patch =
     bindE (answering (fixed_reply 500 ''failed to load settings'') (p_read get_settings)) (\<lambda>existing.
     bindE (decoded (patch existing)) (\<lambda>x.
     bindE (answering (fixed_reply 500 ''failed to update settings'') (p_write (update_settings x))) (\<lambda>_.
     bindE (audit en u [] ''settings.update'' ''settings'' ''platform'' []) (\<lambda>_. okE (write_json 200 (JSettings x))))))"

definition count_plans :: "subscription list \<Rightarrow> (string, int) gomap" where
  "count_plans subs =
     fold (\<lambda>b m. gput (sub_plan_id b) ((case gget m (sub_plan_id b) of None \<Rightarrow> 0 | Some n \<Rightarrow> n) + 1) m) subs []"

definition handle_admin_overview :: "('c, reply) hop" where
  "handle_admin_overview =
     (let failed = (\<lambda>_. write_error 500 ''failed to load overview'')
      in bindE (answering failed (p_read list_all_orgs)) (\<lambda>orgs.
         bindE (answering failed (p_read count_users)) (\<lambda>n.
         bindE (answering failed (p_read list_all_subscriptions)) (\<lambda>subs.
         bindE (answering failed (p_read sum_usage_by_metric)) (\<lambda>usage.
           okE (write_json 200 (JOverview
             \<lparr>ov_org_count = int (length orgs), ov_user_count = n, ov_subscriptions_by_plan = count_plans subs,
              ov_usage_totals = usage\<rparr>)))))))"

end
