(* ===== verification/Http_Server.thy ===== *)
theory Http_Server
  imports Http_Admin
begin

text \<open>
  The server (\<open>httpx/server.go\<close>): the table of routes with the guards in front of each handler,
  the guards (\<open>auth.go\<close>, \<open>apps.go\<close>, \<open>projects.go\<close>, \<open>ratelimit.go\<close>), and what the server does
  with a request that the router has matched.
\<close>

section \<open>Routes\<close>

text \<open>A route with its URL parameters, its query and its decoded body.\<close>

datatype public_route =
    Signup "signup_request option" | Login "login_request option" | Refresh "string option option"
  | ForgotPassword "string option" | ResetPassword "reset_password_request option"
  | BillingPlans | BillingPricing | BillingWebhook string "string option" "string \<Rightarrow> stripe_event option" | ServicesCatalog

datatype account_route =
    Me | Logout | CreateToken "create_token_request option" | ListTokens | DeleteToken string
  | AcceptInvitation "string option" | ListOrgs | CreateOrg "string option"

datatype admin_route =
    AdminOverview
  | AdminListPlans | AdminCreatePlan "plan option" | AdminUpdatePlan string "plan \<Rightarrow> plan option" | AdminDeletePlan string
  | AdminListPricing | AdminCreatePricing "pricing_component option"
  | AdminUpdatePricing string "pricing_component \<Rightarrow> pricing_component option" | AdminDeletePricing string
  | AdminListTemplates | AdminCreateTemplate "service_template option"
  | AdminUpdateTemplate string "service_template \<Rightarrow> service_template option" | AdminDeleteTemplate string
  | AdminGetSettings | AdminUpdateSettings "platform_settings \<Rightarrow> platform_settings option" | AdminAudit string string

datatype app_route =
    GetApp | AppStatus | AppLogs | UpdateApp "update_app_input option" | DeleteApp | DeployApp | StopApp | RestartApp
  | ScaleApp "scale_app_input option" | ListReleases string string | RollbackApp "int option option"
  | ListAppEnv | SetAppEnv "set_env_request option" | DeleteAppEnv string
  | ListAppDomains | AddAppDomain "string option" | VerifyAppDomain string | DeleteAppDomain string
  | AppMetrics | ListBuilds string string | GetBuild string

datatype service_route = DeployService | StopService | RestartService | DeleteService

datatype database_route =
    GetDatabase | DeployDatabase | StopDatabase | RestartDatabase | DeleteDatabase
  | ListDatabaseBackups | BackupDatabase | RestoreDatabase "string option"

datatype org_route =
    UpdateOrg "update_org_input option" | ListMembers | UpdateMember string "string option" | RemoveMember string
  | CreateInvitation "invite_request option" | ListInvitations | RevokeInvitation string
  | ListProjects | CreateProject "string option" | DeleteProject string
  | ListProjectApps string | CreateAppInProject string "create_app_request option"
  | CreateService string "create_service_input option"
  | ListApps | CreateApp "create_app_request option" | AppRoute string app_route
  | ListServices | ServiceRoute string service_route
  | ListDatabases | CreateDatabase "create_database_input option" | DatabaseRoute string database_route
  | GetBilling | ListInvoices string | Subscribe "string option" | SetSpendCap "int option option" | OrgAudit string string

datatype route = Public public_route | Account account_route | Admin admin_route | Org string org_route

section \<open>Methods\<close>

fun app_method :: "app_route \<Rightarrow> string" where
  "app_method GetApp = ''GET''"
| "app_method AppStatus = ''GET''"
| "app_method AppLogs = ''GET''"
| "app_method (UpdateApp b) = ''PATCH''"
| "app_method DeleteApp = ''DELETE''"
| "app_method (ListReleases l f) = ''GET''"
| "app_method ListAppEnv = ''GET''"
| "app_method (SetAppEnv b) = ''PUT''"
| "app_method (DeleteAppEnv k) = ''DELETE''"
| "app_method ListAppDomains = ''GET''"
| "app_method (DeleteAppDomain d) = ''DELETE''"
| "app_method AppMetrics = ''GET''"
| "app_method (ListBuilds l f) = ''GET''"
| "app_method (GetBuild b) = ''GET''"
| "app_method _ = ''POST''"

fun service_method :: "service_route \<Rightarrow> string" where
  "service_method DeleteService = ''DELETE''"
| "service_method _ = ''POST''"

fun database_method :: "database_route \<Rightarrow> string" where
  "database_method GetDatabase = ''GET''"
| "database_method ListDatabaseBackups = ''GET''"
| "database_method DeleteDatabase = ''DELETE''"
| "database_method _ = ''POST''"

fun org_method :: "org_route \<Rightarrow> string" where
  "org_method (UpdateOrg b) = ''PATCH''"
| "org_method ListMembers = ''GET''"
| "org_method (UpdateMember m b) = ''PATCH''"
| "org_method (RemoveMember m) = ''DELETE''"
| "org_method ListInvitations = ''GET''"
| "org_method (RevokeInvitation i) = ''DELETE''"
| "org_method ListProjects = ''GET''"
| "org_method (DeleteProject p) = ''DELETE''"
| "org_method (ListProjectApps p) = ''GET''"
| "org_method ListApps = ''GET''"
| "org_method (AppRoute i a) = app_method a"
| "org_method ListServices = ''GET''"
| "org_method (ServiceRoute i v) = service_method v"
| "org_method ListDatabases = ''GET''"
| "org_method (DatabaseRoute i d) = database_method d"
| "org_method GetBilling = ''GET''"
| "org_method (ListInvoices l) = ''GET''"
| "org_method (SetSpendCap b) = ''PUT''"
| "org_method (OrgAudit l f) = ''GET''"
| "org_method _ = ''POST''"

fun admin_method :: "admin_route \<Rightarrow> string" where
  "admin_method (AdminCreatePlan b) = ''POST''"
| "admin_method (AdminUpdatePlan i f) = ''PATCH''"
| "admin_method (AdminDeletePlan i) = ''DELETE''"
| "admin_method (AdminCreatePricing b) = ''POST''"
| "admin_method (AdminUpdatePricing k f) = ''PATCH''"
| "admin_method (AdminDeletePricing k) = ''DELETE''"
| "admin_method (AdminCreateTemplate b) = ''POST''"
| "admin_method (AdminUpdateTemplate k f) = ''PATCH''"
| "admin_method (AdminDeleteTemplate k) = ''DELETE''"
| "admin_method (AdminUpdateSettings f) = ''PATCH''"
| "admin_method _ = ''GET''"

fun account_method :: "account_route \<Rightarrow> string" where
  "account_method Me = ''GET''"
| "account_method ListTokens = ''GET''"
| "account_method (DeleteToken i) = ''DELETE''"
| "account_method ListOrgs = ''GET''"
| "account_method _ = ''POST''"

fun public_method :: "public_route \<Rightarrow> string" where
  "public_method BillingPlans = ''GET''"
| "public_method BillingPricing = ''GET''"
| "public_method ServicesCatalog = ''GET''"
| "public_method _ = ''POST''"

fun method_of :: "route \<Rightarrow> string" where
  "method_of (Public p) = public_method p"
| "method_of (Account a) = account_method a"
| "method_of (Admin a) = admin_method a"
| "method_of (Org g o1) = org_method o1"

section \<open>Guards\<close>

text \<open>The rate limiter is on the public routes that post.\<close>

fun limited :: "route \<Rightarrow> bool" where
  "limited (Public p) \<longleftrightarrow> public_method p = ''POST''"
| "limited _ \<longleftrightarrow> False"

datatype guard = OrgAuthz role | ProjectAuthz string role | AppAuthz string role | ServiceAuthz string role | DatabaseAuthz string role

fun app_role :: "app_route \<Rightarrow> role" where
  "app_role GetApp = RoleMember"
| "app_role AppStatus = RoleMember"
| "app_role AppLogs = RoleMember"
| "app_role (ListReleases l f) = RoleMember"
| "app_role ListAppDomains = RoleMember"
| "app_role AppMetrics = RoleMember"
| "app_role (ListBuilds l f) = RoleMember"
| "app_role (GetBuild b) = RoleMember"
| "app_role _ = RoleAdmin"

fun database_role :: "database_route \<Rightarrow> role" where
  "database_role GetDatabase = RoleMember"
| "database_role ListDatabaseBackups = RoleMember"
| "database_role _ = RoleAdmin"

fun org_guard :: "org_route \<Rightarrow> guard" where
  "org_guard ListMembers = OrgAuthz RoleMember"
| "org_guard (UpdateMember m b) = OrgAuthz RoleOwner"
| "org_guard (RemoveMember m) = OrgAuthz RoleOwner"
| "org_guard ListProjects = OrgAuthz RoleMember"
| "org_guard (ListProjectApps p) = ProjectAuthz p RoleMember"
| "org_guard (CreateAppInProject p b) = ProjectAuthz p RoleAdmin"
| "org_guard (CreateService p b) = ProjectAuthz p RoleAdmin"
| "org_guard ListApps = OrgAuthz RoleMember"
| "org_guard (AppRoute i a) = AppAuthz i (app_role a)"
| "org_guard ListServices = OrgAuthz RoleMember"
| "org_guard (ServiceRoute i v) = ServiceAuthz i RoleAdmin"
| "org_guard ListDatabases = OrgAuthz RoleMember"
| "org_guard (DatabaseRoute i d) = DatabaseAuthz i (database_role d)"
| "org_guard GetBilling = OrgAuthz RoleMember"
| "org_guard (ListInvoices l) = OrgAuthz RoleMember"
| "org_guard _ = OrgAuthz RoleAdmin"

definition auth_middleware :: "http_env \<Rightarrow> http_request \<Rightarrow> ('c, user) hop" where
  "auth_middleware en r =
     (let tok = access_token_from_request r
      in if tok = [] then failE (write_error 401 ''missing bearer token'')
         else if is_api_token tok then
           bindE (auth_via_api_token en tok) (\<lambda>found.
             case found of None \<Rightarrow> failE (write_error 401 ''invalid or expired token'') | Some u \<Rightarrow> okE u)
         else case verify_token (env_parse (he_identity en)) tok AccessToken of
                None \<Rightarrow> failE (write_error 401 ''invalid or expired token'')
              | Some cl \<Rightarrow> tryE (on_world (get_user (cl_subject cl))) (\<lambda>_. failE (write_error 401 ''unknown user'')) okE)"

definition admin_middleware :: "user \<Rightarrow> ('c, unit) hop" where
  "admin_middleware u =
     (if \<not> user_is_admin u then failE (write_error 403 ''super-admin access required'') else okE ())"

definition refused :: "string \<Rightarrow> ierr \<Rightarrow> reply" where
  "refused msg e = (if e = IForbidden then write_error 403 msg else write_error 500 ''authorization error'')"

definition org_authz :: "user \<Rightarrow> string \<Rightarrow> role \<Rightarrow> ('c, unit) hop" where
  "org_authz u g least =
     bindE (answering (refused ''you do not have access to this organization'')
              (on_world (authorize (user_id u) g least))) (\<lambda>_. okE ())"

definition project_authz :: "user \<Rightarrow> string \<Rightarrow> string \<Rightarrow> role \<Rightarrow> ('c, unit) hop" where
  "project_authz u g p least =
     answering (refused ''you do not have access to this project'')
       (on_world (authorize_project (user_id u) g p least))"

definition resource_project_authz ::
  "(string \<Rightarrow> string \<Rightarrow> ('c, string option) hop) \<Rightarrow> user \<Rightarrow> string \<Rightarrow> string \<Rightarrow> role \<Rightarrow> ('c, unit) hop" where
  "resource_project_authz resolve u g i least =
     bindE (resolve g i) (\<lambda>found.
       case found of None \<Rightarrow> failE (write_error 404 ''not found'') | Some p \<Rightarrow> project_authz u g p least)"

definition resolve_app_project :: "string \<Rightarrow> string \<Rightarrow> ('c, string option) hop" where
  "resolve_app_project g i =
     tryE (p_read (get_app i)) (\<lambda>_. okE None) (\<lambda>a. okE (if app_org_id a \<noteq> g then None else Some (app_project_id a)))"

definition resolve_service_project :: "string \<Rightarrow> string \<Rightarrow> ('c, string option) hop" where
  "resolve_service_project g i =
     tryE (p_read (get_service i)) (\<lambda>_. okE None) (\<lambda>v. okE (if svc_org_id v \<noteq> g then None else Some (svc_project_id v)))"

definition resolve_database_project :: "string \<Rightarrow> string \<Rightarrow> ('c, string option) hop" where
  "resolve_database_project g i =
     tryE (p_read (get_database i)) (\<lambda>_. okE None) (\<lambda>d. okE (if db_org_id d \<noteq> g then None else Some (db_project_id d)))"

fun run_guard :: "guard \<Rightarrow> user \<Rightarrow> string \<Rightarrow> ('c, unit) hop" where
  "run_guard (OrgAuthz r) u g = org_authz u g r"
| "run_guard (ProjectAuthz p r) u g = project_authz u g p r"
| "run_guard (AppAuthz i r) u g = resource_project_authz resolve_app_project u g i r"
| "run_guard (ServiceAuthz i r) u g = resource_project_authz resolve_service_project u g i r"
| "run_guard (DatabaseAuthz i r) u g = resource_project_authz resolve_database_project u g i r"


section \<open>Handlers of the routes\<close>

fun run_public ::
  "'c pworld provider \<Rightarrow> http_conf \<Rightarrow> http_env \<Rightarrow> http_request \<Rightarrow> public_route \<Rightarrow> ('c, reply) hop" where
  "run_public prov hc en r (Signup b) = handle_signup hc en r b"
| "run_public prov hc en r (Login b) = handle_login hc en r b"
| "run_public prov hc en r (Refresh b) = handle_refresh hc en r b"
| "run_public prov hc en r (ForgotPassword b) = handle_forgot_password hc en b"
| "run_public prov hc en r (ResetPassword b) = handle_reset_password hc en b"
| "run_public prov hc en r BillingPlans = handle_plans prov"
| "run_public prov hc en r BillingPricing = handle_pricing"
| "run_public prov hc en r (BillingWebhook sg payload f) = handle_stripe_webhook hc en sg payload f"
| "run_public prov hc en r ServicesCatalog = handle_service_catalog"

fun run_account ::
  "http_conf \<Rightarrow> http_env \<Rightarrow> http_request \<Rightarrow> user \<Rightarrow> account_route \<Rightarrow> ('c, reply) hop" where
  "run_account hc en r u Me = handle_me u"
| "run_account hc en r u Logout = handle_logout hc en r u"
| "run_account hc en r u (CreateToken b) = handle_create_token en u b"
| "run_account hc en r u ListTokens = handle_list_tokens u"
| "run_account hc en r u (DeleteToken i) = handle_delete_token en u i"
| "run_account hc en r u (AcceptInvitation b) = handle_accept_invitation hc en u b"
| "run_account hc en r u ListOrgs = handle_list_orgs u"
| "run_account hc en r u (CreateOrg b) = handle_create_org hc en u b"

fun run_admin :: "http_env \<Rightarrow> user \<Rightarrow> admin_route \<Rightarrow> ('c, reply) hop" where
  "run_admin en u AdminOverview = handle_admin_overview"
| "run_admin en u AdminListPlans = handle_admin_list_plans"
| "run_admin en u (AdminCreatePlan b) = handle_admin_create_plan en u b"
| "run_admin en u (AdminUpdatePlan i f) = handle_admin_update_plan en u i f"
| "run_admin en u (AdminDeletePlan i) = handle_admin_delete_plan en u i"
| "run_admin en u AdminListPricing = handle_admin_list_pricing"
| "run_admin en u (AdminCreatePricing b) = handle_admin_create_pricing en u b"
| "run_admin en u (AdminUpdatePricing k f) = handle_admin_update_pricing en u k f"
| "run_admin en u (AdminDeletePricing k) = handle_admin_delete_pricing en u k"
| "run_admin en u AdminListTemplates = handle_admin_list_templates"
| "run_admin en u (AdminCreateTemplate b) = handle_admin_create_template en u b"
| "run_admin en u (AdminUpdateTemplate k f) = handle_admin_update_template en u k f"
| "run_admin en u (AdminDeleteTemplate k) = handle_admin_delete_template en u k"
| "run_admin en u AdminGetSettings = handle_admin_get_settings"
| "run_admin en u (AdminUpdateSettings f) = handle_admin_update_settings en u f"
| "run_admin en u (AdminAudit l f) = list_audit [] (parse_page l f)"

fun run_app ::
  "'c server \<Rightarrow> http_conf \<Rightarrow> http_env \<Rightarrow> user \<Rightarrow> string \<Rightarrow> string \<Rightarrow> app_route \<Rightarrow> ('c, reply) hop" where
  "run_app sv hc en u g i GetApp = handle_get_app g i"
| "run_app sv hc en u g i AppStatus = handle_app_status sv g i"
| "run_app sv hc en u g i AppLogs = handle_app_logs sv g i"
| "run_app sv hc en u g i (UpdateApp b) = handle_update_app sv hc en g i b"
| "run_app sv hc en u g i DeleteApp = handle_delete_app sv g i"
| "run_app sv hc en u g i DeployApp = handle_deploy_app sv hc en g i"
| "run_app sv hc en u g i StopApp = handle_stop_app sv g i"
| "run_app sv hc en u g i RestartApp = handle_restart_app sv en g i"
| "run_app sv hc en u g i (ScaleApp b) = handle_scale_app sv hc en g i b"
| "run_app sv hc en u g i (ListReleases l f) = handle_list_releases g i (parse_page l f)"
| "run_app sv hc en u g i (RollbackApp b) = handle_rollback_app sv hc en g i b"
| "run_app sv hc en u g i ListAppEnv = handle_list_app_env g i"
| "run_app sv hc en u g i (SetAppEnv b) = handle_set_app_env hc en u g i b"
| "run_app sv hc en u g i (DeleteAppEnv k) = handle_delete_app_env en u g i k"
| "run_app sv hc en u g i ListAppDomains = handle_list_app_domains g i"
| "run_app sv hc en u g i (AddAppDomain b) = handle_add_app_domain hc en u g i b"
| "run_app sv hc en u g i (VerifyAppDomain d) = handle_verify_app_domain sv hc en u g i d"
| "run_app sv hc en u g i (DeleteAppDomain d) = handle_delete_app_domain sv hc en u g i d"
| "run_app sv hc en u g i AppMetrics = handle_app_metrics sv g i"
| "run_app sv hc en u g i (ListBuilds l f) = handle_list_builds g i (parse_page l f)"
| "run_app sv hc en u g i (GetBuild b) = handle_get_build g i b"

fun run_service :: "'c server \<Rightarrow> http_env \<Rightarrow> string \<Rightarrow> string \<Rightarrow> service_route \<Rightarrow> ('c, reply) hop" where
  "run_service sv en g i DeployService = handle_deploy_service sv en g i"
| "run_service sv en g i StopService = handle_stop_service sv g i"
| "run_service sv en g i RestartService = handle_restart_service sv en g i"
| "run_service sv en g i DeleteService = handle_delete_service sv g i"

fun run_database ::
  "'c server \<Rightarrow> http_conf \<Rightarrow> http_env \<Rightarrow> user \<Rightarrow> string \<Rightarrow> string \<Rightarrow> database_route \<Rightarrow> ('c, reply) hop" where
  "run_database sv hc en u g i GetDatabase = handle_get_database hc g i"
| "run_database sv hc en u g i DeployDatabase = handle_deploy_database sv hc en g i"
| "run_database sv hc en u g i StopDatabase = handle_stop_database sv hc en g i"
| "run_database sv hc en u g i RestartDatabase = handle_restart_database sv hc en g i"
| "run_database sv hc en u g i DeleteDatabase = handle_delete_database sv hc g i"
| "run_database sv hc en u g i ListDatabaseBackups = handle_list_database_backups sv hc g i"
| "run_database sv hc en u g i BackupDatabase = handle_backup_database sv hc en u g i"
| "run_database sv hc en u g i (RestoreDatabase b) = handle_restore_database sv hc en u g i b"

fun run_org ::
  "'c server \<Rightarrow> 'c pworld provider \<Rightarrow> http_conf \<Rightarrow> http_env \<Rightarrow> user \<Rightarrow> string \<Rightarrow> org_route \<Rightarrow> ('c, reply) hop" where
  "run_org sv prov hc en u g (UpdateOrg b) = handle_update_org u g b"
| "run_org sv prov hc en u g ListMembers = handle_list_members u g"
| "run_org sv prov hc en u g (UpdateMember m b) = handle_update_member en u g m b"
| "run_org sv prov hc en u g (RemoveMember m) = handle_remove_member en u g m"
| "run_org sv prov hc en u g (CreateInvitation b) = handle_create_invitation hc en u g b"
| "run_org sv prov hc en u g ListInvitations = handle_list_invitations u g"
| "run_org sv prov hc en u g (RevokeInvitation i) = handle_revoke_invitation en u g i"
| "run_org sv prov hc en u g ListProjects = handle_list_projects u g"
| "run_org sv prov hc en u g (CreateProject b) = handle_create_project en u g b"
| "run_org sv prov hc en u g (DeleteProject p) = handle_delete_project u g p"
| "run_org sv prov hc en u g (ListProjectApps p) = handle_list_project_apps g p"
| "run_org sv prov hc en u g (CreateAppInProject p b) = handle_create_app_in_project sv hc en g p b"
| "run_org sv prov hc en u g (CreateService p b) = handle_create_service sv en g p b"
| "run_org sv prov hc en u g ListApps = handle_list_apps u g"
| "run_org sv prov hc en u g (CreateApp b) = handle_create_app sv hc en g b"
| "run_org sv prov hc en u g (AppRoute i a) = run_app sv hc en u g i a"
| "run_org sv prov hc en u g ListServices = handle_list_services u g"
| "run_org sv prov hc en u g (ServiceRoute i v) = run_service sv en g i v"
| "run_org sv prov hc en u g ListDatabases = handle_list_databases u g"
| "run_org sv prov hc en u g (CreateDatabase b) = handle_create_database sv hc en g b"
| "run_org sv prov hc en u g (DatabaseRoute i d) = run_database sv hc en u g i d"
| "run_org sv prov hc en u g GetBilling = handle_get_billing en g"
| "run_org sv prov hc en u g (ListInvoices l) = handle_list_invoices en g l"
| "run_org sv prov hc en u g (Subscribe b) = handle_subscribe prov en u g b"
| "run_org sv prov hc en u g (SetSpendCap b) = handle_set_spend_cap en u g b"
| "run_org sv prov hc en u g (OrgAudit l f) = list_audit g (parse_page l f)"

section \<open>The server\<close>

fun handle_route ::
  "'c server \<Rightarrow> 'c pworld provider \<Rightarrow> http_conf \<Rightarrow> http_env \<Rightarrow> http_request \<Rightarrow> route \<Rightarrow> ('c, reply) hop" where
  "handle_route sv prov hc en r (Public p) = run_public prov hc en r p"
| "handle_route sv prov hc en r (Account a) = bindE (auth_middleware en r) (\<lambda>u. run_account hc en r u a)"
| "handle_route sv prov hc en r (Admin a) =
     bindE (auth_middleware en r) (\<lambda>u. bindE (admin_middleware u) (\<lambda>_. run_admin en u a))"
| "handle_route sv prov hc en r (Org g x) =
     bindE (auth_middleware en r) (\<lambda>u. bindE (run_guard (org_guard x) u g) (\<lambda>_. run_org sv prov hc en u g x))"

record 'c site =
  si_world :: "'c pworld"
  si_limiter :: fixed_window_limiter

definition client_key :: "http_env \<Rightarrow> http_request \<Rightarrow> string" where
  "client_key en r =
     (case he_split_host_port en (rq_remote_addr r) of Some h \<Rightarrow> h | None \<Rightarrow> rq_remote_addr r)"

definition rate_limit_middleware :: "http_env \<Rightarrow> http_request \<Rightarrow> route \<Rightarrow> fixed_window_limiter \<Rightarrow> bool \<times> fixed_window_limiter" where
  "rate_limit_middleware en r rt l = (if limited rt then limiter_allow (client_key en r) (he_now en) l else (True, l))"

definition respond ::
  "'c server \<Rightarrow> 'c pworld provider \<Rightarrow> http_conf \<Rightarrow> http_env \<Rightarrow> http_request \<Rightarrow> route \<Rightarrow> 'c site \<Rightarrow> reply \<times> 'c site" where
  "respond sv prov hc en r rt s =
     (case fst (csrf_origin_guard (hc_cors_allowed_origins hc) (he_parse_url en) (method_of rt) r (si_world s)) of
        Inl blocked \<Rightarrow> (blocked, s)
      | Inr _ \<Rightarrow>
          (let (ok, l) = rate_limit_middleware en r rt (si_limiter s)
           in if \<not> ok then (write_error 429 ''rate limit exceeded'', s\<lparr>si_limiter := l\<rparr>)
              else let (x, w) = handle_route sv prov hc en r rt (si_world s)
                   in (case x of Inl rep \<Rightarrow> rep | Inr rep \<Rightarrow> rep, \<lparr>si_world = w, si_limiter = l\<rparr>)))"

end
