(* ===== verification/Platform_Frames.thy ===== *)
theory Platform_Frames
  imports Platform_Config Identity_Members
begin

text \<open>
  What the parts of a platform operation leave alone. \<open>seen\<close> is everything but the failures
  still to come; \<open>reads_only\<close> parts leave it as it was, so a predicate of the store, of the
  cluster or of the started builds is carried through an operation past them, and only its
  writes have to be looked at.
\<close>

section \<open>Parts that only read\<close>

definition rows :: "'c pworld \<Rightarrow> mem" where
  "rows p = w_mem (pw_w p)"

definition seen :: "'c pworld \<Rightarrow> mem \<times> 'c \<times> build_request list" where
  "seen p = (rows p, pw_cluster p, pw_builds p)"

definition reads_only :: "('e, 'c pworld, 'a) op \<Rightarrow> bool" where
  "reads_only m \<longleftrightarrow> (\<forall>p. seen (snd (m p)) = seen p)"

named_theorems reads_rules \<open>parts of platform operations that only read\<close>

lemma reads_onlyD: "reads_only m \<Longrightarrow> m p = (r, q) \<Longrightarrow> seen q = seen p"
  unfolding reads_only_def by (metis snd_conv)

lemma reads_only_ok [reads_rules]: "reads_only (okE x)" "reads_only (failE e)"
  by (simp_all add: reads_only_def okE_def failE_def)

lemma reads_only_bind [reads_rules]: "reads_only m \<Longrightarrow> (\<And>x. reads_only (k x)) \<Longrightarrow> reads_only (bindE m k)"
  unfolding reads_only_def bindE_def by (auto split: prod.splits sum.splits) (metis snd_conv)+

lemma reads_only_try [reads_rules]:
  "reads_only m \<Longrightarrow> (\<And>e. reads_only (h e)) \<Longrightarrow> (\<And>x. reads_only (k x)) \<Longrightarrow> reads_only (tryE m h k)"
  unfolding reads_only_def tryE_def by (auto split: prod.splits sum.splits) (metis snd_conv)+

lemma reads_only_if [reads_rules]: "(b \<Longrightarrow> reads_only m) \<Longrightarrow> (\<not> b \<Longrightarrow> reads_only n) \<Longrightarrow> reads_only (if b then m else n)"
  by simp

lemma reads_only_option [reads_rules]:
  "(x = None \<Longrightarrow> reads_only m) \<Longrightarrow> (\<And>y. x = Some y \<Longrightarrow> reads_only (f y)) \<Longrightarrow>
     reads_only (case x of None \<Rightarrow> m | Some y \<Rightarrow> f y)"
  by (simp split: option.split)

lemma reads_only_pair [reads_rules]: "(\<And>a b. reads_only (f a b)) \<Longrightarrow> reads_only (case p of (a, b) \<Rightarrow> f a b)"
  by (simp split: prod.split)

lemma on_read_mem: "w_mem (snd (on_read r w)) = w_mem w"
  using follows_effect [OF follows_on_read, of r w] by (simp add: readE_def)

lemma reads_only_read [reads_rules]: "reads_only (p_read r)"
  unfolding reads_only_def seen_def rows_def p_read_def on_world_def
  by (simp add: on_read_mem case_prod_beta)

lemma reads_only_lift [reads_rules]: "reads_only m \<Longrightarrow> reads_only (lift_p m)" "reads_only n \<Longrightarrow> reads_only (lift_b n)"
    "reads_only m' \<Longrightarrow> reads_only (lift_store m')"
  unfolding lift_p_def lift_b_def lift_store_def by (intro reads_rules; assumption)+

lemma platform_bstore_reads [reads_rules]:
  "reads_only (bs_get_organization platform_bstore i)" "reads_only (bs_get_settings platform_bstore)"
  "reads_only (bs_get_subscription platform_bstore i)" "reads_only (bs_list_plans platform_bstore)"
  "reads_only (bs_get_plan platform_bstore i)" "reads_only (bs_list_usage_by_org_since platform_bstore i t pg)"
  by (simp_all add: platform_bstore_def reads_only_read)

lemma gates_read [reads_rules]:
  "reads_only (default_plan platform_bstore)" "reads_only (plan_by_id platform_bstore i)"
  "reads_only (effective_spend_cap platform_bstore g)" "reads_only (grace_past_due platform_bstore)"
  "reads_only (subscription_and_plan platform_bstore g)"
  unfolding default_plan_def plan_by_id_def effective_spend_cap_def grace_past_due_def Let_def subscription_and_plan_def
  by (intro reads_rules)+

lemma ensure_active_reads [reads_rules]: "reads_only (ensure_active platform_bstore now g)"
proof -
  have cap: "reads_only (ensure_under_cap platform_bstore now g)"
    unfolding ensure_under_cap_def current_invoice_def by (intro reads_rules)
  then have "reads_only (case sub_status b of
      SubCanceled \<Rightarrow> failE (BPaymentRequired (SubscriptionStanding SubCanceled))
    | SubUnpaid \<Rightarrow> failE (BPaymentRequired (SubscriptionStanding SubUnpaid))
    | SubPastDue \<Rightarrow> bindE (grace_past_due platform_bstore) (\<lambda>gr.
        if \<not> gr then failE (BPaymentRequired (SubscriptionStanding SubPastDue)) else ensure_under_cap platform_bstore now g)
    | _ \<Rightarrow> ensure_under_cap platform_bstore now g)" for b
    by (cases "sub_status b") (auto intro!: reads_rules)
  then show ?thesis unfolding ensure_active_def using cap by (intro reads_rules)
qed

lemma plan_limits_reads [reads_rules]: "reads_only (plan_limits platform_bstore i)"
  unfolding plan_limits_def by (intro reads_rules)

lemma with_settings_reads [reads_rules]: "(\<And>x. reads_only (k x)) \<Longrightarrow> reads_only (with_settings k)"
  unfolding with_settings_def by (intro reads_rules)

lemma gate_parts_read [reads_rules]:
  "reads_only (ensure_active_p en g)" "reads_only (plan_limits_p g)" "reads_only (normalize_resources cpu m)"
  "reads_only (workload_count g)" "reads_only (slug_of_org g)" "reads_only (slug_of_project i)"
  "reads_only overcommit_factors" "reads_only (resolve_region x)" "reads_only (resolved_env pf i)"
  "reads_only (app_domains i)" "reads_only (scaling_for_app a)" "reads_only keda_max_replicas_ceiling"
  unfolding ensure_active_p_def plan_limits_p_def normalize_resources_def workload_count_def slug_of_org_def
    slug_of_project_def overcommit_factors_def resolve_region_def resolved_env_def app_domains_def scaling_for_app_def
    keda_max_replicas_ceiling_def Let_def
  by (intro reads_rules)+

lemma checks_read [reads_rules]:
  "reads_only (check_quota g cpu m n)" "reads_only (check_workload_size g cpu m)" "reads_only (quota_for_org g)"
  "reads_only (app_workload pf a o_s p_s)" "reads_only (gate_built_deploy en a)" "reads_only (regate en g cpu m)"
  unfolding check_quota_def check_workload_size_def quota_for_org_def app_workload_def gate_built_deploy_def regate_def Let_def
  by (intro reads_rules)+

lemma lookups_read [reads_rules]:
  "reads_only (owned_app g i)" "reads_only (owned_service g i)" "reads_only (owned_database pf g i)"
  "reads_only (owned_domain g i d)" "reads_only (template_by_key k)" "reads_only (all_releases i)"
  "reads_only (current_release i)"
  unfolding owned_app_def owned_service_def owned_database_def owned_domain_def template_by_key_def all_releases_def
    current_release_def
  by (intro reads_rules)+

lemma renderings_read [reads_rules]:
  "reads_only (db_workload pf d o_s p_s)" "reads_only (service_workload v o_s p_s)"
  "reads_only (domain_instructions_for pf a dd)" "reads_only (with_instructions pf a dd)"
  "reads_only (generated_host pf a)" "reads_only (ensure_database_runnable pf en g i)"
  unfolding db_workload_def service_workload_def with_instructions_def domain_instructions_for_def generated_host_def
    ensure_database_runnable_def Let_def
  by (intro reads_rules)+

text \<open>The calls that only read.\<close>

lemma listings_read:
  "reads_only (list_apps g)" "reads_only (list_apps_in_project g x)" "reads_only (list_builds g i pg)"
  "reads_only (get_build_p g i b)" "reads_only (list_releases g i pg)" "reads_only list_catalog"
  "reads_only (list_databases g)" "reads_only (get_database_detail pf g i)" "reads_only (list_services g)"
  "reads_only (list_env g i)" "reads_only (list_domains g i)"
  unfolding list_apps_def list_apps_in_project_def list_builds_def get_build_p_def list_releases_def list_catalog_def
    list_databases_def get_database_detail_def list_services_def list_env_def list_domains_def
  by (intro reads_rules)+

section \<open>Predicates of the rows, and of the cluster\<close>

lemma keeps_reads: "reads_only m \<Longrightarrow> keeps (\<lambda>p. I (seen p)) m"
  by (simp add: keeps_def reads_only_def)

definition on_rows :: "(mem \<Rightarrow> bool) \<Rightarrow> 'c pworld \<Rightarrow> bool" where
  "on_rows I p \<longleftrightarrow> I (rows p)"

definition on_side :: "('c \<Rightarrow> build_request list \<Rightarrow> bool) \<Rightarrow> 'c pworld \<Rightarrow> bool" where
  "on_side I p \<longleftrightarrow> I (pw_cluster p) (pw_builds p)"

named_theorems pkeeps \<open>predicates kept by parts of platform operations\<close>

lemmas [pkeeps] = keeps_ok keeps_fail keeps_bind keeps_try keeps_if keeps_option keeps_pair

lemma on_rows_reads: "reads_only m \<Longrightarrow> keeps (on_rows I) m"
  unfolding keeps_def reads_only_def on_rows_def seen_def by (metis prod.inject)

lemma on_side_reads: "reads_only m \<Longrightarrow> keeps (on_side I) m"
  unfolding keeps_def reads_only_def on_side_def seen_def by (metis prod.inject)

lemmas reading_parts = gate_parts_read checks_read lookups_read renderings_read reads_only_read

lemmas [pkeeps] = reading_parts [THEN on_rows_reads] reading_parts [THEN on_side_reads]

lemma on_rows_world: "keeps (\<lambda>w. I (w_mem w)) m \<Longrightarrow> keeps (on_rows I) (on_world m)"
  by (simp add: keeps_def on_rows_def on_world_def rows_def case_prod_beta)

lemma on_rows_write: "keeps I m \<Longrightarrow> keeps (on_rows I) (p_write m)"
  unfolding p_write_def by (intro on_rows_world keeps_on_store)

lemma on_rows_cluster [pkeeps]: "keeps (on_rows I) (on_cluster m)"
  by (simp add: keeps_def on_rows_def on_cluster_def rows_def case_prod_beta)

lemma on_side_world [pkeeps]: "keeps (on_side I) (on_world m)"
  by (simp add: keeps_def on_side_def on_world_def case_prod_beta)

lemma on_side_write [pkeeps]: "keeps (on_side I) (p_write m)"
  unfolding p_write_def by (rule on_side_world)

lemma on_side_cluster: "(\<And>b. keeps (\<lambda>c. I c b) m) \<Longrightarrow> keeps (on_side I) (on_cluster m)"
  by (simp add: keeps_def on_side_def on_cluster_def case_prod_beta)

lemma keeps_lift_p [pkeeps]: "keeps I m \<Longrightarrow> keeps I (lift_p m)"
  unfolding lift_p_def by (intro keeps_try) simp_all

lemma keeps_dropped [pkeeps]: "keeps I m \<Longrightarrow> keeps I (dropped m)"
  unfolding dropped_def by (intro keeps_try) simp_all

lemma on_rows_queue [pkeeps]: "keeps (on_rows I) (\<lambda>p. (Inr (), p\<lparr>pw_builds := f (pw_builds p)\<rparr>))"
  by (simp add: keeps_def on_rows_def rows_def)

lemma apply_app_rows [pkeeps]: "keeps (on_rows I) (apply_app be pf a o_s p_s)"
  unfolding apply_app_def by (intro pkeeps)

lemma deploy_built_rows [pkeeps]: "keeps (on_rows I) (deploy_built_app be pf a o_s p_s)"
  unfolding deploy_built_app_def by (intro pkeeps)

lemma log_release_side [pkeeps]: "keeps (on_side I) (log_release pf en k a o_s p_s note st)"
  unfolding log_release_def record_release_def by (intro pkeeps)

lemma persist_side [pkeeps]: "keeps (on_side I) (persist_app_spec a)"
  unfolding persist_app_spec_def Let_def by (intro pkeeps)

lemma write_effect: "rows (snd (p_write m p)) \<in> {rows p, snd (m (rows p))}"
  using follows_effect [OF follows_on_store, of m "pw_w p"]
  by (simp add: p_write_def on_world_def rows_def case_prod_beta)

lemma lift_p_state: "snd (lift_p m p) = snd (m p)"
  by (simp add: lift_p_def tryE_def failE_def okE_def split: prod.splits sum.splits)

text \<open>Snapshots write releases only.\<close>

lemma log_release_rows:
  assumes "\<And>r. keeps I (create_release r)" "\<And>r. keeps I (update_release r)"
  shows "keeps (on_rows I) (log_release pf en k a o_s p_s note st)"
proof -
  have supersede: "keeps (\<lambda>w. I (w_mem w)) (supersede_all rs st n)" for rs n
    by (induction rs arbitrary: n)
      (simp_all add: Let_def keeps_ok keeps_bind keeps_if quiet_lift keeps_on_store assms)
  have "keeps (\<lambda>w. I (w_mem w)) (record_attempts n mode en k a w note st)" for n mode w k
  proof (induction n arbitrary: k)
    case (Suc n)
    show ?case unfolding record_attempts.simps allocate_and_insert_release_def Let_def
      by (intro svc_keeps supersede keeps_on_store assms Suc)
  qed (simp add: keeps_fail)
  then show ?thesis unfolding log_release_def record_release_def by (intro pkeeps on_rows_world)
qed

end
