(* ===== verification/Platform_Isolation.thy ===== *)
theory Platform_Isolation
  imports Platform_Frames
begin

text \<open>
  Isolation of organizations on the platform: every call, as the handlers make them for a member
  of an organization, leaves the rows of the other organizations as they are, and answers "not
  found" for what belongs to them.
\<close>

section \<open>Calls\<close>

datatype platform_call =
    PCreateApp create_app_input | PDeploy string | PStop string | PRestart string | PDelete string
  | PRollback string int | PUpdate string update_app_input | PScale string scale_app_input
  | PCreateDatabase create_database_input | PDeployDatabase string | PStopDatabase string
  | PStartDatabase string | PRestartDatabase string | PDeleteDatabase string
  | PCreateService string create_service_input | PDeployService string | PStopService string
  | PRestartService string | PDeleteService string
  | PSetEnv string string string bool | PDeleteEnv string string
  | PAddDomain string string | PVerifyDomain string string | PDeleteDomain string string

definition no_result :: "('c, 'a) pop \<Rightarrow> ('c, unit) pop" where
  "no_result m = bindE m (\<lambda>_. okE ())"

fun run_platform :: "'c backend \<Rightarrow> pconf \<Rightarrow> penv \<Rightarrow> string \<Rightarrow> platform_call \<Rightarrow> ('c, unit) pop" where
  "run_platform be pf en g (PCreateApp input) = no_result (create_app_p be pf en g input)"
| "run_platform be pf en g (PDeploy i) = no_result (deploy be pf en g i)"
| "run_platform be pf en g (PStop i) = no_result (stop_app be g i)"
| "run_platform be pf en g (PRestart i) = no_result (restart_app be en g i)"
| "run_platform be pf en g (PDelete i) = delete_app_p be g i"
| "run_platform be pf en g (PRollback i n) = no_result (rollback_app be pf en g i n)"
| "run_platform be pf en g (PUpdate i input) = no_result (update_app_p be pf en g i input)"
| "run_platform be pf en g (PScale i input) = no_result (scale_app be pf en g i input)"
| "run_platform be pf en g (PCreateDatabase input) = no_result (create_database_p be pf en g input)"
| "run_platform be pf en g (PDeployDatabase i) = no_result (deploy_database be pf en g i)"
| "run_platform be pf en g (PStopDatabase i) = no_result (stop_database be pf en g i)"
| "run_platform be pf en g (PStartDatabase i) = no_result (start_database be pf en g i)"
| "run_platform be pf en g (PRestartDatabase i) = no_result (restart_database be pf en g i)"
| "run_platform be pf en g (PDeleteDatabase i) = delete_database_p be pf g i"
| "run_platform be pf en g (PCreateService proj input) = no_result (create_service_p be en g proj input)"
| "run_platform be pf en g (PDeployService i) = no_result (deploy_service be en g i)"
| "run_platform be pf en g (PStopService i) = no_result (stop_service be g i)"
| "run_platform be pf en g (PRestartService i) = no_result (restart_service be en g i)"
| "run_platform be pf en g (PDeleteService i) = delete_service_p be g i"
| "run_platform be pf en g (PSetEnv i k v secret) = no_result (set_env pf en g i k v secret)"
| "run_platform be pf en g (PDeleteEnv i k) = delete_env g i k"
| "run_platform be pf en g (PAddDomain i fqdn) = no_result (add_domain pf en g i fqdn)"
| "run_platform be pf en g (PVerifyDomain i dd) = no_result (verify_domain be pf en g i dd)"
| "run_platform be pf en g (PDeleteDomain i dd) = delete_domain_p be pf g i dd"

lemmas platform_ops = create_app_p_def deploy_def app_action_def stop_app_def restart_app_def delete_app_p_def
  rollback_app_def update_app_p_def scale_app_def reapply_def create_database_p_def deploy_database_def
  database_action_def stop_database_def start_database_def restart_database_def delete_database_p_def
  create_service_p_def deploy_service_def service_action_def stop_service_def restart_service_def
  delete_service_p_def set_env_def delete_env_def add_domain_def verify_domain_def attach_verified_domain_def
  delete_domain_p_def no_result_def

lemmas platform_parts = store_encrypted_def start_build_def

section \<open>The rows of the other organizations\<close>

definition others :: "('v \<Rightarrow> bool) \<Rightarrow> (string, 'v) gomap \<Rightarrow> string \<Rightarrow> 'v option" where
  "others own t i = (case gget t i of None \<Rightarrow> None | Some x \<Rightarrow> if own x then None else Some x)"

definition foreign_app :: "string \<Rightarrow> mem \<Rightarrow> string \<Rightarrow> app option" where
  "foreign_app g s = others (\<lambda>a. app_org_id a = g) (st_apps s)"

text \<open>Builds, releases and environment belong to the organization of their app.\<close>

record foreign_rows =
  fr_apps :: "string \<Rightarrow> app option"
  fr_databases :: "string \<Rightarrow> database option"
  fr_services :: "string \<Rightarrow> service option"
  fr_domains :: "string \<Rightarrow> domain option"
  fr_builds :: "string \<Rightarrow> build option"
  fr_releases :: "string \<Rightarrow> release option"
  fr_env :: "string \<Rightarrow> (string, env_entry) gomap"

definition foreign :: "string \<Rightarrow> mem \<Rightarrow> foreign_rows" where
  "foreign g s =
     \<lparr>fr_apps = foreign_app g s, fr_databases = others (\<lambda>d. db_org_id d = g) (st_databases s),
      fr_services = others (\<lambda>v. svc_org_id v = g) (st_services s),
      fr_domains = others (\<lambda>d. dom_org_id d = g) (st_domains s),
      fr_builds = others (\<lambda>b. foreign_app g s (bld_app_id b) = None) (st_builds s),
      fr_releases = others (\<lambda>r. foreign_app g s (rel_app_id r) = None) (st_releases s),
      fr_env = (\<lambda>i. if foreign_app g s i = None then [] else app_env_of i s)\<rparr>"

definition isolated :: "string \<Rightarrow> foreign_rows \<Rightarrow> mem \<Rightarrow> bool" where
  "isolated g X s \<longleftrightarrow> workloads_wf s \<and> foreign g s = X"

lemma others_put: "own x \<Longrightarrow> others own t k = None \<Longrightarrow> others own (gput k x t) = others own t"
  by (auto simp: others_def fun_eq_iff split: option.splits)

lemma others_del: "others own t k = None \<Longrightarrow> others own (gdel k t) = others own t"
  by (auto simp: others_def fun_eq_iff split: option.splits)

lemma others_fresh: "gget t k = None \<Longrightarrow> others own t k = None"
  by (simp add: others_def)

lemma foreign_app_other:
  "st_apps t = st_apps s \<Longrightarrow> foreign_app g t = foreign_app g s"
  by (simp add: foreign_app_def)

lemmas foreign_defs = foreign_def foreign_app_def app_env_of_def

text \<open>What a write that succeeds or fails leaves of the foreign rows.\<close>

lemma keeps_tbl:
  assumes "\<And>s t. isolated g X s \<Longrightarrow> r s = Inr t \<Longrightarrow> foreign g (upd t s) = foreign g s"
    and "keeps workloads_wf (\<lambda>s. on_tbl upd (r s) s)"
  shows "keeps (isolated g X) (\<lambda>s. on_tbl upd (r s) s)"
  using assms unfolding keeps_def isolated_def on_tbl_def by (auto split: sum.splits)

lemma tbl_update_Inr: "tbl_update key x t = Inr u \<Longrightarrow> u = gput (key x) x t"
  by (auto simp: tbl_update_def split: option.splits)

lemma tbl_create_Inr: "tbl_create key x t = Inr u \<Longrightarrow> u = gput (key x) x t \<and> gget t (key x) = None"
  by (auto simp: tbl_create_def split: option.splits)

lemma tbl_delete_Inr: "tbl_delete k t = Inr u \<Longrightarrow> u = gdel k t"
  by (auto simp: tbl_delete_def split: option.splits)

lemmas tbl_Inr = tbl_update_Inr tbl_create_Inr tbl_delete_Inr

lemma isolated_app_writes:
  "app_org_id a = g \<Longrightarrow> fr_apps X (app_id a) = None \<Longrightarrow> keeps (isolated g X) (update_app a)"
  "app_org_id a = g \<Longrightarrow> keeps (isolated g X) (create_app a)"
  "fr_apps X i = None \<Longrightarrow> keeps (isolated g X) (delete_app i)"
proof -
  have put: "foreign g (s\<lparr>st_apps := t\<rparr>) = foreign g s"
    if "others (\<lambda>a. app_org_id a = g) t = others (\<lambda>a. app_org_id a = g) (st_apps s)" for s t
    using that by (simp add: foreign_defs cong: if_cong)
  have app: "others (\<lambda>a. app_org_id a = h) (st_apps s) = fr_apps X" if "isolated h X s" for s h
    using that by (auto simp: isolated_def foreign_defs)
  show "keeps (isolated g X) (update_app a)" if "app_org_id a = g" "fr_apps X (app_id a) = None"
    using workloads_keeps_app(2) [of a] that unfolding update_app_def
    by (intro keeps_tbl put) (auto dest!: tbl_Inr simp: others_put app)
  show "keeps (isolated g X) (create_app a)" if "app_org_id a = g"
    using workloads_keeps_app(1) [of a] that unfolding create_app_def
    by (intro keeps_tbl put) (auto dest!: tbl_Inr simp: others_put others_fresh)
  show "keeps (isolated g X) (delete_app i)" if "fr_apps X i = None"
    using workloads_keeps_app(3) [of i] that unfolding delete_app_def
    by (intro keeps_tbl put) (auto dest!: tbl_Inr simp: others_del app)
qed

lemma isolated_database_writes:
  "db_org_id d = g \<Longrightarrow> fr_databases X (db_id d) = None \<Longrightarrow> keeps (isolated g X) (update_database d)"
  "db_org_id d = g \<Longrightarrow> keeps (isolated g X) (create_database d)"
  "fr_databases X i = None \<Longrightarrow> keeps (isolated g X) (delete_database i)"
proof -
  have put: "foreign g (s\<lparr>st_databases := t\<rparr>) = foreign g s"
    if "others (\<lambda>a. db_org_id a = g) t = others (\<lambda>a. db_org_id a = g) (st_databases s)" for s t
    using that by (simp add: foreign_defs cong: if_cong)
  have old: "others (\<lambda>a. db_org_id a = h) (st_databases s) = fr_databases X" if "isolated h X s" for s h
    using that by (auto simp: isolated_def foreign_defs)
  show "keeps (isolated g X) (update_database d)" if "db_org_id d = g" "fr_databases X (db_id d) = None"
    using workloads_keeps_database(2) [of d] that unfolding update_database_def
    by (intro keeps_tbl put) (auto dest!: tbl_Inr simp: others_put old)
  show "keeps (isolated g X) (create_database d)" if "db_org_id d = g"
    using workloads_keeps_database(1) [of d] that unfolding create_database_def
    by (intro keeps_tbl put) (auto dest!: tbl_Inr simp: others_put others_fresh)
  show "keeps (isolated g X) (delete_database i)" if "fr_databases X i = None"
    using workloads_keeps_database(3) [of i] that unfolding delete_database_def
    by (intro keeps_tbl put) (auto dest!: tbl_Inr simp: others_del old)
qed

lemma isolated_service_writes:
  "svc_org_id v = g \<Longrightarrow> fr_services X (svc_id v) = None \<Longrightarrow> keeps (isolated g X) (update_service v)"
  "svc_org_id v = g \<Longrightarrow> keeps (isolated g X) (create_service v)"
  "fr_services X i = None \<Longrightarrow> keeps (isolated g X) (delete_service i)"
proof -
  have put: "foreign g (s\<lparr>st_services := t\<rparr>) = foreign g s"
    if "others (\<lambda>a. svc_org_id a = g) t = others (\<lambda>a. svc_org_id a = g) (st_services s)" for s t
    using that by (simp add: foreign_defs cong: if_cong)
  have old: "others (\<lambda>a. svc_org_id a = h) (st_services s) = fr_services X" if "isolated h X s" for s h
    using that by (auto simp: isolated_def foreign_defs)
  show "keeps (isolated g X) (update_service v)" if "svc_org_id v = g" "fr_services X (svc_id v) = None"
    using workloads_keeps_service(2) [of v] that unfolding update_service_def
    by (intro keeps_tbl put) (auto dest!: tbl_Inr simp: others_put old)
  show "keeps (isolated g X) (create_service v)" if "svc_org_id v = g"
    using workloads_keeps_service(1) [of v] that unfolding create_service_def
    by (intro keeps_tbl put) (auto dest!: tbl_Inr simp: others_put others_fresh)
  show "keeps (isolated g X) (delete_service i)" if "fr_services X i = None"
    using workloads_keeps_service(3) [of i] that unfolding delete_service_def
    by (intro keeps_tbl put) (auto dest!: tbl_Inr simp: others_del old)
qed

lemma isolated_domain_writes:
  "dom_org_id d = g \<Longrightarrow> fr_domains X (dom_id d) = None \<Longrightarrow> keeps (isolated g X) (update_domain d)"
  "dom_org_id d = g \<Longrightarrow> keeps (isolated g X) (create_domain d)"
  "fr_domains X i = None \<Longrightarrow> keeps (isolated g X) (delete_domain i)"
proof -
  have put: "foreign g (s\<lparr>st_domains := t\<rparr>) = foreign g s"
    if "others (\<lambda>a. dom_org_id a = g) t = others (\<lambda>a. dom_org_id a = g) (st_domains s)" for s t
    using that by (simp add: foreign_defs cong: if_cong)
  have old: "others (\<lambda>a. dom_org_id a = h) (st_domains s) = fr_domains X" if "isolated h X s" for s h
    using that by (auto simp: isolated_def foreign_defs)
  show "keeps (isolated g X) (update_domain d)" if "dom_org_id d = g" "fr_domains X (dom_id d) = None"
    using workloads_keeps_domain(2) [of d] that unfolding update_domain_def
    by (intro keeps_tbl put) (auto dest!: tbl_Inr simp: others_put old)
  show "keeps (isolated g X) (create_domain d)" if "dom_org_id d = g"
    using workloads_keeps_domain(1) [of d] that unfolding create_domain_def
    by (intro keeps_tbl put) (auto dest!: tbl_Inr simp: others_put others_fresh)
  show "keeps (isolated g X) (delete_domain i)" if "fr_domains X i = None"
    using workloads_keeps_domain(3) [of i] that unfolding delete_domain_def
    by (intro keeps_tbl put) (auto dest!: tbl_Inr simp: others_del old)
qed

lemma isolated_build_writes:
  "fr_apps X (bld_app_id b) = None \<Longrightarrow> keeps (isolated g X) (create_build b)"
proof -
  assume b: "fr_apps X (bld_app_id b) = None"
  have "foreign g (s\<lparr>st_builds := t\<rparr>) = foreign g s"
    if "isolated g X s" "tbl_create bld_id b (st_builds s) = Inr t" for s t
  proof -
    have "foreign_app g s (bld_app_id b) = None" using that(1) b by (auto simp: isolated_def foreign_def)
    then show ?thesis using tbl_create_Inr [OF that(2)]
      by (auto simp: foreign_def foreign_app_def app_env_of_def others_put others_fresh cong: if_cong)
  qed
  then show ?thesis using workloads_keeps_build(1) [of b] unfolding create_build_def by (intro keeps_tbl) auto
qed

lemma isolated_release_put:
  assumes "isolated g X s" "fr_apps X (rel_app_id r) = None" "fr_releases X (rel_id r) = None"
  shows "foreign g (s\<lparr>st_releases := gput (rel_id r) r (st_releases s)\<rparr>) = foreign g s"
proof -
  have "foreign_app g s (rel_app_id r) = None" using assms(1,2) by (auto simp: isolated_def foreign_def)
  moreover have "others (\<lambda>r. foreign_app g s (rel_app_id r) = None) (st_releases s) (rel_id r) = None"
    using assms(1,3) by (auto simp: isolated_def foreign_def)
  ultimately show ?thesis by (auto simp: foreign_def foreign_app_def app_env_of_def others_put cong: if_cong)
qed

lemma isolated_release_writes:
  "fr_apps X (rel_app_id r) = None \<Longrightarrow> keeps (isolated g X) (create_release r)"
  "fr_apps X (rel_app_id r) = None \<Longrightarrow> fr_releases X (rel_id r) = None \<Longrightarrow> keeps (isolated g X) (update_release r)"
proof -
  show "keeps (isolated g X) (create_release r)" if r: "fr_apps X (rel_app_id r) = None"
    unfolding keeps_def
  proof (intro allI impI)
    fix s
    assume s: "isolated g X s"
    have wf: "workloads_wf (snd (create_release r s))"
      using s workloads_keeps_release(1) by (auto simp: keeps_def isolated_def)
    have "fr_releases X (rel_id r) = None" if "gget (st_releases s) (rel_id r) = None"
      using s that by (auto simp: isolated_def foreign_def others_fresh)
    then have "foreign g (snd (create_release r s)) = foreign g s"
      using isolated_release_put [OF s r] by (auto simp: create_release_def)
    then show "isolated g X (snd (create_release r s))" using s wf by (simp add: isolated_def)
  qed
  show "keeps (isolated g X) (update_release r)"
    if "fr_apps X (rel_app_id r) = None" "fr_releases X (rel_id r) = None"
    using workloads_keeps_release(2) [of r] isolated_release_put that unfolding update_release_def
    by (intro keeps_tbl) (auto dest!: tbl_Inr)
qed

lemma isolated_env_writes:
  "fr_apps X i = None \<Longrightarrow> keeps (isolated g X) (set_app_env i k v b)"
  "fr_apps X i = None \<Longrightarrow> keeps (isolated g X) (delete_app_env i k)"
proof -
  have put: "foreign g (s\<lparr>st_app_env := gput i m (st_app_env s)\<rparr>) = foreign g s"
    if "isolated g X s" "fr_apps X i = None" for s m
    using that by (auto simp: isolated_def foreign_defs fun_eq_iff)
  show "keeps (isolated g X) (set_app_env i k v b)" if "fr_apps X i = None"
    using put that workloads_keeps_env(1) [of i k v b]
    by (auto simp: keeps_def isolated_def set_app_env_def)
  show "keeps (isolated g X) (delete_app_env i k)" if "fr_apps X i = None"
    using put that workloads_keeps_env(2) [of i k]
    by (auto simp: keeps_def isolated_def delete_app_env_def split: option.splits)
qed

section \<open>Calls keep them\<close>

text \<open>A part that keeps an invariant, and what it returns under it.\<close>

definition yields :: "('s \<Rightarrow> bool) \<Rightarrow> ('e, 's, 'a) op \<Rightarrow> ('a \<Rightarrow> bool) \<Rightarrow> bool" where
  "yields I m Q \<longleftrightarrow> keeps I m \<and> (\<forall>s x t. I s \<longrightarrow> m s = (Inr x, t) \<longrightarrow> Q x)"

lemma yieldsI: "keeps I m \<Longrightarrow> (\<And>s x t. I s \<Longrightarrow> m s = (Inr x, t) \<Longrightarrow> Q x) \<Longrightarrow> yields I m Q"
  by (simp add: yields_def)

lemma bind_yields: "yields I m Q \<Longrightarrow> (\<And>x. Q x \<Longrightarrow> keeps I (k x)) \<Longrightarrow> keeps I (bindE m k)"
  unfolding keeps_def yields_def bindE_def by (auto split: prod.splits sum.splits)

lemma yields_keeps: "yields I m Q \<Longrightarrow> keeps I m"
  by (simp add: yields_def)

lemma read_row: "p_read r p = (Inr x, q) \<Longrightarrow> r (rows p) = Inr x"
  unfolding p_read_def on_world_def rows_def by (auto simp: Let_def split: prod.splits dest: read_ok)

lemma owned_app_yields:
  "yields (on_rows (isolated g X)) (owned_app g i) (\<lambda>a. app_org_id a = g \<and> app_id a = i \<and> fr_apps X i = None)"
proof (rule yieldsI)
  show "keeps (on_rows (isolated g X)) (owned_app g i)" by (intro pkeeps)
  fix p a q
  assume p: "on_rows (isolated g X) p" and "owned_app g i p = (Inr a, q)"
  then have "app_org_id a = g" "get_app i (rows p) = Inr a"
    by (auto simp: owned_app_def failE_def okE_def elim!: tryE_E split: if_splits dest: read_row)
  then show "app_org_id a = g \<and> app_id a = i \<and> fr_apps X i = None"
    using p by (auto simp: on_rows_def isolated_def workloads_wf_def keyed_def get_app_def tbl_get_def foreign_def
        foreign_app_def others_def split: option.splits)
qed

lemma owned_row_yields:
  "yields (on_rows (isolated g X)) (owned_database pf g i)
     (\<lambda>d. db_org_id d = g \<and> db_id d = i \<and> fr_databases X i = None)"
  "yields (on_rows (isolated g X)) (owned_service g i)
     (\<lambda>v. svc_org_id v = g \<and> svc_id v = i \<and> fr_services X i = None)"
  "yields (on_rows (isolated g X)) (owned_domain g j i)
     (\<lambda>d. dom_org_id d = g \<and> dom_id d = i \<and> fr_domains X i = None)"
proof -
  have dec: "db_org_id e = db_org_id d \<and> db_id e = db_id d" if "decrypt_db_password pf d = Some e" for d e
    using that by (auto simp: decrypt_db_password_def split: if_splits option.splits)
  show "yields (on_rows (isolated g X)) (owned_database pf g i)
     (\<lambda>d. db_org_id d = g \<and> db_id d = i \<and> fr_databases X i = None)"
  proof (rule yieldsI)
    show "keeps (on_rows (isolated g X)) (owned_database pf g i)" by (intro pkeeps)
    fix p e q
    assume p: "on_rows (isolated g X) p" and "owned_database pf g i p = (Inr e, q)"
    then obtain d where "db_org_id d = g" "get_database i (rows p) = Inr d" "decrypt_db_password pf d = Some e"
      by (auto simp: owned_database_def failE_def okE_def elim!: tryE_E split: if_splits option.splits dest: read_row)
    then show "db_org_id e = g \<and> db_id e = i \<and> fr_databases X i = None"
      using p dec by (auto simp: on_rows_def isolated_def workloads_wf_def keyed_def get_database_def tbl_get_def foreign_def
          others_def split: option.splits)
  qed
  show "yields (on_rows (isolated g X)) (owned_service g i)
     (\<lambda>v. svc_org_id v = g \<and> svc_id v = i \<and> fr_services X i = None)"
  proof (rule yieldsI)
    show "keeps (on_rows (isolated g X)) (owned_service g i)" by (intro pkeeps)
    fix p v q
    assume p: "on_rows (isolated g X) p" and "owned_service g i p = (Inr v, q)"
    then have "svc_org_id v = g" "get_service i (rows p) = Inr v"
      by (auto simp: owned_service_def failE_def okE_def elim!: tryE_E split: if_splits dest: read_row)
    then show "svc_org_id v = g \<and> svc_id v = i \<and> fr_services X i = None"
      using p by (auto simp: on_rows_def isolated_def workloads_wf_def keyed_def get_service_def tbl_get_def foreign_def
          others_def split: option.splits)
  qed
  show "yields (on_rows (isolated g X)) (owned_domain g j i)
     (\<lambda>d. dom_org_id d = g \<and> dom_id d = i \<and> fr_domains X i = None)"
  proof (rule yieldsI)
    show "keeps (on_rows (isolated g X)) (owned_domain g j i)" by (intro pkeeps)
    fix p v q
    assume p: "on_rows (isolated g X) p" and "owned_domain g j i p = (Inr v, q)"
    then have "dom_org_id v = g" "get_domain i (rows p) = Inr v"
      by (auto simp: owned_domain_def failE_def okE_def elim!: tryE_E split: if_splits dest: read_row)
    then show "dom_org_id v = g \<and> dom_id v = i \<and> fr_domains X i = None"
      using p by (auto simp: on_rows_def isolated_def workloads_wf_def keyed_def get_domain_def tbl_get_def foreign_def
          others_def split: option.splits)
  qed
qed

lemma persist_yields:
  assumes "fr_apps X (app_id a) = None"
  shows "yields (on_rows (isolated g X)) (persist_app_spec a)
     (\<lambda>b. app_org_id b = g \<and> app_id b = app_id a \<and> fr_apps X (app_id b) = None)"
proof -
  have row: "app_org_id x = g \<and> app_id x = app_id a"
    if "on_rows (isolated g X) p" "lift_p (p_read (get_app (app_id a))) p = (Inr x, q)" for p x q
  proof -
    from that(2) have "get_app (app_id a) (rows p) = Inr x"
      by (auto simp: lift_p_def failE_def okE_def elim!: tryE_E dest: read_row)
    then show ?thesis
      using that(1) assms by (auto simp: on_rows_def isolated_def workloads_wf_def keyed_def get_app_def tbl_get_def
          foreign_def foreign_app_def others_def split: option.splits if_splits)
  qed
  have y: "yields (on_rows (isolated g X)) (lift_p (p_read (get_app (app_id a)))) (\<lambda>x. app_org_id x = g \<and> app_id x = app_id a)"
    by (rule yieldsI, intro pkeeps, erule (1) row)
  show ?thesis
  proof (rule yieldsI)
    show "keeps (on_rows (isolated g X)) (persist_app_spec a)"
      unfolding persist_app_spec_def Let_def
      by (rule bind_yields [OF y], intro keeps_bind keeps_lift_p on_rows_write isolated_app_writes keeps_ok)
        (simp_all add: spec_onto_def assms)
    fix p b q
    assume p: "on_rows (isolated g X) p" and "persist_app_spec a p = (Inr b, q)"
    then obtain x u where "lift_p (p_read (get_app (app_id a))) p = (Inr x, u)" "b = spec_onto a x"
      by (auto simp: persist_app_spec_def okE_def Let_def elim!: bindE_InrE)
    then show "app_org_id b = g \<and> app_id b = app_id a \<and> fr_apps X (app_id b) = None"
      using row [OF p, of x u] assms by (simp add: spec_onto_def)
  qed
qed

text \<open>Snapshots touch the history of their app only.\<close>

lemma supersede_isolated:
  "\<forall>r \<in> set rs. fr_apps X (rel_app_id r) = None \<and> fr_releases X (rel_id r) = None \<Longrightarrow>
     keeps (\<lambda>w. isolated g X (w_mem w)) (supersede_all rs st n)"
proof (induction rs arbitrary: n)
  case (Cons r rs)
  then have "keeps (\<lambda>w. isolated g X (w_mem w)) (lift_s (on_store (update_release (r\<lparr>rel_status := st\<rparr>))))"
    by (intro quiet_lift keeps_on_store isolated_release_writes) simp_all
  moreover have "keeps (\<lambda>w. isolated g X (w_mem w)) (supersede_all rs st m)" for m using Cons by simp
  ultimately show ?case by (simp add: Let_def keeps_bind)
qed simp

lemma allocate_isolated:
  assumes "fr_apps X (app_id a) = None"
  shows "keeps (\<lambda>w. isolated g X (w_mem w)) (allocate_and_insert_release en k a w note st)"
proof -
  let ?pg = "\<lparr>page_limit = 0, page_offset = 0\<rparr>"
  have y: "yields (\<lambda>w. isolated g X (w_mem w)) (lift_s (on_read (list_releases_by_app (app_id a) ?pg)))
      (\<lambda>rs. \<forall>r \<in> set rs. fr_apps X (rel_app_id r) = None \<and> fr_releases X (rel_id r) = None)"
  proof (rule yieldsI)
    show "keeps (\<lambda>w. isolated g X (w_mem w)) (lift_s (on_read (list_releases_by_app (app_id a) ?pg)))"
      by (intro svc_keeps)
    fix w rs t
    assume w: "isolated g X (w_mem w)" and "lift_s (on_read (list_releases_by_app (app_id a) ?pg)) w = (Inr rs, t)"
    then have "list_releases_by_app (app_id a) ?pg (w_mem w) = Inr rs"
      by (auto simp: lift_s_def failE_def okE_def elim!: tryE_E dest: read_ok)
    then have "mset rs = mset (filter (\<lambda>r. rel_app_id r = app_id a) (gvals (st_releases (w_mem w))))"
      by (rule list_releases_whole) simp
    then have rs: "set rs = {r \<in> set (gvals (st_releases (w_mem w))). rel_app_id r = app_id a}"
      by (metis mset_eq_setD set_filter)
    show "\<forall>r \<in> set rs. fr_apps X (rel_app_id r) = None \<and> fr_releases X (rel_id r) = None"
    proof
      fix r
      assume "r \<in> set rs"
      then have r: "r \<in> set (gvals (st_releases (w_mem w)))" "rel_app_id r = app_id a" by (auto simp: rs)
      then have "gget (st_releases (w_mem w)) (rel_id r) = Some r"
        using w by (auto simp: isolated_def workloads_wf_def keyed_def gm.vals_get)
      then show "fr_apps X (rel_app_id r) = None \<and> fr_releases X (rel_id r) = None"
        using w r(2) assms by (auto simp: isolated_def foreign_def others_def)
    qed
  qed
  show ?thesis unfolding allocate_and_insert_release_def new_release_def Let_def
    by (rule bind_yields [OF y])
      (intro svc_keeps supersede_isolated keeps_on_store isolated_release_writes; simp add: assms)
qed

lemma record_attempts_isolated:
  "fr_apps X (app_id a) = None \<Longrightarrow> keeps (\<lambda>w. isolated g X (w_mem w)) (record_attempts n mode en k a w note st)"
proof (induction n arbitrary: k)
  case (Suc n)
  then show ?case unfolding record_attempts.simps
    by (intro keeps_try keeps_in_tx allocate_isolated keeps_if keeps_fail keeps_ok) simp_all
qed simp

lemma log_release_isolated:
  "fr_apps X (app_id a) = None \<Longrightarrow> keeps (on_rows (isolated g X)) (log_release pf en k a o_s p_s note st)"
  unfolding log_release_def record_release_def
  by (intro pkeeps on_rows_world record_attempts_isolated)

text \<open>Every call, one after the other.\<close>

lemmas isolated_writes = isolated_app_writes isolated_database_writes isolated_service_writes isolated_domain_writes
  isolated_build_writes isolated_env_writes log_release_isolated

lemma reapply_isolated:
  assumes "fr_apps X (app_id a) = None" "\<And>b. app_id (mark b) = app_id b"
  shows "keeps (on_rows (isolated g X)) (reapply be pf en h a mark note st)"
proof -
  have "fr_apps X (app_id (mark (placed r a))) = None" for r using assms by (simp add: placed_def)
  note persist = persist_yields [OF this]
  show ?thesis unfolding reapply_def
    by (rule keeps_bind, intro pkeeps, rule keeps_bind, intro pkeeps, rule keeps_bind, intro pkeeps,
        rule bind_yields [OF persist]) (intro pkeeps log_release_isolated, blast)
qed

lemma write_row: "p_write m p = (Inr x, q) \<Longrightarrow> m (rows p) = (Inr x, rows q)"
  unfolding p_write_def on_world_def rows_def by (auto simp: Let_def split: prod.splits dest: store_ok)

lemma create_app_yields:
  assumes "app_org_id a = g"
  shows "yields (on_rows (isolated g X)) (lift_p (p_write (create_app a))) (\<lambda>_. fr_apps X (app_id a) = None)"
proof (rule yieldsI)
  show "keeps (on_rows (isolated g X)) (lift_p (p_write (create_app a)))"
    using assms by (intro pkeeps on_rows_write isolated_app_writes)
  fix p x q
  assume p: "on_rows (isolated g X) p" and "lift_p (p_write (create_app a)) p = (Inr x, q)"
  then have "create_app a (rows p) = (Inr x, rows q)"
    by (auto simp: lift_p_def failE_def okE_def elim!: tryE_E dest: write_row)
  then have "gget (st_apps (rows p)) (app_id a) = None"
    by (auto simp: create_app_def on_tbl_def tbl_create_def split: option.splits)
  then show "fr_apps X (app_id a) = None"
    using p by (auto simp: on_rows_def isolated_def foreign_def foreign_app_def others_fresh)
qed

lemma start_build_isolated:
  "fr_apps X (app_id a) = None \<Longrightarrow> keeps (on_rows (isolated g X)) (start_build pf en k a o_s p_s)"
  unfolding start_build_def Let_def by (intro pkeeps on_rows_write isolated_build_writes) simp

lemma app_calls_isolated:
  "keeps (on_rows (isolated g X)) (create_app_p be pf en g input)"
  "keeps (on_rows (isolated g X)) (deploy be pf en g i)"
  "keeps (on_rows (isolated g X)) (app_action g i st f)"
  "keeps (on_rows (isolated g X)) (delete_app_p be g i)"
proof -
  show "keeps (on_rows (isolated g X)) (deploy be pf en g i)"
    unfolding deploy_def Let_def
    by (rule bind_yields [OF owned_app_yields])
      (intro pkeeps on_rows_write isolated_writes start_build_isolated; simp add: placed_def)
  show "keeps (on_rows (isolated g X)) (app_action g i st f)"
    unfolding app_action_def Let_def
    by (rule bind_yields [OF owned_app_yields]) (intro pkeeps on_rows_write isolated_writes; simp)
  show "keeps (on_rows (isolated g X)) (delete_app_p be g i)"
    unfolding delete_app_p_def
    by (rule bind_yields [OF owned_app_yields]) (intro pkeeps on_rows_write isolated_writes; simp)
  show "keeps (on_rows (isolated g X)) (create_app_p be pf en g input)"
  proof -
    have "keeps (on_rows (isolated g X)) (bindE (lift_p (p_write (create_app b))) k)"
      if "app_org_id b = g" "fr_apps X (app_id b) = None \<Longrightarrow> keeps (on_rows (isolated g X)) (k ())" for b k
      using that by (intro bind_yields [OF create_app_yields]) simp_all
    note create = this
    show ?thesis unfolding create_app_p_def Let_def
      by (rule keeps_bind, intro pkeeps)+
        (intro pkeeps create log_release_isolated start_build_isolated; simp add: placed_def new_app_def)
  qed
qed

lemma deploying_id [simp]: "app_id (deploying b) = app_id b"
  by (simp add: deploying_def)

lemma edited_id [simp]: "app_id (edited input a) = app_id a"
  by (simp add: edited_def)

lemma release_calls_isolated:
  "keeps (on_rows (isolated g X)) (rollback_app be pf en g i n)"
  "keeps (on_rows (isolated g X)) (update_app_p be pf en g i u)"
  "keeps (on_rows (isolated g X)) (scale_app be pf en g i sc)"
proof -
  have persist: "keeps (on_rows (isolated g X)) (bindE (persist_app_spec a) k)"
    if "fr_apps X (app_id a) = None" "\<And>b. fr_apps X (app_id b) = None \<Longrightarrow> keeps (on_rows (isolated g X)) (k b)" for a k
    using that by (intro bind_yields [OF persist_yields]) simp_all
  have last: "keeps (on_rows (isolated g X)) (persist_app_spec a)" if "fr_apps X (app_id a) = None" for a
    using that by (rule persist_yields [THEN yields_keeps])
  show "keeps (on_rows (isolated g X)) (rollback_app be pf en g i n)"
    unfolding rollback_app_def Let_def
    by (rule bind_yields [OF owned_app_yields]) (intro pkeeps last reapply_isolated; simp)
  show "keeps (on_rows (isolated g X)) (update_app_p be pf en g i u)"
    unfolding update_app_p_def Let_def
    by (rule bind_yields [OF owned_app_yields], rule keeps_bind, intro pkeeps, rule keeps_bind, intro pkeeps,
        rule keeps_pair, rule keeps_bind, intro pkeeps, rule persist)
      (simp, intro pkeeps reapply_isolated, simp_all)
  show "keeps (on_rows (isolated g X)) (scale_app be pf en g i sc)"
    unfolding scale_app_def Let_def
    by (rule bind_yields [OF owned_app_yields], rule keeps_if, intro pkeeps, rule keeps_bind, intro pkeeps,
        rule keeps_if, intro pkeeps, rule persist)
      (simp, intro pkeeps reapply_isolated, simp_all)
qed

lemma encrypted_ids: "encrypted_for_store pf en d = Some e \<Longrightarrow> db_org_id e = db_org_id d \<and> db_id e = db_id d"
  by (auto simp: encrypted_for_store_def split: if_splits)

lemma store_encrypted_isolated:
  assumes "db_org_id d = g" "\<And>e. db_org_id e = g \<Longrightarrow> db_id e = db_id d \<Longrightarrow> keeps (isolated g X) (put e)"
  shows "keeps (on_rows (isolated g X)) (store_encrypted pf en put d)"
  unfolding store_encrypted_def using assms encrypted_ids
  by (intro pkeeps on_rows_write) auto

lemma database_calls_isolated:
  "keeps (on_rows (isolated g X)) (create_database_p be pf en g dinput)"
  "keeps (on_rows (isolated g X)) (deploy_database be pf en g i)"
  "keeps (on_rows (isolated g X)) (database_action pf en g i st f)"
  "keeps (on_rows (isolated g X)) (delete_database_p be pf g i)"
proof -
  show "keeps (on_rows (isolated g X)) (create_database_p be pf en g dinput)"
    unfolding create_database_p_def Let_def
    by (intro pkeeps store_encrypted_isolated isolated_writes; simp)
  show "keeps (on_rows (isolated g X)) (deploy_database be pf en g i)"
    unfolding deploy_database_def Let_def
    by (rule bind_yields [OF owned_row_yields(1)]) (intro pkeeps store_encrypted_isolated isolated_writes; simp)
  show "keeps (on_rows (isolated g X)) (database_action pf en g i st f)"
    unfolding database_action_def Let_def
    by (rule bind_yields [OF owned_row_yields(1)]) (intro pkeeps store_encrypted_isolated isolated_writes; simp)
  show "keeps (on_rows (isolated g X)) (delete_database_p be pf g i)"
    unfolding delete_database_p_def
    by (rule bind_yields [OF owned_row_yields(1)]) (intro pkeeps on_rows_write isolated_writes; simp)
qed

lemma service_calls_isolated:
  "keeps (on_rows (isolated g X)) (create_service_p be en g proj sinput)"
  "keeps (on_rows (isolated g X)) (deploy_service be en g i)"
  "keeps (on_rows (isolated g X)) (service_action g i st f)"
  "keeps (on_rows (isolated g X)) (delete_service_p be g i)"
proof -
  show "keeps (on_rows (isolated g X)) (create_service_p be en g proj sinput)"
    unfolding create_service_p_def Let_def
    by (intro pkeeps on_rows_write isolated_writes; simp)
  show "keeps (on_rows (isolated g X)) (deploy_service be en g i)"
    unfolding deploy_service_def Let_def
    by (rule bind_yields [OF owned_row_yields(2)]) (intro pkeeps on_rows_write isolated_writes; simp)
  show "keeps (on_rows (isolated g X)) (service_action g i st f)"
    unfolding service_action_def Let_def
    by (rule bind_yields [OF owned_row_yields(2)]) (intro pkeeps on_rows_write isolated_writes; simp)
  show "keeps (on_rows (isolated g X)) (delete_service_p be g i)"
    unfolding delete_service_p_def
    by (rule bind_yields [OF owned_row_yields(2)]) (intro pkeeps on_rows_write isolated_writes; simp)
qed

lemma attach_rows [pkeeps]: "keeps (on_rows I) (attach_verified_domain be pf a h)"
  unfolding attach_verified_domain_def by (intro pkeeps)

lemma config_calls_isolated:
  "keeps (on_rows (isolated g X)) (set_env pf en g i k v b)"
  "keeps (on_rows (isolated g X)) (delete_env g i k)"
  "keeps (on_rows (isolated g X)) (add_domain pf en g i fqdn)"
  "keeps (on_rows (isolated g X)) (verify_domain be pf en g i dd)"
  "keeps (on_rows (isolated g X)) (delete_domain_p be pf g i dd)"
proof -
  show "keeps (on_rows (isolated g X)) (set_env pf en g i k v b)"
    unfolding set_env_def Let_def
    by (rule bind_yields [OF owned_app_yields]) (intro pkeeps on_rows_write isolated_writes; simp)
  show "keeps (on_rows (isolated g X)) (delete_env g i k)"
    unfolding delete_env_def
    by (rule bind_yields [OF owned_app_yields]) (intro pkeeps on_rows_write isolated_writes; simp)
  show "keeps (on_rows (isolated g X)) (add_domain pf en g i fqdn)"
    unfolding add_domain_def Let_def
    by (intro pkeeps on_rows_write isolated_writes; simp add: new_domain_def)
  show "keeps (on_rows (isolated g X)) (verify_domain be pf en g i dd)"
    unfolding verify_domain_def Let_def
    by (rule keeps_bind, intro pkeeps, rule bind_yields [OF owned_row_yields(3)])
      (intro pkeeps on_rows_write isolated_writes; simp)
  show "keeps (on_rows (isolated g X)) (delete_domain_p be pf g i dd)"
    unfolding delete_domain_p_def Let_def
    by (rule keeps_bind, intro pkeeps, rule bind_yields [OF owned_row_yields(3)])
      (intro pkeeps on_rows_write isolated_writes; simp)
qed

lemma platform_isolated: "keeps (on_rows (isolated g X)) (run_platform be pf en g c)"
  by (cases c) (auto simp: no_result_def stop_app_def restart_app_def stop_database_def start_database_def
      restart_database_def stop_service_def restart_service_def
      intro!: pkeeps app_calls_isolated release_calls_isolated database_calls_isolated
        service_calls_isolated config_calls_isolated)

end
