(* ===== verification/Http_Access.thy ===== *)
theory Http_Access
  imports Http_Server Platform_Isolation Identity_Properties
begin

text \<open>
  Who may change what over HTTP: a request behind the authentication changes nothing unless it
  carries the credential of a user who holds the role its route asks for; a request from a
  foreign web site, and one with a safe method, write nothing at all.
\<close>

section \<open>Specifications\<close>

text \<open>The user whose valid credential a request carries.\<close>

definition caller :: "http_env \<Rightarrow> http_request \<Rightarrow> mem \<Rightarrow> user \<Rightarrow> bool" where
  "caller en r s u \<longleftrightarrow>
     (let tok = access_token_from_request r
      in tok \<noteq> [] \<and>
         (if has_prefix tok ''vrt_''
          then \<exists>t \<in> set (gvals (st_api_tokens s)). at_token_hash t = he_sha256_hex en tok \<and>
                 (at_expires_at t = zero_time \<or> he_now en < at_expires_at t) \<and>
                 gget (st_users s) (at_user_id t) = Some u
          else \<exists>cl. env_parse (he_identity en) tok = Some cl \<and> cl_type cl = AccessToken \<and> cl_subject cl \<noteq> [] \<and>
                 gget (st_users s) (cl_subject cl) = Some u))"

text \<open>A project of the organization, for one of its admins or for a member of the project with the role.\<close>

definition may_act :: "string \<Rightarrow> string \<Rightarrow> string \<Rightarrow> role \<Rightarrow> mem \<Rightarrow> bool" where
  "may_act u g p least s \<longleftrightarrow>
     (\<exists>row. gget (st_projects s) p = Some row \<and> proj_org_id row = g) \<and>
     (has_role u g RoleAdmin s \<or>
      (\<exists>pm. gget (st_project_members s) (project_member_key p u) = Some pm \<and> role_at_least (pm_role pm) least))"

fun holds :: "guard \<Rightarrow> string \<Rightarrow> string \<Rightarrow> mem \<Rightarrow> bool" where
  "holds (OrgAuthz r) u g s = has_role u g r s"
| "holds (ProjectAuthz p r) u g s = may_act u g p r s"
| "holds (AppAuthz i r) u g s =
     (\<exists>a. gget (st_apps s) i = Some a \<and> app_org_id a = g \<and> may_act u g (app_project_id a) r s)"
| "holds (ServiceAuthz i r) u g s =
     (\<exists>v. gget (st_services s) i = Some v \<and> svc_org_id v = g \<and> may_act u g (svc_project_id v) r s)"
| "holds (DatabaseAuthz i r) u g s =
     (\<exists>d. gget (st_databases s) i = Some d \<and> db_org_id d = g \<and> may_act u g (db_project_id d) r s)"

fun permitted :: "route \<Rightarrow> http_env \<Rightarrow> http_request \<Rightarrow> mem \<Rightarrow> bool" where
  "permitted (Public p) en r s = True"
| "permitted (Account a) en r s = (\<exists>u. caller en r s u)"
| "permitted (Admin a) en r s = (\<exists>u. caller en r s u \<and> user_is_admin u)"
| "permitted (Org g x) en r s = (\<exists>u. caller en r s u \<and> holds (org_guard x) (user_id u) g s)"

text \<open>Noting the use of an access token is not a change.\<close>

definition only_noted :: "mem \<Rightarrow> mem \<Rightarrow> bool" where
  "only_noted s t \<longleftrightarrow> t = s \<or> (\<exists>i now. t = snd (touch_api_token i now s))"

section \<open>Guards read\<close>

lemma reads_world: "(\<And>s. keeps (\<lambda>w. w_mem w = s) m) \<Longrightarrow> reads_only (on_world m)"
  by (auto simp: reads_only_def seen_def rows_def on_world_def keeps_def case_prod_beta)

lemma reads_answering: "reads_only m \<Longrightarrow> reads_only (answering f m)"
  unfolding answering_def by (intro reads_rules)

lemma mem_authorize_project: "keeps (\<lambda>w. I (w_mem w)) (authorize_project u g p r)"
  unfolding authorize_project_def project_of_def Let_def by (intro svc_keeps)

lemma guard_reads: "reads_only (run_guard gd u g)"
proof -
  have p: "reads_only (project_authz u g p least)" for u g p least
    unfolding project_authz_def by (intro reads_answering reads_world mem_authorize_project)
  have res: "reads_only (resource_project_authz f u g i least)" if "reads_only (f g i)" for f u g i least
    unfolding resource_project_authz_def by (intro reads_rules p that)
  show ?thesis
    by (cases gd) (auto simp: org_authz_def resolve_app_project_def resolve_service_project_def resolve_database_project_def
        intro!: reads_rules reads_answering reads_world p res keeps_authorize)
qed

lemma answering_ok: "answering f m p = (Inr x, q) \<Longrightarrow> m p = (Inr x, q)"
  by (auto simp: answering_def failE_def okE_def elim!: tryE_E)

lemma world_ok: "on_world m p = (r, q) \<Longrightarrow> \<exists>w. m (pw_w p) = (r, w) \<and> rows q = w_mem w \<and> q = p\<lparr>pw_w := w\<rparr>"
  by (auto simp: on_world_def rows_def Let_def split: prod.splits)

lemma project_authz_ok:
  assumes "project_authz u g p least w = (Inr x, q)"
  shows "may_act (user_id u) g p least (rows w)"
proof -
  have "on_world (authorize_project (user_id u) g p least) w = (Inr x, q)"
    using assms unfolding project_authz_def by (rule answering_ok)
  then obtain v where "authorize_project (user_id u) g p least (pw_w w) = (Inr x, v)"
    using world_ok by blast
  from authorize_project_ok [OF this] show ?thesis by (simp add: may_act_def rows_def)
qed

lemma read_outcome:
  assumes "p_read r w = (y, v)"
  shows "seen v = seen w" "rows v = rows w" and "\<And>x. y = Inr x \<Longrightarrow> r (rows w) = Inr x"
proof -
  show "seen v = seen w" by (rule reads_onlyD [OF reads_only_read assms])
  then show "rows v = rows w" by (simp add: seen_def)
  show "r (rows w) = Inr x" if "y = Inr x" for x using assms that by (auto intro: read_row)
qed

lemma read_value: "p_read r w = (Inr x, v) \<Longrightarrow> rows v = rows w \<and> r (rows w) = Inr x"
  using read_outcome [of r w "Inr x" v] by simp

lemma resource_ok:
  assumes "resource_project_authz (\<lambda>g i. tryE (p_read (get i)) (\<lambda>_. okE None)
             (\<lambda>a. okE (if org a \<noteq> g then None else Some (proj a)))) u g i r w = (Inr x, q)"
  shows "\<exists>v. get i (rows w) = Inr v \<and> org v = g \<and> may_act (user_id u) g (proj v) r (rows w)"
proof -
  obtain found v where f: "tryE (p_read (get i)) (\<lambda>_. okE None)
        (\<lambda>a. okE (if org a \<noteq> g then None else Some (proj a))) w = (Inr found :: reply + string option, v)"
      and k: "(case found of None \<Rightarrow> failE (write_error 404 ''not found'') | Some p \<Rightarrow> project_authz u g p r) v = (Inr x, q)"
    using assms unfolding resource_project_authz_def by (elim bindE_InrE) (rule that)
  from k obtain p where p: "found = Some p" "project_authz u g p r v = (Inr x, q)"
    by (cases found) (auto simp: failE_def)
  then obtain a where "get i (rows w) = Inr a" "org a = g" "p = proj a" "rows v = rows w"
    using f by (auto simp: okE_def elim!: tryE_E dest!: read_value split: if_splits)
  then show ?thesis using project_authz_ok [OF p(2)] by auto
qed

lemma guard_ok:
  assumes "run_guard gd u g w = (Inr x, q)"
  shows "holds gd (user_id u) g (rows w)"
proof (cases gd)
  case (OrgAuthz r)
  then obtain m v where "answering (refused ''you do not have access to this organization'')
      (on_world (authorize (user_id u) g r)) w = (Inr m, v)"
    using assms by (auto simp: org_authz_def elim: bindE_InrE)
  then have "on_world (authorize (user_id u) g r) w = (Inr m, v)" by (rule answering_ok)
  then obtain t where "authorize (user_id u) g r (pw_w w) = (Inr m, t)" using world_ok by blast
  then show ?thesis using OrgAuthz by (auto simp: has_role_def rows_def elim: authorize_E)
next
  case (ProjectAuthz p r)
  then show ?thesis using assms project_authz_ok by simp
next
  case (AppAuthz i r)
  then show ?thesis using assms resource_ok [of get_app app_org_id app_project_id u g i r w x q]
    by (auto simp: resolve_app_project_def [abs_def] get_app_def tbl_get_def split: option.splits)
next
  case (ServiceAuthz i r)
  then show ?thesis using assms resource_ok [of get_service svc_org_id svc_project_id u g i r w x q]
    by (auto simp: resolve_service_project_def [abs_def] get_service_def tbl_get_def split: option.splits)
next
  case (DatabaseAuthz i r)
  then show ?thesis using assms resource_ok [of get_database db_org_id db_project_id u g i r w x q]
    by (auto simp: resolve_database_project_def [abs_def] get_database_def tbl_get_def split: option.splits)
qed

section \<open>Authentication\<close>

lemma noted_refl [simp]: "only_noted s s"
  by (simp add: only_noted_def)

lemma noted_tables:
  assumes "only_noted s t"
  shows "st_users t = st_users s" "st_memberships t = st_memberships s" "st_projects t = st_projects s"
    "st_project_members t = st_project_members s" "st_apps t = st_apps s" "st_services t = st_services s"
    "st_databases t = st_databases s"
  using assms by (auto simp: only_noted_def touch_api_token_def split: option.splits)

lemma noted_holds: "only_noted s t \<Longrightarrow> holds gd u g t = holds gd u g s"
  by (cases gd) (simp_all add: noted_tables may_act_def has_role_def)

text \<open>Behind the authentication stands the caller, and only the use of a token was noted.\<close>

definition noted :: "'c pworld \<Rightarrow> 'c pworld \<Rightarrow> bool" where
  "noted p q \<longleftrightarrow> only_noted (rows p) (rows q) \<and> pw_cluster q = pw_cluster p \<and> pw_builds q = pw_builds p"

lemma noted_seen: "seen q = seen p \<Longrightarrow> noted p q"
  by (simp add: noted_def seen_def)

lemma user_lookup:
  assumes "on_world (get_user i) w = (y, v)"
  shows "seen v = seen w" and "\<And>u. y = Inr u \<Longrightarrow> gget (st_users (rows w)) i = Some u"
proof -
  have "reads_only (on_world (get_user i))"
    unfolding get_user_def by (intro reads_world svc_keeps)
  then show "seen v = seen w" using assms by (rule reads_onlyD)
  show "gget (st_users (rows w)) i = Some u" if "y = Inr u" for u
    using assms that by (auto simp: get_user_def get_user_by_id_def tbl_get_def rows_def
        dest!: world_ok lift_s_ok read_ok split: option.splits)
qed

lemma write_outcome:
  assumes "p_write m w = (y, v)"
  shows "pw_cluster v = pw_cluster w \<and> pw_builds v = pw_builds w \<and> rows v \<in> {rows w, snd (m (rows w))}"
  using assms write_effect [of m w] by (auto simp: p_write_def on_world_def case_prod_beta)

lemma api_token_outcome:
  assumes "auth_via_api_token en tok p = (y, q)"
  shows "noted p q"
    and "\<And>u. y = Inr (Some u) \<Longrightarrow> \<exists>t \<in> set (gvals (st_api_tokens (rows p))). at_token_hash t = he_sha256_hex en tok \<and>
       (at_expires_at t = zero_time \<or> he_now en < at_expires_at t) \<and> gget (st_users (rows p)) (at_user_id t) = Some u"
proof -
  obtain x v where x: "p_read (get_api_token_by_hash (hash_api_token en tok)) p = (x, v)" by (metis surj_pair)
  note r = read_outcome [OF x]
  show "noted p q" "\<And>u. y = Inr (Some u) \<Longrightarrow> \<exists>t \<in> set (gvals (st_api_tokens (rows p))). at_token_hash t = he_sha256_hex en tok \<and>
       (at_expires_at t = zero_time \<or> he_now en < at_expires_at t) \<and> gget (st_users (rows p)) (at_user_id t) = Some u"
  proof (atomize (full), cases x)
    case (Inl e)
    then show "noted p q \<and> (\<forall>u. y = Inr (Some u) \<longrightarrow> (\<exists>t \<in> set (gvals (st_api_tokens (rows p))). at_token_hash t = he_sha256_hex en tok \<and>
       (at_expires_at t = zero_time \<or> he_now en < at_expires_at t) \<and> gget (st_users (rows p)) (at_user_id t) = Some u))"
      using assms x r(1) by (auto simp: auth_via_api_token_def tryE_def okE_def noted_seen)
  next
    case (Inr t)
    then have t: "t \<in> set (gvals (st_api_tokens (rows p)))" "at_token_hash t = he_sha256_hex en tok"
      using r(3) [OF Inr] by (auto simp: get_api_token_by_hash_def hash_api_token_def find_Some_iff split: option.splits)
    obtain z w where z: "on_world (get_user (at_user_id t)) v = (z, w)" by (metis surj_pair)
    note l = user_lookup [OF z]
    obtain b o' where b: "p_write (touch_api_token (at_id t) (he_now en)) w = (b, o')" by (metis surj_pair)
    note wr = write_outcome [OF b]
    have "seen w = seen p" using l(1) r(1) by simp
    then have o': "noted p o'" using wr by (auto simp: noted_def only_noted_def seen_def)
    show "noted p q \<and> (\<forall>u. y = Inr (Some u) \<longrightarrow> (\<exists>t \<in> set (gvals (st_api_tokens (rows p))). at_token_hash t = he_sha256_hex en tok \<and>
       (at_expires_at t = zero_time \<or> he_now en < at_expires_at t) \<and> gget (st_users (rows p)) (at_user_id t) = Some u))"
      using assms x z b Inr t r(1,2) l o'
      by (auto simp: auth_via_api_token_def tryE_def okE_def noted_seen is_zero_def split: if_splits sum.splits)
  qed
qed

text \<open>Behind the authentication stands the caller, and only the use of a token was noted.\<close>

lemma auth_middleware_outcome:
  assumes "auth_middleware en r p = (y, q)"
  shows "noted p q" and "\<And>u. y = Inr u \<Longrightarrow> caller en r (rows p) u"
proof -
  let ?tok = "access_token_from_request r"
  have prefix: "is_api_token ?tok = has_prefix ?tok ''vrt_''" by (simp add: is_api_token_def api_token_prefix_def)
  have "noted p q \<and> (\<forall>u. y = Inr u \<longrightarrow> caller en r (rows p) u)"
  proof (cases "?tok \<noteq> [] \<and> has_prefix ?tok ''vrt_''")
    case True
    obtain z w where z: "auth_via_api_token en ?tok p = (z, w)" by (metis surj_pair)
    show ?thesis using assms True z api_token_outcome [OF z] prefix
      by (auto simp: auth_middleware_def Let_def bindE_def okE_def failE_def caller_def split: sum.splits option.splits)
  next
    case False
    show ?thesis
    proof (cases "?tok = [] \<or> verify_token (env_parse (he_identity en)) ?tok AccessToken = None")
      case True
      then show ?thesis using assms False prefix
        by (auto simp: auth_middleware_def Let_def failE_def noted_seen split: if_splits)
    next
      case no: False
      then obtain cl where cl: "verify_token (env_parse (he_identity en)) ?tok AccessToken = Some cl" by auto
      obtain z w where z: "on_world (get_user (cl_subject cl)) p = (z, w)" by (metis surj_pair)
      show ?thesis using assms False no cl z prefix user_lookup [OF z] verify_tokenD [OF cl]
        by (auto simp: auth_middleware_def Let_def failE_def okE_def tryE_def caller_def noted_seen split: sum.splits)
    qed
  qed
  then show "noted p q" and "\<And>u. y = Inr u \<Longrightarrow> caller en r (rows p) u" by blast+
qed


section \<open>Authorization\<close>

lemma noted_later: "noted p q \<Longrightarrow> seen v = seen q \<Longrightarrow> noted p v"
  by (simp add: noted_def seen_def)

lemma handle_route_outcome:
  assumes "handle_route sv prov hc en r rt p = (y, q)"
  shows "noted p q \<or> permitted rt en r (rows p)"
proof -
  obtain z w where z: "auth_middleware en r p = (z, w)" by (metis surj_pair)
  note auth = auth_middleware_outcome [OF z]
  show ?thesis
  proof (cases z)
    case (Inl e)
    then show ?thesis using assms z auth(1) by (cases rt) (auto simp: bindE_def)
  next
    case (Inr u)
    show ?thesis
    proof (cases rt)
      case (Admin a)
      then show ?thesis using assms z Inr auth
        by (auto simp: bindE_def admin_middleware_def failE_def split: if_splits)
    next
      case (Org g x)
      obtain gr v where gr: "run_guard (org_guard x) u g w = (gr, v)" by (metis surj_pair)
      have n: "noted p v" using noted_later [OF auth(1)] reads_onlyD [OF guard_reads gr] .
      show ?thesis
      proof (cases gr)
        case (Inl e)
        then show ?thesis using assms z Inr gr n Org by (auto simp: bindE_def)
      next
        case ok: (Inr i)
        then have "holds (org_guard x) (user_id u) g (rows w)" using guard_ok gr by blast
        then show ?thesis using auth Inr Org by (auto simp: noted_def noted_holds)
      qed
    qed (use auth Inr in auto)
  qed
qed

section \<open>Safe methods\<close>

definition settled :: "mem \<times> build_request list \<Rightarrow> 'c pworld \<Rightarrow> bool" where
  "settled X p \<longleftrightarrow> (rows p, pw_builds p) = X"

lemma settled_reads: "reads_only m \<Longrightarrow> keeps (settled X) m"
  unfolding keeps_def reads_only_def settled_def seen_def by (metis prod.inject)

lemma settled_cluster: "keeps (settled X) (on_cluster m)"
  by (simp add: keeps_def settled_def on_cluster_def rows_def case_prod_beta)

lemma settled_answering: "keeps I m \<Longrightarrow> keeps I (answering f m)"
  unfolding answering_def by (intro keeps_try) simp_all

lemma settled_replying: "keeps I m \<Longrightarrow> keeps I (replying st f m)"
  unfolding replying_def by (intro keeps_bind) simp_all

named_theorems safe_rules \<open>parts of handlers that write nothing\<close>

lemmas [safe_rules] = settled_cluster settled_answering settled_replying
  keeps_ok keeps_fail keeps_bind keeps_try keeps_if keeps_option keeps_pair

lemma platform_bstore_lists [reads_rules]:
  "reads_only (bs_list_pricing_components platform_bstore)" "reads_only (bs_list_apps_by_org platform_bstore g)"
  "reads_only (bs_list_services_by_org platform_bstore g)" "reads_only (bs_list_databases_by_org platform_bstore g)"
  by (simp_all add: platform_bstore_def reads_only_read)

lemma pricing_reads [reads_rules]:
  "reads_only (catalog platform_bstore)" "reads_only (pricing_components platform_bstore)"
  "reads_only (price_map platform_bstore)" "reads_only (pricing_currency platform_bstore)"
  unfolding catalog_def price_map_def pricing_components_def pricing_currency_def by (intro reads_rules)+

lemma history_reads: "reads_only (history_loop platform_bstore g sb pl cur n current fin)"
proof (induction n arbitrary: current fin)
  case 0
  then show ?case by (simp add: reads_only_def okE_def)
next
  case (Suc n)
  then show ?case
    by (subst history_loop.simps(2) [abs_def]) (auto simp: Let_def intro!: reads_rules)
qed

lemma billing_reads [reads_rules]:
  "reads_only (dunning_status platform_bstore g)"
  "reads_only (get_billing platform_bstore now g)" "reads_only (invoice_history platform_bstore now g n)"
proof -
  have "reads_only (case sub_status b of
              SubPastDue \<Rightarrow>
                bindE (grace_past_due platform_bstore) (\<lambda>g.
                  okE \<lparr>dn_state = SubPastDue, dn_past_due = True, dn_blocked = (\<not> g), dn_grace_active = g\<rparr>)
            | SubUnpaid \<Rightarrow> okE \<lparr>dn_state = SubUnpaid, dn_past_due = True, dn_blocked = True, dn_grace_active = False\<rparr>
            | SubCanceled \<Rightarrow> okE \<lparr>dn_state = SubCanceled, dn_past_due = True, dn_blocked = True, dn_grace_active = False\<rparr>
            | x \<Rightarrow> okE \<lparr>dn_state = x, dn_past_due = False, dn_blocked = False, dn_grace_active = False\<rparr>)" for b
    by (cases "sub_status b") (auto intro!: reads_rules)
  then show d: "reads_only (dunning_status platform_bstore g)" for g :: string
    unfolding dunning_status_def by (intro reads_rules)
  show "reads_only (get_billing platform_bstore now g)"
    unfolding get_billing_def org_monthly_estimate_cents_def org_hourly_cost_def Let_def by (intro reads_rules d)
  show "reads_only (invoice_history platform_bstore now g n)"
    unfolding invoice_history_def by (intro reads_rules history_reads)
qed

lemma direct_projects_keep: "keeps (\<lambda>w. I (w_mem w)) (direct_projects u ps)"
  by (induction ps) (auto intro!: svc_keeps)

lemma identity_reads [reads_rules]:
  "reads_only (on_world (list_organizations u))" "reads_only (on_world (list_members u g))"
  "reads_only (on_world (list_invitations u g))" "reads_only (on_world (list_projects u g))"
  "reads_only (on_world (accessible_project_ids u g))" "reads_only (on_world (default_project g))"
  unfolding list_organizations_def list_members_def list_invitations_def list_projects_def accessible_project_ids_def
    default_project_def Let_def
  by (intro reads_world svc_keeps direct_projects_keep)+

text \<open>The handlers of \<open>GET\<close> requests.\<close>

lemmas handler_reads = listings_read lookups_read identity_reads billing_reads pricing_reads reads_only_read

lemmas [safe_rules] = handler_reads [THEN settled_reads]

lemma list_audit_safe [safe_rules]: "keeps (settled X) (list_audit g pg)"
  unfolding list_audit_def Let_def by (intro safe_rules)

lemma metrics_safe [safe_rules]:
  "keeps (settled X) (app_logs be g i)" "keeps (settled X) (app_metrics be g i)"
  unfolding app_logs_def app_metrics_def by (intro safe_rules)+

lemmas handlers_get = handle_get_app_def handle_app_status_def handle_app_logs_def handle_list_releases_def
  handle_list_app_env_def handle_list_app_domains_def handle_app_metrics_def handle_list_builds_def handle_get_build_def
  handle_get_database_def handle_list_database_backups_def handle_list_members_def handle_list_invitations_def
  handle_list_projects_def handle_list_project_apps_def handle_list_apps_def handle_list_services_def
  handle_list_databases_def handle_get_billing_def handle_list_invoices_def handle_me_def handle_list_tokens_def
  handle_list_orgs_def handle_admin_overview_def handle_admin_list_plans_def handle_admin_list_pricing_def
  handle_admin_list_templates_def handle_admin_get_settings_def handle_plans_def handle_pricing_def
  handle_service_catalog_def accessible_def on_platform_def on_identity_def

lemma get_app_safe: "app_method x = ''GET'' \<Longrightarrow> keeps (settled X) (run_app sv hc en u g i x)"
  by (cases x; simp add: handlers_get Let_def; intro safe_rules)

lemma get_resource_safe:
  "database_method d = ''GET'' \<Longrightarrow> keeps (settled X) (run_database sv hc en u g i d)"
  "service_method v = ''GET'' \<Longrightarrow> keeps (settled X) (run_service sv en g i v)"
  by (cases d; simp add: handlers_get; intro safe_rules) (cases v; simp)

lemma get_org_safe: "org_method x = ''GET'' \<Longrightarrow> keeps (settled X) (run_org sv prov hc en u g x)"
  by (cases x, simp_all add: get_app_safe get_resource_safe, simp_all add: handlers_get Let_def) (intro conjI impI safe_rules)+

lemma get_route_safe:
  "account_method a = ''GET'' \<Longrightarrow> keeps (settled X) (run_account hc en r u a)"
  "admin_method b = ''GET'' \<Longrightarrow> keeps (settled X) (run_admin en u b)"
  "public_method c = ''GET'' \<Longrightarrow> keeps (settled X) (run_public prov hc en r c)"
  by (cases a; simp; (simp add: handlers_get Let_def)?; intro safe_rules)
    ((cases b; simp; (simp add: handlers_get Let_def)?; intro safe_rules),
     (cases c; simp; (simp add: handlers_get Let_def)?; intro safe_rules))

definition known :: "string \<Rightarrow> bool" where
  "known m \<longleftrightarrow> m = ''GET'' \<or> is_state_changing m"

lemma known_methods [simp]: "known ''GET''" "known ''POST''" "known ''PUT''" "known ''PATCH''" "known ''DELETE''"
  by (simp_all add: known_def is_state_changing_def)

lemma known_resources [simp]: "known (app_method a)" "known (service_method b)" "known (database_method c)"
proof -
  show "known (app_method a)" by (cases a) simp_all
  show "known (service_method b)" by (cases b) simp_all
  show "known (database_method c)" by (cases c) simp_all
qed

lemma methods: "known (method_of rt)"
proof (cases rt)
  case (Public p)
  then show ?thesis by (cases p) simp_all
next
  case (Account a)
  then show ?thesis by (cases a) simp_all
next
  case (Admin a)
  then show ?thesis by (cases a) simp_all
next
  case (Org g x)
  then show ?thesis by (cases x) simp_all
qed

definition unwritten :: "'c pworld \<Rightarrow> 'c pworld \<Rightarrow> bool" where
  "unwritten p q \<longleftrightarrow> only_noted (rows p) (rows q) \<and> pw_builds q = pw_builds p"

lemma noted_unwritten: "noted p q \<Longrightarrow> unwritten p q"
  by (simp add: noted_def unwritten_def)

lemma settled_later:
  assumes "noted p w" "keeps (settled (rows w, pw_builds w)) m" "m w = (y, q)"
  shows "unwritten p q"
proof -
  have "settled (rows w, pw_builds w) (snd (m w))" by (rule keepsD [OF assms(2)]) (simp add: settled_def)
  then show ?thesis using assms(1,3) by (simp add: settled_def noted_def unwritten_def)
qed

lemma noted_id: "noted p p"
  by (simp add: noted_def)

lemma handle_route_safe:
  assumes "method_of rt = ''GET''" "handle_route sv prov hc en r rt p = (y, q)"
  shows "unwritten p q"
proof -
  obtain z w where z: "auth_middleware en r p = (z, w)" by (metis surj_pair)
  note n = auth_middleware_outcome(1) [OF z]
  show ?thesis
  proof (cases rt)
    case (Public c)
    then show ?thesis using settled_later [OF noted_id get_route_safe(3)] assms by auto
  next
    case (Account a)
    show ?thesis
    proof (cases z)
      case (Inr u)
      then show ?thesis using settled_later [OF n get_route_safe(1)] assms z Account by (auto simp: bindE_def)
    qed (use assms z n Account in \<open>auto simp: bindE_def noted_unwritten\<close>)
  next
    case (Admin a)
    have k: "keeps (settled X) (bindE (admin_middleware u) (\<lambda>_. run_admin en u a))" for X u
      using assms(1) Admin unfolding admin_middleware_def by (intro safe_rules get_route_safe) simp
    then have "unwritten p q" if "z = Inr u" for u
      using settled_later [OF n k] that assms z Admin by (simp add: bindE_def [of "auth_middleware en r"])
    then show ?thesis using assms z n Admin by (cases z) (auto simp: bindE_def noted_unwritten)
  next
    case (Org g x)
    have k: "keeps (settled X) (bindE (run_guard (org_guard x) u g) (\<lambda>_. run_org sv prov hc en u g x))" for X u
      using assms(1) Org by (intro safe_rules get_org_safe settled_reads guard_reads) simp
    then have "unwritten p q" if "z = Inr u" for u
      using settled_later [OF n k] that assms z Org by (simp add: bindE_def [of "auth_middleware en r"])
    then show ?thesis using assms z n Org by (cases z) (auto simp: bindE_def noted_unwritten)
  qed
qed

section \<open>Properties\<close>

text \<open>C1: whatever a request changes, it was permitted to: if handling a request leaves more behind than
  the note that an access token was used (in the store, on the cluster or among the builds), the
  route is public, or the request carries the valid credential of a user who is super-admin for an
  administrative route, and for a route of an organization has the role the route asks for in that
  very organization or in the project of it that the named app, service or database belongs to;
  whatever the deploy backend and the store failures.\<close>

theorem changes_need_permission:
  assumes "respond sv prov hc en r rt s = (rep, t)" "\<not> noted (si_world s) (si_world t)"
  shows "permitted rt en r (rows (si_world s))"
proof -
  obtain ok l where l: "rate_limit_middleware en r rt (si_limiter s) = (ok, l)" by (metis surj_pair)
  obtain y q where h: "handle_route sv prov hc en r rt (si_world s) = (y, q)" by (metis surj_pair)
  have "si_world t = si_world s \<or> si_world t = q"
    using assms(1) l h by (auto simp: respond_def split: sum.splits if_splits)
  then show ?thesis using handle_route_outcome [OF h] assms(2) by (auto simp: noted_id)
qed

text \<open>C3: a page of a foreign web site writes nothing in the name of its visitor: when the origin a request
  comes from is not among the configured ones (and they are not the wildcard), a state-changing
  request is refused with 403 before anything happens, and any other one leaves the rows and builds
  as they are, but for noting the use of an access token.\<close>

theorem foreign_origin_writes_nothing:
  assumes "respond sv prov hc en r rt s = (rep, t)"
    and "request_origin (he_parse_url en) r \<noteq> []" "''*'' \<notin> set (hc_cors_allowed_origins hc)"
    and "\<forall>a \<in> set (hc_cors_allowed_origins hc). normalize_origin a \<noteq> normalize_origin (request_origin (he_parse_url en) r)"
  shows "if is_state_changing (method_of rt) then rp_status rep = 403 \<and> t = s
         else unwritten (si_world s) (si_world t)"
proof -
  have "normalize_origin (request_origin (he_parse_url en) r) \<notin> set (normalize_origins (hc_cors_allowed_origins hc))"
    using assms(3,4) by (fastforce simp: normalize_origins_def)
  then have "rp_status rep = 403 \<and> t = s" if "is_state_changing (method_of rt)"
    using assms that by (auto simp: respond_def csrf_origin_guard_def Let_def failE_def write_error_def write_json_def)
  moreover have "unwritten (si_world s) (si_world t)" if "method_of rt = ''GET''"
  proof -
    obtain ok l where l: "rate_limit_middleware en r rt (si_limiter s) = (ok, l)" by (metis surj_pair)
    obtain y q where h: "handle_route sv prov hc en r rt (si_world s) = (y, q)" by (metis surj_pair)
    have "si_world t = si_world s \<or> si_world t = q"
      using assms(1) l h by (auto simp: respond_def split: sum.splits if_splits)
    then show ?thesis using handle_route_safe [OF that h] noted_unwritten [OF noted_id] by auto
  qed
  ultimately show ?thesis using methods [of rt] by (auto simp: known_def)
qed

end
