(* ===== verification/Http_Tenants.thy ===== *)
theory Http_Tenants
  imports Http_Access
begin

text \<open>
  Isolation of tenants over HTTP: what a request under \<open>/orgs/{orgID}\<close> leaves alone. Next to the
  workloads of the other organizations (\<open>Platform_Isolation\<close>) these are the other organizations
  themselves, their members, projects, invitations, subscriptions and audit events, the accounts,
  and the configuration of the platform.
\<close>

section \<open>What belongs to somebody else\<close>

record elsewhere_rows =
  ew_organizations :: "string \<Rightarrow> organization option"
  ew_members :: "string \<Rightarrow> membership option"
  ew_projects :: "string \<Rightarrow> project option"
  ew_invitations :: "string \<Rightarrow> invitation option"
  ew_subscriptions :: "string \<Rightarrow> subscription option"
  ew_audit :: "audit_event list"
  ew_accounts :: "(string, user) gomap \<times> (string, string) gomap \<times> (string, project_membership) gomap"
  ew_sessions :: "(string, refresh_token) gomap \<times> (string, password_reset_token) gomap"
  ew_catalog :: "(string, plan) gomap \<times> (string, service_template) gomap \<times> (string, pricing_component) gomap"
  ew_settings :: platform_settings
  ew_usage :: "(string, usage_record list) gomap"

definition elsewhere :: "string \<Rightarrow> mem \<Rightarrow> elsewhere_rows" where
  "elsewhere g s =
     \<lparr>ew_organizations = others (\<lambda>x. org_id x = g) (st_organizations s),
      ew_members = others (\<lambda>x. mem_org_id x = g) (st_memberships s),
      ew_projects = others (\<lambda>x. proj_org_id x = g) (st_projects s),
      ew_invitations = others (\<lambda>x. inv_org_id x = g) (st_invitations s),
      ew_subscriptions = others (\<lambda>x. sub_org_id x = g) (st_subscriptions s),
      ew_audit = filter (\<lambda>e. ae_org_id e \<noteq> g) (st_audit_events s),
      ew_accounts = (st_users s, st_users_by_email s, st_project_members s),
      ew_sessions = (st_refresh_tokens s, st_reset_tokens s),
      ew_catalog = (st_plans s, st_templates s, st_pricing s),
      ew_settings = st_settings s, ew_usage = st_usage s\<rparr>"

text \<open>Ids have no NUL byte, which separates the parts of the key of a membership.\<close>

definition nul_free :: "string \<Rightarrow> bool" where
  "nul_free i \<longleftrightarrow> CHR 0x00 \<notin> set i"

definition member_ids_ok :: "mem \<Rightarrow> bool" where
  "member_ids_ok s \<longleftrightarrow> (\<forall>k m. gget (st_memberships s) k = Some m \<longrightarrow> nul_free (mem_org_id m))"

definition apart :: "string \<Rightarrow> elsewhere_rows \<Rightarrow> mem \<Rightarrow> bool" where
  "apart g Y s \<longleftrightarrow>
     tenancy_wf s \<and> keyed sub_org_id (st_subscriptions s) \<and> member_ids_ok s \<and> elsewhere g s = Y"

text \<open>A payment provider has no access to the store.\<close>

definition external :: "'c pworld provider \<Rightarrow> bool" where
  "external prov \<longleftrightarrow>
     (\<forall>g e. reads_only (pp_ensure_customer prov g e)) \<and> (\<forall>g c pl. reads_only (pp_create_subscription prov g c pl))"

section \<open>Predicates no workload touches, and predicates no tenant touches\<close>

text \<open>
  A predicate every write of a workload keeps is kept by every call of the platform, and one
  that the writes of organizations keep is kept by the organization's half of the identity service.
\<close>

locale workload_frame =
  fixes I :: "mem \<Rightarrow> bool"
  assumes apps: "keeps I (create_app a)" "keeps I (update_app a)" "keeps I (delete_app i)"
    and builds: "keeps I (create_build b)" "keeps I (update_build b)"
    and releases: "keeps I (create_release r)" "keeps I (update_release r)"
    and services: "keeps I (create_service v)" "keeps I (update_service v)" "keeps I (delete_service i)"
    and databases: "keeps I (create_database d)" "keeps I (update_database d)" "keeps I (delete_database i)"
    and domains: "keeps I (create_domain dd)" "keeps I (update_domain dd)" "keeps I (delete_domain i)"
    and env: "keeps I (set_app_env i k x c)" "keeps I (delete_app_env i k)"
begin

lemmas workload_writes = apps builds releases services databases domains env

lemma log_frame: "keeps (on_rows I) (log_release pf en k a o_s p_s note st)"
  by (intro log_release_rows workload_writes)

lemma parts_frame:
  "keeps (on_rows I) (persist_app_spec a)" "keeps (on_rows I) (start_build pf en k a o_s p_s)"
  unfolding persist_app_spec_def start_build_def Let_def
  by (intro pkeeps on_rows_write workload_writes)+

lemma store_frame: "(\<And>e. keeps I (put e)) \<Longrightarrow> keeps (on_rows I) (store_encrypted pf en put d)"
  unfolding store_encrypted_def by (intro pkeeps on_rows_write)

lemma reapply_frame: "keeps (on_rows I) (reapply be pf en h a mark note st)"
  unfolding reapply_def by (intro pkeeps log_frame parts_frame)

lemmas frame_rules = pkeeps on_rows_write workload_writes log_frame parts_frame store_frame reapply_frame

lemma app_frame:
  "keeps (on_rows I) (create_app_p be pf en g x)" "keeps (on_rows I) (deploy be pf en g i)"
  "keeps (on_rows I) (stop_app be g i)" "keeps (on_rows I) (restart_app be en g i)"
  "keeps (on_rows I) (delete_app_p be g i)" "keeps (on_rows I) (rollback_app be pf en g i n)"
  "keeps (on_rows I) (update_app_p be pf en g i u)" "keeps (on_rows I) (scale_app be pf en g i sc)"
  by (simp only: platform_ops Let_def; intro frame_rules)+

lemma data_frame:
  "keeps (on_rows I) (create_database_p be pf en g y)" "keeps (on_rows I) (deploy_database be pf en g i)"
  "keeps (on_rows I) (stop_database be pf en g i)" "keeps (on_rows I) (restart_database be pf en g i)"
  "keeps (on_rows I) (delete_database_p be pf g i)" "keeps (on_rows I) (create_service_p be en g p z)"
  "keeps (on_rows I) (deploy_service be en g i)" "keeps (on_rows I) (stop_service be g i)"
  "keeps (on_rows I) (restart_service be en g i)" "keeps (on_rows I) (delete_service_p be g i)"
  by (simp only: platform_ops Let_def; intro frame_rules)+

lemma config_frame:
  "keeps (on_rows I) (set_env pf en g i k v c)" "keeps (on_rows I) (delete_env g i k)"
  "keeps (on_rows I) (add_domain pf en g i f)" "keeps (on_rows I) (verify_domain be pf en g i dd)"
  "keeps (on_rows I) (delete_domain_p be pf g i dd)"
  by (simp only: platform_ops Let_def; intro frame_rules)+

end

locale tenancy_frame =
  fixes I :: "mem \<Rightarrow> bool"
  assumes tenancy: "keeps I (update_org o1)" "keeps I (update_membership_role g v r)" "keeps I (remove_membership g v)"
      "keeps I (create_project pr)" "keeps I (delete_project g p)" "keeps I (create_invitation iv)" "keeps I (revoke_invitation g i)"
    and records: "keeps I (upsert_subscription b)" "keeps I (create_audit_event e)" "keeps I (touch_api_token i now)"
begin

lemma identity_frame:
  "keeps (on_rows I) (on_world (update_organization u g uo))" "keeps (on_rows I) (on_world (update_member_role u g v r))"
  "keeps (on_rows I) (on_world (remove_member u g v))" "keeps (on_rows I) (on_world (create_project_in en u g n))"
  "keeps (on_rows I) (on_world (delete_project_in u g p))" "keeps (on_rows I) (on_world (invite cf en u g p e r))"
  "keeps (on_rows I) (on_world (revoke_invitation_in u g i))"
  unfolding org_ops Let_def by (intro on_rows_world svc_keeps keeps_on_store tenancy)+

lemma audit_frame: "keeps (on_rows I) (audit en u g act tt ti meta)"
  unfolding audit_def audit_as_def by (intro pkeeps on_rows_write records)

lemma subscribe_frame:
  assumes "external prov"
  shows "keeps (on_rows I) (subscribe platform_bstore prov t1 t2 g pl e)"
proof -
  have lift: "keeps (on_rows I) (lift_provider m)" if "reads_only m" for m
    unfolding lift_provider_def using on_rows_reads [OF that] by (intro pkeeps)
  have up: "keeps (on_rows I) (lift_store (bs_upsert_subscription platform_bstore b))" for b
    unfolding lift_store_def platform_bstore_def by (simp, intro pkeeps on_rows_write records)
  show ?thesis unfolding subscribe_def Let_def
    using assms by (intro pkeeps on_rows_reads [OF gates_read(2)] lift up) (simp_all add: external_def)
qed

end

section \<open>The workloads of others\<close>

lemma isolated_frame:
  "(\<And>s. st_apps (snd (m s)) = st_apps s \<and> st_databases (snd (m s)) = st_databases s \<and> st_services (snd (m s)) = st_services s \<and>
      st_domains (snd (m s)) = st_domains s \<and> st_builds (snd (m s)) = st_builds s \<and>
      st_releases (snd (m s)) = st_releases s \<and> st_app_env (snd (m s)) = st_app_env s) \<Longrightarrow> keeps (isolated g X) m"
  by (simp add: keeps_def isolated_def foreign_defs workloads_wf_def revisions_unique_def cong: if_cong)

lemmas tenancy_writes = update_org_def update_membership_role_def remove_membership_def create_project_def delete_project_def
  create_invitation_def revoke_invitation_def upsert_subscription_def create_audit_event_def touch_api_token_def

interpretation iso: tenancy_frame "isolated h X" for h X
  by unfold_locales
    (rule isolated_frame, simp add: tenancy_writes on_tbl_def Let_def split: sum.split option.split)+

section \<open>Everything else of others\<close>

lemma apart_frame:
  "(\<And>s. st_organizations (snd (m s)) = st_organizations s \<and> st_memberships (snd (m s)) = st_memberships s \<and>
      st_projects (snd (m s)) = st_projects s \<and> st_invitations (snd (m s)) = st_invitations s \<and>
      st_subscriptions (snd (m s)) = st_subscriptions s \<and> st_audit_events (snd (m s)) = st_audit_events s \<and>
      st_users (snd (m s)) = st_users s \<and> st_users_by_email (snd (m s)) = st_users_by_email s \<and>
      st_project_members (snd (m s)) = st_project_members s \<and> st_refresh_tokens (snd (m s)) = st_refresh_tokens s \<and>
      st_reset_tokens (snd (m s)) = st_reset_tokens s \<and> st_plans (snd (m s)) = st_plans s \<and>
      st_templates (snd (m s)) = st_templates s \<and> st_pricing (snd (m s)) = st_pricing s \<and>
      st_settings (snd (m s)) = st_settings s \<and> st_usage (snd (m s)) = st_usage s) \<Longrightarrow> keeps (apart g Y) m"
  by (simp add: keeps_def apart_def elsewhere_def tenancy_wf_def user_index_ok_def member_ids_ok_def)

lemmas workload_write_defs = create_app_def update_app_def delete_app_def create_build_def update_build_def create_release_def
  update_release_def create_service_def update_service_def delete_service_def create_database_def update_database_def
  delete_database_def create_domain_def update_domain_def delete_domain_def set_app_env_def delete_app_env_def

interpretation ap: workload_frame "apart h Y" for h Y
  by unfold_locales
    (rule apart_frame, simp add: workload_write_defs on_tbl_def Let_def split: sum.split option.split)+

lemma member_row_org:
  assumes "membership_key a u = membership_key b v" "nul_free a" "nul_free b"
  shows "a = b"
proof -
  have "takeWhile (\<lambda>c. c \<noteq> CHR 0x00) (membership_key i w) = i" if "nul_free i" for i w
    using that by (induction i) (auto simp: membership_key_def nul_free_def)
  then show ?thesis using assms by metis
qed

lemma apart_member:
  assumes "apart g Y s" "nul_free g" "gget (st_memberships s) (membership_key g v) = Some m"
  shows "mem_org_id m = g"
proof -
  have "mkey m = membership_key g v" "nul_free (mem_org_id m)"
    using assms by (auto simp: apart_def tenancy_wf_def member_ids_ok_def keyed_def)
  then show ?thesis using member_row_org assms(2) by (auto simp: mkey_def)
qed

lemma others_None: "others own t k = None \<longleftrightarrow> (\<forall>x. gget t k = Some x \<longrightarrow> own x)"
  by (auto simp: others_def split: option.split)

named_theorems tenant_keeps \<open>writes of an organization that keep what belongs to others\<close>

lemma elsewhere_put:
  "others (\<lambda>x. org_id x = g) t1 = others (\<lambda>x. org_id x = g) (st_organizations s) \<Longrightarrow>
     elsewhere g (s\<lparr>st_organizations := t1\<rparr>) = elsewhere g s"
  "others (\<lambda>x. mem_org_id x = g) t2 = others (\<lambda>x. mem_org_id x = g) (st_memberships s) \<Longrightarrow>
     elsewhere g (s\<lparr>st_memberships := t2\<rparr>) = elsewhere g s"
  "others (\<lambda>x. proj_org_id x = g) t3 = others (\<lambda>x. proj_org_id x = g) (st_projects s) \<Longrightarrow>
     elsewhere g (s\<lparr>st_projects := t3\<rparr>) = elsewhere g s"
  "others (\<lambda>x. inv_org_id x = g) t4 = others (\<lambda>x. inv_org_id x = g) (st_invitations s) \<Longrightarrow>
     elsewhere g (s\<lparr>st_invitations := t4\<rparr>) = elsewhere g s"
  by (simp_all add: elsewhere_def)

text \<open>A write of one table: it keeps the tables well formed, and the rows of others.\<close>

lemma apartI:
  assumes "keeps tenancy_wf m"
    and "\<And>s. apart g Y s \<Longrightarrow> snd (m s) = s \<or>
      elsewhere g (snd (m s)) = elsewhere g s \<and> st_subscriptions (snd (m s)) = st_subscriptions s \<and> member_ids_ok (snd (m s))"
  shows "keeps (apart g Y) m"
  unfolding keeps_def
proof (intro allI impI)
  fix s
  assume s: "apart g Y s"
  then have "tenancy_wf (snd (m s))" using assms(1) by (simp add: keeps_def apart_def)
  then show "apart g Y (snd (m s))" using assms(2) [OF s] s by (auto simp: apart_def)
qed

lemma apart_org [tenant_keeps]: "org_id x = g \<Longrightarrow> keeps (apart g Y) (update_org x)"
proof (rule apartI [OF tenancy_keeps_uorg])
  fix s
  assume x: "org_id x = g" and s: "apart g Y s"
  have "others (\<lambda>x. org_id x = g) (gput (org_id x) e (st_organizations s)) = others (\<lambda>x. org_id x = g) (st_organizations s)"
    if "gget (st_organizations s) (org_id x) = Some r" "org_id e = org_id r" for r e
    using that x s by (intro others_put) (auto simp: others_None apart_def tenancy_wf_def keyed_def)
  then show "snd (update_org x s) = s \<or>
      elsewhere g (snd (update_org x s)) = elsewhere g s \<and> st_subscriptions (snd (update_org x s)) = st_subscriptions s \<and>
      member_ids_ok (snd (update_org x s))"
    using s by (auto simp: update_org_def Let_def apart_def member_ids_ok_def intro!: elsewhere_put split: option.split)
qed

lemma apart_role [tenant_keeps]:
  assumes "nul_free g"
  shows "keeps (apart g Y) (update_membership_role g v r)" "keeps (apart g Y) (remove_membership g v)"
proof -
  have own: "others (\<lambda>m. mem_org_id m = g) (st_memberships s) (membership_key g v) = None" if "apart g Y s" for s
    using apart_member [OF that assms] by (auto simp: others_None)
  show "keeps (apart g Y) (update_membership_role g v r)"
  proof (rule apartI [OF tenancy_keeps_role])
    fix s
    assume s: "apart g Y s"
    show "snd (update_membership_role g v r s) = s \<or>
        elsewhere g (snd (update_membership_role g v r s)) = elsewhere g s \<and>
        st_subscriptions (snd (update_membership_role g v r s)) = st_subscriptions s \<and>
        member_ids_ok (snd (update_membership_role g v r s))"
      using s own [OF s] apart_member [OF s assms] assms
      by (auto simp: update_membership_role_def Let_def apart_def member_ids_ok_def intro!: elsewhere_put others_put
          split: option.split)
  qed
  show "keeps (apart g Y) (remove_membership g v)"
  proof (rule apartI [OF tenancy_keeps_remove])
    fix s
    assume s: "apart g Y s"
    show "snd (remove_membership g v s) = s \<or>
        elsewhere g (snd (remove_membership g v s)) = elsewhere g s \<and>
        st_subscriptions (snd (remove_membership g v s)) = st_subscriptions s \<and> member_ids_ok (snd (remove_membership g v s))"
      using s own [OF s]
      by (auto simp: remove_membership_def on_tbl_def apart_def member_ids_ok_def intro!: elsewhere_put others_del
          split: sum.split if_splits dest!: tbl_Inr)
  qed
qed

lemma apart_project [tenant_keeps]:
  "proj_org_id x = g \<Longrightarrow> keeps (apart g Y) (create_project x)" "keeps (apart g Y) (delete_project g i)"
proof -
  show "keeps (apart g Y) (create_project x)" if "proj_org_id x = g"
    using that by (intro apartI [OF tenancy_keeps_project])
      (auto simp: create_project_def on_tbl_def apart_def member_ids_ok_def intro!: elsewhere_put others_put others_fresh
        split: sum.split dest!: tbl_Inr)
  show "keeps (apart g Y) (delete_project g i)"
    by (intro apartI [OF tenancy_keeps_dproject])
      (auto simp: delete_project_def apart_def member_ids_ok_def others_None intro!: elsewhere_put others_del
        split: option.split)
qed

lemma apart_invitation [tenant_keeps]:
  "inv_org_id x = g \<Longrightarrow> keeps (apart g Y) (create_invitation x)" "keeps (apart g Y) (revoke_invitation g i)"
proof -
  show "keeps (apart g Y) (create_invitation x)" if "inv_org_id x = g"
    using that by (intro apartI [OF tenancy_keeps_invite])
      (auto simp: create_invitation_def on_tbl_def apart_def member_ids_ok_def intro!: elsewhere_put others_put others_fresh
        split: sum.split dest!: tbl_Inr)
  show "keeps (apart g Y) (revoke_invitation g i)"
    by (intro apartI [OF tenancy_keeps_rinvite])
      (auto simp: revoke_invitation_def apart_def member_ids_ok_def others_None intro!: elsewhere_put others_put
        split: option.split)
qed

lemma apart_records [tenant_keeps]:
  "sub_org_id x = g \<Longrightarrow> keeps (apart g Y) (upsert_subscription x)"
  "ae_org_id e = g \<Longrightarrow> keeps (apart g Y) (create_audit_event e)"
  "keeps (apart g Y) (touch_api_token i now)"
proof -
  show "keeps (apart g Y) (upsert_subscription x)" if "sub_org_id x = g"
    using that by (auto simp: keeps_def apart_def upsert_subscription_def elsewhere_def tenancy_wf_def user_index_ok_def
        member_ids_ok_def keyed_put others_None keyed_def intro!: others_put)
  show "keeps (apart g Y) (create_audit_event e)" if "ae_org_id e = g"
    using that by (simp add: keeps_def apart_def create_audit_event_def elsewhere_def tenancy_wf_def user_index_ok_def
        member_ids_ok_def)
  show "keeps (apart g Y) (touch_api_token i now)"
    by (rule apart_frame) (simp add: touch_api_token_def split: option.split)
qed

section \<open>The requests of an organization\<close>

definition tenants :: "string \<Rightarrow> foreign_rows \<Rightarrow> elsewhere_rows \<Rightarrow> mem \<Rightarrow> bool" where
  "tenants g X Y s \<longleftrightarrow> isolated g X s \<and> apart g Y s"

lemma tenantsI:
  "keeps (on_rows (isolated g X)) m \<Longrightarrow> keeps (on_rows (apart g Y)) m \<Longrightarrow> keeps (on_rows (tenants g X Y)) m"
  by (simp add: keeps_def on_rows_def tenants_def)

lemma yields_rules:
  "Q x \<Longrightarrow> yields I (okE x) Q" "yields I (failE e) Q"
  "(b \<Longrightarrow> yields I m Q) \<Longrightarrow> (\<not> b \<Longrightarrow> yields I n Q) \<Longrightarrow> yields I (if b then m else n) Q"
  "(z = None \<Longrightarrow> yields I m Q) \<Longrightarrow> (\<And>y. z = Some y \<Longrightarrow> yields I (f y) Q) \<Longrightarrow>
     yields I (case z of None \<Rightarrow> m | Some y \<Rightarrow> f y) Q"
  by (auto simp: yields_def okE_def failE_def split: option.split)

lemma organization_row:
  "yields (\<lambda>w. apart g Y (w_mem w)) (or_not_found (on_read (get_organization g))) (\<lambda>x. org_id x = g)"
proof (rule yieldsI)
  show "keeps (\<lambda>w. apart g Y (w_mem w)) (or_not_found (on_read (get_organization g)))" by (intro svc_keeps)
  fix w x t
  assume w: "apart g Y (w_mem w)" and "or_not_found (on_read (get_organization g)) w = (Inr x, t)"
  then have "on_read (get_organization g) w = (Inr x, t)" by (auto elim: or_not_found_E)
  from read_ok [OF this] have "gget (st_organizations (w_mem w)) g = Some x"
    by (auto simp: get_organization_def tbl_get_def split: option.splits)
  then show "org_id x = g" using w keyed_key [of org_id] by (auto simp: apart_def tenancy_wf_def)
qed

lemma identity_tenants [tenant_keeps]:
  assumes "nul_free g"
  shows "keeps (on_rows (tenants g X Y)) (on_world (update_organization u g uo))"
    "keeps (on_rows (tenants g X Y)) (on_world (update_member_role u g v r))"
    "keeps (on_rows (tenants g X Y)) (on_world (remove_member u g v))"
    "keeps (on_rows (tenants g X Y)) (on_world (create_project_in en u g n))"
    "keeps (on_rows (tenants g X Y)) (on_world (delete_project_in u g p))"
    "keeps (on_rows (tenants g X Y)) (on_world (invite cf en u g p e r))"
    "keeps (on_rows (tenants g X Y)) (on_world (revoke_invitation_in u g i))"
proof -
  have upd: "keeps (\<lambda>w. apart g Y (w_mem w)) (update_organization u g uo)"
    unfolding update_organization_def
  proof (rule keeps_bind [OF keeps_authorize], rule bind_yields [OF organization_row])
    fix x :: organization
    assume x: "org_id x = g"
    have "yields (\<lambda>w. apart g Y (w_mem w)) (case uo_name uo of
              None \<Rightarrow> okE x
            | Some n \<Rightarrow> if trim_space n = [] then failE (IValidation ''organization name is required'')
                        else okE (x\<lparr>org_name := trim_space n\<rparr>)) (\<lambda>y. org_id y = g)"
      using x by (intro yields_rules) simp_all
    moreover have "yields (\<lambda>w. apart g Y (w_mem w)) (case uo_billing_email uo of
              None \<Rightarrow> okE y
            | Some b \<Rightarrow> (let email = normalize_email b
                         in if email \<noteq> [] \<and> \<not> email_ok email then failE (IValidation ''invalid billing email'')
                            else okE (y\<lparr>org_billing_email := email\<rparr>))) (\<lambda>y. org_id y = g)" if "org_id y = g" for y :: organization
      unfolding Let_def using that by (intro yields_rules) simp_all
    ultimately show "keeps (\<lambda>w. apart g Y (w_mem w)) (bindE (case uo_name uo of
              None \<Rightarrow> okE x
            | Some n \<Rightarrow> if trim_space n = [] then failE (IValidation ''organization name is required'')
                        else okE (x\<lparr>org_name := trim_space n\<rparr>)) (\<lambda>g.
         bindE (case uo_billing_email uo of
              None \<Rightarrow> okE g
            | Some b \<Rightarrow> (let email = normalize_email b
                         in if email \<noteq> [] \<and> \<not> email_ok email then failE (IValidation ''invalid billing email'')
                            else okE (g\<lparr>org_billing_email := email\<rparr>))) (\<lambda>g.
         or_not_found (on_store (update_org g)))))"
      by (intro bind_yields svc_keeps keeps_on_store tenant_keeps)
  qed
  show "keeps (on_rows (tenants g X Y)) (on_world (update_organization u g uo))"
    by (intro tenantsI iso.identity_frame on_rows_world upd)
  show "keeps (on_rows (tenants g X Y)) (on_world (update_member_role u g v r))"
    "keeps (on_rows (tenants g X Y)) (on_world (remove_member u g v))"
    "keeps (on_rows (tenants g X Y)) (on_world (create_project_in en u g n))"
    "keeps (on_rows (tenants g X Y)) (on_world (delete_project_in u g p))"
    "keeps (on_rows (tenants g X Y)) (on_world (invite cf en u g p e r))"
    "keeps (on_rows (tenants g X Y)) (on_world (revoke_invitation_in u g i))"
    by (intro tenantsI iso.identity_frame; unfold org_ops Let_def;
        intro on_rows_world svc_keeps keeps_on_store tenant_keeps; simp add: new_invitation_def assms)+
qed

lemma app_tenants [tenant_keeps]:
  "keeps (on_rows (tenants g X Y)) (create_app_p be pf en g x)" "keeps (on_rows (tenants g X Y)) (deploy be pf en g i)"
  "keeps (on_rows (tenants g X Y)) (stop_app be g i)" "keeps (on_rows (tenants g X Y)) (restart_app be en g i)"
  "keeps (on_rows (tenants g X Y)) (delete_app_p be g i)" "keeps (on_rows (tenants g X Y)) (rollback_app be pf en g i n)"
  "keeps (on_rows (tenants g X Y)) (update_app_p be pf en g i u)" "keeps (on_rows (tenants g X Y)) (scale_app be pf en g i sc)"
  by (intro tenantsI ap.app_frame, (simp only: stop_app_def restart_app_def)?,
      intro pkeeps app_calls_isolated release_calls_isolated)+

lemma data_tenants [tenant_keeps]:
  "keeps (on_rows (tenants g X Y)) (create_database_p be pf en g y)" "keeps (on_rows (tenants g X Y)) (deploy_database be pf en g i)"
  "keeps (on_rows (tenants g X Y)) (stop_database be pf en g i)" "keeps (on_rows (tenants g X Y)) (restart_database be pf en g i)"
  "keeps (on_rows (tenants g X Y)) (delete_database_p be pf g i)" "keeps (on_rows (tenants g X Y)) (create_service_p be en g p z)"
  "keeps (on_rows (tenants g X Y)) (deploy_service be en g i)" "keeps (on_rows (tenants g X Y)) (stop_service be g i)"
  "keeps (on_rows (tenants g X Y)) (restart_service be en g i)" "keeps (on_rows (tenants g X Y)) (delete_service_p be g i)"
  by (intro tenantsI ap.data_frame,
      (simp only: stop_database_def restart_database_def stop_service_def restart_service_def)?,
      intro pkeeps database_calls_isolated service_calls_isolated)+

lemma config_tenants [tenant_keeps]:
  "keeps (on_rows (tenants g X Y)) (set_env pf en g i k v c)" "keeps (on_rows (tenants g X Y)) (delete_env g i k)"
  "keeps (on_rows (tenants g X Y)) (add_domain pf en g i f)" "keeps (on_rows (tenants g X Y)) (verify_domain be pf en g i dd)"
  "keeps (on_rows (tenants g X Y)) (delete_domain_p be pf g i dd)"
  by (intro tenantsI ap.config_frame config_calls_isolated)+

lemma audit_tenants [tenant_keeps]: "keeps (on_rows (tenants g X Y)) (audit en u g act tt ti meta)"
proof (rule tenantsI [OF iso.audit_frame])
  show "keeps (on_rows (apart g Y)) (audit en u g act tt ti meta)"
    unfolding audit_def audit_as_def by (intro pkeeps on_rows_write tenant_keeps) (simp add: audit_record_def)
qed

lemma subscribe_tenants [tenant_keeps]:
  assumes "external prov"
  shows "keeps (on_rows (tenants g X Y)) (subscribe platform_bstore prov t1 t2 g pl e)"
proof (rule tenantsI [OF iso.subscribe_frame [OF assms]])
  have lift: "keeps (on_rows (apart g Y)) (lift_provider m)" if "reads_only m" for m :: "(string, 'a pworld, 'b) op"
    unfolding lift_provider_def using on_rows_reads [OF that] by (intro pkeeps)
  have up: "keeps (on_rows (apart g Y)) (lift_store (bs_upsert_subscription platform_bstore b))" if "sub_org_id b = g" for b
    unfolding lift_store_def platform_bstore_def using that by (simp, intro pkeeps on_rows_write tenant_keeps)
  show "keeps (on_rows (apart g Y)) (subscribe platform_bstore prov t1 t2 g pl e)"
    unfolding subscribe_def Let_def using assms
    by (intro pkeeps on_rows_reads [OF gates_read(2)] lift up) (simp_all add: external_def)
qed

lemma handler_parts [tenant_keeps]:
  "keeps I m \<Longrightarrow> keeps I (answering f m)" "keeps I m' \<Longrightarrow> keeps I (replying st h m')"
  "keeps I (decoded b :: ('c, 'b) hop)" "keeps I p \<Longrightarrow> keeps I (on_platform p)"
  "keeps I (on_world w) \<Longrightarrow> keeps I (on_identity w)"
proof -
  show "keeps I (decoded b :: ('c, 'b) hop)" unfolding decoded_def by (intro pkeeps)
qed (simp_all add: on_platform_def on_identity_def settled_answering settled_replying)

lemmas handlers_post = handle_update_org_def handle_update_member_def handle_remove_member_def handle_create_invitation_def
  handle_revoke_invitation_def handle_create_project_def handle_delete_project_def handle_create_app_in_project_def
  handle_create_service_def handle_create_app_def handle_update_app_def handle_delete_app_def handle_deploy_app_def
  handle_stop_app_def handle_restart_app_def handle_scale_app_def handle_rollback_app_def handle_set_app_env_def
  handle_delete_app_env_def handle_add_app_domain_def handle_verify_app_domain_def handle_delete_app_domain_def
  handle_deploy_service_def handle_stop_service_def handle_restart_service_def handle_delete_service_def
  handle_create_database_def handle_deploy_database_def handle_stop_database_def handle_restart_database_def
  handle_delete_database_def handle_backup_database_def handle_restore_database_def handle_subscribe_def
  project_or_default_def

lemma settled_rows:
  assumes "\<And>Z. keeps (settled Z) m"
  shows "keeps (on_rows I) m"
  using assms unfolding keeps_def settled_def on_rows_def by (metis prod.inject)

lemma organization_read:
  "yields (on_rows (tenants g X Y)) (answering f (p_read (get_organization g))) (\<lambda>x. org_id x = g)"
proof (rule yieldsI)
  show "keeps (on_rows (tenants g X Y)) (answering f (p_read (get_organization g)))" by (intro tenant_keeps pkeeps)
  fix p x q
  assume p: "on_rows (tenants g X Y) p" and "answering f (p_read (get_organization g)) p = (Inr x, q)"
  then have "get_organization g (rows p) = Inr x" by (auto dest!: answering_ok read_value)
  then have "gget (st_organizations (rows p)) g = Some x" by (auto simp: get_organization_def tbl_get_def split: option.splits)
  then show "org_id x = g"
    using p keyed_key [of org_id] by (auto simp: on_rows_def tenants_def apart_def tenancy_wf_def)
qed

lemma spend_cap_tenants [tenant_keeps]: "keeps (on_rows (tenants g X Y)) (handle_set_spend_cap en u g b)"
proof -
  have upd: "keeps (on_rows (tenants g X Y)) (p_write (update_org x))" if "org_id x = g" for x
    using that by (intro tenantsI on_rows_write iso.tenancy tenant_keeps)
  show ?thesis unfolding handle_set_spend_cap_def Let_def
    by (intro pkeeps tenant_keeps bind_yields [OF organization_read] upd) simp
qed

lemma run_app_tenants: "keeps (on_rows (tenants g X Y)) (run_app sv hc en u g i x)"
proof (cases "app_method x = ''GET''")
  case True
  then show ?thesis by (intro settled_rows get_app_safe)
next
  case False
  then show ?thesis
    by (cases x; simp; unfold handlers_post Let_def; intro pkeeps tenant_keeps)
qed

lemma run_data_tenants:
  "keeps (on_rows (tenants g X Y)) (run_database sv hc en u g i d)"
  "keeps (on_rows (tenants g X Y)) (run_service sv en g i v)"
proof -
  show "keeps (on_rows (tenants g X Y)) (run_database sv hc en u g i d)"
  proof (cases "database_method d = ''GET''")
    case True
    then show ?thesis by (intro settled_rows get_resource_safe)
  next
    case False
    then show ?thesis by (cases d; simp; unfold handlers_post Let_def; intro pkeeps tenant_keeps)
  qed
  show "keeps (on_rows (tenants g X Y)) (run_service sv en g i v)"
    by (cases v; simp; unfold handlers_post Let_def; intro pkeeps tenant_keeps)
qed

lemma run_org_tenants:
  assumes "nul_free g" "external prov"
  shows "keeps (on_rows (tenants g X Y)) (run_org sv prov hc en u g x)"
proof (cases "org_method x = ''GET''")
  case True
  then show ?thesis by (intro settled_rows get_org_safe)
next
  case False
  note read = on_rows_reads [OF identity_reads(6)]
  from False show ?thesis
    by (cases x; simp add: run_app_tenants run_data_tenants spend_cap_tenants;
        unfold handlers_post Let_def; intro pkeeps tenant_keeps read assms)
qed

text \<open>C2: a request under an organization leaves everything of everybody else alone: whatever its route,
  whoever sends it, whatever fails and whatever the cluster does, no app, database, service, domain,
  build, release or variable of another organization changes, nor another organization itself, its
  members, projects, invitations, subscription or audit trail, nor any account, session, plan,
  price, template, setting or usage record.\<close>

theorem organization_request_stays_inside:
  assumes "respond sv prov hc en r (Org g x) s = (rep, t)"
    and "external prov" "nul_free g" "mem_wf (rows (si_world s))" "member_ids_ok (rows (si_world s))"
  shows "foreign g (rows (si_world t)) = foreign g (rows (si_world s)) \<and>
         elsewhere g (rows (si_world t)) = elsewhere g (rows (si_world s))"
proof -
  let ?I = "tenants g (foreign g (rows (si_world s))) (elsewhere g (rows (si_world s)))"
  obtain ok l where l: "rate_limit_middleware en r (Org g x) (si_limiter s) = (ok, l)" by (metis surj_pair)
  obtain y q where h: "handle_route sv prov hc en r (Org g x) (si_world s) = (y, q)" by (metis surj_pair)
  obtain z w where z: "auth_middleware en r (si_world s) = (z, w)" by (metis surj_pair)
  have s: "?I (rows (si_world s))" using assms(4,5) by (simp add: tenants_def isolated_def apart_def mem_wf_def billing_wf_def)
  have touch: "keeps ?I (touch_api_token i now)" for i now
    using iso.records(3) [of g _ i now] apart_records(3) [of g _ i now] by (simp add: keeps_def tenants_def)
  have "only_noted (rows (si_world s)) (rows w)" using auth_middleware_outcome(1) [OF z] by (simp add: noted_def)
  then have w: "on_rows ?I w" using s touch by (auto simp: only_noted_def on_rows_def keeps_def)
  have k: "keeps (on_rows ?I) (bindE (run_guard (org_guard x) u g) (\<lambda>_. run_org sv prov hc en u g x))" for u
    using run_org_tenants [OF assms(3,2)] by (intro pkeeps on_rows_reads [OF guard_reads])
  have "on_rows ?I q"
  proof (cases z)
    case (Inr u)
    then show ?thesis using keepsD [OF k w, of u] h z by (simp add: bindE_def [of "auth_middleware en r"])
  qed (use h z w in \<open>auto simp: bindE_def\<close>)
  moreover have "si_world t = si_world s \<or> si_world t = q"
    using assms(1) l h by (auto simp: respond_def split: sum.splits if_splits)
  ultimately have "?I (rows (si_world t))" using s by (auto simp: on_rows_def)
  then show ?thesis by (simp add: tenants_def isolated_def apart_def)
qed

end
