(* ===== verification/Platform_Gates.thy ===== *)
theory Platform_Gates
  imports Platform_Isolation
begin

text \<open>
  What a platform call may not do: work for an organization whose subscription does not stand,
  touch what belongs to somebody else, bring back an app its owner stopped.
\<close>

section \<open>The store behind the platform\<close>

lemma follows_on_world: "follows w_mem m n \<Longrightarrow> follows rows (on_world m) n"
  unfolding follows_def on_world_def rows_def by (simp add: case_prod_beta)

interpretation shared: faithful_store platform_bstore rows
  by unfold_locales (simp_all add: platform_bstore_def p_read_def p_write_def follows_on_world follows_on_read
      follows_on_store)

lemma seen_eq: "seen q = seen p \<longleftrightarrow> rows q = rows p \<and> pw_cluster q = pw_cluster p \<and> pw_builds q = pw_builds p"
  by (auto simp: seen_def)

section \<open>The billing gate\<close>

lemma ensure_active_blocked:
  assumes "standing_blocks (rows p) g"
  shows "\<exists>e q. ensure_active_p en g p = (Inl e, q) \<and> seen q = seen p"
proof -
  obtain r q where run: "ensure_active_p en g p = (r, q)" by fastforce
  have "r \<noteq> Inr u" for u
  proof
    assume "r = Inr u"
    then have "ensure_active platform_bstore (pe_now en 0) g p = (Inr (), q)"
      using run by (auto simp: ensure_active_p_def lift_b_def failE_def okE_def elim!: tryE_E)
    from shared.ensure_active_sound [OF this] show False using assms by simp
  qed
  moreover have "seen q = seen p" using reads_onlyD [OF gate_parts_read(1) run] .
  ultimately show ?thesis using run by (cases r) auto
qed

text \<open>Behind a closed gate nothing happens, whatever comes after it.\<close>

lemma gate_closed:
  fixes I :: "'c pworld \<Rightarrow> bool"
  assumes "\<And>p. I p \<Longrightarrow> standing_blocks (rows p) g" "\<And>p q. seen q = seen p \<Longrightarrow> I p \<Longrightarrow> I q"
  shows "keeps I (bindE (ensure_active_p en g) k)" "keeps I (bindE (regate en g cpu m) k)"
proof -
  have *: "keeps I (bindE (ensure_active_p en g) k)" for k :: "unit \<Rightarrow> ('c, 'b) pop"
    unfolding keeps_def
  proof (intro allI impI)
    fix p
    assume "I p"
    moreover obtain e q where "ensure_active_p en g p = (Inl e, q)" "seen q = seen p"
      using ensure_active_blocked assms(1) [OF \<open>I p\<close>] by blast
    ultimately show "I (snd (bindE (ensure_active_p en g) k p))" using assms(2) by (simp add: bindE_def)
  qed
  show "keeps I (bindE (ensure_active_p en g) k)" "keeps I (bindE (regate en g cpu m) k)"
    unfolding regate_def bindE_assoc by (rule *)+
qed

fun gated :: "platform_call \<Rightarrow> bool" where
  "gated (PStop _) = False"
| "gated (PDelete _) = False"
| "gated (PStopDatabase _) = False"
| "gated (PDeleteDatabase _) = False"
| "gated (PStopService _) = False"
| "gated (PDeleteService _) = False"
| "gated (PSetEnv _ _ _ _) = False"
| "gated (PDeleteEnv _ _) = False"
| "gated (PAddDomain _ _) = False"
| "gated (PVerifyDomain _ _) = False"
| "gated (PDeleteDomain _ _) = False"
| "gated _ = True"

definition frozen :: "mem \<Rightarrow> 'c \<Rightarrow> build_request list \<Rightarrow> 'c pworld \<Rightarrow> bool" where
  "frozen s c b p \<longleftrightarrow> seen p = (s, c, b)"

lemma frozen_reads: "reads_only m \<Longrightarrow> keeps (frozen s c b) m"
  by (simp add: keeps_def reads_only_def frozen_def)

lemmas frozen_parts = keeps_ok keeps_fail keeps_bind keeps_try keeps_if keeps_option keeps_pair
  reading_parts [THEN frozen_reads] reads_only_lift(1) [OF reads_only_read, THEN frozen_reads]

lemma frozen_gate:
  assumes "standing_blocks s g"
  shows "keeps (frozen s c b) (bindE (ensure_active_p en g) k)" "keeps (frozen s c b) (bindE (regate en g cpu m) k)"
  using assms by (intro gate_closed; auto simp: frozen_def seen_def)+

text \<open>Scaling writes the bounds before it asks.\<close>

definition idle :: "string \<Rightarrow> 'c \<Rightarrow> build_request list \<Rightarrow> 'c pworld \<Rightarrow> bool" where
  "idle g c b p \<longleftrightarrow> standing_blocks (rows p) g \<and> pw_cluster p = c \<and> pw_builds p = b"

lemma idle_split: "idle g c b = (\<lambda>p. on_rows (\<lambda>s. standing_blocks s g) p \<and> on_side (\<lambda>x y. x = c \<and> y = b) p)"
  by (auto simp: idle_def on_rows_def on_side_def)

lemma keeps_conj: "keeps I m \<Longrightarrow> keeps J m \<Longrightarrow> keeps (\<lambda>p. I p \<and> J p) m"
  by (simp add: keeps_def)

lemma standing_update_app: "keeps (\<lambda>s. standing_blocks s g) (update_app a)"
proof -
  have "st_subscriptions (snd (update_app a s)) = st_subscriptions s" "st_settings (snd (update_app a s)) = st_settings s" for s
    by (simp_all add: update_app_def on_tbl_def split: sum.split)
  then have "standing_blocks (snd (update_app a s)) g = standing_blocks s g" for s
    unfolding standing_blocks_def stored_subscription_def by metis
  then show ?thesis by (simp add: keeps_def)
qed

lemma idle_persist: "keeps (idle g c b) (persist_app_spec a)"
  unfolding idle_split persist_app_spec_def Let_def
  by (rule keeps_conj) (intro pkeeps on_rows_write standing_update_app)+

lemma idle_reads: "reads_only m \<Longrightarrow> keeps (idle g c b) m"
  unfolding idle_split by (intro keeps_conj on_rows_reads on_side_reads)

lemma scale_idle:
  fixes be :: "'c backend"
  shows "keeps (idle g c b) (scale_app be pf en g i x)"
proof -
  have gate: "keeps (idle g c b) (bindE (ensure_active_p en g) k)" for k :: "unit \<Rightarrow> ('c, app) pop"
    by (intro gate_closed) (auto simp: idle_def seen_def)
  show ?thesis unfolding scale_app_def Let_def
    by (intro keeps_bind keeps_if keeps_ok keeps_fail idle_persist gate idle_reads lookups_read gate_parts_read gate)
qed

lemma gated_frozen:
  assumes "standing_blocks s g" "gated c" "\<And>i x. c \<noteq> PScale i x"
  shows "keeps (frozen s cl b) (run_platform be pf en g c)"
proof (cases c)
  case (PScale i x)
  then show ?thesis using assms(3) by blast
qed (use assms(2) in \<open>simp_all add: no_result_def create_app_p_def deploy_def restart_app_def rollback_app_def
      update_app_p_def create_database_p_def deploy_database_def start_database_def restart_database_def
      ensure_database_runnable_def create_service_p_def deploy_service_def restart_service_def bindE_assoc\<close>,
    (intro frozen_parts frozen_gate assms(1))+)

text \<open>The calls that pass no gate. The two that change a verified domain roll the app out again.\<close>

fun rolls_out :: "platform_call \<Rightarrow> bool" where
  "rolls_out (PVerifyDomain _ _) = True"
| "rolls_out (PDeleteDomain _ _) = True"
| "rolls_out c = gated c"

definition starting_with ::
  "(workload \<Rightarrow> ('c, string \<times> string) bop) \<Rightarrow> (string \<Rightarrow> string \<Rightarrow> ('c, unit) bop) \<Rightarrow>
   (string \<Rightarrow> string \<Rightarrow> ('c, unit) bop) \<Rightarrow> 'c backend \<Rightarrow> 'c backend" where
  "starting_with apply start restart be = be\<lparr>be_apply := apply, be_start := start, be_restart := restart\<rparr>"

lemma ungated_start_nothing:
  "\<not> rolls_out c \<Longrightarrow> run_platform (starting_with ap st rs be) pf en g c = run_platform be pf en g c"
  by (cases c) (simp_all add: platform_ops starting_with_def cong: if_cong)

lemma builds_on_cluster [pkeeps]: "keeps (on_side (\<lambda>_ y. y = b)) (on_cluster m)"
  by (rule on_side_cluster) (simp add: keeps_def)

lemma builds_apply [pkeeps]: "keeps (on_side (\<lambda>_ y. y = b)) (apply_app be pf a o_s p_s)"
  unfolding apply_app_def Let_def by (intro pkeeps)

lemma ungated_builds: "\<not> gated c \<Longrightarrow> keeps (on_side (\<lambda>_ y. y = b)) (run_platform be pf en g c)"
  by (cases c; (simp; fail | simp only: run_platform.simps platform_ops platform_parts Let_def; intro pkeeps))

text \<open>C4: whatever calls of the store fail, an organization whose subscription is canceled, unpaid, or
  past due without grace starts no work by a call that creates, deploys, restarts, rolls back,
  updates or scales: it reaches neither the cluster nor the builder, and leaves every row as it
  was (scaling may store new bounds). No other call hands a build to the builder, and except for
  verifying and deleting a domain none asks the cluster to apply, start or restart anything: it
  does the same on a backend where these three do whatever they like. Those two roll the app
  out again without the gate, as verify_domain_revives_stopped_app (Platform_Failures) shows.\<close>

theorem unpaid_starts_no_work:
  assumes "standing_blocks (rows p) g" "run_platform be pf en g c p = (r, q)"
  shows "pw_builds q = pw_builds p \<and>
    (gated c \<longrightarrow> pw_cluster q = pw_cluster p \<and> (rows q = rows p \<or> (\<exists>i x. c = PScale i x))) \<and>
    (\<not> rolls_out c \<longrightarrow> run_platform (starting_with apply start restart be) pf en g c p = (r, q))"
proof (intro conjI impI)
  have gated: "pw_builds q = pw_builds p \<and> pw_cluster q = pw_cluster p \<and> (rows q = rows p \<or> (\<exists>i x. c = PScale i x))"
    if "gated c"
  proof (cases "\<exists>i x. c = PScale i x")
    case True
    then obtain i x where c: "c = PScale i x" by blast
    have "keeps (idle g (pw_cluster p) (pw_builds p)) (run_platform be pf en g c)"
      unfolding c by (simp add: no_result_def keeps_bind scale_idle)
    then have "idle g (pw_cluster p) (pw_builds p) q"
      using assms unfolding keeps_def by (metis idle_def snd_conv)
    then show ?thesis using True by (simp add: idle_def)
  next
    case False
    have "frozen (rows p) (pw_cluster p) (pw_builds p) q"
      using keepsD [OF gated_frozen [OF assms(1) that], of "pw_cluster p" "pw_builds p" p be pf en] False assms(2)
      by (simp add: frozen_def seen_def)
    then show ?thesis by (simp add: frozen_def seen_def)
  qed
  then show "gated c \<Longrightarrow> pw_cluster q = pw_cluster p" "gated c \<Longrightarrow> rows q = rows p \<or> (\<exists>i x. c = PScale i x)"
    by blast+
  show "pw_builds q = pw_builds p"
    using gated keepsD [OF ungated_builds, of c "pw_builds p" p be pf en g] assms(2)
    by (cases "gated c") (simp_all add: on_side_def)
  show "run_platform (starting_with apply start restart be) pf en g c p = (r, q)" if "\<not> rolls_out c"
    using ungated_start_nothing [OF that] assms(2) by metis
qed

section \<open>Rows of somebody else\<close>

datatype row_name = AppRow string | DatabaseRow string | ServiceRow string

fun names_row :: "platform_call \<Rightarrow> row_name option" where
  "names_row (PCreateApp _) = None"
| "names_row (PCreateDatabase _) = None"
| "names_row (PCreateService _ _) = None"
| "names_row (PDeployDatabase i) = Some (DatabaseRow i)"
| "names_row (PStopDatabase i) = Some (DatabaseRow i)"
| "names_row (PStartDatabase i) = Some (DatabaseRow i)"
| "names_row (PRestartDatabase i) = Some (DatabaseRow i)"
| "names_row (PDeleteDatabase i) = Some (DatabaseRow i)"
| "names_row (PDeployService i) = Some (ServiceRow i)"
| "names_row (PStopService i) = Some (ServiceRow i)"
| "names_row (PRestartService i) = Some (ServiceRow i)"
| "names_row (PDeleteService i) = Some (ServiceRow i)"
| "names_row (PDeploy i) = Some (AppRow i)"
| "names_row (PStop i) = Some (AppRow i)"
| "names_row (PRestart i) = Some (AppRow i)"
| "names_row (PDelete i) = Some (AppRow i)"
| "names_row (PRollback i _) = Some (AppRow i)"
| "names_row (PUpdate i _) = Some (AppRow i)"
| "names_row (PScale i _) = Some (AppRow i)"
| "names_row (PSetEnv i _ _ _) = Some (AppRow i)"
| "names_row (PDeleteEnv i _) = Some (AppRow i)"
| "names_row (PAddDomain i _) = Some (AppRow i)"
| "names_row (PVerifyDomain i _) = Some (AppRow i)"
| "names_row (PDeleteDomain i _) = Some (AppRow i)"

fun row_owner :: "mem \<Rightarrow> row_name \<Rightarrow> string option" where
  "row_owner s (AppRow i) = map_option app_org_id (gget (st_apps s) i)"
| "row_owner s (DatabaseRow i) = map_option db_org_id (gget (st_databases s) i)"
| "row_owner s (ServiceRow i) = map_option svc_org_id (gget (st_services s) i)"

definition refuses :: "(mem \<Rightarrow> bool) \<Rightarrow> ('c, 'a) pop \<Rightarrow> bool" where
  "refuses P m \<longleftrightarrow> (\<forall>p. P (rows p) \<longrightarrow>
     (\<exists>e q. m p = (Inl e, q) \<and> seen q = seen p \<and> (e = PNotFound \<or> (\<not> healthy (pw_w p) \<and> (\<exists>x. e = PStore x)))))"

lemma refuses_bind: "refuses P m \<Longrightarrow> refuses P (bindE m k)"
  unfolding refuses_def by (metis bindE_simps(1))

lemma on_read_healthy: "healthy w \<Longrightarrow> on_read r w = (r (w_mem w), w)"
  by (simp add: on_read_def on_store_def healthy_def faulty_healthy readE_def)

lemma p_read_healthy: "healthy (pw_w p) \<Longrightarrow> p_read r p = (r (rows p), p)"
  by (simp add: p_read_def on_world_def on_read_healthy rows_def)

lemma refuses_lookup:
  fixes k :: "'a \<Rightarrow> ('c, 'b) pop"
  assumes "\<And>s x. P s \<Longrightarrow> r s = Inr x \<Longrightarrow> \<exists>q. k x = failE q \<and> q = PNotFound"
    and "\<And>s e. P s \<Longrightarrow> r s = Inl e \<Longrightarrow> e = ErrNotFound"
  shows "refuses P (tryE (p_read r) (\<lambda>e. if e = ErrNotFound then failE PNotFound else failE (PStore e)) k)"
  unfolding refuses_def
proof (intro allI impI)
  fix p :: "'c pworld"
  assume p: "P (rows p)"
  obtain x u where run: "p_read r p = (x, u)" by fastforce
  then have u: "seen u = seen p" using reads_onlyD [OF reads_only_read] by blast
  show "\<exists>e q. tryE (p_read r) (\<lambda>e. if e = ErrNotFound then failE PNotFound else failE (PStore e)) k p = (Inl e, q) \<and>
      seen q = seen p \<and> (e = PNotFound \<or> (\<not> healthy (pw_w p) \<and> (\<exists>x. e = PStore x)))"
  proof (cases x)
    case (Inl e)
    have "e = ErrNotFound" if "healthy (pw_w p)"
    proof -
      have "r (rows p) = Inl e" using run that Inl by (auto simp: p_read_healthy)
      with p show ?thesis by (rule assms(2))
    qed
    then show ?thesis using run Inl u by (auto simp: tryE_def failE_def)
  next
    case (Inr y)
    have "p_read r p = (Inr y, u)" using run Inr by simp
    then have "r (rows p) = Inr y" by (rule read_row)
    then show ?thesis using run Inr u assms(1) [OF p] by (auto simp: tryE_def failE_def)
  qed
qed

lemma refuses_owned:
  "refuses (\<lambda>s. row_owner s (AppRow i) \<noteq> Some g) (owned_app g i)"
  "refuses (\<lambda>s. row_owner s (DatabaseRow i) \<noteq> Some g) (owned_database pf g i)"
  "refuses (\<lambda>s. row_owner s (ServiceRow i) \<noteq> Some g) (owned_service g i)"
  unfolding owned_app_def owned_database_def owned_service_def
  by (rule refuses_lookup; auto simp: get_app_def get_database_def get_service_def tbl_get_def split: option.splits)+

lemma refuses_no_result: "refuses P m \<Longrightarrow> refuses P (no_result m)"
  unfolding no_result_def by (rule refuses_bind)

lemma refuses_call:
  assumes "names_row c = Some n"
  shows "refuses (\<lambda>s. row_owner s n \<noteq> Some g) (run_platform be pf en g c)"
  using assms
  by (cases c) (auto simp: deploy_def app_action_def stop_app_def restart_app_def delete_app_p_def rollback_app_def
      update_app_p_def scale_app_def deploy_database_def database_action_def stop_database_def start_database_def
      restart_database_def ensure_database_runnable_def delete_database_p_def deploy_service_def service_action_def
      stop_service_def restart_service_def delete_service_p_def set_env_def delete_env_def add_domain_def
      verify_domain_def delete_domain_p_def simp del: row_owner.simps
      intro!: refuses_no_result refuses_bind refuses_owned)


text \<open>and whatever calls of the store fail, no call of a member of one organization changes an
  app, database, service or domain of another, or a build, a release or the environment of
  another's app.\<close>

theorem tenant_rows_isolated:
  assumes "workloads_wf (rows p)" "run_platform be pf en g c p = (r, q)"
  shows "foreign g (rows q) = foreign g (rows p)"
  using keepsD [OF platform_isolated, of g "foreign g (rows p)" p be pf en c] assms
  by (simp add: on_rows_def isolated_def)

section \<open>Stopped apps\<close>

definition app_stopped :: "string \<Rightarrow> mem \<Rightarrow> bool" where
  "app_stopped i s \<longleftrightarrow> (\<exists>a. gget (st_apps s) i = Some a \<and> app_status a = ''stopped'' \<and> app_id a = i)"

definition resting :: "string \<Rightarrow> 'c \<Rightarrow> 'c pworld \<Rightarrow> bool" where
  "resting i c p \<longleftrightarrow> app_stopped i (rows p) \<and> pw_cluster p = c"

lemma resting_split: "resting i c = (\<lambda>p. on_rows (app_stopped i) p \<and> on_side (\<lambda>x _. x = c) p)"
  by (simp add: fun_eq_iff resting_def on_rows_def on_side_def)

lemma resting_reads: "reads_only m \<Longrightarrow> keeps (resting i c) m"
  unfolding resting_split by (intro keeps_conj on_rows_reads on_side_reads)

lemmas resting_parts = keeps_ok keeps_fail keeps_if keeps_option keeps_pair keeps_bind keeps_try
  reading_parts [THEN resting_reads] reads_only_lift(1) [OF reads_only_read, THEN resting_reads]

lemma stopped_update: "app_status a = ''stopped'' \<Longrightarrow> keeps (app_stopped i) (update_app a)"
  by (auto simp: keeps_def app_stopped_def update_app_def on_tbl_def tbl_update_def split: option.splits if_splits)

lemma resting_persist:
  assumes "app_id a = i" "app_status a = ''stopped''"
  shows "yields (resting i c) (persist_app_spec a) (\<lambda>b. app_status b = ''stopped'')"
proof (rule yieldsI)
  have "app_status (spec_onto a x) = ''stopped''" for x using assms by (simp add: spec_onto_def)
  then show "keeps (resting i c) (persist_app_spec a)"
    unfolding resting_split persist_app_spec_def Let_def
    by (intro keeps_conj) (intro pkeeps on_rows_write stopped_update; simp)+
  show "app_status b = ''stopped''" if "persist_app_spec a p = (Inr b, q)" for p b q
    using that assms by (auto simp: persist_app_spec_def Let_def okE_def spec_onto_def elim!: bindE_InrE)
qed

lemma resting_owned: "yields (resting i c) (owned_app g i) (\<lambda>a. app_status a = ''stopped'' \<and> app_id a = i)"
proof (rule yieldsI)
  show "keeps (resting i c) (owned_app g i)" by (intro resting_parts)
  fix p a q
  assume p: "resting i c p" and "owned_app g i p = (Inr a, q)"
  then have "get_app i (rows p) = Inr a"
    by (auto simp: owned_app_def failE_def okE_def elim!: tryE_E split: if_splits dest: read_row)
  then show "app_status a = ''stopped'' \<and> app_id a = i"
    using p by (auto simp: resting_def app_stopped_def get_app_def tbl_get_def split: option.splits)
qed

lemma resting_get: "yields (resting i c) (p_read (get_app i)) (\<lambda>a. app_status a = ''stopped'' \<and> app_id a = i)"
proof (rule yieldsI)
  show "keeps (resting i c) (p_read (get_app i))" by (intro resting_parts)
  fix p a q
  assume p: "resting i c p" and "p_read (get_app i) p = (Inr a, q)"
  then have "get_app i (rows p) = Inr a" by (rule_tac read_row)
  then show "app_status a = ''stopped'' \<and> app_id a = i"
    using p by (auto simp: resting_def app_stopped_def get_app_def tbl_get_def split: option.splits)
qed

lemma try_yields:
  "yields I m Q \<Longrightarrow> (\<And>e. keeps I (h e)) \<Longrightarrow> (\<And>x. Q x \<Longrightarrow> keeps I (k x)) \<Longrightarrow> keeps I (tryE m h k)"
  unfolding keeps_def yields_def tryE_def by (auto split: prod.splits sum.splits)

lemma resting_write_app: "app_status a = ''stopped'' \<Longrightarrow> keeps (resting i c) (dropped (p_write (update_app a)))"
  unfolding resting_split by (intro keeps_conj pkeeps on_rows_write stopped_update)

lemma resting_finish: "keeps (resting i c) (finish_build b f)"
proof -
  have "keeps (app_stopped i) (update_build x)" for x
    by (auto simp: keeps_def app_stopped_def update_build_def on_tbl_def split: sum.splits)
  then have "keeps (on_rows (app_stopped i)) (finish_build b f)"
    unfolding finish_build_def by (intro pkeeps on_rows_write)
  moreover have "keeps (on_side (\<lambda>x _. x = c)) (finish_build b f)"
    unfolding finish_build_def by (intro pkeeps)
  ultimately show ?thesis unfolding resting_split by (rule keeps_conj)
qed

lemma resting_builds:
  "keeps (resting i c) (finish_build_success be pf en i b o_s p_s im)"
  "keeps (resting i c) (finish_build_failure en i b logs)"
proof -
  have set: "keeps (resting i c) (set_status_unless_stopped i st)" for st
    unfolding set_status_unless_stopped_def by (rule try_yields [OF resting_get]) (simp_all add: keeps_ok)
  show "keeps (resting i c) (finish_build_failure en i b logs)"
    unfolding finish_build_failure_def by (intro keeps_bind set resting_finish)
  show "keeps (resting i c) (finish_build_success be pf en i b o_s p_s im)"
    unfolding finish_build_success_def
    by (rule keeps_bind, rule resting_finish, rule try_yields [OF resting_get])
      (simp_all add: keeps_ok resting_write_app)
qed

lemma resting_calls:
  "keeps (resting i c) (rollback_app be pf en g i n)" "keeps (resting i c) (update_app_p be pf en g i u)"
  "keeps (resting i c) (scale_app be pf en g i x)"
proof -
  have y: "yields (resting i c) (persist_app_spec a) (\<lambda>b. app_status b = ''stopped'')"
    if "app_status a = ''stopped'' \<and> app_id a = i" for a
    using that by (intro resting_persist) simp_all
  have last: "keeps (resting i c) (persist_app_spec a)" if "app_status a = ''stopped'' \<and> app_id a = i" for a
    using y [OF that] by (rule yields_keeps)
  have persist: "keeps (resting i c) (bindE (persist_app_spec a) k)"
    if "app_status a = ''stopped'' \<and> app_id a = i" "\<And>b. app_status b = ''stopped'' \<Longrightarrow> keeps (resting i c) (k b)" for a k
    using y [OF that(1)] that(2) by (rule bind_yields)
  show "keeps (resting i c) (rollback_app be pf en g i n)"
    unfolding rollback_app_def Let_def
    by (rule bind_yields [OF resting_owned], rule keeps_bind, intro resting_parts, rule keeps_bind, intro resting_parts,
        rule keeps_option, intro resting_parts, rule keeps_if, intro resting_parts, rule keeps_bind, intro resting_parts)
      (simp add: last)
  show "keeps (resting i c) (update_app_p be pf en g i u)"
    unfolding update_app_p_def Let_def
    by (rule bind_yields [OF resting_owned], rule keeps_bind, intro resting_parts, rule keeps_bind, intro resting_parts,
        rule keeps_pair, rule keeps_bind, intro resting_parts, rule persist) (simp_all add: edited_def keeps_ok)
  show "keeps (resting i c) (scale_app be pf en g i x)"
    unfolding scale_app_def Let_def
    by (rule bind_yields [OF resting_owned], rule keeps_if, intro resting_parts, rule keeps_bind, intro resting_parts,
        rule keeps_if, intro resting_parts, rule persist) (simp_all add: keeps_ok)
qed

text \<open>C5: an app its owner stopped is not brought back by what may still be under way or changed on it:
  a rollback, an update, a scaling or the end of a build, whatever fails meanwhile, leaves the
  cluster alone and the app stopped.\<close>

theorem stopped_app_not_revived:
  assumes "workloads_wf (rows p)" "gget (st_apps (rows p)) i = Some a" "app_status a = ''stopped''"
    "m \<in> {run_platform be pf en g (PRollback i v), run_platform be pf en g (PUpdate i u), run_platform be pf en g (PScale i x)}
     \<or> (m = run_build be pf en k result \<and> k < length (pw_builds p) \<and> br_app_id (pw_builds p ! k) = i)"
    "m p = (r, q)"
  shows "pw_cluster q = pw_cluster p \<and> (\<exists>b. gget (st_apps (rows q)) i = Some b \<and> app_status b = ''stopped'')"
proof -
  have p: "resting i (pw_cluster p) p"
    using assms(1-3) by (auto simp: resting_def app_stopped_def workloads_wf_def keyed_def)
  have "resting i (pw_cluster p) q"
  proof (cases "m = run_build be pf en k result \<and> k < length (pw_builds p) \<and> br_app_id (pw_builds p ! k) = i")
    case True
    let ?p = "p\<lparr>pw_builds := take k (pw_builds p) @ drop (Suc k) (pw_builds p)\<rparr>"
    have p': "resting i (pw_cluster p) ?p" using p by (simp add: resting_def rows_def)
    show ?thesis
    proof (cases result)
      case (Inl logs)
      then have "q = snd (finish_build_failure en i (br_build_id (pw_builds p ! k)) logs ?p)"
        using assms(5) True by (auto simp: run_build_def Let_def)
      then show ?thesis using keepsD [OF resting_builds(2) p'] by simp
    next
      case (Inr im)
      then have "q = snd (finish_build_success be pf en i (br_build_id (pw_builds p ! k)) (br_org_slug (pw_builds p ! k))
          (br_project_slug (pw_builds p ! k)) im ?p)"
        using assms(5) True by (auto simp: run_build_def Let_def)
      then show ?thesis using keepsD [OF resting_builds(1) p'] by simp
    qed
  next
    case False
    then have "keeps (resting i (pw_cluster p)) m"
      using assms(4) by (auto simp: no_result_def intro!: keeps_bind resting_calls)
    then show ?thesis using p assms(5) unfolding keeps_def by (metis snd_conv)
  qed
  then show ?thesis by (auto simp: resting_def app_stopped_def)
qed

end
