(* ===== verification/Http_Tokens.thy ===== *)
theory Http_Tokens
  imports Http_Access Platform_Gates
begin

text \<open>
  The life of a personal access token: from the request that issues it, over the requests it
  authenticates, to its expiry or deletion.
\<close>

lemma p_write_healthy:
  "healthy (pw_w p) \<Longrightarrow> p_write m p = (fst (m (rows p)), p\<lparr>pw_w := (pw_w p)\<lparr>w_mem := snd (m (rows p))\<rparr>\<rparr>)"
  by (simp add: p_write_def on_world_def healthy_call rows_def)

lemma rows_with [simp]: "rows (p\<lparr>pw_w := (pw_w p)\<lparr>w_mem := s\<rparr>\<rparr>) = s"
  by (simp add: rows_def)

text \<open>The audit trail is the only other thing a handler writes.\<close>

definition logged :: "audit_event \<Rightarrow> mem \<Rightarrow> mem" where
  "logged e s = s\<lparr>st_audit_events := st_audit_events s @ [e]\<rparr>"

lemma audit_healthy:
  "healthy (pw_w p) \<Longrightarrow> audit en u g act tt ti meta p =
    (Inr (), p\<lparr>pw_w := (pw_w p)\<lparr>w_mem := logged (audit_record en (user_id u) (user_email u) g act tt ti meta) (rows p)\<rparr>\<rparr>)"
  by (simp add: audit_def audit_as_def tryE_def p_write_healthy create_audit_event_def okE_def logged_def)

definition expired :: "http_env \<Rightarrow> api_token \<Rightarrow> bool" where
  "expired en t \<longleftrightarrow> at_expires_at t \<noteq> zero_time \<and> at_expires_at t \<le> he_now en"

text \<open>What a token stands for, read off the table.\<close>

definition token_user :: "http_env \<Rightarrow> string \<Rightarrow> mem \<Rightarrow> user option" where
  "token_user en tok s =
     (case find (\<lambda>t. at_token_hash t = he_sha256_hex en tok) (gvals (st_api_tokens s)) of
        None \<Rightarrow> None
      | Some t \<Rightarrow> if expired en t then None else gget (st_users s) (at_user_id t))"

lemma auth_with_token:
  assumes "healthy (pw_w p)" "access_token_from_request r = tok" "has_prefix tok api_token_prefix" "tok \<noteq> []"
  shows "fst (auth_middleware en r p) =
     (case token_user en tok (rows p) of
        None \<Rightarrow> Inl (write_error 401 ''invalid or expired token'') | Some u \<Rightarrow> Inr u)"
proof -
  have user: "on_world (get_user i) p = ((case gget (st_users (rows p)) i of None \<Rightarrow> Inl (IStore ErrNotFound) | Some u \<Rightarrow> Inr u), p)" for i
    using assms(1) by (simp add: on_world_def get_user_def lift_s_def tryE_def healthy_read get_user_by_id_def tbl_get_def
        rows_def failE_def okE_def split: option.split)
  have read: "p_read q p = (q (rows p), p)" for q :: "mem \<Rightarrow> serr + api_token"
    using assms(1) by (rule p_read_healthy)
  show ?thesis
  proof (cases "find (\<lambda>t. at_token_hash t = he_sha256_hex en tok) (gvals (st_api_tokens (rows p)))")
    case None
    then show ?thesis using assms
      by (simp add: auth_middleware_def Let_def is_api_token_def auth_via_api_token_def bindE_def tryE_def read
          get_api_token_by_hash_def hash_api_token_def okE_def failE_def token_user_def)
  next
    case (Some t)
    then have via: "fst (auth_via_api_token en tok p) = Inr (token_user en tok (rows p))"
      by (auto simp: auth_via_api_token_def tryE_def read get_api_token_by_hash_def hash_api_token_def okE_def
          token_user_def user expired_def is_zero_def split: option.split sum.split prod.split)
    show ?thesis
    proof (cases "auth_via_api_token en tok p")
      case (Pair x q)
      then have "x = Inr (token_user en tok (rows p))" using via by simp
      then show ?thesis using Pair assms
        by (simp add: auth_middleware_def Let_def is_api_token_def bindE_def okE_def failE_def split: option.split)
    qed
  qed
qed

lemma new_token_row:
  "at_token_hash (new_api_token en u q name h prefix) = h" "at_user_id (new_api_token en u q name h prefix) = user_id u"
  "at_id (new_api_token en u q name h prefix) = he_id en 1" "at_name (new_api_token en u q name h prefix) = name"
  by (simp_all add: new_api_token_def)

lemma find_only: "x \<in> set xs \<Longrightarrow> P x \<Longrightarrow> (\<And>y. y \<in> set xs \<Longrightarrow> P y \<Longrightarrow> y = x) \<Longrightarrow> find P xs = Some x"
proof (cases "find P xs")
  case None
  then show "x \<in> set xs \<Longrightarrow> P x \<Longrightarrow> find P xs = Some x" by (simp add: find_None_iff)
next
  case (Some y)
  then have "y \<in> set xs" "P y" by (auto simp: find_Some_iff)
  then show "(\<And>y. y \<in> set xs \<Longrightarrow> P y \<Longrightarrow> y = x) \<Longrightarrow> find P xs = Some x" using Some by simp
qed

text \<open>C10: an access token works as long as it should: the token a user was given when it was created lets
  its requests through as that user, until it expires (it never does if no expiry was asked for) or
  is deleted; from then on they are refused with 401.\<close>

theorem api_token_lifecycle:
  assumes "healthy (pw_w p)" "tokens_wf (rows p)" "gget (st_users (rows p)) (user_id u) = Some u" "zero_time < he_now en"
    and "handle_create_token en u (Some q) p = (Inr rep, p1)" "rp_body rep = JCreatedToken v tok"
    and "access_token_from_request r = tok" "he_sha256_hex en2 = he_sha256_hex en"
  shows "fst (auth_middleware en2 r p1) =
      (if tq_expires_in_days q > 0 \<and> he_now en + tq_expires_in_days q * day_ns \<le> he_now en2
       then Inl (write_error 401 ''invalid or expired token'') else Inr u) \<and>
    (\<forall>y p2. handle_delete_token en3 u (tv_id v) p1 = (y, p2) \<longrightarrow>
       y = Inr no_content \<and> fst (auth_middleware en2 r p2) = Inl (write_error 401 ''invalid or expired token''))"
proof -
  obtain h prefix where gen: "generate_api_token en = Some (tok, h, prefix)"
    and v: "v = to_token_view (new_api_token en u q (trim_space (tq_name q)) h prefix)"
    and fresh: "gget (st_api_tokens (rows p)) (he_id en 1) = None"
      "\<not> list_ex (\<lambda>x. at_token_hash x = h) (gvals (st_api_tokens (rows p)))"
    and p1: "p1 = p\<lparr>pw_w := (pw_w p)\<lparr>w_mem :=
      logged (audit_record en (user_id u) (user_email u) [] ''token.create'' ''api_token'' (he_id en 1) (trim_space (tq_name q)))
        ((rows p)\<lparr>st_api_tokens :=
          gput (he_id en 1) (new_api_token en u q (trim_space (tq_name q)) h prefix) (st_api_tokens (rows p))\<rparr>)\<rparr>\<rparr>"
    using assms(1,5,6) that
    by (auto simp: handle_create_token_def decoded_def Let_def failE_def answering_def okE_def tryE_def bindE_def
        p_write_healthy create_api_token_def audit_healthy new_token_row write_json_def
        split: option.splits prod.splits if_splits)
  let ?t = "new_api_token en u q (trim_space (tq_name q)) h prefix"
  let ?ts = "gput (he_id en 1) ?t (st_api_tokens (rows p))"
  obtain e where e: "p1 = p\<lparr>pw_w := (pw_w p)\<lparr>w_mem := logged e ((rows p)\<lparr>st_api_tokens := ?ts\<rparr>)\<rparr>\<rparr>"
    by (rule that [OF p1])
  have tok: "has_prefix tok api_token_prefix" "tok \<noteq> []" "h = he_sha256_hex en tok"
    using gen by (auto simp: generate_api_token_def hash_api_token_def Let_def api_token_prefix_def has_prefix_def
        split: option.splits)
  have wf: "gwf (st_api_tokens (rows p))" using assms(2) by (simp add: tokens_wf_def keyed_def)
  note t = new_token_row [of en u q "trim_space (tq_name q)" h prefix]
  have other: "at_token_hash x \<noteq> h" if "x \<in> set (gvals (st_api_tokens (rows p)))" for x
    using fresh(2) that by (auto simp: list_ex_iff)
  have "find (\<lambda>x. at_token_hash x = h) (gvals ?ts) = Some ?t"
    using other t(1) by (intro find_only) (auto simp: gm.vals_put [OF wf] gm.vals_get [OF wf])
  then have "token_user en2 tok (rows p1) = (if expired en2 ?t then None else Some u)"
    using assms(3,8) tok(3) t by (simp add: token_user_def e logged_def)
  moreover have "expired en2 ?t \<longleftrightarrow> tq_expires_in_days q > 0 \<and> he_now en + tq_expires_in_days q * day_ns \<le> he_now en2"
    using assms(4) by (auto simp: expired_def new_api_token_def day_ns_def)
  moreover have "healthy (pw_w p1)" using assms(1) e by simp
  ultimately have auth: "fst (auth_middleware en2 r p1) =
      (if tq_expires_in_days q > 0 \<and> he_now en + tq_expires_in_days q * day_ns \<le> he_now en2
       then Inl (write_error 401 ''invalid or expired token'') else Inr u)"
    using auth_with_token [of p1 r tok en2] assms(7) tok by simp
  have "y = Inr no_content \<and> fst (auth_middleware en2 r p2) = Inl (write_error 401 ''invalid or expired token'')"
    if d: "handle_delete_token en3 u (tv_id v) p1 = (y, p2)" for y p2
  proof -
    have id: "tv_id v = he_id en 1" using t(3) v by (simp add: to_token_view_def)
    obtain e2 where p2: "y = Inr no_content" "p2 = p\<lparr>pw_w := (pw_w p)\<lparr>w_mem := logged e2 (logged e ((rows p)\<lparr>st_api_tokens := gdel (he_id en 1) ?ts\<rparr>))\<rparr>\<rparr>"
      using d assms(1) t(2) unfolding id e
      by (auto simp: handle_delete_token_def bindE_def answering_def tryE_def okE_def p_write_healthy delete_api_token_def
          audit_healthy logged_def)
    have "x \<in> set (gvals (st_api_tokens (rows p)))" if "x \<in> set (gvals (gdel (he_id en 1) ?ts))" for x
      using that wf by (auto simp: gm.vals_del gm.wf_put gm.get_put gm.vals_get split: if_splits)
    then have "find (\<lambda>x. at_token_hash x = h) (gvals (gdel (he_id en 1) ?ts)) = None"
      using other by (auto simp: find_None_iff)
    then have "token_user en2 tok (rows p2) = None"
      using assms(8) tok(3) by (simp add: token_user_def p2(2) logged_def)
    moreover have "healthy (pw_w p2)" using assms(1) p2(2) by simp
    ultimately show ?thesis using auth_with_token [of p2 r tok en2] assms(7) tok p2(1) by simp
  qed
  then show ?thesis using auth by blast
qed

end
