(* ===== verification/Http_Limits.thy ===== *)
theory Http_Limits
  imports Http_Server
begin

text \<open>
  The rate limiter in front of the public endpoints, in a whole run of the server: how often a
  client's attempts to log in, reset a password and the like are looked at at all.
\<close>

section \<open>A run of the server\<close>

type_synonym arrival = "http_env \<times> http_request \<times> route"

fun serve :: "'c server \<Rightarrow> 'c pworld provider \<Rightarrow> http_conf \<Rightarrow> arrival list \<Rightarrow> 'c site \<Rightarrow> reply list" where
  "serve sv prov hc [] s = []"
| "serve sv prov hc ((en, r, rt) # qs) s =
     (let (rep, t) = respond sv prov hc en r rt s in rep # serve sv prov hc qs t)"

text \<open>The requests that get as far as the limiter: rate-limited routes, past the origin guard.\<close>

definition same_site :: "http_conf \<Rightarrow> arrival \<Rightarrow> bool" where
  "same_site hc q \<longleftrightarrow>
     (case q of (en, r, rt) \<Rightarrow>
        let origin = request_origin (he_parse_url en) r
        in ''*'' \<in> set (hc_cors_allowed_origins hc) \<or> \<not> is_state_changing (method_of rt) \<or> origin = [] \<or>
           normalize_origin origin \<in> set (normalize_origins (hc_cors_allowed_origins hc)))"

definition tallied :: "http_conf \<Rightarrow> arrival \<Rightarrow> bool" where
  "tallied hc q \<longleftrightarrow> limited (snd (snd q)) \<and> same_site hc q"

definition client_of :: "arrival \<Rightarrow> string" where
  "client_of q = client_key (fst q) (fst (snd q))"

definition arrived :: "arrival \<Rightarrow> time" where
  "arrived q = he_now (fst q)"

text \<open>Attempts of a client within an interval that were looked at.\<close>

definition attempts :: "http_conf \<Rightarrow> string \<Rightarrow> time \<Rightarrow> duration \<Rightarrow> (arrival \<times> reply) list \<Rightarrow> nat" where
  "attempts hc k a w served = length (filter (\<lambda>(q, rep). tallied hc q \<and> client_of q = k \<and> a \<le> arrived q \<and> arrived q < a + w \<and>
     rp_status rep \<noteq> 429) served)"

section \<open>Only the limiter answers 429\<close>

definition never :: "('c, 'a) hop \<Rightarrow> bool" where
  "never m \<longleftrightarrow> (\<forall>p r q. m p = (Inl r, q) \<longrightarrow> rp_status r \<noteq> 429)"

definition never_reply :: "('c, reply) hop \<Rightarrow> bool" where
  "never_reply m \<longleftrightarrow> never m \<and> (\<forall>p r q. m p = (Inr r, q) \<longrightarrow> rp_status r \<noteq> 429)"

lemma never_rules:
  "never (okE x)" "rp_status r \<noteq> 429 \<Longrightarrow> never (failE r)"
  "never m \<Longrightarrow> (\<And>x. never (k x)) \<Longrightarrow> never (bindE m k)"
  "(\<And>e. never (h e)) \<Longrightarrow> (\<And>x. never (f x)) \<Longrightarrow> never (tryE n h f)"
  "(\<And>e. rp_status (g e) \<noteq> 429) \<Longrightarrow> never (answering g n)"
  "(b \<Longrightarrow> never m) \<Longrightarrow> (\<not> b \<Longrightarrow> never l) \<Longrightarrow> never (if b then m else l)"
  "(z = None \<Longrightarrow> never m) \<Longrightarrow> (\<And>y. z = Some y \<Longrightarrow> never (c y)) \<Longrightarrow> never (case z of None \<Rightarrow> m | Some y \<Rightarrow> c y)"
  unfolding answering_def
  by (auto simp: never_def okE_def failE_def elim!: bindE_E tryE_E split: option.split) blast+

lemma never_reply_rules:
  "rp_status r \<noteq> 429 \<Longrightarrow> never_reply (okE r)" "rp_status r \<noteq> 429 \<Longrightarrow> never_reply (failE r)"
  "never m \<Longrightarrow> (\<And>x. never_reply (k x)) \<Longrightarrow> never_reply (bindE m k)"
  "(\<And>e. never_reply (h e)) \<Longrightarrow> (\<And>x. never_reply (f x)) \<Longrightarrow> never_reply (tryE n h f)"
  "(b \<Longrightarrow> never_reply m') \<Longrightarrow> (\<not> b \<Longrightarrow> never_reply l) \<Longrightarrow> never_reply (if b then m' else l)"
  "(z = None \<Longrightarrow> never_reply m') \<Longrightarrow> (\<And>y. z = Some y \<Longrightarrow> never_reply (g y)) \<Longrightarrow>
     never_reply (case z of None \<Rightarrow> m' | Some y \<Rightarrow> g y)"
  by (auto simp: never_reply_def never_def okE_def failE_def elim!: bindE_E tryE_E split: option.split) blast+

lemma write_codes [simp]:
  "rp_status (write_json c b) = c" "rp_status (write_error c m) = c" "rp_status no_content = 204"
  "rp_status (fixed_reply c m e) = c"
  by (simp_all add: write_json_def write_error_def no_content_def fixed_reply_def)

lemma auth_error_code: "rp_status (write_auth_error e) \<noteq> 429"
  by (cases e) (simp_all add: write_auth_error_def)

lemma never_decoded: "never (decoded b)"
  by (auto simp: never_def decoded_def okE_def failE_def split: option.splits)

lemma never_audit: "never (audit_as en u e g act tt ti meta)"
  unfolding audit_as_def by (intro never_rules)

lemma public_codes:
  assumes "public_method c = ''POST''"
  shows "never_reply (run_public prov hc en r c)"
  using assms
  by (cases c; simp; unfold handle_signup_def handle_login_def handle_refresh_def handle_forgot_password_def
      handle_reset_password_def handle_stripe_webhook_def;
      intro never_reply_rules never_rules never_decoded never_audit auth_error_code; simp)

section \<open>The decisions of a run\<close>

lemma csrf_same_site:
  "fst (csrf_origin_guard (hc_cors_allowed_origins hc) (he_parse_url en) (method_of rt) r p) =
     (if same_site hc (en, r, rt) then Inr () else Inl (write_error 403 ''cross-origin request blocked''))"
  by (auto simp: csrf_origin_guard_def same_site_def Let_def okE_def failE_def)

lemma respond_limited:
  assumes "respond sv prov hc en r rt s = (rep, t)"
  shows "\<not> tallied hc (en, r, rt) \<Longrightarrow> si_limiter t = si_limiter s"
    and "tallied hc (en, r, rt) \<Longrightarrow>
      limiter_allow (client_of (en, r, rt)) (arrived (en, r, rt)) (si_limiter s) = (rp_status rep \<noteq> 429, si_limiter t)"
proof -
  show "si_limiter t = si_limiter s" if "\<not> tallied hc (en, r, rt)"
    using assms that
    by (cases "limited rt") (auto simp: respond_def csrf_same_site tallied_def rate_limit_middleware_def Let_def
        split: prod.splits if_splits)
  show "limiter_allow (client_of (en, r, rt)) (arrived (en, r, rt)) (si_limiter s) = (rp_status rep \<noteq> 429, si_limiter t)"
    if c: "tallied hc (en, r, rt)"
  proof -
    obtain pr where pr: "rt = Public pr" "public_method pr = ''POST''" using c by (cases rt) (auto simp: tallied_def)
    obtain ok l where l: "limiter_allow (client_key en r) (he_now en) (si_limiter s) = (ok, l)" by (metis surj_pair)
    obtain y w where h: "run_public prov hc en r pr (si_world s) = (y, w)" by (metis surj_pair)
    have "case y of Inl r \<Rightarrow> rp_status r \<noteq> 429 | Inr r \<Rightarrow> rp_status r \<noteq> 429"
      using public_codes [OF pr(2), of prov hc en r] h unfolding never_reply_def never_def by (cases y) (simp, blast)+
    moreover have "fst (csrf_origin_guard (hc_cors_allowed_origins hc) (he_parse_url en) (method_of rt) r (si_world s)) = Inr ()"
      using c by (simp add: csrf_same_site tallied_def)
    then have "(rep, t) = (if \<not> ok then (write_error 429 ''rate limit exceeded'', s\<lparr>si_limiter := l\<rparr>)
        else (case y of Inl rep \<Rightarrow> rep | Inr rep \<Rightarrow> rep, \<lparr>si_world = w, si_limiter = l\<rparr>))"
      using assms l h pr unfolding respond_def by (auto simp: rate_limit_middleware_def)
    ultimately show ?thesis using l by (auto simp: client_of_def arrived_def split: sum.splits if_splits)
  qed
qed

definition limiter_load :: "http_conf \<Rightarrow> arrival list \<Rightarrow> (string \<times> time) list" where
  "limiter_load hc qs = map (\<lambda>q. (client_of q, arrived q)) (filter (tallied hc) qs)"

definition looked_at :: "http_conf \<Rightarrow> string \<Rightarrow> (arrival \<times> reply) list \<Rightarrow> (time \<times> bool) list" where
  "looked_at hc k served =
     map (\<lambda>(q, rep). (arrived q, rp_status rep \<noteq> 429)) (filter (\<lambda>(q, rep). tallied hc q \<and> client_of q = k) served)"

lemma serve_decisions:
  "looked_at hc k (zip qs (serve sv prov hc qs s)) =
     zip (client_times k (limiter_load hc qs)) (client_decisions k (run_limiter (limiter_load hc qs) (si_limiter s)))"
proof (induction qs arbitrary: s)
  case Nil
  then show ?case by (simp add: looked_at_def limiter_load_def client_times_def)
next
  case (Cons q qs)
  obtain en r rt where q: "q = (en, r, rt)" by (cases q)
  obtain rep t where t: "respond sv prov hc en r rt s = (rep, t)" by (metis surj_pair)
  show ?case
  proof (cases "tallied hc q")
    case False
    then show ?thesis using Cons.IH [of t] respond_limited(1) [OF t] t q by (simp add: looked_at_def limiter_load_def)
  next
    case True
    note a = respond_limited(2) [OF t, folded q, OF True]
    show ?thesis using Cons.IH [of t] a True t q
      by (simp add: looked_at_def limiter_load_def client_times_def client_decisions_def)
  qed
qed

lemma attempts_looked_at:
  "attempts hc k a w served = length (filter (\<lambda>(t, d). a \<le> t \<and> t < a + w \<and> d) (looked_at hc k served))"
  by (induction served) (auto simp: attempts_def looked_at_def)

lemma sorted_cut: "sorted ts \<Longrightarrow> ts = filter (\<lambda>t. t < c) ts @ filter (\<lambda>t. \<not> t < c) ts" for c :: "'x::linorder"
proof (induction ts)
  case (Cons t ts)
  show ?case
  proof (cases "t < c")
    case False
    then have "filter (\<lambda>t. t < c) ts = []" "filter (\<lambda>t. \<not> t < c) ts = ts"
      using Cons.prems by (auto simp: filter_empty_conv filter_id_conv)
    then show ?thesis using False by simp
  qed (use Cons in simp)
qed simp

lemma run_client_length [simp]: "length (run_client limit w st ts) = length ts"
  by (induction ts arbitrary: st) (auto simp: Let_def split: prod.splits)

lemma zip_filter_fst: "filter (\<lambda>(t, d). P t) (zip ts ds) = zip ts ds" if "\<forall>t \<in> set ts. P t"
  using that by (intro filter_True) (auto dest: set_zip_leftD)

lemma interval_decisions:
  assumes "sorted ts" "1 \<le> limit"
  shows "int (length (filter (\<lambda>(t, d). a \<le> t \<and> t < a + w \<and> d) (zip ts (run_client limit w None ts)))) \<le> 2 * limit"
proof -
  let ?P = "\<lambda>(t, d). a \<le> t \<and> t < a + w \<and> d"
  define before where "before = filter (\<lambda>t. t < a) ts"
  define inside where "inside = filter (\<lambda>t. t < a + w) (filter (\<lambda>t. \<not> t < a) ts)"
  define after where "after = filter (\<lambda>t. \<not> t < a + w) (filter (\<lambda>t. \<not> t < a) ts)"
  have ts: "ts = before @ inside @ after"
    using sorted_cut [OF assms(1), of a] sorted_cut [of "filter (\<lambda>t. \<not> t < a) ts" "a + w"] assms(1)
    by (simp add: before_def inside_def after_def sorted_wrt_filter)
  let ?s1 = "client_state limit w None before"
  let ?s2 = "client_state limit w ?s1 inside"
  have none: "filter ?P (zip us ds) = []" if "\<forall>t \<in> set us. \<not> (a \<le> t \<and> t < a + w)" for us and ds :: "bool list"
    using that by (auto simp: filter_empty_conv dest: set_zip_leftD)
  have "filter ?P (zip ts (run_client limit w None ts)) = filter ?P (zip inside (run_client limit w ?s1 inside))"
    unfolding ts run_client_append by (simp add: none before_def after_def)
  also have "length \<dots> = length (filter id (run_client limit w ?s1 inside))"
  proof -
    have "length (filter ?P (zip us ds)) = length (filter id ds)" if "\<forall>t \<in> set us. a \<le> t \<and> t < a + w" "length us = length ds"
      for us and ds :: "bool list"
      using that(2,1) by (induction us ds rule: list_induct2) auto
    then show ?thesis by (simp add: inside_def)
  qed
  finally have eq: "int (length (filter ?P (zip ts (run_client limit w None ts)))) = allowed (run_client limit w ?s1 inside)"
    by (simp add: allowed_def id_def)
  have cnt: "0 \<le> wb_count b \<and> wb_count b \<le> limit" if "?s1 = Some b" for b
    by (rule client_state_count [OF _ assms(2) that]) simp
  have "allowed (run_client limit w ?s1 inside) \<le> (case ?s1 of None \<Rightarrow> limit | Some b \<Rightarrow> (limit - wb_count b) + limit)"
    using cnt assms(2) by (intro any_interval) (auto simp: inside_def)
  moreover have "\<dots> \<le> 2 * limit" using cnt assms(2) by (auto split: option.splits)
  ultimately show ?thesis using eq by simp
qed

text \<open>C11: nobody guesses passwords fast: whatever else arrives at a freshly started server, whatever fails
  and however a client's requests are spread, in any minute at most twenty of its attempts to sign
  up, log in, refresh, ask for or use a reset link, or deliver a webhook are looked at; every other one
  is answered 429.\<close>

theorem public_attempts_bounded:
  assumes "sorted (map arrived qs)"
  shows "attempts hc k a auth_rate_window (zip qs (serve sv prov hc qs
      \<lparr>si_world = p, si_limiter = new_fixed_window_limiter auth_rate_limit auth_rate_window\<rparr>)) \<le> 20"
proof -
  let ?rs = "limiter_load hc qs"
  have sorted: "sorted (map snd ?rs)"
    using assms by (simp add: limiter_load_def comp_def sorted_wrt_map sorted_wrt_filter)
  have w: "0 < auth_rate_window" "auth_rate_window \<le> max_i64"
    by (simp_all add: auth_rate_window_def second_ns_def max_i64_def)
  have "client_times k ?rs = map snd (filter (\<lambda>(j, t). j = k) ?rs)" by (simp add: client_times_def)
  then have "sorted (client_times k ?rs)" using sorted by (simp add: sorted_wrt_map sorted_wrt_filter)
  from interval_decisions [OF this, of auth_rate_limit a auth_rate_window] show ?thesis
    unfolding attempts_looked_at serve_decisions using isolated_run [OF w sorted, of k auth_rate_limit]
    by (simp add: auth_rate_limit_def)
qed

end
