(* ===== verification/Platform_Releases.thy ===== *)
theory Platform_Releases
  imports Platform_Isolation
begin

text \<open>
  The release history of an app: revisions are unique and count up, at most one release is
  current, a snapshot supersedes the one before it. All of it holds under any failures of the
  store, in both kinds of transaction.
\<close>

section \<open>Histories\<close>

definition one_current :: "mem \<Rightarrow> bool" where
  "one_current s \<longleftrightarrow>
     (\<forall>i j r q. gget (st_releases s) i = Some r \<longrightarrow> gget (st_releases s) j = Some q \<longrightarrow>
        rel_app_id r = rel_app_id q \<longrightarrow> is_current r \<longrightarrow> is_current q \<longrightarrow> i = j)"

definition release_history :: "mem \<Rightarrow> bool" where
  "release_history s \<longleftrightarrow> workloads_wf s \<and> revisions_unique s \<and> one_current s"

lemma release_history_frame:
  "keeps workloads_wf m \<Longrightarrow> (\<And>s. st_releases (snd (m s)) = st_releases s) \<Longrightarrow> keeps release_history m"
  by (simp add: keeps_def release_history_def revisions_unique_def one_current_def)

lemma update_release_table:
  "st_releases (snd (update_release r s)) =
     (if gget (st_releases s) (rel_id r) = None then st_releases s else gput (rel_id r) r (st_releases s))"
  by (auto simp: update_release_def on_tbl_def tbl_update_def split: option.split)

lemma create_release_Inr:
  "create_release r s = (Inr (), t) \<Longrightarrow>
     gget (st_releases s) (rel_id r) = None \<and> st_releases t = gput (rel_id r) r (st_releases s)"
  by (auto simp: create_release_def split: if_splits)

lemma create_release_table:
  "j \<noteq> rel_id r \<Longrightarrow> gget (st_releases (snd (create_release r s))) j = gget (st_releases s) j"
  by (simp add: create_release_def)

lemma history_update:
  assumes "release_history s" "gget (st_releases s) (rel_id r) = Some q" "rel_app_id r = rel_app_id q"
    "rel_revision r = rel_revision q" "is_current r \<Longrightarrow> is_current q"
  shows "release_history (snd (update_release r s))"
proof -
  have "workloads_wf (snd (update_release r s))"
    using assms(1) workloads_keeps_release(2) by (auto simp: keeps_def release_history_def)
  moreover have "revisions_unique (snd (update_release r s))"
    using assms by (intro update_release_revisions) (auto simp: release_history_def)
  moreover have "one_current (snd (update_release r s))"
    using assms unfolding one_current_def update_release_table release_history_def by auto
  ultimately show ?thesis by (simp add: release_history_def)
qed

lemma history_create:
  assumes "release_history s"
    "\<And>j q. gget (st_releases s) j = Some q \<Longrightarrow> rel_app_id q = rel_app_id r \<Longrightarrow> \<not> is_current q"
  shows "release_history (snd (create_release r s))"
proof -
  have "workloads_wf (snd (create_release r s))"
    using assms(1) workloads_keeps_release(1) by (auto simp: keeps_def release_history_def)
  moreover have "revisions_unique (snd (create_release r s))"
    using assms(1) by (intro create_release_revisions) (auto simp: release_history_def)
  moreover have "one_current (snd (create_release r s))"
    using assms unfolding one_current_def release_history_def
    by (auto simp: create_release_def split: if_splits)
  ultimately show ?thesis by (simp add: release_history_def)
qed

text \<open>What writing a status leaves of a row.\<close>

definition tag :: "release \<Rightarrow> string \<times> int" where
  "tag r = (rel_app_id r, rel_revision r)"

definition tags :: "mem \<Rightarrow> string \<Rightarrow> (string \<times> int) option" where
  "tags s i = map_option tag (gget (st_releases s) i)"

section \<open>A snapshot\<close>

lemma supersede_run:
  assumes "supersede_all rs st n w = (x, t)" "release_history (w_mem w)" "distinct (map rel_id rs)"
    "\<forall>r \<in> set rs. gget (st_releases (w_mem w)) (rel_id r) = Some r" "st \<notin> {ReleaseActive, ReleaseDeploying}"
  shows "release_history (w_mem t) \<and> tags (w_mem t) = tags (w_mem w) \<and>
     (\<forall>j. j \<notin> rel_id ` set rs \<longrightarrow> gget (st_releases (w_mem t)) j = gget (st_releases (w_mem w)) j) \<and>
     (\<forall>m. x = Inr m \<longrightarrow> n \<le> m \<and> (\<forall>r \<in> set rs. rel_revision r < m) \<and>
        (m = n \<or> (\<exists>r \<in> set rs. m = rel_revision r + 1)) \<and>
        (\<forall>r \<in> set rs. \<forall>q. gget (st_releases (w_mem t)) (rel_id r) = Some q \<longrightarrow> \<not> is_current q))"
  using assms
proof (induction rs arbitrary: n w x t)
  case Nil
  then show ?case by (auto simp: okE_def)
next
  case (Cons r rs)
  let ?r = "r\<lparr>rel_status := st\<rparr>"
  let ?n = "if rel_revision r \<ge> n then rel_revision r + 1 else n"
  let ?step = "if is_current r then lift_s (on_store (update_release ?r)) else okE ()"
  have row: "gget (st_releases (w_mem w)) (rel_id r) = Some r" using Cons.prems(4) by simp
  obtain y u where step: "?step w = (y, u)" by fastforce
  have st: "\<not> is_current ?r" using Cons.prems(5) by (simp add: is_current_def)
  have "w_mem u \<in> {w_mem w, snd (update_release ?r (w_mem w))}" if "is_current r"
    using step that follows_effect [OF follows_on_store, of "update_release ?r" w]
    by (auto simp: lift_s_def tryE_def failE_def okE_def split: prod.splits sum.splits)
  then have u: "w_mem u = w_mem w \<or> (is_current r \<and> w_mem u = snd (update_release ?r (w_mem w)))"
    using step by (auto simp: okE_def split: if_splits)
  have gone: "\<not> is_current q" if "y = Inr ()" "gget (st_releases (w_mem u)) (rel_id r) = Some q" for q
  proof (cases "is_current r")
    case True
    then have "update_release ?r (w_mem w) = (Inr (), w_mem u)"
      using step that(1) by (auto simp: lift_s_def failE_def okE_def elim!: tryE_E dest: store_ok)
    then have "w_mem u = snd (update_release ?r (w_mem w))" by simp
    then show ?thesis using that(2) st row by (simp add: update_release_table)
  next
    case False
    then have "w_mem u = w_mem w" using u by simp
    then show ?thesis using that(2) row False by simp
  qed
  have hist: "release_history (w_mem u)"
    using u history_update [OF Cons.prems(2), of ?r r] Cons.prems(2) row st by auto
  have same: "gget (st_releases (w_mem u)) j = gget (st_releases (w_mem w)) j" if "j \<noteq> rel_id r" for j
    using u that by (auto simp: update_release_table)
  have tags: "tags (w_mem u) = tags (w_mem w)"
    using u row by (auto simp: tags_def tag_def update_release_table fun_eq_iff)
  show ?case
  proof (cases y)
    case (Inl e)
    then have "x = Inl e \<and> t = u" using Cons.prems(1) step by (simp add: Let_def bindE_def)
    then show ?thesis using hist tags same by simp
  next
    case (Inr z)
    then have run: "supersede_all rs st ?n u = (x, t)" using Cons.prems(1) step by (simp add: Let_def bindE_def)
    have rest: "\<forall>q \<in> set rs. gget (st_releases (w_mem u)) (rel_id q) = Some q"
      using Cons.prems(3,4) same by (metis distinct.simps(2) image_eqI list.set_map list.simps(9) list.set_intros(2))
    have "distinct (map rel_id rs)" using Cons.prems(3) by simp
    note ih = Cons.IH [OF run hist this rest Cons.prems(5)]
    have "rel_id r \<notin> rel_id ` set rs" using Cons.prems(3) by simp
    then have "gget (st_releases (w_mem t)) (rel_id r) = gget (st_releases (w_mem u)) (rel_id r)" using ih by blast
    then have "\<not> is_current q" if "gget (st_releases (w_mem t)) (rel_id r) = Some q" for q
      using gone [of q] that Inr by simp
    then show ?thesis using ih tags same by (auto split: if_splits)
  qed
qed

lemma releases_of_app:
  assumes "list_releases_by_app i \<lparr>page_limit = 0, page_offset = 0\<rparr> s = Inr rs" "workloads_wf s"
  shows "set rs = {r. rel_app_id r = i \<and> gget (st_releases s) (rel_id r) = Some r}" "distinct (map rel_id rs)"
proof -
  have m: "mset rs = mset (filter (\<lambda>r. rel_app_id r = i) (gvals (st_releases s)))"
    using list_releases_whole(2) [OF assms(1)] by simp
  have k: "keyed rel_id (st_releases s)" using assms(2) by (simp add: workloads_wf_def)
  then have vals: "r \<in> set (gvals (st_releases s)) \<longleftrightarrow> gget (st_releases s) (rel_id r) = Some r" for r
    by (auto simp: keyed_def gm.vals_get)
  have "set rs = {r \<in> set (gvals (st_releases s)). rel_app_id r = i}"
    using m by (metis mset_eq_setD set_filter)
  then show "set rs = {r. rel_app_id r = i \<and> gget (st_releases s) (rel_id r) = Some r}" using vals by auto
  have "map rel_id (gvals (st_releases s)) = map fst (st_releases s)"
  proof -
    have "rel_id v = key" if "(key, v) \<in> set (st_releases s)" for key v
      using k that by (auto simp: keyed_def gwf_def gget_def)
    then show ?thesis by (auto simp: gvals_def)
  qed
  then have "distinct (map rel_id (gvals (st_releases s)))" using k by (simp add: keyed_def gwf_def)
  then have "distinct (map rel_id (filter (\<lambda>r. rel_app_id r = i) (gvals (st_releases s))))"
    by (rule distinct_map_filter)
  then show "distinct (map rel_id rs)" using m by (metis mset_eq_imp_distinct_iff mset_map)
qed

text \<open>The number a snapshot gets: one more than the highest of its app.\<close>

definition next_revision :: "mem \<Rightarrow> string \<Rightarrow> int \<Rightarrow> bool" where
  "next_revision s i m \<longleftrightarrow>
     (\<forall>j a v. tags s j = Some (a, v) \<longrightarrow> a = i \<longrightarrow> v < m) \<and>
     (m = 1 \<or> (\<exists>j. tags s j = Some (i, m - 1)))"

definition snapshot :: "mem \<Rightarrow> mem \<Rightarrow> string \<Rightarrow> release \<Rightarrow> bool" where
  "snapshot s t i r \<longleftrightarrow>
     rel_app_id r = i \<and> is_current r \<and> next_revision s i (rel_revision r) \<and>
     gget (st_releases t) (rel_id r) = Some r \<and> gget (st_releases s) (rel_id r) = None \<and>
     (\<forall>j. j \<noteq> rel_id r \<longrightarrow> tags t j = tags s j)"

lemma allocate_run:
  assumes "allocate_and_insert_release en k a wl note st w = (x, t)" "release_history (w_mem w)"
    "st \<notin> {ReleaseActive, ReleaseDeploying}"
  shows "release_history (w_mem t)" "tags (w_mem t) i \<noteq> tags (w_mem w) i \<Longrightarrow> i = pe_id en k"
    "x = Inr r \<Longrightarrow> snapshot (w_mem w) (w_mem t) (app_id a) r"
    "x = Inl (IStore ErrConflict) \<Longrightarrow> tags (w_mem t) = tags (w_mem w)"
proof -
  let ?pg = "\<lparr>page_limit = 0, page_offset = 0\<rparr>"
  have "release_history (w_mem t) \<and> (\<forall>i. tags (w_mem t) i \<noteq> tags (w_mem w) i \<longrightarrow> i = pe_id en k) \<and>
      (\<forall>r. x = Inr r \<longrightarrow> snapshot (w_mem w) (w_mem t) (app_id a) r) \<and>
      (x = Inl (IStore ErrConflict) \<longrightarrow> tags (w_mem t) = tags (w_mem w))"
  proof -
    from assms(1) show ?thesis unfolding allocate_and_insert_release_def Let_def
    proof (rule bindE_E)
      fix e
      assume "lift_s (on_read (list_releases_by_app (app_id a) ?pg)) w = (Inl e, t)" "x = Inl e"
      then have "w_mem t = w_mem w"
        by (auto simp: lift_s_def failE_def okE_def elim!: tryE_E) (metis on_read_mem snd_conv)
      then show ?thesis using assms(2) \<open>x = Inl e\<close> by simp
    next
      fix rs u
      assume "lift_s (on_read (list_releases_by_app (app_id a) ?pg)) w = (Inr rs, u)"
      then have rs: "list_releases_by_app (app_id a) ?pg (w_mem w) = Inr rs" "w_mem u = w_mem w"
        by (auto simp: lift_s_def failE_def okE_def elim!: tryE_E dest: read_ok)
      note rows = releases_of_app [OF rs(1)]
      have wf: "workloads_wf (w_mem w)" using assms(2) by (simp add: release_history_def)
      assume "bindE (supersede_all rs st 1) (\<lambda>next_rev. bindE (lift_s (on_store (create_release (new_release en k a wl note next_rev)))) (\<lambda>_. okE (new_release en k a wl note next_rev))) u = (x, t)"
      then show ?thesis
      proof (rule bindE_E)
        fix e
        assume s: "supersede_all rs st 1 u = (Inl e, t)" "x = Inl e"
        then show ?thesis
          using supersede_run [OF s(1)] assms(2,3) rows [OF wf] rs(2) by auto
      next
        fix m v
        assume s: "supersede_all rs st 1 u = (Inr m, v)"
        let ?r = "new_release en k a wl note m"
        assume c: "bindE (lift_s (on_store (create_release ?r))) (\<lambda>_. okE ?r) v = (x, t)"
        have sup: "release_history (w_mem v)" "tags (w_mem v) = tags (w_mem w)"
          "\<forall>r \<in> set rs. rel_revision r < m" "m = 1 \<or> (\<exists>r \<in> set rs. m = rel_revision r + 1)"
          "\<forall>r \<in> set rs. \<forall>q. gget (st_releases (w_mem v)) (rel_id r) = Some q \<longrightarrow> \<not> is_current q"
          using supersede_run [OF s] assms(2,3) rows [OF wf] rs(2) by auto
        have mine: "\<exists>r \<in> set rs. rel_id r = j \<and> rel_revision r = n"
          if "tags (w_mem w) j = Some (app_id a, n)" for j n
        proof -
          obtain r where r: "gget (st_releases (w_mem w)) j = Some r" "tag r = (app_id a, n)"
            using \<open>tags (w_mem w) j = Some (app_id a, n)\<close> by (auto simp: tags_def)
          have "rel_id r = j" using r(1) wf by (auto simp: workloads_wf_def keyed_def)
          then show ?thesis using r rows(1) [OF wf] by (auto simp: tag_def)
        qed
        have idle: "\<not> is_current q" if "gget (st_releases (w_mem v)) j = Some q" "rel_app_id q = app_id a" for j q
        proof -
          have "tags (w_mem w) j = Some (app_id a, rel_revision q)"
            using sup(2) that by (metis tags_def tag_def option.simps(9))
          then show ?thesis using mine sup(5) that(1) by blast
        qed
        have t: "w_mem t \<in> {w_mem v, snd (create_release ?r (w_mem v))}"
          using c follows_effect [OF follows_on_store, of "create_release ?r" v]
          by (auto simp: lift_s_def tryE_def bindE_def failE_def okE_def split: prod.splits sum.splits)
        have r: "rel_id ?r = pe_id en k" "rel_app_id ?r = app_id a" "rel_revision ?r = m" "is_current ?r"
          by (simp_all add: new_release_def is_current_def)
        have "release_history (snd (create_release ?r (w_mem v)))"
          by (rule history_create [OF sup(1)]) (auto simp: r dest: idle)
        then have hist: "release_history (w_mem t)" using t sup(1) by auto
        have tags: "tags (w_mem t) j = tags (w_mem w) j" if "j \<noteq> pe_id en k" for j
        proof -
          have "gget (st_releases (w_mem t)) j = gget (st_releases (w_mem v)) j"
            using t that by (auto simp: create_release_table r)
          then show ?thesis using sup(2) by (simp add: tags_def fun_eq_iff)
        qed
        have "snapshot (w_mem w) (w_mem t) (app_id a) r" if x: "x = Inr r" for r
        proof -
          have "create_release ?r (w_mem v) = (Inr (), w_mem t)" and eq: "r = ?r"
            using c x by (auto simp: lift_s_def failE_def okE_def elim!: tryE_E bindE_InrE dest: store_ok)
          then have new: "gget (st_releases (w_mem v)) (pe_id en k) = None"
            "gget (st_releases (w_mem t)) (pe_id en k) = Some ?r"
            using create_release_Inr r(1) by fastforce+
          have "gget (st_releases (w_mem w)) (pe_id en k) = None"
            using new(1) sup(2) by (metis tags_def option.map_disc_iff)
          moreover have "next_revision (w_mem w) (app_id a) m"
          proof -
            have "v' < m" if "tags (w_mem w) j = Some (app_id a, v')" for j v' using mine [OF that] sup(3) by auto
            moreover have "\<exists>j. tags (w_mem w) j = Some (app_id a, rel_revision r)" if "r \<in> set rs" for r
              using that rows(1) [OF wf] by (auto simp: tags_def tag_def)
            ultimately show ?thesis using sup(4) by (auto simp: next_revision_def)
          qed
          ultimately show ?thesis using tags new(2) by (simp add: snapshot_def eq r)
        qed
        moreover have "tags (w_mem t) = tags (w_mem w)" if "x = Inl (IStore ErrConflict)"
        proof -
          have "on_store (create_release ?r) v = (Inl ErrConflict, t)"
            using c that by (auto simp: lift_s_def tryE_def bindE_def failE_def okE_def split: prod.splits sum.splits)
          then have "create_release ?r (w_mem v) = (Inl ErrConflict, w_mem t)"
            using follows_Inl [OF follows_on_store] by (fastforce simp: driver_error_def)
          then have "w_mem t = w_mem v" by (auto simp: create_release_def split: if_splits)
          then show ?thesis using sup(2) by simp
        qed
        ultimately show ?thesis using hist tags by blast
      qed
    qed
  qed
  then show "release_history (w_mem t)" "tags (w_mem t) i \<noteq> tags (w_mem w) i \<Longrightarrow> i = pe_id en k"
    "x = Inr r \<Longrightarrow> snapshot (w_mem w) (w_mem t) (app_id a) r"
    "x = Inl (IStore ErrConflict) \<Longrightarrow> tags (w_mem t) = tags (w_mem w)" by auto
qed


section \<open>Every snapshot\<close>

text \<open>A transaction that succeeds ran its body on what was stored; one that the body failed leaves
  what the body left, or what was stored.\<close>

lemma in_tx_cases:
  assumes "in_tx mode f w = (x, t)"
  obtains e where "x = Inl e" "w_mem t = w_mem w"
  | u v y where "f u = (y, v)" "w_mem u = w_mem w" "w_mem t = w_mem v" "x = y \<or> x = Inl (IStore unavailable)"
proof (cases mode)
  case TxMemory
  then show ?thesis using assms that(2) [of w x t] by simp
next
  case TxRollback
  then have "database_tx f w = (x, t)" using assms by (simp add: in_tx_def)
  then show ?thesis
  proof (cases rule: database_tx_cases)
    case (2 y u v)
    then show ?thesis using that(2) [of u "Inr y" v] by simp
  qed (use that(1) in blast)
qed

lemma snapshot_tags:
  "tags s' = tags s \<Longrightarrow> snapshot s' t i r \<Longrightarrow> snapshot s t i r"
  unfolding snapshot_def next_revision_def by (simp add: tags_def fun_eq_iff) (metis option.map_disc_iff)

lemma record_attempts_run:
  assumes "record_attempts n mode en k a wl note st w = (x, t)" "release_history (w_mem w)"
    "st \<notin> {ReleaseActive, ReleaseDeploying}"
  shows "release_history (w_mem t) \<and> (\<forall>r. x = Inr r \<longrightarrow> snapshot (w_mem w) (w_mem t) (app_id a) r)"
  using assms(1,2)
proof (induction n arbitrary: k w)
  case 0
  then show ?case by (auto simp: failE_def)
next
  case (Suc n)
  obtain y u where y: "in_tx mode (allocate_and_insert_release en k a wl note st) w = (y, u)" by (metis surj_pair)
  have "release_history (w_mem u) \<and> (\<forall>r. y = Inr r \<longrightarrow> snapshot (w_mem w) (w_mem u) (app_id a) r) \<and>
      (y = Inl (IStore ErrConflict) \<longrightarrow> tags (w_mem u) = tags (w_mem w))"
    using y
  proof (cases rule: in_tx_cases)
    case (2 u' v y')
    have "release_history (w_mem u')" using Suc.prems(2) 2(2) by simp
    note run = allocate_run [OF 2(1) this assms(3)]
    show ?thesis using run(1,3,4) 2 by (auto simp: unavailable_def)
  qed (use Suc.prems(2) in auto)
  then have hist: "release_history (w_mem u)"
    and new: "\<And>r. y = Inr r \<Longrightarrow> snapshot (w_mem w) (w_mem u) (app_id a) r"
    and same: "y = Inl (IStore ErrConflict) \<Longrightarrow> tags (w_mem u) = tags (w_mem w)"
    by blast+
  show ?case
  proof (cases y)
    case (Inr r)
    then show ?thesis using Suc.prems(1) y hist new by (auto simp: tryE_def okE_def)
  next
    case (Inl e)
    show ?thesis
    proof (cases "e = IStore ErrConflict")
      case True
      then have "record_attempts n mode en (Suc k) a wl note st u = (x, t)"
        using Suc.prems(1) y Inl by (simp add: tryE_def)
      then show ?thesis using Suc.IH [OF _ hist] snapshot_tags [OF same] Inl True by blast
    next
      case False
      then show ?thesis using Suc.prems(1) y Inl hist by (auto simp: tryE_def failE_def)
    qed
  qed
qed


section \<open>Every operation\<close>

named_theorems history_keeps \<open>writes that keep the release histories\<close>

lemma history_other_writes [history_keeps]:
  "keeps release_history (create_app a)" "keeps release_history (update_app a)" "keeps release_history (delete_app i)"
  "keeps release_history (create_build b)" "keeps release_history (update_build b)"
  "keeps release_history (create_database d)" "keeps release_history (update_database d)"
  "keeps release_history (delete_database i)"
  "keeps release_history (create_service v)" "keeps release_history (update_service v)"
  "keeps release_history (delete_service i)"
  "keeps release_history (create_domain dd)" "keeps release_history (update_domain dd)"
  "keeps release_history (delete_domain i)"
  "keeps release_history (set_app_env i k x sec)" "keeps release_history (delete_app_env i k)"
  by (rule release_history_frame, rule workloads_keeps,
      simp add: create_app_def update_app_def delete_app_def create_build_def update_build_def create_database_def
        update_database_def delete_database_def create_service_def update_service_def delete_service_def
        create_domain_def update_domain_def delete_domain_def set_app_env_def delete_app_env_def on_tbl_def
        split: sum.split option.split)+

lemma history_log [history_keeps]:
  assumes "st \<notin> {ReleaseActive, ReleaseDeploying}"
  shows "keeps (on_rows release_history) (log_release pf en k a o_s p_s note st)"
proof -
  have "keeps (\<lambda>w. release_history (w_mem w)) (record_attempts n mode en k a w' note st)" for n mode w'
    unfolding keeps_def using record_attempts_run [OF _ _ assms] by (metis prod.collapse)
  then show ?thesis unfolding log_release_def record_release_def by (intro pkeeps on_rows_world)
qed

lemma history_persist [history_keeps]: "keeps (on_rows release_history) (persist_app_spec a)"
  unfolding persist_app_spec_def Let_def by (intro pkeeps on_rows_write history_keeps)

lemma history_reapply [history_keeps]:
  "st \<notin> {ReleaseActive, ReleaseDeploying} \<Longrightarrow> keeps (on_rows release_history) (reapply be pf en h a mark note st)"
  unfolding reapply_def by (intro pkeeps history_keeps)

lemma history_build [history_keeps]: "keeps (on_rows release_history) (start_build pf en k a o_s p_s)"
  unfolding start_build_def Let_def by (intro pkeeps on_rows_write history_keeps)

lemma history_encrypted [history_keeps]:
  "(\<And>e. keeps release_history (put e)) \<Longrightarrow> keeps (on_rows release_history) (store_encrypted pf en put d)"
  unfolding store_encrypted_def by (intro pkeeps on_rows_write)

lemma history_calls: "keeps (on_rows release_history) (run_platform be pf en g c)"
  by (cases c; simp only: run_platform.simps platform_ops Let_def; intro pkeeps on_rows_write history_keeps;
      simp add: history_keeps)

lemma history_set_status [history_keeps]: "keeps (on_rows release_history) (set_status_unless_stopped i st)"
  "keeps (on_rows release_history) (finish_build j f)"
  unfolding set_status_unless_stopped_def finish_build_def by (intro pkeeps on_rows_write history_keeps)+

lemma history_run_build:
  fixes be :: "'c backend"
  shows "keeps (on_rows release_history) (run_build be pf en k result)"
proof -
  have "keeps (on_rows release_history) (finish_build_failure en i j logs :: ('c, unit) pop)"
    "keeps (on_rows release_history) (finish_build_success be pf en i j o_s p_s img)" for i j logs o_s p_s img
    unfolding finish_build_failure_def finish_build_success_def Let_def
    by (intro pkeeps on_rows_write history_keeps; simp)+
  note finish = keepsD [OF this(1)] keepsD [OF this(2)]
  show ?thesis
    unfolding keeps_def
  proof (intro allI impI)
    fix p :: "'c pworld"
    assume "on_rows release_history p"
    then have "on_rows release_history (p\<lparr>pw_builds := bs\<rparr>)" for bs by (simp add: on_rows_def rows_def)
    then show "on_rows release_history (snd (run_build be pf en k result p))"
      using finish \<open>on_rows release_history p\<close> by (cases result) (simp_all add: run_build_def Let_def)
  qed
qed


lemma current_release_row:
  assumes "current_release i p = (Inr (Some r), q)" "workloads_wf (rows p)"
  shows "gget (st_releases (rows p)) (rel_id r) = Some r" "is_current r" "rel_app_id r = i"
proof -
  obtain rs u where rs: "all_releases i p = (Inr rs, u)" "find is_current rs = Some r"
    using assms(1) by (auto simp: current_release_def okE_def elim!: bindE_InrE)
  have "list_releases_by_app i \<lparr>page_limit = 0, page_offset = 0\<rparr> (rows p) = Inr rs"
    using rs(1) by (auto simp: all_releases_def lift_p_def failE_def okE_def elim!: tryE_E dest: read_row)
  then have "set rs = {r. rel_app_id r = i \<and> gget (st_releases (rows p)) (rel_id r) = Some r}"
    using releases_of_app(1) assms(2) by blast
  then show "gget (st_releases (rows p)) (rel_id r) = Some r" "is_current r" "rel_app_id r = i"
    using rs(2) by (auto simp: find_Some_iff dest: nth_mem)
qed

lemma history_reconcile: "keeps (on_rows release_history) (reconcile_release_status i machine :: ('c, unit) pop)"
proof -
  have move: "keeps (on_rows release_history) (bindE (current_release i) (\<lambda>cur. case cur of None \<Rightarrow> okE ()
       | Some r \<Rightarrow> if rel_status r = target then okE ()
                 else lift_p (p_write (update_release (r\<lparr>rel_status := target\<rparr>)))) :: ('c, unit) pop)" for target
    unfolding keeps_def on_rows_def
  proof (intro allI impI)
    fix p :: "'c pworld"
    assume p: "release_history (rows p)"
    obtain c u where c: "current_release i p = (c, u)" by (metis surj_pair)
    have u: "rows u = rows p" using reads_onlyD [OF lookups_read(7) c] by (simp add: seen_def)
    show "release_history (rows (snd (bindE (current_release i) (\<lambda>cur. case cur of None \<Rightarrow> okE ()
       | Some r \<Rightarrow> if rel_status r = target then okE ()
                 else lift_p (p_write (update_release (r\<lparr>rel_status := target\<rparr>)))) p)))"
    proof (cases "\<exists>r. c = Inr (Some r)")
      case True
      then obtain r where r: "c = Inr (Some r)" by blast
      have "workloads_wf (rows p)" using p by (simp add: release_history_def)
      note row = current_release_row [OF c [unfolded r] this]
      have "release_history (snd (update_release (r\<lparr>rel_status := target\<rparr>) (rows u)))"
        using history_update [OF p, of "r\<lparr>rel_status := target\<rparr>" r] row u by simp
      then show ?thesis
        using c r p u write_effect [of "update_release (r\<lparr>rel_status := target\<rparr>)" u]
        by (auto simp: bindE_def okE_def lift_p_state)
    next
      case False
      then show ?thesis using c p u by (auto simp: bindE_def okE_def split: sum.split option.split)
    qed
  qed
  show ?thesis unfolding reconcile_release_status_def Let_def by (intro keeps_if keeps_ok move)
qed

section \<open>Properties\<close>

text \<open>C38: the release history of every app stays in order: whatever a call of the platform, the end of
  a build or the reconciler does and whatever fails on the way, no two releases of an app share
  a revision and at most one of them is current.\<close>

theorem release_history_kept:
  assumes "release_history (rows p)"
    "m \<in> {run_platform be pf en g c, reconcile_release_status i machine, run_build be pf en k result}"
    "m p = (r, q)"
  shows "release_history (rows q)"
proof -
  have "keeps (on_rows release_history) m"
    using assms(2) history_calls history_reconcile history_run_build by blast
  then show ?thesis using assms(1,3) unfolding keeps_def on_rows_def by (metis snd_conv)
qed

text \<open>a release that was recorded is the current one of its app under the next free revision, in
  both kinds of transaction and under any failures, and no other row of the history lost or
  changed its revision.\<close>

theorem snapshot_is_next:
  assumes "record_release pf en k a wl note st p = (Inr r, q)" "release_history (rows p)"
    "st \<in> {ReleaseSuperseded, ReleaseRolledBack}"
  shows "snapshot (rows p) (rows q) (app_id a) r \<and> release_history (rows q)"
  using assms record_attempts_run [of "5" "pf_tx pf" en k a wl "note" st "pw_w p"]
  by (auto simp: record_release_def on_world_def rows_def Let_def split: prod.splits)

end
