(* ===== verification/Platform_Secrets.thy ===== *)
theory Platform_Secrets
  imports Platform_Releases
begin

text \<open>
  Secrets and proofs of ownership: with a key configured, what is secret is stored only
  encrypted and comes back as it was set; a domain is verified only for who controls its DNS.
\<close>

section \<open>Secrets at rest\<close>

definition db_sealed :: "database \<Rightarrow> bool" where
  "db_sealed d \<longleftrightarrow> db_password d = [] \<or> is_encrypted (db_password d)"

definition sealed :: "mem \<Rightarrow> bool" where
  "sealed s \<longleftrightarrow>
     (\<forall>i d. gget (st_databases s) i = Some d \<longrightarrow> db_sealed d) \<and>
     (\<forall>i k e. gget (app_env_of i s) k = Some e \<longrightarrow> ee_secret e \<longrightarrow> is_encrypted (ee_value e))"

named_theorems sealed_keeps \<open>writes that keep secrets encrypted\<close>

lemma sealed_frame:
  "(\<And>s. st_databases (snd (m s)) = st_databases s \<and> st_app_env (snd (m s)) = st_app_env s) \<Longrightarrow> keeps sealed m"
  by (simp add: keeps_def sealed_def app_env_of_def)

lemma sealed_other_writes [sealed_keeps]:
  "keeps sealed (create_app a)" "keeps sealed (update_app a)" "keeps sealed (delete_app i)"
  "keeps sealed (create_build b)" "keeps sealed (update_build b)"
  "keeps sealed (create_service v)" "keeps sealed (update_service v)" "keeps sealed (delete_service i)"
  "keeps sealed (create_domain dd)" "keeps sealed (update_domain dd)" "keeps sealed (delete_domain i)"
  "keeps sealed (create_release r)" "keeps sealed (update_release r)"
  by (rule sealed_frame,
      simp add: create_app_def update_app_def delete_app_def create_build_def update_build_def create_service_def
        update_service_def delete_service_def create_domain_def update_domain_def delete_domain_def
        create_release_def update_release_def on_tbl_def split: sum.split)+

lemma sealed_database_writes [sealed_keeps]:
  "db_sealed d \<Longrightarrow> keeps sealed (create_database d)"
  "db_sealed d \<Longrightarrow> keeps sealed (update_database d)"
  "keeps sealed (delete_database i)"
  by (auto simp: keeps_def sealed_def app_env_of_def create_database_def update_database_def delete_database_def on_tbl_def
      split: sum.splits if_splits dest!: tbl_Inr)

lemma sealed_env_writes [sealed_keeps]:
  "sec \<longrightarrow> is_encrypted v \<Longrightarrow> keeps sealed (set_app_env i k v sec)"
  "keeps sealed (delete_app_env i k)"
  by (auto simp: keeps_def sealed_def app_env_of_def set_app_env_def delete_app_env_def split: option.splits if_splits)

lemma sealed_log [sealed_keeps]: "keeps (on_rows sealed) (log_release pf en k a o_s p_s note st)"
  by (intro log_release_rows sealed_keeps)

lemma sealed_parts [sealed_keeps]:
  "keeps (on_rows sealed) (persist_app_spec a)" "keeps (on_rows sealed) (start_build pf en k a o_s p_s)"
  "keeps (on_rows sealed) (set_status_unless_stopped i st)" "keeps (on_rows sealed) (finish_build j f)"
  unfolding persist_app_spec_def start_build_def set_status_unless_stopped_def finish_build_def Let_def
  by (intro pkeeps on_rows_write sealed_keeps)+

lemma sealed_reapply [sealed_keeps]: "keeps (on_rows sealed) (reapply be pf en h a mark note st)"
  unfolding reapply_def by (intro pkeeps sealed_keeps)

lemma sealed_store_encrypted [sealed_keeps]:
  assumes "enabled (pf_cipher pf)"
    "\<And>e. db_sealed e \<Longrightarrow> keeps sealed (put e)"
  shows "keeps (on_rows sealed) (store_encrypted pf en put d)"
proof -
  have "db_sealed e" if "encrypted_for_store pf en d = Some e" for e
    using that assms(1) encrypted_prefix
    by (cases "pf_cipher pf") (auto simp: encrypted_for_store_def enabled_def db_sealed_def split: if_splits)
  then show ?thesis unfolding store_encrypted_def using assms(2) by (intro pkeeps on_rows_write) auto
qed

lemma sealed_set_env [sealed_keeps]:
  assumes "enabled (pf_cipher pf)"
  shows "keeps (on_rows sealed) (set_env pf en g i k v sec)"
proof -
  have "sec \<longrightarrow> is_encrypted e" if "(if sec then encrypt (pf_cipher pf) (pe_nonce en) v else Some v) = Some e" for e
    using that assms encrypted_prefix by (cases "pf_cipher pf") (auto simp: enabled_def)
  then show ?thesis unfolding set_env_def Let_def by (intro pkeeps on_rows_write sealed_keeps) auto
qed

lemma sealed_calls:
  assumes "enabled (pf_cipher pf)"
  shows "keeps (on_rows sealed) (run_platform be pf en g c)"
proof (cases "\<exists>i k v sec. c = PSetEnv i k v sec")
  case True
  then show ?thesis by (auto simp: no_result_def intro!: keeps_bind keeps_ok sealed_set_env assms)
next
  case False
  then show ?thesis
    by (cases c; simp only: run_platform.simps platform_ops Let_def;
        (intro pkeeps on_rows_write sealed_keeps assms)?; simp)
qed


lemma sealed_run_build:
  fixes be :: "'c backend"
  shows "keeps (on_rows sealed) (run_build be pf en k result)"
proof -
  have "keeps (on_rows sealed) (finish_build_failure en i j logs :: ('c, unit) pop)"
    "keeps (on_rows sealed) (finish_build_success be pf en i j o_s p_s img)" for i j logs o_s p_s img
    unfolding finish_build_failure_def finish_build_success_def Let_def
    by (intro pkeeps on_rows_write sealed_keeps)+
  note finish = keepsD [OF this(1)] keepsD [OF this(2)]
  show ?thesis
    unfolding keeps_def
  proof (intro allI impI)
    fix p :: "'c pworld"
    assume p: "on_rows sealed p"
    then have "on_rows sealed (p\<lparr>pw_builds := bs\<rparr>)" for bs by (simp add: on_rows_def rows_def)
    then show "on_rows sealed (snd (run_build be pf en k result p))"
      using finish p by (cases result) (simp_all add: run_build_def Let_def)
  qed
qed

text \<open>C39: with an encryption key configured, whatever a call of the platform or the end of a build
  does and whatever fails on the way, no password of a database and no secret variable of an app
  is stored in the clear.\<close>

theorem secrets_stay_sealed:
  assumes "enabled (pf_cipher pf)" "sealed (rows p)"
    "m \<in> {run_platform be pf en g c, run_build be pf en k result}" "m p = (r, q)"
  shows "sealed (rows q)"
proof -
  have "keeps (on_rows sealed) m" using assms(3) sealed_calls [OF assms(1)] sealed_run_build by blast
  then show ?thesis using assms(2,4) unfolding keeps_def on_rows_def by (metis snd_conv)
qed

section \<open>A secret comes back\<close>

lemma resolve_other:
  "resolve_entries ci es pl se = Some (pl', se') \<Longrightarrow> k \<notin> env_key ` set es \<Longrightarrow>
     gget pl' k = gget pl k \<and> gget se' k = gget se k"
  by (induction ci es pl se rule: resolve_entries.induct) (auto split: if_splits option.splits)

lemma resolve_secret:
  assumes "resolve_entries ci es pl se = Some (pl', se')" "distinct (map env_key es)" "e \<in> set es" "env_secret e"
    "decrypt ci (env_value e) = Some v"
  shows "gget se' (env_key e) = Some v \<and> gget pl' (env_key e) = gget pl (env_key e)"
  using assms(1-3)
proof (induction es arbitrary: pl se)
  case (Cons f es)
  show ?case
  proof (cases "f = e")
    case True
    then have "resolve_entries ci es pl (gput (env_key e) v se) = Some (pl', se')" using Cons.prems(1) assms(4,5) by simp
    then show ?thesis using resolve_other [of ci es _ _ pl' se' "env_key e"] Cons.prems(2) True by fastforce
  next
    case False
    then have "env_key f \<noteq> env_key e" using Cons.prems(2,3) by force
    moreover have "e \<in> set es" using Cons.prems(3) False by simp
    ultimately show ?thesis using Cons.IH Cons.prems(1,2) by (auto split: if_splits option.splits)
  qed
qed simp

lemma owned_app_row: "owned_app g i p = (Inr a, q) \<Longrightarrow> workloads_wf (rows p) \<Longrightarrow> app_id a = i \<and> app_org_id a = g"
  by (auto simp: owned_app_def failE_def okE_def workloads_wf_def keyed_def get_app_def tbl_get_def
      elim!: tryE_E split: if_splits option.splits dest!: read_row)

lemma listed_env_keys:
  assumes "gwf m"
  shows "distinct (map env_key (sort_by lt (map (\<lambda>(k, v). \<lparr>env_key = k, env_value = ee_value v, env_secret = ee_secret v\<rparr>) m)))"
proof -
  have "map env_key (map (\<lambda>(k, v). \<lparr>env_key = k, env_value = ee_value v, env_secret = ee_secret v\<rparr>) m) = map fst m"
    by (induction m) auto
  moreover have "mset (map env_key (sort_by lt es)) = mset (map env_key es)" for es by simp
  note mset_eq_imp_distinct_iff [OF this]
  ultimately show ?thesis using assms by (simp only: gwf_def)
qed

text \<open>a secret variable reads back as a mask, is stored encrypted, and the environment a deploy
  resolves has exactly the value that was set.\<close>

theorem secret_env_roundtrip:
  assumes "set_env pf en g i key v True p = (Inr e, q)" "workloads_wf (rows p)" "pf_cipher pf = GcmCipher a"
    "lawful_aead a" "pe_nonce en = Some n" "length n = ae_nonce_size a"
  shows "env_value e = env_mask \<and>
     (\<exists>x. gget (app_env_of i (rows q)) (trim_space key) = Some x \<and> is_encrypted (ee_value x)) \<and>
     (\<forall>plain secret t. resolved_env pf i q = (Inr (plain, secret), t) \<longrightarrow>
        gget secret (trim_space key) = Some v \<and> gget plain (trim_space key) = None)"
proof -
  let ?k = "trim_space key"
  obtain c where c: "encrypt (GcmCipher a) (Some n) v = Some c" "decrypt (GcmCipher a) c = Some v"
    using decrypt_encrypt [OF assms(4,6)] by blast
  obtain b u where b: "owned_app g i p = (Inr b, u)" and w: "lift_p (p_write (set_app_env (app_id b) ?k c True)) u = (Inr (), q)"
    and e: "env_value e = env_mask"
    using assms(1,3,5) c(1)
    by (auto simp: set_env_def Let_def masked_def okE_def failE_def elim!: bindE_InrE)
  have u: "rows u = rows p" using reads_onlyD [OF lookups_read(1) b] by (simp add: seen_def)
  have i: "app_id b = i" using owned_app_row [OF b assms(2)] by simp
  have "set_app_env i ?k c True (rows u) = (Inr (), rows q)"
    using w i by (auto simp: lift_p_def failE_def okE_def elim!: tryE_E dest: write_row)
  then have q: "rows q = (rows p)\<lparr>st_app_env := gput i (gput ?k \<lparr>ee_value = c, ee_secret = True\<rparr> (app_env_of i (rows p))) (st_app_env (rows p))\<rparr>"
    using u by (simp add: set_app_env_def)
  have row: "gget (app_env_of i (rows q)) ?k = Some \<lparr>ee_value = c, ee_secret = True\<rparr>"
    by (simp add: q app_env_of_def)
  have "workloads_wf (rows q)"
    using keepsD [OF workloads_keeps_env(1) assms(2), of i ?k c True] by (simp add: set_app_env_def q)
  then have wf: "gwf (app_env_of i (rows q))" by (rule gwf_app_env_of)
  have resolved: "gget secret ?k = Some v \<and> gget plain ?k = None" if "resolved_env pf i q = (Inr (plain, secret), t)" for plain secret t
  proof -
    let ?raw = "map (\<lambda>(k, v). \<lparr>env_key = k, env_value = ee_value v, env_secret = ee_secret v\<rparr>) (app_env_of i (rows q))"
    let ?es = "sort_by (\<lambda>a b. env_key a < env_key b) ?raw"
    obtain es y where es: "lift_p (p_read (list_app_env i)) q = (Inr es, y)"
      "resolve_entries (GcmCipher a) es [] [] = Some (plain, secret)"
      using \<open>resolved_env pf i q = (Inr (plain, secret), t)\<close> unfolding resolved_env_def
      by (rule bindE_InrE) (auto simp: failE_def okE_def assms(3) split: option.splits)
    have "list_app_env i (rows q) = Inr es"
      using es(1) by (auto simp: lift_p_def failE_def okE_def elim!: tryE_E dest: read_row)
    then have r: "resolve_entries (GcmCipher a) ?es [] [] = Some (plain, secret)"
      using es(2) by (simp add: list_app_env_def)
    have d: "distinct (map env_key ?es)" using wf by (rule listed_env_keys)
    have "(?k, \<lparr>ee_value = c, ee_secret = True\<rparr>) \<in> set (app_env_of i (rows q))"
      using row by (simp add: gget_def map_of_SomeD)
    then have "\<lparr>env_key = ?k, env_value = c, env_secret = True\<rparr> \<in> set ?es" by force
    from resolve_secret [OF r d this] show ?thesis using c(2) by simp
  qed
  show ?thesis using e row resolved c(1) encrypted_prefix by auto
qed


section \<open>Whose domain it is\<close>

text \<open>From one predicate to another.\<close>

definition leads :: "('s \<Rightarrow> bool) \<Rightarrow> ('e, 's, 'a) op \<Rightarrow> ('s \<Rightarrow> bool) \<Rightarrow> bool" where
  "leads I m J \<longleftrightarrow> (\<forall>s. I s \<longrightarrow> J (snd (m s)))"

lemma leads_keeps: "keeps J m \<Longrightarrow> (\<And>s. I s \<Longrightarrow> J s) \<Longrightarrow> leads I m J"
  by (simp add: leads_def keeps_def)

lemma leads_after:
  "yields I m Q \<Longrightarrow> (\<And>s. I s \<Longrightarrow> J s) \<Longrightarrow> (\<And>x. Q x \<Longrightarrow> leads I (k x) J) \<Longrightarrow> leads I (bindE m k) J"
  unfolding leads_def yields_def keeps_def bindE_def by (auto split: prod.splits sum.splits)

lemma leads_then: "leads I m J \<Longrightarrow> (\<And>x. keeps J (k x)) \<Longrightarrow> leads I (bindE m k) J"
  unfolding leads_def keeps_def bindE_def by (auto split: prod.splits sum.splits)

lemma leads_write:
  "(\<And>s. I s \<Longrightarrow> J s \<and> J (snd (m s))) \<Longrightarrow> leads (on_rows I) (lift_p (p_write m)) (on_rows J)"
  unfolding leads_def on_rows_def lift_p_state by (metis insertE singletonD write_effect)

definition verified_at :: "mem \<Rightarrow> string \<Rightarrow> bool" where
  "verified_at s i \<longleftrightarrow> (\<exists>d. gget (st_domains s) i = Some d \<and> domain_is_verified d)"

text \<open>What a domain that was not verified before the call met, and what the call was.\<close>

definition proven :: "penv \<Rightarrow> string \<Rightarrow> mem \<Rightarrow> domain \<Rightarrow> bool" where
  "proven en g s d \<longleftrightarrow>
     dom_org_id d = g \<and> challenge_met en d \<and>
     (\<forall>i x. gget (st_domains s) i = Some x \<longrightarrow> domain_is_verified x \<longrightarrow>
        \<not> equal_fold (dom_domain x) (to_lower (trim_space (dom_domain d))))"

definition sound_domains :: "penv \<Rightarrow> string \<Rightarrow> string option \<Rightarrow> mem \<Rightarrow> mem \<Rightarrow> bool" where
  "sound_domains en g j s0 s \<longleftrightarrow>
     (\<forall>i d. gget (st_domains s) i = Some d \<longrightarrow> domain_is_verified d \<longrightarrow> \<not> verified_at s0 i \<longrightarrow>
        j = Some i \<and> proven en g s0 d)"

lemma sound_refl: "sound_domains en g j s s"
  by (simp add: sound_domains_def verified_at_def)

named_theorems sound_keeps \<open>writes that verify no domain\<close>

lemma sound_other_writes [sound_keeps]:
  "keeps (sound_domains en g j s0) (create_app a)" "keeps (sound_domains en g j s0) (update_app a)"
  "keeps (sound_domains en g j s0) (delete_app i)" "keeps (sound_domains en g j s0) (create_build b)"
  "keeps (sound_domains en g j s0) (create_database d)" "keeps (sound_domains en g j s0) (update_database d)"
  "keeps (sound_domains en g j s0) (delete_database i)"
  "keeps (sound_domains en g j s0) (create_service v)" "keeps (sound_domains en g j s0) (update_service v)"
  "keeps (sound_domains en g j s0) (delete_service i)"
  "keeps (sound_domains en g j s0) (create_release r)" "keeps (sound_domains en g j s0) (update_release r)"
  "keeps (sound_domains en g j s0) (set_app_env i k x sec)" "keeps (sound_domains en g j s0) (delete_app_env i k)"
  by (simp add: keeps_def sound_domains_def create_app_def update_app_def delete_app_def create_build_def
      create_database_def update_database_def delete_database_def create_service_def update_service_def
      delete_service_def create_release_def update_release_def set_app_env_def delete_app_env_def on_tbl_def
      split: sum.split option.split)+

lemma sound_domain_writes [sound_keeps]:
  "\<not> domain_is_verified dd \<Longrightarrow> keeps (sound_domains en g j s0) (create_domain dd)"
  "\<not> domain_is_verified dd \<Longrightarrow> keeps (sound_domains en g j s0) (update_domain dd)"
  "keeps (sound_domains en g j s0) (delete_domain i)"
  by (auto simp: keeps_def sound_domains_def create_domain_def update_domain_def delete_domain_def on_tbl_def
      split: sum.splits if_splits dest!: tbl_Inr)

lemma sound_log [sound_keeps]: "keeps (on_rows (sound_domains en g j s0)) (log_release pf en' k a o_s p_s note st)"
  by (intro log_release_rows sound_keeps)

lemma sound_parts [sound_keeps]:
  "keeps (on_rows (sound_domains en g j s0)) (persist_app_spec a)"
  "keeps (on_rows (sound_domains en g j s0)) (start_build pf en' k a o_s p_s)"
  "(\<And>e. keeps (sound_domains en g j s0) (put e)) \<Longrightarrow> keeps (on_rows (sound_domains en g j s0)) (store_encrypted pf en' put d)"
  unfolding persist_app_spec_def start_build_def store_encrypted_def Let_def
  by (intro pkeeps on_rows_write sound_keeps; simp)+

lemma sound_reapply [sound_keeps]: "keeps (on_rows (sound_domains en g j s0)) (reapply be pf en' h a mark note st)"
  unfolding reapply_def by (intro pkeeps sound_keeps)

lemma sound_calls:
  assumes "\<And>i d. c \<noteq> PVerifyDomain i d"
  shows "keeps (on_rows (sound_domains en g j s0)) (run_platform be pf en g c)"
  using assms
  by (cases c; simp only: run_platform.simps platform_ops Let_def;
      (intro pkeeps on_rows_write sound_keeps)?; simp add: new_domain_def domain_is_verified_def)


lemma owned_domain_yields:
  assumes "workloads_wf s0"
  shows "yields (on_rows (\<lambda>s. s = s0)) (owned_domain g i j) (\<lambda>d. dom_org_id d = g \<and> dom_id d = j \<and> gget (st_domains s0) j = Some d)"
proof (rule yieldsI)
  show "keeps (on_rows (\<lambda>s. s = s0)) (owned_domain g i j)" by (intro pkeeps)
  fix p d q
  assume "on_rows (\<lambda>s. s = s0) p" "owned_domain g i j p = (Inr d, q)"
  then have "dom_org_id d = g" "get_domain j s0 = Inr d"
    by (auto simp: owned_domain_def failE_def okE_def on_rows_def elim!: tryE_E split: if_splits dest: read_row)
  then show "dom_org_id d = g \<and> dom_id d = j \<and> gget (st_domains s0) j = Some d"
    using assms by (auto simp: workloads_wf_def keyed_def get_domain_def tbl_get_def split: option.splits)
qed

text \<open>The check that no other domain took the host.\<close>

lemma read_row_error: "p_read r p = (Inl e, q) \<Longrightarrow> r (rows p) = Inl e \<or> driver_error e"
  unfolding p_read_def on_world_def rows_def by (auto simp: Let_def split: prod.splits dest: read_error)

lemma host_check_yields:
  assumes "workloads_wf s0" "gget (st_domains s0) (dom_id d) = Some d" "\<not> domain_is_verified d"
  shows "yields (on_rows (\<lambda>s. s = s0)) (tryE (p_read (get_verified_domain_by_host (dom_domain d)))
      (\<lambda>e. if e = ErrNotFound then okE None else failE (PStore e)) (\<lambda>x. okE (Some x)) :: ('c, domain option) pop)
    (\<lambda>found. \<not> (found \<noteq> None \<and> map_option dom_id found \<noteq> Some (dom_id d)) \<longrightarrow>
       (\<forall>i x. gget (st_domains s0) i = Some x \<longrightarrow> domain_is_verified x \<longrightarrow>
          \<not> equal_fold (dom_domain x) (to_lower (trim_space (dom_domain d)))))"
proof (rule yieldsI)
  let ?h = "get_verified_domain_by_host (dom_domain d)"
  show "keeps (on_rows (\<lambda>s. s = s0)) (tryE (p_read ?h)
      (\<lambda>e. if e = ErrNotFound then okE None else failE (PStore e)) (\<lambda>x. okE (Some x)) :: ('c, domain option) pop)"
    by (intro pkeeps)
  have doms: "x \<in> set (gvals (st_domains s0)) \<longleftrightarrow> gget (st_domains s0) (dom_id x) = Some x" for x
    using assms(1) by (auto simp: workloads_wf_def keyed_vals)
  have ids: "gget (st_domains s0) i = Some x \<Longrightarrow> dom_id x = i" for i x
    using assms(1) by (auto simp: workloads_wf_def keyed_def)
  fix p :: "'c pworld" and found q
  assume p: "on_rows (\<lambda>s. s = s0) p" and run: "tryE (p_read ?h)
      (\<lambda>e. if e = ErrNotFound then okE None else failE (PStore e)) (\<lambda>x. okE (Some x)) p = (Inr found, q)"
  show "\<not> (found \<noteq> None \<and> map_option dom_id found \<noteq> Some (dom_id d)) \<longrightarrow>
       (\<forall>i x. gget (st_domains s0) i = Some x \<longrightarrow> domain_is_verified x \<longrightarrow>
          \<not> equal_fold (dom_domain x) (to_lower (trim_space (dom_domain d))))"
  proof (cases found)
    case None
    then have "\<exists>u. p_read ?h p = (Inl ErrNotFound, u)"
      using run by (auto simp: failE_def okE_def elim!: tryE_E split: if_splits)
    then have "?h s0 = Inl ErrNotFound" using p read_row_error by (fastforce simp: on_rows_def driver_error_def)
    then show ?thesis using verified_host_complete [of "dom_domain d" s0] doms ids by blast
  next
    case (Some x)
    then have "\<exists>u. p_read ?h p = (Inr x, u)"
      using run by (auto simp: failE_def okE_def elim!: tryE_E split: if_splits)
    then have "?h s0 = Inr x" using p by (auto simp: on_rows_def dest: read_row)
    then have x: "domain_is_verified x" "gget (st_domains s0) (dom_id x) = Some x"
      using verified_host_sound doms by blast+
    then have "dom_id x \<noteq> dom_id d" using assms(2,3) by (metis option.inject)
    then show ?thesis using Some by simp
  qed
qed


lemma verify_sound:
  fixes be :: "'c backend"
  assumes "workloads_wf s0"
  shows "leads (on_rows (\<lambda>s. s = s0)) (verify_domain be pf en g i j) (on_rows (sound_domains en g (Some j) s0))"
proof -
  let ?I = "on_rows (\<lambda>s. s = s0)" and ?J = "on_rows (sound_domains en g (Some j) s0)"
  have start: "?I p \<Longrightarrow> ?J p" for p :: "'c pworld" by (auto simp: on_rows_def sound_refl)
  have owned: "yields ?I (owned_app g i) (\<lambda>_. True)" by (rule yieldsI, intro pkeeps, simp)
  have rest: "keeps ?J (with_instructions pf a x)" "keeps ?J (attach_verified_domain be pf a h)" for a x h
    by (intro pkeeps)+
  have put: "leads ?I (lift_p (p_write (update_domain x))) ?J"
    if "domain_is_verified x \<Longrightarrow> \<not> verified_at s0 (dom_id x) \<Longrightarrow> dom_id x = j \<and> proven en g s0 x" for x
    using that by (intro leads_write)
      (auto simp: sound_refl sound_domains_def verified_at_def update_domain_def on_tbl_def split: sum.splits if_splits dest!: tbl_Inr)
  have tail: "leads ?I (if \<not> challenge_met en d then
         let f = d\<lparr>dom_status := DomainFailed, dom_verified := False\<rparr>
         in bindE (lift_p (p_write (update_domain f))) (\<lambda>_. with_instructions pf a f)
       else
         bindE (tryE (p_read (get_verified_domain_by_host (dom_domain d)))
                  (\<lambda>e. if e = ErrNotFound then okE None else failE (PStore e)) (\<lambda>x. okE (Some x))) (\<lambda>found.
           if found \<noteq> None \<and> map_option dom_id found \<noteq> Some (dom_id d) then failE PDomainTaken
           else let v = d\<lparr>dom_status := DomainVerified, dom_verified := True, dom_verified_at := pe_now en 0\<rparr>
                in bindE (lift_p (p_write (update_domain v))) (\<lambda>_.
                   bindE (attach_verified_domain be pf a (dom_domain v)) (\<lambda>_. with_instructions pf a v)))) ?J"
    if d: "dom_org_id d = g" "dom_id d = j" "gget (st_domains s0) j = Some d" for a d
  proof (cases "challenge_met en d")
    case False
    then show ?thesis unfolding Let_def
      by (simp, intro leads_then put rest) (simp add: domain_is_verified_def)
  next
    case met: True
    let ?v = "d\<lparr>dom_status := DomainVerified, dom_verified := True, dom_verified_at := pe_now en 0\<rparr>"
    have met_v: "challenge_met en ?v" using met by (simp add: challenge_met_def split: option.splits)
    have last: "leads ?I (bindE (lift_p (p_write (update_domain ?v))) (\<lambda>_.
                   bindE (attach_verified_domain be pf a (dom_domain ?v)) (\<lambda>_. with_instructions pf a ?v))) ?J"
      if "domain_is_verified d \<or> (\<forall>i x. gget (st_domains s0) i = Some x \<longrightarrow> domain_is_verified x \<longrightarrow>
          \<not> equal_fold (dom_domain x) (to_lower (trim_space (dom_domain d))))"
      using that d met_v
      by (intro leads_then keeps_bind rest put) (auto simp: verified_at_def proven_def)
    show ?thesis
    proof (cases "domain_is_verified d")
      case True
      have "yields ?I (tryE (p_read (get_verified_domain_by_host (dom_domain d)))
                  (\<lambda>e. if e = ErrNotFound then okE None else failE (PStore e)) (\<lambda>x. okE (Some x))) (\<lambda>_. True)"
        by (rule yieldsI, intro pkeeps, simp)
      then show ?thesis using met last True unfolding Let_def
        by simp (rule leads_after, assumption, erule start, simp add: leads_keeps keeps_fail start)
    next
      case False
      note check = host_check_yields [OF assms, of d, unfolded d(2), OF d(3) False]
      show ?thesis using met last unfolding Let_def
        by simp (rule leads_after [OF check], erule start, auto simp: leads_keeps keeps_fail start d(2))
    qed
  qed
  show ?thesis unfolding verify_domain_def
    by (rule leads_after [OF owned], erule start, rule leads_after [OF owned_domain_yields [OF assms]], erule start,
        rule tail) simp_all
qed

text \<open>C40: a custom domain becomes verified only in a call of its own organization to verify it, when the
  DNS of the host carries the token the platform chose for it, and when no other organization or
  app has the host verified; whatever fails, no other call verifies a domain.\<close>

theorem domain_verified_by_owner:
  assumes "workloads_wf (rows p)" "run_platform be pf en g c p = (r, q)"
    "gget (st_domains (rows q)) j = Some d" "domain_is_verified d" "\<not> verified_at (rows p) j"
  shows "\<exists>i. c = PVerifyDomain i j \<and> proven en g (rows p) d"
proof (cases "\<exists>i x. c = PVerifyDomain i x")
  case True
  then obtain i x where c: "c = PVerifyDomain i x" by blast
  have "leads (on_rows (\<lambda>s. s = rows p)) (run_platform be pf en g c) (on_rows (sound_domains en g (Some x) (rows p)))"
    unfolding c run_platform.simps no_result_def by (intro leads_then verify_sound assms(1) keeps_ok)
  then have "sound_domains en g (Some x) (rows p) (rows q)"
    using assms(2) unfolding leads_def on_rows_def by (metis snd_conv)
  then show ?thesis using assms(3-5) by (auto simp: sound_domains_def c)
next
  case False
  then have "keeps (on_rows (sound_domains en g None (rows p))) (run_platform be pf en g c)" by (intro sound_calls) blast
  then have "sound_domains en g None (rows p) (rows q)"
    using assms(2) sound_refl unfolding keeps_def on_rows_def by (metis snd_conv)
  then show ?thesis using assms(3-5) by (auto simp: sound_domains_def)
qed

end
