(* ===== verification/Platform_Failures.thy ===== *)
theory Platform_Failures
  imports Platform_Gates Platform_Secrets Samples
begin

text \<open>
  Runs in which the platform does something its comments rule out, on a concrete installation
  with the in-memory backend: two organizations, each with an app.
\<close>

section \<open>A concrete installation\<close>

definition demo_env :: penv where
  "demo_env = \<lparr>pe_now = (\<lambda>k. 3600000000000 + int k), pe_id = (\<lambda>k. ''n'' @ itoa (int k)), pe_nonce = None,
     pe_token = Some ''tok'', pe_password = Some ''pw'', pe_lookup_txt = (\<lambda>h. Some [''tok'']),
     pe_sha256_hex = (\<lambda>s. ''0123456789abcdef''), pe_float_text = (\<lambda>x. ''1'')\<rparr>"

definition demo_conf :: pconf where
  "demo_conf = \<lparr>pf_tx = TxMemory, pf_build_registry = [], pf_pull_secret_name = [], pf_db_storage_gb = 0,
     pf_db_storage_class = [], pf_cipher = NoopCipher, pf_base_domain = ''base.example'', pf_gateway_lb_host = []\<rparr>"

definition demo_sha :: "string \<Rightarrow> string" where
  "demo_sha s = ''0123456789abcdef''"

definition demo_org :: "string \<Rightarrow> string \<Rightarrow> organization" where
  "demo_org i slug = \<lparr>org_id = i, org_name = slug, org_slug = slug, org_billing_email = [], org_spend_cap_cents = 0,
     org_created_at = 0\<rparr>"

definition demo_project :: "string \<Rightarrow> string \<Rightarrow> string \<Rightarrow> project" where
  "demo_project i g slug = \<lparr>proj_id = i, proj_org_id = g, proj_name = slug, proj_slug = slug, proj_is_default = False,
     proj_created_at = 0\<rparr>"

text \<open>The app as its creation and first deploy left it.\<close>

definition demo_app :: "string \<Rightarrow> string \<Rightarrow> string \<Rightarrow> string \<Rightarrow> app" where
  "demo_app i g proj st = \<lparr>app_id = i, app_org_id = g, app_project_id = proj, app_name = ''api'', app_image = ''nginx'',
     app_git_repository = [], app_git_branch = ''main'', app_build_pack = [], app_cpu = 1, app_memory_mb = 512,
     app_status = st, app_min_replicas = 0, app_max_replicas = 0, app_region = [], app_namespace = ''vortex-acme-prod-web'',
     app_release = ''api'', app_host = [], app_created_at = 0\<rparr>"

definition demo_subscription :: "string \<Rightarrow> subscription_status \<Rightarrow> subscription" where
  "demo_subscription g st = \<lparr>sub_org_id = g, sub_plan_id = ''launch'', sub_status = st, sub_stripe_customer_id = [],
     sub_stripe_subscription_id = [], sub_stripe_subscription_item_id = [], sub_created_at = 0,
     sub_current_period_end = 0\<rparr>"

definition demo_domain :: domain where
  "demo_domain = \<lparr>dom_id = ''d1'', dom_org_id = ''o1'', dom_app_id = ''a1'', dom_domain = ''shop.example'',
     dom_verified = False, dom_status = DomainPending, dom_verification_token = ''tok'', dom_verified_at = zero_time,
     dom_created_at = 0\<rparr>"

definition demo_store :: "string \<Rightarrow> subscription_status \<Rightarrow> mem" where
  "demo_store st sub = new_memory_store\<lparr>
     st_organizations := [(''o1'', demo_org ''o1'' ''acme''), (''o2'', demo_org ''o2'' ''acme-prod'')],
     st_projects := [(''p1'', demo_project ''p1'' ''o1'' ''prod-web''), (''p2'', demo_project ''p2'' ''o2'' ''web'')],
     st_apps := [(''a1'', demo_app ''a1'' ''o1'' ''p1'' st), (''a2'', demo_app ''a2'' ''o2'' ''p2'' ''running'')],
     st_subscriptions := [(''o1'', demo_subscription ''o1'' sub), (''o2'', demo_subscription ''o2'' SubActive)],
     st_domains := [(''d1'', demo_domain)]\<rparr>"

definition demo_world :: "string \<Rightarrow> subscription_status \<Rightarrow> fake pworld" where
  "demo_world st sub = \<lparr>pw_w = \<lparr>w_mem = demo_store st sub, w_faults = [], w_tx = None, w_mail = [], w_tls = []\<rparr>,
     pw_cluster = new_fake_backend, pw_builds = []\<rparr>"

definition demo_key :: string where
  "demo_key = fake_key ''vortex-acme-prod-web'' ''api''"

lemma demo_wf: "workloads_wf (demo_store st sub)"
  by (auto simp: workloads_wf_def demo_store_def keyed_def gwf_def gget_def demo_app_def demo_domain_def
      new_memory_store_def seed_def Let_def zero_settings_def split: if_splits)

definition demo_workload :: workload where
  "demo_workload = \<lparr>wl_org_slug = ''acme'', wl_project_slug = ''prod-web'', wl_name = ''api'', wl_kind = ''app'',
     wl_image = ''nginx'', wl_port = 80, wl_cpu = 1, wl_memory_mb = 512, wl_env = [], wl_cpu_factor = 1,
     wl_memory_factor = 1, wl_template_key = [], wl_domains = [], wl_region = [], wl_storage_gb = 0,
     wl_storage_class = [], wl_image_pull_secret = [], wl_env_secret_name = [], wl_scaling = no_scaling\<rparr>"

definition demo_cipher :: aead where
  "demo_cipher = \<lparr>ae_nonce_size = 2, ae_seal = (\<lambda>n m. rev m), ae_open = (\<lambda>n c. Some (rev c))\<rparr>"

definition sealed_conf :: pconf where
  "sealed_conf = demo_conf\<lparr>pf_cipher := GcmCipher demo_cipher\<rparr>"

definition sealed_env :: penv where
  "sealed_env = demo_env\<lparr>pe_nonce := Some ''ab''\<rparr>"

text \<open>The runs below, evaluated together.\<close>

lemma demo_runs:
  "(let (r1, p) = deploy (fake_backend demo_sha) demo_conf demo_env ''o1'' ''a1'' (demo_world ''running'' SubActive);
        (r2, q) = deploy (fake_backend demo_sha) demo_conf demo_env ''o2'' ''a2'' p;
        (r3, t) = delete_app_p (fake_backend demo_sha) ''o2'' ''a2'' q
    in \<not> isl r1 \<and> map_option wl_org_slug (gget (fk_applied (pw_cluster p)) demo_key) = Some ''acme'' \<and>
       \<not> isl r2 \<and> map_option wl_org_slug (gget (fk_applied (pw_cluster q)) demo_key) = Some ''acme-prod'' \<and>
       r3 = Inr () \<and> gget (fk_applied (pw_cluster t)) demo_key = None \<and>
       map_option app_status (gget (st_apps (rows t)) ''a1'') = Some ''deploying'') \<and>
   (let be = fake_backend demo_sha;
        (r1, p1) = deploy be demo_conf demo_env ''o1'' ''a1'' (demo_world ''running'' SubActive);
        (r2, p2) = stop_app be ''o1'' ''a1'' p1;
        (r3, p3) = p_write (upsert_subscription (demo_subscription ''o1'' SubUnpaid)) p2;
        (r, q) = verify_domain be demo_conf demo_env ''o1'' ''a1'' ''d1'' p3
    in fst (ensure_active_p demo_env ''o1'' p3) = Inl (PBilling (BPaymentRequired (SubscriptionStanding SubUnpaid))) \<and>
       gget (fk_replicas (pw_cluster p3)) demo_key = Some 0 \<and>
       \<not> isl r \<and> gget (fk_replicas (pw_cluster q)) demo_key = Some 1 \<and>
       map_option app_status (gget (st_apps (rows q)) ''a1'') = Some ''stopped'') \<and>
   (let be = fake_backend demo_sha;
        input = \<lparr>cs_template_key = ''docker-image'', cs_name = ''web'', cs_image = ''nginx'', cs_cpu = 0, cs_memory_mb = 0,
                 cs_region = []\<rparr>;
        shown = (\<lambda>p. map_option wl_image (gget (fk_applied (pw_cluster p)) (fake_key ''vortex-acme-prod-web'' ''web'')));
        (r1, p) = create_service_p be demo_env ''o2'' ''p2'' input (demo_world ''running'' SubActive);
        (r2, q) = deploy_service be demo_env ''o2'' (pe_id demo_env 0) p
    in \<not> isl r1 \<and> shown p = Some ''nginx'' \<and> \<not> isl r2 \<and> shown q = Some []) \<and>
   \<not> isl (fst (record_release demo_conf demo_env 0 (demo_app ''a1'' ''o1'' ''p1'' ''running'') demo_workload [] ReleaseSuperseded
     (demo_world ''running'' SubActive))) \<and>
   \<not> isl (fst (set_env sealed_conf sealed_env ''o1'' ''a1'' ''KEY'' ''hunter2'' True (demo_world ''running'' SubActive))) \<and>
   (case gget (st_domains (rows (snd (run_platform (fake_backend demo_sha) demo_conf demo_env ''o1'' (PVerifyDomain ''a1'' ''d1'')
       (demo_world ''running'' SubActive))))) ''d1'' of None \<Rightarrow> False | Some d \<Rightarrow> domain_is_verified d)"
  by code_simp

section \<open>Two organizations in one namespace\<close>


section \<open>A verified domain starts the app\<close>

text \<open>verifying a domain applies the workload of the app again without asking the billing gate and
  without looking whether the app is stopped: the app an unpaid organization had to stop runs
  again, and its row still says stopped.\<close>

theorem verify_domain_revives_stopped_app:
  "let be = fake_backend demo_sha;
       (r1, p1) = deploy be demo_conf demo_env ''o1'' ''a1'' (demo_world ''running'' SubActive);
       (r2, p2) = stop_app be ''o1'' ''a1'' p1;
       (r3, p3) = p_write (upsert_subscription (demo_subscription ''o1'' SubUnpaid)) p2;
       (r, q) = verify_domain be demo_conf demo_env ''o1'' ''a1'' ''d1'' p3
   in fst (ensure_active_p demo_env ''o1'' p3) = Inl (PBilling (BPaymentRequired (SubscriptionStanding SubUnpaid))) \<and>
      gget (fk_replicas (pw_cluster p3)) demo_key = Some 0 \<and>
      \<not> isl r \<and> gget (fk_replicas (pw_cluster q)) demo_key = Some 1 \<and>
      map_option app_status (gget (st_apps (rows q)) ''a1'') = Some ''stopped''"
  using demo_runs by blast

section \<open>An update forgets the git source\<close>

definition git_source :: "app \<Rightarrow> string \<times> string" where
  "git_source a = (app_git_repository a, app_git_branch a)"

definition git_sources :: "mem \<Rightarrow> string \<Rightarrow> (string \<times> string) option" where
  "git_sources s i = map_option git_source (gget (st_apps s) i)"

definition same_git :: "(string \<Rightarrow> (string \<times> string) option) \<Rightarrow> mem \<Rightarrow> bool" where
  "same_git G s \<longleftrightarrow> workloads_wf s \<and> git_sources s = G"

lemma same_git_update: "G (app_id a) = Some (git_source a) \<Longrightarrow> keeps (same_git G) (update_app a)"
proof -
  assume a: "G (app_id a) = Some (git_source a)"
  have "git_sources (snd (update_app a s)) = G" if "git_sources s = G" for s
    using a that by (auto simp: update_app_def on_tbl_def tbl_update_def git_sources_def fun_eq_iff split: option.splits)
  then show ?thesis using workloads_keeps_app(2) by (auto simp: keeps_def same_git_def)
qed

lemma same_git_persist: "keeps (on_rows (same_git G)) (persist_app_spec a)"
proof -
  have y: "yields (on_rows (same_git G)) (lift_p (p_read (get_app (app_id a)))) (\<lambda>x. G (app_id x) = Some (git_source x))"
  proof (rule yieldsI)
    show "keeps (on_rows (same_git G)) (lift_p (p_read (get_app (app_id a))))" by (intro pkeeps)
    fix p x q
    assume p: "on_rows (same_git G) p" and "lift_p (p_read (get_app (app_id a))) p = (Inr x, q)"
    then have "get_app (app_id a) (rows p) = Inr x"
      by (auto simp: lift_p_def failE_def okE_def elim!: tryE_E dest: read_row)
    then show "G (app_id x) = Some (git_source x)"
      using p by (auto simp: on_rows_def same_git_def workloads_wf_def keyed_def get_app_def tbl_get_def git_sources_def
          split: option.splits)
  qed
  have spec: "git_source (spec_onto a x) = git_source x" "app_id (spec_onto a x) = app_id x" for x
    by (simp_all add: git_source_def spec_onto_def)
  show ?thesis unfolding persist_app_spec_def Let_def
    by (rule bind_yields [OF y]) (intro pkeeps on_rows_write same_git_update; simp add: spec)
qed

lemma same_git_log: "keeps (on_rows (same_git G)) (log_release pf en k a o_s p_s note st)"
proof -
  have releases: "keeps (same_git G) (update_release r)" "keeps (same_git G) (create_release r)" for r
    using workloads_keeps_release [of r]
    by (auto simp: keeps_def same_git_def git_sources_def fun_eq_iff update_release_def on_tbl_def create_release_def
        split: sum.splits)
  show ?thesis by (intro log_release_rows releases)
qed

text \<open>an update may set a new git repository or branch, but the fields it writes back do not include
  them: whatever the request says and whatever fails, the stored git source of every app stays
  as it was.\<close>

theorem update_app_forgets_git:
  assumes "workloads_wf (rows p)" "update_app_p be pf en g i input p = (r, q)"
  shows "git_sources (rows q) = git_sources (rows p)"
proof -
  have "keeps (on_rows (same_git (git_sources (rows p)))) (update_app_p be pf en g i input)"
    unfolding update_app_p_def reapply_def Let_def by (intro pkeeps same_git_persist same_git_log)
  then show ?thesis using assms unfolding keeps_def on_rows_def same_git_def by (metis snd_conv)
qed

lemma update_app_forgets_git_witness:
  "let p = demo_world ''running'' SubActive; input = \<lparr>ua_image = None, ua_cpu = None, ua_memory_mb = None,
         ua_git_repository = Some ''https://git.example/new'', ua_git_branch = Some ''release''\<rparr>;
       (r, q) = update_app_p (fake_backend demo_sha) demo_conf demo_env ''o1'' ''a1'' input p
   in git_sources (rows q) ''a1'' = Some ([], ''main'')"
proof -
  let ?p = "demo_world ''running'' SubActive"
  have wf: "workloads_wf (rows ?p)" by (simp add: demo_world_def rows_def demo_wf)
  have "git_sources (rows (snd (update_app_p (fake_backend demo_sha) demo_conf demo_env ''o1'' ''a1'' input ?p))) ''a1'' =
      git_sources (rows ?p) ''a1''" for input
    using update_app_forgets_git [OF wf surjective_pairing] by metis
  moreover have "git_sources (rows ?p) ''a1'' = Some ([], ''main'')" by code_simp
  ultimately show ?thesis by (simp add: Let_def case_prod_beta)
qed

section \<open>The guarantees on this installation\<close>

lemma demo_rows_wf: "workloads_wf (rows (demo_world st sub))"
  by (simp add: demo_world_def rows_def demo_wf)

lemma unpaid_starts_no_work_witness:
  "pw_cluster (snd (run_platform (fake_backend demo_sha) demo_conf demo_env ''o1'' (PDeploy ''a1'')
     (demo_world ''running'' SubUnpaid))) = new_fake_backend \<and>
   run_platform (starting_with (\<lambda>_. okE ([], [])) (\<lambda>_ _. okE ()) (\<lambda>_ _. okE ()) (fake_backend demo_sha)) demo_conf demo_env
     ''o1'' (PStop ''a1'') (demo_world ''running'' SubUnpaid) =
   run_platform (fake_backend demo_sha) demo_conf demo_env ''o1'' (PStop ''a1'') (demo_world ''running'' SubUnpaid)"
proof -
  have blocks: "standing_blocks (rows (demo_world ''running'' SubUnpaid)) ''o1''" by code_simp
  have "pw_cluster (snd (run_platform (fake_backend demo_sha) demo_conf demo_env ''o1'' (PDeploy ''a1'')
      (demo_world ''running'' SubUnpaid))) = pw_cluster (demo_world ''running'' SubUnpaid)"
    using unpaid_starts_no_work [OF blocks surjective_pairing, of "fake_backend demo_sha" demo_conf demo_env "PDeploy ''a1''"]
    by simp
  moreover have "pw_cluster (demo_world ''running'' SubUnpaid) = new_fake_backend" by (simp add: demo_world_def)
  ultimately show ?thesis
    using unpaid_starts_no_work [OF blocks surjective_pairing, of "fake_backend demo_sha" demo_conf demo_env "PStop ''a1''"]
    by simp
qed


lemma tenant_rows_isolated_witness:
  "foreign ''o2'' (rows (snd (run_platform (fake_backend demo_sha) demo_conf demo_env ''o2'' (PStop ''a2'')
     (demo_world ''running'' SubActive)))) = foreign ''o2'' (rows (demo_world ''running'' SubActive))"
  by (rule tenant_rows_isolated [OF demo_rows_wf surjective_pairing])

lemma stopped_app_not_revived_witness:
  "pw_cluster (snd (run_platform (fake_backend demo_sha) demo_conf demo_env ''o1'' (PRollback ''a1'' 0)
     (demo_world ''stopped'' SubActive))) = new_fake_backend"
proof -
  have "gget (st_apps (rows (demo_world ''stopped'' SubActive))) ''a1'' = Some (demo_app ''a1'' ''o1'' ''p1'' ''stopped'')"
    by (simp add: demo_world_def demo_store_def rows_def gget_def)
  moreover have "app_status (demo_app ''a1'' ''o1'' ''p1'' ''stopped'') = ''stopped''" by (simp add: demo_app_def)
  ultimately have "pw_cluster (snd (run_platform (fake_backend demo_sha) demo_conf demo_env ''o1'' (PRollback ''a1'' 0)
     (demo_world ''stopped'' SubActive))) = pw_cluster (demo_world ''stopped'' SubActive)"
    using stopped_app_not_revived [OF demo_rows_wf, where m = "run_platform (fake_backend demo_sha) demo_conf demo_env ''o1'' (PRollback ''a1'' 0)",
        OF _ _ _ surjective_pairing] by blast
  then show ?thesis by (simp add: demo_world_def)
qed

section \<open>A service loses its image\<close>

text \<open>a service created with an image of its own runs it only until the next deploy: that renders the
  workload from the template, which for the \<open>docker-image\<close> template names no image at all.\<close>

theorem redeploy_loses_image:
  "let be = fake_backend demo_sha;
       input = \<lparr>cs_template_key = ''docker-image'', cs_name = ''web'', cs_image = ''nginx'', cs_cpu = 0, cs_memory_mb = 0,
                cs_region = []\<rparr>;
       shown = (\<lambda>p. map_option wl_image (gget (fk_applied (pw_cluster p)) (fake_key ''vortex-acme-prod-web'' ''web'')));
       (r1, p) = create_service_p be demo_env ''o2'' ''p2'' input (demo_world ''running'' SubActive);
       (r2, q) = deploy_service be demo_env ''o2'' (pe_id demo_env 0) p
   in \<not> isl r1 \<and> shown p = Some ''nginx'' \<and> \<not> isl r2 \<and> shown q = Some []"
  using demo_runs by blast

section \<open>Histories, secrets and domains on this installation\<close>

lemma demo_history: "release_history (rows (demo_world st sub))"
  using demo_rows_wf [of st sub]
  by (simp add: release_history_def revisions_unique_def one_current_def demo_world_def demo_store_def rows_def
      new_memory_store_def seed_def Let_def)

lemma release_history_kept_witness:
  "release_history (rows (snd (run_platform (fake_backend demo_sha) demo_conf demo_env ''o1'' (PDeploy ''a1'')
     (demo_world ''running'' SubActive))))"
  by (rule release_history_kept [OF demo_history insertI1 surjective_pairing])

lemma snapshot_is_next_witness:
  "\<exists>r q. record_release demo_conf demo_env 0 (demo_app ''a1'' ''o1'' ''p1'' ''running'') demo_workload [] ReleaseSuperseded
      (demo_world ''running'' SubActive) = (Inr r, q) \<and>
    snapshot (rows (demo_world ''running'' SubActive)) (rows q) ''a1'' r"
proof -
  let ?m = "record_release demo_conf demo_env 0 (demo_app ''a1'' ''o1'' ''p1'' ''running'') demo_workload [] ReleaseSuperseded
      (demo_world ''running'' SubActive)"
  have "\<not> isl (fst ?m)" using demo_runs by blast
  then obtain r where "?m = (Inr r, snd ?m)" by (cases "fst ?m") (auto simp: prod_eq_iff)
  then show ?thesis using snapshot_is_next [OF _ demo_history, of demo_conf demo_env 0 _ demo_workload "[]"]
    by (metis app.select_convs(1) demo_app_def insertI1)
qed

lemma demo_sealed: "enabled (pf_cipher sealed_conf)" "sealed (rows (demo_world st sub))"
  by (simp_all add: sealed_conf_def enabled_def sealed_def demo_world_def demo_store_def rows_def
      new_memory_store_def seed_def Let_def app_env_of_def)

lemma secrets_stay_sealed_witness:
  "sealed (rows (snd (run_platform (fake_backend demo_sha) sealed_conf sealed_env ''o1'' (PSetEnv ''a1'' ''KEY'' ''hunter2'' True)
     (demo_world ''running'' SubActive))))"
  by (rule secrets_stay_sealed [OF demo_sealed insertI1 surjective_pairing])

lemma secret_env_roundtrip_witness:
  "\<exists>e q. set_env sealed_conf sealed_env ''o1'' ''a1'' ''KEY'' ''hunter2'' True (demo_world ''running'' SubActive) = (Inr e, q) \<and>
     (\<forall>plain secret t. resolved_env sealed_conf ''a1'' q = (Inr (plain, secret), t) \<longrightarrow>
        gget secret (trim_space ''KEY'') = Some ''hunter2'')"
proof -
  let ?m = "set_env sealed_conf sealed_env ''o1'' ''a1'' ''KEY'' ''hunter2'' True (demo_world ''running'' SubActive)"
  have "\<not> isl (fst ?m)" using demo_runs by blast
  then obtain e where e: "?m = (Inr e, snd ?m)" by (cases "fst ?m") (auto simp: prod_eq_iff)
  have "lawful_aead demo_cipher" by (auto simp: lawful_aead_def demo_cipher_def)
  moreover have "pf_cipher sealed_conf = GcmCipher demo_cipher" "pe_nonce sealed_env = Some ''ab''"
    "length ''ab'' = ae_nonce_size demo_cipher"
    by (simp_all add: sealed_conf_def sealed_env_def demo_cipher_def)
  ultimately show ?thesis using secret_env_roundtrip [OF e demo_rows_wf] e by blast
qed

lemma domain_verified_by_owner_witness:
  "\<exists>d. proven demo_env ''o1'' (rows (demo_world ''running'' SubActive)) d"
proof -
  let ?q = "snd (run_platform (fake_backend demo_sha) demo_conf demo_env ''o1'' (PVerifyDomain ''a1'' ''d1'')
     (demo_world ''running'' SubActive))"
  have "case gget (st_domains (rows ?q)) ''d1'' of None \<Rightarrow> False | Some d \<Rightarrow> domain_is_verified d"
    using demo_runs by blast
  then obtain d where d: "gget (st_domains (rows ?q)) ''d1'' = Some d" "domain_is_verified d"
    by (auto split: option.splits)
  have "\<not> verified_at (rows (demo_world ''running'' SubActive)) ''d1''"
    by (simp add: verified_at_def demo_world_def demo_store_def rows_def gget_def demo_domain_def domain_is_verified_def)
  then show ?thesis using domain_verified_by_owner [OF demo_rows_wf surjective_pairing d] by blast
qed

end
