(* ===== verification/Http_Failures.thy ===== *)
theory Http_Failures
  imports Http_Tenants Http_Tokens Http_Limits Platform_Failures
begin

text \<open>
  Requests to a small site on concrete data: what the HTTP layer lets through that it should not,
  and the witnesses of its properties.
\<close>

section \<open>A site\<close>

definition site_user :: "string \<Rightarrow> string \<Rightarrow> bool \<Rightarrow> user" where
  "site_user i email adm = \<lparr>user_id = i, user_email = email, user_name = i, user_password_hash = [], user_is_admin = adm,
     user_created_at = 0\<rparr>"

definition site_member :: "string \<Rightarrow> string \<Rightarrow> role \<Rightarrow> store_call" where
  "site_member g u r = TenancyCall (AddMembership \<lparr>mem_org_id = g, mem_user_id = u, mem_role = r\<rparr>)"

text \<open>Ada owns the first organization and Bob is its admin; Eve has only an account, Olga the second organization.\<close>

definition site_calls :: "store_call list" where
  "site_calls =
     [TenancyCall (CreateUser (site_user ''ada'' ''ada@example.com'' False)),
      TenancyCall (CreateUser (site_user ''bob'' ''bob@example.com'' False)),
      TenancyCall (CreateUser (site_user ''eve'' ''eve@example.com'' False)),
      TenancyCall (CreateUser (site_user ''olga'' ''olga@example.com'' False)),
      TenancyCall (CreateOrganization (demo_org ''o1'' ''acme'')), TenancyCall (CreateOrganization (demo_org ''o2'' ''beta'')),
      site_member ''o1'' ''ada'' RoleOwner, site_member ''o1'' ''bob'' RoleAdmin, site_member ''o2'' ''olga'' RoleOwner,
      TenancyCall (tenancy_call.CreateProject (demo_project ''p1'' ''o1'' ''web'')), TenancyCall (tenancy_call.CreateProject (demo_project ''p2'' ''o2'' ''web'')),
      TenancyCall (tenancy_call.CreateProject (demo_project ''p3'' ''o2'' ''empty'')),
      WorkloadCall (workload_call.CreateApp (demo_app ''a1'' ''o1'' ''p1'' ''running'')),
      WorkloadCall (workload_call.CreateApp (demo_app ''a2'' ''o2'' ''p2'' ''running'')),
      BillingCall (UpsertSubscription (demo_subscription ''o1'' SubActive)),
      BillingCall (UpsertSubscription (demo_subscription ''o2'' SubActive))]"

definition site_store :: mem where
  "site_store = run_calls site_calls new_memory_store"

lemma site_wf: "mem_wf site_store"
  unfolding site_store_def by (intro mem_wf_reachable reachable_run_calls reach_new)

text \<open>A signed token is the id of its user.\<close>

definition site_env :: http_env where
  "site_env = \<lparr>he_now = 3600000000000, he_id = (\<lambda>k. CHR ''h'' # itoa (int k)), he_billing_now = (\<lambda>k. 3600000000000),
     he_identity = sample_env\<lparr>env_parse := (\<lambda>s. if s = [] then None else
         Some \<lparr>cl_type = AccessToken, cl_id = s, cl_subject = s, cl_issued_at = 0, cl_expires_at = 9\<rparr>)\<rparr>,
     he_platform = demo_env, he_token_body = Some ''ABC'', he_sha256_hex = (\<lambda>s. CHR ''#'' # s),
     he_parse_url = (\<lambda>s. None), he_hmac_hex = (\<lambda>k s. k @ s), he_split_host_port = (\<lambda>s. None)\<rparr>"

definition site_conf :: http_conf where
  "site_conf = \<lparr>hc_identity = sample_conf TxMemory, hc_platform = demo_conf,
     hc_cors_allowed_origins = [''https://app.example''], hc_production = True, hc_base_domain = ''app.example'',
     hc_jwt_access_ttl = 15, hc_jwt_refresh_ttl = 24, hc_stripe_webhook_secret = ''whsec''\<rparr>"

definition site_server :: "fake server" where
  "site_server = \<lparr>sv_backend = fake_backend demo_sha, sv_status = fake_status, sv_rollout_status = fake_rollout_status,
     sv_backup_database = (\<lambda>d. fake_backup_database ''now'' (db_engine d) (db_namespace d) (db_release d)),
     sv_list_database_backups = fake_list_database_backups,
     sv_restore_database = (\<lambda>d name. fake_restore_database (db_engine d) name (db_namespace d) (db_release d))\<rparr>"

definition site_world :: "mem \<Rightarrow> fake pworld" where
  "site_world s = \<lparr>pw_w = calm s, pw_cluster = new_fake_backend, pw_builds = []\<rparr>"

definition site_at :: "mem \<Rightarrow> fake site" where
  "site_at s = \<lparr>si_world = site_world s, si_limiter = new_fixed_window_limiter auth_rate_limit auth_rate_window\<rparr>"

definition from_user :: "string \<Rightarrow> http_request" where
  "from_user u = \<lparr>rq_origin = [], rq_referer = [], rq_authorization = ''Bearer '' @ u, rq_cookies = [], rq_remote_addr = ''10.0.0.1''\<rparr>"

definition ask :: "string \<Rightarrow> route \<Rightarrow> fake site \<Rightarrow> reply \<times> fake site" where
  "ask u rt s = respond site_server mock_provider site_conf site_env (from_user u) rt s"

text \<open>The statuses of requests one after the other.\<close>

fun asked :: "(string \<times> route) list \<Rightarrow> fake site \<Rightarrow> int list \<times> fake site" where
  "asked [] s = ([], s)"
| "asked ((u, rt) # rs) s = (let (rep, s1) = ask u rt s; (codes, s2) = asked rs s1 in (rp_status rep # codes, s2))"

lemma has_role_row [code]:
  "has_role u g r s \<longleftrightarrow>
     (case gget (st_memberships s) (membership_key g u) of None \<Rightarrow> False | Some m \<Rightarrow> role_at_least (mem_role m) r)"
  by (simp add: has_role_def split: option.split)

section \<open>An admin makes itself owner\<close>


definition lost_app :: create_app_request where
  "lost_app = \<lparr>aq_name = ''x'', aq_project_id = ''p3'', aq_image = ''nginx'', aq_git_repository = [], aq_git_branch = [],
     aq_build_pack = [], aq_cpu = 0, aq_memory_mb = 0, aq_region = []\<rparr>"

definition from_evil :: http_request where
  "from_evil = (from_user ''ada'')\<lparr>rq_origin := ''https://evil.example''\<rparr>"

definition site_token :: create_token_request where
  "site_token = \<lparr>tq_name = ''ci'', tq_scopes = [], tq_expires_in_days = 30\<rparr>"

definition ada :: user where
  "ada = site_user ''ada'' ''ada@example.com'' False"

definition ada_world :: "fake pworld" where
  "ada_world = snd (handle_create_token site_env ada (Some site_token) (site_world site_store))"

text \<open>The runs on this site, evaluated together.\<close>

lemma site_runs:
  "(let s0 = site_at site_store;
        (codes, s1) = asked
          [(''bob'', Org ''o1'' (org_route.RemoveMember ''ada'')),
           (''bob'', Org ''o1'' (CreateInvitation (Some \<lparr>iq_email = ''eve@example.com'', iq_role = ''owner'', iq_project_id = []\<rparr>))),
           (''eve'', Account (account_route.AcceptInvitation (Some ''secret''))),
           (''eve'', Org ''o1'' (org_route.RemoveMember ''ada''))] s0
    in has_role ''ada'' ''o1'' RoleOwner (rows (si_world s0)) \<and> \<not> has_role ''bob'' ''o1'' RoleOwner (rows (si_world s0)) \<and>
       codes = [403, 201, 200, 204] \<and>
       has_role ''eve'' ''o1'' RoleOwner (rows (si_world s1)) \<and> \<not> has_role ''ada'' ''o1'' RoleMember (rows (si_world s1))) \<and>
   fst (asked [(''olga'', Org ''o2'' (org_route.DeleteProject ''p3''))] (site_at site_store)) = [204] \<and>
   fst (asked
     [(''ada'', Org ''o1'' (org_route.CreateApp (Some lost_app))), (''ada'', Org ''o1'' (AppRoute ''n0'' GetApp)),
      (''ada'', Org ''o1'' (AppRoute ''n0'' DeleteApp)), (''olga'', Org ''o2'' (org_route.DeleteProject ''p3''))]
     (site_at site_store)) = [201, 403, 403, 409] \<and>
   gget (st_memberships (rows (si_world (snd (ask ''ada'' (Org ''o1'' (org_route.RemoveMember ''bob'')) (site_at site_store))))))
     (membership_key ''o1'' ''bob'') = None \<and>
   gget (st_memberships (rows (si_world (site_at site_store)))) (membership_key ''o1'' ''bob'') \<noteq> None \<and>
   list_all (\<lambda>(k, m). nul_free (mem_org_id m)) (st_memberships site_store) \<and>
   gget (st_users site_store) (user_id ada) = Some ada \<and>
   (case fst (handle_create_token site_env ada (Some site_token) (site_world site_store)) of Inl e \<Rightarrow> False
      | Inr rep \<Rightarrow> (case rp_body rep of JCreatedToken v tok \<Rightarrow> tok = ''vrt_abc'' | _ \<Rightarrow> False))"
  by code_simp


section \<open>An app in somebody else's project\<close>

text \<open>creating an app checks the caller's role in the organization, but not that the project the app names
  belongs to it: Ada creates an app of her organization in a project of Olga's. Nobody can look at
  or delete the app afterwards, not even Ada, because its routes ask for a role in the project, and
  Olga, who could delete the empty project before, no longer can.\<close>

theorem app_in_foreign_project_is_lost:
  "fst (asked [(''olga'', Org ''o2'' (org_route.DeleteProject ''p3''))] (site_at site_store)) = [204] \<and>
   fst (asked
     [(''ada'', Org ''o1'' (org_route.CreateApp (Some lost_app))), (''ada'', Org ''o1'' (AppRoute ''n0'' GetApp)),
      (''ada'', Org ''o1'' (AppRoute ''n0'' DeleteApp)), (''olga'', Org ''o2'' (org_route.DeleteProject ''p3''))]
     (site_at site_store)) = [201, 403, 403, 409]"
  using site_runs by blast

section \<open>Witnesses\<close>

lemma changes_need_permission_witness:
  "permitted (Org ''o1'' (org_route.RemoveMember ''bob'')) site_env (from_user ''ada'') site_store"
proof -
  let ?s = "site_at site_store"
  let ?t = "snd (ask ''ada'' (Org ''o1'' (org_route.RemoveMember ''bob'')) ?s)"
  have "gget (st_memberships (rows (si_world ?t))) (membership_key ''o1'' ''bob'') = None \<and>
      gget (st_memberships (rows (si_world ?s))) (membership_key ''o1'' ''bob'') \<noteq> None"
    using site_runs by blast
  then have "\<not> noted (si_world ?s) (si_world ?t)" using noted_tables(2) by (fastforce simp: noted_def)
  from changes_need_permission [OF surjective_pairing this [unfolded ask_def]] show ?thesis
    by (simp add: site_at_def site_world_def rows_def)
qed

lemma foreign_origin_writes_nothing_witness:
  "snd (respond site_server mock_provider site_conf site_env from_evil (Org ''o1'' (org_route.RemoveMember ''bob''))
     (site_at site_store)) = site_at site_store"
proof -
  let ?rt = "Org ''o1'' (org_route.RemoveMember ''bob'')"
  have "request_origin (he_parse_url site_env) from_evil \<noteq> []" "''*'' \<notin> set (hc_cors_allowed_origins site_conf)"
    "\<forall>a \<in> set (hc_cors_allowed_origins site_conf).
       normalize_origin a \<noteq> normalize_origin (request_origin (he_parse_url site_env) from_evil)"
    "is_state_changing (method_of ?rt)"
    by code_simp+
  from foreign_origin_writes_nothing [OF surjective_pairing this(1-3), where sv = site_server and prov = mock_provider
      and rt = ?rt and s = "site_at site_store"] this(4)
  show ?thesis by (simp only: if_True)
qed

lemma site_members_ok: "member_ids_ok site_store"
proof -
  have "list_all (\<lambda>(k, m). nul_free (mem_org_id m)) (st_memberships site_store)"
    using site_runs by blast
  then show ?thesis by (auto simp: member_ids_ok_def list_all_iff gget_def dest!: map_of_SomeD)
qed

lemma site_rows: "rows (si_world (site_at s)) = s"
  by (simp add: site_at_def site_world_def rows_def)

lemma mock_external: "external mock_provider"
  by (simp add: external_def mock_provider_def mock_ensure_customer_def mock_create_subscription_def reads_only_ok)

lemma organization_request_stays_inside_witness:
  "foreign ''o1'' (rows (si_world (snd (ask ''bob'' (Org ''o1'' (AppRoute ''a1'' DeleteApp)) (site_at site_store))))) =
   foreign ''o1'' site_store"
proof -
  have "nul_free ''o1''" by (simp add: nul_free_def)
  moreover have "mem_wf (rows (si_world (site_at site_store)))" "member_ids_ok (rows (si_world (site_at site_store)))"
    by (simp_all only: site_rows site_wf site_members_ok)
  ultimately show ?thesis
    using organization_request_stays_inside [OF surjective_pairing mock_external, where g = "''o1''" and s = "site_at site_store"
        and sv = site_server and hc = site_conf and en = site_env and r = "from_user ''bob''" and x = "AppRoute ''a1'' DeleteApp"]
    by (simp only: ask_def site_rows)
qed

text \<open>Ada's token in the hour it was made and after its thirty days.\<close>

lemma ada_created:
  "\<exists>rep v. handle_create_token site_env ada (Some site_token) (site_world site_store) = (Inr rep, ada_world) \<and>
     rp_body rep = JCreatedToken v ''vrt_abc''"
proof -
  have "case fst (handle_create_token site_env ada (Some site_token) (site_world site_store)) of Inl e \<Rightarrow> False
      | Inr rep \<Rightarrow> (case rp_body rep of JCreatedToken v tok \<Rightarrow> tok = ''vrt_abc'' | _ \<Rightarrow> False)"
    using site_runs by blast
  then show ?thesis
    unfolding ada_world_def
    by (cases "handle_create_token site_env ada (Some site_token) (site_world site_store)") (auto split: sum.splits body.splits)
qed

lemma api_token_lifecycle_witness:
  "fst (auth_middleware site_env (from_user ''vrt_abc'') ada_world) = Inr ada \<and>
   fst (auth_middleware (site_env\<lparr>he_now := 31 * day_ns\<rparr>) (from_user ''vrt_abc'') ada_world) =
     Inl (write_error 401 ''invalid or expired token'')"
proof -
  obtain rep v where c: "handle_create_token site_env ada (Some site_token) (site_world site_store) = (Inr rep, ada_world)"
      "rp_body rep = JCreatedToken v ''vrt_abc''"
    using ada_created by blast
  have w: "healthy (pw_w (site_world site_store))" "tokens_wf (rows (site_world site_store))"
    using site_wf by (simp_all add: site_world_def rows_def mem_wf_def)
  have "access_token_from_request (from_user ''vrt_abc'') = ''vrt_abc''" by code_simp
  with site_runs have u: "gget (st_users (rows (site_world site_store))) (user_id ada) = Some ada"
      "access_token_from_request (from_user ''vrt_abc'') = ''vrt_abc''"
    by (simp_all add: site_world_def rows_def)
  have now: "zero_time < he_now site_env" by (simp add: zero_time_def site_env_def)
  note t = api_token_lifecycle [OF w u(1) now c u(2), THEN conjunct1]
  show ?thesis
    using t [of site_env] t [of "site_env\<lparr>he_now := 31 * day_ns\<rparr>"]
    by (simp add: site_env_def site_token_def day_ns_def)
qed

lemma public_attempts_bounded_witness:
  "attempts site_conf ''10.0.0.1'' 0 auth_rate_window (zip [(site_env, from_user [], Public (public_route.Login None))]
     (serve site_server mock_provider site_conf [(site_env, from_user [], Public (public_route.Login None))]
       \<lparr>si_world = site_world site_store, si_limiter = new_fixed_window_limiter auth_rate_limit auth_rate_window\<rparr>)) \<le> 20"
  by (rule public_attempts_bounded) simp

end
