(* ===== verification/Reconciler.thy ===== *)
theory Reconciler
  imports Http_Tokens Platform_Releases Reporting
begin

text \<open>
  The background passes of the server (\<open>httpx/server.go\<close>): metering and reporting usage,
  deleting expired refresh tokens, and reconciling the stored status of every workload with what
  the deploy backend observes. A pass never answers anybody: its failures are logged and the next
  tick tries again, so each is a function of the world. The loops that call them on a ticker, their
  log lines and tick counters are left out; whether the context is still live is an argument.
\<close>

section \<open>Phases\<close>

definition sticky_statuses :: "string list" where
  "sticky_statuses = [''stopped'', ''build_failed'']"

definition transient_intents :: "string list" where
  "transient_intents = [''deploying'', ''restarting'', ''building'']"

definition terminal_machine_phases :: "string list" where
  "terminal_machine_phases = [''running'', ''failed'']"

definition map_phase :: "status \<Rightarrow> string option" where
  "map_phase st =
     (if s_phase st = ''Running'' then Some ''running''
      else if s_phase st = ''Scaled to zero'' then Some ''scaled-to-zero''
      else if s_phase st = ''Pending'' then Some ''pending''
      else if s_phase st = ''Failed'' then Some ''failed''
      else None)"

definition reconcile_phase :: "string \<Rightarrow> status \<Rightarrow> string option" where
  "reconcile_phase current st =
     (if current \<in> set sticky_statuses then None
      else case map_phase st of
             None \<Rightarrow> None
           | Some phase \<Rightarrow>
               if current \<in> set transient_intents \<and> phase \<notin> set terminal_machine_phases then None else Some phase)"

definition backend_phase :: "'c server \<Rightarrow> string \<Rightarrow> string \<Rightarrow> string \<Rightarrow> 'c pworld \<Rightarrow> string option \<times> 'c pworld" where
  "backend_phase sv current ns rel p =
     (if current \<in> set sticky_statuses then (None, p)
      else case on_cluster (sv_status sv ns rel) p of
             (Inl e, q) \<Rightarrow> (None, q)
           | (Inr st, q) \<Rightarrow> (reconcile_phase current st, q))"

section \<open>A pass of the reconciler\<close>

definition reconcile_workload ::
    "'c server \<Rightarrow> string \<Rightarrow> string \<Rightarrow> string \<Rightarrow> (string \<Rightarrow> (serr, 'c pworld, unit) op) \<Rightarrow> 'c pworld \<Rightarrow> 'c pworld" where
  "reconcile_workload sv current ns rel save p =
     (if rel = [] then p
      else case backend_phase sv current ns rel p of
             (None, q) \<Rightarrow> q
           | (Some phase, q) \<Rightarrow> if phase = current then q else snd (save phase q))"

definition reconcile_app :: "'c server \<Rightarrow> app \<Rightarrow> 'c pworld \<Rightarrow> 'c pworld" where
  "reconcile_app sv a =
     reconcile_workload sv (app_status a) (app_namespace a) (app_release a)
       (\<lambda>st. bindE (p_write (update_app (a\<lparr>app_status := st\<rparr>))) (\<lambda>_.
              tryE (reconcile_release_status (app_id a) st) (\<lambda>_. okE ()) okE))"

definition reconcile_service :: "'c server \<Rightarrow> service \<Rightarrow> 'c pworld \<Rightarrow> 'c pworld" where
  "reconcile_service sv v =
     reconcile_workload sv (svc_status v) (svc_namespace v) (svc_release v)
       (\<lambda>st. p_write (update_service (v\<lparr>svc_status := st\<rparr>)))"

definition reconcile_database :: "'c server \<Rightarrow> database \<Rightarrow> 'c pworld \<Rightarrow> 'c pworld" where
  "reconcile_database sv d =
     reconcile_workload sv (db_status d) (db_namespace d) (db_release d)
       (\<lambda>st. p_write (update_database (d\<lparr>db_status := st\<rparr>)))"

text \<open>A listing that failed counts as empty.\<close>

definition reconcile_listed ::
    "(serr, 'c pworld, 'v list) op \<Rightarrow> ('v \<Rightarrow> 'c pworld \<Rightarrow> 'c pworld) \<Rightarrow> 'c pworld \<Rightarrow> 'c pworld" where
  "reconcile_listed m step p =
     (case m p of (Inl e, q) \<Rightarrow> q | (Inr vs, q) \<Rightarrow> fold step vs q)"

definition reconcile_org :: "'c server \<Rightarrow> string \<Rightarrow> 'c pworld \<Rightarrow> 'c pworld" where
  "reconcile_org sv g p =
     reconcile_listed (p_read (list_databases_by_org g)) (reconcile_database sv)
       (reconcile_listed (p_read (list_services_by_org g)) (reconcile_service sv)
         (reconcile_listed (p_read (list_apps_by_org g)) (reconcile_app sv) p))"

text \<open>\<open>live g\<close>: the context has not been cancelled when the turn of organization \<open>g\<close> comes.\<close>

fun reconcile_orgs :: "'c server \<Rightarrow> (string \<Rightarrow> bool) \<Rightarrow> organization list \<Rightarrow> 'c pworld \<Rightarrow> 'c pworld" where
  "reconcile_orgs sv live [] p = p"
| "reconcile_orgs sv live (g # gs) p =
     (if live (org_id g) then reconcile_orgs sv live gs (reconcile_org sv (org_id g) p) else p)"

definition reconcile_once :: "'c server \<Rightarrow> (string \<Rightarrow> bool) \<Rightarrow> 'c pworld \<Rightarrow> 'c pworld" where
  "reconcile_once sv live p =
     (case p_read list_all_orgs p of (Inl e, q) \<Rightarrow> q | (Inr gs, q) \<Rightarrow> reconcile_orgs sv live gs q)"

section \<open>The other passes\<close>

definition meter_once ::
    "'c pworld reporter option \<Rightarrow> (time \<Rightarrow> string \<Rightarrow> string option) \<Rightarrow> (string \<Rightarrow> string option) \<Rightarrow> (nat \<Rightarrow> time) \<Rightarrow>
     'c pworld \<Rightarrow> 'c pworld" where
  "meter_once rep ctx1 ctx2 now p =
     (let (metered, q) = meter_usage platform_bstore ctx1 (now 0) p;
          (reported, t) = report_all_usage platform_bstore rep ctx2 (now 1) (now 2) q
      in t)"

definition cleanup_tokens_once :: "env \<Rightarrow> 'c pworld \<Rightarrow> 'c pworld" where
  "cleanup_tokens_once en p = snd (on_world (cleanup_expired_refresh_tokens en) p)"

section \<open>A table of workloads\<close>

text \<open>Every row of the organizations \<open>G\<close> has made a step \<open>adv\<close>, and the others are as they were.\<close>

definition moved :: "(mem \<Rightarrow> (string, 'v) gomap) \<Rightarrow> ('v \<Rightarrow> string) \<Rightarrow> ('v \<Rightarrow> 'v \<Rightarrow> bool) \<Rightarrow> string set \<Rightarrow> mem \<Rightarrow> mem \<Rightarrow> bool" where
  "moved tab org adv G s t \<longleftrightarrow>
     (\<forall>k. rel_option (\<lambda>v w. if org v \<in> G then adv v w else w = v) (gget (tab s) k) (gget (tab t) k))"

locale workload_table =
  fixes tab :: "mem \<Rightarrow> (string, 'v) gomap"
    and key :: "'v \<Rightarrow> string"
    and org :: "'v \<Rightarrow> string"
    and listed :: "string \<Rightarrow> mem \<Rightarrow> serr + 'v list"
    and good :: "mem \<Rightarrow> bool"
  assumes keyed_tab: "good s \<Longrightarrow> keyed key (tab s)"
    and listed_ok: "listed g s = Inr (filter (\<lambda>v. org v = g) (gvals (tab s)))"
begin

lemma moved_none: "tab t = tab s \<Longrightarrow> moved tab org adv {} s t"
  by (simp add: moved_def option.rel_refl)

lemma moved_stay: "moved tab org adv {} s t \<Longrightarrow> (\<And>v. adv v v) \<Longrightarrow> moved tab org adv G s t"
  unfolding moved_def by (intro allI) (rule option.rel_mono_strong, erule spec, simp)

lemma moved_same: "moved tab org adv G s t \<Longrightarrow> tab u = tab t \<Longrightarrow> moved tab org adv G s u"
  by (simp add: moved_def)

lemma moved_from: "moved tab org adv G s t \<Longrightarrow> tab s = tab r \<Longrightarrow> moved tab org adv G r t"
  by (simp add: moved_def)

lemma moved_trans:
  assumes "moved tab org adv G s t" "moved tab org adv H t u" "G \<inter> H = {}" "\<And>v w. adv v w \<Longrightarrow> org w = org v"
  shows "moved tab org adv (G \<union> H) s u"
  unfolding moved_def
proof
  fix k
  let ?r = "\<lambda>X v w. if org v \<in> X then adv v w else w = v"
  have "rel_option (?r G) (gget (tab s) k) (gget (tab t) k)" "rel_option (?r H) (gget (tab t) k) (gget (tab u) k)"
    using assms(1,2) by (simp_all only: moved_def)
  then have "rel_option (?r G OO ?r H) (gget (tab s) k) (gget (tab u) k)"
    unfolding option.rel_compp by (rule relcomppI)
  moreover have "?r (G \<union> H) v w" if "(?r G OO ?r H) v w" for v w
    using that assms(3) assms(4) by (fastforce elim!: relcomppE split: if_splits)
  ultimately show "rel_option (?r (G \<union> H)) (gget (tab s) k) (gget (tab u) k)"
    by (rule option.rel_mono_strong)
qed

text \<open>A loop over a listing, each of whose rounds makes the row it is given take its step.\<close>

lemma fold_moves:
  assumes "\<And>p v. J p \<Longrightarrow> gget (tab (rows p)) (key v) = Some v \<Longrightarrow>
       J (step v p) \<and> (\<exists>w. gget (tab (rows (step v p))) = (gget (tab (rows p)))(key v \<mapsto> w) \<and> adv v w)"
    and "J p" "distinct (map key vs)" "\<forall>v \<in> set vs. gget (tab (rows p)) (key v) = Some v"
  shows "J (fold step vs p) \<and>
     (\<forall>v \<in> set vs. \<exists>w. gget (tab (rows (fold step vs p))) (key v) = Some w \<and> adv v w) \<and>
     (\<forall>k. k \<notin> key ` set vs \<longrightarrow> gget (tab (rows (fold step vs p))) k = gget (tab (rows p)) k)"
  using assms(2-4)
proof (induction vs arbitrary: p)
  case Nil
  then show ?case by simp
next
  case (Cons v vs)
  obtain w where w: "J (step v p)" "gget (tab (rows (step v p))) = (gget (tab (rows p)))(key v \<mapsto> w)" "adv v w"
    using assms(1) [OF Cons.prems(1), of v] Cons.prems(3) by force
  have fresh: "key v \<notin> key ` set vs" "distinct (map key vs)" using Cons.prems(2) by simp_all
  have "\<forall>u \<in> set vs. gget (tab (rows (step v p))) (key u) = Some u"
  proof
    fix u assume u: "u \<in> set vs"
    then have "key u \<noteq> key v" using fresh(1) by (metis imageI)
    then have "gget (tab (rows (step v p))) (key u) = gget (tab (rows p)) (key u)" unfolding w(2) by simp
    then show "gget (tab (rows (step v p))) (key u) = Some u" using Cons.prems(3) u by simp
  qed
  note ih = Cons.IH [OF w(1) fresh(2) this]
  then have "gget (tab (rows (fold step vs (step v p)))) (key v) = Some w" using fresh(1) w(2) by simp
  then show ?case using ih w(2,3) by simp
qed

lemma listed_moves:
  assumes "\<And>p v. J p \<Longrightarrow> gget (tab (rows p)) (key v) = Some v \<Longrightarrow>
       J (step v p) \<and> (\<exists>w. gget (tab (rows (step v p))) = (gget (tab (rows p)))(key v \<mapsto> w) \<and> adv v w)"
    and "\<And>p x q. J p \<Longrightarrow> p_read (listed g) p = (x, q) \<Longrightarrow> J q \<and> (strict \<longrightarrow> \<not> isl x)"
    and "\<And>v. strict \<or> adv v v" "J p" "good (rows p)"
  shows "J (reconcile_listed (p_read (listed g)) step p) \<and>
         moved tab org adv {g} (rows p) (rows (reconcile_listed (p_read (listed g)) step p))"
proof -
  obtain x q where r: "p_read (listed g) p = (x, q)" by (metis surj_pair)
  have q: "rows q = rows p" "J q" "strict \<longrightarrow> \<not> isl x" using read_outcome(2) [OF r] assms(2) [OF assms(4) r] by simp_all
  show ?thesis
  proof (cases x)
    case (Inl e)
    then have "\<And>v. adv v v" using q(3) assms(3) by auto
    then have "moved tab org adv {g} (rows p) (rows q)" using moved_stay [OF moved_none] q(1) by metis
    then show ?thesis using q r Inl by (simp add: reconcile_listed_def)
  next
    case (Inr vs)
    have vs: "vs = filter (\<lambda>v. org v = g) (gvals (tab (rows p)))"
      using read_outcome(3) [OF r Inr] listed_ok [of g "rows p"] by simp
    have k: "keyed key (tab (rows p))" using assms(5) by (rule keyed_tab)
    have row: "v \<in> set vs \<longleftrightarrow> org v = g \<and> gget (tab (rows p)) (key v) = Some v" for v
      by (auto simp: vs keyed_vals [OF k])
    have "distinct (map key vs)" using keyed_vals_distinct [OF k] by (simp add: vs distinct_map_filter)
    from fold_moves [OF assms(1) q(2) this] have f: "J (fold step vs q)"
      "\<And>v. v \<in> set vs \<Longrightarrow> \<exists>w. gget (tab (rows (fold step vs q))) (key v) = Some w \<and> adv v w"
      "\<And>k. k \<notin> key ` set vs \<Longrightarrow> gget (tab (rows (fold step vs q))) k = gget (tab (rows p)) k"
      using row by (auto simp: q)
    have "moved tab org adv {g} (rows p) (rows (fold step vs q))"
      unfolding moved_def
    proof
      fix i
      show "rel_option (\<lambda>v w. if org v \<in> {g} then adv v w else w = v) (gget (tab (rows p)) i)
          (gget (tab (rows (fold step vs q))) i)"
      proof (cases "i \<in> key ` set vs")
        case True
        then obtain v where v: "v \<in> set vs" "key v = i" by auto
        then show ?thesis using row [of v] f(2) [of v] by auto
      next
        case False
        then have "gget (tab (rows (fold step vs q))) i = gget (tab (rows p)) i" by (rule f(3))
        moreover have "org v \<noteq> g" if "gget (tab (rows p)) i = Some v" for v
          using that False row [of v] k by (auto simp: keyed_def)
        ultimately show ?thesis by (cases "gget (tab (rows p)) i") auto
      qed
    qed
    then show ?thesis using f(1) r Inr by (simp add: reconcile_listed_def)
  qed
qed

end

interpretation app_table: workload_table st_apps app_id app_org_id list_apps_by_org workloads_wf
  by unfold_locales (simp_all add: workloads_wf_def list_apps_by_org_def)

interpretation service_table: workload_table st_services svc_id svc_org_id list_services_by_org workloads_wf
  by unfold_locales (simp_all add: workloads_wf_def list_services_by_org_def)

interpretation database_table: workload_table st_databases db_id db_org_id list_databases_by_org workloads_wf
  by unfold_locales (simp_all add: workloads_wf_def list_databases_by_org_def)

section \<open>What a status may turn into\<close>

text \<open>Seen from the rules of user intent alone, and as the backend in state \<open>c\<close> has it.\<close>

definition may_become :: "string \<Rightarrow> string \<Rightarrow> string \<Rightarrow> bool" where
  "may_become rel st t \<longleftrightarrow>
     t = st \<or> rel \<noteq> [] \<and> st \<notin> {''stopped'', ''build_failed''} \<and> t \<in> {''running'', ''failed'', ''pending'', ''scaled-to-zero''} \<and>
       (st \<in> {''deploying'', ''restarting'', ''building''} \<longrightarrow> t \<in> {''running'', ''failed''})"

definition observed :: "'c server \<Rightarrow> 'c \<Rightarrow> string \<Rightarrow> string \<Rightarrow> string \<Rightarrow> string" where
  "observed sv c st ns rel =
     (if rel = [] then st
      else case fst (sv_status sv ns rel c) of
             Inl e \<Rightarrow> st
           | Inr x \<Rightarrow> (case reconcile_phase st x of None \<Rightarrow> st | Some phase \<Rightarrow> phase))"

definition turned :: "bool \<Rightarrow> 'c server \<Rightarrow> 'c \<Rightarrow> string \<Rightarrow> string \<Rightarrow> string \<Rightarrow> string \<Rightarrow> bool" where
  "turned quiet sv c ns rel st t \<longleftrightarrow> may_become rel st t \<and> (quiet \<longrightarrow> t = observed sv c st ns rel)"

definition app_turned :: "bool \<Rightarrow> 'c server \<Rightarrow> 'c \<Rightarrow> app \<Rightarrow> app \<Rightarrow> bool" where
  "app_turned quiet sv c a b \<longleftrightarrow>
     (\<exists>t. b = a\<lparr>app_status := t\<rparr> \<and> turned quiet sv c (app_namespace a) (app_release a) (app_status a) t)"

definition service_turned :: "bool \<Rightarrow> 'c server \<Rightarrow> 'c \<Rightarrow> service \<Rightarrow> service \<Rightarrow> bool" where
  "service_turned quiet sv c v w \<longleftrightarrow>
     (\<exists>t. w = v\<lparr>svc_status := t\<rparr> \<and> turned quiet sv c (svc_namespace v) (svc_release v) (svc_status v) t)"

definition database_turned :: "bool \<Rightarrow> 'c server \<Rightarrow> 'c \<Rightarrow> database \<Rightarrow> database \<Rightarrow> bool" where
  "database_turned quiet sv c d e \<longleftrightarrow>
     (\<exists>t. e = d\<lparr>db_status := t\<rparr> \<and> turned quiet sv c (db_namespace d) (db_release d) (db_status d) t)"

lemma phase_may_become: "reconcile_phase st x = Some t \<Longrightarrow> rel \<noteq> [] \<Longrightarrow> may_become rel st t"
  by (auto simp: reconcile_phase_def map_phase_def may_become_def sticky_statuses_def transient_intents_def
      terminal_machine_phases_def split: if_splits)

lemma may_become_refl [simp]: "may_become rel st st"
  by (simp add: may_become_def)

section \<open>What a pass keeps\<close>

text \<open>The store stays well formed; when nothing fails (\<open>quiet\<close>), it stays so, and the cluster as it was.\<close>

definition steady :: "bool \<Rightarrow> 'c \<Rightarrow> 'c pworld \<Rightarrow> bool" where
  "steady quiet c p \<longleftrightarrow> workloads_wf (rows p) \<and> (quiet \<longrightarrow> healthy (pw_w p) \<and> pw_cluster p = c)"

lemma steady_read: "keeps (steady quiet c) (p_read r)"
proof -
  have "rows (snd (p_read r p)) = rows p" for p :: "'a pworld"
    using read_outcome(2) [of r p] by (metis surj_pair snd_conv)
  then show ?thesis by (simp add: keeps_def steady_def p_read_healthy)
qed

lemma healthy_same_faults: "healthy w \<Longrightarrow> healthy (w\<lparr>w_mem := s\<rparr>)"
  by (simp add: healthy_def)

lemma steady_write: "keeps workloads_wf m \<Longrightarrow> keeps (steady quiet c) (p_write m)" for m :: "'b mem_op"
proof -
  assume "keeps workloads_wf m"
  then have "keeps (on_rows workloads_wf) (p_write m :: (serr, 'a pworld, 'b) op)" by (rule on_rows_write)
  then show ?thesis by (auto simp: keeps_def on_rows_def steady_def p_write_healthy healthy_same_faults)
qed

lemma steady_release: "keeps (steady quiet c) (reconcile_release_status i t :: ('c, unit) pop)"
  unfolding reconcile_release_status_def current_release_def all_releases_def Let_def
  by (intro pkeeps steady_read steady_write workloads_keeps)

lemma rows_release:
  assumes "\<And>r s. f (snd (update_release r s)) = f s"
  shows "f (rows (snd (reconcile_release_status i t p))) = f (rows p)"
proof -
  have "keeps (on_rows (\<lambda>s. f s = f (rows p))) (reconcile_release_status i t)"
    unfolding reconcile_release_status_def current_release_def all_releases_def Let_def
    by (intro pkeeps on_rows_write) (simp_all add: keeps_def assms)
  then show ?thesis unfolding keeps_def on_rows_def by blast
qed

section \<open>One workload\<close>

lemma backend_phase_steady:
  assumes "steady quiet c p" "quiet \<longrightarrow> (\<forall>ns rel. snd (sv_status sv ns rel c) = c)" "rel \<noteq> []"
    and "backend_phase sv st ns rel p = (x, q)"
  shows "steady quiet c q \<and> rows q = rows p \<and>
     turned quiet sv c ns rel st (case x of None \<Rightarrow> st | Some t \<Rightarrow> t)"
proof (cases "st \<in> set sticky_statuses")
  case True
  then show ?thesis using assms by (auto simp: backend_phase_def turned_def observed_def reconcile_phase_def split: sum.split)
next
  case False
  obtain y d where y: "sv_status sv ns rel (pw_cluster p) = (y, d)" by (metis surj_pair)
  have q: "q = p\<lparr>pw_cluster := d\<rparr>" "x = (case y of Inl e \<Rightarrow> None | Inr z \<Rightarrow> reconcile_phase st z)"
    using assms(4) False y by (auto simp: backend_phase_def on_cluster_def split: sum.splits)
  have "quiet \<longrightarrow> pw_cluster p = c \<and> d = c" using assms(1,2) y by (auto simp: steady_def) (metis snd_conv)
  moreover have "may_become rel st (case x of None \<Rightarrow> st | Some t \<Rightarrow> t)"
    using q(2) assms(3) by (auto split: option.split sum.splits intro: phase_may_become)
  ultimately show ?thesis
    using assms(1,3) y by (auto simp: q turned_def observed_def steady_def rows_def split: sum.split option.split)
qed

text \<open>One round: the row takes its step, or keeps its status when the write did not get through.\<close>

lemma workload_step:
  assumes "steady quiet c p" "quiet \<longrightarrow> (\<forall>ns rel. snd (sv_status sv ns rel c) = c)"
    and same: "T (rows p) = (T (rows p))(k \<mapsto> put st)"
    and save: "\<And>t q. steady quiet c q \<Longrightarrow> rows q = rows p \<Longrightarrow> steady quiet c (snd (save t q)) \<and>
        (T (rows (snd (save t q))) = (T (rows p))(k \<mapsto> put t) \<or> \<not> quiet \<and> T (rows (snd (save t q))) = T (rows p))"
  shows "steady quiet c (reconcile_workload sv st ns rel save p) \<and>
     (\<exists>t. T (rows (reconcile_workload sv st ns rel save p)) = (T (rows p))(k \<mapsto> put t) \<and> turned quiet sv c ns rel st t)"
proof (cases "rel = []")
  case True
  then have "turned quiet sv c ns rel st st" by (simp add: turned_def observed_def)
  then show ?thesis using True same assms(1) by (auto simp: reconcile_workload_def)
next
  case False
  obtain x q where x: "backend_phase sv st ns rel p = (x, q)" by (metis surj_pair)
  note b = backend_phase_steady [OF assms(1,2) False x]
  show ?thesis
  proof (cases "x = None \<or> x = Some st")
    case True
    then show ?thesis using b same x False by (auto simp: reconcile_workload_def)
  next
    case moves: False
    then obtain t where t: "x = Some t" "t \<noteq> st" by auto
    have r: "reconcile_workload sv st ns rel save p = snd (save t q)"
      using False x t by (simp add: reconcile_workload_def)
    have refl: "\<not> quiet \<Longrightarrow> turned quiet sv c ns rel st st" by (simp add: turned_def)
    show ?thesis unfolding r using save [of q t] b t(1) same refl by (auto simp: fun_upd_def)
  qed
qed

lemma write_moves:
  assumes "steady quiet c q" "keeps workloads_wf m"
    and "T (snd (m (rows q))) = (T (rows q))(k \<mapsto> v)"
  shows "steady quiet c (snd (p_write m q)) \<and>
     (T (rows (snd (p_write m q))) = (T (rows q))(k \<mapsto> v) \<or> \<not> quiet \<and> T (rows (snd (p_write m q))) = T (rows q))"
proof -
  have "steady quiet c (snd (p_write m q))" using keepsD [OF steady_write [OF assms(2)] assms(1)] .
  moreover have "rows (snd (p_write m q)) = snd (m (rows q))" if quiet
    using assms(1) that by (simp add: steady_def p_write_healthy)
  ultimately show ?thesis using write_effect [of m q] assms(3) by auto
qed

lemma row_written: "gget t (key v) = Some v' \<Longrightarrow> key w = key v \<Longrightarrow> tbl_update key w t = Inr (gput (key v) w t)"
  by (simp add: tbl_update_def)

lemma app_step:
  assumes "steady quiet c p" "quiet \<longrightarrow> (\<forall>ns rel. snd (sv_status sv ns rel c) = c)"
    and "gget (st_apps (rows p)) (app_id a) = Some a"
  shows "steady quiet c (reconcile_app sv a p) \<and>
     (\<exists>b. gget (st_apps (rows (reconcile_app sv a p))) = (gget (st_apps (rows p)))(app_id a \<mapsto> b) \<and> app_turned quiet sv c a b)"
proof -
  let ?T = "\<lambda>s. gget (st_apps s)"
  let ?save = "\<lambda>st. bindE (p_write (update_app (a\<lparr>app_status := st\<rparr>))) (\<lambda>_.
      tryE (reconcile_release_status (app_id a) st) (\<lambda>_. okE ()) okE)"
  have "steady quiet c (snd (?save t q)) \<and>
        (?T (rows (snd (?save t q))) = (?T (rows p))(app_id a \<mapsto> a\<lparr>app_status := t\<rparr>) \<or>
         \<not> quiet \<and> ?T (rows (snd (?save t q))) = ?T (rows p))" if q: "steady quiet c q" "rows q = rows p" for t q
  proof -
    let ?w = "p_write (update_app (a\<lparr>app_status := t\<rparr>)) q"
    let ?r = "tryE (reconcile_release_status (app_id a) t) (\<lambda>_. okE ()) okE :: (serr, 'a pworld, unit) op"
    have "steady quiet c (snd ?w) \<and> (?T (rows (snd ?w)) = (?T (rows q))(app_id a \<mapsto> a\<lparr>app_status := t\<rparr>) \<or>
        \<not> quiet \<and> ?T (rows (snd ?w)) = ?T (rows q))"
      by (rule write_moves [OF q(1) workloads_keeps_app(2)])
        (use assms(3) q(2) in \<open>auto simp: update_app_def on_tbl_def tbl_update_def split: option.split\<close>)
    moreover have "snd (?save t q) = snd ?w \<or> snd (?save t q) = snd (?r (snd ?w))"
      by (simp add: bindE_def split: prod.splits sum.splits)
    moreover have "steady quiet c (snd (?r u))" if "steady quiet c u" for u
      using that steady_release [of quiet c "app_id a" t] by (auto simp: tryE_def okE_def keeps_def split: prod.splits sum.splits)
    moreover have "st_apps (rows (snd (?r u))) = st_apps (rows u)" for u
      using rows_release [of st_apps "app_id a" t u]
      by (auto simp: tryE_def okE_def update_release_def on_tbl_def split: prod.splits sum.splits)
    ultimately show ?thesis using q(2) by auto
  qed
  note step = workload_step [OF assms(1,2), of ?T "app_id a" "\<lambda>t. a\<lparr>app_status := t\<rparr>" "app_status a" ?save
      "app_namespace a" "app_release a", OF _ this]
  have "?T (rows p) = (?T (rows p))(app_id a \<mapsto> a\<lparr>app_status := app_status a\<rparr>)"
    using assms(3) by (simp add: fun_upd_idem)
  from step [OF this] show ?thesis unfolding reconcile_app_def app_turned_def by blast
qed

lemma service_step:
  assumes "steady quiet c p" "quiet \<longrightarrow> (\<forall>ns rel. snd (sv_status sv ns rel c) = c)"
    and "gget (st_services (rows p)) (svc_id v) = Some v"
  shows "steady quiet c (reconcile_service sv v p) \<and>
     (\<exists>w. gget (st_services (rows (reconcile_service sv v p))) = (gget (st_services (rows p)))(svc_id v \<mapsto> w) \<and>
          service_turned quiet sv c v w)"
proof -
  let ?T = "\<lambda>s. gget (st_services s)" and ?save = "\<lambda>st. p_write (update_service (v\<lparr>svc_status := st\<rparr>))"
  have "steady quiet c (snd (?save t q)) \<and>
        (?T (rows (snd (?save t q))) = (?T (rows p))(svc_id v \<mapsto> v\<lparr>svc_status := t\<rparr>) \<or>
         \<not> quiet \<and> ?T (rows (snd (?save t q))) = ?T (rows p))" if q: "steady quiet c q" "rows q = rows p" for t q
    unfolding q(2) [symmetric] by (rule write_moves [OF q(1) workloads_keeps_service(2)])
      (use assms(3) q(2) in \<open>auto simp: update_service_def on_tbl_def tbl_update_def split: option.split\<close>)
  note step = workload_step [OF assms(1,2), of ?T "svc_id v" "\<lambda>t. v\<lparr>svc_status := t\<rparr>" "svc_status v" ?save
      "svc_namespace v" "svc_release v", OF _ this]
  have "?T (rows p) = (?T (rows p))(svc_id v \<mapsto> v\<lparr>svc_status := svc_status v\<rparr>)"
    using assms(3) by (simp add: fun_upd_idem)
  from step [OF this] show ?thesis unfolding reconcile_service_def service_turned_def by blast
qed

lemma database_step:
  assumes "steady quiet c p" "quiet \<longrightarrow> (\<forall>ns rel. snd (sv_status sv ns rel c) = c)"
    and "gget (st_databases (rows p)) (db_id d) = Some d"
  shows "steady quiet c (reconcile_database sv d p) \<and>
     (\<exists>e. gget (st_databases (rows (reconcile_database sv d p))) = (gget (st_databases (rows p)))(db_id d \<mapsto> e) \<and>
          database_turned quiet sv c d e)"
proof -
  let ?T = "\<lambda>s. gget (st_databases s)" and ?save = "\<lambda>st. p_write (update_database (d\<lparr>db_status := st\<rparr>))"
  have "steady quiet c (snd (?save t q)) \<and>
        (?T (rows (snd (?save t q))) = (?T (rows p))(db_id d \<mapsto> d\<lparr>db_status := t\<rparr>) \<or>
         \<not> quiet \<and> ?T (rows (snd (?save t q))) = ?T (rows p))" if q: "steady quiet c q" "rows q = rows p" for t q
    unfolding q(2) [symmetric] by (rule write_moves [OF q(1) workloads_keeps_database(2)])
      (use assms(3) q(2) in \<open>auto simp: update_database_def on_tbl_def tbl_update_def split: option.split\<close>)
  note step = workload_step [OF assms(1,2), of ?T "db_id d" "\<lambda>t. d\<lparr>db_status := t\<rparr>" "db_status d" ?save
      "db_namespace d" "db_release d", OF _ this]
  have "?T (rows p) = (?T (rows p))(db_id d \<mapsto> d\<lparr>db_status := db_status d\<rparr>)"
    using assms(3) by (simp add: fun_upd_idem)
  from step [OF this] show ?thesis unfolding reconcile_database_def database_turned_def by blast
qed

section \<open>One organization\<close>

text \<open>The tables a pass does not write, and all of a pass over the organizations \<open>G\<close>.\<close>

definition beside :: "mem \<Rightarrow> mem" where
  "beside s = s\<lparr>st_apps := [], st_services := [], st_databases := [], st_releases := []\<rparr>"

definition passed :: "bool \<Rightarrow> 'c server \<Rightarrow> 'c \<Rightarrow> string set \<Rightarrow> mem \<Rightarrow> mem \<Rightarrow> bool" where
  "passed quiet sv c G s t \<longleftrightarrow>
     moved st_apps app_org_id (app_turned quiet sv c) G s t \<and>
     moved st_services svc_org_id (service_turned quiet sv c) G s t \<and>
     moved st_databases db_org_id (database_turned quiet sv c) G s t \<and> beside t = beside s"

lemma workload_still:
  assumes "\<And>t q. f (rows (snd (save t q))) = f (rows q)"
  shows "f (rows (reconcile_workload sv st ns rel save p)) = f (rows p)"
proof -
  obtain x q where x: "backend_phase sv st ns rel p = (x, q)" by (metis surj_pair)
  then have "rows q = rows p"
    by (auto simp: backend_phase_def on_cluster_def rows_def split: if_splits sum.splits prod.splits)
  then show ?thesis using assms x by (auto simp: reconcile_workload_def split: option.split)
qed

lemma listed_still:
  assumes "\<And>v q. f (rows (step v q)) = f (rows q)"
  shows "f (rows (reconcile_listed (p_read l) step p)) = f (rows p)"
proof -
  obtain x q where x: "p_read l p = (x, q)" by (metis surj_pair)
  have "f (rows (fold step vs q)) = f (rows q)" for vs q
    by (induction vs arbitrary: q) (simp_all add: assms)
  then show ?thesis using x read_outcome(2) [OF x] by (simp add: reconcile_listed_def split: sum.split)
qed

lemma written_still: "(\<And>s. f (snd (m s)) = f s) \<Longrightarrow> f (rows (snd (p_write m q))) = f (rows q)"
  using write_effect [of m q] by auto

lemma tables_still:
  "st_services (snd (update_app a s)) = st_services s" "st_databases (snd (update_app a s)) = st_databases s"
  "st_apps (snd (update_service v s)) = st_apps s" "st_databases (snd (update_service v s)) = st_databases s"
  "st_apps (snd (update_database d s)) = st_apps s" "st_services (snd (update_database d s)) = st_services s"
  "st_services (snd (update_release r s)) = st_services s" "st_databases (snd (update_release r s)) = st_databases s"
  "beside (snd (update_app a s)) = beside s" "beside (snd (update_service v s)) = beside s"
  "beside (snd (update_database d s)) = beside s" "beside (snd (update_release r s)) = beside s"
  by (simp_all add: update_app_def update_service_def update_database_def update_release_def on_tbl_def beside_def split: sum.split)

lemma app_still:
  assumes "\<And>a s. f (snd (update_app a s)) = f s" "\<And>r s. f (snd (update_release r s)) = f s"
  shows "f (rows (reconcile_app sv a p)) = f (rows p)"
  unfolding reconcile_app_def
proof (rule workload_still)
  fix t q
  obtain x u where w: "p_write (update_app (a\<lparr>app_status := t\<rparr>)) q = (x, u)" by (metis surj_pair)
  obtain y v where r: "reconcile_release_status (app_id a) t u = (y, v)" by (metis surj_pair)
  have "f (rows u) = f (rows q)" using written_still [of f "update_app (a\<lparr>app_status := t\<rparr>)" q] assms(1) w by simp
  moreover have "f (rows v) = f (rows u)" using rows_release [of f "app_id a" t u] assms(2) r by simp
  ultimately show "f (rows (snd (bindE (p_write (update_app (a\<lparr>app_status := t\<rparr>)))
      (\<lambda>_. tryE (reconcile_release_status (app_id a) t) (\<lambda>_. okE ()) okE) q))) = f (rows q)"
    using w r by (simp add: bindE_def tryE_def okE_def split: sum.split)
qed

lemma service_still: "(\<And>v s. f (snd (update_service v s)) = f s) \<Longrightarrow> f (rows (reconcile_service sv v p)) = f (rows p)"
  unfolding reconcile_service_def by (intro workload_still written_still)

lemma database_still: "(\<And>d s. f (snd (update_database d s)) = f s) \<Longrightarrow> f (rows (reconcile_database sv d p)) = f (rows p)"
  unfolding reconcile_database_def by (intro workload_still written_still)

lemma turned_refl: "quiet \<or> app_turned quiet sv c a a" "quiet \<or> service_turned quiet sv c v v" "quiet \<or> database_turned quiet sv c d d"
  by (auto simp: app_turned_def service_turned_def database_turned_def turned_def intro: exI [of _ "app_status a"]
      exI [of _ "svc_status v"] exI [of _ "db_status d"])

lemma steady_listing:
  assumes "steady quiet c p" "p_read l p = (x, q)" "\<And>s. \<not> isl (l s)"
  shows "steady quiet c q \<and> (quiet \<longrightarrow> \<not> isl x)"
  using keepsD [OF steady_read assms(1), of l] assms by (auto simp: steady_def p_read_healthy)

lemma org_pass:
  assumes "steady quiet c p" "quiet \<longrightarrow> (\<forall>ns rel. snd (sv_status sv ns rel c) = c)"
  shows "steady quiet c (reconcile_org sv g p) \<and> passed quiet sv c {g} (rows p) (rows (reconcile_org sv g p))"
proof -
  let ?apps = "reconcile_listed (p_read (list_apps_by_org g)) (reconcile_app sv) p"
  let ?svcs = "reconcile_listed (p_read (list_services_by_org g)) (reconcile_service sv) ?apps"
  let ?dbs = "reconcile_listed (p_read (list_databases_by_org g)) (reconcile_database sv) ?svcs"
  have wf: "steady quiet c q \<Longrightarrow> workloads_wf (rows q)" for q :: "'a pworld" by (simp add: steady_def)
  have a: "steady quiet c ?apps \<and> moved st_apps app_org_id (app_turned quiet sv c) {g} (rows p) (rows ?apps)"
    by (rule app_table.listed_moves [OF app_step [OF _ assms(2)] steady_listing turned_refl(1) assms(1) wf [OF assms(1)]])
      (auto simp: list_apps_by_org_def)
  then have b: "steady quiet c ?svcs \<and> moved st_services svc_org_id (service_turned quiet sv c) {g} (rows ?apps) (rows ?svcs)"
    by (intro service_table.listed_moves [OF service_step [OF _ assms(2)] steady_listing turned_refl(2)] wf)
      (auto simp: list_services_by_org_def)
  then have d: "steady quiet c ?dbs \<and> moved st_databases db_org_id (database_turned quiet sv c) {g} (rows ?svcs) (rows ?dbs)"
    by (intro database_table.listed_moves [OF database_step [OF _ assms(2)] steady_listing turned_refl(3)] wf)
      (auto simp: list_databases_by_org_def)
  have "st_apps (rows ?dbs) = st_apps (rows ?apps)" "st_services (rows ?apps) = st_services (rows p)"
    "st_services (rows ?dbs) = st_services (rows ?svcs)" "st_databases (rows ?svcs) = st_databases (rows p)"
    "beside (rows ?dbs) = beside (rows p)"
    by (simp_all add: listed_still app_still service_still database_still tables_still)
  then show ?thesis
    using a b d unfolding reconcile_org_def passed_def moved_def by simp
qed

section \<open>All organizations\<close>

lemma turned_org:
  "app_turned quiet sv c a b \<Longrightarrow> app_org_id b = app_org_id a"
  "service_turned quiet sv c v w \<Longrightarrow> svc_org_id w = svc_org_id v"
  "database_turned quiet sv c d e \<Longrightarrow> db_org_id e = db_org_id d"
  by (auto simp: app_turned_def service_turned_def database_turned_def)

lemma passed_trans:
  assumes "passed quiet sv c G s t" "passed quiet sv c H t u" "G \<inter> H = {}"
  shows "passed quiet sv c (G \<union> H) s u"
proof -
  note st = assms(1,2) [unfolded passed_def]
  have "moved st_apps app_org_id (app_turned quiet sv c) (G \<union> H) s u"
    by (rule app_table.moved_trans [OF st(1) [THEN conjunct1] st(2) [THEN conjunct1] assms(3)]) (rule turned_org)
  moreover have "moved st_services svc_org_id (service_turned quiet sv c) (G \<union> H) s u"
    by (rule service_table.moved_trans [OF st(1) [THEN conjunct2, THEN conjunct1] st(2) [THEN conjunct2, THEN conjunct1]
          assms(3)]) (rule turned_org)
  moreover have "moved st_databases db_org_id (database_turned quiet sv c) (G \<union> H) s u"
    by (rule database_table.moved_trans [OF st(1) [THEN conjunct2, THEN conjunct2, THEN conjunct1]
          st(2) [THEN conjunct2, THEN conjunct2, THEN conjunct1] assms(3)]) (rule turned_org)
  ultimately show ?thesis using st by (simp add: passed_def)
qed

lemma passed_none: "passed quiet sv c {} s s"
  by (simp add: passed_def app_table.moved_none service_table.moved_none database_table.moved_none)

lemma orgs_pass:
  assumes "steady quiet c p" "quiet \<longrightarrow> (\<forall>ns rel. snd (sv_status sv ns rel c) = c)" "distinct (map org_id gs)"
  shows "passed quiet sv c (set (takeWhile live (map org_id gs))) (rows p) (rows (reconcile_orgs sv live gs p))"
  using assms(1,3)
proof (induction gs arbitrary: p)
  case Nil
  then show ?case by (simp add: passed_none)
next
  case (Cons g gs)
  show ?case
  proof (cases "live (org_id g)")
    case True
    have first: "steady quiet c (reconcile_org sv (org_id g) p)"
        "passed quiet sv c {org_id g} (rows p) (rows (reconcile_org sv (org_id g) p))"
      using org_pass [OF Cons.prems(1) assms(2)] by simp_all
    have "distinct (map org_id gs)" "{org_id g} \<inter> set (takeWhile live (map org_id gs)) = {}"
      using Cons.prems(2) set_takeWhileD by (simp, fastforce)
    from passed_trans [OF first(2) Cons.IH [OF first(1) this(1)] this(2)] show ?thesis using True by simp
  next
    case False
    then show ?thesis by (simp add: passed_none)
  qed
qed

lemma once_pass:
  assumes "steady quiet c p" "quiet \<longrightarrow> (\<forall>ns rel. snd (sv_status sv ns rel c) = c)" "keyed org_id (st_organizations (rows p))"
  shows "\<exists>G. passed quiet sv c G (rows p) (rows (reconcile_once sv live p)) \<and>
     (quiet \<longrightarrow> G = set (takeWhile live (map org_id (gvals (st_organizations (rows p))))))"
proof -
  obtain x q where r: "p_read list_all_orgs p = (x, q)" by (metis surj_pair)
  have q: "rows q = rows p" "steady quiet c q" "quiet \<longrightarrow> \<not> isl x"
    using read_outcome(2) [OF r] steady_listing [OF assms(1) r] by (simp_all add: list_all_orgs_def)
  show ?thesis
  proof (cases x)
    case (Inl e)
    then show ?thesis using q r by (auto simp: reconcile_once_def passed_none intro: exI [of _ "{}"])
  next
    case (Inr gs)
    then have gs: "gs = gvals (st_organizations (rows p))"
      using read_outcome(3) [OF r] by (simp add: list_all_orgs_def)
    have "distinct (map org_id gs)" using keyed_vals_distinct [OF assms(3)] by (simp add: gs)
    from orgs_pass [OF q(2) assms(2) this, of live] show ?thesis
      using q(1) r Inr unfolding gs reconcile_once_def by auto
  qed
qed

section \<open>The releases\<close>

text \<open>
  What a pass does to a release row: the current release of an app whose status it turned becomes
  active when the app was seen running, and failed when it was seen to fail.
\<close>

definition release_turned :: "mem \<Rightarrow> mem \<Rightarrow> release \<Rightarrow> release \<Rightarrow> bool" where
  "release_turned s t r r2 \<longleftrightarrow> is_current r \<and>
     (\<exists>a b. gget (st_apps s) (rel_app_id r) = Some a \<and> gget (st_apps t) (rel_app_id r) = Some b \<and> app_status b \<noteq> app_status a \<and>
        (app_status b = ''running'' \<and> r2 = r\<lparr>rel_status := ReleaseActive\<rparr> \<or>
         app_status b = ''failed'' \<and> r2 = r\<lparr>rel_status := ReleaseFailed\<rparr>))"

text \<open>Only the apps \<open>A\<close> and their releases have changed.\<close>

definition touched :: "string set \<Rightarrow> mem \<Rightarrow> mem \<Rightarrow> bool" where
  "touched A s t \<longleftrightarrow>
     (\<forall>i. rel_option (\<lambda>a b. app_org_id b = app_org_id a \<and> (i \<notin> A \<longrightarrow> b = a)) (gget (st_apps s) i) (gget (st_apps t) i)) \<and>
     (\<forall>j. rel_option (\<lambda>r u. u = r \<or> rel_app_id r \<in> A \<and> release_turned s t r u) (gget (st_releases s) j) (gget (st_releases t) j))"

lemma untouched: "st_apps t = st_apps s \<Longrightarrow> st_releases t = st_releases s \<Longrightarrow> touched A s t"
  by (simp add: touched_def option.rel_refl)

lemma touched_mono:
  assumes "touched A s t" "A \<subseteq> B"
  shows "touched B s t"
proof -
  note t = assms(1) [unfolded touched_def]
  have "rel_option (\<lambda>a b. app_org_id b = app_org_id a \<and> (i \<notin> B \<longrightarrow> b = a)) (gget (st_apps s) i) (gget (st_apps t) i)" for i
    by (rule option.rel_mono_strong [OF t [THEN conjunct1, THEN spec]]) (use assms(2) in blast)
  moreover have "rel_option (\<lambda>r u. u = r \<or> rel_app_id r \<in> B \<and> release_turned s t r u) (gget (st_releases s) j) (gget (st_releases t) j)" for j
    by (rule option.rel_mono_strong [OF t [THEN conjunct2, THEN spec]]) (use assms(2) in blast)
  ultimately show ?thesis by (simp add: touched_def)
qed

lemma touched_row:
  "touched A s t \<Longrightarrow> rel_option (\<lambda>a b. app_org_id b = app_org_id a \<and> (i \<notin> A \<longrightarrow> b = a)) (gget (st_apps s) i) (gget (st_apps t) i)"
  by (simp add: touched_def)

lemma touched_app: "touched A s t \<Longrightarrow> i \<notin> A \<Longrightarrow> gget (st_apps t) i = gget (st_apps s) i"
  using touched_row [of A s t i] by (cases "gget (st_apps s) i"; cases "gget (st_apps t) i") auto

lemma touched_trans:
  assumes "touched A s t" "touched B t u" "A \<inter> B = {}"
  shows "touched (A \<union> B) s u"
proof -
  let ?a = "\<lambda>A i a b. app_org_id b = app_org_id a \<and> (i \<notin> A \<longrightarrow> b = a)"
  let ?r = "\<lambda>A s t r u. u = r \<or> rel_app_id r \<in> A \<and> release_turned s t r u"
  note st = assms(1,2) [unfolded touched_def]
  have "rel_option (?a (A \<union> B) i) (gget (st_apps s) i) (gget (st_apps u) i)" for i
  proof -
    have "rel_option (?a A i OO ?a B i) (gget (st_apps s) i) (gget (st_apps u) i)"
      unfolding option.rel_compp using st by (blast intro: relcomppI)
    then show ?thesis by (rule option.rel_mono_strong) auto
  qed
  moreover have "rel_option (?r (A \<union> B) s u) (gget (st_releases s) j) (gget (st_releases u) j)" for j
  proof -
    have "rel_option (?r A s t OO ?r B t u) (gget (st_releases s) j) (gget (st_releases u) j)"
      unfolding option.rel_compp using st by (blast intro: relcomppI)
    moreover have "?r (A \<union> B) s u r v" if "(?r A s t OO ?r B t u) r v" for r v
    proof -
      from that obtain m where m: "?r A s t r m" "?r B t u m v" by blast
      have same: "rel_app_id m = rel_app_id r" using m(1) by (auto simp: release_turned_def)
      show ?thesis
      proof (cases "rel_app_id r \<in> A")
        case True
        then have "v = m" "gget (st_apps u) (rel_app_id r) = gget (st_apps t) (rel_app_id r)"
          using m(2) same assms(3) touched_app [OF assms(2)] by auto
        then show ?thesis using m(1) by (auto simp: release_turned_def)
      next
        case False
        then have "m = r" "gget (st_apps t) (rel_app_id r) = gget (st_apps s) (rel_app_id r)"
          using m(1) touched_app [OF assms(1)] by auto
        then show ?thesis using m(2) by (auto simp: release_turned_def)
      qed
    qed
    ultimately show ?thesis by (rule option.rel_mono_strong)
  qed
  ultimately show ?thesis by (simp add: touched_def)
qed

text \<open>One app.\<close>

lemma release_moved:
  assumes "reconcile_release_status i t p = (y, q)" "workloads_wf (rows p)"
  shows "rows q = rows p \<or>
    (\<exists>r st. gget (st_releases (rows p)) (rel_id r) = Some r \<and> is_current r \<and> rel_app_id r = i \<and>
       (t = ''running'' \<and> st = ReleaseActive \<or> t = ''failed'' \<and> st = ReleaseFailed) \<and>
       rows q = snd (update_release (r\<lparr>rel_status := st\<rparr>) (rows p)))"
proof -
  have move: "rows q = rows p \<or> (\<exists>r. gget (st_releases (rows p)) (rel_id r) = Some r \<and> is_current r \<and> rel_app_id r = i \<and>
       rows q = snd (update_release (r\<lparr>rel_status := st\<rparr>) (rows p)))"
    if m: "bindE (current_release i) (\<lambda>cur. case cur of None \<Rightarrow> okE ()
       | Some r \<Rightarrow> if rel_status r = st then okE () else lift_p (p_write (update_release (r\<lparr>rel_status := st\<rparr>)))) p = (y, q)" for st
  proof -
    obtain c u where c: "current_release i p = (c, u)" by (metis surj_pair)
    have u: "rows u = rows p" using reads_onlyD [OF lookups_read(7) c] by (simp add: seen_def)
    show ?thesis
    proof (cases "\<exists>r. c = Inr (Some r) \<and> rel_status r \<noteq> st")
      case True
      then obtain r where r: "c = Inr (Some r)" "rel_status r \<noteq> st" by blast
      have "rows q = rows (snd (p_write (update_release (r\<lparr>rel_status := st\<rparr>)) u))"
        using m c r by (simp add: bindE_def) (metis lift_p_state snd_conv)
      then show ?thesis
        using current_release_row [OF c [unfolded r(1)] assms(2)] write_effect [of "update_release (r\<lparr>rel_status := st\<rparr>)" u] u by auto
    next
      case False
      then have "rows q = rows u"
        using m c by (auto simp: bindE_def okE_def split: sum.splits option.splits if_splits)
      then show ?thesis using u by simp
    qed
  qed
  show ?thesis
    using assms(1) move [of ReleaseActive] move [of ReleaseFailed]
    by (auto simp: reconcile_release_status_def Let_def okE_def split: if_splits)
qed

lemma app_touches:
  assumes "workloads_wf (rows p)" "gget (st_apps (rows p)) (app_id a) = Some a"
  shows "touched {app_id a} (rows p) (rows (reconcile_app sv a p))"
proof -
  have still: "touched {app_id a} (rows p) (rows q)" if "rows q = rows p" for q :: "'a pworld"
    using that by (simp add: untouched)
  obtain x q where x: "backend_phase sv (app_status a) (app_namespace a) (app_release a) p = (x, q)" by (metis surj_pair)
  have q: "rows q = rows p"
    using x by (auto simp: backend_phase_def on_cluster_def rows_def split: if_splits sum.splits prod.splits)
  show ?thesis
  proof (cases "app_release a = [] \<or> x = None \<or> x = Some (app_status a)")
    case True
    then show ?thesis using x q by (auto simp: reconcile_app_def reconcile_workload_def intro: still split: option.split)
  next
    case False
    then obtain t where t: "app_release a \<noteq> []" "x = Some t" "t \<noteq> app_status a" by auto
    let ?a = "a\<lparr>app_status := t\<rparr>"
    obtain y u where w: "p_write (update_app ?a) q = (y, u)" by (metis surj_pair)
    obtain z v where r: "reconcile_release_status (app_id a) t u = (z, v)" by (metis surj_pair)
    have run: "rows (reconcile_app sv a p) = (if isl y then rows u else rows v)"
      using t x w r by (simp add: reconcile_app_def reconcile_workload_def bindE_def tryE_def okE_def split: sum.split)
    have wrote: "snd (update_app ?a (rows q)) = (rows p)\<lparr>st_apps := gput (app_id a) ?a (st_apps (rows p))\<rparr>"
      using assms(2) q by (simp add: update_app_def on_tbl_def tbl_update_def)
    have one: "touched {app_id a} (rows p) s" if "st_apps s = gput (app_id a) ?a (st_apps (rows p))"
        "\<forall>j. rel_option (\<lambda>r u. u = r \<or> rel_app_id r = app_id a \<and> release_turned (rows p) s r u) (gget (st_releases (rows p)) j) (gget (st_releases s) j)" for s
      using that assms(2) by (auto simp: touched_def option.rel_refl)
    have u: "rows u = rows p \<or> rows u = (rows p)\<lparr>st_apps := gput (app_id a) ?a (st_apps (rows p))\<rparr>"
      using write_effect [of "update_app ?a" q] w q wrote by auto
    then have touch_u: "touched {app_id a} (rows p) (rows u)" using still [of u] one [of "rows u"] by (auto simp: option.rel_refl)
    show ?thesis
    proof (cases "isl y")
      case True
      then show ?thesis using run touch_u by simp
    next
      case False
      then have wu: "rows u = (rows p)\<lparr>st_apps := gput (app_id a) ?a (st_apps (rows p))\<rparr>"
        using write_row [of "update_app ?a" q "projr y" u] w wrote by (cases y) auto
      have "workloads_wf (rows u)"
        using keepsD [OF on_rows_write [OF workloads_keeps_app(2)], of q ?a] q assms(1) w by (simp add: on_rows_def)
      from release_moved [OF r this] show ?thesis
      proof
        assume "rows v = rows u"
        then show ?thesis using run False touch_u by simp
      next
        assume "\<exists>r st. gget (st_releases (rows u)) (rel_id r) = Some r \<and> is_current r \<and> rel_app_id r = app_id a \<and>
          (t = ''running'' \<and> st = ReleaseActive \<or> t = ''failed'' \<and> st = ReleaseFailed) \<and>
          rows v = snd (update_release (r\<lparr>rel_status := st\<rparr>) (rows u))"
        then obtain r st where r: "gget (st_releases (rows p)) (rel_id r) = Some r" "is_current r" "rel_app_id r = app_id a"
          "t = ''running'' \<and> st = ReleaseActive \<or> t = ''failed'' \<and> st = ReleaseFailed"
          and "rows v = snd (update_release (r\<lparr>rel_status := st\<rparr>) (rows u))" using wu by auto
        then have v: "st_apps (rows v) = gput (app_id a) ?a (st_apps (rows p))"
            "st_releases (rows v) = gput (rel_id r) (r\<lparr>rel_status := st\<rparr>) (st_releases (rows p))"
          using wu by (simp_all add: update_release_def on_tbl_def tbl_update_def)
        have "release_turned (rows p) (rows v) r (r\<lparr>rel_status := st\<rparr>)"
          using r v assms(2) t(3) by (auto simp: release_turned_def)
        then have "touched {app_id a} (rows p) (rows v)"
          using r(1,3) v by (intro one) (auto simp: option.rel_refl)
        then show ?thesis using run False by simp
      qed
    qed
  qed
qed

text \<open>All apps of an organization, and all of a pass.\<close>

definition apps_of :: "string set \<Rightarrow> mem \<Rightarrow> string set" where
  "apps_of G s = {i. \<exists>a. gget (st_apps s) i = Some a \<and> app_org_id a \<in> G}"

lemma touched_apps_of:
  assumes "touched A s t"
  shows "apps_of G t = apps_of G s"
proof -
  have "i \<in> apps_of G t \<longleftrightarrow> i \<in> apps_of G s" for i
    using touched_row [OF assms, of i]
    by (cases "gget (st_apps s) i"; cases "gget (st_apps t) i") (auto simp: apps_of_def)
  then show ?thesis by blast
qed

lemma apps_touch:
  assumes "workloads_wf (rows p)" "distinct (map app_id vs)" "\<forall>a \<in> set vs. gget (st_apps (rows p)) (app_id a) = Some a"
  shows "touched (app_id ` set vs) (rows p) (rows (fold (reconcile_app sv) vs p))"
  using assms
proof (induction vs arbitrary: p)
  case Nil
  then show ?case by (simp add: untouched)
next
  case (Cons a vs)
  let ?q = "reconcile_app sv a p"
  have a: "gget (st_apps (rows p)) (app_id a) = Some a" using Cons.prems(3) by simp
  have first: "touched {app_id a} (rows p) (rows ?q)" using app_touches [OF Cons.prems(1) a] .
  have "steady False undefined p" using Cons.prems(1) by (simp add: steady_def)
  then have wf: "workloads_wf (rows ?q)" using app_step [OF _ _ a, of False undefined sv] by (simp add: steady_def)
  have "\<forall>b \<in> set vs. gget (st_apps (rows ?q)) (app_id b) = Some b"
    using touched_app [OF first] Cons.prems(2,3) by (metis (no_types, lifting) distinct.simps(2) image_eqI list.set_intros(2) list.set_map list.simps(9) singletonD)
  with Cons.IH [OF wf] Cons.prems(2) have "touched (app_id ` set vs) (rows ?q) (rows (fold (reconcile_app sv) vs ?q))" by simp
  from touched_trans [OF first this] Cons.prems(2) show ?case by simp
qed

lemma releases_still:
  "st_releases (snd (update_service v s)) = st_releases s" "st_releases (snd (update_database d s)) = st_releases s"
  by (simp_all add: update_service_def update_database_def on_tbl_def split: sum.split)

lemma org_touches:
  assumes "workloads_wf (rows p)"
  shows "touched (apps_of {g} (rows p)) (rows p) (rows (reconcile_org sv g p))"
proof -
  let ?apps = "reconcile_listed (p_read (list_apps_by_org g)) (reconcile_app sv) p"
  obtain x q where x: "p_read (list_apps_by_org g) p = (x, q)" by (metis surj_pair)
  have q: "rows q = rows p" using read_outcome(2) [OF x] .
  have "touched (apps_of {g} (rows p)) (rows p) (rows ?apps)"
  proof (cases x)
    case (Inl e)
    then show ?thesis using x q by (simp add: reconcile_listed_def untouched)
  next
    case (Inr vs)
    have vs: "vs = filter (\<lambda>v. app_org_id v = g) (gvals (st_apps (rows p)))"
      using read_outcome(3) [OF x Inr] by (simp add: list_apps_by_org_def)
    have k: "keyed app_id (st_apps (rows p))" using assms by (simp add: workloads_wf_def)
    have "distinct (map app_id vs)" using keyed_vals_distinct [OF k] by (simp add: vs distinct_map_filter)
    moreover have "\<forall>a \<in> set vs. gget (st_apps (rows q)) (app_id a) = Some a" by (auto simp: vs q keyed_vals [OF k])
    moreover have "app_id ` set vs \<subseteq> apps_of {g} (rows p)" by (auto simp: vs apps_of_def keyed_vals [OF k])
    ultimately have "touched (apps_of {g} (rows p)) (rows q) (rows (fold (reconcile_app sv) vs q))"
      using apps_touch [of q vs sv] assms touched_mono q by metis
    then show ?thesis using x q Inr by (simp add: reconcile_listed_def)
  qed
  moreover have "st_apps (rows (reconcile_org sv g p)) = st_apps (rows ?apps)"
      "st_releases (rows (reconcile_org sv g p)) = st_releases (rows ?apps)"
    unfolding reconcile_org_def
    by (simp_all add: listed_still service_still database_still tables_still releases_still)
  ultimately show ?thesis by (simp add: touched_def release_turned_def)
qed

lemma orgs_touch:
  assumes "workloads_wf (rows p)" "distinct (map org_id gs)"
  shows "touched (apps_of (org_id ` set gs) (rows p)) (rows p) (rows (reconcile_orgs sv live gs p))"
  using assms
proof (induction gs arbitrary: p)
  case Nil
  then show ?case by (simp add: untouched)
next
  case (Cons g gs)
  show ?case
  proof (cases "live (org_id g)")
    case True
    let ?q = "reconcile_org sv (org_id g) p"
    have "steady False undefined p" using Cons.prems(1) by (simp add: steady_def)
    then have wf: "workloads_wf (rows ?q)" using org_pass [of False undefined p sv] by (simp add: steady_def)
    note first = org_touches [OF Cons.prems(1), of "org_id g" sv]
    have rest: "touched (apps_of (org_id ` set gs) (rows p)) (rows ?q) (rows (reconcile_orgs sv live gs ?q))"
      using Cons.IH [OF wf] Cons.prems(2) touched_apps_of [OF first] by simp
    have apart: "apps_of {org_id g} (rows p) \<inter> apps_of (org_id ` set gs) (rows p) = {}"
      using Cons.prems(2) by (auto simp: apps_of_def)
    have all: "apps_of {org_id g} (rows p) \<union> apps_of (org_id ` set gs) (rows p) = apps_of (org_id ` set (g # gs)) (rows p)"
      by (auto simp: apps_of_def)
    show ?thesis using touched_trans [OF first rest apart] True unfolding all by simp
  next
    case False
    then show ?thesis by (simp add: untouched)
  qed
qed

lemma once_touches:
  assumes "workloads_wf (rows p)" "keyed org_id (st_organizations (rows p))"
  shows "\<exists>A. touched A (rows p) (rows (reconcile_once sv live p))"
proof -
  obtain x q where r: "p_read list_all_orgs p = (x, q)" by (metis surj_pair)
  have q: "rows q = rows p" using read_outcome(2) [OF r] .
  show ?thesis
  proof (cases x)
    case (Inl e)
    then show ?thesis using q r by (auto simp: reconcile_once_def intro: untouched)
  next
    case (Inr gs)
    then have "gs = gvals (st_organizations (rows p))" using read_outcome(3) [OF r] by (simp add: list_all_orgs_def)
    then have "distinct (map org_id gs)" using keyed_vals_distinct [OF assms(2)] by simp
    from orgs_touch [of q gs sv live, OF _ this] assms(1) q r Inr show ?thesis by (auto simp: reconcile_once_def)
  qed
qed

section \<open>Properties\<close>

text \<open>C36: whatever the backend reports, whatever fails and whenever it is cut off, a pass over a store that
  nobody else writes meanwhile changes at most the status of a workload that has a release, and
  with an app's status that of its current release. A workload that is stopped or whose build
  failed stays so, one that is being deployed, restarted or built only becomes running or failed;
  the current release of an app that turned running becomes active, of one that turned failed
  becomes failed. No row of any table appears, disappears or changes otherwise. (What a user
  writes while the pass is under way it may overwrite: reconciler_overwrites_stop.)\<close>

theorem reconciler_respects_intent:
  assumes "mem_wf (rows p)" "q = reconcile_once sv live p"
  shows "rel_option (\<lambda>a b. \<exists>t. b = a\<lparr>app_status := t\<rparr> \<and> may_become (app_release a) (app_status a) t)
           (gget (st_apps (rows p)) i) (gget (st_apps (rows q)) i) \<and>
         rel_option (\<lambda>v w. \<exists>t. w = v\<lparr>svc_status := t\<rparr> \<and> may_become (svc_release v) (svc_status v) t)
           (gget (st_services (rows p)) i) (gget (st_services (rows q)) i) \<and>
         rel_option (\<lambda>d e. \<exists>t. e = d\<lparr>db_status := t\<rparr> \<and> may_become (db_release d) (db_status d) t)
           (gget (st_databases (rows p)) i) (gget (st_databases (rows q)) i) \<and>
         rel_option (\<lambda>r u. u = r \<or> release_turned (rows p) (rows q) r u)
           (gget (st_releases (rows p)) i) (gget (st_releases (rows q)) i) \<and>
         beside (rows q) = beside (rows p)"
proof -
  have s: "steady False (pw_cluster p) p" and k: "keyed org_id (st_organizations (rows p))"
    using assms(1) by (simp_all add: steady_def mem_wf_def tenancy_wf_def)
  obtain A where "touched A (rows p) (rows q)"
    using once_touches [OF _ k, of sv live] s assms(2) by (auto simp: steady_def)
  then have "rel_option (\<lambda>r u. u = r \<or> rel_app_id r \<in> A \<and> release_turned (rows p) (rows q) r u)
      (gget (st_releases (rows p)) i) (gget (st_releases (rows q)) i)"
    by (simp add: touched_def)
  then have releases: "rel_option (\<lambda>r u. u = r \<or> release_turned (rows p) (rows q) r u)
      (gget (st_releases (rows p)) i) (gget (st_releases (rows q)) i)"
    by (rule option.rel_mono_strong) blast
  from once_pass [OF s _ k, of sv live]
  obtain G where G: "passed False sv (pw_cluster p) G (rows p) (rows q)" using assms(2) by auto
  have "\<exists>t. b = a\<lparr>app_status := t\<rparr> \<and> may_become (app_release a) (app_status a) t"
    if "if app_org_id a \<in> G then app_turned False sv (pw_cluster p) a b else b = a" for a b
    using that by (auto simp: app_turned_def turned_def split: if_splits intro: exI [of _ "app_status a"])
  moreover have "\<exists>t. w = v\<lparr>svc_status := t\<rparr> \<and> may_become (svc_release v) (svc_status v) t"
    if "if svc_org_id v \<in> G then service_turned False sv (pw_cluster p) v w else w = v" for v w
    using that by (auto simp: service_turned_def turned_def split: if_splits intro: exI [of _ "svc_status v"])
  moreover have "\<exists>t. e = d\<lparr>db_status := t\<rparr> \<and> may_become (db_release d) (db_status d) t"
    if "if db_org_id d \<in> G then database_turned False sv (pw_cluster p) d e else e = d" for d e
    using that by (auto simp: database_turned_def turned_def split: if_splits intro: exI [of _ "db_status d"])
  moreover note m = G [unfolded passed_def moved_def]
  ultimately show ?thesis
    using option.rel_mono_strong [OF m [THEN conjunct1, THEN spec, of i]]
      option.rel_mono_strong [OF m [THEN conjunct2, THEN conjunct1, THEN spec, of i]]
      option.rel_mono_strong [OF m [THEN conjunct2, THEN conjunct2, THEN conjunct1, THEN spec, of i]] releases
    by simp
qed

text \<open>C37: the reconciler converges in one pass: when no call fails and reading a status changes nothing in
  the cluster, after a full pass every workload of every organization has exactly the status that
  the backend shows for it, as far as what its user asked for lets it.\<close>

theorem reconciler_converges:
  assumes "mem_wf (rows p)" "healthy (pw_w p)" "\<forall>ns rel. snd (sv_status sv ns rel (pw_cluster p)) = pw_cluster p"
    and "q = reconcile_once sv (\<lambda>_. True) p"
  shows "(gget (st_apps (rows p)) i = Some a \<and> gget (st_organizations (rows p)) (app_org_id a) \<noteq> None \<longrightarrow>
           gget (st_apps (rows q)) i =
             Some (a\<lparr>app_status := observed sv (pw_cluster p) (app_status a) (app_namespace a) (app_release a)\<rparr>)) \<and>
         (gget (st_services (rows p)) i = Some v \<and> gget (st_organizations (rows p)) (svc_org_id v) \<noteq> None \<longrightarrow>
           gget (st_services (rows q)) i =
             Some (v\<lparr>svc_status := observed sv (pw_cluster p) (svc_status v) (svc_namespace v) (svc_release v)\<rparr>)) \<and>
         (gget (st_databases (rows p)) i = Some d \<and> gget (st_organizations (rows p)) (db_org_id d) \<noteq> None \<longrightarrow>
           gget (st_databases (rows q)) i =
             Some (d\<lparr>db_status := observed sv (pw_cluster p) (db_status d) (db_namespace d) (db_release d)\<rparr>))"
proof -
  let ?G = "set (map org_id (gvals (st_organizations (rows p))))"
  have s: "steady True (pw_cluster p) p" and k: "keyed org_id (st_organizations (rows p))"
    using assms(1,2) by (simp_all add: steady_def mem_wf_def tenancy_wf_def)
  have all: "takeWhile (\<lambda>_. True) xs = xs" for xs :: "string list" by (simp add: takeWhile_eq_all_conv)
  from once_pass [OF s _ k, of sv "\<lambda>_. True"] assms(3,4)
  have G: "passed True sv (pw_cluster p) ?G (rows p) (rows q)" by (auto simp: all)
  have org: "gget (st_organizations (rows p)) g \<noteq> None \<Longrightarrow> g \<in> ?G" for g
  proof -
    assume "gget (st_organizations (rows p)) g \<noteq> None"
    then obtain r where r: "gget (st_organizations (rows p)) g = Some r" by auto
    then have "org_id r = g" using k by (simp add: keyed_def)
    then show "g \<in> ?G" using r keyed_vals [OF k, of r] by auto
  qed
  note m = G [unfolded passed_def moved_def]
  have "\<exists>b. gget (st_apps (rows q)) i = Some b \<and> app_turned True sv (pw_cluster p) a b"
    if "gget (st_apps (rows p)) i = Some a" "gget (st_organizations (rows p)) (app_org_id a) \<noteq> None"
    using m [THEN conjunct1, THEN spec, of i] that(1) org [OF that(2)] by (auto simp: option_rel_Some1)
  moreover have "\<exists>w. gget (st_services (rows q)) i = Some w \<and> service_turned True sv (pw_cluster p) v w"
    if "gget (st_services (rows p)) i = Some v" "gget (st_organizations (rows p)) (svc_org_id v) \<noteq> None"
    using m [THEN conjunct2, THEN conjunct1, THEN spec, of i] that(1) org [OF that(2)] by (auto simp: option_rel_Some1)
  moreover have "\<exists>e. gget (st_databases (rows q)) i = Some e \<and> database_turned True sv (pw_cluster p) d e"
    if "gget (st_databases (rows p)) i = Some d" "gget (st_organizations (rows p)) (db_org_id d) \<noteq> None"
    using m [THEN conjunct2, THEN conjunct2, THEN conjunct1, THEN spec, of i] that(1) org [OF that(2)]
    by (auto simp: option_rel_Some1)
  ultimately show ?thesis
    unfolding app_turned_def service_turned_def database_turned_def turned_def by blast
qed

end
