(* ===== verification/Reconciler_Races.thy ===== *)
theory Reconciler_Races
  imports Reconciler Http_Failures
begin

text \<open>
  The reconciler at work on the small site: witnesses of its properties, and what it does to a
  stop that comes while a pass is under way.
\<close>

definition passes :: "fake pworld \<Rightarrow> fake pworld" where
  "passes = reconcile_once site_server (\<lambda>_. True)"

text \<open>the small site, the app of Ada in the namespace of its project and in some status\<close>

definition placed_app :: "string \<Rightarrow> app" where
  "placed_app st = (demo_app ''a1'' ''o1'' ''p1'' st)\<lparr>app_namespace := ''vortex-acme-web''\<rparr>"

definition race_store :: "string \<Rightarrow> mem" where
  "race_store st = run_calls (site_calls @ [WorkloadCall (workload_call.UpdateApp (placed_app st))]) new_memory_store"

text \<open>reading a status off the in-memory backend changes nothing\<close>

lemma site_status_reads: "snd (sv_status site_server ns rel c) = c"
  by (simp add: site_server_def fake_backend_def fake_status_def split_def Let_def split: option.splits)

theorem reconciler_respects_intent_witness:
  "rel_option (\<lambda>a b. \<exists>t. b = a\<lparr>app_status := t\<rparr> \<and> may_become (app_release a) (app_status a) t)
     (gget (st_apps site_store) ''a1'') (gget (st_apps (rows (passes (site_world site_store)))) ''a1'')"
  using reconciler_respects_intent [where p = "site_world site_store" and i = "''a1''", OF _ refl, of site_server "\<lambda>_. True",
      THEN conjunct1] site_wf
  by (simp add: passes_def site_world_def rows_def)

definition running_cluster :: fake where
  "running_cluster = (case deploy (sv_backend site_server) demo_conf demo_env ''o1'' ''a1'' (site_world (race_store ''deploying'')) of
     (r, p) \<Rightarrow> pw_cluster p)"

definition deploying_world :: "fake pworld" where
  "deploying_world = (site_world (race_store ''deploying''))\<lparr>pw_cluster := running_cluster\<rparr>"

lemma race_wf: "mem_wf (race_store st)"
  unfolding race_store_def by (intro mem_wf_reachable reachable_run_calls reach_new)

lemma deploying_rows: "rows deploying_world = (race_store ''deploying'')" "healthy (pw_w deploying_world)"
  by (simp_all add: deploying_world_def site_world_def rows_def)

theorem reconciler_converges_witness:
  "map_option app_status (gget (st_apps (rows (passes deploying_world))) ''a1'') = Some ''running''"
proof -
  let ?s = "race_store ''deploying''" and ?a = "placed_app ''deploying''"
  have "gget (st_apps ?s) ''a1'' = Some ?a" "gget (st_organizations ?s) (app_org_id ?a) \<noteq> None"
    "observed site_server (pw_cluster deploying_world) (app_status ?a) (app_namespace ?a) (app_release ?a) = ''running''"
    by code_simp+
  then show ?thesis
    using reconciler_converges [where p = deploying_world and i = "''a1''" and sv = site_server, OF _ _ _ refl, THEN conjunct1]
    by (simp add: passes_def deploying_rows race_wf site_status_reads)
qed

section \<open>A stop that comes while a pass is under way\<close>

text \<open>a pass writes back the rows it has listed: when a user stops an app between the listing and the turn of
  the app, the pass overwrites the stop with the status it sees.\<close>

theorem reconciler_overwrites_stop:
  "let be = fake_backend demo_sha; sv = site_server\<lparr>sv_backend := be\<rparr>;
       (r1, p1) = deploy be demo_conf demo_env ''o1'' ''a1'' (demo_world ''running'' SubActive)
   in case p_read (list_apps_by_org ''o1'') p1 of (Inl e, p2) \<Rightarrow> False | (Inr xs, p2) \<Rightarrow>
      let p3 = fold (reconcile_app sv) xs p2
      in case p_read (list_apps_by_org ''o1'') p3 of (Inl e, p4) \<Rightarrow> False | (Inr ys, p4) \<Rightarrow>
         let (r2, p5) = stop_app be ''o1'' ''a1'' p4; p6 = fold (reconcile_app sv) ys p5
         in map app_status ys = [''running''] \<and> \<not> isl r2 \<and>
            map_option app_status (gget (st_apps (rows p5)) ''a1'') = Some ''stopped'' \<and>
            map_option app_status (gget (st_apps (rows p6)) ''a1'') = Some ''scaled-to-zero''"
  by code_simp

end
