(* ===== verification/Kube_Api.thy ===== *)
theory Kube_Api
  imports Kube_Gateway
begin

text \<open>
  The objects the deploy backend and the image builder keep in the cluster, and the calls of the
  cluster API they are changed by. Objects are named by namespace and name. Each call takes the
  next entry of a schedule: first whatever the rest of the cluster (controllers, autoscalers, other
  control planes) did meanwhile, then the call itself, which may be lost before it has taken effect
  or after. An update carries the version that was read, and is refused when the object has
  changed since; here the version is the object itself.
\<close>

section \<open>Objects\<close>

type_synonym nsname = "string \<times> string"

record namespace_obj =
  no_labels :: "(string, string) gomap"
  no_active :: bool

record resource_quota =
  rq_limits_cpu :: string
  rq_limits_memory :: string
  rq_pods :: int

record limit_range =
  lr_cpu :: string
  lr_memory :: string
  lr_request_cpu :: string
  lr_request_memory :: string

datatype protocol = TCP | UDP

text \<open>Pods of the policy's own namespace, those of a namespace by name, a block of addresses with exceptions.\<close>

datatype net_peer = PodsHere | NamespaceNamed string | IpBlock string "string list"

text \<open>An empty list of peers or ports stands for all of them.\<close>

record egress_rule =
  eg_to :: "net_peer list"
  eg_ports :: "(protocol \<times> int) list"

datatype pod_selector = AllPods | LabelIs string string | LabelExists string

record network_policy =
  np_selector :: pod_selector
  np_ingress :: "net_peer list option"
  np_egress :: "egress_rule list option"

record secret_obj =
  sc_type :: string
  sc_data :: "(string, string) gomap"

text \<open>A Deployment or StatefulSet: the wanted replicas, the restart stamp of the pod template, what is observed.\<close>

record workload_obj =
  wo_replicas :: int
  wo_restarted_at :: "string option"
  wo_status_replicas :: int
  wo_ready_replicas :: int

text \<open>A KEDA ScaledObject: the replicas it is paused at.\<close>

record scaled_object =
  so_paused :: "string option"

record claim =
  pv_size :: string
  pv_class :: "string option"

text \<open>What the rendered pods consist of, as far as the code sets it. An environment variable has a value or
  refers to an optional key of a Secret.\<close>

datatype env_value = EnvText string | EnvSecret string string

datatype volume = EmptyDir string | SecretVolume string string "(string \<times> string) list" | ClaimVolume string string

record container =
  cn_name :: string
  cn_image :: string
  cn_command :: "string list"
  cn_args :: "string list"
  cn_env :: "(string \<times> env_value) list"
  cn_mounts :: "(string \<times> string) list"
  cn_escalation :: bool
  cn_dropped :: "string list"

record pod =
  po_labels :: "(string, string) gomap"
  po_service_account :: string
  po_automount :: bool
  po_non_root :: bool
  po_seccomp :: string
  po_init :: "container list"
  po_containers :: "container list"
  po_volumes :: "volume list"
  po_scheduled :: bool

record job_spec =
  js_backoff :: int
  js_ttl :: int
  js_deadline :: int
  js_pod :: pod

record job_status =
  jt_conditions :: "condition list"
  jt_active :: int
  jt_succeeded :: int
  jt_failed :: int
  jt_completed :: "time option"

record job =
  jo_labels :: "(string, string) gomap"
  jo_scheduled :: bool
  jo_created :: time
  jo_spec :: job_spec
  jo_status :: job_status

record cron_job =
  cj_labels :: "(string, string) gomap"
  cj_schedule :: string
  cj_forbid_concurrent :: bool
  cj_history :: int
  cj_suspend :: bool
  cj_job_labels :: "(string, string) gomap"
  cj_job_scheduled :: bool
  cj_spec :: job_spec

record objects =
  ob_namespaces :: "(string, namespace_obj) gomap"
  ob_quotas :: "(nsname, resource_quota) gomap"
  ob_limits :: "(nsname, limit_range) gomap"
  ob_accounts :: "(nsname, bool) gomap"
  ob_policies :: "(nsname, network_policy) gomap"
  ob_secrets :: "(nsname, secret_obj) gomap"
  ob_deployments :: "(nsname, workload_obj) gomap"
  ob_stateful_sets :: "(nsname, workload_obj) gomap"
  ob_scaled :: "(nsname, scaled_object) gomap"
  ob_claims :: "(nsname, claim) gomap"
  ob_jobs :: "(nsname, job) gomap"
  ob_crons :: "(nsname, cron_job) gomap"
  ob_pods :: "(nsname, (string, string) gomap \<times> string) gomap"

definition no_objects :: objects where
  "no_objects = \<lparr>ob_namespaces = [], ob_quotas = [], ob_limits = [], ob_accounts = [], ob_policies = [], ob_secrets = [],
     ob_deployments = [], ob_stateful_sets = [], ob_scaled = [], ob_claims = [], ob_jobs = [], ob_crons = [], ob_pods = []\<rparr>"

section \<open>Calls\<close>

datatype aerr = ANotFound | AExists | AConflict | ATimeout | AOther string

record kube =
  kb_objects :: objects
  kb_schedule :: "(fault \<times> (objects \<Rightarrow> objects)) list"

type_synonym 'a aop = "(aerr, kube, 'a) op"

definition unreachable :: aerr where
  "unreachable = AOther ''connection refused''"

definition call :: "(objects \<Rightarrow> (aerr + 'a) \<times> objects) \<Rightarrow> 'a aop" where
  "call m k =
     (case kb_schedule k of
        [] \<Rightarrow> (case m (kb_objects k) of (r, b) \<Rightarrow> (r, k\<lparr>kb_objects := b\<rparr>))
      | (f, rest) # sched \<Rightarrow>
          (let o1 = rest (kb_objects k); (r, b) = m o1
           in case f of
                NoFault \<Rightarrow> (r, \<lparr>kb_objects = b, kb_schedule = sched\<rparr>)
              | FailBefore \<Rightarrow> (Inl unreachable, \<lparr>kb_objects = o1, kb_schedule = sched\<rparr>)
              | FailAfter \<Rightarrow> (Inl unreachable, \<lparr>kb_objects = b, kb_schedule = sched\<rparr>)))"

text \<open>A kind of objects: its table and how it is replaced.\<close>

type_synonym ('k, 'v) kind = "(objects \<Rightarrow> ('k, 'v) gomap) \<times> (('k, 'v) gomap \<Rightarrow> objects \<Rightarrow> objects)"

definition create_obj :: "('k, 'v) kind \<Rightarrow> 'k \<Rightarrow> 'v \<Rightarrow> unit aop" where
  "create_obj kd i v = call (\<lambda>b.
     case gget (fst kd b) i of
       Some _ \<Rightarrow> (Inl AExists, b)
     | None \<Rightarrow> (Inr (), snd kd (gput i v (fst kd b)) b))"

definition get_obj :: "('k, 'v) kind \<Rightarrow> 'k \<Rightarrow> 'v aop" where
  "get_obj kd i = call (\<lambda>b. (case gget (fst kd b) i of None \<Rightarrow> Inl ANotFound | Some v \<Rightarrow> Inr v, b))"

definition update_obj :: "('k, 'v) kind \<Rightarrow> 'k \<Rightarrow> 'v \<Rightarrow> 'v \<Rightarrow> unit aop" where
  "update_obj kd i cur v = call (\<lambda>b.
     case gget (fst kd b) i of
       None \<Rightarrow> (Inl ANotFound, b)
     | Some w \<Rightarrow> if w = cur then (Inr (), snd kd (gput i v (fst kd b)) b) else (Inl AConflict, b))"

text \<open>A patch needs no version.\<close>

definition patch_obj :: "('k, 'v) kind \<Rightarrow> 'k \<Rightarrow> ('v \<Rightarrow> 'v) \<Rightarrow> unit aop" where
  "patch_obj kd i f = call (\<lambda>b.
     case gget (fst kd b) i of
       None \<Rightarrow> (Inl ANotFound, b)
     | Some w \<Rightarrow> (Inr (), snd kd (gput i (f w) (fst kd b)) b))"

definition delete_obj :: "('k, 'v) kind \<Rightarrow> 'k \<Rightarrow> unit aop" where
  "delete_obj kd i = call (\<lambda>b.
     case gget (fst kd b) i of
       None \<Rightarrow> (Inl ANotFound, b)
     | Some _ \<Rightarrow> (Inr (), snd kd (gdel i (fst kd b)) b))"

definition list_objs :: "('k, 'v) kind \<Rightarrow> ('k \<Rightarrow> 'v \<Rightarrow> bool) \<Rightarrow> ('k \<times> 'v) list aop" where
  "list_objs kd ok = call (\<lambda>b. (Inr (filter (\<lambda>(i, v). ok i v) (fst kd b)), b))"

definition namespaces :: "(string, namespace_obj) kind" where
  "namespaces = (ob_namespaces, \<lambda>t b. b\<lparr>ob_namespaces := t\<rparr>)"
definition quotas :: "(nsname, resource_quota) kind" where
  "quotas = (ob_quotas, \<lambda>t b. b\<lparr>ob_quotas := t\<rparr>)"
definition limit_ranges :: "(nsname, limit_range) kind" where
  "limit_ranges = (ob_limits, \<lambda>t b. b\<lparr>ob_limits := t\<rparr>)"
definition accounts :: "(nsname, bool) kind" where
  "accounts = (ob_accounts, \<lambda>t b. b\<lparr>ob_accounts := t\<rparr>)"
definition policies :: "(nsname, network_policy) kind" where
  "policies = (ob_policies, \<lambda>t b. b\<lparr>ob_policies := t\<rparr>)"
definition secrets :: "(nsname, secret_obj) kind" where
  "secrets = (ob_secrets, \<lambda>t b. b\<lparr>ob_secrets := t\<rparr>)"
definition deployments :: "(nsname, workload_obj) kind" where
  "deployments = (ob_deployments, \<lambda>t b. b\<lparr>ob_deployments := t\<rparr>)"
definition stateful_sets :: "(nsname, workload_obj) kind" where
  "stateful_sets = (ob_stateful_sets, \<lambda>t b. b\<lparr>ob_stateful_sets := t\<rparr>)"
definition scaled_objects :: "(nsname, scaled_object) kind" where
  "scaled_objects = (ob_scaled, \<lambda>t b. b\<lparr>ob_scaled := t\<rparr>)"
definition volume_claims :: "(nsname, claim) kind" where
  "volume_claims = (ob_claims, \<lambda>t b. b\<lparr>ob_claims := t\<rparr>)"
definition jobs :: "(nsname, job) kind" where
  "jobs = (ob_jobs, \<lambda>t b. b\<lparr>ob_jobs := t\<rparr>)"
definition crons :: "(nsname, cron_job) kind" where
  "crons = (ob_crons, \<lambda>t b. b\<lparr>ob_crons := t\<rparr>)"
definition pods :: "(nsname, (string, string) gomap \<times> string) kind" where
  "pods = (ob_pods, \<lambda>t b. b\<lparr>ob_pods := t\<rparr>)"

lemmas kinds = namespaces_def quotas_def limit_ranges_def accounts_def policies_def secrets_def deployments_def
  stateful_sets_def scaled_objects_def volume_claims_def jobs_def crons_def pods_def

text \<open>\<open>upsert\<close> with an update that reads the object, changes it and writes it back.\<close>

definition upsert_obj :: "('k, 'v) kind \<Rightarrow> 'k \<Rightarrow> 'v \<Rightarrow> ('v \<Rightarrow> 'v) \<Rightarrow> unit aop" where
  "upsert_obj kd i v change =
     tryE (create_obj kd i v)
       (\<lambda>e. if e = AExists then bindE (get_obj kd i) (\<lambda>cur. update_obj kd i cur (change cur)) else failE e) okE"

text \<open>\<open>retry.RetryOnConflict\<close> with the attempts of \<open>retry.DefaultRetry\<close>.\<close>

fun on_conflict :: "nat \<Rightarrow> 'a aop \<Rightarrow> 'a aop" where
  "on_conflict 0 m = failE AConflict"
| "on_conflict (Suc n) m =
     tryE m (\<lambda>e. if e = AConflict \<and> n > 0 then on_conflict n m else failE e) okE"

definition default_retry :: nat where "default_retry = 5"

section \<open>What a call may do\<close>

text \<open>\<open>rest_keeps I\<close>: the rest of the cluster keeps \<open>I\<close> whenever a call is made.\<close>

definition rest_keeps :: "(objects \<Rightarrow> bool) \<Rightarrow> kube \<Rightarrow> bool" where
  "rest_keeps I k \<longleftrightarrow> (\<forall>(f, rest) \<in> set (kb_schedule k). \<forall>b. I b \<longrightarrow> I (rest b))"

definition holds_in :: "(objects \<Rightarrow> bool) \<Rightarrow> kube \<Rightarrow> bool" where
  "holds_in I k \<longleftrightarrow> rest_keeps I k \<and> I (kb_objects k)"

named_theorems kube_keeps \<open>predicates of the objects kept by calls\<close>

lemma call_cases:
  assumes "call m k = (r, t)"
  obtains (quiet) "kb_schedule k = []" "m (kb_objects k) = (r, kb_objects t)" "kb_schedule t = []"
  | (done_so) f rest sched where "kb_schedule k = (f, rest) # sched" "m (rest (kb_objects k)) = (r, kb_objects t)"
      "kb_schedule t = sched" "f = NoFault"
  | (lost) f rest sched where "kb_schedule k = (f, rest) # sched" "kb_schedule t = sched" "r = Inl unreachable"
      "kb_objects t = rest (kb_objects k) \<or> kb_objects t = snd (m (rest (kb_objects k)))"
proof (cases "kb_schedule k")
  case Nil
  obtain x b where m: "m (kb_objects k) = (x, b)" by (metis surj_pair)
  then have "r = x" "t = k\<lparr>kb_objects := b\<rparr>" using assms Nil by (simp_all add: call_def)
  then show thesis using quiet Nil m by simp
next
  case (Cons p sched)
  obtain f rest where p: "p = (f, rest)" by (metis surj_pair)
  obtain x b where m: "m (rest (kb_objects k)) = (x, b)" by (metis surj_pair)
  have c: "call m k = (case f of NoFault \<Rightarrow> (x, \<lparr>kb_objects = b, kb_schedule = sched\<rparr>)
      | FailBefore \<Rightarrow> (Inl unreachable, \<lparr>kb_objects = rest (kb_objects k), kb_schedule = sched\<rparr>)
      | FailAfter \<Rightarrow> (Inl unreachable, \<lparr>kb_objects = b, kb_schedule = sched\<rparr>))"
    using Cons p m by (simp add: call_def Let_def)
  note e = assms [unfolded c]
  show thesis
  proof (cases f)
    case NoFault
    show thesis
    proof (rule done_so)
      show "kb_schedule k = (f, rest) # sched" using Cons p by simp
      show "m (rest (kb_objects k)) = (r, kb_objects t)" "kb_schedule t = sched" using e m NoFault by auto
      show "f = NoFault" by (rule NoFault)
    qed
  next
    case FailBefore
    show thesis
    proof (rule lost)
      show "kb_schedule k = (f, rest) # sched" using Cons p by simp
      show "kb_schedule t = sched" "r = Inl unreachable" using e FailBefore by auto
      show "kb_objects t = rest (kb_objects k) \<or> kb_objects t = snd (m (rest (kb_objects k)))" using e FailBefore by auto
    qed
  next
    case FailAfter
    show thesis
    proof (rule lost)
      show "kb_schedule k = (f, rest) # sched" using Cons p by simp
      show "kb_schedule t = sched" "r = Inl unreachable" using e FailAfter by auto
      show "kb_objects t = rest (kb_objects k) \<or> kb_objects t = snd (m (rest (kb_objects k)))" using e m FailAfter by auto
    qed
  qed
qed

lemma call_env: "call m k = (r, t) \<Longrightarrow> rest_keeps I k \<Longrightarrow> rest_keeps I t"
  by (erule call_cases) (auto simp: rest_keeps_def)

lemma keeps_env: "keeps (rest_keeps I) (call m)"
  unfolding keeps_def using call_env surjective_pairing by blast

lemma call_keeps:
  assumes "\<And>b. I b \<Longrightarrow> I (snd (m b))"
  shows "keeps (holds_in I) (call m)"
  unfolding keeps_def
proof (intro allI impI)
  fix k assume k: "holds_in I k"
  obtain r t where c: "call m k = (r, t)" by (metis surj_pair)
  have t: "rest_keeps I t" using k call_env [OF c] by (simp add: holds_in_def)
  from c have "I (kb_objects t)"
  proof (cases rule: call_cases)
    case quiet
    then show ?thesis using k assms [of "kb_objects k"] by (simp add: holds_in_def)
  next
    case (done_so f rest sched)
    then have "I (rest (kb_objects k))" using k by (auto simp: holds_in_def rest_keeps_def)
    then show ?thesis using assms done_so(2) by fastforce
  next
    case (lost f rest sched)
    then have "I (rest (kb_objects k))" using k by (auto simp: holds_in_def rest_keeps_def)
    then show ?thesis using assms lost(4) by metis
  qed
  then show "holds_in I (snd (call m k))" using t c by (simp add: holds_in_def)
qed

text \<open>A call that was answered has done what it says, on what the rest of the cluster left.\<close>

lemma call_answered:
  assumes "call m k = (r, t)" "holds_in I k"
  obtains b where "m b = (r, kb_objects t)" "I b" | "r = Inl unreachable"
  using assms(1)
proof (cases rule: call_cases)
  case quiet
  then show thesis using that(1) [of "kb_objects k"] assms(2) by (simp add: holds_in_def)
next
  case (done_so f rest sched)
  then have "I (rest (kb_objects k))" using assms(2) by (auto simp: holds_in_def rest_keeps_def)
  then show thesis using that(1) done_so(2) by blast
next
  case lost
  then show thesis using that(2) by blast
qed

lemma call_ok:
  assumes "call m k = (Inr x, t)" "holds_in I k"
  obtains b where "m b = (Inr x, kb_objects t)" "I b"
  using call_answered [OF assms] that by blast

lemma keeps_get [kube_keeps]: "keeps (holds_in I) (get_obj kd i)"
  unfolding get_obj_def by (rule call_keeps) simp

lemma keeps_create [kube_keeps]:
  "(\<And>b. I b \<Longrightarrow> I (snd kd (gput i v (fst kd b)) b)) \<Longrightarrow> keeps (holds_in I) (create_obj kd i v)"
  unfolding create_obj_def by (rule call_keeps) (simp split: option.split)

lemma keeps_update [kube_keeps]:
  "(\<And>b. I b \<Longrightarrow> I (snd kd (gput i v (fst kd b)) b)) \<Longrightarrow> keeps (holds_in I) (update_obj kd i cur v)"
  unfolding update_obj_def by (rule call_keeps) (simp split: option.split)

lemma keeps_patch [kube_keeps]:
  "(\<And>b w. I b \<Longrightarrow> I (snd kd (gput i (f w) (fst kd b)) b)) \<Longrightarrow> keeps (holds_in I) (patch_obj kd i f)"
  unfolding patch_obj_def by (rule call_keeps) (simp split: option.split)

lemma keeps_delete [kube_keeps]:
  "(\<And>b. I b \<Longrightarrow> I (snd kd (gdel i (fst kd b)) b)) \<Longrightarrow> keeps (holds_in I) (delete_obj kd i)"
  unfolding delete_obj_def by (rule call_keeps) (simp split: option.split)

lemma keeps_listing [kube_keeps]: "keeps (holds_in I) (list_objs kd ok)"
  unfolding list_objs_def by (rule call_keeps) simp

text \<open>Nothing a call does reaches the rest of the schedule.\<close>

lemma env_calls [kube_keeps]:
  "keeps (rest_keeps I) (get_obj kd i)" "keeps (rest_keeps I) (create_obj kd i v)" "keeps (rest_keeps I) (update_obj kd i cur v)"
  "keeps (rest_keeps I) (patch_obj kd i f)" "keeps (rest_keeps I) (delete_obj kd i)" "keeps (rest_keeps I) (list_objs kd ok)"
  by (simp_all add: get_obj_def create_obj_def update_obj_def patch_obj_def delete_obj_def list_objs_def keeps_env)

lemma create_ok:
  assumes "create_obj kd i v k = (Inr x, t)" "holds_in I k"
  obtains b where "I b" "gget (fst kd b) i = None" "kb_objects t = snd kd (gput i v (fst kd b)) b"
proof -
  obtain b where "(case gget (fst kd b) i of Some w \<Rightarrow> (Inl AExists, b) | None \<Rightarrow> (Inr (), snd kd (gput i v (fst kd b)) b)) =
      (Inr x, kb_objects t)" "I b"
    using call_ok [OF assms(1) [unfolded create_obj_def] assms(2)] by blast
  then show thesis using that [of b] by (cases "gget (fst kd b) i") simp_all
qed

lemma get_ok:
  assumes "get_obj kd i k = (Inr w, t)" "holds_in I k"
  shows "gget (fst kd (kb_objects t)) i = Some w" "holds_in I t"
proof -
  obtain b where "(case gget (fst kd b) i of None \<Rightarrow> Inl ANotFound | Some v \<Rightarrow> Inr v, b) = (Inr w, kb_objects t)"
    using call_ok [OF assms(1) [unfolded get_obj_def] assms(2)] by blast
  then show "gget (fst kd (kb_objects t)) i = Some w" by (cases "gget (fst kd b) i") simp_all
  show "holds_in I t" using keepsD [OF keeps_get assms(2), of kd i] assms(1) by simp
qed

lemma get_missing:
  assumes "get_obj kd i k = (Inl ANotFound, t)" "holds_in I k"
  shows "gget (fst kd (kb_objects t)) i = None" "holds_in I t"
proof -
  obtain b where "(case gget (fst kd b) i of None \<Rightarrow> Inl ANotFound | Some v \<Rightarrow> Inr v, b) = (Inl ANotFound, kb_objects t)"
    using call_answered [OF assms(1) [unfolded get_obj_def] assms(2)] by (auto simp: unreachable_def)
  then show "gget (fst kd (kb_objects t)) i = None" by (cases "gget (fst kd b) i") simp_all
  show "holds_in I t" using keepsD [OF keeps_get assms(2), of kd i] assms(1) by simp
qed

lemma update_ok:
  assumes "update_obj kd i cur v k = (Inr x, t)" "holds_in I k"
  obtains b where "I b" "gget (fst kd b) i = Some cur" "kb_objects t = snd kd (gput i v (fst kd b)) b"
proof -
  obtain b where "(case gget (fst kd b) i of None \<Rightarrow> (Inl ANotFound, b)
      | Some w \<Rightarrow> if w = cur then (Inr (), snd kd (gput i v (fst kd b)) b) else (Inl AConflict, b)) = (Inr x, kb_objects t)" "I b"
    using call_ok [OF assms(1) [unfolded update_obj_def] assms(2)] by blast
  then show thesis using that [of b] by (auto split: option.splits if_splits)
qed

lemma upsert_keeps [kube_keeps]:
  assumes "\<And>b w. I b \<Longrightarrow> I (snd kd (gput i w (fst kd b)) b)"
  shows "keeps (holds_in I) (upsert_obj kd i v f)"
  unfolding upsert_obj_def
proof (rule keeps_try)
  show "keeps (holds_in I) (create_obj kd i v)" using assms by (rule keeps_create)
  show "keeps (holds_in I) (if e = AExists then bindE (get_obj kd i) (\<lambda>cur. update_obj kd i cur (f cur)) else failE e)" for e
    by (simp add: keeps_fail keeps_bind keeps_get keeps_update assms)
  show "keeps (holds_in I) (okE x)" for x by (rule keeps_ok)
qed

text \<open>An upsert that succeeds leaves the object as it was meant to be.\<close>

lemma upsert_ok:
  assumes "upsert_obj kd i v (\<lambda>_. v) k = (Inr x, t)" "holds_in I k"
    and keep: "\<And>b. I b \<Longrightarrow> I (snd kd (gput i v (fst kd b)) b)"
  obtains b where "I b" "kb_objects t = snd kd (gput i v (fst kd b)) b"
  using assms(1) unfolding upsert_obj_def
proof (rule tryE_E)
  fix y u assume c: "create_obj kd i v k = (Inr y, u)" and o: "okE y u = (Inr x, t)"
  have "u = t" using o by (simp add: okE_def)
  with create_ok [OF c assms(2)] show thesis using that by blast
next
  fix e u assume c: "create_obj kd i v k = (Inl e, u)"
    and r: "(if e = AExists then bindE (get_obj kd i) (\<lambda>cur. update_obj kd i cur v) else failE e) u = (Inr x, t)"
  have u: "holds_in I u" using keepsD [OF keeps_create assms(2), of kd i v] keep c by simp
  from r have "bindE (get_obj kd i) (\<lambda>cur. update_obj kd i cur v) u = (Inr x, t)"
    by (cases "e = AExists") (simp_all add: failE_def)
  then obtain w z where g: "get_obj kd i u = (Inr w, z)" and up: "update_obj kd i w v z = (Inr x, t)"
    by (rule bindE_InrE)
  from update_ok [OF up get_ok(2) [OF g u]] show thesis using that by blast
qed

lemma on_conflict_ok:
  assumes "on_conflict n m k = (Inr x, t)" "keeps I m" "I k"
  shows "\<exists>k1. I k1 \<and> m k1 = (Inr x, t)"
  using assms(1,3)
proof (induction n arbitrary: k)
  case 0
  then show ?case by (simp add: failE_def)
next
  case (Suc n)
  from Suc.prems(1) show ?case
    unfolding on_conflict.simps
  proof (rule tryE_E)
    fix e u assume e: "m k = (Inl e, u)" and r: "(if e = AConflict \<and> n > 0 then on_conflict n m else failE e) u = (Inr x, t)"
    have "I u" using keepsD [OF assms(2) Suc.prems(2)] e by simp
    moreover have "on_conflict n m u = (Inr x, t)" using r by (cases "e = AConflict \<and> n > 0") (simp_all add: failE_def)
    ultimately show ?thesis using Suc.IH by blast
  next
    fix y u assume "m k = (Inr y, u)" "okE y u = (Inr x, t)"
    then show ?thesis using Suc.prems(2) by (auto simp: okE_def)
  qed
qed

lemma create_calm:
  "kb_schedule k = [] \<Longrightarrow> gget (fst kd (kb_objects k)) i = None \<Longrightarrow>
   create_obj kd i v k = (Inr (), k\<lparr>kb_objects := snd kd (gput i v (fst kd (kb_objects k))) (kb_objects k)\<rparr>)"
  by (simp add: create_obj_def call_def)

end
