(* ===== verification/Kube_Helm.thy ===== *)
theory Kube_Helm
  imports Kube_Gateway Retry
begin

text \<open>
  Running \<open>helm\<close> (\<open>kube/helm.go\<close>) and the operations of \<open>kube/kube.go\<close> that are runs of it. The
  process itself is an argument: a function of the argument list and the state of the world that
  gives standard output and, when it fails, the error of the process and its standard error. The
  decorators around it are those of the code: the error text, the bounded retry and the observer.
\<close>

section \<open>Runners\<close>

text \<open>Standard output and the error, if any.\<close>

type_synonym 's runner = "string list \<Rightarrow> 's \<Rightarrow> (string \<times> string option) \<times> 's"

type_synonym 's exec = "string list \<Rightarrow> 's \<Rightarrow> (string \<times> (string \<times> string) option) \<times> 's"

text \<open>\<open>strings.Contains\<close>, and \<open>%v\<close> of a list of strings.\<close>

fun contains :: "string \<Rightarrow> string \<Rightarrow> bool" where
  "contains s sub \<longleftrightarrow> has_prefix s sub \<or> (case s of [] \<Rightarrow> False | c # cs \<Rightarrow> contains cs sub)"

declare contains.simps [simp del]

definition list_text :: "string list \<Rightarrow> string" where
  "list_text xs = ''['' @ join '' '' xs @ '']''"

definition exec_helm_run :: "'s exec \<Rightarrow> 's runner" where
  "exec_helm_run ex args s =
     (case ex args s of
        ((out, None), t) \<Rightarrow> ((out, None), t)
      | ((out, Some (err, stderr)), t) \<Rightarrow>
          ((out, Some (''helm '' @ list_text args @ '': '' @ err @ '': '' @ stderr)), t))"

definition helm_transient_markers :: "string list" where
  "helm_transient_markers =
     [''connection refused'', ''connection reset'', ''no route to host'', ''timeout'', ''timed out'', ''i/o timeout'',
      ''deadline exceeded'', ''eof'', ''tls handshake'', ''temporary failure'', ''server is currently unable'',
      ''the server was unable to return a response'', ''too many requests'', ''503'', ''502'', ''504'', ''unexpected eof'',
      ''connection closed'', ''dial tcp'']"

definition helm_retryable :: "string \<Rightarrow> bool" where
  "helm_retryable err = list_ex (contains (to_lower err)) helm_transient_markers"

text \<open>One attempt under retry; the output of the last attempt is kept.\<close>

definition helm_attempt :: "'s runner \<Rightarrow> string list \<Rightarrow> 's \<times> string \<Rightarrow> string attempt \<times> 's \<times> string" where
  "helm_attempt inner args c =
     (case inner args (fst c) of
        ((out, None), t) \<Rightarrow> (AttemptOk, t, out)
      | ((out, Some e), t) \<Rightarrow> (if helm_retryable e then AttemptError e else AttemptTerminal e, t, out))"

definition retrying_helm_run ::
    "(nat \<Rightarrow> int \<Rightarrow> int) \<Rightarrow> (nat \<Rightarrow> duration \<Rightarrow> string option) \<Rightarrow> policy \<Rightarrow> 's runner \<Rightarrow> 's runner" where
  "retrying_helm_run rnd wait pol inner args s =
     (case retry_do rnd wait pol (helm_attempt inner args) (s, []) of
        (res, t, out) \<Rightarrow> ((out, case res of RetryOk \<Rightarrow> None | RetryError e \<Rightarrow> Some e | RetryCanceled c \<Rightarrow> Some c), t))"

definition observed_helm_run :: "(bool \<Rightarrow> 's \<Rightarrow> 's) option \<Rightarrow> 's runner \<Rightarrow> 's runner" where
  "observed_helm_run on_run inner args s =
     (case inner args s of
        ((out, err), t) \<Rightarrow> ((out, err), case on_run of None \<Rightarrow> t | Some f \<Rightarrow> f (err \<noteq> None) t))"

definition new_exec_helm_runner ::
    "(nat \<Rightarrow> int \<Rightarrow> int) \<Rightarrow> (nat \<Rightarrow> duration \<Rightarrow> string option) \<Rightarrow> 's exec \<Rightarrow> 's runner" where
  "new_exec_helm_runner rnd wait ex = retrying_helm_run rnd wait default_policy (exec_helm_run ex)"

section \<open>Deadlines\<close>

text \<open>\<open>time.Duration.String\<close>: the decimal fraction of a unit of \<open>10 ^ digits\<close>, without trailing zeros.\<close>

definition fraction_text :: "nat \<Rightarrow> int \<Rightarrow> string" where
  "fraction_text digits f =
     (if f = 0 then []
      else let s = itoa f; padded = replicate (digits - length s) (CHR ''0'') @ s
           in CHR ''.'' # rev (dropWhile (\<lambda>c. c = CHR ''0'') (rev padded)))"

definition duration_text :: "duration \<Rightarrow> string" where
  "duration_text d =
     (let u = \<bar>d\<bar>; sgn = (if d < 0 then ''-'' else '''')
      in if u = 0 then ''0s''
         else if u < 1000 then sgn @ itoa u @ ''ns''
         else if u < 1000000 then sgn @ itoa (u div 1000) @ fraction_text 3 (u mod 1000) @ [CHR 0xC2, CHR 0xB5, CHR ''s'']
         else if u < second_ns then sgn @ itoa (u div 1000000) @ fraction_text 6 (u mod 1000000) @ ''ms''
         else let secs = u div second_ns; tail = itoa (secs mod 60) @ fraction_text 9 (u mod second_ns) @ ''s'';
                  mins = secs div 60
              in sgn @ (if mins = 0 then tail
                        else if mins < 60 then itoa mins @ ''m'' @ tail
                        else itoa (mins div 60) @ ''h'' @ itoa (mins mod 60) @ ''m'' @ tail))"

definition default_helm_timeout :: duration where
  "default_helm_timeout = 5 * 60 * second_ns"

definition helm_timeout :: "duration \<Rightarrow> duration" where
  "helm_timeout configured = (if configured > 0 then configured else default_helm_timeout)"

definition helm_duration :: "duration \<Rightarrow> string" where
  "helm_duration d = duration_text d"

section \<open>Installing and removing a release\<close>

definition upgrade_args :: "string \<Rightarrow> string \<Rightarrow> string \<Rightarrow> string \<Rightarrow> duration \<Rightarrow> string list" where
  "upgrade_args rel chart ns file limit =
     [''upgrade'', ''--install'', rel, chart, ''-n'', ns, ''--create-namespace'', ''-f'', file,
      ''--wait'', ''--atomic'', ''--timeout'', helm_duration limit]"

text \<open>
  \<open>addShardParentRefs\<close>: the Gateway shards beside the primary one that hold a listener for one of the
  custom domains, each once; a lookup that fails is passed over.
\<close>

fun shard_parents :: "(string \<Rightarrow> string option kop) \<Rightarrow> string list \<Rightarrow> string list \<Rightarrow> cluster \<Rightarrow> string list \<times> cluster" where
  "shard_parents look seen [] c = ([], c)"
| "shard_parents look seen (h # hs) c =
     (case look h c of
        (Inl e, d) \<Rightarrow> shard_parents look seen hs d
      | (Inr None, d) \<Rightarrow> shard_parents look seen hs d
      | (Inr (Some n), d) \<Rightarrow>
          if n \<in> set seen then shard_parents look seen hs d
          else (case shard_parents look (n # seen) hs d of (ns, d2) \<Rightarrow> (n # ns, d2)))"

fun change_entry :: "string \<Rightarrow> (val \<Rightarrow> val) \<Rightarrow> val \<Rightarrow> val" where
  "change_entry k f (VMap m) = VMap (map (\<lambda>(i, v). (i, if i = k then f v else v)) m)"
| "change_entry k f v = v"

fun append_refs :: "val list \<Rightarrow> val \<Rightarrow> val" where
  "append_refs extra (VList refs) = VList (refs @ extra)"
| "append_refs extra v = v"

definition parent_ref :: "kube_conf \<Rightarrow> string \<Rightarrow> val" where
  "parent_ref kc n = VMap [(''name'', VStr n), (''namespace'', VStr (kc_gateway_namespace kc))]"

text \<open>\<open>dynamic\<close>: a client for custom resources is configured.\<close>

definition add_shard_parent_refs ::
    "kube_conf \<Rightarrow> (string \<Rightarrow> string) \<Rightarrow> bool \<Rightarrow> string list \<Rightarrow> val \<Rightarrow> cluster \<Rightarrow> val \<times> cluster" where
  "add_shard_parent_refs kc sha dynamic domains values c =
     (let hosts = sanitize_domains domains
      in if \<not> dynamic \<or> domains = [] \<or> hosts = [] then (values, c)
         else case shard_parents (shard_for_host kc sha) [kc_gateway_name kc] hosts c of
                (ns, d) \<Rightarrow>
                  (if ns = [] then values
                   else change_entry ''gateway'' (change_entry ''parentRefs'' (append_refs (map (parent_ref kc) ns))) values, d))"

text \<open>\<open>save\<close> marshals the values into a temporary file and gives its path.\<close>

definition apply_release ::
    "'s runner \<Rightarrow> (val \<Rightarrow> 's \<Rightarrow> (string + string) \<times> 's) \<Rightarrow> kube_conf \<Rightarrow> (string \<Rightarrow> string) \<Rightarrow> bool \<Rightarrow> string \<Rightarrow>
     duration \<Rightarrow> workload \<Rightarrow> (string, 's \<times> cluster, string \<times> string) op" where
  "apply_release run save kc sha dynamic chart configured w p =
     (let ns = namespace_name (wl_org_slug w) (wl_project_slug w); rel = release_name (wl_name w);
          h = host (wl_name w) (wl_project_slug w) (wl_org_slug w) (kc_base_domain kc)
      in case add_shard_parent_refs kc sha dynamic (wl_domains w) (build_values kc w h) (snd p) of
           (values, d) \<Rightarrow>
             (case save values (fst p) of
                (Inl e, s) \<Rightarrow> (Inl e, (s, d))
              | (Inr file, s) \<Rightarrow>
                  (case run (upgrade_args rel chart ns file (helm_timeout configured)) s of
                     ((out, Some e), t) \<Rightarrow> (Inl e, (t, d))
                   | ((out, None), t) \<Rightarrow> (Inr (rel, h), (t, d)))))"

definition is_helm_not_found :: "string \<Rightarrow> bool" where
  "is_helm_not_found err = contains (to_lower err) ''release: not found''"

definition uninstall_args :: "string \<Rightarrow> string \<Rightarrow> string list" where
  "uninstall_args ns rel = [''uninstall'', rel, ''-n'', ns]"

definition delete_release :: "'s runner \<Rightarrow> string \<Rightarrow> string \<Rightarrow> (string, 's, unit) op" where
  "delete_release run ns rel s =
     (case run (uninstall_args ns rel) s of
        ((out, Some e), t) \<Rightarrow> (if is_helm_not_found e then Inr () else Inl e, t)
      | ((out, None), t) \<Rightarrow> (Inr (), t))"

section \<open>Texts that contain a word\<close>

lemma contains_append [intro]: "contains (a @ sub @ b) sub"
proof (induction a)
  case Nil
  show ?case by (subst contains.simps) (simp add: has_prefix_def)
next
  case (Cons c a)
  then show ?case by (subst contains.simps) simp
qed

lemma contains_iff: "contains s sub \<longleftrightarrow> (\<exists>a b. s = a @ sub @ b)"
proof (induction s)
  case Nil
  then show ?case by (subst contains.simps) (auto simp: has_prefix_def)
next
  case (Cons c s)
  show ?case
  proof
    assume "contains (c # s) sub"
    then consider "has_prefix (c # s) sub" | "contains s sub" by (subst (asm) contains.simps) auto
    then show "\<exists>a b. c # s = a @ sub @ b"
    proof cases
      case 1
      then have "c # s = [] @ sub @ drop (length sub) (c # s)"
        by (metis append_Nil append_take_drop_id has_prefix_def)
      then show ?thesis by blast
    next
      case 2
      then show ?thesis using Cons.IH by (metis append_Cons)
    qed
  next
    assume "\<exists>a b. c # s = a @ sub @ b"
    then show "contains (c # s) sub" by auto
  qed
qed

lemma to_lower_append [simp]: "to_lower (a @ b) = to_lower a @ to_lower b"
  by (simp add: to_lower_def)

lemma joined_word: "w \<in> set ws \<Longrightarrow> \<exists>a b. join sep ws = a @ w @ b"
proof (induction sep ws rule: join.induct)
  case (3 sep v w' ws)
  show ?case
  proof (cases "w = v")
    case True
    then have "join sep (v # w' # ws) = [] @ w @ (sep @ join sep (w' # ws))" by simp
    then show ?thesis by blast
  next
    case False
    then obtain a b where "join sep (w' # ws) = a @ w @ b" using 3 by auto
    then have "join sep (v # w' # ws) = (v @ sep @ a) @ w @ b" by simp
    then show ?thesis by blast
  qed
next
  case (2 sep v)
  then have "join sep [v] = [] @ w @ []" by simp
  then show ?case by blast
qed simp

lemma marker_in_argument:
  assumes "exec_helm_run ex args s = ((out, Some e), t)" "a \<in> set args" "contains (to_lower a) m" "m \<in> set helm_transient_markers"
  shows "helm_retryable e"
proof -
  obtain err stderr where e: "e = ''helm '' @ list_text args @ '': '' @ err @ '': '' @ stderr"
    using assms(1) by (auto simp: exec_helm_run_def split: prod.splits option.splits)
  obtain u v where j: "join '' '' args = u @ a @ v" using joined_word [OF assms(2)] by blast
  obtain x y where l: "to_lower a = x @ m @ y" using assms(3) by (auto simp: contains_iff)
  have "to_lower e = to_lower (''helm ['' @ u) @ to_lower a @ to_lower (v @ '']: '' @ err @ '': '' @ stderr)"
    by (simp add: e list_text_def j to_lower_def)
  then have "to_lower e = (to_lower (''helm ['' @ u) @ x) @ m @ (y @ to_lower (v @ '']: '' @ err @ '': '' @ stderr))"
    unfolding l by (simp only: append.assoc)
  then have "contains (to_lower e) m" by (metis contains_append)
  then show ?thesis using assms(4) by (auto simp: helm_retryable_def list_ex_iff)
qed

lemma timeout_flag: "contains (to_lower ''--timeout'') ''timeout''"
  by code_simp

lemma upgrade_names_timeout: "''--timeout'' \<in> set (upgrade_args rel chart ns file limit)"
  unfolding upgrade_args_def by (simp only: list.set insert_iff simp_thms)

lemma timeout_marks: "''timeout'' \<in> set helm_transient_markers"
  by code_simp

lemma upgrade_errors_retryable:
  "exec_helm_run ex (upgrade_args rel chart ns file limit) s = ((out, Some e), t) \<Longrightarrow> helm_retryable e"
  by (rule marker_in_argument [OF _ upgrade_names_timeout timeout_flag timeout_marks])

section \<open>A route lists every shard it needs\<close>

text \<open>When no lookup fails, every shard that holds a listener of one of the domains is listed, once, and no other.\<close>

lemma shard_parents_complete:
  assumes "\<And>h. h \<in> set hs \<Longrightarrow> look h c = (Inr (sh h), c)"
  shows "\<exists>ns. shard_parents look seen hs c = (ns, c) \<and> distinct ns \<and> set ns = {n. Some n \<in> sh ` set hs} - set seen"
  using assms
proof (induction hs arbitrary: seen)
  case (Cons h hs)
  have l: "look h c = (Inr (sh h), c)" using Cons.prems by simp
  have IH: "\<exists>ns. shard_parents look seen hs c = (ns, c) \<and> distinct ns \<and> set ns = {n. Some n \<in> sh ` set hs} - set seen" for seen
    using Cons.IH Cons.prems by simp
  show ?case
  proof (cases "sh h")
    case None
    then show ?thesis using IH [of seen] l by auto
  next
    case (Some n)
    show ?thesis
    proof (cases "n \<in> set seen")
      case True
      then show ?thesis using IH [of seen] l Some by auto
    next
      case False
      obtain ns where "shard_parents look (n # seen) hs c = (ns, c)" "distinct ns"
          "set ns = {m. Some m \<in> sh ` set hs} - set (n # seen)"
        using IH [of "n # seen"] by blast
      then show ?thesis using l Some False by auto
    qed
  qed
qed simp

lemma calm_lookup:
  assumes "cl_faults c = [] \<and> cl_others c = []"
  shows "shard_for_host kc sha h c =
    (Inr (if normal_host h = [] then None
          else shard_holding (kc_gateway_name kc) (domain_listener_name sha (normal_host h)) (cl_gateways c)), c)"
  using assms by (simp add: shard_for_host_def list_gateways_def api_def others_act_def readE_def bindE_def okE_def Let_def)

lemma calm_parents:
  assumes "cl_faults c = [] \<and> cl_others c = []"
  shows "\<exists>ns. shard_parents (shard_for_host kc sha) [kc_gateway_name kc] hs c = (ns, c) \<and> distinct ns \<and>
    (\<forall>n. n \<in> set ns \<longleftrightarrow> n \<noteq> kc_gateway_name kc \<and>
       (\<exists>h \<in> set hs. normal_host h \<noteq> [] \<and>
          shard_holding (kc_gateway_name kc) (domain_listener_name sha (normal_host h)) (cl_gateways c) = Some n))"
proof -
  define sh where "sh h = (if normal_host h = [] then None
    else shard_holding (kc_gateway_name kc) (domain_listener_name sha (normal_host h)) (cl_gateways c))" for h
  have "shard_for_host kc sha h c = (Inr (sh h), c)" for h unfolding sh_def by (rule calm_lookup [OF assms])
  from shard_parents_complete [of hs "shard_for_host kc sha" c sh, OF this] obtain ns where ns:
    "shard_parents (shard_for_host kc sha) [kc_gateway_name kc] hs c = (ns, c)" "distinct ns"
    "set ns = {n. Some n \<in> sh ` set hs} - set [kc_gateway_name kc]"
    by blast
  have "Some n \<in> sh ` set hs \<longleftrightarrow> (\<exists>h \<in> set hs. normal_host h \<noteq> [] \<and>
      shard_holding (kc_gateway_name kc) (domain_listener_name sha (normal_host h)) (cl_gateways c) = Some n)" for n
  proof -
    have "Some n = sh h \<longleftrightarrow> normal_host h \<noteq> [] \<and>
        shard_holding (kc_gateway_name kc) (domain_listener_name sha (normal_host h)) (cl_gateways c) = Some n" for h
      by (cases "normal_host h = []") (auto simp: sh_def)
    then show ?thesis unfolding image_iff by blast
  qed
  then have "n \<in> set ns \<longleftrightarrow> n \<noteq> kc_gateway_name kc \<and> (\<exists>h \<in> set hs. normal_host h \<noteq> [] \<and>
      shard_holding (kc_gateway_name kc) (domain_listener_name sha (normal_host h)) (cl_gateways c) = Some n)" for n
    unfolding ns(3) by auto
  with ns(1,2) show ?thesis by blast
qed

section \<open>Failed runs are repeated\<close>

lemma always_fails:
  assumes "\<And>c. \<exists>e u. f c = (AttemptError e, u)"
  shows "\<exists>e t. retry_loop rnd (\<lambda>_ _. None) p (counted f) k left (s, n) = (RetryError e, t, n + Suc left)"
proof (induction left arbitrary: k s n)
  case 0
  obtain e u where "f s = (AttemptError e, u)" using assms by blast
  then show ?case by (simp add: counted_def)
next
  case (Suc left)
  obtain e u where "f s = (AttemptError e, u)" using assms by blast
  then show ?case using Suc.IH [of "Suc k" u "Suc n"] by (simp add: counted_def)
qed

text \<open>C33: every failed upgrade counts as transient: the error text of a run names its arguments, those of an
  upgrade name \<open>--timeout\<close>, and \<open>timeout\<close> marks a transient failure. A chart or a value that helm
  rejects is therefore tried as often as a lost connection.\<close>

theorem rejected_upgrade_is_repeated:
  assumes "\<And>args s. \<exists>out err stderr t. ex args s = ((out, Some (err, stderr)), t)"
  shows "\<exists>e t. retry_do rnd (\<lambda>_ _. None) default_policy
     (counted (helm_attempt (exec_helm_run ex) (upgrade_args rel chart ns file limit))) (s, 0) = (RetryError e, t, 3)"
proof -
  let ?f = "helm_attempt (exec_helm_run ex) (upgrade_args rel chart ns file limit)"
  have "\<exists>e u. ?f c = (AttemptError e, u)" for c
  proof -
    obtain out err stderr t where "ex (upgrade_args rel chart ns file limit) (fst c) = ((out, Some (err, stderr)), t)"
      using assms by blast
    then have r: "exec_helm_run ex (upgrade_args rel chart ns file limit) (fst c) =
        ((out, Some (''helm '' @ list_text (upgrade_args rel chart ns file limit) @ '': '' @ err @ '': '' @ stderr)), t)"
      by (simp add: exec_helm_run_def)
    from upgrade_errors_retryable [OF this] r show ?thesis by (simp add: helm_attempt_def)
  qed
  from always_fails [where rnd = rnd and p = default_policy and k = 0 and left = 2 and s = s and n = 0, OF this] show ?thesis
    by (simp add: retry_do_def default_policy_def)
qed

text \<open>a chart with an error in a template\<close>

theorem rejected_upgrade_is_repeated_witness:
  "\<exists>e t. retry_do (\<lambda>_ _. 0) (\<lambda>_ _. None) default_policy
     (counted (helm_attempt (exec_helm_run (\<lambda>args (s :: nat). (([], Some (''exit status 1'', ''parse error in template'')), s)))
       (upgrade_args ''web'' ''chart'' ''ns'' ''f.yaml'' default_helm_timeout))) ((0, []), 0) = (RetryError e, t, 3)"
  by (rule rejected_upgrade_is_repeated) simp

text \<open>Deleting a release that is gone succeeds.\<close>

lemma deleted_is_deleted:
  assumes "exec_helm_run ex (uninstall_args ns rel) s = ((out, Some (pre @ ''release: not found'' @ post)), t)"
  shows "delete_release (exec_helm_run ex) ns rel s = (Inr (), t)"
proof -
  let ?e = "pre @ ''release: not found'' @ post"
  have "to_lower ?e = to_lower pre @ to_lower ''release: not found'' @ to_lower post" by (simp add: to_lower_def)
  also have "to_lower ''release: not found'' = ''release: not found''" by code_simp
  finally have "is_helm_not_found ?e" unfolding is_helm_not_found_def by (simp only: contains_append)
  then show ?thesis unfolding delete_release_def assms by simp
qed

end
