(* ===== verification/Kube_Lifecycle.thy ===== *)
theory Kube_Lifecycle
  imports Kube_Api Kube_Fake Kube_Helm
begin

text \<open>
  Stopping, starting and watching a workload in the cluster (the lifecycle half of \<open>kube/kube.go\<close>
  and \<open>kube/metrics.go\<close>). A workload is a Deployment or a StatefulSet named after its release; a
  KEDA ScaledObject of the same name may scale it at any time, which is what the schedule of the
  cluster API stands for here.
\<close>

section \<open>Operations\<close>

text \<open>\<open>dynamic\<close>: a client for custom resources is configured.\<close>

definition pause_keda :: "bool \<Rightarrow> nsname \<Rightarrow> string \<Rightarrow> unit aop" where
  "pause_keda dynamic i n =
     (if \<not> dynamic then okE ()
      else tryE (patch_obj scaled_objects i (\<lambda>s. s\<lparr>so_paused := Some n\<rparr>))
             (\<lambda>e. if e = ANotFound then okE () else failE e) okE)"

definition resume_keda :: "bool \<Rightarrow> nsname \<Rightarrow> unit aop" where
  "resume_keda dynamic i =
     (if \<not> dynamic then okE ()
      else tryE (patch_obj scaled_objects i (\<lambda>s. s\<lparr>so_paused := None\<rparr>))
             (\<lambda>e. if e = ANotFound then okE () else failE e) okE)"

definition no_controller :: aerr where
  "no_controller = AOther ''no Deployment/StatefulSet''"

text \<open>The read-modify-write that \<open>scale\<close> and \<open>Restart\<close> share.\<close>

definition change_workload :: "nsname \<Rightarrow> (workload_obj \<Rightarrow> workload_obj) \<Rightarrow> unit aop" where
  "change_workload i f =
     tryE (get_obj deployments i)
       (\<lambda>e. if e \<noteq> ANotFound then failE e
            else tryE (get_obj stateful_sets i) (\<lambda>_. failE no_controller)
                   (\<lambda>w. update_obj stateful_sets i w (f w)))
       (\<lambda>w. update_obj deployments i w (f w))"

definition scale :: "nsname \<Rightarrow> int \<Rightarrow> unit aop" where
  "scale i n = on_conflict default_retry (change_workload i (\<lambda>w. w\<lparr>wo_replicas := n\<rparr>))"

definition set_restart_annotation :: "string \<Rightarrow> workload_obj \<Rightarrow> workload_obj" where
  "set_restart_annotation stamp w = w\<lparr>wo_restarted_at := Some stamp\<rparr>"

definition kube_restart :: "string \<Rightarrow> nsname \<Rightarrow> unit aop" where
  "kube_restart stamp i = on_conflict default_retry (change_workload i (set_restart_annotation stamp))"

definition kube_stop :: "bool \<Rightarrow> nsname \<Rightarrow> unit aop" where
  "kube_stop dynamic i = bindE (pause_keda dynamic i ''0'') (\<lambda>_. scale i 0)"

definition kube_start :: "bool \<Rightarrow> nsname \<Rightarrow> unit aop" where
  "kube_start dynamic i = bindE (resume_keda dynamic i) (\<lambda>_. scale i 1)"

definition kube_status :: "nsname \<Rightarrow> status aop" where
  "kube_status i =
     tryE (get_obj deployments i)
       (\<lambda>e. if e \<noteq> ANotFound then failE e
            else tryE (get_obj stateful_sets i)
                   (\<lambda>e. failE (if e \<noteq> ANotFound then e else no_controller))
                   (\<lambda>w. okE (status_from (wo_status_replicas w) (wo_ready_replicas w))))
       (\<lambda>w. okE (status_from (wo_status_replicas w) (wo_ready_replicas w)))"

definition first_pod :: "nsname \<Rightarrow> string aop" where
  "first_pod i =
     bindE (list_objs pods (\<lambda>j p. fst j = fst i \<and> gget (fst p) ''app.kubernetes.io/instance'' = Some (snd i))) (\<lambda>ps.
       case sort_by (<) (map (snd \<circ> fst) ps) of
         [] \<Rightarrow> failE (AOther ''no pods'')
       | n # ns \<Rightarrow> okE n)"

text \<open>\<open>tail k s\<close>: the last lines of a log, as the API cuts them.\<close>

definition kube_logs :: "(int \<Rightarrow> string \<Rightarrow> string) \<Rightarrow> nsname \<Rightarrow> int \<Rightarrow> string aop" where
  "kube_logs tail i lines =
     bindE (first_pod i) (\<lambda>n.
     bindE (get_obj pods (fst i, n)) (\<lambda>p. okE (if lines > 0 then tail lines (snd p) else snd p)))"

text \<open>
  The metrics server answers with the usage of each container of each pod, as far as it is given;
  \<open>milli\<close> and \<open>units\<close> read a quantity in thousandths and in whole units (\<open>resource.ParseQuantity\<close>).
\<close>

type_synonym usage_entry = "string option \<times> string option"

definition add_quantity :: "(string \<Rightarrow> int option) \<Rightarrow> string option \<Rightarrow> int \<Rightarrow> int" where
  "add_quantity read q n =
     (case q of None \<Rightarrow> n | Some s \<Rightarrow> (case read s of None \<Rightarrow> n | Some x \<Rightarrow> wrap64 (n + x)))"

fun add_container_usage :: "(string \<Rightarrow> int option) \<Rightarrow> (string \<Rightarrow> int option) \<Rightarrow> usage_entry list \<Rightarrow> pod_metric \<Rightarrow> pod_metric" where
  "add_container_usage milli units [] pm = pm"
| "add_container_usage milli units ((cpu, mem) # cs) pm =
     add_container_usage milli units cs
       (pm\<lparr>pm_cpu_millicores := add_quantity milli cpu (pm_cpu_millicores pm),
           pm_memory_bytes := add_quantity units mem (pm_memory_bytes pm)\<rparr>)"

definition parse_pod_metric ::
    "(string \<Rightarrow> int option) \<Rightarrow> (string \<Rightarrow> int option) \<Rightarrow> string \<times> usage_entry list \<Rightarrow> pod_metric" where
  "parse_pod_metric milli units u =
     add_container_usage milli units (snd u) \<lparr>pm_pod = fst u, pm_cpu_millicores = 0, pm_memory_bytes = 0\<rparr>"

definition is_no_match_error :: "string \<Rightarrow> bool" where
  "is_no_match_error msg =
     (let m = to_lower msg
      in contains m ''no matches for kind'' \<or> contains m ''could not find the requested resource'' \<or>
         contains m ''the server could not find the requested resource'')"

fun is_missing_api :: "aerr \<Rightarrow> bool" where
  "is_missing_api ANotFound = True"
| "is_missing_api (AOther msg) = is_no_match_error msg"
| "is_missing_api _ = False"

fun sum_pods :: "pod_metric list \<Rightarrow> workload_metrics \<Rightarrow> workload_metrics" where
  "sum_pods [] out = out"
| "sum_pods (pm # pms) out =
     sum_pods pms (out\<lparr>wm_pods := wm_pods out @ [pm],
        wm_cpu_millicores := wrap64 (wm_cpu_millicores out + pm_cpu_millicores pm),
        wm_memory_bytes := wrap64 (wm_memory_bytes out + pm_memory_bytes pm)\<rparr>)"

definition no_metrics :: "string \<Rightarrow> workload_metrics" where
  "no_metrics why = \<lparr>wm_available = False, wm_unavailable = why, wm_pods = [], wm_cpu_millicores = 0, wm_memory_bytes = 0\<rparr>"

definition kube_metrics ::
    "(string \<Rightarrow> int option) \<Rightarrow> (string \<Rightarrow> int option) \<Rightarrow> (nsname \<Rightarrow> (string \<times> usage_entry list) list aop) \<Rightarrow> bool \<Rightarrow>
     nsname \<Rightarrow> workload_metrics aop" where
  "kube_metrics milli units server dynamic i =
     (if \<not> dynamic then okE (no_metrics ''metrics-server not configured'')
      else tryE (server i)
             (\<lambda>e. if is_missing_api e then okE (no_metrics ''metrics-server unavailable'') else failE e)
             (\<lambda>us. okE (sum_pods (map (parse_pod_metric milli units) us)
                \<lparr>wm_available = True, wm_unavailable = [], wm_pods = [], wm_cpu_millicores = 0, wm_memory_bytes = 0\<rparr>)))"

section \<open>Under an autoscaler\<close>

text \<open>
  What the cluster does to the workload \<open>i\<close>: its objects stay, their statuses change, and KEDA
  sets the wanted replicas of one that has a ScaledObject: to anything, or to what it is paused at.
\<close>

definition may_scale :: "scaled_object option \<Rightarrow> int \<Rightarrow> int \<Rightarrow> bool" where
  "may_scale s n m \<longleftrightarrow>
     m = n \<or> (case s of None \<Rightarrow> False | Some so \<Rightarrow> (case so_paused so of None \<Rightarrow> True | Some p \<Rightarrow> atoi p = Some m))"

definition autoscale :: "nsname \<Rightarrow> objects \<Rightarrow> objects \<Rightarrow> bool" where
  "autoscale i b c \<longleftrightarrow>
     gget (ob_scaled c) i = gget (ob_scaled b) i \<and>
     rel_option (\<lambda>v w. may_scale (gget (ob_scaled b) i) (wo_replicas v) (wo_replicas w))
       (gget (ob_deployments b) i) (gget (ob_deployments c) i) \<and>
     rel_option (\<lambda>v w. may_scale (gget (ob_scaled b) i) (wo_replicas v) (wo_replicas w))
       (gget (ob_stateful_sets b) i) (gget (ob_stateful_sets c) i)"

definition autoscaled :: "nsname \<Rightarrow> kube \<Rightarrow> bool" where
  "autoscaled i k \<longleftrightarrow> (\<forall>(f, rest) \<in> set (kb_schedule k). \<forall>b. (autoscale i)\<^sup>*\<^sup>* b (rest b))"

text \<open>The wanted replicas, as the lifecycle operations look them up.\<close>

definition wanted :: "nsname \<Rightarrow> objects \<Rightarrow> int option" where
  "wanted i b =
     (case gget (ob_deployments b) i of
        Some w \<Rightarrow> Some (wo_replicas w)
      | None \<Rightarrow> map_option wo_replicas (gget (ob_stateful_sets b) i))"

definition held :: "nsname \<Rightarrow> string \<Rightarrow> objects \<Rightarrow> bool" where
  "held i n b \<longleftrightarrow> (case gget (ob_scaled b) i of None \<Rightarrow> True | Some s \<Rightarrow> so_paused s = Some n)"

lemma held_autoscale: "(autoscale i)\<^sup>*\<^sup>* b c \<Longrightarrow> held i n b \<Longrightarrow> held i n c"
  by (induction rule: rtranclp_induct) (simp_all add: autoscale_def held_def)

lemma env_autoscaled:
  assumes "autoscaled i k" "\<And>b c. (autoscale i)\<^sup>*\<^sup>* b c \<Longrightarrow> I b \<Longrightarrow> I c"
  shows "rest_keeps I k"
  unfolding rest_keeps_def
proof (clarify)
  fix f rest b assume "(f, rest) \<in> set (kb_schedule k)" "I b"
  then show "I (rest b)" using assms(1) assms(2) [of b "rest b"] unfolding autoscaled_def by blast
qed

lemma wanted_autoscale:
  assumes "(autoscale i)\<^sup>*\<^sup>* b c" "held i ''0'' b" "wanted i b = Some 0"
  shows "wanted i c = Some 0"
proof -
  have zero: "atoi ''0'' = Some 0" by code_simp
  have "held i ''0'' c \<and> wanted i c = Some 0"
    using assms
  proof (induction rule: rtranclp_induct)
    case (step c d)
    then have "held i ''0'' d" by (simp add: autoscale_def held_def)
    moreover have "wanted i d = Some 0"
      using step zero
      by (cases "gget (ob_deployments c) i"; cases "gget (ob_deployments d) i"; cases "gget (ob_stateful_sets c) i";
          cases "gget (ob_stateful_sets d) i")
        (auto simp: autoscale_def held_def wanted_def may_scale_def split: option.splits)
    ultimately show ?case by simp
  qed simp
  then show ?thesis by simp
qed

lemma none_autoscale: "(autoscale i)\<^sup>*\<^sup>* b c \<Longrightarrow> gget (ob_deployments b) i = None \<Longrightarrow> gget (ob_deployments c) i = None"
  by (induction rule: rtranclp_induct) (auto simp: autoscale_def)

lemma replicas_held:
  "held i p (b\<lparr>ob_deployments := d\<rparr>) = held i p b" "held i p (b\<lparr>ob_stateful_sets := d\<rparr>) = held i p b"
  by (simp_all add: held_def)

text \<open>No Deployment of that name appears.\<close>

definition no_deployment :: "nsname \<Rightarrow> objects \<Rightarrow> bool" where
  "no_deployment i b \<longleftrightarrow> gget (ob_deployments b) i = None"

text \<open>Once the workload is held, scaling it by a call that succeeded leaves it at that size.\<close>

lemma change_ok:
  assumes "change_workload i (\<lambda>w. w\<lparr>wo_replicas := n\<rparr>) k = (Inr x, t)" "holds_in (held i p) k" "rest_keeps (no_deployment i) k"
  shows "held i p (kb_objects t) \<and> wanted i (kb_objects t) = Some n"
  using assms(1) unfolding change_workload_def
proof (rule tryE_E)
  let ?f = "\<lambda>w. w\<lparr>wo_replicas := n\<rparr>"
  fix w u assume g: "get_obj deployments i k = (Inr w, u)" and up: "update_obj deployments i w (?f w) u = (Inr x, t)"
  from update_ok [OF up get_ok(2) [OF g assms(2)]] obtain b where "held i p b"
      "kb_objects t = snd deployments (gput i (?f w) (fst deployments b)) b"
    by blast
  then show ?thesis by (simp add: kinds replicas_held wanted_def)
next
  let ?f = "\<lambda>w. w\<lparr>wo_replicas := n\<rparr>"
  fix e u assume g: "get_obj deployments i k = (Inl e, u)"
    and r: "(if e \<noteq> ANotFound then failE e else tryE (get_obj stateful_sets i) (\<lambda>_. failE no_controller)
        (\<lambda>w. update_obj stateful_sets i w (?f w))) u = (Inr x, t)"
  have e: "e = ANotFound" using r by (cases "e = ANotFound") (simp_all add: failE_def)
  note m = get_missing [OF g [unfolded e] assms(2)]
  have "rest_keeps (no_deployment i) u" using keepsD [OF env_calls(1) assms(3), of deployments i] g by simp
  then have u: "holds_in (\<lambda>b. held i p b \<and> no_deployment i b) u"
    using m by (auto simp: holds_in_def rest_keeps_def no_deployment_def kinds)
  have "tryE (get_obj stateful_sets i) (\<lambda>_. failE no_controller) (\<lambda>w. update_obj stateful_sets i w (?f w)) u = (Inr x, t)"
    using r e by simp
  then show ?thesis
  proof (rule tryE_E)
    fix w v assume g: "get_obj stateful_sets i u = (Inr w, v)" and up: "update_obj stateful_sets i w (?f w) v = (Inr x, t)"
    from update_ok [OF up get_ok(2) [OF g u]] obtain b where "held i p b" "no_deployment i b"
        "kb_objects t = snd stateful_sets (gput i (?f w) (fst stateful_sets b)) b"
      by blast
    then show ?thesis by (simp add: kinds replicas_held wanted_def no_deployment_def)
  qed (simp add: failE_def)
qed

lemma change_keeps:
  assumes "\<And>b d. I (b\<lparr>ob_deployments := d\<rparr>) = I b" "\<And>b d. I (b\<lparr>ob_stateful_sets := d\<rparr>) = I b"
  shows "keeps (holds_in I) (change_workload i f)"
  unfolding change_workload_def
  by (intro keeps_try keeps_get keeps_update) (simp_all add: kinds assms keeps_fail keeps_try keeps_get keeps_update)

lemma change_env: "keeps (rest_keeps I) (change_workload i f)"
  unfolding change_workload_def
  by (intro keeps_try env_calls) (simp add: keeps_fail keeps_try env_calls)

lemma scale_ok:
  assumes "scale i n k = (Inr x, t)" "holds_in (held i p) k" "rest_keeps (no_deployment i) k"
  shows "held i p (kb_objects t) \<and> wanted i (kb_objects t) = Some n"
proof -
  let ?m = "change_workload i (\<lambda>w. w\<lparr>wo_replicas := n\<rparr>)"
  have "keeps (\<lambda>k. holds_in (held i p) k \<and> rest_keeps (no_deployment i) k) ?m"
    using change_keeps [where I = "held i p", OF replicas_held] change_env by (auto simp: keeps_def)
  from on_conflict_ok [OF assms(1) [unfolded scale_def] this] assms(2,3) obtain k1 where
    "holds_in (held i p) k1" "rest_keeps (no_deployment i) k1" "?m k1 = (Inr x, t)" by blast
  then show ?thesis by (intro change_ok)
qed

lemma pause_env: "keeps (rest_keeps I) (pause_keda True i n)"
  unfolding pause_keda_def by (simp add: keeps_try env_calls keeps_ok keeps_fail)

lemma pause_ok:
  assumes "pause_keda True i n k = (Inr y, t)" "autoscaled i k"
  shows "holds_in (held i n) t" and "rest_keeps (no_deployment i) t"
proof -
  let ?patch = "patch_obj scaled_objects i (\<lambda>s. s\<lparr>so_paused := Some n\<rparr>)"
  have none: "rest_keeps (no_deployment i) k"
    unfolding no_deployment_def by (rule env_autoscaled [OF assms(2) none_autoscale])
  have held: "rest_keeps (held i n) k" by (rule env_autoscaled [OF assms(2) held_autoscale])
  have any: "holds_in (\<lambda>_. True) k" by (simp add: holds_in_def rest_keeps_def)
  have envs: "rest_keeps I t" if "rest_keeps I k" for I using keepsD [OF pause_env [of I i n] that] assms(1) by simp
  show "rest_keeps (no_deployment i) t" by (rule envs) (rule none)
  obtain r where p: "?patch k = (r, t)" "r = Inl ANotFound \<or> r = Inr ()"
  proof -
    from assms(1) have "tryE ?patch (\<lambda>e. if e = ANotFound then okE () else failE e) okE k = (Inr y, t)"
      by (simp add: pause_keda_def)
    then show thesis
    proof (rule tryE_E)
      fix e u assume "?patch k = (Inl e, u)" "(if e = ANotFound then okE () else failE e) u = (Inr y, t)"
      then show thesis using that by (cases "e = ANotFound") (simp_all add: okE_def failE_def)
    next
      fix z u assume "?patch k = (Inr z, u)" "okE z u = (Inr y, t)"
      then show thesis using that by (simp add: okE_def)
    qed
  qed
  have "r \<noteq> Inl unreachable" using p(2) by (auto simp: unreachable_def)
  with call_answered [OF p(1) [unfolded patch_obj_def] any] obtain b where
    "(case gget (fst scaled_objects b) i of None \<Rightarrow> (Inl ANotFound, b)
      | Some w \<Rightarrow> (Inr (), snd scaled_objects (gput i (w\<lparr>so_paused := Some n\<rparr>) (fst scaled_objects b)) b)) = (r, kb_objects t)"
    by blast
  then have "kb_objects t = (case gget (ob_scaled b) i of None \<Rightarrow> b
      | Some w \<Rightarrow> b\<lparr>ob_scaled := gput i (w\<lparr>so_paused := Some n\<rparr>) (ob_scaled b)\<rparr>)"
    by (cases "gget (ob_scaled b) i") (simp_all add: kinds)
  then have "held i n (kb_objects t)" by (cases "gget (ob_scaled b) i") (simp_all add: held_def)
  then show "holds_in (held i n) t" using envs [OF held] by (simp add: holds_in_def)
qed

text \<open>C9: a stopped workload stays stopped: once \<open>Stop\<close> has succeeded, the wanted replicas are zero and
  remain so whatever the autoscaler does, also when it interfered during the stop, calls were lost
  or updates had to be repeated.\<close>

theorem stop_holds:
  assumes "kube_stop True i k = (Inr x, t)" "autoscaled i k" "(autoscale i)\<^sup>*\<^sup>* (kb_objects t) c"
  shows "wanted i c = Some 0"
proof -
  obtain y k1 where p: "pause_keda True i ''0'' k = (Inr y, k1)" and s: "scale i 0 k1 = (Inr x, t)"
    using assms(1) unfolding kube_stop_def by (rule bindE_InrE)
  from scale_ok [OF s pause_ok [OF p assms(2)]] show ?thesis using wanted_autoscale [OF assms(3)] by blast
qed

text \<open>An app scaled by KEDA that runs three replicas, and what KEDA does while it is being stopped.\<close>

definition busy :: objects where
  "busy = no_objects\<lparr>ob_deployments := [((''ns'', ''web''), \<lparr>wo_replicas = 3, wo_restarted_at = None, wo_status_replicas = 3,
     wo_ready_replicas = 3\<rparr>)], ob_scaled := [((''ns'', ''web''), \<lparr>so_paused = None\<rparr>)]\<rparr>"

theorem stop_holds_witness:
  "\<exists>t. kube_stop True (''ns'', ''web'') \<lparr>kb_objects = busy, kb_schedule = []\<rparr> = (Inr (), t) \<and>
     wanted (''ns'', ''web'') (kb_objects t) = Some 0"
proof -
  let ?k = "\<lparr>kb_objects = busy, kb_schedule = []\<rparr>" and ?i = "(''ns'', ''web'')"
  have "fst (kube_stop True ?i ?k) = Inr ()" by code_simp
  then obtain t where t: "kube_stop True ?i ?k = (Inr (), t)" by (metis prod.collapse)
  from stop_holds [OF t _ rtranclp.rtrancl_refl] t show ?thesis by (auto simp: autoscaled_def)
qed

text \<open>without a client for custom resources the pause is skipped, and KEDA brings the workload back.\<close>

theorem unpaused_stop_is_undone:
  "case kube_stop False (''ns'', ''web'') \<lparr>kb_objects = busy, kb_schedule = []\<rparr> of (r, t) \<Rightarrow>
     r = Inr () \<and> wanted (''ns'', ''web'') (kb_objects t) = Some 0 \<and>
     may_scale (gget (ob_scaled (kb_objects t)) (''ns'', ''web'')) 0 3"
  by code_simp

text \<open>what \<open>Stop\<close> wrote into the ScaledObject outlives a new deployment: only \<open>Start\<close> takes the pause
  away, and an upgrade of the release leaves annotations alone that are not its own. After a stop
  and an upgrade, whatever replicas it asks for, the autoscaler sets the workload to zero again.\<close>

theorem redeployed_app_stays_paused:
  assumes "kube_stop True i k = (Inr x, t)" "autoscaled i k"
    and "gget (ob_scaled (upgrade (kb_objects t))) i = gget (ob_scaled (kb_objects t)) i"
    and "gget (ob_scaled (kb_objects t)) i \<noteq> None"
    and "(autoscale i)\<^sup>*\<^sup>* (upgrade (kb_objects t)) c"
  shows "held i ''0'' c \<and> may_scale (gget (ob_scaled c) i) n 0 \<and> (may_scale (gget (ob_scaled c) i) n m \<longrightarrow> m = n \<or> m = 0)"
proof -
  obtain y k1 where p: "pause_keda True i ''0'' k = (Inr y, k1)" and s: "scale i 0 k1 = (Inr x, t)"
    using assms(1) unfolding kube_stop_def by (rule bindE_InrE)
  have zero: "atoi ''0'' = Some 0" by code_simp
  have "held i ''0'' (kb_objects t)" using scale_ok [OF s pause_ok [OF p assms(2)]] by simp
  then have "held i ''0'' (upgrade (kb_objects t))" using assms(3) by (simp add: held_def)
  then have c: "held i ''0'' c" by (rule held_autoscale [OF assms(5)])
  have "gget (ob_scaled c) i = gget (ob_scaled (upgrade (kb_objects t))) i"
    using assms(5) by (induction rule: rtranclp_induct) (simp_all add: autoscale_def)
  then obtain so where "gget (ob_scaled c) i = Some so" "so_paused so = Some ''0''"
    using c assms(3,4) by (auto simp: held_def split: option.splits)
  then show ?thesis using c zero by (simp add: may_scale_def)
qed

text \<open>the upgrade asks for three replicas again\<close>

definition raise :: "objects \<Rightarrow> objects" where
  "raise b = b\<lparr>ob_deployments := gmap (\<lambda>w. w\<lparr>wo_replicas := 3\<rparr>) (ob_deployments b)\<rparr>"

theorem redeployed_app_stays_paused_witness:
  "\<exists>t. kube_stop True (''ns'', ''web'') \<lparr>kb_objects = busy, kb_schedule = []\<rparr> = (Inr (), t) \<and>
     may_scale (gget (ob_scaled (raise (kb_objects t))) (''ns'', ''web'')) 3 0 \<and>
     \<not> may_scale (gget (ob_scaled (raise (kb_objects t))) (''ns'', ''web'')) 3 2"
proof -
  let ?k = "\<lparr>kb_objects = busy, kb_schedule = []\<rparr>" and ?i = "(''ns'', ''web'')"
  have f: "fst (kube_stop True ?i ?k) = Inr ()" "gget (ob_scaled (kb_objects (snd (kube_stop True ?i ?k)))) ?i \<noteq> None"
    by code_simp+
  then obtain t where t: "kube_stop True ?i ?k = (Inr (), t)" by (metis prod.collapse)
  have "autoscaled ?i ?k" by (simp add: autoscaled_def)
  from redeployed_app_stays_paused [OF t this, of raise, OF _ _ rtranclp.rtrancl_refl, of 3]
  have "may_scale (gget (ob_scaled (raise (kb_objects t))) ?i) 3 0 \<and>
      (may_scale (gget (ob_scaled (raise (kb_objects t))) ?i) 3 m \<longrightarrow> m = 3 \<or> m = 0)" for m
    using f(2) t by (simp add: raise_def)
  from this [of 2] show ?thesis using t by auto
qed

end
