(* ===== verification/Kube_Tenant.thy ===== *)
theory Kube_Tenant
  imports Kube_Api
begin

text \<open>
  The namespace of a tenant and what isolates it (\<open>EnsureTenant\<close> of \<open>kube/kube.go\<close> with the quota,
  limits, ServiceAccount and NetworkPolicy it installs), and the Secrets copied into it. What a
  NetworkPolicy lets through is read off the rendered object by the rules of Kubernetes.
\<close>

section \<open>Rendered objects\<close>

definition managed :: "(string, string) gomap" where
  "managed = [(''app.kubernetes.io/managed-by'', ''vortex'')]"

definition tenant_namespace :: "string \<Rightarrow> string \<Rightarrow> namespace_obj" where
  "tenant_namespace g_slug p_slug =
     \<lparr>no_labels = managed @ [(''vortex.io/org'', sanitize g_slug), (''vortex.io/project'', sanitize p_slug)],
      no_active = False\<rparr>"

definition tenant_quota :: "quota \<Rightarrow> resource_quota" where
  "tenant_quota q =
     \<lparr>rq_limits_cpu = milli_cpu (q_max_cpu q), rq_limits_memory = mib (q_max_memory_mb q), rq_pods = q_max_apps q\<rparr>"

text \<open>\<open>int(x)\<close> of a float cuts towards zero.\<close>

definition cut :: "real \<Rightarrow> int" where
  "cut x = (if x < 0 then \<lceil>x\<rceil> else \<lfloor>x\<rfloor>)"

definition tenant_limits :: "kube_conf \<Rightarrow> quota \<Rightarrow> limit_range" where
  "tenant_limits kc q =
     (let def_cpu = (if q_default_cpu q \<le> 0 then 1 / 10 else q_default_cpu q);
          def_mem = (if q_default_memory_mb q \<le> 0 then 128 else q_default_memory_mb q);
          cpu_factor = (if q_cpu_factor q \<le> 0 then kc_cpu_factor kc else q_cpu_factor q);
          mem_factor = (if q_memory_factor q \<le> 0 then kc_memory_factor kc else q_memory_factor q)
      in \<lparr>lr_cpu = milli_cpu def_cpu, lr_memory = mib def_mem, lr_request_cpu = milli_cpu (def_cpu * cpu_factor),
          lr_request_memory = mib (cut (of_int def_mem * mem_factor))\<rparr>)"

definition private_blocks :: "string list" where
  "private_blocks = [''10.0.0.0/8'', ''172.16.0.0/12'', ''192.168.0.0/16'']"

definition tenant_policy :: "kube_conf \<Rightarrow> network_policy" where
  "tenant_policy kc =
     \<lparr>np_selector = AllPods,
      np_ingress = Some (PodsHere # (if kc_gateway_namespace kc \<noteq> [] then [NamespaceNamed (kc_gateway_namespace kc)] else [])),
      np_egress = Some
        [\<lparr>eg_to = [], eg_ports = [(UDP, 53), (TCP, 53)]\<rparr>,
         \<lparr>eg_to = [PodsHere], eg_ports = []\<rparr>,
         \<lparr>eg_to = [IpBlock ''0.0.0.0/0'' private_blocks], eg_ports = []\<rparr>]\<rparr>"

section \<open>EnsureTenant\<close>

text \<open>\<open>wait.PollUntilContextTimeout\<close>: \<open>n\<close> is the number of polls before the timeout.\<close>

fun wait_namespace_active :: "nat \<Rightarrow> string \<Rightarrow> unit aop" where
  "wait_namespace_active 0 ns = failE ATimeout"
| "wait_namespace_active (Suc n) ns =
     tryE (get_obj namespaces ns)
       (\<lambda>e. if e = ANotFound then wait_namespace_active n ns else failE e)
       (\<lambda>x. if no_active x then okE () else wait_namespace_active n ns)"

definition apply_resource_quota :: "string \<Rightarrow> quota \<Rightarrow> unit aop" where
  "apply_resource_quota ns q = upsert_obj quotas (ns, ''vortex-quota'') (tenant_quota q) (\<lambda>_. tenant_quota q)"

definition apply_limit_range :: "kube_conf \<Rightarrow> string \<Rightarrow> quota \<Rightarrow> unit aop" where
  "apply_limit_range kc ns q = upsert_obj limit_ranges (ns, ''vortex-limits'') (tenant_limits kc q) (\<lambda>_. tenant_limits kc q)"

text \<open>Of a ServiceAccount only whether its token is mounted is kept.\<close>

definition ensure_service_account :: "string \<Rightarrow> unit aop" where
  "ensure_service_account ns = upsert_obj accounts (ns, tenant_service_account) False (\<lambda>_. False)"

definition ensure_network_policy :: "kube_conf \<Rightarrow> string \<Rightarrow> unit aop" where
  "ensure_network_policy kc ns =
     upsert_obj policies (ns, ''vortex-tenant-isolation'') (tenant_policy kc) (\<lambda>_. tenant_policy kc)"

definition ensure_tenant :: "kube_conf \<Rightarrow> nat \<Rightarrow> string \<Rightarrow> string \<Rightarrow> quota \<Rightarrow> string aop" where
  "ensure_tenant kc polls g_slug p_slug q =
     (let ns = namespace_name g_slug p_slug
      in bindE (tryE (create_obj namespaces ns (tenant_namespace g_slug p_slug))
                  (\<lambda>e. if e = AExists then okE () else failE e) okE) (\<lambda>_.
         bindE (wait_namespace_active polls ns) (\<lambda>_.
         bindE (apply_resource_quota ns q) (\<lambda>_.
         bindE (apply_limit_range kc ns q) (\<lambda>_.
         bindE (ensure_service_account ns) (\<lambda>_.
         bindE (ensure_network_policy kc ns) (\<lambda>_.
           okE ns)))))))"

section \<open>Secrets\<close>

text \<open>Writing \<open>StringData\<close> over emptied \<open>Data\<close> leaves exactly the new entries.\<close>

definition opaque :: "(string, string) gomap \<Rightarrow> secret_obj" where
  "opaque d = \<lparr>sc_type = ''Opaque'', sc_data = d\<rparr>"

definition ensure_app_secret :: "string \<Rightarrow> string \<Rightarrow> (string, string) gomap \<Rightarrow> unit aop" where
  "ensure_app_secret ns name d =
     (if name = [] then okE ()
      else if d = [] then
        tryE (delete_obj secrets (ns, name)) (\<lambda>e. if e = ANotFound then okE () else failE e) okE
      else upsert_obj secrets (ns, name) (opaque d) (\<lambda>_. opaque d))"

definition docker_config_key :: string where
  "docker_config_key = ''.dockerconfigjson''"

definition ensure_image_pull_secret :: "string \<Rightarrow> string \<Rightarrow> string \<Rightarrow> string \<Rightarrow> unit aop" where
  "ensure_image_pull_secret src_ns src ns name =
     (if src = [] \<or> name = [] then okE ()
      else bindE (get_obj secrets (if src_ns = [] then ''vortex'' else src_ns, src)) (\<lambda>s.
        case gget (sc_data s) docker_config_key of
          None \<Rightarrow> failE (AOther ''source pull secret incomplete'')
        | Some c \<Rightarrow>
            if c = [] then failE (AOther ''source pull secret incomplete'')
            else let sec = \<lparr>sc_type = ''kubernetes.io/dockerconfigjson'', sc_data = [(docker_config_key, c)]\<rparr>
                 in upsert_obj secrets (ns, name) sec (\<lambda>_. sec)))"

section \<open>What a policy lets through\<close>

text \<open>An IPv4 address is a number below \<open>2 ^ 32\<close>; a pod is known by its namespace.\<close>

record endpoint =
  ep_namespace :: "string option"
  ep_address :: int

definition address :: "string \<Rightarrow> int option" where
  "address s =
     (case map atoi (split_char (CHR ''.'') s) of
        [Some a, Some b, Some c, Some d] \<Rightarrow> Some (((a * 256 + b) * 256 + c) * 256 + d)
      | _ \<Rightarrow> None)"

definition in_block :: "string \<Rightarrow> int \<Rightarrow> bool" where
  "in_block block x =
     (case split_char (CHR ''/'') block of
        [net, bits] \<Rightarrow>
          (case (address net, atoi bits) of
             (Some a, Some n) \<Rightarrow> x div 2 ^ nat (32 - n) = a div 2 ^ nat (32 - n)
           | _ \<Rightarrow> False)
      | _ \<Rightarrow> False)"

fun peer_matches :: "string \<Rightarrow> net_peer \<Rightarrow> endpoint \<Rightarrow> bool" where
  "peer_matches ns PodsHere d \<longleftrightarrow> ep_namespace d = Some ns"
| "peer_matches ns (NamespaceNamed n) d \<longleftrightarrow> ep_namespace d = Some n"
| "peer_matches ns (IpBlock b except) d \<longleftrightarrow> in_block b (ep_address d) \<and> \<not> list_ex (\<lambda>e. in_block e (ep_address d)) except"

definition egress_allowed :: "string \<Rightarrow> network_policy \<Rightarrow> endpoint \<Rightarrow> protocol \<Rightarrow> int \<Rightarrow> bool" where
  "egress_allowed ns np d proto port =
     (case np_egress np of
        None \<Rightarrow> True
      | Some rules \<Rightarrow> list_ex (\<lambda>r. (eg_to r = [] \<or> list_ex (\<lambda>p. peer_matches ns p d) (eg_to r)) \<and>
                                  (eg_ports r = [] \<or> (proto, port) \<in> set (eg_ports r))) rules)"

definition ingress_allowed :: "string \<Rightarrow> network_policy \<Rightarrow> endpoint \<Rightarrow> bool" where
  "ingress_allowed ns np d = (case np_ingress np of None \<Rightarrow> True | Some ps \<Rightarrow> list_ex (\<lambda>p. peer_matches ns p d) ps)"

definition private_address :: "int \<Rightarrow> bool" where
  "private_address x \<longleftrightarrow> x div 2 ^ 24 = 10 \<or> x div 2 ^ 20 = 172 * 16 + 1 \<or> x div 2 ^ 16 = 192 * 256 + 168"

lemma blocks:
  "0 \<le> x \<Longrightarrow> x < 2 ^ 32 \<Longrightarrow> in_block ''0.0.0.0/0'' x"
  "in_block ''10.0.0.0/8'' x \<longleftrightarrow> x div 2 ^ 24 = 10"
  "in_block ''172.16.0.0/12'' x \<longleftrightarrow> x div 2 ^ 20 = 172 * 16 + 1"
  "in_block ''192.168.0.0/16'' x \<longleftrightarrow> x div 2 ^ 16 = 192 * 256 + 168"
proof -
  have p: "split_char (CHR ''/'') ''0.0.0.0/0'' = [''0.0.0.0'', ''0'']" "split_char (CHR ''/'') ''10.0.0.0/8'' = [''10.0.0.0'', ''8'']"
    "split_char (CHR ''/'') ''172.16.0.0/12'' = [''172.16.0.0'', ''12'']"
    "split_char (CHR ''/'') ''192.168.0.0/16'' = [''192.168.0.0'', ''16'']" by code_simp+
  have a: "address ''0.0.0.0'' = Some 0" "address ''10.0.0.0'' = Some 167772160" "address ''172.16.0.0'' = Some 2886729728"
    "address ''192.168.0.0'' = Some 3232235520" by code_simp+
  have n: "atoi ''0'' = Some 0" "atoi ''8'' = Some 8" "atoi ''12'' = Some 12" "atoi ''16'' = Some 16" by code_simp+
  show "0 \<le> x \<Longrightarrow> x < 2 ^ 32 \<Longrightarrow> in_block ''0.0.0.0/0'' x" by (simp add: in_block_def p a n div_pos_pos_trivial)
  show "in_block ''10.0.0.0/8'' x \<longleftrightarrow> x div 2 ^ 24 = 10" by (simp add: in_block_def p a n)
  show "in_block ''172.16.0.0/12'' x \<longleftrightarrow> x div 2 ^ 20 = 172 * 16 + 1" by (simp add: in_block_def p a n)
  show "in_block ''192.168.0.0/16'' x \<longleftrightarrow> x div 2 ^ 16 = 192 * 256 + 168" by (simp add: in_block_def p a n)
qed

lemma tenant_egress:
  assumes "0 \<le> ep_address d" "ep_address d < 2 ^ 32"
  shows "egress_allowed ns (tenant_policy kc) d proto port \<longleftrightarrow>
    port = 53 \<or> ep_namespace d = Some ns \<or> \<not> private_address (ep_address d)"
  using blocks(1) [OF assms]
  by (cases proto) (auto simp: egress_allowed_def tenant_policy_def private_blocks_def private_address_def blocks(2-4))

section \<open>A tenant is set up\<close>

text \<open>The rest of the cluster leaves what belongs to the namespace \<open>ns\<close> alone, except for activating it.\<close>

definition leaves :: "string \<Rightarrow> objects \<Rightarrow> objects \<Rightarrow> bool" where
  "leaves ns b c \<longleftrightarrow>
     (\<forall>x. gget (ob_namespaces b) ns = Some x \<longrightarrow> (\<exists>y. gget (ob_namespaces c) ns = Some y \<and> (no_active x \<longrightarrow> no_active y))) \<and>
     (\<forall>n. gget (ob_quotas c) (ns, n) = gget (ob_quotas b) (ns, n) \<and> gget (ob_limits c) (ns, n) = gget (ob_limits b) (ns, n) \<and>
          gget (ob_accounts c) (ns, n) = gget (ob_accounts b) (ns, n) \<and> gget (ob_policies c) (ns, n) = gget (ob_policies b) (ns, n))"

definition left_alone :: "string \<Rightarrow> kube \<Rightarrow> bool" where
  "left_alone ns k \<longleftrightarrow> (\<forall>(f, rest) \<in> set (kb_schedule k). \<forall>b. leaves ns b (rest b))"

definition active :: "string \<Rightarrow> objects \<Rightarrow> bool" where
  "active ns b \<longleftrightarrow> (\<exists>x. gget (ob_namespaces b) ns = Some x \<and> no_active x)"

lemma left_alone_call: "keeps (left_alone ns) (call m)"
  unfolding keeps_def
proof (intro allI impI)
  fix k assume k: "left_alone ns k"
  obtain r t where c: "call m k = (r, t)" by (metis surj_pair)
  then have "left_alone ns t" using k by (cases rule: call_cases) (auto simp: left_alone_def)
  then show "left_alone ns (snd (call m k))" using c by simp
qed

lemma create_left_alone: "keeps (left_alone ns) (create_obj kd i v)"
  unfolding create_obj_def by (rule left_alone_call)

lemma get_left_alone: "keeps (left_alone ns) (get_obj kd i)"
  unfolding get_obj_def by (rule left_alone_call)

lemma update_left_alone: "keeps (left_alone ns) (update_obj kd i c v)"
  unfolding update_obj_def by (rule left_alone_call)

lemma upsert_left_alone: "keeps (left_alone ns) (upsert_obj kd i v f)"
  unfolding upsert_obj_def
  by (rule keeps_try) (simp_all add: create_left_alone keeps_fail keeps_ok keeps_bind get_left_alone update_left_alone)

text \<open>Facts of the namespace are carried along by the rest of the cluster.\<close>

lemma env_leaves:
  assumes "left_alone ns k" "\<And>b c. leaves ns b c \<Longrightarrow> I b \<Longrightarrow> I c"
  shows "rest_keeps I k"
  unfolding rest_keeps_def
proof (clarify)
  fix f rest b assume "(f, rest) \<in> set (kb_schedule k)" "I b"
  then show "I (rest b)" using assms(1) assms(2) [of b "rest b"] unfolding left_alone_def by blast
qed

lemma upsert_step:
  assumes "upsert_obj kd i v (\<lambda>_. v) k = (Inr x, t)" "left_alone ns k" "I (kb_objects k)"
    and "\<And>b c. leaves ns b c \<Longrightarrow> I b \<Longrightarrow> I c"
    and put: "\<And>b. I b \<Longrightarrow> I (snd kd (gput i v (fst kd b)) b)" "\<And>b. F (snd kd (gput i v (fst kd b)) b)"
  shows "left_alone ns t \<and> I (kb_objects t) \<and> F (kb_objects t)"
proof -
  have "rest_keeps I k" using assms(2,4) by (rule env_leaves)
  then have "holds_in I k" using assms(3) by (simp add: holds_in_def)
  from upsert_ok [OF assms(1) this put(1)] obtain b where "I b" "kb_objects t = snd kd (gput i v (fst kd b)) b" by blast
  moreover have "left_alone ns t" using keepsD [OF upsert_left_alone assms(2), of kd i v "\<lambda>_. v"] assms(1) by simp
  ultimately show ?thesis using put by simp
qed

lemma waited:
  assumes "wait_namespace_active n ns k = (Inr x, t)" "left_alone ns k"
  shows "left_alone ns t \<and> active ns (kb_objects t)"
  using assms
proof (induction n arbitrary: k)
  case 0
  then show ?case by (simp add: failE_def)
next
  case (Suc n)
  from Suc.prems(1) show ?case
    unfolding wait_namespace_active.simps
  proof (rule tryE_E)
    fix e u assume g: "get_obj namespaces ns k = (Inl e, u)"
      and r: "(if e = ANotFound then wait_namespace_active n ns else failE e) u = (Inr x, t)"
    have "left_alone ns u" using keepsD [OF get_left_alone Suc.prems(2), of namespaces ns] g by simp
    moreover have "wait_namespace_active n ns u = (Inr x, t)" using r by (cases "e = ANotFound") (simp_all add: failE_def)
    ultimately show ?thesis using Suc.IH by blast
  next
    fix w u assume g: "get_obj namespaces ns k = (Inr w, u)"
      and r: "(if no_active w then okE () else wait_namespace_active n ns) u = (Inr x, t)"
    have u: "left_alone ns u" using keepsD [OF get_left_alone Suc.prems(2), of namespaces ns] g by simp
    have "holds_in (\<lambda>_. True) k" by (simp add: holds_in_def rest_keeps_def)
    note got = get_ok(1) [OF g this]
    show ?thesis
    proof (cases "no_active w")
      case True
      then show ?thesis using r u got by (simp add: okE_def active_def kinds)
    next
      case False
      then show ?thesis using r u Suc.IH by simp
    qed
  qed
qed

lemma leaves_active: "leaves ns b c \<Longrightarrow> active ns b \<Longrightarrow> active ns c"
  unfolding leaves_def active_def by blast

lemma leaves_rows:
  assumes "leaves ns b c"
  shows "gget (ob_quotas c) (ns, n) = gget (ob_quotas b) (ns, n)" "gget (ob_limits c) (ns, n) = gget (ob_limits b) (ns, n)"
    "gget (ob_accounts c) (ns, n) = gget (ob_accounts b) (ns, n)" "gget (ob_policies c) (ns, n) = gget (ob_policies b) (ns, n)"
  using assms unfolding leaves_def by blast+

text \<open>What has been installed after the namespace is active.\<close>

definition installed :: "kube_conf \<Rightarrow> quota \<Rightarrow> string \<Rightarrow> objects \<Rightarrow> bool" where
  "installed kc q ns b \<longleftrightarrow>
     active ns b \<and> gget (ob_quotas b) (ns, ''vortex-quota'') = Some (tenant_quota q) \<and>
     gget (ob_limits b) (ns, ''vortex-limits'') = Some (tenant_limits kc q) \<and>
     gget (ob_accounts b) (ns, tenant_service_account) = Some False \<and>
     gget (ob_policies b) (ns, ''vortex-tenant-isolation'') = Some (tenant_policy kc)"

lemma ensured:
  assumes "ensure_tenant kc polls g_slug p_slug q k = (Inr ns, t)" "left_alone ns k"
  shows "ns = namespace_name g_slug p_slug \<and> installed kc q ns (kb_objects t)"
proof -
  let ?ns = "namespace_name g_slug p_slug"
  from assms(1) have "\<exists>u1 k1 u2 k2 u3 k3 u4 k4 u5 k5 u6 k6.
      tryE (create_obj namespaces ?ns (tenant_namespace g_slug p_slug)) (\<lambda>e. if e = AExists then okE () else failE e) okE k =
        (Inr u1, k1) \<and>
      wait_namespace_active polls ?ns k1 = (Inr u2, k2) \<and> apply_resource_quota ?ns q k2 = (Inr u3, k3) \<and>
      apply_limit_range kc ?ns q k3 = (Inr u4, k4) \<and> ensure_service_account ?ns k4 = (Inr u5, k5) \<and>
      ensure_network_policy kc ?ns k5 = (Inr u6, k6) \<and> (okE ?ns :: string aop) k6 = (Inr ns, t)"
    unfolding ensure_tenant_def Let_def by (elim bindE_InrE) (intro exI conjI, assumption+)
  then obtain u1 k1 u2 k2 u3 k3 u4 k4 u5 k5 u6 k6 where
      s1: "tryE (create_obj namespaces ?ns (tenant_namespace g_slug p_slug)) (\<lambda>e. if e = AExists then okE () else failE e) okE k =
        (Inr u1, k1)"
      and s2: "wait_namespace_active polls ?ns k1 = (Inr u2, k2)" and s3: "apply_resource_quota ?ns q k2 = (Inr u3, k3)"
      and s4: "apply_limit_range kc ?ns q k3 = (Inr u4, k4)" and s5: "ensure_service_account ?ns k4 = (Inr u5, k5)"
      and s6: "ensure_network_policy kc ?ns k5 = (Inr u6, k6)" and "(okE ?ns :: string aop) k6 = (Inr ns, t)"
    by (elim exE conjE)
  then have ns: "ns = ?ns" and t: "t = k6" by (simp_all add: okE_def)
  have "keeps (left_alone ns) (tryE (create_obj namespaces ?ns (tenant_namespace g_slug p_slug))
      (\<lambda>e. if e = AExists then okE () else failE e) okE)"
    by (rule keeps_try) (simp_all add: create_left_alone keeps_ok keeps_fail)
  from keepsD [OF this assms(2)] s1 have k1: "left_alone ns k1" by simp
  from waited [OF s2 [folded ns] k1] have k2: "left_alone ns k2" "active ns (kb_objects k2)" by simp_all
  let ?q = "\<lambda>b. gget (ob_quotas b) (ns, ''vortex-quota'') = Some (tenant_quota q)"
  let ?l = "\<lambda>b. gget (ob_limits b) (ns, ''vortex-limits'') = Some (tenant_limits kc q)"
  let ?a = "\<lambda>b. gget (ob_accounts b) (ns, tenant_service_account) = Some False"
  let ?p = "\<lambda>b. gget (ob_policies b) (ns, ''vortex-tenant-isolation'') = Some (tenant_policy kc)"
  have k3: "left_alone ns k3 \<and> active ns (kb_objects k3) \<and> ?q (kb_objects k3)"
    by (rule upsert_step [where I = "active ns", OF s3 [folded ns, unfolded apply_resource_quota_def] k2 leaves_active])
      (simp_all add: kinds active_def)
  have k4: "left_alone ns k4 \<and> (active ns (kb_objects k4) \<and> ?q (kb_objects k4)) \<and> ?l (kb_objects k4)"
    by (rule upsert_step [where I = "\<lambda>b. active ns b \<and> ?q b", OF s4 [folded ns, unfolded apply_limit_range_def]])
      (use k3 in \<open>simp_all add: kinds active_def leaves_rows leaves_active [unfolded active_def]\<close>)
  have k5: "left_alone ns k5 \<and> (active ns (kb_objects k5) \<and> ?q (kb_objects k5) \<and> ?l (kb_objects k5)) \<and> ?a (kb_objects k5)"
    by (rule upsert_step [where I = "\<lambda>b. active ns b \<and> ?q b \<and> ?l b", OF s5 [folded ns, unfolded ensure_service_account_def]])
      (use k4 in \<open>simp_all add: kinds active_def leaves_rows leaves_active [unfolded active_def]\<close>)
  have "left_alone ns k6 \<and> (active ns (kb_objects k6) \<and> ?q (kb_objects k6) \<and> ?l (kb_objects k6) \<and> ?a (kb_objects k6)) \<and>
      ?p (kb_objects k6)"
    by (rule upsert_step [where I = "\<lambda>b. active ns b \<and> ?q b \<and> ?l b \<and> ?a b", OF s6 [folded ns, unfolded ensure_network_policy_def]])
      (use k5 in \<open>simp_all add: kinds active_def leaves_rows leaves_active [unfolded active_def]\<close>)
  then show ?thesis using t ns by (simp add: installed_def)
qed

text \<open>C8: a tenant that was set up is fenced in: when \<open>EnsureTenant\<close> succeeds, whatever calls were lost,
  repeated or interfered with on the way, its namespace is active with its quota and its limits, its
  workloads run under an account without a token, are reached only from its own namespace and the
  shared Gateways, and reach beyond it nothing but DNS and addresses outside the private ranges.\<close>

theorem tenant_secured:
  assumes "ensure_tenant kc polls g_slug p_slug q k = (Inr ns, t)" "left_alone ns k"
    and "0 \<le> ep_address d" "ep_address d < 2 ^ 32"
  shows "ns = namespace_name g_slug p_slug \<and> active ns (kb_objects t) \<and>
     gget (ob_quotas (kb_objects t)) (ns, ''vortex-quota'') = Some (tenant_quota q) \<and>
     gget (ob_limits (kb_objects t)) (ns, ''vortex-limits'') = Some (tenant_limits kc q) \<and>
     gget (ob_accounts (kb_objects t)) (ns, tenant_service_account) = Some False \<and>
     (\<exists>np. gget (ob_policies (kb_objects t)) (ns, ''vortex-tenant-isolation'') = Some np \<and>
        (egress_allowed ns np d proto port \<longleftrightarrow> port = 53 \<or> ep_namespace d = Some ns \<or> \<not> private_address (ep_address d)) \<and>
        (ingress_allowed ns np d \<longleftrightarrow>
           ep_namespace d = Some ns \<or> kc_gateway_namespace kc \<noteq> [] \<and> ep_namespace d = Some (kc_gateway_namespace kc)))"
proof -
  have "ingress_allowed ns (tenant_policy kc) d \<longleftrightarrow>
      ep_namespace d = Some ns \<or> kc_gateway_namespace kc \<noteq> [] \<and> ep_namespace d = Some (kc_gateway_namespace kc)"
    by (auto simp: ingress_allowed_def tenant_policy_def)
  then show ?thesis using ensured [OF assms(1,2)] tenant_egress [OF assms(3,4)] by (auto simp: installed_def)
qed

text \<open>A first tenant, whose namespace becomes active after it was read once.\<close>

definition sample_quota :: quota where
  "sample_quota = \<lparr>q_max_cpu = 2, q_max_memory_mb = 4096, q_max_apps = 5, q_default_cpu = 0, q_default_memory_mb = 0,
     q_cpu_factor = 0, q_memory_factor = 0\<rparr>"

definition sample_cluster_conf :: kube_conf where
  "sample_cluster_conf = \<lparr>kc_base_domain = ''vortex.v60ai.com'', kc_gateway_name = ''vortex'', kc_gateway_namespace = ''vortex'',
     kc_shard_max_listeners = 0, kc_cluster_issuer = ''le'', kc_cpu_factor = 1 / 10, kc_memory_factor = 1 / 2\<rparr>"

definition activate :: "objects \<Rightarrow> objects" where
  "activate b = b\<lparr>ob_namespaces := gmap (\<lambda>x. x\<lparr>no_active := True\<rparr>) (ob_namespaces b)\<rparr>"

definition first_tenant :: kube where
  "first_tenant = \<lparr>kb_objects = no_objects, kb_schedule = [(NoFault, id), (NoFault, id), (NoFault, activate)]\<rparr>"

lemma activate_leaves: "leaves ns b (activate b)"
  by (auto simp: leaves_def activate_def)

theorem tenant_secured_witness:
  "\<exists>t. ensure_tenant sample_cluster_conf 2 ''acme'' ''web'' sample_quota first_tenant = (Inr ''vortex-acme-web'', t) \<and>
     (\<exists>np. gget (ob_policies (kb_objects t)) (''vortex-acme-web'', ''vortex-tenant-isolation'') = Some np \<and>
        \<not> egress_allowed ''vortex-acme-web'' np \<lparr>ep_namespace = Some ''vortex-beta-web'', ep_address = 10 * 2 ^ 24 + 7\<rparr> TCP 5432)"
proof -
  have name: "namespace_name ''acme'' ''web'' = ''vortex-acme-web''" by code_simp
  have two: "(2 :: nat) = Suc (Suc 0)" by simp
  have "fst (ensure_tenant sample_cluster_conf 2 ''acme'' ''web'' sample_quota first_tenant) = Inr ''vortex-acme-web''"
    unfolding ensure_tenant_def name Let_def two
    by (simp add: bindE_def tryE_def okE_def failE_def upsert_obj_def create_obj_def get_obj_def update_obj_def call_def
        apply_resource_quota_def apply_limit_range_def ensure_service_account_def ensure_network_policy_def
        first_tenant_def no_objects_def kinds activate_def tenant_namespace_def Let_def gget_def gput_def gmap_def)
  then obtain t where t: "ensure_tenant sample_cluster_conf 2 ''acme'' ''web'' sample_quota first_tenant = (Inr ''vortex-acme-web'', t)"
    by (metis prod.collapse)
  have "left_alone ''vortex-acme-web'' first_tenant"
    by (auto simp: left_alone_def first_tenant_def activate_leaves) (simp_all add: leaves_def)
  from tenant_secured [OF t this, of "\<lparr>ep_namespace = Some ''vortex-beta-web'', ep_address = 10 * 2 ^ 24 + 7\<rparr>" TCP 5432] t
  show ?thesis by (auto simp: private_address_def)
qed

text \<open>the addresses the policy leaves out are the private ones; link-local addresses are not among them,
  so a tenant reaches the metadata service of a cloud host\<close>

theorem tenant_reaches_metadata:
  "egress_allowed ns (tenant_policy kc) \<lparr>ep_namespace = None, ep_address = ((169 * 256 + 254) * 256 + 169) * 256 + 254\<rparr> TCP 80"
  by (simp add: tenant_egress private_address_def)

end
