(* ===== verification/Kube_Backup.thy ===== *)
theory Kube_Backup
  imports Kube_Api Kube_Fake
begin

text \<open>
  Dumps of databases in the cluster (\<open>kube/backup.go\<close>): the Jobs and CronJobs that write a dump to
  the backup volume, their listing, and the Job that replays a dump.
\<close>

section \<open>Specifications and names\<close>

record backup_spec =
  bs_namespace :: string
  bs_release :: string
  bs_engine :: string
  bs_host :: string
  bs_port :: int
  bs_database :: string
  bs_username :: string
  bs_password :: string
  bs_image :: string
  bs_storage_gb :: int
  bs_storage_class :: string
  bs_schedule :: string

record restore_spec =
  rt_namespace :: string
  rt_release :: string
  rt_engine :: string
  rt_host :: string
  rt_port :: int
  rt_database :: string
  rt_username :: string
  rt_password :: string
  rt_image :: string
  rt_backup_name :: string

definition backup_pvc_name :: string where "backup_pvc_name = ''vortex-backups''"
definition backup_mount_path :: string where "backup_mount_path = ''/backups''"
definition min_backup_storage_gb :: int where "min_backup_storage_gb = 1"
definition backup_job_ttl_seconds :: int where "backup_job_ttl_seconds = 24 * 60 * 60"
definition backup_active_deadline_seconds :: int where "backup_active_deadline_seconds = 60 * 60"
definition backup_history_limit :: int where "backup_history_limit = 7"

definition name_short :: "string \<Rightarrow> nat \<Rightarrow> string" where
  "name_short s n = (if length s > n then trim_by (\<lambda>c. c = CHR ''-'') (take n s) else s)"

text \<open>\<open>20060102150405\<close> and RFC 3339, both of UTC times.\<close>

definition clock :: "time \<Rightarrow> string \<times> string \<times> string" where
  "clock t =
     (let s = t mod day_ns div second_ns
      in (pad 2 (nat (s div 3600)), pad 2 (nat (s mod 3600 div 60)), pad 2 (nat (s mod 60))))"

definition timestamp_suffix :: "time \<Rightarrow> string" where
  "timestamp_suffix t =
     (case civil_of_days (t div day_ns) of (y, m, d) \<Rightarrow>
      case clock t of (hh, mm, ss) \<Rightarrow> year_text y @ pad 2 (nat m) @ pad 2 (nat d) @ hh @ mm @ ss)"

definition rfc3339 :: "time \<Rightarrow> string" where
  "rfc3339 t =
     (case civil_of_days (t div day_ns) of (y, m, d) \<Rightarrow>
      case clock t of (hh, mm, ss) \<Rightarrow>
        year_text y @ ''-'' @ pad 2 (nat m) @ ''-'' @ pad 2 (nat d) @ ''T'' @ hh @ '':'' @ mm @ '':'' @ ss @ ''Z'')"

definition backup_labels :: "string \<Rightarrow> string \<Rightarrow> (string, string) gomap" where
  "backup_labels rel kind =
     [(''app.kubernetes.io/managed-by'', ''vortex''), (''vortex.io/backup'', ''true''),
      (''vortex.io/db-release'', sanitize rel), (''vortex.io/backup-kind'', kind)]"

definition backup_job_name :: "time \<Rightarrow> string \<Rightarrow> string" where
  "backup_job_name now rel = name_short (''bkp-'' @ sanitize rel) 40 @ ''-'' @ timestamp_suffix now"

definition restore_job_name :: "time \<Rightarrow> string \<Rightarrow> string" where
  "restore_job_name now rel = name_short (''rst-'' @ sanitize rel) 40 @ ''-'' @ timestamp_suffix now"

definition backup_cron_name :: "string \<Rightarrow> string" where
  "backup_cron_name rel = name_short (''bkp-cron-'' @ sanitize rel) 52"

section \<open>Commands\<close>

text \<open>By the canonical engine name. The texts are those the shell of the container is given.\<close>

definition dump_command :: "string \<Rightarrow> string" where
  "dump_command engine =
     (if engine = ''postgresql'' then
        ''pg_dump -h \"${DB_HOST}\" -p \"${DB_PORT}\" -U \"${DB_USER}\" -d \"${DB_NAME}\" -F c -f \"${BACKUP_FILE}\"''
      else if engine = ''mysql'' \<or> engine = ''mariadb'' then
        ''mysqldump -h \"${DB_HOST}\" -P \"${DB_PORT}\" -u \"${DB_USER}\" --single-transaction --routines --triggers \"${DB_NAME}\" > \"${BACKUP_FILE}\"''
      else if engine = ''mongodb'' then
        ''mongodump --host \"${DB_HOST}\" --port \"${DB_PORT}\" --username \"${DB_USER}\" --password \"${MONGO_PASSWORD}\" --db \"${DB_NAME}\" --archive=\"${BACKUP_FILE}\" --gzip''
      else if engine = ''redis'' then
        ''redis-cli -h \"${DB_HOST}\" -p \"${DB_PORT}\" -a \"${REDISCLI_AUTH}\" --no-auth-warning --rdb \"${BACKUP_FILE}\"''
      else ''echo \"kube: no dump command for this engine\" >&2; exit 1'')"

definition restore_command :: "string \<Rightarrow> string" where
  "restore_command engine =
     (if engine = ''postgresql'' then
        ''pg_restore -h \"${DB_HOST}\" -p \"${DB_PORT}\" -U \"${DB_USER}\" -d \"${DB_NAME}\" --clean --if-exists \"${BACKUP_FILE}\"''
      else if engine = ''mysql'' \<or> engine = ''mariadb'' then
        ''mysql -h \"${DB_HOST}\" -P \"${DB_PORT}\" -u \"${DB_USER}\" \"${DB_NAME}\" < \"${BACKUP_FILE}\"''
      else if engine = ''mongodb'' then
        ''mongorestore --host \"${DB_HOST}\" --port \"${DB_PORT}\" --username \"${DB_USER}\" --password \"${MONGO_PASSWORD}\" --db \"${DB_NAME}\" --archive=\"${BACKUP_FILE}\" --gzip --drop''
      else if engine = ''redis'' then
        ''echo \"kube: redis restore is a manual RDB swap (copy ${BACKUP_FILE} to the data dir and restart)\" >&2; exit 1''
      else ''echo \"kube: no restore command for this engine\" >&2; exit 1'')"

definition bare_workload :: "string \<Rightarrow> workload" where
  "bare_workload template =
     \<lparr>wl_org_slug = [], wl_project_slug = [], wl_name = [], wl_kind = [], wl_image = [], wl_port = 0, wl_cpu = 0, wl_memory_mb = 0,
      wl_env = [], wl_cpu_factor = 0, wl_memory_factor = 0, wl_template_key = template, wl_domains = [], wl_region = [],
      wl_storage_gb = 0, wl_storage_class = [], wl_image_pull_secret = [], wl_env_secret_name = [],
      wl_scaling = no_scaling\<rparr>"

definition backup_conn :: "string \<Rightarrow> int \<Rightarrow> string \<Rightarrow> string \<Rightarrow> string \<times> int" where
  "backup_conn h port rel engine =
     (if trim_space h = [] then sanitize rel else h,
      if port \<le> 0 then default_port (bare_workload engine) else port)"

definition password_env_name :: "string \<Rightarrow> string" where
  "password_env_name engine =
     (if engine = ''postgresql'' then ''PGPASSWORD''
      else if engine = ''mysql'' \<or> engine = ''mariadb'' then ''MYSQL_PWD''
      else if engine = ''mongodb'' then ''MONGO_PASSWORD''
      else if engine = ''redis'' then ''REDISCLI_AUTH''
      else [])"

definition client_image :: "string \<Rightarrow> string \<Rightarrow> string" where
  "client_image engine override =
     (if trim_space override \<noteq> [] then trim_space override
      else if engine = ''postgresql'' then ''postgres:16-alpine''
      else if engine = ''mysql'' then ''mysql:8''
      else if engine = ''mariadb'' then ''mariadb:11''
      else if engine = ''mongodb'' then ''mongo:7''
      else if engine = ''redis'' then ''redis:7-alpine''
      else ''busybox:1.36'')"

definition dump_extension :: "string \<Rightarrow> string" where
  "dump_extension engine =
     (if engine = ''postgresql'' then ''.dump''
      else if engine = ''mysql'' \<or> engine = ''mariadb'' then ''.sql''
      else if engine = ''mongodb'' then ''.archive.gz''
      else if engine = ''redis'' then ''.rdb''
      else ''.bak'')"

section \<open>Rendering\<close>

text \<open>Image and password are filled in by \<open>backup_job_spec\<close>.\<close>

definition backup_container :: "string \<Rightarrow> string \<Rightarrow> string \<Rightarrow> int \<Rightarrow> string \<Rightarrow> string \<Rightarrow> string \<Rightarrow> container" where
  "backup_container role file h port db user cmd =
     \<lparr>cn_name = role, cn_image = [], cn_command = [''/bin/sh'', ''-ec''], cn_args = [cmd],
      cn_env = [(''DB_HOST'', EnvText h), (''DB_PORT'', EnvText (itoa port)), (''DB_NAME'', EnvText db), (''DB_USER'', EnvText user),
        (''BACKUP_FILE'', EnvText (backup_mount_path @ ''/'' @ file))],
      cn_mounts = [(''backups'', backup_mount_path)], cn_escalation = False, cn_dropped = [''ALL'']\<rparr>"

definition backup_job_spec ::
    "string \<Rightarrow> string \<Rightarrow> container \<Rightarrow> string \<Rightarrow> string \<Rightarrow> string \<Rightarrow> bool \<Rightarrow> string \<Rightarrow> job_spec" where
  "backup_job_spec name engine c img rel kind scheduled password =
     (let var = password_env_name engine;
          c2 = c\<lparr>cn_env := cn_env c @ (if var \<noteq> [] \<and> password \<noteq> [] then [(var, EnvText password)] else []),
                 cn_image := client_image engine img\<rparr>
      in \<lparr>js_backoff = 2, js_ttl = backup_job_ttl_seconds, js_deadline = backup_active_deadline_seconds,
          js_pod = \<lparr>po_labels = gput ''job-name'' name (backup_labels rel kind), po_service_account = tenant_service_account,
            po_automount = False, po_non_root = True, po_seccomp = ''RuntimeDefault'', po_init = [], po_containers = [c2],
            po_volumes = [ClaimVolume ''backups'' backup_pvc_name], po_scheduled = scheduled\<rparr>\<rparr>)"

definition fresh_job :: "(string, string) gomap \<Rightarrow> bool \<Rightarrow> job_spec \<Rightarrow> job" where
  "fresh_job labels scheduled spec =
     \<lparr>jo_labels = labels, jo_scheduled = scheduled, jo_created = 0, jo_spec = spec,
      jo_status = \<lparr>jt_conditions = [], jt_active = 0, jt_succeeded = 0, jt_failed = 0, jt_completed = None\<rparr>\<rparr>"

definition backup_job :: "string \<Rightarrow> string \<Rightarrow> backup_spec \<Rightarrow> bool \<Rightarrow> job" where
  "backup_job name file s scheduled =
     (let engine = db_engine_key (bs_engine s)
      in fresh_job (backup_labels (bs_release s) ''backup'') scheduled
           (backup_job_spec name engine
              (backup_container ''backup'' file (bs_host s) (bs_port s) (bs_database s) (bs_username s) (dump_command engine))
              (bs_image s) (bs_release s) ''backup'' scheduled (bs_password s)))"

definition restore_job :: "string \<Rightarrow> string \<Rightarrow> restore_spec \<Rightarrow> job" where
  "restore_job name file s =
     (let engine = db_engine_key (rt_engine s)
      in fresh_job (backup_labels (rt_release s) ''restore'') False
           (backup_job_spec name engine
              (backup_container ''restore'' file (rt_host s) (rt_port s) (rt_database s) (rt_username s) (restore_command engine))
              (rt_image s) (rt_release s) ''restore'' False (rt_password s)))"

definition backup_cron_job :: "string \<Rightarrow> backup_spec \<Rightarrow> cron_job" where
  "backup_cron_job name s =
     (let engine = db_engine_key (bs_engine s);
          file = backup_cron_name (bs_release s) @ ''-$(date +%Y%m%d%H%M%S)'' @ dump_extension engine
      in \<lparr>cj_labels = backup_labels (bs_release s) ''backup'', cj_schedule = bs_schedule s, cj_forbid_concurrent = True,
          cj_history = backup_history_limit, cj_suspend = False, cj_job_labels = backup_labels (bs_release s) ''backup'',
          cj_job_scheduled = True,
          cj_spec = backup_job_spec name engine
            (backup_container ''backup'' file (bs_host s) (bs_port s) (bs_database s) (bs_username s) (dump_command engine))
            (bs_image s) (bs_release s) ''backup'' True (bs_password s)\<rparr>)"

section \<open>Operations\<close>

definition ensure_backup_pvc :: "backup_spec \<Rightarrow> unit aop" where
  "ensure_backup_pvc s =
     (let size = (if bs_storage_gb s \<le> 0 then min_backup_storage_gb else bs_storage_gb s); cls = trim_space (bs_storage_class s)
      in tryE (create_obj volume_claims (bs_namespace s, backup_pvc_name)
                 \<lparr>pv_size = gib size, pv_class = (if cls \<noteq> [] then Some cls else None)\<rparr>)
           (\<lambda>e. if e = AExists then okE () else failE e) okE)"

definition connected :: "backup_spec \<Rightarrow> string \<Rightarrow> backup_spec" where
  "connected s engine =
     (let c = backup_conn (bs_host s) (bs_port s) (bs_release s) engine in s\<lparr>bs_host := fst c, bs_port := snd c\<rparr>)"

text \<open>The clock is read twice: for the name and for the answer.\<close>

definition backup_database :: "time \<Rightarrow> time \<Rightarrow> backup_spec \<Rightarrow> database_backup aop" where
  "backup_database now1 now2 s0 =
     (let engine = db_engine_key (bs_engine s0)
      in if engine = [] then failE (AOther ''unsupported backup engine'')
         else if trim_space (bs_release s0) = [] \<or> trim_space (bs_namespace s0) = [] then
           failE (AOther ''backup requires namespace and release'')
         else
           let s = connected s0 engine; name = backup_job_name now1 (bs_release s)
           in bindE (ensure_backup_pvc s) (\<lambda>_.
              bindE (create_obj jobs (bs_namespace s, name) (backup_job name (name @ dump_extension engine) s False)) (\<lambda>_.
                okE \<lparr>bk_name = name, bk_phase = ''Pending'', bk_created_at = rfc3339 now2, bk_completed_at = [], bk_engine = engine\<rparr>)))"

definition ensure_backup_schedule :: "backup_spec \<Rightarrow> unit aop" where
  "ensure_backup_schedule s0 =
     (let engine = db_engine_key (bs_engine s0); name = backup_cron_name (bs_release s0)
      in if engine = [] then failE (AOther ''unsupported backup engine'')
         else if trim_space (bs_schedule s0) = [] then
           tryE (delete_obj crons (bs_namespace s0, name)) (\<lambda>e. if e = ANotFound then okE () else failE e) okE
         else
           let s = connected s0 engine
           in bindE (ensure_backup_pvc s) (\<lambda>_.
                upsert_obj crons (bs_namespace s, name) (backup_cron_job name s) (\<lambda>_. backup_cron_job name s)))"

fun final_condition :: "condition list \<Rightarrow> string option" where
  "final_condition [] = None"
| "final_condition (c # cs) =
     (if cn_type c = ''Complete'' \<and> cn_status c = ''True'' then Some ''Succeeded''
      else if cn_type c = ''Failed'' \<and> cn_status c = ''True'' then Some ''Failed''
      else final_condition cs)"

definition job_phase :: "job \<Rightarrow> string" where
  "job_phase j =
     (let st = jo_status j
      in case final_condition (jt_conditions st) of
           Some phase \<Rightarrow> phase
         | None \<Rightarrow>
             if jt_active st > 0 then ''Running''
             else if jt_succeeded st > 0 then ''Succeeded''
             else if jt_failed st > 0 then ''Failed''
             else ''Pending'')"

text \<open>Whether a run was scheduled comes beside the backup.\<close>

definition backup_from_job :: "string \<Rightarrow> job \<Rightarrow> database_backup \<times> bool" where
  "backup_from_job name j =
     (\<lparr>bk_name = name, bk_phase = job_phase j, bk_created_at = rfc3339 (jo_created j),
       bk_completed_at = (case jt_completed (jo_status j) of None \<Rightarrow> [] | Some t \<Rightarrow> rfc3339 t), bk_engine = []\<rparr>,
      jo_scheduled j)"

definition selected :: "(string, string) gomap \<Rightarrow> (string, string) gomap \<Rightarrow> bool" where
  "selected sel labels \<longleftrightarrow> list_all (\<lambda>(k, v). gget labels k = Some v) sel"

definition backup_selector :: "string \<Rightarrow> (string, string) gomap" where
  "backup_selector rel =
     [(''vortex.io/backup'', ''true''), (''vortex.io/db-release'', sanitize rel), (''vortex.io/backup-kind'', ''backup'')]"

definition list_database_backups :: "string \<Rightarrow> string \<Rightarrow> (database_backup \<times> bool) list aop" where
  "list_database_backups ns rel =
     bindE (list_objs jobs (\<lambda>i j. fst i = ns \<and> selected (backup_selector rel) (jo_labels j))) (\<lambda>js.
       okE (sort_by (\<lambda>x y. bk_created_at (fst y) < bk_created_at (fst x)) (map (\<lambda>(i, j). backup_from_job (snd i) j) js)))"

definition restore_database :: "time \<Rightarrow> restore_spec \<Rightarrow> unit aop" where
  "restore_database now s0 =
     (let engine = db_engine_key (rt_engine s0)
      in if engine = [] then failE (AOther ''unsupported restore engine'')
         else if trim_space (rt_backup_name s0) = [] then failE (AOther ''restore requires a backup name'')
         else if trim_space (rt_release s0) = [] \<or> trim_space (rt_namespace s0) = [] then
           failE (AOther ''restore requires namespace and release'')
         else
           let c = backup_conn (rt_host s0) (rt_port s0) (rt_release s0) engine;
               s = s0\<lparr>rt_host := fst c, rt_port := snd c\<rparr>;
               file = sanitize (rt_backup_name s) @ dump_extension engine; name = restore_job_name now (rt_release s)
           in create_obj jobs (rt_namespace s, name) (restore_job name file s))"

section \<open>Names survive sanitizing\<close>

definition dns_name :: "string \<Rightarrow> bool" where
  "dns_name s \<longleftrightarrow> s \<noteq> [] \<and> (\<forall>c \<in> set s. slug_char c \<or> c = CHR ''-'') \<and> \<not> has_double (CHR ''-'') s \<and>
     hd s \<noteq> CHR ''-'' \<and> last s \<noteq> CHR ''-''"

lemma no_slug_dash: "\<not> slug_char (CHR ''-'')"
  by code_simp

lemma sanitize_dns:
  assumes "dns_name s"
  shows "sanitize s = s"
proof -
  have "to_lower s = s"
    unfolding to_lower_def by (rule map_idI) (use assms in \<open>auto simp: dns_name_def\<close>)
  then show ?thesis
    using join_char_words [of slug_char "CHR ''-''" s] no_slug_dash assms by (simp add: sanitize_words dns_name_def)
qed

lemma sanitized_dns:
  assumes "sanitize s \<noteq> []"
  shows "dns_name (sanitize s)"
proof -
  let ?r = "trim_by (\<lambda>c. c = CHR ''-'') (replace_runs dns_char (CHR ''-'') False (to_lower (trim_space s)))"
  have q: "sanitize s = squeeze (CHR ''-'') ?r" by (simp add: sanitize_def)
  then have "?r \<noteq> []" using assms by (auto simp: squeeze.simps [of _ "[]"])
  then have "hd (sanitize s) \<noteq> CHR ''-''" "last (sanitize s) \<noteq> CHR ''-''"
    using squeeze_ends [of ?r "CHR ''-''"] hd_trim [of "\<lambda>c. c = CHR ''-''"] last_trim [of "\<lambda>c. c = CHR ''-''"] unfolding q
    by metis+
  moreover have "\<not> has_double (CHR ''-'') (sanitize s)" unfolding q by (rule squeeze_single)
  ultimately show ?thesis using assms sanitize_chars unfolding dns_name_def by blast
qed

lemma double_append:
  "has_double x (a @ b) \<longleftrightarrow> has_double x a \<or> has_double x b \<or> a \<noteq> [] \<and> b \<noteq> [] \<and> last a = x \<and> hd b = x"
proof (induction a)
  case (Cons c a)
  show ?case
  proof (cases a)
    case Nil
    then show ?thesis by (cases b) auto
  next
    case (Cons d e)
    then show ?thesis using Cons.IH by (cases "c = x") auto
  qed
qed simp

lemma dns_join:
  assumes "dns_name a" "dns_name b"
  shows "dns_name (a @ ''-'' @ b)"
  using assms by (cases b) (auto simp: dns_name_def double_append)

lemma dns_short:
  assumes "dns_name s" "0 < n"
  shows "dns_name (name_short s n)"
proof (cases "length s > n")
  case False
  then show ?thesis using assms by (simp add: name_short_def)
next
  case True
  let ?t = "take n s"
  have "?t \<noteq> []" "hd ?t = hd s" using assms True by (cases s; cases n; simp add: dns_name_def)+
  then have "dropWhile (\<lambda>c. c = CHR ''-'') ?t = ?t" using assms(1) by (cases ?t) (auto simp: dns_name_def)
  then have e: "name_short s n = rev (dropWhile (\<lambda>c. c = CHR ''-'') (rev ?t))" using True by (simp add: name_short_def trim_by_def)
  have "hd s \<in> set ?t" "hd s \<noteq> CHR ''-''" using \<open>?t \<noteq> []\<close> \<open>hd ?t = hd s\<close> assms(1) by (metis hd_in_set, simp add: dns_name_def)
  then have ne: "name_short s n \<noteq> []" unfolding e by (auto simp: dropWhile_eq_Nil_conv)
  have t: "trim_by (\<lambda>c. c = CHR ''-'') ?t = name_short s n" using True by (simp add: name_short_def)
  have "\<not> has_double (CHR ''-'') ?t"
    using assms(1) double_append [of "CHR ''-''" ?t "drop n s"] by (simp add: dns_name_def)
  then have "\<not> has_double (CHR ''-'') (name_short s n)" using trim_no_double t by metis
  moreover have "set (name_short s n) \<subseteq> set s"
    using trim_by_subset [of "\<lambda>c. c = CHR ''-''" ?t] set_take_subset [of n s] unfolding t by blast
  moreover have "hd (name_short s n) \<noteq> CHR ''-''" "last (name_short s n) \<noteq> CHR ''-''"
    using hd_trim [of "\<lambda>c. c = CHR ''-''" ?t] last_trim [of "\<lambda>c. c = CHR ''-''" ?t] ne unfolding t by blast+
  ultimately show ?thesis using ne assms(1) unfolding dns_name_def by blast
qed

lemma digit_slug: "char_digit c \<noteq> None \<Longrightarrow> slug_char c"
  by (auto simp: char_digit_def slug_char_def Let_def split: if_splits)

lemma pad_digits: "c \<in> set (pad w n) \<Longrightarrow> char_digit c \<noteq> None"
  using nat_digits_chars nat_digits_chars [of "digit_char 0" 0] by (auto simp: pad_def nat_digits.simps [of 0])

lemma digits_dns:
  assumes "s \<noteq> []" "\<forall>c \<in> set s. char_digit c \<noteq> None"
  shows "dns_name s"
proof -
  have slug: "\<forall>c \<in> set s. slug_char c" using assms(2) digit_slug by blast
  then have no: "CHR ''-'' \<notin> set s" using no_slug_dash by blast
  then have "\<not> has_double (CHR ''-'') s" by (auto simp: has_double_iff)
  moreover have "hd s \<noteq> CHR ''-''" "last s \<noteq> CHR ''-''" using assms(1) no hd_in_set last_in_set by metis+
  ultimately show ?thesis using assms(1) slug by (simp add: dns_name_def)
qed

lemma stamp_dns:
  assumes "four_digit_year t"
  shows "dns_name (timestamp_suffix t)"
proof (rule digits_dns)
  obtain y m d where c: "civil_of_days (t div day_ns) = (y, m, d)" by (metis prod.exhaust)
  then have y: "year_text y = pad 4 (nat y)" using assms by (simp add: four_digit_year_def year_text_def)
  show "\<forall>c \<in> set (timestamp_suffix t). char_digit c \<noteq> None"
    using pad_digits by (auto simp: timestamp_suffix_def c clock_def Let_def y)
  show "timestamp_suffix t \<noteq> []"
    using nat_digits_nonempty by (simp add: timestamp_suffix_def c clock_def Let_def y pad_def)
qed

lemma backup_name_kept:
  assumes "sanitize rel \<noteq> []" "four_digit_year now"
  shows "sanitize (backup_job_name now rel) = backup_job_name now rel"
proof -
  have "dns_name ''bkp''" by (auto simp: dns_name_def slug_char_def Let_def)
  then have "dns_name (''bkp-'' @ sanitize rel)" using dns_join [OF _ sanitized_dns [OF assms(1)]] by fastforce
  then have "dns_name (name_short (''bkp-'' @ sanitize rel) 40)" by (rule dns_short) simp
  then show ?thesis unfolding backup_job_name_def by (intro sanitize_dns dns_join stamp_dns assms(2))
qed

section \<open>What the shell makes of a command\<close>

text \<open>
  The commands are read by \<open>/bin/sh\<close>. As much of its language as they use: double quotes, \<open>${NAME}\<close>
  (within quotes, as in all commands here, so that a value is never split), blanks between words,
  and the operators, each character by itself.
\<close>

datatype token = Word string | Operator char

definition end_word :: "string option \<Rightarrow> token list" where
  "end_word w = (case w of None \<Rightarrow> [] | Some x \<Rightarrow> [Word x])"

function shell_tokens :: "(string \<Rightarrow> string) \<Rightarrow> bool \<Rightarrow> string option \<Rightarrow> string \<Rightarrow> token list" where
  "shell_tokens v q w [] = end_word w"
| "shell_tokens v q w (c # s) =
     (if c = CHR 0x22 then shell_tokens v (\<not> q) (Some (case w of None \<Rightarrow> [] | Some x \<Rightarrow> x)) s
      else if c = CHR ''$'' \<and> take 1 s = ''{'' then
        shell_tokens v q (Some ((case w of None \<Rightarrow> [] | Some x \<Rightarrow> x) @ v (takeWhile (\<lambda>d. d \<noteq> CHR ''}'') (drop 1 s))))
          (drop 1 (dropWhile (\<lambda>d. d \<noteq> CHR ''}'') (drop 1 s)))
      else if \<not> q \<and> c = CHR '' '' then end_word w @ shell_tokens v False None s
      else if \<not> q \<and> c \<in> set ''<>;&'' then end_word w @ Operator c # shell_tokens v False None s
      else shell_tokens v q (Some ((case w of None \<Rightarrow> [] | Some x \<Rightarrow> x) @ [c])) s)"
  by pat_completeness auto
termination
proof (relation "measure (\<lambda>(v, q, w, s). length s)", goal_cases)
  case (3 v q w c s)
  have "length (dropWhile (\<lambda>d. d \<noteq> CHR ''}'') (drop 1 s)) \<le> length (drop 1 s)" by (rule length_dropWhile_le)
  then show ?case by simp
qed simp_all

definition env_text :: "(string \<times> env_value) list \<Rightarrow> string \<Rightarrow> string" where
  "env_text es n = (case map_of (rev es) n of Some (EnvText t) \<Rightarrow> t | _ \<Rightarrow> [])"

text \<open>What the shells of a Job's containers read, and whether that names the file \<open>p\<close>.\<close>

definition job_shell :: "job_spec \<Rightarrow> token list" where
  "job_shell js =
     concat (map (\<lambda>c. if cn_command c = [''/bin/sh'', ''-ec''] then concat (map (shell_tokens (env_text (cn_env c)) False None) (cn_args c)) else [])
       (po_containers (js_pod js)))"

definition names_file :: "token list \<Rightarrow> string \<Rightarrow> bool" where
  "names_file ts p \<longleftrightarrow> Word p \<in> set ts \<or> Word (''--archive='' @ p) \<in> set ts"

definition engines_with_restore :: "string list" where
  "engines_with_restore = [''postgresql'', ''mysql'', ''mariadb'', ''mongodb'']"

lemma engine_keys: "db_engine_key k \<in> set ([] # ''redis'' # engines_with_restore)"
  by (simp add: db_engine_key_def engines_with_restore_def Let_def)

text \<open>A dump names the file and redirects nothing but its output, a replay nothing but its input.\<close>

lemma dump_tokens:
  assumes "engine \<in> set (''redis'' # engines_with_restore)"
  shows "names_file (shell_tokens v False None (dump_command engine)) (v ''BACKUP_FILE'') \<and>
    Operator (CHR ''<'') \<notin> set (shell_tokens v False None (dump_command engine))"
  using assms by (auto simp: engines_with_restore_def dump_command_def end_word_def names_file_def)

lemma restore_tokens:
  assumes "engine \<in> set engines_with_restore"
  shows "names_file (shell_tokens v False None (restore_command engine)) (v ''BACKUP_FILE'') \<and>
    Operator (CHR ''>'') \<notin> set (shell_tokens v False None (restore_command engine))"
  using assms by (auto simp: engines_with_restore_def restore_command_def end_word_def names_file_def)

lemma redis_tokens:
  "\<exists>ts. shell_tokens v False None (restore_command ''redis'') = ts @ [Operator (CHR '';''), Word ''exit'', Word ''1'']"
  by (simp add: restore_command_def end_word_def)

lemma shell_spec:
  "job_shell (backup_job_spec name engine (backup_container role file h port db user cmd) img rel kind sched pw) =
     shell_tokens (env_text (cn_env (hd (po_containers (js_pod
       (backup_job_spec name engine (backup_container role file h port db user cmd) img rel kind sched pw)))))) False None cmd"
  "env_text (cn_env (hd (po_containers (js_pod
       (backup_job_spec name engine (backup_container role file h port db user cmd) img rel kind sched pw))))) ''BACKUP_FILE'' =
     backup_mount_path @ ''/'' @ file"
  by (simp_all add: job_shell_def backup_job_spec_def backup_container_def Let_def env_text_def password_env_name_def)

section \<open>Dumps and their replay\<close>

text \<open>The file a Job reads or writes, and the volumes its pod mounts.\<close>

definition dump_file :: "job_spec \<Rightarrow> env_value list" where
  "dump_file js = concat (map (\<lambda>c. map snd (filter (\<lambda>e. fst e = ''BACKUP_FILE'') (cn_env c))) (po_containers (js_pod js)))"

lemma dump_file_spec:
  "dump_file (backup_job_spec name engine (backup_container role file h port db user cmd) img rel kind sched pw) =
     [EnvText (backup_mount_path @ ''/'' @ file)]"
  by (auto simp: dump_file_def backup_job_spec_def backup_container_def Let_def password_env_name_def)

lemma volumes_spec: "po_volumes (js_pod (backup_job_spec name engine c img rel kind sched pw)) = [ClaimVolume ''backups'' backup_pvc_name]"
  by (simp add: backup_job_spec_def Let_def)

lemma backup_steps:
  assumes "backup_database now1 now2 s k = (Inr b, t)"
  shows "bk_name b = backup_job_name now1 (bs_release s) \<and>
    gget (ob_jobs (kb_objects t)) (bs_namespace s, bk_name b) =
      Some (backup_job (bk_name b) (bk_name b @ dump_extension (db_engine_key (bs_engine s)))
        (connected s (db_engine_key (bs_engine s))) False)"
proof -
  let ?e = "db_engine_key (bs_engine s)"
  let ?c = "connected s ?e" and ?n = "backup_job_name now1 (bs_release s)"
  have f: "bs_release ?c = bs_release s" "bs_namespace ?c = bs_namespace s" by (simp_all add: connected_def Let_def)
  have "\<not> (?e = [] \<or> trim_space (bs_release s) = [] \<or> trim_space (bs_namespace s) = [])"
    using assms by (auto simp: backup_database_def Let_def failE_def split: if_splits)
  then have "bindE (ensure_backup_pvc ?c) (\<lambda>_. bindE (create_obj jobs (bs_namespace s, ?n) (backup_job ?n (?n @ dump_extension ?e) ?c False))
      (\<lambda>_. okE \<lparr>bk_name = ?n, bk_phase = ''Pending'', bk_created_at = rfc3339 now2, bk_completed_at = [], bk_engine = ?e\<rparr>)) k = (Inr b, t)"
    using assms by (simp add: backup_database_def Let_def f)
  then obtain u1 k1 where "bindE (create_obj jobs (bs_namespace s, ?n) (backup_job ?n (?n @ dump_extension ?e) ?c False))
      (\<lambda>_. okE \<lparr>bk_name = ?n, bk_phase = ''Pending'', bk_created_at = rfc3339 now2, bk_completed_at = [], bk_engine = ?e\<rparr>) k1 = (Inr b, t)"
    by (rule bindE_InrE)
  then obtain u2 k2 where c: "create_obj jobs (bs_namespace s, ?n) (backup_job ?n (?n @ dump_extension ?e) ?c False) k1 = (Inr u2, k2)"
      and o: "(okE \<lparr>bk_name = ?n, bk_phase = ''Pending'', bk_created_at = rfc3339 now2, bk_completed_at = [], bk_engine = ?e\<rparr> :: database_backup aop) k2 = (Inr b, t)"
    by (rule bindE_InrE)
  have "holds_in (\<lambda>_. True) k1" by (simp add: holds_in_def rest_keeps_def)
  then obtain x where "kb_objects k2 = snd jobs (gput (bs_namespace s, ?n) (backup_job ?n (?n @ dump_extension ?e) ?c False) (fst jobs x)) x"
    by (rule create_ok [OF c])
  then show ?thesis using o by (auto simp: okE_def kinds)
qed

lemma restore_steps:
  assumes "restore_database now s k = (Inr u, t)"
  shows "\<exists>j. gget (ob_jobs (kb_objects t)) (rt_namespace s, restore_job_name now (rt_release s)) = Some j \<and>
    dump_file (jo_spec j) =
      [EnvText (backup_mount_path @ ''/'' @ sanitize (rt_backup_name s) @ dump_extension (db_engine_key (rt_engine s)))] \<and>
    (\<exists>v. job_shell (jo_spec j) = shell_tokens v False None (restore_command (db_engine_key (rt_engine s))) \<and>
      v ''BACKUP_FILE'' = backup_mount_path @ ''/'' @ sanitize (rt_backup_name s) @ dump_extension (db_engine_key (rt_engine s))) \<and>
    po_volumes (js_pod (jo_spec j)) = [ClaimVolume ''backups'' backup_pvc_name]"
proof -
  let ?e = "db_engine_key (rt_engine s)"
  let ?c = "backup_conn (rt_host s) (rt_port s) (rt_release s) ?e"
  let ?s = "s\<lparr>rt_host := fst ?c, rt_port := snd ?c\<rparr>" and ?n = "restore_job_name now (rt_release s)"
  let ?j = "restore_job ?n (sanitize (rt_backup_name s) @ dump_extension ?e) ?s"
  have "\<not> (?e = [] \<or> trim_space (rt_backup_name s) = [] \<or> trim_space (rt_release s) = [] \<or> trim_space (rt_namespace s) = [])"
    using assms by (auto simp: restore_database_def Let_def failE_def split: if_splits)
  then have c: "create_obj jobs (rt_namespace s, ?n) ?j k = (Inr u, t)"
    using assms by (simp add: restore_database_def Let_def)
  have "holds_in (\<lambda>_. True) k" by (simp add: holds_in_def rest_keeps_def)
  then obtain x where "kb_objects t = snd jobs (gput (rt_namespace s, ?n) ?j (fst jobs x)) x"
    by (rule create_ok [OF c])
  then show ?thesis using shell_spec by (fastforce simp: kinds restore_job_def fresh_job_def Let_def dump_file_spec volumes_spec)
qed

text \<open>C31: what an on-demand backup writes, a restore by the name it answered replays, for every engine but
  redis. The commands of both Jobs name the same file on the same volume once their shells have
  expanded them. The dump takes no input from a file, the replay writes no output to one.\<close>

theorem backup_restorable:
  assumes "backup_database now1 now2 s k = (Inr b, t)" "sanitize (bs_release s) \<noteq> []" "four_digit_year now1"
    and "restore_database now3 r k2 = (Inr u, t2)" "rt_backup_name r = bk_name b"
    and "rt_namespace r = bs_namespace s" "rt_engine r = bs_engine s" "db_engine_key (rt_engine r) \<noteq> ''redis''"
  shows "\<exists>i j p. gget (ob_jobs (kb_objects t)) (bs_namespace s, bk_name b) = Some i \<and>
     gget (ob_jobs (kb_objects t2)) (bs_namespace s, restore_job_name now3 (rt_release r)) = Some j \<and>
     po_volumes (js_pod (jo_spec j)) = po_volumes (js_pod (jo_spec i)) \<and>
     dump_file (jo_spec i) = [EnvText p] \<and> dump_file (jo_spec j) = [EnvText p] \<and>
     names_file (job_shell (jo_spec i)) p \<and> Operator (CHR ''<'') \<notin> set (job_shell (jo_spec i)) \<and>
     names_file (job_shell (jo_spec j)) p \<and> Operator (CHR ''>'') \<notin> set (job_shell (jo_spec j))"
proof -
  let ?e = "db_engine_key (bs_engine s)"
  let ?p = "backup_mount_path @ ''/'' @ bk_name b @ dump_extension ?e"
  note b = backup_steps [OF assms(1)] and r = restore_steps [OF assms(4)]
  have e: "?e \<in> set engines_with_restore"
    using engine_keys [of "bs_engine s"] assms(1,7,8) by (auto simp: backup_database_def failE_def)
  have n: "sanitize (bk_name b) = bk_name b" using b backup_name_kept [OF assms(2,3)] by simp
  obtain j v where j: "gget (ob_jobs (kb_objects t2)) (bs_namespace s, restore_job_name now3 (rt_release r)) = Some j"
      "dump_file (jo_spec j) = [EnvText ?p]" "po_volumes (js_pod (jo_spec j)) = [ClaimVolume ''backups'' backup_pvc_name]"
      "job_shell (jo_spec j) = shell_tokens v False None (restore_command ?e)" "v ''BACKUP_FILE'' = ?p"
    using r n assms(5-7) by auto
  obtain i where i: "gget (ob_jobs (kb_objects t)) (bs_namespace s, bk_name b) = Some i"
      "i = backup_job (bk_name b) (bk_name b @ dump_extension ?e) (connected s ?e) False"
    using b by blast
  have "bs_engine (connected s ?e) = bs_engine s" by (simp add: connected_def Let_def)
  then have "dump_file (jo_spec i) = [EnvText ?p] \<and> po_volumes (js_pod (jo_spec i)) = [ClaimVolume ''backups'' backup_pvc_name] \<and>
      (\<exists>v. job_shell (jo_spec i) = shell_tokens v False None (dump_command ?e) \<and> v ''BACKUP_FILE'' = ?p)"
    using shell_spec by (fastforce simp: i(2) backup_job_def fresh_job_def Let_def dump_file_spec volumes_spec)
  moreover have "?e \<in> set (''redis'' # engines_with_restore)" using e by simp
  ultimately have "dump_file (jo_spec i) = [EnvText ?p]" "po_volumes (js_pod (jo_spec i)) = [ClaimVolume ''backups'' backup_pvc_name]"
      "names_file (job_shell (jo_spec i)) ?p" "Operator (CHR ''<'') \<notin> set (job_shell (jo_spec i))"
    using dump_tokens by metis+
  then show ?thesis using i(1) j restore_tokens [OF e, of v] by auto
qed

text \<open>the restore of a redis dump is a Job that says it must be done by hand, and fails\<close>

theorem redis_restore_fails:
  assumes "restore_database now r k = (Inr u, t)" "db_engine_key (rt_engine r) = ''redis''"
  shows "\<exists>j ts. gget (ob_jobs (kb_objects t)) (rt_namespace r, restore_job_name now (rt_release r)) = Some j \<and>
     job_shell (jo_spec j) = ts @ [Operator (CHR '';''), Word ''exit'', Word ''1'']"
  using restore_steps [OF assms(1)] redis_tokens assms(2) by metis

text \<open>C32: no scheduled dump can be restored: the date in its file name is never computed, since the name
  reaches the shell as the value of a variable. All runs of a schedule write one and the same file,
  and no name given to a restore opens it.\<close>

theorem scheduled_dump_unrestorable:
  assumes "restore_database now r k = (Inr u, t)"
  shows "\<exists>j. gget (ob_jobs (kb_objects t)) (rt_namespace r, restore_job_name now (rt_release r)) = Some j \<and>
     dump_file (jo_spec j) \<noteq> dump_file (cj_spec (backup_cron_job name s))"
proof -
  obtain j where j: "gget (ob_jobs (kb_objects t)) (rt_namespace r, restore_job_name now (rt_release r)) = Some j"
      "dump_file (jo_spec j) =
        [EnvText (backup_mount_path @ ''/'' @ sanitize (rt_backup_name r) @ dump_extension (db_engine_key (rt_engine r)))]"
    using restore_steps [OF assms] by blast
  have "CHR ''$'' \<notin> set (dump_extension e)" for e by (simp add: dump_extension_def)
  moreover have "CHR ''$'' \<notin> set (sanitize n)" for n using sanitize_chars [of "CHR ''$''" n] by (auto simp: slug_char_def Let_def)
  ultimately have "CHR ''$'' \<notin> set (sanitize (rt_backup_name r) @ dump_extension (db_engine_key (rt_engine r)))" by auto
  moreover have "CHR ''$'' \<in> set (backup_cron_name (bs_release s) @ ''-$(date +%Y%m%d%H%M%S)'' @ dump_extension e)" for e by auto
  ultimately have "sanitize (rt_backup_name r) @ dump_extension (db_engine_key (rt_engine r)) \<noteq>
      backup_cron_name (bs_release s) @ ''-$(date +%Y%m%d%H%M%S)'' @ dump_extension (db_engine_key (bs_engine s))"
    by metis
  then show ?thesis using j by (simp add: backup_cron_job_def Let_def dump_file_spec)
qed

text \<open>A backup taken at the start of the epoch and replayed a minute later, once by its own name and once by the
  name of a scheduled run.\<close>

definition sample_backup :: backup_spec where
  "sample_backup = \<lparr>bs_namespace = ''vortex-acme-web'', bs_release = ''orders-db'', bs_engine = ''postgres'', bs_host = [], bs_port = 0,
     bs_database = ''orders'', bs_username = ''app'', bs_password = ''pw'', bs_image = [], bs_storage_gb = 0, bs_storage_class = [],
     bs_schedule = ''0 3 * * *''\<rparr>"

definition sample_restore :: "string \<Rightarrow> restore_spec" where
  "sample_restore name = \<lparr>rt_namespace = ''vortex-acme-web'', rt_release = ''orders-db'', rt_engine = ''postgres'', rt_host = [],
     rt_port = 0, rt_database = ''orders'', rt_username = ''app'', rt_password = ''pw'', rt_image = [], rt_backup_name = name\<rparr>"

definition no_backups :: kube where
  "no_backups = \<lparr>kb_objects = no_objects, kb_schedule = []\<rparr>"

lemma sample_text:
  "db_engine_key ''postgres'' = ''postgresql'' \<and>
   sanitize ''orders-db'' = ''orders-db'' \<and>
   timestamp_suffix 0 = ''19700101000000'' \<and>
   timestamp_suffix 60000000000 = ''19700101000100'' \<and>
   backup_job_name 0 ''orders-db'' = ''bkp-orders-db-19700101000000'' \<and>
   restore_job_name 60000000000 ''orders-db'' = ''rst-orders-db-19700101000100'' \<and>
   trim_space ''orders-db'' \<noteq> [] \<and>
   trim_space ''vortex-acme-web'' \<noteq> [] \<and>
   four_digit_year 0"
  by code_simp

lemma sample_names:
  "db_engine_key ''postgres'' = ''postgresql''" "sanitize ''orders-db'' = ''orders-db''"
  "timestamp_suffix 0 = ''19700101000000''" "timestamp_suffix 60000000000 = ''19700101000100''"
  "backup_job_name 0 ''orders-db'' = ''bkp-orders-db-19700101000000''"
  "restore_job_name 60000000000 ''orders-db'' = ''rst-orders-db-19700101000100''"
  "trim_space ''orders-db'' \<noteq> []" "trim_space ''vortex-acme-web'' \<noteq> []"
  using sample_text by blast+

lemma four_digits: "four_digit_year 0"
  using sample_text by blast

lemma sample_backup_run:
  "\<exists>b t. backup_database 0 1 sample_backup no_backups = (Inr b, t) \<and> bk_name b = ''bkp-orders-db-19700101000000'' \<and> kb_schedule t = [] \<and>
     gget (ob_jobs (kb_objects t)) (''vortex-acme-web'', ''rst-orders-db-19700101000100'') = None"
  by (simp add: backup_database_def sample_backup_def sample_names Let_def connected_def ensure_backup_pvc_def bindE_def tryE_def
      create_calm no_backups_def no_objects_def kinds okE_def gget_def)

lemma sample_restore_run:
  assumes "kb_schedule k = []" "gget (ob_jobs (kb_objects k)) (''vortex-acme-web'', ''rst-orders-db-19700101000100'') = None"
    "trim_space name \<noteq> []"
  shows "\<exists>t. restore_database 60000000000 (sample_restore name) k = (Inr (), t)"
  using assms by (simp add: restore_database_def sample_restore_def sample_names Let_def create_calm kinds)

theorem backup_restorable_witness:
  "\<exists>b t t2 i j p. backup_database 0 1 sample_backup no_backups = (Inr b, t) \<and>
     restore_database 60000000000 (sample_restore (bk_name b)) t = (Inr (), t2) \<and>
     gget (ob_jobs (kb_objects t)) (''vortex-acme-web'', ''bkp-orders-db-19700101000000'') = Some i \<and>
     gget (ob_jobs (kb_objects t2)) (''vortex-acme-web'', ''rst-orders-db-19700101000100'') = Some j \<and>
     names_file (job_shell (jo_spec i)) p \<and> names_file (job_shell (jo_spec j)) p"
proof -
  obtain b t where b: "backup_database 0 1 sample_backup no_backups = (Inr b, t)" "bk_name b = ''bkp-orders-db-19700101000000''"
      and t: "kb_schedule t = []" "gget (ob_jobs (kb_objects t)) (''vortex-acme-web'', ''rst-orders-db-19700101000100'') = None"
    using sample_backup_run by blast
  have "trim_space (bk_name b) \<noteq> []" unfolding b(2) by code_simp
  then obtain t2 where r: "restore_database 60000000000 (sample_restore (bk_name b)) t = (Inr (), t2)"
    using sample_restore_run [OF t] by blast
  have "sanitize (bs_release sample_backup) \<noteq> []" by (simp add: sample_backup_def sample_names)
  from backup_restorable [OF b(1) this four_digits r] b r show ?thesis
    by (simp add: sample_backup_def sample_restore_def sample_names) blast
qed

theorem scheduled_dump_unrestorable_witness:
  "\<exists>t j. restore_database 60000000000 (sample_restore ''bkp-cron-orders-db-28999620'') no_backups = (Inr (), t) \<and>
     gget (ob_jobs (kb_objects t)) (''vortex-acme-web'', ''rst-orders-db-19700101000100'') = Some j \<and>
     dump_file (jo_spec j) \<noteq> dump_file (cj_spec (backup_cron_job ''bkp-cron-orders-db'' sample_backup))"
proof -
  have "trim_space ''bkp-cron-orders-db-28999620'' \<noteq> []" by code_simp
  then obtain t where r: "restore_database 60000000000 (sample_restore ''bkp-cron-orders-db-28999620'') no_backups = (Inr (), t)"
    using sample_restore_run [of no_backups] by (auto simp: no_backups_def no_objects_def)
  from scheduled_dump_unrestorable [OF r, of "''bkp-cron-orders-db''" sample_backup] r show ?thesis
    by (auto simp: sample_restore_def sample_names)
qed

end
