(* ===== verification/Build_Kaniko.thy ===== *)
theory Build_Kaniko
  imports Kube_Api Platform
begin

text \<open>
  Building images in the cluster (\<open>build/builder.go\<close>, \<open>build/kaniko.go\<close>, \<open>build/fake.go\<close>): what a
  request may say, the arguments and the Job it is turned into, the isolation of the build
  namespace, and waiting for the Job. \<open>url.Parse\<close> is an argument.
\<close>

section \<open>Requests\<close>

record full_request = build_request +
  br_build_args :: "(string, string) gomap"

record build_conf =
  bc_namespace :: string
  bc_kaniko_image :: string
  bc_push_secret :: string
  bc_git_credentials :: string
  bc_timeout :: duration

definition default_build_timeout :: duration where
  "default_build_timeout = 10 * 60 * second_ns"

definition default_kaniko_image :: string where
  "default_kaniko_image = ''gcr.io/kaniko-project/executor:v1.23.2''"

definition new_kaniko_builder :: "build_conf \<Rightarrow> build_conf" where
  "new_kaniko_builder bc =
     bc\<lparr>bc_namespace := (if bc_namespace bc = [] then ''vortex-builds'' else bc_namespace bc),
        bc_kaniko_image := (if bc_kaniko_image bc = [] then default_kaniko_image else bc_kaniko_image bc)\<rparr>"

text \<open>What parsing a clone URL gives, as far as it is looked at.\<close>

record clone_url =
  cu_scheme :: string
  cu_host :: string
  cu_path :: string
  cu_fragment :: bool
  cu_query :: bool
  cu_user :: bool

datatype build_error =
    BadRepo | RepoFragment | RepoCredentials | BadBuilder | BadRef | BadContext | BadDockerfile | NoImage | BadBuildArg string
  | NotIsolated aerr | DuplicateJob string | NotCreated aerr | JobFailed string string | JobLost aerr string

text \<open>The three character sets of the regular expressions.\<close>

definition alnum :: "char \<Rightarrow> bool" where
  "alnum c \<longleftrightarrow> (let n = of_char c :: nat in 48 \<le> n \<and> n \<le> 57 \<or> 65 \<le> n \<and> n \<le> 90 \<or> 97 \<le> n \<and> n \<le> 122)"

definition git_host_path :: "string \<Rightarrow> bool" where
  "git_host_path s \<longleftrightarrow> s \<noteq> [] \<and> list_all (\<lambda>c. alnum c \<or> c \<in> set ''._~:/@%-'') s"

definition safe_ref :: "string \<Rightarrow> bool" where
  "safe_ref s \<longleftrightarrow> (case s of [] \<Rightarrow> False | c # cs \<Rightarrow> alnum c \<and> list_all (\<lambda>c. alnum c \<or> c \<in> set ''._/-'') cs)"

definition safe_path :: "string \<Rightarrow> bool" where
  "safe_path s \<longleftrightarrow> (case s of [] \<Rightarrow> False | c # cs \<Rightarrow> alnum c \<and> list_all (\<lambda>c. alnum c \<or> c \<in> set ''._/-'') cs)"

definition validated_repo :: "(string \<Rightarrow> clone_url option) \<Rightarrow> string \<Rightarrow> build_error + string" where
  "validated_repo parse raw =
     (case parse raw of
        None \<Rightarrow> Inl BadRepo
      | Some u \<Rightarrow>
          if cu_scheme u \<noteq> ''https'' \<and> cu_scheme u \<noteq> ''git'' then Inl BadRepo
          else if cu_host u = [] then Inl BadRepo
          else if cu_fragment u \<or> cu_query u then Inl RepoFragment
          else if cu_user u then Inl RepoCredentials
          else if \<not> git_host_path (cu_host u @ cu_path u) then Inl BadRepo
          else Inr (cu_scheme u @ ''://'' @ cu_host u @ cu_path u))"

definition bad_arg_key :: "string \<Rightarrow> bool" where
  "bad_arg_key k \<longleftrightarrow> list_ex (\<lambda>c. c \<in> {CHR '' '', CHR 0x09, CHR 0x0A, CHR ''=''}) k \<or> has_prefix k ''-''"

text \<open>The keys of a map come in any order; here in the order of the map.\<close>

definition request_validate :: "(string \<Rightarrow> clone_url option) \<Rightarrow> full_request \<Rightarrow> build_error + unit" where
  "request_validate parse r =
     (case validated_repo parse (br_git_repo r) of
        Inl e \<Rightarrow> Inl e
      | Inr repo \<Rightarrow>
          if br_git_ref r \<noteq> [] \<and> \<not> safe_ref (br_git_ref r) then Inl BadRef
          else if br_context_dir r \<noteq> [] \<and> \<not> safe_path (br_context_dir r) then Inl BadContext
          else if br_dockerfile r \<noteq> [] \<and> \<not> safe_path (br_dockerfile r) then Inl BadDockerfile
          else if trim_space (br_image_ref r) = [] then Inl NoImage
          else case find bad_arg_key (map fst (br_build_args r)) of Some k \<Rightarrow> Inl (BadBuildArg k) | None \<Rightarrow> Inr ())"

section \<open>Arguments and Job\<close>

definition kaniko_context :: "(string \<Rightarrow> clone_url option) \<Rightarrow> full_request \<Rightarrow> string" where
  "kaniko_context parse r =
     (let git_ref = (if br_git_ref r = [] then ''main'' else br_git_ref r);
          repo = (case validated_repo parse (br_git_repo r) of Inl e \<Rightarrow> br_git_repo r | Inr s \<Rightarrow> s)
      in repo @ ''#refs/heads/'' @ git_ref)"

definition build_arg_entries :: "(string, string) gomap \<Rightarrow> (string \<times> string) list" where
  "build_arg_entries m =
     map (\<lambda>k. (k, case gget m k of None \<Rightarrow> [] | Some v \<Rightarrow> v)) (sort_by (<) (map fst m))"

definition kaniko_args :: "(string \<Rightarrow> clone_url option) \<Rightarrow> full_request \<Rightarrow> string list" where
  "kaniko_args parse r =
     [''--context='' @ kaniko_context parse r,
      ''--dockerfile='' @ (if br_dockerfile r = [] then ''Dockerfile'' else br_dockerfile r),
      ''--destination='' @ br_image_ref r] @
     (if br_context_dir r \<noteq> [] then [''--context-sub-path='' @ br_context_dir r] else []) @
     concat (map (\<lambda>(k, v). [''--build-arg'', k @ ''='' @ v]) (build_arg_entries (br_build_args r)))"

definition build_sanitize :: "string \<Rightarrow> string" where
  "build_sanitize s =
     (let t = sanitize s in if length t > 50 then trim_by (\<lambda>c. c = CHR ''-'') (take 50 t) else t)"

definition build_short :: "string \<Rightarrow> nat \<Rightarrow> string" where
  "build_short s n = (if length s > n then trim_by (\<lambda>c. c = CHR ''-'') (take n s) else s)"

definition job_name :: "full_request \<Rightarrow> string" where
  "job_name r =
     (let a = build_short (build_sanitize (br_app_id r)) 8; b = build_short (build_sanitize (br_build_id r)) 8
      in if a \<noteq> [] \<and> b \<noteq> [] then ''build-'' @ a @ ''-'' @ b
         else if b \<noteq> [] then ''build-'' @ b
         else if a \<noteq> [] then ''build-'' @ a
         else ''build-'' @ build_short (build_sanitize (br_app_name r)) 8)"

definition build_timeout :: "build_conf \<Rightarrow> duration" where
  "build_timeout bc = (if bc_timeout bc > 0 then bc_timeout bc else default_build_timeout)"

definition git_credentials_env :: "build_conf \<Rightarrow> (string \<times> env_value) list" where
  "git_credentials_env bc =
     (if bc_git_credentials bc = [] then []
      else map (\<lambda>k. (k, EnvSecret (bc_git_credentials bc) k)) [''GIT_USERNAME'', ''GIT_PASSWORD'', ''GIT_TOKEN''])"

definition builder_service_account :: string where
  "builder_service_account = ''vortex-builder''"

definition docker_config_mount :: string where
  "docker_config_mount = ''/kaniko/.docker''"

definition build_labels :: "(string, string) gomap" where
  "build_labels = [(''app.kubernetes.io/managed-by'', ''vortex''), (''vortex.io/build'', ''kaniko'')]"

text \<open>The status of a fresh Job is empty; whole seconds of the timeout are its deadline.\<close>

definition build_pod :: "(string \<Rightarrow> clone_url option) \<Rightarrow> build_conf \<Rightarrow> full_request \<Rightarrow> pod" where
  "build_pod parse bc r =
     \<lparr>po_labels = build_labels @ [(''job-name'', job_name r)],
      po_service_account = builder_service_account, po_automount = False, po_non_root = False,
      po_seccomp = ''RuntimeDefault'', po_init = [],
      po_containers =
        [\<lparr>cn_name = ''kaniko'', cn_image = bc_kaniko_image bc, cn_command = [], cn_args = kaniko_args parse r,
          cn_env = git_credentials_env bc, cn_mounts = [(''docker-config'', docker_config_mount)], cn_escalation = False,
          cn_dropped = [''ALL'']\<rparr>],
      po_volumes =
        [if bc_push_secret bc \<noteq> [] then SecretVolume ''docker-config'' (bc_push_secret bc) [(''.dockerconfigjson'', ''config.json'')]
         else EmptyDir ''docker-config''],
      po_scheduled = False\<rparr>"

definition kaniko_job :: "(string \<Rightarrow> clone_url option) \<Rightarrow> build_conf \<Rightarrow> full_request \<Rightarrow> job" where
  "kaniko_job parse bc r =
     \<lparr>jo_labels = build_labels @ [(''vortex.io/app'', build_sanitize (br_app_id r))], jo_scheduled = False, jo_created = 0,
      jo_spec = \<lparr>js_backoff = 0, js_ttl = 3600, js_deadline = build_timeout bc div second_ns, js_pod = build_pod parse bc r\<rparr>,
      jo_status = \<lparr>jt_conditions = [], jt_active = 0, jt_succeeded = 0, jt_failed = 0, jt_completed = None\<rparr>\<rparr>"

section \<open>Building\<close>

definition lift_api :: "(aerr \<Rightarrow> build_error) \<Rightarrow> 'a aop \<Rightarrow> (build_error, kube, 'a) op" where
  "lift_api f m k = (case m k of (Inl e, t) \<Rightarrow> (Inl (f e), t) | (Inr x, t) \<Rightarrow> (Inr x, t))"

definition or_exists :: "unit aop \<Rightarrow> unit aop" where
  "or_exists m = tryE m (\<lambda>e. if e = AExists then okE () else failE e) okE"

definition ensure_builder_sa :: "build_conf \<Rightarrow> unit aop" where
  "ensure_builder_sa bc = or_exists (create_obj accounts (bc_namespace bc, builder_service_account) False)"

definition builder_policy :: network_policy where
  "builder_policy =
     \<lparr>np_selector = LabelIs ''vortex.io/build'' ''kaniko'', np_ingress = None,
      np_egress = Some
        [\<lparr>eg_to = [], eg_ports = [(UDP, 53), (TCP, 53)]\<rparr>,
         \<lparr>eg_to = [IpBlock ''0.0.0.0/0'' [''10.0.0.0/8'', ''172.16.0.0/12'', ''192.168.0.0/16'']],
          eg_ports = [(TCP, 443), (TCP, 9418)]\<rparr>]\<rparr>"

definition deny_egress_policy :: string where
  "deny_egress_policy = ''vortex-builder-egress''"

definition ensure_egress_policy :: "build_conf \<Rightarrow> unit aop" where
  "ensure_egress_policy bc = or_exists (create_obj policies (bc_namespace bc, deny_egress_policy) builder_policy)"

definition ensure_isolation :: "build_conf \<Rightarrow> unit aop" where
  "ensure_isolation bc = bindE (ensure_builder_sa bc) (\<lambda>_. ensure_egress_policy bc)"

text \<open>The first condition that is true and final decides: done, or failed with a message.\<close>

fun job_outcome :: "condition list \<Rightarrow> string option option" where
  "job_outcome [] = None"
| "job_outcome (c # cs) =
     (if cn_type c = ''Complete'' \<and> cn_status c = ''True'' then Some None
      else if cn_type c = ''Failed'' \<and> cn_status c = ''True'' then Some (Some (cn_message c))
      else job_outcome cs)"

text \<open>\<open>n\<close> is the number of polls before the timeout.\<close>

fun wait_for_job :: "nat \<Rightarrow> nsname \<Rightarrow> (build_error, kube, unit) op" where
  "wait_for_job 0 i = failE (JobLost ATimeout [])"
| "wait_for_job (Suc n) i =
     tryE (lift_api (\<lambda>e. JobLost e []) (get_obj jobs i))
       (\<lambda>e. if e = JobLost ANotFound [] then wait_for_job n i else failE e)
       (\<lambda>j. case job_outcome (jt_conditions (jo_status j)) of
              None \<Rightarrow> wait_for_job n i
            | Some None \<Rightarrow> okE ()
            | Some (Some msg) \<Rightarrow> failE (JobFailed msg []))"

definition log_tail_lines :: int where
  "log_tail_lines = 50"

text \<open>\<open>tail k s\<close>: the last \<open>k\<close> lines of a log, as the API cuts them. Failing counts as no logs.\<close>

definition collect_logs :: "(int \<Rightarrow> string \<Rightarrow> string) \<Rightarrow> string \<Rightarrow> string \<Rightarrow> kube \<Rightarrow> string \<times> kube" where
  "collect_logs tail ns name k =
     (case list_objs pods (\<lambda>j p. fst j = ns \<and> gget (fst p) ''job-name'' = Some name) k of
        (Inl e, t) \<Rightarrow> ([], t)
      | (Inr ps, t) \<Rightarrow>
          (case sort_by (<) (map (snd \<circ> fst) ps) of
             [] \<Rightarrow> ([], t)
           | n # ns' \<Rightarrow> (case get_obj pods (ns, n) t of
                          (Inl e, u) \<Rightarrow> ([], u)
                        | (Inr p, u) \<Rightarrow> (tail log_tail_lines (snd p), u))))"

fun with_logs :: "build_error \<Rightarrow> string \<Rightarrow> build_error" where
  "with_logs (JobFailed msg old) logs = JobFailed msg logs"
| "with_logs (JobLost e old) logs = JobLost e logs"
| "with_logs e logs = e"

definition kaniko_build ::
    "(int \<Rightarrow> string \<Rightarrow> string) \<Rightarrow> (string \<Rightarrow> clone_url option) \<Rightarrow> nat \<Rightarrow> build_conf \<Rightarrow> full_request \<Rightarrow>
     (build_error, kube, string) op" where
  "kaniko_build tail parse polls bc r =
     (case request_validate parse r of
        Inl e \<Rightarrow> failE e
      | Inr _ \<Rightarrow>
          bindE (lift_api NotIsolated (ensure_isolation bc)) (\<lambda>_.
          bindE (lift_api (\<lambda>e. if e = AExists then DuplicateJob (job_name r) else NotCreated e)
                  (create_obj jobs (bc_namespace bc, job_name r) (kaniko_job parse bc r))) (\<lambda>_.
          tryE (wait_for_job polls (bc_namespace bc, job_name r))
            (\<lambda>e k. case collect_logs tail (bc_namespace bc) (job_name r) k of (logs, t) \<Rightarrow> (Inl (with_logs e logs), t))
            (\<lambda>_. okE (br_image_ref r)))))"

section \<open>The builder of tests\<close>

record fake_builder =
  fb_requests :: "full_request list"
  fb_image_override :: string
  fb_err :: "string option"

definition new_fake_builder :: fake_builder where
  "new_fake_builder = \<lparr>fb_requests = [], fb_image_override = [], fb_err = None\<rparr>"

definition fake_build :: "full_request \<Rightarrow> (string, fake_builder, string) op" where
  "fake_build r f =
     (let g = f\<lparr>fb_requests := fb_requests f @ [r]\<rparr>
      in case fb_err f of
           Some e \<Rightarrow> (Inl e, g)
         | None \<Rightarrow> (Inr (if fb_image_override f \<noteq> [] then fb_image_override f else br_image_ref r), g))"

section \<open>What the arguments say\<close>

text \<open>
  How the executor reads its arguments: \<open>--name=value\<close> up to the first equals sign, \<open>--build-arg\<close>
  takes the next argument; anything else is refused.
\<close>

fun cut_at :: "char \<Rightarrow> string \<Rightarrow> (string \<times> string) option" where
  "cut_at c [] = None"
| "cut_at c (x # xs) = (if x = c then Some ([], xs) else map_option (\<lambda>(a, b). (x # a, b)) (cut_at c xs))"

fun read_args :: "string list \<Rightarrow> (string \<times> string) list option" where
  "read_args [] = Some []"
| "read_args (a # as) =
     (if a = ''--build-arg'' then
        (case as of [] \<Rightarrow> None | v # vs \<Rightarrow> map_option (\<lambda>r. (a, v) # r) (read_args vs))
      else if has_prefix a ''--'' then
        (case cut_at (CHR ''='') a of None \<Rightarrow> None | Some kv \<Rightarrow> map_option (\<lambda>r. kv # r) (read_args as))
      else None)"

lemma cut_at_append: "c \<notin> set a \<Longrightarrow> cut_at c (a @ c # b) = Some (a, b)"
  by (induction a) auto

lemma read_option:
  assumes "n \<in> {''--context'', ''--dockerfile'', ''--destination'', ''--context-sub-path''}"
  shows "read_args ((n @ CHR ''='' # v) # as) = map_option (\<lambda>r. (n, v) # r) (read_args as)"
proof -
  have "CHR ''='' \<notin> set n" "has_prefix (n @ CHR ''='' # v) ''--''" "n @ CHR ''='' # v \<noteq> ''--build-arg''"
    using assms by (auto simp: has_prefix_def)
  then show ?thesis by (simp add: cut_at_append)
qed

lemma read_build_args:
  "read_args (concat (map (\<lambda>(k, v). [''--build-arg'', k @ ''='' @ v]) kvs)) = Some (map (\<lambda>(k, v). (''--build-arg'', k @ ''='' @ v)) kvs)"
  by (induction kvs) auto

text \<open>No value of a request is read as an option.\<close>

definition options :: "(string \<Rightarrow> clone_url option) \<Rightarrow> full_request \<Rightarrow> (string \<times> string) list" where
  "options parse r =
     [(''--context'', kaniko_context parse r),
      (''--dockerfile'', if br_dockerfile r = [] then ''Dockerfile'' else br_dockerfile r),
      (''--destination'', br_image_ref r)] @
     (if br_context_dir r \<noteq> [] then [(''--context-sub-path'', br_context_dir r)] else []) @
     map (\<lambda>(k, v). (''--build-arg'', k @ ''='' @ v)) (build_arg_entries (br_build_args r))"

lemma args_read: "read_args (kaniko_args parse r) = Some (options parse r)"
proof -
  let ?bs = "concat (map (\<lambda>(k, v). [''--build-arg'', k @ ''='' @ v]) (build_arg_entries (br_build_args r)))"
  have sub: "read_args ((if br_context_dir r \<noteq> [] then [''--context-sub-path='' @ br_context_dir r] else []) @ ?bs) =
      Some ((if br_context_dir r \<noteq> [] then [(''--context-sub-path'', br_context_dir r)] else []) @
        map (\<lambda>(k, v). (''--build-arg'', k @ ''='' @ v)) (build_arg_entries (br_build_args r)))"
    using read_option [of "''--context-sub-path''" "br_context_dir r" ?bs] read_build_args by simp
  show ?thesis
    using read_option [of "''--context''"] read_option [of "''--dockerfile''"] read_option [of "''--destination''"] sub
    unfolding kaniko_args_def options_def by simp
qed

lemma hash_char: "\<not> (alnum (CHR ''#'') \<or> CHR ''#'' \<in> set ''._/-'')" "\<not> (alnum (CHR ''#'') \<or> CHR ''#'' \<in> set ''._~:/@%-'')"
  by code_simp+

lemma ref_no_hash:
  assumes "safe_ref s"
  shows "CHR ''#'' \<notin> set s"
proof -
  obtain c cs where s: "s = c # cs" and "alnum c" "list_all (\<lambda>c. alnum c \<or> c \<in> set ''._/-'') cs"
    using assms by (cases s) (simp_all add: safe_ref_def)
  then have "\<And>d. d \<in> set s \<Longrightarrow> alnum d \<or> d \<in> set ''._/-''" by (auto simp only: s list.set insert_iff list_all_iff)
  then show ?thesis using hash_char(1) by blast
qed

lemma repo_no_hash:
  assumes "validated_repo parse raw = Inr s"
  shows "CHR ''#'' \<notin> set s"
proof -
  obtain u where "parse raw = Some u" and p: "git_host_path (cu_host u @ cu_path u)"
    and "cu_scheme u = ''https'' \<or> cu_scheme u = ''git''" "s = cu_scheme u @ ''://'' @ cu_host u @ cu_path u"
    using assms unfolding validated_repo_def by (auto split: option.splits if_splits)
  moreover have "CHR ''#'' \<notin> set (cu_host u @ cu_path u)"
    using p hash_char(2) unfolding git_host_path_def list_all_iff by blast
  ultimately show ?thesis by auto
qed

text \<open>C30: a build builds what was asked for: the options the executor reads are exactly those of the
  request, and of a validated request the context names the cloned repository up to its only hash
  sign and after it the branch, so no repository URL can smuggle in a branch or an option.\<close>

theorem build_reads_as_asked:
  assumes "request_validate parse r = Inr ()"
  shows "read_args (kaniko_args parse r) = Some (options parse r) \<and>
     (\<exists>repo. validated_repo parse (br_git_repo r) = Inr repo \<and>
        split_char (CHR ''#'') (kaniko_context parse r) =
          [repo, ''refs/heads/'' @ (if br_git_ref r = [] then ''main'' else br_git_ref r)])"
proof -
  obtain repo where v: "validated_repo parse (br_git_repo r) = Inr repo"
    using assms by (cases "validated_repo parse (br_git_repo r)") (simp_all add: request_validate_def)
  let ?ref = "''refs/heads/'' @ (if br_git_ref r = [] then ''main'' else br_git_ref r)"
  have "br_git_ref r = [] \<or> safe_ref (br_git_ref r)"
    using assms v by (auto simp: request_validate_def split: if_splits)
  then have hash: "CHR ''#'' \<notin> set ?ref" using ref_no_hash by auto
  have "split_char (CHR ''#'') (repo @ CHR ''#'' # ?ref) = [repo, ?ref]"
    unfolding split_char_append [OF repo_no_hash [OF v]] split_char_no [OF hash] ..
  moreover have "kaniko_context parse r = repo @ CHR ''#'' # ?ref" by (simp add: kaniko_context_def v Let_def)
  ultimately show ?thesis using v args_read by metis
qed

section \<open>A build that succeeds\<close>

text \<open>The rest of the cluster makes no Job of that name and gives the one there is no other specification.\<close>

definition same_job :: "nsname \<Rightarrow> objects \<Rightarrow> objects \<Rightarrow> bool" where
  "same_job i b c \<longleftrightarrow>
     (\<forall>j. gget (ob_jobs c) i = Some j \<longrightarrow> (\<exists>h. gget (ob_jobs b) i = Some h \<and> jo_spec j = jo_spec h))"

definition undisturbed :: "nsname \<Rightarrow> kube \<Rightarrow> bool" where
  "undisturbed i k \<longleftrightarrow> (\<forall>(f, rest) \<in> set (kb_schedule k). \<forall>b. same_job i b (rest b))"

definition job_as :: "nsname \<Rightarrow> job_spec \<Rightarrow> objects \<Rightarrow> bool" where
  "job_as i spec b \<longleftrightarrow> (\<forall>j. gget (ob_jobs b) i = Some j \<longrightarrow> jo_spec j = spec)"

lemma env_undisturbed: "undisturbed i k \<Longrightarrow> rest_keeps (job_as i spec) k"
  unfolding rest_keeps_def
proof (clarify)
  fix f rest b assume "undisturbed i k" "(f, rest) \<in> set (kb_schedule k)" "job_as i spec b"
  moreover from this(1,2) have "same_job i b (rest b)" unfolding undisturbed_def by blast
  ultimately show "job_as i spec (rest b)" unfolding job_as_def same_job_def by fastforce
qed

lemma lift_api_Inr: "lift_api f m k = (Inr x, t) \<longleftrightarrow> m k = (Inr x, t)"
  by (auto simp: lift_api_def split: prod.splits sum.splits)

lemma lift_api_Inl: "lift_api f m k = (Inl e, t) \<Longrightarrow> \<exists>a. m k = (Inl a, t) \<and> e = f a"
  by (auto simp: lift_api_def split: prod.splits sum.splits)

lemma waited_for_job:
  assumes "wait_for_job n i k = (Inr x, t)" "holds_in I k"
  shows "I (kb_objects t) \<and> (\<exists>j. gget (ob_jobs (kb_objects t)) i = Some j \<and> job_outcome (jt_conditions (jo_status j)) = Some None)"
  using assms
proof (induction n arbitrary: k)
  case 0
  then show ?case by (simp add: failE_def)
next
  case (Suc n)
  from Suc.prems(1) show ?case
    unfolding wait_for_job.simps
  proof (rule tryE_E)
    fix e u assume g: "lift_api (\<lambda>e. JobLost e []) (get_obj jobs i) k = (Inl e, u)"
      and r: "(if e = JobLost ANotFound [] then wait_for_job n i else failE e) u = (Inr x, t)"
    from lift_api_Inl [OF g] obtain a where "get_obj jobs i k = (Inl a, u)" by blast
    then have "holds_in I u" using keepsD [OF keeps_get Suc.prems(2), of jobs i] by simp
    moreover have "wait_for_job n i u = (Inr x, t)" using r by (cases "e = JobLost ANotFound []") (simp_all add: failE_def)
    ultimately show ?thesis using Suc.IH by blast
  next
    fix j u assume g: "lift_api (\<lambda>e. JobLost e []) (get_obj jobs i) k = (Inr j, u)"
      and r: "(case job_outcome (jt_conditions (jo_status j)) of None \<Rightarrow> wait_for_job n i
        | Some None \<Rightarrow> okE () | Some (Some msg) \<Rightarrow> failE (JobFailed msg [])) u = (Inr x, t)"
    note got = get_ok [OF g [unfolded lift_api_Inr] Suc.prems(2)]
    consider "job_outcome (jt_conditions (jo_status j)) = None" | "job_outcome (jt_conditions (jo_status j)) = Some None"
      | msg where "job_outcome (jt_conditions (jo_status j)) = Some (Some msg)"
      by (metis option.exhaust)
    then show ?thesis
    proof cases
      case 1
      then show ?thesis using r got Suc.IH by simp
    next
      case 2
      then show ?thesis using r got by (auto simp: okE_def holds_in_def kinds)
    next
      case 3
      then show ?thesis using r by (simp add: failE_def)
    qed
  qed
qed

lemma exists_env: "keeps (rest_keeps I) (ensure_isolation bc)"
  unfolding ensure_isolation_def ensure_builder_sa_def ensure_egress_policy_def or_exists_def
  by (intro keeps_bind keeps_try env_calls) (simp_all add: keeps_ok keeps_fail)

text \<open>C29: an image that is reported built was built by the Job of this very request: the request was valid,
  and when \<open>Build\<close> returns the image of the request, the Job it has created is complete in the
  cluster, with the pod of the request, whatever else happened to the cluster meanwhile.\<close>

theorem built_by_own_job:
  assumes "kaniko_build tail parse polls bc r k = (Inr img, t)" "undisturbed (bc_namespace bc, job_name r) k"
  shows "img = br_image_ref r \<and> request_validate parse r = Inr () \<and>
     (\<exists>j. gget (ob_jobs (kb_objects t)) (bc_namespace bc, job_name r) = Some j \<and>
        jo_spec j = jo_spec (kaniko_job parse bc r) \<and> job_outcome (jt_conditions (jo_status j)) = Some None)"
proof -
  let ?i = "(bc_namespace bc, job_name r)" and ?j = "kaniko_job parse bc r"
  let ?I = "job_as ?i (jo_spec ?j)"
  have v: "request_validate parse r = Inr ()"
    using assms(1) by (cases "request_validate parse r") (simp_all add: kaniko_build_def failE_def)
  obtain u1 k1 u2 k2 where s1: "lift_api NotIsolated (ensure_isolation bc) k = (Inr u1, k1)"
      and s2: "lift_api (\<lambda>e. if e = AExists then DuplicateJob (job_name r) else NotCreated e) (create_obj jobs ?i ?j) k1 = (Inr u2, k2)"
      and s3: "tryE (wait_for_job polls ?i)
        (\<lambda>e k. case collect_logs tail (bc_namespace bc) (job_name r) k of (logs, t) \<Rightarrow> (Inl (with_logs e logs), t))
        (\<lambda>_. okE (br_image_ref r)) k2 = (Inr img, t)"
    using assms(1) unfolding kaniko_build_def v sum.case by (elim bindE_InrE) blast
  have k1: "rest_keeps ?I k1"
    using keepsD [OF exists_env [of _ bc] env_undisturbed [OF assms(2), of "jo_spec ?j"]] s1 [unfolded lift_api_Inr] by simp
  have "rest_keeps ?I k2" using keepsD [OF env_calls(2) [of ?I jobs ?i ?j] k1] s2 [unfolded lift_api_Inr] by simp
  moreover have "gget (ob_jobs (kb_objects k2)) ?i = Some ?j"
  proof -
    have "holds_in (\<lambda>_. True) k1" by (simp add: holds_in_def rest_keeps_def)
    then obtain b where "kb_objects k2 = snd jobs (gput ?i ?j (fst jobs b)) b"
      by (rule create_ok [OF s2 [unfolded lift_api_Inr]])
    then show ?thesis by (simp add: kinds)
  qed
  ultimately have k2: "holds_in ?I k2" by (simp add: holds_in_def job_as_def)
  from s3 obtain x u where w: "wait_for_job polls ?i k2 = (Inr x, u)" and "okE (br_image_ref r) u = ((Inr img, t) :: (build_error + string) \<times> kube)"
    by (rule tryE_E) (simp_all split: prod.splits)
  then have "img = br_image_ref r" "u = t" by (simp_all add: okE_def)
  with waited_for_job [OF w k2] v show ?thesis by (auto simp: job_as_def)
qed

section \<open>Concrete builds\<close>

definition sample_build_conf :: build_conf where
  "sample_build_conf = new_kaniko_builder \<lparr>bc_namespace = [], bc_kaniko_image = [], bc_push_secret = ''push'',
     bc_git_credentials = [], bc_timeout = 0\<rparr>"

definition sample_request :: full_request where
  "sample_request = \<lparr>br_app_id = ''a1'', br_build_id = ''b1'', br_org_slug = ''acme'', br_project_slug = ''web'', br_app_name = ''api'',
     br_git_repo = ''https://github.com/acme/api'', br_git_ref = ''release/1'', br_context_dir = [], br_dockerfile = ''Dockerfile'',
     br_image_ref = ''registry/acme/api:1'', br_build_args = []\<rparr>"

definition sample_parse :: "string \<Rightarrow> clone_url option" where
  "sample_parse s = Some \<lparr>cu_scheme = ''https'', cu_host = ''github.com'', cu_path = ''/acme/api'', cu_fragment = False,
     cu_query = False, cu_user = False\<rparr>"

text \<open>the Job controller: the running build completes\<close>

definition complete :: "objects \<Rightarrow> objects" where
  "complete b = b\<lparr>ob_jobs := gmap (\<lambda>j. j\<lparr>jo_status := (jo_status j)\<lparr>jt_conditions := [\<lparr>cn_type = ''Complete'', cn_status = ''True'',
     cn_reason = [], cn_message = []\<rparr>]\<rparr>\<rparr>) (ob_jobs b)\<rparr>"

definition build_cluster :: "fault \<Rightarrow> kube" where
  "build_cluster f = \<lparr>kb_objects = no_objects, kb_schedule = [(NoFault, id), (NoFault, id), (NoFault, id), (f, id), (NoFault, complete)]\<rparr>"

text \<open>The builds below, evaluated together.\<close>

lemma sample_builds:
  "request_validate sample_parse sample_request = Inr () \<and>
   validated_repo sample_parse (br_git_repo sample_request) = Inr ''https://github.com/acme/api'' \<and>
   fst (kaniko_build (\<lambda>n s. s) sample_parse 5 sample_build_conf sample_request (build_cluster NoFault)) =
     Inr ''registry/acme/api:1'' \<and>
   bc_namespace sample_build_conf = ''vortex-builds'' \<and> job_name sample_request = ''build-a1-b1'' \<and>
   (case kaniko_build (\<lambda>n s. s) sample_parse 5 sample_build_conf sample_request (build_cluster FailBefore) of (r, t) \<Rightarrow>
     r = Inl (JobLost unreachable []) \<and>
     map_option (\<lambda>j. job_outcome (jt_conditions (jo_status j)))
       (gget (ob_jobs (complete (kb_objects t))) (''vortex-builds'', ''build-a1-b1'')) = Some (Some None))"
  by code_simp

theorem build_reads_as_asked_witness:
  "split_char (CHR ''#'') (kaniko_context sample_parse sample_request) = [''https://github.com/acme/api'', ''refs/heads/release/1'']"
proof -
  have "request_validate sample_parse sample_request = Inr ()"
    "validated_repo sample_parse (br_git_repo sample_request) = Inr ''https://github.com/acme/api''"
    using sample_builds by blast+
  with build_reads_as_asked [OF this(1)] show ?thesis by (auto simp: sample_request_def)
qed

theorem built_by_own_job_witness:
  "\<exists>t. kaniko_build (\<lambda>n s. s) sample_parse 5 sample_build_conf sample_request (build_cluster NoFault) =
     (Inr ''registry/acme/api:1'', t) \<and> gget (ob_jobs (kb_objects t)) (''vortex-builds'', ''build-a1-b1'') \<noteq> None"
proof -
  let ?b = "kaniko_build (\<lambda>n s. s) sample_parse 5 sample_build_conf sample_request (build_cluster NoFault)"
  have f: "fst ?b = Inr ''registry/acme/api:1''" "bc_namespace sample_build_conf = ''vortex-builds''"
    "job_name sample_request = ''build-a1-b1''"
    using sample_builds by blast+
  then obtain t where t: "?b = (Inr ''registry/acme/api:1'', t)" by (metis prod.collapse)
  have "undisturbed (bc_namespace sample_build_conf, job_name sample_request) (build_cluster NoFault)"
    by (auto simp: undisturbed_def build_cluster_def same_job_def complete_def)
  from built_by_own_job [OF t this] t f show ?thesis by auto
qed

text \<open>one lost answer while the Job is being watched fails the build, although the Job runs on and
  completes: the poll ends at the first error that is not a missing object.\<close>

theorem lost_poll_fails_build:
  "case kaniko_build (\<lambda>n s. s) sample_parse 5 sample_build_conf sample_request (build_cluster FailBefore) of (r, t) \<Rightarrow>
     r = Inl (JobLost unreachable []) \<and>
     map_option (\<lambda>j. job_outcome (jt_conditions (jo_status j)))
       (gget (ob_jobs (complete (kb_objects t))) (''vortex-builds'', ''build-a1-b1'')) = Some (Some None)"
  using sample_builds by (elim conjE)

text \<open>The isolation is only created: a policy of that name that lets everything out is left in place.\<close>

theorem isolation_not_repaired:
  assumes "gget (ob_policies b) (bc_namespace bc, deny_egress_policy) = Some np"
  shows "\<exists>c. ensure_isolation bc \<lparr>kb_objects = b, kb_schedule = []\<rparr> = (Inr (), \<lparr>kb_objects = c, kb_schedule = []\<rparr>) \<and>
     gget (ob_policies c) (bc_namespace bc, deny_egress_policy) = Some np"
  using assms
  by (cases "gget (ob_accounts b) (bc_namespace bc, builder_service_account)")
    (simp_all add: ensure_isolation_def ensure_builder_sa_def ensure_egress_policy_def or_exists_def create_obj_def call_def
      bindE_def tryE_def okE_def failE_def kinds)

end
