(* ===== verification/Build_Packs.thy ===== *)
theory Build_Packs
  imports Build_Kaniko
begin

text \<open>
  Builds without a Dockerfile (\<open>kube/builder.go\<close>, \<open>kube/buildpacks.go\<close>, \<open>kube/buildpacks_fake.go\<close>):
  the choice of a strategy and the Job of each. What the two builders have in common word for word
  (the checks of a repository and a branch, waiting for a Job, collecting logs, naming) is the one
  model of \<open>Build_Kaniko\<close>.
\<close>

section \<open>Requests and strategies\<close>

record pack_request = full_request +
  bp_strategy :: string
  bp_has_dockerfile :: bool
  bp_builder :: string

record pack_conf = build_conf +
  bc_buildpacks_image :: string
  bc_buildpacks_builder :: string
  bc_git_clone_image :: string

text \<open>A request and a configuration as the other builder knows them.\<close>

definition plain_request :: "pack_request \<Rightarrow> full_request" where
  "plain_request r = full_request.truncate r"

definition plain_conf :: "pack_conf \<Rightarrow> build_conf" where
  "plain_conf bc = build_conf.truncate bc"

definition default_buildpacks_image :: string where
  "default_buildpacks_image = ''buildpacksio/lifecycle:0.20.5''"

definition default_buildpacks_builder :: string where
  "default_buildpacks_builder = ''paketobuildpacks/builder-jammy-base:latest''"

definition default_git_clone_image :: string where
  "default_git_clone_image = ''alpine/git:2.45.2''"

definition new_kube_builder :: "pack_conf \<Rightarrow> pack_conf" where
  "new_kube_builder bc =
     (let or_else = (\<lambda>v d. if v = [] then d else v)
      in bc\<lparr>bc_namespace := or_else (bc_namespace bc) ''vortex-builds'',
            bc_kaniko_image := or_else (bc_kaniko_image bc) default_kaniko_image,
            bc_buildpacks_image := or_else (bc_buildpacks_image bc) default_buildpacks_image,
            bc_buildpacks_builder := or_else (bc_buildpacks_builder bc) default_buildpacks_builder,
            bc_git_clone_image := or_else (bc_git_clone_image bc) default_git_clone_image\<rparr>)"

definition strategy_dockerfile :: string where "strategy_dockerfile = ''dockerfile''"
definition strategy_buildpacks :: string where "strategy_buildpacks = ''buildpacks''"

definition detect_strategy :: "bool \<Rightarrow> string" where
  "detect_strategy has_dockerfile = (if has_dockerfile then strategy_dockerfile else strategy_buildpacks)"

definition resolve_strategy :: "pack_request \<Rightarrow> string" where
  "resolve_strategy r =
     (let s = to_lower (trim_space (bp_strategy r)) in if s \<noteq> [] then s else detect_strategy (bp_has_dockerfile r))"

definition builder_safe_image :: "string \<Rightarrow> bool" where
  "builder_safe_image s \<longleftrightarrow> (case s of [] \<Rightarrow> False | c # cs \<Rightarrow> alnum c \<and> list_all (\<lambda>c. alnum c \<or> c \<in> set ''._/:@-'') cs)"

text \<open>The builder image is checked after the Dockerfile and before the image reference.\<close>

definition pack_validate :: "(string \<Rightarrow> clone_url option) \<Rightarrow> pack_request \<Rightarrow> build_error + unit" where
  "pack_validate parse r =
     (case validated_repo parse (br_git_repo r) of
        Inl e \<Rightarrow> Inl e
      | Inr repo \<Rightarrow>
          if br_git_ref r \<noteq> [] \<and> \<not> safe_ref (br_git_ref r) then Inl BadRef
          else if br_context_dir r \<noteq> [] \<and> \<not> safe_path (br_context_dir r) then Inl BadContext
          else if br_dockerfile r \<noteq> [] \<and> \<not> safe_path (br_dockerfile r) then Inl BadDockerfile
          else if bp_builder r \<noteq> [] \<and> \<not> builder_safe_image (bp_builder r) then Inl BadBuilder
          else if trim_space (br_image_ref r) = [] then Inl NoImage
          else case find bad_arg_key (map fst (br_build_args r)) of Some k \<Rightarrow> Inl (BadBuildArg k) | None \<Rightarrow> Inr ())"

section \<open>Arguments and Jobs\<close>

definition git_context :: "(string \<Rightarrow> clone_url option) \<Rightarrow> pack_request \<Rightarrow> string" where
  "git_context parse r =
     (let git_ref = (if br_git_ref r = [] then ''main'' else br_git_ref r);
          repo = (case validated_repo parse (br_git_repo r) of Inl e \<Rightarrow> br_git_repo r | Inr s \<Rightarrow> s)
      in repo @ ''#refs/heads/'' @ git_ref)"

definition pack_kaniko_args :: "(string \<Rightarrow> clone_url option) \<Rightarrow> pack_request \<Rightarrow> string list" where
  "pack_kaniko_args parse r =
     [''--context='' @ git_context parse r,
      ''--dockerfile='' @ (if br_dockerfile r = [] then ''Dockerfile'' else br_dockerfile r),
      ''--destination='' @ br_image_ref r] @
     (if br_context_dir r \<noteq> [] then [''--context-sub-path='' @ br_context_dir r] else []) @
     concat (map (\<lambda>(k, v). [''--build-arg'', k @ ''='' @ v]) (build_arg_entries (br_build_args r)))"

definition cnb_workspace_dir :: string where "cnb_workspace_dir = ''/workspace''"
definition cnb_layers_dir :: string where "cnb_layers_dir = ''/layers''"
definition cnb_docker_config_dir :: string where "cnb_docker_config_dir = ''/cnb/.docker''"

definition buildpacks_args :: "pack_conf \<Rightarrow> pack_request \<Rightarrow> string list" where
  "buildpacks_args bc r =
     [''-app='' @ cnb_workspace_dir @ (if br_context_dir r \<noteq> [] then ''/'' @ br_context_dir r else []),
      ''-layers='' @ cnb_layers_dir,
      ''-run-image='' @ (if bp_builder r = [] then bc_buildpacks_builder bc else bp_builder r),
      br_image_ref r]"

definition pack_git_credentials_env :: "pack_conf \<Rightarrow> (string \<times> env_value) list" where
  "pack_git_credentials_env bc =
     (if bc_git_credentials bc = [] then []
      else map (\<lambda>k. (k, EnvSecret (bc_git_credentials bc) k)) [''GIT_USERNAME'', ''GIT_PASSWORD'', ''GIT_TOKEN''])"

definition git_clone_init :: "(string \<Rightarrow> clone_url option) \<Rightarrow> pack_conf \<Rightarrow> pack_request \<Rightarrow> string \<Rightarrow> container" where
  "git_clone_init parse bc r vol =
     (let git_ref = (if br_git_ref r = [] then ''main'' else br_git_ref r);
          repo = (case validated_repo parse (br_git_repo r) of Inl e \<Rightarrow> br_git_repo r | Inr s \<Rightarrow> s)
      in \<lparr>cn_name = ''git-clone'', cn_image = bc_git_clone_image bc, cn_command = [],
          cn_args = [''clone'', ''--depth=1'', ''--single-branch'', ''--branch'', git_ref, repo, cnb_workspace_dir],
          cn_env = pack_git_credentials_env bc, cn_mounts = [(vol, cnb_workspace_dir)], cn_escalation = False,
          cn_dropped = [''ALL'']\<rparr>)"

definition docker_config_volume :: "pack_conf \<Rightarrow> string \<Rightarrow> volume" where
  "docker_config_volume bc name =
     (if bc_push_secret bc \<noteq> [] then SecretVolume name (bc_push_secret bc) [(''.dockerconfigjson'', ''config.json'')]
      else EmptyDir name)"

definition pack_container :: "(string \<Rightarrow> clone_url option) \<Rightarrow> pack_conf \<Rightarrow> pack_request \<Rightarrow> container" where
  "pack_container parse bc r =
     (let kaniko = (resolve_strategy r = strategy_dockerfile)
      in \<lparr>cn_name = (if kaniko then ''kaniko'' else ''lifecycle''),
          cn_image = (if kaniko then bc_kaniko_image bc else bc_buildpacks_image bc), cn_command = [],
          cn_args = (if kaniko then pack_kaniko_args parse r else buildpacks_args bc r),
          cn_env = pack_git_credentials_env bc @
            (if kaniko then []
             else (''CNB_APP_DIR'', EnvText cnb_workspace_dir) # map (\<lambda>(k, v). (k, EnvText v)) (build_arg_entries (br_build_args r))),
          cn_mounts = (''docker-config'', if kaniko then docker_config_mount else cnb_docker_config_dir) #
            (if kaniko then [] else [(''cnb-workspace'', cnb_workspace_dir), (''cnb-layers'', cnb_layers_dir)]),
          cn_escalation = False, cn_dropped = [''ALL'']\<rparr>)"

definition pack_job :: "(string \<Rightarrow> clone_url option) \<Rightarrow> pack_conf \<Rightarrow> pack_request \<Rightarrow> job" where
  "pack_job parse bc r =
     (let strategy = resolve_strategy r; kaniko = (strategy = strategy_dockerfile); name = job_name (plain_request r);
          labels = [(''app.kubernetes.io/managed-by'', ''vortex''), (''vortex.io/build'', strategy)]
      in \<lparr>jo_labels = labels @ [(''vortex.io/app'', build_sanitize (br_app_id r))], jo_scheduled = False, jo_created = 0,
          jo_spec = \<lparr>js_backoff = 0, js_ttl = 3600, js_deadline = build_timeout (plain_conf bc) div second_ns,
            js_pod = \<lparr>po_labels = labels @ [(''job-name'', name)], po_service_account = builder_service_account, po_automount = False,
              po_non_root = False, po_seccomp = ''RuntimeDefault'',
              po_init = (if kaniko then [] else [git_clone_init parse bc r ''cnb-workspace'']),
              po_containers = [pack_container parse bc r],
              po_volumes = docker_config_volume bc ''docker-config'' #
                (if kaniko then [] else [EmptyDir ''cnb-workspace'', EmptyDir ''cnb-layers'']),
              po_scheduled = False\<rparr>\<rparr>,
          jo_status = \<lparr>jt_conditions = [], jt_active = 0, jt_succeeded = 0, jt_failed = 0, jt_completed = None\<rparr>\<rparr>)"

section \<open>Building\<close>

definition pack_policy :: network_policy where
  "pack_policy =
     \<lparr>np_selector = LabelExists ''vortex.io/build'', np_ingress = None,
      np_egress = Some
        [\<lparr>eg_to = [], eg_ports = [(UDP, 53), (TCP, 53)]\<rparr>,
         \<lparr>eg_to = [IpBlock ''0.0.0.0/0'' [''10.0.0.0/8'', ''172.16.0.0/12'', ''192.168.0.0/16'']],
          eg_ports = [(TCP, 443), (TCP, 9418)]\<rparr>]\<rparr>"

definition pack_ensure_sa :: "pack_conf \<Rightarrow> unit aop" where
  "pack_ensure_sa bc = or_exists (create_obj accounts (bc_namespace bc, builder_service_account) False)"

definition pack_ensure_egress :: "pack_conf \<Rightarrow> unit aop" where
  "pack_ensure_egress bc = or_exists (create_obj policies (bc_namespace bc, deny_egress_policy) pack_policy)"

definition pack_ensure_isolation :: "pack_conf \<Rightarrow> unit aop" where
  "pack_ensure_isolation bc = bindE (pack_ensure_sa bc) (\<lambda>_. pack_ensure_egress bc)"

definition pack_build ::
    "(int \<Rightarrow> string \<Rightarrow> string) \<Rightarrow> (string \<Rightarrow> clone_url option) \<Rightarrow> nat \<Rightarrow> pack_conf \<Rightarrow> pack_request \<Rightarrow>
     (build_error, kube, string \<times> string) op" where
  "pack_build tail parse polls bc r =
     (let name = job_name (plain_request r)
      in case pack_validate parse r of
           Inl e \<Rightarrow> failE e
         | Inr _ \<Rightarrow>
             bindE (lift_api NotIsolated (pack_ensure_isolation bc)) (\<lambda>_.
             bindE (lift_api (\<lambda>e. if e = AExists then DuplicateJob name else NotCreated e)
                     (create_obj jobs (bc_namespace bc, name) (pack_job parse bc r))) (\<lambda>_.
             tryE (wait_for_job polls (bc_namespace bc, name))
               (\<lambda>e k. case collect_logs tail (bc_namespace bc) name k of (logs, t) \<Rightarrow> (Inl (with_logs e logs), t))
               (\<lambda>_. okE (br_image_ref r, resolve_strategy r)))))"

record fake_pack_builder =
  fp_requests :: "pack_request list"
  fp_image_override :: string
  fp_err :: "string option"

definition fake_pack_build :: "pack_request \<Rightarrow> (string, fake_pack_builder, string \<times> string) op" where
  "fake_pack_build r f =
     (let g = f\<lparr>fp_requests := fp_requests f @ [r]\<rparr>
      in case fp_err f of
           Some e \<Rightarrow> (Inl e, g)
         | None \<Rightarrow> (Inr (if fp_image_override f \<noteq> [] then fp_image_override f else br_image_ref r, resolve_strategy r), g))"

section \<open>The two builders\<close>

lemma plain_simps [simp]:
  "br_app_id (plain_request r) = br_app_id r" "br_git_repo (plain_request r) = br_git_repo r"
  "br_git_ref (plain_request r) = br_git_ref r" "br_context_dir (plain_request r) = br_context_dir r"
  "br_dockerfile (plain_request r) = br_dockerfile r" "br_image_ref (plain_request r) = br_image_ref r"
  "br_build_args (plain_request r) = br_build_args r"
  "bc_kaniko_image (plain_conf c) = bc_kaniko_image c" "bc_push_secret (plain_conf c) = bc_push_secret c"
  "bc_git_credentials (plain_conf c) = bc_git_credentials c"
  by (simp_all add: plain_request_def plain_conf_def full_request.truncate_def build_conf.truncate_def)

text \<open>a source with a Dockerfile is built alike by both builders: the Jobs they submit for it differ in
  the value of one label only.\<close>

theorem dockerfile_builders_agree:
  assumes "resolve_strategy r = strategy_dockerfile"
  shows "pack_job parse bc r =
     (let j = kaniko_job parse (plain_conf bc) (plain_request r);
          relabel = gput ''vortex.io/build'' ''dockerfile'';
          p = js_pod (jo_spec j)
      in j\<lparr>jo_labels := relabel (jo_labels j), jo_spec := (jo_spec j)\<lparr>js_pod := p\<lparr>po_labels := relabel (po_labels p)\<rparr>\<rparr>\<rparr>)"
  using assms
  by (simp add: pack_job_def kaniko_job_def build_pod_def pack_container_def docker_config_volume_def pack_kaniko_args_def
      kaniko_args_def git_context_def kaniko_context_def pack_git_credentials_env_def git_credentials_env_def
      build_labels_def strategy_dockerfile_def gput_def Let_def cong: sum.case_cong)

text \<open>Which pods a policy is about.\<close>

fun selects :: "pod_selector \<Rightarrow> (string, string) gomap \<Rightarrow> bool" where
  "selects AllPods labels \<longleftrightarrow> True"
| "selects (LabelIs k v) labels \<longleftrightarrow> gget labels k = Some v"
| "selects (LabelExists k) labels \<longleftrightarrow> gget labels k \<noteq> None"

text \<open>Each builder's own policy is about its own pods.\<close>

lemma own_policy_selects:
  "selects (np_selector builder_policy) (po_labels (build_pod parse c q))"
  "selects (np_selector pack_policy) (po_labels (js_pod (jo_spec (pack_job parse bc r))))"
  by (simp_all add: builder_policy_def pack_policy_def build_pod_def build_labels_def pack_job_def Let_def gget_def)

text \<open>the two builders name their policies alike and only create them: where the first has made its
  policy, the second finds one of that name, reports the namespace isolated, and runs its pods,
  which that policy does not select, without any limit to where they may connect.\<close>

theorem second_builder_unconfined:
  assumes "bc_namespace bc = bc_namespace kc" "resolve_strategy r \<noteq> ''kaniko''"
  shows "\<exists>k1 k2 np. ensure_isolation kc \<lparr>kb_objects = no_objects, kb_schedule = []\<rparr> = (Inr (), k1) \<and>
     pack_ensure_isolation bc k1 = (Inr (), k2) \<and>
     ob_policies (kb_objects k2) = [((bc_namespace bc, deny_egress_policy), np)] \<and>
     \<not> selects (np_selector np) (po_labels (js_pod (jo_spec (pack_job parse bc r))))"
proof -
  let ?k = "\<lparr>kb_objects = no_objects\<lparr>ob_accounts := [((bc_namespace kc, builder_service_account), False)],
      ob_policies := [((bc_namespace kc, deny_egress_policy), builder_policy)]\<rparr>, kb_schedule = []\<rparr>"
  have "ensure_isolation kc \<lparr>kb_objects = no_objects, kb_schedule = []\<rparr> = (Inr (), ?k)"
    by (simp add: ensure_isolation_def ensure_builder_sa_def ensure_egress_policy_def or_exists_def bindE_def tryE_def okE_def
        create_calm no_objects_def kinds)
  moreover have "pack_ensure_isolation bc ?k = (Inr (), ?k)"
    using assms(1) by (simp add: pack_ensure_isolation_def pack_ensure_sa_def pack_ensure_egress_def or_exists_def bindE_def tryE_def
        okE_def create_obj_def call_def kinds gget_def)
  moreover have "\<not> selects (np_selector builder_policy) (po_labels (js_pod (jo_spec (pack_job parse bc r))))"
    using assms(2) by (simp add: builder_policy_def pack_job_def Let_def gget_def)
  ultimately show ?thesis using assms(1) by auto
qed

definition sample_pack :: "string \<Rightarrow> pack_request" where
  "sample_pack strategy = full_request.extend sample_request \<lparr>bp_strategy = strategy, bp_has_dockerfile = True, bp_builder = []\<rparr>"

definition sample_pack_conf :: pack_conf where
  "sample_pack_conf = new_kube_builder (build_conf.extend sample_build_conf
     \<lparr>bc_buildpacks_image = [], bc_buildpacks_builder = [], bc_git_clone_image = []\<rparr>)"

theorem dockerfile_builders_agree_witness:
  "cn_args (hd (po_containers (js_pod (jo_spec (pack_job sample_parse sample_pack_conf (sample_pack [])))))) =
   kaniko_args sample_parse sample_request"
proof -
  have "resolve_strategy (sample_pack []) = strategy_dockerfile"
    by (simp add: resolve_strategy_def sample_pack_def full_request.extend_def sample_request_def strategy_dockerfile_def strategy_buildpacks_def trim_space_def trim_by_def
      to_lower_def detect_strategy_def Let_def)
  moreover have "plain_request (sample_pack []) = sample_request"
    by (simp add: plain_request_def sample_pack_def full_request.truncate_def full_request.extend_def)
  ultimately show ?thesis
    using dockerfile_builders_agree [of "sample_pack []" sample_parse sample_pack_conf]
    by (simp add: Let_def kaniko_job_def build_pod_def)
qed

end
