(* ===== verification/Http_Paths.thy ===== *)
theory Http_Paths
  imports Http_Server
begin

text \<open>
  From a method, a path and a body to the route that serves them: the table the router is built
  from (\<open>routes\<close> of \<open>httpx/server.go\<close>) and what the handlers read from path and body before they
  call a service. The router itself (\<open>chi\<close>) is an argument; all that is relied on is that it finds
  the entry of the table when one entry alone fits the request. JSON objects are lists of fields.
\<close>

section \<open>JSON bodies\<close>

datatype json = TextJson string | NumberJson real | BoolJson bool | ListJson "string list"

type_synonym json_object = "(string \<times> json) list"

text \<open>The decoder of the standard library: of equal keys the last one counts, and keys match but for case.\<close>

fun field :: "json_object \<Rightarrow> string \<Rightarrow> json option" where
  "field [] k = None"
| "field ((j, v) # b) k = (case field b k of Some w \<Rightarrow> Some w | None \<Rightarrow> if equal_fold j k then Some v else None)"

definition text_field :: "json_object \<Rightarrow> string \<Rightarrow> string option" where
  "text_field b k = (case field b k of None \<Rightarrow> Some [] | Some (TextJson s) \<Rightarrow> Some s | Some _ \<Rightarrow> None)"

definition bool_field :: "json_object \<Rightarrow> string \<Rightarrow> bool option" where
  "bool_field b k = (case field b k of None \<Rightarrow> Some False | Some (BoolJson v) \<Rightarrow> Some v | Some _ \<Rightarrow> None)"

definition real_field :: "json_object \<Rightarrow> string \<Rightarrow> real option" where
  "real_field b k = (case field b k of None \<Rightarrow> Some 0 | Some (NumberJson x) \<Rightarrow> Some x | Some _ \<Rightarrow> None)"

definition whole :: "real \<Rightarrow> int option" where
  "whole x = (if real_of_int \<lfloor>x\<rfloor> = x then Some \<lfloor>x\<rfloor> else None)"

definition int_field :: "json_object \<Rightarrow> string \<Rightarrow> int option" where
  "int_field b k = (case field b k of None \<Rightarrow> Some 0 | Some (NumberJson x) \<Rightarrow> whole x | Some _ \<Rightarrow> None)"

definition list_field :: "json_object \<Rightarrow> string \<Rightarrow> string list option" where
  "list_field b k = (case field b k of None \<Rightarrow> Some [] | Some (ListJson xs) \<Rightarrow> Some xs | Some _ \<Rightarrow> None)"

text \<open>A pointer is nil when its field is absent.\<close>

definition pointer_field :: "(json_object \<Rightarrow> string \<Rightarrow> 'a option) \<Rightarrow> json_object \<Rightarrow> string \<Rightarrow> 'a option option" where
  "pointer_field get b k = (if field b k = None then Some None else map_option Some (get b k))"

definition known_fields :: "string list \<Rightarrow> json_object \<Rightarrow> bool" where
  "known_fields ks b \<longleftrightarrow> list_all (\<lambda>(j, v). list_ex (equal_fold j) ks) b"

text \<open>\<open>decodeJSON\<close>: no body, a field of the wrong type and an unknown field are refused.\<close>

definition decode_json :: "string list \<Rightarrow> (json_object \<Rightarrow> 'a option) \<Rightarrow> json_object option \<Rightarrow> 'a option" where
  "decode_json ks read body =
     Option.bind body (\<lambda>b. if known_fields ks b then read b else None)"

definition decode_one_text :: "string \<Rightarrow> json_object option \<Rightarrow> string option" where
  "decode_one_text k = decode_json [k] (\<lambda>b. text_field b k)"

definition decode_signup :: "json_object option \<Rightarrow> signup_request option" where
  "decode_signup = decode_json [''email'', ''name'', ''password''] (\<lambda>b.
     Option.bind (text_field b ''email'') (\<lambda>e.
     Option.bind (text_field b ''name'') (\<lambda>n.
     Option.bind (text_field b ''password'') (\<lambda>p. Some \<lparr>sq_email = e, sq_name = n, sq_password = p\<rparr>))))"

definition decode_login :: "json_object option \<Rightarrow> login_request option" where
  "decode_login = decode_json [''email'', ''password''] (\<lambda>b.
     Option.bind (text_field b ''email'') (\<lambda>e.
     Option.bind (text_field b ''password'') (\<lambda>p. Some \<lparr>lq_email = e, lq_password = p\<rparr>)))"

definition decode_reset_password :: "json_object option \<Rightarrow> reset_password_request option" where
  "decode_reset_password = decode_json [''token'', ''password''] (\<lambda>b.
     Option.bind (text_field b ''token'') (\<lambda>t.
     Option.bind (text_field b ''password'') (\<lambda>p. Some \<lparr>rr_token = t, rr_password = p\<rparr>)))"

definition decode_create_token :: "json_object option \<Rightarrow> create_token_request option" where
  "decode_create_token = decode_json [''name'', ''scopes'', ''expiresInDays''] (\<lambda>b.
     Option.bind (text_field b ''name'') (\<lambda>n.
     Option.bind (list_field b ''scopes'') (\<lambda>ss.
     Option.bind (int_field b ''expiresInDays'') (\<lambda>d. Some \<lparr>tq_name = n, tq_scopes = ss, tq_expires_in_days = d\<rparr>))))"

definition decode_update_org :: "json_object option \<Rightarrow> update_org_input option" where
  "decode_update_org = decode_json [''name'', ''billingEmail''] (\<lambda>b.
     Option.bind (pointer_field text_field b ''name'') (\<lambda>n.
     Option.bind (pointer_field text_field b ''billingEmail'') (\<lambda>e. Some \<lparr>uo_name = n, uo_billing_email = e\<rparr>)))"

definition decode_invite :: "json_object option \<Rightarrow> invite_request option" where
  "decode_invite = decode_json [''email'', ''role'', ''projectId''] (\<lambda>b.
     Option.bind (text_field b ''email'') (\<lambda>e.
     Option.bind (text_field b ''role'') (\<lambda>r.
     Option.bind (text_field b ''projectId'') (\<lambda>p. Some \<lparr>iq_email = e, iq_role = r, iq_project_id = p\<rparr>))))"

definition decode_create_app :: "json_object option \<Rightarrow> create_app_request option" where
  "decode_create_app = decode_json [''name'', ''projectId'', ''image'', ''gitRepository'', ''gitBranch'', ''buildPack'', ''cpu'',
      ''memoryMb'', ''region''] (\<lambda>b.
     Option.bind (text_field b ''name'') (\<lambda>n.
     Option.bind (text_field b ''projectId'') (\<lambda>p.
     Option.bind (text_field b ''image'') (\<lambda>im.
     Option.bind (text_field b ''gitRepository'') (\<lambda>gr.
     Option.bind (text_field b ''gitBranch'') (\<lambda>gb.
     Option.bind (text_field b ''buildPack'') (\<lambda>bp.
     Option.bind (real_field b ''cpu'') (\<lambda>c.
     Option.bind (int_field b ''memoryMb'') (\<lambda>m.
     Option.bind (text_field b ''region'') (\<lambda>r.
       Some \<lparr>aq_name = n, aq_project_id = p, aq_image = im, aq_git_repository = gr, aq_git_branch = gb, aq_build_pack = bp,
         aq_cpu = c, aq_memory_mb = m, aq_region = r\<rparr>))))))))))"

definition decode_update_app :: "json_object option \<Rightarrow> update_app_input option" where
  "decode_update_app = decode_json [''image'', ''cpu'', ''memoryMb'', ''gitRepository'', ''gitBranch''] (\<lambda>b.
     Option.bind (pointer_field text_field b ''image'') (\<lambda>im.
     Option.bind (pointer_field real_field b ''cpu'') (\<lambda>c.
     Option.bind (pointer_field int_field b ''memoryMb'') (\<lambda>m.
     Option.bind (pointer_field text_field b ''gitRepository'') (\<lambda>gr.
     Option.bind (pointer_field text_field b ''gitBranch'') (\<lambda>gb.
       Some \<lparr>ua_image = im, ua_cpu = c, ua_memory_mb = m, ua_git_repository = gr, ua_git_branch = gb\<rparr>))))))"

definition decode_scale_app :: "json_object option \<Rightarrow> scale_app_input option" where
  "decode_scale_app = decode_json [''minReplicas'', ''maxReplicas''] (\<lambda>b.
     Option.bind (pointer_field int_field b ''minReplicas'') (\<lambda>lo.
     Option.bind (pointer_field int_field b ''maxReplicas'') (\<lambda>hi. Some \<lparr>sa_min_replicas = lo, sa_max_replicas = hi\<rparr>)))"

text \<open>Going back to a revision and refreshing a session need no body at all.\<close>

definition optional_body :: "(json_object option \<Rightarrow> 'a option) \<Rightarrow> json_object option \<Rightarrow> 'a option option" where
  "optional_body dec body = (case body of None \<Rightarrow> None | Some b \<Rightarrow> Some (dec (Some b)))"

definition decode_rollback :: "json_object option \<Rightarrow> int option option" where
  "decode_rollback = optional_body (decode_json [''revision''] (\<lambda>b. int_field b ''revision''))"

definition decode_set_env :: "json_object option \<Rightarrow> set_env_request option" where
  "decode_set_env = decode_json [''key'', ''value'', ''secret''] (\<lambda>b.
     Option.bind (text_field b ''key'') (\<lambda>k.
     Option.bind (text_field b ''value'') (\<lambda>v.
     Option.bind (bool_field b ''secret'') (\<lambda>s. Some \<lparr>eq_key = k, eq_value = v, eq_secret = s\<rparr>))))"

definition decode_create_service :: "json_object option \<Rightarrow> create_service_input option" where
  "decode_create_service = decode_json [''templateKey'', ''name'', ''image'', ''cpu'', ''memoryMb'', ''region''] (\<lambda>b.
     Option.bind (text_field b ''templateKey'') (\<lambda>t.
     Option.bind (text_field b ''name'') (\<lambda>n.
     Option.bind (text_field b ''image'') (\<lambda>im.
     Option.bind (real_field b ''cpu'') (\<lambda>c.
     Option.bind (int_field b ''memoryMb'') (\<lambda>m.
     Option.bind (text_field b ''region'') (\<lambda>r.
       Some \<lparr>cs_template_key = t, cs_name = n, cs_image = im, cs_cpu = c, cs_memory_mb = m, cs_region = r\<rparr>)))))))"

definition decode_create_database :: "json_object option \<Rightarrow> create_database_input option" where
  "decode_create_database = decode_json [''name'', ''engine'', ''projectId'', ''cpu'', ''memoryMb'', ''storageGb'', ''region''] (\<lambda>b.
     Option.bind (text_field b ''name'') (\<lambda>n.
     Option.bind (text_field b ''engine'') (\<lambda>e.
     Option.bind (text_field b ''projectId'') (\<lambda>p.
     Option.bind (real_field b ''cpu'') (\<lambda>c.
     Option.bind (int_field b ''memoryMb'') (\<lambda>m.
     Option.bind (int_field b ''storageGb'') (\<lambda>st.
     Option.bind (text_field b ''region'') (\<lambda>r.
       Some \<lparr>cd_name = n, cd_engine = e, cd_project_id = p, cd_cpu = c, cd_memory_mb = m, cd_storage_gb = st, cd_region = r\<rparr>))))))))"

definition decode_spend_cap :: "json_object option \<Rightarrow> int option option" where
  "decode_spend_cap = decode_json [''spendCapCents''] (\<lambda>b. pointer_field int_field b ''spendCapCents'')"

text \<open>What the operator routes read from a body, and the body of a webhook, are arguments.\<close>

record operator_bodies =
  ob_plan :: "json_object option \<Rightarrow> plan option"
  ob_onto_plan :: "json_object option \<Rightarrow> plan \<Rightarrow> plan option"
  ob_pricing :: "json_object option \<Rightarrow> pricing_component option"
  ob_onto_pricing :: "json_object option \<Rightarrow> pricing_component \<Rightarrow> pricing_component option"
  ob_template :: "json_object option \<Rightarrow> service_template option"
  ob_onto_template :: "json_object option \<Rightarrow> service_template \<Rightarrow> service_template option"
  ob_onto_settings :: "json_object option \<Rightarrow> platform_settings \<Rightarrow> platform_settings option"
  ob_webhook :: "json_object option \<Rightarrow> public_route"

section \<open>The table\<close>

text \<open>
  Patterns are lists of segments, of which those in braces stand for any segment and name it. An
  entry ends in what its handler makes of these parameters, of the query and of the body.
\<close>

datatype http_endpoint = HealthCheck | ReadyCheck | MetricsText | VersionInfo | Api route

type_synonym url_params = "(string \<times> string) list"
type_synonym route_entry = "string \<times> string list \<times> (url_params \<Rightarrow> url_params \<Rightarrow> json_object option \<Rightarrow> http_endpoint)"

definition url_param :: "url_params \<Rightarrow> string \<Rightarrow> string" where
  "url_param ps k = (case map_of ps k of None \<Rightarrow> [] | Some v \<Rightarrow> v)"

definition mount :: "string list \<Rightarrow> route_entry list \<Rightarrow> route_entry list" where
  "mount pre t = map (\<lambda>(m, pat, f). (m, pre @ pat, f)) t"

definition public_entries :: "operator_bodies \<Rightarrow> route_entry list" where
  "public_entries ob =
     [(''GET'', [''version''], \<lambda>ps qs b. VersionInfo),
      (''POST'', [''auth'', ''signup''], \<lambda>ps qs b. Api (Public (Signup (decode_signup b)))),
      (''POST'', [''auth'', ''login''], \<lambda>ps qs b. Api (Public (Login (decode_login b)))),
      (''POST'', [''auth'', ''refresh''], \<lambda>ps qs b. Api (Public (Refresh (optional_body (decode_one_text ''refreshToken'') b)))),
      (''POST'', [''auth'', ''password'', ''forgot''], \<lambda>ps qs b. Api (Public (ForgotPassword (decode_one_text ''email'' b)))),
      (''POST'', [''auth'', ''password'', ''reset''], \<lambda>ps qs b. Api (Public (ResetPassword (decode_reset_password b)))),
      (''GET'', [''billing'', ''plans''], \<lambda>ps qs b. Api (Public BillingPlans)),
      (''GET'', [''billing'', ''pricing''], \<lambda>ps qs b. Api (Public BillingPricing)),
      (''POST'', [''billing'', ''webhook''], \<lambda>ps qs b. Api (Public (ob_webhook ob b))),
      (''GET'', [''services'', ''catalog''], \<lambda>ps qs b. Api (Public ServicesCatalog))]"

definition account_entries :: "route_entry list" where
  "account_entries =
     [(''GET'', [''me''], \<lambda>ps qs b. Api (Account Me)),
      (''POST'', [''auth'', ''logout''], \<lambda>ps qs b. Api (Account Logout)),
      (''POST'', [''tokens''], \<lambda>ps qs b. Api (Account (CreateToken (decode_create_token b)))),
      (''GET'', [''tokens''], \<lambda>ps qs b. Api (Account ListTokens)),
      (''DELETE'', [''tokens'', ''{id}''], \<lambda>ps qs b. Api (Account (DeleteToken (url_param ps ''id'')))),
      (''POST'', [''invitations'', ''accept''], \<lambda>ps qs b. Api (Account (account_route.AcceptInvitation (decode_one_text ''token'' b)))),
      (''GET'', [''orgs''], \<lambda>ps qs b. Api (Account ListOrgs)),
      (''POST'', [''orgs''], \<lambda>ps qs b. Api (Account (CreateOrg (decode_one_text ''name'' b))))]"

definition admin_entries :: "operator_bodies \<Rightarrow> route_entry list" where
  "admin_entries ob =
     [(''GET'', [''overview''], \<lambda>ps qs b. Api (Admin AdminOverview)),
      (''GET'', [''plans''], \<lambda>ps qs b. Api (Admin AdminListPlans)),
      (''POST'', [''plans''], \<lambda>ps qs b. Api (Admin (AdminCreatePlan (ob_plan ob b)))),
      (''PATCH'', [''plans'', ''{id}''], \<lambda>ps qs b. Api (Admin (AdminUpdatePlan (url_param ps ''id'') (ob_onto_plan ob b)))),
      (''DELETE'', [''plans'', ''{id}''], \<lambda>ps qs b. Api (Admin (AdminDeletePlan (url_param ps ''id'')))),
      (''GET'', [''pricing''], \<lambda>ps qs b. Api (Admin AdminListPricing)),
      (''POST'', [''pricing''], \<lambda>ps qs b. Api (Admin (AdminCreatePricing (ob_pricing ob b)))),
      (''PATCH'', [''pricing'', ''{key}''], \<lambda>ps qs b. Api (Admin (AdminUpdatePricing (url_param ps ''key'') (ob_onto_pricing ob b)))),
      (''DELETE'', [''pricing'', ''{key}''], \<lambda>ps qs b. Api (Admin (AdminDeletePricing (url_param ps ''key'')))),
      (''GET'', [''templates''], \<lambda>ps qs b. Api (Admin AdminListTemplates)),
      (''POST'', [''templates''], \<lambda>ps qs b. Api (Admin (AdminCreateTemplate (ob_template ob b)))),
      (''PATCH'', [''templates'', ''{key}''], \<lambda>ps qs b. Api (Admin (AdminUpdateTemplate (url_param ps ''key'') (ob_onto_template ob b)))),
      (''DELETE'', [''templates'', ''{key}''], \<lambda>ps qs b. Api (Admin (AdminDeleteTemplate (url_param ps ''key'')))),
      (''GET'', [''settings''], \<lambda>ps qs b. Api (Admin AdminGetSettings)),
      (''PATCH'', [''settings''], \<lambda>ps qs b. Api (Admin (AdminUpdateSettings (ob_onto_settings ob b)))),
      (''GET'', [''audit''], \<lambda>ps qs b. Api (Admin (AdminAudit (url_param qs ''limit'') (url_param qs ''offset''))))]"

definition project_entries :: "route_entry list" where
  "project_entries =
     [(''GET'', [], \<lambda>ps qs b. Api (Org (url_param ps ''orgID'') ListProjects)),
      (''POST'', [], \<lambda>ps qs b. Api (Org (url_param ps ''orgID'') (CreateProject (decode_one_text ''name'' b)))),
      (''DELETE'', [''{projectID}''], \<lambda>ps qs b. Api (Org (url_param ps ''orgID'') (DeleteProject (url_param ps ''projectID'')))),
      (''GET'', [''{projectID}'', ''apps''], \<lambda>ps qs b. Api (Org (url_param ps ''orgID'') (ListProjectApps (url_param ps ''projectID'')))),
      (''POST'', [''{projectID}'', ''apps''],
         \<lambda>ps qs b. Api (Org (url_param ps ''orgID'') (CreateAppInProject (url_param ps ''projectID'') (decode_create_app b)))),
      (''POST'', [''{projectID}'', ''services''],
         \<lambda>ps qs b. Api (Org (url_param ps ''orgID'') (CreateService (url_param ps ''projectID'') (decode_create_service b))))]"

definition to_app :: "(url_params \<Rightarrow> url_params \<Rightarrow> json_object option \<Rightarrow> app_route) \<Rightarrow>
    url_params \<Rightarrow> url_params \<Rightarrow> json_object option \<Rightarrow> http_endpoint" where
  "to_app f ps qs b = Api (Org (url_param ps ''orgID'') (AppRoute (url_param ps ''appID'') (f ps qs b)))"

definition app_entries :: "route_entry list" where
  "app_entries =
     [(''GET'', [], \<lambda>ps qs b. Api (Org (url_param ps ''orgID'') ListApps)),
      (''POST'', [], \<lambda>ps qs b. Api (Org (url_param ps ''orgID'') (CreateApp (decode_create_app b)))),
      (''GET'', [''{appID}''], to_app (\<lambda>ps qs b. GetApp)),
      (''GET'', [''{appID}'', ''status''], to_app (\<lambda>ps qs b. AppStatus)),
      (''GET'', [''{appID}'', ''logs''], to_app (\<lambda>ps qs b. AppLogs)),
      (''PATCH'', [''{appID}''], to_app (\<lambda>ps qs b. UpdateApp (decode_update_app b))),
      (''DELETE'', [''{appID}''], to_app (\<lambda>ps qs b. DeleteApp)),
      (''POST'', [''{appID}'', ''deploy''], to_app (\<lambda>ps qs b. DeployApp)),
      (''POST'', [''{appID}'', ''stop''], to_app (\<lambda>ps qs b. StopApp)),
      (''POST'', [''{appID}'', ''restart''], to_app (\<lambda>ps qs b. RestartApp)),
      (''POST'', [''{appID}'', ''scale''], to_app (\<lambda>ps qs b. ScaleApp (decode_scale_app b))),
      (''GET'', [''{appID}'', ''releases''], to_app (\<lambda>ps qs b. ListReleases (url_param qs ''limit'') (url_param qs ''offset''))),
      (''POST'', [''{appID}'', ''rollback''], to_app (\<lambda>ps qs b. RollbackApp (decode_rollback b))),
      (''GET'', [''{appID}'', ''env''], to_app (\<lambda>ps qs b. ListAppEnv)),
      (''PUT'', [''{appID}'', ''env''], to_app (\<lambda>ps qs b. SetAppEnv (decode_set_env b))),
      (''DELETE'', [''{appID}'', ''env'', ''{key}''], to_app (\<lambda>ps qs b. DeleteAppEnv (url_param ps ''key''))),
      (''GET'', [''{appID}'', ''domains''], to_app (\<lambda>ps qs b. ListAppDomains)),
      (''POST'', [''{appID}'', ''domains''], to_app (\<lambda>ps qs b. AddAppDomain (decode_one_text ''domain'' b))),
      (''POST'', [''{appID}'', ''domains'', ''{domainID}'', ''verify''], to_app (\<lambda>ps qs b. VerifyAppDomain (url_param ps ''domainID''))),
      (''DELETE'', [''{appID}'', ''domains'', ''{domainID}''], to_app (\<lambda>ps qs b. DeleteAppDomain (url_param ps ''domainID''))),
      (''GET'', [''{appID}'', ''metrics''], to_app (\<lambda>ps qs b. AppMetrics)),
      (''GET'', [''{appID}'', ''builds''], to_app (\<lambda>ps qs b. ListBuilds (url_param qs ''limit'') (url_param qs ''offset''))),
      (''GET'', [''{appID}'', ''builds'', ''{buildID}''], to_app (\<lambda>ps qs b. GetBuild (url_param ps ''buildID'')))]"

definition to_service :: "service_route \<Rightarrow> url_params \<Rightarrow> url_params \<Rightarrow> json_object option \<Rightarrow> http_endpoint" where
  "to_service v ps qs b = Api (Org (url_param ps ''orgID'') (ServiceRoute (url_param ps ''serviceID'') v))"

definition service_entries :: "route_entry list" where
  "service_entries =
     [(''GET'', [], \<lambda>ps qs b. Api (Org (url_param ps ''orgID'') ListServices)),
      (''POST'', [''{serviceID}'', ''deploy''], to_service DeployService),
      (''POST'', [''{serviceID}'', ''stop''], to_service StopService),
      (''POST'', [''{serviceID}'', ''restart''], to_service RestartService),
      (''DELETE'', [''{serviceID}''], to_service DeleteService)]"

definition to_database :: "(json_object option \<Rightarrow> database_route) \<Rightarrow> url_params \<Rightarrow> url_params \<Rightarrow> json_object option \<Rightarrow> http_endpoint" where
  "to_database f ps qs b = Api (Org (url_param ps ''orgID'') (DatabaseRoute (url_param ps ''databaseID'') (f b)))"

definition database_entries :: "route_entry list" where
  "database_entries =
     [(''GET'', [], \<lambda>ps qs b. Api (Org (url_param ps ''orgID'') ListDatabases)),
      (''POST'', [], \<lambda>ps qs b. Api (Org (url_param ps ''orgID'') (CreateDatabase (decode_create_database b)))),
      (''GET'', [''{databaseID}''], to_database (\<lambda>b. GetDatabase)),
      (''POST'', [''{databaseID}'', ''deploy''], to_database (\<lambda>b. DeployDatabase)),
      (''POST'', [''{databaseID}'', ''stop''], to_database (\<lambda>b. StopDatabase)),
      (''POST'', [''{databaseID}'', ''restart''], to_database (\<lambda>b. RestartDatabase)),
      (''DELETE'', [''{databaseID}''], to_database (\<lambda>b. DeleteDatabase)),
      (''GET'', [''{databaseID}'', ''backups''], to_database (\<lambda>b. ListDatabaseBackups)),
      (''POST'', [''{databaseID}'', ''backups''], to_database (\<lambda>b. BackupDatabase)),
      (''POST'', [''{databaseID}'', ''restore''], to_database (\<lambda>b. RestoreDatabase (decode_one_text ''backupName'' b)))]"

definition to_org :: "(url_params \<Rightarrow> url_params \<Rightarrow> json_object option \<Rightarrow> org_route) \<Rightarrow>
    url_params \<Rightarrow> url_params \<Rightarrow> json_object option \<Rightarrow> http_endpoint" where
  "to_org f ps qs b = Api (Org (url_param ps ''orgID'') (f ps qs b))"

definition org_entries :: "route_entry list" where
  "org_entries =
     [(''PATCH'', [], to_org (\<lambda>ps qs b. UpdateOrg (decode_update_org b))),
      (''GET'', [''members''], to_org (\<lambda>ps qs b. ListMembers)),
      (''PATCH'', [''members'', ''{userID}''], to_org (\<lambda>ps qs b. UpdateMember (url_param ps ''userID'') (decode_one_text ''role'' b))),
      (''DELETE'', [''members'', ''{userID}''], to_org (\<lambda>ps qs b. RemoveMember (url_param ps ''userID''))),
      (''POST'', [''invitations''], to_org (\<lambda>ps qs b. CreateInvitation (decode_invite b))),
      (''GET'', [''invitations''], to_org (\<lambda>ps qs b. ListInvitations)),
      (''DELETE'', [''invitations'', ''{inviteID}''], to_org (\<lambda>ps qs b. RevokeInvitation (url_param ps ''inviteID'')))] @
     mount [''projects''] project_entries @ mount [''apps''] app_entries @ mount [''services''] service_entries @
     mount [''databases''] database_entries @
     [(''GET'', [''billing''], to_org (\<lambda>ps qs b. GetBilling)),
      (''GET'', [''billing'', ''invoices''], to_org (\<lambda>ps qs b. ListInvoices (url_param qs ''limit''))),
      (''POST'', [''billing'', ''subscribe''], to_org (\<lambda>ps qs b. Subscribe (decode_one_text ''planId'' b))),
      (''PUT'', [''billing'', ''spend-cap''], to_org (\<lambda>ps qs b. SetSpendCap (decode_spend_cap b))),
      (''GET'', [''audit''], to_org (\<lambda>ps qs b. OrgAudit (url_param qs ''limit'') (url_param qs ''offset'')))]"

definition route_table :: "operator_bodies \<Rightarrow> route_entry list" where
  "route_table ob =
     [(''GET'', [''healthz''], \<lambda>ps qs b. HealthCheck), (''GET'', [''readyz''], \<lambda>ps qs b. ReadyCheck),
      (''GET'', [''metrics''], \<lambda>ps qs b. MetricsText)] @
     mount [''v1''] (public_entries ob @ account_entries @ mount [''admin''] (admin_entries ob) @
       mount [''orgs'', ''{orgID}''] org_entries)"

section \<open>Matching\<close>

definition is_param :: "string \<Rightarrow> bool" where
  "is_param p \<longleftrightarrow> p \<noteq> [] \<and> hd p = CHR ''{''"

definition param_name :: "string \<Rightarrow> string" where
  "param_name p = butlast (tl p)"

fun fits :: "string list \<Rightarrow> string list \<Rightarrow> url_params option" where
  "fits [] [] = Some []"
| "fits (p # pat) (s # ss) =
     (if is_param p then (if s = [] then None else map_option (Cons (param_name p, s)) (fits pat ss))
      else if p = s then fits pat ss else None)"
| "fits _ _ = None"

definition candidates :: "route_entry list \<Rightarrow> string \<Rightarrow> string list \<Rightarrow> (url_params \<times> (url_params \<Rightarrow> url_params \<Rightarrow> json_object option \<Rightarrow> http_endpoint)) list" where
  "candidates t m ss =
     concat (map (\<lambda>(n, pat, f). if n = m then (case fits pat ss of Some ps \<Rightarrow> [(ps, f)] | None \<Rightarrow> []) else []) t)"

definition segments :: "string \<Rightarrow> string list" where
  "segments path = tl (split_char (CHR ''/'') path)"

type_synonym router = "route_entry list \<Rightarrow> string \<Rightarrow> string \<Rightarrow> (url_params \<times> (url_params \<Rightarrow> url_params \<Rightarrow> json_object option \<Rightarrow> http_endpoint)) option"

text \<open>What is relied on of the router: a request only one entry fits goes to this entry.\<close>

definition finds_the_entry :: "router \<Rightarrow> bool" where
  "finds_the_entry ro \<longleftrightarrow> (\<forall>t m path c. candidates t m (segments path) = [c] \<longrightarrow> ro t m path = Some c)"

text \<open>The endpoint a request is served by.\<close>

definition served_by :: "router \<Rightarrow> operator_bodies \<Rightarrow> string \<Rightarrow> string \<Rightarrow> url_params \<Rightarrow> json_object option \<Rightarrow> http_endpoint option" where
  "served_by ro ob m path qs b = map_option (\<lambda>(ps, f). f ps qs b) (ro (route_table ob) m path)"

text \<open>A router that takes the first entry that fits.\<close>

definition first_match :: router where
  "first_match t m path = (case candidates t m (segments path) of [] \<Rightarrow> None | c # _ \<Rightarrow> Some c)"

lemma first_match_finds: "finds_the_entry first_match"
  by (simp add: finds_the_entry_def first_match_def)

lemma candidates_simps [simp]:
  "candidates [] m ss = []"
  "candidates ((n, pat, f) # t) m ss =
     (if n = m then (case fits pat ss of Some ps \<Rightarrow> [(ps, f)] | None \<Rightarrow> []) else []) @ candidates t m ss"
  "candidates (t @ u) m ss = candidates t m ss @ candidates u m ss"
  by (simp_all add: candidates_def)

lemma candidates_mount_nil [simp]: "candidates (mount [] t) m ss = candidates t m ss"
  by (simp add: mount_def case_prod_beta)

text \<open>Below a literal segment only paths with it are looked at; below a parameter, all are, with the parameter bound.\<close>

lemma candidates_mount_literal [simp]:
  "\<not> is_param p \<Longrightarrow> candidates (mount (p # pre) t) m (s # ss) = (if p = s then candidates (mount pre t) m ss else [])"
  by (induction t) (auto simp: mount_def candidates_def)

lemma candidates_mount_param [simp]:
  "is_param p \<Longrightarrow> candidates (mount (p # pre) t) m (s # ss) =
     (if s = [] then [] else map (\<lambda>(ps, f). ((param_name p, s) # ps, f)) (candidates (mount pre t) m ss))"
  by (induction t) (auto simp: mount_def candidates_def split: option.splits)

lemma candidates_mount_end [simp]: "candidates (mount (p # pre) t) m [] = []"
  by (induction t) (auto simp: mount_def candidates_def)

text \<open>The methods of the table are the ones the guards of the server judge a route by.\<close>

lemma mounted: "(\<forall>(m, pat, f) \<in> set (mount pre t). P m f) \<longleftrightarrow> (\<forall>(m, pat, f) \<in> set t. P m f)"
  by (auto simp: mount_def)

lemma table_methods:
  assumes "\<And>b. \<exists>sg payload f. ob_webhook ob b = BillingWebhook sg payload f"
  shows "\<forall>(m, pat, f) \<in> set (route_table ob). \<forall>ps qs b rt. f ps qs b = Api rt \<longrightarrow> method_of rt = m"
proof -
  have "public_method (ob_webhook ob b) = ''POST''" for b using assms [of b] by auto
  then show ?thesis
    by (simp add: route_table_def ball_Un mounted [where P = "\<lambda>m f. \<forall>ps qs b rt. f ps qs b = Api rt \<longrightarrow> method_of rt = m"]
        public_entries_def account_entries_def admin_entries_def org_entries_def project_entries_def app_entries_def
        service_entries_def database_entries_def to_app_def to_service_def to_database_def to_org_def)
qed

end
