(* ===== verification/Cli_Client.thy ===== *)
theory Cli_Client
  imports Http_Paths
begin

text \<open>
  The client of the command line tool: its configuration (\<open>cli/internal/config\<close>), how it sends a
  request and renews its session (\<open>client/client.go\<close>), and the calls of the API it offers
  (\<open>client/api.go\<close>, \<open>types.go\<close>). The connection to the server is an argument: a message is answered,
  or lost, and changes the state of the other side. Saving the configuration may fail by a schedule.
\<close>

section \<open>Configuration\<close>

record cli_config =
  cc_api_url :: string
  cc_access_token :: string
  cc_refresh_token :: string
  cc_token :: string
  cc_current_org :: string
  cc_current_proj :: string
  cc_path :: string

definition default_api_url :: string where
  "default_api_url = ''http://localhost:8080''"

definition pat_prefix :: string where
  "pat_prefix = ''vrt_''"

definition apply_defaults :: "cli_config \<Rightarrow> cli_config" where
  "apply_defaults c = (if cc_api_url c = [] then c\<lparr>cc_api_url := default_api_url\<rparr> else c)"

text \<open>What a configuration file holds, if there is one; \<open>None\<close> inside is a file that cannot be read or parsed.\<close>

definition empty_config :: "string \<Rightarrow> cli_config" where
  "empty_config path = \<lparr>cc_api_url = [], cc_access_token = [], cc_refresh_token = [], cc_token = [],
     cc_current_org = [], cc_current_proj = [], cc_path = path\<rparr>"

definition load_config :: "cli_config option option \<Rightarrow> string \<Rightarrow> cli_config option" where
  "load_config file path =
     (case file of
        None \<Rightarrow> Some (apply_defaults (empty_config path))
      | Some None \<Rightarrow> None
      | Some (Some c) \<Rightarrow> Some (apply_defaults (c\<lparr>cc_path := path\<rparr>)))"

definition logged_in :: "cli_config \<Rightarrow> bool" where
  "logged_in c \<longleftrightarrow> cc_token c \<noteq> [] \<or> cc_access_token c \<noteq> []"

section \<open>Sending\<close>

record cli_message =
  cm_base :: string
  cm_method :: string
  cm_path :: string
  cm_bearer :: string
  cm_body :: "json_object option"

type_synonym 's cli_connection = "cli_message \<Rightarrow> 's \<Rightarrow> (string + reply) \<times> 's"

text \<open>
  The state of a run of the tool: the configuration in memory and in its file, the outcomes of the
  saves to come, the base address of the client, and, as a record of what happened, the messages sent.
\<close>

record 's cli =
  cl_config :: cli_config
  cl_file :: "cli_config option option"
  cl_saves :: "bool list"
  cl_base :: string
  cl_sent :: "cli_message list"
  cl_peer :: 's

datatype cli_error =
    Unreachable string | ApiError int body | SessionExpired cli_error | BadConfig | NotSaved | NotLoggedIn | NothingSet string
  | NothingNamed string string | Ambiguous string string nat | NotAToken | TokenRejected cli_error

type_synonym ('s, 'a) cop = "(cli_error, 's cli, 'a) op"

definition save_config :: "('s, unit) cop" where
  "save_config s =
     (let (written, rest) = (case cl_saves s of [] \<Rightarrow> (True, []) | b # bs \<Rightarrow> (b, bs)); t = s\<lparr>cl_saves := rest\<rparr>
      in if cc_path (cl_config s) = [] then (Inl NotSaved, s)
         else if written then (Inr (), t\<lparr>cl_file := Some (Some (cl_config s))\<rparr>)
         else (Inl NotSaved, t))"

definition on_config :: "(cli_config \<Rightarrow> cli_config) \<Rightarrow> ('s, unit) cop" where
  "on_config f s = (Inr (), s\<lparr>cl_config := f (cl_config s)\<rparr>)"

definition set_tokens :: "string \<Rightarrow> string \<Rightarrow> ('s, unit) cop" where
  "set_tokens access renewal =
     bindE (on_config (\<lambda>c. c\<lparr>cc_access_token := access, cc_refresh_token := renewal\<rparr>)) (\<lambda>_. save_config)"

definition set_pat :: "string \<Rightarrow> ('s, unit) cop" where
  "set_pat tok =
     bindE (on_config (\<lambda>c. c\<lparr>cc_token := tok, cc_access_token := [], cc_refresh_token := []\<rparr>)) (\<lambda>_. save_config)"

definition clear_config :: "('s, unit) cop" where
  "clear_config =
     bindE (on_config (\<lambda>c. c\<lparr>cc_access_token := [], cc_refresh_token := [], cc_token := []\<rparr>)) (\<lambda>_. save_config)"

definition trim_right_slash :: "string \<Rightarrow> string" where
  "trim_right_slash s = rev (dropWhile (\<lambda>c. c = CHR ''/'') (rev s))"

definition new_client :: "string \<Rightarrow> ('s, unit) cop" where
  "new_client base s = (Inr (), s\<lparr>cl_base := trim_right_slash base\<rparr>)"

text \<open>A personal access token goes before the access token of the session.\<close>

definition cli_bearer :: "cli_config \<Rightarrow> string" where
  "cli_bearer c = (if cc_token c \<noteq> [] then cc_token c else cc_access_token c)"

definition has_pat :: "cli_config \<Rightarrow> bool" where
  "has_pat c \<longleftrightarrow> cc_token c \<noteq> []"

definition cli_send :: "'s cli_connection \<Rightarrow> string \<Rightarrow> string \<Rightarrow> json_object option \<Rightarrow> bool \<Rightarrow> ('s, reply) cop" where
  "cli_send conn method path body auth s =
     (let msg = \<lparr>cm_base = cl_base s, cm_method = method, cm_path = path,
                cm_bearer = (if auth then cli_bearer (cl_config s) else []), cm_body = body\<rparr>;
          (r, p) = conn msg (cl_peer s); t = s\<lparr>cl_sent := cl_sent s @ [msg], cl_peer := p\<rparr>
      in case r of Inl e \<Rightarrow> (Inl (Unreachable e), t) | Inr rep \<Rightarrow> (Inr rep, t))"

definition cli_finish :: "reply \<Rightarrow> ('s, body) cop" where
  "cli_finish rep =
     (if rp_status rep < 200 \<or> rp_status rep \<ge> 300 then failE (ApiError (rp_status rep) (rp_body rep)) else okE (rp_body rep))"

definition request_no_auth :: "'s cli_connection \<Rightarrow> string \<Rightarrow> string \<Rightarrow> json_object option \<Rightarrow> ('s, body) cop" where
  "request_no_auth conn method path body = bindE (cli_send conn method path body False) cli_finish"

definition refresh_path :: string where
  "refresh_path = ''/v1/auth/refresh''"

text \<open>The tokens of a reply, empty when it has none.\<close>

definition tokens_of :: "body \<Rightarrow> string \<times> string" where
  "tokens_of b = (case b of JAuth a \<Rightarrow> (as_access_token a, as_refresh_token a) | _ \<Rightarrow> ([], []))"

definition cli_refresh :: "'s cli_connection \<Rightarrow> ('s, unit) cop" where
  "cli_refresh conn s =
     tryE (request_no_auth conn ''POST'' refresh_path (Some [(''refreshToken'', TextJson (cc_refresh_token (cl_config s)))]))
       (\<lambda>e. failE (SessionExpired e)) (\<lambda>b. case tokens_of b of (access, renewal) \<Rightarrow> set_tokens access renewal) s"

definition cli_request :: "'s cli_connection \<Rightarrow> string \<Rightarrow> string \<Rightarrow> json_object option \<Rightarrow> ('s, body) cop" where
  "cli_request conn method path body =
     bindE (cli_send conn method path body True) (\<lambda>rep s.
       (if rp_status rep = 401 \<and> \<not> has_pat (cl_config s) \<and> cc_refresh_token (cl_config s) \<noteq> []
        then bindE (cli_refresh conn) (\<lambda>_. bindE (cli_send conn method path body True) cli_finish)
        else cli_finish rep) s)"

section \<open>Paths\<close>

text \<open>\<open>url.PathEscape\<close>.\<close>

definition hex_upper :: "nat \<Rightarrow> char" where
  "hex_upper n = ''0123456789ABCDEF'' ! n"

definition unescaped :: "char \<Rightarrow> bool" where
  "unescaped c \<longleftrightarrow> (let n = byte c in (97 \<le> n \<and> n \<le> 122) \<or> (65 \<le> n \<and> n \<le> 90) \<or> (48 \<le> n \<and> n \<le> 57)) \<or>
     c \<in> set ''-_.~$&+=:@''"

definition path_escape :: "string \<Rightarrow> string" where
  "path_escape s = concat (map (\<lambda>c. if unescaped c then [c] else [CHR ''%'', hex_upper (byte c div 16), hex_upper (byte c mod 16)]) s)"

definition org_path :: "string \<Rightarrow> string" where
  "org_path g = ''/v1/orgs/'' @ path_escape g"

definition app_path :: "string \<Rightarrow> string \<Rightarrow> string" where
  "app_path g i = org_path g @ ''/apps/'' @ path_escape i"

definition db_path :: "string \<Rightarrow> string \<Rightarrow> string" where
  "db_path g i = org_path g @ ''/databases/'' @ path_escape i"

definition svc_path :: "string \<Rightarrow> string \<Rightarrow> string" where
  "svc_path g i = org_path g @ ''/services/'' @ path_escape i"

section \<open>Calls\<close>

record cli_app_input =
  ai_name :: string
  ai_project_id :: string
  ai_image :: string
  ai_git_repository :: string
  ai_git_branch :: string
  ai_build_pack :: string
  ai_cpu :: real
  ai_memory_mb :: int

record cli_database_input =
  di_name :: string
  di_engine :: string
  di_project_id :: string
  di_cpu :: real
  di_memory_mb :: int
  di_storage_gb :: int

record cli_service_input =
  si_template_key :: string
  si_name :: string
  si_cpu :: real
  si_memory_mb :: int

text \<open>The input of an update and of scaling has the fields the server's has.\<close>

datatype cli_action = Deploy | Restart | Stop

datatype app_call =
    CliGetApp | CliUpdateApp update_app_input | CliScaleApp scale_app_input | CliListReleases | CliRollback int
  | CliListBuilds | CliGetBuild string | CliAppMetrics | CliAppAction cli_action | CliDestroyApp | CliAppLogs
  | CliListEnv | CliSetEnv string string bool | CliUnsetEnv string
  | CliListDomains | CliAddDomain string | CliVerifyDomain string | CliRemoveDomain string

datatype client_call =
    CliSignup string string string | CliLogin string string | CliCreateToken string "string list" int | CliListTokens
  | CliRevokeToken string | CliMe | CliVersion | CliListOrgs | CliCreateOrg string
  | CliListProjects string | CliCreateProject string string
  | CliListApps string | CliListProjectApps string string | CliCreateApp string cli_app_input | CliApp string string app_call | CliFollowAppLogs string string bool
  | CliListDatabases string | CliCreateDatabase string cli_database_input | CliGetDatabase string string
  | CliDbAction string string cli_action | CliDeleteDatabase string string
  | CliServiceCatalog | CliListServices string | CliCreateService string string cli_service_input
  | CliSvcAction string string cli_action | CliDestroyService string string | CliPlans | CliPricing

text \<open>Fields with \<open>omitempty\<close>.\<close>

definition text_unless_empty :: "string \<Rightarrow> string \<Rightarrow> json_object" where
  "text_unless_empty k v = (if v = [] then [] else [(k, TextJson v)])"

definition number_unless_zero :: "string \<Rightarrow> real \<Rightarrow> json_object" where
  "number_unless_zero k x = (if x = 0 then [] else [(k, NumberJson x)])"

definition list_unless_empty :: "string \<Rightarrow> string list \<Rightarrow> json_object" where
  "list_unless_empty k xs = (if xs = [] then [] else [(k, ListJson xs)])"

definition true_only :: "string \<Rightarrow> bool \<Rightarrow> json_object" where
  "true_only k b = (if b then [(k, BoolJson True)] else [])"

definition unless_nil :: "string \<Rightarrow> ('a \<Rightarrow> json) \<Rightarrow> 'a option \<Rightarrow> json_object" where
  "unless_nil k f v = (case v of None \<Rightarrow> [] | Some x \<Rightarrow> [(k, f x)])"

definition number :: "int \<Rightarrow> json" where
  "number n = NumberJson (real_of_int n)"

definition action_text :: "cli_action \<Rightarrow> string" where
  "action_text a = (case a of Deploy \<Rightarrow> ''deploy'' | Restart \<Rightarrow> ''restart'' | Stop \<Rightarrow> ''stop'')"

fun app_request :: "string \<Rightarrow> app_call \<Rightarrow> string \<times> string \<times> json_object option" where
  "app_request base CliGetApp = (''GET'', base, None)"
| "app_request base (CliUpdateApp u) = (''PATCH'', base,
     Some (unless_nil ''image'' TextJson (ua_image u) @ unless_nil ''cpu'' NumberJson (ua_cpu u) @
       unless_nil ''memoryMb'' number (ua_memory_mb u) @ unless_nil ''gitRepository'' TextJson (ua_git_repository u) @
       unless_nil ''gitBranch'' TextJson (ua_git_branch u)))"
| "app_request base (CliScaleApp u) = (''POST'', base @ ''/scale'',
     Some (unless_nil ''minReplicas'' number (sa_min_replicas u) @ unless_nil ''maxReplicas'' number (sa_max_replicas u)))"
| "app_request base CliListReleases = (''GET'', base @ ''/releases'', None)"
| "app_request base (CliRollback n) = (''POST'', base @ ''/rollback'',
     if n \<noteq> 0 then Some (number_unless_zero ''revision'' (real_of_int n)) else None)"
| "app_request base CliListBuilds = (''GET'', base @ ''/builds'', None)"
| "app_request base (CliGetBuild b) = (''GET'', base @ ''/builds/'' @ path_escape b, None)"
| "app_request base CliAppMetrics = (''GET'', base @ ''/metrics'', None)"
| "app_request base (CliAppAction a) = (''POST'', base @ ''/'' @ action_text a, None)"
| "app_request base CliDestroyApp = (''DELETE'', base, None)"
| "app_request base CliAppLogs = (''GET'', base @ ''/logs'', None)"
| "app_request base CliListEnv = (''GET'', base @ ''/env'', None)"
| "app_request base (CliSetEnv k v secret) = (''PUT'', base @ ''/env'',
     Some ([(''key'', TextJson k), (''value'', TextJson v)] @ true_only ''secret'' secret))"
| "app_request base (CliUnsetEnv k) = (''DELETE'', base @ ''/env/'' @ path_escape k, None)"
| "app_request base CliListDomains = (''GET'', base @ ''/domains'', None)"
| "app_request base (CliAddDomain d) = (''POST'', base @ ''/domains'', Some [(''domain'', TextJson d)])"
| "app_request base (CliVerifyDomain d) = (''POST'', base @ ''/domains/'' @ path_escape d @ ''/verify'', None)"
| "app_request base (CliRemoveDomain d) = (''DELETE'', base @ ''/domains/'' @ path_escape d, None)"

text \<open>Whether the call authenticates, and its method, path and body.\<close>

fun call_request :: "client_call \<Rightarrow> bool \<times> string \<times> string \<times> json_object option" where
  "call_request (CliSignup e n p) = (False, ''POST'', ''/v1/auth/signup'',
     Some [(''email'', TextJson e), (''name'', TextJson n), (''password'', TextJson p)])"
| "call_request (CliLogin e p) = (False, ''POST'', ''/v1/auth/login'', Some [(''email'', TextJson e), (''password'', TextJson p)])"
| "call_request (CliCreateToken n scopes days) = (True, ''POST'', ''/v1/tokens'',
     Some ([(''name'', TextJson n)] @ list_unless_empty ''scopes'' scopes @ number_unless_zero ''expiresInDays'' (real_of_int days)))"
| "call_request CliListTokens = (True, ''GET'', ''/v1/tokens'', None)"
| "call_request (CliRevokeToken i) = (True, ''DELETE'', ''/v1/tokens/'' @ path_escape i, None)"
| "call_request CliMe = (True, ''GET'', ''/v1/me'', None)"
| "call_request CliVersion = (False, ''GET'', ''/v1/version'', None)"
| "call_request CliListOrgs = (True, ''GET'', ''/v1/orgs'', None)"
| "call_request (CliCreateOrg n) = (True, ''POST'', ''/v1/orgs'', Some [(''name'', TextJson n)])"
| "call_request (CliListProjects g) = (True, ''GET'', org_path g @ ''/projects'', None)"
| "call_request (CliCreateProject g n) = (True, ''POST'', org_path g @ ''/projects'', Some [(''name'', TextJson n)])"
| "call_request (CliListApps g) = (True, ''GET'', org_path g @ ''/apps'', None)"
| "call_request (CliListProjectApps g p) = (True, ''GET'', org_path g @ ''/projects/'' @ path_escape p @ ''/apps'', None)"
| "call_request (CliCreateApp g a) = (True, ''POST'', org_path g @ ''/apps'',
     Some ([(''name'', TextJson (ai_name a))] @ text_unless_empty ''projectId'' (ai_project_id a) @
       text_unless_empty ''image'' (ai_image a) @ text_unless_empty ''gitRepository'' (ai_git_repository a) @
       text_unless_empty ''gitBranch'' (ai_git_branch a) @ text_unless_empty ''buildPack'' (ai_build_pack a) @
       number_unless_zero ''cpu'' (ai_cpu a) @ number_unless_zero ''memoryMb'' (real_of_int (ai_memory_mb a))))"
| "call_request (CliApp g i c) = (True, app_request (app_path g i) c)"
| "call_request (CliFollowAppLogs g i all_pods) = (True, ''GET'',
     app_path g i @ ''/logs?'' @ (if all_pods then ''all=true&follow=true'' else ''follow=true''), None)"
| "call_request (CliListDatabases g) = (True, ''GET'', org_path g @ ''/databases'', None)"
| "call_request (CliCreateDatabase g d) = (True, ''POST'', org_path g @ ''/databases'',
     Some ([(''name'', TextJson (di_name d))] @ text_unless_empty ''engine'' (di_engine d) @
       text_unless_empty ''projectId'' (di_project_id d) @ number_unless_zero ''cpu'' (di_cpu d) @
       number_unless_zero ''memoryMb'' (real_of_int (di_memory_mb d)) @
       number_unless_zero ''storageGb'' (real_of_int (di_storage_gb d))))"
| "call_request (CliGetDatabase g i) = (True, ''GET'', db_path g i, None)"
| "call_request (CliDbAction g i a) = (True, ''POST'', db_path g i @ ''/'' @ action_text a, None)"
| "call_request (CliDeleteDatabase g i) = (True, ''DELETE'', db_path g i, None)"
| "call_request CliServiceCatalog = (False, ''GET'', ''/v1/services/catalog'', None)"
| "call_request (CliListServices g) = (True, ''GET'', org_path g @ ''/services'', None)"
| "call_request (CliCreateService g p v) = (True, ''POST'', org_path g @ ''/projects/'' @ path_escape p @ ''/services'',
     Some ([(''templateKey'', TextJson (si_template_key v))] @ text_unless_empty ''name'' (si_name v) @
       number_unless_zero ''cpu'' (si_cpu v) @ number_unless_zero ''memoryMb'' (real_of_int (si_memory_mb v))))"
| "call_request (CliSvcAction g i a) = (True, ''POST'', svc_path g i @ ''/'' @ action_text a, None)"
| "call_request (CliDestroyService g i) = (True, ''DELETE'', svc_path g i, None)"
| "call_request CliPlans = (False, ''GET'', ''/v1/billing/plans'', None)"
| "call_request CliPricing = (False, ''GET'', ''/v1/billing/pricing'', None)"

text \<open>A log stream is opened like any request, but never renews the session.\<close>

definition client_run :: "'s cli_connection \<Rightarrow> client_call \<Rightarrow> ('s, body) cop" where
  "client_run conn c =
     (case call_request c of (auth, method, path, body) \<Rightarrow>
        (case c of
           CliFollowAppLogs _ _ _ \<Rightarrow> bindE (cli_send conn method path body True) cli_finish
         | _ \<Rightarrow> if auth then cli_request conn method path body else request_no_auth conn method path body))"

section \<open>Commands\<close>

text \<open>Every command starts by reading the configuration. The flag that names the server goes into it.\<close>

definition start_tool :: "string \<Rightarrow> string \<Rightarrow> ('s, unit) cop" where
  "start_tool api_url_flag path s =
     (case load_config (cl_file s) path of
        None \<Rightarrow> (Inl BadConfig, s)
      | Some c \<Rightarrow>
          let d = (if api_url_flag \<noteq> [] then c\<lparr>cc_api_url := api_url_flag\<rparr> else c)
          in bindE (on_config (\<lambda>_. d)) (\<lambda>_. new_client (cc_api_url d)) s)"

definition require_auth :: "('s, unit) cop" where
  "require_auth s = (if logged_in (cl_config s) then (Inr (), s) else (Inl NotLoggedIn, s))"

definition signup_command :: "'s cli_connection \<Rightarrow> string \<Rightarrow> string \<Rightarrow> string \<Rightarrow> ('s, unit) cop" where
  "signup_command conn email name password =
     bindE (client_run conn (CliSignup email name password)) (\<lambda>b. case tokens_of b of (access, renewal) \<Rightarrow> set_tokens access renewal)"

definition login_with_password :: "'s cli_connection \<Rightarrow> string \<Rightarrow> string \<Rightarrow> ('s, unit) cop" where
  "login_with_password conn email password =
     bindE (client_run conn (CliLogin email password)) (\<lambda>b. case tokens_of b of (access, renewal) \<Rightarrow> set_tokens access renewal)"

definition login_with_token :: "'s cli_connection \<Rightarrow> string \<Rightarrow> ('s, unit) cop" where
  "login_with_token conn tok =
     (if \<not> has_prefix pat_prefix tok then failE NotAToken
      else bindE (set_pat tok) (\<lambda>_. bindE (\<lambda>s. new_client (cc_api_url (cl_config s)) s) (\<lambda>_.
             tryE (client_run conn CliMe) (\<lambda>e. failE (TokenRejected e)) (\<lambda>_. okE ()))))"

definition logout_command :: "('s, unit) cop" where
  "logout_command = clear_config"

definition whoami_command :: "'s cli_connection \<Rightarrow> ('s, body) cop" where
  "whoami_command conn = bindE require_auth (\<lambda>_. client_run conn CliMe)"

text \<open>The organization and project in effect.\<close>

definition effective :: "string \<Rightarrow> string \<Rightarrow> string \<Rightarrow> ('s, string) cop" where
  "effective kind flag persisted =
     (if flag \<noteq> [] then okE flag else if persisted \<noteq> [] then okE persisted else failE (NothingSet kind))"

section \<open>Names to identifiers\<close>

definition pick :: "string \<Rightarrow> string \<Rightarrow> string list \<Rightarrow> cli_error + string" where
  "pick kind ref hits =
     (case hits of [i] \<Rightarrow> Inr i | [] \<Rightarrow> Inl (NothingNamed kind ref) | _ \<Rightarrow> Inl (Ambiguous kind ref (length hits)))"

definition match_by :: "string \<Rightarrow> ('v \<Rightarrow> string) \<Rightarrow> ('v \<Rightarrow> bool) \<Rightarrow> 'v list \<Rightarrow> string \<Rightarrow> cli_error + string" where
  "match_by kind key hit vs ref =
     (case find (\<lambda>v. key v = ref) vs of Some v \<Rightarrow> Inr (key v) | None \<Rightarrow> pick kind ref (map key (filter hit vs)))"

definition match_org :: "organization list \<Rightarrow> string \<Rightarrow> cli_error + string" where
  "match_org gs ref = match_by ''organization'' org_id (\<lambda>g. organization.org_slug g = ref \<or> equal_fold (org_name g) ref) gs ref"

definition match_project :: "project list \<Rightarrow> string \<Rightarrow> cli_error + string" where
  "match_project ps ref = match_by ''project'' proj_id (\<lambda>p. proj_slug p = ref \<or> equal_fold (proj_name p) ref) ps ref"

definition match_app :: "app list \<Rightarrow> string \<Rightarrow> cli_error + string" where
  "match_app as ref = match_by ''app'' app_id (\<lambda>a. equal_fold (app_name a) ref) as ref"

text \<open>An answer is the only row of that name, or the row of that very identifier: never a guess.\<close>

lemma pick_single: "pick kind ref hits = Inr i \<longleftrightarrow> hits = [i]"
  by (cases hits; cases "tl hits") (auto simp: pick_def)

lemma match_never_guesses:
  assumes "match_by kind key hit vs ref = Inr i"
  shows "(i = ref \<and> (\<exists>v \<in> set vs. key v = ref)) \<or> (\<exists>v. filter hit vs = [v] \<and> key v = i)"
  using assms
  by (cases "find (\<lambda>v. key v = ref) vs") (auto simp: match_by_def pick_single find_Some_iff dest: nth_mem)

end
