(* ===== verification/Cli_Serving.thy ===== *)
theory Cli_Serving
  imports Cli_Client
begin

text \<open>
  The command line client against the server: every call it offers reaches the handler it is meant
  for, authenticated exactly where that handler asks for it, and its body is decoded to the input it
  was made from.
\<close>

section \<open>Paths and bodies as the server reads them\<close>

text \<open>An identifier that needs no escaping.\<close>

definition plain_id :: "string \<Rightarrow> bool" where
  "plain_id i \<longleftrightarrow> i \<noteq> [] \<and> list_all unescaped i"

text \<open>A query is not decoded any further: those of the client need it not.\<close>

definition url_query :: "string \<Rightarrow> url_params" where
  "url_query u =
     (case dropWhile (\<lambda>c. c \<noteq> CHR ''?'') u of
        [] \<Rightarrow> []
      | _ # q \<Rightarrow> map (\<lambda>x. (takeWhile (\<lambda>c. c \<noteq> CHR ''='') x, drop 1 (dropWhile (\<lambda>c. c \<noteq> CHR ''='') x))) (split_char (CHR ''&'') q))"

definition url_path :: "string \<Rightarrow> string" where
  "url_path u = takeWhile (\<lambda>c. c \<noteq> CHR ''?'') u"

lemma plain_escape: "plain_id i \<Longrightarrow> path_escape i = i"
  unfolding plain_id_def path_escape_def
proof (elim conjE)
  assume "list_all unescaped i"
  then show "concat (map (\<lambda>c. if unescaped c then [c] else [CHR ''%'', hex_upper (byte c div 16), hex_upper (byte c mod 16)]) i) = i"
    by (induction i) simp_all
qed

lemma special_escaped: "\<not> unescaped (CHR ''/'')" "\<not> unescaped (CHR ''?'')"
  by (simp_all add: unescaped_def byte_def)

lemma plain_chars: "plain_id i \<Longrightarrow> CHR ''/'' \<notin> set i" "plain_id i \<Longrightarrow> CHR ''?'' \<notin> set i"
  using special_escaped by (auto simp: plain_id_def list_all_iff)

lemma plain_nonempty: "plain_id i \<Longrightarrow> i \<noteq> []"
  by (simp add: plain_id_def)

lemma url_path_append: "plain_id i \<Longrightarrow> url_path (i @ u) = i @ url_path u"
proof -
  assume "plain_id i"
  then have "\<forall>c \<in> set i. c \<noteq> CHR ''?''" using plain_chars(2) by blast
  then show ?thesis by (simp add: url_path_def takeWhile_append2)
qed

lemma url_path_nil [simp]: "url_path [] = []"
  by (simp add: url_path_def)

lemma url_path_cons [simp]: "url_path (c # u) = (if c = CHR ''?'' then [] else c # url_path u)"
  by (simp add: url_path_def)

lemma url_path_plain: "plain_id i \<Longrightarrow> url_path i = i"
  using url_path_append [of i "[]"] by simp

lemma url_query_nil [simp]: "url_query [] = []"
  by (simp add: url_query_def)

lemma url_query_cons: "c \<noteq> CHR ''?'' \<Longrightarrow> url_query (c # u) = url_query u"
  by (simp add: url_query_def)

lemma url_query_append: "plain_id i \<Longrightarrow> url_query (i @ u) = url_query u"
proof -
  assume "plain_id i"
  then have "\<forall>c \<in> set i. c \<noteq> CHR ''?''" using plain_chars(2) by blast
  then show ?thesis by (simp add: url_query_def dropWhile_append2)
qed

lemma url_query_plain: "plain_id i \<Longrightarrow> url_query i = []"
  using url_query_append [of i "[]"] by simp

lemmas path_rules = plain_escape plain_chars plain_nonempty url_path_append url_path_plain url_query_cons url_query_append url_query_plain split_char_no split_char_append

definition body_names :: "string list" where
  "body_names = [''email'', ''name'', ''password'', ''refreshToken'', ''token'', ''scopes'', ''expiresInDays'', ''projectId'',
     ''image'', ''gitRepository'', ''gitBranch'', ''buildPack'', ''cpu'', ''memoryMb'', ''region'', ''minReplicas'',
     ''maxReplicas'', ''revision'', ''key'', ''value'', ''secret'', ''domain'', ''engine'', ''storageGb'', ''templateKey'']"

lemma names_distinct: "distinct (map to_lower body_names)"
  by code_simp

lemma fold_name: "a \<in> set body_names \<Longrightarrow> b \<in> set body_names \<Longrightarrow> equal_fold a b \<longleftrightarrow> a = b"
  using names_distinct by (auto simp: distinct_map equal_fold_def dest: inj_onD)

text \<open>A field that is written unless it is empty reads back as what it was.\<close>

lemma field_skip:
  "\<not> equal_fold j k \<Longrightarrow> field ((j, v) # b) k = field b k"
  "\<not> equal_fold j k \<Longrightarrow> field (text_unless_empty j t @ b) k = field b k"
  "\<not> equal_fold j k \<Longrightarrow> field (number_unless_zero j x @ b) k = field b k"
  "\<not> equal_fold j k \<Longrightarrow> field (list_unless_empty j xs @ b) k = field b k"
  "\<not> equal_fold j k \<Longrightarrow> field (true_only j s @ b) k = field b k"
  "\<not> equal_fold j k \<Longrightarrow> field (unless_nil j f y @ b) k = field b k"
  by (auto simp: text_unless_empty_def number_unless_zero_def list_unless_empty_def true_only_def unless_nil_def split: option.splits)

lemma getter_skip:
  assumes "\<not> equal_fold j k"
  shows
    "text_field ((j, v) # b) k = text_field b k"
    "text_field (text_unless_empty j t @ b) k = text_field b k"
    "text_field (number_unless_zero j x @ b) k = text_field b k"
    "text_field (list_unless_empty j xs @ b) k = text_field b k"
    "text_field (true_only j s @ b) k = text_field b k"
    "text_field (unless_nil j f y @ b) k = text_field b k"
    "bool_field ((j, v) # b) k = bool_field b k"
    "bool_field (text_unless_empty j t @ b) k = bool_field b k"
    "bool_field (number_unless_zero j x @ b) k = bool_field b k"
    "bool_field (list_unless_empty j xs @ b) k = bool_field b k"
    "bool_field (true_only j s @ b) k = bool_field b k"
    "bool_field (unless_nil j f y @ b) k = bool_field b k"
    "real_field ((j, v) # b) k = real_field b k"
    "real_field (text_unless_empty j t @ b) k = real_field b k"
    "real_field (number_unless_zero j x @ b) k = real_field b k"
    "real_field (list_unless_empty j xs @ b) k = real_field b k"
    "real_field (true_only j s @ b) k = real_field b k"
    "real_field (unless_nil j f y @ b) k = real_field b k"
    "int_field ((j, v) # b) k = int_field b k"
    "int_field (text_unless_empty j t @ b) k = int_field b k"
    "int_field (number_unless_zero j x @ b) k = int_field b k"
    "int_field (list_unless_empty j xs @ b) k = int_field b k"
    "int_field (true_only j s @ b) k = int_field b k"
    "int_field (unless_nil j f y @ b) k = int_field b k"
    "list_field ((j, v) # b) k = list_field b k"
    "list_field (text_unless_empty j t @ b) k = list_field b k"
    "list_field (number_unless_zero j x @ b) k = list_field b k"
    "list_field (list_unless_empty j xs @ b) k = list_field b k"
    "list_field (true_only j s @ b) k = list_field b k"
    "list_field (unless_nil j f y @ b) k = list_field b k"
    "pointer_field text_field ((j, v) # b) k = pointer_field text_field b k"
    "pointer_field text_field (text_unless_empty j t @ b) k = pointer_field text_field b k"
    "pointer_field text_field (number_unless_zero j x @ b) k = pointer_field text_field b k"
    "pointer_field text_field (list_unless_empty j xs @ b) k = pointer_field text_field b k"
    "pointer_field text_field (true_only j s @ b) k = pointer_field text_field b k"
    "pointer_field text_field (unless_nil j f y @ b) k = pointer_field text_field b k"
    "pointer_field real_field ((j, v) # b) k = pointer_field real_field b k"
    "pointer_field real_field (text_unless_empty j t @ b) k = pointer_field real_field b k"
    "pointer_field real_field (number_unless_zero j x @ b) k = pointer_field real_field b k"
    "pointer_field real_field (list_unless_empty j xs @ b) k = pointer_field real_field b k"
    "pointer_field real_field (true_only j s @ b) k = pointer_field real_field b k"
    "pointer_field real_field (unless_nil j f y @ b) k = pointer_field real_field b k"
    "pointer_field int_field ((j, v) # b) k = pointer_field int_field b k"
    "pointer_field int_field (text_unless_empty j t @ b) k = pointer_field int_field b k"
    "pointer_field int_field (number_unless_zero j x @ b) k = pointer_field int_field b k"
    "pointer_field int_field (list_unless_empty j xs @ b) k = pointer_field int_field b k"
    "pointer_field int_field (true_only j s @ b) k = pointer_field int_field b k"
    "pointer_field int_field (unless_nil j f y @ b) k = pointer_field int_field b k"
  by (simp_all only: text_field_def bool_field_def real_field_def int_field_def list_field_def pointer_field_def field_skip [OF assms])

lemma fold_refl: "equal_fold k k"
  by (simp add: equal_fold_def)

lemma whole_of_int [simp]: "whole (real_of_int n) = Some n"
  by (simp add: whole_def)

lemma field_found:
  assumes "field b k = None"
  shows "text_field ((k, TextJson t) # b) k = Some t"
    "text_field (text_unless_empty k t @ b) k = Some t"
    "real_field (number_unless_zero k x @ b) k = Some x"
    "int_field (number_unless_zero k (real_of_int n) @ b) k = Some n"
    "list_field (list_unless_empty k xs @ b) k = Some xs"
    "bool_field (true_only k s @ b) k = Some s"
    "pointer_field text_field (unless_nil k TextJson y @ b) k = Some y"
    "pointer_field real_field (unless_nil k NumberJson z @ b) k = Some z"
    "pointer_field int_field (unless_nil k number i @ b) k = Some i"
  using assms
  by (auto simp: text_field_def text_unless_empty_def real_field_def number_unless_zero_def int_field_def list_field_def
      list_unless_empty_def bool_field_def true_only_def pointer_field_def unless_nil_def number_def fold_refl split: option.splits)

lemma field_absent:
  assumes "field b k = None"
  shows "text_field b k = Some []" "bool_field b k = Some False" "real_field b k = Some 0" "int_field b k = Some 0"
    "list_field b k = Some []"
  using assms by (simp_all add: text_field_def bool_field_def real_field_def int_field_def list_field_def)

lemma known_parts [simp]:
  "known_fields ks []"
  "known_fields ks ((j, v) # b) \<longleftrightarrow> list_ex (equal_fold j) ks \<and> known_fields ks b"
  "known_fields ks (a @ b) \<longleftrightarrow> known_fields ks a \<and> known_fields ks b"
  by (auto simp: known_fields_def)

lemma known_optional:
  assumes "list_ex (equal_fold j) ks"
  shows "known_fields ks (text_unless_empty j t)" "known_fields ks (number_unless_zero j x)" "known_fields ks (list_unless_empty j xs)"
    "known_fields ks (true_only j s)" "known_fields ks (unless_nil j f y)"
  using assms
  by (auto simp: text_unless_empty_def number_unless_zero_def list_unless_empty_def true_only_def unless_nil_def split: option.splits)

lemmas body_rules = field_skip field_skip [where b = "[]", simplified] getter_skip getter_skip [where b = "[]", simplified] field_found field_found [where b = "[]", simplified]
  field_absent known_optional fold_name body_names_def

section \<open>What the calls mean\<close>

fun meant_app :: "app_call \<Rightarrow> app_route" where
  "meant_app CliGetApp = GetApp"
| "meant_app (CliUpdateApp u) = UpdateApp (Some u)"
| "meant_app (CliScaleApp u) = ScaleApp (Some u)"
| "meant_app CliListReleases = ListReleases [] []"
| "meant_app (CliRollback n) = RollbackApp (if n = 0 then None else Some (Some n))"
| "meant_app CliListBuilds = ListBuilds [] []"
| "meant_app (CliGetBuild b) = GetBuild b"
| "meant_app CliAppMetrics = AppMetrics"
| "meant_app (CliAppAction a) = (case a of Deploy \<Rightarrow> DeployApp | Restart \<Rightarrow> RestartApp | Stop \<Rightarrow> StopApp)"
| "meant_app CliDestroyApp = DeleteApp"
| "meant_app CliAppLogs = AppLogs"
| "meant_app CliListEnv = ListAppEnv"
| "meant_app (CliSetEnv k v s) = SetAppEnv (Some \<lparr>eq_key = k, eq_value = v, eq_secret = s\<rparr>)"
| "meant_app (CliUnsetEnv k) = DeleteAppEnv k"
| "meant_app CliListDomains = ListAppDomains"
| "meant_app (CliAddDomain d) = AddAppDomain (Some d)"
| "meant_app (CliVerifyDomain d) = VerifyAppDomain d"
| "meant_app (CliRemoveDomain d) = DeleteAppDomain d"

fun meant :: "client_call \<Rightarrow> http_endpoint" where
  "meant (CliSignup e n p) = Api (Public (Signup (Some \<lparr>sq_email = e, sq_name = n, sq_password = p\<rparr>)))"
| "meant (CliLogin e p) = Api (Public (Login (Some \<lparr>lq_email = e, lq_password = p\<rparr>)))"
| "meant (CliCreateToken n ss d) = Api (Account (CreateToken (Some \<lparr>tq_name = n, tq_scopes = ss, tq_expires_in_days = d\<rparr>)))"
| "meant CliListTokens = Api (Account ListTokens)"
| "meant (CliRevokeToken i) = Api (Account (DeleteToken i))"
| "meant CliMe = Api (Account Me)"
| "meant CliVersion = VersionInfo"
| "meant CliListOrgs = Api (Account ListOrgs)"
| "meant (CliCreateOrg n) = Api (Account (CreateOrg (Some n)))"
| "meant (CliListProjects g) = Api (Org g ListProjects)"
| "meant (CliCreateProject g n) = Api (Org g (CreateProject (Some n)))"
| "meant (CliListApps g) = Api (Org g ListApps)"
| "meant (CliListProjectApps g p) = Api (Org g (ListProjectApps p))"
| "meant (CliCreateApp g a) = Api (Org g (CreateApp (Some \<lparr>aq_name = ai_name a, aq_project_id = ai_project_id a,
     aq_image = ai_image a, aq_git_repository = ai_git_repository a, aq_git_branch = ai_git_branch a,
     aq_build_pack = ai_build_pack a, aq_cpu = ai_cpu a, aq_memory_mb = ai_memory_mb a, aq_region = []\<rparr>)))"
| "meant (CliApp g i c) = Api (Org g (AppRoute i (meant_app c)))"
| "meant (CliFollowAppLogs g i all_pods) = Api (Org g (AppRoute i AppLogs))"
| "meant (CliListDatabases g) = Api (Org g ListDatabases)"
| "meant (CliCreateDatabase g d) = Api (Org g (CreateDatabase (Some \<lparr>cd_name = di_name d, cd_engine = di_engine d,
     cd_project_id = di_project_id d, cd_cpu = di_cpu d, cd_memory_mb = di_memory_mb d, cd_storage_gb = di_storage_gb d,
     cd_region = []\<rparr>)))"
| "meant (CliGetDatabase g i) = Api (Org g (DatabaseRoute i GetDatabase))"
| "meant (CliDbAction g i a) = Api (Org g (DatabaseRoute i
     (case a of Deploy \<Rightarrow> DeployDatabase | Restart \<Rightarrow> RestartDatabase | Stop \<Rightarrow> StopDatabase)))"
| "meant (CliDeleteDatabase g i) = Api (Org g (DatabaseRoute i DeleteDatabase))"
| "meant CliServiceCatalog = Api (Public ServicesCatalog)"
| "meant (CliListServices g) = Api (Org g ListServices)"
| "meant (CliCreateService g p v) = Api (Org g (CreateService p (Some \<lparr>cs_template_key = si_template_key v,
     cs_name = si_name v, cs_image = [], cs_cpu = si_cpu v, cs_memory_mb = si_memory_mb v, cs_region = []\<rparr>)))"
| "meant (CliSvcAction g i a) = Api (Org g (ServiceRoute i
     (case a of Deploy \<Rightarrow> DeployService | Restart \<Rightarrow> RestartService | Stop \<Rightarrow> StopService)))"
| "meant (CliDestroyService g i) = Api (Org g (ServiceRoute i DeleteService))"
| "meant CliPlans = Api (Public BillingPlans)"
| "meant CliPricing = Api (Public BillingPricing)"

fun app_call_ids :: "app_call \<Rightarrow> string list" where
  "app_call_ids (CliGetBuild b) = [b]"
| "app_call_ids (CliUnsetEnv k) = [k]"
| "app_call_ids (CliVerifyDomain d) = [d]"
| "app_call_ids (CliRemoveDomain d) = [d]"
| "app_call_ids _ = []"

fun call_ids :: "client_call \<Rightarrow> string list" where
  "call_ids (CliRevokeToken i) = [i]"
| "call_ids (CliListProjects g) = [g]"
| "call_ids (CliCreateProject g n) = [g]"
| "call_ids (CliListApps g) = [g]"
| "call_ids (CliListProjectApps g p) = [g, p]"
| "call_ids (CliCreateApp g a) = [g]"
| "call_ids (CliApp g i c) = g # i # app_call_ids c"
| "call_ids (CliFollowAppLogs g i all_pods) = [g, i]"
| "call_ids (CliListDatabases g) = [g]"
| "call_ids (CliCreateDatabase g d) = [g]"
| "call_ids (CliGetDatabase g i) = [g, i]"
| "call_ids (CliDbAction g i a) = [g, i]"
| "call_ids (CliDeleteDatabase g i) = [g, i]"
| "call_ids (CliListServices g) = [g]"
| "call_ids (CliCreateService g p v) = [g, p]"
| "call_ids (CliSvcAction g i a) = [g, i]"
| "call_ids (CliDestroyService g i) = [g, i]"
| "call_ids _ = []"

section \<open>Every call reaches its handler\<close>

definition entry_for :: "operator_bodies \<Rightarrow> string \<Rightarrow> string \<Rightarrow> json_object option \<Rightarrow> http_endpoint \<Rightarrow> bool" where
  "entry_for ob m u b e \<longleftrightarrow> (\<exists>ps f. candidates (route_table ob) m (segments (url_path u)) = [(ps, f)] \<and> f ps (url_query u) b = e)"

lemmas table_defs = route_table_def public_entries_def account_entries_def admin_entries_def org_entries_def project_entries_def
  app_entries_def service_entries_def database_entries_def

lemmas endpoint_defs = to_app_def to_service_def to_database_def to_org_def url_param_def param_name_def

lemmas decode_defs = decode_one_text_def decode_signup_def decode_login_def decode_create_token_def decode_create_app_def
  decode_update_app_def decode_scale_app_def decode_rollback_def optional_body_def decode_set_env_def decode_create_service_def
  decode_create_database_def decode_json_def

text \<open>Decoding the body of a call.\<close>

lemma updates_read:
  "decode_update_app (Some (unless_nil ''image'' TextJson (ua_image u) @ unless_nil ''cpu'' NumberJson (ua_cpu u) @
     unless_nil ''memoryMb'' number (ua_memory_mb u) @ unless_nil ''gitRepository'' TextJson (ua_git_repository u) @
     unless_nil ''gitBranch'' TextJson (ua_git_branch u))) = Some u"
  "decode_scale_app (Some (unless_nil ''minReplicas'' number (sa_min_replicas v) @
     unless_nil ''maxReplicas'' number (sa_max_replicas v))) = Some v"
  "decode_rollback (Some (number_unless_zero ''revision'' (real_of_int n))) = Some (Some n)"
  "decode_set_env (Some ((''key'', TextJson k) # (''value'', TextJson x) # true_only ''secret'' secret)) =
     Some \<lparr>eq_key = k, eq_value = x, eq_secret = secret\<rparr>"
  "decode_one_text ''domain'' (Some [(''domain'', TextJson x)]) = Some x"
  "decode_one_text ''name'' (Some [(''name'', TextJson x)]) = Some x"
  by (simp_all add: decode_defs body_rules)

lemma no_revision: "decode_rollback None = None"
  by (simp add: decode_rollback_def optional_body_def)

lemma accounts_read:
  "decode_signup (Some [(''email'', TextJson e), (''name'', TextJson n), (''password'', TextJson p)]) =
     Some \<lparr>sq_email = e, sq_name = n, sq_password = p\<rparr>"
  "decode_login (Some [(''email'', TextJson e), (''password'', TextJson p)]) = Some \<lparr>lq_email = e, lq_password = p\<rparr>"
  "decode_create_token (Some ((''name'', TextJson n) # list_unless_empty ''scopes'' ss @
     number_unless_zero ''expiresInDays'' (real_of_int d))) = Some \<lparr>tq_name = n, tq_scopes = ss, tq_expires_in_days = d\<rparr>"
  by (simp_all add: decode_defs body_rules)

lemma creations_read:
  "decode_create_app (Some ((''name'', TextJson n) # text_unless_empty ''projectId'' p @ text_unless_empty ''image'' im @
     text_unless_empty ''gitRepository'' gr @ text_unless_empty ''gitBranch'' gb @ text_unless_empty ''buildPack'' bp @
     number_unless_zero ''cpu'' c @ number_unless_zero ''memoryMb'' (real_of_int m))) =
   Some \<lparr>aq_name = n, aq_project_id = p, aq_image = im, aq_git_repository = gr, aq_git_branch = gb, aq_build_pack = bp,
     aq_cpu = c, aq_memory_mb = m, aq_region = []\<rparr>"
  "decode_create_database (Some ((''name'', TextJson n) # text_unless_empty ''engine'' en @ text_unless_empty ''projectId'' p @
     number_unless_zero ''cpu'' c @ number_unless_zero ''memoryMb'' (real_of_int m) @
     number_unless_zero ''storageGb'' (real_of_int st))) =
   Some \<lparr>cd_name = n, cd_engine = en, cd_project_id = p, cd_cpu = c, cd_memory_mb = m, cd_storage_gb = st, cd_region = []\<rparr>"
  "decode_create_service (Some ((''templateKey'', TextJson k) # text_unless_empty ''name'' n @ number_unless_zero ''cpu'' c @
     number_unless_zero ''memoryMb'' (real_of_int m))) =
   Some \<lparr>cs_template_key = k, cs_name = n, cs_image = [], cs_cpu = c, cs_memory_mb = m, cs_region = []\<rparr>"
  by (simp_all add: decode_defs body_rules)

lemma app_calls_served:
  assumes "plain_id g" "plain_id i" "list_all plain_id (app_call_ids c)"
  shows "case app_request (app_path g i) c of (m, u, b) \<Rightarrow> entry_for ob m u b (Api (Org g (AppRoute i (meant_app c))))"
  using assms
  by (cases c) (simp_all add: app_path_def org_path_def path_rules segments_def entry_for_def table_defs endpoint_defs
     is_param_def action_text_def updates_read no_revision split: cli_action.splits)

lemma calls_served:
  assumes "list_all plain_id (call_ids c)"
  shows "case call_request c of (auth, m, u, b) \<Rightarrow> entry_for ob m u b (meant c)"
proof (cases "\<exists>g i a. c = CliApp g i a")
  case True
  then obtain g i a where c: "c = CliApp g i a" by blast
  obtain m u b where r: "app_request (app_path g i) a = (m, u, b)" by (metis prod_cases3)
  show ?thesis using assms app_calls_served [of g i a ob] by (simp add: c r)
next
  case False
  then show ?thesis using assms
    by (cases c) (simp_all add: app_path_def org_path_def db_path_def svc_path_def path_rules segments_def entry_for_def table_defs
       endpoint_defs is_param_def action_text_def updates_read accounts_read creations_read split: cli_action.splits)
qed

section \<open>Properties\<close>

text \<open>Who is asked for a bearer: everybody but at the public routes and the version.\<close>

definition needs_bearer :: "http_endpoint \<Rightarrow> bool" where
  "needs_bearer e = (case e of Api (Public _) \<Rightarrow> False | Api _ \<Rightarrow> True | _ \<Rightarrow> False)"

lemma calls_authenticate: "fst (call_request c) = needs_bearer (meant c)"
  by (cases c) (simp_all add: needs_bearer_def)



text \<open>a login by e-mail and password does not end the use of a personal access token that was stored before:
  the new session is stored beside it, and every later call still goes out under the token.\<close>

theorem password_login_keeps_pat:
  assumes "login_with_password conn email password s = (Inr (), t)" "cc_token (cl_config s) \<noteq> []"
    and "fst (call_request c)"
  shows "cl_file t = Some (Some (cl_config t)) \<and>
    (\<exists>msg. cl_sent (snd (client_run conn c t)) = cl_sent t @ [msg] \<and> cm_bearer msg = cc_token (cl_config s))"
proof -
  have kept: "cc_token (cl_config t) = cc_token (cl_config s) \<and> cl_file t = Some (Some (cl_config t))"
    using assms(1)
    by (auto simp: login_with_password_def client_run_def request_no_auth_def cli_send_def cli_finish_def set_tokens_def on_config_def
        save_config_def failE_def okE_def Let_def bindE_def split: prod.splits sum.splits if_splits list.splits)
  have one: "\<exists>msg. cl_sent (snd (bindE (cli_send conn m u b True) k t)) = cl_sent t @ [msg] \<and> cm_bearer msg = cc_token (cl_config s)"
    if "\<And>rep v. cc_token (cl_config v) \<noteq> [] \<Longrightarrow> cl_sent (snd (k rep v)) = cl_sent v"
    for m u b and k :: "reply \<Rightarrow> ('a, body) cop"
    using that kept assms(2) by (auto simp: cli_send_def bindE_def Let_def cli_bearer_def split: prod.splits sum.splits)
  have still: "cl_sent (snd (cli_finish rep v)) = cl_sent v" for rep and v :: "'a cli"
    by (simp add: cli_finish_def failE_def okE_def)
  obtain m u b where r: "call_request c = (True, m, u, b)" using assms(3) by (metis prod_cases4 fst_conv)
  show ?thesis
    using kept one [of cli_finish m u b] one [of "\<lambda>rep v. (if rp_status rep = 401 \<and> \<not> has_pat (cl_config v) \<and> cc_refresh_token (cl_config v) \<noteq> []
        then bindE (cli_refresh conn) (\<lambda>_. bindE (cli_send conn m u b True) cli_finish) else cli_finish rep) v" m u b]
    by (auto simp: client_run_def r cli_request_def still has_pat_def split: client_call.split)
qed

end
