(* ===== verification/Spec2Isabelle.thy ===== *)
theory Spec2Isabelle
  imports Metering Invoicing Reporting Webhook Billing_Service Retry Rate_Limit Provider
    Tx_Mutex Store_Properties Identity_Properties Kube_Sharding Http_Failures Reconciler_Races
    Kube_Lifecycle Kube_Tenant Kube_Backup Build_Packs Cli_Serving
begin

text \<open>
  Verification development for the Go API of the repository (\<open>apps/api/internal\<close>) and the client
  of its command line tool (\<open>apps/cli/internal\<close>): a platform on which organizations run apps,
  databases and services, and are billed for it.

  The program's parts. The HTTP layer (\<open>httpx\<close>) decodes requests and calls three services:
  \<open>identity\<close> (accounts, sessions, organizations, members, projects, invitations),
  \<open>platform\<close> (workloads) and \<open>billing\<close> (metering, invoices, the provisioning gate,
  dunning, payment providers and webhooks). All of them keep their state behind one interface,
  \<open>store.Store\<close>, implemented in memory (\<open>store/memory.go\<close>) and on Postgres. The
  platform service deploys through \<open>kube.Backend\<close> and builds images through \<open>build.Builder\<close>, both
  on a Kubernetes cluster. Background loops of the server meter and report usage, delete expired
  tokens, and bring the stored statuses of workloads in line with the cluster. The command line
  client sends the requests of the API and renews its session.

  Theories and the code they model.

    Shared: \<open>Prelude\<close> (64-bit integers, operations that return an error or a value and a new
    state, locales for orders used in sorting), \<open>Go_Map\<close> (Go maps), \<open>Go_Std\<close> (\<open>sort.Slice\<close>,
    \<open>strings\<close>), \<open>Go_Time\<close> (\<open>strconv\<close>, \<open>time\<close>).

    Data: \<open>Domain\<close> (\<open>domain/domain.go\<close>), \<open>Page\<close> (\<open>store.Page\<close>, \<open>httpx/pagination.go\<close>).

    Store: \<open>Mem_State\<close> is the record of the tables of \<open>MemoryStore\<close>; \<open>Mem_Tenancy\<close>,
    \<open>Mem_Workloads\<close>, \<open>Mem_Tokens\<close> and \<open>Mem_Billing\<close> have one definition per method, in four
    groups of tables with an invariant each; \<open>Mem_Steps\<close> composes all write methods into
    histories and proves the invariant of every reachable store; \<open>Store_Properties\<close> is what
    the store promises its callers; \<open>Tx_Mutex\<close> is its lock (\<open>txMutex\<close>, \<open>WithTx\<close>) as a step
    relation of goroutines; \<open>Store_Api\<close> is the part of the interface the billing service calls,
    as a record of operations over any state, with the locales \<open>faithful_store\<close> and its
    extensions, interpreted on the memory store and on a store that fails by a schedule.

    Billing: \<open>Billing_Pricing\<close> (\<open>catalog.go\<close>, \<open>quota.go\<close>, price list and cost in
    \<open>pricing.go\<close>), \<open>Metering\<close> (\<open>MeterUsage\<close> and what it calls), \<open>Invoicing\<close> (\<open>invoice.go\<close>,
    \<open>invoices.go\<close>: invoices, gate, spend cap, dunning), \<open>Reporting\<close> (\<open>ReportUsage\<close>,
    \<open>ReportAllUsage\<close>), \<open>Webhook\<close> (\<open>webhook.go\<close>), \<open>Provider\<close> (\<open>provider.go\<close>, \<open>stripe.go\<close>),
    \<open>Billing_Service\<close> (\<open>service.go\<close>).

    Identity: \<open>Auth_Tokens\<close> (\<open>auth/jwt.go\<close>), \<open>Identity_Text\<close> (the string helpers),
    \<open>Identity\<close> (registration, login, refresh, password reset), \<open>Identity_Orgs\<close> (organizations,
    members, projects, invitations) model \<open>identity/service.go\<close>; \<open>Identity_Sessions\<close>,
    \<open>Identity_Passwords\<close>, \<open>Identity_Members\<close> and \<open>Identity_Properties\<close> hold what its
    operations guarantee.

    Cluster: \<open>Kube_Names\<close> and \<open>Kube_Values\<close> (names, the Helm values of a workload, autoscaling,
    persistence, scheduling and the rollout view: \<open>kube/values.go\<close>, \<open>workload.go\<close>, \<open>dbengine.go\<close>,
    \<open>rollout.go\<close> and the pure part of \<open>kube.go\<close>), \<open>Kube_Gateway\<close> (the listeners of domains and
    organizations on the shared Gateways, their shards and certificates: \<open>gateway_shard.go\<close> and
    that part of \<open>kube.go\<close>) with its guarantees in \<open>Kube_Sharding\<close>, \<open>Kube_Fake\<close> (the interface
    \<open>kube.Backend\<close> as a record of operations over any cluster state, and its in-memory
    implementation \<open>fake.go\<close>), \<open>Secrets\<close> (\<open>secrets/cipher.go\<close>).

    Platform: \<open>Platform_Text\<close> (names, tags, domain names, connection strings), \<open>Platform\<close> (gates,
    quotas, placement, the workload of an app, release history, builds), \<open>Platform_Apps\<close>,
    \<open>Platform_Data\<close> (databases and catalog services) and \<open>Platform_Config\<close> (environment and custom
    domains) model \<open>platform/*.go\<close> over the store and over an arbitrary \<open>kube.Backend\<close>;
    \<open>Platform_Frames\<close>, \<open>Platform_Isolation\<close>, \<open>Platform_Gates\<close>, \<open>Platform_Releases\<close>,
    \<open>Platform_Secrets\<close> and \<open>Platform_Failures\<close> hold what its operations guarantee.

    Cluster API: \<open>Kube_Api\<close> (the objects in the cluster and the calls that change them),
    \<open>Kube_Helm\<close> (\<open>helm.go\<close>: running helm, with its retry, and \<open>Apply\<close> and \<open>Delete\<close>),
    \<open>Kube_Lifecycle\<close> (\<open>Stop\<close>, \<open>Start\<close>, \<open>Restart\<close>, \<open>Status\<close>, \<open>Logs\<close> of \<open>kube.go\<close> and \<open>metrics.go\<close>),
    \<open>Kube_Tenant\<close> (\<open>EnsureTenant\<close> and the Secrets), \<open>Kube_Backup\<close> (\<open>backup.go\<close>). Builds:
    \<open>Build_Kaniko\<close> (\<open>build/*.go\<close>), \<open>Build_Packs\<close> (\<open>kube/builder.go\<close>, \<open>buildpacks.go\<close>).

    HTTP (\<open>httpx/*.go\<close>): \<open>Http\<close> (requests, replies, origins, sessions, errors to status codes),
    \<open>Http_Handlers\<close> and \<open>Http_Admin\<close> (one definition per handler), \<open>Http_Server\<close> (the table of
    routes, the guards in front of each handler, the middleware: \<open>server.go\<close>, \<open>middleware.go\<close>);
    \<open>Http_Access\<close>, \<open>Http_Tenants\<close>, \<open>Http_Tokens\<close>, \<open>Http_Limits\<close> and \<open>Http_Failures\<close> hold what a request
    can and cannot do. \<open>Http_Paths\<close> is the table of routes by method and path, and what handlers read
    from path, query and body before they act. \<open>Reconciler\<close> and \<open>Reconciler_Races\<close> are the background passes of \<open>server.go\<close>.

    Command line client: \<open>Cli_Client\<close> (\<open>config.go\<close>, \<open>client.go\<close>, \<open>api.go\<close>, \<open>types.go\<close>, the account
    commands and the matching of names of \<open>cmd\<close>), \<open>Cli_Serving\<close> (the client against the server).

    Small components: \<open>Retry\<close> (\<open>retryx\<close>), \<open>Rate_Limit\<close> (\<open>httpx/ratelimit.go\<close>).

  How the code is rendered. A fallible method is an operation \<open>'s \<Rightarrow> ('e + 'a) \<times> 's\<close>: the error
  or the value, and the state it leaves; a failed operation keeps whatever it wrote before it
  failed. Integers of type \<open>int64\<close> are \<open>int\<close> with the wrap-around written out (\<open>wrap64\<close>) where
  sums can overflow; times are nanoseconds; money in floating point is \<open>real\<close>, so rounding of
  intermediate floats is not modelled while \<open>math.Round\<close> is. Strings are lists of characters
  read as bytes; case folding and white space are those of ASCII. A Go map is a finite list of
  distinct keys in an arbitrary order, the order Go may walk it in; results that could depend on
  that order are proved not to. \<open>sort.Slice\<close> is modelled as a stable sort; the lemmas show that
  the comparison functions order distinct rows strictly where the code's result depends on it.
  The clock, fresh ids, random tokens, bcrypt, the signature of tokens and of webhooks, the HTTP
  round trip to the payment provider and the mailer are arguments. Messages wrapped around
  errors are not modelled; which of the declared errors it is, is.

  Failures. The billing, identity and platform services run against a store each call of which may fail,
  by an arbitrary schedule, having either done its work or not. Store transactions come in both
  forms the code has: the memory store runs the body in place and keeps what a failed body
  wrote, a database takes it back, and refuses to go on once a statement failed in it. The
  platform service also runs against a cluster whose operations are arbitrary functions on its
  state, so they may fail or do anything to the cluster; the in-memory backend is one of them. The
  Gateways are changed by several control planes at once: before every call of an operation
  others may do anything a list of functions says (in the theorems: further operations on
  the pool), every call may fail, and an update of a Gateway that has changed since it was read
  is refused and repeated up to five times (\<open>RetryOnConflict\<close>). In
  \<open>Kube_Api\<close> the rest of the cluster acts before every call by an arbitrary schedule, each call may
  be lost before or after its effect, and an update of an object that changed since is refused.
  The program helm, its files, \<open>url.Parse\<close>, the parser of quantities and the log of a pod
  are arguments.

  What the lemmas show. The store: invariants of every reachable state, uniqueness of accounts,
  single use of tokens, completeness of pages, an append-only audit log. The lock: exclusion
  without overlapping transactions, and its failure with them. Metering: no hour is skipped or
  charged twice as long as the watermark can be read, a healthy tick makes progress, amounts are
  exact. Invoices: the charge, the line items, the collections state machine, the gate. Reports
  and webhooks: what the provider is billed is what the watermark records; redelivery converges.
  Identity: registration, password reset and invitations are atomic, refresh tokens are honoured
  once, every change of an organization needs a role in it, an organization keeps an owner.
  Cluster: every Gateway of the pool stays valid whatever interleaves, a custom domain is attached
  without touching another; a tenant's namespace has its quota, account and network policy,
  whatever of them was there before; a stopped workload stays at no replicas against any
  autoscaler; a dump and its restore by name are handed the same file by their shells, except for redis. Builds: what the builder is told reads
  back as what was asked for, and a build succeeds only by the end of its own Job. Platform: no call changes or reveals rows of another organization,
  calls that start work do nothing for an organization that does not pay (verifying and
  deleting a domain roll an app out again without the gate), a stopped app stays stopped, the release
  history has one current release, secrets are stored encrypted only. HTTP: a request changes
  nothing unless its user holds the role the route asks for, stays inside the organization of
  its path, and writes nothing when it comes from a foreign web site; attempts against the
  public endpoints are bounded. The reconciler turns statuses
  and the current releases only, as the backend shows them and as far as the intent in the rows
  allows. The client: every call it offers is served by the handler it means.
  Several theorems state where the code falls short of its comments; each such theorem exhibits
  the run on concrete data.

  Bounds and fuel. Loops are structural recursions or functions with a proved measure: the
  catch-up loop of the meter runs over a list of at most 48 hours, the retry loop over the
  attempts left, a page walk decreases the rows left. Two loops of the code count their attempts
  themselves, and so do their models: attaching a domain tries 8 times, recording a release 5
  times. Waiting for a Job or a namespace polls as often as the deadline allows; the number of polls
  is an argument of the model, and the theorems hold for every number.

  Not modelled: the SQL of \<open>store/postgres.go\<close> except for its transactions (the text of a query is
  interpreted by the database), the text of JSON (objects are lists
  of fields, numbers reals) and its form in answers, the router (an argument, of which the client
  relies on finding the one entry that fits), the metrics and health endpoints of \<open>httpx\<close>, the
  live log stream (copying bytes), \<open>notify\<close>, configuration, the entry points, the other commands of
  the tool with their prompts, manifests and output, the web console and the deployment files. The call of bcrypt that Login makes for an unknown account (so
  that it takes as long) has no effect in the model. A method of the memory store is one atomic
  step, which the lock grants only while no transaction overlaps (\<open>Tx_Mutex\<close>).
\<close>

end
